(* ===== verification/Prelude.thy ===== *)
theory Prelude
  imports
    Main
    "HOL-Library.AList"
    "HOL-Library.Multiset"
    "HOL-Library.Product_Lexorder"
    "HOL-Library.List_Lexorder"
    "HOL-Library.Char_ord"
    "HOL-Library.Word"
begin

text \<open>
  The shared vocabulary of the development: instants and durations, Go maps as association
  lists, comparator sorting, the string functions of the Go standard library that the
  repository uses, the identifier generator of \<^verbatim>\<open>internal/platform/id\<close> and the error
  codes of \<^verbatim>\<open>internal/platform/apperrors\<close>, with the lemmas every component needs.
\<close>

section \<open>Collections of facts\<close>

named_theorems map_simps \<open>how lookups see updates, deletions and filters of a Go map\<close>
named_theorems trim_simps \<open>facts about strings.TrimSpace\<close>
named_theorems inv_intros \<open>preservation of the component invariants\<close>

section \<open>Time\<close>

text \<open>
  An instant is the number of nanoseconds since the zero value of \<^verbatim>\<open>time.Time\<close>, so the
  zero value is \<open>0\<close>; a \<^verbatim>\<open>time.Duration\<close> is a number of nanoseconds.
\<close>

type_synonym gotime = int
type_synonym duration = int

abbreviation (input) zero_time :: gotime where
  "zero_time \<equiv> 0"

definition IsZero :: "gotime \<Rightarrow> bool" where
  "IsZero t \<longleftrightarrow> t = zero_time"

definition After :: "gotime \<Rightarrow> gotime \<Rightarrow> bool" where
  "After t u \<longleftrightarrow> u < t"

definition Millisecond :: duration where
  "Millisecond = 1000000"

definition Second :: duration where
  "Second = 1000 * Millisecond"

definition Hour :: duration where
  "Hour = 3600 * Second"

lemmas time_defs = IsZero_def After_def
lemmas duration_defs = Millisecond_def Second_def Hour_def

section \<open>Go maps\<close>

text \<open>
  A Go map is an association list with distinct keys. The order of the list is the order in
  which one \<^verbatim>\<open>range\<close> loop happens to visit the map; Go leaves that order open, and where the
  program's result should not depend on it, a theorem says that permuting the entries
  changes nothing. Lookup is \<open>map_of\<close>.
\<close>

type_synonym ('k, 'v) gomap = "('k \<times> 'v) list"

abbreviation gput :: "'k \<Rightarrow> 'v \<Rightarrow> ('k, 'v) gomap \<Rightarrow> ('k, 'v) gomap" where
  "gput \<equiv> AList.update"

abbreviation gdel :: "'k \<Rightarrow> ('k, 'v) gomap \<Rightarrow> ('k, 'v) gomap" where
  "gdel \<equiv> AList.delete"

definition gmap_wf :: "('k, 'v) gomap \<Rightarrow> bool" where
  "gmap_wf m \<longleftrightarrow> distinct (map fst m)"

text \<open>Reading a missing key gives the zero value of the element type.\<close>

definition gget0 :: "'v \<Rightarrow> ('k, 'v) gomap \<Rightarrow> 'k \<Rightarrow> 'v" where
  "gget0 z m k = (case map_of m k of None \<Rightarrow> z | Some v \<Rightarrow> v)"

text \<open>Deleting, during a \<^verbatim>\<open>range\<close> loop, every entry that satisfies a condition.\<close>

definition gdel_where :: "('k \<Rightarrow> 'v \<Rightarrow> bool) \<Rightarrow> ('k, 'v) gomap \<Rightarrow> ('k, 'v) gomap" where
  "gdel_where P m = filter (\<lambda>(k, v). \<not> P k v) m"

lemma map_of_gput [map_simps]: "map_of (gput k v m) = (map_of m)(k \<mapsto> v)"
  by (rule update_conv')

lemma map_of_gdel [map_simps]: "map_of (gdel k m) = (map_of m)(k := None)"
  by (rule delete_conv')

lemma gmap_wf_Nil [simp, intro]: "gmap_wf []"
  by (simp add: gmap_wf_def)

lemma gmap_wf_gput [simp, intro]: "gmap_wf m \<Longrightarrow> gmap_wf (gput k v m)"
  by (simp add: gmap_wf_def distinct_update)

lemma gmap_wf_gdel [simp, intro]: "gmap_wf m \<Longrightarrow> gmap_wf (gdel k m)"
  by (simp add: gmap_wf_def distinct_delete)

lemma gmap_wf_filter [simp, intro]: "gmap_wf m \<Longrightarrow> gmap_wf (filter P m)"
  by (induction m) (auto simp: gmap_wf_def)

lemma gmap_wf_gdel_where [simp, intro]: "gmap_wf m \<Longrightarrow> gmap_wf (gdel_where P m)"
  by (simp add: gdel_where_def)

lemma gmap_wf_mem_iff: "gmap_wf m \<Longrightarrow> map_of m k = Some v \<longleftrightarrow> (k, v) \<in> set m"
  by (simp add: gmap_wf_def)

lemma map_of_filter_wf:
  "gmap_wf m \<Longrightarrow>
     map_of (filter P m) k = (case map_of m k of None \<Rightarrow> None | Some v \<Rightarrow> if P (k, v) then Some v else None)"
  by (induction m) (auto simp: gmap_wf_def split: option.splits dest: map_of_SomeD
      simp: weak_map_of_SomeI map_of_eq_None_iff)

lemma map_of_gdel_where [map_simps]:
  "gmap_wf m \<Longrightarrow>
     map_of (gdel_where P m) k = (case map_of m k of None \<Rightarrow> None | Some v \<Rightarrow> if P k v then None else Some v)"
  by (simp add: gdel_where_def map_of_filter_wf split: option.splits)

lemma set_gput:
  "gmap_wf m \<Longrightarrow> set (gput k v m) = insert (k, v) {(k', v') \<in> set m. k' \<noteq> k}"
  by (induction m) (auto simp: gmap_wf_def, force)

lemma gput_same: "map_of m k = Some v \<Longrightarrow> gput k v m = m"
  by (rule update_triv)

text \<open>
  An interface for everything that is stored under a key: the laws below are what the
  components use of their maps.
\<close>

locale keyed_store =
  fixes lookup :: "'s \<Rightarrow> 'k \<Rightarrow> 'v option"
    and store :: "'k \<Rightarrow> 'v \<Rightarrow> 's \<Rightarrow> 's"
    and erase :: "'k \<Rightarrow> 's \<Rightarrow> 's"
    and invar :: "'s \<Rightarrow> bool"
  assumes lookup_store: "lookup (store k v s) = (lookup s)(k \<mapsto> v)"
    and lookup_erase: "lookup (erase k s) = (lookup s)(k := None)"
    and invar_store: "invar s \<Longrightarrow> invar (store k v s)"
    and invar_erase: "invar s \<Longrightarrow> invar (erase k s)"
begin

text \<open>A store built by a loop over a list returns the last value written to each key.\<close>

lemma lookup_fold_store:
  "lookup (fold (\<lambda>x. store (key x) (val x)) xs s) k =
     (case find (\<lambda>x. key x = k) (rev xs) of None \<Rightarrow> lookup s k | Some x \<Rightarrow> Some (val x))"
proof (induction xs arbitrary: s rule: rev_induct)
  case Nil
  then show ?case by simp
next
  case (snoc x xs)
  then show ?case by (simp add: lookup_store)
qed

lemma invar_fold_store: "invar s \<Longrightarrow> invar (fold (\<lambda>x. store (key x) (val x)) xs s)"
  by (induction xs arbitrary: s) (simp_all add: invar_store)

lemma lookup_fold_store_other:
  "k \<notin> key ` set xs \<Longrightarrow> lookup (fold (\<lambda>x. store (key x) (val x)) xs s) k = lookup s k"
  by (induction xs arbitrary: s) (auto simp: lookup_store)

lemma lookup_fold_store_cases:
  "lookup (fold (\<lambda>x. store (key x) (val x)) xs s) k = Some v \<Longrightarrow>
     (\<exists>x\<in>set xs. key x = k \<and> val x = v) \<or> lookup s k = Some v"
  by (induction xs arbitrary: s) (simp, fastforce simp: lookup_store split: if_splits)

end

interpretation gm: keyed_store map_of gput gdel gmap_wf
  by unfold_locales (simp_all add: map_simps gmap_wf_gput gmap_wf_gdel)

section \<open>Sorting with a comparator\<close>

text \<open>
  \<^verbatim>\<open>sort.SliceStable\<close> with a strict comparator \<open>lt\<close>: an element moves behind exactly the
  elements that the comparator puts before it. \<^verbatim>\<open>sort.Slice\<close> agrees with it wherever the
  comparator separates all the elements, which is proved for each use.
\<close>

fun insert_by :: "('a \<Rightarrow> 'a \<Rightarrow> bool) \<Rightarrow> 'a \<Rightarrow> 'a list \<Rightarrow> 'a list" where
  "insert_by lt x [] = [x]"
| "insert_by lt x (y # ys) = (if lt y x then y # insert_by lt x ys else x # y # ys)"

definition sort_by :: "('a \<Rightarrow> 'a \<Rightarrow> bool) \<Rightarrow> 'a list \<Rightarrow> 'a list" where
  "sort_by lt xs = foldr (insert_by lt) xs []"

lemma sort_by_simps [simp]:
  "sort_by lt [] = []"
  "sort_by lt (x # xs) = insert_by lt x (sort_by lt xs)"
  by (simp_all add: sort_by_def)

lemma mset_insert_by [simp]: "mset (insert_by lt x xs) = add_mset x (mset xs)"
  by (induction xs) auto

lemma mset_sort_by [simp]: "mset (sort_by lt xs) = mset xs"
  by (induction xs) auto

lemma set_sort_by [simp]: "set (sort_by lt xs) = set xs"
  by (metis mset_sort_by set_mset_mset)

lemma length_sort_by [simp]: "length (sort_by lt xs) = length xs"
  by (metis mset_sort_by size_mset)

lemma distinct_sort_by [simp]: "distinct (sort_by lt xs) = distinct xs"
  by (metis mset_eq_imp_distinct_iff mset_sort_by)

lemma distinct_map_sort_by [simp]: "distinct (map f (sort_by lt xs)) = distinct (map f xs)"
proof -
  have "mset (map f (sort_by lt xs)) = mset (map f xs)" by simp
  then show ?thesis by (rule mset_eq_imp_distinct_iff)
qed

lemma insert_by_cong: "(\<And>y. y \<in> set ys \<Longrightarrow> lt y x = lt' y x) \<Longrightarrow> insert_by lt x ys = insert_by lt' x ys"
  by (induction ys) auto

lemma sort_by_cong: "(\<And>x y. x \<in> set xs \<Longrightarrow> y \<in> set xs \<Longrightarrow> lt x y = lt' x y) \<Longrightarrow> sort_by lt xs = sort_by lt' xs"
  by (induction xs) (auto intro!: insert_by_cong)

text \<open>
  Every comparator of the repository compares a key: the locale states that contract, and
  the comparator sort is then the library's stable sort on that key.
\<close>

locale keyed_less =
  fixes lt :: "'a \<Rightarrow> 'a \<Rightarrow> bool"
    and key :: "'a \<Rightarrow> 'b::linorder"
  assumes lt_key: "lt x y \<longleftrightarrow> key x < key y"
begin

lemma insert_by_insort: "insert_by lt x xs = insort_key key x xs"
  by (induction xs) (auto simp: lt_key not_less)

lemma sort_by_sort_key: "sort_by lt xs = sort_key key xs"
  by (induction xs) (simp_all add: insert_by_insort)

lemma sorted_sort_by: "sorted (map key (sort_by lt xs))"
  by (simp add: sort_by_sort_key)

lemma sort_by_perm:
  assumes "mset xs = mset ys" and "inj_on key (set xs)"
  shows "sort_by lt xs = sort_by lt ys"
proof -
  have "sort_key key xs = sort_key key ys"
    by (rule sort_key_inj_key_eq) (use assms in simp_all)
  then show ?thesis by (simp add: sort_by_sort_key)
qed

text \<open>A sorted permutation is the result: the comparator fixes \<^verbatim>\<open>sort.Slice\<close> completely.\<close>

lemma sort_by_unique:
  assumes "mset ys = mset xs" and "inj_on key (set xs)" and "sorted (map key ys)"
  shows "ys = sort_by lt xs"
  using sort_key_inj_key_eq [OF assms(1) [symmetric] assms(2,3)] by (simp add: sort_by_sort_key)

end

text \<open>\<^verbatim>\<open>sort.Strings\<close>: byte-wise lexicographic order.\<close>

definition sort_strings :: "string list \<Rightarrow> string list" where
  "sort_strings xs = sort_by (<) xs"

interpretation strs: keyed_less "(<) :: string \<Rightarrow> string \<Rightarrow> bool" "\<lambda>s. s"
  by unfold_locales simp

lemma set_sort_strings [simp]: "set (sort_strings xs) = set xs"
  by (simp add: sort_strings_def)

lemma distinct_sort_strings [simp]: "distinct (sort_strings xs) = distinct xs"
  by (simp add: sort_strings_def)

lemma length_sort_strings [simp]: "length (sort_strings xs) = length xs"
  by (simp add: sort_strings_def)

lemma sort_strings_perm: "mset xs = mset ys \<Longrightarrow> sort_strings xs = sort_strings ys"
  using strs.sort_by_perm [of xs ys] by (simp add: sort_strings_def inj_on_def)

section \<open>Strings\<close>

text \<open>
  A Go string is its bytes. \<^verbatim>\<open>strings.TrimSpace\<close> removes leading and trailing Unicode white
  space; \<open>white_space\<close> lists the UTF-8 encodings of those code points, so the definition is
  exact on the bytes.
\<close>

definition white_space :: "string list" where
  "white_space =
     [[CHR 0x09], [CHR 0x0A], [CHR 0x0B], [CHR 0x0C], [CHR 0x0D], [CHR 0x20],
      [CHR 0xC2, CHR 0x85], [CHR 0xC2, CHR 0xA0], [CHR 0xE1, CHR 0x9A, CHR 0x80]] @
     map (\<lambda>c. [CHR 0xE2, CHR 0x80, c])
       [CHR 0x80, CHR 0x81, CHR 0x82, CHR 0x83, CHR 0x84, CHR 0x85, CHR 0x86, CHR 0x87,
        CHR 0x88, CHR 0x89, CHR 0x8A, CHR 0xA8, CHR 0xA9, CHR 0xAF] @
     [[CHR 0xE2, CHR 0x81, CHR 0x9F], [CHR 0xE3, CHR 0x80, CHR 0x80]]"

fun is_prefix :: "string \<Rightarrow> string \<Rightarrow> bool" where
  "is_prefix [] s = True"
| "is_prefix (c # cs) [] = False"
| "is_prefix (c # cs) (d # ds) = (c = d \<and> is_prefix cs ds)"

text \<open>\<open>strip ws s\<close> removes members of \<open>ws\<close> from the front as long as one is there.\<close>

function strip :: "string list \<Rightarrow> string \<Rightarrow> string" where
  "strip ws s =
     (case find (\<lambda>w. w \<noteq> [] \<and> is_prefix w s) ws of
        None \<Rightarrow> s
      | Some w \<Rightarrow> strip ws (drop (length w) s))"
  by pat_completeness auto
termination
proof (relation "measure (\<lambda>(ws, s). length s)")
  fix ws :: "string list" and s w
  assume "find (\<lambda>w. w \<noteq> [] \<and> is_prefix w s) ws = Some w"
  then have "w \<noteq> [] \<and> is_prefix w s" by (auto simp: find_Some_iff)
  then have "s \<noteq> [] \<and> 0 < length w" by (cases s; cases w) auto
  then show "((ws, drop (length w) s), (ws, s)) \<in> measure (\<lambda>(ws, s). length s)" by auto
qed simp

declare strip.simps [simp del]

definition TrimLeftSpace :: "string \<Rightarrow> string" where
  "TrimLeftSpace s = strip white_space s"

definition TrimRightSpace :: "string \<Rightarrow> string" where
  "TrimRightSpace s = rev (strip (map rev white_space) (rev s))"

definition TrimSpace :: "string \<Rightarrow> string" where
  "TrimSpace s = TrimRightSpace (TrimLeftSpace s)"

lemma is_prefix_iff: "is_prefix p s \<longleftrightarrow> (\<exists>r. s = p @ r)"
  by (induction p s rule: is_prefix.induct) auto

lemma strip_suffix: "\<exists>p. s = p @ strip ws s"
proof (induction ws s rule: strip.induct)
  case (1 ws s)
  show ?case
  proof (cases "find (\<lambda>w. w \<noteq> [] \<and> is_prefix w s) ws")
    case None
    then show ?thesis by (simp add: strip.simps [of ws s])
  next
    case (Some w)
    with 1 obtain p where "drop (length w) s = p @ strip ws (drop (length w) s)" by blast
    then have "s = (take (length w) s @ p) @ strip ws (drop (length w) s)"
      by (metis append.assoc append_take_drop_id)
    with Some show ?thesis by (simp only: strip.simps [of ws s] option.case) blast
  qed
qed

lemma strip_none: "find (\<lambda>w. w \<noteq> [] \<and> is_prefix w (strip ws s)) ws = None"
proof (induction ws s rule: strip.induct)
  case (1 ws s)
  then show ?case
    by (cases "find (\<lambda>w. w \<noteq> [] \<and> is_prefix w s) ws") (simp_all add: strip.simps [of ws s])
qed

lemma strip_id: "find (\<lambda>w. w \<noteq> [] \<and> is_prefix w s) ws = None \<Longrightarrow> strip ws s = s"
  by (simp add: strip.simps [of ws s])

lemma strip_idem [simp]: "strip ws (strip ws s) = strip ws s"
  by (rule strip_id [OF strip_none])

lemma strip_Nil [simp]: "strip ws [] = []"
  by (rule strip_id) (auto simp: find_None_iff elim: is_prefix.elims)

lemma TrimSpace_Nil [simp]: "TrimSpace [] = []"
  by (simp add: TrimSpace_def TrimLeftSpace_def TrimRightSpace_def)

lemma TrimRightSpace_prefix: "\<exists>r. s = TrimRightSpace s @ r"
  using strip_suffix [of "rev s" "map rev white_space"]
  by (metis TrimRightSpace_def rev_append rev_rev_ident)

lemma TrimLeft_of_TrimSpace: "TrimLeftSpace (TrimSpace s) = TrimSpace s"
proof -
  let ?l = "TrimLeftSpace s"
  obtain r where r: "?l = TrimRightSpace ?l @ r" using TrimRightSpace_prefix by blast
  have "find (\<lambda>w. w \<noteq> [] \<and> is_prefix w ?l) white_space = None"
    by (simp add: TrimLeftSpace_def strip_none)
  then have "find (\<lambda>w. w \<noteq> [] \<and> is_prefix w (TrimRightSpace ?l)) white_space = None"
    using r by (auto simp: find_None_iff is_prefix_iff)
  then show ?thesis by (simp add: TrimSpace_def TrimLeftSpace_def strip_id)
qed

lemma TrimSpace_idem [simp, trim_simps]: "TrimSpace (TrimSpace s) = TrimSpace s"
proof -
  have "TrimSpace (TrimSpace s) = TrimRightSpace (TrimSpace s)"
    by (subst TrimSpace_def) (simp only: TrimLeft_of_TrimSpace)
  also have "\<dots> = TrimSpace s" by (simp add: TrimSpace_def TrimRightSpace_def)
  finally show ?thesis .
qed

text \<open>\<open>NUL\<close> is the separator \<^verbatim>\<open>\x00\<close> of composite map keys.\<close>

abbreviation (input) NUL :: string where
  "NUL \<equiv> [CHR 0x00]"

lemma nul_join_inj:
  assumes "CHR 0x00 \<notin> set a" and "CHR 0x00 \<notin> set c"
  shows "a @ NUL @ b = c @ NUL @ d \<longleftrightarrow> a = c \<and> b = d"
  using assms
proof (induction a arbitrary: c)
  case Nil
  then show ?case by (cases c) auto
next
  case (Cons x a)
  then show ?case by (cases c) auto
qed

lemma nul_join_inj_last:
  assumes "CHR 0x00 \<notin> set b" and "CHR 0x00 \<notin> set d"
  shows "a @ NUL @ b = c @ NUL @ d \<longleftrightarrow> a = c \<and> b = d"
proof -
  have "a @ NUL @ b = c @ NUL @ d \<longleftrightarrow> rev (a @ NUL @ b) = rev (c @ NUL @ d)" by (rule rev_is_rev_conv [symmetric])
  also have "\<dots> \<longleftrightarrow> rev b @ NUL @ rev a = rev d @ NUL @ rev c" by simp
  also have "\<dots> \<longleftrightarrow> rev b = rev d \<and> rev a = rev c" by (rule nul_join_inj) (use assms in simp_all)
  finally show ?thesis by auto
qed

section \<open>Integer roots\<close>

text \<open>\<open>iroot k n\<close> is the largest \<open>r\<close> with \<open>r ^ k \<le> n\<close>, found one binary digit at a time.\<close>

function iroot :: "nat \<Rightarrow> int \<Rightarrow> int" where
  "iroot k n =
     (if n \<le> 0 \<or> k = 0 then 0
      else let r = 2 * iroot k (n div 2 ^ k) in if (r + 1) ^ k \<le> n then r + 1 else r)"
  by pat_completeness auto
termination
proof (relation "measure (\<lambda>(k, n). nat n)")
  fix k :: nat and n :: int assume "\<not> (n \<le> 0 \<or> k = 0)"
  then have "0 < n" "(2 :: int) ^ 1 \<le> 2 ^ k" by (simp, intro power_increasing) auto
  then have "n div 2 ^ k < n" by (intro int_div_less_self) auto
  with \<open>0 < n\<close> show "((k, n div 2 ^ k), (k, n)) \<in> measure (\<lambda>(k, n). nat n)" by simp
qed simp

declare iroot.simps [simp del]

section \<open>Identifiers\<close>

text \<open>
  \<^verbatim>\<open>internal/platform/id\<close>. The sixteen random bytes are an argument: \<open>None\<close> is a failed read
  of the random source.
\<close>

type_synonym entropy = "string option"

definition hex_digit :: "nat \<Rightarrow> char" where
  "hex_digit n = ''0123456789abcdef'' ! (n mod 16)"

definition hex_encode :: "string \<Rightarrow> string" where
  "hex_encode bs = concat (map (\<lambda>c. [hex_digit (of_char c div 16), hex_digit (of_char c)]) bs)"

definition trim_suffix_underscore :: "string \<Rightarrow> string" where
  "trim_suffix_underscore p = (if p \<noteq> [] \<and> last p = CHR ''_'' then butlast p else p)"

definition id_New :: "string \<Rightarrow> entropy \<Rightarrow> string" where
  "id_New prefix b =
     (case b of
        None \<Rightarrow> trim_suffix_underscore prefix @ ''_fallback''
      | Some bs \<Rightarrow> trim_suffix_underscore prefix @ ''_'' @ hex_encode bs)"

lemma id_New_nonempty [simp]: "id_New p b \<noteq> []"
  by (simp add: id_New_def split: option.splits)

section \<open>Errors\<close>

text \<open>The codes of \<^verbatim>\<open>internal/platform/apperrors\<close>.\<close>

datatype app_code =
    CodeValidation | CodeUnauthorized | CodeForbidden | CodeNotFound
  | CodeConflict | CodeRateLimited | CodeUpstreamUnavailable | CodeInternal

section \<open>Revisions\<close>

type_synonym int64 = "64 word"

lemma of_nat_int64_neq_0: "0 < n \<Longrightarrow> n < 2 ^ 64 \<Longrightarrow> (of_nat n :: int64) \<noteq> 0"
  using nat_dvd_not_less [of n "2 ^ 64"] by (simp add: word_of_nat_eq_0_iff)

text \<open>
  Optimistic concurrency, the contract of every store here whose writers present the revision
  they have read: an admissible write at the current revision is accepted and moves the revision
  of its key by one; any other write is refused and changes nothing.
\<close>

locale revision_store =
  fixes revision :: "'s \<Rightarrow> 'k \<Rightarrow> int64 option"
    and admissible :: "'v \<Rightarrow> bool"
    and try_write :: "'k \<Rightarrow> int64 \<Rightarrow> 'v \<Rightarrow> 's \<Rightarrow> 's \<times> bool"
  assumes accepts: "admissible v \<Longrightarrow> revision s k = Some n \<Longrightarrow> snd (try_write k n v s)"
    and advances: "admissible v \<Longrightarrow> revision s k = Some n \<Longrightarrow>
      revision (fst (try_write k n v s)) k' = (if k' = k then Some (n + 1) else revision s k')"
    and refuses: "\<not> (admissible v \<and> revision s k = Some n) \<Longrightarrow> try_write k n v s = (s, False)"
begin

text \<open>A history of writes, each with the revision its writer has read, and what became of each.\<close>

fun writes :: "('k \<times> int64 \<times> 'v) list \<Rightarrow> 's \<Rightarrow> 's \<times> bool list" where
  "writes [] s = (s, [])"
| "writes ((k, n, v) # ws) s =
     (fst (writes ws (fst (try_write k n v s))),
      snd (try_write k n v s) # snd (writes ws (fst (try_write k n v s))))"

definition accepted_on :: "'k \<Rightarrow> ('k \<times> int64 \<times> 'v) list \<Rightarrow> 's \<Rightarrow> nat" where
  "accepted_on k ws s = length (filter (\<lambda>(w, ok). ok \<and> fst w = k) (zip ws (snd (writes ws s))))"

lemma accepted_on_simps [simp]:
  "accepted_on k [] s = 0"
  "accepted_on k ((k', n, v) # ws) s =
     (if k' = k \<and> admissible v \<and> revision s k' = Some n then 1 else 0) +
     accepted_on k ws (fst (try_write k' n v s))"
  using accepts [of v s k' n] refuses [of v s k' n]
  by (cases "admissible v \<and> revision s k' = Some n"; simp add: accepted_on_def)+

lemma revision_counts:
  "revision s k = Some n \<Longrightarrow>
     revision (fst (writes ws s)) k = Some (n + of_nat (accepted_on k ws s))"
proof (induction ws arbitrary: s n)
  case (Cons w ws)
  obtain k' n' v where w: "w = (k', n', v)" by (cases w)
  show ?case
  proof (cases "admissible v \<and> revision s k' = Some n'")
    case True
    note step = advances [OF conjunct1 [OF True] conjunct2 [OF True], of k]
    show ?thesis
    proof (cases "k' = k")
      case eq: True
      with step Cons.prems True have "revision (fst (try_write k' n' v s)) k = Some (n' + 1)" by simp
      from Cons.IH [OF this] eq True Cons.prems show ?thesis by (simp add: w add.assoc)
    next
      case False
      with step Cons.prems have "revision (fst (try_write k' n' v s)) k = Some n" by simp
      from Cons.IH [OF this] False show ?thesis by (simp add: w)
    qed
  next
    case False
    from refuses [OF False] False Cons show ?thesis by (auto simp: w)
  qed
qed simp

text \<open>
  A writer that read its revision before others' writes to the same key were accepted is
  refused, as long as fewer than a full circle of the revision counter was accepted; with none
  accepted in between, its admissible write is accepted.
\<close>

lemma no_lost_update:
  assumes "revision s k = Some n" and "admissible v" and "accepted_on k ws s < 2 ^ 64"
  shows "if accepted_on k ws s = 0 then snd (try_write k n v (fst (writes ws s)))
    else try_write k n v (fst (writes ws s)) = (fst (writes ws s), False)"
  using revision_counts [OF assms(1), of ws] of_nat_int64_neq_0 [of "accepted_on k ws s"] assms(2,3)
  by (auto intro: accepts refuses)

end

end
