(* ===== verification/TaskQueue.thy ===== *)
theory TaskQueue
  imports Prelude
begin

text \<open>
  The durable task queue of \<^verbatim>\<open>internal/taskqueue\<close>: the data model of \<^verbatim>\<open>types.go\<close> and the
  in-memory repository of \<^verbatim>\<open>repository_memory.go\<close>, every operation of it. Each operation
  runs under the repository's mutex, so it is one atomic step: it takes the clock reading
  \<open>now\<close>, the random bytes its identifiers need and the repository, and returns the
  new repository with its result. This theory holds the definitions; \<^verbatim>\<open>TaskQueueProps\<close>
  holds the theorems.
\<close>

section \<open>Data model\<close>

text \<open>
  A status is a Go string: the nine named constants, the empty string of an unset status, and
  any other string a caller writes into a task.
\<close>

datatype TaskStatus =
    TaskStatusQueued
  | TaskStatusLeased
  | TaskStatusRunning
  | TaskStatusSucceeded
  | TaskStatusFailedRetryable
  | TaskStatusFailedTerminal
  | TaskStatusCancelling
  | TaskStatusCancelled
  | TaskStatusDeadLetter
  | TaskStatusEmpty
  | TaskStatusOther string

record Task =
  t_ID :: string
  t_TenantID :: string
  t_ProjectID :: string
  t_Type :: string
  t_Pool :: string
  t_Status :: TaskStatus
  t_Payload :: string
  t_IdempotencyKey :: string
  t_Attempt :: int
  t_MaxAttempts :: int
  t_LockedResourceType :: string
  t_LockedResourceID :: string
  t_TraceID :: string
  t_CreatedBy :: string
  t_Priority :: int
  t_RunAfter :: gotime
  t_CreatedAt :: gotime
  t_UpdatedAt :: gotime
  t_StartedAt :: gotime
  t_CompletedAt :: gotime
  t_ErrorCode :: string
  t_ErrorMessage :: string
  t_LastHeartbeatAt :: gotime
  t_LeaseExpiresAt :: gotime
  t_LeaseHolder :: string
  t_LeaseGeneration :: int64

record LeaseToken =
  lt_Holder :: string
  lt_Generation :: int64

definition Task_LeaseToken :: "Task \<Rightarrow> LeaseToken" where
  "Task_LeaseToken t = \<lparr>lt_Holder = t_LeaseHolder t, lt_Generation = t_LeaseGeneration t\<rparr>"

record TaskFailure =
  tf_Retryable :: bool
  tf_ErrorCode :: string
  tf_Message :: string

record TaskFilter =
  fl_TenantID :: string
  fl_Status :: TaskStatus
  fl_Type :: string
  fl_Pool :: string
  fl_ProjectID :: string
  fl_Limit :: int
  fl_Cursor :: string

record Event =
  ev_ID :: string
  ev_TaskID :: string
  ev_Type :: string
  ev_CreatedAt :: gotime

record PoolStats =
  ps_Queued :: int
  ps_Running :: int
  ps_Succeeded :: int
  ps_Failed :: int
  ps_DeadLetter :: int

datatype queue_error =
    ErrLeaseLost
  | AppError app_code string

section \<open>The in-memory repository\<close>

record MemoryQueueRepository =
  tasks :: "(string, Task) gomap"
  idempotencyKeys :: "(string, string) gomap"
  events :: "(string, Event list) gomap"

definition NewMemoryQueueRepository :: MemoryQueueRepository where
  "NewMemoryQueueRepository = \<lparr>tasks = [], idempotencyKeys = [], events = []\<rparr>"

definition appendEventLocked ::
  "entropy \<Rightarrow> string \<Rightarrow> string \<Rightarrow> gotime \<Rightarrow> MemoryQueueRepository \<Rightarrow> MemoryQueueRepository" where
  "appendEventLocked b taskID eventType now r =
     r\<lparr>events := gput taskID
        (gget0 [] (events r) taskID @
           [\<lparr>ev_ID = id_New ''task_event'' b, ev_TaskID = taskID, ev_Type = eventType,
             ev_CreatedAt = now\<rparr>]) (events r)\<rparr>"

text \<open>Writing through the pointer that the map holds under a key.\<close>

definition write_task :: "string \<Rightarrow> Task \<Rightarrow> MemoryQueueRepository \<Rightarrow> MemoryQueueRepository" where
  "write_task k t r = r\<lparr>tasks := gput k t (tasks r)\<rparr>"

definition ownsLease :: "Task \<Rightarrow> LeaseToken \<Rightarrow> bool" where
  "ownsLease t tok \<longleftrightarrow>
     t_LeaseHolder t = lt_Holder tok \<and> t_LeaseGeneration t = lt_Generation tok"

definition gomin :: "int \<Rightarrow> int \<Rightarrow> int" where
  "gomin a b = (if a < b then a else b)"

definition retryBackoff :: "int \<Rightarrow> duration" where
  "retryBackoff attempt =
     (let attempt = (if attempt < 1 then 1 else attempt);
          backoff = 250 * Millisecond * 2 ^ nat (gomin (attempt - 1) 12)
      in if backoff > Hour then Hour else backoff)"

subsection \<open>Enqueue\<close>

definition idem_key :: "Task \<Rightarrow> string" where
  "idem_key t = t_TenantID t @ NUL @ t_IdempotencyKey t"

text \<open>The task an idempotency key already names, if any.\<close>

definition existing_task :: "Task \<Rightarrow> MemoryQueueRepository \<Rightarrow> Task option" where
  "existing_task t r =
     (if t_IdempotencyKey t = [] then None
      else case map_of (idempotencyKeys r) (idem_key t) of
             None \<Rightarrow> None
           | Some existingID \<Rightarrow> map_of (tasks r) existingID)"

text \<open>The defaults a new task gets.\<close>

definition enqueue_defaults :: "entropy \<Rightarrow> gotime \<Rightarrow> Task \<Rightarrow> Task" where
  "enqueue_defaults b now t =
     t\<lparr>t_ID := (if t_ID t = [] then id_New ''task'' b else t_ID t),
       t_Status := (if t_Status t = TaskStatusEmpty then TaskStatusQueued else t_Status t),
       t_MaxAttempts := (if t_MaxAttempts t = 0 then 3 else t_MaxAttempts t),
       t_CreatedAt := now, t_UpdatedAt := now\<rparr>"

definition Enqueue ::
  "(nat \<Rightarrow> entropy) \<Rightarrow> gotime \<Rightarrow> Task \<Rightarrow> MemoryQueueRepository \<Rightarrow> MemoryQueueRepository \<times> Task" where
  "Enqueue bs now t r =
     (case existing_task t r of
        Some existing \<Rightarrow> (r, existing)
      | None \<Rightarrow>
          let t' = enqueue_defaults (bs 0) now t;
              r1 = write_task (t_ID t') t' r;
              r2 = appendEventLocked (bs 1) (t_ID t') ''enqueued'' now r1;
              r3 = (if t_IdempotencyKey t' \<noteq> []
                    then r2\<lparr>idempotencyKeys := gput (idem_key t') (t_ID t') (idempotencyKeys r2)\<rparr>
                    else r2)
          in (r3, t'))"

subsection \<open>Lease\<close>

definition taskResourceLock :: "Task \<Rightarrow> (string \<times> string) option" where
  "taskResourceLock t =
     (if t_LockedResourceType t = [] \<or> t_LockedResourceID t = [] then None
      else Some (t_LockedResourceType t, t_LockedResourceID t))"

definition in_flight :: "TaskStatus \<Rightarrow> bool" where
  "in_flight s \<longleftrightarrow> s = TaskStatusLeased \<or> s = TaskStatusRunning \<or> s = TaskStatusCancelling"

text \<open>Whether the first loop of \<^verbatim>\<open>Lease\<close> records the task's resource as active.\<close>

definition holds_resource :: "gotime \<Rightarrow> Task \<Rightarrow> bool" where
  "holds_resource now t \<longleftrightarrow>
     in_flight (t_Status t) \<and>
     (IsZero (t_LeaseExpiresAt t) \<or> After (t_LeaseExpiresAt t) now)"

definition activeResources :: "gotime \<Rightarrow> (string, Task) gomap \<Rightarrow> (string \<times> string) list" where
  "activeResources now m =
     List.map_filter
       (\<lambda>(k, t). if holds_resource now t then taskResourceLock t else None) m"

text \<open>Whether the second loop appends the task to \<^verbatim>\<open>readyTasks\<close>.\<close>

definition ready :: "string \<Rightarrow> gotime \<Rightarrow> Task \<Rightarrow> bool" where
  "ready pool now t \<longleftrightarrow>
     t_Pool t = pool \<and>
     \<not> (\<not> IsZero (t_RunAfter t) \<and> After (t_RunAfter t) now) \<and>
     (t_Status t = TaskStatusQueued \<or>
      in_flight (t_Status t) \<and>
        \<not> IsZero (t_LeaseExpiresAt t) \<and> \<not> After (t_LeaseExpiresAt t) now \<or>
      t_Status t = TaskStatusFailedRetryable)"

text \<open>The comparator of \<^verbatim>\<open>sort.Slice\<close>: higher priority, then older, then smaller identifier.\<close>

definition task_less :: "Task \<Rightarrow> Task \<Rightarrow> bool" where
  "task_less a b =
     (if t_Priority a \<noteq> t_Priority b then t_Priority a > t_Priority b
      else if t_CreatedAt a \<noteq> t_CreatedAt b then t_CreatedAt a < t_CreatedAt b
      else t_ID a < t_ID b)"

definition readyTasks :: "string \<Rightarrow> gotime \<Rightarrow> (string, Task) gomap \<Rightarrow> (string \<times> Task) list" where
  "readyTasks pool now m =
     sort_by (\<lambda>a b. task_less (snd a) (snd b)) (filter (\<lambda>(k, t). ready pool now t) m)"

definition lease_task :: "string \<Rightarrow> gotime \<Rightarrow> gotime \<Rightarrow> Task \<Rightarrow> Task" where
  "lease_task holder expires now t =
     t\<lparr>t_Status := TaskStatusLeased, t_LeaseHolder := holder, t_LeaseExpiresAt := expires,
       t_LeaseGeneration := t_LeaseGeneration t + 1, t_UpdatedAt := now,
       t_Attempt := (if t_Attempt t = 0 then 1 else t_Attempt t + 1),
       t_StartedAt := now, t_LastHeartbeatAt := now\<rparr>"

text \<open>
  The third loop: \<open>act\<close> is \<^verbatim>\<open>activeResources\<close>, \<open>res\<close> is \<^verbatim>\<open>leasedResources\<close>, \<open>out\<close> the tasks
  leased so far and \<open>cnt\<close> their number.
\<close>

fun lease_loop ::
  "(nat \<Rightarrow> entropy) \<Rightarrow> string \<Rightarrow> gotime \<Rightarrow> gotime \<Rightarrow> int \<Rightarrow> (string \<times> string) list \<Rightarrow>
   (string \<times> Task) list \<Rightarrow> (string \<times> string) list \<Rightarrow> nat \<Rightarrow> Task list \<Rightarrow> MemoryQueueRepository \<Rightarrow>
   MemoryQueueRepository \<times> Task list" where
  "lease_loop bs holder expires now maxTasks act [] res cnt out r = (r, out)"
| "lease_loop bs holder expires now maxTasks act ((k, t) # ts) res cnt out r =
     (if int cnt \<ge> maxTasks then (r, out)
      else case taskResourceLock t of
             Some resource \<Rightarrow>
               if List.member act resource \<or> List.member res resource
               then lease_loop bs holder expires now maxTasks act ts res cnt out r
               else let t' = lease_task holder expires now t;
                        r' = appendEventLocked (bs cnt) (t_ID t) ''leased'' now (write_task k t' r)
                    in lease_loop bs holder expires now maxTasks act ts (resource # res)
                         (Suc cnt) (out @ [t']) r'
           | None \<Rightarrow>
               let t' = lease_task holder expires now t;
                   r' = appendEventLocked (bs cnt) (t_ID t) ''leased'' now (write_task k t' r)
               in lease_loop bs holder expires now maxTasks act ts res (Suc cnt) (out @ [t']) r')"

definition Lease ::
  "(nat \<Rightarrow> entropy) \<Rightarrow> gotime \<Rightarrow> string \<Rightarrow> string \<Rightarrow> duration \<Rightarrow> int \<Rightarrow> MemoryQueueRepository \<Rightarrow>
   MemoryQueueRepository \<times> Task list" where
  "Lease bs now pool leaseHolder leaseDuration maxTasks r =
     (let maxTasks = (if maxTasks \<le> 0 then 1 else maxTasks)
      in lease_loop bs leaseHolder (now + leaseDuration) now maxTasks
           (activeResources now (tasks r)) (readyTasks pool now (tasks r)) [] 0 [] r)"

subsection \<open>Operations on a leased task\<close>

definition Heartbeat ::
  "(nat \<Rightarrow> entropy) \<Rightarrow> gotime \<Rightarrow> string \<Rightarrow> LeaseToken \<Rightarrow> duration \<Rightarrow> MemoryQueueRepository \<Rightarrow>
   MemoryQueueRepository \<times> (queue_error + unit)" where
  "Heartbeat bs now taskID tok leaseDuration r =
     (case map_of (tasks r) taskID of
        None \<Rightarrow> (r, Inl ErrLeaseLost)
      | Some t \<Rightarrow>
          if \<not> ownsLease t tok \<or>
             (t_Status t \<noteq> TaskStatusLeased \<and> t_Status t \<noteq> TaskStatusRunning)
          then (r, Inl ErrLeaseLost)
          else let t1 = t\<lparr>t_LeaseExpiresAt := now + leaseDuration, t_LastHeartbeatAt := now,
                          t_UpdatedAt := now\<rparr>
               in if t_Status t1 = TaskStatusLeased
                  then (appendEventLocked (bs 0) (t_ID t1) ''running'' now
                          (write_task taskID (t1\<lparr>t_Status := TaskStatusRunning\<rparr>) r), Inr ())
                  else (write_task taskID t1 r, Inr ()))"

definition OwnsActiveLease ::
  "gotime \<Rightarrow> string \<Rightarrow> LeaseToken \<Rightarrow> bool \<Rightarrow> MemoryQueueRepository \<Rightarrow> bool" where
  "OwnsActiveLease now taskID tok allowCancelling r =
     (case map_of (tasks r) taskID of
        None \<Rightarrow> False
      | Some t \<Rightarrow>
          if \<not> ownsLease t tok \<or> IsZero (t_LeaseExpiresAt t) \<or> \<not> After (t_LeaseExpiresAt t) now
          then False
          else t_Status t = TaskStatusLeased \<or> t_Status t = TaskStatusRunning \<or>
               (allowCancelling \<and> t_Status t = TaskStatusCancelling))"

definition Complete ::
  "(nat \<Rightarrow> entropy) \<Rightarrow> gotime \<Rightarrow> string \<Rightarrow> LeaseToken \<Rightarrow> MemoryQueueRepository \<Rightarrow>
   MemoryQueueRepository \<times> (queue_error + unit)" where
  "Complete bs now taskID tok r =
     (case map_of (tasks r) taskID of
        None \<Rightarrow> (r, Inl ErrLeaseLost)
      | Some t \<Rightarrow>
          if \<not> ownsLease t tok \<or> t_Status t \<noteq> TaskStatusRunning then (r, Inl ErrLeaseLost)
          else (appendEventLocked (bs 0) taskID ''succeeded'' now
                  (write_task taskID
                     (t\<lparr>t_Status := TaskStatusSucceeded, t_LeaseHolder := [],
                        t_LeaseExpiresAt := zero_time, t_CompletedAt := now,
                        t_UpdatedAt := now\<rparr>) r), Inr ()))"

definition Fail ::
  "(nat \<Rightarrow> entropy) \<Rightarrow> gotime \<Rightarrow> string \<Rightarrow> LeaseToken \<Rightarrow> TaskFailure \<Rightarrow> MemoryQueueRepository \<Rightarrow>
   MemoryQueueRepository \<times> (queue_error + unit)" where
  "Fail bs now taskID tok failure r =
     (case map_of (tasks r) taskID of
        None \<Rightarrow> (r, Inl ErrLeaseLost)
      | Some t \<Rightarrow>
          if \<not> ownsLease t tok \<or>
             (t_Status t \<noteq> TaskStatusLeased \<and> t_Status t \<noteq> TaskStatusRunning)
          then (r, Inl ErrLeaseLost)
          else
            let t1 = t\<lparr>t_ErrorCode := tf_ErrorCode failure, t_ErrorMessage := tf_Message failure,
                       t_UpdatedAt := now\<rparr>
            in if \<not> tf_Retryable failure
               then (appendEventLocked (bs 0) taskID ''failed'' now
                       (write_task taskID
                          (t1\<lparr>t_Status := TaskStatusFailedTerminal, t_CompletedAt := now,
                              t_LeaseHolder := [], t_LeaseExpiresAt := zero_time\<rparr>) r), Inr ())
               else if t_Attempt t1 \<ge> t_MaxAttempts t1
               then (appendEventLocked (bs 0) taskID ''dead_letter'' now
                       (write_task taskID
                          (t1\<lparr>t_Status := TaskStatusDeadLetter, t_CompletedAt := now,
                              t_LeaseHolder := [], t_LeaseExpiresAt := zero_time\<rparr>) r), Inr ())
               else (appendEventLocked (bs 0) taskID ''failed_retryable'' now
                       (write_task taskID
                          (t1\<lparr>t_Status := TaskStatusFailedRetryable, t_LeaseHolder := [],
                              t_LeaseExpiresAt := zero_time,
                              t_RunAfter := now + retryBackoff (t_Attempt t1)\<rparr>) r), Inr ()))"

definition Cancel ::
  "(nat \<Rightarrow> entropy) \<Rightarrow> gotime \<Rightarrow> string \<Rightarrow> MemoryQueueRepository \<Rightarrow>
   MemoryQueueRepository \<times> (queue_error + unit)" where
  "Cancel bs now taskID r =
     (case map_of (tasks r) taskID of
        None \<Rightarrow> (r, Inl (AppError CodeNotFound ''task not found''))
      | Some t \<Rightarrow>
          if t_Status t = TaskStatusQueued \<or> t_Status t = TaskStatusFailedRetryable
          then (appendEventLocked (bs 0) taskID ''cancelled'' now
                  (write_task taskID
                     (t\<lparr>t_Status := TaskStatusCancelled, t_CompletedAt := now, t_UpdatedAt := now,
                        t_LeaseHolder := [], t_LeaseExpiresAt := zero_time\<rparr>) r), Inr ())
          else if t_Status t = TaskStatusLeased \<or> t_Status t = TaskStatusRunning
          then (appendEventLocked (bs 0) taskID ''cancelling'' now
                  (write_task taskID
                     (t\<lparr>t_Status := TaskStatusCancelling, t_UpdatedAt := now\<rparr>) r), Inr ())
          else (r, Inr ()))"

definition MarkCancelled ::
  "(nat \<Rightarrow> entropy) \<Rightarrow> gotime \<Rightarrow> string \<Rightarrow> LeaseToken \<Rightarrow> MemoryQueueRepository \<Rightarrow>
   MemoryQueueRepository \<times> (queue_error + unit)" where
  "MarkCancelled bs now taskID tok r =
     (case map_of (tasks r) taskID of
        None \<Rightarrow> (r, Inl ErrLeaseLost)
      | Some t \<Rightarrow>
          if \<not> ownsLease t tok \<or> t_Status t \<noteq> TaskStatusCancelling then (r, Inl ErrLeaseLost)
          else (appendEventLocked (bs 0) taskID ''cancelled'' now
                  (write_task taskID
                     (t\<lparr>t_Status := TaskStatusCancelled, t_CompletedAt := now, t_UpdatedAt := now,
                        t_LeaseHolder := [], t_LeaseExpiresAt := zero_time\<rparr>) r), Inr ()))"

definition Retry ::
  "(nat \<Rightarrow> entropy) \<Rightarrow> gotime \<Rightarrow> string \<Rightarrow> MemoryQueueRepository \<Rightarrow>
   MemoryQueueRepository \<times> (queue_error + Task)" where
  "Retry bs now taskID r =
     (case map_of (tasks r) taskID of
        None \<Rightarrow> (r, Inl (AppError CodeNotFound ''task not found''))
      | Some t \<Rightarrow>
          if t_Status t = TaskStatusDeadLetter \<or> t_Status t = TaskStatusFailedTerminal \<or>
             t_Status t = TaskStatusCancelled
          then let t' = t\<lparr>t_Status := TaskStatusQueued, t_Attempt := 0, t_RunAfter := now,
                          t_UpdatedAt := now, t_CompletedAt := zero_time, t_ErrorCode := [],
                          t_ErrorMessage := []\<rparr>
               in (appendEventLocked (bs 0) taskID ''manual_retry'' now (write_task taskID t' r),
                   Inr t')
          else (r, Inl (AppError CodeConflict ''task is not eligible for manual retry'')))"

subsection \<open>Reads\<close>

definition Get :: "string \<Rightarrow> MemoryQueueRepository \<Rightarrow> Task option" where
  "Get taskID r = map_of (tasks r) taskID"

text \<open>The filters of \<^verbatim>\<open>List\<close> after the cursor has been found.\<close>

definition filter_match :: "TaskFilter \<Rightarrow> Task \<Rightarrow> bool" where
  "filter_match f t \<longleftrightarrow>
     \<not> (fl_Status f \<noteq> TaskStatusEmpty \<and> t_Status t \<noteq> fl_Status f) \<and>
     \<not> (fl_Type f \<noteq> [] \<and> t_Type t \<noteq> fl_Type f) \<and>
     \<not> (fl_Pool f \<noteq> [] \<and> t_Pool t \<noteq> fl_Pool f) \<and>
     \<not> (fl_ProjectID f \<noteq> [] \<and> t_ProjectID t \<noteq> fl_ProjectID f)"

definition tenant_match :: "TaskFilter \<Rightarrow> Task \<Rightarrow> bool" where
  "tenant_match f t \<longleftrightarrow> \<not> (fl_TenantID f \<noteq> [] \<and> t_TenantID t \<noteq> fl_TenantID f)"

text \<open>
  The loop over the sorted identifiers: \<open>started\<close> is \<^verbatim>\<open>startFound\<close>, \<open>n\<close> is how many more
  results fit. An identifier of the list is always a key of the map.
\<close>

fun list_loop ::
  "TaskFilter \<Rightarrow> (string, Task) gomap \<Rightarrow> bool \<Rightarrow> nat \<Rightarrow> string list \<Rightarrow> Task list" where
  "list_loop f m started n [] = []"
| "list_loop f m started n (i # is) =
     (case map_of m i of
        None \<Rightarrow> list_loop f m started n is
      | Some t \<Rightarrow>
          if \<not> tenant_match f t then list_loop f m started n is
          else if \<not> started then list_loop f m (i = fl_Cursor f) n is
          else if \<not> filter_match f t then list_loop f m started n is
          else if n \<le> 1 then [t]
          else t # list_loop f m started (n - 1) is)"

definition list_limit :: "TaskFilter \<Rightarrow> int" where
  "list_limit f = (if fl_Limit f \<le> 0 then 50 else fl_Limit f)"

definition ListTasks :: "TaskFilter \<Rightarrow> MemoryQueueRepository \<Rightarrow> Task list \<times> string" where
  "ListTasks f r =
     (let limit = list_limit f;
          result = list_loop f (tasks r) (fl_Cursor f = []) (nat limit)
                     (sort_strings (map fst (tasks r)));
          next = (if int (length result) = limit \<and> result \<noteq> [] then t_ID (last result) else [])
      in (result, next))"

text \<open>Where the page after \<open>cursor\<close> starts; an unknown cursor starts at the beginning.\<close>

fun event_start :: "string \<Rightarrow> nat \<Rightarrow> Event list \<Rightarrow> nat" where
  "event_start cursor i [] = 0"
| "event_start cursor i (e # es) = (if ev_ID e = cursor then i + 1 else event_start cursor (i + 1) es)"

definition ListEvents ::
  "string \<Rightarrow> string \<Rightarrow> int \<Rightarrow> MemoryQueueRepository \<Rightarrow> queue_error + (Event list \<times> string)" where
  "ListEvents taskID cursor limit r =
     (case map_of (tasks r) taskID of
        None \<Rightarrow> Inl (AppError CodeNotFound ''task not found'')
      | Some _ \<Rightarrow>
          let limit = (if limit \<le> 0 \<or> limit > 100 then 20 else nat limit);
              evs = gget0 [] (events r) taskID;
              start = (if cursor \<noteq> [] then event_start cursor 0 evs else 0);
              stop = (if start + limit > length evs then length evs else start + limit);
              out = take (stop - start) (drop start evs);
              next = (if stop < length evs \<and> out \<noteq> [] then ev_ID (last out) else [])
          in Inr (out, next))"

definition zero_stats :: PoolStats where
  "zero_stats = \<lparr>ps_Queued = 0, ps_Running = 0, ps_Succeeded = 0, ps_Failed = 0, ps_DeadLetter = 0\<rparr>"

definition count_status :: "TaskStatus \<Rightarrow> PoolStats \<Rightarrow> PoolStats" where
  "count_status s c =
     (case s of
        TaskStatusQueued \<Rightarrow> c\<lparr>ps_Queued := ps_Queued c + 1\<rparr>
      | TaskStatusFailedRetryable \<Rightarrow> c\<lparr>ps_Queued := ps_Queued c + 1\<rparr>
      | TaskStatusLeased \<Rightarrow> c\<lparr>ps_Running := ps_Running c + 1\<rparr>
      | TaskStatusRunning \<Rightarrow> c\<lparr>ps_Running := ps_Running c + 1\<rparr>
      | TaskStatusCancelling \<Rightarrow> c\<lparr>ps_Running := ps_Running c + 1\<rparr>
      | TaskStatusSucceeded \<Rightarrow> c\<lparr>ps_Succeeded := ps_Succeeded c + 1\<rparr>
      | TaskStatusDeadLetter \<Rightarrow> c\<lparr>ps_DeadLetter := ps_DeadLetter c + 1\<rparr>
      | TaskStatusFailedTerminal \<Rightarrow> c\<lparr>ps_Failed := ps_Failed c + 1\<rparr>
      | TaskStatusCancelled \<Rightarrow> c\<lparr>ps_Failed := ps_Failed c + 1\<rparr>
      | _ \<Rightarrow> c)"

definition Stats :: "string \<Rightarrow> MemoryQueueRepository \<Rightarrow> (string, PoolStats) gomap" where
  "Stats tenantID r =
     fold (\<lambda>(k, t) stats.
             if t_TenantID t \<noteq> tenantID then stats
             else gput (t_Pool t) (count_status (t_Status t) (gget0 zero_stats stats (t_Pool t))) stats)
       (tasks r) []"

end
