(* ===== verification/TaskQueueLemmas.thy ===== *)
theory TaskQueueLemmas
  imports TaskQueue
begin

text \<open>
  The library under the theorems on the task queue: the structure of one \<^verbatim>\<open>Lease\<close> (which
  entries it picks and what it writes), the queue as a transition system over its operations
  (\<open>queue_step\<close>, \<open>queue_run\<close>, \<open>queue_reachable\<close>), its representation invariant \<open>queue_wf\<close>, and
  the relation \<open>task_step\<close> that says how one task may change in a step.
\<close>

section \<open>The structure of Lease\<close>

text \<open>
  The third loop of \<^verbatim>\<open>Lease\<close> decides which entries it takes without looking at the
  repository: \<open>pick\<close> is that decision, \<open>lease_writes\<close> what is then written.
\<close>

fun pick ::
  "int \<Rightarrow> (string \<times> string) list \<Rightarrow> (string \<times> Task) list \<Rightarrow> (string \<times> string) list \<Rightarrow> nat \<Rightarrow>
   (string \<times> Task) list" where
  "pick maxTasks act [] res n = []"
| "pick maxTasks act ((k, t) # ts) res n =
     (if int n \<ge> maxTasks then []
      else case taskResourceLock t of
             None \<Rightarrow> (k, t) # pick maxTasks act ts res (Suc n)
           | Some l \<Rightarrow>
               if l \<in> set act \<or> l \<in> set res then pick maxTasks act ts res n
               else (k, t) # pick maxTasks act ts (l # res) (Suc n))"

fun lease_writes ::
  "(nat \<Rightarrow> entropy) \<Rightarrow> string \<Rightarrow> gotime \<Rightarrow> gotime \<Rightarrow> nat \<Rightarrow> (string \<times> Task) list \<Rightarrow>
   MemoryQueueRepository \<Rightarrow> MemoryQueueRepository" where
  "lease_writes bs h e now n [] r = r"
| "lease_writes bs h e now n ((k, t) # ps) r =
     lease_writes bs h e now (Suc n) ps
       (appendEventLocked (bs n) (t_ID t) ''leased'' now (write_task k (lease_task h e now t) r))"

definition picked :: "gotime \<Rightarrow> string \<Rightarrow> int \<Rightarrow> MemoryQueueRepository \<Rightarrow> (string \<times> Task) list" where
  "picked now pool maxTasks r =
     pick (if maxTasks \<le> 0 then 1 else maxTasks) (activeResources now (tasks r))
       (readyTasks pool now (tasks r)) [] 0"

lemma lease_loop_pick:
  "lease_loop bs h e now m act ts res n out r =
     (lease_writes bs h e now n (pick m act ts res n) r,
      out @ map (\<lambda>(k, t). lease_task h e now t) (pick m act ts res n))"
  by (induction m act ts res n arbitrary: out r rule: pick.induct)
    (simp_all add: Let_def split: option.splits)

lemma Lease_picked:
  "Lease bs now pool h d m r =
     (lease_writes bs h (now + d) now 0 (picked now pool m r) r,
      map (\<lambda>(k, t). lease_task h (now + d) now t) (picked now pool m r))"
  by (simp add: Lease_def Let_def lease_loop_pick picked_def)

lemma tasks_appendEvent [simp]:
  "tasks (appendEventLocked b i e now r) = tasks r"
  "idempotencyKeys (appendEventLocked b i e now r) = idempotencyKeys r"
  by (simp_all add: appendEventLocked_def)

lemma tasks_write_task [simp]:
  "tasks (write_task k t r) = gput k t (tasks r)"
  "idempotencyKeys (write_task k t r) = idempotencyKeys r"
  "events (write_task k t r) = events r"
  by (simp_all add: write_task_def)

lemma lease_writes_frame [simp]:
  "tasks (lease_writes bs h e now n ps r) = fold (\<lambda>p. gput (fst p) (lease_task h e now (snd p))) ps (tasks r)"
  "idempotencyKeys (lease_writes bs h e now n ps r) = idempotencyKeys r"
  by (induction bs h e now n ps r rule: lease_writes.induct) simp_all

lemma lease_task_sel [simp]:
  "t_ID (lease_task h e now t) = t_ID t"
  "t_Status (lease_task h e now t) = TaskStatusLeased"
  "t_LeaseHolder (lease_task h e now t) = h"
  "t_LeaseExpiresAt (lease_task h e now t) = e"
  "t_LeaseGeneration (lease_task h e now t) = t_LeaseGeneration t + 1"
  "taskResourceLock (lease_task h e now t) = taskResourceLock t"
  by (simp_all add: lease_task_def taskResourceLock_def)

lemma set_pick: "set (pick m act ts res n) \<subseteq> set ts"
  by (induction m act ts res n rule: pick.induct) (auto split: option.splits)

lemma length_pick: "int n + int (length (pick m act ts res n)) \<le> max m (int n)"
  by (induction m act ts res n rule: pick.induct) (auto split: option.splits)

lemma distinct_pick: "distinct (map f ts) \<Longrightarrow> distinct (map f (pick m act ts res n))"
proof (induction m act ts res n rule: pick.induct)
  case (2 m act k t ts res n)
  have "f (k, t) \<notin> f ` set (pick m act ts res' n')" for res' n'
    using "2.prems" set_pick by (fastforce simp del: prod.exhaust)
  with 2 show ?case by (auto split: option.splits)
qed simp

lemma sorted_pick: "sorted (map f ts) \<Longrightarrow> sorted (map f (pick m act ts res n))"
proof (induction m act ts res n rule: pick.induct)
  case (2 m act k t ts res n)
  have "set (pick m act ts res' n') \<subseteq> set ts" for res' n' by (rule set_pick)
  with 2 show ?case by (fastforce split: option.splits)
qed simp

text \<open>No picked entry needs a resource that is active, already taken, or picked before it.\<close>

lemma pick_resources:
  "(k, t) \<in> set (pick m act ts res n) \<Longrightarrow> taskResourceLock t = Some l \<Longrightarrow> l \<notin> set act \<and> l \<notin> set res"
  by (induction m act ts res n rule: pick.induct) (auto split: option.splits if_splits)

lemma pick_resources_distinct:
  "distinct (List.map_filter (\<lambda>(k, t). taskResourceLock t) (pick m act ts res n))"
proof (induction m act ts res n rule: pick.induct)
  case (2 m act k t ts res n)
  have "l \<notin> set (List.map_filter (\<lambda>(k, t). taskResourceLock t) (pick m act ts (l # res) n'))" for l n'
    by (auto simp: List.map_filter_def dest!: pick_resources)
  with 2 show ?case by (auto simp: map_filter_simps split: option.splits)
qed (simp add: map_filter_simps)

text \<open>The resources that a list of entries locks.\<close>

definition locks :: "(string \<times> Task) list \<Rightarrow> (string \<times> string) set" where
  "locks ps = {l. \<exists>k t. (k, t) \<in> set ps \<and> taskResourceLock t = Some l}"

lemma locks_Cons [simp]:
  "locks ((k, t) # ps) = (case taskResourceLock t of None \<Rightarrow> locks ps | Some l \<Rightarrow> insert l (locks ps))"
  by (auto simp: locks_def split: option.splits)

text \<open>
  An entry that is passed over has its resource taken, unless the batch is full; then no
  entry behind it in the order was picked.
\<close>

lemma pick_complete:
  fixes f :: "string \<times> Task \<Rightarrow> 'o::linorder"
  shows "sorted (map f ts) \<Longrightarrow> (k, t) \<in> set ts \<Longrightarrow> (k, t) \<notin> set (pick m act ts res n) \<Longrightarrow>
     (\<exists>l. taskResourceLock t = Some l \<and> l \<in> set act \<union> set res \<union> locks (pick m act ts res n)) \<or>
     m \<le> int n + int (length (pick m act ts res n)) \<and> (\<forall>p \<in> set (pick m act ts res n). f p \<le> f (k, t))"
proof (induction m act ts res n rule: pick.induct)
  case (2 m act k' t' ts res n)
  show ?case
  proof (cases "m \<le> int n")
    case False
    note n = False
    from "2.prems"(1) have so: "sorted (map f ts)" and le: "\<And>p. p \<in> set ts \<Longrightarrow> f (k', t') \<le> f p" by auto
    show ?thesis
    proof (cases "taskResourceLock t'")
      case None
      with n have eq: "pick m act ((k', t') # ts) res n = (k', t') # pick m act ts res (Suc n)" by simp
      from "2.prems"(2,3) have "(k, t) \<in> set ts" "(k, t) \<notin> set (pick m act ts res (Suc n))"
        unfolding eq by auto
      from "2.IH"(1) [OF n None so this] le [OF this(1)] show ?thesis unfolding eq by (auto simp: None)
    next
      case (Some l)
      show ?thesis
      proof (cases "l \<in> set act \<or> l \<in> set res")
        case True
        with n Some have eq: "pick m act ((k', t') # ts) res n = pick m act ts res n" by simp
        show ?thesis
        proof (cases "(k, t) = (k', t')")
          case True
          with Some \<open>l \<in> set act \<or> l \<in> set res\<close> show ?thesis by auto
        next
          case False
          with "2.prems"(2) have "(k, t) \<in> set ts" by auto
          from "2.IH"(2) [OF n Some True so this] "2.prems"(3) show ?thesis unfolding eq by simp
        qed
      next
        case False
        with n Some
        have eq: "pick m act ((k', t') # ts) res n = (k', t') # pick m act ts (l # res) (Suc n)" by simp
        from "2.prems"(2,3) have "(k, t) \<in> set ts" "(k, t) \<notin> set (pick m act ts (l # res) (Suc n))"
          unfolding eq by auto
        from "2.IH"(3) [OF n Some False so this] le [OF this(1)] show ?thesis
          unfolding eq by (auto simp: Some)
      qed
    qed
  qed simp
qed simp

lemma pick_cong: "set act = set act' \<Longrightarrow> pick m act ts res n = pick m act' ts res n"
  by (induction m act ts res n rule: pick.induct) (simp_all split: option.splits)

section \<open>The queue as a transition system\<close>

text \<open>
  An operation with the arguments its caller chooses. A step adds what the environment
  chooses: the clock reading and the random bytes.
\<close>

datatype queue_op =
    OpEnqueue Task
  | OpLease string string duration int
  | OpHeartbeat string LeaseToken duration
  | OpComplete string LeaseToken
  | OpFail string LeaseToken TaskFailure
  | OpCancel string
  | OpMarkCancelled string LeaseToken
  | OpRetry string

fun queue_step :: "(nat \<Rightarrow> entropy) \<Rightarrow> gotime \<Rightarrow> queue_op \<Rightarrow> MemoryQueueRepository \<Rightarrow> MemoryQueueRepository" where
  "queue_step bs now (OpEnqueue t) r = fst (Enqueue bs now t r)"
| "queue_step bs now (OpLease pool h d m) r = fst (Lease bs now pool h d m r)"
| "queue_step bs now (OpHeartbeat i tok d) r = fst (Heartbeat bs now i tok d r)"
| "queue_step bs now (OpComplete i tok) r = fst (Complete bs now i tok r)"
| "queue_step bs now (OpFail i tok f) r = fst (Fail bs now i tok f r)"
| "queue_step bs now (OpCancel i) r = fst (Cancel bs now i r)"
| "queue_step bs now (OpMarkCancelled i tok) r = fst (MarkCancelled bs now i tok r)"
| "queue_step bs now (OpRetry i) r = fst (Retry bs now i r)"

type_synonym queue_event = "(nat \<Rightarrow> entropy) \<times> gotime \<times> queue_op"

fun queue_run :: "queue_event list \<Rightarrow> MemoryQueueRepository \<Rightarrow> MemoryQueueRepository" where
  "queue_run [] r = r"
| "queue_run ((bs, now, op) # es) r = queue_run es (queue_step bs now op r)"

inductive queue_reachable :: "MemoryQueueRepository \<Rightarrow> bool" where
  init: "queue_reachable NewMemoryQueueRepository"
| step: "queue_reachable r \<Longrightarrow> queue_reachable (queue_step bs now op r)"

text \<open>
  How a single task may change, once it is in the queue. One rule per transition of the code,
  with the code's condition as its premise: \<open>task_renew\<close> for \<^verbatim>\<open>Heartbeat\<close>, \<open>task_change\<close>
  for the other operations that name a task, \<open>task_edit\<close> for both and \<open>task_step\<close> for these and
  for \<^verbatim>\<open>Lease\<close>.
\<close>

inductive task_renew :: "gotime \<Rightarrow> Task \<Rightarrow> Task \<Rightarrow> bool" for now where
  ts_start: "t_Status t = TaskStatusLeased \<Longrightarrow>
    task_renew now t (t\<lparr>t_LeaseExpiresAt := e, t_LastHeartbeatAt := now, t_UpdatedAt := now,
      t_Status := TaskStatusRunning\<rparr>)"
| ts_renew: "t_Status t = TaskStatusRunning \<Longrightarrow>
    task_renew now t (t\<lparr>t_LeaseExpiresAt := e, t_LastHeartbeatAt := now, t_UpdatedAt := now\<rparr>)"

inductive task_change :: "gotime \<Rightarrow> Task \<Rightarrow> Task \<Rightarrow> bool" for now where
  ts_complete: "t_Status t = TaskStatusRunning \<Longrightarrow>
    task_change now t (t\<lparr>t_Status := TaskStatusSucceeded, t_LeaseHolder := [],
      t_LeaseExpiresAt := zero_time, t_CompletedAt := now, t_UpdatedAt := now\<rparr>)"
| ts_fail: "t_Status t = TaskStatusLeased \<or> t_Status t = TaskStatusRunning \<Longrightarrow>
    task_change now t (t\<lparr>t_ErrorCode := c, t_ErrorMessage := msg, t_UpdatedAt := now,
      t_Status := TaskStatusFailedTerminal, t_CompletedAt := now, t_LeaseHolder := [],
      t_LeaseExpiresAt := zero_time\<rparr>)"
| ts_dead: "t_Status t = TaskStatusLeased \<or> t_Status t = TaskStatusRunning \<Longrightarrow>
    t_MaxAttempts t \<le> t_Attempt t \<Longrightarrow>
    task_change now t (t\<lparr>t_ErrorCode := c, t_ErrorMessage := msg, t_UpdatedAt := now,
      t_Status := TaskStatusDeadLetter, t_CompletedAt := now, t_LeaseHolder := [],
      t_LeaseExpiresAt := zero_time\<rparr>)"
| ts_retry_later: "t_Status t = TaskStatusLeased \<or> t_Status t = TaskStatusRunning \<Longrightarrow>
    t_Attempt t < t_MaxAttempts t \<Longrightarrow>
    task_change now t (t\<lparr>t_ErrorCode := c, t_ErrorMessage := msg, t_UpdatedAt := now,
      t_Status := TaskStatusFailedRetryable, t_LeaseHolder := [], t_LeaseExpiresAt := zero_time,
      t_RunAfter := now + retryBackoff (t_Attempt t)\<rparr>)"
| ts_cancel_waiting: "t_Status t = TaskStatusQueued \<or> t_Status t = TaskStatusFailedRetryable \<Longrightarrow>
    task_change now t (t\<lparr>t_Status := TaskStatusCancelled, t_CompletedAt := now, t_UpdatedAt := now,
      t_LeaseHolder := [], t_LeaseExpiresAt := zero_time\<rparr>)"
| ts_cancel_active: "t_Status t = TaskStatusLeased \<or> t_Status t = TaskStatusRunning \<Longrightarrow>
    task_change now t (t\<lparr>t_Status := TaskStatusCancelling, t_UpdatedAt := now\<rparr>)"
| ts_cancelled: "t_Status t = TaskStatusCancelling \<Longrightarrow>
    task_change now t (t\<lparr>t_Status := TaskStatusCancelled, t_CompletedAt := now, t_UpdatedAt := now,
      t_LeaseHolder := [], t_LeaseExpiresAt := zero_time\<rparr>)"
| ts_manual: "t_Status t = TaskStatusDeadLetter \<or> t_Status t = TaskStatusFailedTerminal \<or>
      t_Status t = TaskStatusCancelled \<Longrightarrow>
    task_change now t (t\<lparr>t_Status := TaskStatusQueued, t_Attempt := 0, t_RunAfter := now,
      t_UpdatedAt := now, t_CompletedAt := zero_time, t_ErrorCode := [], t_ErrorMessage := []\<rparr>)"

inductive task_edit :: "gotime \<Rightarrow> Task \<Rightarrow> Task \<Rightarrow> bool" for now where
  "task_renew now t t' \<Longrightarrow> task_edit now t t'"
| "task_change now t t' \<Longrightarrow> task_edit now t t'"

inductive task_step :: "gotime \<Rightarrow> Task \<Rightarrow> Task \<Rightarrow> bool" for now where
  ts_lease: "ready pool now t \<Longrightarrow> task_step now t (lease_task h e now t)"
| ts_edit: "task_edit now t t' \<Longrightarrow> task_step now t t'"

text \<open>Every operation that names one task either fails or makes one of these transitions on it.\<close>

definition updates_task ::
  "(gotime \<Rightarrow> Task \<Rightarrow> Task \<Rightarrow> bool) \<Rightarrow> gotime \<Rightarrow> string \<Rightarrow> MemoryQueueRepository \<Rightarrow>
   MemoryQueueRepository \<Rightarrow> bool" where
  "updates_task R now i r r' \<longleftrightarrow>
     r' = r \<or>
     (\<exists>t t' b e. map_of (tasks r) i = Some t \<and> R now t t' \<and>
        (r' = write_task i t' r \<or>
         r' = appendEventLocked b i e now (write_task i t' r) \<or>
         r' = appendEventLocked b (t_ID t) e now (write_task i t' r)))"

lemma updates_task_refl [intro]: "updates_task R now i r r"
  by (simp add: updates_task_def)

lemma updates_task_mono:
  "updates_task R now i r r' \<Longrightarrow> (\<And>t t'. R now t t' \<Longrightarrow> R' now t t') \<Longrightarrow> updates_task R' now i r r'"
  unfolding updates_task_def by blast

lemma updates_task_I:
  assumes "map_of (tasks r) i = Some t" and "R now t t'"
  shows "updates_task R now i r (write_task i t' r)"
    and "updates_task R now i r (appendEventLocked b i e now (write_task i t' r))"
    and "updates_task R now i r (appendEventLocked b (t_ID t) e now (write_task i t' r))"
  using assms by (auto simp: updates_task_def)

lemma Heartbeat_updates: "updates_task task_renew now i r (fst (Heartbeat bs now i tok d r))"
  by (cases "map_of (tasks r) i") (auto simp: Heartbeat_def Let_def intro!: updates_task_I task_renew.intros)

lemma Complete_updates: "updates_task task_change now i r (fst (Complete bs now i tok r))"
  by (cases "map_of (tasks r) i") (auto simp: Complete_def intro!: updates_task_I task_change.intros)

lemma Fail_updates: "updates_task task_change now i r (fst (Fail bs now i tok f r))"
  by (cases "map_of (tasks r) i") (auto simp: Fail_def Let_def intro!: updates_task_I task_change.intros)

lemma Cancel_updates: "updates_task task_change now i r (fst (Cancel bs now i r))"
  by (cases "map_of (tasks r) i") (auto simp: Cancel_def intro: updates_task_I task_change.intros)

lemma MarkCancelled_updates: "updates_task task_change now i r (fst (MarkCancelled bs now i tok r))"
  by (cases "map_of (tasks r) i") (auto simp: MarkCancelled_def intro: updates_task_I task_change.intros)

lemma Retry_updates: "updates_task task_change now i r (fst (Retry bs now i r))"
  by (cases "map_of (tasks r) i") (auto simp: Retry_def Let_def intro!: updates_task_I task_change.intros)

text \<open>The task an operation names.\<close>

fun op_target :: "queue_op \<Rightarrow> string option" where
  "op_target (OpEnqueue t) = None"
| "op_target (OpLease pool h d m) = None"
| "op_target (OpHeartbeat i tok d) = Some i"
| "op_target (OpComplete i tok) = Some i"
| "op_target (OpFail i tok f) = Some i"
| "op_target (OpCancel i) = Some i"
| "op_target (OpMarkCancelled i tok) = Some i"
| "op_target (OpRetry i) = Some i"

lemma queue_step_changes:
  "op_target op = Some i \<Longrightarrow> (\<And>tok d. op \<noteq> OpHeartbeat i tok d) \<Longrightarrow>
     updates_task task_change now i r (queue_step bs now op r)"
  by (cases op) (auto simp: Complete_updates Fail_updates Cancel_updates MarkCancelled_updates Retry_updates)

lemma queue_step_updates: "op_target op = Some i \<Longrightarrow> updates_task task_edit now i r (queue_step bs now op r)"
  by (cases op)
    (auto intro: updates_task_mono [OF Heartbeat_updates] updates_task_mono [OF Complete_updates]
      updates_task_mono [OF Fail_updates] updates_task_mono [OF Cancel_updates]
      updates_task_mono [OF MarkCancelled_updates] updates_task_mono [OF Retry_updates] task_edit.intros)

lemma queue_op_cases:
  obtains t where "op = OpEnqueue t" | pool h d m where "op = OpLease pool h d m"
    | i where "op_target op = Some i"
  by (cases op) auto

section \<open>The representation invariant\<close>

text \<open>
  Tasks are stored under their own non-empty identifier, every task has a timeline, and an
  idempotency key names a task that exists.
\<close>

definition queue_wf :: "MemoryQueueRepository \<Rightarrow> bool" where
  "queue_wf r \<longleftrightarrow>
     gmap_wf (tasks r) \<and> gmap_wf (idempotencyKeys r) \<and> gmap_wf (events r) \<and>
     (\<forall>k t. map_of (tasks r) k = Some t \<longrightarrow> t_ID t = k \<and> k \<noteq> [] \<and> gget0 [] (events r) k \<noteq> []) \<and>
     (\<forall>key i. map_of (idempotencyKeys r) key = Some i \<longrightarrow> map_of (tasks r) i \<noteq> None)"

lemma queue_wfD:
  assumes "queue_wf r"
  shows "gmap_wf (tasks r)"
    and "map_of (tasks r) k = Some t \<Longrightarrow> t_ID t = k"
    and "map_of (tasks r) k = Some t \<Longrightarrow> k \<noteq> []"
  using assms by (auto simp: queue_wf_def)

lemma task_step_frame:
  assumes "task_step now t t'"
  shows "t_ID t' = t_ID t" and "t_TenantID t' = t_TenantID t" and "t_Pool t' = t_Pool t"
    and "t_MaxAttempts t' = t_MaxAttempts t" and "t_CreatedAt t' = t_CreatedAt t"
    and "taskResourceLock t' = taskResourceLock t" and "t_UpdatedAt t' = now"
  using assms by (auto elim!: task_step.cases task_edit.cases task_renew.cases task_change.cases simp: lease_task_def taskResourceLock_def)

lemma task_edit_generation: "task_edit now t t' \<Longrightarrow> t_LeaseGeneration t' = t_LeaseGeneration t"
  by (auto elim!: task_edit.cases task_renew.cases task_change.cases)

lemma gget0_gput [simp]: "gget0 z (gput k v m) k' = (if k' = k then v else gget0 z m k')"
  by (simp add: gget0_def map_simps)

lemma wf_write_task:
  "queue_wf r \<Longrightarrow> map_of (tasks r) k = Some t \<Longrightarrow> t_ID t' = k \<Longrightarrow> queue_wf (write_task k t' r)"
  by (auto simp: queue_wf_def map_simps)

lemma wf_appendEvent: "queue_wf r \<Longrightarrow> queue_wf (appendEventLocked b i e now r)"
  by (auto simp: queue_wf_def appendEventLocked_def)

lemma updates_task_wf [inv_intros]: "queue_wf r \<Longrightarrow> updates_task task_edit now i r r' \<Longrightarrow> queue_wf r'"
  by (auto simp: updates_task_def task_step_frame [OF ts_edit] queue_wfD(2)
      intro!: wf_write_task wf_appendEvent)

lemma lease_writes_wf:
  "queue_wf r \<Longrightarrow> (\<forall>(k, t) \<in> set ps. map_of (tasks r) k \<noteq> None \<and> t_ID t = k) \<Longrightarrow>
     queue_wf (lease_writes bs h e now n ps r)"
proof (induction bs h e now n ps r rule: lease_writes.induct)
  case (2 bs h e now n k t ps r)
  then have "queue_wf (write_task k (lease_task h e now t) r)"
    by (auto intro: wf_write_task)
  moreover have "\<forall>(k', t') \<in> set ps. map_of (tasks (write_task k (lease_task h e now t) r)) k' \<noteq> None \<and> t_ID t' = k'"
    using "2.prems"(2) by (auto simp: map_simps)
  ultimately show ?case using "2.IH" by (simp add: wf_appendEvent)
qed simp

lemma set_readyTasks: "set (readyTasks pool now m) = {(k, t) \<in> set m. ready pool now t}"
  by (auto simp: readyTasks_def)

lemma picked_ready:
  assumes "queue_wf r" and "(k, t) \<in> set (picked now pool m r)"
  shows "map_of (tasks r) k = Some t" and "t_ID t = k" and "ready pool now t"
proof -
  from assms(2) have mem: "(k, t) \<in> set (tasks r)" and "ready pool now t"
    using set_pick by (fastforce simp: picked_def set_readyTasks)+
  with assms(1) show "map_of (tasks r) k = Some t" "ready pool now t"
    by (simp_all add: gmap_wf_mem_iff queue_wfD(1))
  with assms(1) show "t_ID t = k" by (simp add: queue_wfD(2))
qed

lemma Lease_wf [inv_intros]: "queue_wf r \<Longrightarrow> queue_wf (fst (Lease bs now pool h d m r))"
  by (auto simp: Lease_picked dest: picked_ready intro!: lease_writes_wf)

lemma wf_new_task:
  "queue_wf r \<Longrightarrow> t_ID t \<noteq> [] \<Longrightarrow>
     queue_wf (appendEventLocked b (t_ID t) e now (write_task (t_ID t) t r))"
  by (auto simp: queue_wf_def appendEventLocked_def map_simps)

lemma wf_idem_key:
  "queue_wf r \<Longrightarrow> map_of (tasks r) i \<noteq> None \<Longrightarrow>
     queue_wf (r\<lparr>idempotencyKeys := gput key i (idempotencyKeys r)\<rparr>)"
  by (auto simp: queue_wf_def map_simps)

lemma enqueue_defaults_ID [simp]: "t_ID (enqueue_defaults b now t) \<noteq> []"
  by (simp add: enqueue_defaults_def)

lemma Enqueue_wf [inv_intros]:
  assumes "queue_wf r"
  shows "queue_wf (fst (Enqueue bs now t r))"
proof (cases "existing_task t r")
  case None
  let ?t = "enqueue_defaults (bs 0) now t"
  let ?r = "appendEventLocked (bs 1) (t_ID ?t) ''enqueued'' now (write_task (t_ID ?t) ?t r)"
  have "queue_wf ?r" using assms by (simp add: wf_new_task)
  moreover have "map_of (tasks ?r) (t_ID ?t) \<noteq> None" by (simp add: map_simps)
  ultimately show ?thesis
    using wf_idem_key [of ?r "t_ID ?t" "idem_key ?t"] None by (simp add: Enqueue_def Let_def)
next
  case (Some t')
  with assms show ?thesis by (simp add: Enqueue_def)
qed

lemma queue_step_wf: "queue_wf r \<Longrightarrow> queue_wf (queue_step bs now op r)"
  by (rule queue_op_cases [of op]) (auto intro: inv_intros queue_step_updates)

lemma queue_run_wf: "queue_wf r \<Longrightarrow> queue_wf (queue_run es r)"
  by (induction es r rule: queue_run.induct) (simp_all add: queue_step_wf)

lemma queue_reachable_wf_aux: "queue_reachable r \<Longrightarrow> queue_wf r"
proof (induction rule: queue_reachable.induct)
  case init
  show ?case by (simp add: queue_wf_def NewMemoryQueueRepository_def)
next
  case (step r bs now op)
  then show ?case by (simp add: queue_step_wf)
qed

section \<open>One task across a step\<close>

text \<open>The step writes a new record over the task stored under \<open>k\<close>.\<close>

fun overwrites :: "string \<Rightarrow> queue_event \<Rightarrow> bool" where
  "overwrites k (bs, now, OpEnqueue t) = (t_ID (enqueue_defaults (bs 0) now t) = k)"
| "overwrites k e = False"

lemma updates_task_step:
  assumes "updates_task R now i r r'" and "map_of (tasks r) k = Some t"
  shows "\<exists>t'. map_of (tasks r') k = Some t' \<and> (t' = t \<or> k = i \<and> R now t t')"
  using assms by (cases "k = i") (auto simp: updates_task_def map_simps)

lemma map_of_fold_gput:
  "distinct (map fst ps) \<Longrightarrow>
     map_of (fold (\<lambda>p. gput (fst p) (g (snd p))) ps m) k =
       (case map_of ps k of None \<Rightarrow> map_of m k | Some v \<Rightarrow> Some (g v))"
proof (induction ps arbitrary: m)
  case (Cons p ps)
  then have "map_of ps (fst p) = None" by (simp add: map_of_eq_None_iff)
  moreover have "map_of (fold (\<lambda>p. gput (fst p) (g (snd p))) ps (gput (fst p) (g (snd p)) m)) k =
      (case map_of ps k of None \<Rightarrow> map_of (gput (fst p) (g (snd p)) m) k | Some v \<Rightarrow> Some (g v))"
    using Cons by simp
  ultimately show ?case by (cases "k = fst p"; cases "map_of ps k") (auto simp: map_simps)
qed simp

lemma distinct_readyTasks: "gmap_wf m \<Longrightarrow> distinct (map fst (readyTasks pool now m))"
  using gmap_wf_filter [of m "\<lambda>(k, t). ready pool now t"]
  by (simp add: readyTasks_def gmap_wf_def)

lemma distinct_picked: "queue_wf r \<Longrightarrow> distinct (map fst (picked now pool m r))"
  unfolding picked_def
  by (rule distinct_pick) (simp add: distinct_readyTasks queue_wfD(1))

lemma Lease_lookup:
  assumes "queue_wf r"
  shows "map_of (tasks (fst (Lease bs now pool h d m r))) k =
     (case map_of (picked now pool m r) k of
        None \<Rightarrow> map_of (tasks r) k
      | Some t \<Rightarrow> Some (lease_task h (now + d) now t))"
  using map_of_fold_gput [OF distinct_picked [OF assms]] by (simp add: Lease_picked)

lemma Lease_task_step:
  assumes "queue_wf r" and "map_of (tasks r) k = Some t"
  obtains "map_of (picked now pool m r) k = None"
      "map_of (tasks (fst (Lease bs now pool h d m r))) k = Some t"
    | "map_of (picked now pool m r) k = Some t"
      "map_of (tasks (fst (Lease bs now pool h d m r))) k = Some (lease_task h (now + d) now t)"
      "ready pool now t"
proof (cases "map_of (picked now pool m r) k")
  case None
  with that(1) assms show ?thesis by (simp add: Lease_lookup)
next
  case (Some u)
  from picked_ready [OF assms(1) map_of_SomeD [OF Some]] assms(2)
  have "u = t" "ready pool now t" by simp_all
  with that(2) Some assms show ?thesis by (simp add: Lease_lookup)
qed

lemma Enqueue_lookup_other:
  "\<not> overwrites k (bs, now, OpEnqueue u) \<Longrightarrow>
     map_of (tasks (fst (Enqueue bs now u r))) k = map_of (tasks r) k"
  by (auto simp: Enqueue_def Let_def map_simps split: option.splits)

lemma queue_step_task:
  assumes "queue_wf r" and "map_of (tasks r) k = Some t" and "\<not> overwrites k (bs, now, op)"
  shows "\<exists>t'. map_of (tasks (queue_step bs now op r)) k = Some t' \<and> (t' = t \<or> task_step now t t')"
proof (rule queue_op_cases [of op])
  fix u assume "op = OpEnqueue u"
  with assms show ?thesis by (simp add: Enqueue_lookup_other)
next
  fix pool h d m assume "op = OpLease pool h d m"
  then show ?thesis
    by (auto intro: ts_lease Lease_task_step [OF assms(1,2), of now pool m bs h d])
next
  fix i assume "op_target op = Some i"
  from updates_task_step [OF queue_step_updates [OF this] assms(2)]
  show ?thesis by (blast intro: ts_edit)
qed

text \<open>The edges of the task life cycle.\<close>

inductive status_edge :: "TaskStatus \<Rightarrow> TaskStatus \<Rightarrow> bool" where
  "status_edge TaskStatusQueued TaskStatusLeased"
| "status_edge TaskStatusFailedRetryable TaskStatusLeased"
| "in_flight s \<Longrightarrow> status_edge s TaskStatusLeased"
| "status_edge TaskStatusLeased TaskStatusRunning"
| "status_edge TaskStatusRunning TaskStatusRunning"
| "status_edge TaskStatusRunning TaskStatusSucceeded"
| "s = TaskStatusLeased \<or> s = TaskStatusRunning \<Longrightarrow>
   s' \<in> {TaskStatusFailedTerminal, TaskStatusDeadLetter, TaskStatusFailedRetryable, TaskStatusCancelling} \<Longrightarrow>
   status_edge s s'"
| "s \<in> {TaskStatusQueued, TaskStatusFailedRetryable, TaskStatusCancelling} \<Longrightarrow>
   status_edge s TaskStatusCancelled"
| "s \<in> {TaskStatusDeadLetter, TaskStatusFailedTerminal, TaskStatusCancelled} \<Longrightarrow>
   status_edge s TaskStatusQueued"

lemma task_step_edge: "task_step now t t' \<Longrightarrow> status_edge (t_Status t) (t_Status t')"
  by (erule task_step.cases, auto simp: ready_def intro: status_edge.intros)
    (auto elim!: task_edit.cases task_renew.cases task_change.cases intro: status_edge.intros)

inductive_cases edge_from_succeeded: "status_edge TaskStatusSucceeded s"

lemma no_edge_from_succeeded: "\<not> status_edge TaskStatusSucceeded s"
  by (auto elim: edge_from_succeeded simp: in_flight_def)

lemma queue_run_succeeded:
  "queue_wf r \<Longrightarrow> map_of (tasks r) k = Some t \<Longrightarrow> t_Status t = TaskStatusSucceeded \<Longrightarrow>
     \<forall>e \<in> set es. \<not> overwrites k e \<Longrightarrow> map_of (tasks (queue_run es r)) k = Some t"
proof (induction es r rule: queue_run.induct)
  case (2 bs now op es r)
  from queue_step_task [OF "2.prems"(1,2), of bs now op] "2.prems"(4)
  obtain t' where t': "map_of (tasks (queue_step bs now op r)) k = Some t'" "t' = t \<or> task_step now t t'"
    by auto
  with "2.prems"(3) have "t' = t" by (metis task_step_edge no_edge_from_succeeded)
  with 2 t' show ?case by (simp add: queue_step_wf)
qed simp

end
