(* ===== verification/TaskQueueProps.thy ===== *)
theory TaskQueueProps
  imports TaskQueueLemmas
begin

text \<open>
  The theorems on the task queue: its invariant and the life cycle of a task, lease fencing, what
  one \<^verbatim>\<open>Lease\<close> returns, exclusive resources, retries, idempotent enqueueing, the event log,
  paging and statistics.
\<close>

section \<open>A small queue for the witnesses\<close>

text \<open>A task with the zero value in every field.\<close>

definition zero_task :: Task where
  "zero_task =
     \<lparr>t_ID = [], t_TenantID = [], t_ProjectID = [], t_Type = [], t_Pool = [],
      t_Status = TaskStatusEmpty, t_Payload = [], t_IdempotencyKey = [], t_Attempt = 0,
      t_MaxAttempts = 0, t_LockedResourceType = [], t_LockedResourceID = [], t_TraceID = [],
      t_CreatedBy = [], t_Priority = 0, t_RunAfter = 0, t_CreatedAt = 0, t_UpdatedAt = 0,
      t_StartedAt = 0, t_CompletedAt = 0, t_ErrorCode = [], t_ErrorMessage = [],
      t_LastHeartbeatAt = 0, t_LeaseExpiresAt = 0, t_LeaseHolder = [], t_LeaseGeneration = 0\<rparr>"

definition no_entropy :: "nat \<Rightarrow> entropy" where
  "no_entropy n = None"

definition task_on :: "string \<Rightarrow> int \<Rightarrow> Task" where
  "task_on i p =
     zero_task\<lparr>t_ID := i, t_TenantID := ''acme'', t_Type := ''ingest'', t_Pool := ''p'', t_Priority := p,
       t_LockedResourceType := ''kb'', t_LockedResourceID := ''kb1''\<rparr>"

definition demo :: "queue_event list" where
  "demo =
     [(no_entropy, 1, OpEnqueue (task_on ''a'' 0)),
      (no_entropy, 2, OpLease ''p'' ''w1'' 10 1)]"

definition demo_queue :: MemoryQueueRepository where
  "demo_queue = queue_run demo NewMemoryQueueRepository"

lemma queue_run_reachable: "queue_reachable r \<Longrightarrow> queue_reachable (queue_run es r)"
  by (induction es r rule: queue_run.induct) (auto intro: queue_reachable.step)

lemma demo_reachable: "queue_reachable demo_queue"
  unfolding demo_queue_def by (rule queue_run_reachable [OF queue_reachable.init])

lemma demo_task:
  obtains t where "map_of (tasks demo_queue) ''a'' = Some t" and "t_Status t = TaskStatusLeased"
    and "t_LeaseGeneration t = 1" and "t_LeaseHolder t = ''w1''" and "t_Attempt t = 1" and "t_MaxAttempts t = 3"
proof -
  have "map_option (\<lambda>t. (t_Status t, t_LeaseGeneration t, t_LeaseHolder t, t_Attempt t, t_MaxAttempts t))
      (map_of (tasks demo_queue) ''a'') = Some (TaskStatusLeased, 1, ''w1'', 1, 3)"
    by code_simp
  then show ?thesis using that by auto
qed

section \<open>The invariant and the life cycle of a task\<close>

text \<open>
  C1 (invariant). In every state the in-memory queue can reach by its operations, with any clock
  readings and random bytes, the maps are well formed: each task is stored under its own
  non-empty identifier and has a timeline, and every idempotency key names a task that exists.
\<close>

theorem queue_reachable_wf: "queue_reachable r \<Longrightarrow> queue_wf r"
  by (rule queue_reachable_wf_aux)

theorem queue_reachable_wf_witness: "queue_reachable demo_queue \<and> queue_wf demo_queue"
  using queue_reachable_wf [OF demo_reachable] demo_reachable by simp

text \<open>
  C2 (safety). A step of the queue that does not enqueue a new record over a task moves that
  task only along an edge of the life cycle, and stamps it with the time of the step. It never
  loses the task and never changes its tenant or its attempt limit.
\<close>

theorem task_life_cycle:
  assumes "queue_reachable r" and "map_of (tasks r) k = Some t" and "\<not> overwrites k (bs, now, op)"
  shows "\<exists>t'. map_of (tasks (queue_step bs now op r)) k = Some t' \<and>
     (t' = t \<or> status_edge (t_Status t) (t_Status t') \<and> t_UpdatedAt t' = now) \<and>
     t_TenantID t' = t_TenantID t \<and> t_MaxAttempts t' = t_MaxAttempts t"
  using queue_step_task [OF queue_reachable_wf_aux [OF assms(1)] assms(2,3)]
  by (auto dest: task_step_edge task_step_frame)

theorem task_life_cycle_witness:
  "\<exists>t t'. map_of (tasks demo_queue) ''a'' = Some t \<and>
     map_of (tasks (queue_step no_entropy 5 (OpCancel ''a'') demo_queue)) ''a'' = Some t' \<and>
     (t' = t \<or> status_edge (t_Status t) (t_Status t') \<and> t_UpdatedAt t' = 5) \<and>
     t_TenantID t' = t_TenantID t \<and> t_MaxAttempts t' = t_MaxAttempts t"
proof -
  obtain t where t: "map_of (tasks demo_queue) ''a'' = Some t" by (rule demo_task)
  have "\<not> overwrites ''a'' (no_entropy, 5, OpCancel ''a'')" by simp
  from task_life_cycle [OF demo_reachable t this] t show ?thesis by blast
qed

text \<open>
  A succeeded task never changes again, whatever the workers and callers do
  afterwards, unless a caller enqueues another record under its identifier.
\<close>

lemma succeeded_is_final:
  assumes "queue_reachable r" and "map_of (tasks r) k = Some t" and "t_Status t = TaskStatusSucceeded"
    and "\<forall>e \<in> set es. \<not> overwrites k e"
  shows "map_of (tasks (queue_run es r)) k = Some t"
  using queue_run_succeeded [OF queue_reachable_wf_aux [OF assms(1)] assms(2-)] .

definition finished_queue :: MemoryQueueRepository where
  "finished_queue =
     queue_run [(no_entropy, 3, OpHeartbeat ''a'' \<lparr>lt_Holder = ''w1'', lt_Generation = 1\<rparr> 10),
                (no_entropy, 4, OpComplete ''a'' \<lparr>lt_Holder = ''w1'', lt_Generation = 1\<rparr>)] demo_queue"

lemma succeeded_is_final_witness:
  "\<exists>t. map_of (tasks finished_queue) ''a'' = Some t \<and> t_Status t = TaskStatusSucceeded \<and>
     map_of (tasks (queue_run [(no_entropy, 9, OpRetry ''a''), (no_entropy, 9, OpCancel ''a'')] finished_queue)) ''a'' = Some t"
proof -
  have "map_option t_Status (map_of (tasks finished_queue) ''a'') = Some TaskStatusSucceeded" by code_simp
  then obtain t where t: "map_of (tasks finished_queue) ''a'' = Some t" "t_Status t = TaskStatusSucceeded" by auto
  have "queue_reachable finished_queue"
    unfolding finished_queue_def by (rule queue_run_reachable [OF demo_reachable])
  from succeeded_is_final [OF this t, of "[(no_entropy, 9, OpRetry ''a''), (no_entropy, 9, OpCancel ''a'')]"] t
  show ?thesis by simp
qed

section \<open>Leases and their fencing tokens\<close>

text \<open>How many steps of a run lease the task stored under \<open>k\<close>.\<close>

fun leases_task :: "string \<Rightarrow> queue_event \<Rightarrow> MemoryQueueRepository \<Rightarrow> bool" where
  "leases_task k (bs, now, OpLease pool h d m) r = (k \<in> t_ID ` set (snd (Lease bs now pool h d m r)))"
| "leases_task k e r = False"

fun lease_count :: "string \<Rightarrow> queue_event list \<Rightarrow> MemoryQueueRepository \<Rightarrow> nat" where
  "lease_count k [] r = 0"
| "lease_count k ((bs, now, op) # es) r =
     (if leases_task k (bs, now, op) r then 1 else 0) + lease_count k es (queue_step bs now op r)"

lemma leases_task_picked:
  assumes "queue_wf r"
  shows "leases_task k (bs, now, OpLease pool h d m) r \<longleftrightarrow> map_of (picked now pool m r) k \<noteq> None"
proof -
  have "k \<in> t_ID ` set (snd (Lease bs now pool h d m r)) \<longleftrightarrow> k \<in> fst ` set (picked now pool m r)"
    using picked_ready(2) [OF assms] by (force simp: Lease_picked image_iff)
  then show ?thesis by (simp add: map_of_eq_None_iff)
qed

text \<open>Only a lease moves the generation of a task, and it moves it by one.\<close>

lemma queue_step_generation:
  assumes "queue_wf r" and "map_of (tasks r) k = Some t" and "\<not> overwrites k (bs, now, op)"
  shows "\<exists>t'. map_of (tasks (queue_step bs now op r)) k = Some t' \<and>
     t_LeaseGeneration t' = t_LeaseGeneration t + (if leases_task k (bs, now, op) r then 1 else 0)"
proof (rule queue_op_cases [of op])
  fix u assume "op = OpEnqueue u"
  with assms show ?thesis by (simp add: Enqueue_lookup_other)
next
  fix pool h d m assume op: "op = OpLease pool h d m"
  show ?thesis
    by (rule Lease_task_step [OF assms(1,2), of now pool m bs h d])
      (simp_all add: op leases_task_picked [OF assms(1)] del: leases_task.simps)
next
  fix i assume i: "op_target op = Some i"
  then have "\<not> leases_task k (bs, now, op) r" by (cases op) auto
  with updates_task_step [OF queue_step_updates [OF i] assms(2)]
  show ?thesis by (fastforce dest: task_edit_generation)
qed

lemma queue_run_generation:
  "queue_wf r \<Longrightarrow> map_of (tasks r) k = Some t \<Longrightarrow> \<forall>e \<in> set es. \<not> overwrites k e \<Longrightarrow>
     \<exists>t'. map_of (tasks (queue_run es r)) k = Some t' \<and>
       t_LeaseGeneration t' = t_LeaseGeneration t + of_nat (lease_count k es r)"
proof (induction es r arbitrary: t rule: queue_run.induct)
  case (2 bs now op es r)
  from queue_step_generation [OF "2.prems"(1,2), of bs now op] "2.prems"(3)
  obtain t1 where "map_of (tasks (queue_step bs now op r)) k = Some t1"
    "t_LeaseGeneration t1 = t_LeaseGeneration t + (if leases_task k (bs, now, op) r then 1 else 0)"
    by auto
  with "2.IH" [OF queue_step_wf [OF "2.prems"(1)]] "2.prems"(3) show ?case by fastforce
qed simp

text \<open>
  The contract a worker relies on: an operation that presents a token which does not own the
  task answers \<open>ErrLeaseLost\<close> and changes nothing.
\<close>

locale fenced_operation =
  fixes op :: "string \<Rightarrow> LeaseToken \<Rightarrow> MemoryQueueRepository \<Rightarrow> MemoryQueueRepository \<times> (queue_error + unit)"
  assumes rejects: "map_of (tasks r) i = Some t \<Longrightarrow> \<not> ownsLease t tok \<Longrightarrow> op i tok r = (r, Inl ErrLeaseLost)"
begin

text \<open>
  A token issued before the task was leased again is rejected, whatever happened since, as
  long as the 64-bit generation has not come full circle.
\<close>

lemma rejects_stale:
  assumes "queue_wf r" and "map_of (tasks r) k = Some t" and "\<forall>e \<in> set es. \<not> overwrites k e"
    and "lt_Generation tok = t_LeaseGeneration t"
    and "0 < lease_count k es r" and "lease_count k es r < 2 ^ 64"
  shows "op k tok (queue_run es r) = (queue_run es r, Inl ErrLeaseLost)"
proof -
  obtain t' where t': "map_of (tasks (queue_run es r)) k = Some t'"
    and g: "t_LeaseGeneration t' = t_LeaseGeneration t + of_nat (lease_count k es r)"
    using queue_run_generation [OF assms(1-3)] by blast
  have "\<not> ownsLease t' tok"
    using g assms(4) of_nat_int64_neq_0 [OF assms(5,6)] by (simp add: ownsLease_def)
  with t' show ?thesis by (rule rejects)
qed

end

interpretation hb: fenced_operation "\<lambda>i tok. Heartbeat bs now i tok d" for bs now d
  by unfold_locales (simp add: Heartbeat_def)

interpretation co: fenced_operation "\<lambda>i tok. Complete bs now i tok" for bs now
  by unfold_locales (simp add: Complete_def)

interpretation fa: fenced_operation "\<lambda>i tok. Fail bs now i tok f" for bs now f
  by unfold_locales (simp add: Fail_def)

interpretation mc: fenced_operation "\<lambda>i tok. MarkCancelled bs now i tok" for bs now
  by unfold_locales (simp add: MarkCancelled_def)

text \<open>
  C3 (safety). Fencing: once a task has been leased again, any number of times below the range
  of the 64-bit generation, a token of the earlier lease is refused by every operation a worker
  has, \<^verbatim>\<open>Heartbeat\<close>, \<^verbatim>\<open>Complete\<close>, \<^verbatim>\<open>Fail\<close> and \<^verbatim>\<open>MarkCancelled\<close>, and the refused operation changes
  nothing. In between, any operations of workers and callers may have run, on this task and on
  others, except an \<^verbatim>\<open>Enqueue\<close> that stores another task under this task's identifier: that replaces
  the record and starts its generations again (lemma \<open>reused_identifier_revives_token\<close>).
\<close>

theorem lease_fencing:
  assumes "queue_reachable r" and "map_of (tasks r) k = Some t"
    and "\<forall>e \<in> set es. \<not> overwrites k e"
    and "lt_Generation tok = t_LeaseGeneration t"
    and "0 < lease_count k es r" and "lease_count k es r < 2 ^ 64"
  shows "Heartbeat bs now k tok d (queue_run es r) = (queue_run es r, Inl ErrLeaseLost) \<and>
    Complete bs now k tok (queue_run es r) = (queue_run es r, Inl ErrLeaseLost) \<and>
    Fail bs now k tok f (queue_run es r) = (queue_run es r, Inl ErrLeaseLost) \<and>
    MarkCancelled bs now k tok (queue_run es r) = (queue_run es r, Inl ErrLeaseLost)"
proof -
  note wf = queue_reachable_wf_aux [OF assms(1)]
  show ?thesis
    using hb.rejects_stale [OF wf assms(2-)] co.rejects_stale [OF wf assms(2-)]
      fa.rejects_stale [OF wf assms(2-)] mc.rejects_stale [OF wf assms(2-)] by simp
qed

theorem lease_fencing_witness:
  "lease_count ''a'' [(no_entropy, 20, OpLease ''p'' ''w2'' 10 1)] demo_queue = 1 \<and>
   Complete no_entropy 21 ''a'' \<lparr>lt_Holder = ''w1'', lt_Generation = 1\<rparr>
     (queue_run [(no_entropy, 20, OpLease ''p'' ''w2'' 10 1)] demo_queue) =
   (queue_run [(no_entropy, 20, OpLease ''p'' ''w2'' 10 1)] demo_queue, Inl ErrLeaseLost)"
proof -
  obtain t where t: "map_of (tasks demo_queue) ''a'' = Some t" "t_LeaseGeneration t = 1" by (rule demo_task)
  have n: "lease_count ''a'' [(no_entropy, 20, OpLease ''p'' ''w2'' 10 1)] demo_queue = 1" by code_simp
  show ?thesis
    using lease_fencing [OF demo_reachable t(1), of "[(no_entropy, 20, OpLease ''p'' ''w2'' 10 1)]"
        "\<lparr>lt_Holder = ''w1'', lt_Generation = 1\<rparr>" no_entropy 21] t(2) n
    by simp
qed

text \<open>
  The proviso is needed: \<^verbatim>\<open>Enqueue\<close> under an identifier in use replaces the stored task and starts its
  generations again. The next lease of the same worker then issues the token of the earlier lease once
  more, and the earlier execution completes a task that was leased again.
\<close>

definition reused_identifier :: "queue_event list" where
  "reused_identifier =
     [(no_entropy, 20, OpEnqueue (task_on ''a'' 0)), (no_entropy, 21, OpLease ''p'' ''w1'' 10 1),
      (no_entropy, 22, OpHeartbeat ''a'' \<lparr>lt_Holder = ''w1'', lt_Generation = 1\<rparr> 10)]"

lemma reused_identifier_revives_token:
  "lease_count ''a'' reused_identifier demo_queue = 1"
  "snd (Complete no_entropy 23 ''a'' \<lparr>lt_Holder = ''w1'', lt_Generation = 1\<rparr>
     (queue_run reused_identifier demo_queue)) = Inr ()"
  by code_simp+

section \<open>One batch of leases\<close>

abbreviation task_key :: "Task \<Rightarrow> int \<times> int \<times> string" where
  "task_key t \<equiv> (- t_Priority t, t_CreatedAt t, t_ID t)"

interpretation tq: keyed_less "\<lambda>a b. task_less (snd a) (snd b)" "\<lambda>p. task_key (snd p)"
  by unfold_locales (auto simp: task_less_def)

lemma sorted_picked: "sorted (map (\<lambda>p. task_key (snd p)) (picked now pool m r))"
  unfolding picked_def by (rule sorted_pick) (simp add: readyTasks_def tq.sorted_sort_by)

lemma length_picked: "int (length (picked now pool m r)) \<le> max 1 m"
  using length_pick [of 0 "if m \<le> 0 then 1 else m" "activeResources now (tasks r)"
      "readyTasks pool now (tasks r)" "[]"]
  by (simp add: picked_def max_def split: if_splits)

lemma activeResources_iff:
  assumes "queue_wf r"
  shows "l \<in> set (activeResources now (tasks r)) \<longleftrightarrow>
     (\<exists>k t. map_of (tasks r) k = Some t \<and> holds_resource now t \<and> taskResourceLock t = Some l)"
  using gmap_wf_mem_iff [OF queue_wfD(1) [OF assms]]
  by (force simp: activeResources_def List.map_filter_def split: if_splits)

lemma task_key_lease [simp]:
  "t_Priority (lease_task h e now t) = t_Priority t" "t_CreatedAt (lease_task h e now t) = t_CreatedAt t"
  by (simp_all add: lease_task_def)

lemma Lease_out:
  assumes "Lease bs now pool h d m r = (r', out)"
  shows "out = map (\<lambda>(k, t). lease_task h (now + d) now t) (picked now pool m r)"
    and "r' = fst (Lease bs now pool h d m r)"
  using assms by (simp_all add: Lease_picked)

lemma Lease_out_IDs:
  assumes "queue_wf r" and "Lease bs now pool h d m r = (r', out)"
  shows "map t_ID out = map fst (picked now pool m r)"
  using picked_ready(2) [OF assms(1)] by (auto simp: Lease_out(1) [OF assms(2)])

lemma Lease_stored:
  assumes "queue_wf r" and "Lease bs now pool h d m r = (r', out)" and "t' \<in> set out"
  shows "\<exists>t. map_of (tasks r) (t_ID t') = Some t \<and> ready pool now t \<and>
    t' = lease_task h (now + d) now t \<and> map_of (tasks r') (t_ID t') = Some t'"
proof -
  note out = Lease_out [OF assms(2)]
  obtain k t where kt: "(k, t) \<in> set (picked now pool m r)" and t': "t' = lease_task h (now + d) now t"
    using assms(3) by (auto simp: out)
  have "map_of (picked now pool m r) k = Some t" using kt distinct_picked [OF assms(1)] by simp
  with picked_ready [OF assms(1) kt] t' show ?thesis by (auto simp: out(2) Lease_lookup [OF assms(1)])
qed

text \<open>
  C4 (functional). What one \<^verbatim>\<open>Lease\<close> returns: at most the requested number of tasks (one, when the
  caller asks for none), each once, in the order of priority, age and identifier; each was ready
  in the pool and is stored as leased to the caller with its generation and its attempt advanced;
  every other task is left as it was.
\<close>

theorem lease_batch:
  assumes "queue_reachable r" and "Lease bs now pool h d m r = (r', out)"
  shows "int (length out) \<le> max 1 m \<and> distinct (map t_ID out) \<and> sorted (map task_key out) \<and>
    (\<forall>t' \<in> set out. \<exists>t. map_of (tasks r) (t_ID t') = Some t \<and> ready pool now t \<and>
       t' = lease_task h (now + d) now t \<and> map_of (tasks r') (t_ID t') = Some t') \<and>
    (\<forall>k. k \<notin> t_ID ` set out \<longrightarrow> map_of (tasks r') k = map_of (tasks r) k)"
proof (intro conjI ballI allI impI)
  note wf = queue_reachable_wf_aux [OF assms(1)]
  note out = Lease_out [OF assms(2)]
  show "int (length out) \<le> max 1 m" by (simp add: out length_picked)
  show "distinct (map t_ID out)" by (simp add: Lease_out_IDs [OF wf assms(2)] distinct_picked [OF wf])
  show "sorted (map task_key out)"
    using sorted_picked [of now pool m r] by (simp add: out comp_def case_prod_unfold)
  fix t' assume "t' \<in> set out"
  then show "\<exists>t. map_of (tasks r) (t_ID t') = Some t \<and> ready pool now t \<and>
       t' = lease_task h (now + d) now t \<and> map_of (tasks r') (t_ID t') = Some t'"
    by (rule Lease_stored [OF wf assms(2)])
next
  note wf = queue_reachable_wf_aux [OF assms(1)]
  fix k assume "k \<notin> t_ID ` set out"
  then have "map_of (picked now pool m r) k = None"
    using Lease_out_IDs [OF wf assms(2)] by (metis list.set_map map_of_eq_None_iff)
  then show "map_of (tasks r') k = map_of (tasks r) k"
    by (simp add: Lease_out(2) [OF assms(2)] Lease_lookup [OF wf])
qed

theorem lease_batch_witness:
  "\<exists>r' out. Lease no_entropy 20 ''p'' ''w2'' 10 1 demo_queue = (r', out) \<and> int (length out) \<le> max 1 1 \<and>
     distinct (map t_ID out) \<and> map t_ID out = [''a'']"
proof -
  obtain r' out where l: "Lease no_entropy 20 ''p'' ''w2'' 10 1 demo_queue = (r', out)" by fastforce
  have "map t_ID (snd (Lease no_entropy 20 ''p'' ''w2'' 10 1 demo_queue)) = [''a'']" by code_simp
  with l lease_batch [OF demo_reachable l] show ?thesis by auto
qed

text \<open>
  C5 (liveness). \<^verbatim>\<open>Lease\<close> leaves no work behind: a ready task it does not take is either behind a
  full batch, all of whose tasks come before it in the order, or its resource is held by an
  unexpired lease or was taken by a task of the same batch.
\<close>

theorem lease_work_conserving:
  assumes "queue_reachable r" and "Lease bs now pool h d m r = (r', out)"
    and "map_of (tasks r) k = Some t" and "ready pool now t" and "k \<notin> t_ID ` set out"
  shows "(int (length out) = max 1 m \<and> (\<forall>u \<in> set out. task_key u \<le> task_key t)) \<or>
    (\<exists>l. taskResourceLock t = Some l \<and>
       ((\<exists>k' u. map_of (tasks r) k' = Some u \<and> holds_resource now u \<and> taskResourceLock u = Some l) \<or>
        (\<exists>u \<in> set out. taskResourceLock u = Some l)))"
proof -
  note wf = queue_reachable_wf_aux [OF assms(1)]
  note out = Lease_out [OF assms(2)]
  have "(k, t) \<in> set (readyTasks pool now (tasks r))"
    using assms(3,4) by (simp add: set_readyTasks map_of_SomeD)
  moreover have "(k, t) \<notin> set (picked now pool m r)"
    using assms(5) Lease_out_IDs [OF wf assms(2)] by (metis fst_conv image_eqI list.set_map)
  moreover have "sorted (map (\<lambda>p. task_key (snd p)) (readyTasks pool now (tasks r)))"
    by (simp add: readyTasks_def tq.sorted_sort_by)
  ultimately consider
      l where "taskResourceLock t = Some l"
        "l \<in> set (activeResources now (tasks r)) \<union> locks (picked now pool m r)"
    | "max 1 m \<le> int (length (picked now pool m r))"
        "\<forall>p \<in> set (picked now pool m r). task_key (snd p) \<le> task_key t"
    using pick_complete [of "\<lambda>p. task_key (snd p)" "readyTasks pool now (tasks r)" k t
        "if m \<le> 0 then 1 else m" "activeResources now (tasks r)" "[]" 0]
    by (auto simp: picked_def split: if_splits)
  then show ?thesis
  proof cases
    case 1
    then show ?thesis by (auto simp: activeResources_iff [OF wf] locks_def out(1)) force+
  next
    case 2
    with length_picked [of now pool m r] show ?thesis by (auto simp: out(1))
  qed
qed

definition rival_queue :: MemoryQueueRepository where
  "rival_queue = queue_run [(no_entropy, 3, OpEnqueue (task_on ''b'' 5))] demo_queue"

lemma rival_reachable: "queue_reachable rival_queue"
  unfolding rival_queue_def by (rule queue_run_reachable [OF demo_reachable])

theorem lease_work_conserving_witness:
  "\<exists>r' out t. Lease no_entropy 5 ''p'' ''w2'' 10 4 rival_queue = (r', out) \<and>
     map_of (tasks rival_queue) ''b'' = Some t \<and> ready ''p'' 5 t \<and> ''b'' \<notin> t_ID ` set out \<and>
     ((int (length out) = max 1 4 \<and> (\<forall>u \<in> set out. task_key u \<le> task_key t)) \<or>
      (\<exists>l. taskResourceLock t = Some l \<and>
       ((\<exists>k' u. map_of (tasks rival_queue) k' = Some u \<and> holds_resource 5 u \<and> taskResourceLock u = Some l) \<or>
        (\<exists>u \<in> set out. taskResourceLock u = Some l))))"
proof -
  obtain r' out where l: "Lease no_entropy 5 ''p'' ''w2'' 10 4 rival_queue = (r', out)" by fastforce
  have "map t_ID (snd (Lease no_entropy 5 ''p'' ''w2'' 10 4 rival_queue)) = []" by code_simp
  with l have n: "''b'' \<notin> t_ID ` set out" by simp
  have "map_option (ready ''p'' 5) (map_of (tasks rival_queue) ''b'') = Some True" by code_simp
  then obtain t where t: "map_of (tasks rival_queue) ''b'' = Some t" "ready ''p'' 5 t" by auto
  from lease_work_conserving [OF rival_reachable l t n] l t n show ?thesis by blast
qed

text \<open>
  The result of \<^verbatim>\<open>Lease\<close> does not depend on the order in which Go visits its maps.
\<close>

lemma readyTasks_perm:
  assumes "gmap_wf m" and "mset m' = mset m" and "\<And>k t. (k, t) \<in> set m \<Longrightarrow> t_ID t = k"
  shows "readyTasks pool now m' = readyTasks pool now m"
proof -
  let ?P = "\<lambda>(k, t). ready pool now t"
  have eq: "mset (filter ?P m') = mset (filter ?P m)" by (simp add: assms(2))
  have "set m' = set m" using assms(2) by (rule mset_eq_setD)
  have "inj_on (\<lambda>p. task_key (snd p)) (set m)"
  proof (rule inj_onI)
    fix p q assume pq: "p \<in> set m" "q \<in> set m" "task_key (snd p) = task_key (snd q)"
    then have "fst p = fst q" using assms(3) by (metis Pair_inject prod.collapse)
    with pq assms(1) show "p = q" by (metis gmap_wf_mem_iff option.inject prod.collapse)
  qed
  then have "inj_on (\<lambda>p. task_key (snd p)) (set (filter ?P m'))"
    by (rule inj_on_subset) (auto simp: \<open>set m' = set m\<close>)
  from tq.sort_by_perm [OF eq this] show ?thesis by (simp add: readyTasks_def)
qed

lemma picked_perm:
  assumes "queue_wf r" and "mset m' = mset (tasks r)"
  shows "picked now pool m (r\<lparr>tasks := m'\<rparr>) = picked now pool m r"
proof -
  have "readyTasks pool now m' = readyTasks pool now (tasks r)"
    by (rule readyTasks_perm [OF queue_wfD(1) [OF assms(1)] assms(2)])
      (use assms(1) in \<open>simp add: gmap_wf_mem_iff [symmetric] queue_wfD\<close>)
  moreover have act: "set (activeResources now m') = set (activeResources now (tasks r))"
    using mset_eq_setD [OF assms(2)] by (simp add: activeResources_def List.map_filter_def)
  ultimately show ?thesis by (simp add: picked_def pick_cong [OF act])
qed

text \<open>
  The unspecified order in which Go visits the task map has no influence on
  \<^verbatim>\<open>Lease\<close>: for any permutation of the map's entries it returns the same tasks in the same order
  and leaves the same contents behind.
\<close>

lemma lease_order_independent:
  assumes "queue_reachable r" and "mset m' = mset (tasks r)"
  shows "snd (Lease bs now pool h d m (r\<lparr>tasks := m'\<rparr>)) = snd (Lease bs now pool h d m r) \<and>
    map_of (tasks (fst (Lease bs now pool h d m (r\<lparr>tasks := m'\<rparr>)))) =
    map_of (tasks (fst (Lease bs now pool h d m r)))"
proof -
  note wf = queue_reachable_wf_aux [OF assms(1)]
  have eq: "map_of m' = map_of (tasks r)"
    using assms(2) queue_wfD(1) [OF wf]
    by (metis gmap_wf_def map_of_eqI map_of_inject_set mset_eq_setD mset_map mset_eq_imp_distinct_iff)
  have "gmap_wf m'"
    using queue_wfD(1) [OF wf] mset_eq_imp_distinct_iff [of "map fst m'" "map fst (tasks r)"] assms(2)
    by (simp add: gmap_wf_def)
  with wf eq have "queue_wf (r\<lparr>tasks := m'\<rparr>)" by (simp add: queue_wf_def)
  with wf eq show ?thesis
    by (simp add: fun_eq_iff Lease_lookup picked_perm [OF wf assms(2)] split: option.split)
      (simp add: Lease_picked picked_perm [OF wf assms(2)])
qed

lemma lease_order_independent_witness:
  "snd (Lease no_entropy 20 ''p'' ''w2'' 10 1 (rival_queue\<lparr>tasks := rev (tasks rival_queue)\<rparr>)) =
   snd (Lease no_entropy 20 ''p'' ''w2'' 10 1 rival_queue)"
  using lease_order_independent [OF rival_reachable, of "rev (tasks rival_queue)"] by simp

section \<open>Exclusive resources\<close>

text \<open>At an instant, at most one task holds an unexpired lease on a resource.\<close>

definition resource_exclusive :: "gotime \<Rightarrow> MemoryQueueRepository \<Rightarrow> bool" where
  "resource_exclusive now r \<longleftrightarrow>
     (\<forall>k1 k2 t1 t2 l. map_of (tasks r) k1 = Some t1 \<longrightarrow> map_of (tasks r) k2 = Some t2 \<longrightarrow>
        holds_resource now t1 \<longrightarrow> holds_resource now t2 \<longrightarrow>
        taskResourceLock t1 = Some l \<longrightarrow> taskResourceLock t2 = Some l \<longrightarrow> k1 = k2)"

lemma holds_resource_mono: "now \<le> now' \<Longrightarrow> holds_resource now' t \<Longrightarrow> holds_resource now t"
  by (auto simp: holds_resource_def time_defs)

lemma resource_exclusive_mono: "resource_exclusive now r \<Longrightarrow> now \<le> now' \<Longrightarrow> resource_exclusive now' r"
  unfolding resource_exclusive_def using holds_resource_mono by blast

text \<open>A step that gives no task a resource it did not hold keeps exclusion.\<close>

lemma resource_exclusive_shrink:
  assumes "resource_exclusive now r"
    and "\<And>k t'. map_of (tasks r') k = Some t' \<Longrightarrow> holds_resource now t' \<Longrightarrow>
      \<exists>t. map_of (tasks r) k = Some t \<and> holds_resource now t \<and> taskResourceLock t = taskResourceLock t'"
  shows "resource_exclusive now r'"
  unfolding resource_exclusive_def
proof (intro allI impI)
  fix k1 k2 t1 t2 l
  assume *: "map_of (tasks r') k1 = Some t1" "map_of (tasks r') k2 = Some t2"
    "holds_resource now t1" "holds_resource now t2"
    "taskResourceLock t1 = Some l" "taskResourceLock t2 = Some l"
  from assms(2) [OF *(1,3)] assms(2) [OF *(2,4)] *(5,6) assms(1) show "k1 = k2"
    unfolding resource_exclusive_def by metis
qed

lemma lock_distinct_unique:
  "distinct (List.map_filter f ps) \<Longrightarrow> p \<in> set ps \<Longrightarrow> q \<in> set ps \<Longrightarrow> f p = Some l \<Longrightarrow> f q = Some l \<Longrightarrow> p = q"
proof (induction ps)
  case (Cons a ps)
  have "l \<in> set (List.map_filter f ps)" if "x \<in> set ps" "f x = Some l" for x
    using that by (force simp: List.map_filter_def)
  with Cons show ?case by (auto simp: map_filter_simps split: option.splits)
qed simp

lemma Lease_exclusive:
  assumes "queue_wf r" and "resource_exclusive now r"
  shows "resource_exclusive now (fst (Lease bs now pool h d m r))"
  unfolding resource_exclusive_def
proof (intro allI impI)
  let ?ps = "picked now pool m r"
  fix k1 k2 t1 t2 l
  assume l: "map_of (tasks (fst (Lease bs now pool h d m r))) k1 = Some t1"
    "map_of (tasks (fst (Lease bs now pool h d m r))) k2 = Some t2"
    "holds_resource now t1" "holds_resource now t2"
    "taskResourceLock t1 = Some l" "taskResourceLock t2 = Some l"
  have free: "\<not> (\<exists>k t. map_of (tasks r) k = Some t \<and> holds_resource now t \<and> taskResourceLock t = Some l)"
    if "map_of ?ps k = Some u" "taskResourceLock u = Some l" for k u
    using pick_resources [OF map_of_SomeD [OF that(1) [unfolded picked_def]] that(2)]
      activeResources_iff [OF assms(1)] by simp
  have uniq: "k = k'" if "map_of ?ps k = Some u" "map_of ?ps k' = Some u'"
    "taskResourceLock u = Some l" "taskResourceLock u' = Some l" for k k' u u'
    using lock_distinct_unique [OF pick_resources_distinct, of "(k, u)" _ _ _ _ _ "(k', u')"] that map_of_SomeD
    unfolding picked_def by fastforce
  note look = Lease_lookup [OF assms(1)]
  show "k1 = k2"
  proof (cases "map_of ?ps k1")
    case None
    then have k1: "map_of (tasks r) k1 = Some t1" using l(1) by (simp add: look)
    show ?thesis
    proof (cases "map_of ?ps k2")
      case None
      then have "map_of (tasks r) k2 = Some t2" using l(2) by (simp add: look)
      from assms(2) [unfolded resource_exclusive_def, rule_format, OF k1 this l(3-6)] show ?thesis .
    next
      case (Some u2)
      then have "taskResourceLock u2 = Some l" using l(2,6) by (auto simp: look)
      from free [OF Some this] k1 l(3,5) show ?thesis by blast
    qed
  next
    case (Some u1)
    then have u1: "taskResourceLock u1 = Some l" using l(1,5) by (auto simp: look)
    show ?thesis
    proof (cases "map_of ?ps k2")
      case None
      then have "map_of (tasks r) k2 = Some t2" using l(2) by (simp add: look)
      with free [OF Some u1] l(4,6) show ?thesis by blast
    next
      case (Some u2)
      then have "taskResourceLock u2 = Some l" using l(2,6) by (auto simp: look)
      from uniq [OF \<open>map_of ?ps k1 = Some u1\<close> Some u1 this] show ?thesis .
    qed
  qed
qed

text \<open>No operation but \<^verbatim>\<open>Lease\<close> and \<^verbatim>\<open>Heartbeat\<close> gives a task a resource.\<close>

lemma task_change_holds:
  "task_change now t t' \<Longrightarrow> holds_resource now t' \<Longrightarrow> holds_resource now t \<and> taskResourceLock t = taskResourceLock t'"
proof (induction rule: task_change.induct)
  case (ts_cancel_active t)
  then show ?case by (auto simp: holds_resource_def in_flight_def taskResourceLock_def)
qed (simp_all add: holds_resource_def in_flight_def)

lemma updates_task_exclusive:
  assumes "resource_exclusive now r" and "updates_task R now i r r'"
    and "\<And>t t'. map_of (tasks r) i = Some t \<Longrightarrow> R now t t' \<Longrightarrow> holds_resource now t' \<Longrightarrow>
      holds_resource now t \<and> taskResourceLock t = taskResourceLock t'"
  shows "resource_exclusive now r'"
proof (rule resource_exclusive_shrink [OF assms(1)])
  fix k t' assume t': "map_of (tasks r') k = Some t'" "holds_resource now t'"
  have "map_of (tasks r) k \<noteq> None"
    using assms(2) t'(1) by (auto simp: updates_task_def map_simps split: if_splits)
  then obtain t where t: "map_of (tasks r) k = Some t" by blast
  from updates_task_step [OF assms(2) t] t' assms(3) t
  show "\<exists>t. map_of (tasks r) k = Some t \<and> holds_resource now t \<and> taskResourceLock t = taskResourceLock t'"
    by auto
qed

text \<open>
  The discipline under which resources stay exclusive: a worker sends a heartbeat only while
  its lease has not expired, and a new task is enqueued as queued.
\<close>

fun disciplined :: "queue_event \<Rightarrow> MemoryQueueRepository \<Rightarrow> bool" where
  "disciplined (bs, now, OpHeartbeat i tok d) r =
     (OwnsActiveLease now i tok False r \<or> fst (Heartbeat bs now i tok d r) = r)"
| "disciplined (bs, now, OpEnqueue t) r = (t_Status t = TaskStatusEmpty \<or> t_Status t = TaskStatusQueued)"
| "disciplined e r = True"

fun disciplined_run :: "gotime \<Rightarrow> queue_event list \<Rightarrow> MemoryQueueRepository \<Rightarrow> bool" where
  "disciplined_run t0 [] r = True"
| "disciplined_run t0 ((bs, now, op) # es) r =
     (t0 \<le> now \<and> disciplined (bs, now, op) r \<and> disciplined_run now es (queue_step bs now op r))"

fun last_time :: "gotime \<Rightarrow> queue_event list \<Rightarrow> gotime" where
  "last_time t0 [] = t0"
| "last_time t0 ((bs, now, op) # es) = last_time now es"

lemma Enqueue_exclusive:
  assumes "resource_exclusive now r" and "disciplined (bs, now, OpEnqueue t) r"
  shows "resource_exclusive now (fst (Enqueue bs now t r))"
proof (rule resource_exclusive_shrink [OF assms(1)])
  fix k t' assume "map_of (tasks (fst (Enqueue bs now t r))) k = Some t'" "holds_resource now t'"
  with assms(2) show "\<exists>t. map_of (tasks r) k = Some t \<and> holds_resource now t \<and>
      taskResourceLock t = taskResourceLock t'"
    by (auto simp: Enqueue_def Let_def map_simps enqueue_defaults_def holds_resource_def in_flight_def
        split: option.splits if_splits)
qed

lemma queue_step_exclusive:
  assumes "queue_wf r" and "resource_exclusive now r" and "disciplined (bs, now, op) r"
  shows "resource_exclusive now (queue_step bs now op r)"
proof (cases "\<exists>i tok d. op = OpHeartbeat i tok d")
  case True
  then obtain i tok d where op: "op = OpHeartbeat i tok d" by blast
  show ?thesis
  proof (cases "fst (Heartbeat bs now i tok d r) = r")
    case False
    with assms(3) have "OwnsActiveLease now i tok False r" by (simp add: op)
    then have "holds_resource now t" if "map_of (tasks r) i = Some t" for t
      using that by (auto simp: OwnsActiveLease_def holds_resource_def in_flight_def split: if_splits)
    then show ?thesis
      using updates_task_exclusive [OF assms(2) Heartbeat_updates] op
      by (auto simp: task_step_frame [OF ts_edit [OF task_edit.intros(1)]])
  qed (simp add: op assms(2))
next
  case False
  show ?thesis
  proof (rule queue_op_cases [of op])
    fix i assume "op_target op = Some i"
    with False show ?thesis
      by (auto intro: updates_task_exclusive [OF assms(2) queue_step_changes] dest: task_change_holds)
  qed (use assms in \<open>simp_all add: Lease_exclusive Enqueue_exclusive del: disciplined.simps\<close>)
qed

lemma disciplined_run_exclusive:
  "queue_wf r \<Longrightarrow> resource_exclusive t0 r \<Longrightarrow> disciplined_run t0 es r \<Longrightarrow>
     resource_exclusive (last_time t0 es) (queue_run es r)"
proof (induction t0 es r rule: disciplined_run.induct)
  case (2 t0 bs now op es r)
  then have "resource_exclusive now (queue_step bs now op r)"
    by (auto intro: queue_step_exclusive resource_exclusive_mono simp del: disciplined.simps)
  with 2 show ?case by (simp add: queue_step_wf)
qed simp

text \<open>
  C6 (safety). Resource locks: along any run from the empty queue with a clock that does not go
  back, in which heartbeats come before their lease expires and tasks are enqueued as queued, no
  two tasks ever hold unexpired leases on the same resource.
\<close>

theorem resources_exclusive:
  assumes "disciplined_run t0 es NewMemoryQueueRepository"
  shows "resource_exclusive (last_time t0 es) (queue_run es NewMemoryQueueRepository)"
proof (rule disciplined_run_exclusive [OF queue_reachable_wf_aux [OF queue_reachable.init] _ assms])
  show "resource_exclusive t0 NewMemoryQueueRepository"
    by (simp add: resource_exclusive_def NewMemoryQueueRepository_def)
qed

theorem resources_exclusive_witness:
  "disciplined_run 0 (demo @ [(no_entropy, 3, OpEnqueue (task_on ''b'' 5)), (no_entropy, 20, OpLease ''p'' ''w2'' 10 4)])
     NewMemoryQueueRepository \<and>
   resource_exclusive 20 (queue_run (demo @ [(no_entropy, 3, OpEnqueue (task_on ''b'' 5)), (no_entropy, 20, OpLease ''p'' ''w2'' 10 4)])
     NewMemoryQueueRepository)"
proof -
  have d: "disciplined_run 0 (demo @ [(no_entropy, 3, OpEnqueue (task_on ''b'' 5)), (no_entropy, 20, OpLease ''p'' ''w2'' 10 4)])
     NewMemoryQueueRepository" by code_simp
  from resources_exclusive [OF d] d show ?thesis by (simp add: demo_def)
qed

text \<open>
  Task a is leased and its lease expires; task b, on the same resource and with a higher
  priority, is leased; then the worker of a sends a late heartbeat.
\<close>

definition revival :: "queue_event list" where
  "revival =
     [(no_entropy, 1, OpEnqueue (task_on ''a'' 0)),
      (no_entropy, 2, OpLease ''p'' ''w1'' 10 1),
      (no_entropy, 3, OpEnqueue (task_on ''b'' 5)),
      (no_entropy, 20, OpLease ''p'' ''w2'' 10 1),
      (no_entropy, 21, OpHeartbeat ''a'' \<lparr>lt_Holder = ''w1'', lt_Generation = 1\<rparr> 10)]"

lemma revival_state:
  "map_option (\<lambda>t. (t_Status t, t_LeaseExpiresAt t, taskResourceLock t)) (map_of (tasks (queue_run revival NewMemoryQueueRepository)) ''a'') =
     Some (TaskStatusRunning, 31, Some (''kb'', ''kb1''))"
  "map_option (\<lambda>t. (t_Status t, t_LeaseExpiresAt t, taskResourceLock t)) (map_of (tasks (queue_run revival NewMemoryQueueRepository)) ''b'') =
     Some (TaskStatusLeased, 30, Some (''kb'', ''kb1''))"
  by code_simp+

text \<open>
  The hypothesis on heartbeats cannot be dropped: \<^verbatim>\<open>Heartbeat\<close> does not look at the
  expiry of the lease, so a late heartbeat revives an expired lease after the resource has been
  leased to another task, and two tasks hold the same resource at once.
\<close>

lemma late_heartbeat_breaks_exclusion:
  "last_time 0 revival = 21 \<and> \<not> resource_exclusive 21 (queue_run revival NewMemoryQueueRepository)"
proof -
  obtain ta tb where "map_of (tasks (queue_run revival NewMemoryQueueRepository)) ''a'' = Some ta"
    "map_of (tasks (queue_run revival NewMemoryQueueRepository)) ''b'' = Some tb"
    "holds_resource 21 ta" "holds_resource 21 tb"
    "taskResourceLock ta = Some (''kb'', ''kb1'')" "taskResourceLock tb = Some (''kb'', ''kb1'')"
    using revival_state by (auto simp: holds_resource_def in_flight_def time_defs)
  moreover have "''a'' \<noteq> ''b''" by simp
  ultimately have "\<not> resource_exclusive 21 (queue_run revival NewMemoryQueueRepository)"
    unfolding resource_exclusive_def by blast
  then show ?thesis by (simp add: revival_def)
qed

section \<open>Retries\<close>

lemma power2_le_4096: "n \<le> 12 \<Longrightarrow> (2::int) ^ n \<le> 4096"
  using power_increasing [of n 12 "2::int"] by simp

lemma retryBackoff_exponent: "nat (gomin (if a < 1 then 0 else a - 1) 12) \<le> 12"
  by (simp add: gomin_def nat_le_iff)

lemma retryBackoff_eq:
  "retryBackoff a = 250 * Millisecond * 2 ^ nat (gomin (if a < 1 then 0 else a - 1) 12)"
  using power2_le_4096 [OF retryBackoff_exponent, of a]
  by (auto simp: retryBackoff_def Let_def duration_defs)

lemma retryBackoff_lower: "250 * Millisecond \<le> retryBackoff a"
  unfolding retryBackoff_eq by (simp add: duration_defs)

text \<open>
  The retry delay starts at 250 milliseconds, doubles with each attempt and stops at
  1024 seconds from the thirteenth attempt on; the one-hour cap in the code is never reached.
\<close>

lemma retryBackoff_bounds:
  "250 * Millisecond \<le> retryBackoff a \<and> retryBackoff a \<le> 1024 * Second \<and> retryBackoff a < Hour \<and>
   (1 \<le> a \<and> a \<le> 12 \<longrightarrow> retryBackoff (a + 1) = 2 * retryBackoff a) \<and>
   (13 \<le> a \<longrightarrow> retryBackoff a = 1024 * Second)"
proof -
  let ?p = "(2::int) ^ nat (gomin (if a < 1 then 0 else a - 1) 12)"
  have "1 \<le> ?p" "?p \<le> 4096"
    using power2_le_4096 [OF retryBackoff_exponent] by simp_all
  then have "250 * Millisecond \<le> retryBackoff a \<and> retryBackoff a \<le> 1024 * Second \<and> retryBackoff a < Hour"
    unfolding retryBackoff_eq by (simp add: duration_defs)
  moreover have "retryBackoff (a + 1) = 2 * retryBackoff a" if "1 \<le> a" "a \<le> 12"
  proof -
    have "nat a = Suc (nat (a - 1))" using that by simp
    with that show ?thesis by (simp add: retryBackoff_eq gomin_def)
  qed
  moreover have "retryBackoff a = 1024 * Second" if "13 \<le> a"
    using that by (simp add: retryBackoff_eq gomin_def duration_defs)
  ultimately show ?thesis by blast
qed

lemma retryBackoff_bounds_witness: "retryBackoff (3 + 1) = 2 * retryBackoff 3 \<and> retryBackoff 40 = 1024 * Second"
  using retryBackoff_bounds [of 3] retryBackoff_bounds [of 40] by simp

text \<open>
  A failure reported by the owner of the lease is always accepted: the task
  becomes terminally failed, dead or retryable exactly by the retry flag and the attempts left,
  its lease is given up, and a retryable task is not ready again before 250 milliseconds have
  passed.
\<close>

lemma Fail_outcome:
  assumes "map_of (tasks r) k = Some t" and "ownsLease t tok"
    and "t_Status t = TaskStatusLeased \<or> t_Status t = TaskStatusRunning"
    and "Fail bs now k tok f r = (r', res)"
  shows "res = Inr () \<and> (\<exists>t'. map_of (tasks r') k = Some t' \<and>
     t_Status t' = (if \<not> tf_Retryable f then TaskStatusFailedTerminal
                    else if t_Attempt t \<ge> t_MaxAttempts t then TaskStatusDeadLetter
                    else TaskStatusFailedRetryable) \<and>
     \<not> in_flight (t_Status t') \<and> t_LeaseHolder t' = [] \<and>
     (\<forall>pool t0. t_Status t' = TaskStatusFailedRetryable \<longrightarrow> 0 < now \<longrightarrow> now \<le> t0 \<longrightarrow>
        ready pool t0 t' \<longrightarrow> now + 250 * Millisecond \<le> t0))"
  using assms retryBackoff_lower [of "t_Attempt t"]
  by (auto simp: Fail_def Let_def map_simps in_flight_def ready_def time_defs Millisecond_def)

lemma Fail_outcome_witness:
  "\<exists>r' t'. Fail no_entropy 6 ''a'' \<lparr>lt_Holder = ''w1'', lt_Generation = 1\<rparr>
       \<lparr>tf_Retryable = True, tf_ErrorCode = [], tf_Message = ''boom''\<rparr> demo_queue = (r', Inr ()) \<and>
     map_of (tasks r') ''a'' = Some t' \<and> t_Status t' = TaskStatusFailedRetryable"
proof -
  let ?tok = "\<lparr>lt_Holder = ''w1'', lt_Generation = 1\<rparr>"
  let ?f = "\<lparr>tf_Retryable = True, tf_ErrorCode = [], tf_Message = ''boom''\<rparr>"
  obtain t where t: "map_of (tasks demo_queue) ''a'' = Some t" "t_Status t = TaskStatusLeased"
    "t_LeaseGeneration t = 1" "t_LeaseHolder t = ''w1''" "t_Attempt t = 1" "t_MaxAttempts t = 3"
    by (rule demo_task)
  obtain r' res where f: "Fail no_entropy 6 ''a'' ?tok ?f demo_queue = (r', res)" by fastforce
  have "ownsLease t ?tok" using t by (simp add: ownsLease_def)
  from Fail_outcome [OF t(1) this _ f] t f show ?thesis by auto
qed

section \<open>Idempotent enqueue\<close>

text \<open>
  Enqueueing is idempotent per tenant: after a task with an idempotency key has
  been enqueued, enqueueing any task with the same tenant and key returns the first task and
  leaves the queue unchanged.
\<close>

lemma Enqueue_idempotent:
  assumes "queue_reachable r" and "t_IdempotencyKey t \<noteq> []" and "Enqueue bs now t r = (r', t')"
    and "t_IdempotencyKey u = t_IdempotencyKey t" and "t_TenantID u = t_TenantID t"
  shows "Enqueue bs' now' u r' = (r', t')"
proof (cases "existing_task t r")
  case None
  let ?t = "enqueue_defaults (bs 0) now t"
  have "idem_key ?t = idem_key u" "t_IdempotencyKey ?t \<noteq> []"
    using assms(2,4,5) by (simp_all add: enqueue_defaults_def idem_key_def)
  with None assms(2-4) have "existing_task u r' = Some t'"
    by (auto simp: Enqueue_def Let_def existing_task_def map_simps)
  then show ?thesis by (simp add: Enqueue_def)
next
  case (Some e)
  with assms(3) have "r' = r" "t' = e" by (simp_all add: Enqueue_def)
  moreover have "existing_task u r = existing_task t r"
    using assms(4,5) by (simp add: existing_task_def idem_key_def)
  ultimately show ?thesis using Some by (simp add: Enqueue_def)
qed

definition keyed_task :: Task where
  "keyed_task = zero_task\<lparr>t_TenantID := ''acme'', t_Type := ''ingest'', t_Pool := ''p'', t_IdempotencyKey := ''k1''\<rparr>"

lemma Enqueue_idempotent_witness:
  "\<exists>r' t'. Enqueue no_entropy 3 keyed_task demo_queue = (r', t') \<and>
     Enqueue no_entropy 4 (keyed_task\<lparr>t_ID := ''other''\<rparr>) r' = (r', t')"
proof -
  obtain r' t' where e: "Enqueue no_entropy 3 keyed_task demo_queue = (r', t')" by fastforce
  from Enqueue_idempotent [OF demo_reachable _ e, of "keyed_task\<lparr>t_ID := ''other''\<rparr>" no_entropy 4] e
  show ?thesis by (auto simp: keyed_task_def)
qed

section \<open>The event log\<close>

lemma appendEvent_log [simp]:
  "gget0 [] (events (appendEventLocked b i e now r)) k =
     gget0 [] (events r) k @
       (if k = i then [\<lparr>ev_ID = id_New ''task_event'' b, ev_TaskID = i, ev_Type = e, ev_CreatedAt = now\<rparr>] else [])"
  by (simp add: appendEventLocked_def)

lemma lease_writes_log:
  "\<exists>xs. gget0 [] (events (lease_writes bs h e now n ps r)) k = gget0 [] (events r) k @ xs"
  by (induction bs h e now n ps r rule: lease_writes.induct) auto

lemma updates_task_log:
  "updates_task R now i r r' \<Longrightarrow> \<exists>xs. gget0 [] (events r') k = gget0 [] (events r) k @ xs"
  by (auto simp: updates_task_def)

lemma queue_step_log:
  "\<exists>xs. gget0 [] (events (queue_step bs now op r)) k = gget0 [] (events r) k @ xs"
proof (rule queue_op_cases [of op])
  fix t assume "op = OpEnqueue t"
  then show ?thesis by (auto simp: Enqueue_def Let_def split: option.splits)
next
  fix pool h d m assume "op = OpLease pool h d m"
  then show ?thesis by (simp add: Lease_picked lease_writes_log)
next
  fix i assume "op_target op = Some i"
  then show ?thesis by (rule updates_task_log [OF queue_step_updates])
qed

text \<open>
  The timeline of a task is append-only: along any run of the queue the events
  recorded before stay, in their order, at the front of the log.
\<close>

lemma event_log_append_only:
  "\<exists>xs. gget0 [] (events (queue_run es r)) k = gget0 [] (events r) k @ xs"
proof (induction es r rule: queue_run.induct)
  case (2 bs now op es r)
  then show ?case using queue_step_log [of bs now op r k] by auto
qed simp

section \<open>Paging\<close>

text \<open>The tasks, in the order of their identifiers, that a filter selects.\<close>

definition selected :: "TaskFilter \<Rightarrow> (string, Task) gomap \<Rightarrow> string list \<Rightarrow> Task list" where
  "selected f m is = filter (\<lambda>t. tenant_match f t \<and> filter_match f t) (List.map_filter (map_of m) is)"

lemma selected_simps [simp]:
  "selected f m [] = []"
  "selected f m (i # is) =
     (case map_of m i of
        None \<Rightarrow> selected f m is
      | Some t \<Rightarrow> if tenant_match f t \<and> filter_match f t then t # selected f m is else selected f m is)"
  "selected f m (xs @ ys) = selected f m xs @ selected f m ys"
  by (simp_all add: selected_def List.map_filter_def split: option.splits)

lemma match_cursor [simp]:
  "tenant_match (f\<lparr>fl_Cursor := c\<rparr>) = tenant_match f" "filter_match (f\<lparr>fl_Cursor := c\<rparr>) = filter_match f"
  by (simp_all add: fun_eq_iff tenant_match_def filter_match_def)

lemma selected_cursor [simp]: "selected (f\<lparr>fl_Cursor := c\<rparr>) = selected f"
  by (simp add: fun_eq_iff selected_def)

lemma list_loop_started: "0 < n \<Longrightarrow> list_loop f m True n is = take n (selected f m is)"
proof (induction "is" arbitrary: n)
  case (Cons i "is")
  then show ?case by (cases n) (auto split: option.splits)
qed simp

lemma list_loop_full:
  assumes "0 < n" and "length (take n (selected f m is)) = n"
  shows "\<exists>pre c post t. is = pre @ c # post \<and> take n (selected f m is) = selected f m (pre @ [c]) \<and>
     map_of m c = Some t \<and> last (take n (selected f m is)) = t \<and> tenant_match f t"
  using assms
proof (induction "is" arbitrary: n)
  case (Cons i "is")
  show ?case
  proof (cases "\<exists>t. map_of m i = Some t \<and> tenant_match f t \<and> filter_match f t")
    case False
    then have skip: "selected f m (i # is) = selected f m is" by (auto split: option.splits)
    from Cons.IH [OF Cons.prems(1)] Cons.prems(2)
    obtain pre c post t where "is = pre @ c # post" "take n (selected f m is) = selected f m (pre @ [c])"
      "map_of m c = Some t" "last (take n (selected f m is)) = t" "tenant_match f t"
      unfolding skip by blast
    moreover from False have "selected f m ((i # pre) @ [c]) = selected f m (pre @ [c])"
      by (auto split: option.splits)
    ultimately show ?thesis unfolding skip by (metis append_Cons)
  next
    case True
    then obtain t where t: "map_of m i = Some t" "tenant_match f t" "filter_match f t" by blast
    then have hit: "selected f m (i # xs) = t # selected f m xs" for xs by simp
    show ?thesis
    proof (cases "n = 1")
      case True
      have "i # is = [] @ i # is" "take n (selected f m (i # is)) = selected f m ([] @ [i])"
        "last (take n (selected f m (i # is))) = t" using t True by simp_all
      with t show ?thesis by blast
    next
      case False
      with Cons.prems obtain n' where n': "n = Suc n'" "0 < n'" by (cases n) auto
      with Cons.prems(2) have "length (take n' (selected f m is)) = n'" unfolding hit by simp
      from Cons.IH [OF n'(2) this]
      obtain pre c post u where u: "is = pre @ c # post" "take n' (selected f m is) = selected f m (pre @ [c])"
        "map_of m c = Some u" "last (take n' (selected f m is)) = u" "tenant_match f u" by blast
      have ne: "take n' (selected f m is) \<noteq> []" using n'(2) \<open>length _ = n'\<close> by auto
      have "i # is = (i # pre) @ c # post" "take n (selected f m (i # is)) = selected f m ((i # pre) @ [c])"
        "last (take n (selected f m (i # is))) = u"
        using u(1,2,4) ne by (simp_all only: hit append_Cons n'(1) take_Suc_Cons last_ConsR not_False_eq_True)
      with u show ?thesis by blast
    qed
  qed
qed simp

lemma list_loop_cursor:
  "map_of m (fl_Cursor f) = Some t \<Longrightarrow> tenant_match f t \<Longrightarrow> fl_Cursor f \<notin> set pre \<Longrightarrow>
     list_loop f m False n (pre @ fl_Cursor f # post) = list_loop f m True n post"
  by (induction pre) (auto split: option.splits)

text \<open>A client that follows the cursor until the repository returns none.\<close>

fun list_pages :: "nat \<Rightarrow> TaskFilter \<Rightarrow> MemoryQueueRepository \<Rightarrow> Task list" where
  "list_pages 0 f r = []"
| "list_pages (Suc n) f r =
     (let (result, next) = ListTasks f r
      in if next = [] then result else result @ list_pages n (f\<lparr>fl_Cursor := next\<rparr>) r)"

lemma list_limit_pos: "0 < list_limit f"
  by (simp add: list_limit_def)

lemma ListTasks_from:
  assumes "queue_wf r" and "ids = sort_strings (map fst (tasks r))"
    and "fl_Cursor f = [] \<and> rest = ids \<or>
      ids = pre @ fl_Cursor f # rest \<and> map_of (tasks r) (fl_Cursor f) = Some t \<and> tenant_match f t"
  shows "fst (ListTasks f r) = take (nat (list_limit f)) (selected f (tasks r) rest)"
proof -
  have "distinct ids" using queue_wfD(1) [OF assms(1)] by (simp add: assms(2) gmap_wf_def)
  from assms(3) have "list_loop f (tasks r) (fl_Cursor f = []) (nat (list_limit f)) ids =
      list_loop f (tasks r) True (nat (list_limit f)) rest"
  proof
    assume c: "ids = pre @ fl_Cursor f # rest \<and> map_of (tasks r) (fl_Cursor f) = Some t \<and> tenant_match f t"
    then have "fl_Cursor f \<noteq> []" using queue_wfD(3) [OF assms(1)] by blast
    moreover have "fl_Cursor f \<notin> set pre" using c \<open>distinct ids\<close> by auto
    ultimately show ?thesis using c by (simp add: list_loop_cursor)
  qed simp
  then show ?thesis
    using list_limit_pos [of f] by (simp add: ListTasks_def Let_def assms(2) list_loop_started)
qed

lemma list_pages_from:
  assumes "queue_wf r" and "ids = sort_strings (map fst (tasks r))"
  shows "fl_Cursor f = [] \<and> rest = ids \<or>
      ids = pre @ fl_Cursor f # rest \<and> map_of (tasks r) (fl_Cursor f) = Some t \<and> tenant_match f t \<Longrightarrow>
    length rest < fuel \<Longrightarrow> list_pages fuel f r = selected f (tasks r) rest"
proof (induction fuel arbitrary: f rest pre t)
  case (Suc fuel)
  let ?n = "nat (list_limit f)"
  let ?page = "take ?n (selected f (tasks r) rest)"
  have n: "0 < ?n" using list_limit_pos [of f] by simp
  have page: "fst (ListTasks f r) = ?page" by (rule ListTasks_from [OF assms Suc.prems(1)])
  have "next": "snd (ListTasks f r) = (if length ?page = ?n then t_ID (last ?page) else [])"
    using page n by (auto simp: ListTasks_def Let_def)
  show ?case
  proof (cases "length ?page = ?n")
    case False
    then have "?page = selected f (tasks r) rest" by simp
    with False page "next" show ?thesis by (simp add: case_prod_unfold)
  next
    case True
    from list_loop_full [OF n True] obtain pre' c post u where c: "rest = pre' @ c # post"
      "?page = selected f (tasks r) (pre' @ [c])" "map_of (tasks r) c = Some u" "last ?page = u" "tenant_match f u"
      by blast
    have "snd (ListTasks f r) = c" using True "next" c(3,4) queue_wfD(2) [OF assms(1)] by auto
    moreover have "c \<noteq> []" using queue_wfD(3) [OF assms(1) c(3)] .
    moreover have "list_pages fuel (f\<lparr>fl_Cursor := c\<rparr>) r = selected f (tasks r) post"
    proof -
      have "\<exists>pre. ids = pre @ c # post" using Suc.prems(1) c(1) by (metis append.assoc append_Cons)
      then obtain p where "ids = p @ c # post" by blast
      with c Suc.prems(2) show ?thesis
        using Suc.IH [of "f\<lparr>fl_Cursor := c\<rparr>" post p u] by simp
    qed
    ultimately show ?thesis
      using page c(1,2) by (simp add: case_prod_unfold c(3))
  qed
qed simp

text \<open>
  C7 (functional). Paging is complete: a caller that starts without a cursor and follows the
  returned cursor until it is empty sees exactly the tasks of the tenant that match the filter,
  each once, in the order of their identifiers, whatever the page size. As many rounds as there
  are tasks, and one more, are enough.
\<close>

theorem list_pages_complete:
  assumes "queue_reachable r" and "fl_Cursor f = []" and "length (tasks r) < fuel"
  shows "list_pages fuel f r =
     filter (\<lambda>t. tenant_match f t \<and> filter_match f t) (map (the \<circ> map_of (tasks r)) (sort_strings (map fst (tasks r))))"
proof -
  note wf = queue_reachable_wf_aux [OF assms(1)]
  have "List.map_filter (map_of (tasks r)) (sort_strings (map fst (tasks r))) =
      map (the \<circ> map_of (tasks r)) (sort_strings (map fst (tasks r)))"
    by (auto simp: List.map_filter_def filter_id_conv map_of_eq_None_iff image_iff intro!: map_cong)
  then show ?thesis
    using list_pages_from [OF wf refl, of f "sort_strings (map fst (tasks r))" "[]" zero_task fuel] assms(2,3)
    by (simp add: selected_def length_sort_strings)
qed

definition page_filter :: TaskFilter where
  "page_filter = \<lparr>fl_TenantID = ''acme'', fl_Status = TaskStatusEmpty, fl_Type = [], fl_Pool = [],
     fl_ProjectID = [], fl_Limit = 1, fl_Cursor = []\<rparr>"

theorem list_pages_complete_witness:
  "list_pages 3 page_filter rival_queue =
     filter (\<lambda>t. tenant_match page_filter t \<and> filter_match page_filter t)
       (map (the \<circ> map_of (tasks rival_queue)) (sort_strings (map fst (tasks rival_queue)))) \<and>
   map t_ID (list_pages 3 page_filter rival_queue) = [''a'', ''b'']"
proof -
  have "length (tasks rival_queue) < 3" by code_simp
  moreover have "fl_Cursor page_filter = []" by (simp add: page_filter_def)
  moreover have "map t_ID (list_pages 3 page_filter rival_queue) = [''a'', ''b'']" by code_simp
  ultimately show ?thesis using list_pages_complete [OF rival_reachable, of page_filter 3] by simp
qed

section \<open>Statistics\<close>

definition tally :: "string \<Rightarrow> string \<Rightarrow> TaskStatus list \<Rightarrow> (string, Task) gomap \<Rightarrow> int" where
  "tally tenantID pool ss m =
     int (length (filter (\<lambda>(k, t). t_TenantID t = tenantID \<and> t_Pool t = pool \<and> t_Status t \<in> set ss) m))"

lemma tally_snoc [simp]:
  "tally tenantID pool ss (m @ [(k, t)]) =
     tally tenantID pool ss m +
       (if t_TenantID t = tenantID \<and> t_Pool t = pool \<and> t_Status t \<in> set ss then 1 else 0)"
  by (simp add: tally_def)

definition stats_fold :: "string \<Rightarrow> (string, Task) gomap \<Rightarrow> (string, PoolStats) gomap" where
  "stats_fold tenantID m =
     fold (\<lambda>(k, t) stats.
             if t_TenantID t \<noteq> tenantID then stats
             else gput (t_Pool t) (count_status (t_Status t) (gget0 zero_stats stats (t_Pool t))) stats) m []"

lemma stats_fold_counts:
  "gget0 zero_stats (stats_fold tenantID m) pool =
     \<lparr>ps_Queued = tally tenantID pool [TaskStatusQueued, TaskStatusFailedRetryable] m,
      ps_Running = tally tenantID pool [TaskStatusLeased, TaskStatusRunning, TaskStatusCancelling] m,
      ps_Succeeded = tally tenantID pool [TaskStatusSucceeded] m,
      ps_Failed = tally tenantID pool [TaskStatusFailedTerminal, TaskStatusCancelled] m,
      ps_DeadLetter = tally tenantID pool [TaskStatusDeadLetter] m\<rparr>"
proof (induction m rule: rev_induct)
  case Nil
  then show ?case by (simp add: stats_fold_def tally_def gget0_def zero_stats_def)
next
  case (snoc p m)
  obtain k t where p: "p = (k, t)" by (cases p)
  have step: "stats_fold tenantID (m @ [(k, t)]) =
      (if t_TenantID t \<noteq> tenantID then stats_fold tenantID m
       else gput (t_Pool t) (count_status (t_Status t) (gget0 zero_stats (stats_fold tenantID m) (t_Pool t)))
              (stats_fold tenantID m))"
    by (simp add: stats_fold_def)
  show ?case
  proof (cases "t_TenantID t = tenantID \<and> t_Pool t = pool")
    case True
    with snoc show ?thesis
      by (cases "t_Status t") (simp_all add: step p count_status_def)
  next
    case False
    with snoc show ?thesis by (auto simp: step p)
  qed
qed

text \<open>
  \<^verbatim>\<open>Stats\<close> counts, per pool, exactly the tasks of the tenant in each group of
  statuses, whatever the order of the task map.
\<close>

lemma Stats_counts:
  "gget0 zero_stats (Stats tenantID r) pool =
     \<lparr>ps_Queued = tally tenantID pool [TaskStatusQueued, TaskStatusFailedRetryable] (tasks r),
      ps_Running = tally tenantID pool [TaskStatusLeased, TaskStatusRunning, TaskStatusCancelling] (tasks r),
      ps_Succeeded = tally tenantID pool [TaskStatusSucceeded] (tasks r),
      ps_Failed = tally tenantID pool [TaskStatusFailedTerminal, TaskStatusCancelled] (tasks r),
      ps_DeadLetter = tally tenantID pool [TaskStatusDeadLetter] (tasks r)\<rparr>"
  using stats_fold_counts by (simp add: Stats_def stats_fold_def)

end
