(* ===== verification/AuditLog.thy ===== *)
theory AuditLog
  imports "Prelude"
begin

text \<open>
  The audit log of \<^verbatim>\<open>internal/audit\<close>: the events of \<^verbatim>\<open>event.go\<close>, the in-memory repository of
  \<^verbatim>\<open>repository_memory.go\<close> (its writes and its lookup) and the service of \<^verbatim>\<open>service.go\<close>, which hands
  events to a background loop through a bounded channel. The service is a step relation: the
  calls of several goroutines interleave at the points where the code releases its lock.
\<close>

section \<open>Events and the in-memory repository\<close>

record AuditEvent =
  ae_ID :: string
  ae_TenantID :: string
  ae_ProjectID :: string
  ae_ActorType :: string
  ae_ActorID :: string
  ae_Action :: string
  ae_ResourceType :: string
  ae_ResourceID :: string
  ae_Outcome :: string
  ae_TraceID :: string
  ae_TaskID :: string
  ae_IdempotencyKey :: string
  ae_Metadata :: "(string, string) gomap option"
  ae_ErrorCode :: string
  ae_ErrorMessage :: string
  ae_CreatedAt :: gotime

text \<open>The run-time panics the code below can raise.\<close>

datatype go_panic = IndexOutOfRange | SendOnClosedChannel | CloseOfClosedChannel

record MemoryAuditRepository =
  ar_events :: "AuditEvent list"
  ar_byID :: "(string, nat) gomap"

definition NewMemoryAuditRepository :: MemoryAuditRepository where
  "NewMemoryAuditRepository = \<lparr>ar_events = [], ar_byID = []\<rparr>"

text \<open>The fields the repository fills in before it stores an event.\<close>

definition audit_defaults :: "entropy \<Rightarrow> gotime \<Rightarrow> AuditEvent \<Rightarrow> AuditEvent" where
  "audit_defaults b now e =
     e\<lparr>ae_ID := (if ae_ID e = [] then id_New ''audit'' b else ae_ID e),
       ae_CreatedAt := (if IsZero (ae_CreatedAt e) then now else ae_CreatedAt e),
       ae_Metadata := (case ae_Metadata e of None \<Rightarrow> Some [] | Some m \<Rightarrow> Some m)\<rparr>"

definition AuditRepo_Record ::
  "entropy \<Rightarrow> gotime \<Rightarrow> AuditEvent \<Rightarrow> MemoryAuditRepository \<Rightarrow> MemoryAuditRepository" where
  "AuditRepo_Record b now e r =
     (let e' = audit_defaults b now e
      in \<lparr>ar_events = ar_events r @ [e'],
          ar_byID = gput (ae_ID e') (length (ar_events r)) (ar_byID r)\<rparr>)"

definition AuditRepo_Get :: "string \<Rightarrow> MemoryAuditRepository \<Rightarrow> go_panic + AuditEvent option" where
  "AuditRepo_Get eventID r =
     (case map_of (ar_byID r) eventID of
        None \<Rightarrow> Inr None
      | Some idx \<Rightarrow>
          if idx < length (ar_events r) then Inr (Some (ar_events r ! idx)) else Inl IndexOutOfRange)"

text \<open>The index names, for each identifier, the position of the last event that carries it.\<close>

definition audit_index_ok :: "MemoryAuditRepository \<Rightarrow> bool" where
  "audit_index_ok r \<longleftrightarrow>
     (\<forall>i idx. map_of (ar_byID r) i = Some idx \<longrightarrow>
        idx < length (ar_events r) \<and> ae_ID (ar_events r ! idx) = i)"

lemma audit_index_ok_new [simp, inv_intros]: "audit_index_ok NewMemoryAuditRepository"
  by (simp add: audit_index_ok_def NewMemoryAuditRepository_def)

lemma audit_index_ok_Record [inv_intros]:
  "audit_index_ok r \<Longrightarrow> audit_index_ok (AuditRepo_Record b now e r)"
  by (auto simp: audit_index_ok_def AuditRepo_Record_def Let_def map_simps nth_append less_SucI)

lemma AuditRepo_Get_Record:
  assumes "audit_index_ok r"
  shows "AuditRepo_Get i (AuditRepo_Record b now e r) =
    (if i = ae_ID (audit_defaults b now e) then Inr (Some (audit_defaults b now e))
     else AuditRepo_Get i r)"
  using assms [unfolded audit_index_ok_def, rule_format, of i]
  by (auto simp: AuditRepo_Get_def AuditRepo_Record_def Let_def map_simps nth_append
      split: option.splits)

section \<open>The service\<close>

text \<open>
  \<open>as_loops\<close> counts the goroutines running \<^verbatim>\<open>processLoop\<close> that wait at its \<^verbatim>\<open>select\<close>, and \<open>as_held\<close> has
  the events of the others, which have received an event and not yet stored it; \<open>as_closed\<close> and
  \<open>as_buffer\<close> are the state of the channel. \<open>as_pending\<close> holds the calls of \<^verbatim>\<open>Record\<close> that have read \<open>running\<close> as true under the
  read lock, have released the lock and have not yet reached the \<^verbatim>\<open>select\<close>. \<open>as_panic\<close> is set when a
  goroutine panics, which ends the process.
\<close>

record AuditService =
  as_repo :: MemoryAuditRepository
  as_async :: bool
  as_cap :: nat
  as_buffer :: "AuditEvent list"
  as_closed :: bool
  as_running :: bool
  as_loops :: nat
  as_held :: "AuditEvent list"
  as_pending :: "AuditEvent list"
  as_panic :: "go_panic option"

definition NewAuditService :: "MemoryAuditRepository \<Rightarrow> int \<Rightarrow> AuditService" where
  "NewAuditService repo asyncBufferSize =
     \<lparr>as_repo = repo, as_async = (asyncBufferSize > 0), as_cap = nat asyncBufferSize,
      as_buffer = [], as_closed = False, as_running = False, as_loops = 0, as_held = [], as_pending = [],
      as_panic = None\<rparr>"

definition AuditService_Start :: "AuditService \<Rightarrow> AuditService" where
  "AuditService_Start s =
     (if as_running s \<or> \<not> as_async s then s
      else s\<lparr>as_running := True, as_loops := as_loops s + 1\<rparr>)"

text \<open>The part of \<^verbatim>\<open>Stop\<close> under the lock; what follows only waits for the loops to end.\<close>

definition AuditService_Stop :: "AuditService \<Rightarrow> AuditService" where
  "AuditService_Stop s =
     (if \<not> as_running s \<or> \<not> as_async s then s
      else if as_closed s then s\<lparr>as_running := False, as_panic := Some CloseOfClosedChannel\<rparr>
      else s\<lparr>as_running := False, as_closed := True\<rparr>)"

text \<open>
  \<^verbatim>\<open>Record\<close> up to the release of the read lock (the whole call, when the service is synchronous or
  not running), and the \<^verbatim>\<open>select\<close> that follows.
\<close>

definition record_begin :: "entropy \<Rightarrow> gotime \<Rightarrow> AuditEvent \<Rightarrow> AuditService \<Rightarrow> AuditService" where
  "record_begin b now e s =
     (if as_async s
      then if \<not> as_running s then s else s\<lparr>as_pending := as_pending s @ [e]\<rparr>
      else s\<lparr>as_repo := AuditRepo_Record b now e (as_repo s)\<rparr>)"

definition channel_send :: "AuditEvent \<Rightarrow> AuditService \<Rightarrow> AuditService" where
  "channel_send e s =
     (if as_closed s then s\<lparr>as_panic := Some SendOnClosedChannel\<rparr>
      else if length (as_buffer s) < as_cap s then s\<lparr>as_buffer := as_buffer s @ [e]\<rparr>
      else s)"

text \<open>
  One iteration of \<^verbatim>\<open>processLoop\<close> is two steps: a waiting loop receives from the channel, and then it
  stores the event it holds and waits again. Other goroutines run in between.
\<close>

definition loop_receive :: "AuditService \<Rightarrow> AuditService" where
  "loop_receive s =
     (case as_buffer s of
        e # es \<Rightarrow> s\<lparr>as_buffer := es, as_loops := as_loops s - 1, as_held := as_held s @ [e]\<rparr>
      | [] \<Rightarrow> if as_closed s then s\<lparr>as_loops := as_loops s - 1\<rparr> else s)"

definition loop_store :: "nat \<Rightarrow> entropy \<Rightarrow> gotime \<Rightarrow> AuditService \<Rightarrow> AuditService" where
  "loop_store i b now s =
     s\<lparr>as_repo := AuditRepo_Record b now (as_held s ! i) (as_repo s),
       as_held := take i (as_held s) @ drop (Suc i) (as_held s), as_loops := as_loops s + 1\<rparr>"

text \<open>\<^verbatim>\<open>Record\<close> called with nothing running in between.\<close>

definition AuditService_Record :: "entropy \<Rightarrow> gotime \<Rightarrow> AuditEvent \<Rightarrow> AuditService \<Rightarrow> AuditService" where
  "AuditService_Record b now e s =
     (if as_async s
      then if \<not> as_running s then s else channel_send e s
      else s\<lparr>as_repo := AuditRepo_Record b now e (as_repo s)\<rparr>)"

definition AuditService_Get :: "string \<Rightarrow> AuditService \<Rightarrow> go_panic + AuditEvent option" where
  "AuditService_Get eventID s = AuditRepo_Get eventID (as_repo s)"

subsection \<open>Interleavings\<close>

datatype audit_op =
    OpStart
  | OpStop
  | OpRecord entropy gotime AuditEvent
  | OpSend nat
  | OpReceive
  | OpStore nat entropy gotime
  | OpLoopCancelled

text \<open>
  A step of the whole system. \<open>OpSend i\<close> lets the \<open>i\<close>-th pending call reach its \<^verbatim>\<open>select\<close>;
  \<open>OpStore i\<close> lets
  the loop that holds the \<open>i\<close>-th event in hand store it; \<open>OpLoopCancelled\<close> is a waiting loop that sees its
  context done. Nothing runs after a panic.
\<close>

fun audit_step :: "audit_op \<Rightarrow> AuditService \<Rightarrow> AuditService" where
  "audit_step OpStart s = AuditService_Start s"
| "audit_step OpStop s = AuditService_Stop s"
| "audit_step (OpRecord b now e) s = record_begin b now e s"
| "audit_step (OpSend i) s =
     (if i < length (as_pending s)
      then channel_send (as_pending s ! i)
             (s\<lparr>as_pending := take i (as_pending s) @ drop (Suc i) (as_pending s)\<rparr>)
      else s)"
| "audit_step OpReceive s = (if 0 < as_loops s then loop_receive s else s)"
| "audit_step (OpStore i b now) s = (if i < length (as_held s) then loop_store i b now s else s)"
| "audit_step OpLoopCancelled s = (if 0 < as_loops s then s\<lparr>as_loops := as_loops s - 1\<rparr> else s)"

fun audit_run :: "audit_op list \<Rightarrow> AuditService \<Rightarrow> AuditService" where
  "audit_run [] s = s"
| "audit_run (a # as) s = (if as_panic s = None then audit_run as (audit_step a s) else s)"

text \<open>The events that enter the channel along a run, in the order in which they enter it.\<close>

fun sent_by :: "audit_op \<Rightarrow> AuditService \<Rightarrow> AuditEvent list" where
  "sent_by (OpSend i) s =
     (if i < length (as_pending s) \<and> \<not> as_closed s \<and> length (as_buffer s) < as_cap s
      then [as_pending s ! i] else [])"
| "sent_by _ s = []"

fun audit_sent :: "audit_op list \<Rightarrow> AuditService \<Rightarrow> AuditEvent list" where
  "audit_sent [] s = []"
| "audit_sent (a # as) s =
     (if as_panic s = None then sent_by a s @ audit_sent as (audit_step a s) else [])"

lemma audit_run_append:
  "audit_run (as @ bs) s = audit_run bs (audit_run as s)"
proof (induction as arbitrary: s)
  case (Cons a as)
  show ?case
  proof (cases "as_panic s = None")
    case False
    then show ?thesis by (cases bs) auto
  qed (simp add: Cons)
qed simp

lemma AuditService_Record_steps:
  "as_async s \<Longrightarrow> as_running s \<Longrightarrow>
   AuditService_Record b now e s =
     audit_step (OpSend (length (as_pending s))) (audit_step (OpRecord b now e) s)"
  by (simp add: AuditService_Record_def record_begin_def channel_send_def)

lemmas audit_op_defs = AuditService_Start_def AuditService_Stop_def record_begin_def
  channel_send_def loop_receive_def loop_store_def

text \<open>What the loop has stored carries the event as it was sent, up to the fields filled in.\<close>

definition same_event :: "AuditEvent \<Rightarrow> AuditEvent \<Rightarrow> bool" where
  "same_event e e' \<longleftrightarrow> (\<exists>b now. e' = audit_defaults b now e)"

lemma AuditRepo_Record_events:
  "ar_events (AuditRepo_Record b now e r) = ar_events r @ [audit_defaults b now e]"
  by (simp add: AuditRepo_Record_def Let_def)

text \<open>
  The events \<open>sent\<close> are those stored since \<open>old\<close>, those in the hands of the loops and those in the
  channel; with \<open>ordered\<close>, in this order.
\<close>

definition audit_flow :: "bool \<Rightarrow> AuditEvent list \<Rightarrow> AuditEvent list \<Rightarrow> AuditService \<Rightarrow> bool" where
  "audit_flow ordered old sent s \<longleftrightarrow>
     (\<exists>xs ys. list_all2 same_event xs ys \<and> ar_events (as_repo s) = old @ ys \<and>
        mset xs + mset (as_held s) + mset (as_buffer s) = mset sent \<and>
        (ordered \<longrightarrow> xs @ as_held s @ as_buffer s = sent))"

lemma mset_remove_nth:
  "i < length xs \<Longrightarrow> add_mset (xs ! i) (mset (take i xs @ drop (Suc i) xs)) = mset xs"
  by (metis add_mset_add_single id_take_nth_drop mset.simps(2) mset_append union_mset_add_mset_right)

lemma audit_store_flow:
  assumes "audit_flow o' old sent s" and "i < length (as_held s)" and "o' \<Longrightarrow> i = 0"
  shows "audit_flow o' old sent (loop_store i b now s)"
proof -
  from assms(1) obtain xs ys where f: "list_all2 same_event xs ys" "ar_events (as_repo s) = old @ ys"
      "mset xs + mset (as_held s) + mset (as_buffer s) = mset sent" "o' \<Longrightarrow> xs @ as_held s @ as_buffer s = sent"
    by (auto simp: audit_flow_def)
  let ?e = "as_held s ! i"
  have "same_event ?e (audit_defaults b now ?e)" by (auto simp: same_event_def)
  then have "list_all2 same_event (xs @ [?e]) (ys @ [audit_defaults b now ?e])"
    using f(1) by (simp add: list_all2_appendI)
  moreover have "ar_events (as_repo (loop_store i b now s)) = old @ ys @ [audit_defaults b now ?e]"
    by (simp add: loop_store_def AuditRepo_Record_events f(2))
  moreover have "mset (xs @ [?e]) + mset (as_held (loop_store i b now s)) + mset (as_buffer (loop_store i b now s)) = mset sent"
    by (simp add: loop_store_def f(3) [symmetric] mset_remove_nth [OF assms(2), symmetric])
  moreover have "(xs @ [?e]) @ as_held (loop_store i b now s) @ as_buffer (loop_store i b now s) = sent" if o'
  proof -
    from assms(2,3) that obtain e es where "as_held s = e # es" "i = 0" by (cases "as_held s") auto
    with f(4) that show ?thesis by (simp add: loop_store_def)
  qed
  ultimately show ?thesis unfolding audit_flow_def by blast
qed

lemma audit_step_flow:
  assumes "as_async s" and "audit_flow o' old sent s" and "o' \<Longrightarrow> as_loops s + length (as_held s) \<le> 1"
  shows "audit_flow o' old (sent @ sent_by a s) (audit_step a s) \<and> as_async (audit_step a s)"
proof (cases a)
  case OpReceive
  with assms show ?thesis by (cases "as_buffer s") (auto simp: audit_flow_def loop_receive_def)
next
  case (OpStore i b now)
  have "i = 0" if o' "i < length (as_held s)" using assms(3) that by simp
  with OpStore assms(1) audit_store_flow [OF assms(2), of i b now] assms(2) show ?thesis
    by (cases "i < length (as_held s)") (auto simp: loop_store_def)
qed (use assms(1,2) in \<open>auto simp: audit_flow_def audit_op_defs\<close>)

text \<open>A history in which the service is not started again after a stop has at most one loop.\<close>

fun no_restart :: "audit_op list \<Rightarrow> bool" where
  "no_restart [] = True"
| "no_restart (a # as) = ((a = OpStop \<longrightarrow> OpStart \<notin> set as) \<and> no_restart as)"

definition one_loop :: "audit_op list \<Rightarrow> AuditService \<Rightarrow> bool" where
  "one_loop as s \<longleftrightarrow> no_restart as \<and> (as_closed s \<longrightarrow> OpStart \<notin> set as) \<and>
     as_loops s + length (as_held s) \<le> (if as_running s \<or> as_closed s then 1 else 0)"

lemma one_loop_step: "one_loop (a # as) s \<Longrightarrow> one_loop as (audit_step a s)"
  by (cases a) (auto simp: one_loop_def audit_op_defs split: list.splits if_splits)

lemma audit_run_flow:
  assumes "as_async s" and "audit_flow o' old sent s" and "o' \<Longrightarrow> one_loop as s"
  shows "audit_flow o' old (sent @ audit_sent as s) (audit_run as s)"
  using assms
proof (induction as arbitrary: s sent)
  case (Cons a as)
  show ?case
  proof (cases "as_panic s = None")
    case True
    have "as_loops s + length (as_held s) \<le> 1" if o' using Cons.prems(3) [OF that] by (auto simp: one_loop_def split: if_splits)
    from audit_step_flow [OF Cons.prems(1,2) this, of a]
    have "audit_flow o' old (sent @ sent_by a s) (audit_step a s)" "as_async (audit_step a s)" by simp_all
    from Cons.IH [OF this(2,1) one_loop_step [OF Cons.prems(3)]] True show ?thesis by simp
  next
    case False
    with Cons.prems(2) show ?thesis by auto
  qed
qed simp

section \<open>Properties\<close>

text \<open>
  The steps by which the loops finish: those that hold an event store it, and one loop receives and
  stores what the channel still holds.
\<close>

definition drain_steps :: "entropy \<Rightarrow> gotime \<Rightarrow> AuditService \<Rightarrow> audit_op list" where
  "drain_steps b now s =
     replicate (length (as_held s)) (OpStore 0 b now) @
     concat (replicate (length (as_buffer s)) [OpReceive, OpStore 0 b now])"

lemma audit_sent_append:
  "audit_sent (as @ bs) s = audit_sent as s @ audit_sent bs (audit_run as s)"
proof (induction as arbitrary: s)
  case (Cons a as)
  show ?case
  proof (cases "as_panic s = None")
    case False
    then show ?thesis by (cases bs) auto
  qed (simp add: Cons)
qed simp

lemma stores_finish:
  assumes "as_panic s = None" and "t = audit_run (replicate (length (as_held s)) (OpStore 0 b now)) s"
  shows "as_held t = [] \<and> as_buffer t = as_buffer s \<and> as_loops t = as_loops s + length (as_held s) \<and> as_panic t = None"
  using assms
proof (induction "length (as_held s)" arbitrary: s)
  case (Suc n)
  from Suc.hyps(2) obtain e es where h: "as_held s = e # es" by (cases "as_held s") auto
  with Suc.hyps(2) Suc.prems Suc.hyps(1) [of "loop_store 0 b now s"] show ?case by (simp add: loop_store_def)
qed simp

lemma receives_finish:
  assumes "as_panic s = None" and "as_held s = []" and "0 < as_loops s"
    and "t = audit_run (concat (replicate (length (as_buffer s)) [OpReceive, OpStore 0 b now])) s"
  shows "as_held t = [] \<and> as_buffer t = []"
  using assms
proof (induction "length (as_buffer s)" arbitrary: s)
  case (Suc n)
  from Suc.hyps(2) obtain e es where h: "as_buffer s = e # es" by (cases "as_buffer s") auto
  let ?s = "loop_store 0 b now (loop_receive s)"
  have s: "as_buffer ?s = es" "as_held ?s = []" "0 < as_loops ?s" "as_panic ?s = None"
    using Suc.prems h by (simp_all add: loop_receive_def loop_store_def)
  have "n = length (as_buffer ?s)" using Suc.hyps(2) h s(1) by simp
  moreover have "t = audit_run (concat (replicate (length (as_buffer ?s)) [OpReceive, OpStore 0 b now])) ?s"
    using Suc.prems h s(1) by (simp add: loop_receive_def)
  ultimately show ?case using Suc.hyps(1) [of ?s] s by blast
qed simp

lemma nothing_sent: "list_all (\<lambda>a. \<forall>i. a \<noteq> OpSend i) as \<Longrightarrow> audit_sent as s = []"
proof (induction as arbitrary: s)
  case (Cons a as)
  then show ?case by (cases a) simp_all
qed simp

lemma drain_steps_finish:
  assumes "as_panic s = None" and "0 < as_loops s + length (as_held s)" and "t = audit_run (drain_steps b now s) s"
  shows "as_held t = []" and "as_buffer t = []" and "audit_sent (drain_steps b now s) s = []"
proof -
  obtain u where u: "u = audit_run (replicate (length (as_held s)) (OpStore 0 b now)) s" by simp
  note f = stores_finish [OF assms(1) u]
  have "t = audit_run (concat (replicate (length (as_buffer u)) [OpReceive, OpStore 0 b now])) u"
    using f by (simp add: assms(3) drain_steps_def audit_run_append u)
  from receives_finish [OF _ _ _ this] f assms(2) show "as_held t = []" "as_buffer t = []" by simp_all
  show "audit_sent (drain_steps b now s) s = []"
    by (rule nothing_sent) (auto simp: drain_steps_def list_all_iff)
qed

text \<open>A history in which \<^verbatim>\<open>Stop\<close> waits for the calls in flight and nothing is started after it.\<close>

fun audit_disciplined :: "audit_op list \<Rightarrow> AuditService \<Rightarrow> bool" where
  "audit_disciplined [] s = True"
| "audit_disciplined (a # as) s =
     ((a = OpStop \<longrightarrow> as_pending s = []) \<and> (a = OpStart \<longrightarrow> \<not> as_closed s) \<and>
      audit_disciplined as (audit_step a s))"

definition quiet_after_close :: "AuditService \<Rightarrow> bool" where
  "quiet_after_close s \<longleftrightarrow>
     as_panic s = None \<and> (as_closed s \<longrightarrow> as_pending s = [] \<and> \<not> as_running s)"

lemma quiet_after_close_step:
  assumes "quiet_after_close s" and "a = OpStop \<longrightarrow> as_pending s = []" and "a = OpStart \<longrightarrow> \<not> as_closed s"
  shows "quiet_after_close (audit_step a s)"
  using assms by (cases a) (auto simp: quiet_after_close_def audit_op_defs split: list.splits)

lemma quiet_after_close_run:
  assumes "quiet_after_close s" and "audit_disciplined as s"
  shows "quiet_after_close (audit_run as s)"
  using assms
proof (induction as s rule: audit_run.induct)
  case (2 a as s)
  then show ?case using quiet_after_close_step [of s a] by (simp add: quiet_after_close_def)
qed simp

lemma audit_service_flow:
  assumes "0 < cap"
  shows "audit_flow (no_restart as) (ar_events repo) (audit_sent as (NewAuditService repo cap))
    (audit_run as (NewAuditService repo cap))"
  using audit_run_flow [of "NewAuditService repo cap" "no_restart as" "ar_events repo" "[]" as] assms
  by (simp add: NewAuditService_def audit_flow_def one_loop_def)

text \<open>
  C11 (safety). The asynchronous service loses nothing it has accepted. Along any interleaving of
  callers, \<^verbatim>\<open>Start\<close>, \<^verbatim>\<open>Stop\<close> and loops, the events that entered the channel are, each once, those
  stored so far, those a loop has received and not yet stored, and those still in the channel; and as
  long as the service is not started again after a stop, so that there is one loop, in just this
  order. Once the service is stopped, and a loop was still alive, the loops have stored all of them
  when they have stored what they hold and one of them has emptied the channel.
\<close>

theorem audit_no_loss:
  assumes "0 < cap" and "s = audit_run as (NewAuditService repo cap)"
  shows "(\<exists>xs ys. list_all2 same_event xs ys \<and> ar_events (as_repo s) = ar_events repo @ ys \<and>
        mset xs + mset (as_held s) + mset (as_buffer s) = mset (audit_sent as (NewAuditService repo cap)) \<and>
        (no_restart as \<longrightarrow> xs @ as_held s @ as_buffer s = audit_sent as (NewAuditService repo cap))) \<and>
    (as_panic s = None \<and> as_panic (audit_step OpStop s) = None \<and> 0 < as_loops s + length (as_held s) \<longrightarrow>
      (\<exists>xs ys. list_all2 same_event xs ys \<and> mset xs = mset (audit_sent as (NewAuditService repo cap)) \<and>
        ar_events (as_repo (audit_run (OpStop # drain_steps b now s) s)) = ar_events repo @ ys))"
proof (intro conjI impI, goal_cases)
  case 1
  show ?case using audit_service_flow [OF assms(1), of as repo] by (auto simp: assms(2) audit_flow_def)
next
  case 2
  let ?t = "audit_step OpStop s" and ?d = "drain_steps b now s"
  have t: "as_held ?t = as_held s" "as_buffer ?t = as_buffer s" "as_loops ?t = as_loops s"
    by (simp_all add: AuditService_Stop_def)
  then have d: "?d = drain_steps b now ?t" by (simp add: drain_steps_def)
  have "as_held (audit_run ?d ?t) = []" "as_buffer (audit_run ?d ?t) = []" "audit_sent ?d ?t = []"
    unfolding d using drain_steps_finish [OF _ _ refl, of ?t b now] t 2 by simp_all
  moreover have "audit_run (as @ OpStop # ?d) (NewAuditService repo cap) = audit_run ?d ?t"
    "audit_sent (as @ OpStop # ?d) (NewAuditService repo cap) =
       audit_sent as (NewAuditService repo cap) @ audit_sent ?d ?t"
    using 2 by (simp_all add: audit_run_append audit_sent_append assms(2))
  ultimately show ?case
    using audit_service_flow [OF assms(1), of "as @ OpStop # ?d" repo] 2 by (auto simp: audit_flow_def)
qed

definition sample_event :: AuditEvent where
  "sample_event =
     \<lparr>ae_ID = ''e1'', ae_TenantID = ''acme'', ae_ProjectID = [], ae_ActorType = ''user'', ae_ActorID = ''u1'',
      ae_Action = ''task.cancelled'', ae_ResourceType = ''task'', ae_ResourceID = ''a'', ae_Outcome = ''success'',
      ae_TraceID = [], ae_TaskID = ''a'', ae_IdempotencyKey = [], ae_Metadata = None, ae_ErrorCode = [],
      ae_ErrorMessage = [], ae_CreatedAt = 5\<rparr>"

abbreviation sample_service :: AuditService where
  "sample_service \<equiv> NewAuditService NewMemoryAuditRepository 4"

text \<open>Two events are accepted; at the stop the loop holds the first one and the second is in the channel.\<close>

theorem audit_no_loss_witness:
  "let as = [OpStart, OpRecord None 6 sample_event, OpRecord None 7 sample_event, OpSend 0, OpReceive, OpSend 0];
     s = audit_run as sample_service
   in as_held s = [sample_event] \<and> as_buffer s = [sample_event] \<and>
     (\<exists>xs ys. list_all2 same_event xs ys \<and> mset xs = {#sample_event, sample_event#} \<and>
       ar_events (as_repo (audit_run (OpStop # drain_steps None 9 s) s)) = ys)"
proof -
  let ?as = "[OpStart, OpRecord None 6 sample_event, OpRecord None 7 sample_event, OpSend 0, OpReceive, OpSend 0]"
  let ?s = "audit_run ?as sample_service"
  have "audit_sent ?as sample_service = [sample_event, sample_event]"
    "as_buffer ?s = [sample_event]" "as_held ?s = [sample_event]" "as_panic ?s = None"
    "as_panic (audit_step OpStop ?s) = None"
    by (simp_all add: NewAuditService_def audit_op_defs)
  then show ?thesis
    using audit_no_loss [of 4 ?s ?as NewMemoryAuditRepository None 9]
    by (simp add: NewMemoryAuditRepository_def Let_def)
qed

text \<open>
  The service does not panic in any interleaving in which \<^verbatim>\<open>Stop\<close> is called with no
  \<^verbatim>\<open>Record\<close> between its check and its send, and \<^verbatim>\<open>Start\<close> is not called after a \<^verbatim>\<open>Stop\<close>.
\<close>

lemma audit_no_panic:
  assumes "audit_disciplined as (NewAuditService repo cap)"
  shows "as_panic (audit_run as (NewAuditService repo cap)) = None"
proof -
  have "quiet_after_close (NewAuditService repo cap)"
    by (simp add: quiet_after_close_def NewAuditService_def)
  from quiet_after_close_run [OF this assms] show ?thesis by (simp add: quiet_after_close_def)
qed

lemma audit_no_panic_witness:
  "as_panic (audit_run [OpStart, OpRecord None 6 sample_event, OpSend 0, OpStop, OpReceive, OpStore 0 None 9] sample_service) = None"
  by (rule audit_no_panic) (simp add: NewAuditService_def audit_op_defs)

text \<open>
  Both conditions are needed: a \<^verbatim>\<open>Stop\<close> that runs between the check of \<^verbatim>\<open>running\<close> in
  \<^verbatim>\<open>Record\<close> and its send on the channel makes the caller panic, and a service that is started again
  after a stop panics at the next \<^verbatim>\<open>Record\<close> and at the next \<^verbatim>\<open>Stop\<close>.
\<close>

lemma audit_stop_race:
  "0 < cap \<Longrightarrow>
   as_panic (audit_run [OpStart, OpRecord b now e, OpStop, OpSend 0] (NewAuditService repo cap)) =
     Some SendOnClosedChannel \<and>
   as_panic (audit_run [OpStart, OpStop, OpStart, OpRecord b now e, OpSend 0] (NewAuditService repo cap)) =
     Some SendOnClosedChannel \<and>
   as_panic (audit_run [OpStart, OpStop, OpStart, OpStop] (NewAuditService repo cap)) =
     Some CloseOfClosedChannel"
  by (simp add: NewAuditService_def audit_op_defs)

lemma audit_stop_race_witness:
  "as_panic (audit_run [OpStart, OpRecord None 1 sample_event, OpStop, OpSend 0] sample_service) =
     Some SendOnClosedChannel"
  using audit_stop_race [of 4] by simp

end
