(* ===== verification/TaskService.thy ===== *)
theory TaskService
  imports TaskQueueProps AuditLog
begin

text \<open>
  The control-plane facade of the queue, \<^verbatim>\<open>internal/taskqueue/service.go\<close>: every operation with its
  validation, its tenant check and the audit event it records. The service runs over the
  in-memory repository and records its audit events with the audit service.
\<close>

section \<open>The service\<close>

record TaskService =
  ts_repo :: MemoryQueueRepository
  ts_audit :: "AuditService option"

definition Service_record ::
  "entropy \<Rightarrow> entropy \<Rightarrow> gotime \<Rightarrow> gotime \<Rightarrow> string \<Rightarrow> Task \<Rightarrow> string \<Rightarrow> string \<Rightarrow> string \<Rightarrow> TaskService \<Rightarrow> TaskService" where
  "Service_record b b' now now' action t actorType actorID traceID s =
     (case ts_audit s of
        None \<Rightarrow> s
      | Some a \<Rightarrow>
          let traceID = (if traceID = [] then t_TraceID t else traceID)
          in s\<lparr>ts_audit := Some (AuditService_Record b' now'
                 \<lparr>ae_ID = id_New ''audit'' b, ae_TenantID = t_TenantID t, ae_ProjectID = t_ProjectID t,
                  ae_ActorType = actorType, ae_ActorID = actorID, ae_Action = action,
                  ae_ResourceType = ''task'', ae_ResourceID = t_ID t, ae_Outcome = ''success'',
                  ae_TraceID = traceID, ae_TaskID = t_ID t, ae_IdempotencyKey = [], ae_Metadata = None,
                  ae_ErrorCode = [], ae_ErrorMessage = [], ae_CreatedAt = now\<rparr> a)\<rparr>)"

definition Service_Enqueue ::
  "(nat \<Rightarrow> entropy) \<Rightarrow> gotime \<Rightarrow> gotime \<Rightarrow> string \<Rightarrow> Task \<Rightarrow> TaskService \<Rightarrow> TaskService \<times> (queue_error + Task)" where
  "Service_Enqueue bs now repo_now tenantID t s =
     (if TrimSpace tenantID = [] \<or> TrimSpace (t_Type t) = [] \<or> TrimSpace (t_Pool t) = []
      then (s, Inl (AppError CodeValidation ''tenant_id, type, and pool are required''))
      else if t_TenantID t \<noteq> [] \<and> t_TenantID t \<noteq> tenantID
      then (s, Inl (AppError CodeForbidden ''task tenant does not match caller tenant''))
      else let t' = t\<lparr>t_TenantID := tenantID,
                      t_ID := (if t_ID t = [] then id_New ''task'' (bs 0) else t_ID t),
                      t_MaxAttempts := (if t_MaxAttempts t \<le> 0 then 3 else t_MaxAttempts t),
                      t_RunAfter := (if IsZero (t_RunAfter t) then now else t_RunAfter t),
                      t_CreatedAt := (if IsZero (t_CreatedAt t) then now else t_CreatedAt t),
                      t_UpdatedAt := now\<rparr>
           in case Enqueue (\<lambda>i. bs (i + 1)) repo_now t' (ts_repo s) of
                (r, created) \<Rightarrow> (s\<lparr>ts_repo := r\<rparr>, Inr created))"

definition Service_Get :: "string \<Rightarrow> string \<Rightarrow> TaskService \<Rightarrow> Task option" where
  "Service_Get tenantID taskID s =
     (case Get taskID (ts_repo s) of
        None \<Rightarrow> None
      | Some t \<Rightarrow> if t_TenantID t \<noteq> tenantID then None else Some t)"

definition Service_List :: "string \<Rightarrow> TaskFilter \<Rightarrow> TaskService \<Rightarrow> Task list \<times> string" where
  "Service_List tenantID f s = ListTasks (f\<lparr>fl_TenantID := tenantID\<rparr>) (ts_repo s)"

definition Service_Cancel ::
  "(nat \<Rightarrow> entropy) \<Rightarrow> gotime \<Rightarrow> gotime \<Rightarrow> gotime \<Rightarrow> string \<Rightarrow> string \<Rightarrow> string \<Rightarrow> string \<Rightarrow> string \<Rightarrow> TaskService \<Rightarrow>
   TaskService \<times> (queue_error + unit)" where
  "Service_Cancel bs repo_now now audit_now tenantID taskID actorType actorID traceID s =
     (case Service_Get tenantID taskID s of
        None \<Rightarrow> (s, Inl (AppError CodeNotFound ''task not found''))
      | Some t \<Rightarrow>
          (case Cancel (\<lambda>i. bs (i + 2)) repo_now (t_ID t) (ts_repo s) of
             (r, Inl e) \<Rightarrow> (s\<lparr>ts_repo := r\<rparr>, Inl e)
           | (r, Inr _) \<Rightarrow>
               (Service_record (bs 0) (bs 1) now audit_now ''task.cancelled'' t actorType actorID traceID
                  (s\<lparr>ts_repo := r\<rparr>), Inr ())))"

definition Service_Retry ::
  "(nat \<Rightarrow> entropy) \<Rightarrow> gotime \<Rightarrow> gotime \<Rightarrow> gotime \<Rightarrow> string \<Rightarrow> string \<Rightarrow> string \<Rightarrow> string \<Rightarrow> string \<Rightarrow> TaskService \<Rightarrow>
   TaskService \<times> (queue_error + Task)" where
  "Service_Retry bs repo_now now audit_now tenantID taskID actorType actorID traceID s =
     (case Service_Get tenantID taskID s of
        None \<Rightarrow> (s, Inl (AppError CodeNotFound ''task not found''))
      | Some t \<Rightarrow>
          (case Retry (\<lambda>i. bs (i + 2)) repo_now (t_ID t) (ts_repo s) of
             (r, Inl e) \<Rightarrow> (s\<lparr>ts_repo := r\<rparr>, Inl e)
           | (r, Inr retried) \<Rightarrow>
               (Service_record (bs 0) (bs 1) now audit_now ''task.retried'' retried actorType actorID traceID
                  (s\<lparr>ts_repo := r\<rparr>), Inr retried)))"

definition Service_ListEvents ::
  "string \<Rightarrow> string \<Rightarrow> string \<Rightarrow> int \<Rightarrow> TaskService \<Rightarrow> queue_error + (Event list \<times> string)" where
  "Service_ListEvents tenantID taskID cursor limit s =
     (case Service_Get tenantID taskID s of
        None \<Rightarrow> Inl (AppError CodeNotFound ''task not found'')
      | Some _ \<Rightarrow> ListEvents taskID cursor limit (ts_repo s))"

definition Service_Stats :: "string \<Rightarrow> TaskService \<Rightarrow> (string, PoolStats) gomap" where
  "Service_Stats tenantID s = Stats tenantID (ts_repo s)"


section \<open>Tenant isolation\<close>

text \<open>What a tenant can see of the queue: its own tasks and their timelines.\<close>

definition tenant_tasks :: "string \<Rightarrow> MemoryQueueRepository \<Rightarrow> string \<Rightarrow> Task option" where
  "tenant_tasks T r k =
     (case map_of (tasks r) k of
        None \<Rightarrow> None
      | Some t \<Rightarrow> if t_TenantID t = T then Some t else None)"

definition tenant_events :: "string \<Rightarrow> MemoryQueueRepository \<Rightarrow> string \<Rightarrow> Event list" where
  "tenant_events T r k = (if tenant_tasks T r k = None then [] else gget0 [] (events r) k)"

definition same_view :: "string \<Rightarrow> MemoryQueueRepository \<Rightarrow> MemoryQueueRepository \<Rightarrow> bool" where
  "same_view T r r' \<longleftrightarrow> tenant_tasks T r = tenant_tasks T r' \<and> tenant_events T r = tenant_events T r'"

lemma same_view_refl [simp]: "same_view T r r"
  by (simp add: same_view_def)

lemma same_view_local:
  assumes "\<And>k. k \<noteq> i \<Longrightarrow> map_of (tasks r') k = map_of (tasks r) k"
    and "\<And>k. k \<noteq> i \<Longrightarrow> gget0 [] (events r') k = gget0 [] (events r) k"
    and "tenant_tasks T r i = None" and "tenant_tasks T r' i = None"
  shows "same_view T r r'"
  unfolding same_view_def fun_eq_iff
proof (intro conjI allI)
  fix k
  show "tenant_tasks T r k = tenant_tasks T r' k"
    using assms by (cases "k = i") (simp_all add: tenant_tasks_def)
  then show "tenant_events T r k = tenant_events T r' k"
    using assms by (cases "k = i") (simp_all add: tenant_events_def)
qed

lemma updates_task_same_view:
  assumes "updates_task task_change now i r r'" and "map_of (tasks r) i = Some t" and "t_ID t = i"
    and "t_TenantID t \<noteq> T"
  shows "same_view T r r'"
proof (cases "r' = r")
  case False
  with assms obtain t' b e where u: "task_change now t t'"
    "r' = write_task i t' r \<or> r' = appendEventLocked b i e now (write_task i t' r)"
    by (auto simp: updates_task_def)
  then have "t_TenantID t' = t_TenantID t"
    by (auto dest: task_step_frame(2) [OF ts_edit [OF task_edit.intros(2)]])
  with assms u show ?thesis
    by (intro same_view_local [of i])
      (auto simp: map_simps tenant_tasks_def appendEventLocked_def write_task_def)
qed simp

lemma Enqueue_same_view:
  assumes "t_TenantID t \<noteq> T" and "t_ID t \<noteq> []" and "tenant_tasks T r (t_ID t) = None"
  shows "same_view T r (fst (Enqueue bs now t r))"
proof (cases "existing_task t r")
  case None
  with assms show ?thesis
    by (intro same_view_local [of "t_ID t"])
      (auto simp: Enqueue_def Let_def enqueue_defaults_def map_simps tenant_tasks_def
        appendEventLocked_def write_task_def)
qed (simp add: Enqueue_def)

datatype service_call =
    CallEnqueue Task
  | CallCancel string string string string
  | CallRetry string string string string

fun service_step :: "(nat \<Rightarrow> entropy) \<Rightarrow> gotime \<Rightarrow> string \<Rightarrow> service_call \<Rightarrow> TaskService \<Rightarrow> TaskService" where
  "service_step bs now A (CallEnqueue t) s = fst (Service_Enqueue bs now now A t s)"
| "service_step bs now A (CallCancel i ty actor tr) s = fst (Service_Cancel bs now now now A i ty actor tr s)"
| "service_step bs now A (CallRetry i ty actor tr) s = fst (Service_Retry bs now now now A i ty actor tr s)"

text \<open>The identifier a call to \<^verbatim>\<open>Enqueue\<close> will use is not one of another tenant's task.\<close>

fun takes_no_foreign_id :: "(nat \<Rightarrow> entropy) \<Rightarrow> string \<Rightarrow> service_call \<Rightarrow> TaskService \<Rightarrow> bool" where
  "takes_no_foreign_id bs A (CallEnqueue t) s =
     (case map_of (tasks (ts_repo s)) (if t_ID t = [] then id_New ''task'' (bs 0) else t_ID t) of
        None \<Rightarrow> True | Some u \<Rightarrow> t_TenantID u = A)"
| "takes_no_foreign_id bs A _ s = True"

lemma Service_record_repo [simp]: "ts_repo (Service_record b b' n n' a t ty i tr s) = ts_repo s"
  by (simp add: Service_record_def Let_def split: option.split)

lemma Service_Get_Some:
  "Service_Get A i s = Some t \<longleftrightarrow> map_of (tasks (ts_repo s)) i = Some t \<and> t_TenantID t = A"
  by (auto simp: Service_Get_def Get_def split: option.splits)

lemma Service_Get_None: "Service_Get A i s = None \<longleftrightarrow> tenant_tasks A (ts_repo s) i = None"
  by (auto simp: Service_Get_def Get_def tenant_tasks_def split: option.splits)

text \<open>
  C10 (safety). Tenant isolation of the control plane: whatever one tenant does through the service,
  another tenant's tasks and timelines stay exactly as they were, provided an enqueued task does not
  name the identifier of another tenant's task.
\<close>

theorem service_isolation:
  assumes "queue_reachable (ts_repo s)" and "A \<noteq> B" and "takes_no_foreign_id bs A c s"
  shows "same_view B (ts_repo s) (ts_repo (service_step bs now A c s))"
proof (cases c)
  case (CallEnqueue t)
  with assms(2,3) show ?thesis
    using id_New_nonempty [of "''task''" "bs 0"]
    by (auto simp: Service_Enqueue_def Let_def case_prod_unfold tenant_tasks_def
        intro!: Enqueue_same_view split: option.splits)
next
  case (CallCancel i ty actor tr)
  show ?thesis
  proof (cases "Service_Get A i s")
    case (Some t)
    then have t: "map_of (tasks (ts_repo s)) i = Some t" "t_TenantID t = A" "t_ID t = i"
      using queue_wfD(2) [OF queue_reachable_wf_aux [OF assms(1)]] by (auto simp: Service_Get_Some)
    from updates_task_same_view [OF Cancel_updates t(1,3)] t assms(2) Some CallCancel
    show ?thesis by (auto simp: Service_Cancel_def split: prod.split sum.split) (metis fst_conv)+
  qed (simp add: CallCancel Service_Cancel_def)
next
  case (CallRetry i ty actor tr)
  show ?thesis
  proof (cases "Service_Get A i s")
    case (Some t)
    then have t: "map_of (tasks (ts_repo s)) i = Some t" "t_TenantID t = A" "t_ID t = i"
      using queue_wfD(2) [OF queue_reachable_wf_aux [OF assms(1)]] by (auto simp: Service_Get_Some)
    from updates_task_same_view [OF Retry_updates t(1,3)] t assms(2) Some CallRetry
    show ?thesis by (auto simp: Service_Retry_def split: prod.split sum.split) (metis fst_conv)+
  qed (simp add: CallRetry Service_Retry_def)
qed


definition demo_service :: TaskService where
  "demo_service = \<lparr>ts_repo = demo_queue, ts_audit = Some (NewAuditService NewMemoryAuditRepository 0)\<rparr>"

theorem service_isolation_witness:
  "same_view ''acme'' demo_queue (ts_repo (service_step no_entropy 5 ''evil'' (CallCancel ''a'' ''user'' ''u'' []) demo_service))"
  using service_isolation [of demo_service "''evil''" "''acme''" no_entropy "CallCancel ''a'' ''user'' ''u'' []" 5] demo_reachable
  by (simp add: demo_service_def)

text \<open>
  The condition is needed: the repository stores the task under the identifier it is given, and an
  identifier of another tenant's task replaces that task.
\<close>

lemma enqueue_takes_over:
  "Service_Get (t_TenantID (task_on ''a'' 0)) ''a'' demo_service \<noteq> None \<and>
   Service_Get (t_TenantID (task_on ''a'' 0)) ''a''
     (service_step no_entropy 5 ''evil'' (CallEnqueue ((task_on ''a'' 0)\<lparr>t_TenantID := ''evil''\<rparr>)) demo_service) = None"
  by code_simp

lemma list_loop_own:
  assumes "fl_TenantID f = T" and "T \<noteq> []"
  shows "list_loop f (tasks r) started n is =
    list_loop f (tasks r) started n (filter (\<lambda>k. tenant_tasks T r k \<noteq> None) is)"
proof (induction "is" arbitrary: started n)
  case (Cons i "is")
  then show ?case using assms by (auto simp: tenant_tasks_def tenant_match_def split: option.splits)
qed simp

lemma list_loop_same_view:
  assumes "same_view T r r'" and "\<forall>k \<in> set is. tenant_tasks T r k \<noteq> None"
  shows "list_loop f (tasks r) started n is = list_loop f (tasks r') started n is"
  using assms(2)
proof (induction "is" arbitrary: started n)
  case (Cons i "is")
  then obtain t where "tenant_tasks T r i = Some t" by auto
  moreover from this have "tenant_tasks T r' i = Some t" using assms(1) by (simp add: same_view_def)
  ultimately have "map_of (tasks r) i = Some t" "map_of (tasks r') i = Some t"
    by (auto simp: tenant_tasks_def split: option.splits if_splits)
  with Cons show ?case by simp
qed simp

lemma own_ids_same_view:
  assumes "gmap_wf (tasks r)" and "gmap_wf (tasks r')" and "same_view T r r'"
  shows "filter (\<lambda>k. tenant_tasks T r k \<noteq> None) (sort_strings (map fst (tasks r))) =
    filter (\<lambda>k. tenant_tasks T r' k \<noteq> None) (sort_strings (map fst (tasks r')))"
proof -
  let ?own = "\<lambda>r. filter (\<lambda>k. tenant_tasks T r k \<noteq> None) (map fst (tasks r))"
  have own: "set (?own r) = {k. tenant_tasks T r k \<noteq> None}" for r
    by (auto simp: tenant_tasks_def map_of_eq_None_iff image_iff split: option.splits if_splits)
  have "set (?own r) = set (?own r')" using assms(3) unfolding own by (simp add: same_view_def)
  moreover have "distinct (?own r)" "distinct (?own r')" using assms(1,2) by (simp_all add: gmap_wf_def)
  ultimately have "mset (?own r) = mset (?own r')"
    using set_eq_iff_mset_eq_distinct [of "?own r" "?own r'"] by blast
  then have "sort_strings (?own r) = sort_strings (?own r')" by (rule sort_strings_perm)
  then show ?thesis by (simp add: sort_strings_def strs.sort_by_sort_key filter_sort)
qed

lemma list_loop_views:
  assumes "gmap_wf (tasks r)" and "gmap_wf (tasks r')" and "same_view T r r'"
    and "fl_TenantID f = T" and "T \<noteq> []"
  shows "list_loop f (tasks r) started n (sort_strings (map fst (tasks r))) =
    list_loop f (tasks r') started n (sort_strings (map fst (tasks r')))"
proof -
  let ?own = "\<lambda>r. filter (\<lambda>k. tenant_tasks T r k \<noteq> None) (sort_strings (map fst (tasks r)))"
  have "list_loop f (tasks r) started n (sort_strings (map fst (tasks r))) =
      list_loop f (tasks r) started n (?own r)" by (rule list_loop_own [OF assms(4,5)])
  also have "\<dots> = list_loop f (tasks r') started n (?own r)"
    by (rule list_loop_same_view [OF assms(3)]) simp
  also have "?own r = ?own r'" by (rule own_ids_same_view [OF assms(1-3)])
  also have "list_loop f (tasks r') started n (?own r') =
      list_loop f (tasks r') started n (sort_strings (map fst (tasks r')))"
    by (rule list_loop_own [OF assms(4,5), symmetric])
  finally show ?thesis .
qed

text \<open>
  What a tenant reads depends on nothing but its own tasks: two queues that agree on
  the tenant's tasks and timelines give it the same answers to \<^verbatim>\<open>Get\<close>, \<^verbatim>\<open>List\<close> (for every filter and
  cursor) and \<^verbatim>\<open>ListEvents\<close>, errors included, so nothing about other tenants can be learned.
\<close>

lemma service_reads_own:
  assumes "queue_reachable (ts_repo s)" and "queue_reachable (ts_repo s')"
    and "A \<noteq> []" and "same_view A (ts_repo s) (ts_repo s')"
  shows "Service_Get A i s = Service_Get A i s' \<and> Service_List A f s = Service_List A f s' \<and>
    Service_ListEvents A i cursor limit s = Service_ListEvents A i cursor limit s'"
proof -
  note wf = assms(1,2) [THEN queue_reachable_wf_aux, THEN queue_wfD(1)]
  have view: "tenant_tasks A (ts_repo s) = tenant_tasks A (ts_repo s')"
    "tenant_events A (ts_repo s) = tenant_events A (ts_repo s')"
    using assms(4) by (simp_all add: same_view_def)
  have get: "Service_Get A i u = tenant_tasks A (ts_repo u) i" for u
    by (simp add: Service_Get_def Get_def tenant_tasks_def split: option.split)
  have "Service_List A f s = Service_List A f s'"
    by (simp add: Service_List_def ListTasks_def Let_def list_limit_def list_loop_views [OF wf assms(4)] assms(3))
  moreover have "ListEvents i cursor limit (ts_repo s) = ListEvents i cursor limit (ts_repo s')"
    if "tenant_tasks A (ts_repo s) i = Some t" for t
  proof -
    have "gget0 [] (events (ts_repo s)) i = gget0 [] (events (ts_repo s')) i"
      using fun_cong [OF view(2), of i] that view(1) by (simp add: tenant_events_def)
    moreover have "map_of (tasks (ts_repo s)) i = map_of (tasks (ts_repo s')) i"
      using that fun_cong [OF view(1), of i] by (auto simp: tenant_tasks_def split: option.splits if_splits)
    ultimately show ?thesis by (simp only: ListEvents_def)
  qed
  ultimately show ?thesis
    by (auto simp: get view(1) Service_ListEvents_def split: option.split)
qed

definition crowded_service :: TaskService where
  "crowded_service = demo_service\<lparr>ts_repo :=
     queue_run [(no_entropy, 5, OpEnqueue ((task_on ''z'' 9)\<lparr>t_TenantID := ''other''\<rparr>))] demo_queue\<rparr>"

lemma service_reads_own_witness:
  "length (tasks (ts_repo crowded_service)) = 2 \<and>
   Service_List ''acme'' page_filter demo_service = Service_List ''acme'' page_filter crowded_service"
proof -
  have "tenant_tasks ''acme'' demo_queue ''z'' = None" by code_simp
  then have "same_view ''acme'' (ts_repo demo_service) (ts_repo crowded_service)"
    by (simp add: crowded_service_def demo_service_def Enqueue_same_view task_on_def)
  moreover have "queue_reachable (ts_repo demo_service)" "queue_reachable (ts_repo crowded_service)"
    using demo_reachable queue_run_reachable [OF demo_reachable]
    by (simp_all only: demo_service_def crowded_service_def TaskService.simps)
  ultimately have "Service_List ''acme'' page_filter demo_service = Service_List ''acme'' page_filter crowded_service"
    using service_reads_own [of demo_service crowded_service "''acme''" _ page_filter] by simp
  moreover have "length (tasks (ts_repo crowded_service)) = 2" by code_simp
  ultimately show ?thesis by simp
qed

end
