(* ===== verification/TaskWorker.thy ===== *)
theory TaskWorker
  imports "TaskQueueProps"
begin

text \<open>
  The worker pools of \<^verbatim>\<open>internal/taskqueue/worker.go\<close>: registration, start and stop, the dispatch of
  leased tasks to execution slots, and the execution of a task with its heartbeats, its
  cancellation and its final report to the repository. Execution is split where other goroutines
  can run: each definition is the code between two such points.
\<close>

section \<open>Pools\<close>

record PoolConfig =
  pc_Name :: string
  pc_Concurrency :: int
  pc_LeaseDuration :: duration
  pc_HeartbeatInterval :: duration
  pc_CancelOnStop :: bool

text \<open>
  An execution that holds a slot: the task as it was leased, whether its context is done, and
  whether its heartbeat loop has ended with an error.
\<close>

record execution =
  ex_task :: Task
  ex_cancelled :: bool
  ex_heartbeatErr :: bool

record poolWorker =
  pw_config :: PoolConfig
  pw_stopped :: bool
  pw_slots :: "execution list"

record WorkerPool =
  wp_handlers :: "string list"
  wp_pools :: "(string, poolWorker) gomap"
  wp_running :: bool
  wp_workerID :: string

definition NewWorkerPool :: "entropy \<Rightarrow> WorkerPool" where
  "NewWorkerPool b =
     \<lparr>wp_handlers = [], wp_pools = [], wp_running = False, wp_workerID = id_New ''worker'' b\<rparr>"

definition RegisterHandler :: "string \<Rightarrow> WorkerPool \<Rightarrow> WorkerPool" where
  "RegisterHandler taskType wp = wp\<lparr>wp_handlers := List.insert taskType (wp_handlers wp)\<rparr>"

text \<open>Go's division of durations truncates toward zero; the dividend is positive here.\<close>

definition pool_defaults :: "PoolConfig \<Rightarrow> PoolConfig" where
  "pool_defaults c =
     (let c1 = c\<lparr>pc_Concurrency := (if pc_Concurrency c \<le> 0 then 1 else pc_Concurrency c)\<rparr>;
          c2 = c1\<lparr>pc_LeaseDuration := (if pc_LeaseDuration c1 \<le> 0 then 30 * Second else pc_LeaseDuration c1)\<rparr>
      in c2\<lparr>pc_HeartbeatInterval :=
              (if pc_HeartbeatInterval c2 \<le> 0 then pc_LeaseDuration c2 div 3 else pc_HeartbeatInterval c2)\<rparr>)"

definition RegisterPool :: "PoolConfig \<Rightarrow> WorkerPool \<Rightarrow> WorkerPool" where
  "RegisterPool config wp =
     wp\<lparr>wp_pools := gput (pc_Name config)
          \<lparr>pw_config = pool_defaults config, pw_stopped = False, pw_slots = []\<rparr> (wp_pools wp)\<rparr>"

definition WorkerPool_Start :: "WorkerPool \<Rightarrow> WorkerPool" where
  "WorkerPool_Start wp = (if wp_running wp then wp else wp\<lparr>wp_running := True\<rparr>)"

text \<open>
  \<^verbatim>\<open>Stop\<close> up to the wait for the goroutines: the scheduler context is cancelled, which also cancels the
  executions of the pools that ask for it, and the stop channel of every pool is closed. Closing
  it twice panics: \<open>None\<close>.
\<close>

definition stop_pool :: "poolWorker \<Rightarrow> poolWorker" where
  "stop_pool pw =
     pw\<lparr>pw_stopped := True,
        pw_slots := (if pc_CancelOnStop (pw_config pw)
                     then map (\<lambda>x. x\<lparr>ex_cancelled := True\<rparr>) (pw_slots pw) else pw_slots pw)\<rparr>"

definition WorkerPool_Stop :: "WorkerPool \<Rightarrow> WorkerPool option" where
  "WorkerPool_Stop wp =
     (if \<not> wp_running wp then Some wp
      else if \<exists>p \<in> set (wp_pools wp). pw_stopped (snd p) then None
      else Some (wp\<lparr>wp_running := False, wp_pools := map (\<lambda>(k, pw). (k, stop_pool pw)) (wp_pools wp)\<rparr>))"

section \<open>Dispatch\<close>

definition no_handler_failure :: "string \<Rightarrow> TaskFailure" where
  "no_handler_failure taskType =
     \<lparr>tf_Retryable = False, tf_ErrorCode = ''no_handler'',
      tf_Message = ''no handler registered for task type: '' @ taskType\<rparr>"

text \<open>
  Other goroutines run between any two locked calls of the dispatch: callers and other workers use
  the queue, executions of this pool end and give their slot back or see their context cancelled, and
  handlers are registered. An \<open>interference\<close> is what happens at one such point.
\<close>

record interference =
  if_events :: "queue_event list"
  if_ended :: "Task \<Rightarrow> bool"
  if_cancelled :: "Task \<Rightarrow> bool"
  if_handlers :: "string list"

record dispatch_state =
  ds_queue :: MemoryQueueRepository
  ds_handlers :: "string list"
  ds_slots :: "execution list"

definition interfere :: "interference \<Rightarrow> dispatch_state \<Rightarrow> dispatch_state" where
  "interfere i s =
     \<lparr>ds_queue = queue_run (if_events i) (ds_queue s),
      ds_handlers = fold List.insert (if_handlers i) (ds_handlers s),
      ds_slots = map (\<lambda>x. if if_cancelled i (ex_task x) then x\<lparr>ex_cancelled := True\<rparr> else x)
        (filter (\<lambda>x. \<not> if_ended i (ex_task x)) (ds_slots s))\<rparr>"

text \<open>
  What becomes of a leased task: it is started in a slot; it is reported as failed, with the answer of
  the repository, because no handler is registered for its type; or it finds no free slot and is left
  leased, as the \<^verbatim>\<open>default\<close> branch of the \<^verbatim>\<open>select\<close> does.
\<close>

datatype dispatched =
    Started (dispatched_task: Task)
  | Refused (dispatched_task: Task) "queue_error + unit"
  | Skipped (dispatched_task: Task)

text \<open>
  One round of the loop over the leased tasks. The handler is looked up under the lock of the pool;
  others run before that, and again before the call of \<^verbatim>\<open>Fail\<close> or the \<^verbatim>\<open>select\<close> on the slots.
\<close>

definition dispatch_task ::
  "interference \<Rightarrow> interference \<Rightarrow> (nat \<Rightarrow> entropy) \<Rightarrow> gotime \<Rightarrow> nat \<Rightarrow> Task \<Rightarrow> dispatch_state \<Rightarrow>
   dispatch_state \<times> dispatched" where
  "dispatch_task i j bs now capacity t s =
     (let s1 = interfere i s;
          ok = List.member (ds_handlers s1) (t_Type t);
          s2 = interfere j s1
      in if \<not> ok
         then (case Fail bs now (t_ID t) (Task_LeaseToken t) (no_handler_failure (t_Type t)) (ds_queue s2) of
                 (r, res) \<Rightarrow> (s2\<lparr>ds_queue := r\<rparr>, Refused t res))
         else if length (ds_slots s2) < capacity
         then (s2\<lparr>ds_slots := ds_slots s2 @ [\<lparr>ex_task = t, ex_cancelled = False, ex_heartbeatErr = False\<rparr>]\<rparr>, Started t)
         else (s2, Skipped t))"

fun dispatch_loop ::
  "(nat \<Rightarrow> interference) \<Rightarrow> (nat \<Rightarrow> nat \<Rightarrow> entropy) \<Rightarrow> (nat \<Rightarrow> gotime) \<Rightarrow> nat \<Rightarrow> nat \<Rightarrow> Task list \<Rightarrow> dispatch_state \<Rightarrow>
   dispatch_state \<times> dispatched list" where
  "dispatch_loop env bs now capacity n [] s = (s, [])"
| "dispatch_loop env bs now capacity n (t # ts) s =
     (case dispatch_task (env (2 * n + 1)) (env (2 * n + 2)) (bs n) (now n) capacity t s of
        (s1, d) \<Rightarrow> (case dispatch_loop env bs now capacity (Suc n) ts s1 of (s2, ds) \<Rightarrow> (s2, d # ds)))"

text \<open>
  The number of free slots is read first; others run before the \<^verbatim>\<open>Lease\<close>. The last component says what
  became of each leased task.
\<close>

definition leaseAndDispatch ::
  "(nat \<Rightarrow> interference) \<Rightarrow> (nat \<Rightarrow> entropy) \<Rightarrow> (nat \<Rightarrow> nat \<Rightarrow> entropy) \<Rightarrow> gotime \<Rightarrow> (nat \<Rightarrow> gotime) \<Rightarrow> string \<Rightarrow>
   string \<Rightarrow> PoolConfig \<Rightarrow> dispatch_state \<Rightarrow> dispatch_state \<times> dispatched list" where
  "leaseAndDispatch env bs bs' now now' poolName workerID config s =
     (let availableSlots = pc_Concurrency config - int (length (ds_slots s))
      in if availableSlots \<le> 0 then (s, [])
         else let s1 = interfere (env 0) s
              in case Lease bs now poolName workerID (pc_LeaseDuration config) availableSlots (ds_queue s1) of
                   (r, leasedTasks) \<Rightarrow>
                     dispatch_loop env bs' now' (nat (pc_Concurrency config)) 0 leasedTasks (s1\<lparr>ds_queue := r\<rparr>))"

section \<open>Execution\<close>

text \<open>
  What a handler returns: no error, or an error with what the two type tests of the worker see of it.
\<close>

record handler_error =
  he_Cancelled :: "bool option"
  he_Retryable :: "bool option"
  he_Error :: string

definition isCancelledError :: "handler_error \<Rightarrow> bool" where
  "isCancelledError e = (case he_Cancelled e of None \<Rightarrow> False | Some c \<Rightarrow> c)"

definition isRetryableError :: "handler_error \<Rightarrow> bool" where
  "isRetryableError e = (case he_Retryable e of None \<Rightarrow> True | Some b \<Rightarrow> b)"

definition handleCancelledTask ::
  "(nat \<Rightarrow> entropy) \<Rightarrow> gotime \<Rightarrow> string \<Rightarrow> LeaseToken \<Rightarrow> MemoryQueueRepository \<Rightarrow> MemoryQueueRepository" where
  "handleCancelledTask bs now taskID tok r =
     (case Get taskID r of
        None \<Rightarrow> r
      | Some t \<Rightarrow>
          if t_Status t = TaskStatusCancelling \<and> Task_LeaseToken t = tok
          then fst (MarkCancelled bs now taskID tok r) else r)"

text \<open>The first segment of \<^verbatim>\<open>executeTask\<close>; the flag says whether the handler is then called.\<close>

definition executeTask_start ::
  "(nat \<Rightarrow> entropy) \<Rightarrow> gotime \<Rightarrow> gotime \<Rightarrow> duration \<Rightarrow> Task \<Rightarrow> MemoryQueueRepository \<Rightarrow> MemoryQueueRepository \<times> bool" where
  "executeTask_start bs now now' leaseDuration t r =
     (let token = Task_LeaseToken t
      in case Heartbeat bs now (t_ID t) token leaseDuration r of
           (r1, Inl e) \<Rightarrow> (handleCancelledTask bs now' (t_ID t) token r1, False)
         | (r1, Inr _) \<Rightarrow> (r1, True))"

text \<open>One tick of \<^verbatim>\<open>runHeartbeat\<close>: an error ends the loop and cancels the execution.\<close>

definition heartbeat_tick ::
  "(nat \<Rightarrow> entropy) \<Rightarrow> gotime \<Rightarrow> duration \<Rightarrow> execution \<Rightarrow> MemoryQueueRepository \<Rightarrow> MemoryQueueRepository \<times> execution" where
  "heartbeat_tick bs now leaseDuration x r =
     (case Heartbeat bs now (t_ID (ex_task x)) (Task_LeaseToken (ex_task x)) leaseDuration r of
        (r1, Inl e) \<Rightarrow> (r1, x\<lparr>ex_heartbeatErr := True, ex_cancelled := True\<rparr>)
      | (r1, Inr _) \<Rightarrow> (r1, x))"

text \<open>One tick of \<^verbatim>\<open>monitorCancellation\<close>.\<close>

definition monitor_tick :: "execution \<Rightarrow> MemoryQueueRepository \<Rightarrow> execution" where
  "monitor_tick x r =
     (case Get (t_ID (ex_task x)) r of
        None \<Rightarrow> x
      | Some t \<Rightarrow> if t_Status t = TaskStatusCancelling then x\<lparr>ex_cancelled := True\<rparr> else x)"

text \<open>The last segment of \<^verbatim>\<open>executeTask\<close>, after the handler has returned.\<close>

definition executeTask_finish ::
  "(nat \<Rightarrow> entropy) \<Rightarrow> gotime \<Rightarrow> gotime \<Rightarrow> execution \<Rightarrow> handler_error option \<Rightarrow> MemoryQueueRepository \<Rightarrow>
   MemoryQueueRepository" where
  "executeTask_finish bs now now' x handlerErr r =
     (let t = ex_task x;
          token = Task_LeaseToken t;
          isCancelled = (ex_cancelled x \<or> ex_heartbeatErr x)
      in if isCancelled then handleCancelledTask bs now (t_ID t) token r
         else case handlerErr of
                Some e \<Rightarrow>
                  if isCancelledError e
                  then (case Cancel bs now (t_ID t) r of
                          (r1, Inl _) \<Rightarrow> r1
                        | (r1, Inr _) \<Rightarrow> fst (MarkCancelled (\<lambda>i. bs (i + 1)) now' (t_ID t) token r1))
                  else fst (Fail bs now (t_ID t) token
                         \<lparr>tf_Retryable = isRetryableError e, tf_ErrorCode = [], tf_Message = he_Error e\<rparr> r)
              | None \<Rightarrow> fst (Complete bs now (t_ID t) token r))"

section \<open>Slots\<close>

lemma pool_defaults_ok:
  "1 \<le> pc_Concurrency (pool_defaults c)" "0 < pc_LeaseDuration (pool_defaults c)"
  by (simp_all add: pool_defaults_def Let_def Second_def Millisecond_def)

definition rejected :: "Task \<Rightarrow> MemoryQueueRepository \<Rightarrow> bool" where
  "rejected t r \<longleftrightarrow>
     (\<exists>t'. map_of (tasks r) (t_ID t) = Some t' \<and> t_Status t' = TaskStatusFailedTerminal \<and>
        t_ErrorCode t' = ''no_handler'' \<and> t_LeaseHolder t' = [])"

lemma Fail_no_handler:
  assumes "map_of (tasks r) (t_ID t) = Some t" and "t_Status t = TaskStatusLeased"
  shows "rejected t (fst (Fail bs now (t_ID t) (Task_LeaseToken t) (no_handler_failure ty) r))"
    and "snd (Fail bs now (t_ID t) (Task_LeaseToken t) (no_handler_failure ty) r) = Inr ()"
  using assms
  by (auto simp: rejected_def Fail_def ownsLease_def Task_LeaseToken_def no_handler_failure_def Let_def map_simps)

text \<open>
  An operation of another goroutine spares a leased task when it is not aimed at that task, stores no
  other task under its identifier and, when it is a \<^verbatim>\<open>Lease\<close>, comes before the expiry of the task's own
  lease.
\<close>

fun spares :: "Task \<Rightarrow> queue_event \<Rightarrow> bool" where
  "spares t (bs, now, op) =
     (op_target op \<noteq> Some (t_ID t) \<and> \<not> overwrites (t_ID t) (bs, now, op) \<and>
      (case op of OpLease pool h d m \<Rightarrow> now < t_LeaseExpiresAt t | _ \<Rightarrow> True))"

text \<open>An interference leaves a task alone when its operations spare it and its execution does not end.\<close>

definition undisturbed :: "Task \<Rightarrow> interference \<Rightarrow> bool" where
  "undisturbed t i \<longleftrightarrow> list_all (spares t) (if_events i) \<and> \<not> if_ended i t"

definition never_ready_before :: "gotime \<Rightarrow> Task \<Rightarrow> bool" where
  "never_ready_before e u \<longleftrightarrow> (\<forall>pool now. ready pool now u \<longrightarrow> e \<le> now)"

lemma leased_never_ready: "t_Status t = TaskStatusLeased \<Longrightarrow> never_ready_before (t_LeaseExpiresAt t) t"
  by (auto simp: never_ready_before_def ready_def After_def)

lemma failed_never_ready: "t_Status t = TaskStatusFailedTerminal \<Longrightarrow> never_ready_before e t"
  by (auto simp: never_ready_before_def ready_def in_flight_def)

lemma queue_step_spares:
  assumes "queue_wf r" and "map_of (tasks r) (t_ID t) = Some u" and "spares t (bs, now, op)"
    and "never_ready_before (t_LeaseExpiresAt t) u"
  shows "map_of (tasks (queue_step bs now op r)) (t_ID t) = Some u"
proof (rule queue_op_cases [of op])
  fix v assume "op = OpEnqueue v"
  with assms show ?thesis by (simp add: Enqueue_lookup_other)
next
  fix pool h d m assume op: "op = OpLease pool h d m"
  have "\<not> ready pool now u"
    using assms(3,4) by (fastforce simp: op never_ready_before_def)
  with Lease_task_step [OF assms(1,2), of now pool m bs h d] show ?thesis by (auto simp: op)
next
  fix i assume i: "op_target op = Some i"
  with assms(3) have "i \<noteq> t_ID t" by auto
  with updates_task_step [OF queue_step_updates [OF i] assms(2)] show ?thesis by fastforce
qed

lemma queue_run_spares:
  "queue_wf r \<Longrightarrow> map_of (tasks r) (t_ID t) = Some u \<Longrightarrow> list_all (spares t) es \<Longrightarrow>
     never_ready_before (t_LeaseExpiresAt t) u \<Longrightarrow> map_of (tasks (queue_run es r)) (t_ID t) = Some u"
  by (induction es r rule: queue_run.induct) (simp_all add: queue_step_spares queue_step_wf del: spares.simps)

text \<open>An undisturbed task keeps its entry \<open>u\<close> in the queue and its slot.\<close>

definition entry_kept :: "Task \<Rightarrow> Task \<Rightarrow> dispatch_state \<Rightarrow> bool" where
  "entry_kept t u s \<longleftrightarrow> queue_wf (ds_queue s) \<and> map_of (tasks (ds_queue s)) (t_ID t) = Some u \<and>
     never_ready_before (t_LeaseExpiresAt t) u"

lemma interfere_entry: "undisturbed t i \<Longrightarrow> entry_kept t u s \<Longrightarrow> entry_kept t u (interfere i s)"
  by (auto simp: entry_kept_def undisturbed_def interfere_def queue_run_spares queue_run_wf)

lemma interfere_slot:
  assumes "undisturbed t i" and "t \<in> ex_task ` set (ds_slots s)"
  shows "t \<in> ex_task ` set (ds_slots (interfere i s))"
proof -
  from assms(2) obtain x where x: "x \<in> set (ds_slots s)" "ex_task x = t" by blast
  let ?x = "if if_cancelled i (ex_task x) then x\<lparr>ex_cancelled := True\<rparr> else x"
  have "?x \<in> set (ds_slots (interfere i s))"
    using x assms(1) by (auto simp: interfere_def undisturbed_def)
  moreover have "ex_task ?x = t" using x(2) by simp
  ultimately show ?thesis by blast
qed

lemma interfere_slots: "length (ds_slots (interfere i s)) \<le> length (ds_slots s)"
  by (simp add: interfere_def)

lemma interfere_handlers: "set (ds_handlers s) \<subseteq> set (ds_handlers (interfere i s))"
proof -
  have "set hs \<subseteq> set (fold List.insert xs hs)" for xs hs :: "string list"
    by (induction xs arbitrary: hs) (auto, metis List.set_insert insertCI subsetD)
  then show ?thesis by (simp add: interfere_def)
qed

text \<open>What one round does, after the two interferences.\<close>

lemma dispatch_task_cases:
  assumes "dispatch_task i j bs now c t s = (s', d)"
  obtains r res where "t_Type t \<notin> set (ds_handlers (interfere i s))" and "d = Refused t res"
      and "Fail bs now (t_ID t) (Task_LeaseToken t) (no_handler_failure (t_Type t))
             (ds_queue (interfere j (interfere i s))) = (r, res)"
      and "s' = interfere j (interfere i s)\<lparr>ds_queue := r\<rparr>"
    | "t_Type t \<in> set (ds_handlers (interfere i s))" and "d = Started t"
      and "length (ds_slots (interfere j (interfere i s))) < c"
      and "s' = interfere j (interfere i s)\<lparr>ds_slots := ds_slots (interfere j (interfere i s)) @
             [\<lparr>ex_task = t, ex_cancelled = False, ex_heartbeatErr = False\<rparr>]\<rparr>"
    | "t_Type t \<in> set (ds_handlers (interfere i s))" and "d = Skipped t"
      and "c \<le> length (ds_slots (interfere j (interfere i s)))" and "s' = interfere j (interfere i s)"
  using assms by (auto simp: dispatch_task_def Let_def split: if_splits prod.splits)

lemma Fail_is_step:
  "Fail bs now k tok f r = (r', res) \<Longrightarrow> r' = queue_step bs now (OpFail k tok f) r"
  by simp

lemma dispatch_task_queue:
  assumes "dispatch_task i j bs now c t s = (s', d)"
  shows "ds_queue s' = ds_queue (interfere j (interfere i s)) \<or>
    (\<exists>f. ds_queue s' = queue_step bs now (OpFail (t_ID t) (Task_LeaseToken t) f) (ds_queue (interfere j (interfere i s))))"
  using assms by (rule dispatch_task_cases) (auto dest!: Fail_is_step)

lemma interfere_wf: "queue_wf (ds_queue s) \<Longrightarrow> queue_wf (ds_queue (interfere i s))"
  by (simp add: interfere_def queue_run_wf)

lemma dispatch_task_wf:
  "dispatch_task i j bs now c t s = (s', d) \<Longrightarrow> queue_wf (ds_queue s) \<Longrightarrow> queue_wf (ds_queue s')"
  using interfere_wf queue_step_wf by (metis dispatch_task_queue)

text \<open>One round for another task.\<close>

lemma dispatch_task_entry:
  assumes d: "dispatch_task i j bs now c t' s = (s', d)" and u: "undisturbed t i" "undisturbed t j"
    and "t_ID t' \<noteq> t_ID t" and k: "entry_kept t u s"
  shows "entry_kept t u s'"
proof -
  let ?r = "ds_queue (interfere j (interfere i s))"
  have k2: "queue_wf ?r" "map_of (tasks ?r) (t_ID t) = Some u" "never_ready_before (t_LeaseExpiresAt t) u"
    using interfere_entry [OF u(2) interfere_entry [OF u(1) k]] by (simp_all add: entry_kept_def)
  have "spares t (bs, now, OpFail (t_ID t') tok f)" for tok f using assms(4) by simp
  from queue_step_spares [OF k2(1,2) this k2(3)] dispatch_task_queue [OF d] k2 show ?thesis
    by (auto simp: entry_kept_def queue_step_wf simp del: queue_step.simps)
qed

lemma dispatch_task_slot:
  assumes "dispatch_task i j bs now c t' s = (s', d)" and "undisturbed t i" "undisturbed t j"
    and "t \<in> ex_task ` set (ds_slots s)"
  shows "t \<in> ex_task ` set (ds_slots s')"
proof -
  have "t \<in> ex_task ` set (ds_slots (interfere j (interfere i s)))"
    by (rule interfere_slot [OF assms(3) interfere_slot [OF assms(2,4)]])
  with assms(1) show ?thesis by (auto elim!: dispatch_task_cases)
qed

lemma dispatch_task_slots:
  assumes "dispatch_task i j bs now c t s = (s', d)"
  shows "length (ds_slots s') \<le> Suc (length (ds_slots s))"
    and "length (ds_slots s) \<le> c \<Longrightarrow> length (ds_slots s') \<le> c"
    and "length (ds_slots s) < c \<Longrightarrow> \<forall>t. d \<noteq> Skipped t"
    and "dispatched_task d = t" and "set (ds_handlers s) \<subseteq> set (ds_handlers s')"
  using assms interfere_slots [of i s] interfere_slots [of j "interfere i s"]
    interfere_handlers [of s i] interfere_handlers [of "interfere i s" j]
  by (auto elim!: dispatch_task_cases)

section \<open>The loop\<close>

lemma dispatch_loop_log:
  assumes "dispatch_loop env bs now c n ts s = (s', log)"
  shows "map dispatched_task log = ts" and "length (ds_slots s) \<le> c \<Longrightarrow> length (ds_slots s') \<le> c"
    and "length (ds_slots s) + length ts \<le> c \<Longrightarrow> \<forall>t. Skipped t \<notin> set log"
    and "set (ds_handlers s) \<subseteq> set (ds_handlers s')"
    and "\<forall>t. Started t \<in> set log \<longrightarrow> t_Type t \<in> set (ds_handlers s')"
    and "\<forall>t res. Refused t res \<in> set log \<longrightarrow> t_Type t \<notin> set (ds_handlers s)"
  using assms
proof (atomize (full), induction ts arbitrary: n s log)
  case (Cons t ts)
  let ?i = "env (2 * n + 1)" and ?j = "env (2 * n + 2)"
  obtain s1 d ds where d: "dispatch_task ?i ?j (bs n) (now n) c t s = (s1, d)"
    and l: "dispatch_loop env bs now c (Suc n) ts s1 = (s', ds)" and log: "log = d # ds"
    using Cons.prems by (auto split: prod.splits)
  note one = dispatch_task_slots [OF d]
  have h: "\<forall>t. Started t = d \<longrightarrow> t_Type t \<in> set (ds_handlers s1)" "\<forall>t res. Refused t res = d \<longrightarrow> t_Type t \<notin> set (ds_handlers s)"
    using d interfere_handlers [of s ?i] interfere_handlers [of "interfere ?i s" ?j] by (auto elim!: dispatch_task_cases)
  from Cons.IH [OF l] one h show ?case unfolding log by fastforce
qed simp

lemma dispatch_loop_wf:
  "dispatch_loop env bs now c n ts s = (s', log) \<Longrightarrow> queue_wf (ds_queue s) \<Longrightarrow> queue_wf (ds_queue s')"
  by (induction ts arbitrary: n s log) (auto split: prod.splits dest: dispatch_task_wf)

lemma dispatch_loop_keeps:
  assumes "dispatch_loop env bs now c n ts s = (s', log)" and "\<forall>i > 0. undisturbed t (env i)"
  shows "t_ID t \<notin> t_ID ` set ts \<Longrightarrow> entry_kept t u s \<Longrightarrow> entry_kept t u s'"
    and "t \<in> ex_task ` set (ds_slots s) \<Longrightarrow> t \<in> ex_task ` set (ds_slots s')"
  using assms
proof (atomize (full), induction ts arbitrary: n s log)
  case (Cons t' ts)
  obtain s1 d ds where d: "dispatch_task (env (2 * n + 1)) (env (2 * n + 2)) (bs n) (now n) c t' s = (s1, d)"
    and l: "dispatch_loop env bs now c (Suc n) ts s1 = (s', ds)"
    using Cons.prems by (auto split: prod.splits)
  from Cons.prems have u: "undisturbed t (env (2 * n + 1))" "undisturbed t (env (2 * n + 2))" by simp_all
  from Cons.IH [OF l Cons.prems(2)] Cons.prems dispatch_task_entry [OF d u] dispatch_task_slot [OF d u] show ?case by auto
qed simp

text \<open>An undisturbed task at its own round, and what follows.\<close>

lemma dispatch_task_own:
  assumes d: "dispatch_task i j bs now c t s = (s', d)" and u: "undisturbed t i" "undisturbed t j"
    and t: "t_Status t = TaskStatusLeased" and k: "entry_kept t t s" and len: "length (ds_slots s) < c"
  shows "d = Started t \<and> entry_kept t t s' \<and> t \<in> ex_task ` set (ds_slots s') \<or>
    d = Refused t (Inr ()) \<and> (\<exists>v. entry_kept t v s' \<and> rejected t (ds_queue s'))"
proof -
  have k2: "entry_kept t t (interfere j (interfere i s))"
    using interfere_entry [OF u(2) interfere_entry [OF u(1) k]] .
  then have m: "map_of (tasks (ds_queue (interfere j (interfere i s)))) (t_ID t) = Some t"
    by (simp add: entry_kept_def)
  from d show ?thesis
  proof (rule dispatch_task_cases)
    fix r res
    assume d: "d = Refused t res" and f: "Fail bs now (t_ID t) (Task_LeaseToken t) (no_handler_failure (t_Type t))
             (ds_queue (interfere j (interfere i s))) = (r, res)"
      and s': "s' = interfere j (interfere i s)\<lparr>ds_queue := r\<rparr>"
    have rej: "rejected t r" "res = Inr ()" using Fail_no_handler [OF m t, of bs now "t_Type t"] f by simp_all
    have "queue_wf r" using Fail_is_step [OF f] k2 by (simp add: entry_kept_def queue_step_wf del: queue_step.simps)
    with rej have "\<exists>v. entry_kept t v s'" by (auto simp: s' entry_kept_def rejected_def intro: failed_never_ready)
    with d rej show ?thesis by (simp add: s')
  next
    assume "c \<le> length (ds_slots (interfere j (interfere i s)))"
    with len interfere_slots [of i s] interfere_slots [of j "interfere i s"] show ?thesis by simp
  qed (use k2 in \<open>auto simp: entry_kept_def\<close>)
qed

lemma entry_rejected: "entry_kept t v s \<Longrightarrow> rejected t (ds_queue s) \<Longrightarrow> entry_kept t v s' \<Longrightarrow> rejected t (ds_queue s')"
  by (simp add: rejected_def entry_kept_def)

lemma dispatch_loop_undisturbed:
  assumes "dispatch_loop env bs now c n ts s = (s', log)" and "\<forall>i > 0. undisturbed t (env i)"
    and "t \<in> set ts" and "distinct (map t_ID ts)" and "t_Status t = TaskStatusLeased"
    and "entry_kept t t s" and "length (ds_slots s) + length ts \<le> c"
  shows "Started t \<in> set log \<and> map_of (tasks (ds_queue s')) (t_ID t) = Some t \<and> t \<in> ex_task ` set (ds_slots s') \<or>
    Refused t (Inr ()) \<in> set log \<and> rejected t (ds_queue s')"
  using assms
proof (induction ts arbitrary: n s log)
  case (Cons t' ts)
  obtain s1 d ds where d: "dispatch_task (env (2 * n + 1)) (env (2 * n + 2)) (bs n) (now n) c t' s = (s1, d)"
    and l: "dispatch_loop env bs now c (Suc n) ts s1 = (s', ds)" and log: "log = d # ds"
    using Cons.prems(1) by (auto split: prod.splits)
  from Cons.prems have u: "undisturbed t (env (2 * n + 1))" "undisturbed t (env (2 * n + 2))" by simp_all
  show ?case
  proof (cases "t' = t")
    case True
    then have "t_ID t \<notin> t_ID ` set ts" using Cons.prems(4) by auto
    from dispatch_loop_keeps [OF l Cons.prems(2)] this
    have keep: "\<And>v. entry_kept t v s1 \<Longrightarrow> entry_kept t v s'"
      "t \<in> ex_task ` set (ds_slots s1) \<Longrightarrow> t \<in> ex_task ` set (ds_slots s')" by blast+
    from dispatch_task_own [OF d [unfolded True] u Cons.prems(5,6)] Cons.prems(7)
    consider "d = Started t" "entry_kept t t s1" "t \<in> ex_task ` set (ds_slots s1)"
      | v where "d = Refused t (Inr ())" "entry_kept t v s1" "rejected t (ds_queue s1)" by auto
    then show ?thesis
    proof cases
      case 1
      with keep(1) [of t] keep(2) show ?thesis unfolding log by (simp add: entry_kept_def)
    next
      case 2
      from entry_rejected [OF 2(2,3) keep(1) [OF 2(2)]] 2(1) show ?thesis unfolding log by simp
    qed
  next
    case False
    then have "t \<in> set ts" "t_ID t' \<noteq> t_ID t" using Cons.prems(3,4) by force+
    with Cons.IH [OF l Cons.prems(2) _ _ Cons.prems(5)] dispatch_task_entry [OF d u _ Cons.prems(6)]
      dispatch_task_slots(1) [OF d] Cons.prems(4,7) show ?thesis unfolding log by fastforce
  qed
qed simp

section \<open>Properties\<close>

text \<open>
  C8 (safety). One round of a scheduler, with arbitrary interference of other goroutines before the
  lease and before every later step of the round: the slots stay within the configured concurrency, and
  every task that is leased is accounted for exactly once, in the order of the lease: started in a slot,
  only with a handler registered for its type, or handed to \<^verbatim>\<open>Fail\<close>, only without one. None is skipped
  for want of a slot, since the round never leases more tasks than it had free slots. A leased task
  that the others leave alone afterwards (no operation aimed at it, no other task stored under its
  identifier, no \<^verbatim>\<open>Lease\<close> once its lease has expired, its execution still running) is at the end of
  the round in a slot and leased as it was returned, or terminally failed with its lease given up.
\<close>

theorem dispatch_loses_nothing:
  assumes "queue_reachable (ds_queue s)" and "int (length (ds_slots s)) \<le> pc_Concurrency config"
    and "leaseAndDispatch env bs bs' now now' pool workerID config s = (s', log)"
  shows "int (length (ds_slots s')) \<le> pc_Concurrency config \<and>
    map dispatched_task log =
      (if int (length (ds_slots s)) < pc_Concurrency config
       then snd (Lease bs now pool workerID (pc_LeaseDuration config)
              (pc_Concurrency config - int (length (ds_slots s))) (ds_queue (interfere (env 0) s)))
       else []) \<and>
    (\<forall>d \<in> set log. case d of
        Started t \<Rightarrow> t_Type t \<in> set (ds_handlers s') \<and>
          ((\<forall>i > 0. undisturbed t (env i)) \<longrightarrow>
             map_of (tasks (ds_queue s')) (t_ID t) = Some t \<and> t \<in> ex_task ` set (ds_slots s'))
      | Refused t res \<Rightarrow> t_Type t \<notin> set (ds_handlers s) \<and>
          ((\<forall>i > 0. undisturbed t (env i)) \<longrightarrow> res = Inr () \<and> rejected t (ds_queue s'))
      | Skipped t \<Rightarrow> False)"
proof (cases "int (length (ds_slots s)) < pc_Concurrency config")
  case False
  with assms(2,3) show ?thesis by (auto simp: leaseAndDispatch_def)
next
  case True
  let ?s1 = "interfere (env 0) s" and ?free = "pc_Concurrency config - int (length (ds_slots s))"
  have wf: "queue_wf (ds_queue ?s1)" by (rule interfere_wf [OF queue_reachable_wf_aux [OF assms(1)]])
  obtain r out where l: "Lease bs now pool workerID (pc_LeaseDuration config) ?free (ds_queue ?s1) = (r, out)"
    by fastforce
  let ?s2 = "?s1\<lparr>ds_queue := r\<rparr>"
  have d: "dispatch_loop env bs' now' (nat (pc_Concurrency config)) 0 out ?s2 = (s', log)"
    using assms(3) True l by (simp add: leaseAndDispatch_def)
  have "int (length out) \<le> ?free"
    using length_picked [of now pool ?free "ds_queue ?s1"] True by (simp add: Lease_out(1) [OF l])
  then have len: "length (ds_slots ?s2) + length out \<le> nat (pc_Concurrency config)"
    using True interfere_slots [of "env 0" s] by simp
  have dis: "distinct (map t_ID out)" using Lease_out_IDs [OF wf l] distinct_picked [OF wf] by simp
  have wf2: "queue_wf r"
    using queue_step_wf [OF wf, of bs now "OpLease pool workerID (pc_LeaseDuration config) ?free"] l by simp
  have leased: "entry_kept t t ?s2 \<and> t_Status t = TaskStatusLeased" if "t \<in> set out" for t
  proof -
    from Lease_stored [OF wf l that] have "t_Status t = TaskStatusLeased" "map_of (tasks r) (t_ID t) = Some t"
      by (metis lease_task_sel(2), blast)
    with wf2 leased_never_ready [of t] show ?thesis by (simp add: entry_kept_def)
  qed
  note logged = dispatch_loop_log [OF d]
  have entry: "Started t \<in> set log \<and> map_of (tasks (ds_queue s')) (t_ID t) = Some t \<and> t \<in> ex_task ` set (ds_slots s') \<or>
      Refused t (Inr ()) \<in> set log \<and> rejected t (ds_queue s')"
    if "t \<in> set out" and "\<forall>i > 0. undisturbed t (env i)" for t
    using dispatch_loop_undisturbed [OF d that(2,1) dis _ _ len] leased [OF that(1)] by blast
  have once: "e = e'" if "e \<in> set log" "e' \<in> set log" "dispatched_task e = dispatched_task e'" for e e'
    using that dis logged(1) by (metis distinct_map inj_on_def)
  have "case e of
        Started t \<Rightarrow> t_Type t \<in> set (ds_handlers s') \<and>
          ((\<forall>i > 0. undisturbed t (env i)) \<longrightarrow>
             map_of (tasks (ds_queue s')) (t_ID t) = Some t \<and> t \<in> ex_task ` set (ds_slots s'))
      | Refused t res \<Rightarrow> t_Type t \<notin> set (ds_handlers s) \<and>
          ((\<forall>i > 0. undisturbed t (env i)) \<longrightarrow> res = Inr () \<and> rejected t (ds_queue s'))
      | Skipped t \<Rightarrow> False" if e: "e \<in> set log" for e
  proof -
    have out: "dispatched_task e \<in> set out" using e logged(1) by (metis image_eqI list.set_map)
    show ?thesis
    proof (cases e)
      case (Started t)
      have "Refused t res \<notin> set log" for res using once [OF e, of "Refused t res"] Started by auto
      then show ?thesis using Started e out logged(5) entry [of t] by auto
    next
      case (Refused t res)
      have "Started t \<notin> set log" using once [OF e, of "Started t"] Refused by auto
      moreover have "res = Inr ()" if "Refused t (Inr ()) \<in> set log"
        using once [OF e that] Refused by simp
      moreover have "t_Type t \<notin> set (ds_handlers s)"
        using e Refused logged(6) interfere_handlers [of s "env 0"] by auto
      ultimately show ?thesis using Refused out entry [of t] by auto
    next
      case (Skipped t)
      with e logged(3) [OF len] show ?thesis by blast
    qed
  qed
  with logged(1) logged(2) True len l show ?thesis by auto
qed

definition demo_pool :: PoolConfig where
  "demo_pool = pool_defaults \<lparr>pc_Name = ''p'', pc_Concurrency = 0, pc_LeaseDuration = 10,
     pc_HeartbeatInterval = 0, pc_CancelOnStop = False\<rparr>"

text \<open>While the round runs, another task is enqueued and cancelled.\<close>

definition demo_interference :: "nat \<Rightarrow> interference" where
  "demo_interference n =
     \<lparr>if_events = (if n = 1 then [(no_entropy, 20, OpEnqueue (task_on ''b'' 0)), (no_entropy, 20, OpCancel ''b'')] else []),
      if_ended = (\<lambda>t. False), if_cancelled = (\<lambda>t. False), if_handlers = []\<rparr>"

definition demo_dispatch :: "string list \<Rightarrow> dispatch_state" where
  "demo_dispatch handlers = \<lparr>ds_queue = demo_queue, ds_handlers = handlers, ds_slots = []\<rparr>"

theorem dispatch_loses_nothing_witness:
  "\<exists>s' t. leaseAndDispatch demo_interference no_entropy (\<lambda>_. no_entropy) 20 (\<lambda>_. 20) ''p'' ''w2'' demo_pool
       (demo_dispatch [''ingest'']) = (s', [Started t]) \<and> t_ID t = ''a'' \<and>
     map_of (tasks (ds_queue s')) ''a'' = Some t \<and> t \<in> ex_task ` set (ds_slots s')"
proof -
  obtain s' log where l: "leaseAndDispatch demo_interference no_entropy (\<lambda>_. no_entropy) 20 (\<lambda>_. 20) ''p'' ''w2'' demo_pool
       (demo_dispatch [''ingest'']) = (s', log)" by fastforce
  have "map (\<lambda>d. (t_ID (dispatched_task d), case d of Started t \<Rightarrow> True | _ \<Rightarrow> False)) (snd (leaseAndDispatch demo_interference
      no_entropy (\<lambda>_. no_entropy) 20 (\<lambda>_. 20) ''p'' ''w2'' demo_pool (demo_dispatch [''ingest'']))) = [(''a'', True)]"
    by code_simp
  then obtain t where log: "log = [Started t]" and t: "t_ID t = ''a''" using l by (auto split: dispatched.splits)
  have "undisturbed t (demo_interference i)" for i
    by (auto simp: undisturbed_def demo_interference_def t task_on_def zero_task_def enqueue_defaults_def Let_def)
  moreover have "queue_reachable (ds_queue (demo_dispatch [''ingest'']))" by (simp add: demo_dispatch_def demo_reachable)
  moreover have "int (length (ds_slots (demo_dispatch [''ingest'']))) \<le> pc_Concurrency demo_pool"
    by (simp add: demo_dispatch_def demo_pool_def pool_defaults_def Let_def)
  ultimately show ?thesis using dispatch_loses_nothing [OF _ _ l] l log t by fastforce
qed

text \<open>
  C9 (functional). Execution of a leased task, undisturbed: the first heartbeat makes it running and
  the handler is called; when the handler has returned, the task is succeeded, cancelled, terminally
  failed, dead or waiting for a retry exactly by what the handler returned and by the attempts left,
  and the lease is given up in every case.
\<close>

theorem executeTask_outcome:
  assumes "map_of (tasks r) (t_ID t) = Some t" and "t_Status t = TaskStatusLeased"
    and "executeTask_start bs now now1 d t r = (r1, called)"
    and "r2 = executeTask_finish bs2 now2 now3 \<lparr>ex_task = t, ex_cancelled = False, ex_heartbeatErr = False\<rparr> res r1"
  shows "called \<and> (\<exists>t'. map_of (tasks r2) (t_ID t) = Some t' \<and> t_LeaseHolder t' = [] \<and>
    t_Status t' = (case res of
        None \<Rightarrow> TaskStatusSucceeded
      | Some e \<Rightarrow> if isCancelledError e then TaskStatusCancelled
          else if \<not> isRetryableError e then TaskStatusFailedTerminal
          else if t_Attempt t \<ge> t_MaxAttempts t then TaskStatusDeadLetter
          else TaskStatusFailedRetryable))"
proof -
  let ?t = "t\<lparr>t_LeaseExpiresAt := now + d, t_LastHeartbeatAt := now, t_UpdatedAt := now, t_Status := TaskStatusRunning\<rparr>"
  have r1: "map_of (tasks r1) (t_ID t) = Some ?t" "called"
    using assms(1-3) by (auto simp: executeTask_start_def Let_def Heartbeat_def ownsLease_def Task_LeaseToken_def map_simps)
  show ?thesis
  proof (cases res)
    case None
    with r1 show ?thesis
      by (simp add: assms(4) executeTask_finish_def Let_def Complete_def ownsLease_def Task_LeaseToken_def map_simps)
  next
    case (Some e)
    with r1 show ?thesis
      by (auto simp: assms(4) executeTask_finish_def Let_def Cancel_def MarkCancelled_def Fail_def
          ownsLease_def Task_LeaseToken_def map_simps)
  qed
qed

theorem executeTask_outcome_witness:
  "\<exists>t r1. map_of (tasks demo_queue) ''a'' = Some t \<and>
     executeTask_start no_entropy 3 3 10 t demo_queue = (r1, True) \<and>
     (\<exists>t'. map_of (tasks (executeTask_finish no_entropy 4 4
        \<lparr>ex_task = t, ex_cancelled = False, ex_heartbeatErr = False\<rparr> None r1)) ''a'' = Some t' \<and>
        t_Status t' = TaskStatusSucceeded)"
proof -
  obtain t where t: "map_of (tasks demo_queue) ''a'' = Some t" "t_Status t = TaskStatusLeased" by (rule demo_task)
  have i: "t_ID t = ''a''" using queue_wfD(2) [OF queue_reachable_wf_aux [OF demo_reachable] t(1)] .
  obtain r1 c where s: "executeTask_start no_entropy 3 3 10 t demo_queue = (r1, c)" by fastforce
  from executeTask_outcome [OF _ t(2) s refl, of no_entropy 4 4 None] t(1) i s show ?thesis by auto
qed

text \<open>
  A worker that has lost its lease cannot report: when the task has been leased again
  since, the finish of the earlier execution changes nothing, whether its handler succeeded, failed
  or was cancelled by the worker. The one exception in the code is a handler that returns a
  cancellation error of its own.
\<close>

lemma stale_finish_is_harmless:
  assumes "queue_reachable r" and "map_of (tasks r) (t_ID (ex_task x)) = Some (ex_task x)"
    and "\<forall>e \<in> set es. \<not> overwrites (t_ID (ex_task x)) e"
    and "0 < lease_count (t_ID (ex_task x)) es r" and "lease_count (t_ID (ex_task x)) es r < 2 ^ 64"
    and "\<And>e. res = Some e \<Longrightarrow> ex_cancelled x \<or> ex_heartbeatErr x \<or> \<not> isCancelledError e"
  shows "executeTask_finish bs now now' x res (queue_run es r) = queue_run es r"
proof -
  let ?tok = "Task_LeaseToken (ex_task x)"
  note wf = queue_reachable_wf_aux [OF assms(1)]
  have g: "lt_Generation ?tok = t_LeaseGeneration (ex_task x)" by (simp add: Task_LeaseToken_def)
  note stale = co.rejects_stale [OF wf assms(2,3) g assms(4,5)]
    fa.rejects_stale [OF wf assms(2,3) g assms(4,5)] mc.rejects_stale [OF wf assms(2,3) g assms(4,5)]
  have "handleCancelledTask bs now (t_ID (ex_task x)) ?tok (queue_run es r) = queue_run es r"
    by (simp add: handleCancelledTask_def stale split: option.split)
  then show ?thesis using assms(6)
    by (auto simp: executeTask_finish_def Let_def stale split: option.split)
qed

definition relet :: "queue_event list" where
  "relet = [(no_entropy, 20, OpLease ''p'' ''w2'' 10 1)]"

lemma stale_finish_is_harmless_witness:
  "\<exists>t. map_of (tasks demo_queue) ''a'' = Some t \<and> lease_count ''a'' relet demo_queue = 1 \<and>
     executeTask_finish no_entropy 21 21 \<lparr>ex_task = t, ex_cancelled = False, ex_heartbeatErr = False\<rparr> None
       (queue_run relet demo_queue) = queue_run relet demo_queue"
proof -
  obtain t where t: "map_of (tasks demo_queue) ''a'' = Some t" by (rule demo_task)
  have i: "t_ID t = ''a''" using queue_wfD(2) [OF queue_reachable_wf_aux [OF demo_reachable] t] .
  have n: "lease_count ''a'' relet demo_queue = 1" by code_simp
  from stale_finish_is_harmless [OF demo_reachable, of "\<lparr>ex_task = t, ex_cancelled = False, ex_heartbeatErr = False\<rparr>" relet None]
  show ?thesis using t i n by (simp add: relet_def)
qed

text \<open>
  The exception is real: \<^verbatim>\<open>executeTask\<close> answers a handler's cancellation error with
  \<^verbatim>\<open>Cancel\<close>, which carries no lease token. A worker that has lost its lease so moves the task, now
  running under another worker, to cancelling, and the new owner can no longer complete it.
\<close>

lemma stale_cancellation_hits_new_owner:
  assumes "map_of (tasks r) (t_ID (ex_task x)) = Some t" and "t_Status t = TaskStatusRunning"
    and "t_LeaseGeneration t \<noteq> t_LeaseGeneration (ex_task x)"
    and "\<not> ex_cancelled x" and "\<not> ex_heartbeatErr x" and "isCancelledError e"
    and "r' = executeTask_finish bs now now' x (Some e) r"
  shows "map_of (tasks r') (t_ID (ex_task x)) = Some (t\<lparr>t_Status := TaskStatusCancelling, t_UpdatedAt := now\<rparr>) \<and>
    Complete bs' now'' (t_ID (ex_task x)) (Task_LeaseToken t) r' = (r', Inl ErrLeaseLost)"
  using assms
  by (auto simp: executeTask_finish_def Let_def Cancel_def MarkCancelled_def Complete_def ownsLease_def
      Task_LeaseToken_def map_simps)

lemma stale_cancellation_hits_new_owner_witness:
  "\<exists>x r t. map_of (tasks r) ''a'' = Some t \<and> t_Status t = TaskStatusRunning \<and> queue_reachable r \<and>
     map_of (tasks (executeTask_finish no_entropy 22 22 x
       (Some \<lparr>he_Cancelled = Some True, he_Retryable = None, he_Error = ''stopped''\<rparr>) r)) ''a'' =
       Some (t\<lparr>t_Status := TaskStatusCancelling, t_UpdatedAt := 22\<rparr>)"
proof -
  let ?r = "queue_run (relet @ [(no_entropy, 21, OpHeartbeat ''a'' \<lparr>lt_Holder = ''w2'', lt_Generation = 2\<rparr> 10)]) demo_queue"
  have "map_option (\<lambda>t. (t_Status t, t_LeaseGeneration t)) (map_of (tasks ?r) ''a'') = Some (TaskStatusRunning, 2)"
    by code_simp
  then obtain t where t: "map_of (tasks ?r) ''a'' = Some t" "t_Status t = TaskStatusRunning" "t_LeaseGeneration t = 2"
    by auto
  let ?x = "\<lparr>ex_task = (task_on ''a'' 0)\<lparr>t_LeaseGeneration := 1\<rparr>, ex_cancelled = False, ex_heartbeatErr = False\<rparr>"
  have "map_of (tasks (executeTask_finish no_entropy 22 22 ?x
       (Some \<lparr>he_Cancelled = Some True, he_Retryable = None, he_Error = ''stopped''\<rparr>) ?r)) ''a'' =
       Some (t\<lparr>t_Status := TaskStatusCancelling, t_UpdatedAt := 22\<rparr>)"
    using stale_cancellation_hits_new_owner [of ?r ?x t, OF _ t(2) _ _ _ _ refl] t
    by (simp add: task_on_def isCancelledError_def)
  moreover have "queue_reachable ?r" by (rule queue_run_reachable [OF demo_reachable])
  ultimately show ?thesis using t by blast
qed

end
