(* ===== verification/ReleaseFlow.thy ===== *)
theory ReleaseFlow
  imports Prelude
begin

text \<open>
  The release state machine of \<^verbatim>\<open>internal/release\<close>: environments, versions, evidence and release
  records (\<^verbatim>\<open>types.go\<close>), the in-memory repository (\<^verbatim>\<open>memory.go\<close>) and the service that activates,
  promotes and rolls back versions (\<^verbatim>\<open>service.go\<close>). A service call reads the repository, decides, and
  commits with the revision it has read; other calls may run between its reads and its commit.
\<close>

section \<open>Data model\<close>

type_synonym EnvironmentKind = string

abbreviation Development :: EnvironmentKind where "Development \<equiv> ''development''"
abbreviation Staging :: EnvironmentKind where "Staging \<equiv> ''staging''"
abbreviation Production :: EnvironmentKind where "Production \<equiv> ''production''"
abbreviation ActionActivate :: string where "ActionActivate \<equiv> ''activate''"
abbreviation ActionPromote :: string where "ActionPromote \<equiv> ''promote''"
abbreviation ActionRollback :: string where "ActionRollback \<equiv> ''rollback''"

datatype release_error =
    ErrInvalidTransition | ErrGateFailed | ErrConflict | ErrRollbackTarget | ErrNotFound
  | ErrBindingMissing | ErrBindingInvalid

record Environment =
  env_ID :: string
  env_ProjectID :: string
  env_Kind :: EnvironmentKind
  env_ActiveVersionID :: string
  env_ActiveReleaseID :: string
  env_Revision :: int64
  env_Bound :: bool

record Version =
  ver_ID :: string
  ver_ProjectID :: string
  ver_PipelineID :: string
  ver_ContentHash :: string
  ver_Definition :: string
  ver_CreatedAt :: gotime

record Evidence =
  evd_ProjectID :: string
  evd_VersionID :: string
  evd_EnvironmentID :: string
  evd_Passed :: bool
  evd_ContentHash :: string
  evd_DatasetID :: string
  evd_EvaluationRunID :: string

record Release =
  rel_ID :: string
  rel_ProjectID :: string
  rel_SourceVersionID :: string
  rel_TargetVersionID :: string
  rel_SourceEnvironment :: EnvironmentKind
  rel_TargetEnvironment :: EnvironmentKind
  rel_Action :: string
  rel_Actor :: string
  rel_Reason :: string
  rel_CreatedAt :: gotime

record PromoteRequest =
  pr_ProjectID :: string
  pr_SourceEnvironment :: EnvironmentKind
  pr_TargetEnvironment :: EnvironmentKind
  pr_TargetVersionID :: string
  pr_ExpectedActiveVersionID :: string
  pr_Actor :: string

record ActivateRequest =
  ac_ProjectID :: string
  ac_TargetVersionID :: string
  ac_ExpectedActiveVersionID :: string
  ac_Actor :: string

record RollbackRequest =
  rb_ProjectID :: string
  rb_Environment :: EnvironmentKind
  rb_TargetVersionID :: string
  rb_ExpectedActiveVersionID :: string
  rb_Actor :: string
  rb_Reason :: string

section \<open>The in-memory repository\<close>

record MemoryReleaseRepository =
  rr_default :: string
  rr_envs :: "(string, Environment) gomap"
  rr_versions :: "(string, Version) gomap"
  rr_evidence :: "(string, Evidence) gomap"
  rr_validated :: "(string, bool) gomap"
  rr_releases :: "Release list"

definition environmentKey :: "string \<Rightarrow> EnvironmentKind \<Rightarrow> string" where
  "environmentKey projectID kind = projectID @ NUL @ kind"

definition versionKey :: "string \<Rightarrow> string \<Rightarrow> string" where
  "versionKey projectID versionID = projectID @ NUL @ versionID"

definition evidenceKey :: "string \<Rightarrow> string \<Rightarrow> EnvironmentKind \<Rightarrow> string" where
  "evidenceKey projectID versionID kind = projectID @ NUL @ versionID @ NUL @ kind"

definition repo_projectID :: "MemoryReleaseRepository \<Rightarrow> string \<Rightarrow> string" where
  "repo_projectID r p = (if TrimSpace p \<noteq> [] then TrimSpace p else rr_default r)"

definition kinds :: "EnvironmentKind list" where
  "kinds = [Development, Staging, Production]"

definition fresh_environment :: "string \<Rightarrow> EnvironmentKind \<Rightarrow> Environment" where
  "fresh_environment p kind =
     \<lparr>env_ID = ''env_'' @ p @ ''_'' @ kind, env_ProjectID = p, env_Kind = kind, env_ActiveVersionID = [],
      env_ActiveReleaseID = [], env_Revision = 0, env_Bound = True\<rparr>"

definition ensure_kind :: "string \<Rightarrow> EnvironmentKind \<Rightarrow> (string, Environment) gomap \<Rightarrow> (string, Environment) gomap" where
  "ensure_kind p kind m =
     (case map_of m (environmentKey p kind) of
        Some _ \<Rightarrow> m
      | None \<Rightarrow> gput (environmentKey p kind) (fresh_environment p kind) m)"

definition ensureProjectLocked :: "string \<Rightarrow> MemoryReleaseRepository \<Rightarrow> MemoryReleaseRepository \<times> string" where
  "ensureProjectLocked p r =
     (let p = repo_projectID r p
      in (r\<lparr>rr_envs := fold (ensure_kind p) kinds (rr_envs r)\<rparr>, p))"

definition NewMemoryReleaseRepository :: "string \<Rightarrow> MemoryReleaseRepository" where
  "NewMemoryReleaseRepository p =
     (let r = \<lparr>rr_default = TrimSpace p, rr_envs = [], rr_versions = [], rr_evidence = [], rr_validated = [],
               rr_releases = []\<rparr>
      in fst (ensureProjectLocked (rr_default r) r))"

definition zero_environment :: Environment where
  "zero_environment =
     \<lparr>env_ID = [], env_ProjectID = [], env_Kind = [], env_ActiveVersionID = [], env_ActiveReleaseID = [],
      env_Revision = 0, env_Bound = False\<rparr>"

definition zero_evidence :: Evidence where
  "zero_evidence =
     \<lparr>evd_ProjectID = [], evd_VersionID = [], evd_EnvironmentID = [], evd_Passed = False, evd_ContentHash = [],
      evd_DatasetID = [], evd_EvaluationRunID = []\<rparr>"

definition repo_Environments :: "string \<Rightarrow> MemoryReleaseRepository \<Rightarrow> MemoryReleaseRepository \<times> Environment list" where
  "repo_Environments p r =
     (case ensureProjectLocked p r of
        (r, p) \<Rightarrow> (r, map (\<lambda>kind. gget0 zero_environment (rr_envs r) (environmentKey p kind)) kinds))"

definition repo_Environment ::
  "string \<Rightarrow> EnvironmentKind \<Rightarrow> MemoryReleaseRepository \<Rightarrow> MemoryReleaseRepository \<times> (release_error + Environment)" where
  "repo_Environment p kind r =
     (case ensureProjectLocked p r of
        (r, p) \<Rightarrow>
          (r, case map_of (rr_envs r) (environmentKey p kind) of
                None \<Rightarrow> Inl ErrNotFound
              | Some item \<Rightarrow> Inr item))"

definition repo_Releases :: "string \<Rightarrow> MemoryReleaseRepository \<Rightarrow> Release list" where
  "repo_Releases p r = filter (\<lambda>item. rel_ProjectID item = repo_projectID r p) (rr_releases r)"

definition repo_Versions :: "string \<Rightarrow> MemoryReleaseRepository \<Rightarrow> Version list" where
  "repo_Versions p r = filter (\<lambda>item. ver_ProjectID item = repo_projectID r p) (map snd (rr_versions r))"

definition repo_CreateVersion ::
  "Version \<Rightarrow> MemoryReleaseRepository \<Rightarrow> MemoryReleaseRepository \<times> (release_error + unit)" where
  "repo_CreateVersion v r =
     (let v = v\<lparr>ver_ProjectID := repo_projectID r (ver_ProjectID v)\<rparr>;
          key = versionKey (ver_ProjectID v) (ver_ID v)
      in if map_of (rr_versions r) key \<noteq> None then (r, Inl ErrConflict)
         else (r\<lparr>rr_versions := gput key v (rr_versions r)\<rparr>, Inr ()))"

definition repo_Version :: "string \<Rightarrow> string \<Rightarrow> MemoryReleaseRepository \<Rightarrow> release_error + Version" where
  "repo_Version p i r =
     (case map_of (rr_versions r) (versionKey (repo_projectID r p) i) of
        None \<Rightarrow> Inl ErrNotFound
      | Some item \<Rightarrow> Inr item)"

definition repo_Evidence :: "string \<Rightarrow> string \<Rightarrow> EnvironmentKind \<Rightarrow> MemoryReleaseRepository \<Rightarrow> Evidence" where
  "repo_Evidence p i kind r =
     gget0 zero_evidence (rr_evidence r) (evidenceKey (repo_projectID r p) i kind)"

definition repo_SaveEvidence :: "Evidence \<Rightarrow> MemoryReleaseRepository \<Rightarrow> MemoryReleaseRepository" where
  "repo_SaveEvidence e r =
     (let e = e\<lparr>evd_ProjectID := repo_projectID r (evd_ProjectID e)\<rparr>;
          key = evidenceKey (evd_ProjectID e) (evd_VersionID e) (evd_EnvironmentID e)
      in r\<lparr>rr_evidence := gput key e (rr_evidence r), rr_validated := gput key (evd_Passed e) (rr_validated r)\<rparr>)"

definition repo_PreviouslyValidated :: "string \<Rightarrow> string \<Rightarrow> EnvironmentKind \<Rightarrow> MemoryReleaseRepository \<Rightarrow> bool" where
  "repo_PreviouslyValidated p i kind r =
     gget0 False (rr_validated r) (evidenceKey (repo_projectID r p) i kind)"

definition repo_Bind ::
  "string \<Rightarrow> EnvironmentKind \<Rightarrow> MemoryReleaseRepository \<Rightarrow> MemoryReleaseRepository \<times> (release_error + unit)" where
  "repo_Bind p kind r =
     (case ensureProjectLocked p r of
        (r, p) \<Rightarrow>
          (case map_of (rr_envs r) (environmentKey p kind) of
             None \<Rightarrow> (r, Inl ErrNotFound)
           | Some item \<Rightarrow>
               (r\<lparr>rr_envs := gput (environmentKey p kind) (item\<lparr>env_Bound := True\<rparr>) (rr_envs r)\<rparr>, Inr ())))"

definition repo_Commit ::
  "Environment \<Rightarrow> Release \<Rightarrow> MemoryReleaseRepository \<Rightarrow> MemoryReleaseRepository \<times> (release_error + unit)" where
  "repo_Commit e record r =
     (let e = e\<lparr>env_ProjectID := repo_projectID r (env_ProjectID e)\<rparr>;
          key = environmentKey (env_ProjectID e) (env_Kind e);
          current = gget0 zero_environment (rr_envs r) key
      in if env_Revision current \<noteq> env_Revision e - 1 then (r, Inl ErrConflict)
         else (r\<lparr>rr_envs := gput key e (rr_envs r), rr_releases := rr_releases r @ [record]\<rparr>, Inr ()))"

text \<open>Seeding of the mock profile and of tests; no service call reaches these.\<close>

definition repo_PutVersion :: "Version \<Rightarrow> MemoryReleaseRepository \<Rightarrow> MemoryReleaseRepository" where
  "repo_PutVersion v r =
     (let v = v\<lparr>ver_ProjectID := repo_projectID r (ver_ProjectID v)\<rparr>
      in r\<lparr>rr_versions := gput (versionKey (ver_ProjectID v) (ver_ID v)) v (rr_versions r)\<rparr>)"

definition repo_PutEvidence :: "Evidence \<Rightarrow> MemoryReleaseRepository \<Rightarrow> MemoryReleaseRepository" where
  "repo_PutEvidence e r = repo_SaveEvidence e r"

definition repo_PutValidation :: "string \<Rightarrow> EnvironmentKind \<Rightarrow> bool \<Rightarrow> MemoryReleaseRepository \<Rightarrow> MemoryReleaseRepository" where
  "repo_PutValidation versionID kind passed r =
     r\<lparr>rr_validated := gput (evidenceKey (rr_default r) versionID kind) passed (rr_validated r)\<rparr>"

definition repo_SetEnvironment :: "Environment \<Rightarrow> MemoryReleaseRepository \<Rightarrow> MemoryReleaseRepository" where
  "repo_SetEnvironment e r =
     (let e = e\<lparr>env_ProjectID := repo_projectID r (env_ProjectID e)\<rparr>
      in r\<lparr>rr_envs := gput (environmentKey (env_ProjectID e) (env_Kind e)) e (rr_envs r)\<rparr>)"

section \<open>The service\<close>

definition validPromotion :: "EnvironmentKind \<Rightarrow> EnvironmentKind \<Rightarrow> bool" where
  "validPromotion source target \<longleftrightarrow>
     (source = Development \<and> target = Staging) \<or> (source = Staging \<and> target = Production)"

definition Service_Bind ::
  "string \<Rightarrow> EnvironmentKind \<Rightarrow> string \<Rightarrow> MemoryReleaseRepository \<Rightarrow> MemoryReleaseRepository \<times> (release_error + Environment)" where
  "Service_Bind p kind bindingRef r =
     (let p = TrimSpace p; bindingRef = TrimSpace bindingRef
      in if p = [] \<or> bindingRef = [] \<or> (kind \<noteq> Development \<and> kind \<noteq> Staging \<and> kind \<noteq> Production)
         then (r, Inl ErrBindingInvalid)
         else case repo_Bind p kind r of
                (r1, Inl e) \<Rightarrow> (r1, Inl e)
              | (r1, Inr _) \<Rightarrow> repo_Environment p kind r1)"

definition Service_CreateVersion ::
  "gotime \<Rightarrow> Version \<Rightarrow> MemoryReleaseRepository \<Rightarrow> MemoryReleaseRepository \<times> (release_error + unit)" where
  "Service_CreateVersion now v r =
     (if ver_ProjectID v = [] \<or> ver_ID v = [] \<or> ver_ContentHash v = [] then (r, Inl ErrInvalidTransition)
      else repo_CreateVersion (v\<lparr>ver_CreatedAt := (if IsZero (ver_CreatedAt v) then now else ver_CreatedAt v)\<rparr>) r)"

definition Service_Validate ::
  "string \<Rightarrow> string \<Rightarrow> Evidence \<Rightarrow> MemoryReleaseRepository \<Rightarrow> MemoryReleaseRepository \<times> (release_error + unit)" where
  "Service_Validate p versionID e r =
     (if p = [] \<or> versionID = [] \<or> evd_EnvironmentID e = [] then (r, Inl ErrGateFailed)
      else case repo_Version p versionID r of
             Inl err \<Rightarrow> (r, Inl err)
           | Inr version \<Rightarrow>
               let e = e\<lparr>evd_VersionID := (if evd_VersionID e = [] then versionID else evd_VersionID e),
                         evd_ProjectID := p\<rparr>
               in if evd_VersionID e \<noteq> versionID \<or> evd_ContentHash e \<noteq> ver_ContentHash version
                  then (r, Inl ErrGateFailed)
                  else (repo_SaveEvidence e r, Inr ()))"

text \<open>
  The part of \<^verbatim>\<open>ActivateDevelopment\<close>, \<^verbatim>\<open>Promote\<close> and \<^verbatim>\<open>Rollback\<close> before the commit: the checks, the
  release record and the environment with its new revision.
\<close>

definition advance :: "Environment \<Rightarrow> Version \<Rightarrow> Release \<Rightarrow> Environment" where
  "advance e v record =
     e\<lparr>env_ActiveVersionID := ver_ID v, env_ActiveReleaseID := rel_ID record, env_Revision := env_Revision e + 1\<rparr>"

definition activate_prepare ::
  "entropy \<Rightarrow> gotime \<Rightarrow> ActivateRequest \<Rightarrow> MemoryReleaseRepository \<Rightarrow>
   MemoryReleaseRepository \<times> (release_error + Environment \<times> Release)" where
  "activate_prepare b now req r =
     (if ac_ProjectID req = [] \<or> ac_TargetVersionID req = [] \<or> ac_Actor req = [] then (r, Inl ErrInvalidTransition)
      else case repo_Environment (ac_ProjectID req) Development r of
             (r, Inl err) \<Rightarrow> (r, Inl err)
           | (r, Inr e) \<Rightarrow>
               if env_ActiveVersionID e \<noteq> ac_ExpectedActiveVersionID req then (r, Inl ErrConflict)
               else case repo_Version (ac_ProjectID req) (ac_TargetVersionID req) r of
                      Inl err \<Rightarrow> (r, Inl err)
                    | Inr v \<Rightarrow>
                        if ver_ProjectID v \<noteq> ac_ProjectID req then (r, Inl ErrNotFound)
                        else if ver_PipelineID v = [] \<or> ver_Definition v = [] then (r, Inl ErrGateFailed)
                        else if \<not> env_Bound e then (r, Inl ErrBindingMissing)
                        else let evidence = repo_Evidence (ac_ProjectID req) (ver_ID v) Development r
                             in if \<not> evd_Passed evidence \<or> evd_ContentHash evidence \<noteq> ver_ContentHash v
                                then (r, Inl ErrGateFailed)
                                else let record =
                                       \<lparr>rel_ID = id_New ''rel'' b, rel_ProjectID = ac_ProjectID req,
                                        rel_SourceVersionID = env_ActiveVersionID e, rel_TargetVersionID = ver_ID v,
                                        rel_SourceEnvironment = Development, rel_TargetEnvironment = Development,
                                        rel_Action = ActionActivate, rel_Actor = ac_Actor req, rel_Reason = [],
                                        rel_CreatedAt = now\<rparr>
                                     in (r, Inr (advance e v record, record)))"

definition promote_prepare ::
  "entropy \<Rightarrow> gotime \<Rightarrow> PromoteRequest \<Rightarrow> MemoryReleaseRepository \<Rightarrow>
   MemoryReleaseRepository \<times> (release_error + Environment \<times> Release)" where
  "promote_prepare b now req r =
     (if pr_ProjectID req = [] \<or> pr_TargetVersionID req = [] \<or> pr_Actor req = [] then (r, Inl ErrInvalidTransition)
      else if \<not> validPromotion (pr_SourceEnvironment req) (pr_TargetEnvironment req) then (r, Inl ErrInvalidTransition)
      else case repo_Environment (pr_ProjectID req) (pr_SourceEnvironment req) r of
        (r, Inl err) \<Rightarrow> (r, Inl err)
      | (r, Inr source) \<Rightarrow>
          (case repo_Environment (pr_ProjectID req) (pr_TargetEnvironment req) r of
             (r, Inl err) \<Rightarrow> (r, Inl err)
           | (r, Inr target) \<Rightarrow>
               if env_ActiveVersionID source = [] \<or> env_ActiveVersionID source \<noteq> pr_TargetVersionID req
               then (r, Inl ErrInvalidTransition)
               else if env_ActiveVersionID target \<noteq> pr_ExpectedActiveVersionID req then (r, Inl ErrConflict)
               else case repo_Version (pr_ProjectID req) (pr_TargetVersionID req) r of
                      Inl err \<Rightarrow> (r, Inl err)
                    | Inr v \<Rightarrow>
                        if ver_ProjectID v \<noteq> pr_ProjectID req then (r, Inl ErrNotFound)
                        else if ver_PipelineID v = [] \<or> ver_Definition v = [] then (r, Inl ErrGateFailed)
                        else if \<not> env_Bound target then (r, Inl ErrBindingMissing)
                        else let evidence = repo_Evidence (pr_ProjectID req) (ver_ID v) (pr_TargetEnvironment req) r
                             in if \<not> evd_Passed evidence \<or> evd_ContentHash evidence \<noteq> ver_ContentHash v
                                then (r, Inl ErrGateFailed)
                                else let record =
                                       \<lparr>rel_ID = id_New ''rel'' b, rel_ProjectID = pr_ProjectID req,
                                        rel_SourceVersionID = env_ActiveVersionID source, rel_TargetVersionID = ver_ID v,
                                        rel_SourceEnvironment = pr_SourceEnvironment req,
                                        rel_TargetEnvironment = pr_TargetEnvironment req,
                                        rel_Action = ActionPromote, rel_Actor = pr_Actor req, rel_Reason = [],
                                        rel_CreatedAt = now\<rparr>
                                     in (r, Inr (advance target v record, record))))"

definition rollback_prepare ::
  "entropy \<Rightarrow> gotime \<Rightarrow> RollbackRequest \<Rightarrow> MemoryReleaseRepository \<Rightarrow>
   MemoryReleaseRepository \<times> (release_error + Environment \<times> Release)" where
  "rollback_prepare b now req r =
     (if rb_ProjectID req = [] \<or> rb_TargetVersionID req = [] \<or> rb_Actor req = [] \<or> TrimSpace (rb_Reason req) = []
      then (r, Inl ErrRollbackTarget)
      else if rb_Environment req \<noteq> Development \<and> rb_Environment req \<noteq> Staging \<and> rb_Environment req \<noteq> Production
      then (r, Inl ErrRollbackTarget)
      else case repo_Environment (rb_ProjectID req) (rb_Environment req) r of
             (r, Inl err) \<Rightarrow> (r, Inl err)
           | (r, Inr e) \<Rightarrow>
               if env_ActiveVersionID e \<noteq> rb_ExpectedActiveVersionID req then (r, Inl ErrConflict)
               else if env_ActiveVersionID e = rb_TargetVersionID req then (r, Inl ErrRollbackTarget)
               else case repo_Version (rb_ProjectID req) (rb_TargetVersionID req) r of
                      Inl err \<Rightarrow> (r, Inl err)
                    | Inr v \<Rightarrow>
                        if \<not> repo_PreviouslyValidated (rb_ProjectID req) (ver_ID v) (rb_Environment req) r
                        then (r, Inl ErrRollbackTarget)
                        else if \<not> env_Bound e then (r, Inl ErrBindingMissing)
                        else let record =
                               \<lparr>rel_ID = id_New ''rel'' b, rel_ProjectID = rb_ProjectID req,
                                rel_SourceVersionID = env_ActiveVersionID e, rel_TargetVersionID = ver_ID v,
                                rel_SourceEnvironment = rb_Environment req, rel_TargetEnvironment = rb_Environment req,
                                rel_Action = ActionRollback, rel_Actor = rb_Actor req,
                                rel_Reason = TrimSpace (rb_Reason req), rel_CreatedAt = now\<rparr>
                             in (r, Inr (advance e v record, record)))"

definition commit_prepared ::
  "MemoryReleaseRepository \<times> (release_error + Environment \<times> Release) \<Rightarrow>
   MemoryReleaseRepository \<times> (release_error + Release)" where
  "commit_prepared p =
     (case p of
        (r, Inl err) \<Rightarrow> (r, Inl err)
      | (r, Inr (e, record)) \<Rightarrow>
          (case repo_Commit e record r of
             (r, Inl err) \<Rightarrow> (r, Inl err)
           | (r, Inr _) \<Rightarrow> (r, Inr record)))"

definition ActivateDevelopment ::
  "entropy \<Rightarrow> gotime \<Rightarrow> ActivateRequest \<Rightarrow> MemoryReleaseRepository \<Rightarrow> MemoryReleaseRepository \<times> (release_error + Release)" where
  "ActivateDevelopment b now req r = commit_prepared (activate_prepare b now req r)"

definition Promote ::
  "entropy \<Rightarrow> gotime \<Rightarrow> PromoteRequest \<Rightarrow> MemoryReleaseRepository \<Rightarrow> MemoryReleaseRepository \<times> (release_error + Release)" where
  "Promote b now req r = commit_prepared (promote_prepare b now req r)"

definition Rollback ::
  "entropy \<Rightarrow> gotime \<Rightarrow> RollbackRequest \<Rightarrow> MemoryReleaseRepository \<Rightarrow> MemoryReleaseRepository \<times> (release_error + Release)" where
  "Rollback b now req r = commit_prepared (rollback_prepare b now req r)"

end
