(* ===== verification/ReleaseProps.thy ===== *)
theory ReleaseProps
  imports ReleaseFlow
begin

text \<open>
  The release service as a transition system, its invariant and its theorems. The log of
  releases explains the state: replaying it gives every environment's active version and revision.
\<close>

section \<open>The transition system\<close>

text \<open>\<open>sys_pending\<close> holds the calls that have passed their checks and have not committed yet.\<close>

record release_system =
  sys_repo :: MemoryReleaseRepository
  sys_pending :: "(Environment \<times> Release) list"

datatype release_op =
    PrepareActivate entropy gotime ActivateRequest
  | PreparePromote entropy gotime PromoteRequest
  | PrepareRollback entropy gotime RollbackRequest
  | CommitPending nat
  | CallBind string EnvironmentKind string
  | CallCreateVersion gotime Version
  | CallValidate string string Evidence
  | CallEnvironments string

definition prepared ::
  "MemoryReleaseRepository \<times> (release_error + Environment \<times> Release) \<Rightarrow> release_system \<Rightarrow> release_system" where
  "prepared p s =
     (case p of
        (r, Inl _) \<Rightarrow> s\<lparr>sys_repo := r\<rparr>
      | (r, Inr c) \<Rightarrow> s\<lparr>sys_repo := r, sys_pending := sys_pending s @ [c]\<rparr>)"

fun release_step :: "release_op \<Rightarrow> release_system \<Rightarrow> release_system" where
  "release_step (PrepareActivate b now req) s = prepared (activate_prepare b now req (sys_repo s)) s"
| "release_step (PreparePromote b now req) s = prepared (promote_prepare b now req (sys_repo s)) s"
| "release_step (PrepareRollback b now req) s = prepared (rollback_prepare b now req (sys_repo s)) s"
| "release_step (CommitPending i) s =
     (if i < length (sys_pending s)
      then s\<lparr>sys_repo := fst (repo_Commit (fst (sys_pending s ! i)) (snd (sys_pending s ! i)) (sys_repo s)),
             sys_pending := take i (sys_pending s) @ drop (Suc i) (sys_pending s)\<rparr>
      else s)"
| "release_step (CallBind p kind ref) s = s\<lparr>sys_repo := fst (Service_Bind p kind ref (sys_repo s))\<rparr>"
| "release_step (CallCreateVersion now v) s = s\<lparr>sys_repo := fst (Service_CreateVersion now v (sys_repo s))\<rparr>"
| "release_step (CallValidate p v e) s = s\<lparr>sys_repo := fst (Service_Validate p v e (sys_repo s))\<rparr>"
| "release_step (CallEnvironments p) s = s\<lparr>sys_repo := fst (repo_Environments p (sys_repo s))\<rparr>"

fun release_run :: "release_op list \<Rightarrow> release_system \<Rightarrow> release_system" where
  "release_run [] s = s"
| "release_run (a # as) s = release_run as (release_step a s)"

definition release_init :: "string \<Rightarrow> release_system" where
  "release_init p = \<lparr>sys_repo = NewMemoryReleaseRepository p, sys_pending = []\<rparr>"

inductive release_reachable :: "release_system \<Rightarrow> bool" where
  init: "release_reachable (release_init p)"
| step: "release_reachable s \<Longrightarrow> release_reachable (release_step a s)"

lemma release_run_reachable: "release_reachable s \<Longrightarrow> release_reachable (release_run as s)"
  by (induction as s rule: release_run.induct) (auto intro: release_reachable.step)

section \<open>Keys and projects\<close>

lemma set_kinds: "set kinds = {Development, Staging, Production}"
  by (simp add: kinds_def)

lemma environmentKey_inj:
  "k \<in> set kinds \<Longrightarrow> k' \<in> set kinds \<Longrightarrow> environmentKey p k = environmentKey p' k' \<longleftrightarrow> p = p' \<and> k = k'"
  unfolding environmentKey_def by (rule nul_join_inj_last) (auto simp: set_kinds)

lemma projectID_idem:
  "TrimSpace (rr_default r) = rr_default r \<Longrightarrow> repo_projectID r (repo_projectID r p) = repo_projectID r p"
  by (simp add: repo_projectID_def TrimSpace_idem)

lemma map_of_ensure_kind [map_simps]:
  "map_of (ensure_kind p k m) key =
     (case map_of m key of
        Some e \<Rightarrow> Some e
      | None \<Rightarrow> if key = environmentKey p k then Some (fresh_environment p k) else None)"
  by (auto simp: ensure_kind_def map_simps split: option.split)

lemma map_of_ensured:
  "map_of (fold (ensure_kind p) ks m) key =
     (case map_of m key of
        Some e \<Rightarrow> Some e
      | None \<Rightarrow> map_option (fresh_environment p) (find (\<lambda>k. key = environmentKey p k) ks))"
proof (induction ks arbitrary: m)
  case (Cons k ks)
  then show ?case by (auto simp: map_simps split: option.split)
qed (simp split: option.split)

lemma ensure_fields [simp]:
  "snd (ensureProjectLocked p r) = repo_projectID r p"
  "rr_default (fst (ensureProjectLocked p r)) = rr_default r"
  "rr_versions (fst (ensureProjectLocked p r)) = rr_versions r"
  "rr_evidence (fst (ensureProjectLocked p r)) = rr_evidence r"
  "rr_validated (fst (ensureProjectLocked p r)) = rr_validated r"
  "rr_releases (fst (ensureProjectLocked p r)) = rr_releases r"
  "repo_projectID (fst (ensureProjectLocked p r)) = repo_projectID r"
  by (simp_all add: ensureProjectLocked_def repo_projectID_def fun_eq_iff Let_def)

lemma ensure_envs:
  "map_of (rr_envs (fst (ensureProjectLocked p r))) key =
     (case map_of (rr_envs r) key of
        Some e \<Rightarrow> Some e
      | None \<Rightarrow> map_option (fresh_environment (repo_projectID r p))
                 (find (\<lambda>k. key = environmentKey (repo_projectID r p) k) kinds))"
  by (simp add: ensureProjectLocked_def Let_def map_of_ensured)

lemma repo_Environment_eq:
  "repo_Environment p k r =
     (fst (ensureProjectLocked p r),
      case map_of (rr_envs (fst (ensureProjectLocked p r))) (environmentKey (repo_projectID r p) k) of
        None \<Rightarrow> Inl ErrNotFound | Some e \<Rightarrow> Inr e)"
  by (simp add: repo_Environment_def case_prod_unfold)

section \<open>The invariant\<close>

text \<open>The releases of one environment of a project, and what they say is active there.\<close>

definition log_for :: "MemoryReleaseRepository \<Rightarrow> string \<Rightarrow> EnvironmentKind \<Rightarrow> Release list" where
  "log_for r p k =
     filter (\<lambda>x. repo_projectID r (rel_ProjectID x) = p \<and> rel_TargetEnvironment x = k) (rr_releases r)"

definition active_of :: "Release list \<Rightarrow> string" where
  "active_of rs = (if rs = [] then [] else rel_TargetVersionID (last rs))"

definition env_ok :: "MemoryReleaseRepository \<Rightarrow> string \<Rightarrow> Environment \<Rightarrow> bool" where
  "env_ok r key e \<longleftrightarrow>
     env_Kind e \<in> set kinds \<and> repo_projectID r (env_ProjectID e) = env_ProjectID e \<and>
     key = environmentKey (env_ProjectID e) (env_Kind e) \<and>
     env_ActiveVersionID e = active_of (log_for r (env_ProjectID e) (env_Kind e)) \<and>
     env_Revision e = of_nat (length (log_for r (env_ProjectID e) (env_Kind e)))"

definition log_explains :: "MemoryReleaseRepository \<Rightarrow> bool" where
  "log_explains r \<longleftrightarrow>
     TrimSpace (rr_default r) = rr_default r \<and>
     (\<forall>key e. map_of (rr_envs r) key = Some e \<longrightarrow> env_ok r key e) \<and>
     (\<forall>x \<in> set (rr_releases r).
        map_of (rr_envs r) (environmentKey (repo_projectID r (rel_ProjectID x)) (rel_TargetEnvironment x)) \<noteq> None)"

text \<open>The release a promotion builds on: the same version, made active in the source environment.\<close>

definition builds_on :: "MemoryReleaseRepository \<Rightarrow> Release \<Rightarrow> Release \<Rightarrow> bool" where
  "builds_on r x y \<longleftrightarrow>
     repo_projectID r (rel_ProjectID y) = repo_projectID r (rel_ProjectID x) \<and>
     rel_TargetEnvironment y = rel_SourceEnvironment x \<and> rel_TargetVersionID y = rel_TargetVersionID x"

definition promoted_from :: "MemoryReleaseRepository \<Rightarrow> Release list \<Rightarrow> Release \<Rightarrow> bool" where
  "promoted_from r pre x \<longleftrightarrow>
     (rel_Action x = ActionPromote \<longrightarrow>
        validPromotion (rel_SourceEnvironment x) (rel_TargetEnvironment x) \<and> (\<exists>y \<in> set pre. builds_on r x y))"

definition promotions_ordered :: "MemoryReleaseRepository \<Rightarrow> bool" where
  "promotions_ordered r \<longleftrightarrow>
     (\<forall>pre x post. rr_releases r = pre @ x # post \<longrightarrow> promoted_from r pre x)"

definition pending_ok :: "MemoryReleaseRepository \<Rightarrow> Environment \<times> Release \<Rightarrow> bool" where
  "pending_ok r c \<longleftrightarrow>
     env_Kind (fst c) \<in> set kinds \<and> env_Kind (fst c) = rel_TargetEnvironment (snd c) \<and>
     env_ProjectID (fst c) = repo_projectID r (rel_ProjectID (snd c)) \<and>
     env_ActiveVersionID (fst c) = rel_TargetVersionID (snd c) \<and>
     map_of (rr_envs r) (environmentKey (env_ProjectID (fst c)) (env_Kind (fst c))) \<noteq> None \<and>
     promoted_from r (rr_releases r) (snd c)"

text \<open>A version is stored under its own project and identifier.\<close>

definition version_ok :: "MemoryReleaseRepository \<Rightarrow> string \<Rightarrow> Version \<Rightarrow> bool" where
  "version_ok r key v \<longleftrightarrow>
     key = versionKey (ver_ProjectID v) (ver_ID v) \<and> repo_projectID r (ver_ProjectID v) = ver_ProjectID v"

definition versions_ok :: "MemoryReleaseRepository \<Rightarrow> bool" where
  "versions_ok r \<longleftrightarrow> (\<forall>key v. map_of (rr_versions r) key = Some v \<longrightarrow> version_ok r key v)"

definition release_inv :: "release_system \<Rightarrow> bool" where
  "release_inv s \<longleftrightarrow>
     log_explains (sys_repo s) \<and> versions_ok (sys_repo s) \<and> promotions_ordered (sys_repo s) \<and>
     (\<forall>c \<in> set (sys_pending s). pending_ok (sys_repo s) c)"

text \<open>
  What a step does to the repository: the default project stays, environments are only added
  fresh or bound (\<open>grows\<close>), or one release is committed.
\<close>

definition same_but_bound :: "Environment \<Rightarrow> Environment \<Rightarrow> bool" where
  "same_but_bound e e' \<longleftrightarrow> (\<exists>b. e' = e\<lparr>env_Bound := b\<rparr>)"

definition grows :: "MemoryReleaseRepository \<Rightarrow> MemoryReleaseRepository \<Rightarrow> bool" where
  "grows r r' \<longleftrightarrow>
     rr_default r' = rr_default r \<and> rr_releases r' = rr_releases r \<and>
     (\<forall>key e'. map_of (rr_envs r') key = Some e' \<longrightarrow>
        (\<exists>e. map_of (rr_envs r) key = Some e \<and> same_but_bound e e') \<or>
        map_of (rr_envs r) key = None \<and>
          (\<exists>p k b. k \<in> set kinds \<and> repo_projectID r p = p \<and> key = environmentKey p k \<and>
             e' = (fresh_environment p k)\<lparr>env_Bound := b\<rparr>)) \<and>
     (\<forall>key e. map_of (rr_envs r) key = Some e \<longrightarrow> (\<exists>e'. map_of (rr_envs r') key = Some e')) \<and>
     (\<forall>key v. map_of (rr_versions r') key = Some v \<longrightarrow>
        map_of (rr_versions r) key = Some v \<or> version_ok r key v) \<and>
     (\<forall>key v. map_of (rr_versions r) key = Some v \<longrightarrow> map_of (rr_versions r') key = Some v)"

lemma same_but_bound_refl [simp]: "same_but_bound e e"
  by (auto simp: same_but_bound_def intro: exI [of _ "env_Bound e"])

lemma same_but_bound_sel:
  assumes "same_but_bound e e'"
  shows "env_ProjectID e' = env_ProjectID e" "env_Kind e' = env_Kind e"
    "env_ActiveVersionID e' = env_ActiveVersionID e" "env_Revision e' = env_Revision e"
  using assms by (auto simp: same_but_bound_def)

lemma grows_refl [simp]: "grows r r"
  by (auto simp: grows_def)

lemma grows_frame:
  assumes "grows r r'"
  shows "repo_projectID r' = repo_projectID r" "log_for r' = log_for r" "rr_releases r' = rr_releases r"
  using assms by (simp_all add: grows_def repo_projectID_def log_for_def fun_eq_iff)

lemma grows_cases:
  assumes "grows r r'" and "map_of (rr_envs r') key = Some e'"
  obtains e where "map_of (rr_envs r) key = Some e" and "same_but_bound e e'"
    | p k b where "map_of (rr_envs r) key = None" and "k \<in> set kinds" and "repo_projectID r p = p"
      and "key = environmentKey p k" and "e' = (fresh_environment p k)\<lparr>env_Bound := b\<rparr>"
  using assms unfolding grows_def by blast

lemma grows_log_explains:
  assumes "grows r r'" and "log_explains r"
  shows "log_explains r'"
proof -
  note frame = grows_frame [OF assms(1)]
  have "env_ok r' key e'" if e': "map_of (rr_envs r') key = Some e'" for key e'
  proof (rule grows_cases [OF assms(1) e'])
    fix e assume "map_of (rr_envs r) key = Some e" and eq: "same_but_bound e e'"
    with assms(2) have "env_ok r key e" by (simp add: log_explains_def)
    then show ?thesis by (simp add: env_ok_def frame same_but_bound_sel [OF eq])
  next
    fix p k b assume f: "map_of (rr_envs r) key = None" "k \<in> set kinds" "repo_projectID r p = p"
      "key = environmentKey p k" "e' = (fresh_environment p k)\<lparr>env_Bound := b\<rparr>"
    have "log_for r p k = []"
      using assms(2) f(1,4) by (auto simp: log_for_def filter_empty_conv log_explains_def)
    then show ?thesis using f by (simp add: env_ok_def frame fresh_environment_def active_of_def)
  qed
  moreover have "TrimSpace (rr_default r') = rr_default r'"
    using assms by (simp add: grows_def log_explains_def)
  ultimately show ?thesis
    using assms by (fastforce simp: log_explains_def frame grows_def)
qed

lemma grows_inv:
  assumes "grows (sys_repo s) r'" and "release_inv s"
  shows "release_inv (s\<lparr>sys_repo := r'\<rparr>)"
proof -
  note frame = grows_frame [OF assms(1)]
  have "promoted_from r' pre x = promoted_from (sys_repo s) pre x" for pre x
    by (simp add: promoted_from_def builds_on_def frame)
  moreover have "version_ok r' = version_ok (sys_repo s)"
    by (simp add: fun_eq_iff version_ok_def frame)
  then have "versions_ok r'"
    using assms unfolding release_inv_def versions_ok_def grows_def by metis
  moreover have "log_explains r'"
    using assms(2) grows_log_explains [OF assms(1)] by (simp add: release_inv_def)
  ultimately show ?thesis
    using assms by (fastforce simp: release_inv_def promotions_ordered_def pending_ok_def frame grows_def)
qed

lemma ensure_grows:
  assumes "TrimSpace (rr_default r) = rr_default r"
  shows "grows r (fst (ensureProjectLocked p r))"
proof -
  have "\<exists>p' k b. k \<in> set kinds \<and> repo_projectID r p' = p' \<and> key = environmentKey p' k \<and>
      fresh_environment (repo_projectID r p) k' = (fresh_environment p' k)\<lparr>env_Bound := b\<rparr>"
    if "find (\<lambda>k. key = environmentKey (repo_projectID r p) k) kinds = Some k'" for key k'
    using that projectID_idem [OF assms]
    by (intro exI [of _ "repo_projectID r p"] exI [of _ k'] exI [of _ True])
      (auto simp: find_Some_iff fresh_environment_def)
  then show ?thesis
    unfolding grows_def by (auto simp: ensure_envs split: option.splits)
qed


lemma ensure_idem [simp]:
  "fst (ensureProjectLocked p (fst (ensureProjectLocked p r))) = fst (ensureProjectLocked p r)"
proof -
  have same: "fold (ensure_kind q) ks m = m" if "\<forall>k \<in> set ks. map_of m (environmentKey q k) \<noteq> None" for q ks m
    using that by (induction ks) (auto simp: ensure_kind_def)
  have "map_of (rr_envs (fst (ensureProjectLocked p r))) (environmentKey (repo_projectID r p) k) \<noteq> None"
    if "k \<in> set kinds" for k
    using that find_None_iff [of "\<lambda>k'. environmentKey (repo_projectID r p) k = environmentKey (repo_projectID r p) k'" kinds]
    by (simp add: ensure_envs split: option.split) blast
  from same [OF ballI, OF this] show ?thesis
    by (simp add: ensureProjectLocked_def [of p "fst _"] Let_def)
qed

lemma ensure_Environment [simp]:
  "repo_Environment p k (fst (ensureProjectLocked p r)) = repo_Environment p k r"
  by (simp add: repo_Environment_eq)

section \<open>What a prepared call has checked\<close>

text \<open>The gate of a release: a version with a frozen pipeline and passing evidence for its content.\<close>

definition gate_passed :: "MemoryReleaseRepository \<Rightarrow> string \<Rightarrow> Version \<Rightarrow> EnvironmentKind \<Rightarrow> bool" where
  "gate_passed r p v kind \<longleftrightarrow>
     ver_ProjectID v = p \<and> ver_PipelineID v \<noteq> [] \<and> ver_Definition v \<noteq> [] \<and>
     evd_Passed (repo_Evidence p (ver_ID v) kind r) \<and>
     evd_ContentHash (repo_Evidence p (ver_ID v) kind r) = ver_ContentHash v"

text \<open>The environment \<open>e\<close> read by the call, bound and with the expected version active.\<close>

definition read_env :: "MemoryReleaseRepository \<Rightarrow> string \<Rightarrow> EnvironmentKind \<Rightarrow> Environment \<Rightarrow> bool" where
  "read_env r p k e \<longleftrightarrow> map_of (rr_envs r) (environmentKey (repo_projectID r p) k) = Some e"

lemma activate_prepare_ok:
  assumes "activate_prepare b now req r = (r1, Inr (e, x))"
  shows "r1 = fst (ensureProjectLocked (ac_ProjectID req) r)"
    and "\<exists>e0 v. read_env r1 (ac_ProjectID req) Development e0 \<and> env_Bound e0 \<and>
      env_ActiveVersionID e0 = ac_ExpectedActiveVersionID req \<and>
      repo_Version (ac_ProjectID req) (ac_TargetVersionID req) r1 = Inr v \<and>
      gate_passed r1 (ac_ProjectID req) v Development \<and> e = advance e0 v x \<and>
      x = \<lparr>rel_ID = id_New ''rel'' b, rel_ProjectID = ac_ProjectID req, rel_SourceVersionID = env_ActiveVersionID e0,
           rel_TargetVersionID = ver_ID v, rel_SourceEnvironment = Development, rel_TargetEnvironment = Development,
           rel_Action = ActionActivate, rel_Actor = ac_Actor req, rel_Reason = [], rel_CreatedAt = now\<rparr>"
  using assms
  by (auto simp: activate_prepare_def repo_Environment_eq Let_def gate_passed_def read_env_def
      split: if_splits option.splits sum.splits)

lemma promote_prepare_ok:
  assumes "promote_prepare b now req r = (r1, Inr (e, x))"
  shows "r1 = fst (ensureProjectLocked (pr_ProjectID req) r)"
    and "\<exists>src e0 v. validPromotion (pr_SourceEnvironment req) (pr_TargetEnvironment req) \<and>
      read_env r1 (pr_ProjectID req) (pr_SourceEnvironment req) src \<and>
      env_ActiveVersionID src = pr_TargetVersionID req \<and> pr_TargetVersionID req \<noteq> [] \<and>
      read_env r1 (pr_ProjectID req) (pr_TargetEnvironment req) e0 \<and> env_Bound e0 \<and>
      env_ActiveVersionID e0 = pr_ExpectedActiveVersionID req \<and>
      repo_Version (pr_ProjectID req) (pr_TargetVersionID req) r1 = Inr v \<and>
      gate_passed r1 (pr_ProjectID req) v (pr_TargetEnvironment req) \<and> e = advance e0 v x \<and>
      x = \<lparr>rel_ID = id_New ''rel'' b, rel_ProjectID = pr_ProjectID req, rel_SourceVersionID = env_ActiveVersionID src,
           rel_TargetVersionID = ver_ID v, rel_SourceEnvironment = pr_SourceEnvironment req,
           rel_TargetEnvironment = pr_TargetEnvironment req, rel_Action = ActionPromote, rel_Actor = pr_Actor req,
           rel_Reason = [], rel_CreatedAt = now\<rparr>"
  using assms
  by (auto simp: promote_prepare_def repo_Environment_eq Let_def gate_passed_def read_env_def
      split: if_splits option.splits sum.splits)

lemma rollback_prepare_ok:
  assumes "rollback_prepare b now req r = (r1, Inr (e, x))"
  shows "r1 = fst (ensureProjectLocked (rb_ProjectID req) r)"
    and "\<exists>e0 v. rb_Environment req \<in> set kinds \<and> read_env r1 (rb_ProjectID req) (rb_Environment req) e0 \<and> env_Bound e0 \<and>
      env_ActiveVersionID e0 = rb_ExpectedActiveVersionID req \<and> env_ActiveVersionID e0 \<noteq> rb_TargetVersionID req \<and>
      repo_Version (rb_ProjectID req) (rb_TargetVersionID req) r1 = Inr v \<and>
      repo_PreviouslyValidated (rb_ProjectID req) (ver_ID v) (rb_Environment req) r1 \<and> e = advance e0 v x \<and>
      x = \<lparr>rel_ID = id_New ''rel'' b, rel_ProjectID = rb_ProjectID req, rel_SourceVersionID = env_ActiveVersionID e0,
           rel_TargetVersionID = ver_ID v, rel_SourceEnvironment = rb_Environment req,
           rel_TargetEnvironment = rb_Environment req, rel_Action = ActionRollback, rel_Actor = rb_Actor req,
           rel_Reason = TrimSpace (rb_Reason req), rel_CreatedAt = now\<rparr>"
  using assms
  by (auto simp: rollback_prepare_def repo_Environment_eq Let_def read_env_def set_kinds
      split: if_splits option.splits sum.splits)

lemma activate_prepare_repo:
  "activate_prepare b now req r = (r1, res) \<Longrightarrow> r1 = r \<or> r1 = fst (ensureProjectLocked (ac_ProjectID req) r)"
  by (auto simp: activate_prepare_def repo_Environment_eq Let_def split: if_splits option.splits sum.splits)

lemma promote_prepare_repo:
  "promote_prepare b now req r = (r1, res) \<Longrightarrow> r1 = r \<or> r1 = fst (ensureProjectLocked (pr_ProjectID req) r)"
  by (auto simp: promote_prepare_def repo_Environment_eq Let_def split: if_splits option.splits sum.splits)

lemma rollback_prepare_repo:
  "rollback_prepare b now req r = (r1, res) \<Longrightarrow> r1 = r \<or> r1 = fst (ensureProjectLocked (rb_ProjectID req) r)"
  by (auto simp: rollback_prepare_def repo_Environment_eq Let_def split: if_splits option.splits sum.splits)


section \<open>Preservation\<close>

lemma read_env_ok:
  assumes "log_explains r" and "k \<in> set kinds" and "read_env r p k e"
  shows "env_ProjectID e = repo_projectID r p" and "env_Kind e = k"
    and "env_ActiveVersionID e = active_of (log_for r (repo_projectID r p) k)"
    and "env_Revision e = of_nat (length (log_for r (repo_projectID r p) k))"
proof -
  have ok: "env_ok r (environmentKey (repo_projectID r p) k) e"
    using assms by (simp add: log_explains_def read_env_def)
  then show "env_ProjectID e = repo_projectID r p" "env_Kind e = k"
    using assms(2) by (auto simp: env_ok_def environmentKey_inj)
  with ok show "env_ActiveVersionID e = active_of (log_for r (repo_projectID r p) k)"
    "env_Revision e = of_nat (length (log_for r (repo_projectID r p) k))"
    by (auto simp: env_ok_def)
qed

lemma advance_sel [simp]:
  "env_ProjectID (advance e v x) = env_ProjectID e" "env_Kind (advance e v x) = env_Kind e"
  "env_ActiveVersionID (advance e v x) = ver_ID v" "env_Revision (advance e v x) = env_Revision e + 1"
  by (simp_all add: advance_def)

lemma pending_ok_advance:
  assumes "log_explains r" and "rel_TargetEnvironment x \<in> set kinds"
    and "read_env r (rel_ProjectID x) (rel_TargetEnvironment x) e" and "rel_TargetVersionID x = ver_ID v"
    and "promoted_from r (rr_releases r) x"
  shows "pending_ok r (advance e v x, x)"
  using read_env_ok [OF assms(1-3)] assms by (simp add: pending_ok_def read_env_def)

lemma stored_version:
  assumes "versions_ok r" and "repo_Version p i r = Inr v" and "ver_ProjectID v = p"
  shows "ver_ID v = i"
proof -
  have "map_of (rr_versions r) (versionKey (repo_projectID r p) i) = Some v"
    using assms(2) by (simp add: repo_Version_def split: option.splits)
  with assms(1) have "version_ok r (versionKey (repo_projectID r p) i) v" by (simp add: versions_ok_def)
  with assms(3) show ?thesis by (auto simp: version_ok_def versionKey_def)
qed

lemma promoted_from_active:
  assumes "log_explains r" and "validPromotion (rel_SourceEnvironment x) (rel_TargetEnvironment x)"
    and "read_env r (rel_ProjectID x) (rel_SourceEnvironment x) src"
    and "env_ActiveVersionID src = rel_TargetVersionID x" and "rel_TargetVersionID x \<noteq> []"
  shows "promoted_from r (rr_releases r) x"
proof -
  let ?log = "log_for r (repo_projectID r (rel_ProjectID x)) (rel_SourceEnvironment x)"
  have "rel_SourceEnvironment x \<in> set kinds" using assms(2) by (auto simp: validPromotion_def set_kinds)
  from read_env_ok(3) [OF assms(1) this assms(3)] assms(4,5)
  have "?log \<noteq> []" "rel_TargetVersionID (last ?log) = rel_TargetVersionID x"
    by (auto simp: active_of_def split: if_splits)
  moreover have "last ?log \<in> set ?log" using \<open>?log \<noteq> []\<close> by simp
  ultimately have "last ?log \<in> set (rr_releases r)" "builds_on r x (last ?log)"
    by (auto simp: log_for_def builds_on_def)
  with assms(2) show ?thesis by (auto simp: promoted_from_def)
qed

lemma commit_cases:
  assumes "pending_ok r (e, x)" and "log_explains r" and "repo_Commit e x r = (r', res)"
  obtains "res = Inl ErrConflict" and "r' = r"
    | e0 where "res = Inr ()" and "map_of (rr_envs r) (environmentKey (env_ProjectID e) (env_Kind e)) = Some e0"
      and "env_Revision e = env_Revision e0 + 1"
      and "r' = r\<lparr>rr_envs := gput (environmentKey (env_ProjectID e) (env_Kind e)) e (rr_envs r),
                  rr_releases := rr_releases r @ [x]\<rparr>"
proof -
  have p: "repo_projectID r (env_ProjectID e) = env_ProjectID e"
    using assms(1,2) by (simp add: pending_ok_def log_explains_def projectID_idem)
  then have e: "e\<lparr>env_ProjectID := repo_projectID r (env_ProjectID e)\<rparr> = e" by simp
  obtain e0 where "map_of (rr_envs r) (environmentKey (env_ProjectID e) (env_Kind e)) = Some e0"
    using assms(1) by (auto simp: pending_ok_def)
  with assms(3) that show thesis
    by (auto simp: repo_Commit_def e Let_def gget0_def split: if_splits)
qed

lemma commit_log_for:
  "log_for (r\<lparr>rr_envs := m, rr_releases := rr_releases r @ [x]\<rparr>) p k =
     log_for r p k @ (if repo_projectID r (rel_ProjectID x) = p \<and> rel_TargetEnvironment x = k then [x] else [])"
  by (simp add: log_for_def repo_projectID_def)

lemma commit_inv:
  assumes "release_inv s" and "pending_ok (sys_repo s) (e, x)"
  shows "release_inv (s\<lparr>sys_repo := fst (repo_Commit e x (sys_repo s))\<rparr>)"
proof -
  let ?r = "sys_repo s"
  obtain r' res where c: "repo_Commit e x ?r = (r', res)" by fastforce
  have le: "log_explains ?r" using assms(1) by (simp add: release_inv_def)
  show ?thesis
  proof (rule commit_cases [OF assms(2) le c])
    assume "r' = ?r"
    with assms(1) c show ?thesis by (simp add: release_inv_def)
  next
    fix e0 let ?key = "environmentKey (env_ProjectID e) (env_Kind e)"
    assume e0: "map_of (rr_envs ?r) ?key = Some e0" "env_Revision e = env_Revision e0 + 1"
      and r': "r' = ?r\<lparr>rr_envs := gput ?key e (rr_envs ?r), rr_releases := rr_releases ?r @ [x]\<rparr>"
    have proj: "repo_projectID r' = repo_projectID ?r" by (simp add: r' repo_projectID_def fun_eq_iff)
    have x: "env_Kind e \<in> set kinds" "env_Kind e = rel_TargetEnvironment x"
      "env_ProjectID e = repo_projectID ?r (rel_ProjectID x)" "env_ActiveVersionID e = rel_TargetVersionID x"
      using assms(2) by (auto simp: pending_ok_def)
    have "env_ok ?r ?key e0" using le e0(1) by (simp add: log_explains_def)
    then have e0': "env_ProjectID e0 = env_ProjectID e" "env_Kind e0 = env_Kind e"
      "env_Revision e0 = of_nat (length (log_for ?r (env_ProjectID e) (env_Kind e)))"
      using x(1) by (auto simp: env_ok_def environmentKey_inj)
    note logs = commit_log_for [where r = ?r and x = x and m = "gput ?key e (rr_envs ?r)", folded r']
    have "env_ok r' key f" if f: "map_of (rr_envs r') key = Some f" for key f
    proof (cases "key = ?key")
      case True
      with f have "f = e" by (simp add: r' map_simps)
      with True x e0(2) e0' le show ?thesis
        by (simp add: env_ok_def proj logs active_of_def log_explains_def projectID_idem)
    next
      case False
      with f le have ok: "env_ok ?r key f" by (simp add: r' map_simps log_explains_def)
      with False x have "\<not> (repo_projectID ?r (rel_ProjectID x) = env_ProjectID f \<and> rel_TargetEnvironment x = env_Kind f)"
        by (auto simp: env_ok_def)
      with ok show ?thesis by (simp add: env_ok_def proj logs)
    qed
    moreover have "TrimSpace (rr_default r') = rr_default r'" using le by (simp add: r' log_explains_def)
    moreover have "map_of (rr_envs r') (environmentKey (repo_projectID r' (rel_ProjectID y)) (rel_TargetEnvironment y)) \<noteq> None"
      if "y \<in> set (rr_releases r')" for y
      using that le x unfolding proj by (auto simp: r' map_simps log_explains_def)
    ultimately have "log_explains r'" by (simp add: log_explains_def)
    moreover have "versions_ok r'" using assms(1)
      by (simp add: release_inv_def versions_ok_def version_ok_def proj) (simp add: r')
    moreover have pf: "promoted_from r' pre y = promoted_from ?r pre y" for pre y
      by (simp add: promoted_from_def builds_on_def proj)
    have "promotions_ordered r'"
      unfolding promotions_ordered_def pf
    proof (intro allI impI)
      fix pre y post assume "rr_releases r' = pre @ y # post"
      then show "promoted_from ?r pre y"
        using assms by (cases post rule: rev_cases)
          (auto simp: r' release_inv_def promotions_ordered_def pending_ok_def)
    qed
    moreover have "pending_ok r' c" if "c \<in> set (sys_pending s)" for c
    proof -
      have "promoted_from ?r (rr_releases ?r) (snd c) \<Longrightarrow> promoted_from ?r (rr_releases r') (snd c)"
        by (auto simp: promoted_from_def r')
      moreover have "pending_ok ?r c" using that assms(1) by (simp add: release_inv_def)
      ultimately show ?thesis unfolding pending_ok_def pf proj by (auto simp: r' map_simps)
    qed
    ultimately show ?thesis using c by (simp add: release_inv_def)
  qed
qed


lemma prepared_inv:
  assumes "release_inv s" and "grows (sys_repo s) (fst c)"
    and "\<And>e x. snd c = Inr (e, x) \<Longrightarrow> log_explains (fst c) \<Longrightarrow> versions_ok (fst c) \<Longrightarrow> pending_ok (fst c) (e, x)"
  shows "release_inv (prepared c s)"
proof -
  obtain r1 res where c: "c = (r1, res)" by fastforce
  have inv: "release_inv (s\<lparr>sys_repo := r1\<rparr>)" using grows_inv [OF assms(2,1)] c by simp
  then show ?thesis
    using assms(3) c by (cases res) (auto simp: prepared_def release_inv_def)
qed

lemma release_inv_default: "release_inv s \<Longrightarrow> TrimSpace (rr_default (sys_repo s)) = rr_default (sys_repo s)"
  by (simp add: release_inv_def log_explains_def)

lemma activate_inv:
  assumes "release_inv s"
  shows "release_inv (prepared (activate_prepare b now req (sys_repo s)) s)"
proof (rule prepared_inv [OF assms])
  let ?c = "activate_prepare b now req (sys_repo s)"
  show "grows (sys_repo s) (fst ?c)"
    using activate_prepare_repo [of b now req "sys_repo s"] ensure_grows [OF release_inv_default [OF assms]]
    by (metis grows_refl prod.collapse)
  fix e x assume c: "snd ?c = Inr (e, x)" and ok: "log_explains (fst ?c)" "versions_ok (fst ?c)"
  from c have "?c = (fst ?c, Inr (e, x))" by (metis prod.collapse)
  from activate_prepare_ok(2) [OF this] ok show "pending_ok (fst ?c) (e, x)"
    by (auto intro!: pending_ok_advance simp: set_kinds promoted_from_def)
qed

lemma promote_inv:
  assumes "release_inv s"
  shows "release_inv (prepared (promote_prepare b now req (sys_repo s)) s)"
proof (rule prepared_inv [OF assms])
  let ?c = "promote_prepare b now req (sys_repo s)"
  show "grows (sys_repo s) (fst ?c)"
    using promote_prepare_repo [of b now req "sys_repo s"] ensure_grows [OF release_inv_default [OF assms]]
    by (metis grows_refl prod.collapse)
  fix e x assume c: "snd ?c = Inr (e, x)" and ok: "log_explains (fst ?c)" "versions_ok (fst ?c)"
  from c have "?c = (fst ?c, Inr (e, x))" by (metis prod.collapse)
  from promote_prepare_ok(2) [OF this]
  obtain src e0 v where p: "validPromotion (rel_SourceEnvironment x) (rel_TargetEnvironment x)"
    "read_env (fst ?c) (rel_ProjectID x) (rel_SourceEnvironment x) src"
    "env_ActiveVersionID src = pr_TargetVersionID req" "pr_TargetVersionID req \<noteq> []"
    "read_env (fst ?c) (rel_ProjectID x) (rel_TargetEnvironment x) e0" "e = advance e0 v x"
    "rel_TargetVersionID x = ver_ID v"
    "repo_Version (rel_ProjectID x) (pr_TargetVersionID req) (fst ?c) = Inr v" "ver_ProjectID v = rel_ProjectID x"
    by (auto simp: gate_passed_def)
  have "ver_ID v = pr_TargetVersionID req" by (rule stored_version [OF ok(2) p(8,9)])
  with p ok(1) show "pending_ok (fst ?c) (e, x)"
    by (auto intro!: pending_ok_advance promoted_from_active simp: set_kinds validPromotion_def)
qed

lemma rollback_inv:
  assumes "release_inv s"
  shows "release_inv (prepared (rollback_prepare b now req (sys_repo s)) s)"
proof (rule prepared_inv [OF assms])
  let ?c = "rollback_prepare b now req (sys_repo s)"
  show "grows (sys_repo s) (fst ?c)"
    using rollback_prepare_repo [of b now req "sys_repo s"] ensure_grows [OF release_inv_default [OF assms]]
    by (metis grows_refl prod.collapse)
  fix e x assume c: "snd ?c = Inr (e, x)" and ok: "log_explains (fst ?c)" "versions_ok (fst ?c)"
  from c have "?c = (fst ?c, Inr (e, x))" by (metis prod.collapse)
  from rollback_prepare_ok(2) [OF this] ok show "pending_ok (fst ?c) (e, x)"
    by (auto intro!: pending_ok_advance simp: promoted_from_def)
qed

lemma same_but_bound_trans: "same_but_bound e e' \<Longrightarrow> same_but_bound e' e'' \<Longrightarrow> same_but_bound e e''"
  by (auto simp: same_but_bound_def)

lemma grows_trans:
  assumes "grows r r'" and "grows r' r''"
  shows "grows r r''"
proof -
  note frame = grows_frame [OF assms(1)] grows_frame [OF assms(2)]
  have v: "version_ok r' = version_ok r" by (simp add: fun_eq_iff version_ok_def frame)
  have "(\<exists>e. map_of (rr_envs r) key = Some e \<and> same_but_bound e e'') \<or>
      map_of (rr_envs r) key = None \<and> (\<exists>p k b. k \<in> set kinds \<and> repo_projectID r p = p \<and> key = environmentKey p k \<and>
             e'' = (fresh_environment p k)\<lparr>env_Bound := b\<rparr>)"
    if e'': "map_of (rr_envs r'') key = Some e''" for key e''
  proof (rule grows_cases [OF assms(2) e''])
    fix e' assume e': "map_of (rr_envs r') key = Some e'" and eq: "same_but_bound e' e''"
    show ?thesis
    proof (rule grows_cases [OF assms(1) e'])
      fix e assume "map_of (rr_envs r) key = Some e" and "same_but_bound e e'"
      with same_but_bound_trans [OF _ eq] show ?thesis by blast
    next
      fix p k b assume f: "map_of (rr_envs r) key = None" "k \<in> set kinds" "repo_projectID r p = p"
        "key = environmentKey p k" "e' = (fresh_environment p k)\<lparr>env_Bound := b\<rparr>"
      from eq f(5) obtain b' where "e'' = (fresh_environment p k)\<lparr>env_Bound := b'\<rparr>"
        by (auto simp: same_but_bound_def)
      with f show ?thesis by blast
    qed
  next
    fix p k b assume f: "map_of (rr_envs r') key = None" "k \<in> set kinds" "repo_projectID r' p = p"
      "key = environmentKey p k" "e'' = (fresh_environment p k)\<lparr>env_Bound := b\<rparr>"
    from f(1) assms(1) have "map_of (rr_envs r) key = None"
      by (cases "map_of (rr_envs r) key") (auto simp: grows_def)
    with f frame show ?thesis by auto
  qed
  moreover have "map_of (rr_versions r) key = Some v \<or> version_ok r key v"
    if "map_of (rr_versions r'') key = Some v" for key v
    using that assms unfolding grows_def v by blast
  ultimately show ?thesis using assms by (simp add: grows_def)
qed

lemma same_but_bound_bind: "same_but_bound e (e\<lparr>env_Bound := b\<rparr>)"
  by (auto simp: same_but_bound_def)

lemma bind_grows:
  "map_of (rr_envs r) key = Some e \<Longrightarrow>
     grows r (r\<lparr>rr_envs := gput key (e\<lparr>env_Bound := True\<rparr>) (rr_envs r)\<rparr>)"
  by (auto simp: grows_def map_simps same_but_bound_bind)

lemma Bind_grows:
  assumes "TrimSpace (rr_default r) = rr_default r"
  shows "grows r (fst (Service_Bind p k ref r))"
proof -
  let ?r = "fst (ensureProjectLocked (TrimSpace p) r)"
  have g: "grows r ?r" by (rule ensure_grows [OF assms])
  have b: "grows r (fst (repo_Bind (TrimSpace p) k r))"
    using g grows_trans [OF g bind_grows] by (auto simp: repo_Bind_def case_prod_unfold split: option.split)
  have "TrimSpace (rr_default (fst (repo_Bind (TrimSpace p) k r))) = rr_default (fst (repo_Bind (TrimSpace p) k r))"
    using b assms by (simp add: grows_def)
  from ensure_grows [OF this] grows_trans [OF b] b show ?thesis
    by (auto simp: Service_Bind_def Let_def repo_Environment_eq case_prod_unfold split: sum.split)
qed

lemma CreateVersion_grows:
  assumes "TrimSpace (rr_default r) = rr_default r"
  shows "grows r (fst (Service_CreateVersion now v r))"
  using projectID_idem [OF assms]
  by (auto simp: Service_CreateVersion_def repo_CreateVersion_def Let_def grows_def map_simps version_ok_def)

lemma Validate_grows: "grows r (fst (Service_Validate p v e r))"
  by (auto simp: Service_Validate_def repo_SaveEvidence_def Let_def grows_def split: sum.split)

lemma release_step_inv: "release_inv s \<Longrightarrow> release_inv (release_step a s)"
proof (cases a)
  case (CommitPending i)
  assume inv: "release_inv s"
  show ?thesis
  proof (cases "i < length (sys_pending s)")
    case True
    let ?c = "sys_pending s ! i"
    have "pending_ok (sys_repo s) (fst ?c, snd ?c)" using True inv by (simp add: release_inv_def)
    from commit_inv [OF inv this]
    have "release_inv (s\<lparr>sys_repo := fst (repo_Commit (fst ?c) (snd ?c) (sys_repo s))\<rparr>)" .
    then show ?thesis
      using True by (auto simp: CommitPending release_inv_def dest: in_set_takeD in_set_dropD)
  qed (simp add: CommitPending inv)
qed (auto intro!: activate_inv promote_inv rollback_inv grows_inv Bind_grows CreateVersion_grows Validate_grows
    ensure_grows release_inv_default simp: repo_Environments_def case_prod_unfold)

lemma release_init_inv: "release_inv (release_init p)"
proof -
  let ?r = "\<lparr>rr_default = TrimSpace p, rr_envs = [], rr_versions = [], rr_evidence = [], rr_validated = [], rr_releases = []\<rparr>"
  have "release_inv \<lparr>sys_repo = ?r, sys_pending = []\<rparr>"
    by (simp add: release_inv_def log_explains_def versions_ok_def promotions_ordered_def TrimSpace_idem)
  from grows_inv [OF _ this, of "fst (ensureProjectLocked (TrimSpace p) ?r)"] ensure_grows [of ?r]
  show ?thesis by (simp add: release_init_def NewMemoryReleaseRepository_def Let_def TrimSpace_idem)
qed

lemma release_reachable_inv: "release_reachable s \<Longrightarrow> release_inv s"
  by (induction rule: release_reachable.induct) (auto intro: release_init_inv release_step_inv)


lemma prepared_facts:
  assumes "release_inv (prepared (r1, Inr c) s)"
  shows "log_explains r1" and "versions_ok r1" and "pending_ok r1 c"
  using assms by (auto simp: prepared_def release_inv_def)

section \<open>Theorems\<close>

text \<open>
  C12 (invariant). The release log explains the environments: in every state reachable by any
  interleaving of calls, the version active in an environment is the target of the last release
  recorded for it (none, when there is no release), and its revision counts those releases.
\<close>

theorem release_log_replay:
  assumes "release_reachable s" and "k \<in> set kinds"
    and "map_of (rr_envs (sys_repo s)) (environmentKey (repo_projectID (sys_repo s) p) k) = Some e"
  shows "env_ActiveVersionID e = active_of (log_for (sys_repo s) (repo_projectID (sys_repo s) p) k) \<and>
    env_Revision e = of_nat (length (log_for (sys_repo s) (repo_projectID (sys_repo s) p) k))"
proof -
  have "log_explains (sys_repo s)" using release_reachable_inv [OF assms(1)] by (simp add: release_inv_def)
  from read_env_ok(3,4) [OF this assms(2), of p e] assms(3) show ?thesis by (simp add: read_env_def)
qed

text \<open>
  C13 (safety). Promotions follow the life cycle: whatever the interleaving of calls, every promotion
  in the log goes from development to staging or from staging to production, and before it the log
  holds a release that made the same version active in the source environment of the same project.
\<close>

theorem promotions_follow_order:
  assumes "release_reachable s" and "rr_releases (sys_repo s) = pre @ x # post" and "rel_Action x = ActionPromote"
  shows "validPromotion (rel_SourceEnvironment x) (rel_TargetEnvironment x) \<and> (\<exists>y \<in> set pre. builds_on (sys_repo s) x y)"
  using release_reachable_inv [OF assms(1)] assms(2,3)
  by (auto simp: release_inv_def promotions_ordered_def promoted_from_def)

text \<open>
  What a successful \<^verbatim>\<open>Promote\<close> has checked and done: the step is one of the two
  allowed, the version is active in the source environment, it has a frozen pipeline, the target
  environment had the expected version, and the stored evidence for the target environment passed
  on exactly the content of the version. The release is appended to the log, the target environment
  is on the version at its next revision, and no other environment is changed.
\<close>

lemma promote_gate:
  assumes "release_reachable s" and "Promote b now req (sys_repo s) = (r', Inr x)"
    and "p = repo_projectID (sys_repo s) (pr_ProjectID req)"
  shows "validPromotion (pr_SourceEnvironment req) (pr_TargetEnvironment req) \<and>
    active_of (log_for (sys_repo s) p (pr_SourceEnvironment req)) = pr_TargetVersionID req \<and>
    active_of (log_for (sys_repo s) p (pr_TargetEnvironment req)) = pr_ExpectedActiveVersionID req \<and>
    (\<exists>v. repo_Version (pr_ProjectID req) (pr_TargetVersionID req) (sys_repo s) = Inr v \<and>
       gate_passed (sys_repo s) (pr_ProjectID req) v (pr_TargetEnvironment req)) \<and>
    rr_releases r' = rr_releases (sys_repo s) @ [x] \<and>
    active_of (log_for r' p (pr_TargetEnvironment req)) = pr_TargetVersionID req \<and>
    (\<forall>key e. key \<noteq> environmentKey p (pr_TargetEnvironment req) \<longrightarrow>
       map_of (rr_envs (sys_repo s)) key = Some e \<longrightarrow> map_of (rr_envs r') key = Some e)"
proof -
  note inv = release_reachable_inv [OF assms(1)]
  obtain r1 e where prep: "promote_prepare b now req (sys_repo s) = (r1, Inr (e, x))" and c: "repo_Commit e x r1 = (r', Inr ())"
    using assms(2) by (auto simp: Promote_def commit_prepared_def split: prod.splits sum.splits)
  note ok = prepared_facts [OF promote_inv [OF inv, of b now req, unfolded prep]]
  have r1: "r1 = fst (ensureProjectLocked (pr_ProjectID req) (sys_repo s))" by (rule promote_prepare_ok(1) [OF prep])
  note frame = grows_frame [OF ensure_grows [OF release_inv_default [OF inv], of "pr_ProjectID req"], folded r1]
  obtain src e0 v where p: "validPromotion (pr_SourceEnvironment req) (pr_TargetEnvironment req)"
    "read_env r1 (pr_ProjectID req) (pr_SourceEnvironment req) src" "env_ActiveVersionID src = pr_TargetVersionID req"
    "read_env r1 (pr_ProjectID req) (pr_TargetEnvironment req) e0"
    "env_ActiveVersionID e0 = pr_ExpectedActiveVersionID req"
    "repo_Version (pr_ProjectID req) (pr_TargetVersionID req) r1 = Inr v"
    "gate_passed r1 (pr_ProjectID req) v (pr_TargetEnvironment req)" "e = advance e0 v x"
    "rel_TargetVersionID x = ver_ID v" "rel_ProjectID x = pr_ProjectID req" "rel_TargetEnvironment x = pr_TargetEnvironment req"
    using promote_prepare_ok(2) [OF prep] by auto
  have k: "pr_SourceEnvironment req \<in> set kinds" "pr_TargetEnvironment req \<in> set kinds"
    using p(1) by (auto simp: validPromotion_def set_kinds)
  note src = read_env_ok [OF ok(1) k(1) p(2)] and tgt = read_env_ok [OF ok(1) k(2) p(4)]
  have v: "ver_ID v = pr_TargetVersionID req"
    using stored_version [OF ok(2) p(6)] p(7) by (simp add: gate_passed_def)
  have eq: "repo_Version a i r1 = repo_Version a i (sys_repo s)" "gate_passed r1 = gate_passed (sys_repo s)" for a i
    by (simp_all add: r1 repo_Version_def gate_passed_def repo_Evidence_def fun_eq_iff)
  have r': "r' = r1\<lparr>rr_envs := gput (environmentKey (env_ProjectID e) (env_Kind e)) e (rr_envs r1), rr_releases := rr_releases r1 @ [x]\<rparr>"
    by (rule commit_cases [OF ok(3,1) c]) simp_all
  have "active_of (log_for r' p (pr_TargetEnvironment req)) = pr_TargetVersionID req"
    unfolding r' commit_log_for by (simp add: active_of_def p(9-11) frame v assms(3))
  moreover have "map_of (rr_envs r') key = Some f"
    if "key \<noteq> environmentKey p (pr_TargetEnvironment req)" "map_of (rr_envs (sys_repo s)) key = Some f" for key f
    using that tgt(1,2) by (simp add: r' map_simps p(8) frame assms(3)) (simp add: r1 ensure_envs)
  ultimately show ?thesis
    using p src(3) tgt(3) by (simp add: frame assms(3) eq) (simp add: r' frame)
qed

text \<open>
  A release call that fails leaves no trace: the log, the versions, the evidence and
  every environment that existed are as before, whichever check failed and also when the commit
  found another revision.
\<close>

lemma failed_release_is_inert:
  assumes "ActivateDevelopment b now acq r = (r', Inl err) \<or> Promote b now req r = (r', Inl err) \<or>
    Rollback b now rbq r = (r', Inl err)"
  shows "rr_releases r' = rr_releases r \<and> rr_versions r' = rr_versions r \<and> rr_evidence r' = rr_evidence r \<and>
    rr_validated r' = rr_validated r \<and>
    (\<forall>key e. map_of (rr_envs r) key = Some e \<longrightarrow> map_of (rr_envs r') key = Some e)"
proof -
  have "\<exists>p. r' = r \<or> r' = fst (ensureProjectLocked p r)"
    if "commit_prepared c = (r', Inl err)" "\<And>r1 res. c = (r1, res) \<Longrightarrow> r1 = r \<or> r1 = fst (ensureProjectLocked p r)" for c p
    using that by (auto simp: commit_prepared_def repo_Commit_def Let_def split: prod.splits sum.splits if_splits)
  with assms activate_prepare_repo promote_prepare_repo rollback_prepare_repo
  obtain p where "r' = r \<or> r' = fst (ensureProjectLocked p r)"
    unfolding ActivateDevelopment_def Promote_def Rollback_def by meson
  then show ?thesis by (auto simp: ensure_envs)
qed


text \<open>A call whose checks have just passed carries the revision that the log then had.\<close>

lemma candidate_revision:
  assumes "release_inv s" and "sys_pending (release_step a s) = sys_pending s @ [(e, x)]"
  shows "env_Revision e = of_nat (length (log_for (sys_repo s) (env_ProjectID e) (env_Kind e))) + 1"
proof -
  have rev: "env_Revision (advance e0 v x) = of_nat (length (log_for (sys_repo s) (env_ProjectID (advance e0 v x))
      (env_Kind (advance e0 v x)))) + 1"
    if "grows (sys_repo s) r1" "log_explains r1" "read_env r1 q k e0" "k \<in> set kinds" for r1 q k e0 v x
    using read_env_ok [OF that(2,4,3)] grows_frame [OF that(1)] by simp
  note eg = ensure_grows [OF release_inv_default [OF assms(1)]]
  show ?thesis
  proof (cases a)
    case (PrepareActivate b now req)
    then obtain r1 where c: "activate_prepare b now req (sys_repo s) = (r1, Inr (e, x))"
      using assms(2) by (auto simp: prepared_def split: prod.splits sum.splits)
    note ok = prepared_facts [OF activate_inv [OF assms(1), of b now req, unfolded c]]
    from activate_prepare_ok [OF c] eg rev [OF _ ok(1)] show ?thesis by (auto simp: set_kinds)
  next
    case (PreparePromote b now req)
    then obtain r1 where c: "promote_prepare b now req (sys_repo s) = (r1, Inr (e, x))"
      using assms(2) by (auto simp: prepared_def split: prod.splits sum.splits)
    note ok = prepared_facts [OF promote_inv [OF assms(1), of b now req, unfolded c]]
    from promote_prepare_ok [OF c] eg rev [OF _ ok(1)] show ?thesis by (auto simp: set_kinds validPromotion_def)
  next
    case (PrepareRollback b now req)
    then obtain r1 where c: "rollback_prepare b now req (sys_repo s) = (r1, Inr (e, x))"
      using assms(2) by (auto simp: prepared_def split: prod.splits sum.splits)
    note ok = prepared_facts [OF rollback_inv [OF assms(1), of b now req, unfolded c]]
    from rollback_prepare_ok [OF c] eg rev [OF _ ok(1)] show ?thesis by auto
  next
    case (CommitPending i)
    with assms(2) show ?thesis by (auto dest!: arg_cong [of _ _ length] split: if_splits)
  qed (use assms(2) in auto)
qed

lemma release_step_log:
  assumes "release_inv s"
  shows "repo_projectID (sys_repo (release_step a s)) = repo_projectID (sys_repo s) \<and>
    (\<exists>new. rr_releases (sys_repo (release_step a s)) = rr_releases (sys_repo s) @ new)"
proof (cases "\<exists>i. a = CommitPending i")
  case True
  then show ?thesis
    by (auto simp: repo_Commit_def Let_def repo_projectID_def fun_eq_iff split: if_splits)
next
  case False
  note d = release_inv_default [OF assms]
  have prep: "grows (sys_repo s) (sys_repo (prepared c s))"
    if "\<And>r1 res. c = (r1, res) \<Longrightarrow> r1 = sys_repo s \<or> r1 = fst (ensureProjectLocked p (sys_repo s))" for c p
    using that ensure_grows [OF d, of p] by (cases c; cases "snd c") (auto simp: prepared_def)
  from False have "grows (sys_repo s) (sys_repo (release_step a s))"
    by (cases a)
      (auto intro: prep [OF activate_prepare_repo] prep [OF promote_prepare_repo] prep [OF rollback_prepare_repo]
        Bind_grows [OF d] CreateVersion_grows [OF d] Validate_grows ensure_grows [OF d] simp: repo_Environments_def case_prod_unfold)
  from grows_frame [OF this] show ?thesis by simp
qed

lemma release_run_log:
  assumes "release_inv s"
  shows "\<exists>new. log_for (sys_repo (release_run as s)) p k = log_for (sys_repo s) p k @ new"
  using assms
proof (induction as arbitrary: s)
  case (Cons a as)
  obtain new where "log_for (sys_repo (release_step a s)) p k = log_for (sys_repo s) p k @ new"
    using release_step_log [OF Cons.prems, of a] by (auto simp: log_for_def)
  with Cons.IH [OF release_step_inv [OF Cons.prems], of a] show ?case by auto
qed simp

text \<open>
  No release overwrites another unseen: a call that has passed its checks and is still
  pending commits exactly when no other release of its environment was recorded since it read the
  environment; otherwise its commit is refused as a conflict and changes nothing. This holds for any
  interleaving with fewer than a full circle of the 64-bit revision.
\<close>

lemma commit_is_optimistic:
  assumes "release_reachable s" and "sys_pending (release_step a s) = sys_pending s @ [(e, x)]"
    and "s' = release_run as (release_step a s)" and "(e, x) \<in> set (sys_pending s')"
    and "n = length (log_for (sys_repo s') (env_ProjectID e) (env_Kind e)) -
             length (log_for (sys_repo s) (env_ProjectID e) (env_Kind e))"
    and "n < 2 ^ 64"
  shows "if n = 0 then snd (repo_Commit e x (sys_repo s')) = Inr ()
    else repo_Commit e x (sys_repo s') = (sys_repo s', Inl ErrConflict)"
proof -
  note inv = release_reachable_inv [OF assms(1)]
  have inv': "release_inv s'"
    unfolding assms(3) by (rule release_reachable_inv [OF release_run_reachable [OF release_reachable.step [OF assms(1)]]])
  let ?log = "\<lambda>s. log_for (sys_repo s) (env_ProjectID e) (env_Kind e)"
  obtain new where "?log s' = ?log s @ new"
    using release_run_log [OF inv, of "a # as"] by (auto simp: assms(3))
  then have len: "length (?log s') = length (?log s) + n" by (simp add: assms(5))
  have le: "log_explains (sys_repo s')" and ok: "pending_ok (sys_repo s') (e, x)"
    using inv' assms(4) by (auto simp: release_inv_def)
  obtain e0 where e0: "map_of (rr_envs (sys_repo s')) (environmentKey (env_ProjectID e) (env_Kind e)) = Some e0"
    using ok by (auto simp: pending_ok_def)
  have "env_ok (sys_repo s') (environmentKey (env_ProjectID e) (env_Kind e)) e0"
    using le e0 by (simp add: log_explains_def)
  then have "env_Revision e0 = of_nat (length (?log s'))"
    using ok by (auto simp: env_ok_def environmentKey_inj pending_ok_def)
  moreover have "env_Revision e - 1 = of_nat (length (?log s))"
    using candidate_revision [OF inv assms(2)] by simp
  ultimately have "env_Revision e0 = env_Revision e - 1 \<longleftrightarrow> (of_nat n :: int64) = 0" by (simp add: len)
  moreover have "repo_projectID (sys_repo s') (env_ProjectID e) = env_ProjectID e"
    using ok le by (simp add: pending_ok_def log_explains_def projectID_idem)
  ultimately show ?thesis
    using of_nat_int64_neq_0 [of n] assms(6) e0 by (auto simp: repo_Commit_def Let_def gget0_def)
qed


section \<open>A release history\<close>

definition pipeline_v1 :: Version where
  "pipeline_v1 = \<lparr>ver_ID = ''v1'', ver_ProjectID = ''shop'', ver_PipelineID = ''pipe'', ver_ContentHash = ''h1'',
     ver_Definition = ''{}'', ver_CreatedAt = 1\<rparr>"

definition passed_for :: "EnvironmentKind \<Rightarrow> Evidence" where
  "passed_for kind = zero_evidence\<lparr>evd_EnvironmentID := kind, evd_Passed := True, evd_ContentHash := ''h1''\<rparr>"

definition to_staging :: PromoteRequest where
  "to_staging = \<lparr>pr_ProjectID = ''shop'', pr_SourceEnvironment = Development, pr_TargetEnvironment = Staging,
     pr_TargetVersionID = ''v1'', pr_ExpectedActiveVersionID = [], pr_Actor = ''ann''\<rparr>"

definition active_in_development :: release_system where
  "active_in_development = release_run
     [CallCreateVersion 1 pipeline_v1, CallValidate ''shop'' ''v1'' (passed_for Development),
      PrepareActivate None 2 \<lparr>ac_ProjectID = ''shop'', ac_TargetVersionID = ''v1'', ac_ExpectedActiveVersionID = [], ac_Actor = ''ann''\<rparr>,
      CommitPending 0, CallValidate ''shop'' ''v1'' (passed_for Staging)] (release_init ''shop'')"

definition in_staging :: release_system where
  "in_staging = release_run [PreparePromote None 3 to_staging, CommitPending 0] active_in_development"

lemma history_reachable: "release_reachable active_in_development" "release_reachable in_staging"
  by (simp_all add: active_in_development_def in_staging_def release_run_reachable release_reachable.init
      del: release_run.simps)

theorem release_log_replay_witness:
  "\<exists>e. map_of (rr_envs (sys_repo in_staging)) (environmentKey ''shop'' Staging) = Some e \<and>
     env_ActiveVersionID e = ''v1'' \<and>
     env_ActiveVersionID e = active_of (log_for (sys_repo in_staging) ''shop'' Staging) \<and> env_Revision e = 1"
proof -
  have p: "repo_projectID (sys_repo in_staging) ''shop'' = ''shop''" by code_simp
  have l: "length (log_for (sys_repo in_staging) ''shop'' Staging) = 1"
    "active_of (log_for (sys_repo in_staging) ''shop'' Staging) = ''v1''" by code_simp+
  have "map_option env_Kind (map_of (rr_envs (sys_repo in_staging)) (environmentKey ''shop'' Staging)) = Some Staging" by code_simp
  then obtain e where e: "map_of (rr_envs (sys_repo in_staging)) (environmentKey ''shop'' Staging) = Some e" by auto
  from release_log_replay [OF history_reachable(2), of Staging "''shop''" e] e l show ?thesis by (simp add: p set_kinds)
qed

theorem promotions_follow_order_witness:
  "\<exists>pre x. rr_releases (sys_repo in_staging) = pre @ [x] \<and> rel_Action x = ActionPromote \<and>
     (\<exists>y \<in> set pre. builds_on (sys_repo in_staging) x y)"
proof -
  have "map rel_Action (rr_releases (sys_repo in_staging)) = [ActionActivate, ActionPromote]" by code_simp
  then obtain y x where rs: "rr_releases (sys_repo in_staging) = [y] @ x # []" and "rel_Action x = ActionPromote"
    by (auto simp: map_eq_Cons_conv)
  with promotions_follow_order [OF history_reachable(2) rs] show ?thesis by auto
qed

lemma promote_gate_witness:
  "\<exists>r' x. Promote None 3 to_staging (sys_repo active_in_development) = (r', Inr x) \<and>
     active_of (log_for r' ''shop'' Staging) = ''v1''"
proof -
  have p: "repo_projectID (sys_repo active_in_development) (pr_ProjectID to_staging) = ''shop''" by code_simp
  have "case snd (Promote None 3 to_staging (sys_repo active_in_development)) of Inr x \<Rightarrow> True | Inl _ \<Rightarrow> False" by code_simp
  then obtain r' x where c: "Promote None 3 to_staging (sys_repo active_in_development) = (r', Inr x)"
    by (cases "Promote None 3 to_staging (sys_repo active_in_development)") (auto split: sum.splits)
  from promote_gate [OF history_reachable(1) c refl] p c show ?thesis by (simp add: to_staging_def)
qed

lemma failed_release_is_inert_witness:
  "\<exists>r' err. Promote None 3 to_staging (sys_repo in_staging) = (r', Inl err) \<and>
     rr_releases r' = rr_releases (sys_repo in_staging)"
proof -
  have "case snd (Promote None 3 to_staging (sys_repo in_staging)) of Inr x \<Rightarrow> False | Inl _ \<Rightarrow> True" by code_simp
  then obtain r' err where c: "Promote None 3 to_staging (sys_repo in_staging) = (r', Inl err)"
    by (cases "Promote None 3 to_staging (sys_repo in_staging)") (auto split: sum.splits)
  from failed_release_is_inert [OF disjI2, OF disjI1, OF c] c show ?thesis by blast
qed

text \<open>Two callers promote at the same time; the one that commits second is refused.\<close>

definition raced :: release_system where
  "raced = release_run [PreparePromote None 4 to_staging, CommitPending 1]
     (release_step (PreparePromote None 3 to_staging) active_in_development)"

lemma commit_is_optimistic_witness:
  "\<exists>e x. (e, x) \<in> set (sys_pending raced) \<and> repo_Commit e x (sys_repo raced) = (sys_repo raced, Inl ErrConflict)"
proof -
  let ?s = active_in_development and ?a = "PreparePromote None 3 to_staging"
  have "sys_pending ?s = []" by code_simp
  moreover have "map (\<lambda>(e, x). (env_ProjectID e, env_Kind e)) (sys_pending (release_step ?a ?s)) = [(''shop'', Staging)]"
    by code_simp
  ultimately obtain e x where ex: "sys_pending (release_step ?a ?s) = sys_pending ?s @ [(e, x)]"
    "env_ProjectID e = ''shop''" "env_Kind e = Staging" by (auto simp del: release_step.simps)
  have "sys_pending raced = sys_pending (release_step ?a ?s)" by code_simp
  then have mem: "(e, x) \<in> set (sys_pending raced)" unfolding ex(1) by simp
  have "length (log_for (sys_repo raced) ''shop'' Staging) - length (log_for (sys_repo ?s) ''shop'' Staging) = 1"
    by code_simp
  with commit_is_optimistic [OF history_reachable(1) ex(1) raced_def mem refl] mem show ?thesis
    by (auto simp: ex(2,3))
qed

text \<open>
  \<^verbatim>\<open>Rollback\<close> is not bound to the order of promotions: it accepts any version whose latest
  evidence for the environment passed, and evidence for production can be recorded for a version that
  was never active anywhere. So a version reaches production without development and staging.
\<close>

lemma rollback_skips_promotion:
  "\<exists>as x. let s = release_run as (release_init ''shop'')
     in rr_releases (sys_repo s) = [x] \<and> rel_Action x = ActionRollback \<and> rel_TargetEnvironment x = Production \<and>
        active_of (log_for (sys_repo s) ''shop'' Production) = ''v1''"
proof -
  let ?as = "[CallCreateVersion 1 pipeline_v1, CallValidate ''shop'' ''v1'' (passed_for Production),
    PrepareRollback None 2 \<lparr>rb_ProjectID = ''shop'', rb_Environment = Production, rb_TargetVersionID = ''v1'',
      rb_ExpectedActiveVersionID = [], rb_Actor = ''ann'', rb_Reason = ''hotfix''\<rparr>, CommitPending 0]"
  let ?s = "release_run ?as (release_init ''shop'')"
  have "map (\<lambda>x. (rel_Action x, rel_TargetEnvironment x)) (rr_releases (sys_repo ?s)) = [(ActionRollback, Production)]"
    by code_simp
  then obtain x where "rr_releases (sys_repo ?s) = [x]" "rel_Action x = ActionRollback" "rel_TargetEnvironment x = Production"
    by auto
  moreover have "active_of (log_for (sys_repo ?s) ''shop'' Production) = ''v1''" by code_simp
  ultimately show ?thesis unfolding Let_def by blast
qed

end
