(* ===== verification/PipelineDef.thy ===== *)
theory PipelineDef
  imports Prelude
begin

text \<open>
  Pipeline definitions of \<^verbatim>\<open>internal/pipeline\<close>: the graph of nodes and edges (\<^verbatim>\<open>types.go\<close>), the registry
  of node types (\<^verbatim>\<open>registry.go\<close>), the validator (\<^verbatim>\<open>validate.go\<close>) with its breadth-first and
  depth-first searches, and the drafts with their optimistic revisions (\<^verbatim>\<open>service.go\<close>). The text of a
  validation message is left out; its code and its address in the graph are kept.
\<close>

section \<open>Data model\<close>

record PortDefinition =
  pd_Name :: string
  pd_Type :: string
  pd_Required :: bool
  pd_MaxConnections :: int

record NodeDefinition =
  nt_Type :: string
  nt_DisplayName :: string
  nt_Category :: string
  nt_Description :: string
  nt_SchemaVersion :: int
  nt_ConfigSchema :: string
  nt_DefaultConfig :: string
  nt_Inputs :: "PortDefinition list"
  nt_Outputs :: "PortDefinition list"
  nt_Singleton :: bool
  nt_Entry :: bool
  nt_ProducesAnswer :: bool
  nt_AllowsCycles :: bool
  nt_AllowedTargets :: "string list"

record Node =
  nd_ID :: string
  nd_Type :: string
  nd_SchemaVersion :: int
  nd_Config :: string

record Edge =
  ed_ID :: string
  ed_SourceNodeID :: string
  ed_SourcePort :: string
  ed_TargetNodeID :: string
  ed_TargetPort :: string

record Definition =
  def_Nodes :: "Node list"
  def_Edges :: "Edge list"

record ValidationError =
  ve_Code :: string
  ve_NodeID :: string
  ve_EdgeID :: string
  ve_Port :: string

definition validationError :: "string \<Rightarrow> string \<Rightarrow> string \<Rightarrow> string \<Rightarrow> ValidationError" where
  "validationError code nodeID edgeID port =
     \<lparr>ve_Code = code, ve_NodeID = nodeID, ve_EdgeID = edgeID, ve_Port = port\<rparr>"

section \<open>The registry\<close>

type_synonym Registry = "(string, NodeDefinition) gomap"

fun register_all :: "NodeDefinition list \<Rightarrow> Registry \<Rightarrow> Registry option" where
  "register_all [] m = Some m"
| "register_all (d # ds) m =
     (case map_of m (nt_Type d) of
        Some _ \<Rightarrow> None
      | None \<Rightarrow> register_all ds (gput (nt_Type d) d m))"

definition NewRegistry :: "NodeDefinition list \<Rightarrow> Registry option" where
  "NewRegistry ds = register_all ds []"

definition Registry_Lookup :: "Registry \<Rightarrow> string \<Rightarrow> NodeDefinition option" where
  "Registry_Lookup reg typeID = map_of reg typeID"

definition Registry_Definitions :: "Registry \<Rightarrow> NodeDefinition list" where
  "Registry_Definitions reg = sort_by (\<lambda>a b. nt_Type a < nt_Type b) (map snd reg)"

text \<open>The stages of the built-in registry: identifier, name, category, entry, answer, singleton.\<close>

definition builtin_stages :: "(string \<times> string \<times> string \<times> bool \<times> bool \<times> bool) list" where
  "builtin_stages =
     [(''init'', ''Query Input'', ''input'', True, False, True),
      (''query_route'', ''Query Route'', ''routing'', False, False, False),
      (''semantic_cache_lookup'', ''Semantic Cache Lookup'', ''cache'', False, False, False),
      (''query_rewrite'', ''Query Rewrite'', ''query'', False, False, False),
      (''multi_query'', ''Multi Query'', ''query'', False, False, False),
      (''hybrid_retrieve'', ''Hybrid Retrieve'', ''retrieval'', False, False, False),
      (''ark_rerank'', ''Ark Rerank'', ''retrieval'', False, False, False),
      (''context_pack'', ''Context Pack'', ''context'', False, False, False),
      (''prompt_prefix_cache'', ''Prompt Prefix Cache'', ''prompt'', False, False, False),
      (''ark_generate'', ''Ark Generate'', ''generation'', False, True, False),
      (''semantic_cache_write'', ''Semantic Cache Write'', ''cache'', False, False, False)]"

definition builtin_definition :: "nat \<Rightarrow> NodeDefinition" where
  "builtin_definition i =
     (case builtin_stages ! i of
        (typ, name, category, entry, answer, singleton) \<Rightarrow>
          \<lparr>nt_Type = typ, nt_DisplayName = name, nt_Category = category, nt_Description = [],
           nt_SchemaVersion = 1,
           nt_ConfigSchema = ''{\"type\":\"object\",\"additionalProperties\":false}'',
           nt_DefaultConfig = ''{}'',
           nt_Inputs = (if i > 0 then [\<lparr>pd_Name = ''in'', pd_Type = ''rag_state'', pd_Required = False, pd_MaxConnections = 1\<rparr>] else []),
           nt_Outputs = (if i < length builtin_stages - 1
                         then [\<lparr>pd_Name = ''out'', pd_Type = ''rag_state'', pd_Required = False, pd_MaxConnections = 1\<rparr>] else []),
           nt_Singleton = singleton, nt_Entry = entry, nt_ProducesAnswer = answer, nt_AllowsCycles = False,
           nt_AllowedTargets = (if i < length builtin_stages - 1 then [fst (builtin_stages ! (i + 1))] else [])\<rparr>)"

text \<open>\<open>None\<close> is the panic of \<^verbatim>\<open>MustRegistry\<close>.\<close>

definition BuiltinRegistry :: "Registry option" where
  "BuiltinRegistry = NewRegistry (map builtin_definition [0..<length builtin_stages])"

section \<open>Validation\<close>

definition json_space :: "char list" where
  "json_space = [CHR 0x20, CHR 0x09, CHR 0x0A, CHR 0x0D]"

text \<open>
  A configuration that unmarshals to an empty, non-null object: after the white space JSON allows
  between tokens is dropped, only the two braces are left.
\<close>

definition emptyNodeConfig :: "string \<Rightarrow> bool" where
  "emptyNodeConfig config \<longleftrightarrow>
     TrimSpace config = [] \<or> filter (\<lambda>c. \<not> List.member json_space c) config = ''{}''"

text \<open>The variables of the first loop.\<close>

record node_scan =
  ns_errors :: "ValidationError list"
  ns_nodes :: "(string, Node) gomap"
  ns_definitions :: "(string, NodeDefinition) gomap"
  ns_singletons :: "(string, string) gomap"
  ns_entries :: "string list"
  ns_answerProducers :: nat

definition err_if :: "bool \<Rightarrow> ValidationError \<Rightarrow> ValidationError list" where
  "err_if b e = (if b then [e] else [])"

definition scan_node :: "Registry \<Rightarrow> Node \<Rightarrow> node_scan \<Rightarrow> node_scan" where
  "scan_node reg n s =
     (let s = s\<lparr>ns_nodes := gput (nd_ID n) n (ns_nodes s)\<rparr>
      in case Registry_Lookup reg (nd_Type n) of
           None \<Rightarrow> s\<lparr>ns_errors := ns_errors s @ [validationError ''unknown_node_type'' (nd_ID n) [] []]\<rparr>
         | Some d \<Rightarrow>
             let dup = (nt_Singleton d \<and> map_of (ns_singletons s) (nd_Type n) \<noteq> None)
             in s\<lparr>ns_definitions := gput (nd_ID n) d (ns_definitions s),
                  ns_errors := ns_errors s
                    @ err_if (\<not> emptyNodeConfig (nd_Config n)) (validationError ''invalid_node_config'' (nd_ID n) [] [])
                    @ err_if (nd_SchemaVersion n \<noteq> 0 \<and> nd_SchemaVersion n \<noteq> nt_SchemaVersion d)
                        (validationError ''unsupported_schema_version'' (nd_ID n) [] [])
                    @ err_if dup (validationError ''duplicate_singleton'' (nd_ID n) [] []),
                  ns_singletons := (if nt_Singleton d \<and> \<not> dup then gput (nd_Type n) (nd_ID n) (ns_singletons s)
                                    else ns_singletons s),
                  ns_entries := ns_entries s @ (if nt_Entry d then [nd_ID n] else []),
                  ns_answerProducers := ns_answerProducers s + (if nt_ProducesAnswer d then 1 else 0)\<rparr>)"

definition scan_nodes :: "Registry \<Rightarrow> Node list \<Rightarrow> node_scan" where
  "scan_nodes reg ns =
     fold (scan_node reg) ns
       \<lparr>ns_errors = [], ns_nodes = [], ns_definitions = [], ns_singletons = [], ns_entries = [], ns_answerProducers = 0\<rparr>"

fun findPort :: "PortDefinition list \<Rightarrow> string \<Rightarrow> PortDefinition option" where
  "findPort [] name = None"
| "findPort (p # ps) name = (if pd_Name p = name then Some p else findPort ps name)"

definition portKey :: "string \<Rightarrow> string \<Rightarrow> string \<Rightarrow> string" where
  "portKey nodeID direction port = nodeID @ NUL @ direction @ NUL @ port"

definition missingPort :: "Edge \<Rightarrow> bool \<Rightarrow> string" where
  "missingPort e sourceFound = (if \<not> sourceFound then ed_SourcePort e else ed_TargetPort e)"

text \<open>
  The variables of the second loop. \<^verbatim>\<open>outgoing\<close> holds the targets of \<^verbatim>\<open>graphEdges\<close> without the edge
  identifiers.
\<close>

record edge_scan =
  es_errors :: "ValidationError list"
  es_outgoing :: "(string, string list) gomap"
  es_graphEdges :: "(string, (string \<times> string) list) gomap"
  es_portCounts :: "(string, int) gomap"

definition bump :: "string \<Rightarrow> (string, int) gomap \<Rightarrow> (string, int) gomap" where
  "bump k m = gput k (gget0 0 m k + 1) m"

definition scan_edge :: "node_scan \<Rightarrow> Edge \<Rightarrow> edge_scan \<Rightarrow> edge_scan" where
  "scan_edge ns e s =
     (case (map_of (ns_nodes ns) (ed_SourceNodeID e), map_of (ns_nodes ns) (ed_TargetNodeID e)) of
        (Some source, Some target) \<Rightarrow>
          (case (map_of (ns_definitions ns) (nd_ID source), map_of (ns_definitions ns) (nd_ID target)) of
             (Some sd, Some td) \<Rightarrow>
               (case (findPort (nt_Outputs sd) (ed_SourcePort e), findPort (nt_Inputs td) (ed_TargetPort e)) of
                  (Some sp, Some tp) \<Rightarrow>
                    if pd_Type sp \<noteq> pd_Type tp
                    then s\<lparr>es_errors := es_errors s @ [validationError ''incompatible_port_types'' [] (ed_ID e) []]\<rparr>
                    else if nt_AllowedTargets sd \<noteq> [] \<and> \<not> List.member (nt_AllowedTargets sd) (nd_Type target)
                    then s\<lparr>es_errors := es_errors s @ [validationError ''edge_not_allowed'' [] (ed_ID e) []]\<rparr>
                    else s\<lparr>es_outgoing := gput (nd_ID source) (gget0 [] (es_outgoing s) (nd_ID source) @ [nd_ID target]) (es_outgoing s),
                           es_graphEdges := gput (nd_ID source)
                             (gget0 [] (es_graphEdges s) (nd_ID source) @ [(nd_ID target, ed_ID e)]) (es_graphEdges s),
                           es_portCounts := bump (portKey (nd_ID target) ''in'' (pd_Name tp))
                             (bump (portKey (nd_ID source) ''out'' (pd_Name sp)) (es_portCounts s))\<rparr>
                | (spo, tpo) \<Rightarrow>
                    s\<lparr>es_errors := es_errors s @
                        [validationError ''unknown_port'' [] (ed_ID e) (missingPort e (spo \<noteq> None))]\<rparr>)
           | _ \<Rightarrow> s)
      | _ \<Rightarrow> s\<lparr>es_errors := es_errors s @ [validationError ''unknown_edge_node'' [] (ed_ID e) []]\<rparr>)"

definition scan_edges :: "node_scan \<Rightarrow> Edge list \<Rightarrow> edge_scan" where
  "scan_edges ns es =
     fold (scan_edge ns) es \<lparr>es_errors = [], es_outgoing = [], es_graphEdges = [], es_portCounts = []\<rparr>"

definition sortedDefinitionIDs :: "(string, NodeDefinition) gomap \<Rightarrow> string list" where
  "sortedDefinitionIDs m = sort_strings (map fst m)"

definition check_input :: "(string, int) gomap \<Rightarrow> string \<Rightarrow> PortDefinition \<Rightarrow> ValidationError list" where
  "check_input counts nodeID port =
     (let count = gget0 0 counts (portKey nodeID ''in'' (pd_Name port))
      in err_if (pd_Required port \<and> count = 0) (validationError ''missing_required_input'' nodeID [] (pd_Name port)) @
         err_if (pd_MaxConnections port > 0 \<and> count > pd_MaxConnections port)
           (validationError ''port_cardinality_exceeded'' nodeID [] (pd_Name port)))"

definition check_output :: "(string, int) gomap \<Rightarrow> string \<Rightarrow> PortDefinition \<Rightarrow> ValidationError list" where
  "check_output counts nodeID port =
     (let count = gget0 0 counts (portKey nodeID ''out'' (pd_Name port))
      in err_if (pd_MaxConnections port > 0 \<and> count > pd_MaxConnections port)
           (validationError ''port_cardinality_exceeded'' nodeID [] (pd_Name port)) @
         err_if (pd_Required port \<and> count = 0) (validationError ''non_exhaustive_branch'' nodeID [] (pd_Name port)))"

definition check_ports :: "(string, int) gomap \<Rightarrow> (string, NodeDefinition) gomap \<Rightarrow> ValidationError list" where
  "check_ports counts defs =
     concat (map (\<lambda>nodeID. case map_of defs nodeID of
          None \<Rightarrow> []
        | Some d \<Rightarrow> concat (map (check_input counts nodeID) (nt_Inputs d)) @
                    concat (map (check_output counts nodeID) (nt_Outputs d)))
       (sortedDefinitionIDs defs))"

subsection \<open>Breadth-first search\<close>

text \<open>The inner loop of \<^verbatim>\<open>reachableFrom\<close> over the successors of one node.\<close>

fun bfs_visit :: "string list \<Rightarrow> string list \<Rightarrow> string list \<Rightarrow> string list \<times> string list" where
  "bfs_visit [] reachable queue = (reachable, queue)"
| "bfs_visit (next # ns) reachable queue =
     (if List.member reachable next then bfs_visit ns reachable queue
      else bfs_visit ns (next # reachable) (queue @ [next]))"

lemma bfs_visit_split:
  "\<exists>new. fst (bfs_visit ns reachable queue) = rev new @ reachable \<and> snd (bfs_visit ns reachable queue) = queue @ new \<and>
     distinct new \<and> set new = set ns - set reachable"
proof (induction ns arbitrary: reachable queue)
  case (Cons n ns)
  show ?case
  proof (cases "n \<in> set reachable")
    case True
    with Cons [of reachable queue] show ?thesis by auto
  next
    case False
    from Cons [of "n # reachable" "queue @ [n]"] obtain new where
      "fst (bfs_visit ns (n # reachable) (queue @ [n])) = rev new @ n # reachable"
      "snd (bfs_visit ns (n # reachable) (queue @ [n])) = (queue @ [n]) @ new"
      "distinct new" "set new = set ns - set (n # reachable)" by blast
    with False show ?thesis by (intro exI [of _ "n # new"]) auto
  qed
qed simp

definition successors :: "(string, string list) gomap \<Rightarrow> string set" where
  "successors outgoing = (\<Union>p \<in> set outgoing. set (snd p))"

lemma gget0_successors: "set (gget0 [] outgoing c) \<subseteq> successors outgoing"
  by (cases "map_of outgoing c") (force simp: gget0_def successors_def dest: map_of_SomeD)+

lemma finite_successors [simp]: "finite (successors outgoing)"
  by (simp add: successors_def)

function (sequential) reach_loop :: "(string, string list) gomap \<Rightarrow> string list \<Rightarrow> string list \<Rightarrow> string list" where
  "reach_loop outgoing [] reachable = reachable"
| "reach_loop outgoing (current # queue) reachable =
     reach_loop outgoing (snd (bfs_visit (gget0 [] outgoing current) reachable queue))
       (fst (bfs_visit (gget0 [] outgoing current) reachable queue))"
  by pat_completeness auto

termination
proof (relation "measure (\<lambda>(outgoing, queue, reachable). length queue + card (successors outgoing - set reachable))")
  fix outgoing :: "(string, string list) gomap" and current queue reachable
  let ?ns = "gget0 [] outgoing current"
  obtain new where new: "fst (bfs_visit ?ns reachable queue) = rev new @ reachable"
    "snd (bfs_visit ?ns reachable queue) = queue @ new" "distinct new" "set new = set ?ns - set reachable"
    using bfs_visit_split by blast
  have sub: "set new \<subseteq> successors outgoing - set reachable"
    using gget0_successors [of outgoing current] new(4) by auto
  have "successors outgoing - (set new \<union> set reachable) = successors outgoing - set reachable - set new" by auto
  then have "card (successors outgoing - (set new \<union> set reachable)) = card (successors outgoing - set reachable) - length new"
    using card_Diff_subset [OF _ sub] distinct_card [OF new(3)] by simp
  moreover have "length new \<le> card (successors outgoing - set reachable)"
    using card_mono [OF _ sub] distinct_card [OF new(3)] by simp
  ultimately show "((outgoing, snd (bfs_visit ?ns reachable queue), fst (bfs_visit ?ns reachable queue)),
      outgoing, current # queue, reachable)
    \<in> measure (\<lambda>(outgoing, queue, reachable). length queue + card (successors outgoing - set reachable))"
    by (simp add: new(1,2))
qed simp

definition reachableFrom :: "string \<Rightarrow> (string, string list) gomap \<Rightarrow> string list" where
  "reachableFrom entry outgoing = reach_loop outgoing [entry] [entry]"


subsection \<open>Depth-first search\<close>

text \<open>A node missing from \<open>df_state\<close> is unvisited.\<close>

datatype visit_state = Visiting | Visited

record dfs =
  df_state :: "(string, visit_state) gomap"
  df_stack :: "string list"
  df_stackIndex :: "(string, nat) gomap"
  df_errors :: "ValidationError list"

definition enter :: "string \<Rightarrow> dfs \<Rightarrow> dfs" where
  "enter n s =
     s\<lparr>df_state := gput n Visiting (df_state s), df_stackIndex := gput n (length (df_stack s)) (df_stackIndex s),
       df_stack := df_stack s @ [n]\<rparr>"

definition leave :: "string \<Rightarrow> dfs \<Rightarrow> dfs" where
  "leave n s =
     s\<lparr>df_stack := butlast (df_stack s), df_stackIndex := gdel n (df_stackIndex s),
       df_state := gput n Visited (df_state s)\<rparr>"

definition allows_cycles :: "(string, NodeDefinition) gomap \<Rightarrow> string \<Rightarrow> bool" where
  "allows_cycles defs n = (case map_of defs n of None \<Rightarrow> False | Some d \<Rightarrow> nt_AllowsCycles d)"

definition back_edge :: "(string, NodeDefinition) gomap \<Rightarrow> string \<Rightarrow> string \<Rightarrow> dfs \<Rightarrow> dfs" where
  "back_edge defs t edgeID s =
     (if list_all (allows_cycles defs) (drop (gget0 0 (df_stackIndex s) t) (df_stack s)) then s
      else s\<lparr>df_errors := df_errors s @ [validationError ''cycle_not_allowed'' [] edgeID []]\<rparr>)"

text \<open>
  The closure \<^verbatim>\<open>visit\<close> and its loop. The first argument bounds the depth of the recursion and
  \<open>None\<close> means that it was reached; \<open>validateCycles\<close> starts with a bound that is never reached.
\<close>

function (sequential) visit ::
    "nat \<Rightarrow> (string, (string \<times> string) list) gomap \<Rightarrow> (string, NodeDefinition) gomap \<Rightarrow> string \<Rightarrow> dfs \<Rightarrow> dfs option"
  and visit_edges ::
    "nat \<Rightarrow> (string, (string \<times> string) list) gomap \<Rightarrow> (string, NodeDefinition) gomap \<Rightarrow> (string \<times> string) list \<Rightarrow> dfs \<Rightarrow> dfs option"
where
  "visit 0 g defs n s = None"
| "visit (Suc f) g defs n s = map_option (leave n) (visit_edges f g defs (gget0 [] g n) (enter n s))"
| "visit_edges f g defs [] s = Some s"
| "visit_edges f g defs ((t, edgeID) # es) s =
     (case map_of (df_state s) t of
        None \<Rightarrow>
          (case visit f g defs t s of
             None \<Rightarrow> None
           | Some s' \<Rightarrow> visit_edges f g defs es s')
      | Some Visiting \<Rightarrow> visit_edges f g defs es (back_edge defs t edgeID s)
      | Some Visited \<Rightarrow> visit_edges f g defs es s)"
  by pat_completeness auto

termination
  by (relation "measures [\<lambda>x. case x of Inl (f, _) \<Rightarrow> f | Inr (f, _) \<Rightarrow> f,
      \<lambda>x. case x of Inl _ \<Rightarrow> 0 | Inr (_, _, _, es, _) \<Rightarrow> Suc (length es)]") auto

fun visit_roots ::
  "nat \<Rightarrow> (string, (string \<times> string) list) gomap \<Rightarrow> (string, NodeDefinition) gomap \<Rightarrow> string list \<Rightarrow> dfs \<Rightarrow> dfs option" where
  "visit_roots f g defs [] s = Some s"
| "visit_roots f g defs (n # ns) s =
     (case map_of (df_state s) n of
        None \<Rightarrow>
          (case visit f g defs n s of
             None \<Rightarrow> None
           | Some s' \<Rightarrow> visit_roots f g defs ns s')
      | Some _ \<Rightarrow> visit_roots f g defs ns s)"

definition dfs_bound :: "(string, (string \<times> string) list) gomap \<Rightarrow> (string, NodeDefinition) gomap \<Rightarrow> nat" where
  "dfs_bound g defs = length defs + sum_list (map (length \<circ> snd) g)"

definition validateCycles :: "(string, (string \<times> string) list) gomap \<Rightarrow> (string, NodeDefinition) gomap \<Rightarrow> ValidationError list" where
  "validateCycles g defs =
     (case visit_roots (dfs_bound g defs) g defs (sortedDefinitionIDs defs)
             \<lparr>df_state = [], df_stack = [], df_stackIndex = [], df_errors = []\<rparr> of
        None \<Rightarrow> []
      | Some s \<Rightarrow> df_errors s)"

subsection \<open>The validator\<close>

definition Validate :: "Definition \<Rightarrow> Registry \<Rightarrow> ValidationError list" where
  "Validate pipeline reg =
     (let ns = scan_nodes reg (def_Nodes pipeline);
          es = scan_edges ns (def_Edges pipeline)
      in ns_errors ns
         @ err_if (length (ns_entries ns) \<noteq> 1) (validationError ''invalid_query_entry_count'' [] [] [])
         @ err_if (ns_answerProducers ns = 0) (validationError ''missing_answer_producer'' [] [] [])
         @ es_errors es
         @ check_ports (es_portCounts es) (ns_definitions ns)
         @ (case ns_entries ns of
              [entry] \<Rightarrow>
                let reachable = reachableFrom entry (es_outgoing es)
                in concat (map (\<lambda>n. err_if (map_of (ns_definitions ns) (nd_ID n) \<noteq> None \<and> \<not> List.member reachable (nd_ID n))
                     (validationError ''unreachable_node'' (nd_ID n) [] [])) (def_Nodes pipeline))
            | _ \<Rightarrow> [])
         @ validateCycles (es_graphEdges es) (ns_definitions ns))"


section \<open>Drafts\<close>

datatype pipeline_error =
    PipelineNotFound
  | ErrRevisionConflict
  | ErrInvalidDefinition
  | ValidationErrors "ValidationError list"

record Pipeline =
  pl_ID :: string
  pl_ProjectID :: string
  pl_Name :: string
  pl_CreatedAt :: gotime
  pl_UpdatedAt :: gotime

record Draft =
  dr_PipelineID :: string
  dr_ProjectID :: string
  dr_Revision :: int64
  dr_SchemaVersion :: int
  dr_Definition :: Definition
  dr_UpdatedAt :: gotime

record MemoryPipelineRepository =
  mp_pipelines :: "(string, Pipeline) gomap"
  mp_drafts :: "(string, Draft) gomap"

definition NewMemoryPipelineRepository :: MemoryPipelineRepository where
  "NewMemoryPipelineRepository = \<lparr>mp_pipelines = [], mp_drafts = []\<rparr>"

definition zero_draft :: Draft where
  "zero_draft = \<lparr>dr_PipelineID = [], dr_ProjectID = [], dr_Revision = 0, dr_SchemaVersion = 0,
     dr_Definition = \<lparr>def_Nodes = [], def_Edges = []\<rparr>, dr_UpdatedAt = zero_time\<rparr>"

text \<open>
  \<^verbatim>\<open>cloneDraft\<close> writes the definition as JSON and reads it back: a configuration comes back in
  compact form, and one that is white space only cannot be written, which leaves the whole definition
  as it is. Only configurations the validator accepts are ever stored.
\<close>

definition cloneDraft :: "Draft \<Rightarrow> Draft" where
  "cloneDraft d =
     (if list_ex (\<lambda>n. nd_Config n \<noteq> [] \<and> TrimSpace (nd_Config n) = []) (def_Nodes (dr_Definition d)) then d
      else d\<lparr>dr_Definition := (dr_Definition d)\<lparr>def_Nodes :=
             map (\<lambda>n. n\<lparr>nd_Config := filter (\<lambda>c. \<not> List.member json_space c) (nd_Config n)\<rparr>)
               (def_Nodes (dr_Definition d))\<rparr>\<rparr>)"

definition repo_CreatePipeline ::
  "Pipeline \<Rightarrow> MemoryPipelineRepository \<Rightarrow> MemoryPipelineRepository \<times> (pipeline_error + unit)" where
  "repo_CreatePipeline item r =
     (case map_of (mp_pipelines r) (pl_ID item) of
        Some _ \<Rightarrow> (r, Inl ErrRevisionConflict)
      | None \<Rightarrow>
          (r\<lparr>mp_pipelines := gput (pl_ID item) item (mp_pipelines r),
             mp_drafts := gput (pl_ID item)
               (zero_draft\<lparr>dr_PipelineID := pl_ID item, dr_ProjectID := pl_ProjectID item, dr_SchemaVersion := 1\<rparr>)
               (mp_drafts r)\<rparr>, Inr ()))"

definition repo_ListPipelines :: "string \<Rightarrow> MemoryPipelineRepository \<Rightarrow> Pipeline list" where
  "repo_ListPipelines projectID r = filter (\<lambda>item. pl_ProjectID item = projectID) (map snd (mp_pipelines r))"

definition repo_GetDraft :: "string \<Rightarrow> string \<Rightarrow> MemoryPipelineRepository \<Rightarrow> pipeline_error + Draft" where
  "repo_GetDraft projectID pipelineID r =
     (case map_of (mp_drafts r) pipelineID of
        None \<Rightarrow> Inl PipelineNotFound
      | Some item \<Rightarrow> if dr_ProjectID item \<noteq> projectID then Inl PipelineNotFound else Inr (cloneDraft item))"

text \<open>On a revision conflict the current draft is returned together with the error.\<close>

definition repo_SaveDraft ::
  "string \<Rightarrow> string \<Rightarrow> int64 \<Rightarrow> Draft \<Rightarrow> MemoryPipelineRepository \<Rightarrow>
   MemoryPipelineRepository \<times> Draft \<times> pipeline_error option" where
  "repo_SaveDraft projectID pipelineID expected draft r =
     (case map_of (mp_drafts r) pipelineID of
        None \<Rightarrow> (r, zero_draft, Some PipelineNotFound)
      | Some current \<Rightarrow>
          if dr_ProjectID current \<noteq> projectID then (r, zero_draft, Some PipelineNotFound)
          else if dr_Revision current \<noteq> expected then (r, current, Some ErrRevisionConflict)
          else (r\<lparr>mp_drafts := gput pipelineID (cloneDraft draft) (mp_drafts r)\<rparr>, cloneDraft draft, None))"

definition Service_CreatePipeline ::
  "Pipeline \<Rightarrow> MemoryPipelineRepository \<Rightarrow> MemoryPipelineRepository \<times> (pipeline_error + unit)" where
  "Service_CreatePipeline item r =
     (if pl_ID item = [] \<or> pl_ProjectID item = [] \<or> pl_Name item = [] then (r, Inl ErrInvalidDefinition)
      else repo_CreatePipeline item r)"

definition ValidateDefinition :: "Registry \<Rightarrow> Definition \<Rightarrow> pipeline_error" where
  "ValidateDefinition reg definition' = ValidationErrors (Validate definition' reg)"

definition Service_SaveDraft ::
  "Registry \<Rightarrow> gotime \<Rightarrow> string \<Rightarrow> string \<Rightarrow> int64 \<Rightarrow> Definition \<Rightarrow> MemoryPipelineRepository \<Rightarrow>
   MemoryPipelineRepository \<times> Draft \<times> pipeline_error option" where
  "Service_SaveDraft reg now projectID pipelineID expectedRevision definition' r =
     (let validation = Validate definition' reg
      in if validation \<noteq> [] then (r, zero_draft, Some (ValidationErrors validation))
         else repo_SaveDraft projectID pipelineID expectedRevision
                \<lparr>dr_PipelineID = pipelineID, dr_ProjectID = projectID, dr_Revision = expectedRevision + 1,
                 dr_SchemaVersion = 1, dr_Definition = definition', dr_UpdatedAt = now\<rparr> r)"

end
