(* ===== verification/PipelineProps.thy ===== *)
theory PipelineProps
  imports PipelineDef
begin

text \<open>
  What the validator guarantees: its breadth-first search computes reachability, its depth-first
  search finds cycles, and a definition without errors is a well-formed graph. Drafts are an
  optimistic store.
\<close>

section \<open>Reachability\<close>

definition succ_rel :: "(string, string list) gomap \<Rightarrow> (string \<times> string) set" where
  "succ_rel outgoing = {(a, b). b \<in> set (gget0 [] outgoing a)}"

lemma reach_loop_closed:
  assumes "set queue \<subseteq> set reachable"
    and "\<forall>c \<in> set reachable - set queue. set (gget0 [] outgoing c) \<subseteq> set reachable"
  shows "set reachable \<subseteq> set (reach_loop outgoing queue reachable) \<and>
    (\<forall>c \<in> set (reach_loop outgoing queue reachable).
       set (gget0 [] outgoing c) \<subseteq> set (reach_loop outgoing queue reachable))"
  using assms
proof (induction outgoing queue reachable rule: reach_loop.induct)
  case (2 outgoing current queue reachable)
  let ?ns = "gget0 [] outgoing current"
  obtain new where new: "fst (bfs_visit ?ns reachable queue) = rev new @ reachable"
    "snd (bfs_visit ?ns reachable queue) = queue @ new" "set new = set ?ns - set reachable"
    using bfs_visit_split by blast
  have "set (queue @ new) \<subseteq> set (rev new @ reachable)" using 2(2) by auto
  moreover have "\<forall>c \<in> set (rev new @ reachable) - set (queue @ new). set (gget0 [] outgoing c) \<subseteq> set (rev new @ reachable)"
  proof
    fix c assume c: "c \<in> set (rev new @ reachable) - set (queue @ new)"
    show "set (gget0 [] outgoing c) \<subseteq> set (rev new @ reachable)"
    proof (cases "c = current")
      case True
      then show ?thesis using new(3) by auto
    next
      case False
      with c 2(3) show ?thesis by auto
    qed
  qed
  ultimately have "set (rev new @ reachable) \<subseteq> set (reach_loop outgoing (queue @ new) (rev new @ reachable)) \<and>
      (\<forall>c \<in> set (reach_loop outgoing (queue @ new) (rev new @ reachable)).
         set (gget0 [] outgoing c) \<subseteq> set (reach_loop outgoing (queue @ new) (rev new @ reachable)))"
    using "2.IH" unfolding new(1,2) by blast
  then show ?case by (simp add: new(1,2))
qed auto

lemma reach_loop_sound:
  assumes "set queue \<subseteq> set reachable"
  shows "set (reach_loop outgoing queue reachable) \<subseteq> (succ_rel outgoing)\<^sup>* `` set reachable"
  using assms
proof (induction outgoing queue reachable rule: reach_loop.induct)
  case (2 outgoing current queue reachable)
  let ?ns = "gget0 [] outgoing current"
  obtain new where new: "fst (bfs_visit ?ns reachable queue) = rev new @ reachable"
    "snd (bfs_visit ?ns reachable queue) = queue @ new" "set new = set ?ns - set reachable"
    using bfs_visit_split by blast
  have "set (queue @ new) \<subseteq> set (rev new @ reachable)" using 2(2) by auto
  then have "set (reach_loop outgoing (queue @ new) (rev new @ reachable)) \<subseteq>
      (succ_rel outgoing)\<^sup>* `` set (rev new @ reachable)" using "2.IH" unfolding new(1,2) by blast
  moreover have "set new \<subseteq> (succ_rel outgoing)\<^sup>* `` set reachable"
    using new(3) 2(2) by (auto simp: succ_rel_def intro!: ImageI [of current])
  then have "(succ_rel outgoing)\<^sup>* `` set (rev new @ reachable) \<subseteq> (succ_rel outgoing)\<^sup>* `` set reachable"
    by (auto dest!: subsetD intro: rtrancl_trans)
  ultimately show ?case unfolding reach_loop.simps new(1,2) by (rule subset_trans)
qed auto

text \<open>
  C14 (equivalence). The breadth-first search of the validator terminates and computes exactly the
  nodes that can be reached from the entry along the accepted edges.
\<close>

theorem reachableFrom_correct:
  "set (reachableFrom entry outgoing) = {n. (entry, n) \<in> (succ_rel outgoing)\<^sup>*}"
proof -
  let ?R = "set (reachableFrom entry outgoing)"
  have closed: "entry \<in> ?R" "\<And>c. c \<in> ?R \<Longrightarrow> set (gget0 [] outgoing c) \<subseteq> ?R"
    using reach_loop_closed [of "[entry]" "[entry]" outgoing] by (auto simp: reachableFrom_def)
  have "n \<in> ?R" if "(entry, n) \<in> (succ_rel outgoing)\<^sup>*" for n
    using that by (induction rule: rtrancl_induct) (use closed in \<open>auto simp: succ_rel_def\<close>)
  moreover have "?R \<subseteq> {n. (entry, n) \<in> (succ_rel outgoing)\<^sup>*}"
    using reach_loop_sound [of "[entry]" "[entry]" outgoing] by (auto simp: reachableFrom_def)
  ultimately show ?thesis by auto
qed

section \<open>Cycles\<close>

text \<open>The stack of the search holds the nodes being visited, each at its index.\<close>

definition dfs_ok :: "dfs \<Rightarrow> bool" where
  "dfs_ok s \<longleftrightarrow>
     distinct (df_stack s) \<and> (\<forall>n. n \<in> set (df_stack s) \<longleftrightarrow> map_of (df_state s) n = Some Visiting) \<and>
     (\<forall>i < length (df_stack s). map_of (df_stackIndex s) (df_stack s ! i) = Some i)"

text \<open>What a part of the search keeps: the stack, the nodes being visited, the nodes done, and the errors so far.\<close>

definition dfs_grows :: "dfs \<Rightarrow> dfs \<Rightarrow> bool" where
  "dfs_grows s s' \<longleftrightarrow>
     df_stack s' = df_stack s \<and> (\<exists>new. df_errors s' = df_errors s @ new) \<and>
     (\<forall>n. map_of (df_state s) n \<noteq> None \<longrightarrow> map_of (df_state s') n = map_of (df_state s) n)"

lemma dfs_grows_refl [simp]: "dfs_grows s s"
  by (simp add: dfs_grows_def)

lemma dfs_grows_trans: "dfs_grows s s' \<Longrightarrow> dfs_grows s' s'' \<Longrightarrow> dfs_grows s s''"
  by (auto simp: dfs_grows_def)

lemma dfs_ok_enter:
  assumes "dfs_ok s" and "map_of (df_state s) n = None"
  shows "dfs_ok (enter n s)"
proof -
  have "n \<notin> set (df_stack s)" using assms by (simp add: dfs_ok_def)
  moreover from this have "df_stack s ! i \<noteq> n" if "i < length (df_stack s)" for i using that nth_mem by metis
  ultimately show ?thesis using assms(1) by (auto simp: dfs_ok_def enter_def map_simps nth_append less_Suc_eq)
qed

lemma back_edge_grows [simp]: "dfs_grows s (back_edge defs t i s)"
  by (simp add: dfs_grows_def back_edge_def)

lemma back_edge_ok [simp]: "dfs_ok (back_edge defs t i s) = dfs_ok s"
  by (simp add: dfs_ok_def back_edge_def)

lemma leave_ok:
  assumes "dfs_ok s" and "map_of (df_state s) n = None" and "dfs_ok s'" and "dfs_grows (enter n s) s'"
  shows "dfs_ok (leave n s')" and "dfs_grows s (leave n s')" and "map_of (df_state (leave n s')) n = Some Visited"
proof -
  have st: "df_stack s' = df_stack s @ [n]" using assms(4) by (simp add: dfs_grows_def enter_def)
  then have "n \<notin> set (df_stack s)" using assms(3) by (simp add: dfs_ok_def)
  moreover from this have "df_stack s ! i \<noteq> n" if "i < length (df_stack s)" for i using that nth_mem by metis
  moreover have "map_of (df_stackIndex s') (df_stack s ! i) = Some i" if "i < length (df_stack s)" for i
    using assms(3) that unfolding dfs_ok_def st by (auto simp: nth_append dest: spec [of _ i])
  moreover have "m \<in> set (df_stack s) \<or> m = n \<longleftrightarrow> map_of (df_state s') m = Some Visiting" for m
    using assms(3) by (auto simp: dfs_ok_def st)
  ultimately show "dfs_ok (leave n s')"
    using assms(1) by (auto simp: dfs_ok_def leave_def st map_simps)
  show "dfs_grows s (leave n s')"
    using assms(2,4) by (auto simp: dfs_grows_def leave_def enter_def map_simps st)
  show "map_of (df_state (leave n s')) n = Some Visited" by (simp add: leave_def map_simps)
qed

lemma visit_frame:
  "visit f g defs n s = Some s' \<Longrightarrow> dfs_ok s \<Longrightarrow> map_of (df_state s) n = None \<Longrightarrow>
     dfs_ok s' \<and> dfs_grows s s' \<and> map_of (df_state s') n = Some Visited"
  "visit_edges f g defs es s = Some s' \<Longrightarrow> dfs_ok s \<Longrightarrow> dfs_ok s' \<and> dfs_grows s s'"
proof (induction f g defs n s and f g defs es s arbitrary: s' and s' rule: visit_visit_edges.induct)
  case (2 f g defs n s)
  then obtain s1 where "visit_edges f g defs (gget0 [] g n) (enter n s) = Some s1" "s' = leave n s1" by auto
  with 2 dfs_ok_enter [of s n] leave_ok [of s n s1] show ?case by auto
next
  case (4 f g defs t i es s)
  show ?case
  proof (cases "map_of (df_state s) t")
    case None
    with "4.prems" obtain s1 where s1: "visit f g defs t s = Some s1" "visit_edges f g defs es s1 = Some s'"
      by (auto split: option.splits)
    with "4.IH"(1) [OF None s1(1)] "4.IH"(2) [OF None s1] "4.prems"(2) None show ?thesis
      by (auto intro: dfs_grows_trans)
  next
    case (Some v)
    with 4 show ?thesis by (cases v) (auto intro: dfs_grows_trans [OF back_edge_grows])
  qed
qed auto


subsection \<open>The bound on the recursion is never reached\<close>

definition unvisited :: "string set \<Rightarrow> dfs \<Rightarrow> string set" where
  "unvisited U s = {m \<in> U. map_of (df_state s) m = None}"

definition closed_under :: "(string, (string \<times> string) list) gomap \<Rightarrow> string set \<Rightarrow> bool" where
  "closed_under g U \<longleftrightarrow> finite U \<and> (\<forall>n. fst ` set (gget0 [] g n) \<subseteq> U)"

lemma unvisited_grows: "closed_under g U \<Longrightarrow> dfs_grows s s' \<Longrightarrow> card (unvisited U s') \<le> card (unvisited U s)"
  by (rule card_mono) (auto simp: unvisited_def closed_under_def dfs_grows_def)

lemma unvisited_enter:
  assumes "closed_under g U" and "n \<in> U" and "map_of (df_state s) n = None"
  shows "card (unvisited U s) = Suc (card (unvisited U (enter n s)))"
proof -
  have "unvisited U s = insert n (unvisited U (enter n s))" "n \<notin> unvisited U (enter n s)"
    using assms by (auto simp: unvisited_def enter_def map_simps split: if_splits)
  moreover have "finite (unvisited U (enter n s))" using assms(1) by (simp add: unvisited_def closed_under_def)
  ultimately show ?thesis by simp
qed

lemma unvisited_back_edge [simp]: "unvisited U (back_edge defs t i s) = unvisited U s"
  by (simp add: unvisited_def back_edge_def)

lemma visit_enough:
  "closed_under g U \<Longrightarrow> dfs_ok s \<Longrightarrow> n \<in> U \<Longrightarrow> map_of (df_state s) n = None \<Longrightarrow> card (unvisited U s) \<le> f \<Longrightarrow>
     visit f g defs n s \<noteq> None"
  "closed_under g U \<Longrightarrow> dfs_ok s \<Longrightarrow> fst ` set es \<subseteq> U \<Longrightarrow> card (unvisited U s) \<le> f \<Longrightarrow>
     visit_edges f g defs es s \<noteq> None"
proof (induction f g defs n s and f g defs es s rule: visit_visit_edges.induct)
  case (1 g defs n s)
  then show ?case using unvisited_enter [of g U n s] by simp
next
  case (2 f g defs n s)
  then have "card (unvisited U (enter n s)) \<le> f" using unvisited_enter [of g U n s] by simp
  with 2 dfs_ok_enter show ?case by (simp add: closed_under_def)
next
  case (4 f g defs t i es s)
  show ?case
  proof (cases "map_of (df_state s) t")
    case None
    with 4 obtain s1 where s1: "visit f g defs t s = Some s1" by fastforce
    with visit_frame(1) [OF s1 "4.prems"(2) None] have "dfs_ok s1" "dfs_grows s s1" by auto
    with 4 None s1 unvisited_grows [OF "4.prems"(1)] show ?thesis by (fastforce dest: le_trans)
  next
    case (Some v)
    with 4 show ?thesis by (cases v) auto
  qed
qed simp

lemma visit_roots_enough:
  "closed_under g U \<Longrightarrow> dfs_ok s \<Longrightarrow> set ns \<subseteq> U \<Longrightarrow> card (unvisited U s) \<le> f \<Longrightarrow>
     \<exists>s'. visit_roots f g defs ns s = Some s' \<and> dfs_ok s' \<and> dfs_grows s s' \<and> (\<forall>n \<in> set ns. map_of (df_state s') n \<noteq> None)"
proof (induction ns arbitrary: s)
  case (Cons n ns)
  show ?case
  proof (cases "map_of (df_state s) n")
    case None
    then obtain s1 where s1: "visit f g defs n s = Some s1"
      using visit_enough(1) [of g U s n f defs] Cons.prems by fastforce
    then have f: "dfs_ok s1" "dfs_grows s s1" "map_of (df_state s1) n = Some Visited"
      using visit_frame(1) [OF s1] Cons.prems(2) None by auto
    then obtain s' where "visit_roots f g defs ns s1 = Some s'" "dfs_ok s'" "dfs_grows s1 s'"
      "\<forall>n \<in> set ns. map_of (df_state s') n \<noteq> None"
      using Cons.IH [of s1] Cons.prems unvisited_grows [OF Cons.prems(1) f(2)] by fastforce
    with f None s1 show ?thesis by (auto intro: dfs_grows_trans simp: dfs_grows_def)
  next
    case (Some v)
    with Cons.IH [of s] Cons.prems show ?thesis by (auto simp: dfs_grows_def)
  qed
qed auto

definition dfs_start :: dfs where
  "dfs_start = \<lparr>df_state = [], df_stack = [], df_stackIndex = [], df_errors = []\<rparr>"

definition dfs_nodes :: "(string, (string \<times> string) list) gomap \<Rightarrow> (string, NodeDefinition) gomap \<Rightarrow> string set" where
  "dfs_nodes g defs = fst ` set defs \<union> (\<Union>p \<in> set g. fst ` set (snd p))"

lemma card_dfs_nodes: "card (dfs_nodes g defs) \<le> dfs_bound g defs"
proof -
  have "card (\<Union>p \<in> set g. fst ` set (snd p)) \<le> sum_list (map (length \<circ> snd) g)"
  proof (induction g)
    case (Cons p g)
    have "card (fst ` set (snd p)) \<le> length (snd p)" by (rule le_trans [OF card_image_le card_length]) simp
    with Cons show ?case
      using card_Un_le [of "fst ` set (snd p)" "\<Union>p \<in> set g. fst ` set (snd p)"] by simp
  qed simp
  moreover have "card (fst ` set defs) \<le> length defs" by (rule le_trans [OF card_image_le card_length]) simp
  ultimately show ?thesis
    using card_Un_le [of "fst ` set defs" "\<Union>p \<in> set g. fst ` set (snd p)"] by (simp add: dfs_nodes_def dfs_bound_def)
qed

lemma dfs_nodes_closed: "closed_under g (dfs_nodes g defs)"
proof -
  have "fst ` set (gget0 [] g n) \<subseteq> dfs_nodes g defs" for n
    by (cases "map_of g n") (force simp: gget0_def dfs_nodes_def dest: map_of_SomeD)+
  then show ?thesis by (simp add: closed_under_def dfs_nodes_def)
qed

lemma validateCycles_run:
  obtains s where "visit_roots (dfs_bound g defs) g defs (sortedDefinitionIDs defs) dfs_start = Some s"
    and "validateCycles g defs = df_errors s" and "dfs_ok s" and "df_stack s = []"
    and "\<forall>n \<in> fst ` set defs. map_of (df_state s) n \<noteq> None"
proof -
  have "dfs_ok dfs_start" by (simp add: dfs_ok_def dfs_start_def)
  moreover have "card (unvisited (dfs_nodes g defs) dfs_start) \<le> dfs_bound g defs"
    using card_dfs_nodes [of g defs] by (simp add: unvisited_def dfs_start_def)
  moreover have "set (sortedDefinitionIDs defs) \<subseteq> dfs_nodes g defs"
    by (auto simp: sortedDefinitionIDs_def dfs_nodes_def)
  ultimately obtain s where s: "visit_roots (dfs_bound g defs) g defs (sortedDefinitionIDs defs) dfs_start = Some s"
    "dfs_ok s" "dfs_grows dfs_start s" "\<forall>n \<in> set (sortedDefinitionIDs defs). map_of (df_state s) n \<noteq> None"
    using visit_roots_enough [OF dfs_nodes_closed] by metis
  from s(1) have "validateCycles g defs = df_errors s" by (simp add: validateCycles_def dfs_start_def)
  moreover have "df_stack s = []" using s(3) by (simp add: dfs_grows_def dfs_start_def)
  moreover have "\<forall>n \<in> fst ` set defs. map_of (df_state s) n \<noteq> None"
    using s(4) by (simp add: sortedDefinitionIDs_def)
  ultimately show thesis using that s(1,2) by blast
qed


subsection \<open>No error means no cycle\<close>

text \<open>The nodes done, the last one first: the successors of each come after it.\<close>

fun topological :: "(string, (string \<times> string) list) gomap \<Rightarrow> string list \<Rightarrow> bool" where
  "topological g [] = True"
| "topological g (n # ns) = (n \<notin> set ns \<and> fst ` set (gget0 [] g n) \<subseteq> set ns \<and> topological g ns)"

definition edge_rel :: "(string, (string \<times> string) list) gomap \<Rightarrow> (string \<times> string) set" where
  "edge_rel g = {(a, b). b \<in> fst ` set (gget0 [] g a)}"

lemma topological_closed: "topological g ns \<Longrightarrow> a \<in> set ns \<Longrightarrow> (a, b) \<in> (edge_rel g)\<^sup>* \<Longrightarrow> b \<in> set ns"
proof (induction ns arbitrary: a)
  case (Cons n ns)
  from Cons.prems(3) show ?case
  proof (cases rule: converse_rtranclE)
    case (step c)
    then have "c \<in> set ns \<or> a \<in> set ns"
      using Cons.prems(1,2) by (auto simp: edge_rel_def)
    with Cons step show ?thesis by (auto intro: converse_rtrancl_into_rtrancl)
  qed (use Cons in auto)
qed simp

lemma topological_acyclic: "topological g ns \<Longrightarrow> a \<in> set ns \<Longrightarrow> (a, a) \<notin> (edge_rel g)\<^sup>+"
proof (induction ns)
  case (Cons n ns)
  show ?case
  proof (cases "a \<in> set ns")
    case False
    show ?thesis
    proof
      assume "(a, a) \<in> (edge_rel g)\<^sup>+"
      then obtain b where "(a, b) \<in> edge_rel g" "(b, a) \<in> (edge_rel g)\<^sup>*" by (meson tranclD)
      moreover from this(1) have "b \<in> set ns" using Cons.prems False by (auto simp: edge_rel_def)
      ultimately have "a \<in> set ns" using topological_closed [of g ns b a] Cons.prems by simp
      with False show False by simp
    qed
  qed (use Cons in simp)
qed simp

definition done_ok :: "(string, (string \<times> string) list) gomap \<Rightarrow> dfs \<Rightarrow> bool" where
  "done_ok g s \<longleftrightarrow> (\<exists>ns. topological g ns \<and> set ns = {n. map_of (df_state s) n = Some Visited})"

lemma back_edge_error:
  assumes "dfs_ok s" and "map_of (df_state s) t = Some Visiting" and "\<And>n. \<not> allows_cycles defs n"
  shows "df_errors (back_edge defs t i s) \<noteq> []"
proof -
  obtain j where j: "j < length (df_stack s)" "df_stack s ! j = t"
    using assms(1,2) by (metis dfs_ok_def in_set_conv_nth)
  then have "map_of (df_stackIndex s) t = Some j" using assms(1) by (auto simp: dfs_ok_def)
  then have "\<not> list_all (allows_cycles defs) (drop (gget0 0 (df_stackIndex s) t) (df_stack s))"
    using j assms(3) by (simp add: gget0_def Cons_nth_drop_Suc [symmetric])
  then show ?thesis by (simp add: back_edge_def)
qed

lemma grows_no_errors: "dfs_grows s s' \<Longrightarrow> df_errors s' = [] \<Longrightarrow> df_errors s = []"
  by (auto simp: dfs_grows_def)

lemma visit_topological:
  "visit f g defs n s = Some s' \<Longrightarrow> dfs_ok s \<Longrightarrow> map_of (df_state s) n = None \<Longrightarrow> df_errors s' = [] \<Longrightarrow>
     (\<And>n. \<not> allows_cycles defs n) \<Longrightarrow> done_ok g s \<Longrightarrow> done_ok g s'"
  "visit_edges f g defs es s = Some s' \<Longrightarrow> dfs_ok s \<Longrightarrow> df_errors s' = [] \<Longrightarrow>
     (\<And>n. \<not> allows_cycles defs n) \<Longrightarrow> done_ok g s \<Longrightarrow>
     done_ok g s' \<and> (\<forall>t \<in> fst ` set es. map_of (df_state s') t = Some Visited)"
proof (induction f g defs n s and f g defs es s arbitrary: s' and s' rule: visit_visit_edges.induct)
  case (2 f g defs n s)
  then obtain s1 where s1: "visit_edges f g defs (gget0 [] g n) (enter n s) = Some s1" and s': "s' = leave n s1" by auto
  have ok: "dfs_ok (enter n s)" by (rule dfs_ok_enter [OF "2.prems"(2,3)])
  have "{m. map_of (df_state (enter n s)) m = Some Visited} = {m. map_of (df_state s) m = Some Visited}"
    using "2.prems"(3) by (auto simp: enter_def map_simps)
  then have "done_ok g (enter n s)" using "2.prems"(6) by (simp add: done_ok_def)
  from "2.IH" [OF s1 ok _ "2.prems"(5) this] "2.prems"(4) s'
  have d: "done_ok g s1" "\<forall>t \<in> fst ` set (gget0 [] g n). map_of (df_state s1) t = Some Visited"
    by (simp_all add: leave_def)
  have "map_of (df_state s1) n = Some Visiting"
    using visit_frame(2) [OF s1 ok] by (simp add: dfs_grows_def enter_def map_simps)
  moreover from d(1) obtain ns where "topological g ns" "set ns = {m. map_of (df_state s1) m = Some Visited}"
    by (auto simp: done_ok_def)
  ultimately have "topological g (n # ns)" "set (n # ns) = {m. map_of (df_state s') m = Some Visited}"
    using d(2) by (auto simp: s' leave_def map_simps)
  then show ?case unfolding done_ok_def by blast
next
  case (4 f g defs t i es s)
  show ?case
  proof (cases "map_of (df_state s) t")
    case None
    with "4.prems" obtain s1 where s1: "visit f g defs t s = Some s1" "visit_edges f g defs es s1 = Some s'"
      by (auto split: option.splits)
    have f1: "dfs_ok s1" "map_of (df_state s1) t = Some Visited"
      using visit_frame(1) [OF s1(1) "4.prems"(2) None] by auto
    have f2: "dfs_grows s1 s'" using visit_frame(2) [OF s1(2) f1(1)] by simp
    have "done_ok g s1"
      using "4.IH"(1) [OF None s1(1) "4.prems"(2) None grows_no_errors [OF f2 "4.prems"(3)] "4.prems"(4,5)] .
    from "4.IH"(2) [OF None s1 f1(1) "4.prems"(3,4) this] f1 f2 show ?thesis by (auto simp: dfs_grows_def)
  next
    case (Some v)
    show ?thesis
    proof (cases v)
      case Visiting
      with Some "4.prems" have e: "visit_edges f g defs es (back_edge defs t i s) = Some s'" by simp
      with visit_frame(2) [OF e] "4.prems"(2,3) have "df_errors (back_edge defs t i s) = []"
        by (auto intro: grows_no_errors)
      with back_edge_error [of s t defs i] "4.prems"(2,4) Some Visiting show ?thesis by simp
    next
      case Visited
      with 4 Some have e: "visit_edges f g defs es s = Some s'" by simp
      with visit_frame(2) [OF e] "4.prems"(2) have "map_of (df_state s') t = Some Visited"
        using Some Visited by (simp add: dfs_grows_def)
      with 4 Some Visited show ?thesis by simp
    qed
  qed
qed auto

lemma visit_roots_frame:
  "visit_roots f g defs ns s = Some s' \<Longrightarrow> dfs_ok s \<Longrightarrow> dfs_ok s' \<and> dfs_grows s s'"
proof (induction ns arbitrary: s)
  case (Cons n ns)
  then show ?case
    by (auto split: option.splits dest!: visit_frame(1) intro: dfs_grows_trans)
qed simp

lemma visit_roots_topological:
  "visit_roots f g defs ns s = Some s' \<Longrightarrow> dfs_ok s \<Longrightarrow> df_errors s' = [] \<Longrightarrow> (\<And>n. \<not> allows_cycles defs n) \<Longrightarrow>
     done_ok g s \<Longrightarrow> done_ok g s'"
proof (induction ns arbitrary: s)
  case (Cons n ns)
  show ?case
  proof (cases "map_of (df_state s) n")
    case None
    with Cons.prems obtain s1 where s1: "visit f g defs n s = Some s1" "visit_roots f g defs ns s1 = Some s'"
      by (auto split: option.splits)
    have ok: "dfs_ok s1" using visit_frame(1) [OF s1(1) Cons.prems(2) None] by simp
    have "df_errors s1 = []" using visit_roots_frame [OF s1(2) ok] Cons.prems(3) by (auto intro: grows_no_errors)
    with visit_topological(1) [OF s1(1) Cons.prems(2) None _ Cons.prems(4,5)] have "done_ok g s1" by simp
    from Cons.IH [OF s1(2) ok Cons.prems(3,4) this] show ?thesis .
  qed (use Cons in auto)
qed simp

lemma validateCycles_acyclic:
  assumes "validateCycles g defs = []" and "\<And>n. \<not> allows_cycles defs n"
    and "\<And>n. gget0 [] g n \<noteq> [] \<Longrightarrow> n \<in> fst ` set defs"
  shows "acyclic (edge_rel g)"
proof -
  obtain s where s: "visit_roots (dfs_bound g defs) g defs (sortedDefinitionIDs defs) dfs_start = Some s"
    "validateCycles g defs = df_errors s" "dfs_ok s" "df_stack s = []" "\<forall>n \<in> fst ` set defs. map_of (df_state s) n \<noteq> None"
    by (rule validateCycles_run)
  have "dfs_ok dfs_start" "done_ok g dfs_start"
    by (simp_all add: dfs_ok_def dfs_start_def done_ok_def exI [of _ "[]"])
  from visit_roots_topological [OF s(1) this(1) _ assms(2) this(2)] s(2) assms(1)
  obtain ns where ns: "topological g ns" "set ns = {n. map_of (df_state s) n = Some Visited}"
    by (auto simp: done_ok_def)
  have "n \<in> set ns" if "gget0 [] g n \<noteq> []" for n
  proof -
    have "map_of (df_state s) n \<noteq> None" using s(5) assms(3) [OF that] by blast
    moreover have "map_of (df_state s) n \<noteq> Some Visiting" using s(3,4) by (simp add: dfs_ok_def) 
    ultimately show ?thesis using ns(2) by (cases "map_of (df_state s) n") (auto intro: visit_state.exhaust)
  qed
  moreover have "gget0 [] g n \<noteq> []" if "(n, n) \<in> (edge_rel g)\<^sup>+" for n
    using tranclD [OF that] by (auto simp: edge_rel_def)
  ultimately show ?thesis using topological_acyclic [OF ns(1)] unfolding acyclic_def by blast
qed


section \<open>The scans\<close>

text \<open>The node an identifier names: the last one that carries it.\<close>

definition node_of :: "Node list \<Rightarrow> string \<Rightarrow> Node option" where
  "node_of ns i = map_of (rev (map (\<lambda>n. (nd_ID n, n)) ns)) i"

definition type_of :: "Registry \<Rightarrow> Node list \<Rightarrow> string \<Rightarrow> NodeDefinition option" where
  "type_of reg ns i = Option.bind (node_of ns i) (\<lambda>n. map_of reg (nd_Type n))"

lemma node_of_snoc [simp]: "node_of [] i = None" "node_of (ns @ [n]) i = (if i = nd_ID n then Some n else node_of ns i)"
  by (simp_all add: node_of_def)

lemma node_of_mem: "node_of ns i = Some n \<Longrightarrow> n \<in> set ns \<and> nd_ID n = i"
  by (induction ns rule: rev_induct) (auto split: if_splits)

lemma node_of_ex: "n \<in> set ns \<Longrightarrow> \<exists>m. node_of ns (nd_ID n) = Some m"
  by (induction ns rule: rev_induct) (auto split: if_splits)

lemma scan_nodes_snoc: "scan_nodes reg (ns @ [n]) = scan_node reg n (scan_nodes reg ns)"
  by (simp add: scan_nodes_def)

lemma scan_nodes_Nil [simp]:
  "scan_nodes reg [] = \<lparr>ns_errors = [], ns_nodes = [], ns_definitions = [], ns_singletons = [], ns_entries = [], ns_answerProducers = 0\<rparr>"
  by (simp add: scan_nodes_def)

definition node_ok :: "Registry \<Rightarrow> Node \<Rightarrow> bool" where
  "node_ok reg n \<longleftrightarrow>
     (\<exists>d. map_of reg (nd_Type n) = Some d \<and> emptyNodeConfig (nd_Config n) \<and>
        (nd_SchemaVersion n = 0 \<or> nd_SchemaVersion n = nt_SchemaVersion d))"

definition has_type :: "Registry \<Rightarrow> (NodeDefinition \<Rightarrow> bool) \<Rightarrow> Node \<Rightarrow> bool" where
  "has_type reg P n = (case map_of reg (nd_Type n) of None \<Rightarrow> False | Some d \<Rightarrow> P d)"

lemma err_if_Nil [simp]: "err_if b e = [] \<longleftrightarrow> \<not> b"
  by (simp add: err_if_def)

lemma scan_nodes_ok:
  assumes "ns_errors (scan_nodes reg ns) = []"
  shows "(\<forall>n \<in> set ns. node_ok reg n) \<and>
    map_of (ns_nodes (scan_nodes reg ns)) = node_of ns \<and>
    map_of (ns_definitions (scan_nodes reg ns)) = type_of reg ns \<and>
    ns_entries (scan_nodes reg ns) = map nd_ID (filter (has_type reg nt_Entry) ns) \<and>
    ns_answerProducers (scan_nodes reg ns) = length (filter (has_type reg nt_ProducesAnswer) ns)"
  using assms
proof (induction ns rule: rev_induct)
  case (snoc n ns)
  let ?s = "scan_nodes reg ns"
  obtain d where d: "map_of reg (nd_Type n) = Some d"
    using snoc.prems by (cases "map_of reg (nd_Type n)") (auto simp: scan_nodes_snoc scan_node_def Registry_Lookup_def Let_def)
  with snoc.prems have e: "ns_errors ?s = []" "emptyNodeConfig (nd_Config n)"
    "nd_SchemaVersion n = 0 \<or> nd_SchemaVersion n = nt_SchemaVersion d"
    by (auto simp: scan_nodes_snoc scan_node_def Registry_Lookup_def Let_def)
  from snoc.IH [OF e(1)] d e(2,3) show ?case
    by (auto simp: scan_nodes_snoc scan_node_def Registry_Lookup_def Let_def map_simps node_ok_def has_type_def
        type_of_def fun_eq_iff)
qed (simp add: fun_eq_iff type_of_def)

text \<open>An edge between known nodes, over existing ports of one type, to an allowed target.\<close>

definition edge_ok :: "Registry \<Rightarrow> Node list \<Rightarrow> Edge \<Rightarrow> bool" where
  "edge_ok reg ns e \<longleftrightarrow>
     (\<exists>tgt sd td sp tp.
        node_of ns (ed_TargetNodeID e) = Some tgt \<and>
        type_of reg ns (ed_SourceNodeID e) = Some sd \<and> type_of reg ns (ed_TargetNodeID e) = Some td \<and>
        findPort (nt_Outputs sd) (ed_SourcePort e) = Some sp \<and> findPort (nt_Inputs td) (ed_TargetPort e) = Some tp \<and>
        pd_Type sp = pd_Type tp \<and> (nt_AllowedTargets sd = [] \<or> nd_Type tgt \<in> set (nt_AllowedTargets sd)))"

definition accept_edge :: "Edge \<Rightarrow> edge_scan \<Rightarrow> edge_scan" where
  "accept_edge e s =
     s\<lparr>es_outgoing := gput (ed_SourceNodeID e) (gget0 [] (es_outgoing s) (ed_SourceNodeID e) @ [ed_TargetNodeID e]) (es_outgoing s),
       es_graphEdges := gput (ed_SourceNodeID e)
         (gget0 [] (es_graphEdges s) (ed_SourceNodeID e) @ [(ed_TargetNodeID e, ed_ID e)]) (es_graphEdges s),
       es_portCounts := bump (portKey (ed_TargetNodeID e) ''in'' (ed_TargetPort e))
         (bump (portKey (ed_SourceNodeID e) ''out'' (ed_SourcePort e)) (es_portCounts s))\<rparr>"

lemma findPort_name: "findPort ps i = Some p \<Longrightarrow> pd_Name p = i \<and> p \<in> set ps"
  by (induction ps) (auto split: if_splits)

lemma type_of_node_of: "type_of reg ns i = Some d \<Longrightarrow> \<exists>n. node_of ns i = Some n \<and> map_of reg (nd_Type n) = Some d"
  by (auto simp: type_of_def bind_eq_Some_conv)

lemma scan_edge_cases:
  assumes "ns_errors (scan_nodes reg ns) = []" and "es_errors (scan_edge (scan_nodes reg ns) e s) = es_errors s"
  shows "edge_ok reg ns e" and "scan_edge (scan_nodes reg ns) e s = accept_edge e s"
proof -
  note ok = scan_nodes_ok [OF assms(1)]
  have nodes: "map_of (ns_nodes (scan_nodes reg ns)) = node_of ns" "map_of (ns_definitions (scan_nodes reg ns)) = type_of reg ns"
    using ok by simp_all
  have known: "\<exists>d. type_of reg ns i = Some d" if "node_of ns i = Some n" for i n
    using that node_of_mem [OF that] ok by (auto simp: type_of_def node_ok_def)
  obtain src where src: "node_of ns (ed_SourceNodeID e) = Some src"
    using assms(2) by (cases "node_of ns (ed_SourceNodeID e)") (auto simp: scan_edge_def nodes)
  obtain tgt where tgt: "node_of ns (ed_TargetNodeID e) = Some tgt"
    using assms(2) src by (cases "node_of ns (ed_TargetNodeID e)") (auto simp: scan_edge_def nodes)
  have ids: "nd_ID src = ed_SourceNodeID e" "nd_ID tgt = ed_TargetNodeID e" using node_of_mem src tgt by auto
  obtain sd td where d: "type_of reg ns (ed_SourceNodeID e) = Some sd" "type_of reg ns (ed_TargetNodeID e) = Some td"
    using known [OF src] known [OF tgt] by blast
  note scan = scan_edge_def [of "scan_nodes reg ns" e s, unfolded nodes src tgt option.case prod.case ids d]
  obtain sp tp where p: "findPort (nt_Outputs sd) (ed_SourcePort e) = Some sp" "findPort (nt_Inputs td) (ed_TargetPort e) = Some tp"
    using assms(2) unfolding scan by (auto split: option.splits)
  note scan' = scan [unfolded p option.case prod.case]
  have c: "pd_Type sp = pd_Type tp" "nt_AllowedTargets sd = [] \<or> nd_Type tgt \<in> set (nt_AllowedTargets sd)"
    using assms(2) unfolding scan' by (auto split: if_splits)
  with tgt d p show "edge_ok reg ns e" by (auto simp: edge_ok_def)
  have "pd_Name sp = ed_SourcePort e" "pd_Name tp = ed_TargetPort e" using p findPort_name by auto
  with c show "scan_edge (scan_nodes reg ns) e s = accept_edge e s" unfolding scan' by (auto simp: accept_edge_def)
qed

lemma scan_edge_errors: "\<exists>new. es_errors (scan_edge ns e s) = es_errors s @ new"
  by (auto simp: scan_edge_def split: option.splits)

lemma scan_edges_snoc: "scan_edges ns (es @ [e]) = scan_edge ns e (scan_edges ns es)"
  by (simp add: scan_edges_def)

definition edges_at :: "string \<Rightarrow> string \<Rightarrow> Edge list \<Rightarrow> int" where
  "edges_at dir key es =
     int (length (filter (\<lambda>e. (if dir = ''in'' then portKey (ed_TargetNodeID e) ''in'' (ed_TargetPort e)
        else portKey (ed_SourceNodeID e) ''out'' (ed_SourcePort e)) = key) es))"

lemma scan_edges_ok:
  assumes "ns_errors (scan_nodes reg ns) = []" and "es_errors (scan_edges (scan_nodes reg ns) es) = []"
  shows "(\<forall>e \<in> set es. edge_ok reg ns e) \<and>
    (\<forall>a. gget0 [] (es_outgoing (scan_edges (scan_nodes reg ns) es)) a = map ed_TargetNodeID (filter (\<lambda>e. ed_SourceNodeID e = a) es)) \<and>
    (\<forall>a. gget0 [] (es_graphEdges (scan_edges (scan_nodes reg ns) es)) a =
       map (\<lambda>e. (ed_TargetNodeID e, ed_ID e)) (filter (\<lambda>e. ed_SourceNodeID e = a) es)) \<and>
    (\<forall>k. gget0 0 (es_portCounts (scan_edges (scan_nodes reg ns) es)) k = edges_at ''in'' k es + edges_at ''out'' k es)"
  using assms(2)
proof (induction es rule: rev_induct)
  case (snoc e es)
  let ?s = "scan_edges (scan_nodes reg ns) es"
  obtain new where new: "es_errors (scan_edge (scan_nodes reg ns) e ?s) = es_errors ?s @ new"
    using scan_edge_errors by blast
  with snoc.prems have z: "es_errors ?s = []" "new = []" by (simp_all add: scan_edges_snoc)
  have "edge_ok reg ns e" "scan_edge (scan_nodes reg ns) e ?s = accept_edge e ?s"
    using scan_edge_cases [OF assms(1), of e ?s] new z by auto
  with snoc.IH [OF z(1)] show ?case
    by (auto simp: scan_edges_snoc accept_edge_def gget0_def bump_def map_simps edges_at_def split: option.splits)
qed (simp add: scan_edges_def gget0_def edges_at_def)


section \<open>What a definition without errors is\<close>

definition graph_of :: "Definition \<Rightarrow> (string \<times> string) set" where
  "graph_of p = (\<lambda>e. (ed_SourceNodeID e, ed_TargetNodeID e)) ` set (def_Edges p)"

lemma Validate_parts:
  assumes "Validate p reg = []"
  shows "ns_errors (scan_nodes reg (def_Nodes p)) = []"
    and "length (ns_entries (scan_nodes reg (def_Nodes p))) = 1"
    and "ns_answerProducers (scan_nodes reg (def_Nodes p)) \<noteq> 0"
    and "es_errors (scan_edges (scan_nodes reg (def_Nodes p)) (def_Edges p)) = []"
    and "check_ports (es_portCounts (scan_edges (scan_nodes reg (def_Nodes p)) (def_Edges p)))
      (ns_definitions (scan_nodes reg (def_Nodes p))) = []"
    and "validateCycles (es_graphEdges (scan_edges (scan_nodes reg (def_Nodes p)) (def_Edges p)))
      (ns_definitions (scan_nodes reg (def_Nodes p))) = []"
  using assms by (simp_all add: Validate_def Let_def)

lemma Validate_reachable:
  assumes "Validate p reg = []" and "ns_entries (scan_nodes reg (def_Nodes p)) = [entry]"
    and "n \<in> set (def_Nodes p)" and "map_of (ns_definitions (scan_nodes reg (def_Nodes p))) (nd_ID n) \<noteq> None"
  shows "nd_ID n \<in> set (reachableFrom entry (es_outgoing (scan_edges (scan_nodes reg (def_Nodes p)) (def_Edges p))))"
  using assms by (auto simp: Validate_def Let_def)

lemma edges_at_bound:
  "int (length (filter (\<lambda>e. ed_TargetNodeID e = i \<and> ed_TargetPort e = q) es)) \<le> edges_at ''in'' (portKey i ''in'' q) es"
  "int (length (filter (\<lambda>e. ed_SourceNodeID e = i \<and> ed_SourcePort e = q) es)) \<le> edges_at ''out'' (portKey i ''out'' q) es"
  "0 \<le> edges_at d k es"
  unfolding edges_at_def by (induction es) auto

lemma check_ports_ok:
  assumes "check_ports counts defs = []" and "map_of defs i = Some d"
  shows "port \<in> set (nt_Inputs d) \<Longrightarrow> 0 < pd_MaxConnections port \<Longrightarrow>
      gget0 0 counts (portKey i ''in'' (pd_Name port)) \<le> pd_MaxConnections port"
    and "port \<in> set (nt_Outputs d) \<Longrightarrow> 0 < pd_MaxConnections port \<Longrightarrow>
      gget0 0 counts (portKey i ''out'' (pd_Name port)) \<le> pd_MaxConnections port"
proof -
  have "i \<in> set (sortedDefinitionIDs defs)"
    using map_of_SomeD [OF assms(2)] by (force simp: sortedDefinitionIDs_def)
  with assms have "\<forall>port \<in> set (nt_Inputs d). check_input counts i port = []"
    "\<forall>port \<in> set (nt_Outputs d). check_output counts i port = []"
    by (fastforce simp: check_ports_def)+
  then show "port \<in> set (nt_Inputs d) \<Longrightarrow> 0 < pd_MaxConnections port \<Longrightarrow>
      gget0 0 counts (portKey i ''in'' (pd_Name port)) \<le> pd_MaxConnections port"
    "port \<in> set (nt_Outputs d) \<Longrightarrow> 0 < pd_MaxConnections port \<Longrightarrow>
      gget0 0 counts (portKey i ''out'' (pd_Name port)) \<le> pd_MaxConnections port"
    by (auto simp: check_input_def check_output_def Let_def)
qed

text \<open>
  C15 (functional). A definition the validator accepts is a well-formed query graph: every node has a
  registered type, an empty configuration and a supported schema version; there is exactly one entry
  and at least one node that produces the answer; every edge joins existing nodes over existing ports
  of the same type to an allowed target; no port has more connections than its maximum; and every node
  is reachable from the entry.
\<close>

theorem valid_pipeline_well_formed:
  assumes "Validate p reg = []"
  shows "(\<forall>n \<in> set (def_Nodes p). node_ok reg n) \<and>
    (\<exists>n \<in> set (def_Nodes p). has_type reg nt_ProducesAnswer n) \<and>
    (\<forall>e \<in> set (def_Edges p). edge_ok reg (def_Nodes p) e) \<and>
    (\<exists>entry. filter (has_type reg nt_Entry) (def_Nodes p) = [entry] \<and>
       (\<forall>n \<in> set (def_Nodes p). (nd_ID entry, nd_ID n) \<in> (graph_of p)\<^sup>*)) \<and>
    (\<forall>i d port. type_of reg (def_Nodes p) i = Some d \<longrightarrow> 0 < pd_MaxConnections port \<longrightarrow>
       (port \<in> set (nt_Inputs d) \<longrightarrow>
          int (length (filter (\<lambda>e. ed_TargetNodeID e = i \<and> ed_TargetPort e = pd_Name port) (def_Edges p))) \<le> pd_MaxConnections port) \<and>
       (port \<in> set (nt_Outputs d) \<longrightarrow>
          int (length (filter (\<lambda>e. ed_SourceNodeID e = i \<and> ed_SourcePort e = pd_Name port) (def_Edges p))) \<le> pd_MaxConnections port))"
proof (intro conjI allI impI)
  let ?ns = "scan_nodes reg (def_Nodes p)" and ?es = "scan_edges (scan_nodes reg (def_Nodes p)) (def_Edges p)"
  note parts = Validate_parts [OF assms]
  note nodes = scan_nodes_ok [OF parts(1)] and edges = scan_edges_ok [OF parts(1,4)]
  show "\<forall>n \<in> set (def_Nodes p). node_ok reg n" "\<forall>e \<in> set (def_Edges p). edge_ok reg (def_Nodes p) e"
    using nodes edges by simp_all
  show "\<exists>n \<in> set (def_Nodes p). has_type reg nt_ProducesAnswer n"
    using nodes parts(3) by (auto simp: filter_empty_conv)
  have "length (filter (has_type reg nt_Entry) (def_Nodes p)) = 1" using nodes parts(2) by simp
  then obtain entry where entry: "filter (has_type reg nt_Entry) (def_Nodes p) = [entry]"
    by (auto simp: length_Suc_conv)
  have rel: "succ_rel (es_outgoing ?es) = graph_of p"
    using edges by (auto simp: succ_rel_def graph_of_def)
  have "(nd_ID entry, nd_ID n) \<in> (graph_of p)\<^sup>*" if n: "n \<in> set (def_Nodes p)" for n
  proof -
    have "map_of (ns_definitions ?ns) (nd_ID n) \<noteq> None"
      using nodes n node_of_ex [OF n] node_of_mem by (fastforce simp: type_of_def node_ok_def)
    with Validate_reachable [OF assms _ n] nodes entry
    show ?thesis using reach_loop_sound [of "[nd_ID entry]" "[nd_ID entry]" "es_outgoing ?es"]
      by (auto simp: reachableFrom_def rel)
  qed
  with entry show "\<exists>entry. filter (has_type reg nt_Entry) (def_Nodes p) = [entry] \<and>
      (\<forall>n \<in> set (def_Nodes p). (nd_ID entry, nd_ID n) \<in> (graph_of p)\<^sup>*)" by blast
  fix i d and port :: PortDefinition assume d: "type_of reg (def_Nodes p) i = Some d" and m: "0 < pd_MaxConnections port"
  have d': "map_of (ns_definitions ?ns) i = Some d" using nodes d by simp
  show "int (length (filter (\<lambda>e. ed_TargetNodeID e = i \<and> ed_TargetPort e = pd_Name port) (def_Edges p))) \<le> pd_MaxConnections port"
    if "port \<in> set (nt_Inputs d)"
    using check_ports_ok(1) [OF parts(5) d' that m] edges edges_at_bound(1) [of i "pd_Name port" "def_Edges p"]
      edges_at_bound(3) [of "''out''" "portKey i ''in'' (pd_Name port)" "def_Edges p"] by simp
  show "int (length (filter (\<lambda>e. ed_SourceNodeID e = i \<and> ed_SourcePort e = pd_Name port) (def_Edges p))) \<le> pd_MaxConnections port"
    if "port \<in> set (nt_Outputs d)"
    using check_ports_ok(2) [OF parts(5) d' that m] edges edges_at_bound(2) [of i "pd_Name port" "def_Edges p"]
      edges_at_bound(3) [of "''in''" "portKey i ''out'' (pd_Name port)" "def_Edges p"] by simp
qed

text \<open>
  With a registry in which no node type allows cycles, as the built-in one, a definition
  the validator accepts is acyclic.
\<close>

lemma valid_pipeline_acyclic:
  assumes "Validate p reg = []" and "\<forall>d \<in> ran (map_of reg). \<not> nt_AllowsCycles d"
  shows "acyclic (graph_of p)"
proof -
  let ?ns = "scan_nodes reg (def_Nodes p)" and ?es = "scan_edges (scan_nodes reg (def_Nodes p)) (def_Edges p)"
  note parts = Validate_parts [OF assms(1)]
  note nodes = scan_nodes_ok [OF parts(1)] and edges = scan_edges_ok [OF parts(1,4)]
  have "\<not> allows_cycles (ns_definitions ?ns) n" for n
    using assms(2) nodes by (auto simp: allows_cycles_def ran_def split: option.splits dest!: type_of_node_of)
  moreover have "n \<in> fst ` set (ns_definitions ?ns)" if n: "gget0 [] (es_graphEdges ?es) n \<noteq> []" for n
  proof -
    obtain e where "e \<in> set (def_Edges p)" "ed_SourceNodeID e = n"
      using edges n by (auto simp: filter_empty_conv)
    then obtain d where "map_of (ns_definitions ?ns) n = Some d" using edges nodes by (auto simp: edge_ok_def)
    then show ?thesis by (metis map_of_eq_None_iff option.distinct(1))
  qed
  ultimately have "acyclic (edge_rel (es_graphEdges ?es))" by (rule validateCycles_acyclic [OF parts(6)])
  moreover have "edge_rel (es_graphEdges ?es) = graph_of p"
    using edges by (auto simp: edge_rel_def graph_of_def image_image)
  ultimately show ?thesis by simp
qed


text \<open>The built-in stages in their order, each connected to the next.\<close>

definition stage_chain :: "nat \<Rightarrow> Definition" where
  "stage_chain k =
     \<lparr>def_Nodes = map (\<lambda>s. \<lparr>nd_ID = fst s, nd_Type = fst s, nd_SchemaVersion = 1, nd_Config = ''{ }''\<rparr>) (take k builtin_stages),
      def_Edges = map (\<lambda>(a, b). \<lparr>ed_ID = fst a @ fst b, ed_SourceNodeID = fst a, ed_SourcePort = ''out'',
        ed_TargetNodeID = fst b, ed_TargetPort = ''in''\<rparr>)
        (zip (take (k - 1) builtin_stages) (tl (take k builtin_stages)))\<rparr>"

definition builtin :: Registry where
  "builtin = (case BuiltinRegistry of Some reg \<Rightarrow> reg | None \<Rightarrow> [])"

lemma stage_chain_valid: "Validate (stage_chain 11) builtin = []"
  by code_simp

theorem valid_pipeline_well_formed_witness:
  "Validate (stage_chain 11) builtin = [] \<and> length (def_Nodes (stage_chain 11)) = 11 \<and>
   list_all (node_ok builtin) (def_Nodes (stage_chain 11)) \<and>
   list_all (edge_ok builtin (def_Nodes (stage_chain 11))) (def_Edges (stage_chain 11))"
proof -
  have "length (def_Nodes (stage_chain 11)) = 11" by code_simp
  with valid_pipeline_well_formed [OF stage_chain_valid] stage_chain_valid show ?thesis
    unfolding list_all_iff by blast
qed

lemma valid_pipeline_acyclic_witness: "acyclic (graph_of (stage_chain 11))"
proof (rule valid_pipeline_acyclic [OF stage_chain_valid])
  have "list_all (\<lambda>p. \<not> nt_AllowsCycles (snd p)) builtin" by code_simp
  then show "\<forall>d \<in> ran (map_of builtin). \<not> nt_AllowsCycles d"
    by (auto simp: ran_def list_all_iff dest!: map_of_SomeD)
qed

definition looping :: "string \<Rightarrow> bool \<Rightarrow> string \<times> NodeDefinition" where
  "looping i b = (i, (builtin_definition 1)\<lparr>nt_Type := i, nt_AllowsCycles := b\<rparr>)"

definition tangled :: "(string, (string \<times> string) list) gomap" where
  "tangled = [(''a'', [(''b'', ''e1''), (''d'', ''e2'')]), (''b'', [(''a'', ''e3'')]), (''d'', [(''b'', ''e4'')])]"

text \<open>
  With node types that allow cycles the check is incomplete: it looks only at the cycle
  that an edge closes on the current path. Here \<open>d\<close> does not allow cycles and lies on the cycle
  d, b, a, but the search has finished b before it comes to d, and reports nothing.
\<close>

lemma forbidden_cycle_missed:
  "let defs = [looping ''a'' True, looping ''b'' True, looping ''d'' False]
   in validateCycles tangled defs = [] \<and> \<not> allows_cycles defs ''d'' \<and> (''d'', ''d'') \<in> (edge_rel tangled)\<^sup>+"
proof -
  have "(''d'', ''b'') \<in> edge_rel tangled" "(''b'', ''a'') \<in> edge_rel tangled" "(''a'', ''d'') \<in> edge_rel tangled"
    by (force simp: edge_rel_def tangled_def gget0_def)+
  then have "(''d'', ''d'') \<in> (edge_rel tangled)\<^sup>+" by (meson trancl.simps)
  moreover have "validateCycles tangled [looping ''a'' True, looping ''b'' True, looping ''d'' False] = []"
    "\<not> allows_cycles [looping ''a'' True, looping ''b'' True, looping ''d'' False] ''d''"
    by code_simp+
  ultimately show ?thesis by (simp add: Let_def)
qed

section \<open>Drafts\<close>

definition draft_revision :: "MemoryPipelineRepository \<Rightarrow> string \<times> string \<Rightarrow> int64 option" where
  "draft_revision r k =
     (case map_of (mp_drafts r) (snd k) of
        None \<Rightarrow> None
      | Some d \<Rightarrow> if dr_ProjectID d = fst k then Some (dr_Revision d) else None)"

definition save_draft ::
  "Registry \<Rightarrow> string \<times> string \<Rightarrow> int64 \<Rightarrow> gotime \<times> Definition \<Rightarrow> MemoryPipelineRepository \<Rightarrow> MemoryPipelineRepository \<times> bool" where
  "save_draft reg k n v r =
     (case Service_SaveDraft reg (fst v) (fst k) (snd k) n (snd v) r of (r', d, err) \<Rightarrow> (r', err = None))"

lemma cloneDraft_sel [simp]:
  "dr_ProjectID (cloneDraft d) = dr_ProjectID d" "dr_Revision (cloneDraft d) = dr_Revision d"
  by (simp_all add: cloneDraft_def)

interpretation drafts: revision_store draft_revision "\<lambda>v. Validate (snd v) reg = []" "save_draft reg" for reg
  by unfold_locales
    (auto simp: save_draft_def Service_SaveDraft_def repo_SaveDraft_def draft_revision_def Let_def map_simps
      split: option.splits if_splits)

text \<open>
  No draft is overwritten unseen: an editor who read a draft and saves a valid definition
  after any number of other saves succeeds exactly when none of them was accepted for this draft in
  between; otherwise the save is refused and the repository stays as it is.
\<close>

lemma draft_no_lost_update:
  assumes "draft_revision r k = Some n" and "Validate definition' reg = []"
    and "revision_store.accepted_on (save_draft reg) k ws r < 2 ^ 64"
  shows "if revision_store.accepted_on (save_draft reg) k ws r = 0
    then snd (save_draft reg k n (now, definition') (fst (revision_store.writes (save_draft reg) ws r)))
    else save_draft reg k n (now, definition') (fst (revision_store.writes (save_draft reg) ws r)) =
      (fst (revision_store.writes (save_draft reg) ws r), False)"
  using drafts.no_lost_update [of r k n "(now, definition')" reg ws] assms by simp


definition draft_repo :: MemoryPipelineRepository where
  "draft_repo = fst (Service_CreatePipeline \<lparr>pl_ID = ''pl'', pl_ProjectID = ''shop'', pl_Name = ''main'',
     pl_CreatedAt = 1, pl_UpdatedAt = 1\<rparr> NewMemoryPipelineRepository)"

lemma draft_no_lost_update_witness:
  "let ws = [((''shop'', ''pl''), 0, (5, stage_chain 11))]
   in save_draft builtin (''shop'', ''pl'') 0 (6, stage_chain 11) (fst (revision_store.writes (save_draft builtin) ws draft_repo)) =
        (fst (revision_store.writes (save_draft builtin) ws draft_repo), False)"
proof -
  have r: "draft_revision draft_repo (''shop'', ''pl'') = Some 0" by code_simp
  have "revision_store.accepted_on (save_draft builtin) (''shop'', ''pl'') [((''shop'', ''pl''), 0, (5, stage_chain 11))] draft_repo = 1"
    by (simp add: r stage_chain_valid)
  with draft_no_lost_update [OF r stage_chain_valid, of "[((''shop'', ''pl''), 0, (5, stage_chain 11))]" 6]
  show ?thesis by (simp only: Let_def) simp
qed

end
