(* ===== verification/Crypto.thy ===== *)
theory Crypto
  imports Prelude
begin

unbundle bit_operations_syntax

text \<open>
  The functions of the Go standard library that \<^verbatim>\<open>internal/auth\<close> uses on bytes: the unpadded
  URL-safe base64 encoding with its decoder, SHA-256 and HMAC-SHA-256. A byte string is a string.
\<close>

section \<open>Base64\<close>

definition b64_alphabet :: string where
  "b64_alphabet = ''ABCDEFGHIJKLMNOPQRSTUVWXYZabcdefghijklmnopqrstuvwxyz0123456789-_''"

definition b64_char :: "nat \<Rightarrow> char" where
  "b64_char n = b64_alphabet ! n"

fun index_of :: "char \<Rightarrow> string \<Rightarrow> nat option" where
  "index_of c [] = None"
| "index_of c (d # ds) = (if c = d then Some 0 else map_option Suc (index_of c ds))"

definition b64_value :: "char \<Rightarrow> nat option" where
  "b64_value c = index_of c b64_alphabet"

fun b64_encode_bytes :: "nat list \<Rightarrow> nat list" where
  "b64_encode_bytes [] = []"
| "b64_encode_bytes [a] = [a div 4, (a mod 4) * 16]"
| "b64_encode_bytes [a, b] = [a div 4, (a mod 4) * 16 + b div 16, (b mod 16) * 4]"
| "b64_encode_bytes (a # b # c # rest) =
     [a div 4, (a mod 4) * 16 + b div 16, (b mod 16) * 4 + c div 64, c mod 64] @ b64_encode_bytes rest"

definition EncodeToString :: "string \<Rightarrow> string" where
  "EncodeToString bs = map b64_char (b64_encode_bytes (map of_char bs))"

fun b64_decode_sextets :: "nat list \<Rightarrow> nat list option" where
  "b64_decode_sextets [] = Some []"
| "b64_decode_sextets [x] = None"
| "b64_decode_sextets [x, y] = Some [x * 4 + y div 16]"
| "b64_decode_sextets [x, y, z] = Some [x * 4 + y div 16, (y mod 16) * 16 + z div 4]"
| "b64_decode_sextets (x # y # z # w # rest) =
     map_option (\<lambda>r. [x * 4 + y div 16, (y mod 16) * 16 + z div 4, (z mod 4) * 64 + w] @ r)
       (b64_decode_sextets rest)"

text \<open>The decoder skips line feeds and carriage returns and refuses every other foreign character.\<close>

definition DecodeString :: "string \<Rightarrow> string option" where
  "DecodeString s =
     (case those (map b64_value (filter (\<lambda>c. c \<noteq> CHR 0x0A \<and> c \<noteq> CHR 0x0D) s)) of
        None \<Rightarrow> None
      | Some vs \<Rightarrow> map_option (map char_of) (b64_decode_sextets vs))"

lemma b64_encode_bytes_bound:
  "\<forall>b \<in> set bs. b < 256 \<Longrightarrow> \<forall>v \<in> set (b64_encode_bytes bs). v < 64"
  by (induction bs rule: b64_encode_bytes.induct) auto

lemma b64_decode_encode_bytes: "b64_decode_sextets (b64_encode_bytes bs) = Some bs"
  if "\<forall>b \<in> set bs. b < 256"
  using that by (induction bs rule: b64_encode_bytes.induct) auto

lemma b64_chars: "list_all (\<lambda>n. b64_value (b64_char n) = Some n \<and> b64_char n \<noteq> CHR 0x0A \<and> b64_char n \<noteq> CHR 0x0D) [0..<64]"
  by code_simp

lemma b64_char_value:
  assumes "n < 64"
  shows "b64_value (b64_char n) = Some n" "b64_char n \<noteq> CHR 0x0A" "b64_char n \<noteq> CHR 0x0D"
  using b64_chars assms by (auto simp: list_all_iff)

lemma those_Some: "those (map f xs) = Some ys" if "map f xs = map Some ys"
  using that by (induction xs arbitrary: ys) (auto simp: Cons_eq_map_conv)

lemma DecodeString_EncodeToString: "DecodeString (EncodeToString bs) = Some bs"
proof -
  let ?vs = "b64_encode_bytes (map of_char bs)"
  have byte: "\<forall>b \<in> set (map of_char bs). b < (256 :: nat)" by auto
  have v: "v < 64" if "v \<in> set ?vs" for v using b64_encode_bytes_bound [OF byte] that by blast
  then have "filter (\<lambda>c. c \<noteq> CHR 0x0A \<and> c \<noteq> CHR 0x0D) (map b64_char ?vs) = map b64_char ?vs"
    by (auto simp: filter_id_conv b64_char_value)
  moreover have "map b64_value (map b64_char ?vs) = map Some ?vs"
    using v by (simp add: b64_char_value)
  then have "those (map b64_value (map b64_char ?vs)) = Some ?vs" by (rule those_Some)
  moreover have "map char_of (map of_char bs :: nat list) = bs" by (simp add: comp_def)
  ultimately show ?thesis
    using b64_decode_encode_bytes [OF byte]
    by (simp add: DecodeString_def EncodeToString_def comp_def del: map_map)
qed

section \<open>SHA-256\<close>

type_synonym word32 = "32 word"

text \<open>
  The constants are the first 32 bits of the fractional parts of the cube roots of the first 64
  primes and of the square roots of the first eight, computed by integer roots.
\<close>

definition sha_primes :: "int list" where
  "sha_primes = filter (\<lambda>n. list_all (\<lambda>d. n mod d \<noteq> 0) [2..n - 1]) [2..311]"

definition sha_k :: "word32 list" where
  "sha_k = map (\<lambda>p. of_int (iroot 3 (p * 2 ^ 96))) sha_primes"

definition sha_init :: "word32 list" where
  "sha_init = map (\<lambda>p. of_int (iroot 2 (p * 2 ^ 64))) (take 8 sha_primes)"

definition big_endian :: "nat \<Rightarrow> nat \<Rightarrow> string" where
  "big_endian k n = map (\<lambda>i. char_of (n div 256 ^ (k - 1 - i))) [0..<k]"

definition sha_pad :: "string \<Rightarrow> string" where
  "sha_pad m = m @ [CHR 0x80] @ replicate ((119 - length m mod 64) mod 64) (CHR 0x00) @ big_endian 8 (8 * length m)"

fun words_of :: "string \<Rightarrow> word32 list" where
  "words_of (a # b # c # d # rest) =
     of_nat (of_char a * 0x1000000 + of_char b * 0x10000 + of_char c * 0x100 + of_char d) # words_of rest"
| "words_of _ = []"

definition sha_extend :: "word32 list \<Rightarrow> word32 list" where
  "sha_extend ws =
     fold (\<lambda>i w.
         let s0 = (let x = w ! (i - 15) in word_rotr 7 x XOR word_rotr 18 x XOR drop_bit 3 x);
             s1 = (let x = w ! (i - 2) in word_rotr 17 x XOR word_rotr 19 x XOR drop_bit 10 x)
         in w @ [w ! (i - 16) + s0 + w ! (i - 7) + s1]) [16..<64] ws"

fun sha_round :: "word32 \<times> word32 \<Rightarrow> word32 list \<Rightarrow> word32 list" where
  "sha_round (k, w) [a, b, c, d, e, f, g, h] =
     (let s1 = word_rotr 6 e XOR word_rotr 11 e XOR word_rotr 25 e;
          ch = (e AND f) XOR (NOT e AND g);
          t1 = h + s1 + ch + k + w;
          s0 = word_rotr 2 a XOR word_rotr 13 a XOR word_rotr 22 a;
          maj = (a AND b) XOR (a AND c) XOR (b AND c);
          t2 = s0 + maj
      in [t1 + t2, a, b, c, d + t1, e, f, g])"
| "sha_round _ hs = hs"

definition sha_block :: "word32 list \<Rightarrow> word32 list \<Rightarrow> word32 list" where
  "sha_block ws hs = map2 (+) hs (fold sha_round (zip sha_k (sha_extend ws)) hs)"

function sha_blocks :: "word32 list \<Rightarrow> word32 list \<Rightarrow> word32 list" where
  "sha_blocks ws hs = (if length ws < 16 then hs else sha_blocks (drop 16 ws) (sha_block (take 16 ws) hs))"
  by pat_completeness auto
termination by (relation "measure (\<lambda>(ws, hs). length ws)") auto

declare sha_blocks.simps [simp del]

definition sha256_Sum :: "string \<Rightarrow> string" where
  "sha256_Sum m = concat (map (\<lambda>w. big_endian 4 (unat w)) (sha_blocks (words_of (sha_pad m)) sha_init))"

definition xor_pad :: "nat \<Rightarrow> string \<Rightarrow> string" where
  "xor_pad b key = map (\<lambda>c. char_of (of_char c XOR b)) (key @ replicate (64 - length key) (CHR 0x00))"

definition hmac_sha256 :: "string \<Rightarrow> string \<Rightarrow> string" where
  "hmac_sha256 key message =
     (let key = (if length key > 64 then sha256_Sum key else key)
      in sha256_Sum (xor_pad 0x5c key @ sha256_Sum (xor_pad 0x36 key @ message)))"

end
