(* ===== verification/Auth.thy ===== *)
theory Auth
  imports Crypto
begin

text \<open>
  Authentication and authorization of \<^verbatim>\<open>internal/auth\<close>: principals (\<^verbatim>\<open>principal.go\<close>), the policy
  (\<^verbatim>\<open>policy.go\<close>), API keys with their service (\<^verbatim>\<open>api_key.go\<close>) and their in-memory repository
  (\<^verbatim>\<open>api_key_memory.go\<close>). Bearer tokens (\<^verbatim>\<open>token.go\<close>) are not modelled.
\<close>

section \<open>Principals and the policy\<close>

record Principal =
  p_Kind :: string
  p_SubjectID :: string
  p_TenantID :: string
  p_Role :: string
  p_ProjectID :: string

abbreviation PrincipalUser :: string where "PrincipalUser \<equiv> ''user''"
abbreviation PrincipalAPIKey :: string where "PrincipalAPIKey \<equiv> ''api_key''"
abbreviation RoleTenantAdmin :: string where "RoleTenantAdmin \<equiv> ''tenant_admin''"
abbreviation RoleProjectEditor :: string where "RoleProjectEditor \<equiv> ''project_editor''"
abbreviation RoleProjectViewer :: string where "RoleProjectViewer \<equiv> ''project_viewer''"

definition Principal_Valid :: "Principal \<Rightarrow> bool" where
  "Principal_Valid p =
     (if TrimSpace (p_SubjectID p) = [] \<or> TrimSpace (p_TenantID p) = [] then False
      else if p_Kind p \<noteq> PrincipalUser \<and> p_Kind p \<noteq> PrincipalAPIKey then False
      else if p_Role p = RoleTenantAdmin then True
      else if p_Role p = RoleProjectEditor \<or> p_Role p = RoleProjectViewer then TrimSpace (p_ProjectID p) \<noteq> []
      else False)"

text \<open>The actions of the policy, in three groups as the code tests them.\<close>

definition tenant_wide_actions :: "string list" where
  "tenant_wide_actions = [''api_key.manage'', ''project.create'', ''project.list'', ''tutorial_clone.create'']"

definition project_actions :: "string list" where
  "project_actions = [''project.read'', ''project.update'']"

definition resource_actions :: "string list" where
  "resource_actions =
     [''resource.read'', ''resource.write'', ''tutorial_clone.read'', ''tutorial_clone.retry'', ''tutorial_run.create'',
      ''tutorial_run.read'', ''tutorial_run.cancel'']"

definition editor_actions :: "string list" where
  "editor_actions =
     [''project.read'', ''resource.read'', ''resource.write'', ''tutorial_clone.read'', ''tutorial_clone.retry'',
      ''tutorial_run.create'', ''tutorial_run.read'', ''tutorial_run.cancel'']"

definition viewer_actions :: "string list" where
  "viewer_actions = [''project.read'', ''resource.read'', ''tutorial_clone.read'', ''tutorial_run.read'']"

text \<open>\<^verbatim>\<open>Authorize\<close>; \<open>False\<close> is \<^verbatim>\<open>ErrForbidden\<close>.\<close>

definition Authorize :: "Principal \<Rightarrow> string \<Rightarrow> string \<Rightarrow> string \<Rightarrow> bool" where
  "Authorize p action resourceTenantID resourceProjectID =
     (if \<not> Principal_Valid p \<or> resourceTenantID = [] \<or> p_TenantID p \<noteq> resourceTenantID then False
      else if List.member tenant_wide_actions action
      then \<not> (resourceProjectID \<noteq> [] \<or> p_ProjectID p \<noteq> [] \<or> p_Role p \<noteq> RoleTenantAdmin)
      else if List.member project_actions action \<and> resourceProjectID = [] then False
      else if List.member resource_actions action \<and> resourceProjectID = []
      then p_ProjectID p = [] \<and> p_Role p = RoleTenantAdmin
      else if \<not> List.member project_actions action \<and> \<not> List.member resource_actions action then False
      else if p_ProjectID p \<noteq> [] \<and> p_ProjectID p \<noteq> resourceProjectID then False
      else if p_Role p = RoleTenantAdmin then True
      else if p_Role p = RoleProjectEditor then List.member editor_actions action
      else if p_Role p = RoleProjectViewer then List.member viewer_actions action
      else False)"

section \<open>API keys\<close>

record APIKey =
  ak_ID :: string
  ak_TenantID :: string
  ak_ProjectID :: string
  ak_Name :: string
  ak_Prefix :: string
  ak_KeyHash :: string
  ak_Role :: string
  ak_CreatedBy :: string
  ak_CreatedAt :: gotime
  ak_ExpiresAt :: "gotime option"
  ak_RevokedAt :: "gotime option"
  ak_LastUsedAt :: "gotime option"
  ak_RotatedFromKeyID :: string

record APIKeyCreateInput =
  ci_TenantID :: string
  ci_ProjectID :: string
  ci_Name :: string
  ci_Role :: string
  ci_CreatedBy :: string
  ci_ExpiresAt :: "gotime option"

record APIKeyRotateInput =
  ri_TenantID :: string
  ri_KeyID :: string
  ri_RotatedBy :: string

datatype auth_error = ErrAPIKeyNotFound | ErrAPIKeyInvalid | ErrAPIKeyExpired | ErrAPIKeyRevoked | ErrRandom

subsection \<open>The in-memory repository\<close>

type_synonym api_keys = "(string, APIKey) gomap"

definition CreateAPIKey :: "APIKey \<Rightarrow> api_keys \<Rightarrow> api_keys" where
  "CreateAPIKey item m = gput (ak_ID item) item m"

definition ListAPIKeys :: "string \<Rightarrow> api_keys \<Rightarrow> APIKey list" where
  "ListAPIKeys tenantID m =
     sort_by (\<lambda>a b. ak_CreatedAt a > ak_CreatedAt b) (filter (\<lambda>item. ak_TenantID item = tenantID) (map snd m))"

definition GetAPIKeyByID :: "string \<Rightarrow> api_keys \<Rightarrow> APIKey option" where
  "GetAPIKeyByID i m = map_of m i"

definition RevokeAPIKey :: "string \<Rightarrow> string \<Rightarrow> gotime \<Rightarrow> api_keys \<Rightarrow> api_keys \<times> bool" where
  "RevokeAPIKey tenantID i revokedAt m =
     (case map_of m i of
        None \<Rightarrow> (m, False)
      | Some item \<Rightarrow>
          if ak_TenantID item \<noteq> tenantID then (m, False)
          else if ak_RevokedAt item = None then (gput i (item\<lparr>ak_RevokedAt := Some revokedAt\<rparr>) m, True)
          else (m, True))"

definition expired :: "APIKey \<Rightarrow> gotime \<Rightarrow> bool" where
  "expired item now = (case ak_ExpiresAt item of None \<Rightarrow> False | Some e \<Rightarrow> \<not> After e now)"

definition RotateAPIKey :: "string \<Rightarrow> string \<Rightarrow> APIKey \<Rightarrow> gotime \<Rightarrow> api_keys \<Rightarrow> api_keys \<times> bool" where
  "RotateAPIKey tenantID sourceID replacement revokedAt m =
     (case map_of m sourceID of
        None \<Rightarrow> (m, False)
      | Some source \<Rightarrow>
          if ak_TenantID source \<noteq> tenantID \<or> ak_RevokedAt source \<noteq> None \<or> expired source revokedAt then (m, False)
          else if list_ex (\<lambda>p. ak_RotatedFromKeyID (snd p) = sourceID) m then (m, False)
          else (gput (ak_ID replacement) replacement (gput sourceID (source\<lparr>ak_RevokedAt := Some revokedAt\<rparr>) m), True))"

definition TouchAPIKeyLastUsed :: "string \<Rightarrow> gotime \<Rightarrow> gotime \<Rightarrow> api_keys \<Rightarrow> api_keys" where
  "TouchAPIKeyLastUsed i usedAt notAfter m =
     (case map_of m i of
        None \<Rightarrow> m
      | Some item \<Rightarrow>
          (case ak_LastUsedAt item of
             None \<Rightarrow> gput i (item\<lparr>ak_LastUsedAt := Some usedAt\<rparr>) m
           | Some l \<Rightarrow> if \<not> After l notAfter then gput i (item\<lparr>ak_LastUsedAt := Some usedAt\<rparr>) m else m))"

subsection \<open>The service\<close>

record APIKeyService =
  aks_items :: api_keys
  aks_pepper :: string
  aks_lastUsedWriteInterval :: duration
  aks_lastUsedAttempts :: "(string, gotime) gomap"

definition apiKeyPrefix :: string where
  "apiKeyPrefix = ''orag_sk_''"

definition maxLastUsedThrottleEntries :: nat where
  "maxLastUsedThrottleEntries = 10000"

definition NewAPIKeyService :: "string \<Rightarrow> APIKeyService" where
  "NewAPIKeyService pepper =
     \<lparr>aks_items = [], aks_pepper = pepper, aks_lastUsedWriteInterval = 300 * Second, aks_lastUsedAttempts = []\<rparr>"

definition hashAPIKey :: "string \<Rightarrow> string \<Rightarrow> string" where
  "hashAPIKey pepper secret = EncodeToString (hmac_sha256 pepper secret)"

definition parseAPIKeyID :: "string \<Rightarrow> string option" where
  "parseAPIKeyID secret =
     (if take (length apiKeyPrefix) secret \<noteq> apiKeyPrefix then None
      else let raw = drop (length apiKeyPrefix) secret
           in if take 4 raw \<noteq> ''key_'' then None
              else if \<not> List.member (drop 4 raw) (CHR ''_'') then None
              else let separator = 4 + length (takeWhile (\<lambda>c. c \<noteq> CHR ''_'') (drop 4 raw))
                   in if separator = length raw - 1 then None
                      else case DecodeString (drop (separator + 1) raw) of
                             None \<Rightarrow> None
                           | Some material \<Rightarrow> if length material \<noteq> 32 then None else Some (take separator raw))"

text \<open>The secret bytes are what the random source delivered: none, or fewer than 32, is an error.\<close>

definition read_secret :: "string option \<Rightarrow> string option" where
  "read_secret rnd = (case rnd of None \<Rightarrow> None | Some bs \<Rightarrow> if length bs \<noteq> 32 then None else Some bs)"

definition APIKey_Create ::
  "entropy \<Rightarrow> string option \<Rightarrow> gotime \<Rightarrow> APIKeyCreateInput \<Rightarrow> APIKeyService \<Rightarrow>
   APIKeyService \<times> (auth_error + APIKey \<times> string)" where
  "APIKey_Create b rnd now inp s =
     (let tenant = TrimSpace (ci_TenantID inp); project = TrimSpace (ci_ProjectID inp);
          name = TrimSpace (ci_Name inp); creator = TrimSpace (ci_CreatedBy inp)
      in if tenant = [] \<or> name = [] \<or> creator = [] then (s, Inl ErrAPIKeyInvalid)
         else if ci_Role inp \<noteq> RoleTenantAdmin \<and> ci_Role inp \<noteq> RoleProjectEditor \<and> ci_Role inp \<noteq> RoleProjectViewer
         then (s, Inl ErrAPIKeyInvalid)
         else if ci_Role inp \<noteq> RoleTenantAdmin \<and> project = [] then (s, Inl ErrAPIKeyInvalid)
         else if (case ci_ExpiresAt inp of None \<Rightarrow> False | Some e \<Rightarrow> \<not> After e now) then (s, Inl ErrAPIKeyInvalid)
         else let keyID = id_New ''key'' b
              in case read_secret rnd of
                   None \<Rightarrow> (s, Inl ErrRandom)
                 | Some bs \<Rightarrow>
                     let secret = apiKeyPrefix @ keyID @ ''_'' @ EncodeToString bs;
                         item = \<lparr>ak_ID = keyID, ak_TenantID = tenant, ak_ProjectID = project, ak_Name = name,
                                 ak_Prefix = apiKeyPrefix @ keyID, ak_KeyHash = hashAPIKey (aks_pepper s) secret,
                                 ak_Role = ci_Role inp, ak_CreatedBy = creator, ak_CreatedAt = now,
                                 ak_ExpiresAt = ci_ExpiresAt inp, ak_RevokedAt = None, ak_LastUsedAt = None,
                                 ak_RotatedFromKeyID = []\<rparr>
                     in (s\<lparr>aks_items := CreateAPIKey item (aks_items s)\<rparr>, Inr (item, secret)))"

definition APIKey_List :: "string \<Rightarrow> APIKeyService \<Rightarrow> APIKey list" where
  "APIKey_List tenantID s = ListAPIKeys (TrimSpace tenantID) (aks_items s)"

definition APIKey_Revoke ::
  "gotime \<Rightarrow> string \<Rightarrow> string \<Rightarrow> APIKeyService \<Rightarrow> APIKeyService \<times> (auth_error + unit)" where
  "APIKey_Revoke now tenantID keyID s =
     (case RevokeAPIKey (TrimSpace tenantID) (TrimSpace keyID) now (aks_items s) of
        (m, revoked) \<Rightarrow> (s\<lparr>aks_items := m\<rparr>, if \<not> revoked then Inl ErrAPIKeyNotFound else Inr ()))"

definition APIKey_Rotate ::
  "entropy \<Rightarrow> string option \<Rightarrow> gotime \<Rightarrow> APIKeyRotateInput \<Rightarrow> APIKeyService \<Rightarrow>
   APIKeyService \<times> (auth_error + APIKey \<times> string)" where
  "APIKey_Rotate b rnd now inp s =
     (let tenant = TrimSpace (ri_TenantID inp); key = TrimSpace (ri_KeyID inp); actor = TrimSpace (ri_RotatedBy inp)
      in if tenant = [] \<or> key = [] \<or> actor = [] then (s, Inl ErrAPIKeyInvalid)
         else case GetAPIKeyByID key (aks_items s) of
                None \<Rightarrow> (s, Inl ErrAPIKeyNotFound)
              | Some source \<Rightarrow>
                  if ak_TenantID source \<noteq> tenant \<or> ak_RevokedAt source \<noteq> None \<or> expired source now
                  then (s, Inl ErrAPIKeyNotFound)
                  else let keyID = id_New ''key'' b
                       in case read_secret rnd of
                            None \<Rightarrow> (s, Inl ErrRandom)
                          | Some bs \<Rightarrow>
                              let secret = apiKeyPrefix @ keyID @ ''_'' @ EncodeToString bs;
                                  replacement =
                                    \<lparr>ak_ID = keyID, ak_TenantID = ak_TenantID source, ak_ProjectID = ak_ProjectID source,
                                     ak_Name = ak_Name source, ak_Prefix = apiKeyPrefix @ keyID,
                                     ak_KeyHash = hashAPIKey (aks_pepper s) secret, ak_Role = ak_Role source,
                                     ak_CreatedBy = actor, ak_CreatedAt = now, ak_ExpiresAt = ak_ExpiresAt source,
                                     ak_RevokedAt = None, ak_LastUsedAt = None, ak_RotatedFromKeyID = ak_ID source\<rparr>
                              in case RotateAPIKey tenant (ak_ID source) replacement now (aks_items s) of
                                   (m, rotated) \<Rightarrow>
                                     (s\<lparr>aks_items := m\<rparr>,
                                      if \<not> rotated then Inl ErrAPIKeyNotFound else Inr (replacement, secret)))"

definition touchLastUsed :: "string \<Rightarrow> gotime \<Rightarrow> APIKeyService \<Rightarrow> APIKeyService" where
  "touchLastUsed keyID usedAt s =
     (let interval = aks_lastUsedWriteInterval s; attempts = aks_lastUsedAttempts s; attempted = map_of attempts keyID
      in if (case attempted of None \<Rightarrow> False | Some l \<Rightarrow> interval > 0 \<and> usedAt < l + interval) then s
         else let attempts = (if attempted = None \<and> length attempts \<ge> maxLastUsedThrottleEntries then [] else attempts)
              in s\<lparr>aks_lastUsedAttempts := gput keyID usedAt attempts,
                   aks_items := TouchAPIKeyLastUsed keyID usedAt (usedAt - interval) (aks_items s)\<rparr>)"

text \<open>\<^verbatim>\<open>Authenticate\<close>: the usage accounting at the end cannot change the answer.\<close>

definition Authenticate :: "gotime \<Rightarrow> string \<Rightarrow> APIKeyService \<Rightarrow> APIKeyService \<times> (auth_error + Principal)" where
  "Authenticate now secret s =
     (case parseAPIKeyID secret of
        None \<Rightarrow> (s, Inl ErrAPIKeyInvalid)
      | Some keyID \<Rightarrow>
          (case GetAPIKeyByID keyID (aks_items s) of
             None \<Rightarrow> (s, Inl ErrAPIKeyInvalid)
           | Some item \<Rightarrow>
               if ak_KeyHash item \<noteq> hashAPIKey (aks_pepper s) secret then (s, Inl ErrAPIKeyInvalid)
               else if ak_RevokedAt item \<noteq> None then (s, Inl ErrAPIKeyRevoked)
               else if expired item now then (s, Inl ErrAPIKeyExpired)
               else let principal = \<lparr>p_Kind = PrincipalAPIKey, p_SubjectID = ak_ID item, p_TenantID = ak_TenantID item,
                                     p_Role = ak_Role item, p_ProjectID = ak_ProjectID item\<rparr>
                    in if \<not> Principal_Valid principal then (s, Inl ErrAPIKeyInvalid)
                       else (touchLastUsed (ak_ID item) now s, Inr principal)))"

section \<open>Runs of the service\<close>

text \<open>
  The calls that reach the service, with the random bytes and the clock reading of each. A step
  returns the new state and the keys it issued, each with its secret.
\<close>

datatype auth_op =
  OpCreate entropy "string option" gotime APIKeyCreateInput
| OpRevoke gotime string string
| OpRotate entropy "string option" gotime APIKeyRotateInput
| OpAuthenticate gotime string

definition issued_of :: "auth_error + APIKey \<times> string \<Rightarrow> (APIKey \<times> string) list" where
  "issued_of r = (case r of Inl e \<Rightarrow> [] | Inr x \<Rightarrow> [x])"

fun auth_step :: "auth_op \<Rightarrow> APIKeyService \<Rightarrow> APIKeyService \<times> (APIKey \<times> string) list" where
  "auth_step (OpCreate b rnd now inp) s = map_prod id issued_of (APIKey_Create b rnd now inp s)"
| "auth_step (OpRevoke now tenantID keyID) s = (fst (APIKey_Revoke now tenantID keyID s), [])"
| "auth_step (OpRotate b rnd now inp) s = map_prod id issued_of (APIKey_Rotate b rnd now inp s)"
| "auth_step (OpAuthenticate now secret) s = (fst (Authenticate now secret s), [])"

fun auth_run :: "auth_op list \<Rightarrow> APIKeyService \<Rightarrow> APIKeyService \<times> (APIKey \<times> string) list" where
  "auth_run [] s = (s, [])"
| "auth_run (op # ops) s =
     (case auth_step op s of (s1, o1) \<Rightarrow> case auth_run ops s1 of (s2, o2) \<Rightarrow> (s2, o1 @ o2))"

text \<open>The identifier a call would give to a key it issues, and the key a call may retire.\<close>

fun draws :: "auth_op \<Rightarrow> string option" where
  "draws (OpCreate b rnd now inp) = Some (id_New ''key'' b)"
| "draws (OpRotate b rnd now inp) = Some (id_New ''key'' b)"
| "draws _ = None"

fun retires :: "auth_op \<Rightarrow> string option" where
  "retires (OpRevoke now tenantID keyID) = Some (TrimSpace keyID)"
| "retires (OpRotate b rnd now inp) = Some (TrimSpace (ri_KeyID inp))"
| "retires _ = None"

text \<open>What never changes of a key: everything but its revocation and its last use.\<close>

definition cred :: "APIKey \<Rightarrow> APIKey" where
  "cred k = k\<lparr>ak_RevokedAt := None, ak_LastUsedAt := None\<rparr>"

definition principal_of :: "APIKey \<Rightarrow> Principal" where
  "principal_of k =
     \<lparr>p_Kind = PrincipalAPIKey, p_SubjectID = ak_ID k, p_TenantID = ak_TenantID k, p_Role = ak_Role k,
      p_ProjectID = ak_ProjectID k\<rparr>"

text \<open>The stored keys: each under its own identifier, each naming a valid principal.\<close>

definition keys_wf :: "APIKeyService \<Rightarrow> bool" where
  "keys_wf s \<longleftrightarrow> gmap_wf (aks_items s) \<and>
     list_all (\<lambda>(i, k). ak_ID k = i \<and> Principal_Valid (principal_of k)) (aks_items s)"

lemma keys_wf_stored:
  assumes "keys_wf s" and "map_of (aks_items s) i = Some k"
  shows "ak_ID k = i" "Principal_Valid (principal_of k)"
  using assms by (auto simp: keys_wf_def list_all_iff dest: map_of_SomeD)

lemma keys_wf_lookupI:
  "gmap_wf (aks_items s) \<Longrightarrow>
   (\<And>i k. map_of (aks_items s) i = Some k \<Longrightarrow> ak_ID k = i \<and> Principal_Valid (principal_of k)) \<Longrightarrow> keys_wf s"
  by (auto simp: keys_wf_def list_all_iff gmap_wf_mem_iff)

lemmas repo_defs = CreateAPIKey_def GetAPIKeyByID_def RevokeAPIKey_def RotateAPIKey_def TouchAPIKeyLastUsed_def
lemmas service_defs = APIKey_Create_def APIKey_Revoke_def APIKey_Rotate_def touchLastUsed_def Authenticate_def

subsection \<open>What one step does to the stored keys\<close>

text \<open>Touching changes no credential.\<close>

lemma touch_lookup:
  "map_of (aks_items (touchLastUsed j t s)) i =
     map_option (\<lambda>k. k\<lparr>ak_LastUsedAt := (case map_of (aks_items (touchLastUsed j t s)) i of
        None \<Rightarrow> None | Some k' \<Rightarrow> ak_LastUsedAt k')\<rparr>) (map_of (aks_items s) i)"
  by (auto simp: touchLastUsed_def repo_defs map_simps Let_def split: option.splits)

lemma touch_origin:
  "map_of (aks_items (touchLastUsed j t s)) i = Some k' \<Longrightarrow>
     \<exists>k u. map_of (aks_items s) i = Some k \<and> k' = k\<lparr>ak_LastUsedAt := u\<rparr>"
  using touch_lookup [of j t s i] by (cases "map_of (aks_items s) i") auto

lemma auth_step_pepper [simp]: "aks_pepper (fst (auth_step op s)) = aks_pepper s"
  by (cases op) (auto simp: service_defs repo_defs Let_def split: option.splits prod.splits if_splits)

text \<open>The fate of a stored key in one step.\<close>

definition follows :: "bool \<Rightarrow> APIKey \<Rightarrow> APIKey \<Rightarrow> bool" where
  "follows retired k k' \<longleftrightarrow> cred k' = cred k \<and>
     (ak_RevokedAt k = None \<and> \<not> retired \<longrightarrow> ak_RevokedAt k' = None) \<and>
     (ak_RevokedAt k \<noteq> None \<longrightarrow> ak_RevokedAt k' = ak_RevokedAt k)"

lemma follows_refl [simp]: "follows r k k"
  by (simp add: follows_def)

lemma follows_touched [simp]: "follows r k (k\<lparr>ak_LastUsedAt := t\<rparr>)"
  by (simp add: follows_def cred_def)

lemma follows_revoked [simp]: "ak_RevokedAt k = None \<Longrightarrow> follows True k (k\<lparr>ak_RevokedAt := t\<rparr>)"
  by (simp add: follows_def cred_def)

lemma Authenticate_state:
  "fst (Authenticate now secret s) = s \<or> (\<exists>i. fst (Authenticate now secret s) = touchLastUsed i now s)"
  by (auto simp: Authenticate_def Let_def split: option.splits)

lemma Authenticate_follows:
  "map_of (aks_items s) i = Some k \<Longrightarrow>
     \<exists>k'. map_of (aks_items (fst (Authenticate now secret s))) i = Some k' \<and> follows r k k'"
  using Authenticate_state [of now secret s] touch_lookup [of _ now s i] follows_touched [of r k] by force

lemma step_follows:
  assumes "keys_wf s" and "map_of (aks_items s) i = Some k" and "draws op \<noteq> Some i"
  shows "\<exists>k'. map_of (aks_items (fst (auth_step op s))) i = Some k' \<and> follows (retires op = Some i) k k'"
proof (cases op)
  case (OpAuthenticate now secret)
  then show ?thesis using Authenticate_follows [OF assms(2)] by simp
next
  case (OpCreate b rnd now inp)
  then show ?thesis using assms
    by (auto simp: APIKey_Create_def repo_defs map_simps Let_def split: option.splits)
next
  case (OpRevoke now tenantID keyID)
  then show ?thesis using assms
    by (auto simp: APIKey_Revoke_def repo_defs map_simps split: option.splits)
next
  case (OpRotate b rnd now inp)
  then show ?thesis using assms keys_wf_stored [OF assms(1)]
    by (auto simp: APIKey_Rotate_def repo_defs map_simps Let_def split: option.splits)
qed

subsection \<open>The secrets that are issued\<close>

lemma white_space_ends:
  "list_all (\<lambda>w. w \<noteq> [] \<and> \<not> (of_char (hd w) > (0x20 :: nat) \<and> of_char (hd w) < (0x7f :: nat)) \<and>
     \<not> (of_char (last w) > (0x20 :: nat) \<and> of_char (last w) < (0x7f :: nat))) white_space"
  by code_simp

definition visible :: "char \<Rightarrow> bool" where
  "visible c \<longleftrightarrow> of_char c > (0x20 :: nat) \<and> of_char c < (0x7f :: nat)"

text \<open>A string that begins and ends with visible ASCII characters has nothing to trim.\<close>

lemma TrimSpace_visible:
  assumes "s \<noteq> []" and "visible (hd s)" and "visible (last s)"
  shows "TrimSpace s = s"
proof -
  have l: "TrimLeftSpace s = s" unfolding TrimLeftSpace_def
  proof (rule strip_id, unfold find_None_iff, safe)
    fix w assume "w \<in> set white_space" "w \<noteq> []" "is_prefix w s"
    then show False using white_space_ends assms(2) by (force simp: list_all_iff is_prefix_iff visible_def)
  qed
  have "strip (map rev white_space) (rev s) = rev s"
  proof (rule strip_id, unfold find_None_iff, safe)
    fix w assume w: "w \<in> set (map rev white_space)" "w \<noteq> []" "is_prefix w (rev s)"
    then obtain u where u: "u \<in> set white_space" "w = rev u" by auto
    with w have "last s = last u" by (metis hd_append hd_rev is_prefix_iff rev_rev_ident last_rev)
    then show False using white_space_ends u assms(3) by (force simp: list_all_iff visible_def)
  qed
  then show ?thesis by (simp add: TrimSpace_def l TrimRightSpace_def)
qed

lemma hex_digits: "list_all (\<lambda>n. visible (hex_digit n) \<and> hex_digit n \<noteq> CHR ''_'') [0..<16]"
  by code_simp

lemma hex_digit_plain: "visible (hex_digit n) \<and> hex_digit n \<noteq> CHR ''_''"
proof -
  have "visible (hex_digit (n mod 16)) \<and> hex_digit (n mod 16) \<noteq> CHR ''_''"
    using hex_digits by (simp only: list_all_iff) simp
  then show ?thesis by (simp add: hex_digit_def)
qed

lemma hex_encode_plain: "c \<in> set (hex_encode bs) \<Longrightarrow> visible c \<and> c \<noteq> CHR ''_''"
  using hex_digit_plain by (auto simp: hex_encode_def)

text \<open>An identifier of a key: the prefix and a tail of visible characters without an underscore.\<close>

lemma key_id_shape:
  obtains tail where "id_New ''key'' b = ''key_'' @ tail" "CHR ''_'' \<notin> set tail" "\<And>c. c \<in> set tail \<Longrightarrow> visible c"
proof (cases b)
  case None
  show ?thesis
  proof (rule that)
    show "id_New ''key'' b = ''key_'' @ ''fallback''" by (simp add: None id_New_def trim_suffix_underscore_def)
    have "list_all visible ''fallback''" by code_simp
    then show "visible c" if "c \<in> set ''fallback''" for c using that by (simp only: list_all_iff)
  qed simp
next
  case (Some bs)
  with that [of "hex_encode bs"] hex_encode_plain [of _ bs] show ?thesis
    by (auto simp: id_New_def trim_suffix_underscore_def)
qed

lemma TrimSpace_key_id: "TrimSpace (id_New ''key'' b) = id_New ''key'' b"
proof (rule key_id_shape [of b])
  fix tail assume t: "id_New ''key'' b = ''key_'' @ tail" "\<And>c. c \<in> set tail \<Longrightarrow> visible c"
  have v: "visible (CHR ''k'')" "visible (CHR ''_'')" by code_simp+
  have "visible (last (''key_'' @ tail))" by (cases "tail = []") (simp_all add: v t(2))
  with t(1) v show ?thesis by (simp add: TrimSpace_visible)
qed

definition new_secret :: "entropy \<Rightarrow> string \<Rightarrow> string" where
  "new_secret b bs = apiKeyPrefix @ id_New ''key'' b @ ''_'' @ EncodeToString bs"

lemma parse_issued_secret:
  assumes "length bs = 32"
  shows "parseAPIKeyID (new_secret b bs) = Some (id_New ''key'' b)"
proof (rule key_id_shape [of b])
  fix tail assume t: "id_New ''key'' b = ''key_'' @ tail" "CHR ''_'' \<notin> set tail"
  have ne: "EncodeToString bs \<noteq> []"
    using DecodeString_EncodeToString [of bs] assms by (auto simp: DecodeString_def)
  have tw: "takeWhile (\<lambda>c. c \<noteq> CHR ''_'') (tail @ CHR ''_'' # EncodeToString bs) = tail"
    using t(2) by (subst takeWhile_append2) auto
  have cut: "drop (5 + length tail) (''key_'' @ tail @ ''_'' @ EncodeToString bs) = EncodeToString bs"
    "take (4 + length tail) (''key_'' @ tail @ ''_'' @ EncodeToString bs) = ''key_'' @ tail"
    by (simp_all add: numeral_eq_Suc)
  show ?thesis
    using t(1) ne tw cut assms
    by (simp add: new_secret_def parseAPIKeyID_def apiKeyPrefix_def Let_def  DecodeString_EncodeToString)
qed

text \<open>What a step issues is stored, usable, and bears the hash of its secret.\<close>

definition issued_ok :: "string \<Rightarrow> APIKey \<Rightarrow> string \<Rightarrow> bool" where
  "issued_ok pepper k secret \<longleftrightarrow>
     ak_RevokedAt k = None \<and> ak_KeyHash k = hashAPIKey pepper secret \<and>
     parseAPIKeyID secret = Some (ak_ID k) \<and> Principal_Valid (principal_of k)"

lemma read_secret_length: "read_secret rnd = Some bs \<Longrightarrow> length bs = 32"
  by (auto simp: read_secret_def split: option.splits if_splits)

text \<open>A call that issues a key: what it checked, what it stores and what it returns.\<close>

lemma Create_ok:
  assumes "APIKey_Create b rnd now inp s = (s', Inr (k, secret))"
  obtains bs where "length bs = 32" "secret = new_secret b bs"
    "s' = s\<lparr>aks_items := gput (id_New ''key'' b) k (aks_items s)\<rparr>"
    "ak_ID k = id_New ''key'' b" "ak_KeyHash k = hashAPIKey (aks_pepper s) secret" "ak_RevokedAt k = None"
    "ak_RotatedFromKeyID k = []" "ak_ExpiresAt k = ci_ExpiresAt inp"
    "ak_TenantID k = TrimSpace (ci_TenantID inp)" "ak_TenantID k \<noteq> []" "ak_Role k = ci_Role inp"
    "ak_ProjectID k = TrimSpace (ci_ProjectID inp)"
    "ak_Role k = RoleTenantAdmin \<or> (ak_Role k = RoleProjectEditor \<or> ak_Role k = RoleProjectViewer) \<and> ak_ProjectID k \<noteq> []"
  using assms read_secret_length [of rnd]
  by (auto simp: APIKey_Create_def Let_def CreateAPIKey_def new_secret_def split: option.splits if_splits)

lemma Rotate_ok:
  assumes "keys_wf s" and "APIKey_Rotate b rnd now inp s = (s', Inr (k, secret))"
  obtains bs old i where "length bs = 32" "secret = new_secret b bs" "i = TrimSpace (ri_KeyID inp)"
    "map_of (aks_items s) i = Some old" "ak_RevokedAt old = None" "\<not> expired old now" "ak_ID old = i"
    "ak_TenantID old = TrimSpace (ri_TenantID inp)"
    "list_all (\<lambda>p. ak_RotatedFromKeyID (snd p) \<noteq> i) (aks_items s)"
    "s' = s\<lparr>aks_items := gput (id_New ''key'' b) k (gput i (old\<lparr>ak_RevokedAt := Some now\<rparr>) (aks_items s))\<rparr>"
    "ak_ID k = id_New ''key'' b" "ak_KeyHash k = hashAPIKey (aks_pepper s) secret" "ak_RevokedAt k = None"
    "ak_RotatedFromKeyID k = i" "ak_ExpiresAt k = ak_ExpiresAt old" "ak_TenantID k = ak_TenantID old"
    "ak_Role k = ak_Role old" "ak_ProjectID k = ak_ProjectID old"
  using assms(2) read_secret_length [of rnd] keys_wf_stored(1) [OF assms(1)]
  by (auto simp: APIKey_Rotate_def Let_def GetAPIKeyByID_def RotateAPIKey_def new_secret_def list_ex_iff list_all_iff
      split: option.splits if_splits)

lemma Create_issues:
  assumes "APIKey_Create b rnd now inp s = (s', Inr (k, secret))"
  shows "issued_ok (aks_pepper s) k secret \<and> map_of (aks_items s') (ak_ID k) = Some k \<and> ak_ID k = id_New ''key'' b"
proof (rule Create_ok [OF assms])
  fix bs assume a: "length bs = 32" "secret = new_secret b bs"
    "s' = s\<lparr>aks_items := gput (id_New ''key'' b) k (aks_items s)\<rparr>"
    "ak_ID k = id_New ''key'' b" "ak_KeyHash k = hashAPIKey (aks_pepper s) secret" "ak_RevokedAt k = None"
    "ak_TenantID k = TrimSpace (ci_TenantID inp)" "ak_TenantID k \<noteq> []" "ak_ProjectID k = TrimSpace (ci_ProjectID inp)"
    "ak_Role k = RoleTenantAdmin \<or> (ak_Role k = RoleProjectEditor \<or> ak_Role k = RoleProjectViewer) \<and> ak_ProjectID k \<noteq> []"
  have "TrimSpace (ak_TenantID k) \<noteq> []" "TrimSpace (ak_ProjectID k) = ak_ProjectID k" using a(7-9) by simp_all
  then have "Principal_Valid (principal_of k)"
    using a(10) by (auto simp: Principal_Valid_def principal_of_def TrimSpace_key_id a(4))
  with a show ?thesis by (simp add: issued_ok_def parse_issued_secret map_simps)
qed

lemma Rotate_issues:
  assumes "keys_wf s" and "APIKey_Rotate b rnd now inp s = (s', Inr (k, secret))"
  shows "issued_ok (aks_pepper s) k secret \<and> map_of (aks_items s') (ak_ID k) = Some k \<and> ak_ID k = id_New ''key'' b"
proof (rule Rotate_ok [OF assms])
  fix bs old i assume a: "length bs = 32" "secret = new_secret b bs" "map_of (aks_items s) i = Some old"
    "s' = s\<lparr>aks_items := gput (id_New ''key'' b) k (gput i (old\<lparr>ak_RevokedAt := Some now\<rparr>) (aks_items s))\<rparr>"
    "ak_ID k = id_New ''key'' b" "ak_KeyHash k = hashAPIKey (aks_pepper s) secret" "ak_RevokedAt k = None"
    "ak_TenantID k = ak_TenantID old" "ak_Role k = ak_Role old" "ak_ProjectID k = ak_ProjectID old"
  have "Principal_Valid (principal_of k)"
    using keys_wf_stored(2) [OF assms(1) a(3)] a(8-10)
    by (simp add: Principal_Valid_def principal_of_def TrimSpace_key_id a(5) split: if_split_asm)
  with a show ?thesis by (simp add: issued_ok_def parse_issued_secret map_simps)
qed

subsection \<open>The invariant and the origin of every key\<close>

lemma step_issues:
  assumes "keys_wf s" and "(k, secret) \<in> set (snd (auth_step op s))"
  shows "issued_ok (aks_pepper s) k secret" "map_of (aks_items (fst (auth_step op s))) (ak_ID k) = Some k"
    "draws op = Some (ak_ID k)"
proof -
  have "issued_ok (aks_pepper s) k secret \<and> map_of (aks_items (fst (auth_step op s))) (ak_ID k) = Some k \<and>
    draws op = Some (ak_ID k)"
  proof (cases op)
    case (OpCreate b rnd now inp)
    with assms(2) have "APIKey_Create b rnd now inp s = (fst (auth_step op s), Inr (k, secret))"
      by (cases "APIKey_Create b rnd now inp s") (auto simp: issued_of_def split: sum.splits)
    from Create_issues [OF this] OpCreate show ?thesis by auto
  next
    case (OpRotate b rnd now inp)
    with assms(2) have "APIKey_Rotate b rnd now inp s = (fst (auth_step op s), Inr (k, secret))"
      by (cases "APIKey_Rotate b rnd now inp s") (auto simp: issued_of_def split: sum.splits)
    from Rotate_issues [OF assms(1) this] OpRotate show ?thesis by auto
  qed (use assms in simp_all)
  then show "issued_ok (aks_pepper s) k secret" "map_of (aks_items (fst (auth_step op s))) (ak_ID k) = Some k"
    "draws op = Some (ak_ID k)" by simp_all
qed

text \<open>A stored key was issued by this step or was stored before under the same identifier.\<close>

lemma step_origin:
  assumes "keys_wf s" and "map_of (aks_items (fst (auth_step op s))) i = Some k'"
  shows "(\<exists>secret. (k', secret) \<in> set (snd (auth_step op s)) \<and> ak_ID k' = i) \<or>
    (\<exists>k. map_of (aks_items s) i = Some k \<and> follows True k k')"
proof (cases op)
  case (OpCreate b rnd now inp)
  then show ?thesis using assms(2)
    by (auto simp: APIKey_Create_def CreateAPIKey_def issued_of_def map_simps Let_def split: option.splits if_splits)
next
  case (OpRevoke now tenantID keyID)
  then show ?thesis using assms(2)
    by (auto simp: APIKey_Revoke_def RevokeAPIKey_def map_simps split: option.splits if_splits)
next
  case (OpAuthenticate now secret)
  then show ?thesis using assms(2) Authenticate_state [of now secret s] touch_origin [of _ now s i k']
    by (metis auth_step.simps(4) follows_refl follows_touched fst_conv)
next
  case (OpRotate b rnd now inp)
  show ?thesis
  proof (cases "APIKey_Rotate b rnd now inp s")
    case (Pair s1 r)
    show ?thesis
    proof (cases r)
      case (Inl e)
      then have "aks_items s1 = aks_items s" using Pair
        by (auto simp: APIKey_Rotate_def GetAPIKeyByID_def RotateAPIKey_def Let_def split: option.splits if_splits)
      then show ?thesis using assms(2) OpRotate Pair by simp
    next
      case (Inr x)
      obtain k secret where x: "x = (k, secret)" by (cases x)
      note rot = Pair [unfolded Inr x]
      show ?thesis
      proof (rule Rotate_ok [OF assms(1) rot])
        fix old j assume a: "map_of (aks_items s) j = Some old" "ak_RevokedAt old = None" "ak_ID k = id_New ''key'' b"
          "s1 = s\<lparr>aks_items := gput (id_New ''key'' b) k (gput j (old\<lparr>ak_RevokedAt := Some now\<rparr>) (aks_items s))\<rparr>"
        then show ?thesis using assms(2) OpRotate rot
          by (auto simp: issued_of_def map_simps split: if_splits)
      qed
    qed
  qed
qed

lemma gmap_wf_step: "gmap_wf (aks_items s) \<Longrightarrow> gmap_wf (aks_items (fst (auth_step op s)))"
  by (cases op) (auto simp: service_defs repo_defs Let_def split: option.splits)

lemma follows_principal:
  assumes "follows r k k'"
  shows "principal_of k' = principal_of k" "ak_KeyHash k' = ak_KeyHash k" "ak_ID k' = ak_ID k"
    "ak_ExpiresAt k' = ak_ExpiresAt k" "ak_RotatedFromKeyID k' = ak_RotatedFromKeyID k"
  using assms by (cases k; cases k'; simp add: follows_def cred_def principal_of_def)+

lemma keys_wf_step [inv_intros]: "keys_wf s \<Longrightarrow> keys_wf (fst (auth_step op s))"
proof (rule keys_wf_lookupI)
  assume wf: "keys_wf s"
  then show "gmap_wf (aks_items (fst (auth_step op s)))" by (simp add: gmap_wf_step keys_wf_def)
  fix i k' assume k': "map_of (aks_items (fst (auth_step op s))) i = Some k'"
  from step_origin [OF wf k'] show "ak_ID k' = i \<and> Principal_Valid (principal_of k')"
  proof (elim disjE exE conjE)
    fix secret assume "(k', secret) \<in> set (snd (auth_step op s))" "ak_ID k' = i"
    then show ?thesis using step_issues(1) [OF wf] by (auto simp: issued_ok_def)
  next
    fix k assume "map_of (aks_items s) i = Some k" "follows True k k'"
    then show ?thesis using keys_wf_stored [OF wf] follows_principal [of True k k'] by simp
  qed
qed

subsection \<open>Runs\<close>

lemma auth_run_Cons:
  "fst (auth_run (op # ops) s) = fst (auth_run ops (fst (auth_step op s)))"
  "snd (auth_run (op # ops) s) = snd (auth_step op s) @ snd (auth_run ops (fst (auth_step op s)))"
  by (simp_all add: case_prod_unfold)

declare auth_run.simps(2) [simp del]

lemma auth_run_append:
  "fst (auth_run (ops @ ops') s) = fst (auth_run ops' (fst (auth_run ops s)))"
  by (induction ops arbitrary: s) (simp_all add: auth_run_Cons)

lemma auth_run_pepper [simp]: "aks_pepper (fst (auth_run ops s)) = aks_pepper s"
  by (induction ops arbitrary: s) (simp_all add: auth_run_Cons)

lemma keys_wf_run [inv_intros]: "keys_wf s \<Longrightarrow> keys_wf (fst (auth_run ops s))"
  by (induction ops arbitrary: s) (simp_all add: auth_run_Cons keys_wf_step)

lemma keys_wf_New [simp, inv_intros]: "keys_wf (NewAPIKeyService pepper)"
  by (simp add: keys_wf_def NewAPIKeyService_def)

lemma follows_trans: "follows r k k' \<Longrightarrow> follows r' k' k'' \<Longrightarrow> follows (r \<or> r') k k''"
  by (auto simp: follows_def)

lemma run_follows:
  assumes "keys_wf s" and "map_of (aks_items s) i = Some k" and "list_all (\<lambda>op. draws op \<noteq> Some i) ops"
  shows "\<exists>k'. map_of (aks_items (fst (auth_run ops s))) i = Some k' \<and>
    follows (list_ex (\<lambda>op. retires op = Some i) ops) k k'"
  using assms
proof (induction ops arbitrary: s k)
  case (Cons op ops)
  from step_follows [OF Cons.prems(1,2)] Cons.prems(3) obtain k1 where
    k1: "map_of (aks_items (fst (auth_step op s))) i = Some k1" "follows (retires op = Some i) k k1" by auto
  from Cons.IH [OF keys_wf_step [OF Cons.prems(1)] k1(1)] Cons.prems(3) obtain k2 where
    "map_of (aks_items (fst (auth_run ops (fst (auth_step op s))))) i = Some k2"
    "follows (list_ex (\<lambda>op. retires op = Some i) ops) k1 k2" by auto
  with follows_trans [OF k1(2)] show ?case by (auto simp: auth_run_Cons)
qed simp

lemma run_origin:
  assumes "keys_wf s" and "map_of (aks_items (fst (auth_run ops s))) i = Some k'"
  shows "(\<exists>k secret. (k, secret) \<in> set (snd (auth_run ops s)) \<and> ak_ID k = i \<and>
      ak_KeyHash k = hashAPIKey (aks_pepper s) secret \<and> follows True k k') \<or>
    (\<exists>k. map_of (aks_items s) i = Some k \<and> follows True k k')"
  using assms
proof (induction ops arbitrary: s)
  case Nil
  then show ?case by auto
next
  case (Cons op ops)
  note wf = keys_wf_step [OF Cons.prems(1), of op]
  from Cons.IH [OF wf] Cons.prems(2) consider
    (later) k secret where "(k, secret) \<in> set (snd (auth_run ops (fst (auth_step op s))))" "ak_ID k = i"
      "ak_KeyHash k = hashAPIKey (aks_pepper s) secret" "follows True k k'"
    | (before) k1 where "map_of (aks_items (fst (auth_step op s))) i = Some k1" "follows True k1 k'"
    by (auto simp: auth_run_Cons)
  then show ?case
  proof cases
    case later
    then show ?thesis by (auto simp: auth_run_Cons)
  next
    case before
    from step_origin [OF Cons.prems(1) before(1)] show ?thesis
    proof (elim disjE exE conjE)
      fix secret assume sec: "(k1, secret) \<in> set (snd (auth_step op s))" "ak_ID k1 = i"
      from step_issues(1) [OF Cons.prems(1) sec(1)] sec before(2) show ?thesis
        by (auto simp: auth_run_Cons issued_ok_def)
    next
      fix k assume "map_of (aks_items s) i = Some k" "follows True k k1"
      with follows_trans [of True k k1 True k'] before(2) show ?thesis by auto
    qed
  qed
qed

text \<open>What decides an authentication.\<close>

lemma Authenticate_iff:
  "snd (Authenticate now secret s) = Inr p \<longleftrightarrow>
     (\<exists>i k. parseAPIKeyID secret = Some i \<and> map_of (aks_items s) i = Some k \<and>
        ak_KeyHash k = hashAPIKey (aks_pepper s) secret \<and> ak_RevokedAt k = None \<and> \<not> expired k now \<and>
        Principal_Valid (principal_of k) \<and> p = principal_of k)"
  by (auto simp: Authenticate_def GetAPIKeyByID_def Let_def principal_of_def split: option.splits if_splits)

lemma follows_expired: "follows r k k' \<Longrightarrow> expired k' now = expired k now"
  by (simp add: expired_def follows_principal)

text \<open>An issued key authenticates with its secret as long as nothing retires it.\<close>

lemma issued_authenticates:
  assumes wf: "keys_wf s" and k: "map_of (aks_items s) (ak_ID k) = Some k" and ok: "issued_ok (aks_pepper s) k secret"
    and ops: "list_all (\<lambda>op. draws op \<noteq> Some (ak_ID k) \<and> retires op \<noteq> Some (ak_ID k)) ops"
    and live: "\<not> expired k now"
  shows "snd (Authenticate now secret (fst (auth_run ops s))) = Inr (principal_of k)"
proof -
  have "list_all (\<lambda>op. draws op \<noteq> Some (ak_ID k)) ops" using ops by (auto simp: list_all_iff)
  moreover have "\<not> list_ex (\<lambda>op. retires op = Some (ak_ID k)) ops" using ops by (auto simp: list_all_iff list_ex_iff)
  ultimately obtain k' where k': "map_of (aks_items (fst (auth_run ops s))) (ak_ID k) = Some k'" "follows False k k'"
    using run_follows [OF wf k, of ops] by auto
  then show ?thesis
    using ok live follows_principal [OF k'(2)] follows_expired [OF k'(2)]
    by (auto simp: Authenticate_iff issued_ok_def follows_def)
qed

text \<open>A revoked key never authenticates again.\<close>

lemma revoked_refused:
  assumes wf: "keys_wf s" and k: "map_of (aks_items s) i = Some k" "ak_RevokedAt k \<noteq> None"
    and ops: "list_all (\<lambda>op. draws op \<noteq> Some i) ops" and secret: "parseAPIKeyID secret = Some i"
  shows "\<exists>e. snd (Authenticate now secret (fst (auth_run ops s))) = Inl e"
proof -
  from run_follows [OF wf k(1) ops] k(2) obtain k' where
    k': "map_of (aks_items (fst (auth_run ops s))) i = Some k'" "ak_RevokedAt k' \<noteq> None" by (auto simp: follows_def)
  show ?thesis
    using secret k' by (cases "snd (Authenticate now secret (fst (auth_run ops s)))") (auto simp: Authenticate_iff)
qed

end
