(* ===== verification/AuthProps.thy ===== *)
theory AuthProps
  imports Auth
begin

text \<open>
  What \<^verbatim>\<open>internal/auth\<close> promises: a permission stays within the principal's tenant, project and
  role; an issued key authenticates until it is retired or expires; a retired key never does; and
  every authentication goes back to a key the service issued.
\<close>

section \<open>The policy\<close>

lemma viewer_of_editor: "List.member viewer_actions a \<Longrightarrow> List.member editor_actions a"
  by (auto simp: viewer_actions_def editor_actions_def)

lemma editor_known: "List.member editor_actions a \<Longrightarrow> List.member project_actions a \<or> List.member resource_actions a"
  by (auto simp: project_actions_def resource_actions_def editor_actions_def)

text \<open>
  C16 (safety). \<^verbatim>\<open>Authorize\<close> never lets a principal out of its scope: whoever is allowed an action
  is a valid principal of the resource's tenant; a principal bound to a project acts on that
  project only; a role below tenant administrator acts inside a project and only by the editor's
  actions, a viewer only by the reading ones; and raising the role from viewer to editor or from
  editor to administrator takes no permission away.
\<close>

theorem authorize_confined:
  assumes "Authorize p a t q"
  shows "Principal_Valid p \<and> p_TenantID p = t \<and> (p_ProjectID p = [] \<or> q = p_ProjectID p) \<and>
    (p_Role p = RoleTenantAdmin \<or>
       q = p_ProjectID p \<and> q \<noteq> [] \<and> List.member editor_actions a \<and>
       (p_Role p = RoleProjectEditor \<or> p_Role p = RoleProjectViewer \<and> List.member viewer_actions a)) \<and>
    (p_Role p = RoleProjectViewer \<longrightarrow> Authorize (p\<lparr>p_Role := RoleProjectEditor\<rparr>) a t q) \<and>
    (p_Role p = RoleProjectEditor \<longrightarrow> Authorize (p\<lparr>p_Role := RoleTenantAdmin\<rparr>) a t q)"
proof -
  have v: "Principal_Valid p" "p_TenantID p = t" "t \<noteq> []" using assms by (auto simp: Authorize_def split: if_splits)
  then have r: "p_Role p = RoleTenantAdmin \<or> p_Role p = RoleProjectEditor \<and> p_ProjectID p \<noteq> [] \<or>
      p_Role p = RoleProjectViewer \<and> p_ProjectID p \<noteq> []"
    by (auto simp: Principal_Valid_def split: if_splits)
  have up: "Principal_Valid (p\<lparr>p_Role := RoleTenantAdmin\<rparr>)"
    "p_Role p = RoleProjectViewer \<Longrightarrow> Principal_Valid (p\<lparr>p_Role := RoleProjectEditor\<rparr>)"
    using v(1) by (auto simp: Principal_Valid_def split: if_splits)
  from r show ?thesis
    using assms v up viewer_of_editor [of a] by (elim disjE conjE) (auto simp: Authorize_def split: if_splits)
qed

theorem authorize_confined_witness:
  "list_all (\<lambda>(p, a, t, q). Authorize p a t q \<and> p_TenantID p = t \<and> (p_ProjectID p = [] \<or> q = p_ProjectID p))
     [(\<lparr>p_Kind = ''user'', p_SubjectID = ''u1'', p_TenantID = ''t1'', p_Role = ''project_viewer'', p_ProjectID = ''p1''\<rparr>,
       ''resource.read'', ''t1'', ''p1'')]"
proof -
  let ?p = "\<lparr>p_Kind = ''user'', p_SubjectID = ''u1'', p_TenantID = ''t1'', p_Role = ''project_viewer'', p_ProjectID = ''p1''\<rparr>"
  have a: "Authorize ?p ''resource.read'' ''t1'' ''p1''" by code_simp
  show ?thesis using authorize_confined [OF a] a by simp
qed

section \<open>The life of an API key\<close>

text \<open>
  C17 (roundtrip). A key that \<^verbatim>\<open>Create\<close> issues in any state the service can reach authenticates
  with the secret it returned, as the principal it was created for (trimmed tenant and project, the
  requested role), after any further calls of the service and at any instant before its expiry, as
  long as no call revokes or rotates it and no later call draws the same random identifier.
\<close>

theorem api_key_roundtrip:
  assumes "APIKey_Create b rnd now inp (fst (auth_run before (NewAPIKeyService pepper))) = (s, Inr (k, secret))"
    and "list_all (\<lambda>op. draws op \<noteq> Some (ak_ID k) \<and> retires op \<noteq> Some (ak_ID k)) ops"
    and "case ci_ExpiresAt inp of None \<Rightarrow> True | Some e \<Rightarrow> t < e"
  shows "snd (Authenticate t secret (fst (auth_run ops s))) =
    Inr \<lparr>p_Kind = PrincipalAPIKey, p_SubjectID = ak_ID k, p_TenantID = TrimSpace (ci_TenantID inp),
         p_Role = ci_Role inp, p_ProjectID = TrimSpace (ci_ProjectID inp)\<rparr>"
proof -
  let ?s0 = "fst (auth_run before (NewAPIKeyService pepper))"
  have wf0: "keys_wf ?s0" by (simp add: keys_wf_run)
  have s: "s = fst (auth_step (OpCreate b rnd now inp) ?s0)" using assms(1) by simp
  have wf: "keys_wf s" unfolding s by (rule keys_wf_step [OF wf0])
  have pep: "aks_pepper s = aks_pepper ?s0" unfolding s by (rule auth_step_pepper)
  note iss = Create_issues [OF assms(1)]
  have flds: "ak_TenantID k = TrimSpace (ci_TenantID inp) \<and> ak_Role k = ci_Role inp \<and>
    ak_ProjectID k = TrimSpace (ci_ProjectID inp) \<and> ak_ExpiresAt k = ci_ExpiresAt inp"
    by (rule Create_ok [OF assms(1)]) simp
  then have "\<not> expired k t" using assms(3) by (auto simp: expired_def After_def split: option.splits)
  moreover have "issued_ok (aks_pepper s) k secret" "map_of (aks_items s) (ak_ID k) = Some k"
    using iss pep by auto
  ultimately have "snd (Authenticate t secret (fst (auth_run ops s))) = Inr (principal_of k)"
    using issued_authenticates [OF wf _ _ assms(2)] by blast
  with flds show ?thesis by (simp add: principal_of_def)
qed

text \<open>Concrete inputs for the witnesses below.\<close>

definition ex_input :: APIKeyCreateInput where
  "ex_input = \<lparr>ci_TenantID = ''t1'', ci_ProjectID = ''p1'', ci_Name = ''ci'', ci_Role = ''project_editor'',
               ci_CreatedBy = ''u1'', ci_ExpiresAt = Some 100\<rparr>"

definition ex_create :: "APIKeyService \<times> (auth_error + APIKey \<times> string)" where
  "ex_create = APIKey_Create (Some ''A'') (Some (replicate 32 (CHR ''x''))) 10 ex_input (NewAPIKeyService ''pepper'')"

lemma ex_trims: "TrimSpace ''t1'' = ''t1''" "TrimSpace ''p1'' = ''p1''" "TrimSpace ''ci'' = ''ci''" "TrimSpace ''u1'' = ''u1''"
  "TrimSpace ''key_41'' = ''key_41''" "id_New ''key'' (Some ''A'') = ''key_41''" "id_New ''key'' (Some ''B'') = ''key_42''"
  by code_simp+

lemma ex_create_ok:
  obtains s k secret where "ex_create = (s, Inr (k, secret))" "ak_ID k = ''key_41''"
  by (simp add: ex_create_def APIKey_Create_def ex_input_def ex_trims read_secret_def After_def Let_def)

theorem api_key_roundtrip_witness:
  "\<exists>s k secret. ex_create = (s, Inr (k, secret)) \<and>
     snd (Authenticate 60 secret (fst (auth_run [OpAuthenticate 20 secret, OpRevoke 30 ''t1'' ''other''] s))) =
       Inr \<lparr>p_Kind = ''api_key'', p_SubjectID = ''key_41'', p_TenantID = ''t1'', p_Role = ''project_editor'',
            p_ProjectID = ''p1''\<rparr>"
proof (rule ex_create_ok)
  fix s k secret assume c: "ex_create = (s, Inr (k, secret))" and k: "ak_ID k = ''key_41''"
  have t: "TrimSpace ''other'' = ''other''" by code_simp
  have "APIKey_Create (Some ''A'') (Some (replicate 32 (CHR ''x''))) 10 ex_input
      (fst (auth_run [] (NewAPIKeyService ''pepper''))) = (s, Inr (k, secret))"
    using c by (simp add: ex_create_def)
  from api_key_roundtrip [OF this, of "[OpAuthenticate 20 secret, OpRevoke 30 ''t1'' ''other'']" 60]
  have "snd (Authenticate 60 secret (fst (auth_run [OpAuthenticate 20 secret, OpRevoke 30 ''t1'' ''other''] s))) =
       Inr \<lparr>p_Kind = ''api_key'', p_SubjectID = ''key_41'', p_TenantID = ''t1'', p_Role = ''project_editor'',
            p_ProjectID = ''p1''\<rparr>"
    using k by (simp add: t ex_input_def ex_trims)
  with c show ?thesis by blast
qed

text \<open>
  Once \<^verbatim>\<open>Revoke\<close> has answered without an error for a key, no secret that names this key
  authenticates again, whatever calls follow and whatever the clock says, unless a later call draws
  the same random identifier for a new key.
\<close>

lemma revoked_key_refused:
  assumes "APIKey_Revoke now tenantID keyID (fst (auth_run before (NewAPIKeyService pepper))) = (s, Inr ())"
    and "list_all (\<lambda>op. draws op \<noteq> Some (TrimSpace keyID)) ops"
    and "parseAPIKeyID secret = Some (TrimSpace keyID)"
  shows "\<exists>e. snd (Authenticate t secret (fst (auth_run ops s))) = Inl e"
proof -
  let ?s0 = "fst (auth_run before (NewAPIKeyService pepper))"
  have wf: "keys_wf s" using keys_wf_step [of ?s0 "OpRevoke now tenantID keyID"] assms(1) by (simp add: keys_wf_run)
  obtain k where "map_of (aks_items s) (TrimSpace keyID) = Some k" "ak_RevokedAt k \<noteq> None"
    using assms(1) by (auto simp: APIKey_Revoke_def RevokeAPIKey_def map_simps split: option.splits if_splits)
  from revoked_refused [OF wf this assms(2,3)] show ?thesis .
qed

lemma revoked_key_refused_witness:
  "\<exists>s k secret s'. ex_create = (s, Inr (k, secret)) \<and> APIKey_Revoke 20 ''t1'' ''key_41'' s = (s', Inr ()) \<and>
     (\<exists>e. snd (Authenticate 60 secret (fst (auth_run [OpAuthenticate 30 secret] s'))) = Inl e)"
proof (rule ex_create_ok)
  fix s k secret assume c: "ex_create = (s, Inr (k, secret))" and k: "ak_ID k = ''key_41''"
  note iss = Create_issues [OF c [unfolded ex_create_def]]
  have tn: "ak_TenantID k = ''t1''"
    by (rule Create_ok [OF c [unfolded ex_create_def]]) (simp add: ex_input_def ex_trims)
  have s: "s = fst (auth_run [OpCreate (Some ''A'') (Some (replicate 32 (CHR ''x''))) 10 ex_input] (NewAPIKeyService ''pepper''))"
    using c by (simp add: auth_run_Cons ex_create_def)
  obtain s' where r: "APIKey_Revoke 20 ''t1'' ''key_41'' s = (s', Inr ())"
    using iss tn k by (simp add: APIKey_Revoke_def RevokeAPIKey_def ex_trims issued_ok_def)
  from revoked_key_refused [OF r [unfolded s], of "[OpAuthenticate 30 secret]" secret 60] iss k
  have "\<exists>e. snd (Authenticate 60 secret (fst (auth_run [OpAuthenticate 30 secret] s'))) = Inl e"
    by (simp add: ex_trims issued_ok_def)
  with c r show ?thesis by blast
qed

section \<open>Rotation\<close>

text \<open>
  A rotation that succeeds, in any state the service can reach, hands the key over: the
  new secret authenticates with the tenant, role, project and expiry of the old key under the new
  identifier (as long as it is not retired itself), no secret of the old key authenticates again,
  and the old key cannot be rotated a second time. The drawn identifier is taken to be new and not
  drawn again.
\<close>

lemma rotation_hands_over:
  assumes rot: "APIKey_Rotate b rnd now inp (fst (auth_run before (NewAPIKeyService pepper))) = (s, Inr (k, secret))"
    and fresh: "map_of (aks_items (fst (auth_run before (NewAPIKeyService pepper)))) (id_New ''key'' b) = None"
    and ops: "list_all (\<lambda>op. draws op \<noteq> Some (ak_ID k) \<and> retires op \<noteq> Some (ak_ID k) \<and>
        draws op \<noteq> Some (TrimSpace (ri_KeyID inp))) ops"
  shows "\<exists>old.
    map_of (aks_items (fst (auth_run before (NewAPIKeyService pepper)))) (TrimSpace (ri_KeyID inp)) = Some old \<and>
    (\<forall>t. \<not> expired old t \<longrightarrow> snd (Authenticate t secret (fst (auth_run ops s))) =
        Inr ((principal_of old)\<lparr>p_SubjectID := ak_ID k\<rparr>)) \<and>
    (\<forall>t sec. parseAPIKeyID sec = Some (TrimSpace (ri_KeyID inp)) \<longrightarrow>
        (\<exists>e. snd (Authenticate t sec (fst (auth_run ops s))) = Inl e)) \<and>
    (\<forall>b' rnd' t inp'. TrimSpace (ri_KeyID inp') = TrimSpace (ri_KeyID inp) \<longrightarrow>
        (\<exists>e. snd (APIKey_Rotate b' rnd' t inp' (fst (auth_run ops s))) = Inl e))"
proof -
  let ?s0 = "fst (auth_run before (NewAPIKeyService pepper))" and ?i = "TrimSpace (ri_KeyID inp)"
  have wf0: "keys_wf ?s0" by (simp add: keys_wf_run)
  have s: "s = fst (auth_step (OpRotate b rnd now inp) ?s0)" using rot by simp
  have wf: "keys_wf s" unfolding s by (rule keys_wf_step [OF wf0])
  have "aks_pepper s = aks_pepper ?s0" unfolding s by (rule auth_step_pepper)
  then have iss: "issued_ok (aks_pepper s) k secret" "map_of (aks_items s) (ak_ID k) = Some k"
    using Rotate_issues [OF wf0 rot] by auto
  obtain old where old: "map_of (aks_items ?s0) ?i = Some old" "ak_RevokedAt old = None"
      "s = ?s0\<lparr>aks_items := gput (id_New ''key'' b) k (gput ?i (old\<lparr>ak_RevokedAt := Some now\<rparr>) (aks_items ?s0))\<rparr>"
      "ak_ExpiresAt k = ak_ExpiresAt old" "principal_of k = (principal_of old)\<lparr>p_SubjectID := ak_ID k\<rparr>"
    by (rule Rotate_ok [OF wf0 rot]) (auto simp: principal_of_def)
  have ops_i: "list_all (\<lambda>op. draws op \<noteq> Some ?i) ops" using ops by (auto simp: list_all_iff)
  have ops_k: "list_all (\<lambda>op. draws op \<noteq> Some (ak_ID k) \<and> retires op \<noteq> Some (ak_ID k)) ops"
    using ops by (auto simp: list_all_iff)
  have "?i \<noteq> id_New ''key'' b" using old(1) fresh by auto
  then have dead: "map_of (aks_items s) ?i = Some (old\<lparr>ak_RevokedAt := Some now\<rparr>)"
    unfolding old(3) by (simp add: map_simps)
  then obtain k' where k': "map_of (aks_items (fst (auth_run ops s))) ?i = Some k'" "ak_RevokedAt k' \<noteq> None"
    using run_follows [OF wf dead ops_i] by (auto simp: follows_def)
  show ?thesis
  proof (intro exI [of _ old] conjI allI impI old(1))
    fix t assume "\<not> expired old t"
    then have "\<not> expired k t" using old(4) by (simp add: expired_def)
    from issued_authenticates [OF wf iss(2,1) ops_k this] old(5)
    show "snd (Authenticate t secret (fst (auth_run ops s))) = Inr ((principal_of old)\<lparr>p_SubjectID := ak_ID k\<rparr>)" by simp
  next
    fix t sec assume "parseAPIKeyID sec = Some ?i"
    with revoked_refused [OF wf dead _ ops_i] show "\<exists>e. snd (Authenticate t sec (fst (auth_run ops s))) = Inl e" by simp
  next
    fix b' rnd' t and inp' :: APIKeyRotateInput assume "TrimSpace (ri_KeyID inp') = ?i"
    with k' show "\<exists>e. snd (APIKey_Rotate b' rnd' t inp' (fst (auth_run ops s))) = Inl e"
      by (simp add: APIKey_Rotate_def GetAPIKeyByID_def Let_def)
  qed
qed

definition ex_rotate :: APIKeyRotateInput where
  "ex_rotate = \<lparr>ri_TenantID = ''t1'', ri_KeyID = ''key_41'', ri_RotatedBy = ''u1''\<rparr>"

lemma rotation_hands_over_witness:
  "\<exists>s k secret s' k' secret'. ex_create = (s, Inr (k, secret)) \<and>
     APIKey_Rotate (Some ''B'') (Some (replicate 32 (CHR ''y''))) 20 ex_rotate s = (s', Inr (k', secret')) \<and>
     snd (Authenticate 60 secret' s') = Inr ((principal_of k)\<lparr>p_SubjectID := ''key_42''\<rparr>) \<and>
     (\<exists>e. snd (Authenticate 60 secret s') = Inl e)"
proof (rule ex_create_ok)
  fix s k secret assume c: "ex_create = (s, Inr (k, secret))" and k: "ak_ID k = ''key_41''"
  let ?B = "Some ''B'' :: entropy" and ?R = "Some (replicate 32 (CHR ''y'')) :: string option"
  note iss = Create_issues [OF c [unfolded ex_create_def]]
  have tn: "ak_TenantID k = ''t1''" "ak_RotatedFromKeyID k = []" "ak_ExpiresAt k = Some 100" "aks_items s = [(''key_41'', k)]"
    by (rule Create_ok [OF c [unfolded ex_create_def]], simp add: ex_input_def ex_trims NewAPIKeyService_def)+
  have s: "s = fst (auth_run [OpCreate (Some ''A'') (Some (replicate 32 (CHR ''x''))) 10 ex_input] (NewAPIKeyService ''pepper''))"
    using c by (simp add: auth_run_Cons ex_create_def)
  obtain s' k' secret' where r: "APIKey_Rotate ?B ?R 20 ex_rotate s = (s', Inr (k', secret'))"
    "ak_ID k' = ''key_42''"
    using iss tn k by (simp add: APIKey_Rotate_def RotateAPIKey_def GetAPIKeyByID_def ex_rotate_def ex_trims issued_ok_def
        expired_def After_def read_secret_def Let_def)
  have "map_of (aks_items s) (id_New ''key'' ?B) = None" using tn(4) by (simp add: ex_trims)
  from rotation_hands_over [OF r(1) [unfolded s] this [unfolded s], of "[]"] obtain old where
    old: "map_of (aks_items s) ''key_41'' = Some old" "\<And>t. \<not> expired old t \<Longrightarrow>
      snd (Authenticate t secret' s') = Inr ((principal_of old)\<lparr>p_SubjectID := ak_ID k'\<rparr>)"
    "\<And>t sec. parseAPIKeyID sec = Some ''key_41'' \<Longrightarrow> \<exists>e. snd (Authenticate t sec s') = Inl e"
    unfolding s [symmetric] by (auto simp: ex_rotate_def ex_trims)
  have "old = k" using old(1) tn(4) by simp
  then have "snd (Authenticate 60 secret' s') = Inr ((principal_of k)\<lparr>p_SubjectID := ''key_42''\<rparr>)"
    using old(2) [of 60] tn(3) r(2) by (simp add: expired_def After_def)
  moreover have "\<exists>e. snd (Authenticate 60 secret s') = Inl e"
    using old(3) iss k by (auto simp: issued_ok_def)
  ultimately show ?thesis using c r(1) by blast
qed

text \<open>
  C18 (safety). Every principal that \<^verbatim>\<open>Authenticate\<close> returns goes back to a key the service issued: in any
  run from an empty store there is a call that issued a key with this identifier, tenant, role and
  project together with a secret that has the same keyed hash as the one presented, and the
  presented secret names this key.
\<close>

theorem authenticated_was_issued:
  assumes "snd (Authenticate t secret (fst (auth_run ops (NewAPIKeyService pepper)))) = Inr p"
  shows "\<exists>k secret'. (k, secret') \<in> set (snd (auth_run ops (NewAPIKeyService pepper))) \<and> p = principal_of k \<and>
    parseAPIKeyID secret = Some (ak_ID k) \<and> hashAPIKey pepper secret = hashAPIKey pepper secret' \<and>
    \<not> expired k t"
proof -
  have pep: "aks_pepper (NewAPIKeyService pepper) = pepper" by (simp add: NewAPIKeyService_def)
  from assms obtain i k' where k': "parseAPIKeyID secret = Some i"
    "map_of (aks_items (fst (auth_run ops (NewAPIKeyService pepper)))) i = Some k'"
    "ak_KeyHash k' = hashAPIKey pepper secret" "\<not> expired k' t" "p = principal_of k'"
    by (auto simp: Authenticate_iff pep)
  from run_origin [OF keys_wf_New k'(2)] obtain k secret' where
    k: "(k, secret') \<in> set (snd (auth_run ops (NewAPIKeyService pepper)))" "ak_ID k = i"
      "ak_KeyHash k = hashAPIKey pepper secret'" "follows True k k'"
    by (auto simp: pep NewAPIKeyService_def)
  have "p = principal_of k" "parseAPIKeyID secret = Some (ak_ID k)" "\<not> expired k t"
    "hashAPIKey pepper secret = hashAPIKey pepper secret'"
    using k' k follows_principal [OF k(4)] follows_expired [OF k(4)] by simp_all
  with k(1) show ?thesis by blast
qed

theorem authenticated_was_issued_witness:
  "\<exists>k secret. snd (Authenticate 50 secret
       (fst (auth_run [OpCreate (Some ''A'') (Some (replicate 32 (CHR ''x''))) 10 ex_input] (NewAPIKeyService ''pepper'')))) =
       Inr (principal_of k) \<and>
     (\<exists>k' secret'. (k', secret') \<in> set (snd (auth_run [OpCreate (Some ''A'') (Some (replicate 32 (CHR ''x''))) 10 ex_input]
         (NewAPIKeyService ''pepper''))) \<and> principal_of k = principal_of k' \<and> \<not> expired k' 50)"
proof (rule ex_create_ok)
  fix s k secret assume c: "ex_create = (s, Inr (k, secret))"
  let ?ops = "[OpCreate (Some ''A'') (Some (replicate 32 (CHR ''x''))) 10 ex_input]"
  have s: "s = fst (auth_run ?ops (NewAPIKeyService ''pepper''))"
    using c by (simp add: auth_run_Cons ex_create_def)
  have "ak_ExpiresAt k = Some 100" "aks_pepper s = aks_pepper (NewAPIKeyService ''pepper'')"
    by (rule Create_ok [OF c [unfolded ex_create_def]], simp add: ex_input_def)+
  then have "snd (Authenticate 50 secret (fst (auth_run [] s))) = Inr (principal_of k)"
    using Create_issues [OF c [unfolded ex_create_def]]
    by (intro issued_authenticates) (auto simp: s keys_wf_run expired_def After_def)
  then have "snd (Authenticate 50 secret (fst (auth_run ?ops (NewAPIKeyService ''pepper'')))) = Inr (principal_of k)"
    unfolding s by simp
  with authenticated_was_issued [OF this] show ?thesis by blast
qed

end
