(* ===== verification/GoText.thy ===== *)
theory GoText
  imports Prelude
begin

text \<open>
  The text functions of the Go standard library that the repository calls: UTF-8 decoding as a
  \<^verbatim>\<open>range\<close> loop over a string performs it, \<^verbatim>\<open>strings.Fields\<close>, \<^verbatim>\<open>Split\<close>, \<^verbatim>\<open>Join\<close>, \<^verbatim>\<open>Contains\<close>,
  \<^verbatim>\<open>ToLower\<close>. The tables of \<^verbatim>\<open>unicode\<close> beyond ASCII are not part of the repository: they are the
  fields of a record the definitions take as an argument; what they say of ASCII characters is
  written out.
\<close>

section \<open>UTF-8\<close>

type_synonym rune = nat

definition RuneError :: rune where
  "RuneError = 0xFFFD"

definition cont_byte :: "char \<Rightarrow> bool" where
  "cont_byte c \<longleftrightarrow> 0x80 \<le> (of_char c :: nat) \<and> (of_char c :: nat) \<le> 0xBF"

definition between :: "nat \<Rightarrow> nat \<Rightarrow> char \<Rightarrow> bool" where
  "between lo hi c \<longleftrightarrow> lo \<le> of_char c \<and> of_char c \<le> hi"

text \<open>The range of the second byte depends on the first.\<close>

definition second_ok :: "nat \<Rightarrow> char \<Rightarrow> bool" where
  "second_ok b c =
     (if b = 0xE0 then between 0xA0 0xBF c
      else if b = 0xED then between 0x80 0x9F c
      else if b = 0xF0 then between 0x90 0xBF c
      else if b = 0xF4 then between 0x80 0x8F c
      else cont_byte c)"

definition low6 :: "char \<Rightarrow> nat" where
  "low6 c = of_char c mod 64"

text \<open>The number of bytes an encoding takes that starts with this byte.\<close>

definition lead_width :: "nat \<Rightarrow> nat" where
  "lead_width b =
     (if b < 0x80 then 1 else if 0xC2 \<le> b \<and> b \<le> 0xDF then 2 else if 0xE0 \<le> b \<and> b \<le> 0xEF then 3
      else if 0xF0 \<le> b \<and> b \<le> 0xF4 then 4 else 0)"

text \<open>\<^verbatim>\<open>utf8.DecodeRuneInString\<close> of a non-empty string: the rune and its width.\<close>

definition DecodeRune :: "string \<Rightarrow> rune \<times> nat" where
  "DecodeRune s =
     (case s of
        [] \<Rightarrow> (RuneError, 0)
      | c # cs \<Rightarrow>
          let b = of_char c; w = lead_width b
          in if w = 1 then (b, 1)
             else if w = 0 \<or> length cs + 1 < w then (RuneError, 1)
             else if \<not> second_ok b (cs ! 0) \<or> \<not> list_all cont_byte (take (w - 2) (drop 1 cs)) then (RuneError, 1)
             else if w = 2 then (b mod 32 * 64 + low6 (cs ! 0), 2)
             else if w = 3 then (b mod 16 * 4096 + low6 (cs ! 0) * 64 + low6 (cs ! 1), 3)
             else (b mod 8 * 262144 + low6 (cs ! 0) * 4096 + low6 (cs ! 1) * 64 + low6 (cs ! 2), 4))"

lemma DecodeRune_width: "s \<noteq> [] \<Longrightarrow> 1 \<le> snd (DecodeRune s) \<and> snd (DecodeRune s) \<le> length s"
  by (cases s) (auto simp: DecodeRune_def Let_def lead_width_def Suc_le_eq)

text \<open>A \<^verbatim>\<open>range\<close> loop over a string: each rune with the bytes it was decoded from.\<close>

function runes :: "string \<Rightarrow> (rune \<times> string) list" where
  "runes s =
     (if s = [] then [] else case DecodeRune s of (r, w) \<Rightarrow> (r, take w s) # runes (drop w s))"
  by pat_completeness auto
termination
  apply (relation "measure length")
   apply simp
  subgoal for s r w
    using DecodeRune_width [of s] by (cases "DecodeRune s") auto
  done

declare runes.simps [simp del]

lemma runes_Nil [simp]: "runes [] = []"
  by (simp add: runes.simps)

text \<open>\<^verbatim>\<open>string(r)\<close> and \<^verbatim>\<open>WriteRune\<close>; what is no code point is written as \<open>RuneError\<close>.\<close>

definition EncodeRune :: "rune \<Rightarrow> string" where
  "EncodeRune r0 =
     (let r = (if r0 > 0x10FFFF \<or> 0xD800 \<le> r0 \<and> r0 \<le> 0xDFFF then RuneError else r0)
      in map char_of
           (if r < 0x80 then [r]
            else if r < 0x800 then [0xC0 + r div 64, 0x80 + r mod 64]
            else if r < 0x10000 then [0xE0 + r div 4096, 0x80 + r div 64 mod 64, 0x80 + r mod 64]
            else [0xF0 + r div 262144, 0x80 + r div 4096 mod 64, 0x80 + r div 64 mod 64, 0x80 + r mod 64]))"

definition RuneCount :: "string \<Rightarrow> nat" where
  "RuneCount s = length (runes s)"

section \<open>Classes of characters\<close>

record unicode_tables =
  ut_lower :: "rune \<Rightarrow> rune"
  ut_punct :: "rune \<Rightarrow> bool"
  ut_symbol :: "rune \<Rightarrow> bool"
  ut_letter :: "rune \<Rightarrow> bool"
  ut_digit :: "rune \<Rightarrow> bool"
  ut_han :: "rune \<Rightarrow> bool"
  ut_kana_hangul :: "rune \<Rightarrow> bool"

text \<open>Tables that know no character beyond ASCII, for concrete inputs in ASCII.\<close>

definition ascii_tables :: unicode_tables where
  "ascii_tables = \<lparr>ut_lower = (\<lambda>r. r), ut_punct = (\<lambda>r. False), ut_symbol = (\<lambda>r. False), ut_letter = (\<lambda>r. False),
                   ut_digit = (\<lambda>r. False), ut_han = (\<lambda>r. False), ut_kana_hangul = (\<lambda>r. False)\<rparr>"

definition code_points :: "string \<Rightarrow> rune list" where
  "code_points s = map of_char s"

definition IsSpace :: "rune \<Rightarrow> bool" where
  "IsSpace r \<longleftrightarrow> 0x09 \<le> r \<and> r \<le> 0x0D \<or> r = 0x20 \<or> r = 0x85 \<or> r = 0xA0 \<or> r = 0x1680 \<or>
     0x2000 \<le> r \<and> r \<le> 0x200A \<or> r = 0x2028 \<or> r = 0x2029 \<or> r = 0x202F \<or> r = 0x205F \<or> r = 0x3000"

definition IsPunct :: "unicode_tables \<Rightarrow> rune \<Rightarrow> bool" where
  "IsPunct u r = (if r < 0x80 then List.member (code_points ''!%&()*,-./:;?@[]_{}'' @ [0x22, 0x23, 0x27, 0x5C]) r else ut_punct u r)"

definition IsSymbol :: "unicode_tables \<Rightarrow> rune \<Rightarrow> bool" where
  "IsSymbol u r = (if r < 0x80 then List.member (code_points ''$+<=>^|~'' @ [0x60]) r else ut_symbol u r)"

definition IsDigit :: "unicode_tables \<Rightarrow> rune \<Rightarrow> bool" where
  "IsDigit u r = (if r < 0x80 then 0x30 \<le> r \<and> r \<le> 0x39 else ut_digit u r)"

definition IsLetter :: "unicode_tables \<Rightarrow> rune \<Rightarrow> bool" where
  "IsLetter u r = (if r < 0x80 then 0x41 \<le> r \<and> r \<le> 0x5A \<or> 0x61 \<le> r \<and> r \<le> 0x7A else ut_letter u r)"

text \<open>The scripts Han, Hiragana, Katakana and Hangul have no ASCII character.\<close>

definition IsHan :: "unicode_tables \<Rightarrow> rune \<Rightarrow> bool" where
  "IsHan u r \<longleftrightarrow> 0x80 \<le> r \<and> ut_han u r"

definition IsKanaHangul :: "unicode_tables \<Rightarrow> rune \<Rightarrow> bool" where
  "IsKanaHangul u r \<longleftrightarrow> 0x80 \<le> r \<and> ut_kana_hangul u r"

definition unicode_ToLower :: "unicode_tables \<Rightarrow> rune \<Rightarrow> rune" where
  "unicode_ToLower u r = (if r < 0x80 then if 0x41 \<le> r \<and> r \<le> 0x5A then r + 32 else r else ut_lower u r)"

section \<open>Strings\<close>

definition ToLower :: "unicode_tables \<Rightarrow> string \<Rightarrow> string" where
  "ToLower u s = concat (map (\<lambda>(r, bs). EncodeRune (unicode_ToLower u r)) (runes s))"

text \<open>The maximal runs of the elements that do not satisfy a predicate.\<close>

fun split_where :: "('a \<Rightarrow> bool) \<Rightarrow> 'a list \<Rightarrow> 'a list \<Rightarrow> 'a list list" where
  "split_where P [] cur = (if cur = [] then [] else [cur])"
| "split_where P (x # xs) cur =
     (if P x then (if cur = [] then [] else [cur]) @ split_where P xs [] else split_where P xs (cur @ [x]))"

definition FieldsFunc :: "(rune \<Rightarrow> bool) \<Rightarrow> string \<Rightarrow> string list" where
  "FieldsFunc P s = map (\<lambda>g. concat (map snd g)) (split_where (\<lambda>x. P (fst x)) (runes s) [])"

definition Fields :: "string \<Rightarrow> string list" where
  "Fields s = FieldsFunc IsSpace s"

fun Join :: "string list \<Rightarrow> string \<Rightarrow> string" where
  "Join [] sep = []"
| "Join [x] sep = x"
| "Join (x # y # ys) sep = x @ sep @ Join (y # ys) sep"

fun Contains :: "string \<Rightarrow> string \<Rightarrow> bool" where
  "Contains [] t = (t = [])"
| "Contains (c # cs) t = (is_prefix t (c # cs) \<or> Contains cs t)"

text \<open>\<^verbatim>\<open>strings.Split\<close> with a separator of two or more bytes; \<open>cur\<close> is the piece being read.\<close>

function Split_from :: "string \<Rightarrow> string \<Rightarrow> string \<Rightarrow> string list" where
  "Split_from sep s cur =
     (if s = [] then [cur]
      else if sep \<noteq> [] \<and> is_prefix sep s then cur # Split_from sep (drop (length sep) s) []
      else Split_from sep (tl s) (cur @ [hd s]))"
  by pat_completeness auto
termination by (relation "measure (\<lambda>(sep, s, cur). length s)") auto

declare Split_from.simps [simp del]

definition Split :: "string \<Rightarrow> string \<Rightarrow> string list" where
  "Split s sep = Split_from sep s []"

lemma concat_runes: "concat (map snd (runes s)) = s"
proof (induction s rule: runes.induct)
  case (1 s)
  show ?case
  proof (cases "s = []")
    case False
    obtain r w where d: "DecodeRune s = (r, w)" by fastforce
    with 1 [OF False d [symmetric]] False show ?thesis by (simp add: runes.simps [of s])
  qed simp
qed

lemma Join_Split_from: "Join (Split_from sep s cur) sep = cur @ s" if "sep \<noteq> []"
  using that
proof (induction sep s cur rule: Split_from.induct)
  case (1 sep s cur)
  have ne: "Split_from sep t c \<noteq> []" for t c
  proof (induction sep t c rule: Split_from.induct)
    case (1 sep s cur)
    then show ?case by (subst Split_from.simps) simp
  qed
  have J: "Join (x # ys) sep = x @ sep @ Join ys sep" if "ys \<noteq> []" for x ys
    using that by (cases ys) auto
  show ?case
  proof (cases "s = []")
    case True
    then show ?thesis by (simp add: Split_from.simps)
  next
    case s: False
    show ?thesis
    proof (cases "is_prefix sep s")
      case True
      then obtain r where "s = sep @ r" by (auto simp: is_prefix_iff)
      with 1 s True show ?thesis by (subst Split_from.simps) (simp add: J ne)
    next
      case False
      with 1 s show ?thesis by (subst Split_from.simps) simp
    qed
  qed
qed

text \<open>Splitting loses nothing.\<close>

lemma Join_Split: "sep \<noteq> [] \<Longrightarrow> Join (Split s sep) sep = s"
  by (simp add: Split_def Join_Split_from)

end
