(* ===== verification/Float64.thy ===== *)
theory Float64
  imports Prelude Complex_Main
begin

text \<open>
  The type \<^verbatim>\<open>float64\<close> of Go: IEEE 754 binary64 with rounding to nearest, ties to even. A finite
  value is the rational number it stands for, so the two zeros are one value; nothing the
  repository computes tells them apart (it neither divides by a zero it has not excluded nor
  prints one).
\<close>

section \<open>Values and rounding\<close>

datatype float64 = NegInf | Fin rat | PosInf | NaN

function nlog2 :: "int \<Rightarrow> int" where
  "nlog2 n = (if n < 2 then 0 else 1 + nlog2 (n div 2))"
  by pat_completeness auto
termination by (relation "measure nat") auto

declare nlog2.simps [simp del]

text \<open>The binary exponent of a positive rational.\<close>

definition ilog2 :: "rat \<Rightarrow> int" where
  "ilog2 x =
     (case quotient_of x of (p, q) \<Rightarrow>
        let d = nlog2 p - nlog2 q in if 2 powi d \<le> x then d else d - 1)"

definition round_half_even :: "rat \<Rightarrow> int" where
  "round_half_even x =
     (let f = \<lfloor>x\<rfloor>; d = x - of_int f
      in if d < 1 / 2 then f else if d > 1 / 2 then f + 1 else if even f then f else f + 1)"

text \<open>The exponent of the last place of the numbers around \<open>x\<close>: 53 significant bits, and at least the subnormal one.\<close>

definition ulp_exp :: "rat \<Rightarrow> int" where
  "ulp_exp x = max (ilog2 \<bar>x\<bar> - 52) (- 1074)"

definition round_at :: "int \<Rightarrow> rat \<Rightarrow> rat" where
  "round_at e x = of_int (round_half_even (x / 2 powi e)) * 2 powi e"

definition nearest :: "rat \<Rightarrow> rat" where
  "nearest x = (if x = 0 then 0 else round_at (ulp_exp x) x)"

definition fround :: "rat \<Rightarrow> float64" where
  "fround x =
     (let y = nearest x in if y \<ge> 2 ^ 1024 then PosInf else if y \<le> - (2 ^ 1024) then NegInf else Fin y)"

section \<open>Arithmetic\<close>

fun fneg :: "float64 \<Rightarrow> float64" where
  "fneg NegInf = PosInf"
| "fneg (Fin x) = Fin (- x)"
| "fneg PosInf = NegInf"
| "fneg NaN = NaN"

fun fadd :: "float64 \<Rightarrow> float64 \<Rightarrow> float64" where
  "fadd NaN y = NaN"
| "fadd x NaN = NaN"
| "fadd (Fin x) (Fin y) = fround (x + y)"
| "fadd (Fin x) y = y"
| "fadd x (Fin y) = x"
| "fadd PosInf PosInf = PosInf"
| "fadd NegInf NegInf = NegInf"
| "fadd PosInf NegInf = NaN"
| "fadd NegInf PosInf = NaN"

definition fsub :: "float64 \<Rightarrow> float64 \<Rightarrow> float64" where
  "fsub x y = fadd x (fneg y)"

text \<open>The infinity with the sign of a product.\<close>

definition inf_of :: "rat \<Rightarrow> float64" where
  "inf_of s = (if s > 0 then PosInf else if s < 0 then NegInf else NaN)"

fun fsign :: "float64 \<Rightarrow> rat" where
  "fsign NegInf = - 1"
| "fsign (Fin x) = sgn x"
| "fsign PosInf = 1"
| "fsign NaN = 0"

fun fmul :: "float64 \<Rightarrow> float64 \<Rightarrow> float64" where
  "fmul NaN y = NaN"
| "fmul x NaN = NaN"
| "fmul (Fin x) (Fin y) = fround (x * y)"
| "fmul x y = inf_of (fsign x * fsign y)"

fun fdiv :: "float64 \<Rightarrow> float64 \<Rightarrow> float64" where
  "fdiv NaN y = NaN"
| "fdiv x NaN = NaN"
| "fdiv (Fin x) (Fin y) = (if y = 0 then inf_of x else fround (x / y))"
| "fdiv (Fin x) y = Fin 0"
| "fdiv x (Fin y) = inf_of (fsign x * (if y < 0 then - 1 else 1))"
| "fdiv x y = NaN"

text \<open>\<^verbatim>\<open>math.Sqrt\<close>: the integer square root of the scaled argument, rounded by the remainder.\<close>

definition sqrt_nearest :: "rat \<Rightarrow> rat" where
  "sqrt_nearest x =
     (let e = ilog2 x div 2 - 52;
          r = x / (2 powi (2 * e));
          n = iroot 2 \<lfloor>r\<rfloor>;
          m = (if r > (of_int n + 1 / 2) ^ 2 \<or> (r = (of_int n + 1 / 2) ^ 2 \<and> odd n) then n + 1 else n)
      in of_int m * 2 powi e)"

fun fsqrt :: "float64 \<Rightarrow> float64" where
  "fsqrt NegInf = NaN"
| "fsqrt (Fin x) = (if x < 0 then NaN else if x = 0 then Fin 0 else Fin (sqrt_nearest x))"
| "fsqrt PosInf = PosInf"
| "fsqrt NaN = NaN"

fun flt :: "float64 \<Rightarrow> float64 \<Rightarrow> bool" where
  "flt NaN y = False"
| "flt x NaN = False"
| "flt (Fin x) (Fin y) = (x < y)"
| "flt (Fin x) y = (y = PosInf)"
| "flt NegInf y = (y \<noteq> NegInf)"
| "flt PosInf y = False"

fun feq :: "float64 \<Rightarrow> float64 \<Rightarrow> bool" where
  "feq NaN y = False"
| "feq x y = (x = y)"

definition fle :: "float64 \<Rightarrow> float64 \<Rightarrow> bool" where
  "fle x y \<longleftrightarrow> flt x y \<or> feq x y"

text \<open>\<^verbatim>\<open>float64(n)\<close> of an integer, and a constant of the source.\<close>

definition of_int64 :: "int \<Rightarrow> float64" where
  "of_int64 n = fround (of_int n)"

fun fabs :: "float64 \<Rightarrow> float64" where
  "fabs (Fin x) = Fin \<bar>x\<bar>"
| "fabs NegInf = PosInf"
| "fabs x = x"

text \<open>\<^verbatim>\<open>int(x)\<close> of a finite value truncates towards zero.\<close>

definition trunc :: "rat \<Rightarrow> int" where
  "trunc x = (if x < 0 then \<lceil>x\<rceil> else \<lfloor>x\<rfloor>)"

section \<open>The order\<close>

text \<open>
  The library's order on the values puts \<open>NaN\<close> on top; on the others it is the order of the
  numbers, which the comparisons of the program decide.
\<close>

instantiation float64 :: linorder
begin

fun frank :: "float64 \<Rightarrow> nat \<times> rat" where
  "frank NegInf = (0, 0)"
| "frank (Fin x) = (1, x)"
| "frank PosInf = (2, 0)"
| "frank NaN = (3, 0)"

definition less_eq_float64 :: "float64 \<Rightarrow> float64 \<Rightarrow> bool" where
  "less_eq_float64 x y \<longleftrightarrow> frank x \<le> frank y"

definition less_float64 :: "float64 \<Rightarrow> float64 \<Rightarrow> bool" where
  "less_float64 x y \<longleftrightarrow> frank x < frank y"

lemma frank_inj: "frank x = frank y \<longleftrightarrow> x = y"
  by (cases x; cases y) auto

instance
proof
  fix x y z :: float64
  show "x < y \<longleftrightarrow> x \<le> y \<and> \<not> y \<le> x" by (auto simp: less_eq_float64_def less_float64_def)
  show "x \<le> x" by (simp add: less_eq_float64_def)
  show "x \<le> y \<Longrightarrow> y \<le> z \<Longrightarrow> x \<le> z" unfolding less_eq_float64_def by (rule order_trans)
  show "x \<le> y \<Longrightarrow> y \<le> x \<Longrightarrow> x = y" by (simp add: less_eq_float64_def flip: frank_inj)
  show "x \<le> y \<or> y \<le> x" unfolding less_eq_float64_def by (rule linear)
qed

end

lemma float64_order_simps [simp]:
  "Fin x \<le> Fin y \<longleftrightarrow> x \<le> y" "Fin x < Fin y \<longleftrightarrow> x < y" "NegInf \<le> z" "z \<le> NaN"
  "Fin x \<le> PosInf" "Fin x < PosInf" "NegInf < Fin x" "NegInf < PosInf" "PosInf < NaN"
  "\<not> PosInf \<le> Fin x" "\<not> Fin x \<le> NegInf" "\<not> PosInf \<le> NegInf"
  by (simp_all add: less_eq_float64_def less_float64_def) (cases z; simp)+

lemma flt_iff: "flt x y \<longleftrightarrow> x \<noteq> NaN \<and> y \<noteq> NaN \<and> x < y"
  by (cases x; cases y) (simp_all add: less_float64_def)

lemma feq_iff: "feq x y \<longleftrightarrow> x \<noteq> NaN \<and> x = y"
  by (cases x) auto

lemma fle_iff: "fle x y \<longleftrightarrow> x \<noteq> NaN \<and> y \<noteq> NaN \<and> x \<le> y"
  by (auto simp: fle_def flt_iff feq_iff)

lemma fneg_less [simp]: "x \<noteq> NaN \<Longrightarrow> y \<noteq> NaN \<Longrightarrow> fneg x < fneg y \<longleftrightarrow> y < x"
  by (cases x; cases y) (simp_all add: less_float64_def)

lemma fneg_inj [simp]: "fneg x = fneg y \<longleftrightarrow> x = y"
  by (cases x; cases y) auto

section \<open>Rounding\<close>

lemma nlog2_bounds: "n \<ge> 1 \<Longrightarrow> nlog2 n \<ge> 0 \<and> 2 ^ nat (nlog2 n) \<le> n \<and> n < 2 ^ (nat (nlog2 n) + 1)"
proof (induction n rule: nlog2.induct)
  case (1 n)
  show ?case
  proof (cases "n < 2")
    case True
    with 1 have "n = 1" by simp
    then show ?thesis by (simp add: nlog2.simps)
  next
    case False
    with 1 have IH: "nlog2 (n div 2) \<ge> 0" "2 ^ nat (nlog2 (n div 2)) \<le> n div 2"
      "n div 2 < 2 ^ (nat (nlog2 (n div 2)) + 1)" by simp_all
    have "nat (nlog2 n) = Suc (nat (nlog2 (n div 2)))"
      using False IH(1) by (simp add: nlog2.simps [of n] nat_add_distrib)
    moreover have "nlog2 n \<ge> 0" using False IH(1) by (simp add: nlog2.simps [of n])
    moreover have "n = 2 * (n div 2) + n mod 2" "0 \<le> n mod 2" "n mod 2 < 2" by simp_all
    ultimately show ?thesis using IH by (simp only: power_Suc power_add power_one_right simp_thms) linarith
  qed
qed

lemma powi_nonneg_nat: "d \<ge> 0 \<Longrightarrow> (2 :: rat) powi d = of_int (2 ^ nat d)"
  by (simp add: power_int_def)

lemma ilog2_bounds:
  assumes "x > 0"
  shows "2 powi ilog2 x \<le> x" "x < 2 powi (ilog2 x + 1)"
proof -
  obtain p q where pq: "quotient_of x = (p, q)" by fastforce
  then have x: "x = of_int p / of_int q" and q: "q > 0" by (simp_all add: quotient_of_div quotient_of_denom_pos)
  with assms have p: "p > 0" by (simp add: zero_less_divide_iff)
  let ?a = "nlog2 p" and ?b = "nlog2 q"
  have b: "?a \<ge> 0" "?b \<ge> 0" "2 ^ nat ?a \<le> p" "p < 2 ^ (nat ?a + 1)" "2 ^ nat ?b \<le> q" "q < 2 ^ (nat ?b + 1)"
    using nlog2_bounds [of p] nlog2_bounds [of q] p q by auto
  have pl: "(2 :: rat) powi ?a \<le> of_int p" "of_int p < (2 :: rat) powi (?a + 1)"
    using b(1,3,4) powi_nonneg_nat [of ?a] powi_nonneg_nat [of "?a + 1"]
    by (simp_all only: of_int_le_iff of_int_less_iff nat_add_distrib, simp_all add: nat_add_distrib of_int_less_iff)
  have ql: "(2 :: rat) powi ?b \<le> of_int q" "of_int q < (2 :: rat) powi (?b + 1)"
    using b(2,5,6) powi_nonneg_nat [of ?b] powi_nonneg_nat [of "?b + 1"]
    by (simp_all only: of_int_le_iff of_int_less_iff nat_add_distrib, simp_all add: nat_add_distrib of_int_less_iff)
  have lo: "2 powi (?a - ?b - 1) \<le> x"
  proof -
    have "(2 :: rat) powi (?a - ?b - 1) = 2 powi ?a / 2 powi (?b + 1)"
      by (simp add: power_int_diff power_int_add field_simps)
    also have "\<dots> \<le> of_int p / of_int q"
      using pl ql q p by (intro frac_le) auto
    finally show ?thesis by (simp add: x)
  qed
  have hi: "x < 2 powi (?a - ?b + 1)"
  proof -
    have "x < 2 powi (?a + 1) / 2 powi ?b"
      unfolding x using pl ql q p by (intro frac_less) auto
    also have "\<dots> = 2 powi (?a - ?b + 1)" by (simp add: power_int_diff power_int_add field_simps)
    finally show ?thesis .
  qed
  show "2 powi ilog2 x \<le> x" "x < 2 powi (ilog2 x + 1)"
    using lo hi by (simp_all add: ilog2_def pq Let_def not_le algebra_simps)
qed

lemma round_half_even_close: "\<bar>of_int (round_half_even x) - x\<bar> \<le> 1 / 2"
proof -
  have "of_int \<lfloor>x\<rfloor> \<le> x" "x < of_int \<lfloor>x\<rfloor> + 1" by linarith+
  then show ?thesis by (auto simp: round_half_even_def Let_def abs_le_iff)
qed

lemma round_half_even_of_int [simp]: "round_half_even (of_int n) = n"
  by (simp add: round_half_even_def)

lemma round_half_even_mono:
  assumes "x \<le> y"
  shows "round_half_even x \<le> round_half_even y"
proof (rule ccontr)
  assume "\<not> ?thesis"
  then have lt: "round_half_even y + 1 \<le> round_half_even x" by simp
  then have "of_int (round_half_even y) + 1 \<le> (of_int (round_half_even x) :: rat)" by (metis of_int_1 of_int_add of_int_le_iff)
  with round_half_even_close [of x] round_half_even_close [of y] assms
  have "of_int (round_half_even x) - x = 1 / 2" "y - of_int (round_half_even y) = 1 / 2" "x = y"
    by (simp_all add: abs_le_iff)
  with lt show False by simp
qed

lemma round_half_even_neg: "round_half_even (- x) = - round_half_even x"
proof (cases "x = of_int \<lfloor>x\<rfloor>")
  case True
  then show ?thesis by (metis of_int_minus round_half_even_of_int)
next
  case False
  then have "\<lceil>x\<rceil> = \<lfloor>x\<rfloor> + 1" by (simp add: ceiling_altdef)
  then have "\<lfloor>- x\<rfloor> = - \<lfloor>x\<rfloor> - 1" by (simp add: floor_minus)
  then show ?thesis by (auto simp: round_half_even_def Let_def)
qed

lemma round_at_mono: "x \<le> y \<Longrightarrow> round_at e x \<le> round_at e y"
  by (simp add: round_at_def round_half_even_mono divide_right_mono mult_right_mono)

lemma round_at_neg: "round_at e (- x) = - round_at e x"
  by (simp add: round_at_def round_half_even_neg)

lemma round_at_multiple: "x = of_int n * 2 powi e \<Longrightarrow> round_at e x = x"
  by (simp add: round_at_def)

lemma round_at_power: "e \<le> d \<Longrightarrow> round_at e (2 powi d) = 2 powi d"
proof (rule round_at_multiple [where n = "2 ^ nat (d - e)"])
  assume "e \<le> d"
  then have "of_int (2 ^ nat (d - e)) = (2 :: rat) powi (d - e)" by (simp add: power_int_def)
  then show "2 powi d = of_int (2 ^ nat (d - e)) * (2 :: rat) powi e"
    by (simp flip: power_int_add)
qed

lemma ilog2_mono:
  assumes "0 < x" "x \<le> y"
  shows "ilog2 x \<le> ilog2 y"
proof (rule ccontr)
  assume "\<not> ?thesis"
  then have "(2 :: rat) powi (ilog2 y + 1) \<le> 2 powi ilog2 x" by (intro power_int_increasing) auto
  with ilog2_bounds(1) [of x] ilog2_bounds(2) [of y] assms show False by linarith
qed

lemma nearest_mono_pos:
  assumes "0 < x" "x \<le> y"
  shows "nearest x \<le> nearest y"
proof (cases "ulp_exp x = ulp_exp y")
  case True
  with assms round_at_mono [of x y] show ?thesis by (simp add: nearest_def)
next
  case False
  let ?P = "(2 :: rat) powi ilog2 y"
  have le: "ilog2 x \<le> ilog2 y" using assms by (rule ilog2_mono)
  with False assms have lt: "ilog2 x < ilog2 y" "ulp_exp y = ilog2 y - 52" "ulp_exp x \<le> ilog2 y"
    by (auto simp: ulp_exp_def)
  have "x \<le> ?P"
  proof -
    have "(2 :: rat) powi (ilog2 x + 1) \<le> ?P" using lt by (intro power_int_increasing) auto
    with ilog2_bounds(2) [of x] assms show ?thesis by linarith
  qed
  then have "round_at (ulp_exp x) x \<le> ?P"
    using round_at_mono [of x ?P "ulp_exp x"] round_at_power [OF lt(3)] by simp
  also have "?P \<le> round_at (ulp_exp y) y"
    using round_at_mono [of ?P y "ulp_exp y"] round_at_power [of "ulp_exp y" "ilog2 y"] ilog2_bounds(1) [of y] assms lt
    by simp
  finally show ?thesis using assms by (simp add: nearest_def)
qed

lemma nearest_neg: "nearest (- x) = - nearest x"
  by (simp add: nearest_def ulp_exp_def round_at_neg)

lemma nearest_nonneg: "0 \<le> x \<Longrightarrow> 0 \<le> nearest x"
proof -
  assume "0 \<le> x"
  moreover have "round_half_even (0 :: rat) = 0" using round_half_even_of_int [of 0] by simp
  ultimately show ?thesis
    using round_at_mono [of 0 x "ulp_exp x"] by (auto simp: nearest_def round_at_def)
qed

lemma nearest_mono: "x \<le> y \<Longrightarrow> nearest x \<le> nearest y"
proof -
  assume xy: "x \<le> y"
  consider "0 < x" | "x \<le> 0" "0 \<le> y" | "y < 0" using xy by linarith
  then show ?thesis
  proof cases
    case 1
    then show ?thesis using xy by (rule nearest_mono_pos)
  next
    case 2
    then show ?thesis using nearest_nonneg [of y] nearest_nonneg [of "- x"] by (simp add: nearest_neg)
  next
    case 3
    then show ?thesis using nearest_mono_pos [of "- y" "- x"] xy by (simp add: nearest_neg)
  qed
qed

lemma fround_mono: "x \<le> y \<Longrightarrow> fround x \<le> fround y"
  using nearest_mono [of x y] by (auto simp: fround_def Let_def)

lemma fround_le_PosInf [simp]: "fround x \<le> PosInf"
  by (simp add: fround_def Let_def)

lemma fround_not_NaN [simp]: "fround x \<noteq> NaN"
  by (simp add: fround_def Let_def)

subsection \<open>Exact values\<close>

lemma powi_multiple:
  assumes "d \<le> e"
  shows "\<exists>k. of_int m * (2 :: rat) powi e = of_int k * 2 powi d"
proof -
  have "of_int (2 ^ nat (e - d)) = (2 :: rat) powi (e - d)" using assms by (simp add: power_int_def)
  then have "(2 :: rat) powi e = of_int (2 ^ nat (e - d)) * 2 powi d" by (simp flip: power_int_add)
  then have "of_int m * (2 :: rat) powi e = of_int (m * 2 ^ nat (e - d)) * 2 powi d" by simp
  then show ?thesis by blast
qed

lemma ilog2_less: "0 < x \<Longrightarrow> x < 2 powi k \<Longrightarrow> ilog2 x < k"
proof (rule ccontr)
  assume x: "0 < x" "x < 2 powi k" and "\<not> ilog2 x < k"
  then have "(2 :: rat) powi k \<le> 2 powi ilog2 x" by (intro power_int_increasing) auto
  with ilog2_bounds(1) [OF x(1)] x(2) show False by simp
qed

text \<open>A number with at most 53 significant bits above the subnormal place is its own rounding.\<close>

lemma nearest_exact:
  assumes "x = of_int m * 2 powi e" "\<bar>m\<bar> \<le> 2 ^ 53" "e \<ge> - 1074"
  shows "nearest x = x"
proof (cases "x = 0")
  case False
  show ?thesis
  proof (cases "\<bar>m\<bar> = 2 ^ 53")
    case True
    have "m = 2 ^ 53 \<or> m = - (2 ^ 53)" using True by linarith
    then have x: "x = 2 powi (e + 53) \<or> x = - (2 powi (e + 53))"
      using assms(1) by (auto simp: power_int_add)
    then have "\<bar>x\<bar> = 2 powi (e + 53)" by auto
    moreover have "(2 :: rat) powi (e + 53) < 2 powi (e + 54)" by (intro power_int_strict_increasing) auto
    ultimately have "ilog2 \<bar>x\<bar> < e + 54" using False by (intro ilog2_less) auto
    then have "ulp_exp x \<le> e + 53" using assms(3) by (auto simp: ulp_exp_def)
    then show ?thesis using x False round_at_power [of "ulp_exp x" "e + 53"] by (auto simp: nearest_def round_at_neg)
  next
    case ne: False
    then have "\<bar>m\<bar> < 2 ^ 53" using assms(2) by linarith
    then have "of_int \<bar>m\<bar> < (of_int (2 ^ 53) :: rat)" by (simp only: of_int_less_iff)
    then have "\<bar>x\<bar> < 2 powi (e + 53)" by (simp add: assms(1) abs_mult power_int_add)
    then have "ilog2 \<bar>x\<bar> < e + 53" using False by (intro ilog2_less) auto
    then have "ulp_exp x \<le> e" using assms(3) by (auto simp: ulp_exp_def)
    from powi_multiple [OF this, of m] assms(1) obtain k where "x = of_int k * 2 powi ulp_exp x" by auto
    then show ?thesis using False by (simp add: nearest_def round_at_multiple)
  qed
qed (simp add: nearest_def)

lemma nearest_form:
  assumes "x \<noteq> 0"
  shows "\<exists>m. nearest x = of_int m * 2 powi ulp_exp x \<and> \<bar>m\<bar> \<le> 2 ^ 53"
proof -
  let ?e = "ulp_exp x"
  have "\<bar>x\<bar> < 2 powi (ilog2 \<bar>x\<bar> + 1)" using assms ilog2_bounds(2) [of "\<bar>x\<bar>"] by simp
  also have "\<dots> \<le> 2 powi (?e + 53)" by (intro power_int_increasing) (auto simp: ulp_exp_def)
  finally have "\<bar>x / 2 powi ?e\<bar> < 2 ^ 53" by (simp add: power_int_add field_simps)
  then have "x / 2 powi ?e < 2 ^ 53" "- (x / 2 powi ?e) < 2 ^ 53" by (simp_all only: abs_less_iff)
  then have "x / 2 powi ?e \<le> of_int (2 ^ 53)" "of_int (- (2 ^ 53)) \<le> x / 2 powi ?e" by simp_all
  from this [THEN round_half_even_mono] have "\<bar>round_half_even (x / 2 powi ?e)\<bar> \<le> 2 ^ 53"
    by (simp only: round_half_even_of_int abs_le_iff simp_thms)
  then show ?thesis using assms by (auto simp: nearest_def round_at_def)
qed

lemma nearest_idem [simp]: "nearest (nearest x) = nearest x"
proof (cases "x = 0")
  case False
  then obtain m where "nearest x = of_int m * 2 powi ulp_exp x" "\<bar>m\<bar> \<le> 2 ^ 53" using nearest_form by blast
  then show ?thesis by (rule nearest_exact) (simp add: ulp_exp_def)
qed (simp add: nearest_def)

lemma nearest_int: "\<bar>n\<bar> \<le> 2 ^ 53 \<Longrightarrow> nearest (of_int n) = of_int n"
  by (rule nearest_exact [of _ n 0]) simp_all

lemma fround_exact: "nearest x = x \<Longrightarrow> \<bar>x\<bar> < 2 ^ 1024 \<Longrightarrow> fround x = Fin x"
  by (auto simp: fround_def Let_def abs_less_iff)

lemma of_int64_exact: "\<bar>n\<bar> \<le> 2 ^ 53 \<Longrightarrow> of_int64 n = Fin (of_int n)"
proof -
  assume n: "\<bar>n\<bar> \<le> 2 ^ 53"
  then have "of_int \<bar>n\<bar> \<le> (of_int (2 ^ 53) :: rat)" by (simp only: of_int_le_iff)
  moreover have "(2 :: rat) ^ 53 < 2 ^ 1024" by (rule power_strict_increasing) auto
  ultimately show ?thesis unfolding of_int64_def using n by (intro fround_exact nearest_int) auto
qed

lemma fround_0 [simp]: "fround 0 = Fin 0" and fround_1 [simp]: "fround 1 = Fin 1"
  using of_int64_exact [of 0] of_int64_exact [of 1] by (simp_all add: of_int64_def)

lemma fround_fround: "fround x = Fin y \<Longrightarrow> fround y = Fin y"
  by (auto simp: fround_def Let_def split: if_splits)

lemma fround_unit: "0 \<le> x \<Longrightarrow> x \<le> 1 \<Longrightarrow> \<exists>y. fround x = Fin y \<and> 0 \<le> y \<and> y \<le> 1"
  using fround_mono [of 0 x] fround_mono [of x 1] by (cases "fround x") auto

text \<open>The smallest positive value: nothing at least that large is rounded to zero.\<close>

lemma fround_pos:
  assumes "2 powi (- 1074) \<le> x"
  shows "Fin 0 < fround x"
proof -
  have "nearest (2 powi (- 1074)) = 2 powi (- 1074)" by (rule nearest_exact [of _ 1 "- 1074"]) simp_all
  moreover have "(2 :: rat) powi (- 1074) < 2 powi 1024" by (intro power_int_strict_increasing) auto
  ultimately have "fround (2 powi (- 1074)) = Fin (2 powi (- 1074))" by (intro fround_exact) (simp_all add: power_int_def)
  moreover have "Fin 0 < Fin (2 powi (- 1074))" by simp
  ultimately show ?thesis using fround_mono [OF assms] by (metis order_less_le_trans)
qed

subsection \<open>Monotonicity of the operations\<close>

lemma fadd_mono:
  assumes "x \<le> x'" "y \<le> y'" "fadd x y \<noteq> NaN"
  shows "fadd x y \<le> fadd x' y'"
  using assms by (cases x; cases y; cases x'; cases y') (auto intro: fround_mono)

lemma fadd_comm: "fadd x y = fadd y x"
  by (cases x; cases y) (simp_all add: add.commute)

lemma fdiv_unit:
  assumes "0 \<le> h" "h \<le> n" "0 < n" "n \<le> 2 ^ 53"
  shows "\<exists>y. fdiv (of_int64 h) (of_int64 n) = Fin y \<and> 0 \<le> y \<and> y \<le> 1"
proof -
  have e: "of_int64 h = Fin (of_int h)" "of_int64 n = Fin (of_int n)" using assms by (auto intro!: of_int64_exact)
  have "0 \<le> (of_int h / of_int n :: rat)" "(of_int h / of_int n :: rat) \<le> 1" using assms by simp_all
  from fround_unit [OF this] e assms(3) show ?thesis by simp
qed

end
