(* ===== verification/KBStore.thy ===== *)
theory KBStore
  imports GoText Float64
begin

text \<open>
  Knowledge bases: the data of \<^verbatim>\<open>internal/kb/types.go\<close> and the in-memory store with its two-phase
  activation of documents. A Go map that may be nil is an association list; nothing in the
  package tells a nil map from an empty one.
\<close>

section \<open>Data\<close>

type_synonym metadata = "(string, string) gomap"

record KnowledgeBase =
  kb_ID :: string
  kb_TenantID :: string
  kb_ProjectID :: string
  kb_Name :: string
  kb_Description :: string
  kb_Metadata :: metadata
  kb_CreatedAt :: gotime
  kb_UpdatedAt :: gotime

record Document =
  d_ID :: string
  d_TenantID :: string
  d_KnowledgeBaseID :: string
  d_SourceURI :: string
  d_Title :: string
  d_ContentHash :: string
  d_IngestionJobID :: string
  d_Metadata :: metadata
  d_CreatedAt :: gotime

record Chunk =
  c_ID :: string
  c_TenantID :: string
  c_KnowledgeBaseID :: string
  c_DocumentID :: string
  c_Content :: string
  c_ContextualText :: string
  c_SourceURI :: string
  c_Page :: int
  c_Section :: string
  c_Offset :: int
  c_Vector :: "float64 list"
  c_IngestionJobID :: string
  c_Metadata :: metadata

definition SearchText :: "Chunk \<Rightarrow> string" where
  "SearchText c =
     (let contextual = TrimSpace (c_ContextualText c); content = TrimSpace (c_Content c)
      in if contextual = [] then content
         else if content = [] then contextual
         else contextual @ [CHR 0x0A, CHR 0x0A] @ content)"

record SearchRequest =
  sr_TenantID :: string
  sr_KnowledgeBaseID :: string
  sr_Query :: string
  sr_Vector :: "float64 list"
  sr_TopK :: int
  sr_DenseTopK :: int
  sr_SparseTopK :: int

record SearchResult =
  res_Chunk :: Chunk
  res_Score :: float64
  res_Rank :: int
  res_From :: string

record GraphRelation =
  gr_TenantID :: string
  gr_KnowledgeBaseID :: string
  gr_DocumentID :: string
  gr_SourceChunkID :: string
  gr_TargetChunkID :: string
  gr_Subject :: string
  gr_Predicate :: string
  gr_Object :: string
  gr_Weight :: float64

record GraphExpansionRequest =
  ge_TenantID :: string
  ge_KnowledgeBaseID :: string
  ge_Entities :: "string list"
  ge_Limit :: int

record MemoryStore =
  ms_kbs :: "(string, KnowledgeBase) gomap"
  ms_documents :: "(string, Document) gomap"
  ms_chunks :: "(string, Chunk) gomap"
  ms_pendingDocuments :: "(string, Document) gomap"
  ms_pendingChunks :: "(string, Chunk) gomap"
  ms_relations :: "GraphRelation list"

definition NewMemoryStore :: MemoryStore where
  "NewMemoryStore =
     \<lparr>ms_kbs = [], ms_documents = [], ms_chunks = [], ms_pendingDocuments = [], ms_pendingChunks = [], ms_relations = []\<rparr>"

section \<open>Knowledge bases\<close>

definition PutKnowledgeBase :: "KnowledgeBase \<Rightarrow> MemoryStore \<Rightarrow> MemoryStore" where
  "PutKnowledgeBase k s = s\<lparr>ms_kbs := gput (kb_ID k) k (ms_kbs s)\<rparr>"

definition ListKnowledgeBases :: "string \<Rightarrow> MemoryStore \<Rightarrow> KnowledgeBase list" where
  "ListKnowledgeBases tenantID s =
     sort_by (\<lambda>a b. kb_CreatedAt a < kb_CreatedAt b) (filter (\<lambda>k. kb_TenantID k = tenantID) (map snd (ms_kbs s)))"

definition ListKnowledgeBasesByProject :: "string \<Rightarrow> string \<Rightarrow> MemoryStore \<Rightarrow> KnowledgeBase list" where
  "ListKnowledgeBasesByProject tenantID projectID s =
     sort_by (\<lambda>a b. kb_CreatedAt a < kb_CreatedAt b)
       (filter (\<lambda>k. kb_TenantID k = tenantID \<and> kb_ProjectID k = projectID) (map snd (ms_kbs s)))"

definition GetKnowledgeBase :: "string \<Rightarrow> string \<Rightarrow> MemoryStore \<Rightarrow> KnowledgeBase option" where
  "GetKnowledgeBase tenantID i s =
     (case map_of (ms_kbs s) i of
        None \<Rightarrow> None
      | Some k \<Rightarrow> if kb_TenantID k = tenantID then Some k else None)"

definition GetKnowledgeBaseByProject :: "string \<Rightarrow> string \<Rightarrow> string \<Rightarrow> MemoryStore \<Rightarrow> KnowledgeBase option" where
  "GetKnowledgeBaseByProject tenantID projectID i s =
     (case map_of (ms_kbs s) i of
        None \<Rightarrow> None
      | Some k \<Rightarrow> if kb_TenantID k = tenantID \<and> kb_ProjectID k = projectID then Some k else None)"

text \<open>An empty document identifier selects every relation of the knowledge base.\<close>

definition deleteGraphRelationsLocked :: "string \<Rightarrow> string \<Rightarrow> string \<Rightarrow> GraphRelation list \<Rightarrow> GraphRelation list" where
  "deleteGraphRelationsLocked tenantID kbID documentID rs =
     filter (\<lambda>r. \<not> (gr_TenantID r = tenantID \<and> gr_KnowledgeBaseID r = kbID \<and>
                    (documentID = [] \<or> gr_DocumentID r = documentID))) rs"

definition DeleteKnowledgeBase :: "string \<Rightarrow> string \<Rightarrow> MemoryStore \<Rightarrow> MemoryStore \<times> bool" where
  "DeleteKnowledgeBase tenantID i s =
     (if (case map_of (ms_kbs s) i of None \<Rightarrow> True | Some k \<Rightarrow> kb_TenantID k \<noteq> tenantID) then (s, False)
      else (s\<lparr>ms_kbs := gdel i (ms_kbs s),
              ms_documents := gdel_where (\<lambda>_ d. d_TenantID d = tenantID \<and> d_KnowledgeBaseID d = i) (ms_documents s),
              ms_chunks := gdel_where (\<lambda>_ c. c_TenantID c = tenantID \<and> c_KnowledgeBaseID c = i) (ms_chunks s),
              ms_pendingDocuments :=
                gdel_where (\<lambda>_ d. d_TenantID d = tenantID \<and> d_KnowledgeBaseID d = i) (ms_pendingDocuments s),
              ms_pendingChunks :=
                gdel_where (\<lambda>_ c. c_TenantID c = tenantID \<and> c_KnowledgeBaseID c = i) (ms_pendingChunks s),
              ms_relations := deleteGraphRelationsLocked tenantID i [] (ms_relations s)\<rparr>, True))"

section \<open>Documents\<close>

definition chunkWithDocumentVersion :: "Chunk \<Rightarrow> Document \<Rightarrow> Chunk" where
  "chunkWithDocumentVersion c d =
     (if d_ContentHash d = [] then c
      else if gget0 [] (c_Metadata c) ''doc_version'' = []
      then c\<lparr>c_Metadata := gput ''doc_version'' (d_ContentHash d) (c_Metadata c)\<rparr>
      else c)"

text \<open>
  The loop over the documents with the inner loop over the chunks: the documents of one source,
  what they leave, and the identifiers that were deleted.
\<close>

definition deleteSource_step ::
  "string \<Rightarrow> string \<Rightarrow> string \<Rightarrow> string \<times> Document \<Rightarrow>
   (string, Document) gomap \<times> (string, Chunk) gomap \<times> string list \<Rightarrow>
   (string, Document) gomap \<times> (string, Chunk) gomap \<times> string list" where
  "deleteSource_step tenantID kbID sourceURI e st =
     (case e of (docID, d) \<Rightarrow> case st of (docs, chunks, deleted) \<Rightarrow>
        if d_TenantID d \<noteq> tenantID \<or> d_KnowledgeBaseID d \<noteq> kbID \<or> d_SourceURI d \<noteq> sourceURI then st
        else (gdel docID docs,
              gdel_where (\<lambda>_ c. c_TenantID c = tenantID \<and> c_KnowledgeBaseID c = kbID \<and> c_DocumentID c = docID) chunks,
              deleted @ [docID]))"

definition deleteDocumentSourceLocked :: "string \<Rightarrow> string \<Rightarrow> string \<Rightarrow> MemoryStore \<Rightarrow> MemoryStore" where
  "deleteDocumentSourceLocked tenantID kbID sourceURI s =
     (if sourceURI = [] then s
      else case fold (deleteSource_step tenantID kbID sourceURI) (ms_documents s) (ms_documents s, ms_chunks s, []) of
             (docs, chunks, deleted) \<Rightarrow>
               s\<lparr>ms_documents := docs, ms_chunks := chunks,
                 ms_relations := fold (deleteGraphRelationsLocked tenantID kbID) deleted (ms_relations s)\<rparr>)"

definition deletePendingDocumentSourceLocked :: "string \<Rightarrow> string \<Rightarrow> string \<Rightarrow> MemoryStore \<Rightarrow> MemoryStore" where
  "deletePendingDocumentSourceLocked tenantID kbID sourceURI s =
     (if sourceURI = [] then s
      else case fold (deleteSource_step tenantID kbID sourceURI) (ms_pendingDocuments s)
                  (ms_pendingDocuments s, ms_pendingChunks s, []) of
             (docs, chunks, deleted) \<Rightarrow> s\<lparr>ms_pendingDocuments := docs, ms_pendingChunks := chunks\<rparr>)"

definition stageDocumentLocked :: "Document \<Rightarrow> Chunk list \<Rightarrow> MemoryStore \<Rightarrow> MemoryStore" where
  "stageDocumentLocked d cs s =
     (let s = deletePendingDocumentSourceLocked (d_TenantID d) (d_KnowledgeBaseID d) (d_SourceURI d) s
      in s\<lparr>ms_pendingDocuments := gput (d_ID d) d (ms_pendingDocuments s),
           ms_pendingChunks := fold (\<lambda>c. gput (c_ID c) (chunkWithDocumentVersion c d)) cs (ms_pendingChunks s)\<rparr>)"

text \<open>\<^verbatim>\<open>Store\<close>; the flag says whether the context carries the staging mark of the composite indexer.\<close>

definition MemoryStore_Store :: "bool \<Rightarrow> Document \<Rightarrow> Chunk list \<Rightarrow> MemoryStore \<Rightarrow> MemoryStore" where
  "MemoryStore_Store staged d cs s =
     (if staged then stageDocumentLocked d cs s
      else let s = deleteDocumentSourceLocked (d_TenantID d) (d_KnowledgeBaseID d) (d_SourceURI d) s;
               s = deletePendingDocumentSourceLocked (d_TenantID d) (d_KnowledgeBaseID d) (d_SourceURI d) s
           in s\<lparr>ms_documents := gput (d_ID d) d (ms_documents s),
                ms_relations := deleteGraphRelationsLocked (d_TenantID d) (d_KnowledgeBaseID d) (d_ID d) (ms_relations s),
                ms_chunks := fold (\<lambda>c. gput (c_ID c) (chunkWithDocumentVersion c d)) cs (ms_chunks s)\<rparr>)"

text \<open>\<^verbatim>\<open>CommitActivation\<close>; \<open>commit_chunk\<close> is the body of its loop over the chunks.\<close>

definition commit_chunk :: "Chunk \<Rightarrow> (string, Chunk) gomap \<times> (string, Chunk) gomap \<Rightarrow>
  (string, Chunk) gomap \<times> (string, Chunk) gomap" where
  "commit_chunk c st =
     (case st of (chunks, pending) \<Rightarrow>
        case map_of pending (c_ID c) of
          None \<Rightarrow> (chunks, pending)
        | Some staged \<Rightarrow> (gput (c_ID staged) staged chunks, gdel (c_ID c) pending))"

definition CommitActivation :: "Document \<Rightarrow> Chunk list \<Rightarrow> MemoryStore \<Rightarrow> MemoryStore" where
  "CommitActivation d cs s =
     (case map_of (ms_pendingDocuments s) (d_ID d) of
        None \<Rightarrow> s
      | Some stagedDoc \<Rightarrow>
          let s = deleteDocumentSourceLocked (d_TenantID d) (d_KnowledgeBaseID d) (d_SourceURI d) s
          in case fold commit_chunk cs (ms_chunks s, ms_pendingChunks s) of
               (chunks, pending) \<Rightarrow>
                 s\<lparr>ms_documents := gput (d_ID stagedDoc) stagedDoc (ms_documents s), ms_chunks := chunks,
                   ms_pendingChunks := pending, ms_pendingDocuments := gdel (d_ID d) (ms_pendingDocuments s)\<rparr>)"

definition AbortActivation :: "Document \<Rightarrow> MemoryStore \<Rightarrow> MemoryStore" where
  "AbortActivation d s =
     s\<lparr>ms_pendingDocuments := gdel (d_ID d) (ms_pendingDocuments s),
       ms_pendingChunks := gdel_where (\<lambda>_ c. c_DocumentID c = d_ID d) (ms_pendingChunks s)\<rparr>"

definition DeleteDocumentSource :: "string \<Rightarrow> string \<Rightarrow> string \<Rightarrow> MemoryStore \<Rightarrow> MemoryStore" where
  "DeleteDocumentSource tenantID kbID sourceURI s =
     deletePendingDocumentSourceLocked tenantID kbID sourceURI (deleteDocumentSourceLocked tenantID kbID sourceURI s)"

text \<open>The chunks a search reads, in the order of their identifiers.\<close>

definition MemoryStore_Chunks :: "string \<Rightarrow> string \<Rightarrow> MemoryStore \<Rightarrow> Chunk list" where
  "MemoryStore_Chunks tenantID kbID s =
     sort_by (\<lambda>a b. c_ID a < c_ID b)
       (map (\<lambda>c. case map_of (ms_documents s) (c_DocumentID c) of None \<Rightarrow> c | Some d \<Rightarrow> chunkWithDocumentVersion c d)
         (filter (\<lambda>c. c_TenantID c = tenantID \<and> c_KnowledgeBaseID c = kbID) (map snd (ms_chunks s))))"

section \<open>The relation graph\<close>

definition NormalizeQuery :: "unicode_tables \<Rightarrow> string \<Rightarrow> string" where
  "NormalizeQuery u q = Join (Fields (ToLower u q)) '' ''"

definition normalizedEntitySet :: "unicode_tables \<Rightarrow> string list \<Rightarrow> string list" where
  "normalizedEntitySet u values = filter (\<lambda>n. n \<noteq> []) (map (NormalizeQuery u) values)"

definition StoreGraphRelations :: "GraphRelation list \<Rightarrow> MemoryStore \<Rightarrow> MemoryStore" where
  "StoreGraphRelations rs s =
     s\<lparr>ms_relations := ms_relations s @ map (\<lambda>r. if feq (gr_Weight r) (Fin 0) then r\<lparr>gr_Weight := Fin 1\<rparr> else r) rs\<rparr>"

section \<open>Ranking\<close>

definition better :: "SearchResult \<Rightarrow> SearchResult \<Rightarrow> bool" where
  "better a b =
     (if feq (res_Score a) (res_Score b) then c_ID (res_Chunk a) < c_ID (res_Chunk b)
      else flt (res_Score b) (res_Score a))"

definition rank_all :: "SearchResult list \<Rightarrow> SearchResult list" where
  "rank_all rs = map (\<lambda>(i, r). r\<lparr>res_Rank := int i + 1\<rparr>) (enumerate 0 rs)"

definition limit_to :: "int \<Rightarrow> 'a list \<Rightarrow> 'a list" where
  "limit_to n xs = (if n > 0 \<and> int (length xs) > n then take (nat n) xs else xs)"

definition top_n :: "SearchResult list \<Rightarrow> int \<Rightarrow> SearchResult list" where
  "top_n rs n = limit_to n (rank_all (sort_by better rs))"

definition expand_chunk :: "MemoryStore \<Rightarrow> float64 \<Rightarrow> string \<Rightarrow> (string, SearchResult) gomap \<Rightarrow> (string, SearchResult) gomap" where
  "expand_chunk s w chunkID seen =
     (case map_of (ms_chunks s) chunkID of
        None \<Rightarrow> seen
      | Some c \<Rightarrow> if map_of seen (c_ID c) \<noteq> None then seen
                  else gput (c_ID c) \<lparr>res_Chunk = c, res_Score = w, res_Rank = 0, res_From = ''graph''\<rparr> seen)"

definition ExpandGraph :: "unicode_tables \<Rightarrow> GraphExpansionRequest \<Rightarrow> MemoryStore \<Rightarrow> SearchResult list" where
  "ExpandGraph u req s =
     (let entities = normalizedEntitySet u (ge_Entities req)
      in if entities = [] then []
         else let seen = fold (\<lambda>r seen.
                    if gr_TenantID r \<noteq> ge_TenantID req \<or> gr_KnowledgeBaseID r \<noteq> ge_KnowledgeBaseID req then seen
                    else if \<not> List.member entities (NormalizeQuery u (gr_Subject r)) \<and>
                            \<not> List.member entities (NormalizeQuery u (gr_Object r)) then seen
                    else expand_chunk s (gr_Weight r) (gr_TargetChunkID r)
                           (expand_chunk s (gr_Weight r) (gr_SourceChunkID r) seen)) (ms_relations s) []
              in top_n (map snd seen) (ge_Limit req))"

end
