(* ===== verification/KBRetrieval.thy ===== *)
theory KBRetrieval
  imports KBStore
begin

text \<open>
  Retrieval of \<^verbatim>\<open>internal/kb\<close>: reciprocal rank fusion (\<^verbatim>\<open>rrf.go\<close>), the dense, sparse and hybrid
  retrievers (\<^verbatim>\<open>retrievers.go\<close>) and the graph retriever (\<^verbatim>\<open>graph.go\<close>). A retriever is a
  function of the request that returns an error text or results; a nil interface is \<open>None\<close>. Every
  floating-point operation rounds on its own, as the compiler does on amd64.
\<close>

section \<open>Reciprocal rank fusion\<close>

record rrf_acc =
  acc_result :: SearchResult
  acc_score :: float64

text \<open>One result at position \<open>i\<close> of its list.\<close>

definition rrf_add :: "int \<Rightarrow> nat \<times> SearchResult \<Rightarrow> (string, rrf_acc) gomap \<Rightarrow> (string, rrf_acc) gomap" where
  "rrf_add k e seen =
     (case e of (i, r) \<Rightarrow>
        let rank = (if res_Rank r \<le> 0 then int i + 1 else res_Rank r);
            score = fdiv (Fin 1) (of_int64 (k + rank));
            key = c_ID (res_Chunk r);
            item = (case map_of seen key of
                      None \<Rightarrow> \<lparr>acc_result = r\<lparr>res_Score := Fin 0\<rparr>, acc_score = Fin 0\<rparr>
                    | Some a \<Rightarrow> a)
        in gput key (item\<lparr>acc_score := fadd (acc_score item) score\<rparr>) seen)"

definition rrf_collect :: "int \<Rightarrow> SearchResult list list \<Rightarrow> (string, rrf_acc) gomap" where
  "rrf_collect k sets = fold (\<lambda>rs seen. fold (rrf_add k) (enumerate 0 rs) seen) sets []"

text \<open>The second half works on the entries of the map in the order the loop visits them.\<close>

definition rrf_finish :: "(string, rrf_acc) gomap \<Rightarrow> int \<Rightarrow> SearchResult list" where
  "rrf_finish seen topN =
     limit_to topN (rank_all (sort_by better
       (map (\<lambda>(i, a). (acc_result a)\<lparr>res_Score := acc_score a, res_From := ''rrf''\<rparr>) seen)))"

definition RRF :: "SearchResult list list \<Rightarrow> int \<Rightarrow> int \<Rightarrow> SearchResult list" where
  "RRF sets k topN = rrf_finish (rrf_collect (if k \<le> 0 then 60 else k) sets) topN"

section \<open>Scores\<close>

definition lexicalScore :: "unicode_tables \<Rightarrow> string \<Rightarrow> string \<Rightarrow> float64" where
  "lexicalScore u query content =
     (let terms = Fields (ToLower u query)
      in if terms = [] then Fin 0
         else let text = ToLower u content;
                  hits = length (filter (\<lambda>t. Contains text t) terms)
              in fdiv (of_int64 (int hits)) (of_int64 (int (length terms))))"

definition cosine :: "float64 list \<Rightarrow> float64 list \<Rightarrow> float64" where
  "cosine a b =
     (if a = [] \<or> length a \<noteq> length b then Fin 0
      else case fold (\<lambda>(x, y) (dot, na, nb). (fadd dot (fmul x y), fadd na (fmul x x), fadd nb (fmul y y))) (zip a b)
                  (Fin 0, Fin 0, Fin 0) of
             (dot, na, nb) \<Rightarrow>
               if feq na (Fin 0) \<or> feq nb (Fin 0) then Fin 0 else fdiv dot (fmul (fsqrt na) (fsqrt nb)))"

section \<open>Retrievers\<close>

type_synonym retriever = "SearchRequest \<Rightarrow> string + SearchResult list"

definition denseLimit :: "SearchRequest \<Rightarrow> int" where
  "denseLimit req = (if sr_DenseTopK req > 0 then sr_DenseTopK req else sr_TopK req)"

definition sparseLimit :: "SearchRequest \<Rightarrow> int" where
  "sparseLimit req = (if sr_SparseTopK req > 0 then sr_SparseTopK req else sr_TopK req)"

text \<open>The chunk source is a parameter; the store's \<open>MemoryStore_Chunks\<close> is one.\<close>

definition DenseRetriever_Retrieve ::
  "unicode_tables \<Rightarrow> (string \<Rightarrow> string \<Rightarrow> Chunk list) \<Rightarrow> SearchRequest \<Rightarrow> SearchResult list" where
  "DenseRetriever_Retrieve u chunks req =
     top_n
       (filter (\<lambda>r. flt (Fin 0) (res_Score r))
         (map (\<lambda>c. \<lparr>res_Chunk = c,
                    res_Score =
                      (if sr_Vector req = [] \<or> c_Vector c = []
                       then fmul (lexicalScore u (sr_Query req) (c_Content c)) (fround (1 / 2))
                       else cosine (sr_Vector req) (c_Vector c)),
                    res_Rank = 0, res_From = ''dense''\<rparr>)
           (chunks (sr_TenantID req) (sr_KnowledgeBaseID req))))
       (denseLimit req)"

definition SparseRetriever_Retrieve ::
  "unicode_tables \<Rightarrow> (string \<Rightarrow> string \<Rightarrow> Chunk list) \<Rightarrow> SearchRequest \<Rightarrow> SearchResult list" where
  "SparseRetriever_Retrieve u chunks req =
     top_n
       (filter (\<lambda>r. flt (Fin 0) (res_Score r))
         (map (\<lambda>c. \<lparr>res_Chunk = c, res_Score = lexicalScore u (sr_Query req) (SearchText c), res_Rank = 0,
                    res_From = ''sparse''\<rparr>)
           (chunks (sr_TenantID req) (sr_KnowledgeBaseID req))))
       (sparseLimit req)"

record HybridRetriever =
  hy_Dense :: "retriever option"
  hy_Sparse :: "retriever option"
  hy_RRFK :: int
  hy_TopN :: int
  hy_DenseTopK :: int
  hy_SparseTopK :: int

definition rrfTopN :: "HybridRetriever \<Rightarrow> SearchRequest \<Rightarrow> int" where
  "rrfTopN r req = (if sr_TopK req > 0 then sr_TopK req else hy_TopN r)"

text \<open>Both searches run, on goroutines of their own; a failed one leaves a warning and no results.\<close>

definition hybrid_denseReq :: "HybridRetriever \<Rightarrow> SearchRequest \<Rightarrow> SearchRequest" where
  "hybrid_denseReq r req =
     (if sr_DenseTopK req > 0 then req\<lparr>sr_TopK := sr_DenseTopK req\<rparr>
      else if sr_TopK req \<le> 0 \<and> hy_DenseTopK r > 0
      then req\<lparr>sr_TopK := hy_DenseTopK r, sr_DenseTopK := hy_DenseTopK r\<rparr>
      else req)"

definition hybrid_sparseReq :: "HybridRetriever \<Rightarrow> SearchRequest \<Rightarrow> SearchRequest" where
  "hybrid_sparseReq r req =
     (if sr_SparseTopK req > 0 then req\<lparr>sr_TopK := sr_SparseTopK req\<rparr>
      else if sr_TopK req \<le> 0 \<and> hy_SparseTopK r > 0
      then req\<lparr>sr_TopK := hy_SparseTopK r, sr_SparseTopK := hy_SparseTopK r\<rparr>
      else req)"

definition RetrieveWithWarnings :: "HybridRetriever \<Rightarrow> SearchRequest \<Rightarrow> string list \<times> (string + SearchResult list)" where
  "RetrieveWithWarnings r req =
     (let dense = (case hy_Dense r of None \<Rightarrow> Inl ''dense retriever is nil'' | Some f \<Rightarrow> f (hybrid_denseReq r req));
          sparse = (case hy_Sparse r of None \<Rightarrow> Inl ''sparse retriever is nil'' | Some f \<Rightarrow> f (hybrid_sparseReq r req));
          warnings = (case dense of Inl e \<Rightarrow> [''dense retrieval failed: '' @ e] | Inr _ \<Rightarrow> []) @
                     (case sparse of Inl e \<Rightarrow> [''sparse retrieval failed: '' @ e] | Inr _ \<Rightarrow> []);
          found = (\<lambda>x. case x of Inl e \<Rightarrow> [] | Inr rs \<Rightarrow> rs)
      in case (dense, sparse) of
           (Inl e, Inl e') \<Rightarrow> (warnings, Inl (''hybrid retrieval failed: dense: '' @ e @ ''; sparse: '' @ e'))
         | _ \<Rightarrow> (warnings, Inr (RRF [found dense, found sparse] (hy_RRFK r) (rrfTopN r req))))"

definition HybridRetriever_Retrieve :: "HybridRetriever \<Rightarrow> retriever" where
  "HybridRetriever_Retrieve r req = snd (RetrieveWithWarnings r req)"

section \<open>Entities of a text\<close>

definition entity_letter :: "char \<Rightarrow> bool" where
  "entity_letter c \<longleftrightarrow> between 0x41 0x5A c \<or> between 0x61 0x7A c"

definition entity_char :: "char \<Rightarrow> bool" where
  "entity_char c \<longleftrightarrow> entity_letter c \<or> between 0x30 0x39 c \<or> c = CHR ''_'' \<or> c = CHR ''-''"

text \<open>The leftmost matches of the pattern: a letter and at least two more characters, as many as there are.\<close>

function graphEntityPattern :: "string \<Rightarrow> string list" where
  "graphEntityPattern [] = []"
| "graphEntityPattern (c # cs) =
     (if entity_letter c \<and> length (takeWhile entity_char cs) \<ge> 2
      then (c # takeWhile entity_char cs) # graphEntityPattern (dropWhile entity_char cs)
      else graphEntityPattern cs)"
  by pat_completeness auto
termination by (relation "measure length") (auto simp: less_Suc_eq_le length_dropWhile_le)

text \<open>The entities found so far with the set of their normal forms.\<close>

definition addGraphEntity :: "unicode_tables \<Rightarrow> string \<Rightarrow> string list \<times> string list \<Rightarrow> string list \<times> string list" where
  "addGraphEntity u value st =
     (case st of (out, seen) \<Rightarrow>
        let value = TrimSpace value
        in if value = [] then st
           else let key = NormalizeQuery u value
                in if key = [] \<or> List.member seen key then st else (out @ [value], key # seen))"

definition flushGraphEntity :: "unicode_tables \<Rightarrow> string \<Rightarrow> string list \<times> string list \<Rightarrow> string list \<times> string list" where
  "flushGraphEntity u value st = (if RuneCount value < 2 then st else addGraphEntity u value st)"

fun scan_han :: "unicode_tables \<Rightarrow> (rune \<times> string) list \<Rightarrow> string \<Rightarrow> string list \<times> string list \<Rightarrow> string list \<times> string list" where
  "scan_han u [] current st = flushGraphEntity u current st"
| "scan_han u ((r, bs) # rs) current st =
     (if IsHan u r \<or> IsDigit u r then scan_han u rs (current @ EncodeRune r) st
      else scan_han u rs [] (flushGraphEntity u current st))"

definition ExtractGraphEntities :: "unicode_tables \<Rightarrow> string \<Rightarrow> int \<Rightarrow> string list" where
  "ExtractGraphEntities u text limit =
     (let st = fold (addGraphEntity u) (graphEntityPattern text) ([], []);
          out = fst (scan_han u (runes text) [] st)
      in limit_to limit (sort_by (\<lambda>a b. length a > length b) out))"

section \<open>The graph retriever\<close>

record GraphRetriever =
  gv_Base :: "retriever option"
  gv_Store :: "(GraphExpansionRequest \<Rightarrow> string + SearchResult list) option"
  gv_TopK :: int

definition GraphRetriever_Retrieve :: "unicode_tables \<Rightarrow> GraphRetriever \<Rightarrow> retriever" where
  "GraphRetriever_Retrieve u r req =
     (case (case gv_Base r of None \<Rightarrow> Inr [] | Some f \<Rightarrow> f req) of
        Inl e \<Rightarrow> Inl e
      | Inr base \<Rightarrow>
          (case gv_Store r of
             None \<Rightarrow> Inr base
           | Some expand \<Rightarrow>
               let limit = (if sr_TopK req > 0 then sr_TopK req else if gv_TopK r > 0 then gv_TopK r else 8)
               in case expand \<lparr>ge_TenantID = sr_TenantID req, ge_KnowledgeBaseID = sr_KnowledgeBaseID req,
                               ge_Entities = ExtractGraphEntities u (sr_Query req) 8, ge_Limit = limit\<rparr> of
                    Inl e \<Rightarrow> Inl e
                  | Inr graphResults \<Rightarrow>
                      let seen = map (\<lambda>x. c_ID (res_Chunk x)) base;
                          out = rank_all (base @ map (\<lambda>x. x\<lparr>res_From := ''graph''\<rparr>)
                                  (filter (\<lambda>x. \<not> List.member seen (c_ID (res_Chunk x))) graphResults))
                      in Inr (if int (length out) > limit then take (nat limit) out else out)))"

end
