(* ===== verification/KBRanking.thy ===== *)
theory KBRanking
  imports KBRetrieval
begin

text \<open>
  What the ranking code of \<^verbatim>\<open>internal/kb\<close> guarantees: \<^verbatim>\<open>top\<close> and \<^verbatim>\<open>RRF\<close> return a ranked list
  that does not depend on the order in which Go visits a map, fusion computes the sum of the
  reciprocal ranks of every chunk, and a chunk that is ranked ahead in every list is not scored
  lower.
\<close>

section \<open>Ranked lists\<close>

lemma rank_all_simps [simp]:
  "map res_Chunk (rank_all rs) = map res_Chunk rs" "map res_Score (rank_all rs) = map res_Score rs"
  "map res_From (rank_all rs) = map res_From rs" "length (rank_all rs) = length rs"
  by (auto intro!: nth_equalityI simp: rank_all_def nth_enumerate_eq)

lemma rank_all_nth: "i < length rs \<Longrightarrow> rank_all rs ! i = (rs ! i)\<lparr>res_Rank := int i + 1\<rparr>"
  by (simp add: rank_all_def nth_enumerate_eq)

lemma limit_to_take: "\<exists>m. limit_to n xs = take m xs \<and> (n > 0 \<longrightarrow> length (limit_to n xs) \<le> nat n)"
proof (cases "n > 0 \<and> int (length xs) > n")
  case True
  then show ?thesis by (intro exI [of _ "nat n"]) (auto simp: limit_to_def)
next
  case False
  then show ?thesis by (intro exI [of _ "length xs"]) (auto simp: limit_to_def)
qed

lemma set_limit_to: "set (limit_to n xs) \<subseteq> set xs"
  by (auto simp: limit_to_def dest: in_set_takeD)

text \<open>On scores that are numbers the comparator compares a key.\<close>

definition result_key :: "SearchResult \<Rightarrow> float64 \<times> string" where
  "result_key r = (fneg (res_Score r), c_ID (res_Chunk r))"

definition key_better :: "SearchResult \<Rightarrow> SearchResult \<Rightarrow> bool" where
  "key_better a b \<longleftrightarrow> result_key a < result_key b"

interpretation ranking: keyed_less key_better result_key
  by unfold_locales (rule key_better_def)

lemma better_key: "res_Score a \<noteq> NaN \<Longrightarrow> res_Score b \<noteq> NaN \<Longrightarrow> better a b = key_better a b"
  by (auto simp: better_def key_better_def result_key_def feq_iff flt_iff le_less)

definition no_NaN :: "SearchResult list \<Rightarrow> bool" where
  "no_NaN rs \<longleftrightarrow> list_all (\<lambda>r. res_Score r \<noteq> NaN) rs"

lemma sort_better: "no_NaN rs \<Longrightarrow> sort_by better rs = sort_by key_better rs"
  by (rule sort_by_cong) (auto simp: no_NaN_def list_all_iff better_key)

lemma sort_better_perm:
  assumes "mset rs = mset rs'" and "no_NaN rs" and "distinct (map (\<lambda>r. c_ID (res_Chunk r)) rs)"
  shows "sort_by better rs = sort_by better rs'"
proof -
  have "set rs = set rs'" using assms(1) by (metis set_mset_mset)
  then have "no_NaN rs'" using assms(2) by (simp add: no_NaN_def list_all_iff)
  moreover have "inj_on result_key (set rs)"
    using assms(3) by (auto simp: distinct_map inj_on_def result_key_def)
  ultimately show ?thesis
    using assms ranking.sort_by_perm [of rs rs'] by (simp add: sort_better)
qed

lemma sorted_better: "no_NaN rs \<Longrightarrow> sorted (map result_key (sort_by better rs))"
  using ranking.sorted_sort_by by (simp add: sort_better)

section \<open>Fusion\<close>

text \<open>The occurrences of the chunks, each with its position in its list, and what one contributes.\<close>

definition occurrences :: "SearchResult list list \<Rightarrow> (nat \<times> SearchResult) list" where
  "occurrences sets = concat (map (enumerate 0) sets)"

definition effective_rank :: "nat \<times> SearchResult \<Rightarrow> int" where
  "effective_rank e = (if res_Rank (snd e) \<le> 0 then int (fst e) + 1 else res_Rank (snd e))"

definition contribution :: "int \<Rightarrow> nat \<times> SearchResult \<Rightarrow> float64" where
  "contribution k e = fdiv (Fin 1) (of_int64 (k + effective_rank e))"

definition occ_id :: "nat \<times> SearchResult \<Rightarrow> string" where
  "occ_id e = c_ID (res_Chunk (snd e))"

definition sum_from :: "int \<Rightarrow> float64 \<Rightarrow> (nat \<times> SearchResult) list \<Rightarrow> float64" where
  "sum_from k z es = fold (\<lambda>e acc. fadd acc (contribution k e)) es z"

text \<open>The reference: the reciprocal ranks of one chunk, added in the order of the lists.\<close>

definition fused_score :: "int \<Rightarrow> SearchResult list list \<Rightarrow> string \<Rightarrow> float64" where
  "fused_score k sets i = sum_from k (Fin 0) (filter (\<lambda>e. occ_id e = i) (occurrences sets))"

lemma sum_from_simps [simp]:
  "sum_from k z [] = z" "sum_from k z (e # es) = sum_from k (fadd z (contribution k e)) es"
  "sum_from k z (es @ es') = sum_from k (sum_from k z es) es'"
  by (simp_all add: sum_from_def)

lemma fold_nested: "fold (\<lambda>xs. fold f (g xs)) xss z = fold f (concat (map g xss)) z"
  by (induction xss arbitrary: z) simp_all

lemma rrf_collect_occ: "rrf_collect k sets = fold (rrf_add k) (occurrences sets) []"
  by (simp add: rrf_collect_def occurrences_def fold_nested)

lemma map_of_rrf_add:
  "map_of (rrf_add k e seen) i =
     (if i = occ_id e
      then Some (case map_of seen i of
          None \<Rightarrow> \<lparr>acc_result = (snd e)\<lparr>res_Score := Fin 0\<rparr>, acc_score = fadd (Fin 0) (contribution k e)\<rparr>
        | Some a \<Rightarrow> a\<lparr>acc_score := fadd (acc_score a) (contribution k e)\<rparr>)
      else map_of seen i)"
  by (cases e)
    (auto simp: rrf_add_def Let_def map_simps occ_id_def contribution_def effective_rank_def split: option.splits)

lemma map_of_collect:
  "map_of (fold (rrf_add k) es []) i =
     (case filter (\<lambda>e. occ_id e = i) es of
        [] \<Rightarrow> None
      | e # es' \<Rightarrow> Some \<lparr>acc_result = (snd e)\<lparr>res_Score := Fin 0\<rparr>, acc_score = sum_from k (Fin 0) (e # es')\<rparr>)"
proof (induction es rule: rev_induct)
  case (snoc e es)
  then show ?case by (auto simp: map_of_rrf_add split: list.splits)
qed simp

lemma gmap_wf_rrf_add: "gmap_wf seen \<Longrightarrow> gmap_wf (rrf_add k e seen)"
  by (cases e) (simp add: rrf_add_def Let_def gmap_wf_gput)

lemma gmap_wf_collect: "gmap_wf (fold (rrf_add k) es [])"
  by (induction es rule: rev_induct) (simp_all add: gmap_wf_rrf_add)

subsection \<open>Contributions are numbers\<close>

definition nonneg :: "float64 \<Rightarrow> bool" where
  "nonneg x \<longleftrightarrow> x = PosInf \<or> (\<exists>y. x = Fin y \<and> 0 \<le> y \<and> fround y = Fin y)"

lemma nonneg_not_NaN [simp]: "nonneg x \<Longrightarrow> x \<noteq> NaN"
  by (auto simp: nonneg_def)

lemma nonneg_fround: "0 \<le> x \<Longrightarrow> nonneg (fround x)"
  using fround_mono [of 0 x] by (cases "fround x") (auto simp: nonneg_def fround_fround)

lemma nonneg_0 [simp]: "nonneg (Fin 0)"
  by (simp add: nonneg_def)

lemma nonneg_fadd: "nonneg x \<Longrightarrow> nonneg y \<Longrightarrow> nonneg (fadd x y)"
  by (auto simp: nonneg_def [of x] nonneg_def [of y] nonneg_fround) (auto simp: nonneg_def)

lemma fadd_increases: "nonneg x \<Longrightarrow> nonneg y \<Longrightarrow> x \<le> fadd x y"
proof -
  assume n: "nonneg x" "nonneg y"
  then have "fadd x (Fin 0) = x" by (auto simp: nonneg_def)
  moreover have "Fin 0 \<le> y" using n(2) by (auto simp: nonneg_def)
  ultimately show ?thesis using fadd_mono [of x x "Fin 0" y] n(1) by auto
qed

lemma effective_rank_pos: "effective_rank e > 0"
  by (simp add: effective_rank_def)

lemma of_int64_mono: "m \<le> n \<Longrightarrow> of_int64 m \<le> of_int64 n"
  by (simp add: of_int64_def fround_mono)

lemma of_int64_ge_1: "1 \<le> n \<Longrightarrow> of_int64 n = PosInf \<or> (\<exists>y. of_int64 n = Fin y \<and> 1 \<le> y)"
  using of_int64_mono [of 1 n] of_int64_exact [of 1] by (cases "of_int64 n") (auto simp: of_int64_def)

lemma reciprocal_antitone:
  assumes "1 \<le> m" "m \<le> n"
  shows "fdiv (Fin 1) (of_int64 n) \<le> fdiv (Fin 1) (of_int64 m)"
  using of_int64_ge_1 [of m] of_int64_ge_1 [of n] of_int64_mono [OF assms(2)] assms fround_mono [of 0]
  by (auto intro!: fround_mono divide_left_mono)

lemma contribution_nonneg: "k > 0 \<Longrightarrow> nonneg (contribution k e)"
  using of_int64_ge_1 [of "k + effective_rank e"] effective_rank_pos [of e]
  by (auto simp: contribution_def nonneg_fround)

lemma sum_from_nonneg: "k > 0 \<Longrightarrow> nonneg z \<Longrightarrow> nonneg (sum_from k z es)"
  by (induction es arbitrary: z) (simp_all add: nonneg_fadd contribution_nonneg)

lemma sum_from_increases: "k > 0 \<Longrightarrow> nonneg z \<Longrightarrow> z \<le> sum_from k z es"
proof (induction es arbitrary: z)
  case (Cons e es)
  then have "z \<le> fadd z (contribution k e)" by (simp add: fadd_increases contribution_nonneg)
  also have "\<dots> \<le> sum_from k (fadd z (contribution k e)) es"
    using Cons by (simp add: nonneg_fadd contribution_nonneg)
  finally show ?case by simp
qed simp

definition fused :: "(string, rrf_acc) gomap \<Rightarrow> SearchResult list" where
  "fused seen = map (\<lambda>(i, a). (acc_result a)\<lparr>res_Score := acc_score a, res_From := ''rrf''\<rparr>) seen"

lemma rrf_k_pos: "(if k \<le> 0 then 60 else k :: int) > 0"
  by simp

lemma collect_entry:
  assumes "(i, a) \<in> set (rrf_collect k sets)"
  shows "c_ID (res_Chunk (acc_result a)) = i" "acc_score a = fused_score k sets i"
    "\<exists>e \<in> set (occurrences sets). occ_id e = i \<and> res_Chunk (acc_result a) = res_Chunk (snd e)"
proof -
  have "map_of (rrf_collect k sets) i = Some a"
    using assms gmap_wf_collect by (simp add: rrf_collect_occ gmap_wf_mem_iff)
  then obtain e es where e: "filter (\<lambda>e. occ_id e = i) (occurrences sets) = e # es"
    "a = \<lparr>acc_result = (snd e)\<lparr>res_Score := Fin 0\<rparr>, acc_score = sum_from k (Fin 0) (e # es)\<rparr>"
    by (auto simp: rrf_collect_occ map_of_collect split: list.splits)
  then have mem: "e \<in> set (occurrences sets)" "occ_id e = i" by (auto simp: filter_eq_Cons_iff)
  with e show "c_ID (res_Chunk (acc_result a)) = i" "acc_score a = fused_score k sets i"
    "\<exists>e \<in> set (occurrences sets). occ_id e = i \<and> res_Chunk (acc_result a) = res_Chunk (snd e)"
    by (auto simp: occ_id_def fused_score_def)
qed

lemma collect_ids: "set (map fst (rrf_collect k sets)) = occ_id ` set (occurrences sets)"
proof (rule set_eqI)
  fix i
  have "i \<in> set (map fst (rrf_collect k sets)) \<longleftrightarrow> map_of (rrf_collect k sets) i \<noteq> None"
    by (simp add: map_of_eq_None_iff)
  also have "\<dots> \<longleftrightarrow> filter (\<lambda>e. occ_id e = i) (occurrences sets) \<noteq> []"
    by (auto simp: rrf_collect_occ map_of_collect split: list.splits)
  also have "\<dots> \<longleftrightarrow> i \<in> occ_id ` set (occurrences sets)" by (auto simp: filter_empty_conv)
  finally show "i \<in> set (map fst (rrf_collect k sets)) \<longleftrightarrow> i \<in> occ_id ` set (occurrences sets)" .
qed

lemma fused_no_NaN: "k > 0 \<Longrightarrow> no_NaN (fused (rrf_collect k sets))"
  by (auto simp: no_NaN_def list_all_iff fused_def collect_entry fused_score_def sum_from_nonneg)

lemma fused_ids: "map (\<lambda>r. c_ID (res_Chunk r)) (fused (rrf_collect k sets)) = map fst (rrf_collect k sets)"
  by (auto simp: fused_def collect_entry comp_def case_prod_unfold)

lemma distinct_fused: "distinct (map (\<lambda>r. c_ID (res_Chunk r)) (fused (rrf_collect k sets)))"
  unfolding fused_ids using gmap_wf_collect by (simp add: rrf_collect_occ gmap_wf_def)

section \<open>Properties of the fusion\<close>

definition rrf_k :: "int \<Rightarrow> int" where
  "rrf_k k = (if k \<le> 0 then 60 else k)"

lemma rrf_k_gt_0 [simp]: "rrf_k k > 0"
  by (simp add: rrf_k_def)

lemma RRF_fused: "RRF sets k n = limit_to n (rank_all (sort_by better (fused (rrf_collect (rrf_k k) sets))))"
  by (simp add: RRF_def rrf_finish_def fused_def rrf_k_def)

lemma limit_to_0 [simp]: "limit_to 0 xs = xs"
  by (simp add: limit_to_def)

lemma result_key_rank_all: "map result_key (rank_all rs) = map result_key rs"
  by (auto intro!: nth_equalityI simp: rank_all_nth result_key_def)

text \<open>
  C21 (functional). \<^verbatim>\<open>RRF\<close> returns every chunk of its result lists exactly once, each with the sum of the
  reciprocal ranks of its occurrences as its score, sorted by falling score and then by
  identifier, with the ranks 1, 2, 3 and so on; a positive limit keeps a prefix of that list.
\<close>

theorem rrf_spec:
  "distinct (map (\<lambda>r. c_ID (res_Chunk r)) (RRF sets k 0)) \<and>
   (\<lambda>r. c_ID (res_Chunk r)) ` set (RRF sets k 0) = occ_id ` set (occurrences sets) \<and>
   list_all (\<lambda>r. res_Score r = fused_score (rrf_k k) sets (c_ID (res_Chunk r))) (RRF sets k 0) \<and>
   sorted (map result_key (RRF sets k 0)) \<and>
   map res_Rank (RRF sets k 0) = map (\<lambda>i. int i + 1) [0..<length (RRF sets k 0)] \<and>
   RRF sets k n = limit_to n (RRF sets k 0)"
proof -
  let ?f = "fused (rrf_collect (rrf_k k) sets)"
  have out: "RRF sets k 0 = rank_all (sort_by better ?f)" by (simp add: RRF_fused)
  have ids: "map (\<lambda>r. c_ID (res_Chunk r)) (RRF sets k 0) = map (\<lambda>r. c_ID (res_Chunk r)) (sort_by better ?f)"
    unfolding out by (simp flip: map_map [of c_ID res_Chunk, unfolded comp_def])
  have "distinct (map (\<lambda>r. c_ID (res_Chunk r)) (RRF sets k 0))"
    using distinct_fused [of "rrf_k k" sets] by (simp add: ids)
  moreover have "(\<lambda>r. c_ID (res_Chunk r)) ` set (RRF sets k 0) = occ_id ` set (occurrences sets)"
  proof -
    have "(\<lambda>r. c_ID (res_Chunk r)) ` set (RRF sets k 0) = set (map (\<lambda>r. c_ID (res_Chunk r)) ?f)"
      using arg_cong [OF ids, of set] by simp
    also have "\<dots> = occ_id ` set (occurrences sets)" by (simp only: fused_ids collect_ids)
    finally show ?thesis .
  qed
  moreover have "list_all (\<lambda>r. res_Score r = fused_score (rrf_k k) sets (c_ID (res_Chunk r))) (RRF sets k 0)"
  proof -
    have "res_Score r = fused_score (rrf_k k) sets (c_ID (res_Chunk r))" if "r \<in> set ?f" for r
      using that by (auto simp: fused_def collect_entry)
    then show ?thesis unfolding out by (auto simp: list_all_length rank_all_nth nth_mem [of _ "sort_by better ?f", simplified])
  qed
  moreover have "sorted (map result_key (RRF sets k 0))"
    using sorted_better [OF fused_no_NaN [of "rrf_k k" sets]] by (simp add: out result_key_rank_all)
  moreover have "map res_Rank (RRF sets k 0) = map (\<lambda>i. int i + 1) [0..<length (RRF sets k 0)]"
    unfolding out by (auto intro!: nth_equalityI simp: rank_all_nth)
  ultimately show ?thesis by (simp add: RRF_fused)
qed

text \<open>
  The result of \<^verbatim>\<open>RRF\<close> does not depend on the order in which Go visits the map of
  accumulated scores: any permutation of its entries gives the same list.
\<close>

lemma rrf_order_independent:
  assumes "mset seen = mset (rrf_collect (rrf_k k) sets)"
  shows "rrf_finish seen n = RRF sets k n"
proof -
  let ?c = "rrf_collect (rrf_k k) sets"
  have "mset (fused seen) = mset (fused ?c)" using assms by (simp add: fused_def)
  then have "sort_by better (fused ?c) = sort_by better (fused seen)"
    using sort_better_perm [of "fused ?c" "fused seen"] fused_no_NaN [of "rrf_k k" sets] distinct_fused [of "rrf_k k" sets]
    by simp
  then show ?thesis by (simp add: RRF_fused rrf_finish_def fused_def)
qed

subsection \<open>Dominance\<close>

lemma occurrences_Cons [simp]: "occurrences (rs # sets) = enumerate 0 rs @ occurrences sets"
  and occurrences_Nil [simp]: "occurrences [] = []"
  by (simp_all add: occurrences_def)

text \<open>In one list the first chunk stands once and no lower than the second, or the second is absent.\<close>

definition ahead_in :: "string \<Rightarrow> string \<Rightarrow> SearchResult list \<Rightarrow> bool" where
  "ahead_in i j rs =
     (case (filter (\<lambda>e. occ_id e = i) (enumerate 0 rs), filter (\<lambda>e. occ_id e = j) (enumerate 0 rs)) of
        (_, []) \<Rightarrow> True
      | ([e], [e']) \<Rightarrow> effective_rank e \<le> effective_rank e'
      | _ \<Rightarrow> False)"

lemma sum_from_ahead:
  assumes "k > 0" "nonneg y" "nonneg x" "y \<le> x" "list_all (ahead_in i j) sets"
  shows "sum_from k y (filter (\<lambda>e. occ_id e = j) (occurrences sets)) \<le>
    sum_from k x (filter (\<lambda>e. occ_id e = i) (occurrences sets))"
  using assms(2-)
proof (induction sets arbitrary: x y)
  case (Cons rs sets)
  let ?I = "filter (\<lambda>e. occ_id e = i) (enumerate 0 rs)" and ?J = "filter (\<lambda>e. occ_id e = j) (enumerate 0 rs)"
  have "sum_from k y ?J \<le> sum_from k x ?I"
  proof (cases ?J)
    case Nil
    then show ?thesis using sum_from_increases [OF assms(1) Cons.prems(2), of ?I] Cons.prems(3) by auto
  next
    case (Cons e' es')
    with \<open>list_all (ahead_in i j) (rs # sets)\<close> obtain e where e: "?I = [e]" "?J = [e']" "effective_rank e \<le> effective_rank e'"
      by (auto simp: ahead_in_def split: list.splits)
    have "contribution k e' \<le> contribution k e"
      unfolding contribution_def using assms(1) e(3) effective_rank_pos [of e] by (intro reciprocal_antitone) auto
    then have "fadd y (contribution k e') \<le> fadd x (contribution k e)"
      using nonneg_fadd [OF Cons.prems(1) contribution_nonneg [OF assms(1)]] Cons.prems(3)
      by (intro fadd_mono) auto
    with e show ?thesis by simp
  qed
  then show ?case
    using Cons.IH [of "sum_from k y ?J" "sum_from k x ?I"] Cons.prems assms(1)
    by (simp add: sum_from_nonneg)
qed simp

text \<open>
  A chunk that stands, in every result list, once and no lower than another one (or where
  the other one is absent) gets a fused score that is at least as large: rounding cannot turn a
  dominating ranking around.
\<close>

lemma rrf_dominance:
  assumes "list_all (ahead_in i j) sets"
  shows "fused_score (rrf_k k) sets j \<le> fused_score (rrf_k k) sets i"
  using sum_from_ahead [OF rrf_k_gt_0 nonneg_0 nonneg_0 _ assms] by (simp add: fused_score_def)

subsection \<open>Concrete inputs\<close>

definition ex_result :: "string \<Rightarrow> SearchResult" where
  "ex_result i =
     \<lparr>res_Chunk = \<lparr>c_ID = i, c_TenantID = ''t'', c_KnowledgeBaseID = ''k'', c_DocumentID = ''d'', c_Content = [],
        c_ContextualText = [], c_SourceURI = [], c_Page = 0, c_Section = [], c_Offset = 0, c_Vector = [],
        c_IngestionJobID = [], c_Metadata = []\<rparr>,
      res_Score = Fin 0, res_Rank = 0, res_From = ''dense''\<rparr>"

definition ex_sets :: "SearchResult list list" where
  "ex_sets = [[ex_result ''a'', ex_result ''b''], [ex_result ''c'', ex_result ''a'', ex_result ''b'']]"

lemma rrf_order_independent_witness:
  "rrf_finish (rev (rrf_collect (rrf_k 0) ex_sets)) 2 = RRF ex_sets 0 2 \<and>
   rev (rrf_collect (rrf_k 0) ex_sets) \<noteq> rrf_collect (rrf_k 0) ex_sets"
proof -
  have "map fst (rrf_collect (rrf_k 0) ex_sets) = [''a'', ''b'', ''c'']"
    by (simp add: ex_sets_def ex_result_def rrf_k_def rrf_collect_def rrf_add_def Let_def)
  then have "map fst (rev (rrf_collect (rrf_k 0) ex_sets)) \<noteq> map fst (rrf_collect (rrf_k 0) ex_sets)"
    by (simp only: rev_map [symmetric]) simp
  then have "rev (rrf_collect (rrf_k 0) ex_sets) \<noteq> rrf_collect (rrf_k 0) ex_sets" by metis
  with rrf_order_independent [of "rev (rrf_collect (rrf_k 0) ex_sets)" 0 ex_sets 2] show ?thesis by simp
qed

lemma rrf_dominance_witness:
  "list_all (ahead_in ''a'' ''b'') ex_sets \<and> fused_score (rrf_k 0) ex_sets ''b'' \<le> fused_score (rrf_k 0) ex_sets ''a''"
proof -
  have h: "list_all (ahead_in ''a'' ''b'') ex_sets"
    by (simp add: ex_sets_def ahead_in_def ex_result_def occ_id_def effective_rank_def)
  with rrf_dominance [OF h, of 0] show ?thesis by simp
qed

section \<open>What a search returns\<close>

definition of_scope :: "string \<Rightarrow> string \<Rightarrow> SearchResult list \<Rightarrow> bool" where
  "of_scope tenantID kbID rs \<longleftrightarrow>
     list_all (\<lambda>r. c_TenantID (res_Chunk r) = tenantID \<and> c_KnowledgeBaseID (res_Chunk r) = kbID) rs"

definition id_distinct :: "SearchResult list \<Rightarrow> bool" where
  "id_distinct rs \<longleftrightarrow> distinct (map (\<lambda>r. c_ID (res_Chunk r)) rs)"

lemma of_scope_chunks: "of_scope t k rs \<longleftrightarrow> list_all (\<lambda>c. c_TenantID c = t \<and> c_KnowledgeBaseID c = k) (map res_Chunk rs)"
  by (simp add: of_scope_def list_all_iff)

lemma id_distinct_chunks: "id_distinct rs \<longleftrightarrow> distinct (map c_ID (map res_Chunk rs))"
  by (simp add: id_distinct_def comp_def)

lemma of_scope_limit: "of_scope t k rs \<Longrightarrow> of_scope t k (limit_to n rs)"
  using set_limit_to [of n rs] by (auto simp: of_scope_def list_all_iff)

lemma id_distinct_limit: "id_distinct rs \<Longrightarrow> id_distinct (limit_to n rs)"
  using limit_to_take [of n rs] by (auto simp: id_distinct_def take_map [symmetric])

lemma of_scope_rank_all [simp]: "of_scope t k (rank_all rs) = of_scope t k rs"
  by (simp add: of_scope_chunks)

lemma id_distinct_rank_all [simp]: "id_distinct (rank_all rs) = id_distinct rs"
  by (simp add: id_distinct_chunks del: map_map)

lemma top_n_props:
  "of_scope t k rs \<Longrightarrow> of_scope t k (top_n rs n)" "id_distinct rs \<Longrightarrow> id_distinct (top_n rs n)"
  by (auto simp: top_n_def intro!: of_scope_limit id_distinct_limit)
    (auto simp: of_scope_def id_distinct_def list_all_iff)

text \<open>Fusion keeps the scope of its inputs.\<close>

lemma occurrences_mem: "e \<in> set (occurrences sets) \<Longrightarrow> \<exists>rs \<in> set sets. snd e \<in> set rs"
  by (auto simp: occurrences_def enumerate_eq_zip) (metis prod.collapse set_zip_rightD)

lemma RRF_scope:
  assumes "list_all (of_scope t k) sets"
  shows "of_scope t k (RRF sets kk n)"
proof -
  have "of_scope t k (fused (rrf_collect (rrf_k kk) sets))"
    unfolding of_scope_def list_all_iff
  proof
    fix r assume "r \<in> set (fused (rrf_collect (rrf_k kk) sets))"
    then obtain i a where ia: "(i, a) \<in> set (rrf_collect (rrf_k kk) sets)" "res_Chunk r = res_Chunk (acc_result a)"
      by (auto simp: fused_def)
    from collect_entry(3) [OF ia(1)] obtain e where "e \<in> set (occurrences sets)" "res_Chunk r = res_Chunk (snd e)"
      using ia(2) by auto
    moreover from this(1) obtain rs where "rs \<in> set sets" "snd e \<in> set rs"
      using occurrences_mem by blast
    ultimately show "c_TenantID (res_Chunk r) = t \<and> c_KnowledgeBaseID (res_Chunk r) = k"
      using assms by (auto simp: of_scope_def list_all_iff)
  qed
  then have "of_scope t k (sort_by better (fused (rrf_collect (rrf_k kk) sets)))"
    by (simp add: of_scope_def list_all_iff)
  then show ?thesis by (simp add: RRF_fused of_scope_limit)
qed

text \<open>The hybrid retriever over one chunk source.\<close>

definition hybrid_over :: "unicode_tables \<Rightarrow> (string \<Rightarrow> string \<Rightarrow> Chunk list) \<Rightarrow> int \<Rightarrow> int \<Rightarrow> int \<Rightarrow> int \<Rightarrow> HybridRetriever" where
  "hybrid_over u chunks rrfk topN denseTopK sparseTopK =
     \<lparr>hy_Dense = Some (\<lambda>req. Inr (DenseRetriever_Retrieve u chunks req)),
      hy_Sparse = Some (\<lambda>req. Inr (SparseRetriever_Retrieve u chunks req)),
      hy_RRFK = rrfk, hy_TopN = topN, hy_DenseTopK = denseTopK, hy_SparseTopK = sparseTopK\<rparr>"

text \<open>The contract of a chunk source: only chunks of the scope that was asked for, each once.\<close>

locale chunk_source =
  fixes chunks :: "string \<Rightarrow> string \<Rightarrow> 's \<Rightarrow> Chunk list"
    and invar :: "'s \<Rightarrow> bool"
  assumes scoped: "list_all (\<lambda>c. c_TenantID c = t \<and> c_KnowledgeBaseID c = k) (chunks t k s)"
    and distinct_ids: "invar s \<Longrightarrow> distinct (map c_ID (chunks t k s))"
begin

lemma selected_scope:
  "of_scope t k (filter P (map (\<lambda>c. \<lparr>res_Chunk = c, res_Score = f c, res_Rank = 0, res_From = z\<rparr>) (chunks t k s)))"
  using scoped [of t k s] by (auto simp: of_scope_def list_all_iff)

lemma selected_distinct:
  "invar s \<Longrightarrow>
     id_distinct (filter P (map (\<lambda>c. \<lparr>res_Chunk = c, res_Score = f c, res_Rank = 0, res_From = z\<rparr>) (chunks t k s)))"
  using distinct_ids [of s t k] by (auto simp: id_distinct_def comp_def intro!: distinct_map_filter)

lemma dense_scope:
  "of_scope (sr_TenantID req) (sr_KnowledgeBaseID req) (DenseRetriever_Retrieve u (\<lambda>t k. chunks t k s) req)"
  unfolding DenseRetriever_Retrieve_def by (intro top_n_props selected_scope)

lemma sparse_scope:
  "of_scope (sr_TenantID req) (sr_KnowledgeBaseID req) (SparseRetriever_Retrieve u (\<lambda>t k. chunks t k s) req)"
  unfolding SparseRetriever_Retrieve_def by (intro top_n_props selected_scope)

lemma dense_distinct: "invar s \<Longrightarrow> id_distinct (DenseRetriever_Retrieve u (\<lambda>t k. chunks t k s) req)"
  unfolding DenseRetriever_Retrieve_def by (intro top_n_props selected_distinct)

lemma sparse_distinct: "invar s \<Longrightarrow> id_distinct (SparseRetriever_Retrieve u (\<lambda>t k. chunks t k s) req)"
  unfolding SparseRetriever_Retrieve_def by (intro top_n_props selected_distinct)

lemma hybrid_scope:
  assumes "HybridRetriever_Retrieve (hybrid_over u (\<lambda>t k. chunks t k s) rrfk topN dk sk) req = Inr rs"
  shows "of_scope (sr_TenantID req) (sr_KnowledgeBaseID req) rs"
proof -
  have d: "sr_TenantID (hybrid_denseReq r req) = sr_TenantID req" "sr_KnowledgeBaseID (hybrid_denseReq r req) = sr_KnowledgeBaseID req"
    "sr_TenantID (hybrid_sparseReq r req) = sr_TenantID req" "sr_KnowledgeBaseID (hybrid_sparseReq r req) = sr_KnowledgeBaseID req"
    for r by (simp_all add: hybrid_denseReq_def hybrid_sparseReq_def)
  let ?r = "hybrid_over u (\<lambda>t k. chunks t k s) rrfk topN dk sk"
  have "rs = RRF [DenseRetriever_Retrieve u (\<lambda>t k. chunks t k s) (hybrid_denseReq ?r req),
      SparseRetriever_Retrieve u (\<lambda>t k. chunks t k s) (hybrid_sparseReq ?r req)] rrfk (rrfTopN ?r req)"
    using assms by (simp add: HybridRetriever_Retrieve_def RetrieveWithWarnings_def hybrid_over_def Let_def)
  then show ?thesis
    using dense_scope [of "hybrid_denseReq ?r req" u s] sparse_scope [of "hybrid_sparseReq ?r req" u s]
    by (auto simp: d intro!: RRF_scope)
qed

end

end
