(* ===== verification/KBStoreProps.thy ===== *)
theory KBStoreProps
  imports KBRanking
begin

text \<open>
  What the in-memory knowledge-base store guarantees: the two-phase activation of a document ends
  in the state a direct store would have reached and is invisible until it is committed; storing
  replaces exactly the chunks of the same source; deleting a knowledge base leaves nothing of it;
  and searches stay within the tenant and the knowledge base that were asked for.
\<close>

section \<open>Well-formed stores\<close>

definition store_wf :: "MemoryStore \<Rightarrow> bool" where
  "store_wf s \<longleftrightarrow> gmap_wf (ms_kbs s) \<and> gmap_wf (ms_documents s) \<and> gmap_wf (ms_chunks s) \<and>
     gmap_wf (ms_pendingDocuments s) \<and> gmap_wf (ms_pendingChunks s) \<and>
     list_all (\<lambda>(i, c). c_ID c = i) (ms_chunks s) \<and> list_all (\<lambda>(i, c). c_ID c = i) (ms_pendingChunks s)"

lemma version_sel [simp]:
  "c_ID (chunkWithDocumentVersion c d) = c_ID c" "c_TenantID (chunkWithDocumentVersion c d) = c_TenantID c"
  "c_KnowledgeBaseID (chunkWithDocumentVersion c d) = c_KnowledgeBaseID c"
  "c_DocumentID (chunkWithDocumentVersion c d) = c_DocumentID c"
  by (simp_all add: chunkWithDocumentVersion_def)

text \<open>Stamping a chunk with the version of its document twice changes nothing.\<close>

lemma version_idem [simp]: "chunkWithDocumentVersion (chunkWithDocumentVersion c d) d = chunkWithDocumentVersion c d"
  by (simp add: chunkWithDocumentVersion_def gget0_def map_simps)

subsection \<open>Deleting a source\<close>

definition of_source :: "string \<Rightarrow> string \<Rightarrow> string \<Rightarrow> Document \<Rightarrow> bool" where
  "of_source t k u d \<longleftrightarrow> d_TenantID d = t \<and> d_KnowledgeBaseID d = k \<and> d_SourceURI d = u"

definition source_ids :: "string \<Rightarrow> string \<Rightarrow> string \<Rightarrow> (string, Document) gomap \<Rightarrow> string list" where
  "source_ids t k u docs = map fst (filter (\<lambda>(i, d). of_source t k u d) docs)"

lemma delete_is_filter: "gdel k m = filter (\<lambda>(k', v). k' \<noteq> k) m"
  by (auto simp: AList.delete_eq intro!: filter_cong)

lemma gdel_where_twice: "gdel_where P (gdel_where Q m) = gdel_where (\<lambda>k v. Q k v \<or> P k v) m"
  by (auto simp: gdel_where_def intro!: filter_cong)

lemma deleteSource_fold:
  "fold (deleteSource_step t k u) es (docs, chunks, del) =
     (gdel_where (\<lambda>i d. i \<in> set (source_ids t k u es)) docs,
      gdel_where (\<lambda>i c. c_TenantID c = t \<and> c_KnowledgeBaseID c = k \<and> c_DocumentID c \<in> set (source_ids t k u es)) chunks,
      del @ source_ids t k u es)"
proof (induction es arbitrary: docs chunks del)
  case Nil
  then show ?case by (simp add: gdel_where_def source_ids_def)
next
  case (Cons e es)
  obtain i d where e: "e = (i, d)" by (cases e)
  show ?case
  proof (cases "of_source t k u d")
    case True
    then have ids: "source_ids t k u (e # es) = i # source_ids t k u es" by (simp add: source_ids_def e)
    have step: "deleteSource_step t k u e (docs, chunks, del) =
      (gdel i docs, gdel_where (\<lambda>_ c. c_TenantID c = t \<and> c_KnowledgeBaseID c = k \<and> c_DocumentID c = i) chunks, del @ [i])"
      using True by (simp add: e deleteSource_step_def of_source_def)
    have "gdel i docs = gdel_where (\<lambda>j d. j = i) docs"
      by (simp add: delete_is_filter gdel_where_def)
    then show ?thesis
      unfolding fold_simps step Cons.IH ids by (auto simp: gdel_where_twice gdel_where_def intro!: filter_cong)
  next
    case False
    then have "deleteSource_step t k u e (docs, chunks, del) = (docs, chunks, del)"
      "source_ids t k u (e # es) = source_ids t k u es"
      by (auto simp: e deleteSource_step_def of_source_def source_ids_def)
    then show ?thesis by (simp add: Cons.IH)
  qed
qed

lemma source_ids_iff: "gmap_wf docs \<Longrightarrow> i \<in> set (source_ids t k u docs) \<longleftrightarrow> (\<exists>d. map_of docs i = Some d \<and> of_source t k u d)"
  by (force simp: source_ids_def gmap_wf_mem_iff)

definition drop_docs :: "string \<Rightarrow> string \<Rightarrow> string \<Rightarrow> (string, Document) gomap \<Rightarrow> (string, Document) gomap" where
  "drop_docs t k u docs = gdel_where (\<lambda>i d. i \<in> set (source_ids t k u docs)) docs"

definition drop_chunks ::
  "string \<Rightarrow> string \<Rightarrow> string \<Rightarrow> (string, Document) gomap \<Rightarrow> (string, Chunk) gomap \<Rightarrow> (string, Chunk) gomap" where
  "drop_chunks t k u docs chunks =
     gdel_where (\<lambda>i c. c_TenantID c = t \<and> c_KnowledgeBaseID c = k \<and> c_DocumentID c \<in> set (source_ids t k u docs)) chunks"

lemma deleteDocumentSource_eq:
  "u \<noteq> [] \<Longrightarrow> deleteDocumentSourceLocked t k u s =
     s\<lparr>ms_documents := drop_docs t k u (ms_documents s), ms_chunks := drop_chunks t k u (ms_documents s) (ms_chunks s),
       ms_relations := fold (deleteGraphRelationsLocked t k) (source_ids t k u (ms_documents s)) (ms_relations s)\<rparr>"
  "deleteDocumentSourceLocked t k [] s = s"
  by (simp_all add: deleteDocumentSourceLocked_def deleteSource_fold drop_docs_def drop_chunks_def)

lemma deletePendingDocumentSource_eq:
  "u \<noteq> [] \<Longrightarrow> deletePendingDocumentSourceLocked t k u s =
     s\<lparr>ms_pendingDocuments := drop_docs t k u (ms_pendingDocuments s),
       ms_pendingChunks := drop_chunks t k u (ms_pendingDocuments s) (ms_pendingChunks s)\<rparr>"
  "deletePendingDocumentSourceLocked t k [] s = s"
  by (simp_all add: deletePendingDocumentSourceLocked_def deleteSource_fold drop_docs_def drop_chunks_def)

lemma deletePending_frame [simp]:
  "ms_kbs (deletePendingDocumentSourceLocked t k u s) = ms_kbs s"
  "ms_documents (deletePendingDocumentSourceLocked t k u s) = ms_documents s"
  "ms_chunks (deletePendingDocumentSourceLocked t k u s) = ms_chunks s"
  "ms_relations (deletePendingDocumentSourceLocked t k u s) = ms_relations s"
  by (cases "u = []"; simp add: deletePendingDocumentSource_eq)+

lemma deleteDocument_frame [simp]:
  "ms_kbs (deleteDocumentSourceLocked t k u s) = ms_kbs s"
  "ms_pendingDocuments (deleteDocumentSourceLocked t k u s) = ms_pendingDocuments s"
  "ms_pendingChunks (deleteDocumentSourceLocked t k u s) = ms_pendingChunks s"
  by (cases "u = []"; simp add: deleteDocumentSource_eq)+

text \<open>Deleting a source reads and writes the stored documents only.\<close>

lemma deleteDocument_cong:
  assumes "ms_documents s = ms_documents s'" "ms_chunks s = ms_chunks s'" "ms_relations s = ms_relations s'"
  shows "ms_documents (deleteDocumentSourceLocked t k u s) = ms_documents (deleteDocumentSourceLocked t k u s')"
    "ms_chunks (deleteDocumentSourceLocked t k u s) = ms_chunks (deleteDocumentSourceLocked t k u s')"
    "ms_relations (deleteDocumentSourceLocked t k u s) = ms_relations (deleteDocumentSourceLocked t k u s')"
  using assms by (cases "u = []"; simp add: deleteDocumentSource_eq)+

section \<open>Two-phase activation\<close>

definition put_all :: "Document \<Rightarrow> Chunk list \<Rightarrow> (string, Chunk) gomap \<Rightarrow> (string, Chunk) gomap" where
  "put_all d cs m = fold (\<lambda>c. gput (c_ID c) (chunkWithDocumentVersion c d)) cs m"

lemma map_of_put_all:
  "map_of (put_all d cs m) i =
     (case find (\<lambda>c. c_ID c = i) (rev cs) of None \<Rightarrow> map_of m i | Some c \<Rightarrow> Some (chunkWithDocumentVersion c d))"
  unfolding put_all_def by (rule gm.lookup_fold_store)

lemma find_rev_None: "find (\<lambda>c. c_ID c = i) (rev cs) = None \<longleftrightarrow> i \<notin> c_ID ` set cs"
  by (auto simp: find_None_iff)

lemma find_mem: "find P xs = Some x \<Longrightarrow> x \<in> set xs \<and> P x"
  by (induction xs) (auto split: if_splits)

lemma put_all_cases:
  assumes "map_of (put_all d cs m) i = Some c"
  shows "(\<exists>c' \<in> set cs. c_ID c' = i \<and> c = chunkWithDocumentVersion c' d) \<or> i \<notin> c_ID ` set cs \<and> map_of m i = Some c"
proof (cases "find (\<lambda>c. c_ID c = i) (rev cs)")
  case None
  then show ?thesis using assms find_rev_None [of i cs] by (simp add: map_of_put_all)
next
  case (Some x)
  then show ?thesis
    using assms find_mem [OF Some] by (simp add: map_of_put_all) blast
qed

lemma commit_fold:
  assumes "\<And>i c. map_of pending i = Some c \<Longrightarrow> c_ID c = i"
  shows "map_of (fst (fold commit_chunk cs (chunks, pending))) i =
      (if i \<in> c_ID ` set cs \<and> map_of pending i \<noteq> None then map_of pending i else map_of chunks i) \<and>
    map_of (snd (fold commit_chunk cs (chunks, pending))) i = (if i \<in> c_ID ` set cs then None else map_of pending i)"
  using assms
proof (induction cs arbitrary: chunks pending)
  case (Cons c cs)
  show ?case
  proof (cases "map_of pending (c_ID c)")
    case None
    then have "commit_chunk c (chunks, pending) = (chunks, pending)" by (simp add: commit_chunk_def)
    with Cons None show ?thesis by auto
  next
    case (Some x)
    then have "commit_chunk c (chunks, pending) = (gput (c_ID c) x chunks, gdel (c_ID c) pending)"
      using Cons.prems [OF Some] by (simp add: commit_chunk_def)
    moreover have "\<And>i y. map_of (gdel (c_ID c) pending) i = Some y \<Longrightarrow> c_ID y = i"
      using Cons.prems by (auto simp: map_simps split: if_splits)
    note IH = Cons.IH [of "gdel (c_ID c) pending" "gput (c_ID c) x chunks", OF this]
    ultimately show ?thesis
      using IH Some by (cases "i = c_ID c") (simp_all add: map_simps)
  qed
qed simp

text \<open>What readers of the store see: everything but the pending documents and chunks.\<close>

definition visible_part :: "MemoryStore \<Rightarrow>
  (string \<Rightarrow> KnowledgeBase option) \<times> (string \<Rightarrow> Document option) \<times> (string \<Rightarrow> Chunk option) \<times> GraphRelation list" where
  "visible_part s = (map_of (ms_kbs s), map_of (ms_documents s), map_of (ms_chunks s), ms_relations s)"

lemma pending_keyed: "store_wf s \<Longrightarrow> map_of (ms_pendingChunks s) i = Some c \<Longrightarrow> c_ID c = i"
  by (auto simp: store_wf_def list_all_iff dest: map_of_SomeD)

lemma chunks_keyed: "store_wf s \<Longrightarrow> map_of (ms_chunks s) i = Some c \<Longrightarrow> c_ID c = i"
  by (auto simp: store_wf_def list_all_iff dest: map_of_SomeD)

lemma keyedI: "gmap_wf m \<Longrightarrow> (\<And>i c. map_of m i = Some c \<Longrightarrow> c_ID c = i) \<Longrightarrow> list_all (\<lambda>(i, c). c_ID c = i) m"
  by (auto simp: list_all_iff gmap_wf_mem_iff)

lemma map_of_drop_chunks:
  "gmap_wf chunks \<Longrightarrow> map_of (drop_chunks t k u docs chunks) i = Some c \<longleftrightarrow>
     map_of chunks i = Some c \<and> \<not> (c_TenantID c = t \<and> c_KnowledgeBaseID c = k \<and> c_DocumentID c \<in> set (source_ids t k u docs))"
  by (auto simp: drop_chunks_def map_of_gdel_where split: option.splits)

lemma stage_pending:
  assumes "store_wf s"
  shows "map_of (ms_pendingChunks (MemoryStore_Store True d cs s)) i = Some c \<Longrightarrow> c_ID c = i"
    "i \<in> c_ID ` set cs \<Longrightarrow> map_of (ms_pendingChunks (MemoryStore_Store True d cs s)) i =
       map_of (put_all d cs m) i"
    "map_of (ms_pendingDocuments (MemoryStore_Store True d cs s)) (d_ID d) = Some d"
proof -
  let ?s = "deletePendingDocumentSourceLocked (d_TenantID d) (d_KnowledgeBaseID d) (d_SourceURI d) s"
  have keyed: "c_ID c = i" if "map_of (ms_pendingChunks ?s) i = Some c" for i c
    using that pending_keyed [OF assms] assms
    by (cases "d_SourceURI d = []") (auto simp: deletePendingDocumentSource_eq map_of_drop_chunks store_wf_def)
  have p: "ms_pendingChunks (MemoryStore_Store True d cs s) = put_all d cs (ms_pendingChunks ?s)"
    by (simp add: MemoryStore_Store_def stageDocumentLocked_def Let_def put_all_def)
  show "map_of (ms_pendingChunks (MemoryStore_Store True d cs s)) i = Some c \<Longrightarrow> c_ID c = i"
    unfolding p by (auto dest!: put_all_cases keyed)
  show "i \<in> c_ID ` set cs \<Longrightarrow> map_of (ms_pendingChunks (MemoryStore_Store True d cs s)) i = map_of (put_all d cs m) i"
    unfolding p using find_rev_None [of i cs] by (auto simp: map_of_put_all split: option.splits)
  show "map_of (ms_pendingDocuments (MemoryStore_Store True d cs s)) (d_ID d) = Some d"
    by (simp add: MemoryStore_Store_def stageDocumentLocked_def Let_def map_simps)
qed

lemma stage_visible [simp]:
  "ms_kbs (MemoryStore_Store True d cs s) = ms_kbs s" "ms_documents (MemoryStore_Store True d cs s) = ms_documents s"
  "ms_chunks (MemoryStore_Store True d cs s) = ms_chunks s" "ms_relations (MemoryStore_Store True d cs s) = ms_relations s"
  by (simp_all add: MemoryStore_Store_def stageDocumentLocked_def Let_def)

text \<open>
  C19 (refinement). The two-phase activation of a document implements a direct store: staging a
  document whose identifier is not empty and committing it leaves documents, chunks, knowledge bases
  and relations exactly as an unstaged \<^verbatim>\<open>Store\<close> of the same document and chunks does, in any
  well-formed store that holds no relations of the new document yet; and until the commit nothing a
  reader sees has changed, whether the staging is aborted or not. With an empty identifier an unstaged
  \<^verbatim>\<open>Store\<close> deletes every relation of the knowledge base, which the commit does not.
\<close>

theorem staged_activation_is_store:
  assumes "store_wf s" and "d_ID d \<noteq> []" and "list_all (\<lambda>r. gr_DocumentID r \<noteq> d_ID d) (ms_relations s)"
  shows "visible_part (CommitActivation d cs (MemoryStore_Store True d cs s)) = visible_part (MemoryStore_Store False d cs s) \<and>
    visible_part (MemoryStore_Store True d cs s) = visible_part s \<and>
    visible_part (AbortActivation d (MemoryStore_Store True d cs s)) = visible_part s"
proof -
  let ?t = "d_TenantID d" and ?k = "d_KnowledgeBaseID d" and ?u = "d_SourceURI d"
  let ?g = "MemoryStore_Store True d cs s"
  let ?del = "deleteDocumentSourceLocked ?t ?k ?u"
  have same: "ms_documents (?del ?g) = ms_documents (?del s)" "ms_chunks (?del ?g) = ms_chunks (?del s)"
    "ms_relations (?del ?g) = ms_relations (?del s)"
    by (simp_all add: deleteDocument_cong [of ?g s])
  have rel: "deleteGraphRelationsLocked ?t ?k (d_ID d) (ms_relations (?del s)) = ms_relations (?del s)"
  proof -
    have "set (fold (deleteGraphRelationsLocked t k) ids rs) \<subseteq> set rs" for t k ids rs
    proof (induction ids arbitrary: rs)
      case (Cons i ids)
      have "set (deleteGraphRelationsLocked t k i rs) \<subseteq> set rs" by (auto simp: deleteGraphRelationsLocked_def)
      with Cons [of "deleteGraphRelationsLocked t k i rs"] show ?case by simp
    qed simp
    then have "set (ms_relations (?del s)) \<subseteq> set (ms_relations s)"
      by (cases "?u = []") (simp_all add: deleteDocumentSource_eq)
    then show ?thesis using assms(2,3) by (auto simp: deleteGraphRelationsLocked_def list_all_iff filter_id_conv)
  qed
  have "map_of (fst (fold commit_chunk cs (ms_chunks (?del s), ms_pendingChunks ?g))) i =
      map_of (put_all d cs (ms_chunks (?del s))) i" for i
    using commit_fold [of "ms_pendingChunks ?g" cs "ms_chunks (?del s)" i] stage_pending(1) [OF assms(1)]
      stage_pending(2) [OF assms(1), of i cs d "ms_chunks (?del s)"] find_rev_None [of i cs]
    by (auto simp: map_of_put_all split: option.splits)
  then have "map_of (fst (fold commit_chunk cs (ms_chunks (?del s), ms_pendingChunks ?g))) =
      map_of (put_all d cs (ms_chunks (?del s)))" by blast
  then have "visible_part (CommitActivation d cs ?g) = visible_part (MemoryStore_Store False d cs s)"
    using rel by (simp add: visible_part_def CommitActivation_def stage_pending(3) [OF assms(1)] Let_def same case_prod_unfold
        MemoryStore_Store_def [of False] put_all_def)
  then show ?thesis by (simp add: visible_part_def AbortActivation_def)
qed

section \<open>What a search reads\<close>

text \<open>A stored chunk as a search sees it.\<close>

definition shown :: "MemoryStore \<Rightarrow> Chunk \<Rightarrow> Chunk" where
  "shown s c = (case map_of (ms_documents s) (c_DocumentID c) of None \<Rightarrow> c | Some d \<Rightarrow> chunkWithDocumentVersion c d)"

lemma shown_sel [simp]:
  "c_ID (shown s c) = c_ID c" "c_TenantID (shown s c) = c_TenantID c"
  "c_KnowledgeBaseID (shown s c) = c_KnowledgeBaseID c" "c_DocumentID (shown s c) = c_DocumentID c"
  by (simp_all add: shown_def split: option.splits)

lemma Chunks_shown:
  "MemoryStore_Chunks t k s = sort_by (\<lambda>a b. c_ID a < c_ID b)
     (map (shown s) (filter (\<lambda>c. c_TenantID c = t \<and> c_KnowledgeBaseID c = k) (map snd (ms_chunks s))))"
  by (simp add: MemoryStore_Chunks_def shown_def [abs_def])

lemma Chunks_ids:
  "gmap_wf (ms_chunks s) \<Longrightarrow> i \<in> c_ID ` {c \<in> set (MemoryStore_Chunks t k s). P (c_DocumentID c)} \<longleftrightarrow>
     (\<exists>j c. map_of (ms_chunks s) j = Some c \<and> c_ID c = i \<and> c_TenantID c = t \<and> c_KnowledgeBaseID c = k \<and> P (c_DocumentID c))"
  by (force simp: Chunks_shown gmap_wf_mem_iff image_iff)

lemmas Chunks_ids_all = Chunks_ids [where P = "\<lambda>_. True", simplified]

lemma distinct_Chunks: "store_wf s \<Longrightarrow> distinct (map c_ID (MemoryStore_Chunks t k s))"
proof -
  assume wf: "store_wf s"
  have keyed: "map c_ID (map snd (ms_chunks s)) = map fst (ms_chunks s)"
    using wf by (auto simp: store_wf_def list_all_iff)
  have "distinct (map c_ID (filter P (map snd (ms_chunks s))))" for P
    by (rule distinct_map_filter, unfold keyed) (use wf in \<open>simp add: store_wf_def gmap_wf_def\<close>)
  then show ?thesis by (simp add: Chunks_shown comp_def)
qed

interpretation mem: chunk_source MemoryStore_Chunks store_wf
proof
  show "list_all (\<lambda>c. c_TenantID c = t \<and> c_KnowledgeBaseID c = k) (MemoryStore_Chunks t k s)" for t k s
    by (auto simp: Chunks_shown list_all_iff)
  show "distinct (map c_ID (MemoryStore_Chunks t k s))" if "store_wf s" for s t k
    using that by (rule distinct_Chunks)
qed

text \<open>
  Hybrid search over the store returns only chunks of the tenant and the knowledge base of
  the request, no chunk twice, and at most as many as the request's limit asks for.
\<close>

lemma hybrid_search_confined:
  assumes "HybridRetriever_Retrieve (hybrid_over u (\<lambda>t k. MemoryStore_Chunks t k s) rrfk topN dk sk) req = Inr rs"
  shows "of_scope (sr_TenantID req) (sr_KnowledgeBaseID req) rs \<and> id_distinct rs \<and>
    (sr_TopK req > 0 \<longrightarrow> int (length rs) \<le> sr_TopK req)"
proof -
  obtain sets where rs: "rs = RRF sets rrfk (rrfTopN (hybrid_over u (\<lambda>t k. MemoryStore_Chunks t k s) rrfk topN dk sk) req)"
    using assms by (auto simp: HybridRetriever_Retrieve_def RetrieveWithWarnings_def hybrid_over_def Let_def)
  have "id_distinct (rank_all (sort_by better (fused (rrf_collect (rrf_k rrfk) sets))))"
    using distinct_fused [of "rrf_k rrfk" sets] by (simp, simp add: id_distinct_def)
  then have "id_distinct rs" unfolding rs RRF_fused by (rule id_distinct_limit)
  moreover have "sr_TopK req > 0 \<longrightarrow> int (length rs) \<le> sr_TopK req"
    unfolding rs by (auto simp: RRF_fused rrfTopN_def limit_to_def)
  ultimately show ?thesis using mem.hybrid_scope [OF assms] by simp
qed

section \<open>Storing and deleting\<close>

lemma put_all_new:
  assumes "list_all (\<lambda>c. c_TenantID c = t \<and> c_KnowledgeBaseID c = k) cs" and mem: "i \<in> c_ID ` set cs"
  shows "\<exists>c. map_of (put_all d cs m) i = Some c \<and> c_ID c = i \<and> c_TenantID c = t \<and> c_KnowledgeBaseID c = k"
proof -
  obtain c where "find (\<lambda>c. c_ID c = i) (rev cs) = Some c" using mem find_rev_None [of i cs] by auto
  with find_mem [OF this] assms(1) show ?thesis by (auto simp: map_of_put_all list_all_iff)
qed

lemma put_all_keep: "i \<notin> c_ID ` set cs \<Longrightarrow> map_of (put_all d cs m) i = map_of m i"
  using find_rev_None [of i cs] by (simp add: map_of_put_all)

lemma put_all_cases_own:
  assumes "list_all (\<lambda>c. c_TenantID c = t \<and> c_KnowledgeBaseID c = k) cs" and "map_of (put_all d cs m) j = Some c"
  shows "j \<in> c_ID ` set cs \<and> c_ID c = j \<and> c_TenantID c = t \<and> c_KnowledgeBaseID c = k \<or>
    j \<notin> c_ID ` set cs \<and> map_of m j = Some c"
  using put_all_cases [OF assms(2)] assms(1) by (auto simp: list_all_iff)

lemma gmap_wf_put_all: "gmap_wf m \<Longrightarrow> gmap_wf (put_all d cs m)"
  unfolding put_all_def by (rule gm.invar_fold_store)

lemma Store_chunks:
  "ms_chunks (MemoryStore_Store False d cs s) =
     put_all d cs (if d_SourceURI d = [] then ms_chunks s
       else drop_chunks (d_TenantID d) (d_KnowledgeBaseID d) (d_SourceURI d) (ms_documents s) (ms_chunks s))"
  by (auto simp: MemoryStore_Store_def Let_def put_all_def deleteDocumentSource_eq)

lemma gmap_wf_drop: "gmap_wf m \<Longrightarrow> gmap_wf (drop_chunks t k u docs m)" "gmap_wf docs' \<Longrightarrow> gmap_wf (drop_docs t k u docs')"
  by (simp_all add: drop_chunks_def drop_docs_def)

text \<open>
  Storing a document with a source address replaces exactly that source: afterwards the
  knowledge base holds the new chunks and the old chunks of all documents with another source,
  and every other knowledge base and tenant holds what it held before, provided the new chunk
  identifiers are not in use elsewhere.
\<close>

lemma store_replaces_source:
  assumes wf: "store_wf s" and u: "d_SourceURI d \<noteq> []"
    and own: "list_all (\<lambda>c. c_TenantID c = d_TenantID d \<and> c_KnowledgeBaseID c = d_KnowledgeBaseID d) cs"
    and fresh: "list_all (\<lambda>(i, c). c_ID c \<in> c_ID ` set cs \<longrightarrow>
        c_TenantID c = d_TenantID d \<and> c_KnowledgeBaseID c = d_KnowledgeBaseID d) (ms_chunks s)"
  shows "c_ID ` set (MemoryStore_Chunks t k (MemoryStore_Store False d cs s)) =
    (if t = d_TenantID d \<and> k = d_KnowledgeBaseID d
     then c_ID ` set cs \<union> c_ID ` {c \<in> set (MemoryStore_Chunks t k s).
       \<not> (\<exists>d'. map_of (ms_documents s) (c_DocumentID c) = Some d' \<and> of_source t k (d_SourceURI d) d')}
     else c_ID ` set (MemoryStore_Chunks t k s))"
proof -
  let ?t = "d_TenantID d" and ?k = "d_KnowledgeBaseID d" and ?u = "d_SourceURI d"
  have g: "gmap_wf (ms_chunks s)" "gmap_wf (ms_documents s)" using wf by (simp_all add: store_wf_def)
  let ?m = "drop_chunks ?t ?k ?u (ms_documents s) (ms_chunks s)"
  have m: "map_of ?m i = Some c \<longleftrightarrow> map_of (ms_chunks s) i = Some c \<and>
      \<not> (c_TenantID c = ?t \<and> c_KnowledgeBaseID c = ?k \<and>
         (\<exists>d'. map_of (ms_documents s) (c_DocumentID c) = Some d' \<and> of_source ?t ?k ?u d'))" for i c
    by (simp add: map_of_drop_chunks [OF g(1)] source_ids_iff [OF g(2)])
  have key: "map_of (ms_chunks s) i = Some c \<Longrightarrow> c_ID c = i" for i c by (rule chunks_keyed [OF wf])
  have new: "i \<in> c_ID ` set (MemoryStore_Chunks t k (MemoryStore_Store False d cs s)) \<longleftrightarrow>
      (\<exists>j c. map_of (put_all d cs ?m) j = Some c \<and> c_ID c = i \<and> c_TenantID c = t \<and> c_KnowledgeBaseID c = k)" for i
    using u by (subst Chunks_ids_all) (simp_all add: Store_chunks gmap_wf_put_all gmap_wf_drop g)
  note put = put_all_new [OF own] and keep = put_all_keep and from_put = put_all_cases_own [OF own]
  have fresh': "c_TenantID c = ?t \<and> c_KnowledgeBaseID c = ?k"
    if "map_of (ms_chunks s) i = Some c" "i \<in> c_ID ` set cs" for i c
    using that key [OF that(1)] fresh by (auto simp: list_all_iff dest!: map_of_SomeD)
  show ?thesis
  proof (cases "t = ?t \<and> k = ?k")
    case True
    let ?P = "\<lambda>x. \<not> (\<exists>d'. map_of (ms_documents s) x = Some d' \<and> of_source ?t ?k ?u d')"
    have "i \<in> c_ID ` set (MemoryStore_Chunks t k (MemoryStore_Store False d cs s)) \<longleftrightarrow>
        i \<in> c_ID ` set cs \<or> i \<in> c_ID ` {c \<in> set (MemoryStore_Chunks ?t ?k s). ?P (c_DocumentID c)}" for i
      unfolding new Chunks_ids [OF g(1), where P = ?P]
    proof (intro iffI)
      assume "\<exists>j c. map_of (put_all d cs ?m) j = Some c \<and> c_ID c = i \<and> c_TenantID c = t \<and> c_KnowledgeBaseID c = k"
      then obtain j c where c: "map_of (put_all d cs ?m) j = Some c" "c_ID c = i" "c_TenantID c = t" "c_KnowledgeBaseID c = k"
        by blast
      from from_put [OF c(1)] c True m [of j c] show "i \<in> c_ID ` set cs \<or>
        (\<exists>j c. map_of (ms_chunks s) j = Some c \<and> c_ID c = i \<and> c_TenantID c = ?t \<and> c_KnowledgeBaseID c = ?k \<and> ?P (c_DocumentID c))"
        by auto
    next
      assume a: "i \<in> c_ID ` set cs \<or>
        (\<exists>j c. map_of (ms_chunks s) j = Some c \<and> c_ID c = i \<and> c_TenantID c = ?t \<and> c_KnowledgeBaseID c = ?k \<and> ?P (c_DocumentID c))"
      show "\<exists>j c. map_of (put_all d cs ?m) j = Some c \<and> c_ID c = i \<and> c_TenantID c = t \<and> c_KnowledgeBaseID c = k"
      proof (cases "i \<in> c_ID ` set cs")
        case mem: True
        then show ?thesis using put [OF mem] True by blast
      next
        case False
        with a obtain j c where c: "map_of (ms_chunks s) j = Some c" "c_ID c = i" "c_TenantID c = ?t"
          "c_KnowledgeBaseID c = ?k" "?P (c_DocumentID c)" by blast
        then have "map_of (put_all d cs ?m) i = Some c" using keep [OF False] m [of i c] key [OF c(1)] by simp
        with c True show ?thesis by blast
      qed
    qed
    then show ?thesis unfolding set_eq_iff using True by simp
  next
    case False
    have "i \<in> c_ID ` set (MemoryStore_Chunks t k (MemoryStore_Store False d cs s)) \<longleftrightarrow>
        i \<in> c_ID ` set (MemoryStore_Chunks t k s)" for i
      unfolding new Chunks_ids_all [OF g(1)]
    proof (intro iffI; elim exE conjE)
      fix j c assume c: "map_of (put_all d cs ?m) j = Some c" "c_ID c = i" "c_TenantID c = t" "c_KnowledgeBaseID c = k"
      from from_put [OF c(1)] c False m [of j c]
      show "\<exists>j c. map_of (ms_chunks s) j = Some c \<and> c_ID c = i \<and> c_TenantID c = t \<and> c_KnowledgeBaseID c = k" by auto
    next
      fix j c assume c: "map_of (ms_chunks s) j = Some c" "c_ID c = i" "c_TenantID c = t" "c_KnowledgeBaseID c = k"
      then have "j \<notin> c_ID ` set cs" using fresh' [OF c(1)] False by auto
      then have "map_of (put_all d cs ?m) j = Some c" using keep m [of j c] c False by auto
      with c show "\<exists>j c. map_of (put_all d cs ?m) j = Some c \<and> c_ID c = i \<and> c_TenantID c = t \<and> c_KnowledgeBaseID c = k" by blast
    qed
    then show ?thesis unfolding set_eq_iff using False by (simp only: if_False simp_thms)
  qed
qed

text \<open>
  Deleting a knowledge base is complete and confined: afterwards the tenant cannot read it,
  no chunk, document, pending document, pending chunk or relation of it is left, and what any
  other tenant or knowledge base stores is untouched.
\<close>

lemma delete_knowledge_base_complete:
  assumes wf: "store_wf s" and del: "DeleteKnowledgeBase t k s = (s', True)"
  shows "GetKnowledgeBase t k s' = None \<and> MemoryStore_Chunks t k s' = [] \<and>
    list_all (\<lambda>(i, d). \<not> (d_TenantID d = t \<and> d_KnowledgeBaseID d = k)) (ms_documents s' @ ms_pendingDocuments s') \<and>
    list_all (\<lambda>(i, c). \<not> (c_TenantID c = t \<and> c_KnowledgeBaseID c = k)) (ms_chunks s' @ ms_pendingChunks s') \<and>
    list_all (\<lambda>r. \<not> (gr_TenantID r = t \<and> gr_KnowledgeBaseID r = k)) (ms_relations s') \<and>
    (\<forall>t' k'. (t', k') \<noteq> (t, k) \<longrightarrow>
       filter (\<lambda>(i, c). c_TenantID c = t' \<and> c_KnowledgeBaseID c = k') (ms_chunks s') =
         filter (\<lambda>(i, c). c_TenantID c = t' \<and> c_KnowledgeBaseID c = k') (ms_chunks s) \<and>
       filter (\<lambda>(i, d). d_TenantID d = t' \<and> d_KnowledgeBaseID d = k') (ms_documents s') =
         filter (\<lambda>(i, d). d_TenantID d = t' \<and> d_KnowledgeBaseID d = k') (ms_documents s) \<and>
       (k' \<noteq> k \<longrightarrow> GetKnowledgeBase t' k' s' = GetKnowledgeBase t' k' s))"
proof -
  have s': "s' = s\<lparr>ms_kbs := gdel k (ms_kbs s),
      ms_documents := gdel_where (\<lambda>_ d. d_TenantID d = t \<and> d_KnowledgeBaseID d = k) (ms_documents s),
      ms_chunks := gdel_where (\<lambda>_ c. c_TenantID c = t \<and> c_KnowledgeBaseID c = k) (ms_chunks s),
      ms_pendingDocuments := gdel_where (\<lambda>_ d. d_TenantID d = t \<and> d_KnowledgeBaseID d = k) (ms_pendingDocuments s),
      ms_pendingChunks := gdel_where (\<lambda>_ c. c_TenantID c = t \<and> c_KnowledgeBaseID c = k) (ms_pendingChunks s),
      ms_relations := deleteGraphRelationsLocked t k [] (ms_relations s)\<rparr>"
    using del by (simp add: DeleteKnowledgeBase_def split: if_splits)
  have none: "filter (\<lambda>c. c_TenantID c = t \<and> c_KnowledgeBaseID c = k) (map snd (ms_chunks s')) = []"
    by (auto simp: s' gdel_where_def filter_empty_conv)
  show ?thesis
    unfolding Chunks_shown none
    by (auto simp: s' GetKnowledgeBase_def map_simps gdel_where_def deleteGraphRelationsLocked_def list_all_iff
        intro!: filter_cong)
qed

section \<open>The invariant\<close>

lemma store_wf_New [simp, inv_intros]: "store_wf NewMemoryStore"
  by (simp add: store_wf_def NewMemoryStore_def)

lemma keyed_put_all: "list_all (\<lambda>(i, c). c_ID c = i) m \<Longrightarrow> gmap_wf m \<Longrightarrow> list_all (\<lambda>(i, c). c_ID c = i) (put_all d cs m)"
proof (rule keyedI)
  assume m: "list_all (\<lambda>(i, c). c_ID c = i) m" "gmap_wf m"
  then show "gmap_wf (put_all d cs m)" by (simp add: gmap_wf_put_all)
  fix i c assume "map_of (put_all d cs m) i = Some c"
  from put_all_cases [OF this] m(1) show "c_ID c = i" by (auto simp: list_all_iff dest: map_of_SomeD)
qed

lemma keyed_gdel_where: "list_all P m \<Longrightarrow> list_all P (gdel_where Q m)"
  by (auto simp: gdel_where_def list_all_iff)

lemma keyed_drop: "list_all P m \<Longrightarrow> list_all P (drop_chunks t k u docs m)"
  by (simp add: drop_chunks_def keyed_gdel_where)

lemma store_wf_deletes [inv_intros]:
  "store_wf s \<Longrightarrow> store_wf (deleteDocumentSourceLocked t k u s)"
  "store_wf s \<Longrightarrow> store_wf (deletePendingDocumentSourceLocked t k u s)"
  by (cases "u = []"; simp add: deleteDocumentSource_eq deletePendingDocumentSource_eq store_wf_def gmap_wf_drop keyed_drop)+

lemma store_wf_Store [inv_intros]: "store_wf s \<Longrightarrow> store_wf (MemoryStore_Store staged d cs s)"
proof (cases staged)
  case True
  assume "store_wf s"
  then have "store_wf (deletePendingDocumentSourceLocked (d_TenantID d) (d_KnowledgeBaseID d) (d_SourceURI d) s)"
    by (rule store_wf_deletes)
  then show ?thesis
    by (simp add: True MemoryStore_Store_def stageDocumentLocked_def Let_def store_wf_def
        gmap_wf_put_all [unfolded put_all_def] keyed_put_all [unfolded put_all_def])
next
  case False
  assume "store_wf s"
  then have "store_wf (deletePendingDocumentSourceLocked (d_TenantID d) (d_KnowledgeBaseID d) (d_SourceURI d)
      (deleteDocumentSourceLocked (d_TenantID d) (d_KnowledgeBaseID d) (d_SourceURI d) s))"
    by (intro store_wf_deletes)
  then show ?thesis
    by (simp add: False MemoryStore_Store_def Let_def store_wf_def
        gmap_wf_put_all [unfolded put_all_def] keyed_put_all [unfolded put_all_def])
qed

lemma commit_fold_wf:
  assumes "gmap_wf chunks" "gmap_wf pending"
  shows "gmap_wf (fst (fold commit_chunk cs (chunks, pending)))" "gmap_wf (snd (fold commit_chunk cs (chunks, pending)))"
  using assms by (induction cs arbitrary: chunks pending) (auto simp: commit_chunk_def split: option.splits)

lemma store_wf_Commit [inv_intros]: "store_wf s \<Longrightarrow> store_wf (CommitActivation d cs s)"
proof (cases "map_of (ms_pendingDocuments s) (d_ID d)")
  case None
  assume "store_wf s"
  then show ?thesis by (simp add: None CommitActivation_def)
next
  case (Some x)
  assume wf: "store_wf s"
  let ?s = "deleteDocumentSourceLocked (d_TenantID d) (d_KnowledgeBaseID d) (d_SourceURI d) s"
  let ?r = "fold commit_chunk cs (ms_chunks ?s, ms_pendingChunks s)"
  have wf': "store_wf ?s" using wf by (rule store_wf_deletes)
  have g: "gmap_wf (ms_chunks ?s)" "gmap_wf (ms_pendingChunks s)" using wf wf' by (simp_all add: store_wf_def)
  note cf = commit_fold [of "ms_pendingChunks s" cs "ms_chunks ?s", OF pending_keyed [OF wf]]
  have "list_all (\<lambda>(i, c). c_ID c = i) (fst ?r)" "list_all (\<lambda>(i, c). c_ID c = i) (snd ?r)"
    using cf pending_keyed [OF wf] chunks_keyed [OF wf'] by (auto intro!: keyedI commit_fold_wf g split: if_splits)
  with commit_fold_wf [OF g] wf wf' show ?thesis
    by (simp add: CommitActivation_def Some Let_def case_prod_unfold store_wf_def)
qed

lemma store_wf_others [inv_intros]:
  "store_wf s \<Longrightarrow> store_wf (PutKnowledgeBase k s)" "store_wf s \<Longrightarrow> store_wf (AbortActivation d s)"
  "store_wf s \<Longrightarrow> store_wf (DeleteDocumentSource t i u s)" "store_wf s \<Longrightarrow> store_wf (StoreGraphRelations rs s)"
  "store_wf s \<Longrightarrow> store_wf (fst (DeleteKnowledgeBase t i s))"
  by (auto simp: PutKnowledgeBase_def AbortActivation_def DeleteDocumentSource_def StoreGraphRelations_def
      DeleteKnowledgeBase_def store_wf_deletes keyed_gdel_where) (auto simp: store_wf_def keyed_gdel_where)

section \<open>Concrete inputs\<close>

definition ex_doc :: "string \<Rightarrow> Document" where
  "ex_doc i = \<lparr>d_ID = i, d_TenantID = ''t'', d_KnowledgeBaseID = ''k'', d_SourceURI = ''file'', d_Title = [],
     d_ContentHash = ''h'', d_IngestionJobID = [], d_Metadata = [], d_CreatedAt = 0\<rparr>"

definition ex_chunk :: "string \<Rightarrow> string \<Rightarrow> Chunk" where
  "ex_chunk i d = \<lparr>c_ID = i, c_TenantID = ''t'', c_KnowledgeBaseID = ''k'', c_DocumentID = d, c_Content = ''go'',
     c_ContextualText = [], c_SourceURI = ''file'', c_Page = 0, c_Section = [], c_Offset = 0, c_Vector = [],
     c_IngestionJobID = [], c_Metadata = []\<rparr>"

definition ex_kb :: KnowledgeBase where
  "ex_kb = \<lparr>kb_ID = ''k'', kb_TenantID = ''t'', kb_ProjectID = [], kb_Name = [], kb_Description = [], kb_Metadata = [],
     kb_CreatedAt = 0, kb_UpdatedAt = 0\<rparr>"

definition ex_store :: MemoryStore where
  "ex_store = MemoryStore_Store False (ex_doc ''d1'') [ex_chunk ''c1'' ''d1''] (PutKnowledgeBase ex_kb NewMemoryStore)"

lemma ex_store_wf: "store_wf ex_store"
  unfolding ex_store_def by (intro inv_intros)

definition ex_req :: SearchRequest where
  "ex_req = \<lparr>sr_TenantID = ''t'', sr_KnowledgeBaseID = ''k'', sr_Query = ''go'', sr_Vector = [], sr_TopK = 3,
     sr_DenseTopK = 0, sr_SparseTopK = 0\<rparr>"

theorem staged_activation_is_store_witness:
  "visible_part (CommitActivation (ex_doc ''d2'') [ex_chunk ''c2'' ''d2'']
       (MemoryStore_Store True (ex_doc ''d2'') [ex_chunk ''c2'' ''d2''] ex_store)) =
     visible_part (MemoryStore_Store False (ex_doc ''d2'') [ex_chunk ''c2'' ''d2''] ex_store) \<and>
   map fst (ms_chunks (MemoryStore_Store False (ex_doc ''d2'') [ex_chunk ''c2'' ''d2''] ex_store)) = [''c2'']"
proof -
  have "d_ID (ex_doc ''d2'') \<noteq> []" "list_all (\<lambda>r. gr_DocumentID r \<noteq> d_ID (ex_doc ''d2'')) (ms_relations ex_store)"
    by code_simp+
  moreover have "map fst (ms_chunks (MemoryStore_Store False (ex_doc ''d2'') [ex_chunk ''c2'' ''d2''] ex_store)) = [''c2'']"
    by code_simp
  ultimately show ?thesis
    using staged_activation_is_store [OF ex_store_wf, of "ex_doc ''d2''" "[ex_chunk ''c2'' ''d2'']"] by blast
qed

lemma hybrid_search_confined_witness:
  "\<exists>rs. HybridRetriever_Retrieve (hybrid_over ascii_tables (\<lambda>t k. MemoryStore_Chunks t k ex_store) 60 5 0 0) ex_req = Inr rs \<and>
     of_scope ''t'' ''k'' rs \<and> id_distinct rs \<and> int (length rs) \<le> 3"
proof -
  let ?r = "hybrid_over ascii_tables (\<lambda>t k. MemoryStore_Chunks t k ex_store) 60 5 0 0"
  obtain rs where rs: "HybridRetriever_Retrieve ?r ex_req = Inr rs"
    by (simp add: HybridRetriever_Retrieve_def RetrieveWithWarnings_def hybrid_over_def Let_def)
  with hybrid_search_confined [OF rs] show ?thesis by (simp add: ex_req_def)
qed

lemma store_replaces_source_witness:
  "c_ID ` set (MemoryStore_Chunks ''t'' ''k'' (MemoryStore_Store False (ex_doc ''d2'') [ex_chunk ''c2'' ''d2''] ex_store)) = {''c2''}"
proof -
  have h: "d_SourceURI (ex_doc ''d2'') \<noteq> []"
    "list_all (\<lambda>c. c_TenantID c = d_TenantID (ex_doc ''d2'') \<and> c_KnowledgeBaseID c = d_KnowledgeBaseID (ex_doc ''d2'')) [ex_chunk ''c2'' ''d2'']"
    by code_simp+
  have f: "list_all (\<lambda>(i, c). c_ID c \<in> c_ID ` set [ex_chunk ''c2'' ''d2''] \<longrightarrow>
      c_TenantID c = d_TenantID (ex_doc ''d2'') \<and> c_KnowledgeBaseID c = d_KnowledgeBaseID (ex_doc ''d2'')) (ms_chunks ex_store)"
    by code_simp
  have old: "MemoryStore_Chunks ''t'' ''k'' ex_store = [(ex_chunk ''c1'' ''d1'')\<lparr>c_Metadata := [(''doc_version'', ''h'')]\<rparr>]"
    "map_of (ms_documents ex_store) ''d1'' = Some (ex_doc ''d1'')"
    by code_simp+
  have "c_ID ` {c \<in> set (MemoryStore_Chunks ''t'' ''k'' ex_store).
      \<not> (\<exists>d'. map_of (ms_documents ex_store) (c_DocumentID c) = Some d' \<and> of_source ''t'' ''k'' (d_SourceURI (ex_doc ''d2'')) d')} = {}"
    unfolding old(1) by (auto simp: ex_chunk_def old(2)) (simp add: ex_doc_def of_source_def)
  moreover have "d_TenantID (ex_doc ''d2'') = ''t''" "d_KnowledgeBaseID (ex_doc ''d2'') = ''k''"
    "c_ID ` set [ex_chunk ''c2'' ''d2''] = {''c2''}"
    by (simp_all add: ex_doc_def ex_chunk_def)
  ultimately show ?thesis
    using store_replaces_source [OF ex_store_wf h f, of "''t''" "''k''"] by (simp only: if_True simp_thms Un_empty_right)
qed

lemma delete_knowledge_base_complete_witness:
  "\<exists>s'. DeleteKnowledgeBase ''t'' ''k'' ex_store = (s', True) \<and> MemoryStore_Chunks ''t'' ''k'' s' = [] \<and>
     map fst (ms_chunks ex_store) = [''c1'']"
proof -
  have c: "snd (DeleteKnowledgeBase ''t'' ''k'' ex_store)" "map fst (ms_chunks ex_store) = [''c1'']" by code_simp+
  obtain s' b where r: "DeleteKnowledgeBase ''t'' ''k'' ex_store = (s', b)" by fastforce
  with c(1) have r: "DeleteKnowledgeBase ''t'' ''k'' ex_store = (s', True)" by simp
  show ?thesis
    by (intro exI conjI) (rule r, rule delete_knowledge_base_complete [OF ex_store_wf r, THEN conjunct2, THEN conjunct1], rule c(2))
qed

end
