(* ===== verification/KBComposite.thy ===== *)
theory KBComposite
  imports KBStoreProps
begin

text \<open>
  The composite indexer of \<^verbatim>\<open>internal/kb/composite.go\<close>: several indexers are brought to a new
  version of a document by staging, preparing, committing and finalizing it on each. An indexer is
  the record of its operations on a state of its own; an error is the list of the messages that
  \<^verbatim>\<open>errors.Join\<close> collected, and the empty list is the nil error.
\<close>

section \<open>The protocol\<close>

record 'st indexer =
  ix_activation :: bool
  ix_Store :: "bool \<Rightarrow> Document \<Rightarrow> Chunk list \<Rightarrow> 'st \<Rightarrow> 'st \<times> string list"
  ix_Prepare :: "Document \<Rightarrow> Chunk list \<Rightarrow> 'st \<Rightarrow> 'st \<times> string list"
  ix_Commit :: "Document \<Rightarrow> Chunk list \<Rightarrow> 'st \<Rightarrow> 'st \<times> string list"
  ix_Abort :: "Document \<Rightarrow> Chunk list \<Rightarrow> 'st \<Rightarrow> 'st \<times> string list"
  ix_Finalize :: "Document \<Rightarrow> Chunk list \<Rightarrow> 'st \<Rightarrow> 'st \<times> string list"
  ix_DeleteDocumentSource :: "(string \<Rightarrow> string \<Rightarrow> string \<Rightarrow> 'st \<Rightarrow> 'st \<times> string list) option"
  ix_StoreGraphRelations :: "(GraphRelation list \<Rightarrow> 'st \<Rightarrow> 'st \<times> string list) option"
  ix_ExpandGraph :: "(GraphExpansionRequest \<Rightarrow> 'st \<Rightarrow> string list + SearchResult list) option"


text \<open>The indexers that are not nil, each with its place.\<close>

fun live_indexers :: "nat \<Rightarrow> 'st indexer option list \<Rightarrow> (nat \<times> 'st indexer) list" where
  "live_indexers n [] = []"
| "live_indexers n (None # xs) = live_indexers (Suc n) xs"
| "live_indexers n (Some p # xs) = (n, p) # live_indexers (Suc n) xs"

text \<open>One phase: every participant in turn until one fails. The participants that succeeded come back.\<close>

fun run_phase ::
  "('st indexer \<Rightarrow> 'st \<Rightarrow> 'st \<times> string list) \<Rightarrow> (nat \<times> 'st indexer) list \<Rightarrow> (nat \<times> 'st indexer) list \<Rightarrow> 'st list \<Rightarrow>
   'st list \<times> (nat \<times> 'st indexer) list \<times> string list" where
  "run_phase f [] done sts = (sts, done, [])"
| "run_phase f ((i, p) # ps) done sts =
     (case f p (sts ! i) of (st, err) \<Rightarrow>
        if err \<noteq> [] then (sts[i := st], done, err) else run_phase f ps (done @ [(i, p)]) (sts[i := st]))"




text \<open>Operations that only some indexers have are passed to those, up to the first error.\<close>

fun dispatch :: "('st indexer \<Rightarrow> ('st \<Rightarrow> 'st \<times> string list) option) \<Rightarrow> (nat \<times> 'st indexer) list \<Rightarrow> 'st list \<Rightarrow> 'st list \<times> string list" where
  "dispatch f [] sts = (sts, [])"
| "dispatch f ((i, p) # ps) sts =
     (case f p of
        None \<Rightarrow> dispatch f ps sts
      | Some g \<Rightarrow> (case g (sts ! i) of (st, err) \<Rightarrow> if err \<noteq> [] then (sts[i := st], err) else dispatch f ps (sts[i := st])))"

definition CompositeIndexer_DeleteDocumentSource ::
  "'st indexer option list \<Rightarrow> string \<Rightarrow> string \<Rightarrow> string \<Rightarrow> 'st list \<Rightarrow> 'st list \<times> string list" where
  "CompositeIndexer_DeleteDocumentSource indexers t k u sts =
     dispatch (\<lambda>p. map_option (\<lambda>g. g t k u) (ix_DeleteDocumentSource p)) (live_indexers 0 indexers) sts"

definition CompositeIndexer_StoreGraphRelations ::
  "'st indexer option list \<Rightarrow> GraphRelation list \<Rightarrow> 'st list \<Rightarrow> 'st list \<times> string list" where
  "CompositeIndexer_StoreGraphRelations indexers rs sts =
     dispatch (\<lambda>p. map_option (\<lambda>g. g rs) (ix_StoreGraphRelations p)) (live_indexers 0 indexers) sts"

text \<open>The first indexer that has a graph answers.\<close>

definition CompositeIndexer_ExpandGraph ::
  "'st indexer option list \<Rightarrow> GraphExpansionRequest \<Rightarrow> 'st list \<Rightarrow> string list + SearchResult list" where
  "CompositeIndexer_ExpandGraph indexers req sts =
     (case find (\<lambda>(i, p). ix_ExpandGraph p \<noteq> None) (live_indexers 0 indexers) of
        None \<Rightarrow> Inr []
      | Some (i, p) \<Rightarrow> (case ix_ExpandGraph p of None \<Rightarrow> Inr [] | Some g \<Rightarrow> g req (sts ! i)))"


section \<open>The contract of a participant\<close>


lemma AbortActivation_visible [simp]: "visible_part (AbortActivation d s) = visible_part s"
  by (simp add: visible_part_def AbortActivation_def)


text \<open>The states agree with what the readers saw before.\<close>

definition same_views :: "('st \<Rightarrow> 'v) \<Rightarrow> 'st list \<Rightarrow> 'st list \<Rightarrow> bool" where
  "same_views view sts sts' \<longleftrightarrow> length sts' = length sts \<and> (\<forall>i < length sts. view (sts' ! i) = view (sts ! i))"

lemma same_views_refl [simp]: "same_views view sts sts"
  by (simp add: same_views_def)








lemma run_phase_done:
  "snd (snd (run_phase f ps done sts)) = [] \<Longrightarrow> fst (snd (run_phase f ps done sts)) = done @ ps"
  by (induction ps arbitrary: "done" sts) (auto simp: case_prod_unfold split: if_splits)




section \<open>All or nothing\<close>








end
