(* ===== verification/Utf8.thy ===== *)
theory Utf8
  imports GoText
begin

text \<open>
  Facts about the UTF-8 functions: encoding a code point and decoding it again gives it back,
  decoding a string gives code points only, and a string can be decoded piece by piece wherever the
  next piece does not begin with a continuation byte.
\<close>

definition scalar :: "rune \<Rightarrow> bool" where
  "scalar r \<longleftrightarrow> r < 0xD800 \<or> 0xDFFF < r \<and> r \<le> 0x10FFFF"

lemma of_char_of [simp]: "n < 256 \<Longrightarrow> (of_char (char_of n :: char) :: nat) = n"
  by simp

lemma mod_offset: "k mod m = 0 \<Longrightarrow> q < m \<Longrightarrow> (k + q) mod m = (q :: nat)"
  by (metis add_0 mod_add_left_eq mod_less)

lemma low6_char [simp]: "m < 64 \<Longrightarrow> low6 (char_of (0x80 + m :: nat)) = m"
  using mod_offset [of 128 64 m] by (simp add: low6_def)

lemma cont_char [simp]: "m < 64 \<Longrightarrow> cont_byte (char_of (0x80 + m :: nat))"
  by (simp add: cont_byte_def)

lemma DecodeRune_two:
  assumes "0xC2 \<le> b" "b \<le> 0xDF" "cont_byte c"
  shows "DecodeRune (char_of (b :: nat) # c # s) = (b mod 32 * 64 + low6 c, 2)"
  using assms by (simp add: DecodeRune_def Let_def lead_width_def second_ok_def)

lemma DecodeRune_three:
  assumes "0xE0 \<le> b" "b \<le> 0xEF" "second_ok b c" "cont_byte c'"
  shows "DecodeRune (char_of (b :: nat) # c # c' # s) = (b mod 16 * 4096 + low6 c * 64 + low6 c', 3)"
  using assms by (simp add: DecodeRune_def Let_def lead_width_def)

lemma DecodeRune_four:
  assumes "0xF0 \<le> b" "b \<le> 0xF4" "second_ok b c" "cont_byte c'" "cont_byte c''"
  shows "DecodeRune (char_of (b :: nat) # c # c' # c'' # s) =
    (b mod 8 * 262144 + low6 c * 4096 + low6 c' * 64 + low6 c'', 4)"
  using assms by (simp add: DecodeRune_def Let_def lead_width_def numeral_2_eq_2)

lemma digits64: "(r :: nat) = r div 4096 * 4096 + r div 64 mod 64 * 64 + r mod 64"
  "(r :: nat) = r div 262144 * 262144 + r div 4096 mod 64 * 4096 + r div 64 mod 64 * 64 + r mod 64"
proof -
  have a: "r = r div 64 * 64 + r mod 64" "r div 64 = r div 4096 * 64 + r div 64 mod 64"
    "r div 4096 = r div 262144 * 64 + r div 4096 mod 64"
    using div_mult_mod_eq [of r 64] div_mult_mod_eq [of "r div 64" 64] div_mult_mod_eq [of "r div 4096" 64]
    by (simp_all add: div_mult2_eq [symmetric, of r])
  then show "r = r div 4096 * 4096 + r div 64 mod 64 * 64 + r mod 64"
    "r = r div 262144 * 262144 + r div 4096 mod 64 * 4096 + r div 64 mod 64 * 64 + r mod 64" by linarith+
qed

text \<open>Encoding and decoding again.\<close>

lemma DecodeRune_EncodeRune:
  assumes "scalar r"
  shows "DecodeRune (EncodeRune r @ s) = (r, length (EncodeRune r))"
proof -
  have norm: "\<not> (r > 0x10FFFF \<or> 0xD800 \<le> r \<and> r \<le> 0xDFFF)" using assms by (auto simp: scalar_def)
  note en = EncodeRune_def [of r, unfolded Let_def if_not_P [OF norm]]
  consider "r < 0x80" | "0x80 \<le> r" "r < 0x800" | "0x800 \<le> r" "r < 0x10000" | "0x10000 \<le> r" by linarith
  then show ?thesis
  proof cases
    case 1
    then show ?thesis by (simp add: en DecodeRune_def lead_width_def Let_def)
  next
    case 2
    let ?q = "r div 64" and ?l = "r mod 64"
    have r: "r = ?q * 64 + ?l" "?l < 64" by simp_all
    then have q: "2 \<le> ?q" "?q < 32" using 2 by linarith+
    have e: "EncodeRune r = [char_of (0xC0 + ?q), char_of (0x80 + ?l)]" using 2 by (simp add: en)
    have "DecodeRune (EncodeRune r @ s) = ((0xC0 + ?q) mod 32 * 64 + ?l, 2)"
      unfolding e append_Cons append_Nil using q r(2) by (subst DecodeRune_two) simp_all
    also have "(0xC0 + ?q) mod 32 = ?q" using q by (intro mod_offset) simp_all
    finally show ?thesis by (simp add: e)
  next
    case 3
    let ?q = "r div 4096" and ?m = "r div 64 mod 64" and ?l = "r mod 64"
    have r: "r = ?q * 4096 + ?m * 64 + ?l" "?m < 64" "?l < 64" using digits64(1) [of r] by simp_all
    then have q: "?q < 16" using 3 by linarith
    have e: "EncodeRune r = [char_of (0xE0 + ?q), char_of (0x80 + ?m), char_of (0x80 + ?l)]"
      using 3 by (simp add: en)
    have lo: "32 \<le> ?m" if "?q = 0" using r 3 that by linarith
    have hi: "?m < 32" if "?q = 13" using r norm that by linarith
    have ok: "second_ok (0xE0 + ?q) (char_of (0x80 + ?m))"
      using q lo hi r(2) by (auto simp: second_ok_def between_def)
    have "DecodeRune (EncodeRune r @ s) = ((0xE0 + ?q) mod 16 * 4096 + ?m * 64 + ?l, 3)"
      unfolding e append_Cons append_Nil using q ok r(2,3) by (subst DecodeRune_three) simp_all
    also have "(0xE0 + ?q) mod 16 = ?q" using q by (intro mod_offset) simp_all
    finally show ?thesis using r(1) by (simp add: e)
  next
    case 4
    let ?q = "r div 262144" and ?m = "r div 4096 mod 64" and ?n = "r div 64 mod 64" and ?l = "r mod 64"
    have r: "r = ?q * 262144 + ?m * 4096 + ?n * 64 + ?l" "?m < 64" "?n < 64" "?l < 64" using digits64(2) [of r] by simp_all
    then have q: "?q \<le> 4" using norm by linarith
    have e: "EncodeRune r = [char_of (0xF0 + ?q), char_of (0x80 + ?m), char_of (0x80 + ?n), char_of (0x80 + ?l)]"
      using 4 by (simp add: en)
    have lo: "16 \<le> ?m" if "?q = 0" using r 4 that by linarith
    have hi: "?m < 16" if "?q = 4" using r norm that by linarith
    have ok: "second_ok (0xF0 + ?q) (char_of (0x80 + ?m))"
      using q lo hi r(2) by (auto simp: second_ok_def between_def)
    have "DecodeRune (EncodeRune r @ s) = ((0xF0 + ?q) mod 8 * 262144 + ?m * 4096 + ?n * 64 + ?l, 4)"
      unfolding e append_Cons append_Nil using q ok r(2-4) by (subst DecodeRune_four) simp_all
    also have "(0xF0 + ?q) mod 8 = ?q" using q by (intro mod_offset) simp_all
    finally show ?thesis using r(1) by (simp add: e)
  qed
qed

lemma EncodeRune_nonempty [simp]: "EncodeRune r \<noteq> []"
  by (simp add: EncodeRune_def Let_def)

lemma runes_EncodeRune: "scalar r \<Longrightarrow> runes (EncodeRune r @ s) = (r, EncodeRune r) # runes s"
  by (subst runes.simps) (simp add: DecodeRune_EncodeRune)

lemma runes_encoded: "list_all scalar rs \<Longrightarrow> runes (concat (map EncodeRune rs) @ s) = map (\<lambda>r. (r, EncodeRune r)) rs @ runes s"
  by (induction rs) (simp_all add: runes_EncodeRune)

subsection \<open>Decoding piece by piece\<close>

text \<open>A byte that is not a continuation byte ends whatever was begun.\<close>

lemma second_not_cont: "\<not> cont_byte c \<Longrightarrow> \<not> second_ok b c"
  by (auto simp: second_ok_def between_def cont_byte_def)

lemma lead_width_le: "lead_width b \<le> 4"
  by (simp add: lead_width_def)

lemma DecodeRune_append:
  assumes "a \<noteq> []" and "b = [] \<or> \<not> cont_byte (hd b)"
  shows "DecodeRune (a @ b) = DecodeRune a"
proof (cases "b = []")
  case False
  then obtain x bs where b: "b = x # bs" "\<not> cont_byte x" using assms(2) by (cases b) auto
  obtain c cs where a: "a = c # cs" using assms(1) by (cases a) auto
  let ?w = "lead_width (of_char c)"
  show ?thesis
  proof (cases "length cs + 1 < ?w")
    case False
    then have "take (?w - 2) (drop 1 (cs @ b)) = take (?w - 2) (drop 1 cs)"
      by (cases cs) (auto simp: take_append)
    moreover have "(cs @ b) ! i = cs ! i" if "i < ?w - 1" for i
    proof -
      have "i < length cs" using that False by linarith
      then show ?thesis by (simp add: nth_append)
    qed
    ultimately show ?thesis using False by (simp add: a DecodeRune_def Let_def)
  next
    case True
    have short: "DecodeRune a = (RuneError, 1)" using True by (simp add: a DecodeRune_def Let_def)
    have "\<not> second_ok (of_char c) ((cs @ b) ! 0) \<or> \<not> list_all cont_byte (take (?w - 2) (drop 1 (cs @ b)))"
    proof (cases cs)
      case Nil
      then show ?thesis using second_not_cont b by simp
    next
      case (Cons y ys)
      have "length ys < ?w - 2" using True Cons by simp
      then obtain n where "?w - 2 = length ys + Suc n" by (metis less_imp_Suc_add add_Suc_right)
      then have "x \<in> set (take (?w - 2) (ys @ x # bs))" by simp
      then show ?thesis using b Cons by (auto simp: list_all_iff)
    qed
    then show ?thesis using True by (auto simp: short a DecodeRune_def Let_def)
  qed
qed simp

lemma runes_append:
  assumes "b = [] \<or> \<not> cont_byte (hd b)"
  shows "runes (a @ b) = runes a @ runes b"
proof (induction a rule: runes.induct)
  case (1 a)
  show ?case
  proof (cases "a = []")
    case False
    obtain r w where d: "DecodeRune a = (r, w)" by fastforce
    with DecodeRune_width [OF False] have w: "w \<le> length a" by simp
    have "runes (a @ b) = (r, take w (a @ b)) # runes (drop w (a @ b))"
      using False by (subst runes.simps) (simp add: DecodeRune_append [OF False assms] d)
    also have "\<dots> = (r, take w a) # runes (drop w a @ b)" using w by simp
    also have "\<dots> = ((r, take w a) # runes (drop w a)) @ runes b" using 1 [OF False d [symmetric]] by simp
    also have "(r, take w a) # runes (drop w a) = runes a" using False by (subst (2) runes.simps) (simp add: d)
    finally show ?thesis .
  qed simp
qed

text \<open>Decoding gives code points.\<close>

lemma low6_less [simp]: "low6 c < 64"
  by (simp add: low6_def)

lemma low6_range: "0x80 \<le> (of_char c :: nat) \<Longrightarrow> (of_char c :: nat) \<le> 0xBF \<Longrightarrow> low6 c = of_char c - 0x80"
  using mod_offset [of 128 64 "of_char c - 128"] by (simp add: low6_def)

lemma second_ok_low6:
  assumes "second_ok b c"
  shows "b = 0xED \<Longrightarrow> low6 c < 32" "b = 0xF0 \<Longrightarrow> 16 \<le> low6 c" "b = 0xF4 \<Longrightarrow> low6 c < 16"
  using assms by (auto simp: second_ok_def between_def low6_range)

lemma three_scalar:
  assumes "0xE0 \<le> b" "b \<le> 0xEF" "second_ok b c"
  shows "scalar (b mod 16 * 4096 + low6 c * 64 + low6 c')"
proof -
  have m: "b mod 16 = b - 0xE0" using mod_offset [of 224 16 "b - 224"] assms by simp
  have l: "low6 c < 64" "low6 c' < 64" by simp_all
  show ?thesis
    unfolding scalar_def m using assms(1,2) l second_ok_low6(1) [OF assms(3)]
    by (cases "b = 0xED"; cases "b < 0xED") linarith+
qed

lemma four_scalar:
  assumes "0xF0 \<le> b" "b \<le> 0xF4" "second_ok b c"
  shows "scalar (b mod 8 * 262144 + low6 c * 4096 + low6 c' * 64 + low6 c'')"
proof -
  have m: "b mod 8 = b - 0xF0" using mod_offset [of 240 8 "b - 240"] assms by simp
  have l: "low6 c < 64" "low6 c' < 64" "low6 c'' < 64" by simp_all
  show ?thesis
    unfolding scalar_def m using assms(1,2) l second_ok_low6(2,3) [OF assms(3)]
    by (cases "b = 0xF0"; cases "b = 0xF4") linarith+
qed

lemma scalar_small: "r < 0xD800 \<Longrightarrow> scalar r" and scalar_RuneError [simp]: "scalar RuneError"
  by (simp_all add: scalar_def RuneError_def)

lemma lead_width_cases:
  "lead_width b = 1 \<and> b < 0x80 \<or> lead_width b = 0 \<or> lead_width b = 2 \<or>
   lead_width b = 3 \<and> 0xE0 \<le> b \<and> b \<le> 0xEF \<or> lead_width b = 4 \<and> 0xF0 \<le> b \<and> b \<le> 0xF4"
  by (simp add: lead_width_def)

lemma DecodeRune_scalar: "scalar (fst (DecodeRune s))"
proof (cases s)
  case Nil
  then show ?thesis by (simp add: DecodeRune_def)
next
  case (Cons c cs)
  let ?b = "of_char c :: nat"
  let ?bad = "\<not> second_ok ?b (cs ! 0) \<or> \<not> list_all cont_byte (take (lead_width ?b - 2) (drop 1 cs))"
  have two: "scalar (?b mod 32 * 64 + low6 x)" for x
  proof (rule scalar_small)
    have "?b mod 32 < 32" "low6 x < 64" by simp_all
    then show "?b mod 32 * 64 + low6 x < 0xD800" by linarith
  qed
  show ?thesis
    using lead_width_cases [of ?b]
    by (elim disjE conjE) (auto simp: Cons DecodeRune_def Let_def scalar_small two three_scalar four_scalar)
qed

lemma runes_scalar: "list_all (\<lambda>(r, bs). scalar r) (runes s)"
proof (induction s rule: runes.induct)
  case (1 s)
  show ?case
  proof (cases "s = []")
    case False
    obtain r w where d: "DecodeRune s = (r, w)" by fastforce
    then show ?thesis using 1 [OF False d [symmetric]] DecodeRune_scalar [of s] False by (simp add: runes.simps [of s])
  qed simp
qed

text \<open>ASCII text is decoded byte by byte.\<close>

lemma runes_ascii [simp]: "(of_char c :: nat) < 0x80 \<Longrightarrow> runes (c # cs) = (of_char c, [c]) # runes cs"
  by (subst runes.simps) (simp add: DecodeRune_def Let_def lead_width_def)

end
