(* ===== verification/Chunker.thy ===== *)
theory Chunker
  imports Utf8
begin

text \<open>
  The chunker of \<^verbatim>\<open>internal/ingest/chunker/chunker.go\<close>: paragraphs are gathered into chunks of at
  most a number of text units, long paragraphs are cut into windows, and a chunk can begin with the
  last units of the one before. What is proved: cutting and joining never changes the text units, so
  without overlap the chunks hold exactly the units of the document in their order, and no chunk
  is larger than the size and the overlap allow.
\<close>

section \<open>Text units\<close>

record textUnit =
  tu_text :: string
  tu_cjk :: bool

definition isCJK :: "unicode_tables \<Rightarrow> rune \<Rightarrow> bool" where
  "isCJK u r \<longleftrightarrow> IsHan u r \<or> IsKanaHangul u r"

definition flushWord :: "string \<Rightarrow> textUnit list" where
  "flushWord word = (if word = [] then [] else [\<lparr>tu_text = word, tu_cjk = False\<rparr>])"

text \<open>The loop over the runes; the accumulator is the word being read.\<close>

fun scan_units :: "unicode_tables \<Rightarrow> rune list \<Rightarrow> string \<Rightarrow> textUnit list" where
  "scan_units u [] word = flushWord word"
| "scan_units u (r # rs) word =
     (if IsSpace r then flushWord word @ scan_units u rs []
      else if isCJK u r then flushWord word @ [\<lparr>tu_text = EncodeRune r, tu_cjk = True\<rparr>] @ scan_units u rs []
      else if IsPunct u r \<or> IsSymbol u r then scan_units u rs (if word \<noteq> [] then word @ EncodeRune r else word)
      else scan_units u rs (word @ EncodeRune r))"

definition textUnits :: "unicode_tables \<Rightarrow> string \<Rightarrow> textUnit list" where
  "textUnits u s = scan_units u (map fst (runes s)) []"

definition TokenCount :: "unicode_tables \<Rightarrow> string \<Rightarrow> nat" where
  "TokenCount u s = length (textUnits u s)"

fun join_after :: "bool \<Rightarrow> textUnit list \<Rightarrow> string" where
  "join_after prev_cjk [] = []"
| "join_after prev_cjk (x # xs) = (if \<not> prev_cjk \<and> \<not> tu_cjk x then '' '' else []) @ tu_text x @ join_after (tu_cjk x) xs"

definition joinUnits :: "textUnit list \<Rightarrow> string" where
  "joinUnits units = (case units of [] \<Rightarrow> [] | x # xs \<Rightarrow> tu_text x @ join_after (tu_cjk x) xs)"

definition tailTokens :: "unicode_tables \<Rightarrow> string \<Rightarrow> nat \<Rightarrow> string" where
  "tailTokens u s n =
     (let units = textUnits u s in if length units \<le> n then joinUnits units else joinUnits (drop (length units - n) units))"

section \<open>Windows of a long paragraph\<close>

text \<open>The loop of \<^verbatim>\<open>splitLongParagraph\<close> from \<open>start\<close> on; the step is positive for every size the caller passes.\<close>

function windows :: "textUnit list \<Rightarrow> nat \<Rightarrow> nat \<Rightarrow> nat \<Rightarrow> string list" where
  "windows units sz step start =
     (if start \<ge> length units \<or> step = 0 then []
      else let stop = min (start + sz) (length units);
               part = TrimSpace (joinUnits (take (stop - start) (drop start units)))
           in (if part \<noteq> [] then [part] else []) @
              (if stop = length units then [] else windows units sz step (start + step)))"
  by pat_completeness auto
termination by (relation "measure (\<lambda>(units, sz, step, start). length units - start)") auto

declare windows.simps [simp del]

definition splitLongParagraph :: "unicode_tables \<Rightarrow> string \<Rightarrow> nat \<Rightarrow> nat \<Rightarrow> string list" where
  "splitLongParagraph u s sz overlap =
     (let units = textUnits u s
      in if length units \<le> sz then [TrimSpace s]
         else windows units sz (if overlap < sz then sz - overlap else sz) 0)"

section \<open>Splitting a document\<close>

record chunk_piece =
  cp_Content :: string
  cp_Section :: string
  cp_Offset :: nat

record Recursive =
  rc_SizeTokens :: int
  rc_OverlapTokens :: int

definition blank_line :: string where
  "blank_line = [CHR 0x0A, CHR 0x0A]"

definition splitParagraphs :: "string \<Rightarrow> string list" where
  "splitParagraphs s = filter (\<lambda>p. p \<noteq> []) (map TrimSpace (Split s blank_line))"

record split_state =
  ss_chunks :: "chunk_piece list"
  ss_current :: string
  ss_offset :: nat
  ss_section :: string

definition flush :: "unicode_tables \<Rightarrow> nat \<Rightarrow> split_state \<Rightarrow> split_state" where
  "flush u overlap st =
     (if TrimSpace (ss_current st) = [] then st
      else let content = TrimSpace (ss_current st)
           in st\<lparr>ss_chunks := ss_chunks st @ [\<lparr>cp_Content = content, cp_Section = ss_section st, cp_Offset = ss_offset st\<rparr>],
                 ss_offset := ss_offset st + RuneCount content,
                 ss_current := (if overlap > 0 then tailTokens u content overlap @ blank_line else [])\<rparr>)"

definition add_part :: "string \<Rightarrow> split_state \<Rightarrow> split_state" where
  "add_part part st =
     st\<lparr>ss_chunks := ss_chunks st @ [\<lparr>cp_Content = part, cp_Section = ss_section st, cp_Offset = ss_offset st\<rparr>],
        ss_offset := ss_offset st + RuneCount part\<rparr>"

definition heading :: "string \<Rightarrow> string" where
  "heading trimmed = TrimSpace (dropWhile (\<lambda>c. c = CHR ''#'' \<or> c = CHR '' '') trimmed)"

definition split_paragraph :: "unicode_tables \<Rightarrow> nat \<Rightarrow> nat \<Rightarrow> string \<Rightarrow> split_state \<Rightarrow> split_state" where
  "split_paragraph u sz overlap p st =
     (let trimmed = TrimSpace p;
          st = (if is_prefix ''#'' trimmed then st\<lparr>ss_section := heading trimmed\<rparr> else st)
      in if TokenCount u trimmed > sz
         then (fold add_part (splitLongParagraph u trimmed sz overlap) (flush u overlap st))\<lparr>ss_current := []\<rparr>
         else let st = (if TokenCount u (ss_current st) + TokenCount u trimmed > sz \<and> ss_current st \<noteq> []
                        then flush u overlap st else st)
              in st\<lparr>ss_current := ss_current st @ trimmed @ blank_line\<rparr>)"

definition eff_size :: "Recursive \<Rightarrow> nat" where
  "eff_size c = nat (if rc_SizeTokens c \<le> 0 then 800 else rc_SizeTokens c)"

definition eff_overlap :: "Recursive \<Rightarrow> nat" where
  "eff_overlap c =
     (let overlap = nat (rc_OverlapTokens c) in if overlap \<ge> eff_size c then eff_size c div 5 else overlap)"

definition Recursive_Split :: "unicode_tables \<Rightarrow> Recursive \<Rightarrow> string \<Rightarrow> chunk_piece list" where
  "Recursive_Split u c markdown =
     (let st = fold (split_paragraph u (eff_size c) (eff_overlap c)) (splitParagraphs markdown)
                 \<lparr>ss_chunks = [], ss_current = [], ss_offset = 0, ss_section = []\<rparr>
      in ss_chunks st @
         (if TrimSpace (ss_current st) \<noteq> []
          then [\<lparr>cp_Content = TrimSpace (ss_current st), cp_Section = ss_section st, cp_Offset = ss_offset st\<rparr>]
          else []))"

section \<open>Text units of pieces\<close>

lemma scan_units_space: "IsSpace r \<Longrightarrow> scan_units u (rs @ r # rs') w = scan_units u rs w @ scan_units u rs' []"
  by (induction rs arbitrary: w) simp_all

text \<open>The encodings of white space are those of the white-space runes.\<close>

definition space_runes :: "rune list" where
  "space_runes = [0x09, 0x0A, 0x0B, 0x0C, 0x0D, 0x20, 0x85, 0xA0, 0x1680] @
     [0x2000, 0x2001, 0x2002, 0x2003, 0x2004, 0x2005, 0x2006, 0x2007, 0x2008, 0x2009, 0x200A, 0x2028, 0x2029, 0x202F] @
     [0x205F, 0x3000]"

lemma eq_char_of: "c = char_of (n :: nat) \<longleftrightarrow> of_char c = n mod 256"
  using char_of_eq_iff [of n c] by (auto simp: take_bit_eq_mod)

lemma white_space_runes: "white_space = map EncodeRune space_runes"
  by (simp add: white_space_def space_runes_def EncodeRune_def Let_def eq_char_of)

lemma space_runes_ok: "list_all (\<lambda>r. IsSpace r \<and> scalar r \<and> \<not> cont_byte (hd (EncodeRune r))) space_runes"
  by (simp add: space_runes_def IsSpace_def scalar_def EncodeRune_def Let_def cont_byte_def)

lemma white_space_rune:
  assumes "w \<in> set white_space"
  obtains r where "IsSpace r" "scalar r" "EncodeRune r = w" "\<not> cont_byte (hd w)" "w \<noteq> []"
proof -
  from assms obtain r where "r \<in> set space_runes" "w = EncodeRune r" by (auto simp: white_space_runes)
  with that [of r] space_runes_ok show thesis by (simp add: list_all_iff)
qed

text \<open>White space separates: the units on both sides do not see each other.\<close>

lemma textUnits_space:
  assumes "w \<in> set white_space"
  shows "textUnits u (a @ w @ b) = textUnits u a @ textUnits u b"
proof -
  obtain r where r: "IsSpace r" "scalar r" "EncodeRune r = w" "\<not> cont_byte (hd w)" "w \<noteq> []"
    using assms by (rule white_space_rune)
  have "runes (a @ w @ b) = runes a @ (r, w) # runes b"
    using r runes_append [of "w @ b" a] runes_EncodeRune [of r b] by (cases w) simp_all
  then show ?thesis using r(1) by (simp add: textUnits_def scan_units_space)
qed

lemma newline_space: "[CHR 0x0A] \<in> set white_space" "'' '' \<in> set white_space"
  by (simp_all add: white_space_def)

lemma textUnits_Nil [simp]: "textUnits u [] = []"
  by (simp add: textUnits_def flushWord_def)

lemma textUnits_blank_line: "textUnits u (a @ blank_line @ b) = textUnits u a @ textUnits u b"
  using textUnits_space [OF newline_space(1), of u a "[CHR 0x0A] @ b"] textUnits_space [OF newline_space(1), of u "[]" b]
  by (simp add: blank_line_def)

lemma textUnits_blank_line_end [simp]: "textUnits u (a @ blank_line) = textUnits u a"
  using textUnits_blank_line [of u a "[]"] by simp

lemma textUnits_TrimLeft: "textUnits u (strip white_space s) = textUnits u s"
proof (induction "white_space" s rule: strip.induct)
  case (1 s)
  show ?case
  proof (cases "find (\<lambda>w. w \<noteq> [] \<and> is_prefix w s) white_space")
    case None
    then show ?thesis by (simp add: strip_id)
  next
    case (Some w)
    then have w: "w \<in> set white_space" "is_prefix w s" by (auto simp: find_Some_iff)
    then obtain t where t: "s = w @ t" by (auto simp: is_prefix_iff)
    have "strip white_space s = strip white_space (drop (length w) s)" using Some by (subst strip.simps) simp
    with 1 [OF Some] t textUnits_space [OF w(1), of u "[]" t] show ?thesis by simp
  qed
qed

lemma textUnits_TrimRight: "textUnits u (rev (strip (map rev white_space) t)) = textUnits u (rev t)"
proof (induction "map rev white_space" t rule: strip.induct)
  case (1 t)
  show ?case
  proof (cases "find (\<lambda>w. w \<noteq> [] \<and> is_prefix w t) (map rev white_space)")
    case None
    then show ?thesis by (simp add: strip_id)
  next
    case (Some w)
    then have "w \<in> set (map rev white_space)" "is_prefix w t" by (auto simp: find_Some_iff)
    then obtain v t' where v: "v \<in> set white_space" "w = rev v" "t = w @ t'" by (auto simp: is_prefix_iff)
    have "strip (map rev white_space) t = strip (map rev white_space) (drop (length w) t)" using Some by (subst strip.simps) simp
    then have "textUnits u (rev (strip (map rev white_space) t)) = textUnits u (rev t')" using 1 [OF Some] v by simp
    also have "\<dots> = textUnits u (rev t)" using v textUnits_space [OF v(1), of u "rev t'" "[]"] by simp
    finally show ?thesis .
  qed
qed

lemma textUnits_TrimSpace [simp]: "textUnits u (TrimSpace s) = textUnits u s"
  by (simp add: TrimSpace_def TrimLeftSpace_def TrimRightSpace_def textUnits_TrimRight textUnits_TrimLeft)

lemma textUnits_Join: "textUnits u (Join ps blank_line) = concat (map (textUnits u) ps)"
  by (induction ps "blank_line" rule: Join.induct) (simp_all add: textUnits_blank_line)

lemma concat_filter_empty: "concat (map f (filter (\<lambda>p. p \<noteq> []) xs)) = concat (map f xs)" if "f [] = []"
  using that by (induction xs) auto

text \<open>The paragraphs hold the units of the document.\<close>

lemma textUnits_paragraphs: "concat (map (textUnits u) (splitParagraphs s)) = textUnits u s"
proof -
  have "concat (map (textUnits u) (splitParagraphs s)) = concat (map (textUnits u) (map TrimSpace (Split s blank_line)))"
    unfolding splitParagraphs_def by (rule concat_filter_empty) simp
  also have "\<dots> = concat (map (textUnits u) (Split s blank_line))" by (simp add: comp_def)
  also have "\<dots> = textUnits u (Join (Split s blank_line) blank_line)" by (rule textUnits_Join [symmetric])
  also have "\<dots> = textUnits u s" by (simp add: Join_Split blank_line_def)
  finally show ?thesis .
qed

section \<open>Joining units\<close>

definition word_rune :: "unicode_tables \<Rightarrow> rune \<Rightarrow> bool" where
  "word_rune u r \<longleftrightarrow> scalar r \<and> \<not> IsSpace r \<and> \<not> isCJK u r"

definition word_text :: "unicode_tables \<Rightarrow> string \<Rightarrow> bool" where
  "word_text u w \<longleftrightarrow> (\<exists>r rs. w = EncodeRune r @ concat (map EncodeRune rs) \<and> word_rune u r \<and>
     \<not> IsPunct u r \<and> \<not> IsSymbol u r \<and> list_all (word_rune u) rs)"

definition good_unit :: "unicode_tables \<Rightarrow> textUnit \<Rightarrow> bool" where
  "good_unit u x \<longleftrightarrow>
     (if tu_cjk x then \<exists>r. tu_text x = EncodeRune r \<and> scalar r \<and> isCJK u r \<and> \<not> IsSpace r else word_text u (tu_text x))"

lemma word_text_snoc: "word_text u w \<Longrightarrow> word_rune u r \<Longrightarrow> word_text u (w @ EncodeRune r)"
proof -
  assume "word_text u w" and r: "word_rune u r"
  then obtain q rs where "w = EncodeRune q @ concat (map EncodeRune rs)" "word_rune u q"
     "\<not> IsPunct u q" "\<not> IsSymbol u q" "list_all (word_rune u) rs" by (auto simp: word_text_def)
  with r show ?thesis unfolding word_text_def by (intro exI [of _ q] exI [of _ "rs @ [r]"]) simp
qed

lemma word_text_single: "word_rune u r \<Longrightarrow> \<not> IsPunct u r \<Longrightarrow> \<not> IsSymbol u r \<Longrightarrow> word_text u (EncodeRune r)"
  unfolding word_text_def by (intro exI [of _ r] exI [of _ "[]"]) simp

lemma scan_units_good:
  "list_all scalar rs \<Longrightarrow> w = [] \<or> word_text u w \<Longrightarrow> list_all (good_unit u) (scan_units u rs w)"
proof (induction rs arbitrary: w)
  case (Cons r rs)
  have f: "list_all (good_unit u) (flushWord w)" using Cons.prems(2) by (auto simp: flushWord_def good_unit_def)
  show ?case
  proof (cases "IsSpace r \<or> isCJK u r")
    case True
    have "list_all (good_unit u) (scan_units u rs [])" using Cons.IH [of "[]"] Cons.prems(1) by simp
    moreover have "good_unit u \<lparr>tu_text = EncodeRune r, tu_cjk = True\<rparr>" if "\<not> IsSpace r"
      unfolding good_unit_def using that True Cons.prems(1) by (simp, intro exI [of _ r]) simp
    ultimately show ?thesis using True f by (cases "IsSpace r") simp_all
  next
    case False
    then have r: "word_rune u r" using Cons.prems(1) by (simp add: word_rune_def)
    have "word_text u (w @ EncodeRune r)" if "w \<noteq> [] \<or> \<not> IsPunct u r \<and> \<not> IsSymbol u r"
      using that Cons.prems(2) word_text_snoc [OF _ r, of w] word_text_single [OF r] by (cases "w = []") simp_all
    then have "list_all (good_unit u) (scan_units u rs (w @ EncodeRune r))" if "w \<noteq> [] \<or> \<not> IsPunct u r \<and> \<not> IsSymbol u r"
      using that Cons.IH [of "w @ EncodeRune r"] Cons.prems(1) by simp
    moreover have "list_all (good_unit u) (scan_units u rs w)" using Cons by simp
    ultimately show ?thesis using False by (cases "w = []") simp_all
  qed
qed (auto simp: flushWord_def good_unit_def)

lemma textUnits_good: "list_all (good_unit u) (textUnits u s)"
  unfolding textUnits_def
  by (rule scan_units_good) (use runes_scalar [of s] in \<open>auto simp: list_all_iff\<close>)

lemma scan_word:
  "list_all (word_rune u) rs \<Longrightarrow> w \<noteq> [] \<Longrightarrow> scan_units u (rs @ rs') w = scan_units u rs' (w @ concat (map EncodeRune rs))"
  by (induction rs arbitrary: w) (simp_all add: word_rune_def)

lemma scan_word_text:
  assumes "word_text u w"
  shows "scan_units u (map fst (runes (w @ s))) [] = scan_units u (map fst (runes s)) w" "w \<noteq> []"
proof -
  obtain r rs where w: "w = EncodeRune r @ concat (map EncodeRune rs)" "word_rune u r"
     "\<not> IsPunct u r" "\<not> IsSymbol u r" "list_all (word_rune u) rs" using assms by (auto simp: word_text_def)
  have "list_all scalar (r # rs)" using w(2,5) by (auto simp: word_rune_def list_all_iff)
  then have "map fst (runes (w @ s)) = r # rs @ map fst (runes s)"
    using runes_encoded [of "r # rs" s] by (simp add: w(1) comp_def)
  then show "scan_units u (map fst (runes (w @ s))) [] = scan_units u (map fst (runes s)) w"
    using w scan_word [OF w(5), of "EncodeRune r" "map fst (runes s)"] by (simp add: word_rune_def)
  show "w \<noteq> []" by (simp add: w(1))
qed

lemma runes_blank: "map fst (runes (CHR '' '' # s)) = 0x20 # map fst (runes s)"
proof -
  have "EncodeRune 0x20 = '' ''" using eq_char_of [where c = "CHR '' ''" and n = "0x20"] by (simp add: EncodeRune_def Let_def)
  then show ?thesis using runes_EncodeRune [of "0x20" s] by (simp add: scalar_def)
qed

lemma scan_join:
  "list_all (good_unit u) xs \<Longrightarrow>
     (word_text u w \<longrightarrow> scan_units u (map fst (runes (join_after False xs))) w = flushWord w @ xs) \<and>
     scan_units u (map fst (runes (join_after True xs))) [] = xs"
proof (induction xs arbitrary: w)
  case (Cons x xs)
  show ?case
  proof (cases "tu_cjk x")
    case True
    then obtain r where r: "tu_text x = EncodeRune r" "scalar r" "isCJK u r" "\<not> IsSpace r"
      using Cons.prems by (auto simp: good_unit_def)
    have "x = \<lparr>tu_text = EncodeRune r, tu_cjk = True\<rparr>" using r(1) True by (cases x) simp
    then show ?thesis using Cons.IH Cons.prems True r by (auto simp: runes_EncodeRune flushWord_def)
  next
    case False
    then have t: "word_text u (tu_text x)" using Cons.prems by (simp add: good_unit_def)
    have sp: "IsSpace 0x20" by (simp add: IsSpace_def)
    have x: "flushWord (tu_text x) = [x]" using scan_word_text(2) [OF t] False by (cases x) (simp add: flushWord_def)
    have "scan_units u (map fst (runes (tu_text x @ join_after False xs))) [] = x # xs"
      using Cons.IH [of "tu_text x"] Cons.prems t x by (simp add: scan_word_text [OF t])
    then show ?thesis using False sp by (simp add: runes_blank)
  qed
qed (auto simp: flushWord_def)

text \<open>Joining units and reading them again gives the same units.\<close>

lemma textUnits_joinUnits: "list_all (good_unit u) xs \<Longrightarrow> textUnits u (joinUnits xs) = xs"
proof (cases xs)
  case (Cons x ys)
  assume g: "list_all (good_unit u) xs"
  have "scan_units u (map fst (runes (join_after True xs))) [] = xs" using scan_join [OF g] by blast
  then show ?thesis by (simp add: Cons joinUnits_def textUnits_def)
qed (simp add: joinUnits_def)

section \<open>Windows\<close>

lemma good_part: "list_all (good_unit u) units \<Longrightarrow> textUnits u (TrimSpace (joinUnits (take n (drop m units)))) = take n (drop m units)"
  by (subst textUnits_TrimSpace, rule textUnits_joinUnits)
    (auto simp: list_all_iff dest!: in_set_takeD in_set_dropD)

lemma TokenCount_tail: "TokenCount u (tailTokens u s n) = min n (TokenCount u s)"
proof -
  have "list_all (good_unit u) (drop m (textUnits u s))" for m
    using textUnits_good [of u s] by (auto simp: list_all_iff dest: in_set_dropD)
  then show ?thesis using textUnits_good [of u s] by (simp add: tailTokens_def TokenCount_def Let_def textUnits_joinUnits)
qed

text \<open>Windows that do not overlap partition the units; every window is at most the size.\<close>

lemma concat_if_empty: "f [] = [] \<Longrightarrow> concat (map f (if x \<noteq> [] then [x] else [])) = f x"
  by simp

lemma windows_partition:
  assumes "list_all (good_unit u) units" and "0 < sz"
  shows "concat (map (textUnits u) (windows units sz sz start)) = drop start units"
proof (induction "length units - start" arbitrary: start rule: less_induct)
  case less
  show ?case
  proof (cases "start \<ge> length units")
    case True
    then show ?thesis by (simp add: windows.simps)
  next
    case False
    let ?stop = "min (start + sz) (length units)"
    let ?part = "TrimSpace (joinUnits (take (?stop - start) (drop start units)))"
    have w: "windows units sz sz start = (if ?part \<noteq> [] then [?part] else []) @
        (if ?stop = length units then [] else windows units sz sz (start + sz))"
      using False assms(2) by (subst windows.simps) (simp add: Let_def)
    have part: "concat (map (textUnits u) (if ?part \<noteq> [] then [?part] else [])) = take (?stop - start) (drop start units)"
      by (subst concat_if_empty) (simp_all only: good_part [OF assms(1)] textUnits_Nil)
    show ?thesis
    proof (cases "?stop = length units")
      case True
      then show ?thesis unfolding w map_append concat_append part by simp
    next
      case more: False
      then have "?stop - start = sz" by simp
      moreover have "concat (map (textUnits u) (windows units sz sz (start + sz))) = drop (start + sz) units"
        using False assms(2) by (intro less) simp
      moreover have "take sz (drop start units) @ drop (start + sz) units = drop start units"
        by (metis append_take_drop_id drop_drop add.commute)
      ultimately show ?thesis unfolding w map_append concat_append part using more by simp
    qed
  qed
qed

lemma windows_bound:
  assumes "list_all (good_unit u) units"
  shows "list_all (\<lambda>p. TokenCount u p \<le> sz) (windows units sz step start)"
proof (induction "length units - start" arbitrary: start rule: less_induct)
  case less
  show ?case
  proof (cases "start \<ge> length units \<or> step = 0")
    case True
    then show ?thesis by (subst windows.simps) simp
  next
    case False
    then have "list_all (\<lambda>p. TokenCount u p \<le> sz) (windows units sz step (start + step))"
      by (intro less) linarith
    moreover define part where "part = TrimSpace (joinUnits (take (min (start + sz) (length units) - start) (drop start units)))"
    then have "TokenCount u part \<le> sz" by (simp only: TokenCount_def good_part [OF assms]) simp
    moreover have "windows units sz step start = (if part \<noteq> [] then [part] else []) @
        (if min (start + sz) (length units) = length units then [] else windows units sz step (start + step))"
      using False unfolding part_def by (subst windows.simps) (simp only: Let_def if_False simp_thms)
    ultimately show ?thesis by simp
  qed
qed

section \<open>The chunks of a document\<close>

definition chunk_units :: "unicode_tables \<Rightarrow> chunk_piece list \<Rightarrow> textUnit list" where
  "chunk_units u cs = concat (map (\<lambda>c. textUnits u (cp_Content c)) cs)"

lemma chunk_units_simps [simp]:
  "chunk_units u [] = []" "chunk_units u (cs @ cs') = chunk_units u cs @ chunk_units u cs'"
  "chunk_units u [c] = textUnits u (cp_Content c)"
  by (simp_all add: chunk_units_def)

text \<open>What has been read so far: the finished chunks and the current text.\<close>

definition read_units :: "unicode_tables \<Rightarrow> split_state \<Rightarrow> textUnit list" where
  "read_units u st = chunk_units u (ss_chunks st) @ textUnits u (ss_current st)"

definition closed :: "string \<Rightarrow> bool" where
  "closed s \<longleftrightarrow> s = [] \<or> (\<exists>t. s = t @ blank_line)"

lemma closed_simps [simp]: "closed []" "closed (t @ blank_line)"
  by (auto simp: closed_def)

lemma textUnits_closed: "closed a \<Longrightarrow> textUnits u (a @ b) = textUnits u a @ textUnits u b"
  by (auto simp: closed_def textUnits_blank_line)

lemma textUnits_trimmed_empty: "TrimSpace s = [] \<Longrightarrow> textUnits u s = []"
  by (metis textUnits_Nil textUnits_TrimSpace)

lemma flush_closed: "closed (ss_current st) \<Longrightarrow> closed (ss_current (flush u ov st))"
  by (simp add: flush_def Let_def)

lemma flush_units: "read_units u (flush u 0 st) = read_units u st" "textUnits u (ss_current (flush u 0 st)) = []"
  by (auto simp: flush_def Let_def read_units_def textUnits_trimmed_empty)

lemma add_parts_units:
  "chunk_units u (ss_chunks (fold add_part ps st)) = chunk_units u (ss_chunks st) @ concat (map (textUnits u) ps)"
  "ss_current (fold add_part ps st) = ss_current st"
  by (induction ps arbitrary: st) (simp_all add: add_part_def)

lemma splitLong_units: "0 < sz \<Longrightarrow> concat (map (textUnits u) (splitLongParagraph u s sz 0)) = textUnits u s"
  by (simp add: splitLongParagraph_def Let_def windows_partition textUnits_good)

lemma split_paragraph_units:
  assumes "0 < sz" and "closed (ss_current st)"
  shows "read_units u (split_paragraph u sz 0 p st) = read_units u st @ textUnits u p \<and> closed (ss_current (split_paragraph u sz 0 p st))"
proof -
  define st1 where "st1 = (if is_prefix ''#'' (TrimSpace p) then st\<lparr>ss_section := heading (TrimSpace p)\<rparr> else st)"
  have st1: "read_units u st1 = read_units u st" "closed (ss_current st1)" using assms(2) by (simp_all add: st1_def read_units_def)
  show ?thesis
  proof (cases "TokenCount u (TrimSpace p) > sz")
    case True
    then have "split_paragraph u sz 0 p st =
        (fold add_part (splitLongParagraph u (TrimSpace p) sz 0) (flush u 0 st1))\<lparr>ss_current := []\<rparr>"
      by (simp add: split_paragraph_def Let_def st1_def)
    moreover have "chunk_units u (ss_chunks (flush u 0 st1)) = read_units u st"
      using flush_units [of u st1] st1 by (simp add: read_units_def)
    ultimately show ?thesis using assms(1) by (simp add: read_units_def add_parts_units splitLong_units)
  next
    case False
    obtain st2 where st2: "split_paragraph u sz 0 p st = st2\<lparr>ss_current := ss_current st2 @ TrimSpace p @ blank_line\<rparr>"
      "st2 = st1 \<or> st2 = flush u 0 st1"
      using False by (auto simp: split_paragraph_def Let_def st1_def)
    then have "closed (ss_current st2)" "read_units u st2 = read_units u st"
      using st1 flush_units(1) [of u st1] flush_closed [of st1 u 0] by auto
    then show ?thesis
      using st2(1) textUnits_closed [of "ss_current st2" u "TrimSpace p @ blank_line"]
      by (simp add: read_units_def closed_simps(2) [of "ss_current st2 @ TrimSpace p", simplified])
  qed
qed

text \<open>
  C22 (roundtrip). Without overlap, chunking neither loses nor repeats nor reorders text: reading the text
  units of the chunks one after the other gives exactly the text units of the document, for every
  chunk size, every document (any bytes) and any Unicode tables.
\<close>

theorem chunks_preserve_text:
  assumes "rc_OverlapTokens c \<le> 0"
  shows "concat (map (\<lambda>p. textUnits u (cp_Content p)) (Recursive_Split u c markdown)) = textUnits u markdown"
proof -
  have sz: "0 < eff_size c" by (simp add: eff_size_def)
  have ov: "eff_overlap c = 0" using assms sz by (simp add: eff_overlap_def)
  let ?init = "\<lparr>ss_chunks = [], ss_current = [], ss_offset = 0, ss_section = []\<rparr>"
  have fold: "read_units u (fold (split_paragraph u (eff_size c) 0) ps st) = read_units u st @ concat (map (textUnits u) ps)"
    if "closed (ss_current st)" for ps st
    using that split_paragraph_units [OF sz] by (induction ps arbitrary: st) simp_all
  let ?st = "fold (split_paragraph u (eff_size c) 0) (splitParagraphs markdown) ?init"
  have "concat (map (\<lambda>p. textUnits u (cp_Content p)) (Recursive_Split u c markdown)) = read_units u ?st"
    using textUnits_trimmed_empty [of "ss_current ?st" u]
    by (simp add: Recursive_Split_def ov Let_def read_units_def chunk_units_def)
  also have "\<dots> = textUnits u markdown" by (subst fold) (simp_all add: read_units_def textUnits_paragraphs)
  finally show ?thesis .
qed

subsection \<open>The size of a chunk\<close>

definition sized :: "unicode_tables \<Rightarrow> nat \<Rightarrow> split_state \<Rightarrow> bool" where
  "sized u n st \<longleftrightarrow> list_all (\<lambda>p. TokenCount u (cp_Content p) \<le> n) (ss_chunks st) \<and> TokenCount u (ss_current st) \<le> n \<and>
     closed (ss_current st)"

lemma TokenCount_simps [simp]:
  "TokenCount u (TrimSpace s) = TokenCount u s" "TokenCount u [] = 0" "TokenCount u (s @ blank_line) = TokenCount u s"
  by (simp_all add: TokenCount_def)

lemma TokenCount_trimmed_empty: "TrimSpace s = [] \<Longrightarrow> TokenCount u s = 0"
  by (simp add: TokenCount_def textUnits_trimmed_empty)

lemma flush_sized: "sized u n st \<Longrightarrow> ov \<le> n \<Longrightarrow> sized u n (flush u ov st) \<and> TokenCount u (ss_current (flush u ov st)) \<le> ov"
  by (auto simp: sized_def flush_def Let_def TokenCount_tail TokenCount_trimmed_empty)

lemma add_parts_sized:
  "list_all (\<lambda>p. TokenCount u p \<le> n) ps \<Longrightarrow> sized u n st \<Longrightarrow> sized u n (fold add_part ps st)"
  by (induction ps arbitrary: st) (simp_all add: add_part_def sized_def)

lemma splitLong_bound: "list_all (\<lambda>p. TokenCount u p \<le> sz) (splitLongParagraph u s sz ov)"
  by (simp add: splitLongParagraph_def Let_def windows_bound textUnits_good TokenCount_def [symmetric])

lemma split_paragraph_sized:
  assumes "sized u (sz + ov) st"
  shows "sized u (sz + ov) (split_paragraph u sz ov p st)"
proof -
  define st1 where "st1 = (if is_prefix ''#'' (TrimSpace p) then st\<lparr>ss_section := heading (TrimSpace p)\<rparr> else st)"
  have st1: "sized u (sz + ov) st1" using assms by (simp add: st1_def sized_def)
  note fl = flush_sized [OF st1, of ov]
  show ?thesis
  proof (cases "TokenCount u (TrimSpace p) > sz")
    case True
    have "list_all (\<lambda>p. TokenCount u p \<le> sz + ov) (splitLongParagraph u (TrimSpace p) sz ov)"
      using splitLong_bound [of u sz "TrimSpace p" ov] by (auto simp: list_all_iff)
    then have "sized u (sz + ov) (fold add_part (splitLongParagraph u (TrimSpace p) sz ov) (flush u ov st1))"
      using fl by (intro add_parts_sized) simp_all
    then show ?thesis using True by (simp add: split_paragraph_def Let_def st1_def sized_def)
  next
    case False
    define full where "full \<longleftrightarrow> TokenCount u (ss_current st1) + TokenCount u (TrimSpace p) > sz \<and> ss_current st1 \<noteq> []"
    define st2 where "st2 = (if full then flush u ov st1 else st1)"
    have sp: "split_paragraph u sz ov p st = st2\<lparr>ss_current := ss_current st2 @ TrimSpace p @ blank_line\<rparr>"
      using False unfolding split_paragraph_def Let_def st2_def full_def st1_def by simp
    have "sized u (sz + ov) st2" using st1 fl by (simp add: st2_def)
    moreover have "TokenCount u (ss_current st2) + TokenCount u (TrimSpace p) \<le> sz + ov"
      using False fl by (cases full) (auto simp: st2_def full_def)
    ultimately show ?thesis
      using textUnits_closed [of "ss_current st2" u "TrimSpace p @ blank_line"]
      by (simp add: sp sized_def TokenCount_def closed_simps(2) [of "ss_current st2 @ TrimSpace p", simplified])
  qed
qed

text \<open>
  C23 (bounds). No chunk holds more text units than the configured size and overlap together; without
  overlap none exceeds the size.
\<close>

theorem chunk_size_bound:
  "list_all (\<lambda>p. TokenCount u (cp_Content p) \<le> eff_size c + eff_overlap c) (Recursive_Split u c markdown)"
proof -
  let ?init = "\<lparr>ss_chunks = [], ss_current = [], ss_offset = 0, ss_section = []\<rparr>"
  have "sized u (eff_size c + eff_overlap c) (fold (split_paragraph u (eff_size c) (eff_overlap c)) ps st)"
    if "sized u (eff_size c + eff_overlap c) st" for ps st
    using that by (induction ps arbitrary: st) (simp_all add: split_paragraph_sized)
  from this [of ?init] show ?thesis by (simp add: Recursive_Split_def Let_def sized_def)
qed

definition ex_markdown :: string where
  "ex_markdown = ''a b'' @ blank_line @ ''c d''"

theorem chunks_preserve_text_witness:
  "concat (map (\<lambda>p. textUnits ascii_tables (cp_Content p))
     (Recursive_Split ascii_tables \<lparr>rc_SizeTokens = 2, rc_OverlapTokens = 0\<rparr> ex_markdown)) = textUnits ascii_tables ex_markdown"
  by (rule chunks_preserve_text) simp

text \<open>
  A heading that does not fit into the current chunk any more renames that chunk: the text before
  the heading is emitted as a chunk whose section is the new heading, because the section is set
  before the text gathered so far is flushed.
\<close>

lemma heading_renames_previous_chunk:
  assumes "is_prefix ''#'' (TrimSpace p)" and "TrimSpace (ss_current st) \<noteq> []"
    and "TokenCount u (ss_current st) + TokenCount u p > sz" and "TokenCount u p \<le> sz"
  shows "\<exists>c. ss_chunks (split_paragraph u sz ov p st) = ss_chunks st @ [c] \<and>
    cp_Content c = TrimSpace (ss_current st) \<and> cp_Section c = heading (TrimSpace p)"
proof -
  have "ss_current st \<noteq> []" using assms(2) by auto
  then show ?thesis using assms by (simp add: split_paragraph_def Let_def flush_def)
qed

lemma heading_renames_previous_chunk_witness:
  "\<exists>c. ss_chunks (split_paragraph ascii_tables 1 0 ''# B''
      \<lparr>ss_chunks = [], ss_current = ''a'', ss_offset = 0, ss_section = ''A''\<rparr>) = [c] \<and>
    cp_Content c = ''a'' \<and> cp_Section c = ''B''"
proof -
  have t: "TrimSpace ''# B'' = ''# B''" "TrimSpace ''a'' = ''a''" "heading ''# B'' = ''B''" by code_simp+
  have n: "TokenCount ascii_tables ''# B'' = 1" "TokenCount ascii_tables ''a'' = 1"
    by (simp_all add: TokenCount_def textUnits_def IsSpace_def isCJK_def IsHan_def IsKanaHangul_def IsPunct_def IsSymbol_def
        code_points_def flushWord_def)
  show ?thesis
    using heading_renames_previous_chunk [of "''# B''" "\<lparr>ss_chunks = [], ss_current = ''a'', ss_offset = 0, ss_section = ''A''\<rparr>" 1 ascii_tables 0]
    by (simp add: t n)
qed

end
