(* ===== verification/OptExpr.thy ===== *)
theory OptExpr
  imports "GoText" "Float64"
begin

text \<open>
  The expression language of \<^verbatim>\<open>internal/optimizer/expression.go\<close>, in which an optimisation run
  states its objective and its constraints: the lexer, the recursive-descent parser and the
  evaluator over \<^verbatim>\<open>float64\<close>.

  The lexer reads bytes, not code points: \<^verbatim>\<open>rune(input[i])\<close> is the Latin-1 character of one byte,
  so the predicates of the package \<^verbatim>\<open>unicode\<close> are needed on that range only. The parser works on
  the tokens from \<^verbatim>\<open>p.pos\<close> on. Its functions call each other and loop, so they carry fuel, and
  \<open>None\<close> is the run that has not returned; a theorem gives an amount of fuel that always suffices.
\<close>

section \<open>Tokens\<close>

datatype tokenType =
    tokenEOF | tokenNumber | tokenIdentifier | tokenPlus | tokenMinus | tokenStar | tokenSlash
  | tokenLeftParen | tokenRightParen | tokenComma

record token =
  tk_typ :: tokenType
  tk_literal :: string

abbreviation tok :: "tokenType \<Rightarrow> string \<Rightarrow> token" where
  "tok t l \<equiv> \<lparr>tk_typ = t, tk_literal = l\<rparr>"

text \<open>
  The messages of \<^verbatim>\<open>validationError\<close>, each with its argument, and the run-time panic of an access to
  \<^verbatim>\<open>p.tokens\<close> out of range.
\<close>

datatype expr_error =
    MissingVariable string | DivisionByZero | UnsupportedOperator | UnexpectedToken string
  | InvalidNumber string | InvalidCharacter string | FunctionCallsNotAllowed | UnknownVariable string
  | MissingClosingParenthesis | ResultNotFinite | TokenIndexPanic

section \<open>Numbers\<close>

text \<open>\<^verbatim>\<open>unicode.IsSpace\<close>, \<^verbatim>\<open>IsLetter\<close> and \<^verbatim>\<open>IsDigit\<close> of the Latin-1 character of a byte.\<close>

definition byte_space :: "char \<Rightarrow> bool" where
  "byte_space c = IsSpace (of_char c)"

definition byte_letter :: "char \<Rightarrow> bool" where
  "byte_letter c =
     (let r = of_char c :: nat
      in 0x41 \<le> r \<and> r \<le> 0x5A \<or> 0x61 \<le> r \<and> r \<le> 0x7A \<or> r = 0xAA \<or> r = 0xB5 \<or> r = 0xBA \<or>
         0xC0 \<le> r \<and> r \<noteq> 0xD7 \<and> r \<noteq> 0xF7)"

definition byte_digit :: "char \<Rightarrow> bool" where
  "byte_digit c = (let r = of_char c :: nat in 0x30 \<le> r \<and> r \<le> 0x39)"

definition isIdentStart :: "char \<Rightarrow> bool" where
  "isIdentStart c \<longleftrightarrow> byte_letter c \<or> c = CHR ''_''"

definition isIdentPart :: "char \<Rightarrow> bool" where
  "isIdentPart c \<longleftrightarrow> isIdentStart c \<or> byte_digit c"

fun digits_value :: "int \<Rightarrow> string \<Rightarrow> int" where
  "digits_value n [] = n"
| "digits_value n (c # cs) = digits_value (10 * n + (of_char c - 48)) cs"

text \<open>
  \<^verbatim>\<open>strconv.ParseFloat\<close> of digits with at most one point, the only literals that reach it: the
  nearest value, and an error beyond the largest one.
\<close>

definition ParseFloat :: "string \<Rightarrow> float64 option" where
  "ParseFloat s =
     (let a = takeWhile (\<lambda>c. c \<noteq> CHR ''.'') s; b = drop (length a + 1) s
      in if a @ b \<noteq> [] \<and> list_all byte_digit (a @ b)
         then case fround (of_int (digits_value 0 (a @ b)) / 10 ^ length b) of
                Fin x \<Rightarrow> Some (Fin x) | _ \<Rightarrow> None
         else None)"

section \<open>The lexer\<close>

text \<open>
  The inner loop over a number: \<open>lit\<close> is \<^verbatim>\<open>input[start:i]\<close>, and the result is the literal with the
  rest of the input, or the error of a second point.
\<close>

fun lex_number :: "string \<Rightarrow> bool \<Rightarrow> string \<Rightarrow> expr_error + string \<times> string" where
  "lex_number lit dotSeen [] = Inr (lit, [])"
| "lex_number lit dotSeen (next # cs) =
     (if next = CHR ''.''
      then if dotSeen then Inl (InvalidNumber (lit @ [next])) else lex_number (lit @ [next]) True cs
      else if \<not> byte_digit next then Inr (lit, next # cs)
      else lex_number (lit @ [next]) dotSeen cs)"

lemma lex_number_rest: "lex_number lit d s = Inr (l, r) \<Longrightarrow> length r \<le> length s"
  by (induction lit d s rule: lex_number.induct) (auto split: if_splits)

definition single_tokens :: "(char \<times> tokenType) list" where
  "single_tokens =
     [(CHR ''+'', tokenPlus), (CHR ''-'', tokenMinus), (CHR ''*'', tokenStar), (CHR ''/'', tokenSlash),
      (CHR ''('', tokenLeftParen), (CHR '')'', tokenRightParen), (CHR '','', tokenComma)]"

function lexExpression_from :: "string \<Rightarrow> token list \<Rightarrow> expr_error + token list" where
  "lexExpression_from [] tokens = Inr (tokens @ [tok tokenEOF []])"
| "lexExpression_from (r # cs) tokens =
     (if byte_space r then lexExpression_from cs tokens
      else if isIdentStart r
      then lexExpression_from (dropWhile isIdentPart cs) (tokens @ [tok tokenIdentifier (r # takeWhile isIdentPart cs)])
      else if byte_digit r \<or> r = CHR ''.''
      then case lex_number [r] (r = CHR ''.'') cs of
             Inl e \<Rightarrow> Inl e
           | Inr (lit, rest) \<Rightarrow>
               if lit = ''.'' then Inl (InvalidCharacter ''.'')
               else if ParseFloat lit = None then Inl (InvalidNumber lit)
               else lexExpression_from rest (tokens @ [tok tokenNumber lit])
      else case map_of single_tokens r of
             Some t \<Rightarrow> lexExpression_from cs (tokens @ [tok t [r]])
           | None \<Rightarrow> Inl (InvalidCharacter (EncodeRune (of_char r))))"
  by pat_completeness auto
termination
  by (relation "measure (\<lambda>(s, tokens). length s)")
     (auto simp: length_dropWhile_le less_Suc_eq_le dest: lex_number_rest)

definition lexExpression :: "string \<Rightarrow> expr_error + token list" where
  "lexExpression input = lexExpression_from input []"

section \<open>Syntax trees and evaluation\<close>

datatype expressionNode =
    numberNode float64
  | variableNode string
  | unaryNode tokenType expressionNode
  | binaryNode tokenType expressionNode expressionNode

type_synonym variables = "(string, float64) gomap"

definition binary_op :: "tokenType \<Rightarrow> float64 \<Rightarrow> float64 \<Rightarrow> expr_error + float64" where
  "binary_op op left right =
     (case op of
        tokenPlus \<Rightarrow> Inr (fadd left right)
      | tokenMinus \<Rightarrow> Inr (fsub left right)
      | tokenStar \<Rightarrow> Inr (fmul left right)
      | tokenSlash \<Rightarrow> if feq right (Fin 0) then Inl DivisionByZero else Inr (fdiv left right)
      | _ \<Rightarrow> Inl UnsupportedOperator)"

fun node_evaluate :: "expressionNode \<Rightarrow> variables \<Rightarrow> expr_error + float64" where
  "node_evaluate (numberNode n) vars = Inr n"
| "node_evaluate (variableNode n) vars =
     (case map_of vars n of None \<Rightarrow> Inl (MissingVariable n) | Some value \<Rightarrow> Inr value)"
| "node_evaluate (unaryNode op node) vars =
     (case node_evaluate node vars of
        Inl err \<Rightarrow> Inl err
      | Inr value \<Rightarrow> if op = tokenMinus then Inr (fneg value) else Inr value)"
| "node_evaluate (binaryNode op left right) vars =
     (case node_evaluate left vars of
        Inl err \<Rightarrow> Inl err
      | Inr l \<Rightarrow> (case node_evaluate right vars of Inl err \<Rightarrow> Inl err | Inr r \<Rightarrow> binary_op op l r))"

text \<open>\<^verbatim>\<open>math.Round\<close>: to the nearest integer, halves away from zero.\<close>

definition round_away :: "rat \<Rightarrow> int" where
  "round_away x = (if x < 0 then - \<lfloor>- x + 1 / 2\<rfloor> else \<lfloor>x + 1 / 2\<rfloor>)"

fun math_Round :: "float64 \<Rightarrow> float64" where
  "math_Round (Fin x) = Fin (of_int (round_away x))"
| "math_Round x = x"

definition MaxFloat64 :: rat where
  "MaxFloat64 = (2 ^ 53 - 1) * 2 ^ 971"

definition round_scale :: rat where
  "round_scale = 10 ^ 12"

definition roundFloat :: "float64 \<Rightarrow> float64" where
  "roundFloat value =
     (case value of
        Fin x \<Rightarrow>
          if flt (fround (MaxFloat64 / round_scale)) (fabs value) then value
          else fdiv (math_Round (fmul value (Fin round_scale))) (Fin round_scale)
      | _ \<Rightarrow> value)"

fun is_finite :: "float64 \<Rightarrow> bool" where
  "is_finite (Fin x) = True"
| "is_finite x = False"

definition Evaluate :: "expressionNode \<Rightarrow> variables \<Rightarrow> expr_error + float64" where
  "Evaluate e vars =
     (case node_evaluate e vars of
        Inl err \<Rightarrow> Inl err
      | Inr value \<Rightarrow>
          let value = roundFloat value in if is_finite value then Inr value else Inl ResultNotFinite)"

section \<open>The parser\<close>

text \<open>
  \<^verbatim>\<open>p.current()\<close>, whose value \<open>k\<close> uses: the tokens from \<^verbatim>\<open>p.pos\<close> on start with it, and when there is
  none left the index is out of range and the code panics.
\<close>

definition with_current :: "token list \<Rightarrow> (token \<Rightarrow> (expr_error + 'a) option) \<Rightarrow> (expr_error + 'a) option" where
  "with_current ts k = (case ts of [] \<Rightarrow> Some (Inl TokenIndexPanic) | t # _ \<Rightarrow> k t)"

lemma with_current_simps [simp]:
  "with_current [] k = Some (Inl TokenIndexPanic)"
  "with_current (t # ts) k = k t"
  by (simp_all add: with_current_def)

text \<open>\<^verbatim>\<open>p.advance()\<close> after \<^verbatim>\<open>p.current()\<close>: \<^verbatim>\<open>p.pos\<close> never moves past the last token.\<close>

definition p_advance :: "token list \<Rightarrow> token list" where
  "p_advance ts = (if length ts > 1 then tl ts else ts)"

type_synonym parse_result = "(expr_error + expressionNode \<times> token list) option"

definition and_then :: "parse_result \<Rightarrow> (expressionNode \<Rightarrow> token list \<Rightarrow> parse_result) \<Rightarrow> parse_result" where
  "and_then r k =
     (case r of None \<Rightarrow> None | Some (Inl e) \<Rightarrow> Some (Inl e) | Some (Inr (node, ts)) \<Rightarrow> k node ts)"

lemma and_then_simps [simp]:
  "and_then None k = None"
  "and_then (Some (Inl e)) k = Some (Inl e)"
  "and_then (Some (Inr (node, ts))) k = k node ts"
  by (simp_all add: and_then_def)

text \<open>The value of a literal, whose error the lexer has excluded.\<close>

definition number_value :: "string \<Rightarrow> float64" where
  "number_value lit = (case ParseFloat lit of Some v \<Rightarrow> v | None \<Rightarrow> Fin 0)"

text \<open>
  The methods of the parser. They call each other in one cycle, from \<^verbatim>\<open>parsePrimary\<close> back to
  \<^verbatim>\<open>parseExpression\<close>, which is the argument \<open>expr\<close> here until the cycle is closed below.
\<close>

definition parsePrimary :: "string list \<Rightarrow> (token list \<Rightarrow> parse_result) \<Rightarrow> token list \<Rightarrow> parse_result" where
  "parsePrimary allowed expr p =
     with_current p (\<lambda>t.
       if tk_typ t = tokenNumber then Some (Inr (numberNode (number_value (tk_literal t)), p_advance p))
       else if tk_typ t = tokenIdentifier
       then with_current (p_advance p) (\<lambda>next.
              if tk_typ next = tokenLeftParen then Some (Inl FunctionCallsNotAllowed)
              else if \<not> List.member allowed (tk_literal t) then Some (Inl (UnknownVariable (tk_literal t)))
              else Some (Inr (variableNode (tk_literal t), p_advance p)))
       else if tk_typ t = tokenLeftParen
       then and_then (expr (p_advance p))
              (\<lambda>node p. with_current p (\<lambda>close.
                 if tk_typ close \<noteq> tokenRightParen then Some (Inl MissingClosingParenthesis)
                 else Some (Inr (node, p_advance p))))
       else Some (Inl (UnexpectedToken (tk_literal t))))"

primrec parseUnary ::
  "string list \<Rightarrow> (token list \<Rightarrow> parse_result) \<Rightarrow> nat \<Rightarrow> token list \<Rightarrow> parse_result" where
  "parseUnary allowed expr 0 p = None"
| "parseUnary allowed expr (Suc n) p =
     with_current p (\<lambda>t.
       if tk_typ t = tokenPlus \<or> tk_typ t = tokenMinus
       then and_then (parseUnary allowed expr n (p_advance p)) (\<lambda>node p. Some (Inr (unaryNode (tk_typ t) node, p)))
       else parsePrimary allowed expr p)"

text \<open>The loop of \<^verbatim>\<open>parseMultiplicative\<close>, entered with the factors read so far.\<close>

primrec multiplicative_loop ::
  "string list \<Rightarrow> (token list \<Rightarrow> parse_result) \<Rightarrow> nat \<Rightarrow> expressionNode \<Rightarrow> token list \<Rightarrow> parse_result" where
  "multiplicative_loop allowed expr 0 left p = None"
| "multiplicative_loop allowed expr (Suc n) left p =
     with_current p (\<lambda>t.
       if tk_typ t = tokenStar \<or> tk_typ t = tokenSlash
       then and_then (parseUnary allowed expr n (p_advance p))
              (\<lambda>right p. multiplicative_loop allowed expr n (binaryNode (tk_typ t) left right) p)
       else Some (Inr (left, p)))"

definition parseMultiplicative ::
  "string list \<Rightarrow> (token list \<Rightarrow> parse_result) \<Rightarrow> nat \<Rightarrow> token list \<Rightarrow> parse_result" where
  "parseMultiplicative allowed expr n p =
     and_then (parseUnary allowed expr n p) (\<lambda>left p. multiplicative_loop allowed expr n left p)"

primrec additive_loop ::
  "string list \<Rightarrow> (token list \<Rightarrow> parse_result) \<Rightarrow> nat \<Rightarrow> expressionNode \<Rightarrow> token list \<Rightarrow> parse_result" where
  "additive_loop allowed expr 0 left p = None"
| "additive_loop allowed expr (Suc n) left p =
     with_current p (\<lambda>t.
       if tk_typ t = tokenPlus \<or> tk_typ t = tokenMinus
       then and_then (parseMultiplicative allowed expr n (p_advance p))
              (\<lambda>right p. additive_loop allowed expr n (binaryNode (tk_typ t) left right) p)
       else Some (Inr (left, p)))"

definition parseAdditive ::
  "string list \<Rightarrow> (token list \<Rightarrow> parse_result) \<Rightarrow> nat \<Rightarrow> token list \<Rightarrow> parse_result" where
  "parseAdditive allowed expr n p =
     and_then (parseMultiplicative allowed expr n p) (\<lambda>left p. additive_loop allowed expr n left p)"

primrec parseExpression :: "string list \<Rightarrow> nat \<Rightarrow> token list \<Rightarrow> parse_result" where
  "parseExpression allowed 0 p = None"
| "parseExpression allowed (Suc n) p = parseAdditive allowed (parseExpression allowed n) n p"

text \<open>Every call and every turn of a loop is paid by a token.\<close>

definition parse_fuel :: "token list \<Rightarrow> nat" where
  "parse_fuel ts = length ts + 1"

definition parse_tokens :: "string list \<Rightarrow> token list \<Rightarrow> (expr_error + expressionNode) option" where
  "parse_tokens allowed tokens =
     (case parseExpression allowed (parse_fuel tokens) tokens of
        None \<Rightarrow> None
      | Some (Inl err) \<Rightarrow> Some (Inl err)
      | Some (Inr (e, p)) \<Rightarrow>
          with_current p (\<lambda>t. if tk_typ t \<noteq> tokenEOF then Some (Inl (UnexpectedToken (tk_literal t))) else Some (Inr e)))"

definition compileExpression :: "string list \<Rightarrow> string \<Rightarrow> (expr_error + expressionNode) option" where
  "compileExpression allowed input =
     (case lexExpression input of Inl err \<Rightarrow> Some (Inl err) | Inr tokens \<Rightarrow> parse_tokens allowed tokens)"

end
