(* ===== verification/OptExprProps.thy ===== *)
theory OptExprProps
  imports OptExpr
begin

text \<open>
  Properties of the expression language: the parser always returns, it accepts exactly the
  sentences of the grammar it implements and builds their tree, and a compiled expression
  evaluates without any error but the two that depend on its numbers.
\<close>

section \<open>The parser always returns\<close>

text \<open>The parser reads tokens that end with the end-of-input token.\<close>

definition eof_ended :: "token list \<Rightarrow> bool" where
  "eof_ended ts \<longleftrightarrow> ts \<noteq> [] \<and> tk_typ (last ts) = tokenEOF"

lemma with_current_hd [simp]: "p \<noteq> [] \<Longrightarrow> with_current p k = k (hd p)"
  by (cases p) simp_all

lemma with_current_eof_ended [simp]: "eof_ended p \<Longrightarrow> with_current p k = k (hd p)"
  by (cases p) (simp_all add: eof_ended_def)

lemma advance_Cons [simp]: "ts \<noteq> [] \<Longrightarrow> p_advance (t # ts) = ts"
  by (simp add: p_advance_def)

lemma eof_ended_advance:
  assumes "eof_ended p" "tk_typ (hd p) \<noteq> tokenEOF"
  shows "eof_ended (p_advance p)" "length (p_advance p) = length p - 1" "length p > 1"
proof -
  from assms obtain t ts where "p = t # ts" "ts \<noteq> []"
    by (cases p) (auto simp: eof_ended_def split: if_splits)
  with assms(1) show "eof_ended (p_advance p)" "length (p_advance p) = length p - 1" "length p > 1"
    by (auto simp: eof_ended_def)
qed

text \<open>A parse that returns, without a panic, with fewer than \<open>k\<close> tokens left.\<close>

definition returns :: "nat \<Rightarrow> parse_result \<Rightarrow> bool" where
  "returns k r \<longleftrightarrow>
     (case r of None \<Rightarrow> False | Some (Inl e) \<Rightarrow> e \<noteq> TokenIndexPanic | Some (Inr (node, q)) \<Rightarrow> eof_ended q \<and> length q < k)"

lemma returns_simps [simp]:
  "\<not> returns k None"
  "returns k (Some (Inl e)) \<longleftrightarrow> e \<noteq> TokenIndexPanic"
  "returns k (Some (Inr (node, q))) \<longleftrightarrow> eof_ended q \<and> length q < k"
  by (simp_all add: returns_def)

lemma returns_and_then:
  assumes "returns k r" "\<And>node q. eof_ended q \<Longrightarrow> length q < k \<Longrightarrow> returns k' (f node q)"
  shows "returns k' (and_then r f)"
  using assms by (auto simp: returns_def [of k r] and_then_def split: option.splits sum.splits)

lemma parsePrimary_returns:
  assumes "eof_ended p" "eof_ended (p_advance p) \<Longrightarrow> length (p_advance p) < length p \<Longrightarrow> returns (length p) (expr (p_advance p))"
  shows "returns (length p) (parsePrimary al expr p)"
proof (cases "tk_typ (hd p) = tokenEOF")
  case True
  then show ?thesis using assms(1) by (simp add: parsePrimary_def)
next
  case False
  note adv = eof_ended_advance [OF assms(1) False]
  have "returns (length p) (and_then (expr (p_advance p))
      (\<lambda>node p. with_current p (\<lambda>c. if tk_typ c \<noteq> tokenRightParen then Some (Inl MissingClosingParenthesis)
                else Some (Inr (node, p_advance p)))))"
  proof (rule returns_and_then)
    show "returns (length p) (expr (p_advance p))" using adv assms(2) by simp
    show "returns (length p) (with_current q (\<lambda>c. if tk_typ c \<noteq> tokenRightParen then Some (Inl MissingClosingParenthesis)
                else Some (Inr (node, p_advance q))))" if "eof_ended q" "length q < length p" for node q
      using eof_ended_advance [OF that(1)] that by auto
  qed
  with adv assms(1) show ?thesis by (auto simp: parsePrimary_def)
qed

text \<open>What the methods rely on of \<^verbatim>\<open>parseExpression\<close> on shorter inputs.\<close>

definition expr_returns :: "nat \<Rightarrow> (token list \<Rightarrow> parse_result) \<Rightarrow> bool" where
  "expr_returns k expr \<longleftrightarrow> (\<forall>p. eof_ended p \<longrightarrow> length p < k \<longrightarrow> returns (length p) (expr p))"

lemma returns_mono: "returns k r \<Longrightarrow> k \<le> k' \<Longrightarrow> returns k' r"
  by (auto simp: returns_def split: option.splits sum.splits)

lemma parseUnary_returns:
  assumes "expr_returns k expr"
  shows "eof_ended p \<Longrightarrow> length p \<le> n \<Longrightarrow> length p \<le> k \<Longrightarrow> returns (length p) (parseUnary al expr n p)"
proof (induction n arbitrary: p)
  case 0
  then show ?case by (simp add: eof_ended_def)
next
  case (Suc n)
  show ?case
  proof (cases "tk_typ (hd p) = tokenPlus \<or> tk_typ (hd p) = tokenMinus")
    case True
    then have "tk_typ (hd p) \<noteq> tokenEOF" by auto
    note adv = eof_ended_advance [OF Suc.prems(1) this]
    have "returns (length p) (and_then (parseUnary al expr n (p_advance p))
        (\<lambda>node q. Some (Inr (unaryNode (tk_typ (hd p)) node, q))))"
      by (rule returns_and_then [OF Suc.IH]) (use adv Suc.prems in auto)
    with True Suc.prems(1) show ?thesis by simp
  next
    case False
    have "returns (length p) (parsePrimary al expr p)"
      by (rule parsePrimary_returns [OF Suc.prems(1)])
        (use assms Suc.prems(3) returns_mono in \<open>fastforce simp: expr_returns_def\<close>)
    with False Suc.prems(1) show ?thesis by simp
  qed
qed

lemma multiplicative_loop_returns:
  assumes "expr_returns k expr"
  shows "eof_ended p \<Longrightarrow> length p \<le> n \<Longrightarrow> length p \<le> k \<Longrightarrow>
    returns (Suc (length p)) (multiplicative_loop al expr n left p)"
proof (induction n arbitrary: p left)
  case 0
  then show ?case by (simp add: eof_ended_def)
next
  case (Suc n)
  show ?case
  proof (cases "tk_typ (hd p) = tokenStar \<or> tk_typ (hd p) = tokenSlash")
    case True
    then have "tk_typ (hd p) \<noteq> tokenEOF" by auto
    note adv = eof_ended_advance [OF Suc.prems(1) this]
    have "returns (Suc (length p)) (and_then (parseUnary al expr n (p_advance p))
        (\<lambda>right q. multiplicative_loop al expr n (binaryNode (tk_typ (hd p)) left right) q))"
    proof (rule returns_and_then [OF parseUnary_returns [OF assms]])
      fix right q
      assume "eof_ended q" "length q < length (p_advance p)"
      with adv Suc show "returns (Suc (length p)) (multiplicative_loop al expr n (binaryNode (tk_typ (hd p)) left right) q)"
        by (intro returns_mono [OF Suc.IH]) auto
    qed (use adv Suc.prems in auto)
    with True Suc.prems(1) show ?thesis by simp
  next
    case False
    with Suc.prems show ?thesis by simp
  qed
qed

lemma parseMultiplicative_returns:
  assumes "expr_returns k expr" "eof_ended p" "length p \<le> n" "length p \<le> k"
  shows "returns (length p) (parseMultiplicative al expr n p)"
  unfolding parseMultiplicative_def
proof (rule returns_and_then [OF parseUnary_returns [OF assms]])
  fix node q
  assume "eof_ended q" "length q < length p"
  with assms show "returns (length p) (multiplicative_loop al expr n node q)"
    by (intro returns_mono [OF multiplicative_loop_returns [OF assms(1)]]) auto
qed

lemma additive_loop_returns:
  assumes "expr_returns k expr"
  shows "eof_ended p \<Longrightarrow> length p \<le> n \<Longrightarrow> length p \<le> k \<Longrightarrow>
    returns (Suc (length p)) (additive_loop al expr n left p)"
proof (induction n arbitrary: p left)
  case 0
  then show ?case by (simp add: eof_ended_def)
next
  case (Suc n)
  show ?case
  proof (cases "tk_typ (hd p) = tokenPlus \<or> tk_typ (hd p) = tokenMinus")
    case True
    then have "tk_typ (hd p) \<noteq> tokenEOF" by auto
    note adv = eof_ended_advance [OF Suc.prems(1) this]
    have "returns (Suc (length p)) (and_then (parseMultiplicative al expr n (p_advance p))
        (\<lambda>right q. additive_loop al expr n (binaryNode (tk_typ (hd p)) left right) q))"
    proof (rule returns_and_then [OF parseMultiplicative_returns [OF assms]])
      fix right q
      assume "eof_ended q" "length q < length (p_advance p)"
      with adv Suc show "returns (Suc (length p)) (additive_loop al expr n (binaryNode (tk_typ (hd p)) left right) q)"
        by (intro returns_mono [OF Suc.IH]) auto
    qed (use adv Suc.prems in auto)
    with True Suc.prems(1) show ?thesis by simp
  next
    case False
    with Suc.prems show ?thesis by simp
  qed
qed

lemma parseAdditive_returns:
  assumes "expr_returns k expr" "eof_ended p" "length p \<le> n" "length p \<le> k"
  shows "returns (length p) (parseAdditive al expr n p)"
  unfolding parseAdditive_def
proof (rule returns_and_then [OF parseMultiplicative_returns [OF assms]])
  fix node q
  assume "eof_ended q" "length q < length p"
  with assms show "returns (length p) (additive_loop al expr n node q)"
    by (intro returns_mono [OF additive_loop_returns [OF assms(1)]]) auto
qed

lemma parseExpression_returns: "expr_returns n (parseExpression al n)"
proof (induction n)
  case 0
  then show ?case by (simp add: expr_returns_def)
next
  case (Suc n)
  then show ?case using parseAdditive_returns [OF Suc] by (auto simp: expr_returns_def [of "Suc n"])
qed

section \<open>The grammar\<close>

text \<open>
  The language the parser is written for: sums of products of signed primaries, both
  operators grouping to the left, over the allowed variables.
\<close>

inductive gram_add :: "string list \<Rightarrow> token list \<Rightarrow> expressionNode \<Rightarrow> bool"
  and gram_mul :: "string list \<Rightarrow> token list \<Rightarrow> expressionNode \<Rightarrow> bool"
  and gram_unary :: "string list \<Rightarrow> token list \<Rightarrow> expressionNode \<Rightarrow> bool"
  and gram_primary :: "string list \<Rightarrow> token list \<Rightarrow> expressionNode \<Rightarrow> bool"
  for al :: "string list"
where
  add_one: "gram_mul al ts e \<Longrightarrow> gram_add al ts e"
| add_op: "gram_add al ts l \<Longrightarrow> tk_typ t = tokenPlus \<or> tk_typ t = tokenMinus \<Longrightarrow> gram_mul al us r \<Longrightarrow>
    gram_add al (ts @ t # us) (binaryNode (tk_typ t) l r)"
| mul_one: "gram_unary al ts e \<Longrightarrow> gram_mul al ts e"
| mul_op: "gram_mul al ts l \<Longrightarrow> tk_typ t = tokenStar \<or> tk_typ t = tokenSlash \<Longrightarrow> gram_unary al us r \<Longrightarrow>
    gram_mul al (ts @ t # us) (binaryNode (tk_typ t) l r)"
| unary_one: "gram_primary al ts e \<Longrightarrow> gram_unary al ts e"
| unary_op: "tk_typ t = tokenPlus \<or> tk_typ t = tokenMinus \<Longrightarrow> gram_unary al ts e \<Longrightarrow>
    gram_unary al (t # ts) (unaryNode (tk_typ t) e)"
| prim_number: "tk_typ t = tokenNumber \<Longrightarrow> gram_primary al [t] (numberNode (number_value (tk_literal t)))"
| prim_variable: "tk_typ t = tokenIdentifier \<Longrightarrow> tk_literal t \<in> set al \<Longrightarrow>
    gram_primary al [t] (variableNode (tk_literal t))"
| prim_paren: "tk_typ t = tokenLeftParen \<Longrightarrow> gram_add al ts e \<Longrightarrow> tk_typ u = tokenRightParen \<Longrightarrow>
    gram_primary al (t # ts @ [u]) e"

section \<open>Soundness of the parser\<close>

text \<open>A successful parse has read a sentence of a nonterminal.\<close>

definition reads :: "(token list \<Rightarrow> expressionNode \<Rightarrow> bool) \<Rightarrow> token list \<Rightarrow> parse_result \<Rightarrow> bool" where
  "reads G p r \<longleftrightarrow> (\<forall>e q. r = Some (Inr (e, q)) \<longrightarrow> q \<noteq> [] \<and> (\<exists>ts. p = ts @ q \<and> G ts e))"

lemma reads_simps [simp]:
  "reads G p None" "reads G p (Some (Inl err))"
  "reads G p (Some (Inr (e, q))) \<longleftrightarrow> q \<noteq> [] \<and> (\<exists>ts. p = ts @ q \<and> G ts e)"
  by (simp_all add: reads_def)

lemma reads_and_then:
  assumes "reads G p r" "\<And>e q ts. q \<noteq> [] \<Longrightarrow> p = ts @ q \<Longrightarrow> G ts e \<Longrightarrow> reads H p' (f e q)"
  shows "reads H p' (and_then r f)"
  using assms by (auto simp: reads_def [of G] and_then_def split: option.splits sum.splits)

lemma reads_mono: "reads G p r \<Longrightarrow> (\<And>ts e. G ts e \<Longrightarrow> H ts e) \<Longrightarrow> reads H p r"
  unfolding reads_def by blast

lemma reads_append: "reads (\<lambda>vs e. H (ts @ vs) e) q r \<Longrightarrow> reads H (ts @ q) r"
  unfolding reads_def by (metis append.assoc)

lemma eof_ended_append: "eof_ended (ts @ q) \<Longrightarrow> q \<noteq> [] \<Longrightarrow> eof_ended q"
  by (simp add: eof_ended_def)

lemma eof_ended_Cons:
  assumes "eof_ended p" "tk_typ (hd p) \<noteq> tokenEOF"
  obtains t ts where "p = t # ts" "ts \<noteq> []" "eof_ended ts"
  using assms by (cases p) (auto simp: eof_ended_def split: if_splits)

definition expr_reads :: "string list \<Rightarrow> (token list \<Rightarrow> parse_result) \<Rightarrow> bool" where
  "expr_reads al expr \<longleftrightarrow> (\<forall>p. eof_ended p \<longrightarrow> reads (gram_add al) p (expr p))"

lemma parsePrimary_reads:
  assumes "expr_reads al expr" "eof_ended p"
  shows "reads (gram_primary al) p (parsePrimary al expr p)"
proof (cases "tk_typ (hd p) = tokenEOF")
  case True
  then show ?thesis using assms(2) by (simp add: parsePrimary_def)
next
  case False
  with assms(2) obtain t ts where p: "p = t # ts" "ts \<noteq> []" "eof_ended ts" by (rule eof_ended_Cons)
  have "reads (gram_primary al) p (and_then (expr ts)
      (\<lambda>node p. with_current p (\<lambda>c. if tk_typ c \<noteq> tokenRightParen then Some (Inl MissingClosingParenthesis)
                else Some (Inr (node, p_advance p)))))" if paren: "tk_typ t = tokenLeftParen"
  proof (rule reads_and_then [where G = "gram_add al" and p = ts])
    show "reads (gram_add al) ts (expr ts)" using assms(1) p by (simp add: expr_reads_def)
    fix e q us
    assume q: "q \<noteq> []" "ts = us @ q" "gram_add al us e"
    show "reads (gram_primary al) p (with_current q (\<lambda>c. if tk_typ c \<noteq> tokenRightParen then Some (Inl MissingClosingParenthesis)
                else Some (Inr (e, p_advance q))))"
    proof (cases "tk_typ (hd q) = tokenRightParen")
      case True
      have "eof_ended q" using p(3) q by (simp add: eof_ended_append)
      moreover have "tk_typ (hd q) \<noteq> tokenEOF" using True by simp
      ultimately obtain u rest where u: "q = u # rest" "rest \<noteq> []" by (rule eof_ended_Cons)
      have "gram_primary al (t # us @ [u]) e" by (rule prim_paren) (use True u q paren in simp_all)
      moreover have "p = (t # us @ [u]) @ rest" using p q u by simp
      ultimately have "reads (gram_primary al) p (Some (Inr (e, rest)))" using u by (simp only: reads_simps) blast
      with True u show ?thesis by simp
    qed (use q(1) in simp)
  qed
  moreover have "reads (gram_primary al) p (Some (Inr (numberNode (number_value (tk_literal t)), ts)))"
    if "tk_typ t = tokenNumber" using prim_number [OF that] p by auto
  moreover have "reads (gram_primary al) p (Some (Inr (variableNode (tk_literal t), ts)))"
    if "tk_typ t = tokenIdentifier" "tk_literal t \<in> set al" using prim_variable [OF that] p by auto
  ultimately show ?thesis
    using p by (simp add: parsePrimary_def Let_def List.member_iff del: reads_simps(3))
qed

lemma parseUnary_reads:
  assumes "expr_reads al expr"
  shows "eof_ended p \<Longrightarrow> reads (gram_unary al) p (parseUnary al expr n p)"
proof (induction n arbitrary: p)
  case (Suc n)
  show ?case
  proof (cases "tk_typ (hd p) = tokenPlus \<or> tk_typ (hd p) = tokenMinus")
    case True
    then have "tk_typ (hd p) \<noteq> tokenEOF" by auto
    with Suc.prems obtain t ts where p: "p = t # ts" "ts \<noteq> []" "eof_ended ts" by (rule eof_ended_Cons)
    have "reads (gram_unary al) p (and_then (parseUnary al expr n ts) (\<lambda>node q. Some (Inr (unaryNode (tk_typ t) node, q))))"
      by (rule reads_and_then [OF Suc.IH]) (use p True unary_op in auto)
    with True p show ?thesis by (simp add: Let_def)
  next
    case False
    with reads_mono [OF parsePrimary_reads [OF assms Suc.prems] unary_one] Suc.prems show ?thesis by simp
  qed
qed simp

lemma multiplicative_loop_reads:
  assumes "expr_reads al expr"
  shows "eof_ended p \<Longrightarrow> gram_mul al us left \<Longrightarrow>
    reads (\<lambda>ts e. gram_mul al (us @ ts) e) p (multiplicative_loop al expr n left p)"
proof (induction n arbitrary: p left us)
  case (Suc n)
  show ?case
  proof (cases "tk_typ (hd p) = tokenStar \<or> tk_typ (hd p) = tokenSlash")
    case True
    then have "tk_typ (hd p) \<noteq> tokenEOF" by auto
    with Suc.prems(1) obtain t ts where p: "p = t # ts" "ts \<noteq> []" "eof_ended ts" by (rule eof_ended_Cons)
    have "reads (\<lambda>ts e. gram_mul al (us @ ts) e) p (and_then (parseUnary al expr n ts)
      (\<lambda>right q. multiplicative_loop al expr n (binaryNode (tk_typ t) left right) q))"
    proof (rule reads_and_then [OF parseUnary_reads [OF assms p(3)]])
      fix e q vs
      assume q: "q \<noteq> []" "ts = vs @ q" "gram_unary al vs e"
      have "gram_mul al (us @ t # vs) (binaryNode (tk_typ t) left e)"
        using Suc.prems(2) True p q by (auto intro: mul_op)
      from Suc.IH [OF _ this, of q] q p
      have "reads (\<lambda>ws e. gram_mul al (us @ (t # vs) @ ws) e) q (multiplicative_loop al expr n (binaryNode (tk_typ t) left e) q)"
        by (simp add: eof_ended_append)
      from reads_append [OF this] show
        "reads (\<lambda>ts e. gram_mul al (us @ ts) e) p (multiplicative_loop al expr n (binaryNode (tk_typ t) left e) q)"
        using p q by simp
    qed
    with True p show ?thesis by (simp add: Let_def)
  next
    case False
    with Suc.prems show ?thesis by (simp add: eof_ended_def)
  qed
qed simp

lemma parseMultiplicative_reads:
  assumes "expr_reads al expr" "eof_ended p"
  shows "reads (gram_mul al) p (parseMultiplicative al expr n p)"
  unfolding parseMultiplicative_def
proof (rule reads_and_then [OF parseUnary_reads [OF assms]])
  fix e q ts
  assume q: "q \<noteq> []" "p = ts @ q" "gram_unary al ts e"
  then have "eof_ended q" using assms(2) by (simp add: eof_ended_append)
  from reads_append [OF multiplicative_loop_reads [OF assms(1) this mul_one [OF q(3)]]]
  show "reads (gram_mul al) p (multiplicative_loop al expr n e q)" using q by simp
qed

lemma additive_loop_reads:
  assumes "expr_reads al expr"
  shows "eof_ended p \<Longrightarrow> gram_add al us left \<Longrightarrow>
    reads (\<lambda>ts e. gram_add al (us @ ts) e) p (additive_loop al expr n left p)"
proof (induction n arbitrary: p left us)
  case (Suc n)
  show ?case
  proof (cases "tk_typ (hd p) = tokenPlus \<or> tk_typ (hd p) = tokenMinus")
    case True
    then have "tk_typ (hd p) \<noteq> tokenEOF" by auto
    with Suc.prems(1) obtain t ts where p: "p = t # ts" "ts \<noteq> []" "eof_ended ts" by (rule eof_ended_Cons)
    have "reads (\<lambda>ts e. gram_add al (us @ ts) e) p (and_then (parseMultiplicative al expr n ts)
      (\<lambda>right q. additive_loop al expr n (binaryNode (tk_typ t) left right) q))"
    proof (rule reads_and_then [OF parseMultiplicative_reads [OF assms p(3)]])
      fix e q vs
      assume q: "q \<noteq> []" "ts = vs @ q" "gram_mul al vs e"
      have "gram_add al (us @ t # vs) (binaryNode (tk_typ t) left e)"
        using Suc.prems(2) True p q by (auto intro: add_op)
      from Suc.IH [OF _ this, of q] q p
      have "reads (\<lambda>ws e. gram_add al (us @ (t # vs) @ ws) e) q (additive_loop al expr n (binaryNode (tk_typ t) left e) q)"
        by (simp add: eof_ended_append)
      from reads_append [OF this] show
        "reads (\<lambda>ts e. gram_add al (us @ ts) e) p (additive_loop al expr n (binaryNode (tk_typ t) left e) q)"
        using p q by simp
    qed
    with True p show ?thesis by (simp add: Let_def)
  next
    case False
    with Suc.prems show ?thesis by (simp add: eof_ended_def)
  qed
qed simp

lemma parseAdditive_reads:
  assumes "expr_reads al expr" "eof_ended p"
  shows "reads (gram_add al) p (parseAdditive al expr n p)"
  unfolding parseAdditive_def
proof (rule reads_and_then [OF parseMultiplicative_reads [OF assms]])
  fix e q ts
  assume q: "q \<noteq> []" "p = ts @ q" "gram_mul al ts e"
  then have "eof_ended q" using assms(2) by (simp add: eof_ended_append)
  from reads_append [OF additive_loop_reads [OF assms(1) this add_one [OF q(3)]]]
  show "reads (gram_add al) p (additive_loop al expr n e q)" using q by simp
qed

lemma parseExpression_reads: "expr_reads al (parseExpression al n)"
proof (induction n)
  case (Suc n)
  show ?case unfolding expr_reads_def using parseAdditive_reads [OF Suc] by simp
qed (simp add: expr_reads_def)

section \<open>Completeness of the parser\<close>

text \<open>More fuel changes no result.\<close>

definition extends :: "parse_result \<Rightarrow> parse_result \<Rightarrow> bool" where
  "extends r r' \<longleftrightarrow> r = None \<or> r = r'"

definition expr_extends :: "(token list \<Rightarrow> parse_result) \<Rightarrow> (token list \<Rightarrow> parse_result) \<Rightarrow> bool" where
  "expr_extends f g \<longleftrightarrow> (\<forall>p. extends (f p) (g p))"

lemma extends_refl [simp]: "extends r r" and extends_None [simp]: "extends None r"
  by (simp_all add: extends_def)

lemma extends_and_then:
  "extends r r' \<Longrightarrow> (\<And>e q. extends (f e q) (g e q)) \<Longrightarrow> extends (and_then r f) (and_then r' g)"
  by (auto simp: extends_def [of r] and_then_def split: option.splits sum.splits)

lemma extends_with_current: "(\<And>t. extends (k t) (k' t)) \<Longrightarrow> extends (with_current p k) (with_current p k')"
  by (cases p) simp_all

lemmas extends_steps = extends_and_then extends_with_current

lemma parsePrimary_extends:
  "expr_extends f g \<Longrightarrow> extends (parsePrimary al f p) (parsePrimary al g p)"
  by (simp add: parsePrimary_def expr_extends_def extends_steps)

lemma parseUnary_extends:
  "expr_extends f g \<Longrightarrow> n \<le> m \<Longrightarrow> extends (parseUnary al f n p) (parseUnary al g m p)"
proof (induction n arbitrary: m p)
  case (Suc n)
  then obtain m' where "m = Suc m'" "n \<le> m'" by (cases m) auto
  with Suc show ?case by (simp add: extends_steps parsePrimary_extends)
qed simp

lemma multiplicative_loop_extends:
  "expr_extends f g \<Longrightarrow> n \<le> m \<Longrightarrow> extends (multiplicative_loop al f n e p) (multiplicative_loop al g m e p)"
proof (induction n arbitrary: m e p)
  case (Suc n)
  then obtain m' where "m = Suc m'" "n \<le> m'" by (cases m) auto
  with Suc show ?case by (simp add: extends_steps parseUnary_extends)
qed simp

lemma parseMultiplicative_extends:
  "expr_extends f g \<Longrightarrow> n \<le> m \<Longrightarrow> extends (parseMultiplicative al f n p) (parseMultiplicative al g m p)"
  by (simp add: parseMultiplicative_def extends_and_then parseUnary_extends multiplicative_loop_extends)

lemma additive_loop_extends:
  "expr_extends f g \<Longrightarrow> n \<le> m \<Longrightarrow> extends (additive_loop al f n e p) (additive_loop al g m e p)"
proof (induction n arbitrary: m e p)
  case (Suc n)
  then obtain m' where "m = Suc m'" "n \<le> m'" by (cases m) auto
  with Suc show ?case by (simp add: extends_steps parseMultiplicative_extends)
qed simp

lemma parseAdditive_extends:
  "expr_extends f g \<Longrightarrow> n \<le> m \<Longrightarrow> extends (parseAdditive al f n p) (parseAdditive al g m p)"
  by (simp add: parseAdditive_def extends_and_then parseMultiplicative_extends additive_loop_extends)

lemma parseExpression_extends: "n \<le> m \<Longrightarrow> expr_extends (parseExpression al n) (parseExpression al m)"
proof (induction n arbitrary: m)
  case 0
  then show ?case by (simp add: expr_extends_def)
next
  case (Suc n)
  then obtain m' where "m = Suc m'" "n \<le> m'" by (cases m) auto
  with parseAdditive_extends [OF Suc.IH [OF this(2)] this(2), of al] show ?case by (simp add: expr_extends_def)
qed

text \<open>What a method returns whenever the cycle and the loops have enough fuel.\<close>

definition yields :: "string list \<Rightarrow> ((token list \<Rightarrow> parse_result) \<Rightarrow> nat \<Rightarrow> parse_result) \<Rightarrow>
    expr_error + expressionNode \<times> token list \<Rightarrow> bool" where
  "yields al M r \<longleftrightarrow> (\<exists>N. \<forall>k\<ge>N. \<forall>m\<ge>N. M (parseExpression al k) m = Some r)"

lemma yields_now: "(\<And>x m. M x (Suc m) = Some r) \<Longrightarrow> yields al M r"
  unfolding yields_def by (rule exI [of _ 1]) (metis Suc_le_D One_nat_def)

lemma yields_step:
  assumes "yields al M r" "\<And>x m. M' x (Suc m) = and_then (M x m) (\<lambda>e q. K e q x m)"
    "\<And>x m e q. r = Inr (e, q) \<Longrightarrow> yields al (K e q) r'" "r = Inr (e, q)"
  shows "yields al M' r'"
proof -
  from assms(1,4) obtain N where N: "\<And>k m. k \<ge> N \<Longrightarrow> m \<ge> N \<Longrightarrow> M (parseExpression al k) m = Some (Inr (e, q))"
    unfolding yields_def by blast
  from assms(3) [OF assms(4)] obtain N' where
    N': "\<And>k m. k \<ge> N' \<Longrightarrow> m \<ge> N' \<Longrightarrow> K e q (parseExpression al k) m = Some r'"
    unfolding yields_def by blast
  have "M' (parseExpression al k) m = Some r'" if "k \<ge> Suc (max N N')" "m \<ge> Suc (max N N')" for k m
  proof -
    from that obtain m' where "m = Suc m'" "m' \<ge> N" "m' \<ge> N'" by (cases m) auto
    with that N N' assms(2) show ?thesis by simp
  qed
  then show ?thesis unfolding yields_def by blast
qed

text \<open>The same for a method that spends no fuel of its own.\<close>

lemma yields_seq:
  assumes "yields al M (Inr (e, q))" "\<And>x m. M' x m = and_then (M x m) (\<lambda>e q. K e q x m)" "yields al (K e q) r'"
  shows "yields al M' r'"
proof -
  from assms(1,3) obtain N N' where
    "\<And>k m. k \<ge> N \<Longrightarrow> m \<ge> N \<Longrightarrow> M (parseExpression al k) m = Some (Inr (e, q))"
    "\<And>k m. k \<ge> N' \<Longrightarrow> m \<ge> N' \<Longrightarrow> K e q (parseExpression al k) m = Some r'"
    unfolding yields_def by blast
  then have "\<forall>k\<ge>max N N'. \<forall>m\<ge>max N N'. M' (parseExpression al k) m = Some r'" by (simp add: assms(2))
  then show ?thesis unfolding yields_def by blast
qed

lemma gram_primary_start:
  "gram_primary al ts e \<Longrightarrow> \<exists>t us. ts = t # us \<and> tk_typ t \<noteq> tokenPlus \<and> tk_typ t \<noteq> tokenMinus"
  by (erule gram_primary.cases) auto

text \<open>Induction over the derivations: the parser follows each of them, whatever comes next.\<close>

definition ends_factor :: "token list \<Rightarrow> bool" where
  "ends_factor q \<longleftrightarrow> q \<noteq> [] \<and> tk_typ (hd q) \<noteq> tokenLeftParen"

definition ends_term :: "token list \<Rightarrow> bool" where
  "ends_term q \<longleftrightarrow> ends_factor q \<and> tk_typ (hd q) \<noteq> tokenStar \<and> tk_typ (hd q) \<noteq> tokenSlash"

definition ends_sum :: "token list \<Rightarrow> bool" where
  "ends_sum q \<longleftrightarrow> ends_term q \<and> tk_typ (hd q) \<noteq> tokenPlus \<and> tk_typ (hd q) \<noteq> tokenMinus"

lemmas ends_defs = ends_factor_def ends_term_def ends_sum_def

lemma multiplicative_loop_stops:
  "ends_term q \<Longrightarrow> yields al (\<lambda>x n. multiplicative_loop al x n e q) (Inr (e, q))"
  by (rule yields_now) (simp add: ends_defs)

lemma additive_loop_stops:
  "ends_sum q \<Longrightarrow> yields al (\<lambda>x n. additive_loop al x n e q) (Inr (e, q))"
  by (rule yields_now) (simp add: ends_defs)

lemma gram_parse:
  "gram_add al ts e \<Longrightarrow> ends_term q \<Longrightarrow> yields al (\<lambda>x n. additive_loop al x n e q) r \<Longrightarrow>
     yields al (\<lambda>x n. parseAdditive al x n (ts @ q)) r"
  "gram_mul al ts' e' \<Longrightarrow> ends_factor q' \<Longrightarrow> yields al (\<lambda>x n. multiplicative_loop al x n e' q') r' \<Longrightarrow>
     yields al (\<lambda>x n. parseMultiplicative al x n (ts' @ q')) r'"
  "gram_unary al us f \<Longrightarrow> ends_factor p \<Longrightarrow> yields al (\<lambda>x n. parseUnary al x n (us @ p)) (Inr (f, p))"
  "gram_primary al us' f' \<Longrightarrow> ends_factor p' \<Longrightarrow> yields al (\<lambda>x n. parsePrimary al x (us' @ p')) (Inr (f', p'))"
proof (induction arbitrary: q r and q' r' and p and p' rule: gram_add_gram_mul_gram_unary_gram_primary.inducts)
  case (add_one ts e)
  show ?case
    by (rule yields_seq [OF add_one.IH(2) [OF _ multiplicative_loop_stops], where K = "\<lambda>e q x n. additive_loop al x n e q"])
      (use add_one.prems in \<open>simp_all add: parseAdditive_def ends_defs\<close>)
next
  case (add_op ts l t us r0)
  have "yields al (\<lambda>x n. additive_loop al x n l (t # us @ q)) r"
    by (rule yields_step [OF add_op.IH(4) [OF _ multiplicative_loop_stops],
          where K = "\<lambda>e q x n. additive_loop al x n (binaryNode (tk_typ t) l e) q"])
      (use add_op.hyps add_op.prems in \<open>auto simp: ends_defs Let_def\<close>)
  with add_op.hyps add_op.IH(2) [of "t # us @ q" r] show ?case by (auto simp: ends_defs)
next
  case (mul_one ts e)
  show ?case
    by (rule yields_seq [OF mul_one.IH(2), where K = "\<lambda>e q x n. multiplicative_loop al x n e q"])
      (use mul_one.prems in \<open>simp_all add: parseMultiplicative_def ends_defs\<close>)
next
  case (mul_op ts l t us r0)
  have "yields al (\<lambda>x n. multiplicative_loop al x n l (t # us @ q')) r'"
    by (rule yields_step [OF mul_op.IH(4),
          where K = "\<lambda>e q x n. multiplicative_loop al x n (binaryNode (tk_typ t) l e) q"])
      (use mul_op.hyps mul_op.prems in \<open>auto simp: ends_defs Let_def\<close>)
  with mul_op.hyps mul_op.IH(2) [of "t # us @ q'" r'] show ?case by (auto simp: ends_defs)
next
  case (unary_one ts e)
  from unary_one.IH(2) [OF unary_one.prems] obtain N where
    N: "\<And>k. k \<ge> N \<Longrightarrow> parsePrimary al (parseExpression al k) (ts @ p) = Some (Inr (e, p))"
    unfolding yields_def by blast
  obtain t us where t: "ts = t # us" "tk_typ t \<noteq> tokenPlus" "tk_typ t \<noteq> tokenMinus"
    using gram_primary_start [OF unary_one.IH(1)] by blast
  have "parseUnary al (parseExpression al k) m (ts @ p) = Some (Inr (e, p))" if "k \<ge> Suc N" "m \<ge> Suc N" for k m
    using that N [of k] t by (cases m) auto
  then show ?case unfolding yields_def by blast
next
  case (unary_op t ts e)
  show ?case
    by (rule yields_step [OF unary_op.IH(2), where K = "\<lambda>e q x n. Some (Inr (unaryNode (tk_typ t) e, q))"])
      (use unary_op.hyps unary_op.prems in \<open>auto simp: ends_defs Let_def yields_def\<close>)
next
  case (prim_number t)
  then show ?case by (simp add: parsePrimary_def Let_def yields_def ends_defs)
next
  case (prim_variable t)
  then show ?case by (simp add: parsePrimary_def Let_def yields_def ends_defs List.member_iff)
next
  case (prim_paren t ts e u)
  have "yields al (\<lambda>x n. parseAdditive al x n (ts @ u # p')) (Inr (e, u # p'))"
    by (rule prim_paren.IH(2)) (use prim_paren.hyps additive_loop_stops in \<open>auto simp: ends_defs\<close>)
  then obtain N where N: "\<And>k m. k \<ge> N \<Longrightarrow> m \<ge> N \<Longrightarrow>
      parseAdditive al (parseExpression al k) m (ts @ u # p') = Some (Inr (e, u # p'))"
    unfolding yields_def by blast
  have "parsePrimary al (parseExpression al k) ((t # ts @ [u]) @ p') = Some (Inr (e, p'))" if "k \<ge> Suc N" for k
    using that prim_paren.hyps prim_paren.prems N by (cases k) (auto simp: parsePrimary_def Let_def ends_defs)
  then show ?case unfolding yields_def by blast
qed

section \<open>Whole inputs\<close>

lemma lex_tokens:
  "lexExpression_from s acc = Inr tokens \<Longrightarrow>
     \<exists>ts. tokens = acc @ ts @ [tok tokenEOF []] \<and> tokenEOF \<notin> tk_typ ` set ts"
proof (induction s acc rule: lexExpression_from.induct)
  case (1 acc)
  then show ?case by (intro exI [of _ "[]"]) simp
next
  case (2 r cs acc)
  have single: "t \<noteq> tokenEOF" if "map_of single_tokens r = Some t" for t
    using that by (auto simp: single_tokens_def split: if_splits)
  from 2 single show ?case
    by (simp split: if_splits sum.splits prod.splits option.splits) fastforce+
qed

lemma lexExpression_tokens:
  "lexExpression input = Inr tokens \<Longrightarrow> \<exists>ts. tokens = ts @ [tok tokenEOF []] \<and> tokenEOF \<notin> tk_typ ` set ts"
  using lex_tokens [of input "[]" tokens] by (simp add: lexExpression_def)

lemma lexExpression_eof_ended: "lexExpression input = Inr tokens \<Longrightarrow> eof_ended tokens"
  by (drule lexExpression_tokens) (auto simp: eof_ended_def)

lemma parse_tokens_returns:
  assumes "eof_ended tokens"
  obtains r where "parseExpression al (parse_fuel tokens) tokens = Some r" "returns (length tokens) (Some r)"
proof -
  have "returns (length tokens) (parseExpression al (parse_fuel tokens) tokens)"
    using parseExpression_returns [of "parse_fuel tokens" al] assms by (simp add: expr_returns_def parse_fuel_def)
  with that show ?thesis by (cases "parseExpression al (parse_fuel tokens) tokens") auto
qed

lemma parse_tokens_sound:
  assumes "eof_ended (ts @ [t])" "tokenEOF \<notin> tk_typ ` set ts" "parse_tokens al (ts @ [t]) = Some (Inr e)"
  shows "gram_add al ts e"
proof -
  from assms(3) obtain q where q: "parseExpression al (parse_fuel (ts @ [t])) (ts @ [t]) = Some (Inr (e, q))"
    "tk_typ (hd q) = tokenEOF"
    by (auto simp: parse_tokens_def with_current_def split: option.splits sum.splits if_splits list.splits)
  have "reads (gram_add al) (ts @ [t]) (parseExpression al (parse_fuel (ts @ [t])) (ts @ [t]))"
    using parseExpression_reads [of al "parse_fuel (ts @ [t])"] assms(1) unfolding expr_reads_def by blast
  with q obtain us where us: "ts @ [t] = us @ q" "q \<noteq> []" "gram_add al us e" by auto
  then obtain vs where "q = vs @ [t]" "ts = us @ vs" by (cases q rule: rev_cases) auto
  moreover from this q(2) assms(2) have "vs = []" by (cases vs) (force simp: hd_def)+
  ultimately show ?thesis using us by simp
qed

lemma parse_tokens_complete:
  assumes "gram_add al ts e" "tk_typ t = tokenEOF"
  shows "parse_tokens al (ts @ [t]) = Some (Inr e)"
proof -
  have "yields al (\<lambda>x n. parseAdditive al x n (ts @ [t])) (Inr (e, [t]))"
    by (rule gram_parse(1) [OF assms(1) _ additive_loop_stops]) (simp_all add: ends_defs assms(2))
  then obtain N where N: "\<And>k m. k \<ge> N \<Longrightarrow> m \<ge> N \<Longrightarrow> parseAdditive al (parseExpression al k) m (ts @ [t]) = Some (Inr (e, [t]))"
    unfolding yields_def by blast
  let ?F = "parse_fuel (ts @ [t])" and ?M = "Suc (max N (parse_fuel (ts @ [t])))"
  obtain r where r: "parseExpression al ?F (ts @ [t]) = Some r"
    using parse_tokens_returns [of "ts @ [t]" al] assms(2) by (auto simp: eof_ended_def)
  have "extends (parseExpression al ?F (ts @ [t])) (parseExpression al ?M (ts @ [t]))"
    using parseExpression_extends [of ?F ?M al] by (simp add: expr_extends_def)
  moreover have "parseExpression al ?M (ts @ [t]) = Some (Inr (e, [t]))" by (simp add: N)
  ultimately show ?thesis using r assms(2) by (simp add: parse_tokens_def extends_def)
qed

text \<open>The lexer has no token list to index, so its errors are messages.\<close>

lemma lex_number_error: "lex_number lit d s = Inl e \<Longrightarrow> \<exists>l. e = InvalidNumber l"
  by (induction lit d s rule: lex_number.induct) (auto split: if_splits)

lemma lexExpression_from_error: "lexExpression_from s acc = Inl e \<Longrightarrow> e \<noteq> TokenIndexPanic"
  by (induction s acc rule: lexExpression_from.induct)
    (auto split: if_splits sum.splits prod.splits option.splits dest: lex_number_error)

text \<open>
  C25 (termination). Compiling an expression always returns, for every input and every set of
  variables: the recursive descent and its loops never run out of the fuel of one unit per token.
  And it never panics: the parser reads no token past the end of the list, so what it returns is a
  tree or one of the messages.
\<close>

theorem compile_terminates: "\<exists>r. compileExpression allowed input = Some r \<and> r \<noteq> Inl TokenIndexPanic"
proof (cases "lexExpression input")
  case (Inl e)
  then show ?thesis
    using lexExpression_from_error [of input "[]" e] by (simp add: compileExpression_def lexExpression_def)
next
  case (Inr tokens)
  obtain r where r: "parseExpression allowed (parse_fuel tokens) tokens = Some r" "returns (length tokens) (Some r)"
    using parse_tokens_returns [OF lexExpression_eof_ended [OF Inr], of allowed] by blast
  with Inr show ?thesis
    by (auto simp: compileExpression_def parse_tokens_def returns_def split: sum.split prod.split)
qed

lemma compile_sound:
  assumes "compileExpression allowed input = Some (Inr e)"
  shows "\<exists>ts. lexExpression input = Inr (ts @ [tok tokenEOF []]) \<and> gram_add allowed ts e"
proof -
  from assms obtain tokens where t: "lexExpression input = Inr tokens" "parse_tokens allowed tokens = Some (Inr e)"
    by (auto simp: compileExpression_def split: sum.splits)
  from lexExpression_tokens [OF t(1)] obtain ts where
    ts: "tokens = ts @ [tok tokenEOF []]" "tokenEOF \<notin> tk_typ ` set ts" by blast
  have "gram_add allowed ts e"
    by (rule parse_tokens_sound [where t = "tok tokenEOF []"]) (use t ts in \<open>simp_all add: eof_ended_def\<close>)
  with t ts show ?thesis by auto
qed

text \<open>
  C24 (refinement). The parser implements its grammar: an input compiles to a tree exactly when its
  tokens, without the end marker, derive that tree in the grammar of sums of products of signed
  primaries over the allowed variables. So multiplication binds tighter than addition, both group to
  the left, a sign binds tighter than a product, and no input has two readings.
\<close>

theorem compile_iff_grammar:
  "compileExpression allowed input = Some (Inr e) \<longleftrightarrow>
     (\<exists>ts. lexExpression input = Inr (ts @ [tok tokenEOF []]) \<and> gram_add allowed ts e)"
proof
  show "\<exists>ts. lexExpression input = Inr (ts @ [tok tokenEOF []]) \<and> gram_add allowed ts e"
    if "compileExpression allowed input = Some (Inr e)" using that by (rule compile_sound)
  show "compileExpression allowed input = Some (Inr e)"
    if "\<exists>ts. lexExpression input = Inr (ts @ [tok tokenEOF []]) \<and> gram_add allowed ts e"
    using that parse_tokens_complete [where t = "tok tokenEOF []"] by (auto simp: compileExpression_def)
qed

section \<open>Compiled expressions are safe to evaluate\<close>

fun node_variables :: "expressionNode \<Rightarrow> string set" where
  "node_variables (numberNode n) = {}"
| "node_variables (variableNode x) = {x}"
| "node_variables (unaryNode op e) = node_variables e"
| "node_variables (binaryNode op l r) = node_variables l \<union> node_variables r"

text \<open>Trees whose variables are allowed and whose binary operators the evaluator knows.\<close>

fun well_typed :: "string list \<Rightarrow> expressionNode \<Rightarrow> bool" where
  "well_typed al (numberNode n) = is_finite n"
| "well_typed al (variableNode x) = (x \<in> set al)"
| "well_typed al (unaryNode op e) = (op \<in> {tokenPlus, tokenMinus} \<and> well_typed al e)"
| "well_typed al (binaryNode op l r) =
     (op \<in> {tokenPlus, tokenMinus, tokenStar, tokenSlash} \<and> well_typed al l \<and> well_typed al r)"

lemma ParseFloat_finite: "ParseFloat s = Some v \<Longrightarrow> is_finite v"
  by (cases v) (auto simp: ParseFloat_def Let_def split: if_splits float64.splits)

lemma number_value_finite: "is_finite (number_value lit)"
  by (simp add: number_value_def ParseFloat_finite split: option.split)

lemma gram_well_typed:
  "gram_add al ts e \<Longrightarrow> well_typed al e"
  "gram_mul al ts' e' \<Longrightarrow> well_typed al e'"
  "gram_unary al us f \<Longrightarrow> well_typed al f"
  "gram_primary al us' f' \<Longrightarrow> well_typed al f'"
  by (induction rule: gram_add_gram_mul_gram_unary_gram_primary.inducts) (auto simp: number_value_finite)

lemma node_evaluate_errors:
  assumes "well_typed al e" "node_evaluate e vars = Inl err"
  shows "err = DivisionByZero \<or> (\<exists>x\<in>node_variables e \<inter> set al. err = MissingVariable x \<and> map_of vars x = None)"
  using assms
  by (induction e) (auto simp: binary_op_def split: sum.splits option.splits if_splits tokenType.splits)

text \<open>
  C26 (type). A compiled expression cannot go wrong: whatever the variables hold, infinities and NaN
  included, evaluating it gives a finite number, or the error of a division by zero, of a result that
  is not finite, or of a variable that the expression names, that is allowed, and that has no value. It never
  meets an operator or a variable it was not checked for.
\<close>

theorem compiled_evaluates_safely:
  assumes "compileExpression allowed input = Some (Inr e)"
  shows "case Evaluate e vars of
           Inr v \<Rightarrow> is_finite v
         | Inl err \<Rightarrow> err = DivisionByZero \<or> err = ResultNotFinite \<or>
             (\<exists>x. err = MissingVariable x \<and> x \<in> node_variables e \<and> x \<in> set allowed \<and> map_of vars x = None)"
proof -
  from assms have "well_typed allowed e" using compile_sound gram_well_typed(1) by blast
  then show ?thesis
    using node_evaluate_errors [of allowed e] by (fastforce simp: Evaluate_def Let_def split: sum.splits)
qed

text \<open>The expression \<^verbatim>\<open>a*-b/c\<close> at \<^verbatim>\<open>c = 0\<close>.\<close>

lemmas lex_eval = lexExpression_def byte_space_def byte_letter_def byte_digit_def isIdentStart_def isIdentPart_def
  IsSpace_def single_tokens_def Let_def

lemma ex_lex:
  "lexExpression ''a*-b/c'' = Inr [tok tokenIdentifier ''a'', tok tokenStar ''*'', tok tokenMinus ''-'',
     tok tokenIdentifier ''b'', tok tokenSlash ''/'', tok tokenIdentifier ''c'', tok tokenEOF []]"
  by (simp add: lex_eval)

lemma ex_compile:
  "compileExpression [''a'', ''b'', ''c''] ''a*-b/c'' = Some (Inr
     (binaryNode tokenSlash
       (binaryNode tokenStar (variableNode ''a'') (unaryNode tokenMinus (variableNode ''b'')))
       (variableNode ''c'')))"
  by (simp add: compileExpression_def ex_lex parse_tokens_def parse_fuel_def parseAdditive_def parseMultiplicative_def
      parsePrimary_def Let_def eval_nat_numeral)

theorem compiled_evaluates_safely_witness:
  "case Evaluate (binaryNode tokenSlash
       (binaryNode tokenStar (variableNode ''a'') (unaryNode tokenMinus (variableNode ''b'')))
       (variableNode ''c''))
       [(''a'', Fin 1), (''b'', PosInf), (''c'', Fin 0)] of
     Inr v \<Rightarrow> False | Inl err \<Rightarrow> err = DivisionByZero"
  using compiled_evaluates_safely [OF ex_compile, of "[(''a'', Fin 1), (''b'', PosInf), (''c'', Fin 0)]"]
  by (simp add: Evaluate_def binary_op_def)

end
