(* ===== verification/GoJson.thy ===== *)
theory GoJson
  imports GoText
begin

text \<open>
  \<^verbatim>\<open>encoding/json\<close> as the repository uses it to hash and store values: the text of strings,
  integers, booleans, arrays and objects. The text of a \<^verbatim>\<open>float64\<close>, the shortest decimal that
  reads back as the same value, is an argument of the definitions that need it.
\<close>

function dec_digits :: "nat \<Rightarrow> string" where
  "dec_digits n = (if n < 10 then [char_of (48 + n)] else dec_digits (n div 10) @ [char_of (48 + n mod 10)])"
  by pat_completeness auto
termination by (relation "measure id") auto

declare dec_digits.simps [simp del]

definition Itoa :: "int \<Rightarrow> string" where
  "Itoa n = (if n < 0 then ''-'' @ dec_digits (nat (- n)) else dec_digits (nat n))"

text \<open>One character of a string literal, with the escapes that keep it safe inside HTML.\<close>

definition json_escape :: "rune \<times> string \<Rightarrow> string" where
  "json_escape x =
     (case x of (r, bs) \<Rightarrow>
        if r = RuneError \<and> length bs = 1 then [char_of (0x5C :: nat)] @ ''ufffd''
        else if r = 0x2028 then [char_of (0x5C :: nat)] @ ''u2028''
        else if r = 0x2029 then [char_of (0x5C :: nat)] @ ''u2029''
        else if r \<ge> 0x80 then bs
        else if r = 0x22 \<or> r = 0x5C then [char_of (0x5C :: nat)] @ bs
        else if r = 0x08 then [char_of (0x5C :: nat)] @ ''b''
        else if r = 0x0C then [char_of (0x5C :: nat)] @ ''f''
        else if r = 0x0A then [char_of (0x5C :: nat)] @ ''n''
        else if r = 0x0D then [char_of (0x5C :: nat)] @ ''r''
        else if r = 0x09 then [char_of (0x5C :: nat)] @ ''t''
        else if r < 0x20 \<or> r = 0x3C \<or> r = 0x3E \<or> r = 0x26
        then [char_of (0x5C :: nat)] @ ''u00'' @ [hex_digit (r div 16), hex_digit r]
        else bs)"

definition json_quote :: "string \<Rightarrow> string" where
  "json_quote s = [char_of (0x22 :: nat)] @ concat (map json_escape (runes s)) @ [char_of (0x22 :: nat)]"

datatype json =
    JString string | JInt int | JBool bool | JNumber string | JArray "json list" | JObject "(string \<times> json) list"

fun json_text :: "json \<Rightarrow> string" where
  "json_text (JString s) = json_quote s"
| "json_text (JInt n) = Itoa n"
| "json_text (JBool b) = (if b then ''true'' else ''false'')"
| "json_text (JNumber t) = t"
| "json_text (JArray xs) = ''['' @ Join (map json_text xs) '','' @ '']''"
| "json_text (JObject fs) = ''{'' @ Join (map (\<lambda>(k, v). json_quote k @ '':'' @ json_text v) fs) '','' @ ''}''"

text \<open>A field with the option \<^verbatim>\<open>omitempty\<close>.\<close>

definition omitempty :: "bool \<Rightarrow> string \<Rightarrow> json \<Rightarrow> (string \<times> json) list" where
  "omitempty is_empty name v = (if is_empty then [] else [(name, v)])"

abbreviation str_field :: "string \<Rightarrow> string \<Rightarrow> (string \<times> json) list" where
  "str_field name s \<equiv> omitempty (s = []) name (JString s)"

abbreviation int_field :: "string \<Rightarrow> int \<Rightarrow> (string \<times> json) list" where
  "int_field name n \<equiv> omitempty (n = 0) name (JInt n)"

abbreviation strs_field :: "string \<Rightarrow> string list \<Rightarrow> (string \<times> json) list" where
  "strs_field name xs \<equiv> omitempty (xs = []) name (JArray (map JString xs))"

abbreviation bool_ptr_field :: "string \<Rightarrow> bool option \<Rightarrow> (string \<times> json) list" where
  "bool_ptr_field name b \<equiv> (case b of None \<Rightarrow> [] | Some v \<Rightarrow> [(name, JBool v)])"

end
