(* ===== verification/OptSearch.thy ===== *)
theory OptSearch
  imports GoJson Float64 Crypto OptExpr
begin

text \<open>
  Candidate configurations and their search (\<^verbatim>\<open>internal/optimizer/candidate.go\<close> and
  \<^verbatim>\<open>search_space.go\<close>): the grid a search space spans, the choice of at most
  \<^verbatim>\<open>max_candidates\<close> of its points, and the plan of successive halving.
\<close>

section \<open>Candidates\<close>

record PromptCandidate =
  pc_Name :: string
  pc_System :: string

record ChunkingCandidate =
  chc_Enabled :: bool
  chc_SizeTokens :: int
  chc_OverlapTokens :: int
  chc_ParserMethod :: string

record EmbeddingCandidate =
  ec_Enabled :: bool
  ec_Model :: string
  ec_Dimensions :: int

record RerankerCandidate =
  rc_Provider :: string
  rc_Model :: string
  rc_TopN :: int

record RetrievalCandidate =
  rtc_DenseTopK :: int
  rtc_SparseTopK :: int
  rtc_RRFK :: int
  rtc_SemanticCacheThreshold :: float64

record IndexingCandidate =
  ic_Namespace :: string

record GraphCandidate =
  gc_QueryRewriteEnabled :: "bool option"
  gc_HyDEEnabled :: "bool option"
  gc_MultiQueryCount :: int
  gc_Modules :: "string list"

record HarnessCandidate =
  hc_Kind :: string
  hc_Command :: string
  hc_Argv :: "string list"

record CandidateConfig =
  cc_ID :: string
  cc_Hash :: string
  cc_Prompt :: PromptCandidate
  cc_Chunking :: ChunkingCandidate
  cc_Embedding :: EmbeddingCandidate
  cc_Reranker :: RerankerCandidate
  cc_Retrieval :: RetrievalCandidate
  cc_Indexing :: IndexingCandidate
  cc_Graph :: GraphCandidate
  cc_Harness :: HarnessCandidate

text \<open>\<^verbatim>\<open>json.Marshal\<close> of a candidate, field by field in the order of the struct; \<open>fmt\<close> writes a \<^verbatim>\<open>float64\<close>.\<close>

definition candidate_json :: "(float64 \<Rightarrow> string) \<Rightarrow> CandidateConfig \<Rightarrow> json" where
  "candidate_json fmt c = JObject
    (str_field ''id'' (cc_ID c) @ str_field ''hash'' (cc_Hash c) @
     [(''prompt'', JObject (str_field ''name'' (pc_Name (cc_Prompt c)) @ str_field ''system'' (pc_System (cc_Prompt c)))),
      (''chunking'', JObject ((''enabled'', JBool (chc_Enabled (cc_Chunking c))) #
         int_field ''size_tokens'' (chc_SizeTokens (cc_Chunking c)) @
         int_field ''overlap_tokens'' (chc_OverlapTokens (cc_Chunking c)) @
         str_field ''parser_method'' (chc_ParserMethod (cc_Chunking c)))),
      (''embedding'', JObject ((''enabled'', JBool (ec_Enabled (cc_Embedding c))) #
         str_field ''model'' (ec_Model (cc_Embedding c)) @ int_field ''dimensions'' (ec_Dimensions (cc_Embedding c)))),
      (''reranker'', JObject (str_field ''provider'' (rc_Provider (cc_Reranker c)) @
         str_field ''model'' (rc_Model (cc_Reranker c)) @ int_field ''top_n'' (rc_TopN (cc_Reranker c)))),
      (''retrieval'', JObject (int_field ''dense_top_k'' (rtc_DenseTopK (cc_Retrieval c)) @
         int_field ''sparse_top_k'' (rtc_SparseTopK (cc_Retrieval c)) @ int_field ''rrf_k'' (rtc_RRFK (cc_Retrieval c)) @
         omitempty (rtc_SemanticCacheThreshold (cc_Retrieval c) = Fin 0) ''semantic_cache_threshold''
           (JNumber (fmt (rtc_SemanticCacheThreshold (cc_Retrieval c)))))),
      (''indexing'', JObject (str_field ''namespace'' (ic_Namespace (cc_Indexing c)))),
      (''graph'', JObject (bool_ptr_field ''query_rewrite_enabled'' (gc_QueryRewriteEnabled (cc_Graph c)) @
         bool_ptr_field ''hyde_enabled'' (gc_HyDEEnabled (cc_Graph c)) @
         int_field ''multi_query_count'' (gc_MultiQueryCount (cc_Graph c)) @
         strs_field ''modules'' (gc_Modules (cc_Graph c)))),
      (''harness'', JObject (str_field ''kind'' (hc_Kind (cc_Harness c)) @
         str_field ''command'' (hc_Command (cc_Harness c)) @ strs_field ''argv'' (hc_Argv (cc_Harness c))))])"

text \<open>\<^verbatim>\<open>json.Marshal\<close> fails on a threshold that is not finite, and the code panics: \<open>None\<close>.\<close>

definition WithDeterministicID :: "(float64 \<Rightarrow> string) \<Rightarrow> string \<Rightarrow> CandidateConfig \<Rightarrow> CandidateConfig option" where
  "WithDeterministicID fmt runID c0 =
     (let c = c0\<lparr>cc_ID := [], cc_Hash := []\<rparr>
      in if \<not> is_finite (rtc_SemanticCacheThreshold (cc_Retrieval c)) then None
         else let hash = hex_encode (sha256_Sum (json_text (candidate_json fmt c)))
              in Some (c\<lparr>cc_Hash := hash, cc_ID := ''cand_'' @ take 24 (hex_encode (sha256_Sum (runID @ '':'' @ hash)))\<rparr>))"

section \<open>Search spaces\<close>

datatype SearchStrategy = StrategyUnset | StrategyGrid | StrategySeededRandom | StrategySuccessiveHalving | StrategyOther string

record ChunkingSpace =
  cs_Enabled :: bool
  cs_SizeTokens :: "int list"
  cs_OverlapTokens :: "int list"
  cs_ParserMethods :: "string list"

record EmbeddingSpace =
  es_Enabled :: bool
  es_Models :: "string list"
  es_Dimensions :: "int list"

record RerankerSpace =
  rs_Providers :: "string list"
  rs_Models :: "string list"
  rs_TopN :: "int list"
  rs_ProviderModels :: "(string, string list) gomap"

record RetrievalSpace =
  rts_DenseTopK :: "int list"
  rts_SparseTopK :: "int list"
  rts_RRFK :: "int list"
  rts_SemanticCacheThresholds :: "float64 list"

record GraphSpace =
  gs_QueryRewriteEnabled :: "bool list"
  gs_HyDEEnabled :: "bool list"
  gs_MultiQueryCount :: "int list"
  gs_Modules :: "string list list"

record SearchSpace =
  ss_Prompts :: "PromptCandidate list"
  ss_Chunking :: ChunkingSpace
  ss_Embedding :: EmbeddingSpace
  ss_Reranker :: RerankerSpace
  ss_Retrieval :: RetrievalSpace
  ss_Graph :: GraphSpace
  ss_Harness :: "HarnessCandidate list"

record HalvingSpec =
  hs_InitialDatasetFraction :: float64
  hs_ReductionFactor :: int
  hs_MinSurvivors :: int

record SearchSpec =
  sp_Strategy :: SearchStrategy
  sp_MaxCandidates :: int
  sp_Seed :: int
  sp_RunID :: string
  sp_LargeSpaceWarningThreshold :: int
  sp_Halving :: HalvingSpec

record HalvingStagePlan =
  hp_Stage :: int
  hp_CandidateCount :: int
  hp_DatasetFraction :: float64

record GridSearchResult =
  gr_Strategy :: SearchStrategy
  gr_SearchSpaceSize :: int
  gr_LargeSearchSpace :: bool
  gr_Candidates :: "CandidateConfig list"
  gr_Stages :: "HalvingStagePlan list"

section \<open>The grid\<close>

text \<open>An empty axis contributes the zero value of its type.\<close>

definition choices :: "'a \<Rightarrow> 'a list \<Rightarrow> 'a list" where
  "choices zero values = (if values = [] then [zero] else values)"

definition intChoices :: "int list \<Rightarrow> int list" where
  "intChoices = choices 0"

definition stringChoices :: "string list \<Rightarrow> string list" where
  "stringChoices = choices []"

definition floatChoices :: "float64 list \<Rightarrow> float64 list" where
  "floatChoices = choices (Fin 0)"

definition boolPtrChoices :: "bool list \<Rightarrow> bool option list" where
  "boolPtrChoices values = (if values = [] then [None] else map Some values)"

definition moduleChoices :: "string list list \<Rightarrow> string list list" where
  "moduleChoices = choices []"

definition promptChoices :: "PromptCandidate list \<Rightarrow> PromptCandidate list" where
  "promptChoices = choices \<lparr>pc_Name = [], pc_System = []\<rparr>"

definition harnessChoices :: "HarnessCandidate list \<Rightarrow> HarnessCandidate list" where
  "harnessChoices = choices \<lparr>hc_Kind = [], hc_Command = [], hc_Argv = []\<rparr>"

definition chunkingChoices :: "ChunkingSpace \<Rightarrow> ChunkingCandidate list" where
  "chunkingChoices space =
     (if \<not> cs_Enabled space
      then [\<lparr>chc_Enabled = False, chc_SizeTokens = 0, chc_OverlapTokens = 0, chc_ParserMethod = []\<rparr>]
      else [\<lparr>chc_Enabled = True, chc_SizeTokens = sz, chc_OverlapTokens = overlap, chc_ParserMethod = parser\<rparr>.
             sz \<leftarrow> intChoices (cs_SizeTokens space), overlap \<leftarrow> intChoices (cs_OverlapTokens space),
             parser \<leftarrow> stringChoices (cs_ParserMethods space)])"

definition embeddingChoices :: "EmbeddingSpace \<Rightarrow> EmbeddingCandidate list" where
  "embeddingChoices space =
     (if \<not> es_Enabled space then [\<lparr>ec_Enabled = False, ec_Model = [], ec_Dimensions = 0\<rparr>]
      else [\<lparr>ec_Enabled = True, ec_Model = model, ec_Dimensions = dimensions\<rparr>.
             model \<leftarrow> stringChoices (es_Models space), dimensions \<leftarrow> intChoices (es_Dimensions space)])"

definition rerankerModelAllowed :: "string \<Rightarrow> string \<Rightarrow> (string, string list) gomap \<Rightarrow> bool" where
  "rerankerModelAllowed provider model allowed =
     (if provider = [] \<or> model = [] then True
      else if allowed = [] then True
      else case map_of allowed provider of None \<Rightarrow> False | Some models \<Rightarrow> List.member models model)"

definition rerankerChoices :: "RerankerSpace \<Rightarrow> RerankerCandidate list" where
  "rerankerChoices space =
     (let out = [\<lparr>rc_Provider = provider, rc_Model = model, rc_TopN = topN\<rparr>.
                  provider \<leftarrow> stringChoices (rs_Providers space), model \<leftarrow> stringChoices (rs_Models space),
                  rerankerModelAllowed provider model (rs_ProviderModels space), topN \<leftarrow> intChoices (rs_TopN space)]
      in if out = [] then [\<lparr>rc_Provider = [], rc_Model = [], rc_TopN = 0\<rparr>] else out)"

definition retrievalChoices :: "RetrievalSpace \<Rightarrow> RetrievalCandidate list" where
  "retrievalChoices space =
     [\<lparr>rtc_DenseTopK = denseTopK, rtc_SparseTopK = sparseTopK, rtc_RRFK = rrfK, rtc_SemanticCacheThreshold = threshold\<rparr>.
       denseTopK \<leftarrow> intChoices (rts_DenseTopK space), sparseTopK \<leftarrow> intChoices (rts_SparseTopK space),
       rrfK \<leftarrow> intChoices (rts_RRFK space), threshold \<leftarrow> floatChoices (rts_SemanticCacheThresholds space)]"

definition graphChoices :: "GraphSpace \<Rightarrow> GraphCandidate list" where
  "graphChoices space =
     [\<lparr>gc_QueryRewriteEnabled = rewrite, gc_HyDEEnabled = hyde, gc_MultiQueryCount = multiQuery, gc_Modules = modules\<rparr>.
       rewrite \<leftarrow> boolPtrChoices (gs_QueryRewriteEnabled space), hyde \<leftarrow> boolPtrChoices (gs_HyDEEnabled space),
       multiQuery \<leftarrow> intChoices (gs_MultiQueryCount space), modules \<leftarrow> moduleChoices (gs_Modules space)]"

definition expandSearchSpace :: "SearchSpace \<Rightarrow> CandidateConfig list" where
  "expandSearchSpace space =
     [\<lparr>cc_ID = [], cc_Hash = [], cc_Prompt = prompt, cc_Chunking = chunking, cc_Embedding = embedding,
       cc_Reranker = reranker, cc_Retrieval = retrieval, cc_Indexing = \<lparr>ic_Namespace = []\<rparr>, cc_Graph = graph,
       cc_Harness = harness\<rparr>.
       prompt \<leftarrow> promptChoices (ss_Prompts space), chunking \<leftarrow> chunkingChoices (ss_Chunking space),
       embedding \<leftarrow> embeddingChoices (ss_Embedding space), reranker \<leftarrow> rerankerChoices (ss_Reranker space),
       retrieval \<leftarrow> retrievalChoices (ss_Retrieval space), graph \<leftarrow> graphChoices (ss_Graph space),
       harness \<leftarrow> harnessChoices (ss_Harness space)]"

section \<open>Selection\<close>

text \<open>
  \<^verbatim>\<open>rand.Rand.Perm\<close>: the inside-out shuffle. \<open>intn seed i\<close> is the value of the call
  \<^verbatim>\<open>Intn(i + 1)\<close> in its turn \<open>i\<close>; the generator's contract is that it lies between \<open>0\<close> and \<open>i\<close>.
\<close>

type_synonym rand_source = "int \<Rightarrow> nat \<Rightarrow> nat"

primrec perm_loop :: "(nat \<Rightarrow> nat) \<Rightarrow> nat \<Rightarrow> nat list" where
  "perm_loop intn 0 = []"
| "perm_loop intn (Suc i) =
     (let m = perm_loop intn i @ [0]; j = intn i in (m[i := m ! j])[j := i])"

definition Perm :: "rand_source \<Rightarrow> int \<Rightarrow> nat \<Rightarrow> nat list" where
  "Perm intn seed n = perm_loop (intn seed) n"

definition chooseStrategy :: "SearchStrategy \<Rightarrow> int \<Rightarrow> int \<Rightarrow> SearchStrategy" where
  "chooseStrategy requested sz maxCandidates =
     (if requested \<noteq> StrategyUnset then requested
      else if sz \<le> maxCandidates then StrategyGrid else StrategySeededRandom)"

definition searchWarning :: "int \<Rightarrow> SearchSpec \<Rightarrow> bool" where
  "searchWarning sz spec =
     (let threshold = (if sp_LargeSpaceWarningThreshold spec \<le> 0 then sp_MaxCandidates spec
                       else sp_LargeSpaceWarningThreshold spec)
      in \<not> sz \<le> threshold)"

definition selectCandidates :: "rand_source \<Rightarrow> 'a list \<Rightarrow> SearchStrategy \<Rightarrow> SearchSpec \<Rightarrow> 'a list" where
  "selectCandidates intn candidates strategy spec =
     (if int (length candidates) \<le> sp_MaxCandidates spec then candidates
      else if strategy = StrategyGrid then take (nat (sp_MaxCandidates spec)) candidates
      else map ((!) candidates)
             (take (nat (sp_MaxCandidates spec)) (Perm intn (sp_Seed spec) (length candidates))))"

section \<open>Successive halving\<close>

definition roundSearchFloat :: "float64 \<Rightarrow> float64" where
  "roundSearchFloat value = fdiv (math_Round (fmul value (Fin round_scale))) (Fin round_scale)"

text \<open>\<^verbatim>\<open>int(math.Ceil(x))\<close>, of a finite \<open>x\<close>.\<close>

definition int_Ceil :: "float64 \<Rightarrow> int" where
  "int_Ceil v = (case v of Fin x \<Rightarrow> \<lceil>x\<rceil> | _ \<Rightarrow> 0)"

text \<open>The loop, which has no bound of its own: \<open>None\<close> is the run that never leaves it.\<close>

partial_function (option) halving_loop ::
  "HalvingSpec \<Rightarrow> int \<Rightarrow> int \<Rightarrow> float64 \<Rightarrow> HalvingStagePlan list \<Rightarrow> HalvingStagePlan list option" where
  "halving_loop spec stage cnt fraction stages0 =
     (let stages = stages0 @ [\<lparr>hp_Stage = stage, hp_CandidateCount = cnt, hp_DatasetFraction = roundSearchFloat fraction\<rparr>]
      in if cnt \<le> hs_MinSurvivors spec \<and> fle (Fin 1) fraction then Some stages
         else let c = int_Ceil (fdiv (of_int64 cnt) (of_int64 (hs_ReductionFactor spec)));
                  nextCount = (if c < hs_MinSurvivors spec then hs_MinSurvivors spec else c)
              in if nextCount = cnt \<and> fle (Fin 1) fraction then Some stages
                 else let f = fmul fraction (of_int64 (hs_ReductionFactor spec))
                      in halving_loop spec (stage + 1) nextCount (if flt (Fin 1) f then Fin 1 else f) stages)"

definition normalized_halving :: "HalvingSpec \<Rightarrow> HalvingSpec" where
  "normalized_halving spec =
     \<lparr>hs_InitialDatasetFraction =
        (if fle (hs_InitialDatasetFraction spec) (Fin 0) \<or> flt (Fin 1) (hs_InitialDatasetFraction spec) then Fin 1
         else hs_InitialDatasetFraction spec),
      hs_ReductionFactor = (if hs_ReductionFactor spec < 2 then 2 else hs_ReductionFactor spec),
      hs_MinSurvivors = (if hs_MinSurvivors spec \<le> 0 then 1 else hs_MinSurvivors spec)\<rparr>"

definition buildHalvingPlan :: "int \<Rightarrow> HalvingSpec \<Rightarrow> HalvingStagePlan list option" where
  "buildHalvingPlan candidateCount spec0 =
     (if candidateCount = 0 then Some []
      else let spec = normalized_halving spec0
           in halving_loop spec 0 candidateCount (hs_InitialDatasetFraction spec) [])"

section \<open>The search\<close>

definition normalized_search :: "SearchSpec \<Rightarrow> SearchSpec" where
  "normalized_search spec =
     spec\<lparr>sp_MaxCandidates := (if sp_MaxCandidates spec \<le> 0 then 50 else sp_MaxCandidates spec),
          sp_RunID := (if sp_RunID spec = [] then ''candidate_search'' else sp_RunID spec)\<rparr>"

definition GenerateCandidates ::
  "(float64 \<Rightarrow> string) \<Rightarrow> rand_source \<Rightarrow> SearchSpace \<Rightarrow> SearchSpec \<Rightarrow> GridSearchResult option" where
  "GenerateCandidates fmt intn space spec0 =
     (let spec = normalized_search spec0
      in case those (map (WithDeterministicID fmt (sp_RunID spec)) (expandSearchSpace space)) of
           None \<Rightarrow> None
         | Some allCandidates \<Rightarrow>
             let sz = int (length allCandidates);
                 strategy = chooseStrategy (sp_Strategy spec) sz (sp_MaxCandidates spec);
                 selected = selectCandidates intn allCandidates strategy spec
             in case (if strategy = StrategySuccessiveHalving then buildHalvingPlan (int (length selected)) (sp_Halving spec)
                      else Some []) of
                  None \<Rightarrow> None
                | Some stages \<Rightarrow>
                    Some \<lparr>gr_Strategy = strategy, gr_SearchSpaceSize = sz, gr_LargeSearchSpace = searchWarning sz spec,
                          gr_Candidates = selected, gr_Stages = stages\<rparr>)"

end
