(* ===== verification/OptSearchProps.thy ===== *)
theory OptSearchProps
  imports OptSearch
begin

text \<open>
  Properties of the candidate search: the shuffle is a permutation, so a search never selects a
  point of the grid twice; and the plan of successive halving exists, shrinks and ends with the
  whole dataset, except for the inputs on which its loop goes wrong.
\<close>

section \<open>The shuffle\<close>

lemma length_perm_loop [simp]: "length (perm_loop f n) = n"
  by (induction n) (simp_all add: Let_def)

lemma mset_perm_loop: "(\<And>i. f i \<le> i) \<Longrightarrow> mset (perm_loop f n) = mset [0..<n]"
proof (induction n)
  case (Suc i)
  let ?P = "perm_loop f i"
  have j: "f i \<le> i" by (rule Suc.prems)
  show ?case
  proof (cases "f i = i")
    case True
    with Suc show ?thesis by (simp add: Let_def nth_append list_update_append)
  next
    case False
    with j have lt: "f i < length ?P" by simp
    then have "perm_loop f (Suc i) = ?P[f i := i] @ [?P ! f i]"
      by (simp add: Let_def nth_append list_update_append)
    moreover have "mset (?P[f i := i]) = add_mset i (mset ?P - {#?P ! f i#})" using lt by (rule mset_update)
    moreover have "?P ! f i \<in># mset ?P" using lt by simp
    ultimately show ?thesis using Suc by simp
  qed
qed simp

lemma Perm_permutes:
  assumes "\<And>s i. intn s i \<le> i"
  shows "distinct (Perm intn s n)" "set (Perm intn s n) = {..<n}"
proof -
  have m: "mset (Perm intn s n) = mset [0..<n]" unfolding Perm_def by (rule mset_perm_loop) (rule assms)
  then show "distinct (Perm intn s n)" by (metis distinct_upt mset_eq_imp_distinct_iff)
  from m have "set (Perm intn s n) = set [0..<n]" by (rule mset_eq_setD)
  then show "set (Perm intn s n) = {..<n}" by (simp add: lessThan_atLeast0)
qed

lemma selectCandidates_spec:
  assumes "\<And>s i. intn s i \<le> i" "0 < sp_MaxCandidates spec"
  shows "\<exists>idx. distinct idx \<and> set idx \<subseteq> {..<length cs} \<and> selectCandidates intn cs st spec = map ((!) cs) idx \<and>
    length idx = min (length cs) (nat (sp_MaxCandidates spec))"
proof -
  have nths: "take k cs = map ((!) cs) (take k [0..<length cs])" for k by (simp add: take_map [symmetric] map_nth)
  consider "int (length cs) \<le> sp_MaxCandidates spec" | "int (length cs) > sp_MaxCandidates spec" "st = StrategyGrid"
    | "int (length cs) > sp_MaxCandidates spec" "st \<noteq> StrategyGrid" by linarith
  then show ?thesis
  proof cases
    case 1
    then show ?thesis by (intro exI [of _ "[0..<length cs]"]) (auto simp: selectCandidates_def map_nth)
  next
    case 2
    then show ?thesis
      by (intro exI [of _ "take (nat (sp_MaxCandidates spec)) [0..<length cs]"])
        (auto simp: selectCandidates_def nths dest: in_set_takeD)
  next
    case 3
    let ?p = "Perm intn (sp_Seed spec) (length cs)"
    have p: "distinct ?p" "set ?p = {..<length cs}" by (rule Perm_permutes, rule assms(1))+
    with set_take_subset [of _ ?p] have "set (take k ?p) \<subseteq> {..<length cs}" for k by blast
    with 3 p(1) show ?thesis
      by (intro exI [of _ "take (nat (sp_MaxCandidates spec)) ?p"]) (simp add: selectCandidates_def Perm_def)
  qed
qed

section \<open>The search\<close>

lemma set_choices: "set (choices z xs) = (if xs = [] then {z} else set xs)"
  by (simp add: choices_def)

text \<open>The grid is the product of its axes.\<close>

lemma expandSearchSpace_grid:
  "c \<in> set (expandSearchSpace space) \<longleftrightarrow>
     cc_ID c = [] \<and> cc_Hash c = [] \<and> ic_Namespace (cc_Indexing c) = [] \<and>
     cc_Prompt c \<in> set (promptChoices (ss_Prompts space)) \<and> cc_Chunking c \<in> set (chunkingChoices (ss_Chunking space)) \<and>
     cc_Embedding c \<in> set (embeddingChoices (ss_Embedding space)) \<and> cc_Reranker c \<in> set (rerankerChoices (ss_Reranker space)) \<and>
     cc_Retrieval c \<in> set (retrievalChoices (ss_Retrieval space)) \<and> cc_Graph c \<in> set (graphChoices (ss_Graph space)) \<and>
     cc_Harness c \<in> set (harnessChoices (ss_Harness space))"
  by (cases c; cases "cc_Indexing c") (auto simp: expandSearchSpace_def image_iff)

lemma rerankers_allowed:
  "r \<in> set (rerankerChoices space) \<Longrightarrow> rerankerModelAllowed (rc_Provider r) (rc_Model r) (rs_ProviderModels space)"
proof -
  have "rerankerModelAllowed [] m a" for m a by (simp add: rerankerModelAllowed_def)
  then show "r \<in> set (rerankerChoices space) \<Longrightarrow> rerankerModelAllowed (rc_Provider r) (rc_Model r) (rs_ProviderModels space)"
    by (auto simp: rerankerChoices_def Let_def split: if_splits)
qed

lemma thresholds_finite:
  assumes "list_all is_finite (rts_SemanticCacheThresholds (ss_Retrieval space))" "c \<in> set (expandSearchSpace space)"
  shows "is_finite (rtc_SemanticCacheThreshold (cc_Retrieval c))"
proof -
  from assms(2) have "rtc_SemanticCacheThreshold (cc_Retrieval c) \<in> set (floatChoices (rts_SemanticCacheThresholds (ss_Retrieval space)))"
    unfolding expandSearchSpace_grid by (auto simp: retrievalChoices_def)
  with assms(1) show ?thesis by (auto simp: floatChoices_def set_choices list_all_iff split: if_splits)
qed

lemma those_map_Some: "list_all (\<lambda>x. f x \<noteq> None) xs \<Longrightarrow> \<exists>ys. those (map f xs) = Some ys \<and> map Some ys = map f xs"
  by (induction xs) auto

text \<open>
  A search over a grid whose cache thresholds are finite selects points of the grid
  and no point twice: the selected candidates sit at distinct positions of the list of all the
  points, each with the identifier derived from the run and its own content, and there are as many as
  the budget allows, or all of them. This holds for every strategy without staged halving and for
  every random source that keeps the contract of \<^verbatim>\<open>Intn\<close>.
\<close>

lemma search_selects_grid_points:
  assumes "\<And>s i. intn s i \<le> i"
    and "list_all is_finite (rts_SemanticCacheThresholds (ss_Retrieval space))"
    and "sp_Strategy spec \<noteq> StrategySuccessiveHalving"
  shows "\<exists>r all idx. GenerateCandidates fmt intn space spec = Some r \<and>
    map Some all = map (WithDeterministicID fmt (if sp_RunID spec = [] then ''candidate_search'' else sp_RunID spec))
                     (expandSearchSpace space) \<and>
    gr_Candidates r = map ((!) all) idx \<and> distinct idx \<and> set idx \<subseteq> {..<length all} \<and>
    length idx = min (length all) (if sp_MaxCandidates spec \<le> 0 then 50 else nat (sp_MaxCandidates spec)) \<and>
    gr_SearchSpaceSize r = int (length all)"
proof -
  let ?s = "normalized_search spec"
  have "list_all (\<lambda>c. WithDeterministicID fmt (sp_RunID ?s) c \<noteq> None) (expandSearchSpace space)"
    using thresholds_finite [OF assms(2)] by (auto simp: list_all_iff WithDeterministicID_def Let_def)
  from those_map_Some [OF this] obtain all where
    all: "those (map (WithDeterministicID fmt (sp_RunID ?s)) (expandSearchSpace space)) = Some all"
      "map Some all = map (WithDeterministicID fmt (sp_RunID ?s)) (expandSearchSpace space)" by blast
  let ?st = "chooseStrategy (sp_Strategy ?s) (int (length all)) (sp_MaxCandidates ?s)"
  have st: "?st \<noteq> StrategySuccessiveHalving" using assms(3) by (simp add: chooseStrategy_def normalized_search_def)
  have "0 < sp_MaxCandidates ?s" by (simp add: normalized_search_def)
  from selectCandidates_spec [where intn = intn and cs = all and st = ?st, OF assms(1) this] obtain idx where
    idx: "distinct idx" "set idx \<subseteq> {..<length all}" "selectCandidates intn all ?st ?s = map ((!) all) idx"
    "length idx = min (length all) (nat (sp_MaxCandidates ?s))" by blast
  have "GenerateCandidates fmt intn space spec = Some \<lparr>gr_Strategy = ?st, gr_SearchSpaceSize = int (length all),
      gr_LargeSearchSpace = searchWarning (int (length all)) ?s, gr_Candidates = map ((!) all) idx, gr_Stages = []\<rparr>"
    using all(1) st idx(3) by (simp add: GenerateCandidates_def Let_def)
  moreover have "sp_RunID ?s = (if sp_RunID spec = [] then ''candidate_search'' else sp_RunID spec)"
    "nat (sp_MaxCandidates ?s) = (if sp_MaxCandidates spec \<le> 0 then 50 else nat (sp_MaxCandidates spec))"
    by (simp_all add: normalized_search_def)
  ultimately show ?thesis using all(2) idx(1,2,4) by (intro exI [of _ all] exI [of _ idx] exI) auto
qed

definition ex_space :: SearchSpace where
  "ex_space = \<lparr>ss_Prompts = [],
     ss_Chunking = \<lparr>cs_Enabled = True, cs_SizeTokens = [256, 512], cs_OverlapTokens = [], cs_ParserMethods = []\<rparr>,
     ss_Embedding = \<lparr>es_Enabled = False, es_Models = [], es_Dimensions = []\<rparr>,
     ss_Reranker = \<lparr>rs_Providers = [], rs_Models = [], rs_TopN = [], rs_ProviderModels = []\<rparr>,
     ss_Retrieval = \<lparr>rts_DenseTopK = [5, 10, 20], rts_SparseTopK = [], rts_RRFK = [], rts_SemanticCacheThresholds = []\<rparr>,
     ss_Graph = \<lparr>gs_QueryRewriteEnabled = [], gs_HyDEEnabled = [], gs_MultiQueryCount = [], gs_Modules = []\<rparr>,
     ss_Harness = []\<rparr>"

definition ex_search :: SearchSpec where
  "ex_search = \<lparr>sp_Strategy = StrategyUnset, sp_MaxCandidates = 4, sp_Seed = 7, sp_RunID = ''run'',
     sp_LargeSpaceWarningThreshold = 0,
     sp_Halving = \<lparr>hs_InitialDatasetFraction = Fin 0, hs_ReductionFactor = 0, hs_MinSurvivors = 0\<rparr>\<rparr>"

lemma ex_space_size: "length (expandSearchSpace ex_space) = 6"
  by (simp add: expandSearchSpace_def ex_space_def promptChoices_def chunkingChoices_def embeddingChoices_def
      rerankerChoices_def rerankerModelAllowed_def retrievalChoices_def graphChoices_def harnessChoices_def
      intChoices_def stringChoices_def floatChoices_def boolPtrChoices_def moduleChoices_def choices_def)

lemma search_selects_grid_points_witness:
  "\<exists>r all idx. GenerateCandidates (\<lambda>f. ''0'') (\<lambda>s i. i div 2) ex_space ex_search = Some r \<and> length all = 6 \<and>
     gr_Candidates r = map ((!) all) idx \<and> distinct idx \<and> length idx = 4"
proof -
  obtain r all idx where "GenerateCandidates (\<lambda>f. ''0'') (\<lambda>s i. i div 2) ex_space ex_search = Some r"
    "map Some all = map (WithDeterministicID (\<lambda>f. ''0'') (if sp_RunID ex_search = [] then ''candidate_search'' else sp_RunID ex_search))
                     (expandSearchSpace ex_space)"
    "gr_Candidates r = map ((!) all) idx" "distinct idx"
    "length idx = min (length all) (if sp_MaxCandidates ex_search \<le> 0 then 50 else nat (sp_MaxCandidates ex_search))"
    using search_selects_grid_points [of "\<lambda>s i. i div 2" ex_space ex_search "\<lambda>f. ''0''"]
    by (auto simp: ex_space_def ex_search_def)
  moreover from this(2) have "length all = 6" using ex_space_size by (metis length_map)
  ultimately show ?thesis by (simp add: ex_search_def) blast
qed

section \<open>The plan of successive halving\<close>

text \<open>The fractions and counts the loop works with.\<close>

definition unit_float :: "rat \<Rightarrow> bool" where
  "unit_float x \<longleftrightarrow> 0 < x \<and> x \<le> 1 \<and> nearest x = x"

lemma unit_float_1 [simp]: "unit_float 1"
  using nearest_int [of 1] by (simp add: unit_float_def)

lemma nearest_multiple: "nearest x = x \<Longrightarrow> \<exists>m e. x = of_int m * 2 powi e \<and> \<bar>m\<bar> \<le> 2 ^ 53 \<and> e \<ge> - 1074"
proof (cases "x = 0")
  case True
  then show ?thesis by (intro exI [of _ 0]) simp
next
  case False
  assume "nearest x = x"
  with nearest_form [OF False] show ?thesis by (metis max.cobounded2 ulp_exp_def)
qed

lemma nearest_double: "nearest x = x \<Longrightarrow> nearest (2 * x) = 2 * x"
proof -
  assume "nearest x = x"
  then obtain m e where "x = of_int m * 2 powi e" "\<bar>m\<bar> \<le> 2 ^ 53" "e \<ge> - 1074" using nearest_multiple by blast
  then show ?thesis by (intro nearest_exact [of _ m "e + 1"]) (simp_all add: power_int_add)
qed

lemma unit_float_min: "unit_float x \<Longrightarrow> 2 powi (- 1074) \<le> x"
proof -
  assume x: "unit_float x"
  then obtain m e where m: "x = of_int m * 2 powi e" "e \<ge> - 1074" unfolding unit_float_def using nearest_multiple by blast
  with x have "m \<ge> 1" unfolding unit_float_def by (metis int_one_le_iff_zero_less of_int_0_less_iff zero_less_mult_pos2 zero_less_power_int zero_less_numeral)
  then have "(1 :: rat) \<le> of_int m" by simp
  moreover have "(2 :: rat) powi (- 1074) \<le> 2 powi e" using m(2) by (intro power_int_increasing) auto
  moreover have "(0 :: rat) < 2 powi e" by simp
  ultimately show ?thesis unfolding m(1) by (metis (full_types) less_le_not_le mult_left_mono mult_cancel_right1 mult_right_mono order_trans mult_1)
qed

lemma factor_cases:
  assumes "2 \<le> k"
  obtains k' where "of_int64 k = Fin k'" "2 \<le> k'" | "of_int64 k = PosInf"
proof -
  have "of_int64 2 = Fin 2" using of_int64_exact [of 2] by simp
  moreover have "of_int64 2 \<le> of_int64 k" unfolding of_int64_def using assms by (intro fround_mono) simp
  ultimately show thesis using that by (cases "of_int64 k") (auto simp: of_int64_def)
qed

definition next_fraction :: "HalvingSpec \<Rightarrow> float64 \<Rightarrow> float64" where
  "next_fraction spec f =
     (let g = fmul f (of_int64 (hs_ReductionFactor spec)) in if flt (Fin 1) g then Fin 1 else g)"

lemma next_fraction_doubles:
  assumes "unit_float x" "2 \<le> hs_ReductionFactor spec"
  obtains y where "next_fraction spec (Fin x) = Fin y" "unit_float y" "y = 1 \<or> 2 * x \<le> y"
proof -
  define f where f_def: "f = fmul (Fin x) (of_int64 (hs_ReductionFactor spec))"
  have nf: "next_fraction spec (Fin x) = (if flt (Fin 1) f then Fin 1 else f)" by (simp add: next_fraction_def f_def Let_def)
  have x: "0 < x" "x \<le> 1" "nearest x = x" using assms(1) by (simp_all add: unit_float_def)
  from assms(2) show thesis
  proof (cases rule: factor_cases)
    case (1 k')
    then have f: "f = fround (x * k')" by (simp add: f_def)
    have "2 * x \<le> x * k'" using 1(2) x(1) by (simp add: mult.commute)
    then have "fround (2 * x) \<le> f" unfolding f by (rule fround_mono)
    moreover have "fround (2 * x) = Fin (2 * x)"
    proof (rule fround_exact)
      show "nearest (2 * x) = 2 * x" using x(3) by (rule nearest_double)
      have "\<bar>2 * x\<bar> \<le> 2 ^ 1" using x by simp
      also have "(2 :: rat) ^ 1 < 2 ^ 1024" by (rule power_strict_increasing) auto
      finally show "\<bar>2 * x\<bar> < 2 ^ 1024" .
    qed
    ultimately have le: "Fin (2 * x) \<le> f" by simp
    show thesis
    proof (cases "flt (Fin 1) f")
      case True
      then show thesis using that [of 1] nf by simp
    next
      case False
      have "f \<noteq> NaN" by (simp add: f)
      with le False obtain y where y: "f = Fin y" "2 * x \<le> y" "y \<le> 1" by (cases f) auto
      from y(1) f have "nearest y = y" using nearest_idem by (auto simp: fround_def Let_def split: if_splits)
      with y x have "unit_float y" by (simp add: unit_float_def)
      with False y show thesis using that [of y] nf by simp
    qed
  next
    case 2
    then have "f = PosInf" using x(1) by (simp add: f_def inf_of_def)
    then show thesis using that [of 1] nf by simp
  qed
qed

definition next_count :: "HalvingSpec \<Rightarrow> int \<Rightarrow> int" where
  "next_count spec c =
     max (hs_MinSurvivors spec) (int_Ceil (fdiv (of_int64 c) (of_int64 (hs_ReductionFactor spec))))"

lemma next_count_le:
  assumes "1 \<le> c" "c \<le> 2 ^ 53" "2 \<le> hs_ReductionFactor spec"
  shows "next_count spec c \<le> max (hs_MinSurvivors spec) ((c + 1) div 2)"
proof -
  have c: "of_int64 c = Fin (of_int c)" using assms by (intro of_int64_exact) auto
  have half: "fround (of_int c / 2) = Fin (of_int c / 2)"
  proof (rule fround_exact)
    show "nearest (of_int c / 2) = of_int c / 2"
      by (rule nearest_exact [of _ c "- 1"]) (use assms in \<open>simp_all add: power_int_def\<close>)
    have "(of_int c :: rat) \<le> of_int (2 ^ 53)" using assms(2) by (simp only: of_int_le_iff)
    moreover have "(2 :: rat) ^ 53 < 2 ^ 1024" by (rule power_strict_increasing) auto
    ultimately show "\<bar>of_int c / 2 :: rat\<bar> < 2 ^ 1024" using assms(1) by simp
  qed
  have "int_Ceil (fdiv (of_int64 c) (of_int64 (hs_ReductionFactor spec))) \<le> (c + 1) div 2"
    using assms(3)
  proof (cases rule: factor_cases)
    case (1 k')
    have "of_int c / k' \<le> of_int c / 2" using 1(2) assms(1) by (intro divide_left_mono) auto
    then have "fround (of_int c / k') \<le> Fin (of_int c / 2)" using fround_mono half by metis
    moreover have "Fin 0 \<le> fround (of_int c / k')" using fround_mono [of 0 "of_int c / k'"] 1(2) assms(1) by simp
    ultimately obtain y where y: "fround (of_int c / k') = Fin y" "y \<le> of_int c / 2"
      by (cases "fround (of_int c / k')") auto
    have "\<lceil>y\<rceil> \<le> (c + 1) div 2"
    proof (rule ceiling_le)
      have "c \<le> 2 * ((c + 1) div 2)" by linarith
      then have "(of_int c :: rat) \<le> of_int (2 * ((c + 1) div 2))" by (simp only: of_int_le_iff)
      with y(2) show "y \<le> of_int ((c + 1) div 2)" by simp
    qed
    with 1 y c show ?thesis by (simp add: int_Ceil_def)
  next
    case 2
    with c assms(1) show ?thesis by (simp add: int_Ceil_def)
  qed
  then show ?thesis by (auto simp: next_count_def)
qed

lemma next_count_ge: "hs_MinSurvivors spec \<le> next_count spec c"
  by (simp add: next_count_def)

lemma halving_loop_step:
  "halving_loop spec s c f acc =
     (let stages = acc @ [\<lparr>hp_Stage = s, hp_CandidateCount = c, hp_DatasetFraction = roundSearchFloat f\<rparr>]
      in if (c \<le> hs_MinSurvivors spec \<or> next_count spec c = c) \<and> fle (Fin 1) f then Some stages
         else halving_loop spec (s + 1) (next_count spec c) (next_fraction spec f) stages)"
proof -
  have nc: "(if c' < m then m else c') = max m c'" for c' m :: int by (simp add: max_def)
  show ?thesis by (subst halving_loop.simps) (simp add: Let_def nc next_count_def [symmetric] next_fraction_def)
qed

lemma roundSearchFloat_1: "roundSearchFloat (Fin 1) = Fin 1"
proof -
  have "fround round_scale = Fin round_scale" using of_int64_exact [of "10 ^ 12"] by (simp add: of_int64_def round_scale_def)
  moreover have "round_away round_scale = 10 ^ 12" by (simp add: round_away_def round_scale_def floor_eq_iff)
  moreover have "round_scale \<noteq> 0" "of_int (10 ^ 12) = round_scale" by (simp_all add: round_scale_def)
  ultimately show ?thesis by (simp add: roundSearchFloat_def)
qed

text \<open>What a plan from a given stage on looks like.\<close>

definition plan_from :: "HalvingSpec \<Rightarrow> int \<Rightarrow> HalvingStagePlan list \<Rightarrow> bool" where
  "plan_from spec c ss \<longleftrightarrow>
     ss \<noteq> [] \<and> hp_CandidateCount (hd ss) = c \<and> hp_DatasetFraction (last ss) = Fin 1 \<and>
     (hs_MinSurvivors spec \<le> c \<longrightarrow>
        sorted_wrt (\<ge>) (map hp_CandidateCount ss) \<and> hp_CandidateCount (last ss) = hs_MinSurvivors spec)"

lemma plan_from_Cons:
  assumes "plan_from spec c' ss" "hs_MinSurvivors spec \<le> c'" "hs_MinSurvivors spec \<le> c \<Longrightarrow> c' \<le> c"
  shows "plan_from spec c (\<lparr>hp_Stage = s, hp_CandidateCount = c, hp_DatasetFraction = f\<rparr> # ss)"
proof -
  from assms(1) have "ss \<noteq> []" by (simp add: plan_from_def)
  have "\<forall>n\<in>set (map hp_CandidateCount ss). n \<le> c'"
  proof (cases ss)
    case (Cons a list)
    with assms(1,2) show ?thesis by (auto simp: plan_from_def)
  qed simp
  with assms \<open>ss \<noteq> []\<close> show ?thesis by (fastforce simp: plan_from_def)
qed

lemma halving_full_returns:
  assumes "1 \<le> c" "c \<le> 2 ^ 53" "2 \<le> hs_ReductionFactor spec" "1 \<le> hs_MinSurvivors spec" "hs_MinSurvivors spec \<le> 2 ^ 53"
  shows "\<exists>ss. halving_loop spec s c (Fin 1) acc = Some (acc @ ss) \<and> plan_from spec c ss"
  using assms(1,2)
proof (induction "nat c" arbitrary: c s acc rule: less_induct)
  case less
  let ?st = "\<lparr>hp_Stage = s, hp_CandidateCount = c, hp_DatasetFraction = Fin 1\<rparr>"
  have le1: "fle (Fin 1) (Fin 1)" by (simp add: fle_iff)
  show ?case
  proof (cases "c \<le> hs_MinSurvivors spec")
    case True
    with le1 have "halving_loop spec s c (Fin 1) acc = Some (acc @ [?st])"
      by (simp add: halving_loop_step [of spec s c] roundSearchFloat_1)
    with True show ?thesis by (intro exI [of _ "[?st]"]) (auto simp: plan_from_def)
  next
    case False
    let ?n = "next_count spec c"
    have n: "?n < c" using next_count_le [OF less.prems assms(3)] False assms(4) by auto
    have m: "hs_MinSurvivors spec \<le> ?n" by (rule next_count_ge)
    from next_fraction_doubles [OF unit_float_1 assms(3)] have f: "next_fraction spec (Fin 1) = Fin 1"
      by (force simp: unit_float_def)
    have "nat ?n < nat c" "1 \<le> ?n" "?n \<le> 2 ^ 53" using n m assms(4) less.prems by auto
    from less.hyps [OF this, of "s + 1" "acc @ [?st]"] obtain ss where
      ss: "halving_loop spec (s + 1) ?n (Fin 1) (acc @ [?st]) = Some (acc @ ?st # ss)" "plan_from spec ?n ss" by auto
    have "halving_loop spec s c (Fin 1) acc = Some (acc @ ?st # ss)"
      using n False ss(1) f by (simp add: halving_loop_step [of spec s c] roundSearchFloat_1 Let_def)
    moreover have "plan_from spec c (?st # ss)" by (rule plan_from_Cons [OF ss(2) m]) (use n in simp)
    ultimately show ?thesis by blast
  qed
qed

lemma halving_loop_returns:
  assumes "2 \<le> hs_ReductionFactor spec" "1 \<le> hs_MinSurvivors spec" "hs_MinSurvivors spec \<le> 2 ^ 53"
  shows "unit_float x \<Longrightarrow> 2 powi (- int n) \<le> x \<Longrightarrow> 1 \<le> c \<Longrightarrow> c \<le> 2 ^ 53 \<Longrightarrow>
    \<exists>ss. halving_loop spec s c (Fin x) acc = Some (acc @ ss) \<and> plan_from spec c ss"
proof (induction n arbitrary: x c s acc)
  case 0
  then have "x = 1" by (simp add: unit_float_def)
  then show ?case using halving_full_returns [OF 0(3,4) assms] by simp
next
  case (Suc n)
  show ?case
  proof (cases "x = 1")
    case True
    then show ?thesis using halving_full_returns [OF Suc.prems(3,4) assms] by simp
  next
    case False
    then have "\<not> fle (Fin 1) (Fin x)" using Suc.prems(1) by (simp add: fle_iff unit_float_def)
    let ?st = "\<lparr>hp_Stage = s, hp_CandidateCount = c, hp_DatasetFraction = roundSearchFloat (Fin x)\<rparr>"
    let ?n = "next_count spec c"
    have m: "hs_MinSurvivors spec \<le> ?n" by (rule next_count_ge)
    have n: "?n \<le> max (hs_MinSurvivors spec) ((c + 1) div 2)" by (rule next_count_le [OF Suc.prems(3,4) assms(1)])
    then have "?n \<le> 2 ^ 53" "1 \<le> ?n" "hs_MinSurvivors spec \<le> c \<Longrightarrow> ?n \<le> c" using m assms Suc.prems(3,4) by auto
    obtain y where y: "next_fraction spec (Fin x) = Fin y" "unit_float y" "y = 1 \<or> 2 * x \<le> y"
      using Suc.prems(1) assms(1) by (rule next_fraction_doubles)
    have "2 powi (- int n) \<le> y"
    proof -
      have "(2 :: rat) powi (1 + - int (Suc n)) = 2 powi 1 * 2 powi (- int (Suc n))" by (rule power_int_add) simp
      then have "(2 :: rat) powi (- int n) = 2 * 2 powi (- int (Suc n))" by simp
      with Suc.prems(2) have "(2 :: rat) powi (- int n) \<le> 2 * x" by linarith
      moreover have "(2 :: rat) powi (- int n) \<le> 1" by (simp add: power_int_def power_le_one)
      ultimately show ?thesis using y(3) by auto
    qed
    from Suc.IH [OF y(2) this \<open>1 \<le> ?n\<close> \<open>?n \<le> 2 ^ 53\<close>, of "s + 1" "acc @ [?st]"] obtain ss where
      ss: "halving_loop spec (s + 1) ?n (Fin y) (acc @ [?st]) = Some (acc @ ?st # ss)" "plan_from spec ?n ss" by auto
    have "halving_loop spec s c (Fin x) acc = Some (acc @ ?st # ss)"
      using \<open>\<not> fle (Fin 1) (Fin x)\<close> ss(1) y(1) by (simp add: halving_loop_step [of spec s c] Let_def)
    moreover have "plan_from spec c (?st # ss)"
      by (rule plan_from_Cons [OF ss(2) m]) (rule \<open>hs_MinSurvivors spec \<le> c \<Longrightarrow> ?n \<le> c\<close>)
    ultimately show ?thesis by blast
  qed
qed

lemma normalized_halving_ok:
  "2 \<le> hs_ReductionFactor (normalized_halving spec)" "1 \<le> hs_MinSurvivors (normalized_halving spec)"
  by (simp_all add: normalized_halving_def)

text \<open>
  C1 (termination). The loop that plans successive halving ends, for every positive number of
  candidates and every specification whose initial dataset fraction is a float64 other than NaN, with
  the number of candidates and of survivors wanted at most 2 to the 53, so that float64 holds the counts.
  The plan starts with all the candidates and ends with the whole dataset; and when there are at least
  as many candidates as survivors wanted (at least one is always kept), it never adds candidates from one
  stage to the next and ends with exactly the survivors. For NaN the loop does not end (lemma
  \<open>halving_NaN_diverges\<close>).
\<close>

theorem halving_plan_exists:
  assumes "0 < n" "n \<le> 2 ^ 53" "hs_MinSurvivors spec \<le> 2 ^ 53"
    and "hs_InitialDatasetFraction spec \<noteq> NaN"
    and "case hs_InitialDatasetFraction spec of Fin x \<Rightarrow> nearest x = x | _ \<Rightarrow> True"
  shows "\<exists>stages. buildHalvingPlan n spec = Some stages \<and> stages \<noteq> [] \<and>
    hp_CandidateCount (hd stages) = n \<and> hp_DatasetFraction (last stages) = Fin 1 \<and>
    (max 1 (hs_MinSurvivors spec) \<le> n \<longrightarrow>
       sorted_wrt (\<ge>) (map hp_CandidateCount stages) \<and>
       hp_CandidateCount (last stages) = max 1 (hs_MinSurvivors spec))"
proof -
  let ?s = "normalized_halving spec"
  let ?f = "hs_InitialDatasetFraction spec"
  have "\<exists>x. hs_InitialDatasetFraction ?s = Fin x \<and> unit_float x"
  proof (cases "fle ?f (Fin 0) \<or> flt (Fin 1) ?f")
    case True
    then show ?thesis using unit_float_1 by (simp add: normalized_halving_def)
  next
    case False
    with assms(4,5) obtain y where "?f = Fin y" "unit_float y"
      by (cases ?f) (auto simp: fle_iff flt_iff unit_float_def)
    with False show ?thesis by (simp add: normalized_halving_def)
  qed
  then obtain x where x: "hs_InitialDatasetFraction ?s = Fin x" "unit_float x" by blast
  have m: "hs_MinSurvivors ?s = max 1 (hs_MinSurvivors spec)" by (simp add: normalized_halving_def)
  then have ms: "hs_MinSurvivors ?s \<le> 2 ^ 53" using assms(3) by simp
  have n: "1 \<le> n" using assms(1) by simp
  have low: "2 powi (- int 1074) \<le> x" using unit_float_min [OF x(2)] by simp
  from halving_loop_returns [OF normalized_halving_ok ms x(2) low n assms(2), of 0 "[]"] obtain ss where "halving_loop ?s 0 n (Fin x) [] = Some ss" "plan_from ?s n ss" by auto
  with assms(1) x(1) m show ?thesis by (auto simp: buildHalvingPlan_def Let_def plan_from_def)
qed

lemma halving_loop_number:
  assumes "halving_loop sp s c f acc = Some r"
  shows "f \<noteq> NaN"
proof (rule halving_loop.raw_induct [where P = "\<lambda>sp s c f acc r. f \<noteq> NaN", OF _ assms])
  fix loop sp s c f acc r
  assume IH: "\<And>sp s c f acc r. loop sp s c f acc = Some r \<Longrightarrow> f \<noteq> NaN"
    and body: "(let stages = acc @ [\<lparr>hp_Stage = s, hp_CandidateCount = c, hp_DatasetFraction = roundSearchFloat f\<rparr>]
      in if c \<le> hs_MinSurvivors sp \<and> fle (Fin 1) f then Some stages
         else let c' = int_Ceil (fdiv (of_int64 c) (of_int64 (hs_ReductionFactor sp)));
                  nextCount = (if c' < hs_MinSurvivors sp then hs_MinSurvivors sp else c')
              in if nextCount = c \<and> fle (Fin 1) f then Some stages
                 else let g = fmul f (of_int64 (hs_ReductionFactor sp))
                      in loop sp (s + 1) nextCount (if flt (Fin 1) g then Fin 1 else g) stages) = Some r"
  have nan: "\<not> fle (Fin 1) NaN" "\<not> flt (Fin 1) NaN" "fmul NaN g = NaN" for g by (simp_all add: fle_iff flt_iff)
  show "f \<noteq> NaN"
  proof
    assume f: "f = NaN"
    from body obtain c' acc' where "loop sp (s + 1) c' NaN acc' = Some r" by (auto simp: f nan Let_def)
    with IH show False by blast
  qed
qed

text \<open>
  A dataset fraction that is not a number passes the checks of \<^verbatim>\<open>buildHalvingPlan\<close>, since
  every comparison with it is false, and then the loop never ends: the planner does not return.
\<close>

lemma halving_NaN_diverges:
  assumes "n \<noteq> 0" "hs_InitialDatasetFraction spec = NaN"
  shows "buildHalvingPlan n spec = None"
proof -
  have "hs_InitialDatasetFraction (normalized_halving spec) = NaN"
    using assms(2) by (simp add: normalized_halving_def fle_iff flt_iff)
  with assms(1) halving_loop_number [of "normalized_halving spec" 0 n NaN "[]"] show ?thesis
    by (cases "halving_loop (normalized_halving spec) 0 n NaN []") (simp_all add: buildHalvingPlan_def Let_def)
qed

text \<open>
  When fewer candidates than the wanted survivors meet a partial dataset, the plan raises their
  number: its second stage asks for more candidates than there are.
\<close>

lemma halving_plan_exceeds_candidates:
  assumes "0 < n" "n < hs_MinSurvivors spec" "hs_MinSurvivors spec \<le> 2 ^ 53"
    and "hs_InitialDatasetFraction spec = Fin x" "unit_float x" "x < 1"
  shows "\<exists>st rest. buildHalvingPlan n spec = Some (st # rest) \<and> rest \<noteq> [] \<and>
    hp_CandidateCount st = n \<and> hp_CandidateCount (hd rest) = hs_MinSurvivors spec"
proof -
  let ?s = "normalized_halving spec"
  let ?st = "\<lparr>hp_Stage = 0, hp_CandidateCount = n, hp_DatasetFraction = roundSearchFloat (Fin x)\<rparr>"
  have m: "hs_MinSurvivors ?s = hs_MinSurvivors spec" "hs_InitialDatasetFraction ?s = Fin x"
    using assms by (auto simp: normalized_halving_def fle_iff flt_iff unit_float_def)
  have "1 \<le> n" "n \<le> 2 ^ 53" using assms(1-3) by simp_all
  note le = next_count_le [OF this normalized_halving_ok(1) [of spec]]
  have c: "next_count ?s n = hs_MinSurvivors spec" using le next_count_ge [of ?s n] m assms(1,2) by auto
  from assms(5) normalized_halving_ok(1) obtain y where y: "next_fraction ?s (Fin x) = Fin y" "unit_float y" by (rule next_fraction_doubles)
  have low: "2 powi (- int 1074) \<le> y" using unit_float_min [OF y(2)] by simp
  have b: "hs_MinSurvivors ?s \<le> 2 ^ 53" "1 \<le> hs_MinSurvivors spec" using m assms by simp_all
  from halving_loop_returns [OF normalized_halving_ok b(1) y(2) low b(2) assms(3), of 1 "[?st]"] obtain ss where
    "halving_loop ?s 1 (hs_MinSurvivors spec) (Fin y) [?st] = Some (?st # ss)" "plan_from ?s (hs_MinSurvivors spec) ss" by auto
  moreover have "\<not> fle (Fin 1) (Fin x)" using assms(6) by (simp add: fle_iff)
  ultimately show ?thesis
    using assms(1) m y(1) c by (auto simp: buildHalvingPlan_def Let_def halving_loop_step [of ?s 0] plan_from_def)
qed

definition ex_halving :: HalvingSpec where
  "ex_halving = \<lparr>hs_InitialDatasetFraction = Fin (1 / 4), hs_ReductionFactor = 2, hs_MinSurvivors = 2\<rparr>"

lemma nearest_quarter: "nearest (1 / 4) = 1 / 4"
  by (rule nearest_exact [of _ 1 "- 2"]) (simp_all add: power_int_def power2_eq_square)

theorem halving_plan_exists_witness:
  "\<exists>stages. buildHalvingPlan 16 ex_halving = Some stages \<and> hp_CandidateCount (hd stages) = 16 \<and>
     hp_DatasetFraction (last stages) = Fin 1 \<and> hp_CandidateCount (last stages) = 2"
  using halving_plan_exists [of 16 ex_halving] by (auto simp: ex_halving_def nearest_quarter)

lemma halving_NaN_diverges_witness:
  "buildHalvingPlan 16 (ex_halving\<lparr>hs_InitialDatasetFraction := NaN\<rparr>) = None"
  by (rule halving_NaN_diverges) simp_all

end
