(* ===== verification/MetricRegistry.thy ===== *)
theory MetricRegistry
  imports Prelude
begin

text \<open>
  The registry of evaluation metrics (\<^verbatim>\<open>internal/eval/metric_registry.go\<close>), by which the optimizer
  and the evaluation policies recognise metric names. Of a definition the name and the two flags
  matter to the program; its texts (description, formula, caveats) are documentation.
\<close>

record MetricDefinition =
  md_Name :: string
  md_Aggregate :: bool
  md_Hidden :: bool

type_synonym MetricRegistry = "(string, MetricDefinition) gomap"

definition PrimaryMetricDeterministicAnswerMatch :: string where
  "PrimaryMetricDeterministicAnswerMatch = ''deterministic_answer_match''"

definition PrimaryMetricPairwiseAccuracy :: string where
  "PrimaryMetricPairwiseAccuracy = ''pairwise_accuracy''"

lemmas primary_metric_defs = PrimaryMetricDeterministicAnswerMatch_def PrimaryMetricPairwiseAccuracy_def

text \<open>The metrics that the catalog \<^verbatim>\<open>metric_catalog.go\<close> hides.\<close>

definition hidden_metrics :: "string list" where
  "hidden_metrics = [''accuracy'', ''hit_rate'', ''cache_hit'', ''missing_split'']"

definition enrichMetricDefinition :: "MetricDefinition \<Rightarrow> MetricDefinition" where
  "enrichMetricDefinition def = (if List.member hidden_metrics (md_Name def) then def\<lparr>md_Hidden := True\<rparr> else def)"

fun registry_loop :: "MetricDefinition list \<Rightarrow> MetricRegistry \<Rightarrow> MetricRegistry" where
  "registry_loop [] metrics = metrics"
| "registry_loop (def # defs) metrics =
     registry_loop defs (if md_Name def = [] then metrics else gput (md_Name def) (enrichMetricDefinition def) metrics)"

definition NewMetricRegistry :: "MetricDefinition list \<Rightarrow> MetricRegistry" where
  "NewMetricRegistry defs = registry_loop defs []"

definition metric :: "string \<Rightarrow> bool \<Rightarrow> MetricDefinition" where
  "metric name aggregate = \<lparr>md_Name = name, md_Aggregate = aggregate, md_Hidden = False\<rparr>"

definition DefaultMetricRegistry :: MetricRegistry where
  "DefaultMetricRegistry = NewMetricRegistry
     [metric PrimaryMetricDeterministicAnswerMatch True, metric ''answer_accuracy'' True, metric ''accuracy'' True,
      metric ''hit_rate'' False, metric PrimaryMetricPairwiseAccuracy True, metric ''pairwise_stability_rate'' True,
      metric ''citation_hit_rate'' True, metric ''context_recall'' True, metric ''citation_precision'' True,
      metric ''latency_ms'' True, metric ''latency_p95_ms'' False, metric ''cache_hit'' True,
      metric ''cache_hit_rate'' False, metric ''ndcg_at_k'' True, metric ''recall_at_k'' True, metric ''mrr'' True,
      metric ''map'' True, metric ''coverage'' True, metric ''retrieval_failure_rate'' True,
      metric ''redundancy_rate'' True, metric ''duplicate_count'' True, metric ''deduped_top_k_count'' True,
      metric ''alpha_ndcg'' True, metric ''aspect_coverage'' True, metric ''faithfulness'' True,
      metric ''groundedness'' True, metric ''answer_relevance'' True, metric ''hallucination'' True,
      metric ''completeness'' True, metric ''citation_support'' True, metric ''qag_score'' True,
      metric ''qag_claim_coverage'' True, metric ''qag_question_count'' True, metric ''qag_unverifiable_rate'' True,
      metric ''instruction_following'' True, metric ''safety'' True, metric ''cost_usd'' False,
      metric ''prompt_tokens'' False, metric ''completion_tokens'' False, metric ''total_tokens'' False,
      metric ''weighted_sample_count'' False, metric ''unweighted_sample_count'' False,
      metric ''missing_split'' False]"

definition IsRegistered :: "MetricRegistry \<Rightarrow> string \<Rightarrow> bool" where
  "IsRegistered r name \<longleftrightarrow> map_of r name \<noteq> None"

definition ShouldAggregate :: "MetricRegistry \<Rightarrow> string \<Rightarrow> bool" where
  "ShouldAggregate r name = (case map_of r name of None \<Rightarrow> False | Some def \<Rightarrow> md_Aggregate def)"

definition metric_Names :: "MetricRegistry \<Rightarrow> string list" where
  "metric_Names r = sort_strings (map fst r)"

text \<open>The public catalog leaves the hidden metrics out and does not publish the flag \<^verbatim>\<open>Aggregate\<close>.\<close>

definition metric_Definitions :: "MetricRegistry \<Rightarrow> MetricDefinition list" where
  "metric_Definitions r =
     sort_by (\<lambda>x y. md_Name x < md_Name y)
       (map (\<lambda>def. def\<lparr>md_Aggregate := False\<rparr>) (filter (\<lambda>def. \<not> md_Hidden def) (map snd r)))"

definition metric_Definition :: "MetricRegistry \<Rightarrow> string \<Rightarrow> MetricDefinition option" where
  "metric_Definition r name = map_option (\<lambda>def. def\<lparr>md_Aggregate := False\<rparr>) (map_of r name)"

text \<open>\<^verbatim>\<open>Validate\<close> names the first unknown metric it meets.\<close>

definition Validate_metrics :: "MetricRegistry \<Rightarrow> (string, 'v) gomap \<Rightarrow> string option" where
  "Validate_metrics r metrics = find (\<lambda>name. \<not> IsRegistered r name) (map fst metrics)"

section \<open>Facts\<close>

lemma dom_registry_loop:
  "map_of (registry_loop defs m) n \<noteq> None \<longleftrightarrow> map_of m n \<noteq> None \<or> n \<noteq> [] \<and> n \<in> md_Name ` set defs"
  by (induction defs arbitrary: m) (auto simp: map_simps)

lemma registered_iff: "IsRegistered (NewMetricRegistry defs) n \<longleftrightarrow> n \<noteq> [] \<and> n \<in> md_Name ` set defs"
  using dom_registry_loop [of defs "[]" n] by (simp add: IsRegistered_def NewMetricRegistry_def)

text \<open>A registry maps each name to a definition of that name.\<close>

lemma names_registry_loop:
  "(\<And>n d. map_of m n = Some d \<Longrightarrow> md_Name d = n) \<Longrightarrow> map_of (registry_loop defs m) n = Some d \<Longrightarrow> md_Name d = n"
proof (induction defs arbitrary: m)
  case (Cons def defs)
  have "md_Name d' = n'"
    if "map_of (if md_Name def = [] then m else gput (md_Name def) (enrichMetricDefinition def) m) n' = Some d'" for n' d'
    using that Cons.prems(1) by (auto simp: map_simps enrichMetricDefinition_def split: if_splits)
  from Cons.IH [OF this] Cons.prems(2) show ?case by simp
qed auto

lemma registry_names: "map_of (NewMetricRegistry defs) n = Some d \<Longrightarrow> md_Name d = n"
  using names_registry_loop [of "[]" defs n d] by (simp add: NewMetricRegistry_def)

lemma Validate_metrics_ok: "Validate_metrics r metrics = None \<longleftrightarrow> (\<forall>n\<in>fst ` set metrics. IsRegistered r n)"
  by (auto simp: Validate_metrics_def find_None_iff)

lemma default_registered:
  "IsRegistered DefaultMetricRegistry ''accuracy''" "IsRegistered DefaultMetricRegistry ''answer_accuracy''"
  "IsRegistered DefaultMetricRegistry ''latency_p95_ms''" "IsRegistered DefaultMetricRegistry ''cost_usd''"
  by (simp_all add: DefaultMetricRegistry_def registered_iff metric_def)

end
