(* ===== verification/OptObjective.thy ===== *)
theory OptObjective
  imports MetricRegistry OptExprProps
begin

text \<open>
  The objective of an optimisation run (\<^verbatim>\<open>internal/optimizer/objective.go\<close>): the score of each
  candidate, its constraints, its comparison with the baseline, and the ranking.
\<close>

section \<open>Data\<close>

datatype Direction = DirectionUnset | Ascending | Descending | DirectionOther string

record TieBreakerSpec =
  tb_Metric :: string
  tb_Direction :: Direction

record BudgetSpec =
  bs_LatencyP95LimitMS :: float64
  bs_CostLimitUSD :: float64

record ObjectiveSpec =
  os_Maximize :: string
  os_Constraints :: "string list"
  os_TieBreakers :: "TieBreakerSpec list"
  os_Budget :: BudgetSpec
  os_BaselineID :: string
  os_SignificanceAlpha :: float64

record PairwiseOutcome =
  po_WinnerID :: string
  po_LoserID :: string
  po_Tie :: bool

record CandidateInput =
  cin_ID :: string
  cin_Metrics :: variables
  cin_Pairwise :: "PairwiseOutcome list"
  cin_CreatedAt :: gotime

record CandidateScore =
  sc_ID :: string
  sc_Score :: float64
  sc_ScoreMetric :: string
  sc_Metrics :: variables
  sc_Normalized :: variables
  sc_PairwiseWinRate :: float64
  sc_HasPairwiseOutcomes :: bool
  sc_ConstraintFailed :: bool
  sc_ConstraintFailures :: "string list"
  sc_SignificantlyBetter :: bool
  sc_CreatedAt :: gotime

text \<open>\<^verbatim>\<open>Best\<close> is the zero value of the struct when there is no candidate.\<close>

record ObjectiveResult =
  or_Best :: "CandidateScore option"
  or_Candidates :: "CandidateScore list"

record compiledConstraint =
  cn_raw :: string
  cn_left :: expressionNode
  cn_op :: string
  cn_right :: expressionNode

datatype objective_error =
    ExprError expr_error | UnknownMetric string | ConstraintNeedsComparison string
  | UnsupportedConstraintOperator string | UnknownTieBreaker string | UnknownTieBreakerDirection

section \<open>Compilation\<close>

definition defaultAllowedVariables :: "string list" where
  "defaultAllowedVariables =
     metric_Names DefaultMetricRegistry @ [''normalized_latency'', ''normalized_cost'', ''pairwise_win_rate'']"

text \<open>Compilation always returns, so the value under \<open>the\<close> exists.\<close>

definition CompileExpression :: "string \<Rightarrow> objective_error + expressionNode" where
  "CompileExpression input = map_sum ExprError id (the (compileExpression defaultAllowedVariables input))"

text \<open>\<^verbatim>\<open>strings.Index\<close>.\<close>

fun str_Index :: "string \<Rightarrow> string \<Rightarrow> nat option" where
  "str_Index [] t = (if t = [] then Some 0 else None)"
| "str_Index (c # cs) t = (if is_prefix t (c # cs) then Some 0 else map_option Suc (str_Index cs t))"

definition comparison_operators :: "string list" where
  "comparison_operators = [''>='', ''<='', ''=='', ''!='', ''>'', ''<'']"

fun find_operator :: "string list \<Rightarrow> string \<Rightarrow> (string \<times> nat) option" where
  "find_operator [] input = None"
| "find_operator (op # ops) input =
     (case str_Index input op of Some idx \<Rightarrow> Some (op, idx) | None \<Rightarrow> find_operator ops input)"

definition findComparisonOperator :: "string \<Rightarrow> (string \<times> nat) option" where
  "findComparisonOperator input = find_operator comparison_operators input"

fun compileConstraints :: "string list \<Rightarrow> objective_error + compiledConstraint list" where
  "compileConstraints [] = Inr []"
| "compileConstraints (spec # specs) =
     (let raw = TrimSpace spec
      in case findComparisonOperator raw of
           None \<Rightarrow> Inl (ConstraintNeedsComparison raw)
         | Some (op, idx) \<Rightarrow>
             (case CompileExpression (TrimSpace (take idx raw)) of
                Inl err \<Rightarrow> Inl err
              | Inr left \<Rightarrow>
                  (case CompileExpression (TrimSpace (drop (idx + length op) raw)) of
                     Inl err \<Rightarrow> Inl err
                   | Inr right \<Rightarrow>
                       map_sum id ((#) \<lparr>cn_raw = raw, cn_left = left, cn_op = op, cn_right = right\<rparr>) (compileConstraints specs))))"

definition constraint_evaluate :: "compiledConstraint \<Rightarrow> variables \<Rightarrow> objective_error + bool" where
  "constraint_evaluate c vars =
     (case Evaluate (cn_left c) vars of
        Inl err \<Rightarrow> Inl (ExprError err)
      | Inr left \<Rightarrow>
          (case Evaluate (cn_right c) vars of
             Inl err \<Rightarrow> Inl (ExprError err)
           | Inr right \<Rightarrow>
               if cn_op c = ''>='' then Inr (fle right left)
               else if cn_op c = ''<='' then Inr (fle left right)
               else if cn_op c = ''>'' then Inr (flt right left)
               else if cn_op c = ''<'' then Inr (flt left right)
               else if cn_op c = ''=='' then Inr (feq left right)
               else if cn_op c = ''!='' then Inr (\<not> feq left right)
               else Inl (UnsupportedConstraintOperator (cn_op c))))"

fun validateTieBreakers :: "TieBreakerSpec list \<Rightarrow> objective_error option" where
  "validateTieBreakers [] = None"
| "validateTieBreakers (t # ts) =
     (if tb_Metric t \<noteq> ''created_at'' \<and> \<not> IsRegistered DefaultMetricRegistry (tb_Metric t)
      then Some (UnknownTieBreaker (tb_Metric t))
      else if tb_Direction t \<noteq> DirectionUnset \<and> tb_Direction t \<noteq> Ascending \<and> tb_Direction t \<noteq> Descending
      then Some UnknownTieBreakerDirection
      else validateTieBreakers ts)"

section \<open>Values of a candidate\<close>

text \<open>A constant of the source, rounded once.\<close>

abbreviation const_float :: "rat \<Rightarrow> float64" where
  "const_float x \<equiv> fround x"

definition clamp01 :: "float64 \<Rightarrow> float64" where
  "clamp01 value =
     (if flt value (Fin 0) then Fin 0 else if flt (Fin 1) value then Fin 1 else roundFloat value)"

definition normalizedValues :: "ObjectiveSpec \<Rightarrow> variables \<Rightarrow> variables" where
  "normalizedValues spec metrics =
     (let b = os_Budget spec
      in [(''normalized_latency'',
             if flt (Fin 0) (bs_LatencyP95LimitMS b)
             then clamp01 (fdiv (gget0 (Fin 0) metrics ''latency_p95_ms'') (bs_LatencyP95LimitMS b)) else Fin 0),
          (''normalized_cost'',
             if flt (Fin 0) (bs_CostLimitUSD b)
             then clamp01 (fdiv (gget0 (Fin 0) metrics ''cost_usd'') (bs_CostLimitUSD b)) else Fin 0)])"

definition involves :: "string \<Rightarrow> PairwiseOutcome \<Rightarrow> bool" where
  "involves i out = (po_WinnerID out = i \<or> po_LoserID out = i)"

fun win_rate_loop :: "string \<Rightarrow> string \<Rightarrow> PairwiseOutcome list \<Rightarrow> float64 \<Rightarrow> float64 \<Rightarrow> float64 \<times> float64" where
  "win_rate_loop candidateID baselineID [] played_total wins = (played_total, wins)"
| "win_rate_loop candidateID baselineID (outcome # outcomes) played_total wins =
     (if \<not> involves candidateID outcome then win_rate_loop candidateID baselineID outcomes played_total wins
      else if baselineID \<noteq> [] \<and> candidateID \<noteq> baselineID \<and> \<not> involves baselineID outcome
      then win_rate_loop candidateID baselineID outcomes played_total wins
      else win_rate_loop candidateID baselineID outcomes (fadd played_total (Fin 1))
             (if po_Tie outcome then fadd wins (const_float (1 / 2))
              else if po_WinnerID outcome = candidateID then fadd wins (Fin 1) else wins))"

definition pairwiseWinRate :: "string \<Rightarrow> string \<Rightarrow> PairwiseOutcome list \<Rightarrow> float64" where
  "pairwiseWinRate candidateID baselineID outcomes =
     (let (played_total, wins) = win_rate_loop candidateID baselineID outcomes (Fin 0) (Fin 0)
      in if feq played_total (Fin 0) then Fin 0 else roundFloat (fdiv wins played_total))"

definition variablesForCandidate :: "ObjectiveSpec \<Rightarrow> CandidateInput \<Rightarrow> variables" where
  "variablesForCandidate spec candidate =
     gput ''pairwise_win_rate'' (pairwiseWinRate (cin_ID candidate) (os_BaselineID spec) (cin_Pairwise candidate))
       (fold (\<lambda>(name, value) vars. gput name value vars) (normalizedValues spec (cin_Metrics candidate)) (cin_Metrics candidate))"

definition pairwiseWinsAgainstBaseline :: "string \<Rightarrow> string \<Rightarrow> PairwiseOutcome list \<Rightarrow> int \<times> int" where
  "pairwiseWinsAgainstBaseline candidateID baselineID outcomes =
     (let played = filter (\<lambda>x. involves candidateID x \<and> involves baselineID x) outcomes
      in (int (length (filter (\<lambda>x. po_WinnerID x = candidateID \<and> \<not> po_Tie x) played)), int (length played)))"

definition significantlyBetterThanBaseline :: "ObjectiveSpec \<Rightarrow> CandidateInput \<Rightarrow> float64 \<Rightarrow> bool" where
  "significantlyBetterThanBaseline spec candidate winRate =
     (if os_BaselineID spec = [] \<or> cin_ID candidate = os_BaselineID spec then False
      else let alpha = (if fle (os_SignificanceAlpha spec) (Fin 0) then const_float (5 / 100) else os_SignificanceAlpha spec);
               (wins, played_total) = pairwiseWinsAgainstBaseline (cin_ID candidate) (os_BaselineID spec) (cin_Pairwise candidate)
           in if played_total = 0 then False
              else if wins = played_total \<and> flt (const_float (1 / 2)) winRate then True
              else let z = (if fle alpha (const_float (1 / 100)) then const_float (258 / 100) else const_float (196 / 100));
                       p = fdiv (of_int64 wins) (of_int64 played_total);
                       margin = fmul z (fsqrt (fdiv (fmul p (fsub (Fin 1) p)) (of_int64 played_total)))
                   in flt (const_float (1 / 2)) (fsub p margin))"

section \<open>Ranking\<close>

text \<open>\<^verbatim>\<open>UnixNano\<close>, which wraps around beyond the range of \<^verbatim>\<open>int64\<close>.\<close>

definition UnixNano :: "gotime \<Rightarrow> int" where
  "UnixNano t = sint (word_of_int (t - 62135596800 * Second) :: 64 word)"

definition tieBreakerValue :: "CandidateScore \<Rightarrow> string \<Rightarrow> float64" where
  "tieBreakerValue candidate m =
     (if m = ''created_at'' then of_int64 (UnixNano (sc_CreatedAt candidate)) else gget0 (Fin 0) (sc_Metrics candidate) m)"

fun tie_break :: "CandidateScore \<Rightarrow> CandidateScore \<Rightarrow> TieBreakerSpec list \<Rightarrow> bool" where
  "tie_break left right [] = (sc_ID left < sc_ID right)"
| "tie_break left right (t # ts) =
     (let leftValue = tieBreakerValue left (tb_Metric t); rightValue = tieBreakerValue right (tb_Metric t)
      in if feq leftValue rightValue then tie_break left right ts
         else if tb_Direction t = Descending then flt rightValue leftValue
         else flt leftValue rightValue)"

definition compareCandidateScores :: "TieBreakerSpec list \<Rightarrow> CandidateScore \<Rightarrow> CandidateScore \<Rightarrow> bool" where
  "compareCandidateScores tieBreakers left right =
     (if sc_ConstraintFailed left \<noteq> sc_ConstraintFailed right then \<not> sc_ConstraintFailed left
      else if \<not> feq (sc_Score left) (sc_Score right) then flt (sc_Score right) (sc_Score left)
      else tie_break left right tieBreakers)"

section \<open>The objective\<close>

definition candidatesHavePairwiseOutcomes :: "CandidateInput list \<Rightarrow> bool" where
  "candidatesHavePairwiseOutcomes candidates = list_ex (\<lambda>c. cin_Pairwise c \<noteq> []) candidates"

definition some_has :: "string \<Rightarrow> CandidateInput list \<Rightarrow> bool" where
  "some_has m candidates = list_ex (\<lambda>c. map_of (cin_Metrics c) m \<noteq> None) candidates"

definition defaultObjectiveMetric :: "CandidateInput list \<Rightarrow> string" where
  "defaultObjectiveMetric candidates =
     (if candidatesHavePairwiseOutcomes candidates then ''pairwise_win_rate''
      else if some_has PrimaryMetricDeterministicAnswerMatch candidates then PrimaryMetricDeterministicAnswerMatch
      else if some_has ''answer_accuracy'' candidates then ''answer_accuracy''
      else if some_has ''accuracy'' candidates then ''accuracy''
      else if some_has PrimaryMetricPairwiseAccuracy candidates then PrimaryMetricPairwiseAccuracy
      else PrimaryMetricDeterministicAnswerMatch)"

fun failed_constraints :: "compiledConstraint list \<Rightarrow> variables \<Rightarrow> objective_error + string list" where
  "failed_constraints [] vars = Inr []"
| "failed_constraints (c # cs) vars =
     (case constraint_evaluate c vars of
        Inl err \<Rightarrow> Inl err
      | Inr passed \<Rightarrow> map_sum id (\<lambda>fs. if passed then fs else cn_raw c # fs) (failed_constraints cs vars))"

definition score_candidate ::
  "ObjectiveSpec \<Rightarrow> string \<Rightarrow> expressionNode \<Rightarrow> compiledConstraint list \<Rightarrow> CandidateInput \<Rightarrow> objective_error + CandidateScore" where
  "score_candidate spec maximize objectiveExpr constraints candidate =
     (let vars = variablesForCandidate spec candidate;
          rate = gget0 (Fin 0) vars ''pairwise_win_rate''
      in case Evaluate objectiveExpr vars of
           Inl err \<Rightarrow> Inl (ExprError err)
         | Inr score \<Rightarrow>
             map_sum id (\<lambda>failures.
               \<lparr>sc_ID = cin_ID candidate, sc_Score = score, sc_ScoreMetric = maximize, sc_Metrics = cin_Metrics candidate,
                sc_Normalized = normalizedValues spec (cin_Metrics candidate), sc_PairwiseWinRate = rate,
                sc_HasPairwiseOutcomes = (cin_Pairwise candidate \<noteq> []), sc_ConstraintFailed = (failures \<noteq> []),
                sc_ConstraintFailures = failures,
                sc_SignificantlyBetter = significantlyBetterThanBaseline spec candidate rate,
                sc_CreatedAt = cin_CreatedAt candidate\<rparr>) (failed_constraints constraints vars))"

fun score_all :: "(CandidateInput \<Rightarrow> objective_error + CandidateScore) \<Rightarrow> CandidateInput list \<Rightarrow>
    objective_error + CandidateScore list" where
  "score_all f [] = Inr []"
| "score_all f (c # cs) = (case f c of Inl err \<Rightarrow> Inl err | Inr s \<Rightarrow> map_sum id ((#) s) (score_all f cs))"

fun first_unknown_metric :: "CandidateInput list \<Rightarrow> string option" where
  "first_unknown_metric [] = None"
| "first_unknown_metric (c # cs) =
     (case Validate_metrics DefaultMetricRegistry (cin_Metrics c) of Some name \<Rightarrow> Some name | None \<Rightarrow> first_unknown_metric cs)"

definition EvaluateObjective :: "ObjectiveSpec \<Rightarrow> CandidateInput list \<Rightarrow> objective_error + ObjectiveResult" where
  "EvaluateObjective spec candidates =
     (let m = TrimSpace (os_Maximize spec);
          maximize = (if m = [] then defaultObjectiveMetric candidates else m)
      in case first_unknown_metric candidates of
           Some name \<Rightarrow> Inl (UnknownMetric name)
         | None \<Rightarrow>
             (case CompileExpression maximize of
                Inl err \<Rightarrow> Inl err
              | Inr objectiveExpr \<Rightarrow>
                  (case compileConstraints (os_Constraints spec) of
                     Inl err \<Rightarrow> Inl err
                   | Inr constraints \<Rightarrow>
                       (case validateTieBreakers (os_TieBreakers spec) of
                          Some err \<Rightarrow> Inl err
                        | None \<Rightarrow>
                            map_sum id (\<lambda>scores.
                              let sorted_scores = sort_by (compareCandidateScores (os_TieBreakers spec)) scores
                              in \<lparr>or_Best = (case sorted_scores of [] \<Rightarrow> None | s # _ \<Rightarrow> Some s), or_Candidates = sorted_scores\<rparr>)
                              (score_all (score_candidate spec maximize objectiveExpr constraints) candidates)))))"

end
