(* ===== verification/OptObjectiveProps.thy ===== *)
theory OptObjectiveProps
  imports OptObjective
begin

text \<open>
  Properties of the objective: the comparator of the ranking is the order of a key, so the ranking
  is determined by the candidates alone, the best candidate meets the constraints whenever one does,
  and no passing candidate beats its score.
\<close>

section \<open>The key of the ranking\<close>

definition tie_key :: "CandidateScore \<Rightarrow> TieBreakerSpec \<Rightarrow> float64" where
  "tie_key s t =
     (let v = tieBreakerValue s (tb_Metric t) in if tb_Direction t = Descending then fneg v else v)"

definition score_key :: "TieBreakerSpec list \<Rightarrow> CandidateScore \<Rightarrow> bool \<times> float64 \<times> float64 list \<times> string" where
  "score_key tbs s = (sc_ConstraintFailed s, fneg (sc_Score s), map (tie_key s) tbs, sc_ID s)"

text \<open>Scores that the comparator can order: a NaN among the compared values defeats every comparison.\<close>

definition rankable :: "TieBreakerSpec list \<Rightarrow> CandidateScore \<Rightarrow> bool" where
  "rankable tbs s \<longleftrightarrow> sc_Score s \<noteq> NaN \<and> list_all (\<lambda>t. tieBreakerValue s (tb_Metric t) \<noteq> NaN) tbs"

lemma fneg_eq_NaN [simp]: "fneg x = NaN \<longleftrightarrow> x = NaN"
  by (cases x) auto

lemma fneg_le [simp]: "x \<noteq> NaN \<Longrightarrow> y \<noteq> NaN \<Longrightarrow> fneg x \<le> fneg y \<longleftrightarrow> y \<le> x"
  by (auto simp: le_less)

lemma tie_break_key:
  "list_all (\<lambda>t. tieBreakerValue l (tb_Metric t) \<noteq> NaN) tbs \<Longrightarrow> list_all (\<lambda>t. tieBreakerValue r (tb_Metric t) \<noteq> NaN) tbs \<Longrightarrow>
     tie_break l r tbs \<longleftrightarrow> (map (tie_key l) tbs, sc_ID l) < (map (tie_key r) tbs, sc_ID r)"
proof (induction tbs)
  case (Cons t ts)
  then show ?case by (auto simp: Let_def tie_key_def feq_iff flt_iff)
qed simp

lemma compare_key:
  "rankable tbs l \<Longrightarrow> rankable tbs r \<Longrightarrow>
     compareCandidateScores tbs l r \<longleftrightarrow> score_key tbs l < score_key tbs r"
  by (cases "sc_ConstraintFailed l"; cases "sc_ConstraintFailed r")
    (auto simp: compareCandidateScores_def score_key_def rankable_def feq_iff flt_iff tie_break_key less_le)

interpretation ranking: keyed_less "\<lambda>l r. score_key tbs l < score_key tbs r" "score_key tbs" for tbs
  by unfold_locales (rule refl)

lemma ranking_is_key_order:
  "list_all (rankable tbs) ss \<Longrightarrow>
     sort_by (compareCandidateScores tbs) ss = sort_by (\<lambda>l r. score_key tbs l < score_key tbs r) ss"
  by (rule sort_by_cong) (simp add: list_all_iff compare_key)

section \<open>The scores\<close>

lemma score_all_map:
  "score_all f cs = Inr ss \<longleftrightarrow> list_all (\<lambda>c. isl (f c) = False) cs \<and> ss = map (\<lambda>c. projr (f c)) cs"
proof (induction cs arbitrary: ss)
  case (Cons c cs)
  show ?case
    using Cons.IH [of "map (\<lambda>c. projr (f c)) cs"] Cons.IH by (cases "f c"; cases "score_all f cs") auto
qed auto

definition metrics_no_NaN :: "CandidateInput \<Rightarrow> bool" where
  "metrics_no_NaN c \<longleftrightarrow> list_all (\<lambda>(n, v). v \<noteq> NaN) (cin_Metrics c)"

lemma gget0_no_NaN: "list_all (\<lambda>(n, v). v \<noteq> NaN) m \<Longrightarrow> gget0 (Fin 0) m k \<noteq> NaN"
  by (auto simp: gget0_def list_all_iff split: option.splits dest: map_of_SomeD)

lemma Evaluate_finite: "Evaluate e vars = Inr v \<Longrightarrow> is_finite v"
  by (auto simp: Evaluate_def Let_def split: sum.splits if_splits)

lemma score_candidate_fields:
  assumes "score_candidate spec m e cs c = Inr s"
  shows "sc_ID s = cin_ID c" "sc_Metrics s = cin_Metrics c" "is_finite (sc_Score s)"
    "sc_ConstraintFailed s \<longleftrightarrow> sc_ConstraintFailures s \<noteq> []"
proof -
  let ?v = "variablesForCandidate spec c"
  from assms obtain v fs where "Evaluate e ?v = Inr v" "failed_constraints cs ?v = Inr fs"
    by (cases "Evaluate e ?v"; cases "failed_constraints cs ?v") (auto simp: score_candidate_def Let_def)
  with assms Evaluate_finite [of e ?v v] show "sc_ID s = cin_ID c" "sc_Metrics s = cin_Metrics c" "is_finite (sc_Score s)"
    "sc_ConstraintFailed s \<longleftrightarrow> sc_ConstraintFailures s \<noteq> []"
    by (auto simp: score_candidate_def Let_def)
qed

lemma score_rankable:
  assumes "score_candidate spec m e cs c = Inr s" "metrics_no_NaN c"
  shows "rankable tbs s"
proof -
  note f = score_candidate_fields [OF assms(1)]
  have "tieBreakerValue s k \<noteq> NaN" for k
    using gget0_no_NaN [of "cin_Metrics c" k] assms(2) by (simp add: tieBreakerValue_def f(2) metrics_no_NaN_def of_int64_def)
  moreover have "sc_Score s \<noteq> NaN" using f(3) by auto
  ultimately show ?thesis by (simp add: rankable_def list_all_iff)
qed

section \<open>The result\<close>

text \<open>What a successful evaluation has computed.\<close>

lemma EvaluateObjective_result:
  assumes "EvaluateObjective spec cs = Inr r"
  obtains m e ks where
    "m = (if TrimSpace (os_Maximize spec) = [] then defaultObjectiveMetric cs else TrimSpace (os_Maximize spec))"
    "first_unknown_metric cs = None" "CompileExpression m = Inr e" "compileConstraints (os_Constraints spec) = Inr ks"
    "validateTieBreakers (os_TieBreakers spec) = None"
    "list_all (\<lambda>c. isl (score_candidate spec m e ks c) = False) cs"
    "or_Candidates r = sort_by (compareCandidateScores (os_TieBreakers spec)) (map (\<lambda>c. projr (score_candidate spec m e ks c)) cs)"
    "or_Best r = (case or_Candidates r of [] \<Rightarrow> None | s # _ \<Rightarrow> Some s)"
proof -
  let ?m = "if TrimSpace (os_Maximize spec) = [] then defaultObjectiveMetric cs else TrimSpace (os_Maximize spec)"
  from assms obtain e ks ss where
    "first_unknown_metric cs = None" "CompileExpression ?m = Inr e" "compileConstraints (os_Constraints spec) = Inr ks"
    "validateTieBreakers (os_TieBreakers spec) = None" and ss: "score_all (score_candidate spec ?m e ks) cs = Inr ss"
    "r = \<lparr>or_Best = (case sort_by (compareCandidateScores (os_TieBreakers spec)) ss of [] \<Rightarrow> None | s # _ \<Rightarrow> Some s),
          or_Candidates = sort_by (compareCandidateScores (os_TieBreakers spec)) ss\<rparr>"
    unfolding EvaluateObjective_def Let_def
    by (auto split: option.splits sum.splits simp: map_sum_def Let_def)
  moreover from ss(1) have "list_all (\<lambda>c. isl (score_candidate spec ?m e ks c) = False) cs"
    "ss = map (\<lambda>c. projr (score_candidate spec ?m e ks c)) cs" unfolding score_all_map by simp_all
  ultimately show thesis using that [of ?m e ks] by simp
qed

lemma scores_of:
  assumes "list_all (\<lambda>c. isl (f c) = False) cs" "s \<in> set (map (\<lambda>c. projr (f c)) cs)"
  obtains c where "c \<in> set cs" "f c = Inr s"
  using assms by (auto simp: list_all_iff)

lemma objective_rankable:
  assumes "list_all (\<lambda>c. isl (score_candidate spec m e ks c) = False) cs" "list_all metrics_no_NaN cs"
  shows "list_all (rankable tbs) (map (\<lambda>c. projr (score_candidate spec m e ks c)) cs)"
  unfolding list_all_iff
proof
  fix s assume "s \<in> set (map (\<lambda>c. projr (score_candidate spec m e ks c)) cs)"
  then obtain c where "c \<in> set cs" "score_candidate spec m e ks c = Inr s" using scores_of [OF assms(1)] by blast
  with assms(2) show "rankable tbs s" using score_rankable by (auto simp: list_all_iff)
qed

lemma map_ID_scores:
  "list_all (\<lambda>c. isl (score_candidate spec m e ks c) = False) cs \<Longrightarrow>
     map (\<lambda>c. sc_ID (projr (score_candidate spec m e ks c))) cs = map cin_ID cs"
  by (induction cs) (auto, metis score_candidate_fields(1) sum.collapse(2))

section \<open>Constraints\<close>

text \<open>
  The meaning of a constraint, apart from the code that compiles and evaluates it: its text is split at
  its comparison operator, both sides have finite values, and the values compare as the operator says.
\<close>

fun compares :: "string \<Rightarrow> float64 \<Rightarrow> float64 \<Rightarrow> bool" where
  "compares op (Fin x) (Fin y) \<longleftrightarrow>
     op = ''>='' \<and> y \<le> x \<or> op = ''<='' \<and> x \<le> y \<or> op = ''>'' \<and> y < x \<or> op = ''<'' \<and> x < y \<or>
     op = ''=='' \<and> x = y \<or> op = ''!='' \<and> x \<noteq> y"
| "compares op _ _ \<longleftrightarrow> False"

definition value_of :: "string \<Rightarrow> variables \<Rightarrow> float64 option" where
  "value_of text vars =
     (case CompileExpression (TrimSpace text) of
        Inl err \<Rightarrow> None | Inr e \<Rightarrow> (case Evaluate e vars of Inl err \<Rightarrow> None | Inr v \<Rightarrow> Some v))"

definition constraint_holds :: "string \<Rightarrow> variables \<Rightarrow> bool" where
  "constraint_holds raw vars \<longleftrightarrow>
     (case findComparisonOperator raw of
        None \<Rightarrow> False
      | Some (op, idx) \<Rightarrow>
          (case (value_of (take idx raw) vars, value_of (drop (idx + length op) raw) vars) of
             (Some x, Some y) \<Rightarrow> compares op x y | _ \<Rightarrow> False))"

text \<open>A score is that of a candidate: its value of the objective and the constraints it violates.\<close>

definition scored_as :: "ObjectiveSpec \<Rightarrow> string \<Rightarrow> CandidateInput \<Rightarrow> CandidateScore \<Rightarrow> bool" where
  "scored_as spec maximize c s \<longleftrightarrow>
     sc_ID s = cin_ID c \<and>
     value_of maximize (variablesForCandidate spec c) = Some (sc_Score s) \<and>
     sc_ConstraintFailures s =
       filter (\<lambda>raw. \<not> constraint_holds raw (variablesForCandidate spec c)) (map TrimSpace (os_Constraints spec)) \<and>
     (sc_ConstraintFailed s \<longleftrightarrow>
       (\<exists>spec_text \<in> set (os_Constraints spec). \<not> constraint_holds (TrimSpace spec_text) (variablesForCandidate spec c)))"

lemma find_operator_in: "find_operator ops input = Some (op, idx) \<Longrightarrow> op \<in> set ops"
  by (induction ops) (auto split: option.splits)

lemma constraint_evaluate_holds:
  assumes "findComparisonOperator raw = Some (op, idx)" "CompileExpression (TrimSpace (take idx raw)) = Inr l"
    "CompileExpression (TrimSpace (drop (idx + length op) raw)) = Inr r"
    "constraint_evaluate \<lparr>cn_raw = raw, cn_left = l, cn_op = op, cn_right = r\<rparr> vars = Inr b"
  shows "b \<longleftrightarrow> constraint_holds raw vars"
proof -
  from assms(4) obtain x y where v: "Evaluate l vars = Inr x" "Evaluate r vars = Inr y"
    by (auto simp: constraint_evaluate_def split: sum.splits)
  from Evaluate_finite [OF v(1)] Evaluate_finite [OF v(2)] obtain p q where f: "x = Fin p" "y = Fin q"
    by (cases x; cases y) auto
  have "op \<in> set comparison_operators" using assms(1) unfolding findComparisonOperator_def by (rule find_operator_in)
  with assms v f show ?thesis
    by (auto simp: constraint_evaluate_def constraint_holds_def value_of_def comparison_operators_def
        fle_iff flt_iff feq_iff split: if_splits)
qed

lemma failed_constraints_filter:
  "compileConstraints specs = Inr ks \<Longrightarrow> failed_constraints ks vars = Inr fs \<Longrightarrow>
     fs = filter (\<lambda>raw. \<not> constraint_holds raw vars) (map TrimSpace specs)"
proof (induction specs arbitrary: ks fs)
  case (Cons spec specs)
  let ?raw = "TrimSpace spec"
  from Cons.prems(1) obtain op idx l r ks' where c: "findComparisonOperator ?raw = Some (op, idx)"
    "CompileExpression (TrimSpace (take idx ?raw)) = Inr l" "CompileExpression (TrimSpace (drop (idx + length op) ?raw)) = Inr r"
    "compileConstraints specs = Inr ks'" "ks = \<lparr>cn_raw = ?raw, cn_left = l, cn_op = op, cn_right = r\<rparr> # ks'"
    by (auto simp: Let_def map_sum_def split: option.splits sum.splits)
  from Cons.prems(2) c(5) obtain b fs' where
    b: "constraint_evaluate \<lparr>cn_raw = ?raw, cn_left = l, cn_op = op, cn_right = r\<rparr> vars = Inr b"
    and fs: "failed_constraints ks' vars = Inr fs'" "fs = (if b then fs' else ?raw # fs')"
    by (auto simp: map_sum_def split: sum.splits)
  from constraint_evaluate_holds [OF c(1-3) b] Cons.IH [OF c(4) fs(1)] fs(2) show ?case by simp
qed simp

lemma score_candidate_scored_as:
  assumes "score_candidate spec m e ks c = Inr s" "CompileExpression (TrimSpace m) = Inr e"
    "compileConstraints (os_Constraints spec) = Inr ks"
  shows "scored_as spec m c s"
proof -
  let ?v = "variablesForCandidate spec c"
  from assms(1) obtain v fs where f: "Evaluate e ?v = Inr v" "failed_constraints ks ?v = Inr fs"
    by (cases "Evaluate e ?v"; cases "failed_constraints ks ?v") (auto simp: score_candidate_def Let_def)
  note fs = failed_constraints_filter [OF assms(3) f(2)]
  from assms(1) f have s: "sc_ID s = cin_ID c" "sc_Score s = v" "sc_ConstraintFailures s = fs" "sc_ConstraintFailed s = (fs \<noteq> [])"
    by (auto simp: score_candidate_def Let_def)
  show ?thesis using assms(2) f(1) by (auto simp: scored_as_def s fs value_of_def filter_empty_conv)
qed

definition objective_text :: "ObjectiveSpec \<Rightarrow> CandidateInput list \<Rightarrow> string" where
  "objective_text spec cs =
     (if TrimSpace (os_Maximize spec) = [] then defaultObjectiveMetric cs else TrimSpace (os_Maximize spec))"

lemma objective_text_trimmed: "TrimSpace (objective_text spec cs) = objective_text spec cs"
proof -
  have "TrimSpace (defaultObjectiveMetric cs) = defaultObjectiveMetric cs"
    unfolding defaultObjectiveMetric_def by (simp split: if_split) (intro conjI impI; code_simp)
  then show ?thesis by (simp add: objective_text_def)
qed

section \<open>The ranking\<close>

text \<open>
  C27 (functional). The ranking of an optimisation run, for metrics without NaN. The result ranks
  exactly the candidates of the input: the ranked scores are those of a permutation of them, and each
  is the finite value of the objective at the variables of its candidate, with the constraints that
  do not hold there, in the order of the specification, as its failures. The best score is the first;
  if any candidate passes every constraint, the best one does; and among the candidates that fare like
  the best one with the constraints none has a higher score.
\<close>

theorem objective_ranks:
  assumes "EvaluateObjective spec cs = Inr r" "list_all metrics_no_NaN cs" "or_Best r = Some b"
  shows "(\<exists>ds. mset ds = mset cs \<and> list_all2 (scored_as spec (objective_text spec cs)) ds (or_Candidates r)) \<and>
    mset (map sc_ID (or_Candidates r)) = mset (map cin_ID cs) \<and>
    hd (or_Candidates r) = b \<and> b \<in> set (or_Candidates r) \<and>
    list_all (\<lambda>s. is_finite (sc_Score s) \<and>
      (if sc_ConstraintFailed s = sc_ConstraintFailed b then fle (sc_Score s) (sc_Score b) else \<not> sc_ConstraintFailed b))
      (or_Candidates r)"
proof -
  from assms(1) obtain m e ks where m: "m = objective_text spec cs" "CompileExpression m = Inr e"
      "compileConstraints (os_Constraints spec) = Inr ks" and *:
    "list_all (\<lambda>c. isl (score_candidate spec m e ks c) = False) cs"
    "or_Candidates r = sort_by (compareCandidateScores (os_TieBreakers spec)) (map (\<lambda>c. projr (score_candidate spec m e ks c)) cs)"
    "or_Best r = (case or_Candidates r of [] \<Rightarrow> None | s # _ \<Rightarrow> Some s)"
    unfolding objective_text_def by (rule EvaluateObjective_result) blast
  let ?ss = "map (\<lambda>c. projr (score_candidate spec m e ks c)) cs" and ?key = "score_key (os_TieBreakers spec)"
  have rk: "list_all (rankable (os_TieBreakers spec)) ?ss" by (rule objective_rankable [OF *(1) assms(2)])
  have cs: "or_Candidates r = sort_by (\<lambda>l r. ?key l < ?key r) ?ss" unfolding *(2) by (rule ranking_is_key_order [OF rk])
  have "mset (map sc_ID (or_Candidates r)) = mset (map sc_ID ?ss)" by (simp only: cs mset_map mset_sort_by)
  also have "map sc_ID ?ss = map cin_ID cs" using map_ID_scores [OF *(1)] by simp
  finally have ids: "mset (map sc_ID (or_Candidates r)) = mset (map cin_ID cs)" .
  have "list_all2 (\<lambda>s c. scored_as spec m c s) ?ss cs"
    using *(1) score_candidate_scored_as [OF _ _ m(3)] m(1,2) objective_text_trimmed [of spec cs]
    by (auto simp: list_all2_conv_all_nth list_all_length)
  moreover have "mset (or_Candidates r) = mset ?ss" by (simp only: cs mset_sort_by)
  ultimately obtain ds where ds: "list_all2 (scored_as spec m) ds (or_Candidates r)" "mset ds = mset cs"
    using list_all2_reorder_left_invariance [of "\<lambda>s c. scored_as spec m c s" ?ss cs "or_Candidates r"]
    by (auto simp: list_all2_conv_all_nth)
  from assms(3) *(3) obtain rest where br: "or_Candidates r = b # rest" by (auto split: list.splits)
  have "sorted (map ?key (or_Candidates r))" unfolding cs by (rule ranking.sorted_sort_by)
  with br have le: "?key b \<le> ?key s" if "s \<in> set (or_Candidates r)" for s using that by auto
  have fin: "is_finite (sc_Score s)" if s: "s \<in> set (or_Candidates r)" for s
  proof -
    from s cs have "s \<in> set ?ss" by simp
    then obtain c where "score_candidate spec m e ks c = Inr s" using scores_of [OF *(1)] by blast
    then show ?thesis by (rule score_candidate_fields(3))
  qed
  have "if sc_ConstraintFailed s = sc_ConstraintFailed b then fle (sc_Score s) (sc_Score b) else \<not> sc_ConstraintFailed b"
    if s: "s \<in> set (or_Candidates r)" for s
  proof -
    have "sc_Score s \<noteq> NaN" "sc_Score b \<noteq> NaN" using fin [OF s] fin [of b] br by auto
    with le [OF s] show ?thesis by (auto simp: score_key_def fle_iff split: if_splits)
  qed
  then have "list_all (\<lambda>s. is_finite (sc_Score s) \<and>
      (if sc_ConstraintFailed s = sc_ConstraintFailed b then fle (sc_Score s) (sc_Score b) else \<not> sc_ConstraintFailed b))
      (or_Candidates r)" unfolding list_all_iff using fin by blast
  with ids br ds m(1) show ?thesis by (simp only: list.set_intros list.sel simp_thms) blast
qed

lemma list_ex_perm: "mset cs = mset ds \<Longrightarrow> list_ex P cs = list_ex P ds"
  by (simp add: list_ex_iff) (metis set_mset_mset)

lemma defaultObjectiveMetric_perm: "mset cs = mset ds \<Longrightarrow> defaultObjectiveMetric cs = defaultObjectiveMetric ds"
  using list_ex_perm [of cs ds] by (simp add: defaultObjectiveMetric_def candidatesHavePairwiseOutcomes_def some_has_def)

lemma first_unknown_metric_None:
  "first_unknown_metric cs = None \<longleftrightarrow> list_all (\<lambda>c. Validate_metrics DefaultMetricRegistry (cin_Metrics c) = None) cs"
  by (induction cs) (auto split: option.splits)

lemma list_all_perm: "mset cs = mset ds \<Longrightarrow> list_all P cs = list_all P ds"
  by (simp add: list_all_iff) (metis set_mset_mset)

text \<open>
  C28 (equivalence). The ranking does not depend on the order in which the candidates are presented:
  for candidates with distinct identifiers and metrics without NaN, evaluating the objective on any
  permutation of them gives the same result, scores, ranking and best candidate included.
\<close>

theorem objective_order_independent:
  assumes "EvaluateObjective spec cs = Inr r" "mset cs = mset ds" "distinct (map cin_ID cs)" "list_all metrics_no_NaN cs"
  shows "EvaluateObjective spec ds = Inr r"
proof -
  from assms(1) obtain m e ks where
    m: "m = (if TrimSpace (os_Maximize spec) = [] then defaultObjectiveMetric cs else TrimSpace (os_Maximize spec))"
    and *: "first_unknown_metric cs = None" "CompileExpression m = Inr e" "compileConstraints (os_Constraints spec) = Inr ks"
    "validateTieBreakers (os_TieBreakers spec) = None"
    "list_all (\<lambda>c. isl (score_candidate spec m e ks c) = False) cs"
    "or_Candidates r = sort_by (compareCandidateScores (os_TieBreakers spec)) (map (\<lambda>c. projr (score_candidate spec m e ks c)) cs)"
    "or_Best r = (case or_Candidates r of [] \<Rightarrow> None | s # _ \<Rightarrow> Some s)"
    by (rule EvaluateObjective_result)
  let ?f = "\<lambda>c. projr (score_candidate spec m e ks c)" and ?tbs = "os_TieBreakers spec"
  have d: "first_unknown_metric ds = None" "list_all (\<lambda>c. isl (score_candidate spec m e ks c) = False) ds" "list_all metrics_no_NaN ds"
    using *(1,5) assms(2,4) by (simp_all add: first_unknown_metric_None list_all_perm [OF assms(2), symmetric])
  have "inj_on (score_key ?tbs) (set (map ?f cs))"
  proof -
    have "map sc_ID (map ?f cs) = map cin_ID cs" using map_ID_scores [OF *(5)] by simp
    then have "distinct (map sc_ID (map ?f cs))" using assms(3) by (simp only:)
    then have "inj_on sc_ID (set (map ?f cs))" by (simp only: distinct_map)
    then show ?thesis by (auto simp: inj_on_def score_key_def)
  qed
  moreover have "mset (map ?f cs) = mset (map ?f ds)" using assms(2) by simp
  ultimately have "sort_by (\<lambda>l r. score_key ?tbs l < score_key ?tbs r) (map ?f cs) =
      sort_by (\<lambda>l r. score_key ?tbs l < score_key ?tbs r) (map ?f ds)"
    by (rule ranking.sort_by_perm [rotated])
  then have "sort_by (compareCandidateScores ?tbs) (map ?f ds) = or_Candidates r"
    unfolding *(6) ranking_is_key_order [OF objective_rankable [OF *(5) assms(4)]]
      ranking_is_key_order [OF objective_rankable [OF d(2,3)]] by simp
  moreover have "score_all (score_candidate spec m e ks) ds = Inr (map ?f ds)" using d(2) by (simp add: score_all_map)
  moreover have "m = (if TrimSpace (os_Maximize spec) = [] then defaultObjectiveMetric ds else TrimSpace (os_Maximize spec))"
    using m defaultObjectiveMetric_perm [OF assms(2)] by simp
  ultimately show ?thesis using *(2,3,4,7) d(1) by (cases r) (simp add: EvaluateObjective_def Let_def)
qed

section \<open>A run with two candidates\<close>

lemma roundFloat_small:
  assumes "\<bar>n\<bar> \<le> 1000"
  shows "roundFloat (Fin (of_int n)) = Fin (of_int n)"
proof -
  have "of_int64 1000 \<le> fround (MaxFloat64 / round_scale)"
    unfolding of_int64_def by (rule fround_mono) (simp add: MaxFloat64_def round_scale_def)
  moreover have "of_int64 1000 = Fin 1000" using of_int64_exact [of 1000] by simp
  moreover have "\<bar>of_int n :: rat\<bar> \<le> 1000" using assms by (metis of_int_abs of_int_le_iff of_int_numeral)
  ultimately have "\<not> flt (fround (MaxFloat64 / round_scale)) (fabs (Fin (of_int n)))"
    by (cases "fround (MaxFloat64 / round_scale)") (auto simp: flt_iff dest: less_imp_le)
  moreover have "fmul (Fin (of_int n)) (Fin round_scale) = Fin (of_int (n * 10 ^ 12))"
    using of_int64_exact [of "n * 10 ^ 12"] assms by (simp add: of_int64_def round_scale_def)
  moreover have "round_away (of_int (n * 10 ^ 12)) = n * 10 ^ 12"
    by (auto simp: round_away_def floor_eq_iff simp del: of_int_mult of_int_power) 
  moreover have "fround (of_int n) = Fin (of_int n)" using of_int64_exact [of n] assms by (simp add: of_int64_def)
  ultimately show ?thesis by (simp add: roundFloat_def round_scale_def)
qed

definition ex_objective :: ObjectiveSpec where
  "ex_objective = \<lparr>os_Maximize = ''accuracy'', os_Constraints = ['' accuracy>0''], os_TieBreakers = [],
     os_Budget = \<lparr>bs_LatencyP95LimitMS = Fin 0, bs_CostLimitUSD = Fin 0\<rparr>, os_BaselineID = [], os_SignificanceAlpha = Fin 0\<rparr>"

definition ex_cand :: "string \<Rightarrow> rat \<Rightarrow> CandidateInput" where
  "ex_cand i x = \<lparr>cin_ID = i, cin_Metrics = [(''accuracy'', Fin x)], cin_Pairwise = [], cin_CreatedAt = 0\<rparr>"

definition ex_score :: "string \<Rightarrow> rat \<Rightarrow> string list \<Rightarrow> CandidateScore" where
  "ex_score i x fs = \<lparr>sc_ID = i, sc_Score = Fin x, sc_ScoreMetric = ''accuracy'', sc_Metrics = [(''accuracy'', Fin x)],
     sc_Normalized = [(''normalized_latency'', Fin 0), (''normalized_cost'', Fin 0)], sc_PairwiseWinRate = Fin 0,
     sc_HasPairwiseOutcomes = False, sc_ConstraintFailed = (fs \<noteq> []), sc_ConstraintFailures = fs, sc_SignificantlyBetter = False,
     sc_CreatedAt = 0\<rparr>"

lemma ex_compile_accuracy: "CompileExpression ''accuracy'' = Inr (variableNode ''accuracy'')"
proof -
  have "''accuracy'' \<in> set defaultAllowedVariables"
    using default_registered(1)
    by (auto simp: defaultAllowedVariables_def metric_Names_def IsRegistered_def map_of_eq_None_iff simp del: not_None_eq)
  moreover have "lexExpression ''accuracy'' = Inr [tok tokenIdentifier ''accuracy'', tok tokenEOF []]"
    by (simp add: lex_eval)
  ultimately show ?thesis
    by (simp add: CompileExpression_def compileExpression_def parse_tokens_def parse_fuel_def parseAdditive_def
        parseMultiplicative_def parsePrimary_def Let_def eval_nat_numeral)
qed

lemma ex_compile_0: "CompileExpression ''0'' = Inr (numberNode (Fin 0))"
proof -
  have z: "ParseFloat ''0'' = Some (Fin 0)" by (simp add: ParseFloat_def Let_def byte_digit_def)
  have "lexExpression ''0'' = Inr [tok tokenNumber ''0'', tok tokenEOF []]"
    by (simp add: lex_eval z)
  then show ?thesis
    by (simp add: CompileExpression_def compileExpression_def parse_tokens_def parse_fuel_def parseAdditive_def
        parseMultiplicative_def parsePrimary_def number_value_def z eval_nat_numeral)
qed

definition ex_constraint :: compiledConstraint where
  "ex_constraint = \<lparr>cn_raw = ''accuracy>0'', cn_left = variableNode ''accuracy'', cn_op = ''>'', cn_right = numberNode (Fin 0)\<rparr>"

lemma ex_constraints: "compileConstraints ['' accuracy>0''] = Inr [ex_constraint]"
proof -
  have "TrimSpace '' accuracy>0'' = ''accuracy>0''" "findComparisonOperator ''accuracy>0'' = Some (''>'', 8)"
    "TrimSpace (take 8 ''accuracy>0'') = ''accuracy''" "TrimSpace (drop (8 + length ''>'') ''accuracy>0'') = ''0''"
    by code_simp+
  then show ?thesis by (simp add: ex_compile_accuracy ex_compile_0 ex_constraint_def Let_def)
qed

lemma ex_score_candidate:
  assumes "x = 0 \<or> x = 1"
  shows "score_candidate ex_objective ''accuracy'' (variableNode ''accuracy'') [ex_constraint] (ex_cand i x) =
    Inr (ex_score i x (if x = 0 then [''accuracy>0''] else []))"
proof -
  have "roundFloat (Fin x) = Fin x" "roundFloat (Fin 0) = Fin 0"
    using assms roundFloat_small [of 0] roundFloat_small [of 1] by auto
  with assms show ?thesis
    by (auto simp: score_candidate_def ex_objective_def ex_cand_def ex_score_def variablesForCandidate_def normalizedValues_def
        pairwiseWinRate_def Evaluate_def Let_def gget0_def map_simps significantlyBetterThanBaseline_def flt_iff
        constraint_evaluate_def ex_constraint_def)
qed

lemma ex_evaluate:
  "EvaluateObjective ex_objective [ex_cand ''b'' 0, ex_cand ''a'' 1] =
     Inr \<lparr>or_Best = Some (ex_score ''a'' 1 []), or_Candidates = [ex_score ''a'' 1 [], ex_score ''b'' 0 [''accuracy>0'']]\<rparr>"
proof -
  have "TrimSpace ''accuracy'' = ''accuracy''" by code_simp
  moreover have "first_unknown_metric [ex_cand ''b'' 0, ex_cand ''a'' 1] = None"
    unfolding first_unknown_metric_None
    using default_registered(1) by (simp add: Validate_metrics_ok ex_cand_def)
  moreover have "score_all (score_candidate ex_objective ''accuracy'' (variableNode ''accuracy'') [ex_constraint])
      [ex_cand ''b'' 0, ex_cand ''a'' 1] = Inr [ex_score ''b'' 0 [''accuracy>0''], ex_score ''a'' 1 []]"
    by (simp add: ex_score_candidate)
  moreover have "sort_by (compareCandidateScores []) [ex_score ''b'' 0 [''accuracy>0''], ex_score ''a'' 1 []] =
      [ex_score ''a'' 1 [], ex_score ''b'' 0 [''accuracy>0'']]"
    by (simp add: compareCandidateScores_def ex_score_def feq_iff flt_iff)
  ultimately show ?thesis
    using ex_compile_accuracy ex_constraints
    by (simp add: EvaluateObjective_def Let_def ex_objective_def del: compileConstraints.simps)
qed

lemma ex_no_NaN: "list_all metrics_no_NaN [ex_cand ''b'' 0, ex_cand ''a'' 1]"
  by (simp add: metrics_no_NaN_def ex_cand_def)

theorem objective_ranks_witness:
  "(\<exists>ds. mset ds = mset [ex_cand ''b'' 0, ex_cand ''a'' 1] \<and>
      list_all2 (scored_as ex_objective (objective_text ex_objective [ex_cand ''b'' 0, ex_cand ''a'' 1])) ds
        [ex_score ''a'' 1 [], ex_score ''b'' 0 [''accuracy>0'']]) \<and>
   \<not> sc_ConstraintFailed (ex_score ''a'' 1 []) \<and> sc_ConstraintFailed (ex_score ''b'' 0 [''accuracy>0''])"
  using objective_ranks [OF ex_evaluate ex_no_NaN, of "ex_score ''a'' 1 []"] by (simp add: ex_score_def)

theorem objective_order_independent_witness:
  "EvaluateObjective ex_objective [ex_cand ''a'' 1, ex_cand ''b'' 0] =
     Inr \<lparr>or_Best = Some (ex_score ''a'' 1 []), or_Candidates = [ex_score ''a'' 1 [], ex_score ''b'' 0 [''accuracy>0'']]\<rparr>"
  by (rule objective_order_independent [OF ex_evaluate _ _ ex_no_NaN]) (simp_all add: ex_cand_def)

end
