(* ===== verification/OptRepo.thy ===== *)
theory OptRepo
  imports TaskQueueProps OptSearch
begin

text \<open>
  Durable optimisation runs: the in-memory repository of \<^verbatim>\<open>internal/optimizer/memory_repository.go\<close> with
  the data of \<^verbatim>\<open>service.go\<close>, \<^verbatim>\<open>checkpoint.go\<close> and \<^verbatim>\<open>task.go\<close> that it works on. A run is executed by a
  task of the task queue, and the repository accepts the writes of an execution only while the queue
  confirms its lease.

  The repository's methods hold its own mutex, but the queue has another one: between two calls of
  the queue its workers may run. \<open>env i\<close> is what they do to the queue after the call number \<open>i\<close> of a
  method. Fields of runs and candidates that the repository stores and never reads are one field of
  an arbitrary type.
\<close>

section \<open>Data\<close>

datatype RunStatus =
    RunStatusQueued | RunStatusRunning | RunStatusCompleted | RunStatusCanceling | RunStatusCanceled
  | RunStatusBudgetStopped | RunStatusFailed | RunStatusOther string

datatype CandidateStatus =
    CandidateStatusQueued | CandidateStatusRunning | CandidateStatusEvaluated | CandidateStatusJudged
  | CandidateStatusScored | CandidateStatusPromoted | CandidateStatusHoldoutEvaluated
  | CandidateStatusCleanupDone | CandidateStatusFailed | CandidateStatusOther string

text \<open>\<^verbatim>\<open>string(run.Status)\<close>.\<close>

fun run_status_text :: "RunStatus \<Rightarrow> string" where
  "run_status_text RunStatusQueued = ''queued''"
| "run_status_text RunStatusRunning = ''running''"
| "run_status_text RunStatusCompleted = ''completed''"
| "run_status_text RunStatusCanceling = ''canceling''"
| "run_status_text RunStatusCanceled = ''canceled''"
| "run_status_text RunStatusBudgetStopped = ''budget_stopped''"
| "run_status_text RunStatusFailed = ''failed''"
| "run_status_text (RunStatusOther s) = s"

record Checkpoint =
  cp_Stage :: string
  cp_CompletedCandidateIDs :: "string list"
  cp_FailedCandidateIDs :: "string list"
  cp_BestCandidateID :: string
  cp_HoldoutCandidateID :: string
  cp_JudgeCalls :: int
  cp_CostUSD :: float64
  cp_LastCandidateID :: string
  cp_CancelRequestedAt :: "gotime option"
  cp_StatusReason :: string

definition completedSet :: "Checkpoint \<Rightarrow> string list" where
  "completedSet c = cp_CompletedCandidateIDs c"

definition markCompleted :: "string \<Rightarrow> Checkpoint \<Rightarrow> Checkpoint" where
  "markCompleted candidateID c =
     (if candidateID = [] \<or> List.member (cp_CompletedCandidateIDs c) candidateID then c
      else c\<lparr>cp_CompletedCandidateIDs := cp_CompletedCandidateIDs c @ [candidateID], cp_LastCandidateID := candidateID\<rparr>)"

definition markFailed :: "string \<Rightarrow> Checkpoint \<Rightarrow> Checkpoint" where
  "markFailed candidateID c =
     (if candidateID = [] \<or> List.member (cp_FailedCandidateIDs c) candidateID then c
      else c\<lparr>cp_FailedCandidateIDs := cp_FailedCandidateIDs c @ [candidateID], cp_LastCandidateID := candidateID\<rparr>)"

record 'd OptimizationRun =
  run_ID :: string
  run_TenantID :: string
  run_ProjectID :: string
  run_HoldoutSplit :: string
  run_Status :: RunStatus
  run_StatusReason :: string
  run_BestCandidateID :: string
  run_HoldoutCandidateID :: string
  run_Checkpoint :: Checkpoint
  run_CancelRequestedAt :: "gotime option"
  run_CurrentTaskID :: string
  run_ExecutionGeneration :: int64
  run_UpdatedAt :: gotime
  run_Data :: 'd

record 'd OptimizationCandidate =
  oc_ID :: string
  oc_OptimizationRunID :: string
  oc_Config :: CandidateConfig
  oc_Status :: CandidateStatus
  oc_UpdatedAt :: gotime
  oc_Data :: 'd

record ExecutionLease =
  el_TaskID :: string
  el_Holder :: string
  el_Generation :: int64

definition lease_token :: "ExecutionLease \<Rightarrow> LeaseToken" where
  "lease_token lease = \<lparr>lt_Holder = el_Holder lease, lt_Generation = el_Generation lease\<rparr>"

record ('d, 'c, 'h) OptMemoryRepository =
  om_runs :: "(string, 'd OptimizationRun) gomap"
  om_candidates :: "(string, 'c OptimizationCandidate) gomap"
  om_harness :: "'h list"
  om_taskQueue :: "MemoryQueueRepository option"

datatype opt_error =
    QueueNotConfigured | ErrOptimizationOwnershipLost | ErrOptimizationAlreadyCompleted
  | ErrOptimizationAlreadyCanceled | ErrOptimizationAlreadyFailed | QueueError queue_error

type_synonym queue_env = "nat \<Rightarrow> MemoryQueueRepository \<Rightarrow> MemoryQueueRepository"

definition NewOptMemoryRepository :: "('d, 'c, 'h) OptMemoryRepository" where
  "NewOptMemoryRepository =
     \<lparr>om_runs = [], om_candidates = [], om_harness = [], om_taskQueue = Some NewMemoryQueueRepository\<rparr>"

definition SetTaskQueue :: "MemoryQueueRepository option \<Rightarrow> ('d, 'c, 'h) OptMemoryRepository \<Rightarrow> ('d, 'c, 'h) OptMemoryRepository" where
  "SetTaskQueue queue r = r\<lparr>om_taskQueue := queue\<rparr>"

section \<open>Creation\<close>

definition put_run :: "'d OptimizationRun \<Rightarrow> ('d, 'c, 'h) OptMemoryRepository \<Rightarrow> ('d, 'c, 'h) OptMemoryRepository" where
  "put_run run r = r\<lparr>om_runs := gput (run_ID run) run (om_runs r)\<rparr>"

definition put_candidate :: "'c OptimizationCandidate \<Rightarrow> ('d, 'c, 'h) OptMemoryRepository \<Rightarrow> ('d, 'c, 'h) OptMemoryRepository" where
  "put_candidate c r = r\<lparr>om_candidates := gput (oc_ID c) c (om_candidates r)\<rparr>"

text \<open>\<^verbatim>\<open>candidate.Config.ID = candidate.ID\<close>.\<close>

definition own_config_id :: "'c OptimizationCandidate \<Rightarrow> 'c OptimizationCandidate" where
  "own_config_id c = c\<lparr>oc_Config := (oc_Config c)\<lparr>cc_ID := oc_ID c\<rparr>\<rparr>"

definition CreateOptimizationRun where
  "CreateOptimizationRun run r = put_run run (r :: ('d, 'c, 'h) OptMemoryRepository)"

definition CreateOptimizationRunWithCandidates ::
  "'d OptimizationRun \<Rightarrow> 'c OptimizationCandidate list \<Rightarrow> ('d, 'c, 'h) OptMemoryRepository \<Rightarrow> ('d, 'c, 'h) OptMemoryRepository" where
  "CreateOptimizationRunWithCandidates run candidates r = fold put_candidate (map own_config_id candidates) (put_run run r)"

definition CreateOptimizationRunWithTask ::
  "(nat \<Rightarrow> entropy) \<Rightarrow> gotime \<Rightarrow> 'd OptimizationRun \<Rightarrow> 'c OptimizationCandidate list \<Rightarrow> Task \<Rightarrow>
   ('d, 'c, 'h) OptMemoryRepository \<Rightarrow> ('d, 'c, 'h) OptMemoryRepository \<times> (opt_error + unit)" where
  "CreateOptimizationRunWithTask bs now run candidates task r =
     (case om_taskQueue r of
        None \<Rightarrow> (r, Inl QueueNotConfigured)
      | Some q \<Rightarrow>
          (fold put_candidate (map own_config_id candidates) (put_run run (r\<lparr>om_taskQueue := Some (fst (Enqueue bs now task q))\<rparr>)),
           Inr ()))"

section \<open>Recovery\<close>

definition recoveredCandidateStatus :: "'d OptimizationRun \<Rightarrow> 'c OptimizationCandidate \<Rightarrow> CandidateStatus option" where
  "recoveredCandidateStatus run candidate =
     (if \<not> List.member [CandidateStatusRunning, CandidateStatusEvaluated, CandidateStatusJudged,
           CandidateStatusHoldoutEvaluated, CandidateStatusPromoted, CandidateStatusCleanupDone] (oc_Status candidate)
      then None
      else if run_HoldoutSplit run \<noteq> [] \<and> oc_ID candidate = run_BestCandidateID run \<and> run_HoldoutCandidateID run = []
      then Some CandidateStatusScored
      else if \<not> List.member (completedSet (run_Checkpoint run)) (oc_ID candidate) then Some CandidateStatusQueued
      else None)"

text \<open>The loop over the candidates of a run whose execution starts again.\<close>

definition recover_candidates ::
  "'d OptimizationRun \<Rightarrow> gotime \<Rightarrow> (string, 'c OptimizationCandidate) gomap \<Rightarrow> (string, 'c OptimizationCandidate) gomap" where
  "recover_candidates run t cs =
     map (\<lambda>(k, c). (k, if oc_OptimizationRunID c \<noteq> run_ID run then c
                        else case recoveredCandidateStatus run c of
                               None \<Rightarrow> c
                             | Some s \<Rightarrow> c\<lparr>oc_Status := s, oc_UpdatedAt := t\<rparr>)) cs"

definition ResumeOptimizationRunWithTask ::
  "(nat \<Rightarrow> entropy) \<Rightarrow> gotime \<Rightarrow> 'd OptimizationRun \<Rightarrow> RunStatus \<Rightarrow> Task \<Rightarrow>
   ('d, 'c, 'h) OptMemoryRepository \<Rightarrow> ('d, 'c, 'h) OptMemoryRepository \<times> (opt_error + bool)" where
  "ResumeOptimizationRunWithTask bs now run expectedStatus task r =
     (case map_of (om_runs r) (run_ID run) of
        None \<Rightarrow> (r, Inr False)
      | Some cur \<Rightarrow>
          if run_TenantID cur \<noteq> run_TenantID run \<or> run_Status cur \<noteq> expectedStatus then (r, Inr False)
          else case om_taskQueue r of
                 None \<Rightarrow> (r, Inl QueueNotConfigured)
               | Some q \<Rightarrow>
                   (put_run run (r\<lparr>om_taskQueue := Some (fst (Enqueue bs now task q)),
                                  om_candidates := recover_candidates cur (run_UpdatedAt run) (om_candidates r)\<rparr>),
                    Inr True))"

section \<open>Cancellation\<close>

definition run_finished :: "RunStatus \<Rightarrow> bool" where
  "run_finished s \<longleftrightarrow> s = RunStatusCanceled \<or> s = RunStatusCompleted \<or> s = RunStatusFailed \<or> s = RunStatusBudgetStopped"

text \<open>A task that is not being executed.\<close>

definition cancel_immediate :: "Task option \<Rightarrow> bool" where
  "cancel_immediate task =
     (case task of
        None \<Rightarrow> True
      | Some t \<Rightarrow> List.member [TaskStatusQueued, TaskStatusFailedRetryable, TaskStatusCancelled,
                               TaskStatusFailedTerminal, TaskStatusDeadLetter] (t_Status t))"

text \<open>
  The calls of the queue for a task that was found: the new queue with whether the run is canceled at
  once, or the error. The queue may have changed since \<^verbatim>\<open>Get\<close> read the task.
\<close>

definition cancel_task ::
  "(nat \<Rightarrow> entropy) \<Rightarrow> gotime \<Rightarrow> queue_env \<Rightarrow> Task \<Rightarrow> MemoryQueueRepository \<Rightarrow> MemoryQueueRepository \<times> (opt_error + bool)" where
  "cancel_task bs now env t q =
     (case Cancel bs now (t_ID t) q of
        (q1, Inl e) \<Rightarrow> (q1, Inl (QueueError e))
      | (q1, Inr ()) \<Rightarrow>
          if t_Status t \<noteq> TaskStatusLeased then (q1, Inr (cancel_immediate (Some t)))
          else case MarkCancelled bs now (t_ID t) (Task_LeaseToken t) (env 1 q1) of
                 (q2, Inr ()) \<Rightarrow> (q2, Inr True)
               | (q2, Inl e) \<Rightarrow>
                   if e \<noteq> ErrLeaseLost then (q2, Inl (QueueError e))
                   else let q3 = env 2 q2
                        in case Get (t_ID t) q3 of
                             None \<Rightarrow> (q3, Inr (cancel_immediate (Some t)))
                           | Some cur \<Rightarrow>
                               if t_Status cur = TaskStatusCancelling
                               then case MarkCancelled bs now (t_ID cur) (Task_LeaseToken cur) (env 3 q3) of
                                      (q4, Inl e) \<Rightarrow> (q4, Inl (QueueError e))
                                    | (q4, Inr ()) \<Rightarrow> (q4, Inr True)
                               else (q3, Inr (t_Status cur = TaskStatusCancelled \<or> cancel_immediate (Some t))))"

definition CancelOptimizationRunWithTask ::
  "(nat \<Rightarrow> entropy) \<Rightarrow> gotime \<Rightarrow> queue_env \<Rightarrow> string \<Rightarrow> string \<Rightarrow> string \<Rightarrow> gotime \<Rightarrow>
   ('d, 'c, 'h) OptMemoryRepository \<Rightarrow> ('d, 'c, 'h) OptMemoryRepository \<times> (opt_error + 'd OptimizationRun option)" where
  "CancelOptimizationRunWithTask bs qnow env tenantID runID reason now r =
     (case map_of (om_runs r) runID of
        None \<Rightarrow> (r, Inr None)
      | Some run0 \<Rightarrow>
          if run_TenantID run0 \<noteq> tenantID then (r, Inr None)
          else if run_finished (run_Status run0) then (r, Inr (Some run0))
          else case om_taskQueue r of
                 None \<Rightarrow> (r, Inl QueueNotConfigured)
               | Some q \<Rightarrow>
                   (case (case Get (run_CurrentTaskID run0) q of
                            None \<Rightarrow> (q, Inr True)
                          | Some t \<Rightarrow> cancel_task bs qnow env t (env 0 q)) of
                      (q', Inl e) \<Rightarrow> (r\<lparr>om_taskQueue := Some q'\<rparr>, Inl e)
                    | (q', Inr immediate) \<Rightarrow>
                        let status = (if immediate then RunStatusCanceled else RunStatusCanceling);
                            run = run0\<lparr>run_Status := status, run_StatusReason := reason, run_CancelRequestedAt := Some now,
                                       run_UpdatedAt := now,
                                       run_Checkpoint := (run_Checkpoint run0)\<lparr>cp_CancelRequestedAt := Some now,
                                         cp_StatusReason := reason, cp_Stage := run_status_text status\<rparr>\<rparr>
                        in (r\<lparr>om_taskQueue := Some q', om_runs := gput runID run (om_runs r)\<rparr>, Inr (Some run))))"

section \<open>Claims and fenced writes\<close>

definition ClaimOptimizationExecution ::
  "gotime \<Rightarrow> queue_env \<Rightarrow> gotime \<Rightarrow> string \<Rightarrow> string \<Rightarrow> string \<Rightarrow> ExecutionLease \<Rightarrow>
   ('d, 'c, 'h) OptMemoryRepository \<Rightarrow> ('d, 'c, 'h) OptMemoryRepository \<times> (opt_error + unit)" where
  "ClaimOptimizationExecution qnow env now tenantID projectID runID lease r0 =
     (case om_taskQueue r0 of
        None \<Rightarrow> (r0, Inl QueueNotConfigured)
      | Some q0 \<Rightarrow>
          (case Get (el_TaskID lease) q0 of
             None \<Rightarrow> (r0, Inl ErrOptimizationOwnershipLost)
           | Some task \<Rightarrow>
               if t_TenantID task \<noteq> tenantID \<or> t_ProjectID task \<noteq> projectID \<or> Task_LeaseToken task \<noteq> lease_token lease \<or>
                  (t_Status task \<noteq> TaskStatusLeased \<and> t_Status task \<noteq> TaskStatusRunning)
               then (r0, Inl ErrOptimizationOwnershipLost)
               else let q = env 0 q0; r = r0\<lparr>om_taskQueue := Some q\<rparr>
                    in if \<not> OwnsActiveLease qnow (el_TaskID lease) (Task_LeaseToken task) False q
                       then (r, Inl ErrOptimizationOwnershipLost)
                       else case map_of (om_runs r) runID of
                              None \<Rightarrow> (r, Inl ErrOptimizationOwnershipLost)
                            | Some run \<Rightarrow>
                                if run_TenantID run \<noteq> tenantID \<or> run_ProjectID run \<noteq> projectID \<or>
                                   run_CurrentTaskID run \<noteq> el_TaskID lease \<or>
                                   sint (run_ExecutionGeneration run) \<ge> sint (el_Generation lease)
                                then (r, Inl ErrOptimizationOwnershipLost)
                                else let claimed = (\<lambda>run r. (put_run (run\<lparr>run_ExecutionGeneration := el_Generation lease,
                                                              run_UpdatedAt := now\<rparr>) r, Inr ()))
                                     in case run_Status run of
                                          RunStatusQueued \<Rightarrow> claimed run r
                                        | RunStatusCanceling \<Rightarrow> claimed run r
                                        | RunStatusRunning \<Rightarrow>
                                            claimed (run\<lparr>run_Status := RunStatusQueued,
                                                         run_Checkpoint := (run_Checkpoint run)\<lparr>cp_Stage := ''recovered''\<rparr>\<rparr>)
                                              (r\<lparr>om_candidates := recover_candidates run now (om_candidates r)\<rparr>)
                                        | RunStatusCompleted \<Rightarrow> (r, Inl ErrOptimizationAlreadyCompleted)
                                        | RunStatusBudgetStopped \<Rightarrow> (r, Inl ErrOptimizationAlreadyCompleted)
                                        | RunStatusCanceled \<Rightarrow> (r, Inl ErrOptimizationAlreadyCanceled)
                                        | RunStatusFailed \<Rightarrow> (r, Inl ErrOptimizationAlreadyFailed)
                                        | RunStatusOther _ \<Rightarrow> (r, Inl ErrOptimizationOwnershipLost)))"

text \<open>The lease an execution carries in its context; \<open>None\<close> is a caller outside any execution.\<close>

definition ownsExecutionLocked ::
  "gotime \<Rightarrow> queue_env \<Rightarrow> ExecutionLease option \<Rightarrow> string \<Rightarrow> ('d, 'c, 'h) OptMemoryRepository \<Rightarrow> ('d, 'c, 'h) OptMemoryRepository \<times> bool" where
  "ownsExecutionLocked qnow env ctx runID r =
     (case ctx of
        None \<Rightarrow> (r, True)
      | Some lease \<Rightarrow>
          (case map_of (om_runs r) runID of
             None \<Rightarrow> (r, False)
           | Some run \<Rightarrow>
               if run_CurrentTaskID run \<noteq> el_TaskID lease \<or> run_ExecutionGeneration run \<noteq> el_Generation lease then (r, False)
               else case om_taskQueue r of
                      None \<Rightarrow> (r, False)
                    | Some q \<Rightarrow>
                        (case Get (el_TaskID lease) q of
                           None \<Rightarrow> (r, False)
                         | Some task \<Rightarrow>
                             if Task_LeaseToken task \<noteq> lease_token lease then (r, False)
                             else (r\<lparr>om_taskQueue := Some (env 0 q)\<rparr>,
                                   OwnsActiveLease qnow (el_TaskID lease) (Task_LeaseToken task) True (env 0 q)))))"

definition fenced ::
  "gotime \<Rightarrow> queue_env \<Rightarrow> ExecutionLease option \<Rightarrow> string \<Rightarrow>
   (('d, 'c, 'h) OptMemoryRepository \<Rightarrow> ('d, 'c, 'h) OptMemoryRepository \<times> (opt_error + 'a)) \<Rightarrow>
   ('d, 'c, 'h) OptMemoryRepository \<Rightarrow> ('d, 'c, 'h) OptMemoryRepository \<times> (opt_error + 'a)" where
  "fenced qnow env ctx runID write r =
     (case ownsExecutionLocked qnow env ctx runID r of
        (r', False) \<Rightarrow> (r', Inl ErrOptimizationOwnershipLost)
      | (r', True) \<Rightarrow> write r')"

definition UpdateOptimizationRun where
  "UpdateOptimizationRun qnow env ctx run =
     fenced qnow env ctx (run_ID run) (\<lambda>r. (put_run run r, Inr ()))"

definition CompareAndSwapOptimizationRun where
  "CompareAndSwapOptimizationRun qnow env ctx run expectedStatus =
     fenced qnow env ctx (run_ID run) (\<lambda>r.
       case map_of (om_runs r) (run_ID run) of
         None \<Rightarrow> (r, Inr False)
       | Some cur \<Rightarrow> if run_TenantID cur \<noteq> run_TenantID run \<or> run_Status cur \<noteq> expectedStatus then (r, Inr False)
                     else (put_run run r, Inr True))"

definition CreateOptimizationCandidate where
  "CreateOptimizationCandidate candidate r = put_candidate (own_config_id candidate) (r :: ('d, 'c, 'h) OptMemoryRepository)"

definition UpdateOptimizationCandidate where
  "UpdateOptimizationCandidate qnow env ctx candidate =
     fenced qnow env ctx (oc_OptimizationRunID candidate) (\<lambda>r. (put_candidate candidate r, Inr ()))"

definition CompareAndSwapOptimizationCandidate where
  "CompareAndSwapOptimizationCandidate qnow env ctx candidate expectedStatus =
     fenced qnow env ctx (oc_OptimizationRunID candidate) (\<lambda>r.
       case map_of (om_candidates r) (oc_ID candidate) of
         None \<Rightarrow> (r, Inr False)
       | Some cur \<Rightarrow>
           if oc_OptimizationRunID cur \<noteq> oc_OptimizationRunID candidate \<or> oc_Status cur \<noteq> expectedStatus then (r, Inr False)
           else (put_candidate candidate r, Inr True))"

section \<open>Reads\<close>

definition GetOptimizationRun :: "string \<Rightarrow> string \<Rightarrow> ('d, 'c, 'h) OptMemoryRepository \<Rightarrow> 'd OptimizationRun option" where
  "GetOptimizationRun tenantID runID r =
     (case map_of (om_runs r) runID of
        None \<Rightarrow> None | Some run \<Rightarrow> if run_TenantID run \<noteq> tenantID then None else Some run)"

definition GetOptimizationRunInProject ::
  "string \<Rightarrow> string \<Rightarrow> string \<Rightarrow> ('d, 'c, 'h) OptMemoryRepository \<Rightarrow> 'd OptimizationRun option" where
  "GetOptimizationRunInProject tenantID projectID runID r =
     (case map_of (om_runs r) runID of
        None \<Rightarrow> None
      | Some run \<Rightarrow> if run_TenantID run \<noteq> tenantID \<or> run_ProjectID run \<noteq> projectID then None else Some run)"

text \<open>
  The exchange sort of \<^verbatim>\<open>sortOptimizationCandidates\<close>: the inner loop swaps every later element that is
  smaller than the one at \<open>i\<close> into that place.
\<close>

fun swap_loop :: "'c OptimizationCandidate \<Rightarrow> 'c OptimizationCandidate list \<Rightarrow> 'c OptimizationCandidate \<times> 'c OptimizationCandidate list" where
  "swap_loop x [] = (x, [])"
| "swap_loop x (y # ys) =
     (if oc_ID y < oc_ID x then let (m, zs) = swap_loop y ys in (m, x # zs)
      else let (m, zs) = swap_loop x ys in (m, y # zs))"

lemma length_swap_loop [simp]: "length (snd (swap_loop x ys)) = length ys"
  by (induction ys arbitrary: x) (auto simp: case_prod_unfold Let_def)

function sortOptimizationCandidates :: "'c OptimizationCandidate list \<Rightarrow> 'c OptimizationCandidate list" where
  "sortOptimizationCandidates [] = []"
| "sortOptimizationCandidates (x # xs) = fst (swap_loop x xs) # sortOptimizationCandidates (snd (swap_loop x xs))"
  by pat_completeness auto
termination by (relation "measure length") auto

definition ListOptimizationCandidates :: "string \<Rightarrow> string \<Rightarrow> ('d, 'c, 'h) OptMemoryRepository \<Rightarrow> 'c OptimizationCandidate list" where
  "ListOptimizationCandidates tenantID runID r =
     (case map_of (om_runs r) runID of
        None \<Rightarrow> []
      | Some run \<Rightarrow>
          if run_TenantID run \<noteq> tenantID then []
          else sortOptimizationCandidates (filter (\<lambda>c. oc_OptimizationRunID c = runID) (map snd (om_candidates r))))"

definition StoreHarnessRun where
  "StoreHarnessRun h r = (r :: ('d, 'c, 'h) OptMemoryRepository)\<lparr>om_harness := om_harness r @ [h]\<rparr>"

end
