(* ===== verification/OptRepoProps.thy ===== *)
theory OptRepoProps
  imports OptRepo
begin

text \<open>
  The theorems on the repository of optimisation runs: an execution whose task was leased again can
  write nothing, a claim hands the run to exactly one lease and resets the candidates the lost
  execution left half done, and listings are in the order of the candidates' identifiers.
\<close>

section \<open>Fenced writes\<close>

text \<open>
  The contract of the writes an execution makes: when the queue's record of the task carries another
  token than the lease, the write is refused and the repository stays as it was.
\<close>

locale fenced_write =
  fixes wr :: "ExecutionLease \<Rightarrow> ('d, 'c, 'h) OptMemoryRepository \<Rightarrow> ('d, 'c, 'h) OptMemoryRepository \<times> (opt_error + 'a)"
  assumes refuses: "om_taskQueue r = Some q \<Longrightarrow> map_of (tasks q) (el_TaskID lease) = Some t \<Longrightarrow>
      Task_LeaseToken t \<noteq> lease_token lease \<Longrightarrow> wr lease r = (r, Inl ErrOptimizationOwnershipLost)"
begin

lemma refuses_stale:
  assumes "queue_wf q" and "map_of (tasks q) (el_TaskID lease) = Some t"
    and "\<forall>e \<in> set es. \<not> overwrites (el_TaskID lease) e" and "el_Generation lease = t_LeaseGeneration t"
    and "0 < lease_count (el_TaskID lease) es q" and "lease_count (el_TaskID lease) es q < 2 ^ 64"
    and "om_taskQueue r = Some (queue_run es q)"
  shows "wr lease r = (r, Inl ErrOptimizationOwnershipLost)"
proof -
  obtain t' where t': "map_of (tasks (queue_run es q)) (el_TaskID lease) = Some t'"
    and g: "t_LeaseGeneration t' = t_LeaseGeneration t + of_nat (lease_count (el_TaskID lease) es q)"
    using queue_run_generation [OF assms(1-3)] by blast
  have "Task_LeaseToken t' \<noteq> lease_token lease"
    using g assms(4) of_nat_int64_neq_0 [OF assms(5,6)] by (simp add: Task_LeaseToken_def lease_token_def)
  with assms(7) t' show ?thesis by (rule refuses)
qed

end

lemma ownsExecutionLocked_refuses:
  assumes "om_taskQueue r = Some q" and "map_of (tasks q) (el_TaskID lease) = Some t"
    and "Task_LeaseToken t \<noteq> lease_token lease"
  shows "ownsExecutionLocked qnow env (Some lease) runID r = (r, False)"
  using assms by (auto simp: ownsExecutionLocked_def Get_def split: option.splits)

lemma fenced_refuses:
  assumes "om_taskQueue r = Some q" and "map_of (tasks q) (el_TaskID lease) = Some t"
    and "Task_LeaseToken t \<noteq> lease_token lease"
  shows "fenced qnow env (Some lease) runID w r = (r, Inl ErrOptimizationOwnershipLost)"
  by (simp add: fenced_def ownsExecutionLocked_refuses [OF assms])

interpretation ur: fenced_write "\<lambda>lease. UpdateOptimizationRun qnow env (Some lease) run" for qnow env run
  by unfold_locales (simp add: UpdateOptimizationRun_def fenced_refuses)

interpretation cr: fenced_write "\<lambda>lease. CompareAndSwapOptimizationRun qnow env (Some lease) run st" for qnow env run st
  by unfold_locales (simp add: CompareAndSwapOptimizationRun_def fenced_refuses)

interpretation uc: fenced_write "\<lambda>lease. UpdateOptimizationCandidate qnow env (Some lease) c" for qnow env c
  by unfold_locales (simp add: UpdateOptimizationCandidate_def fenced_refuses)

interpretation cc: fenced_write "\<lambda>lease. CompareAndSwapOptimizationCandidate qnow env (Some lease) c st" for qnow env c st
  by unfold_locales (simp add: CompareAndSwapOptimizationCandidate_def fenced_refuses)

interpretation ce: fenced_write "\<lambda>lease. ClaimOptimizationExecution qnow env now tenantID projectID runID lease"
  for qnow env now tenantID projectID runID
  by unfold_locales (simp add: ClaimOptimizationExecution_def Get_def)

text \<open>
  C29 (safety). Once the queue has leased an execution's task to another worker, any number of times
  below the range of the 64-bit generation, the earlier execution can change nothing in the repository:
  a claim of the run and every write of a run or a candidate that carries the old lease is refused
  with \<open>ErrOptimizationOwnershipLost\<close>, whatever the stored run says and whatever operations the queue
  has seen in between, on this task and on others, except an \<^verbatim>\<open>Enqueue\<close> that stores another task under
  this task's identifier, which starts the generations of that identifier again.
\<close>

theorem stale_execution_fenced:
  assumes "queue_reachable q" and "map_of (tasks q) (el_TaskID lease) = Some t"
    and "\<forall>e \<in> set es. \<not> overwrites (el_TaskID lease) e" and "el_Generation lease = t_LeaseGeneration t"
    and "0 < lease_count (el_TaskID lease) es q" and "lease_count (el_TaskID lease) es q < 2 ^ 64"
    and "om_taskQueue r = Some (queue_run es q)"
  shows "ClaimOptimizationExecution qnow env now tenantID projectID runID lease r = (r, Inl ErrOptimizationOwnershipLost) \<and>
    UpdateOptimizationRun qnow env (Some lease) run r = (r, Inl ErrOptimizationOwnershipLost) \<and>
    CompareAndSwapOptimizationRun qnow env (Some lease) run runStatus r = (r, Inl ErrOptimizationOwnershipLost) \<and>
    UpdateOptimizationCandidate qnow env (Some lease) c r = (r, Inl ErrOptimizationOwnershipLost) \<and>
    CompareAndSwapOptimizationCandidate qnow env (Some lease) c status r = (r, Inl ErrOptimizationOwnershipLost)"
proof -
  note stale = queue_reachable_wf_aux [OF assms(1)] assms(2-)
  show ?thesis
    using ce.refuses_stale [OF stale] ur.refuses_stale [OF stale] cr.refuses_stale [OF stale]
      uc.refuses_stale [OF stale] cc.refuses_stale [OF stale] by simp
qed

definition demo_run :: "unit OptimizationRun" where
  "demo_run =
     \<lparr>run_ID = ''r'', run_TenantID = ''acme'', run_ProjectID = [], run_HoldoutSplit = [],
      run_Status = RunStatusRunning, run_StatusReason = [], run_BestCandidateID = [], run_HoldoutCandidateID = [],
      run_Checkpoint = \<lparr>cp_Stage = [], cp_CompletedCandidateIDs = [''c1''], cp_FailedCandidateIDs = [],
        cp_BestCandidateID = [], cp_HoldoutCandidateID = [], cp_JudgeCalls = 0, cp_CostUSD = Fin 0,
        cp_LastCandidateID = [], cp_CancelRequestedAt = None, cp_StatusReason = []\<rparr>,
      run_CancelRequestedAt = None, run_CurrentTaskID = ''a'', run_ExecutionGeneration = 0, run_UpdatedAt = 0,
      run_Data = ()\<rparr>"

definition demo_lease :: ExecutionLease where
  "demo_lease = \<lparr>el_TaskID = ''a'', el_Holder = ''w1'', el_Generation = 1\<rparr>"

definition demo_repo :: "MemoryQueueRepository \<Rightarrow> (unit, unit, unit) OptMemoryRepository" where
  "demo_repo q = CreateOptimizationRun demo_run (SetTaskQueue (Some q) NewOptMemoryRepository)"

theorem stale_execution_fenced_witness:
  "let es = [(no_entropy, 20, OpLease ''p'' ''w2'' 10 1)]; r = demo_repo (queue_run es demo_queue)
   in lease_count ''a'' es demo_queue = 1 \<and>
      UpdateOptimizationRun 21 (\<lambda>_ q. q) (Some demo_lease) demo_run r = (r, Inl ErrOptimizationOwnershipLost)"
proof -
  obtain t where t: "map_of (tasks demo_queue) ''a'' = Some t" "t_LeaseGeneration t = 1" by (rule demo_task)
  have n: "lease_count ''a'' [(no_entropy, 20, OpLease ''p'' ''w2'' 10 1)] demo_queue = 1" by code_simp
  show ?thesis
    using stale_execution_fenced [OF demo_reachable, of demo_lease t "[(no_entropy, 20, OpLease ''p'' ''w2'' 10 1)]"
        "demo_repo (queue_run [(no_entropy, 20, OpLease ''p'' ''w2'' 10 1)] demo_queue)" 21 "\<lambda>_ q. q"] t n
    by (simp add: demo_lease_def demo_repo_def CreateOptimizationRun_def SetTaskQueue_def put_run_def Let_def)
qed

section \<open>Claims\<close>

text \<open>Runs and candidates are stored under their own identifiers.\<close>

definition opt_wf :: "('d, 'c, 'h) OptMemoryRepository \<Rightarrow> bool" where
  "opt_wf r \<longleftrightarrow> gmap_wf (om_runs r) \<and> gmap_wf (om_candidates r) \<and> list_all (\<lambda>(k, run). run_ID run = k) (om_runs r) \<and>
     list_all (\<lambda>(k, c). oc_ID c = k) (om_candidates r)"

lemma opt_wf_run: "opt_wf r \<Longrightarrow> map_of (om_runs r) k = Some run \<Longrightarrow> run_ID run = k"
  by (auto simp: opt_wf_def list_all_iff dest: map_of_SomeD)

lemma run_key_wf: "opt_wf r \<Longrightarrow> run_ID run = k \<Longrightarrow> opt_wf (r\<lparr>om_runs := gput k run (om_runs r)\<rparr>)"
  by (auto simp: opt_wf_def list_all_iff set_gput)

lemma put_run_wf: "opt_wf r \<Longrightarrow> opt_wf (put_run run r)"
  by (simp add: put_run_def run_key_wf)

lemma put_candidate_wf: "opt_wf r \<Longrightarrow> opt_wf (put_candidate c r)"
  by (auto simp: opt_wf_def put_candidate_def list_all_iff set_gput)

lemma fold_put_candidate_wf: "opt_wf r \<Longrightarrow> opt_wf (fold put_candidate cs r)"
  by (induction cs arbitrary: r) (simp_all add: put_candidate_wf)

lemma recover_candidates_wf:
  "opt_wf r \<Longrightarrow> opt_wf (r\<lparr>om_taskQueue := q, om_candidates := recover_candidates run t (om_candidates r)\<rparr>)"
  by (auto simp: opt_wf_def gmap_wf_def recover_candidates_def list_all_iff comp_def case_prod_unfold split: option.splits)

lemma queue_update_wf [simp]: "opt_wf (r\<lparr>om_taskQueue := q\<rparr>) = opt_wf r"
  by (simp add: opt_wf_def)

lemma harness_update_wf [simp]: "opt_wf (r\<lparr>om_harness := h\<rparr>) = opt_wf r"
  by (simp add: opt_wf_def)

lemma fenced_wf:
  assumes "opt_wf r" and "\<And>r. opt_wf r \<Longrightarrow> opt_wf (fst (w r))"
  shows "opt_wf (fst (fenced qnow env ctx runID w r))"
proof -
  have "opt_wf (fst (ownsExecutionLocked qnow env ctx runID r))"
    using assms(1) by (simp add: ownsExecutionLocked_def split: option.splits)
  with assms(2) show ?thesis by (auto simp: fenced_def split: prod.splits bool.splits)
qed

lemma Claim_wf:
  assumes "opt_wf r"
  shows "opt_wf (fst (ClaimOptimizationExecution qnow env now tenantID projectID runID lease r))"
  using assms
  by (simp add: ClaimOptimizationExecution_def Let_def put_run_wf recover_candidates_wf split: option.splits RunStatus.splits)

lemma Cancel_run_wf:
  assumes "opt_wf r"
  shows "opt_wf (fst (CancelOptimizationRunWithTask bs qnow env tenantID runID reason now r))"
  using assms opt_wf_run [OF assms]
  by (auto simp: CancelOptimizationRunWithTask_def Let_def split: option.splits prod.splits sum.splits
      intro!: run_key_wf [of "r\<lparr>om_taskQueue := _\<rparr>", simplified])

text \<open>The states a repository reaches by its operations, with any clock readings and any behaviour of the queue.\<close>

inductive opt_reachable :: "('d, 'c, 'h) OptMemoryRepository \<Rightarrow> bool" where
  init: "opt_reachable NewOptMemoryRepository"
| queue: "opt_reachable r \<Longrightarrow> opt_reachable (SetTaskQueue q r)"
| create: "opt_reachable r \<Longrightarrow> opt_reachable (CreateOptimizationRun run r)"
| create_with: "opt_reachable r \<Longrightarrow> opt_reachable (CreateOptimizationRunWithCandidates run cs r)"
| create_task: "opt_reachable r \<Longrightarrow> opt_reachable (fst (CreateOptimizationRunWithTask bs qnow run cs task r))"
| resume: "opt_reachable r \<Longrightarrow> opt_reachable (fst (ResumeOptimizationRunWithTask bs qnow run st task r))"
| cancel: "opt_reachable r \<Longrightarrow> opt_reachable (fst (CancelOptimizationRunWithTask bs qnow env tenantID runID reason now r))"
| claim: "opt_reachable r \<Longrightarrow> opt_reachable (fst (ClaimOptimizationExecution qnow env now tenantID projectID runID lease r))"
| update_run: "opt_reachable r \<Longrightarrow> opt_reachable (fst (UpdateOptimizationRun qnow env ctx run r))"
| cas_run: "opt_reachable r \<Longrightarrow> opt_reachable (fst (CompareAndSwapOptimizationRun qnow env ctx run st r))"
| candidate: "opt_reachable r \<Longrightarrow> opt_reachable (CreateOptimizationCandidate c r)"
| update_candidate: "opt_reachable r \<Longrightarrow> opt_reachable (fst (UpdateOptimizationCandidate qnow env ctx c r))"
| cas_candidate: "opt_reachable r \<Longrightarrow> opt_reachable (fst (CompareAndSwapOptimizationCandidate qnow env ctx c cst r))"
| harness: "opt_reachable r \<Longrightarrow> opt_reachable (StoreHarnessRun h r)"

lemma opt_reachable_wf: "opt_reachable r \<Longrightarrow> opt_wf r"
proof (induction rule: opt_reachable.induct)
  case init
  show ?case by (simp add: opt_wf_def NewOptMemoryRepository_def)
next
  case (create_task r bs qnow run cs task)
  then show ?case
    by (auto simp: CreateOptimizationRunWithTask_def intro!: fold_put_candidate_wf put_run_wf split: option.splits)
next
  case (resume r bs qnow run st task)
  then show ?case
    by (auto simp: ResumeOptimizationRunWithTask_def intro!: put_run_wf recover_candidates_wf split: option.splits)
qed (auto simp: SetTaskQueue_def CreateOptimizationRun_def CreateOptimizationRunWithCandidates_def
    CreateOptimizationCandidate_def StoreHarnessRun_def UpdateOptimizationRun_def CompareAndSwapOptimizationRun_def
    UpdateOptimizationCandidate_def CompareAndSwapOptimizationCandidate_def
    intro!: put_run_wf put_candidate_wf fold_put_candidate_wf Claim_wf Cancel_run_wf fenced_wf split: option.splits)

lemma demo_repo_reachable: "opt_reachable (demo_repo q)"
  unfolding demo_repo_def by (intro opt_reachable.intros)

text \<open>The candidates an execution was working on when it stopped.\<close>

definition half_done :: "'d OptimizationRun \<Rightarrow> 'c OptimizationCandidate \<Rightarrow> bool" where
  "half_done run c \<longleftrightarrow> oc_OptimizationRunID c = run_ID run \<and>
     oc_Status c \<in> {CandidateStatusRunning, CandidateStatusEvaluated, CandidateStatusJudged,
       CandidateStatusHoldoutEvaluated, CandidateStatusPromoted, CandidateStatusCleanupDone} \<and>
     oc_ID c \<notin> set (cp_CompletedCandidateIDs (run_Checkpoint run))"

lemma recover_candidates_status:
  "c \<in> snd ` set (recover_candidates run t cs) \<Longrightarrow> \<not> half_done run c"
  by (auto simp: recover_candidates_def recoveredCandidateStatus_def half_done_def completedSet_def
      split: option.splits if_splits)

text \<open>What a claim that succeeds has checked and what it leaves behind.\<close>

lemma claim_success:
  assumes "ClaimOptimizationExecution qnow env now tenantID projectID runID lease r = (r', Inr ())" and "opt_wf r"
  obtains run run' q t where
    "map_of (om_runs r) runID = Some run" "sint (run_ExecutionGeneration run) < sint (el_Generation lease)"
    "map_of (om_runs r') runID = Some run'" "run_ExecutionGeneration run' = el_Generation lease"
    "run_CurrentTaskID run' = el_TaskID lease" "run_TenantID run' = tenantID" "run_ProjectID run' = projectID"
    "run_Status run' = (if run_Status run = RunStatusRunning then RunStatusQueued else run_Status run)"
    "run_Status run \<in> {RunStatusQueued, RunStatusCanceling, RunStatusRunning}"
    "om_candidates r' = (if run_Status run = RunStatusRunning then recover_candidates run now (om_candidates r) else om_candidates r)"
    "om_taskQueue r' = Some q" "OwnsActiveLease qnow (el_TaskID lease) (lease_token lease) False q"
proof -
  note claim = assms(1) [unfolded ClaimOptimizationExecution_def Let_def]
  obtain q0 where q0: "om_taskQueue r = Some q0" using claim by (cases "om_taskQueue r") simp_all
  obtain t where t: "Get (el_TaskID lease) q0 = Some t"
    using claim q0 by (cases "Get (el_TaskID lease) q0") simp_all
  note claim = claim [unfolded q0 t option.case]
  have tk: "Task_LeaseToken t = lease_token lease" using claim by (rule contrapos_pp) simp
  have own: "OwnsActiveLease qnow (el_TaskID lease) (lease_token lease) False (env 0 q0)"
    using claim by (rule contrapos_pp) (simp add: tk)
  obtain run where run: "map_of (om_runs r) runID = Some run" using claim by (cases "map_of (om_runs r) runID") (simp_all split: if_splits)
  have g: "run_TenantID run = tenantID" "run_ProjectID run = projectID" "run_CurrentTaskID run = el_TaskID lease"
    "sint (run_ExecutionGeneration run) < sint (el_Generation lease)"
    using claim by (simp_all add: run split: if_splits)
  define run' where "run' = (if run_Status run = RunStatusRunning
      then run\<lparr>run_Status := RunStatusQueued, run_Checkpoint := (run_Checkpoint run)\<lparr>cp_Stage := ''recovered''\<rparr>\<rparr>
      else run)\<lparr>run_ExecutionGeneration := el_Generation lease, run_UpdatedAt := now\<rparr>"
  have st: "run_Status run \<in> {RunStatusQueued, RunStatusCanceling, RunStatusRunning}"
    and r': "r' = put_run run' (r\<lparr>om_taskQueue := Some (env 0 q0), om_candidates :=
       (if run_Status run = RunStatusRunning then recover_candidates run now (om_candidates r) else om_candidates r)\<rparr>)"
    using claim by (cases "run_Status run"; simp add: run run'_def split: if_splits)+
  have "run_ID run' = runID" using opt_wf_run [OF assms(2) run] by (simp add: run'_def)
  then have "map_of (om_runs r') runID = Some run'" by (simp add: r' put_run_def map_of_gput)
  from that [OF run g(4) this _ _ _ _ _ st _ _ own] show ?thesis
    by (cases "run_Status run = RunStatusRunning") (simp_all add: r' put_run_def run'_def g)
qed

lemma Claim_again:
  assumes "map_of (om_runs r) runID = Some run" and "sint (el_Generation lease) \<le> sint (run_ExecutionGeneration run)"
    and "om_taskQueue r \<noteq> None"
  shows "snd (ClaimOptimizationExecution qnow env now tenantID projectID runID lease r) = Inl ErrOptimizationOwnershipLost"
  using assms by (auto simp: ClaimOptimizationExecution_def Let_def split: option.splits)

lemma OwnsActiveLease_token:
  "OwnsActiveLease qnow i tk b q \<Longrightarrow> \<exists>t. map_of (tasks q) i = Some t \<and> Task_LeaseToken t = tk"
  by (auto simp: OwnsActiveLease_def ownsLease_def Task_LeaseToken_def split: option.splits if_splits)

lemma fenced_accepts:
  assumes "map_of (om_runs r) runID = Some run" and "run_CurrentTaskID run = el_TaskID lease"
    and "run_ExecutionGeneration run = el_Generation lease" and "om_taskQueue r = Some q"
    and "OwnsActiveLease qnow (el_TaskID lease) (lease_token lease) False q"
  shows "fenced qnow (\<lambda>_ q. q) (Some lease) runID w r = w r"
proof -
  obtain t where t: "map_of (tasks q) (el_TaskID lease) = Some t" "Task_LeaseToken t = lease_token lease"
    using OwnsActiveLease_token [OF assms(5)] by blast
  have "OwnsActiveLease qnow (el_TaskID lease) (lease_token lease) True q"
    using assms(5) by (auto simp: OwnsActiveLease_def split: option.splits if_splits)
  moreover have same: "r\<lparr>om_taskQueue := Some q\<rparr> = r" using assms(4) by simp
  ultimately show ?thesis using assms(1-4) t by (simp add: fenced_def ownsExecutionLocked_def Get_def same)
qed

text \<open>
  A claim that succeeds hands the run over: the run waits (or is being canceled)
  under the generation of the lease, which is greater than the one it had; of a run that was found
  running, no candidate of it is left half done; a write that carries the lease is accepted while the
  queue stands as it was at the claim; and no claim with a generation up to this one succeeds on the
  run again, so a lease claims it once.
\<close>

lemma claim_hands_over:
  assumes "ClaimOptimizationExecution qnow env now tenantID projectID runID lease r = (r', Inr ())" and "opt_reachable r"
  shows "\<exists>run run'. map_of (om_runs r) runID = Some run \<and> map_of (om_runs r') runID = Some run' \<and>
    run_ExecutionGeneration run' = el_Generation lease \<and>
    sint (run_ExecutionGeneration run) < sint (run_ExecutionGeneration run') \<and>
    run_Status run' \<in> {RunStatusQueued, RunStatusCanceling} \<and>
    (run_Status run = RunStatusRunning \<longrightarrow> (\<forall>c \<in> snd ` set (om_candidates r'). \<not> half_done run c)) \<and>
    (\<forall>u. run_ID u = runID \<longrightarrow> UpdateOptimizationRun qnow (\<lambda>_ q. q) (Some lease) u r' = (put_run u r', Inr ())) \<and>
    (\<forall>qnow' env' now' tenant project lease'. sint (el_Generation lease') \<le> sint (el_Generation lease) \<longrightarrow>
       snd (ClaimOptimizationExecution qnow' env' now' tenant project runID lease' r') = Inl ErrOptimizationOwnershipLost)"
proof (rule claim_success [OF assms(1) opt_reachable_wf [OF assms(2)]])
  fix run run' q
  assume *: "map_of (om_runs r) runID = Some run" "sint (run_ExecutionGeneration run) < sint (el_Generation lease)"
    "map_of (om_runs r') runID = Some run'" "run_ExecutionGeneration run' = el_Generation lease"
    "run_CurrentTaskID run' = el_TaskID lease"
    "run_Status run' = (if run_Status run = RunStatusRunning then RunStatusQueued else run_Status run)"
    "run_Status run \<in> {RunStatusQueued, RunStatusCanceling, RunStatusRunning}"
    "om_candidates r' = (if run_Status run = RunStatusRunning then recover_candidates run now (om_candidates r) else om_candidates r)"
    "om_taskQueue r' = Some q" "OwnsActiveLease qnow (el_TaskID lease) (lease_token lease) False q"
  have "run_Status run = RunStatusRunning \<longrightarrow> (\<forall>c \<in> snd ` set (om_candidates r'). \<not> half_done run c)"
    using *(8) recover_candidates_status by (metis (full_types))
  moreover have "\<forall>u. run_ID u = runID \<longrightarrow> UpdateOptimizationRun qnow (\<lambda>_ q. q) (Some lease) u r' = (put_run u r', Inr ())"
    using fenced_accepts [OF *(3,5,4,9,10)] by (auto simp: UpdateOptimizationRun_def)
  moreover have "\<forall>qnow' env' now' tenant project lease'. sint (el_Generation lease') \<le> sint (el_Generation lease) \<longrightarrow>
       snd (ClaimOptimizationExecution qnow' env' now' tenant project runID lease' r') = Inl ErrOptimizationOwnershipLost"
    using Claim_again [OF *(3)] *(4,9) by simp
  moreover have "run_Status run' \<in> {RunStatusQueued, RunStatusCanceling}" using *(6,7) by auto
  ultimately show ?thesis using *(1-4) by auto
qed

lemma claim_hands_over_witness:
  "\<exists>r'. ClaimOptimizationExecution 3 (\<lambda>_ q. q) 3 ''acme'' [] ''r'' demo_lease (demo_repo demo_queue) = (r', Inr ()) \<and>
     (\<exists>run'. map_of (om_runs r') ''r'' = Some run' \<and> run_ExecutionGeneration run' = 1) \<and>
     UpdateOptimizationRun 3 (\<lambda>_ q. q) (Some demo_lease) demo_run r' = (put_run demo_run r', Inr ())"
proof -
  obtain r' where r': "ClaimOptimizationExecution 3 (\<lambda>_ q. q) 3 ''acme'' [] ''r'' demo_lease (demo_repo demo_queue) = (r', Inr ())"
  proof -
    have "snd (ClaimOptimizationExecution 3 (\<lambda>_ q. q) 3 ''acme'' [] ''r'' demo_lease (demo_repo demo_queue)) = Inr ()"
      by code_simp
    then show ?thesis using that by (metis prod.collapse)
  qed
  show ?thesis
    using claim_hands_over [OF r' demo_repo_reachable] r' by (auto simp: demo_lease_def demo_run_def)
qed

section \<open>Listings\<close>

definition demo_candidate :: "string \<Rightarrow> unit OptimizationCandidate" where
  "demo_candidate i =
     \<lparr>oc_ID = i, oc_OptimizationRunID = ''r'', oc_Config = undefined, oc_Status = CandidateStatusRunning,
      oc_UpdatedAt = 0, oc_Data = ()\<rparr>"

lemma swap_loop_mset: "mset (snd (swap_loop x ys)) + {#fst (swap_loop x ys)#} = mset ys + {#x#}"
  by (induction ys arbitrary: x) (simp_all add: case_prod_unfold Let_def)

lemma swap_loop_least: "fst (swap_loop x ys) \<in> set (x # ys)" "z \<in> set (x # ys) \<Longrightarrow> oc_ID (fst (swap_loop x ys)) \<le> oc_ID z"
proof (induction ys arbitrary: x z)
  case (Cons y ys)
  { case 1 then show ?case using Cons.IH(1) by (auto simp: case_prod_unfold Let_def) }
  { case 2 then show ?case using Cons.IH(2) [of z y] Cons.IH(2) [of z x] Cons.IH(2) [of y y] Cons.IH(2) [of x x]
      by (auto simp: case_prod_unfold Let_def intro: order_trans order.strict_implies_order)
  }
qed simp_all

lemma sortOptimizationCandidates_mset [simp]: "mset (sortOptimizationCandidates cs) = mset cs"
proof (induction cs rule: sortOptimizationCandidates.induct)
  case (2 x xs)
  then show ?case using swap_loop_mset [of x xs] by simp
qed simp

lemma sortOptimizationCandidates_set [simp]: "set (sortOptimizationCandidates cs) = set cs"
  using sortOptimizationCandidates_mset [of cs] by (metis set_mset_mset)

lemma sortOptimizationCandidates_sorted: "sorted (map oc_ID (sortOptimizationCandidates cs))"
proof (induction cs rule: sortOptimizationCandidates.induct)
  case (2 x xs)
  have "set (snd (swap_loop x xs)) \<subseteq> set (x # xs)"
    using arg_cong [OF swap_loop_mset [of x xs], of set_mset] by auto
  with 2 show ?case using swap_loop_least(2) [of _ x xs] by auto
qed simp

text \<open>
  A listing of the candidates of a run holds exactly the candidates stored for it, in the
  order of their identifiers: the exchange sort gives the list that the library's sort gives.
\<close>

lemma ListOptimizationCandidates_sorted:
  assumes "opt_reachable r" and "map_of (om_runs r) runID = Some run" and "run_TenantID run = tenantID"
  shows "ListOptimizationCandidates tenantID runID r =
    sort_key oc_ID (filter (\<lambda>c. oc_OptimizationRunID c = runID) (map snd (om_candidates r)))"
proof -
  let ?cs = "filter (\<lambda>c. oc_OptimizationRunID c = runID) (map snd (om_candidates r))"
  note wf = opt_reachable_wf [OF assms(1)]
  have "oc_ID c = k" if "(k, c) \<in> set (om_candidates r)" for k c
    using wf that by (auto simp: opt_wf_def list_all_iff)
  then have "map oc_ID (map snd (om_candidates r)) = map fst (om_candidates r)" by auto
  then have "inj_on oc_ID (snd ` set (om_candidates r))"
    using wf by (metis distinct_map list.set_map opt_wf_def gmap_wf_def)
  then have "inj_on oc_ID (set ?cs)" by (rule inj_on_subset) auto
  from sort_key_inj_key_eq [OF _ this sortOptimizationCandidates_sorted, of ?cs] assms(2,3)
  show ?thesis by (simp add: ListOptimizationCandidates_def)
qed

lemma ListOptimizationCandidates_sorted_witness:
  "let r = CreateOptimizationCandidate (demo_candidate ''b'') (CreateOptimizationCandidate (demo_candidate ''c'')
             (CreateOptimizationCandidate (demo_candidate ''a'') (demo_repo demo_queue)))
   in map oc_ID (ListOptimizationCandidates ''acme'' ''r'' r) = [''a'', ''b'', ''c'']"
  (is "Let ?r _")
proof -
  have "opt_reachable ?r" by (intro opt_reachable.candidate demo_repo_reachable)
  moreover have "map_of (om_runs ?r) ''r'' = Some demo_run"
    by (simp add: demo_repo_def CreateOptimizationRun_def put_run_def SetTaskQueue_def NewOptMemoryRepository_def
        CreateOptimizationCandidate_def put_candidate_def demo_run_def)
  ultimately have "ListOptimizationCandidates ''acme'' ''r'' ?r =
      sort_key oc_ID (filter (\<lambda>c. oc_OptimizationRunID c = ''r'') (map snd (om_candidates ?r)))"
    by (rule ListOptimizationCandidates_sorted) (simp add: demo_run_def)
  then show ?thesis
    by (simp add: demo_repo_def CreateOptimizationRun_def put_run_def SetTaskQueue_def NewOptMemoryRepository_def
        CreateOptimizationCandidate_def put_candidate_def own_config_id_def demo_candidate_def)
qed

end
