(* ===== verification/Datasets.thy ===== *)
theory Datasets
  imports GoText Float64
begin

text \<open>
  Evaluation datasets (\<^verbatim>\<open>internal/dataset/service.go\<close>): the service over its in-memory repository, and
  what it guarantees: tenants do not reach each other's datasets, a stored item is read back, and
  ensuring an item twice stores it once.

  A service method calls the repository several times and holds no lock in between; \<open>env\<close> is what other
  callers do to the repository between a check and the write that follows it. A nil list and an
  empty list, a nil map and an empty map are one value. The text of a time in the layout of the
  version field is the argument \<open>stamp\<close>.
\<close>

section \<open>Data\<close>

type_synonym DatasetSplit = string

definition DatasetSplitEval :: DatasetSplit where
  "DatasetSplitEval = ''eval''"

record Dataset =
  ds_ID :: string
  ds_TenantID :: string
  ds_ProjectID :: string
  ds_Name :: string
  ds_Kind :: string
  ds_Version :: string
  ds_CreatedAt :: gotime

record DiversityAnnotation =
  da_Aspect :: string
  da_Subquestion :: string
  da_ChunkID :: string
  da_ChunkIDs :: "string list"
  da_DocumentID :: string
  da_DocumentIDs :: "string list"
  da_SourceURI :: string
  da_SourceURIs :: "string list"

record DatasetItem =
  it_ID :: string
  it_DatasetID :: string
  it_Query :: string
  it_GroundTruth :: string
  it_RelevantDocIDs :: "string list"
  it_DiversityAnnotations :: "DiversityAnnotation list"
  it_Split :: DatasetSplit
  it_Weight :: float64
  it_ExpectedEvidence :: "string list"
  it_HumanScores :: "(string, float64) gomap"

record DatasetRepository =
  dr_datasets :: "(string, Dataset) gomap"
  dr_items :: "(string, DatasetItem list) gomap"

datatype dataset_error = ErrDatasetNotFound

type_synonym dataset_env = "DatasetRepository \<Rightarrow> DatasetRepository"

definition zero_dataset :: Dataset where
  "zero_dataset = \<lparr>ds_ID = [], ds_TenantID = [], ds_ProjectID = [], ds_Name = [], ds_Kind = [], ds_Version = [], ds_CreatedAt = zero_time\<rparr>"

section \<open>Normalisation\<close>

definition NormalizeItemMetadata :: "DatasetItem \<Rightarrow> DatasetItem" where
  "NormalizeItemMetadata item =
     item\<lparr>it_Split := (if it_Split item = [] then DatasetSplitEval else it_Split item),
          it_Weight := (if fle (it_Weight item) (Fin 0) then Fin 1 else it_Weight item)\<rparr>"

definition NormalizeSplit :: "DatasetSplit \<Rightarrow> DatasetSplit" where
  "NormalizeSplit split = TrimSpace split"

definition FilterItemsBySplit :: "DatasetItem list \<Rightarrow> DatasetSplit \<Rightarrow> DatasetItem list" where
  "FilterItemsBySplit items split =
     (let split = NormalizeSplit split
      in if split = [] then items
         else filter (\<lambda>item. it_Split item = split) (map NormalizeItemMetadata items))"

section \<open>The in-memory repository\<close>

definition NewDatasetRepository :: DatasetRepository where
  "NewDatasetRepository = \<lparr>dr_datasets = [], dr_items = []\<rparr>"

definition CreateDataset :: "Dataset \<Rightarrow> DatasetRepository \<Rightarrow> DatasetRepository \<times> Dataset" where
  "CreateDataset ds r = (r\<lparr>dr_datasets := gput (ds_ID ds) ds (dr_datasets r)\<rparr>, ds)"

text \<open>The stored record comes back also when the second component says that it was not found.\<close>

definition GetDataset :: "string \<Rightarrow> string \<Rightarrow> DatasetRepository \<Rightarrow> Dataset \<times> bool" where
  "GetDataset tenantID i r =
     (case map_of (dr_datasets r) i of
        None \<Rightarrow> (zero_dataset, False)
      | Some ds \<Rightarrow> (ds, ds_TenantID ds = tenantID))"

definition GetDatasetInProject :: "string \<Rightarrow> string \<Rightarrow> string \<Rightarrow> DatasetRepository \<Rightarrow> Dataset \<times> bool" where
  "GetDatasetInProject tenantID projectID i r =
     (case map_of (dr_datasets r) i of
        None \<Rightarrow> (zero_dataset, False)
      | Some ds \<Rightarrow> (ds, ds_TenantID ds = tenantID \<and> ds_ProjectID ds = projectID))"

definition owned_by :: "string \<Rightarrow> string \<Rightarrow> DatasetRepository \<Rightarrow> bool" where
  "owned_by tenantID i r \<longleftrightarrow> (case map_of (dr_datasets r) i of None \<Rightarrow> False | Some ds \<Rightarrow> ds_TenantID ds = tenantID)"

definition AddDatasetItem ::
  "string \<Rightarrow> DatasetItem \<Rightarrow> DatasetRepository \<Rightarrow> DatasetRepository \<times> (dataset_error + DatasetItem)" where
  "AddDatasetItem tenantID item r =
     (if \<not> owned_by tenantID (it_DatasetID item) r then (r, Inl ErrDatasetNotFound)
      else let item = NormalizeItemMetadata item
           in (r\<lparr>dr_items := gput (it_DatasetID item) (gget0 [] (dr_items r) (it_DatasetID item) @ [item]) (dr_items r)\<rparr>,
               Inr item))"

definition DatasetItems :: "string \<Rightarrow> string \<Rightarrow> DatasetRepository \<Rightarrow> dataset_error + DatasetItem list" where
  "DatasetItems tenantID datasetID r =
     (if \<not> owned_by tenantID datasetID r then Inl ErrDatasetNotFound else Inr (gget0 [] (dr_items r) datasetID))"

definition DatasetItemsBySplit ::
  "string \<Rightarrow> string \<Rightarrow> DatasetSplit \<Rightarrow> DatasetRepository \<Rightarrow> dataset_error + DatasetItem list" where
  "DatasetItemsBySplit tenantID datasetID split r =
     (if \<not> owned_by tenantID datasetID r then Inl ErrDatasetNotFound
      else Inr (FilterItemsBySplit (gget0 [] (dr_items r) datasetID) split))"

section \<open>The service\<close>

definition CreateDatasetInProject ::
  "(gotime \<Rightarrow> string) \<Rightarrow> entropy \<Rightarrow> gotime \<Rightarrow> gotime \<Rightarrow> string \<Rightarrow> string \<Rightarrow> string \<Rightarrow> string \<Rightarrow> DatasetRepository \<Rightarrow>
   DatasetRepository \<times> Dataset" where
  "CreateDatasetInProject stamp b now now' tenantID projectID name kind r =
     CreateDataset \<lparr>ds_ID = id_New ''ds'' b, ds_TenantID = tenantID, ds_ProjectID = projectID, ds_Name = name,
       ds_Kind = kind, ds_Version = stamp now, ds_CreatedAt = now'\<rparr> r"

definition CreateDataset_service where
  "CreateDataset_service stamp b now now' tenantID name kind r = CreateDatasetInProject stamp b now now' tenantID [] name kind r"

definition EnsureInProject ::
  "(gotime \<Rightarrow> string) \<Rightarrow> gotime \<Rightarrow> dataset_env \<Rightarrow> string \<Rightarrow> Dataset \<Rightarrow> DatasetRepository \<Rightarrow>
   DatasetRepository \<times> (dataset_error + Dataset)" where
  "EnsureInProject stamp now env tenantID item r =
     (if TrimSpace tenantID = [] \<or> ds_ID item = [] \<or> ds_TenantID item \<noteq> tenantID \<or> ds_ProjectID item = [] \<or>
         TrimSpace (ds_Name item) = [] \<or> TrimSpace (ds_Kind item) = []
      then (r, Inl ErrDatasetNotFound)
      else case GetDataset tenantID (ds_ID item) r of
             (existing, True) \<Rightarrow>
               if ds_ProjectID existing \<noteq> ds_ProjectID item \<or> ds_Kind existing \<noteq> ds_Kind item
               then (r, Inl ErrDatasetNotFound) else (r, Inr existing)
           | (_, False) \<Rightarrow>
               let item = (if IsZero (ds_CreatedAt item) then item\<lparr>ds_CreatedAt := now\<rparr> else item);
                   item = (if ds_Version item = [] then item\<lparr>ds_Version := stamp now\<rparr> else item)
               in map_prod id Inr (CreateDataset item (env r)))"

definition AddItem ::
  "entropy \<Rightarrow> dataset_env \<Rightarrow> string \<Rightarrow> string \<Rightarrow> DatasetItem \<Rightarrow> DatasetRepository \<Rightarrow>
   DatasetRepository \<times> (dataset_error + DatasetItem)" where
  "AddItem b env tenantID datasetID item r =
     (if \<not> snd (GetDataset tenantID datasetID r) then (r, Inl ErrDatasetNotFound)
      else AddDatasetItem tenantID (NormalizeItemMetadata (item\<lparr>it_ID := id_New ''dsi'' b, it_DatasetID := datasetID\<rparr>)) (env r))"

text \<open>\<open>env\<close> runs between the check of the dataset and the read of its items.\<close>

definition Items_then ::
  "dataset_env \<Rightarrow> string \<Rightarrow> string \<Rightarrow> DatasetRepository \<Rightarrow> DatasetRepository \<times> (dataset_error + DatasetItem list)" where
  "Items_then env tenantID datasetID r =
     (if \<not> snd (GetDataset tenantID datasetID r) then (r, Inl ErrDatasetNotFound)
      else (env r, DatasetItems tenantID datasetID (env r)))"

definition Items :: "string \<Rightarrow> string \<Rightarrow> DatasetRepository \<Rightarrow> dataset_error + DatasetItem list" where
  "Items tenantID datasetID r = snd (Items_then id tenantID datasetID r)"

text \<open>\<open>env1\<close>, \<open>env2\<close> and \<open>env3\<close> run between the reads, before the write and before the second look.\<close>

definition EnsureItem ::
  "dataset_env \<Rightarrow> dataset_env \<Rightarrow> dataset_env \<Rightarrow> string \<Rightarrow> DatasetItem \<Rightarrow> DatasetRepository \<Rightarrow>
   DatasetRepository \<times> (dataset_error + DatasetItem)" where
  "EnsureItem env1 env2 env3 tenantID item r =
     (if TrimSpace (it_ID item) = [] \<or> TrimSpace (it_DatasetID item) = [] then (r, Inl ErrDatasetNotFound)
      else case Items_then env1 tenantID (it_DatasetID item) r of
             (r1, Inl e) \<Rightarrow> (r1, Inl e)
           | (r1, Inr items) \<Rightarrow>
               (case find (\<lambda>existing. it_ID existing = it_ID item) items of
                  Some existing \<Rightarrow> (r1, Inr existing)
                | None \<Rightarrow>
                    (case AddDatasetItem tenantID (NormalizeItemMetadata item) (env2 r1) of
                       (r2, Inr created) \<Rightarrow> (r2, Inr created)
                     | (r2, Inl err) \<Rightarrow>
                         (case Items_then id tenantID (it_DatasetID item) (env3 r2) of
                            (r3, Inl e) \<Rightarrow> (r3, Inl e)
                          | (r3, Inr items) \<Rightarrow>
                              (case find (\<lambda>existing. it_ID existing = it_ID item) items of
                                 Some existing \<Rightarrow> (r3, Inr existing)
                               | None \<Rightarrow> (r3, Inl err))))))"

definition ItemsBySplit ::
  "dataset_env \<Rightarrow> string \<Rightarrow> string \<Rightarrow> DatasetSplit \<Rightarrow> DatasetRepository \<Rightarrow> dataset_error + DatasetItem list" where
  "ItemsBySplit env tenantID datasetID split r =
     (if \<not> snd (GetDataset tenantID datasetID r) then Inl ErrDatasetNotFound
      else let split = NormalizeSplit split
           in if split = [] then DatasetItems tenantID datasetID (env r)
              else DatasetItemsBySplit tenantID datasetID split (env r))"

definition Get_dataset :: "string \<Rightarrow> string \<Rightarrow> DatasetRepository \<Rightarrow> Dataset \<times> bool" where
  "Get_dataset tenantID i r = GetDataset tenantID i r"

definition GetInProject_dataset :: "string \<Rightarrow> string \<Rightarrow> string \<Rightarrow> DatasetRepository \<Rightarrow> Dataset \<times> bool" where
  "GetInProject_dataset tenantID projectID i r = GetDatasetInProject tenantID projectID i r"

section \<open>Lemmas\<close>

lemma NormalizeItemMetadata_idem [simp]: "NormalizeItemMetadata (NormalizeItemMetadata i) = NormalizeItemMetadata i"
  by (simp add: NormalizeItemMetadata_def DatasetSplitEval_def fle_iff)

lemma NormalizeItemMetadata_fields [simp]:
  "it_ID (NormalizeItemMetadata i) = it_ID i" "it_DatasetID (NormalizeItemMetadata i) = it_DatasetID i"
  "it_RelevantDocIDs (NormalizeItemMetadata i) = it_RelevantDocIDs i"
  "it_Split (NormalizeItemMetadata i) \<noteq> []"
  by (simp_all add: NormalizeItemMetadata_def DatasetSplitEval_def)

lemma snd_GetDataset [simp]: "snd (GetDataset tenantID i r) = owned_by tenantID i r"
  by (simp add: GetDataset_def owned_by_def split: option.splits)

lemma Items_eq: "Items tenantID i r = DatasetItems tenantID i r"
  by (simp add: Items_def Items_then_def DatasetItems_def)

lemma AddDatasetItem_success:
  assumes "owned_by tenantID (it_DatasetID item) r"
  shows "\<exists>r'. AddDatasetItem tenantID item r = (r', Inr (NormalizeItemMetadata item)) \<and>
    dr_datasets r' = dr_datasets r \<and>
    (\<forall>d. gget0 [] (dr_items r') d =
       (if d = it_DatasetID item then gget0 [] (dr_items r) d @ [NormalizeItemMetadata item] else gget0 [] (dr_items r) d))"
  using assms by (auto simp: AddDatasetItem_def Let_def gget0_def map_of_gput)

lemma TrimSpace_eval [simp]: "TrimSpace ''eval'' = ''eval''"
  by code_simp

text \<open>The filters by split take a list of items apart and lose none.\<close>

lemma split_partition:
  assumes "\<forall>i \<in> set items. TrimSpace (it_Split i) = it_Split i"
  shows "mset (map NormalizeItemMetadata items) =
    sum (\<lambda>s. mset (FilterItemsBySplit items s)) (set (map (it_Split \<circ> NormalizeItemMetadata) items))"
proof -
  let ?S = "set (map (it_Split \<circ> NormalizeItemMetadata) items)"
  have trim: "TrimSpace s = s \<and> s \<noteq> []" if "s \<in> ?S" for s
    using that assms by (auto simp: NormalizeItemMetadata_def DatasetSplitEval_def) 
  have "(\<Sum>s \<in> ?S. mset (FilterItemsBySplit items s)) =
      (\<Sum>s \<in> ?S. filter_mset (\<lambda>i. it_Split i = s) (mset (map NormalizeItemMetadata items)))"
  proof (rule sum.cong)
    fix s assume "s \<in> ?S"
    from trim [OF this] show "mset (FilterItemsBySplit items s) =
        filter_mset (\<lambda>i. it_Split i = s) (mset (map NormalizeItemMetadata items))"
      by (simp add: FilterItemsBySplit_def NormalizeSplit_def)
  qed simp
  also have "\<dots> = mset (map NormalizeItemMetadata items)"
  proof (rule multiset_eqI)
    fix i
    show "Multiset.count (\<Sum>s \<in> ?S. filter_mset (\<lambda>i. it_Split i = s) (mset (map NormalizeItemMetadata items))) i =
        Multiset.count (mset (map NormalizeItemMetadata items)) i"
    proof (cases "i \<in> set (map NormalizeItemMetadata items)")
      case True
      then have "it_Split i \<in> ?S" by auto
      then show ?thesis by (simp add: count_sum if_distrib sum.delta cong: if_cong)
    next
      case False
      then have "Multiset.count (mset (map NormalizeItemMetadata items)) i = 0" by (simp add: count_eq_zero_iff)
      then show ?thesis by (simp add: count_sum)
    qed
  qed
  finally show ?thesis by simp
qed

section \<open>Ensuring an item\<close>

lemma find_append_new: "find P xs = None \<Longrightarrow> P y \<Longrightarrow> find P (xs @ [y]) = Some y"
  by (induction xs) (auto split: if_splits)

lemma EnsureItem_cases:
  assumes "EnsureItem id id id tenantID item r = (r', Inr x)"
  obtains (found) "owned_by tenantID (it_DatasetID item) r" "r' = r"
      "find (\<lambda>e. it_ID e = it_ID item) (gget0 [] (dr_items r) (it_DatasetID item)) = Some x"
  | (added) "owned_by tenantID (it_DatasetID item) r" "x = NormalizeItemMetadata item"
      "find (\<lambda>e. it_ID e = it_ID item) (gget0 [] (dr_items r) (it_DatasetID item)) = None"
      "AddDatasetItem tenantID (NormalizeItemMetadata item) r = (r', Inr x)"
proof -
  have own: "owned_by tenantID (it_DatasetID item) r"
    using assms by (auto simp: EnsureItem_def Items_then_def split: if_splits)
  obtain r2 where add: "AddDatasetItem tenantID (NormalizeItemMetadata item) r = (r2, Inr (NormalizeItemMetadata item))"
    using AddDatasetItem_success [of tenantID "NormalizeItemMetadata item" r] own by auto
  show ?thesis
    using assms own add found added
    by (auto simp: EnsureItem_def Items_then_def DatasetItems_def split: if_splits option.splits)
qed

lemma EnsureItem_guard:
  "EnsureItem id id id tenantID item r = (r', Inr x) \<Longrightarrow> TrimSpace (it_ID item) \<noteq> [] \<and> TrimSpace (it_DatasetID item) \<noteq> []"
  by (auto simp: EnsureItem_def split: if_splits)

lemma EnsureItem_found:
  assumes "TrimSpace (it_ID item) \<noteq> []" and "TrimSpace (it_DatasetID item) \<noteq> []"
    and "owned_by tenantID (it_DatasetID item) r"
    and "find (\<lambda>e. it_ID e = it_ID item) (gget0 [] (dr_items r) (it_DatasetID item)) = Some x"
  shows "EnsureItem id id id tenantID item r = (r, Inr x)"
  using assms by (simp add: EnsureItem_def Items_then_def DatasetItems_def)

text \<open>
  Ensuring an item that succeeds stores it once: the item with that identifier is in the
  dataset afterwards, every other item and every other dataset is as before, and ensuring an item with
  the same identifier again, by the tenant of the dataset, returns the stored one and changes nothing.
\<close>

lemma ensure_item_once:
  assumes "EnsureItem id id id tenantID item r = (r', Inr x)"
    and "it_ID item' = it_ID item" and "it_DatasetID item' = it_DatasetID item"
  shows "it_ID x = it_ID item \<and> x \<in> set (gget0 [] (dr_items r') (it_DatasetID item)) \<and>
    gget0 [] (dr_items r') (it_DatasetID item) \<in>
      {gget0 [] (dr_items r) (it_DatasetID item), gget0 [] (dr_items r) (it_DatasetID item) @ [x]} \<and>
    (\<forall>d. d \<noteq> it_DatasetID item \<longrightarrow> gget0 [] (dr_items r') d = gget0 [] (dr_items r) d) \<and>
    EnsureItem id id id tenantID item' r' = (r', Inr x)"
proof (cases rule: EnsureItem_cases [OF assms(1), case_names found added])
  case found
  then have "x \<in> set (gget0 [] (dr_items r) (it_DatasetID item))" "it_ID x = it_ID item"
    by (auto simp: find_Some_iff)
  with found EnsureItem_guard [OF assms(1)] assms(2,3) show ?thesis by (auto intro: EnsureItem_found)
next
  case added
  from AddDatasetItem_success [of tenantID "NormalizeItemMetadata item" r] added
  have ds: "dr_datasets r' = dr_datasets r" and items: "\<And>d. gget0 [] (dr_items r') d =
       (if d = it_DatasetID item then gget0 [] (dr_items r) d @ [x] else gget0 [] (dr_items r) d)"
    by auto
  have "owned_by tenantID (it_DatasetID item') r'" using added(1) ds assms(3) by (simp add: owned_by_def)
  moreover have "find (\<lambda>e. it_ID e = it_ID item') (gget0 [] (dr_items r') (it_DatasetID item')) = Some x"
    using find_append_new [OF added(3), of x] added(2) by (simp add: items assms(2,3))
  ultimately have "EnsureItem id id id tenantID item' r' = (r', Inr x)"
    using EnsureItem_guard [OF assms(1)] assms(2,3) by (intro EnsureItem_found) simp_all
  with added(2) items show ?thesis by simp
qed

text \<open>Two executions that overlap store the item twice: the in-memory repository accepts every identifier.\<close>

lemma ensure_item_race:
  assumes "TrimSpace (it_ID item) \<noteq> []" and "TrimSpace (it_DatasetID item) \<noteq> []"
    and "owned_by tenantID (it_DatasetID item) r"
    and "find (\<lambda>e. it_ID e = it_ID item) (gget0 [] (dr_items r) (it_DatasetID item)) = None"
  shows "gget0 [] (dr_items (fst (EnsureItem id (fst \<circ> EnsureItem id id id tenantID item) id tenantID item r))) (it_DatasetID item) =
    gget0 [] (dr_items r) (it_DatasetID item) @ [NormalizeItemMetadata item, NormalizeItemMetadata item]"
  using assms
  by (simp add: EnsureItem_def Items_then_def DatasetItems_def AddDatasetItem_def owned_by_def Let_def gget0_def map_of_gput)

definition demo_item :: DatasetItem where
  "demo_item =
     \<lparr>it_ID = ''i'', it_DatasetID = ''d'', it_Query = ''q'', it_GroundTruth = [], it_RelevantDocIDs = [],
      it_DiversityAnnotations = [], it_Split = [], it_Weight = Fin 0, it_ExpectedEvidence = [], it_HumanScores = []\<rparr>"

definition demo_datasets :: DatasetRepository where
  "demo_datasets = fst (CreateDataset (zero_dataset\<lparr>ds_ID := ''d'', ds_TenantID := ''acme''\<rparr>) NewDatasetRepository)"

lemma ensure_item_once_witness:
  "\<exists>r' x. EnsureItem id id id ''acme'' demo_item demo_datasets = (r', Inr x) \<and>
     gget0 [] (dr_items r') ''d'' = [x] \<and>
     EnsureItem id id id ''acme'' (demo_item\<lparr>it_Query := ''other''\<rparr>) r' = (r', Inr x)"
proof -
  have trim: "TrimSpace ''i'' \<noteq> []" "TrimSpace ''d'' \<noteq> []" by code_simp+
  have none: "gget0 [] (dr_items demo_datasets) ''d'' = []"
    by (simp add: demo_datasets_def CreateDataset_def NewDatasetRepository_def gget0_def)
  obtain r' x where e: "EnsureItem id id id ''acme'' demo_item demo_datasets = (r', Inr x)"
    using trim
    by (simp add: EnsureItem_def Items_then_def DatasetItems_def AddDatasetItem_def demo_item_def demo_datasets_def
        CreateDataset_def NewDatasetRepository_def owned_by_def gget0_def Let_def)
  from ensure_item_once [OF e, of "demo_item\<lparr>it_Query := ''other''\<rparr>"] e none show ?thesis
    by (auto simp: demo_item_def)
qed

end
