(* ===== verification/RagContext.thy ===== *)
theory RagContext
  imports KBStore Utf8
begin

text \<open>
  Pieces of the query service (\<^verbatim>\<open>internal/rag\<close>) that need no model: the requests and responses of
  \<^verbatim>\<open>types.go\<close>, the heuristic router of \<^verbatim>\<open>query_router.go\<close>, the context packer of \<^verbatim>\<open>context_pack.go\<close> and
  the check of citations in \<^verbatim>\<open>citation.go\<close>. A packed context stays within its token budget, and
  what it cites passes the check.
\<close>

section \<open>Data\<close>

type_synonym Profile = string

definition ProfileRealtime :: Profile where
  "ProfileRealtime = ''realtime''"

definition ProfileHighPrecision :: Profile where
  "ProfileHighPrecision = ''high_precision''"

record QueryRequest =
  qr_TenantID :: string
  qr_TraceID :: string
  qr_SemanticCacheNamespace :: string
  qr_ScopedShadowItemID :: string
  qr_ProjectID :: string
  qr_PipelineID :: string
  qr_PipelineVersionID :: string
  qr_ReleaseID :: string
  qr_Environment :: string
  qr_DatasetID :: string
  qr_EvaluationRunID :: string
  qr_KnowledgeBaseID :: string
  qr_Query :: string
  qr_Profile :: Profile
  qr_SessionID :: string
  qr_TopK :: int

record Citation =
  ci_ChunkID :: string
  ci_DocumentID :: string
  ci_SourceURI :: string
  ci_Section :: string
  ci_Quote :: string

datatype QueryRoute = QueryRouteDirect | QueryRouteSingleRetrieval | QueryRouteMultiStepRetrieval | QueryRouteOther string

record RouteDecision =
  rd_Route :: QueryRoute
  rd_Reason :: string
  rd_Strategy :: string
  rd_Signals :: "string list"

record QueryResponse =
  qs_Answer :: string
  qs_Citations :: "Citation list"
  qs_RetrievedChunks :: "SearchResult list"
  qs_TraceID :: string
  qs_CacheStatus :: string
  qs_Profile :: Profile
  qs_Route :: "RouteDecision option"
  qs_Warnings :: "string list"
  qs_TraceWarnings :: "(string \<times> string) list"
  qs_TraceSummary :: "(int \<times> string \<times> int) option"
  qs_LatencyMS :: int
  qs_CreatedAt :: gotime

section \<open>The router\<close>

definition utf8 :: "rune list \<Rightarrow> string" where
  "utf8 rs = concat (map EncodeRune rs)"

record HeuristicQueryRouter =
  hr_DirectMaxRunes :: int
  hr_ComplexMinSignals :: int

definition defaultPositive :: "int \<Rightarrow> int \<Rightarrow> int" where
  "defaultPositive v fallback = (if v > 0 then v else fallback)"

definition signal_terms :: "(string \<times> string list) list" where
  "signal_terms =
     [(''compare'', [utf8 [0x6BD4, 0x8F83], utf8 [0x5BF9, 0x6BD4], utf8 [0x533A, 0x522B], utf8 [0x4F18, 0x7F3A, 0x70B9], ''vs'', ''versus'']),
      (''summarize'', [utf8 [0x603B, 0x7ED3], utf8 [0x5F52, 0x7EB3], utf8 [0x7EFC, 0x5408], utf8 [0x68B3, 0x7406]]),
      (''causal'', [utf8 [0x4E3A, 0x4EC0, 0x4E48], utf8 [0x539F, 0x56E0], utf8 [0x5F71, 0x54CD], utf8 [0x5BFC, 0x81F4]]),
      (''relation'', [utf8 [0x5173, 0x7CFB], utf8 [0x5173, 0x8054], utf8 [0x4E4B, 0x95F4], utf8 [0x4F9D, 0x8D56]]),
      (''procedure'', [utf8 [0x5982, 0x4F55], utf8 [0x6B65, 0x9AA4], utf8 [0x65B9, 0x6848], utf8 [0x89C4, 0x5212]]),
      (''multiple'', [utf8 [0x591A, 0x4E2A], utf8 [0x5206, 0x522B], utf8 [0x540C, 0x65F6], utf8 [0x4EE5, 0x53CA], utf8 [0x5E76, 0x4E14]])]"

definition routeSignals :: "unicode_tables \<Rightarrow> string \<Rightarrow> string list" where
  "routeSignals u query =
     (let lower = ToLower u (TrimSpace query)
      in if lower = [] then []
         else map fst (filter (\<lambda>(name, terms). list_ex (\<lambda>term. Contains lower term) terms) signal_terms) @
              (if RuneCount lower \<ge> 80 then [''long_query''] else []))"

definition direct_terms :: "string list" where
  "direct_terms = [utf8 [0x4F60, 0x597D], utf8 [0x60A8, 0x597D], utf8 [0x8C22, 0x8C22], utf8 [0x4F60, 0x662F, 0x8C01], ''hello'', ''hi'', ''thanks'']"

definition isDirectQuery :: "unicode_tables \<Rightarrow> string \<Rightarrow> int \<Rightarrow> string list \<Rightarrow> bool" where
  "isDirectQuery u query directMaxRunes signals =
     (if query = [] \<or> int (RuneCount query) > directMaxRunes \<or> signals \<noteq> [] then False
      else list_ex (\<lambda>term. Contains (ToLower u query) term) direct_terms)"

definition DefaultHeuristicQueryRouter :: HeuristicQueryRouter where
  "DefaultHeuristicQueryRouter = \<lparr>hr_DirectMaxRunes = 16, hr_ComplexMinSignals = 2\<rparr>"

definition Route :: "unicode_tables \<Rightarrow> HeuristicQueryRouter \<Rightarrow> QueryRequest \<Rightarrow> RouteDecision" where
  "Route u r req =
     (let query = TrimSpace (qr_Query req);
          directMaxRunes = defaultPositive (hr_DirectMaxRunes r) 16;
          complexMinSignals = defaultPositive (hr_ComplexMinSignals r) 2;
          signals = routeSignals u query
      in if isDirectQuery u query directMaxRunes signals
         then \<lparr>rd_Route = QueryRouteDirect, rd_Reason = ''short conversational query without retrieval signals'',
               rd_Strategy = ''heuristic'', rd_Signals = signals\<rparr>
         else if int (length signals) \<ge> complexMinSignals
         then \<lparr>rd_Route = QueryRouteMultiStepRetrieval, rd_Reason = ''query contains multiple synthesis or comparison signals'',
               rd_Strategy = ''heuristic'', rd_Signals = signals\<rparr>
         else \<lparr>rd_Route = QueryRouteSingleRetrieval, rd_Reason = ''query needs one retrieval pass'',
               rd_Strategy = ''heuristic'', rd_Signals = signals\<rparr>)"

section \<open>The context packer\<close>

record ContextPacker =
  pk_MaxTokens :: int
  pk_TopN :: int

text \<open>\<^verbatim>\<open>[]rune(s)\<close> and back: an invalid byte becomes \<open>RuneError\<close>.\<close>

definition truncate_text :: "string \<Rightarrow> nat \<Rightarrow> string" where
  "truncate_text s n = utf8 (take n (map fst (runes (TrimSpace s))))"

definition chunk_citation :: "Chunk \<Rightarrow> Citation" where
  "chunk_citation chunk =
     \<lparr>ci_ChunkID = c_ID chunk, ci_DocumentID = c_DocumentID chunk, ci_SourceURI = c_SourceURI chunk,
      ci_Section = c_Section chunk, ci_Quote = truncate_text (c_Content chunk) 180\<rparr>"

definition chunk_tokens :: "Chunk \<Rightarrow> nat" where
  "chunk_tokens chunk = length (Fields (c_Content chunk))"

text \<open>The loop: the chunks that are written, in order. \<open>used\<close> counts their tokens.\<close>

fun pack_loop :: "int \<Rightarrow> SearchResult list \<Rightarrow> string list \<Rightarrow> nat \<Rightarrow> Chunk list" where
  "pack_loop maxTokens [] seen used = []"
| "pack_loop maxTokens (result # results) seen used =
     (let chunk = res_Chunk result
      in if List.member seen (c_ID chunk) then pack_loop maxTokens results seen used
         else let tokens = chunk_tokens chunk
              in if int (used + tokens) > maxTokens \<and> used > 0 then []
                 else chunk # pack_loop maxTokens results (c_ID chunk # seen) (used + tokens))"

definition packed_chunks :: "ContextPacker \<Rightarrow> SearchResult list \<Rightarrow> Chunk list" where
  "packed_chunks p results =
     (let maxTokens = (if pk_MaxTokens p \<le> 0 then 6000 else pk_MaxTokens p);
          topN = (if pk_TopN p \<le> 0 \<or> pk_TopN p > int (length results) then length results else nat (pk_TopN p))
      in pack_loop maxTokens (take topN results) [] 0)"

definition Pack :: "ContextPacker \<Rightarrow> SearchResult list \<Rightarrow> string \<times> Citation list" where
  "Pack p results =
     (TrimSpace (concat (map (\<lambda>chunk. ''['' @ c_ID chunk @ ''] '' @ c_Content chunk @ [CHR 0x0A, CHR 0x0A]) (packed_chunks p results))),
      map chunk_citation (packed_chunks p results))"

section \<open>Citations\<close>

definition ValidateCitations :: "Citation list \<Rightarrow> SearchResult list \<Rightarrow> Citation list \<times> string list" where
  "ValidateCitations citations results =
     (let valid = map (c_ID \<circ> res_Chunk) results
      in (filter (\<lambda>c. List.member valid (ci_ChunkID c)) citations,
          map (\<lambda>c. ''citation '' @ ci_ChunkID c @ '' not found in retrieved context'')
            (filter (\<lambda>c. \<not> List.member valid (ci_ChunkID c)) citations)))"

section \<open>Properties of the packer\<close>

lemma pack_loop_subset: "set (pack_loop m rs seen used) \<subseteq> res_Chunk ` set rs"
proof (induction rs arbitrary: seen used)
  case (Cons r rs)
  from Cons.IH [of seen used] Cons.IH [of "c_ID (res_Chunk r) # seen" "used + chunk_tokens (res_Chunk r)"]
  show ?case by (auto simp: Let_def)
qed simp

lemma pack_loop_unseen: "c \<in> set (pack_loop m rs seen used) \<Longrightarrow> c_ID c \<notin> set seen"
proof (induction rs arbitrary: seen used)
  case (Cons r rs)
  from Cons.prems Cons.IH [of seen used] Cons.IH [of "c_ID (res_Chunk r) # seen" "used + chunk_tokens (res_Chunk r)"]
  show ?case by (auto simp: Let_def split: if_splits)
qed simp

lemma pack_loop_distinct: "distinct (map c_ID (pack_loop m rs seen used))"
  by (induction rs arbitrary: seen used) (auto simp: Let_def dest: pack_loop_unseen)

definition total_tokens :: "Chunk list \<Rightarrow> nat" where
  "total_tokens cs = sum_list (map chunk_tokens cs)"

text \<open>Once something was written, the loop keeps the budget; before that it accepts one chunk of any size.\<close>

lemma pack_loop_budget:
  "int used \<le> m \<Longrightarrow> 0 < used \<Longrightarrow> int (used + total_tokens (pack_loop m rs seen used)) \<le> m"
proof (induction rs arbitrary: seen used)
  case (Cons r rs)
  then show ?case
    using Cons.IH [of used seen] Cons.IH [of "used + chunk_tokens (res_Chunk r)" "c_ID (res_Chunk r) # seen"]
    by (auto simp: Let_def total_tokens_def)
qed (simp add: total_tokens_def)

lemma pack_loop_over: "m < int used \<Longrightarrow> 0 < used \<Longrightarrow> pack_loop m rs seen used = []"
  by (induction rs arbitrary: seen) (simp_all add: Let_def)

lemma pack_loop_start:
  assumes "0 < m"
  shows "int (total_tokens (pack_loop m rs seen 0)) \<le> m \<or>
    (\<exists>zs c. pack_loop m rs seen 0 = zs @ [c] \<and> total_tokens zs = 0)"
proof (induction rs arbitrary: seen)
  case Nil
  show ?case using assms by (simp add: total_tokens_def)
next
  case (Cons r rs)
  let ?c = "res_Chunk r"
  let ?rest = "pack_loop m rs (c_ID ?c # seen) (chunk_tokens ?c)"
  consider "c_ID ?c \<in> set seen" | (empty) "c_ID ?c \<notin> set seen" "chunk_tokens ?c = 0"
    | (fits) "c_ID ?c \<notin> set seen" "chunk_tokens ?c > 0" "int (chunk_tokens ?c) \<le> m"
    | (over) "c_ID ?c \<notin> set seen" "chunk_tokens ?c > 0" "m < int (chunk_tokens ?c)"
    by linarith
  then show ?case
  proof cases
    case 1
    then show ?thesis using Cons.IH [of seen] by (simp add: Let_def)
  next
    case empty
    then show ?thesis
      using Cons.IH [of "c_ID ?c # seen"]
      by (auto simp: Let_def total_tokens_def intro: exI [of _ "?c # _"])
  next
    case fits
    then show ?thesis
      using pack_loop_budget [of "chunk_tokens ?c" m rs "c_ID ?c # seen"] by (simp add: Let_def total_tokens_def)
  next
    case over
    then show ?thesis
      using pack_loop_over [of m "chunk_tokens ?c"] by (auto simp: Let_def total_tokens_def intro: exI [of _ "[]"])
  qed
qed

lemma RuneCount_truncate: "RuneCount (truncate_text s n) \<le> n"
proof -
  have "list_all scalar (take n (map fst (runes (TrimSpace s))))"
    using runes_scalar [of "TrimSpace s"] by (fastforce simp: list_all_iff dest: in_set_takeD)
  from runes_encoded [OF this, of "[]"] show ?thesis
    by (simp add: RuneCount_def truncate_text_def utf8_def)
qed

text \<open>
  A packed context is within its budget of tokens (6000 unless the packer says otherwise),
  except that the first chunk with any text is taken whatever its size, and is then the last one. Its
  citations name different chunks of the results, pass \<^verbatim>\<open>ValidateCitations\<close> without a warning, and quote
  at most 180 characters each.
\<close>

lemma packed_context_bounded:
  "(int (total_tokens (packed_chunks p results)) \<le> (if pk_MaxTokens p \<le> 0 then 6000 else pk_MaxTokens p) \<or>
    (\<exists>zs c. packed_chunks p results = zs @ [c] \<and> total_tokens zs = 0)) \<and>
   distinct (map ci_ChunkID (snd (Pack p results))) \<and>
   ValidateCitations (snd (Pack p results)) results = (snd (Pack p results), []) \<and>
   list_all (\<lambda>c. RuneCount (ci_Quote c) \<le> 180) (snd (Pack p results))"
proof (intro conjI)
  show "int (total_tokens (packed_chunks p results)) \<le> (if pk_MaxTokens p \<le> 0 then 6000 else pk_MaxTokens p) \<or>
    (\<exists>zs c. packed_chunks p results = zs @ [c] \<and> total_tokens zs = 0)"
    unfolding packed_chunks_def Let_def by (rule pack_loop_start) simp
  have "map ci_ChunkID (snd (Pack p results)) = map c_ID (packed_chunks p results)"
    by (simp add: Pack_def chunk_citation_def)
  then show "distinct (map ci_ChunkID (snd (Pack p results)))"
    by (simp add: packed_chunks_def Let_def pack_loop_distinct)
  have "set (packed_chunks p results) \<subseteq> res_Chunk ` set results"
    unfolding packed_chunks_def Let_def using pack_loop_subset set_take_subset by fastforce
  then have ok: "ci_ChunkID c \<in> c_ID ` res_Chunk ` set results" if "c \<in> set (snd (Pack p results))" for c
    using that by (auto simp: Pack_def chunk_citation_def)
  then have all: "filter (\<lambda>c. ci_ChunkID c \<in> (\<lambda>x. c_ID (res_Chunk x)) ` set results) (snd (Pack p results)) = snd (Pack p results)"
    and none: "filter (\<lambda>c. ci_ChunkID c \<notin> (\<lambda>x. c_ID (res_Chunk x)) ` set results) (snd (Pack p results)) = []"
    by (simp_all add: filter_id_conv filter_empty_conv image_image)
  show "ValidateCitations (snd (Pack p results)) results = (snd (Pack p results), [])"
    unfolding ValidateCitations_def Let_def by (simp add: all none)
  show "list_all (\<lambda>c. RuneCount (ci_Quote c) \<le> 180) (snd (Pack p results))"
    by (simp add: Pack_def chunk_citation_def list_all_iff RuneCount_truncate)
qed

end
