(* ===== verification/RagCache.thy ===== *)
theory RagCache
  imports RagContext GoJson
begin

text \<open>
  The semantic cache of answers (\<^verbatim>\<open>internal/rag/semantic_cache.go\<close>): its in-memory store and its keys.
  The cache never grows beyond its capacity, and a hit was stored under the scope it is looked up in,
  as long as the names in the scope are in lower case. Names that differ in case share their entries.
\<close>

section \<open>Data\<close>

record SemanticCacheLookupRequest =
  sl_Namespace :: string
  sl_TenantID :: string
  sl_KnowledgeBaseID :: string
  sl_Query :: string
  sl_Vector :: "float64 list"
  sl_Threshold :: float64
  sl_Profile :: Profile
  sl_TopK :: int

record SemanticCacheEntry =
  se_Namespace :: string
  se_TenantID :: string
  se_KnowledgeBaseID :: string
  se_Query :: string
  se_Vector :: "float64 list"
  se_Profile :: Profile
  se_TopK :: int
  se_Response :: QueryResponse
  se_CreatedAt :: gotime

record CacheEntry =
  cae_Query :: string
  cae_Response :: QueryResponse
  cae_CreatedAt :: gotime

record InMemorySemanticCache =
  sc_entries :: "(string, CacheEntry) gomap"
  sc_max :: int

section \<open>Keys\<close>

abbreviation (input) US :: string where
  "US \<equiv> [CHR 0x1F]"

definition semanticCacheKeyVersion :: string where
  "semanticCacheKeyVersion = ''v2''"

definition normalizeCacheQuery :: "unicode_tables \<Rightarrow> string \<Rightarrow> string" where
  "normalizeCacheQuery u query = Join (Fields (ToLower u (TrimSpace query))) '' ''"

definition namespacedCacheKey ::
  "unicode_tables \<Rightarrow> string \<Rightarrow> string \<Rightarrow> string \<Rightarrow> Profile \<Rightarrow> int \<Rightarrow> string \<Rightarrow> string" where
  "namespacedCacheKey u namespace tenantID knowledgeBaseID profile topK query =
     (let profile = (if profile = [] then ProfileRealtime else profile);
          parts = [semanticCacheKeyVersion];
          namespace = TrimSpace namespace;
          parts = (if namespace \<noteq> [] then parts @ [''namespace'', namespace] else parts)
      in Join (parts @ [tenantID, knowledgeBaseID, profile, Itoa topK, normalizeCacheQuery u query]) US)"

definition CacheKey :: "unicode_tables \<Rightarrow> QueryRequest \<Rightarrow> string" where
  "CacheKey u req =
     namespacedCacheKey u (qr_SemanticCacheNamespace req) (qr_TenantID req) (qr_KnowledgeBaseID req) (qr_Profile req) (qr_TopK req)
       (qr_Query req)"

definition NamespacedCacheKey :: "unicode_tables \<Rightarrow> string \<Rightarrow> QueryRequest \<Rightarrow> string" where
  "NamespacedCacheKey u namespace req =
     namespacedCacheKey u namespace (qr_TenantID req) (qr_KnowledgeBaseID req) (qr_Profile req) (qr_TopK req) (qr_Query req)"

definition cache_key :: "unicode_tables \<Rightarrow> string \<Rightarrow> string" where
  "cache_key u query = normalizeCacheQuery u query"

section \<open>The cache\<close>

definition NewSemanticCache :: "int \<Rightarrow> InMemorySemanticCache" where
  "NewSemanticCache m = \<lparr>sc_entries = [], sc_max = (if m \<le> 0 then 10000 else m)\<rparr>"

definition cache_Get :: "unicode_tables \<Rightarrow> string \<Rightarrow> InMemorySemanticCache \<Rightarrow> QueryResponse option" where
  "cache_Get u query c = map_option cae_Response (map_of (sc_entries c) (cache_key u query))"

text \<open>A full cache drops the entry that the \<^verbatim>\<open>range\<close> loop meets first; \<open>v\<close> says which one that is.\<close>

definition cache_Put :: "unicode_tables \<Rightarrow> nat \<Rightarrow> gotime \<Rightarrow> string \<Rightarrow> QueryResponse \<Rightarrow> InMemorySemanticCache \<Rightarrow> InMemorySemanticCache" where
  "cache_Put u v now query resp c =
     (let es = sc_entries c;
          es = (if int (length es) \<ge> sc_max c \<and> es \<noteq> [] then gdel (fst (es ! (v mod length es))) es else es)
      in c\<lparr>sc_entries := gput (cache_key u query) \<lparr>cae_Query = query, cae_Response = resp, cae_CreatedAt = now\<rparr> es\<rparr>)"

definition Lookup :: "unicode_tables \<Rightarrow> SemanticCacheLookupRequest \<Rightarrow> InMemorySemanticCache \<Rightarrow> QueryResponse option" where
  "Lookup u req c =
     cache_Get u (namespacedCacheKey u (sl_Namespace req) (sl_TenantID req) (sl_KnowledgeBaseID req) (sl_Profile req) (sl_TopK req)
       (sl_Query req)) c"

definition entry_profile :: "SemanticCacheEntry \<Rightarrow> Profile" where
  "entry_profile e = (if se_Profile e = [] then qs_Profile (se_Response e) else se_Profile e)"

definition stored_response :: "SemanticCacheEntry \<Rightarrow> QueryResponse" where
  "stored_response e =
     (if qs_Profile (se_Response e) = [] then (se_Response e)\<lparr>qs_Profile := entry_profile e\<rparr> else se_Response e)"

definition entry_key :: "unicode_tables \<Rightarrow> SemanticCacheEntry \<Rightarrow> string" where
  "entry_key u e =
     namespacedCacheKey u (se_Namespace e) (se_TenantID e) (se_KnowledgeBaseID e) (entry_profile e) (se_TopK e) (se_Query e)"

definition Store_cache :: "unicode_tables \<Rightarrow> nat \<Rightarrow> gotime \<Rightarrow> SemanticCacheEntry \<Rightarrow> InMemorySemanticCache \<Rightarrow> InMemorySemanticCache" where
  "Store_cache u v now e c = cache_Put u v now (entry_key u e) (stored_response e) c"

section \<open>Normalisation of a prefix\<close>

text \<open>
  The bytes that can stand in a name, the separator included: normalisation only turns them into lower
  case. \<open>plain\<close> names have none in upper case and no separator.
\<close>

definition name_byte :: "char \<Rightarrow> bool" where
  "name_byte c \<longleftrightarrow> (of_char c :: nat) = 0x1F \<or> 0x21 \<le> (of_char c :: nat) \<and> (of_char c :: nat) < 0x7F"

definition low_byte :: "char \<Rightarrow> char" where
  "low_byte c = (if 0x41 \<le> (of_char c :: nat) \<and> (of_char c :: nat) \<le> 0x5A then char_of (of_char c + 32 :: nat) else c)"

definition fixed_byte :: "char \<Rightarrow> bool" where
  "fixed_byte c \<longleftrightarrow> name_byte c \<and> low_byte c = c"

definition plain :: "string \<Rightarrow> bool" where
  "plain s \<longleftrightarrow> list_all (\<lambda>c. fixed_byte c \<and> c \<noteq> CHR 0x1F) s"

lemma white_space_not_name: "w \<in> set white_space \<Longrightarrow> c \<in> set w \<Longrightarrow> \<not> name_byte c"
proof -
  have "list_all (\<lambda>w. list_all (\<lambda>c. \<not> name_byte c) w) white_space" by code_simp
  then show "w \<in> set white_space \<Longrightarrow> c \<in> set w \<Longrightarrow> \<not> name_byte c" by (auto simp: list_all_iff)
qed

lemma prefix_append_disjoint:
  "w \<noteq> [] \<Longrightarrow> set w \<inter> set p = {} \<Longrightarrow> is_prefix w (q @ p) = is_prefix w q"
proof (induction w q rule: is_prefix.induct)
  case (2 c cs)
  then show ?case by (cases p) auto
next
  case (3 c cs d ds)
  then show ?case by (cases "cs = []") auto
qed simp

lemma strip_append_disjoint:
  assumes "\<forall>w \<in> set ws. set w \<inter> set p = {}"
  shows "strip ws (q @ p) = strip ws q @ p"
  using assms
proof (induction ws q rule: strip.induct)
  case (1 ws q)
  have eq: "find (\<lambda>w. w \<noteq> [] \<and> is_prefix w (q @ p)) ws = find (\<lambda>w. w \<noteq> [] \<and> is_prefix w q) ws"
    using 1(2) by (intro find_cong) (auto simp: prefix_append_disjoint)
  show ?case
  proof (cases "find (\<lambda>w. w \<noteq> [] \<and> is_prefix w q) ws")
    case None
    then show ?thesis by (simp add: strip.simps [of ws "q @ p"] strip.simps [of ws q] eq)
  next
    case (Some w)
    then have "is_prefix w q" by (auto simp: find_Some_iff)
    then have "length w \<le> length q" by (auto simp: is_prefix_iff)
    with 1(1) [OF Some 1(2)] Some show ?thesis
      by (simp add: strip.simps [of ws "q @ p"] strip.simps [of ws q] eq)
  qed
qed

lemma TrimSpace_name_prefix:
  assumes "list_all name_byte p" and "p \<noteq> []"
  shows "TrimSpace (p @ q) = p @ TrimRightSpace q"
proof -
  have dis: "set w \<inter> set p = {}" if "w \<in> set white_space" for w
    using that assms(1) white_space_not_name by (auto simp: list_all_iff)
  have "\<not> is_prefix w (p @ q)" if "w \<in> set white_space" "w \<noteq> []" for w
    using dis [OF that(1)] that(2) assms(2) by (cases w; cases p) auto
  then have "TrimLeftSpace (p @ q) = p @ q"
    unfolding TrimLeftSpace_def by (intro strip_id) (auto simp: find_None_iff)
  moreover have "strip (map rev white_space) (rev q @ rev p) = strip (map rev white_space) (rev q) @ rev p"
    using dis by (intro strip_append_disjoint) auto
  ultimately show ?thesis by (simp add: TrimSpace_def TrimRightSpace_def)
qed

lemma EncodeRune_ascii: "r < 0x80 \<Longrightarrow> EncodeRune r = [char_of r]"
  by (simp add: EncodeRune_def Let_def)

lemma name_byte_rune:
  assumes "name_byte c"
  shows "(of_char c :: nat) < 0x80" "EncodeRune (unicode_ToLower u (of_char c)) = [low_byte c]" "\<not> IsSpace (of_char c)"
    "name_byte (low_byte c)"
proof -
  have b: "(of_char c :: nat) < 0x80" "\<not> IsSpace (of_char c)"
    using assms by (auto simp: name_byte_def IsSpace_def)
  moreover have "EncodeRune (unicode_ToLower u (of_char c)) = [low_byte c]"
    using b(1) by (auto simp: unicode_ToLower_def low_byte_def EncodeRune_ascii)
  moreover have "name_byte (low_byte c)" using assms by (auto simp: name_byte_def low_byte_def)
  ultimately show "(of_char c :: nat) < 0x80" "EncodeRune (unicode_ToLower u (of_char c)) = [low_byte c]"
    "\<not> IsSpace (of_char c)" "name_byte (low_byte c)" by simp_all
qed

lemma runes_name_prefix: "list_all name_byte p \<Longrightarrow> runes (p @ q) = map (\<lambda>c. (of_char c, [c])) p @ runes q"
  by (induction p) (simp_all add: name_byte_rune)

lemma ToLower_name_prefix: "list_all name_byte p \<Longrightarrow> ToLower u (p @ q) = map low_byte p @ ToLower u q"
  by (induction p) (simp_all add: ToLower_def runes_name_prefix name_byte_rune)

text \<open>What is written after a field that has begun.\<close>

fun fields_tail :: "(rune \<times> string) list \<Rightarrow> string" where
  "fields_tail [] = []"
| "fields_tail (x # xs) =
     (if IsSpace (fst x)
      then let rest = map (\<lambda>g. concat (map snd g)) (split_where (\<lambda>x. IsSpace (fst x)) xs [])
           in if rest = [] then [] else '' '' @ Join rest '' ''
      else snd x @ fields_tail xs)"

lemma Join_Cons: "ys \<noteq> [] \<Longrightarrow> Join (x # ys) sep = x @ sep @ Join ys sep"
  by (cases ys) simp_all

lemma Join_split_where:
  "cur \<noteq> [] \<Longrightarrow> Join (map (\<lambda>g. concat (map snd g)) (split_where (\<lambda>x. IsSpace (fst x)) xs cur)) '' '' =
     concat (map snd cur) @ fields_tail xs"
  by (induction xs arbitrary: cur) (simp_all add: Let_def Join_Cons)

lemma split_where_skip: "list_all (\<lambda>x. \<not> P x) xs \<Longrightarrow> split_where P (xs @ ys) cur = split_where P ys (cur @ xs)"
  by (induction xs arbitrary: cur) simp_all

text \<open>The rest of a normalised text after a prefix that normalisation keeps.\<close>

definition normal_rest :: "unicode_tables \<Rightarrow> string \<Rightarrow> string" where
  "normal_rest u q = fields_tail (runes (ToLower u (TrimRightSpace q)))"

lemma normalizeCacheQuery_lower:
  assumes "list_all name_byte p" and "p \<noteq> []"
  shows "normalizeCacheQuery u (p @ q) = map low_byte p @ normal_rest u q"
proof -
  let ?p = "map low_byte p"
  let ?rs = "map (\<lambda>c. (of_char c, [c])) ?p :: (rune \<times> string) list"
  have low: "list_all name_byte ?p" using assms(1) by (auto simp: list_all_iff name_byte_rune)
  then have "list_all (\<lambda>x. \<not> IsSpace (fst x)) ?rs" by (auto simp: list_all_iff name_byte_rune)
  moreover have "concat (map snd ?rs) = ?p" by (induction p) simp_all
  ultimately show ?thesis
    using assms by (simp add: normalizeCacheQuery_def normal_rest_def TrimSpace_name_prefix ToLower_name_prefix
        runes_name_prefix [OF low] Fields_def FieldsFunc_def split_where_skip Join_split_where del: map_map)
qed

lemma normalizeCacheQuery_prefix:
  assumes "list_all fixed_byte p" and "p \<noteq> []"
  shows "normalizeCacheQuery u (p @ q) = p @ normal_rest u q"
proof -
  have "map low_byte p = p" using assms(1) by (induction p) (simp_all add: fixed_byte_def)
  moreover have "list_all name_byte p" using assms(1) by (simp add: list_all_iff fixed_byte_def)
  ultimately show ?thesis using normalizeCacheQuery_lower [of p u q] assms(2) by simp
qed

section \<open>Keys are injective on plain scopes\<close>

lemma sep_join_inj:
  assumes "c \<notin> set a" and "c \<notin> set a'"
  shows "a @ c # b = a' @ c # b' \<longleftrightarrow> a = a' \<and> b = b'"
  using assms
proof (induction a arbitrary: a')
  case Nil
  then show ?case by (cases a') auto
next
  case (Cons x a)
  then show ?case by (cases a') auto
qed

definition decimal_value :: "string \<Rightarrow> nat" where
  "decimal_value s = foldl (\<lambda>v c. 10 * v + (of_char c - 48)) 0 s"

lemma decimal_value_dec: "decimal_value (dec_digits n) = n"
  by (induction n rule: dec_digits.induct) (subst dec_digits.simps, auto simp: decimal_value_def)

lemma dec_digits_digit: "c \<in> set (dec_digits n) \<Longrightarrow> 48 \<le> (of_char c :: nat) \<and> (of_char c :: nat) \<le> 57"
  by (induction n rule: dec_digits.induct) (subst (asm) dec_digits.simps, auto split: if_splits)

lemma dec_digits_nonempty: "dec_digits n \<noteq> []"
  by (subst dec_digits.simps) simp

lemma Itoa_inj: "Itoa m = Itoa n \<longleftrightarrow> m = n"
proof -
  have minus: "dec_digits k \<noteq> CHR ''-'' # xs" for k xs
  proof
    assume "dec_digits k = CHR ''-'' # xs"
    then have "CHR ''-'' \<in> set (dec_digits k)" by simp
    from dec_digits_digit [OF this] show False by simp
  qed
  have inj: "dec_digits j = dec_digits k \<longleftrightarrow> j = k" for j k by (metis decimal_value_dec)
  show ?thesis by (auto simp: Itoa_def inj minus dest: sym)
qed

record cache_scope =
  cs_Namespace :: string
  cs_TenantID :: string
  cs_KnowledgeBaseID :: string
  cs_Profile :: string
  cs_TopK :: int

definition scope_of :: "string \<Rightarrow> string \<Rightarrow> string \<Rightarrow> Profile \<Rightarrow> int \<Rightarrow> cache_scope" where
  "scope_of namespace tenantID knowledgeBaseID profile topK =
     \<lparr>cs_Namespace = TrimSpace namespace, cs_TenantID = tenantID, cs_KnowledgeBaseID = knowledgeBaseID,
      cs_Profile = (if profile = [] then ProfileRealtime else profile), cs_TopK = topK\<rparr>"

definition request_scope :: "SemanticCacheLookupRequest \<Rightarrow> cache_scope" where
  "request_scope req = scope_of (sl_Namespace req) (sl_TenantID req) (sl_KnowledgeBaseID req) (sl_Profile req) (sl_TopK req)"

definition entry_scope :: "SemanticCacheEntry \<Rightarrow> cache_scope" where
  "entry_scope e = scope_of (se_Namespace e) (se_TenantID e) (se_KnowledgeBaseID e) (entry_profile e) (se_TopK e)"

text \<open>Names in lower case without spaces or control characters; no tenant has the name of the namespace marker.\<close>

definition plain_scope :: "cache_scope \<Rightarrow> bool" where
  "plain_scope s \<longleftrightarrow> plain (cs_Namespace s) \<and> plain (cs_TenantID s) \<and> cs_TenantID s \<noteq> ''namespace'' \<and>
     plain (cs_KnowledgeBaseID s) \<and> plain (cs_Profile s)"

definition scope_text :: "cache_scope \<Rightarrow> string" where
  "scope_text s =
     ''v2'' @ US @ (if cs_Namespace s = [] then [] else ''namespace'' @ US @ cs_Namespace s @ US) @
     cs_TenantID s @ US @ cs_KnowledgeBaseID s @ US @ cs_Profile s @ US @ Itoa (cs_TopK s) @ US"

lemma namespacedCacheKey_scope:
  "namespacedCacheKey u ns tenant kb profile topK q = scope_text (scope_of ns tenant kb profile topK) @ normalizeCacheQuery u q"
  by (simp add: namespacedCacheKey_def scope_text_def scope_of_def semanticCacheKeyVersion_def Let_def)

lemma plain_Itoa: "plain (Itoa n)"
  using dec_digits_digit by (fastforce simp: Itoa_def plain_def fixed_byte_def name_byte_def low_byte_def list_all_iff)

lemma plain_no_sep: "plain s \<Longrightarrow> CHR 0x1F \<notin> set s"
  by (auto simp: plain_def list_all_iff)

lemma plain_fixed: "plain s \<Longrightarrow> list_all fixed_byte s"
  by (auto simp: plain_def list_all_iff)

lemma scope_text_fixed: "plain_scope s \<Longrightarrow> list_all fixed_byte (scope_text s)"
  using plain_fixed [OF plain_Itoa]
  by (simp add: scope_text_def plain_scope_def plain_fixed fixed_byte_def name_byte_def low_byte_def)

lemma scope_text_inj:
  assumes "plain_scope s" and "plain_scope s'" and "scope_text s @ x = scope_text s' @ x'"
  shows "s = s' \<and> x = x'"
proof -
  note sep = plain_no_sep [OF plain_Itoa, of "cs_TopK s"] plain_no_sep [OF plain_Itoa, of "cs_TopK s'"]
  have no: "CHR 0x1F \<notin> set (cs_Namespace s)" "CHR 0x1F \<notin> set (cs_TenantID s)" "CHR 0x1F \<notin> set (cs_KnowledgeBaseID s)"
    "CHR 0x1F \<notin> set (cs_Profile s)" "CHR 0x1F \<notin> set (cs_Namespace s')" "CHR 0x1F \<notin> set (cs_TenantID s')"
    "CHR 0x1F \<notin> set (cs_KnowledgeBaseID s')" "CHR 0x1F \<notin> set (cs_Profile s')" "CHR 0x1F \<notin> set ''namespace''"
    "cs_TenantID s \<noteq> ''namespace''" "cs_TenantID s' \<noteq> ''namespace''"
    using assms(1,2) plain_no_sep by (auto simp: plain_scope_def)
  let ?t = "\<lambda>s x. cs_TenantID s @ CHR 0x1F # cs_KnowledgeBaseID s @ CHR 0x1F # cs_Profile s @ CHR 0x1F # Itoa (cs_TopK s) @ CHR 0x1F # x"
  have tail: "?t s x = ?t s' x' \<longleftrightarrow> cs_TenantID s = cs_TenantID s' \<and> cs_KnowledgeBaseID s = cs_KnowledgeBaseID s' \<and>
      cs_Profile s = cs_Profile s' \<and> cs_TopK s = cs_TopK s' \<and> x = x'"
    using no sep by (simp add: sep_join_inj Itoa_inj)
  have clash: "?t s x \<noteq> ''namespace'' @ CHR 0x1F # y" "?t s' x' \<noteq> ''namespace'' @ CHR 0x1F # y" for y
    using sep_join_inj [OF no(2,9)] sep_join_inj [OF no(6,9)] no(10,11) by blast+
  consider "cs_Namespace s = []" "cs_Namespace s' = []" | "cs_Namespace s = []" "cs_Namespace s' \<noteq> []"
    | "cs_Namespace s \<noteq> []" "cs_Namespace s' = []" | "cs_Namespace s \<noteq> []" "cs_Namespace s' \<noteq> []" by blast
  then show ?thesis
  proof cases
    case 1
    with assms(3) tail show ?thesis by (simp add: scope_text_def cache_scope.equality)
  next
    case 2
    with assms(3) have "\<exists>y. ?t s x = ''namespace'' @ CHR 0x1F # y" by (simp add: scope_text_def)
    with clash(1) show ?thesis by blast
  next
    case 3
    with assms(3) [symmetric] have "\<exists>y. ?t s' x' = ''namespace'' @ CHR 0x1F # y" by (simp add: scope_text_def)
    with clash(2) show ?thesis by blast
  next
    case 4
    with assms(3) tail no show ?thesis by (simp add: scope_text_def cache_scope.equality sep_join_inj)
  qed
qed

lemma cache_key_scope:
  assumes "plain_scope s"
  shows "cache_key u (scope_text s @ q) = scope_text s @ normal_rest u q"
  unfolding cache_key_def
  by (rule normalizeCacheQuery_prefix [OF scope_text_fixed [OF assms]]) (simp add: scope_text_def)

section \<open>What the cache returns\<close>

inductive cache_reachable :: "unicode_tables \<Rightarrow> SemanticCacheEntry list \<Rightarrow> InMemorySemanticCache \<Rightarrow> bool" for u where
  init: "cache_reachable u [] (NewSemanticCache m)"
| store: "cache_reachable u stores c \<Longrightarrow> cache_reachable u (e # stores) (Store_cache u v now e c)"

lemma cache_reachable_entries:
  assumes "cache_reachable u stores c"
  shows "map_of (sc_entries c) k = Some ce \<Longrightarrow> \<exists>e \<in> set stores. k = cache_key u (entry_key u e) \<and> cae_Response ce = stored_response e"
  using assms
proof (induction arbitrary: k ce)
  case (store stores c e v now)
  then consider "k = cache_key u (entry_key u e)" "cae_Response ce = stored_response e" | "map_of (sc_entries c) k = Some ce"
    by (auto simp: Store_cache_def cache_Put_def Let_def map_of_gput map_of_gdel split: if_splits)
  then show ?case using store.IH [of k ce] by cases auto
qed (simp add: NewSemanticCache_def)

lemma cache_reachable_bound:
  assumes "cache_reachable u stores c"
  shows "gmap_wf (sc_entries c) \<and> 0 < sc_max c \<and> int (length (sc_entries c)) \<le> sc_max c"
  using assms
proof induction
  case (store stores c e v now)
  let ?es = "sc_entries c"
  let ?ds = "if int (length ?es) \<ge> sc_max c \<and> ?es \<noteq> [] then gdel (fst (?es ! (v mod length ?es))) ?es else ?es"
  have del: "length (gdel k m) < length m" if "k \<in> fst ` set m" for k and m :: "(string, CacheEntry) gomap"
    using that by (auto simp: AList.delete_eq intro!: length_filter_less)
  have "?es \<noteq> [] \<Longrightarrow> fst (?es ! (v mod length ?es)) \<in> fst ` set ?es" by simp
  then have "int (length ?ds) < sc_max c"
    using store.IH del [of "fst (?es ! (v mod length ?es))" ?es] by auto
  moreover have "length (gput k x m) \<le> length m + 1" for k x and m :: "(string, CacheEntry) gomap"
    by (induction m) auto
  ultimately have "int (length (gput (cache_key u (entry_key u e)) x ?ds)) \<le> sc_max c" for x
    by (smt (verit) of_nat_1 of_nat_add of_nat_mono)
  moreover have "gmap_wf ?ds" using store.IH by simp
  ultimately show ?case using store.IH by (simp add: Store_cache_def cache_Put_def Let_def)
qed (simp add: NewSemanticCache_def)

lemma cache_hit_scope:
  assumes "cache_reachable u stores c" and "Lookup u req c = Some resp"
    and "plain_scope (request_scope req)" and "\<forall>e \<in> set stores. plain_scope (entry_scope e)"
  shows "\<exists>e \<in> set stores. resp = stored_response e \<and> entry_scope e = request_scope req \<and>
       cache_key u (US @ normalizeCacheQuery u (se_Query e)) = cache_key u (US @ normalizeCacheQuery u (sl_Query req))"
proof -
  let ?q = "normalizeCacheQuery u (sl_Query req)"
  from assms(2) obtain ce where ce: "map_of (sc_entries c) (cache_key u (scope_text (request_scope req) @ ?q)) = Some ce"
    "resp = cae_Response ce"
    by (auto simp: Lookup_def cache_Get_def namespacedCacheKey_scope request_scope_def)
  from cache_reachable_entries [OF assms(1) ce(1)] ce(2) obtain e where e: "e \<in> set stores" "resp = stored_response e"
    "cache_key u (scope_text (request_scope req) @ ?q) = cache_key u (scope_text (entry_scope e) @ normalizeCacheQuery u (se_Query e))"
    by (auto simp: entry_key_def namespacedCacheKey_scope entry_scope_def)
  have pe: "plain_scope (entry_scope e)" using assms(4) e(1) by blast
  have "entry_scope e = request_scope req" "normal_rest u (normalizeCacheQuery u (se_Query e)) = normal_rest u ?q"
    using scope_text_inj [OF assms(3) pe e(3) [unfolded cache_key_scope [OF assms(3)] cache_key_scope [OF pe]]] by simp_all
  moreover have "cache_key u (US @ q) = US @ normal_rest u q" for q
    unfolding cache_key_def by (rule normalizeCacheQuery_prefix) (simp_all add: fixed_byte_def name_byte_def low_byte_def)
  ultimately show ?thesis
    using e(1,2) by auto
qed

text \<open>
  The answer of a cache hit was stored for the same tenant, knowledge base, namespace, profile and
  number of results, and for a query that is the same after normalisation, when the names in the scopes are
  plain: in lower case, without spaces and control characters. The cache is never larger than its capacity.
\<close>

lemma cache_hit_confined:
  assumes "cache_reachable u stores c" and "Lookup u req c = Some resp"
    and "plain_scope (request_scope req)" and "\<forall>e \<in> set stores. plain_scope (entry_scope e)"
  shows "int (length (sc_entries c)) \<le> sc_max c \<and>
    (\<exists>e \<in> set stores. resp = stored_response e \<and> entry_scope e = request_scope req \<and>
       cache_key u (US @ normalizeCacheQuery u (se_Query e)) = cache_key u (US @ normalizeCacheQuery u (sl_Query req)))"
  using cache_reachable_bound [OF assms(1)] cache_hit_scope [OF assms] by blast

lemma Store_then_Get:
  "cache_key u k = cache_key u (entry_key u e) \<Longrightarrow> cache_Get u k (Store_cache u v now e c) = Some (stored_response e)"
  by (simp add: cache_Get_def Store_cache_def cache_Put_def Let_def map_of_gput)

definition demo_response :: QueryResponse where
  "demo_response =
     \<lparr>qs_Answer = ''yes'', qs_Citations = [], qs_RetrievedChunks = [], qs_TraceID = [], qs_CacheStatus = [],
      qs_Profile = [], qs_Route = None, qs_Warnings = [], qs_TraceWarnings = [], qs_TraceSummary = None,
      qs_LatencyMS = 0, qs_CreatedAt = 0\<rparr>"

definition demo_entry :: SemanticCacheEntry where
  "demo_entry =
     \<lparr>se_Namespace = [], se_TenantID = ''acme'', se_KnowledgeBaseID = ''kb1'', se_Query = ''Is it?'', se_Vector = [],
      se_Profile = [], se_TopK = 5, se_Response = demo_response, se_CreatedAt = 0\<rparr>"

definition demo_lookup :: SemanticCacheLookupRequest where
  "demo_lookup =
     \<lparr>sl_Namespace = [], sl_TenantID = ''acme'', sl_KnowledgeBaseID = ''kb1'', sl_Query = ''Is it?'', sl_Vector = [],
      sl_Threshold = Fin 0, sl_Profile = [], sl_TopK = 5\<rparr>"

lemma demo_lookup_hit: "Lookup u demo_lookup (Store_cache u v now demo_entry c) = Some (stored_response demo_entry)"
  unfolding Lookup_def
  by (rule Store_then_Get) (simp add: entry_key_def demo_lookup_def demo_entry_def entry_profile_def demo_response_def)

lemma cache_hit_confined_witness:
  "\<exists>c. cache_reachable ascii_tables [demo_entry] c \<and> Lookup ascii_tables demo_lookup c = Some (stored_response demo_entry) \<and>
     int (length (sc_entries c)) \<le> sc_max c \<and> entry_scope demo_entry = request_scope demo_lookup"
proof -
  let ?c = "Store_cache ascii_tables 0 0 demo_entry (NewSemanticCache 10)"
  have c: "cache_reachable ascii_tables [demo_entry] ?c" by (intro cache_reachable.intros)
  have "plain ''acme''" "plain ''kb1''" "plain ''realtime''" "plain []" by code_simp+
  then have plain: "plain_scope (request_scope demo_lookup)" "plain_scope (entry_scope demo_entry)"
    by (simp_all add: plain_scope_def request_scope_def entry_scope_def scope_of_def demo_lookup_def demo_entry_def
        entry_profile_def demo_response_def ProfileRealtime_def)
  from cache_hit_confined [OF c demo_lookup_hit plain(1)] plain(2) c demo_lookup_hit show ?thesis by auto
qed

text \<open>
  Names that differ in case share their entries: what one tenant stored is returned to every tenant
  whose name is the same in lower case.
\<close>

lemma cache_crosses_case:
  assumes "list_all name_byte (scope_text (entry_scope e))" and "list_all name_byte (scope_text (request_scope req))"
    and "map low_byte (scope_text (entry_scope e)) = map low_byte (scope_text (request_scope req))"
    and "se_Query e = sl_Query req"
  shows "Lookup u req (Store_cache u v now e c) = Some (stored_response e)"
proof -
  have "scope_text s \<noteq> []" for s by (simp add: scope_text_def)
  then have "cache_key u (scope_text (request_scope req) @ normalizeCacheQuery u (sl_Query req)) =
      cache_key u (scope_text (entry_scope e) @ normalizeCacheQuery u (se_Query e))"
    using assms by (simp add: cache_key_def normalizeCacheQuery_lower)
  then show ?thesis
    unfolding Lookup_def namespacedCacheKey_scope
    by (intro Store_then_Get) (simp add: entry_key_def namespacedCacheKey_scope entry_scope_def request_scope_def)
qed

lemma cache_crosses_tenants:
  "Lookup u demo_lookup (Store_cache u v now (demo_entry\<lparr>se_TenantID := ''Acme''\<rparr>) c) =
     Some (stored_response (demo_entry\<lparr>se_TenantID := ''Acme''\<rparr>))"
proof (rule cache_crosses_case)
  have five: "Itoa 5 = ''5''" by code_simp
  note defs = scope_text_def entry_scope_def request_scope_def scope_of_def demo_lookup_def demo_entry_def
    entry_profile_def demo_response_def ProfileRealtime_def five name_byte_def low_byte_def
  show "list_all name_byte (scope_text (entry_scope (demo_entry\<lparr>se_TenantID := ''Acme''\<rparr>)))"
    "list_all name_byte (scope_text (request_scope demo_lookup))" by (simp_all add: defs)
  have "low_byte (CHR ''A'') = CHR ''a''" by code_simp
  then show "map low_byte (scope_text (entry_scope (demo_entry\<lparr>se_TenantID := ''Acme''\<rparr>))) =
      map low_byte (scope_text (request_scope demo_lookup))"
    by (simp add: scope_text_def entry_scope_def request_scope_def scope_of_def demo_lookup_def demo_entry_def
        entry_profile_def demo_response_def) (simp add: low_byte_def)
  show "se_Query (demo_entry\<lparr>se_TenantID := ''Acme''\<rparr>) = sl_Query demo_lookup"
    by (simp add: demo_lookup_def demo_entry_def)
qed

end
