(* ===== verification/RagService.thy ===== *)
theory RagService
  imports RagCache KBStoreProps
begin

text \<open>
  The query service (\<^verbatim>\<open>internal/rag\<close>): query rewriting and expansion (\<^verbatim>\<open>retrieval_expansion.go\<close>), retrieval
  over the expanded queries, reranking, injection of offline knowledge (\<^verbatim>\<open>shadow.go\<close>), the prompt of
  \<^verbatim>\<open>internal/prompt\<close>, and \<^verbatim>\<open>Execute\<close>, which answers a request through the semantic cache
  (\<^verbatim>\<open>service.go\<close>).

  The language model, the retriever, the source of offline knowledge and the router are fields of the
  service record: functions from a call to its answer or error. The cache is the state. Other requests
  may use it while one is being answered: \<open>env\<close> is what they do between the lookup and the store. The
  clock is an argument; \<^verbatim>\<open>json.Unmarshal\<close> of a list and of a map of lists of strings are fields too.
\<close>

section \<open>Text of queries\<close>

definition maxGeneratedQueryRunes :: nat where
  "maxGeneratedQueryRunes = 240"

definition maxSearchQueryRunes :: nat where
  "maxSearchQueryRunes = 2000"

definition maxHyDEDocumentRunes :: nat where
  "maxHyDEDocumentRunes = 2000"

lemmas query_limits = maxGeneratedQueryRunes_def maxSearchQueryRunes_def maxHyDEDocumentRunes_def

text \<open>\<^verbatim>\<open>strings.TrimLeft(s, "-*\u2022 \t")\<close> and \<^verbatim>\<open>strings.Trim\<close> with the three quotation marks.\<close>

definition trim_left_runes :: "rune list \<Rightarrow> string \<Rightarrow> string" where
  "trim_left_runes cutset s = concat (map snd (dropWhile (\<lambda>x. List.member cutset (fst x)) (runes s)))"

definition trim_quotes :: "string \<Rightarrow> string" where
  "trim_quotes s =
     (let cut = (\<lambda>c. c = CHR 0x22 \<or> c = CHR 0x27 \<or> c = CHR 0x60) in rev (dropWhile cut (rev (dropWhile cut s))))"

definition stripListMarker :: "unicode_tables \<Rightarrow> string \<Rightarrow> string" where
  "stripListMarker u text =
     (let text = trim_left_runes [0x2D, 0x2A, 0x2022, 0x20, 0x09] (TrimSpace text);
          rs = map fst (runes text);
          i = length (takeWhile (IsDigit u) rs)
      in if i > 0 \<and> i < length rs \<and> List.member [0x2E, 0x29, 0x3001] (rs ! i)
         then TrimSpace (utf8 (drop (i + 1) rs)) else text)"

definition cleanRetrievalText :: "unicode_tables \<Rightarrow> string \<Rightarrow> nat \<Rightarrow> string" where
  "cleanRetrievalText u text maxRunes =
     (let text = Join (Fields (trim_quotes (TrimSpace (stripListMarker u text)))) '' ''
      in if text = [] then [] else if maxRunes > 0 \<and> RuneCount text > maxRunes then [] else text)"

definition normalizeRetrievalText :: "unicode_tables \<Rightarrow> string \<Rightarrow> string" where
  "normalizeRetrievalText u text = Join (Fields (ToLower u (TrimSpace text))) '' ''"

definition stripCodeFence :: "string \<Rightarrow> string" where
  "stripCodeFence text =
     (let lines = Split text [CHR 0x0A]; fence = [CHR 0x60, CHR 0x60, CHR 0x60]
      in if length lines \<ge> 2 \<and> is_prefix fence (TrimSpace (lines ! 0)) \<and> is_prefix fence (TrimSpace (lines ! (length lines - 1)))
         then TrimSpace (Join (take (length lines - 2) (drop 1 lines)) [CHR 0x0A]) else text)"

text \<open>The loop of \<^verbatim>\<open>cleanQueryList\<close>; \<open>n\<close> entries are in the output already.\<close>

fun clean_loop :: "unicode_tables \<Rightarrow> string list \<Rightarrow> int \<Rightarrow> string list \<Rightarrow> nat \<Rightarrow> string list" where
  "clean_loop u [] limit seen n = []"
| "clean_loop u (v # vs) limit seen n =
     (let cleaned = cleanRetrievalText u v maxGeneratedQueryRunes; key = normalizeRetrievalText u cleaned
      in if cleaned = [] \<or> List.member seen key then clean_loop u vs limit seen n
         else cleaned # (if limit > 0 \<and> int (n + 1) \<ge> limit then [] else clean_loop u vs limit (key # seen) (n + 1)))"

definition cleanQueryList :: "unicode_tables \<Rightarrow> string list \<Rightarrow> int \<Rightarrow> string list" where
  "cleanQueryList u vs limit = clean_loop u vs limit [] 0"

section \<open>The service\<close>

record rerank_item =
  ri_Index :: int
  ri_Score :: float64

record rag_model =
  m_Chat :: "(string \<times> string) list \<Rightarrow> string + string"
  m_Embed :: "string list \<Rightarrow> string + float64 list list"
  m_Rerank :: "string \<Rightarrow> (string \<times> string) list \<Rightarrow> int \<Rightarrow> string + rerank_item list"

text \<open>A retriever either has the method \<^verbatim>\<open>RetrieveWithWarnings\<close> or only \<^verbatim>\<open>Retrieve\<close>.\<close>

datatype rag_retriever =
    WithWarnings "SearchRequest \<Rightarrow> string list \<times> (string + SearchResult list)"
  | PlainRetriever retriever

record ShadowSourceFingerprint =
  fp_DocID :: string
  fp_DocVersion :: string
  fp_ChunkID :: string
  fp_ChunkContentHash :: string

record ShadowEvidence =
  ev_ChunkID :: string
  ev_DocID :: string
  ev_Quote :: string
  ev_Supports :: string

record ShadowAnswerItem =
  ai_SourceFingerprints :: "ShadowSourceFingerprint list"
  ai_Evidence :: "ShadowEvidence list"
  ai_GuidanceMetadata :: "(string, json) gomap"

record ShadowMatch =
  sm_ItemID :: string
  sm_ItemType :: string
  sm_Source :: string
  sm_Score :: float64
  sm_Rank :: int
  sm_AnswerItem :: "ShadowAnswerItem option"
  sm_Metadata :: "(string, json) gomap"

record ShadowSourceChunk =
  ss_TenantID :: string
  ss_KBID :: string
  ss_DocID :: string
  ss_DocVersion :: string
  ss_ChunkID :: string
  ss_ChunkContentHash :: string
  ss_Text :: string

record ShadowRetrieveRequest =
  sq_TenantID :: string
  sq_KBID :: string
  sq_Query :: string
  sq_TraceID :: string
  sq_Limit :: int
  sq_Inject :: bool
  sq_ScopedItemID :: string

record ShadowOptions =
  so_Enabled :: bool
  so_Inject :: bool
  so_Limit :: int

record RagService =
  sv_Retriever :: rag_retriever
  sv_Model :: "rag_model option"
  sv_Packer :: ContextPacker
  sv_PromptStrategy :: "(string \<times> bool \<times> string) list \<Rightarrow> string"
  sv_DefaultProfile :: Profile
  sv_NoContextAnswer :: string
  sv_TopK :: int
  sv_SemanticCacheThreshold :: float64
  sv_SemanticCacheNamespace :: string
  sv_RRFK :: int
  sv_Shadow :: ShadowOptions
  sv_ShadowRetriever :: "(ShadowRetrieveRequest \<Rightarrow> string + ShadowMatch list) option"
  sv_ShadowSourceReader :: "(string \<Rightarrow> string \<Rightarrow> string \<Rightarrow> string + ShadowSourceChunk option) option"
  sv_QueryRewriteEnabled :: bool
  sv_MultiQueryCount :: int
  sv_MultiQueryForRealtime :: bool
  sv_DisableRerank :: bool
  sv_HyDEEnabled :: bool
  sv_QueryRouter :: "(QueryRequest \<Rightarrow> string + RouteDecision) option"
  sv_Unicode :: unicode_tables
  sv_UnmarshalList :: "string \<Rightarrow> string list option"
  sv_UnmarshalMap :: "string \<Rightarrow> (string, string list) gomap option"

text \<open>\<open>NilModel\<close> is the panic of a call through a nil model.\<close>

datatype rag_error =
    ModelError string | EmptyEmbedding | EmbedNilModel | NilModel | RetrieveError string
  | ErrScopedShadowRetrievalFailed string | ErrScopedShadowSourceMissing string "string option"
  | ErrScopedShadowSourceMismatch string | ErrScopedShadowNoInjectableItem

section \<open>Prompts\<close>

definition rewrite_prompt :: string where
  "rewrite_prompt = utf8 [0x4F60, 0x662F] @ '' RAG '' @ utf8 [0x67E5, 0x8BE2, 0x6539, 0x5199, 0x5668, 0x3002, 0x53EA, 0x8F93, 0x51FA, 0x4E00, 0x4E2A, 0x9002,
       0x5408, 0x68C0, 0x7D22, 0x7684, 0x4E2D, 0x6587, 0x67E5, 0x8BE2, 0xFF0C, 0x4E0D, 0x8981, 0x89E3,
       0x91CA, 0x3002]"

definition multi_query_prompt :: string where
  "multi_query_prompt = utf8 [0x4F60, 0x662F] @ '' RAG '' @ utf8 [0x591A, 0x67E5, 0x8BE2, 0x751F, 0x6210, 0x5668, 0x3002, 0x8F93, 0x51FA] @ '' JSON '' @ utf8 [0x5B57, 0x7B26, 0x4E32, 0x6570, 0x7EC4, 0xFF0C, 0x6BCF, 0x4E2A, 0x5143, 0x7D20, 0x662F, 0x4E00,
       0x6761, 0x4E0D, 0x540C, 0x68C0, 0x7D22, 0x67E5, 0x8BE2, 0xFF0C, 0x4E0D, 0x8981, 0x89E3, 0x91CA,
       0x3002]"

definition hyde_prompt :: string where
  "hyde_prompt = utf8 [0x4F60, 0x662F] @ '' RAG HyDE '' @ utf8 [0x751F, 0x6210, 0x5668, 0x3002, 0x57FA, 0x4E8E, 0x95EE, 0x9898, 0x5199, 0x4E00, 0x6BB5, 0x53EF,
       0x80FD, 0x51FA, 0x73B0, 0x5728, 0x76F8, 0x5173, 0x6587, 0x6863, 0x4E2D, 0x7684, 0x7B80, 0x77ED,
       0x5047, 0x8BBE, 0x7B54, 0x6848, 0xFF0C, 0x53EA, 0x8F93, 0x51FA, 0x7B54, 0x6848, 0x3002]"

definition multi_query_original :: string where
  "multi_query_original = utf8 [0x539F, 0x59CB, 0x95EE, 0x9898, 0xFF1A]"

definition multi_query_base :: string where
  "multi_query_base = utf8 [0xA, 0x57FA, 0x7840, 0x68C0, 0x7D22, 0x67E5, 0x8BE2, 0xFF1A]"

definition multi_query_generate :: string where
  "multi_query_generate = utf8 [0xA, 0x751F, 0x6210] @ '' ''"

definition multi_query_end :: string where
  "multi_query_end = '' '' @ utf8 [0x6761, 0x4E92, 0x8865, 0x67E5, 0x8BE2, 0x3002]"

definition system_prompt :: string where
  "system_prompt = utf8 [0x4F60, 0x662F, 0x4E00, 0x4E2A, 0x4E25, 0x683C, 0x57FA, 0x4E8E, 0x7ED9, 0x5B9A, 0x4E0A, 0x4E0B,
       0x6587, 0x56DE, 0x7B54, 0x7684] @ '' RAG '' @ utf8 [0x52A9, 0x624B, 0x3002, 0x56DE, 0x7B54, 0x5FC5, 0x987B, 0x4F7F, 0x7528, 0x4E2D, 0x6587, 0xFF0C,
       0x5E76, 0x5728, 0x4E8B, 0x5B9E, 0x6765, 0x81EA, 0x4E0A, 0x4E0B, 0x6587, 0x65F6, 0x5F15, 0x7528] @ '' chunk id'' @ utf8 [0x3002]"

definition system_prompt_high_precision :: string where
  "system_prompt_high_precision = '' '' @ utf8 [0x5F53, 0x524D, 0x4E3A, 0x9AD8, 0x7CBE, 0x6863, 0xFF0C, 0x8BF7, 0x66F4, 0x5145, 0x5206, 0x6574,
       0x5408, 0x4E0A, 0x4E0B, 0x6587, 0x3002]"

definition question_label :: string where
  "question_label = utf8 [0x95EE, 0x9898, 0xFF1A]"

definition context_label :: string where
  "context_label = utf8 [0xA, 0xA, 0x4E0A, 0x4E0B, 0x6587, 0xFF1A, 0xA]"

definition cache_prefix_label :: string where
  "cache_prefix_label = utf8 [0xA, 0xA, 0x7F13, 0x5B58, 0x7A33, 0x5B9A, 0x524D, 0x7F00, 0xFF1A, 0xA]"

definition direct_prompt :: string where
  "direct_prompt = utf8 [0x4F60, 0x662F, 0x4E00, 0x4E2A, 0x5BF9, 0x8BDD, 0x52A9, 0x624B, 0x3002, 0x5F53, 0x524D, 0x95EE,
       0x9898, 0x4E0D, 0x9700, 0x8981, 0x68C0, 0x7D22, 0x77E5, 0x8BC6, 0x5E93, 0xFF0C, 0x8BF7, 0x76F4,
       0x63A5, 0x3001, 0x7B80, 0x6D01, 0x5730, 0x7528, 0x4E2D, 0x6587, 0x56DE, 0x7B54, 0x3002]"

section \<open>Expansion of a query\<close>

record RetrievalQuery =
  rq_Query :: string
  rq_EmbeddingText :: string
  rq_Source :: string

definition RewriteQuery :: "RagService \<Rightarrow> QueryRequest \<Rightarrow> Profile \<Rightarrow> string \<times> string list" where
  "RewriteQuery s req profile =
     (if profile \<noteq> ProfileHighPrecision \<or> \<not> sv_QueryRewriteEnabled s then ([], [])
      else let base = cleanRetrievalText (sv_Unicode s) (qr_Query req) maxSearchQueryRunes
           in case sv_Model s of
                None \<Rightarrow> (base, [])
              | Some m \<Rightarrow>
                  (case m_Chat m [(''system'', rewrite_prompt),
                                  (''user'', qr_Query req)] of
                     Inl e \<Rightarrow> (base, [''query rewrite failed: '' @ e])
                   | Inr answer \<Rightarrow>
                       let rewritten = cleanRetrievalText (sv_Unicode s) answer maxGeneratedQueryRunes
                       in if rewritten \<noteq> [] then (rewritten, []) else (base, [])))"

definition query_key :: "unicode_tables \<Rightarrow> RetrievalQuery \<Rightarrow> string" where
  "query_key u q = normalizeRetrievalText u (rq_Query q) @ NUL @ normalizeRetrievalText u (rq_EmbeddingText q)"

definition addRetrievalQuery :: "unicode_tables \<Rightarrow> RetrievalQuery \<Rightarrow> RetrievalQuery list \<Rightarrow> RetrievalQuery list \<times> bool" where
  "addRetrievalQuery u q0 queries =
     (let q = q0\<lparr>rq_Query := cleanRetrievalText u (rq_Query q0) maxSearchQueryRunes,
                 rq_EmbeddingText := cleanRetrievalText u (rq_EmbeddingText q0) maxHyDEDocumentRunes\<rparr>
      in if rq_Query q = [] then (queries, False)
         else if list_ex (\<lambda>existing. query_key u existing = query_key u q) queries then (queries, False)
         else (queries @ [q], True))"

text \<open>The three keys of the wrapped form are tried in order; the first with a usable list counts.\<close>

definition parseGeneratedQueries :: "RagService \<Rightarrow> string \<Rightarrow> int \<Rightarrow> string list" where
  "parseGeneratedQueries s raw limit =
     (let raw = stripCodeFence (TrimSpace raw); u = sv_Unicode s
      in case sv_UnmarshalList s raw of
           Some decoded \<Rightarrow> cleanQueryList u decoded limit
         | None \<Rightarrow>
             (case (case sv_UnmarshalMap s raw of
                      None \<Rightarrow> None
                    | Some wrapped \<Rightarrow>
                        find (\<lambda>vs. vs \<noteq> [])
                          (map (\<lambda>key. cleanQueryList u (gget0 [] wrapped key) limit) [''queries'', ''query'', ''items''])) of
                Some vs \<Rightarrow> vs
              | None \<Rightarrow> cleanQueryList u (Split raw [CHR 0x0A]) limit))"

definition generateMultiQueries :: "RagService \<Rightarrow> rag_model \<Rightarrow> string \<Rightarrow> string \<Rightarrow> int \<Rightarrow> string + string list" where
  "generateMultiQueries s m originalQuery baseQuery n =
     (case m_Chat m [(''system'', multi_query_prompt),
         (''user'', multi_query_original @ originalQuery @ multi_query_base @ baseQuery @
            multi_query_generate @ Itoa n @ multi_query_end)] of
        Inl e \<Rightarrow> Inl e
      | Inr answer \<Rightarrow> Inr (parseGeneratedQueries s answer n))"

definition generateHyDEDocument :: "RagService \<Rightarrow> rag_model \<Rightarrow> string \<Rightarrow> string + string" where
  "generateHyDEDocument s m query =
     (case m_Chat m [(''system'', hyde_prompt), (''user'', query)] of
        Inl e \<Rightarrow> Inl e
      | Inr answer \<Rightarrow> Inr (cleanRetrievalText (sv_Unicode s) answer maxHyDEDocumentRunes))"

fun add_generated :: "unicode_tables \<Rightarrow> int \<Rightarrow> string list \<Rightarrow> RetrievalQuery list \<Rightarrow> RetrievalQuery list" where
  "add_generated u n [] queries = queries"
| "add_generated u n (q # qs) queries =
     (if int (length queries) \<ge> n then queries
      else add_generated u n qs (fst (addRetrievalQuery u \<lparr>rq_Query = q, rq_EmbeddingText = [], rq_Source = ''multi_query''\<rparr> queries)))"

definition multi_queries :: "RagService \<Rightarrow> QueryRequest \<Rightarrow> string \<Rightarrow> RetrievalQuery list \<Rightarrow> RetrievalQuery list \<times> string list" where
  "multi_queries s req base queries =
     (let n = sv_MultiQueryCount s
      in if n \<le> 1 then (queries, [])
         else let (queries, warnings) =
                (case sv_Model s of
                   None \<Rightarrow> (queries, [''multi-query generation skipped: model unavailable''])
                 | Some m \<Rightarrow>
                     (case generateMultiQueries s m (qr_Query req) base (n - 1) of
                        Inl e \<Rightarrow> (queries, [''multi-query generation failed: '' @ e])
                      | Inr generated \<Rightarrow> (add_generated (sv_Unicode s) n generated queries, [])))
              in (queries, warnings @ (if int (length queries) < n
                    then [''multi-query expansion produced '' @ Itoa (int (length queries)) @ ''/'' @ Itoa n @ '' retrieval queries'']
                    else [])))"

definition hyde_query :: "RagService \<Rightarrow> QueryRequest \<Rightarrow> string \<Rightarrow> RetrievalQuery list \<Rightarrow> RetrievalQuery list \<times> string list" where
  "hyde_query s req base queries =
     (if \<not> sv_HyDEEnabled s then (queries, [])
      else case sv_Model s of
             None \<Rightarrow> (queries, [''HyDE generation skipped: model unavailable''])
           | Some m \<Rightarrow>
               (case generateHyDEDocument s m (qr_Query req) of
                  Inl e \<Rightarrow> (queries, [''HyDE generation failed: '' @ e])
                | Inr doc \<Rightarrow>
                    if doc = [] then (queries, [''HyDE generation produced empty document''])
                    else case addRetrievalQuery (sv_Unicode s) \<lparr>rq_Query = base, rq_EmbeddingText = doc, rq_Source = ''hyde''\<rparr> queries of
                           (qs, True) \<Rightarrow> (qs, [])
                         | (qs, False) \<Rightarrow> (qs, [''HyDE generation produced duplicate retrieval document''])))"

definition BuildRetrievalQueries :: "RagService \<Rightarrow> QueryRequest \<Rightarrow> Profile \<Rightarrow> string \<Rightarrow> RetrievalQuery list \<times> string list" where
  "BuildRetrievalQueries s req profile rewrittenQuery =
     (let u = sv_Unicode s;
          rewritten = cleanRetrievalText u rewrittenQuery maxSearchQueryRunes;
          (base, source) = (if rewritten = [] then (cleanRetrievalText u (qr_Query req) maxSearchQueryRunes, ''query'')
                            else (rewritten, ''rewrite''));
          queries = fst (addRetrievalQuery u \<lparr>rq_Query = base, rq_EmbeddingText = [], rq_Source = source\<rparr> [])
      in if profile \<noteq> ProfileHighPrecision \<and> \<not> sv_MultiQueryForRealtime s then (queries, [])
         else let (queries, w1) = multi_queries s req base queries; (queries, w2) = hyde_query s req base queries
              in (queries, w1 @ w2))"

section \<open>Retrieval\<close>

definition embedOne :: "RagService \<Rightarrow> string \<Rightarrow> rag_error + float64 list" where
  "embedOne s text =
     (case sv_Model s of
        None \<Rightarrow> Inl EmbedNilModel
      | Some m \<Rightarrow>
          (case m_Embed m [text] of Inl e \<Rightarrow> Inl (ModelError e) | Inr [] \<Rightarrow> Inl EmptyEmbedding | Inr (v # _) \<Rightarrow> Inr v))"

definition retrieveOne :: "RagService \<Rightarrow> QueryRequest \<Rightarrow> SearchRequest \<Rightarrow> int \<Rightarrow> string list \<times> (string + SearchResult list)" where
  "retrieveOne s req searchReq topK =
     (case sv_Retriever s of
        WithWarnings f \<Rightarrow>
          f (if qr_TopK req \<le> 0 then searchReq\<lparr>sr_DenseTopK := topK, sr_SparseTopK := topK\<rparr> else searchReq)
      | PlainRetriever f \<Rightarrow> ([], f searchReq))"

definition effective_topK :: "RagService \<Rightarrow> int \<Rightarrow> int" where
  "effective_topK s topK = (if topK > 0 then topK else if sv_TopK s > 0 then sv_TopK s else 50)"

fun retrieve_loop ::
  "RagService \<Rightarrow> QueryRequest \<Rightarrow> int \<Rightarrow> float64 list \<Rightarrow> RetrievalQuery list \<Rightarrow> string list \<times> (rag_error + SearchResult list list)" where
  "retrieve_loop s req topK queryVector [] = ([], Inr [])"
| "retrieve_loop s req topK queryVector (q # qs) =
     (let u = sv_Unicode s; searchQuery = cleanRetrievalText u (rq_Query q) maxSearchQueryRunes
      in if searchQuery = [] then retrieve_loop s req topK queryVector qs
         else let embeddingText = (if TrimSpace (rq_EmbeddingText q) = [] then searchQuery else TrimSpace (rq_EmbeddingText q))
              in case (if normalizeRetrievalText u embeddingText \<noteq> normalizeRetrievalText u (qr_Query req)
                       then embedOne s embeddingText else Inr queryVector) of
                   Inl e \<Rightarrow> ([], Inl e)
                 | Inr vector \<Rightarrow>
                     (case retrieveOne s req
                        \<lparr>sr_TenantID = qr_TenantID req, sr_KnowledgeBaseID = qr_KnowledgeBaseID req, sr_Query = searchQuery,
                         sr_Vector = vector, sr_TopK = topK, sr_DenseTopK = 0, sr_SparseTopK = 0\<rparr> topK of
                        (w, Inl e) \<Rightarrow> (w, Inl (RetrieveError e))
                      | (w, Inr results) \<Rightarrow>
                          (case retrieve_loop s req topK queryVector qs of
                             (ws, Inl e) \<Rightarrow> (w @ ws, Inl e)
                           | (ws, Inr sets) \<Rightarrow> (w @ ws, Inr (results # sets)))))"

definition RetrieveExpanded ::
  "RagService \<Rightarrow> QueryRequest \<Rightarrow> int \<Rightarrow> RetrievalQuery list \<Rightarrow> float64 list \<Rightarrow>
   string list \<times> (rag_error + SearchResult list \<times> float64 list)" where
  "RetrieveExpanded s req topK0 queries queryVector0 =
     (let topK = effective_topK s topK0
      in case (if queryVector0 = [] then embedOne s (qr_Query req) else Inr queryVector0) of
           Inl e \<Rightarrow> ([], Inl e)
         | Inr queryVector \<Rightarrow>
             (case retrieve_loop s req topK queryVector
                (if queries = [] then [\<lparr>rq_Query = qr_Query req, rq_EmbeddingText = [], rq_Source = ''query''\<rparr>] else queries) of
                (ws, Inl e) \<Rightarrow> (ws, Inl e)
              | (ws, Inr []) \<Rightarrow> (ws, Inr ([], queryVector))
              | (ws, Inr [results]) \<Rightarrow> (ws, Inr (results, queryVector))
              | (ws, Inr sets) \<Rightarrow> (ws, Inr (RRF sets (sv_RRFK s) topK, queryVector))))"

text \<open>The order of the reranked items is the model's; an index out of range is skipped.\<close>

definition rerank_results :: "SearchResult list \<Rightarrow> rerank_item list \<Rightarrow> SearchResult list" where
  "rerank_results results items =
     map (\<lambda>(rank, item). (results ! nat (ri_Index item))\<lparr>res_Rank := int rank + 1, res_Score := ri_Score item, res_From := ''ark_rerank''\<rparr>)
       (filter (\<lambda>(rank, item). 0 \<le> ri_Index item \<and> ri_Index item < int (length results)) (zip [0..<length items] items))"

definition ApplyRerank :: "RagService \<Rightarrow> rag_model \<Rightarrow> string \<Rightarrow> SearchResult list \<Rightarrow> int \<Rightarrow> SearchResult list" where
  "ApplyRerank s m query results topK0 =
     (if sv_DisableRerank s then results
      else let topK = (if topK0 \<le> 0 then sv_TopK s else topK0);
               topK = (if topK \<le> 0 \<or> topK > int (length results) then int (length results) else topK)
           in case m_Rerank m query (map (\<lambda>r. (c_ID (res_Chunk r), c_Content (res_Chunk r))) results) topK of
                Inl e \<Rightarrow> results
              | Inr [] \<Rightarrow> results
              | Inr items \<Rightarrow> rerank_results results items)"

section \<open>Offline knowledge\<close>

text \<open>The elements that are new, in the order of their first occurrence.\<close>

fun keep_first :: "'a list \<Rightarrow> 'a list \<Rightarrow> 'a list" where
  "keep_first seen [] = []"
| "keep_first seen (x # xs) = (if List.member seen x then keep_first seen xs else x # keep_first (x # seen) xs)"

definition shadowChunkIDs :: "ShadowAnswerItem \<Rightarrow> string list" where
  "shadowChunkIDs answer =
     keep_first [] (filter (\<lambda>i. i \<noteq> [])
       (map (\<lambda>e. TrimSpace (ev_ChunkID e)) (ai_Evidence answer) @ map (\<lambda>fp. TrimSpace (fp_ChunkID fp)) (ai_SourceFingerprints answer)))"

text \<open>
  \<^verbatim>\<open>strings.EqualFold\<close> with a text of lower-case ASCII letters without \<^verbatim>\<open>k\<close>: of the characters beyond
  ASCII only the long s is folded to such a letter.
\<close>

definition fold_rune :: "rune \<Rightarrow> rune" where
  "fold_rune r = (if 0x41 \<le> r \<and> r \<le> 0x5A then r + 32 else if r = 0x17F then 0x73 else r)"

definition is_final_answer :: "string \<Rightarrow> bool" where
  "is_final_answer key \<longleftrightarrow> map (fold_rune \<circ> fst) (runes key) = code_points ''final_answer''"

definition put_nonempty :: "string \<Rightarrow> string \<Rightarrow> (string, json) gomap \<Rightarrow> (string, json) gomap" where
  "put_nonempty k v m = (if v = [] then m else gput k (JString v) m)"

definition safeShadowGuidance :: "ShadowMatch \<Rightarrow> string" where
  "safeShadowGuidance match =
     (let guidance = (case sm_AnswerItem match of
                        None \<Rightarrow> sm_Metadata match
                      | Some a \<Rightarrow> if ai_GuidanceMetadata a \<noteq> [] then ai_GuidanceMetadata a else sm_Metadata match)
      in if guidance = [] then []
         else let clean = put_nonempty ''source'' (sm_Source match) (put_nonempty ''item_type'' (sm_ItemType match)
                            (put_nonempty ''item_id'' (sm_ItemID match) (filter (\<lambda>(k, v). \<not> is_final_answer k) guidance)))
              in if clean = [] then [] else json_text (JObject (sort_by (\<lambda>a b. fst a < fst b) clean)))"

definition shadowContextText :: "string \<Rightarrow> ShadowMatch \<Rightarrow> string" where
  "shadowContextText text match =
     (let guidance = safeShadowGuidance match
      in if guidance = [] then text else ''Offline knowledge guidance metadata: '' @ guidance @ [CHR 0x0A] @ text)"

definition shadowSourceResult :: "ShadowSourceChunk \<Rightarrow> ShadowMatch \<Rightarrow> SearchResult" where
  "shadowSourceResult source match =
     (let guidance = safeShadowGuidance match;
          metadata = [(''shadow_item_id'', sm_ItemID match), (''shadow_source'', sm_Source match), (''doc_version'', ss_DocVersion source)] @
            (if ss_ChunkContentHash source \<noteq> [] then [(''chunk_content_hash'', ss_ChunkContentHash source)] else []) @
            (if guidance \<noteq> [] then [(''shadow_guidance_metadata'', guidance)] else [])
      in \<lparr>res_Chunk =
            \<lparr>c_ID = ss_ChunkID source, c_TenantID = ss_TenantID source, c_KnowledgeBaseID = ss_KBID source,
             c_DocumentID = ss_DocID source, c_Content = shadowContextText (ss_Text source) match, c_ContextualText = [],
             c_SourceURI = [], c_Page = 0, c_Section = [], c_Offset = 0, c_Vector = [], c_IngestionJobID = [],
             c_Metadata = metadata\<rparr>,
          res_Score = sm_Score match, res_Rank = sm_Rank match, res_From = ''offline_knowledge_shadow''\<rparr>)"

definition differs :: "string \<Rightarrow> string \<Rightarrow> bool" where
  "differs a b \<longleftrightarrow> a \<noteq> [] \<and> b \<noteq> [] \<and> a \<noteq> b"

definition shadowSourceMatchesFingerprint :: "ShadowSourceChunk \<Rightarrow> ShadowSourceFingerprint list \<Rightarrow> bool" where
  "shadowSourceMatchesFingerprint source fingerprints =
     (case find (\<lambda>fp. TrimSpace (fp_ChunkID fp) = ss_ChunkID source) fingerprints of
        None \<Rightarrow> fingerprints = []
      | Some fp \<Rightarrow> \<not> differs (fp_DocID fp) (ss_DocID source) \<and> \<not> differs (fp_DocVersion fp) (ss_DocVersion source) \<and>
                   \<not> differs (fp_ChunkContentHash fp) (ss_ChunkContentHash source))"

text \<open>
  The two nested loops as one over the pairs of a match and a chunk they name. The result: what is
  injected, the warnings, and the error that stopped the loops.
\<close>

fun shadow_loop ::
  "(string \<Rightarrow> string \<Rightarrow> string \<Rightarrow> string + ShadowSourceChunk option) \<Rightarrow> QueryRequest \<Rightarrow> string list \<Rightarrow>
   (ShadowMatch \<times> ShadowAnswerItem \<times> string) list \<Rightarrow> SearchResult list \<times> string list \<times> rag_error option" where
  "shadow_loop reader req seen [] = ([], [], None)"
| "shadow_loop reader req seen ((match, answer, chunkID) # rest) =
     (if List.member seen chunkID then shadow_loop reader req seen rest
      else let scoped = (qr_ScopedShadowItemID req \<noteq> []);
               missing = (\<lambda>e. if scoped then ([], [''offline_knowledge_shadow_scoped_source_missing''], Some (ErrScopedShadowSourceMissing chunkID e))
                              else shadow_loop reader req seen rest)
           in case reader (qr_TenantID req) (qr_KnowledgeBaseID req) chunkID of
                Inl e \<Rightarrow> missing (Some e)
              | Inr None \<Rightarrow> missing None
              | Inr (Some source) \<Rightarrow>
                  if TrimSpace (ss_Text source) = [] then missing None
                  else if scoped \<and> \<not> shadowSourceMatchesFingerprint source (ai_SourceFingerprints answer)
                  then ([], [''offline_knowledge_shadow_scoped_source_mismatch''], Some (ErrScopedShadowSourceMismatch chunkID))
                  else (case shadow_loop reader req (chunkID # seen) rest of
                          (out, ws, err) \<Rightarrow> (shadowSourceResult source match # out, ws, err)))"

definition shadowInjectedResults ::
  "(string \<Rightarrow> string \<Rightarrow> string \<Rightarrow> string + ShadowSourceChunk option) \<Rightarrow> QueryRequest \<Rightarrow> ShadowMatch list \<Rightarrow> SearchResult list \<Rightarrow>
   SearchResult list \<times> string list \<times> rag_error option" where
  "shadowInjectedResults reader req matches existing =
     shadow_loop reader req (filter (\<lambda>i. i \<noteq> []) (map (\<lambda>r. c_ID (res_Chunk r)) existing))
       (concat (map (\<lambda>match. case sm_AnswerItem match of
                               None \<Rightarrow> []
                             | Some answer \<Rightarrow> map (\<lambda>i. (match, answer, i)) (shadowChunkIDs answer)) matches))"

definition ApplyShadowRetrievalWithDiagnostics ::
  "RagService \<Rightarrow> QueryRequest \<Rightarrow> SearchResult list \<Rightarrow> SearchResult list \<times> string list \<times> rag_error option" where
  "ApplyShadowRetrievalWithDiagnostics s req results =
     (case sv_ShadowRetriever s of
        None \<Rightarrow> (results, [], None)
      | Some retrieveShadow \<Rightarrow>
          if \<not> so_Enabled (sv_Shadow s) then (results, [], None)
          else case retrieveShadow
                 \<lparr>sq_TenantID = qr_TenantID req, sq_KBID = qr_KnowledgeBaseID req, sq_Query = qr_Query req, sq_TraceID = qr_TraceID req,
                  sq_Limit = so_Limit (sv_Shadow s), sq_Inject = so_Inject (sv_Shadow s), sq_ScopedItemID = qr_ScopedShadowItemID req\<rparr> of
                 Inl e \<Rightarrow>
                   if qr_ScopedShadowItemID req \<noteq> []
                   then (results, [''offline_knowledge_shadow_scoped_retrieval_failed''], Some (ErrScopedShadowRetrievalFailed e))
                   else (results, [], None)
               | Inr matches \<Rightarrow>
                   (case sv_ShadowSourceReader s of
                      None \<Rightarrow> (results, [], None)
                    | Some reader \<Rightarrow>
                        if \<not> so_Inject (sv_Shadow s) \<or> matches = [] then (results, [], None)
                        else case shadowInjectedResults reader req matches results of
                               (injected, warnings, Some err) \<Rightarrow> (results, warnings, Some err)
                             | (injected, warnings, None) \<Rightarrow>
                                 if injected = []
                                 then if qr_ScopedShadowItemID req \<noteq> []
                                      then (results, warnings @ [''offline_knowledge_shadow_scoped_no_injectable_source''],
                                            Some ErrScopedShadowNoInjectableItem)
                                      else (results, warnings, None)
                                 else (injected @ results, warnings, None)))"

definition ApplyShadowRetrieval :: "RagService \<Rightarrow> QueryRequest \<Rightarrow> SearchResult list \<Rightarrow> SearchResult list" where
  "ApplyShadowRetrieval s req results = fst (ApplyShadowRetrievalWithDiagnostics s req results)"

section \<open>The prompt\<close>

datatype CacheMode = CacheModeAuto | CacheModeManual | CacheModeNone

definition NewStrategy :: "unicode_tables \<Rightarrow> string \<Rightarrow> CacheMode" where
  "NewStrategy u mode =
     (let m = ToLower u (TrimSpace mode)
      in if m = ''manual'' then CacheModeManual else if m = ''none'' then CacheModeNone else CacheModeAuto)"

text \<open>A segment is its name, whether it is stable, and its content.\<close>

definition segment_before :: "string \<times> bool \<times> string \<Rightarrow> string \<times> bool \<times> string \<Rightarrow> bool" where
  "segment_before a b = (if fst (snd a) = fst (snd b) then fst a < fst b else fst (snd a))"

definition Strategy_Apply :: "CacheMode \<Rightarrow> (string \<times> bool \<times> string) list \<Rightarrow> string" where
  "Strategy_Apply mode segments =
     TrimSpace (concat (map (\<lambda>(name, stable, content).
       if content = [] then []
       else if mode = CacheModeManual \<and> stable
       then ''<cache_control ttl='' @ [CHR 0x22] @ ''3600'' @ [CHR 0x22] @ ''>'' @ [CHR 0x0A] @ content @ [CHR 0x0A] @ ''</cache_control>'' @ [CHR 0x0A]
       else content @ [CHR 0x0A]) (sort_by segment_before segments)))"

section \<open>Answering a request\<close>

definition RouteQuery :: "RagService \<Rightarrow> QueryRequest \<Rightarrow> RouteDecision option \<times> string list" where
  "RouteQuery s req =
     (case sv_QueryRouter s of
        None \<Rightarrow> (None, [])
      | Some router \<Rightarrow>
          (case router req of
             Inl e \<Rightarrow> (None, [''query router failed: '' @ e])
           | Inr decision \<Rightarrow>
               (Some (if rd_Route decision = QueryRouteOther [] then decision\<lparr>rd_Route := QueryRouteSingleRetrieval\<rparr> else decision), [])))"

definition Profile_of :: "RagService \<Rightarrow> Profile \<Rightarrow> Profile" where
  "Profile_of s requested =
     (if requested \<noteq> [] then requested else if sv_DefaultProfile s \<noteq> [] then sv_DefaultProfile s else ProfileRealtime)"

definition cacheProfile :: "Profile \<Rightarrow> Profile" where
  "cacheProfile profile = (if profile = [] then ProfileRealtime else profile)"

definition EnsureCitationHint :: "string \<Rightarrow> Citation list \<Rightarrow> string" where
  "EnsureCitationHint answer citations =
     (case citations of
        [] \<Rightarrow> answer
      | c # _ \<Rightarrow> if Contains answer (ci_ChunkID c) then answer else answer @ '' ['' @ ci_ChunkID c @ '']'')"

text \<open>The clock readings of one request: the creation time and the elapsed milliseconds of its answer.\<close>

record request_clock =
  rc_Now :: gotime
  rc_LatencyMS :: int

definition response_with ::
  "request_clock \<Rightarrow> string \<Rightarrow> Profile \<Rightarrow> RouteDecision option \<Rightarrow> string \<Rightarrow> string list \<Rightarrow> string \<Rightarrow> Citation list \<Rightarrow> SearchResult list \<Rightarrow>
   QueryResponse" where
  "response_with clk traceID profile route status warnings answer citations results =
     \<lparr>qs_Answer = answer, qs_Citations = citations, qs_RetrievedChunks = results, qs_TraceID = traceID,
      qs_CacheStatus = status, qs_Profile = profile, qs_Route = route, qs_Warnings = warnings, qs_TraceWarnings = [],
      qs_TraceSummary = None, qs_LatencyMS = rc_LatencyMS clk, qs_CreatedAt = rc_Now clk\<rparr>"

definition GenerateDirect ::
  "rag_model \<Rightarrow> request_clock \<Rightarrow> QueryRequest \<Rightarrow> Profile \<Rightarrow> string \<Rightarrow> string list \<Rightarrow> RouteDecision option \<Rightarrow> rag_error + QueryResponse" where
  "GenerateDirect m clk req profile traceID warnings route =
     (case m_Chat m [(''system'', direct_prompt), (''user'', qr_Query req)] of
        Inl e \<Rightarrow> Inl (ModelError e)
      | Inr answer \<Rightarrow> Inr (response_with clk traceID profile route ''bypass'' warnings (TrimSpace answer) [] []))"

definition lookup_request :: "RagService \<Rightarrow> QueryRequest \<Rightarrow> float64 list \<Rightarrow> Profile \<Rightarrow> int \<Rightarrow> SemanticCacheLookupRequest" where
  "lookup_request s req vector profile topK =
     \<lparr>sl_Namespace = sv_SemanticCacheNamespace s, sl_TenantID = qr_TenantID req, sl_KnowledgeBaseID = qr_KnowledgeBaseID req,
      sl_Query = qr_Query req, sl_Vector = vector, sl_Threshold = sv_SemanticCacheThreshold s, sl_Profile = profile, sl_TopK = topK\<rparr>"

definition LookupSemanticCache ::
  "RagService \<Rightarrow> request_clock \<Rightarrow> QueryRequest \<Rightarrow> float64 list \<Rightarrow> string \<Rightarrow> Profile \<Rightarrow> int \<Rightarrow> InMemorySemanticCache option \<Rightarrow>
   QueryResponse option" where
  "LookupSemanticCache s clk req vector traceID profile topK c =
     (case c of
        None \<Rightarrow> None
      | Some cache \<Rightarrow>
          if TrimSpace (qr_Query req) = [] then None
          else case Lookup (sv_Unicode s) (lookup_request s req vector profile topK) cache of
                 None \<Rightarrow> None
               | Some cached \<Rightarrow>
                   if cacheProfile (qs_Profile cached) \<noteq> cacheProfile profile then None
                   else Some (cached\<lparr>qs_CacheStatus := ''hit'', qs_TraceID := traceID, qs_LatencyMS := rc_LatencyMS clk,
                                     qs_CreatedAt := rc_Now clk\<rparr>))"

definition cache_entry ::
  "RagService \<Rightarrow> request_clock \<Rightarrow> QueryRequest \<Rightarrow> float64 list \<Rightarrow> Profile \<Rightarrow> int \<Rightarrow> QueryResponse \<Rightarrow> SemanticCacheEntry" where
  "cache_entry s clk req vector profile topK resp =
     (let profile = (if profile = [] then Profile_of s (qr_Profile req) else profile)
      in \<lparr>se_Namespace = sv_SemanticCacheNamespace s, se_TenantID = qr_TenantID req, se_KnowledgeBaseID = qr_KnowledgeBaseID req,
          se_Query = qr_Query req, se_Vector = vector, se_Profile = profile, se_TopK = topK,
          se_Response = resp\<lparr>qs_Profile := profile\<rparr>, se_CreatedAt = rc_Now clk\<rparr>)"

definition StoreSemanticCache ::
  "RagService \<Rightarrow> nat \<Rightarrow> request_clock \<Rightarrow> QueryRequest \<Rightarrow> float64 list \<Rightarrow> Profile \<Rightarrow> int \<Rightarrow> QueryResponse \<Rightarrow>
   InMemorySemanticCache option \<Rightarrow> InMemorySemanticCache option" where
  "StoreSemanticCache s v clk req vector profile topK resp c =
     (case c of
        None \<Rightarrow> None
      | Some cache \<Rightarrow>
          if qs_Citations resp = [] then Some cache
          else Some (Store_cache (sv_Unicode s) v (rc_Now clk) (cache_entry s clk req vector profile topK resp) cache))"

definition rag_system_prompt :: "Profile \<Rightarrow> string" where
  "rag_system_prompt profile =
     system_prompt @
     (if profile = ProfileHighPrecision then system_prompt_high_precision else [])"

definition ensureRequestTrace :: "string \<Rightarrow> QueryRequest \<Rightarrow> QueryRequest" where
  "ensureRequestTrace freshTrace req =
     req\<lparr>qr_TraceID := (if TrimSpace (qr_TraceID req) = [] then freshTrace else TrimSpace (qr_TraceID req))\<rparr>"

text \<open>From the retrieved results on: reranking, offline knowledge, the model's answer. The result carries the vector to store.\<close>

definition generate_answer ::
  "RagService \<Rightarrow> rag_model \<Rightarrow> request_clock \<Rightarrow> QueryRequest \<Rightarrow> Profile \<Rightarrow> int \<Rightarrow> RouteDecision option \<Rightarrow> string list \<Rightarrow> SearchResult list \<Rightarrow>
   rag_error + QueryResponse" where
  "generate_answer s m clk req profile topK route warnings found =
     (case ApplyShadowRetrievalWithDiagnostics s req (ApplyRerank s m (qr_Query req) found topK) of
        (results, shadowWarnings, Some err) \<Rightarrow> Inl err
      | (results, shadowWarnings, None) \<Rightarrow>
          let (contextText, citations) = Pack (sv_Packer s) results;
              system = rag_system_prompt profile;
              user = question_label @ qr_Query req @ context_label @ contextText;
              promptText = sv_PromptStrategy s [(''system'', True, system), (''context'', True, contextText), (''question'', False, qr_Query req)]
          in case m_Chat m [(''system'', system),
                            (''user'', user @ cache_prefix_label @ promptText)] of
               Inl e \<Rightarrow> Inl (ModelError e)
             | Inr answer \<Rightarrow>
                 let (valid, validationWarnings) = ValidateCitations citations results
                 in Inr (response_with clk (qr_TraceID req) profile route ''miss'' (warnings @ shadowWarnings @ validationWarnings)
                           (EnsureCitationHint answer valid) valid results))"

text \<open>A request that the cache did not answer: its response with the vector to store it under.\<close>

definition answer_uncached ::
  "RagService \<Rightarrow> rag_model \<Rightarrow> request_clock \<Rightarrow> QueryRequest \<Rightarrow> Profile \<Rightarrow> int \<Rightarrow> RouteDecision option \<Rightarrow> string list \<Rightarrow> float64 list \<Rightarrow>
   rag_error + QueryResponse \<times> float64 list option" where
  "answer_uncached s m clk req profile topK route routeWarnings vector =
     (let (rewritten, rewriteWarnings) = RewriteQuery s req profile;
          (queries, expansionWarnings) = BuildRetrievalQueries s req profile rewritten;
          (retrievalWarnings, retrieved) = RetrieveExpanded s req topK queries vector;
          warnings = routeWarnings @ rewriteWarnings @ expansionWarnings @ retrievalWarnings
      in case retrieved of
           Inl e \<Rightarrow> Inl e
         | Inr (found, queryVector) \<Rightarrow>
             if found = []
             then Inr (response_with clk (qr_TraceID req) profile route ''miss'' (warnings @ [''no_retrieved_context''])
                         (sv_NoContextAnswer s) [] [], None)
             else case generate_answer s m clk req profile topK route warnings found of
                    Inl e \<Rightarrow> Inl e
                  | Inr resp \<Rightarrow> Inr (resp, Some queryVector))"

definition routed_profile :: "RagService \<Rightarrow> QueryRequest \<Rightarrow> RouteDecision option \<Rightarrow> Profile" where
  "routed_profile s req route =
     (case map_option rd_Route route of
        Some QueryRouteSingleRetrieval \<Rightarrow> ProfileRealtime
      | Some QueryRouteMultiStepRetrieval \<Rightarrow> ProfileHighPrecision
      | _ \<Rightarrow> Profile_of s (qr_Profile req))"

definition Execute ::
  "RagService \<Rightarrow> nat \<Rightarrow> request_clock \<Rightarrow> string \<Rightarrow> (InMemorySemanticCache option \<Rightarrow> InMemorySemanticCache option) \<Rightarrow> QueryRequest \<Rightarrow>
   InMemorySemanticCache option \<Rightarrow> InMemorySemanticCache option \<times> (rag_error + QueryResponse)" where
  "Execute s v clk freshTrace env req0 c =
     (let req = ensureRequestTrace freshTrace req0;
          topK = effective_topK s (qr_TopK req);
          (route, routeWarnings) = RouteQuery s req;
          profile = routed_profile s req route
      in case sv_Model s of
           None \<Rightarrow> (c, Inl NilModel)
         | Some m \<Rightarrow>
             if map_option rd_Route route = Some QueryRouteDirect
             then (c, GenerateDirect m clk req profile (qr_TraceID req) routeWarnings route)
             else (case m_Embed m [qr_Query req] of
                     Inl e \<Rightarrow> (c, Inl (ModelError e))
                   | Inr [] \<Rightarrow> (c, Inl EmptyEmbedding)
                   | Inr (vector # _) \<Rightarrow>
                       (case LookupSemanticCache s clk req vector (qr_TraceID req) profile topK c of
                          Some cached \<Rightarrow>
                            (c, Inr (if route \<noteq> None \<and> qs_Route cached = None then cached\<lparr>qs_Route := route\<rparr> else cached))
                        | None \<Rightarrow>
                            (case answer_uncached s m clk req profile topK route routeWarnings vector of
                               Inl e \<Rightarrow> (env c, Inl e)
                             | Inr (resp, None) \<Rightarrow> (env c, Inr resp)
                             | Inr (resp, Some queryVector) \<Rightarrow>
                                 (StoreSemanticCache s v clk req queryVector profile topK resp (env c), Inr resp)))))"

end
