(* ===== verification/RagProps.thy ===== *)
theory RagProps
  imports RagService
begin

text \<open>
  What the query service guarantees: answers are made of the requester's own knowledge base, also when
  they come from the cache, the expansion of a query is bounded and has no duplicates, and two
  behaviours that are easy to overlook: the cleaning of queries eats the front of a decimal number,
  and the cache answers requests that ask for offline knowledge.
\<close>

section \<open>Scope of the pieces\<close>

lemma of_scope_append [simp]: "of_scope t k (xs @ ys) \<longleftrightarrow> of_scope t k xs \<and> of_scope t k ys"
  by (simp add: of_scope_def)

lemma of_scope_Nil [simp]: "of_scope t k []"
  by (simp add: of_scope_def)

lemma of_scope_Cons: "of_scope t k (r # rs) \<longleftrightarrow> c_TenantID (res_Chunk r) = t \<and> c_KnowledgeBaseID (res_Chunk r) = k \<and> of_scope t k rs"
  by (simp add: of_scope_def)

lemma rerank_results_scope: "of_scope t k rs \<Longrightarrow> of_scope t k (rerank_results rs items)"
  by (auto simp: of_scope_def rerank_results_def list_all_iff nat_less_iff)

lemma ApplyRerank_scope: "of_scope t k rs \<Longrightarrow> of_scope t k (ApplyRerank s m q rs topK)"
  by (auto simp: ApplyRerank_def Let_def rerank_results_scope split: sum.splits list.splits)

text \<open>
  The contract of what a service is built on: its retriever returns chunks of the scope it is asked
  for, and so does the reader of source chunks.
\<close>

locale scoped_service =
  fixes s :: RagService
  assumes retrieves: "retrieveOne s req sreq topK = (w, Inr rs) \<Longrightarrow> of_scope (sr_TenantID sreq) (sr_KnowledgeBaseID sreq) rs"
    and reads: "sv_ShadowSourceReader s = Some reader \<Longrightarrow> reader t k i = Inr (Some src) \<Longrightarrow> ss_TenantID src = t \<and> ss_KBID src = k"
begin

lemma retrieve_loop_scope:
  "retrieve_loop s req topK vec qs = (ws, Inr sets) \<Longrightarrow> list_all (of_scope (qr_TenantID req) (qr_KnowledgeBaseID req)) sets"
proof (induction qs arbitrary: ws sets)
  case (Cons q qs)
  then show ?case
    by (auto simp: Let_def split: if_splits sum.splits prod.splits dest!: retrieves)
qed simp

lemma RetrieveExpanded_scope:
  assumes "RetrieveExpanded s req topK qs vec = (ws, Inr (found, vec'))"
  shows "of_scope (qr_TenantID req) (qr_KnowledgeBaseID req) found"
  using assms
  by (auto simp: RetrieveExpanded_def Let_def split: sum.splits prod.splits list.splits if_splits
      dest!: retrieve_loop_scope intro!: RRF_scope simp del: retrieve_loop.simps)

lemma shadow_loop_scope:
  assumes "sv_ShadowSourceReader s = Some reader"
  shows "of_scope (qr_TenantID req) (qr_KnowledgeBaseID req) (fst (shadow_loop reader req seen ps))"
proof (induction ps arbitrary: seen)
  case (Cons p ps)
  obtain match answer i where p: "p = (match, answer, i)" by (cases p)
  have src: "ss_TenantID src = qr_TenantID req \<and> ss_KBID src = qr_KnowledgeBaseID req"
    if "reader (qr_TenantID req) (qr_KnowledgeBaseID req) i = Inr (Some src)" for src
    using reads [OF assms that] .
  show ?case
    using Cons.IH [of seen] Cons.IH [of "i # seen"]
    by (auto simp: p Let_def of_scope_Cons shadowSourceResult_def case_prod_unfold dest: src split: sum.split option.split)
qed simp

lemma ApplyShadow_scope:
  assumes "of_scope (qr_TenantID req) (qr_KnowledgeBaseID req) rs"
  shows "of_scope (qr_TenantID req) (qr_KnowledgeBaseID req) (fst (ApplyShadowRetrievalWithDiagnostics s req rs))"
proof -
  have "of_scope (qr_TenantID req) (qr_KnowledgeBaseID req) (fst (shadowInjectedResults reader req ms rs))"
    if "sv_ShadowSourceReader s = Some reader" for reader ms
    unfolding shadowInjectedResults_def by (rule shadow_loop_scope [OF that])
  then show ?thesis
    using assms by (simp add: ApplyShadowRetrievalWithDiagnostics_def case_prod_unfold split: option.split sum.split)
qed

end

section \<open>Answers\<close>

definition response_ok :: "string \<Rightarrow> string \<Rightarrow> QueryResponse \<Rightarrow> bool" where
  "response_ok t k resp \<longleftrightarrow> of_scope t k (qs_RetrievedChunks resp) \<and>
     list_all (\<lambda>c. c \<in> c_ID ` res_Chunk ` set (qs_RetrievedChunks resp)) (map ci_ChunkID (qs_Citations resp))"

text \<open>The entries of the cache were stored for plain scopes, with chunks of their own scope.\<close>

definition cache_confined :: "unicode_tables \<Rightarrow> InMemorySemanticCache option \<Rightarrow> bool" where
  "cache_confined u c \<longleftrightarrow>
     (case c of
        None \<Rightarrow> True
      | Some cache \<Rightarrow> \<exists>stores. cache_reachable u stores cache \<and>
          (\<forall>e \<in> set stores. plain_scope (entry_scope e) \<and> response_ok (se_TenantID e) (se_KnowledgeBaseID e) (se_Response e)))"

lemma response_ok_Nil: "response_ok t k (response_with clk tr p r st ws a [] [])"
  by (simp add: response_ok_def response_with_def)

lemma ValidateCitations_ok:
  "list_all (\<lambda>c. c \<in> c_ID ` res_Chunk ` set rs) (map ci_ChunkID (fst (ValidateCitations cs rs)))"
  by (auto simp: ValidateCitations_def Let_def list_all_iff image_image)

text \<open>The names of a request that go into its cache key.\<close>

definition plain_request :: "RagService \<Rightarrow> QueryRequest \<Rightarrow> bool" where
  "plain_request s req \<longleftrightarrow> plain (TrimSpace (sv_SemanticCacheNamespace s)) \<and> plain (qr_TenantID req) \<and> qr_TenantID req \<noteq> ''namespace'' \<and>
     plain (qr_KnowledgeBaseID req) \<and> plain (qr_Profile req) \<and> plain (sv_DefaultProfile s)"

lemma plain_profiles: "plain ProfileRealtime" "plain ProfileHighPrecision"
  by code_simp+

lemma plain_routed: "plain_request s req \<Longrightarrow> plain (routed_profile s req route)"
  using plain_profiles
  by (auto simp: routed_profile_def Profile_of_def plain_request_def split: option.splits QueryRoute.splits)

lemma scope_plain:
  assumes "plain_request s req" and "plain p"
  shows "plain_scope (scope_of (sv_SemanticCacheNamespace s) (qr_TenantID req) (qr_KnowledgeBaseID req) p topK)"
  using assms plain_profiles by (simp add: plain_scope_def scope_of_def plain_request_def)

lemma stored_response_ok: "response_ok t k (stored_response e) = response_ok t k (se_Response e)"
  by (simp add: stored_response_def response_ok_def)

lemma LookupSemanticCache_ok:
  assumes "cache_confined (sv_Unicode s) c" and "plain_request s req" and "plain p"
    and "LookupSemanticCache s clk req vec tr p topK c = Some resp"
  shows "response_ok (qr_TenantID req) (qr_KnowledgeBaseID req) resp"
proof -
  from assms(1,4) obtain cache stores cached where c: "cache_reachable (sv_Unicode s) stores cache"
    "\<forall>e \<in> set stores. plain_scope (entry_scope e) \<and> response_ok (se_TenantID e) (se_KnowledgeBaseID e) (se_Response e)"
    "Lookup (sv_Unicode s) (lookup_request s req vec p topK) cache = Some cached"
    and resp: "resp = cached\<lparr>qs_CacheStatus := ''hit'', qs_TraceID := tr, qs_LatencyMS := rc_LatencyMS clk, qs_CreatedAt := rc_Now clk\<rparr>"
    by (auto simp: cache_confined_def LookupSemanticCache_def split: option.splits if_splits)
  have rs: "request_scope (lookup_request s req vec p topK) =
      scope_of (sv_SemanticCacheNamespace s) (qr_TenantID req) (qr_KnowledgeBaseID req) p topK"
    by (simp add: request_scope_def lookup_request_def)
  from cache_hit_scope [OF c(1,3)] scope_plain [OF assms(2,3)] c(2) rs
  obtain e where e: "e \<in> set stores" "cached = stored_response e" "entry_scope e = request_scope (lookup_request s req vec p topK)"
    by auto
  then have "se_TenantID e = qr_TenantID req" "se_KnowledgeBaseID e = qr_KnowledgeBaseID req"
    unfolding rs by (simp_all add: entry_scope_def scope_of_def)
  with c(2) e(1,2) have "response_ok (qr_TenantID req) (qr_KnowledgeBaseID req) cached" by (auto simp: stored_response_ok)
  then show ?thesis by (simp add: resp response_ok_def)
qed

lemma StoreSemanticCache_confined:
  assumes "cache_confined (sv_Unicode s) c" and "plain_request s req" and "plain p"
    and "response_ok (qr_TenantID req) (qr_KnowledgeBaseID req) resp"
  shows "cache_confined (sv_Unicode s) (StoreSemanticCache s v clk req vec p topK resp c)"
proof (cases c)
  case (Some cache)
  with assms(1) obtain stores where st: "cache_reachable (sv_Unicode s) stores cache"
    "\<forall>e \<in> set stores. plain_scope (entry_scope e) \<and> response_ok (se_TenantID e) (se_KnowledgeBaseID e) (se_Response e)"
    by (auto simp: cache_confined_def)
  let ?e = "cache_entry s clk req vec p topK resp"
  have "plain (if p = [] then Profile_of s (qr_Profile req) else p)"
    using assms(2,3) plain_profiles by (auto simp: Profile_of_def plain_request_def)
  then have "plain_scope (entry_scope ?e)"
    using scope_plain [OF assms(2)] scope_plain [OF assms(2), of "[]"] by (simp add: plain_def [of "[]"] entry_scope_def cache_entry_def entry_profile_def Let_def)
  moreover have "response_ok (se_TenantID ?e) (se_KnowledgeBaseID ?e) (se_Response ?e)"
    using assms(4) by (simp add: cache_entry_def response_ok_def Let_def)
  ultimately show ?thesis
    using st cache_reachable.store [OF st(1), of ?e v "rc_Now clk"] assms(1) Some
    by (auto simp: StoreSemanticCache_def cache_confined_def intro!: exI [of _ "?e # stores"])
qed (simp add: StoreSemanticCache_def cache_confined_def)

context scoped_service
begin

lemma generate_answer_ok:
  assumes "generate_answer s m clk req p topK route ws found = Inr resp"
    and "of_scope (qr_TenantID req) (qr_KnowledgeBaseID req) found"
  shows "response_ok (qr_TenantID req) (qr_KnowledgeBaseID req) resp"
proof -
  let ?a = "ApplyShadowRetrievalWithDiagnostics s req (ApplyRerank s m (qr_Query req) found topK)"
  from assms(1) obtain cs a w where resp: "resp = response_with clk (qr_TraceID req) p route ''miss'' w a
      (fst (ValidateCitations cs (fst ?a))) (fst ?a)"
    by (auto simp: generate_answer_def Let_def case_prod_unfold split: option.splits sum.splits)
  have "of_scope (qr_TenantID req) (qr_KnowledgeBaseID req) (fst ?a)"
    by (intro ApplyShadow_scope ApplyRerank_scope assms(2))
  then show ?thesis using ValidateCitations_ok [of "fst ?a" cs] by (simp add: resp response_ok_def response_with_def)
qed

lemma answer_uncached_ok:
  assumes "answer_uncached s m clk req p topK route ws vec = Inr (resp, v)"
  shows "response_ok (qr_TenantID req) (qr_KnowledgeBaseID req) resp"
proof -
  let ?qs = "fst (BuildRetrievalQueries s req p (fst (RewriteQuery s req p)))"
  obtain rw x where r: "RetrieveExpanded s req topK ?qs vec = (rw, x)" by fastforce
  note a = assms [unfolded answer_uncached_def Let_def case_prod_unfold r snd_conv fst_conv]
  obtain found vec' where x: "x = Inr (found, vec')" using a by (cases x) auto
  from a [unfolded x sum.case fst_conv snd_conv] RetrieveExpanded_scope [OF r [unfolded x]] show ?thesis
    by (auto simp: response_ok_Nil dest: generate_answer_ok split: if_splits sum.splits)
qed

lemma Execute_ok:
  assumes "cache_confined (sv_Unicode s) c" and "cache_confined (sv_Unicode s) (env c)" and "plain_request s req"
    and "Execute s v clk tr env req c = (c', r)"
  shows "cache_confined (sv_Unicode s) c' \<and> (\<forall>resp. r = Inr resp \<longrightarrow> response_ok (qr_TenantID req) (qr_KnowledgeBaseID req) resp)"
proof -
  let ?req = "ensureRequestTrace tr req"
  have req: "qr_TenantID ?req = qr_TenantID req" "qr_KnowledgeBaseID ?req = qr_KnowledgeBaseID req" "plain_request s ?req"
    using assms(3) by (simp_all add: ensureRequestTrace_def plain_request_def)
  note routed = plain_routed [OF req(3)]
  note hit = LookupSemanticCache_ok [OF assms(1) req(3) routed] and store = StoreSemanticCache_confined [OF assms(2) req(3) routed]
  have direct: "response_ok t k resp" if "GenerateDirect m clk q p x y z = Inr resp" for t k resp m q p x y z
    using that by (auto simp: GenerateDirect_def response_ok_Nil split: sum.splits)
  have upd: "response_ok t k (resp\<lparr>qs_Route := x\<rparr>) = response_ok t k resp" for t k resp x
    by (simp add: response_ok_def)
  show ?thesis
    using assms(4) hit store answer_uncached_ok [of _ clk ?req] direct assms(1,2)
    by (auto simp: Execute_def Let_def req upd split: option.splits sum.splits list.splits prod.splits if_splits)
qed

end

text \<open>A service over the in-memory knowledge base, whatever its model, router and source of offline matches.\<close>

definition memory_service :: "RagService \<Rightarrow> MemoryStore \<Rightarrow> int \<Rightarrow> int \<Rightarrow> int \<Rightarrow> int \<Rightarrow> RagService" where
  "memory_service s st rrfk topN dk sk =
     s\<lparr>sv_Retriever := WithWarnings (RetrieveWithWarnings (hybrid_over (sv_Unicode s) (\<lambda>t k. MemoryStore_Chunks t k st) rrfk topN dk sk)),
       sv_ShadowSourceReader := None\<rparr>"

interpretation mems: scoped_service "memory_service s st rrfk topN dk sk" for s st rrfk topN dk sk
proof
  fix req sreq topK w rs
  assume a: "retrieveOne (memory_service s st rrfk topN dk sk) req sreq topK = (w, Inr rs)"
  let ?h = "hybrid_over (sv_Unicode s) (\<lambda>t k. MemoryStore_Chunks t k st) rrfk topN dk sk"
  let ?q = "if qr_TopK req \<le> 0 then sreq\<lparr>sr_DenseTopK := topK, sr_SparseTopK := topK\<rparr> else sreq"
  have "HybridRetriever_Retrieve ?h ?q = Inr rs"
    using a by (simp add: retrieveOne_def memory_service_def HybridRetriever_Retrieve_def)
  from mem.hybrid_scope [OF this] show "of_scope (sr_TenantID sreq) (sr_KnowledgeBaseID sreq) rs"
    by (simp split: if_splits)
next
  fix reader t k i src
  assume "sv_ShadowSourceReader (memory_service s st rrfk topN dk sk) = Some reader"
  then show "ss_TenantID src = t \<and> ss_KBID src = k" by (simp add: memory_service_def)
qed

text \<open>
  C31 (safety). An answer is made of the requester's own knowledge base: every chunk in a response belongs to the
  tenant and the knowledge base of the request and every citation names one of these chunks, whatever the
  model answers and whether the response is new or comes from the cache; and the cache stays in a state from
  which this holds. The retriever and the reader of offline sources are only assumed to return chunks of
  the scope they are asked for; the names in a request are plain.
\<close>

theorem answers_confined:
  assumes "scoped_service s"
    and "cache_confined (sv_Unicode s) c" and "cache_confined (sv_Unicode s) (env c)" and "plain_request s req"
    and "Execute s v clk tr env req c = (c', r)"
  shows "cache_confined (sv_Unicode s) c' \<and>
    (\<forall>resp. r = Inr resp \<longrightarrow> of_scope (qr_TenantID req) (qr_KnowledgeBaseID req) (qs_RetrievedChunks resp) \<and>
       list_all (\<lambda>c. c \<in> c_ID ` res_Chunk ` set (qs_RetrievedChunks resp)) (map ci_ChunkID (qs_Citations resp)))"
  using scoped_service.Execute_ok [OF assms] by (simp add: response_ok_def)

lemma new_cache_confined: "cache_confined u (Some (NewSemanticCache m))"
  unfolding cache_confined_def by (auto intro!: exI [of _ "[]"] cache_reachable.init)

definition demo_model :: rag_model where
  "demo_model = \<lparr>m_Chat = (\<lambda>_. Inr ''ok''), m_Embed = (\<lambda>_. Inr [[Fin 1]]), m_Rerank = (\<lambda>_ _ _. Inr [])\<rparr>"

definition demo_rag_service :: RagService where
  "demo_rag_service =
     \<lparr>sv_Retriever = PlainRetriever (\<lambda>_. Inr []), sv_Model = Some demo_model, sv_Packer = \<lparr>pk_MaxTokens = 0, pk_TopN = 0\<rparr>,
      sv_PromptStrategy = Strategy_Apply CacheModeAuto, sv_DefaultProfile = [], sv_NoContextAnswer = ''none'', sv_TopK = 3,
      sv_SemanticCacheThreshold = Fin 1, sv_SemanticCacheNamespace = [], sv_RRFK = 60,
      sv_Shadow = \<lparr>so_Enabled = False, so_Inject = False, so_Limit = 0\<rparr>, sv_ShadowRetriever = None,
      sv_ShadowSourceReader = None, sv_QueryRewriteEnabled = False, sv_MultiQueryCount = 0, sv_MultiQueryForRealtime = False,
      sv_DisableRerank = True, sv_HyDEEnabled = False, sv_QueryRouter = None, sv_Unicode = ascii_tables,
      sv_UnmarshalList = (\<lambda>_. None), sv_UnmarshalMap = (\<lambda>_. None)\<rparr>"

definition demo_request :: QueryRequest where
  "demo_request =
     \<lparr>qr_TenantID = ''t'', qr_TraceID = [], qr_SemanticCacheNamespace = [], qr_ScopedShadowItemID = [], qr_ProjectID = [],
      qr_PipelineID = [], qr_PipelineVersionID = [], qr_ReleaseID = [], qr_Environment = [], qr_DatasetID = [],
      qr_EvaluationRunID = [], qr_KnowledgeBaseID = ''k'', qr_Query = ''go'', qr_Profile = [], qr_SessionID = [], qr_TopK = 3\<rparr>"

theorem answers_confined_witness:
  "\<exists>c' r. Execute (memory_service demo_rag_service ex_store 60 5 0 0) 0 \<lparr>rc_Now = 1, rc_LatencyMS = 2\<rparr> ''trace'' id demo_request
       (Some (NewSemanticCache 10)) = (c', r) \<and> cache_confined ascii_tables c' \<and>
     (\<forall>resp. r = Inr resp \<longrightarrow> of_scope ''t'' ''k'' (qs_RetrievedChunks resp))"
proof -
  let ?s = "memory_service demo_rag_service ex_store 60 5 0 0"
  have "plain ''t''" "plain ''k''" "plain []" by code_simp+
  then have p: "plain_request ?s demo_request"
    by (simp add: plain_request_def memory_service_def demo_rag_service_def demo_request_def)
  have u: "sv_Unicode ?s = ascii_tables" by (simp add: memory_service_def demo_rag_service_def)
  obtain c' r where e: "Execute ?s 0 \<lparr>rc_Now = 1, rc_LatencyMS = 2\<rparr> ''trace'' id demo_request (Some (NewSemanticCache 10)) = (c', r)"
    by fastforce
  from answers_confined [OF mems.scoped_service_axioms _ _ p e] e show ?thesis
    by (simp add: u new_cache_confined demo_request_def)
qed

section \<open>Expansion\<close>

lemma cleanRetrievalText_bound: "0 < n \<Longrightarrow> RuneCount (cleanRetrievalText u t n) \<le> n"
  by (simp add: cleanRetrievalText_def Let_def RuneCount_def)

definition queries_ok :: "unicode_tables \<Rightarrow> RetrievalQuery list \<Rightarrow> bool" where
  "queries_ok u qs \<longleftrightarrow> distinct (map (query_key u) qs) \<and>
     list_all (\<lambda>q. rq_Query q \<noteq> [] \<and> RuneCount (rq_Query q) \<le> 2000 \<and> RuneCount (rq_EmbeddingText q) \<le> 2000) qs"

lemma addRetrievalQuery_ok:
  "queries_ok u qs \<Longrightarrow> queries_ok u (fst (addRetrievalQuery u q qs))"
  "length (fst (addRetrievalQuery u q qs)) \<le> length qs + 1"
  using cleanRetrievalText_bound [of 2000 u]
  by (auto simp: addRetrievalQuery_def Let_def queries_ok_def list_ex_iff query_limits)

lemma add_generated_ok: "queries_ok u qs \<Longrightarrow> queries_ok u (add_generated u n gs qs)"
  by (induction gs arbitrary: qs) (simp_all add: addRetrievalQuery_ok)

lemma add_generated_length: "int (length (add_generated u n gs qs)) \<le> max n (int (length qs))"
proof (induction gs arbitrary: qs)
  case (Cons g gs)
  let ?qs = "fst (addRetrievalQuery u \<lparr>rq_Query = g, rq_EmbeddingText = [], rq_Source = ''multi_query''\<rparr> qs)"
  have "length ?qs \<le> length qs + 1" by (rule addRetrievalQuery_ok(2))
  with Cons.IH [of ?qs] show ?case by (auto simp: max_def split: if_splits)
qed simp

lemma multi_queries_ok:
  assumes "queries_ok (sv_Unicode s) qs"
  shows "queries_ok (sv_Unicode s) (fst (multi_queries s req base qs))"
    and "int (length (fst (multi_queries s req base qs))) \<le> max (sv_MultiQueryCount s) (int (length qs))"
  using add_generated_ok [OF assms] add_generated_length [of "sv_Unicode s" "sv_MultiQueryCount s" _ qs] assms
  by (auto simp: multi_queries_def Let_def split: option.splits sum.splits)

lemma hyde_query_ok:
  assumes "queries_ok (sv_Unicode s) qs"
  shows "queries_ok (sv_Unicode s) (fst (hyde_query s req base qs))"
    and "length (fst (hyde_query s req base qs)) \<le> length qs + 1"
  using addRetrievalQuery_ok(1) [OF assms] addRetrievalQuery_ok(2) [of "sv_Unicode s" _ qs] assms
  by (simp_all add: hyde_query_def case_prod_unfold le_SucI split: option.split sum.split bool.split)

text \<open>
  The expansion of a request asks at most \<^verbatim>\<open>MultiQueryCount\<close> queries (one, when that is less) and one
  more for the hypothetical document. No two of them are the same after normalisation, none is empty, and
  their texts have at most 2000 characters, whatever the model answers.
\<close>

lemma expansion_bounded:
  "int (length (fst (BuildRetrievalQueries s req p rewritten))) \<le> max 1 (sv_MultiQueryCount s) + 1 \<and>
   distinct (map (query_key (sv_Unicode s)) (fst (BuildRetrievalQueries s req p rewritten))) \<and>
   list_all (\<lambda>q. rq_Query q \<noteq> [] \<and> RuneCount (rq_Query q) \<le> 2000 \<and> RuneCount (rq_EmbeddingText q) \<le> 2000)
     (fst (BuildRetrievalQueries s req p rewritten))"
proof -
  have first: "queries_ok (sv_Unicode s) (fst (addRetrievalQuery (sv_Unicode s) q []))"
    "length (fst (addRetrievalQuery (sv_Unicode s) q [])) \<le> 1" for q
    using addRetrievalQuery_ok(1) [of "sv_Unicode s" "[]" q] addRetrievalQuery_ok(2) [of "sv_Unicode s" q "[]"]
    by (simp_all add: queries_ok_def)
  have both: "queries_ok (sv_Unicode s) (fst (hyde_query s req b (fst (multi_queries s req b qs)))) \<and>
      int (length (fst (hyde_query s req b (fst (multi_queries s req b qs))))) \<le> max 1 (sv_MultiQueryCount s) + 1"
    if "queries_ok (sv_Unicode s) qs" "length qs \<le> 1" for b qs
    using multi_queries_ok [OF that(1), of req b] hyde_query_ok [OF multi_queries_ok(1) [OF that(1)], of req b req b] that(2)
    by linarith
  have "queries_ok (sv_Unicode s) (fst (BuildRetrievalQueries s req p rewritten)) \<and>
      int (length (fst (BuildRetrievalQueries s req p rewritten))) \<le> max 1 (sv_MultiQueryCount s) + 1"
  proof (cases "p \<noteq> ProfileHighPrecision \<and> \<not> sv_MultiQueryForRealtime s")
    case True
    have "int (length (fst (addRetrievalQuery (sv_Unicode s) q []))) \<le> max 1 (sv_MultiQueryCount s) + 1" for q
      using first(2) [of q] by linarith
    with True first(1) show ?thesis by (simp add: BuildRetrievalQueries_def Let_def case_prod_unfold)
  next
    case False
    show ?thesis
      unfolding BuildRetrievalQueries_def Let_def case_prod_unfold if_not_P [OF False] fst_conv by (rule both [OF first])
  qed
  then show ?thesis by (simp add: queries_ok_def)
qed

section \<open>Two surprises\<close>

text \<open>A query that begins with a decimal number loses the digits before the point.\<close>

lemma decimal_query_truncated:
  "cleanRetrievalText ascii_tables ''3.5 mm'' maxSearchQueryRunes = ''5 mm''"
proof -
  have trim: "TrimSpace ''3.5 mm'' = ''3.5 mm''" "TrimSpace ''5 mm'' = ''5 mm''"
    by (simp_all add: TrimSpace_def TrimLeftSpace_def TrimRightSpace_def strip_id white_space_def)
  have "char_of (53 :: nat) = CHR ''5''" "char_of (32 :: nat) = CHR '' ''" "char_of (109 :: nat) = CHR ''m''" by code_simp+
  then have enc: "EncodeRune 53 = ''5''" "EncodeRune 32 = '' ''" "EncodeRune 109 = ''m''" by (simp_all add: EncodeRune_ascii)
  have "stripListMarker ascii_tables ''3.5 mm'' = ''5 mm''"
    by (simp add: stripListMarker_def Let_def trim trim_left_runes_def IsDigit_def utf8_def enc)
  moreover have "Fields ''5 mm'' = [''5'', ''mm'']" by (simp add: Fields_def FieldsFunc_def IsSpace_def)
  ultimately show ?thesis
    by (simp add: cleanRetrievalText_def Let_def trim trim_quotes_def RuneCount_def query_limits)
qed

text \<open>
  The cache key has no trace of the offline item a request asks for: once an answer without offline knowledge
  is in the cache, the same request for a scoped offline item is answered with it, and the offline item is
  never looked at.
\<close>

lemma scoped_request_from_cache:
  assumes "LookupSemanticCache s clk req vec tr p topK c = Some cached"
  shows "LookupSemanticCache (s\<lparr>sv_Shadow := o1, sv_ShadowRetriever := o2, sv_ShadowSourceReader := o3\<rparr>) clk
    (req\<lparr>qr_ScopedShadowItemID := i\<rparr>) vec tr p topK c = Some cached"
proof -
  have "lookup_request (s\<lparr>sv_Shadow := o1, sv_ShadowRetriever := o2, sv_ShadowSourceReader := o3\<rparr>)
      (req\<lparr>qr_ScopedShadowItemID := i\<rparr>) vec p topK = lookup_request s req vec p topK"
    by (simp add: lookup_request_def)
  with assms show ?thesis by (cases c) (auto simp: LookupSemanticCache_def split: option.splits if_splits)
qed

end
