(* ===== verification/EvalScore.thy ===== *)
theory EvalScore
  imports Datasets RagContext MetricRegistry GoJson Crypto
begin

text \<open>
  The deterministic scores of an evaluated answer: retrieval metrics (\<^verbatim>\<open>eval/retrieval_metrics.go\<close>),
  redundancy, recall and precision, percentiles and weights (\<^verbatim>\<open>eval/metrics.go\<close>), and diversity
  (\<^verbatim>\<open>eval/diversity.go\<close>). Two functions of the package \<^verbatim>\<open>math\<close> that are not correctly rounded,
  \<^verbatim>\<open>Log2\<close> and \<^verbatim>\<open>Pow\<close>, are an argument.
\<close>

record math_funs =
  mf_Log2 :: "float64 \<Rightarrow> float64"
  mf_Pow :: "float64 \<Rightarrow> float64 \<Rightarrow> float64"

type_synonym metric_map = "(string, float64) gomap"

section \<open>Averages and sets\<close>

definition average :: "float64 \<Rightarrow> int \<Rightarrow> float64" where
  "average s n = (if n = 0 then Fin 0 else fdiv s (of_int64 n))"

definition weightedAverage :: "float64 \<Rightarrow> float64 \<Rightarrow> float64" where
  "weightedAverage s weight = (if fle weight (Fin 0) then Fin 0 else fdiv s weight)"

definition boolScore :: "bool \<Rightarrow> float64" where
  "boolScore ok = (if ok then Fin 1 else Fin 0)"

text \<open>The keys of a map that is used as a set.\<close>

definition stringSet :: "string list \<Rightarrow> string list" where
  "stringSet values = remdups values"

section \<open>Retrieval\<close>

definition retrievalLimit :: "int \<Rightarrow> int \<Rightarrow> int" where
  "retrievalLimit resultCount k = (if k \<le> 0 \<or> k > resultCount then resultCount else k)"

definition rankDiscount :: "math_funs \<Rightarrow> nat \<Rightarrow> float64" where
  "rankDiscount m rank = fdiv (Fin 1) (mf_Log2 m (of_int64 (int rank + 1)))"

fun ideal_loop :: "math_funs \<Rightarrow> nat \<Rightarrow> float64" where
  "ideal_loop m 0 = Fin 0"
| "ideal_loop m (Suc n) = fadd (ideal_loop m n) (rankDiscount m (Suc n))"

definition idealRetrievalDCG :: "math_funs \<Rightarrow> int \<Rightarrow> int \<Rightarrow> float64" where
  "idealRetrievalDCG m relevantCount k =
     (let ideal = ideal_loop m (nat (retrievalLimit relevantCount k))
      in if feq ideal (Fin 0) then Fin 1 else ideal)"

record retrieval_state =
  rs_seen :: "string list"
  rs_dcg :: float64
  rs_precisionSum :: float64
  rs_mrr :: float64

definition count_hit :: "math_funs \<Rightarrow> nat \<Rightarrow> string \<Rightarrow> retrieval_state \<Rightarrow> retrieval_state" where
  "count_hit m rank docID st =
     (let seen = docID # rs_seen st
      in \<lparr>rs_seen = seen, rs_dcg = fadd (rs_dcg st) (rankDiscount m rank),
          rs_precisionSum = fadd (rs_precisionSum st) (fdiv (of_int64 (int (length seen))) (of_int64 (int rank))),
          rs_mrr = (if feq (rs_mrr st) (Fin 0) then fdiv (Fin 1) (of_int64 (int rank)) else rs_mrr st)\<rparr>)"

text \<open>The loop over the ranked documents; \<open>i\<close> is the index of the first of them.\<close>

fun retrieval_loop :: "math_funs \<Rightarrow> string list \<Rightarrow> nat \<Rightarrow> string list \<Rightarrow> retrieval_state \<Rightarrow> retrieval_state" where
  "retrieval_loop m relevant i [] st = st"
| "retrieval_loop m relevant i (d # ds) st =
     retrieval_loop m relevant (i + 1) ds
       (if \<not> List.member relevant d \<or> List.member (rs_seen st) d then st else count_hit m (i + 1) d st)"

definition retrieval_result :: "float64 \<Rightarrow> float64 \<Rightarrow> float64 \<Rightarrow> float64 \<Rightarrow> float64 \<Rightarrow> float64 \<Rightarrow> metric_map" where
  "retrieval_result ndcg recall mrr avgp coverage failure =
     [(''ndcg_at_k'', ndcg), (''recall_at_k'', recall), (''mrr'', mrr), (''map'', avgp), (''coverage'', coverage),
      (''retrieval_failure_rate'', failure)]"

definition retrievalMetrics :: "math_funs \<Rightarrow> string list \<Rightarrow> SearchResult list \<Rightarrow> int \<Rightarrow> metric_map" where
  "retrievalMetrics m relevantDocIDs results k =
     (let relevant = stringSet relevantDocIDs
      in if relevant = [] then retrieval_result (Fin 0) (Fin 0) (Fin 0) (Fin 0) (Fin 0) (Fin 0)
         else let limit = retrievalLimit (int (length results)) k;
                  st = retrieval_loop m relevant 0 (map (c_DocumentID \<circ> res_Chunk) (take (nat limit) results))
                         \<lparr>rs_seen = [], rs_dcg = Fin 0, rs_precisionSum = Fin 0, rs_mrr = Fin 0\<rparr>;
                  n = of_int64 (int (length relevant))
              in if rs_seen st = [] then retrieval_result (Fin 0) (Fin 0) (Fin 0) (Fin 0) (Fin 0) (Fin 1)
                 else retrieval_result (fdiv (rs_dcg st) (idealRetrievalDCG m (int (length relevant)) limit))
                        (fdiv (of_int64 (int (length (rs_seen st)))) n) (rs_mrr st) (fdiv (rs_precisionSum st) n) (Fin 1) (Fin 0))"

section \<open>Redundancy\<close>

definition normalizeDuplicateText :: "unicode_tables \<Rightarrow> string \<Rightarrow> string" where
  "normalizeDuplicateText u text = Join (FieldsFunc (\<lambda>r. IsSpace r \<or> IsPunct u r) (ToLower u text)) '' ''"

definition firstMetadataValue :: "metadata \<Rightarrow> string list \<Rightarrow> string" where
  "firstMetadataValue md keys =
     (case find (\<lambda>v. v \<noteq> []) (map (\<lambda>key. TrimSpace (gget0 [] md key)) keys) of None \<Rightarrow> [] | Some v \<Rightarrow> v)"

definition duplicateKey :: "unicode_tables \<Rightarrow> Chunk \<Rightarrow> string" where
  "duplicateKey u chunk =
     (if c_ID chunk \<noteq> [] then ''chunk:'' @ c_ID chunk
      else let key = firstMetadataValue (c_Metadata chunk) [''content_hash'', ''chunk_hash'', ''hash'', ''dedupe_key'']
           in if key \<noteq> [] then ''metadata:'' @ key
              else let text = normalizeDuplicateText u (c_Content chunk)
                   in if text = [] then []
                      else if c_DocumentID chunk \<noteq> [] then ''doc_text:'' @ c_DocumentID chunk @ NUL @ text
                      else if c_SourceURI chunk \<noteq> [] then ''source_text:'' @ c_SourceURI chunk @ NUL @ text
                      else ''text:'' @ text)"

fun duplicate_loop :: "string list \<Rightarrow> string list \<Rightarrow> nat" where
  "duplicate_loop seen [] = 0"
| "duplicate_loop seen (key # keys) =
     (if key = [] then duplicate_loop seen keys
      else if List.member seen key then duplicate_loop seen keys + 1
      else duplicate_loop (key # seen) keys)"

definition duplicateChunkCount :: "unicode_tables \<Rightarrow> SearchResult list \<Rightarrow> nat" where
  "duplicateChunkCount u results = duplicate_loop [] (map (\<lambda>r. duplicateKey u (res_Chunk r)) results)"

definition redundancyMetrics :: "unicode_tables \<Rightarrow> SearchResult list \<Rightarrow> metric_map" where
  "redundancyMetrics u results =
     (let n = int (length results); d = int (duplicateChunkCount u results)
      in [(''redundancy_rate'', average (of_int64 d) n), (''duplicate_count'', of_int64 d),
          (''deduped_top_k_count'', of_int64 (n - d))])"

section \<open>Diversity\<close>

record DiversityOptions =
  do_Alpha :: float64
  do_K :: int

definition diversityRefs :: "DiversityAnnotation \<Rightarrow> string list" where
  "diversityRefs a =
     (let refs = (\<lambda>prefix one many. map (\<lambda>i. prefix @ i) (filter (\<lambda>i. i \<noteq> []) (one # many)))
      in refs ''chunk:'' (da_ChunkID a) (da_ChunkIDs a) @ refs ''doc:'' (da_DocumentID a) (da_DocumentIDs a) @
         refs ''source:'' (da_SourceURI a) (da_SourceURIs a))"

definition add_label :: "string \<Rightarrow> string \<Rightarrow> (string, string list) gomap \<Rightarrow> (string, string list) gomap" where
  "add_label label ref m = gput ref (List.insert label (gget0 [] m ref)) m"

fun diversityLabelsByRef :: "DiversityAnnotation list \<Rightarrow> (string, string list) gomap \<times> string list \<Rightarrow> (string, string list) gomap \<times> string list" where
  "diversityLabelsByRef [] acc = acc"
| "diversityLabelsByRef (a # as) (byRef, labels) =
     (let label = (if da_Aspect a = [] then da_Subquestion a else da_Aspect a); refs = diversityRefs a
      in diversityLabelsByRef as
           (if label = [] \<or> refs = [] then (byRef, labels) else (fold (add_label label) refs byRef, List.insert label labels)))"

definition labelsForSearchResult :: "SearchResult \<Rightarrow> (string, string list) gomap \<Rightarrow> string list" where
  "labelsForSearchResult result byRef =
     (let c = res_Chunk result
      in remdups (gget0 [] byRef (''chunk:'' @ c_ID c) @ gget0 [] byRef (''doc:'' @ c_DocumentID c) @
                  gget0 [] byRef (''source:'' @ c_SourceURI c)))"

definition alphaGain :: "math_funs \<Rightarrow> string list \<Rightarrow> (string, int) gomap \<Rightarrow> float64 \<Rightarrow> float64" where
  "alphaGain m labels seen alpha =
     foldl (\<lambda>gain label. fadd gain (mf_Pow m (fsub (Fin 1) alpha) (of_int64 (gget0 0 seen label)))) (Fin 0) labels"

definition see_labels :: "string list \<Rightarrow> (string, int) gomap \<Rightarrow> (string, int) gomap" where
  "see_labels labels seen = fold (\<lambda>label s. gput label (gget0 0 s label + 1) s) labels seen"

definition rank_log :: "math_funs \<Rightarrow> nat \<Rightarrow> float64" where
  "rank_log m rank = mf_Log2 m (fadd (of_int64 (int rank)) (Fin 1))"

fun alphaDCG_loop :: "math_funs \<Rightarrow> float64 \<Rightarrow> nat \<Rightarrow> string list list \<Rightarrow> (string, int) gomap \<Rightarrow> float64 \<Rightarrow> float64" where
  "alphaDCG_loop m alpha i [] seen dcg = dcg"
| "alphaDCG_loop m alpha i (labels # rest) seen dcg =
     alphaDCG_loop m alpha (i + 1) rest (see_labels labels seen)
       (fadd dcg (fdiv (alphaGain m labels seen alpha) (rank_log m (i + 1))))"

definition alphaDCG :: "math_funs \<Rightarrow> string list list \<Rightarrow> float64 \<Rightarrow> float64" where
  "alphaDCG m ranked alpha = alphaDCG_loop m alpha 0 ranked [] (Fin 0)"

text \<open>The first candidate with the greatest positive gain, with its gain; the others in their order.\<close>

fun best_candidate :: "(string list \<Rightarrow> float64) \<Rightarrow> string list list \<Rightarrow> string list list \<Rightarrow> (string list \<times> string list list) option \<Rightarrow> float64 \<Rightarrow>
  ((string list \<times> string list list) option \<times> float64)" where
  "best_candidate gain before [] best bestGain = (best, bestGain)"
| "best_candidate gain before (c # cs) best bestGain =
     (if flt bestGain (gain c) then best_candidate gain (before @ [c]) cs (Some (c, before @ cs)) (gain c)
      else best_candidate gain (before @ [c]) cs best bestGain)"

text \<open>The rounds of the greedy choice: \<open>n\<close> ranks are left, the next is \<open>rank\<close>.\<close>

fun greedy_loop :: "math_funs \<Rightarrow> float64 \<Rightarrow> nat \<Rightarrow> nat \<Rightarrow> string list list \<Rightarrow> (string, int) gomap \<Rightarrow> float64 \<Rightarrow> float64" where
  "greedy_loop m alpha 0 rank candidates seen dcg = dcg"
| "greedy_loop m alpha (Suc n) rank candidates seen dcg =
     (case best_candidate (\<lambda>labels. alphaGain m labels seen alpha) [] candidates None (Fin 0) of
        (None, _) \<Rightarrow> dcg
      | (Some (labels, rest), bestGain) \<Rightarrow>
          greedy_loop m alpha n (rank + 1) rest (see_labels labels seen) (fadd dcg (fdiv bestGain (rank_log m rank))))"

definition greedyIdealAlphaDCG :: "math_funs \<Rightarrow> string list list \<Rightarrow> int \<Rightarrow> float64 \<Rightarrow> float64" where
  "greedyIdealAlphaDCG m candidates k alpha =
     (if k \<le> 0 \<or> candidates = [] then Fin 0 else greedy_loop m alpha (nat k) 1 candidates [] (Fin 0))"

definition ScoreDiversity ::
  "math_funs \<Rightarrow> SearchResult list \<Rightarrow> DiversityAnnotation list \<Rightarrow> DiversityOptions \<Rightarrow> metric_map option" where
  "ScoreDiversity m results annotations opts =
     (case diversityLabelsByRef annotations ([], []) of
        (byRef, allLabels) \<Rightarrow>
          if allLabels = [] then None
          else let k = (if do_K opts \<le> 0 \<or> do_K opts > int (length results) then int (length results) else do_K opts);
                   ranked = map (\<lambda>r. labelsForSearchResult r byRef) (take (nat k) results);
                   covered = remdups (concat ranked);
                   alpha = (if fle (do_Alpha opts) (Fin 0) \<or> fle (Fin 1) (do_Alpha opts) then Fin (1 / 2) else do_Alpha opts);
                   ideal = greedyIdealAlphaDCG m (map snd byRef) k alpha;
                   ndcg = (if flt (Fin 0) ideal then fdiv (alphaDCG m ranked alpha) ideal else Fin 0)
               in Some [(''alpha_ndcg'', ndcg),
                        (''aspect_coverage'', fdiv (of_int64 (int (length covered))) (of_int64 (int (length allLabels))))])"

section \<open>Scores of an item\<close>

definition contextRecall :: "string list \<Rightarrow> QueryResponse \<Rightarrow> float64" where
  "contextRecall relevantDocIDs resp =
     (if relevantDocIDs = [] then if qs_RetrievedChunks resp \<noteq> [] then Fin 1 else Fin 0
      else let relevant = stringSet relevantDocIDs;
               seen = remdups (filter (List.member relevant) (map (c_DocumentID \<circ> res_Chunk) (qs_RetrievedChunks resp)))
           in fdiv (of_int64 (int (length seen))) (of_int64 (int (length relevant))))"

definition citationPrecision :: "string list \<Rightarrow> QueryResponse \<Rightarrow> float64" where
  "citationPrecision relevantDocIDs resp =
     (if qs_Citations resp = [] then Fin 0
      else if relevantDocIDs = [] then Fin 1
      else let hits = length (filter (\<lambda>c. List.member (stringSet relevantDocIDs) (ci_DocumentID c)) (qs_Citations resp))
           in fdiv (of_int64 (int hits)) (of_int64 (int (length (qs_Citations resp)))))"

definition matches :: "unicode_tables \<Rightarrow> string \<Rightarrow> string \<Rightarrow> bool" where
  "matches u answer groundTruth \<longleftrightarrow>
     list_ex (\<lambda>term. length term > 3 \<and> Contains (ToLower u answer) term) (Fields (ToLower u groundTruth))"

definition put_metrics :: "metric_map \<Rightarrow> metric_map \<Rightarrow> metric_map" where
  "put_metrics new metrics = fold (\<lambda>(name, v). gput name v) new metrics"

definition ScoreItemWithOptions :: "math_funs \<Rightarrow> unicode_tables \<Rightarrow> DatasetItem \<Rightarrow> QueryResponse \<Rightarrow> int \<Rightarrow> metric_map" where
  "ScoreItemWithOptions m u item resp topK =
     (let answerAccuracy = boolScore (matches u (qs_Answer resp) (it_GroundTruth item));
          metrics = [(''answer_accuracy'', answerAccuracy), (''accuracy'', answerAccuracy),
            (''citation_hit_rate'', boolScore (qs_Citations resp \<noteq> [])),
            (''context_recall'', contextRecall (it_RelevantDocIDs item) resp),
            (''citation_precision'', citationPrecision (it_RelevantDocIDs item) resp),
            (''latency_ms'', of_int64 (qs_LatencyMS resp)), (''cache_hit'', boolScore (qs_CacheStatus resp = ''hit''))];
          metrics = put_metrics (retrievalMetrics m (it_RelevantDocIDs item) (qs_RetrievedChunks resp) topK) metrics;
          metrics = put_metrics (redundancyMetrics u (qs_RetrievedChunks resp)) metrics
      in case ScoreDiversity m (qs_RetrievedChunks resp) (it_DiversityAnnotations item) \<lparr>do_Alpha = Fin 0, do_K = topK\<rparr> of
           None \<Rightarrow> metrics
         | Some diversity \<Rightarrow> put_metrics diversity metrics)"

definition ScoreItem :: "math_funs \<Rightarrow> unicode_tables \<Rightarrow> DatasetItem \<Rightarrow> QueryResponse \<Rightarrow> metric_map" where
  "ScoreItem m u item resp = ScoreItemWithOptions m u item resp 0"

section \<open>Percentiles and weights\<close>

definition p95_index :: "nat \<Rightarrow> int" where
  "p95_index n = (case fmul (of_int64 (int n - 1)) (fround (95 / 100)) of Fin x \<Rightarrow> trunc x | _ \<Rightarrow> 0)"

definition p95 :: "int list \<Rightarrow> int" where
  "p95 values = (if values = [] then 0 else sort_by (<) values ! nat (p95_index (length values)))"

record weightedLatency =
  wl_value :: int
  wl_weight :: float64

fun p95_scan :: "float64 \<Rightarrow> float64 \<Rightarrow> weightedLatency list \<Rightarrow> int \<Rightarrow> int" where
  "p95_scan threshold seen [] lastValue = lastValue"
| "p95_scan threshold seen (v # vs) lastValue =
     (if fle (wl_weight v) (Fin 0) then p95_scan threshold seen vs lastValue
      else let seen = fadd seen (wl_weight v)
           in if fle threshold seen then wl_value v else p95_scan threshold seen vs lastValue)"

text \<open>Latencies that are equal are taken in the order they came in.\<close>

definition weightedP95 :: "weightedLatency list \<Rightarrow> int" where
  "weightedP95 values =
     (if values = [] then 0
      else let cp = sort_by (\<lambda>a b. wl_value a < wl_value b) values;
               n = foldl (\<lambda>s v. if flt (Fin 0) (wl_weight v) then fadd s (wl_weight v) else s) (Fin 0) cp
           in if fle n (Fin 0) then 0 else p95_scan (fmul n (fround (95 / 100))) (Fin 0) cp (wl_value (last cp)))"

definition itemWeight :: "DatasetItem \<Rightarrow> float64" where
  "itemWeight item = it_Weight (NormalizeItemMetadata item)"

definition metricEligible :: "string \<Rightarrow> DatasetItem \<Rightarrow> bool" where
  "metricEligible name item0 =
     (let item = NormalizeItemMetadata item0
      in if List.member [''answer_accuracy'', ''accuracy'', PrimaryMetricDeterministicAnswerMatch, ''hit_rate''] name
         then TrimSpace (it_GroundTruth item) \<noteq> []
         else if List.member [''context_recall'', ''citation_precision'', ''ndcg_at_k'', ''recall_at_k'', ''mrr'', ''map'', ''coverage'',
                ''retrieval_failure_rate''] name
         then it_RelevantDocIDs item \<noteq> []
         else if List.member [''alpha_ndcg'', ''aspect_coverage''] name then it_DiversityAnnotations item \<noteq> []
         else if name = ''qag_claim_coverage'' then it_ExpectedEvidence item \<noteq> []
         else True)"

definition effectiveSampleCount :: "DatasetItem list \<Rightarrow> float64" where
  "effectiveSampleCount items =
     (let (n, squared) = foldl (\<lambda>(n, sq) item. (fadd n (itemWeight item), fadd sq (fmul (itemWeight item) (itemWeight item))))
            (Fin 0, Fin 0) items
      in if feq squared (Fin 0) then Fin 0 else fdiv (fmul n n) squared)"

definition splitWeight :: "DatasetItem list \<Rightarrow> float64" where
  "splitWeight items = foldl (\<lambda>s item. fadd s (itemWeight item)) (Fin 0) items"

record SplitSummary =
  sp_UnweightedSampleCount :: int
  sp_WeightedSampleCount :: float64

definition summarizeSplits :: "DatasetItem list \<Rightarrow> (string, SplitSummary) gomap" where
  "summarizeSplits items =
     fold (\<lambda>item0 summary.
         let item = NormalizeItemMetadata item0;
             entry = gget0 \<lparr>sp_UnweightedSampleCount = 0, sp_WeightedSampleCount = Fin 0\<rparr> summary (it_Split item)
         in gput (it_Split item) \<lparr>sp_UnweightedSampleCount = sp_UnweightedSampleCount entry + 1,
              sp_WeightedSampleCount = fadd (sp_WeightedSampleCount entry) (it_Weight item)\<rparr> summary) items []"

text \<open>\<^verbatim>\<open>stableJSONHash([]string{runID, name})\<close> and the seed computed from its characters in \<^verbatim>\<open>uint64\<close>.\<close>

definition sha256_text :: "string \<Rightarrow> string" where
  "sha256_text body = ''sha256:'' @ hex_encode (sha256_Sum body)"

definition stableMetricSeed :: "string \<Rightarrow> string \<Rightarrow> 64 word" where
  "stableMetricSeed runID name =
     foldl (\<lambda>seed r. seed * 131 + of_nat (fst r)) 0 (runes (sha256_text (json_text (JArray [JString runID, JString name]))))"

end
