(* ===== verification/EvalScoreProps.thy ===== *)
theory EvalScoreProps
  imports EvalScore
begin

text \<open>
  Bounds of the scores in \<^verbatim>\<open>float64\<close> arithmetic: the retrieval metrics lie between zero and one, however
  the sums are rounded, while the diversity metric can exceed one.
\<close>

section \<open>Sums of values of at most one\<close>

definition unit_value :: "float64 \<Rightarrow> bool" where
  "unit_value x \<longleftrightarrow> (\<exists>y. x = Fin y \<and> 0 \<le> y \<and> y \<le> 1)"

text \<open>A value that rounding has produced, between zero and \<open>n\<close>.\<close>

definition sum_value :: "nat \<Rightarrow> float64 \<Rightarrow> bool" where
  "sum_value n x \<longleftrightarrow> (\<exists>a. x = Fin a \<and> 0 \<le> a \<and> a \<le> of_nat n \<and> fround a = Fin a)"

lemma sum_value_0 [simp]: "sum_value n (Fin 0)"
  by (simp add: sum_value_def)

lemma unit_value_simps [simp]: "unit_value (Fin 0)" "unit_value (Fin 1)"
  by (simp_all add: unit_value_def)

lemma of_nat_exact: "n \<le> 2 ^ 53 \<Longrightarrow> fround (of_nat n) = Fin (of_nat n)"
  using of_int64_exact [of "int n"] by (simp add: of_int64_def)

lemma sum_value_step:
  assumes "sum_value n x" and "unit_value y" and "n < 2 ^ 53"
  shows "sum_value (Suc n) (fadd x y) \<and> x \<le> fadd x y"
proof -
  obtain a b where a: "x = Fin a" "0 \<le> a" "a \<le> of_nat n" "fround a = Fin a" and b: "y = Fin b" "0 \<le> b" "b \<le> 1"
    using assms(1,2) by (auto simp: sum_value_def unit_value_def)
  have lo: "Fin a \<le> fround (a + b)" using fround_mono [of a "a + b"] a(4) b(2) by simp
  have "fround (a + b) \<le> fround (of_nat (Suc n))" using a(3) b(3) by (intro fround_mono) simp
  then have hi: "fround (a + b) \<le> Fin (of_nat (Suc n))" using of_nat_exact [of "Suc n"] assms(3) by simp
  obtain c where c: "fround (a + b) = Fin c" using lo hi by (cases "fround (a + b)") auto
  with lo hi a(2) have "a \<le> c" "0 \<le> c" "c \<le> of_nat (Suc n)" by auto
  with c fround_fround [OF c] show ?thesis by (simp add: a(1) b(1) sum_value_def)
qed

lemma sum_value_quotient:
  assumes "sum_value h x" and "h \<le> n" and "0 < n" and "n \<le> 2 ^ 53"
  shows "unit_value (fdiv x (of_int64 (int n)))"
proof -
  obtain a where a: "x = Fin a" "0 \<le> a" "a \<le> of_nat h" using assms(1) by (auto simp: sum_value_def)
  have "(of_nat h :: rat) \<le> of_nat n" using assms(2) by simp
  with a have "0 \<le> a / of_nat n" "a / of_nat n \<le> 1" using assms(3) by (simp_all add: divide_le_eq)
  with fround_unit of_int64_exact [of "int n"] assms(3,4) a(1) show ?thesis by (auto simp: unit_value_def)
qed

lemma unit_quotient:
  assumes "x = Fin a" and "y = Fin b" and "0 \<le> a" and "a \<le> b" and "0 < b"
  shows "unit_value (fdiv x y)"
  using fround_unit [of "a / b"] assms by (auto simp: unit_value_def)

section \<open>Discounts\<close>

text \<open>
  What the proofs use of \<^verbatim>\<open>math.Log2\<close>: on the integers from two on it is finite, at least one, and does not
  decrease.
\<close>

definition log2_laws :: "math_funs \<Rightarrow> bool" where
  "log2_laws m \<longleftrightarrow>
     (\<forall>n. 2 \<le> n \<longrightarrow> n \<le> 2 ^ 53 \<longrightarrow> (\<exists>x. mf_Log2 m (of_int64 n) = Fin x \<and> 1 \<le> x)) \<and>
     (\<forall>a b. 2 \<le> a \<longrightarrow> a \<le> b \<longrightarrow> b \<le> 2 ^ 53 \<longrightarrow> mf_Log2 m (of_int64 a) \<le> mf_Log2 m (of_int64 b))"

lemma log2_value:
  assumes "log2_laws m" and "1 \<le> r" and "r < 2 ^ 53"
  obtains x where "mf_Log2 m (of_int64 (int r + 1)) = Fin x" "1 \<le> x"
proof -
  have "2 \<le> int r + 1" "int r + 1 \<le> 2 ^ 53" using assms(2,3) by auto
  then show ?thesis using assms(1) that unfolding log2_laws_def by blast
qed

lemma rankDiscount_unit: "log2_laws m \<Longrightarrow> 1 \<le> r \<Longrightarrow> r < 2 ^ 53 \<Longrightarrow> unit_value (rankDiscount m r)"
  by (erule (2) log2_value) (use unit_quotient [of "Fin 1" 1] in \<open>simp add: rankDiscount_def\<close>)

lemma rankDiscount_antitone:
  assumes "log2_laws m" and "1 \<le> r" and "r \<le> r'" and "r' < 2 ^ 53"
  shows "rankDiscount m r' \<le> rankDiscount m r"
proof -
  obtain x where x: "mf_Log2 m (of_int64 (int r + 1)) = Fin x" "1 \<le> x" using assms by (elim log2_value [of m r]) auto
  obtain y where y: "mf_Log2 m (of_int64 (int r' + 1)) = Fin y" "1 \<le> y" using assms by (elim log2_value [of m r']) auto
  have "2 \<le> int r + 1" "int r + 1 \<le> int r' + 1" "int r' + 1 \<le> 2 ^ 53" using assms(2-4) by auto
  then have "mf_Log2 m (of_int64 (int r + 1)) \<le> mf_Log2 m (of_int64 (int r' + 1))"
    using assms(1) unfolding log2_laws_def by blast
  then have "x \<le> y" using x(1) y(1) by simp
  then have "1 / y \<le> 1 / x" using x(2) by (simp add: frac_le)
  with x y show ?thesis by (simp add: rankDiscount_def fround_mono)
qed

lemma ideal_loop_sum:
  "log2_laws m \<Longrightarrow> n < 2 ^ 53 \<Longrightarrow> sum_value n (ideal_loop m n)"
proof (induction n)
  case (Suc n)
  then show ?case using sum_value_step [of n "ideal_loop m n" "rankDiscount m (Suc n)"] rankDiscount_unit [of m "Suc n"] by simp
qed simp

lemma ideal_loop_mono:
  "log2_laws m \<Longrightarrow> h \<le> n \<Longrightarrow> n < 2 ^ 53 \<Longrightarrow> ideal_loop m h \<le> ideal_loop m n"
proof (induction n)
  case (Suc n)
  show ?case
  proof (cases "h = Suc n")
    case False
    with Suc have "ideal_loop m h \<le> ideal_loop m n" by simp
    also have "\<dots> \<le> ideal_loop m (Suc n)"
      using sum_value_step [of n "ideal_loop m n" "rankDiscount m (Suc n)"] ideal_loop_sum [of m n] rankDiscount_unit [of m "Suc n"] Suc.prems
      by simp
    finally show ?thesis .
  qed simp
qed simp

section \<open>The loop over the results\<close>

definition hits_ok :: "math_funs \<Rightarrow> string list \<Rightarrow> nat \<Rightarrow> retrieval_state \<Rightarrow> bool" where
  "hits_ok m relevant i st \<longleftrightarrow>
     (let h = length (rs_seen st)
      in distinct (rs_seen st) \<and> set (rs_seen st) \<subseteq> set relevant \<and> h \<le> i \<and> sum_value h (rs_dcg st) \<and>
         rs_dcg st \<le> ideal_loop m h \<and> sum_value h (rs_precisionSum st) \<and> unit_value (rs_mrr st))"

lemma count_hit_ok:
  assumes "log2_laws m" and "hits_ok m relevant i st" and "d \<in> set relevant" and "d \<notin> set (rs_seen st)" and "i + 1 < 2 ^ 53"
  shows "hits_ok m relevant (i + 1) (count_hit m (i + 1) d st)"
proof -
  let ?h = "length (rs_seen st)"
  have st: "distinct (rs_seen st)" "set (rs_seen st) \<subseteq> set relevant" "?h \<le> i" "sum_value ?h (rs_dcg st)"
    "rs_dcg st \<le> ideal_loop m ?h" "sum_value ?h (rs_precisionSum st)" "unit_value (rs_mrr st)"
    using assms(2) by (simp_all add: hits_ok_def Let_def)
  have h: "?h < 2 ^ 53" using st(3) assms(5) by simp
  note disc = rankDiscount_unit [OF assms(1), of "i + 1"]
  have "fadd (rs_dcg st) (rankDiscount m (i + 1)) \<le> fadd (ideal_loop m ?h) (rankDiscount m (Suc ?h))"
  proof (rule fadd_mono [OF st(5)])
    show "rankDiscount m (i + 1) \<le> rankDiscount m (Suc ?h)"
      by (rule rankDiscount_antitone [OF assms(1)]) (use st(3) assms(5) in auto)
    show "fadd (rs_dcg st) (rankDiscount m (i + 1)) \<noteq> NaN"
      using sum_value_step [OF st(4) _ h] disc assms(5) by (force simp: sum_value_def)
  qed
  moreover have "sum_value (Suc ?h) (fadd (rs_dcg st) (rankDiscount m (i + 1)))"
    using sum_value_step [OF st(4) _ h] disc assms(5) by simp
  moreover have "unit_value (fdiv (of_int64 (int (Suc ?h))) (of_int64 (int (i + 1))))"
    using fdiv_unit [of "int (Suc ?h)" "int (i + 1)"] st(3) assms(5) by (auto simp: unit_value_def)
  then have "sum_value (Suc ?h) (fadd (rs_precisionSum st) (fdiv (of_int64 (int (Suc ?h))) (of_int64 (int (i + 1)))))"
    using sum_value_step [OF st(6) _ h] by blast
  moreover have "unit_value (fdiv (Fin 1) (of_int64 (int (i + 1))))"
    using fdiv_unit [of 1 "int (i + 1)"] assms(5) by (auto simp: unit_value_def of_int64_def)
  ultimately show ?thesis
    using st assms(3,4) by (simp add: hits_ok_def count_hit_def Let_def)
qed

lemma retrieval_loop_ok:
  "log2_laws m \<Longrightarrow> hits_ok m relevant i st \<Longrightarrow> i + length ds < 2 ^ 53 \<Longrightarrow>
     hits_ok m relevant (i + length ds) (retrieval_loop m relevant i ds st)"
proof (induction ds arbitrary: i st)
  case (Cons d ds)
  have "hits_ok m relevant (i + 1) st" using Cons.prems(2) by (simp add: hits_ok_def Let_def)
  moreover have "hits_ok m relevant (i + 1) (count_hit m (i + 1) d st)" if "d \<in> set relevant" "d \<notin> set (rs_seen st)"
    using count_hit_ok [OF Cons.prems(1,2) that] Cons.prems(3) by simp
  ultimately show ?case using Cons.IH [of "i + 1"] Cons.prems(1,3) by simp
qed simp

lemma retrieval_loop_start:
  assumes "log2_laws m" and "length ds < 2 ^ 53"
  shows "hits_ok m relevant (length ds)
    (retrieval_loop m relevant 0 ds \<lparr>rs_seen = [], rs_dcg = Fin 0, rs_precisionSum = Fin 0, rs_mrr = Fin 0\<rparr>)"
  using retrieval_loop_ok [OF assms(1), of relevant 0 "\<lparr>rs_seen = [], rs_dcg = Fin 0, rs_precisionSum = Fin 0, rs_mrr = Fin 0\<rparr>" ds] assms(2)
  by (simp add: hits_ok_def Let_def)

lemma ndcg_unit:
  assumes "log2_laws m" and "sum_value h dcg" and "dcg \<le> ideal_loop m h"
    and "int h \<le> n" and "int h \<le> limit" and "n < 2 ^ 53" and "limit > 0"
  shows "unit_value (fdiv dcg (idealRetrievalDCG m n limit))"
proof -
  let ?k = "nat (retrievalLimit n limit)"
  have k: "h \<le> ?k" "?k < 2 ^ 53" using assms(4-7) by (auto simp: retrievalLimit_def nat_less_iff)
  obtain b where b: "ideal_loop m ?k = Fin b" "0 \<le> b" using ideal_loop_sum [OF assms(1) k(2)] by (auto simp: sum_value_def)
  obtain a where a: "dcg = Fin a" "0 \<le> a" using assms(2) by (auto simp: sum_value_def)
  have "a \<le> b" using order_trans [OF assms(3) ideal_loop_mono [OF assms(1) k]] a(1) b(1) by simp
  then show ?thesis
    using unit_quotient [of dcg a "Fin b" b] unit_quotient [of dcg a "Fin 1" 1] a b
    by (cases "b = 0") (auto simp: idealRetrievalDCG_def Let_def)
qed

text \<open>
  C32 (bounds). Every retrieval metric is a number between zero and one: normalised discounted gain, recall,
  reciprocal rank, average precision, coverage and failure rate, for any ranked results, any set of
  relevant documents and any cutoff, in the rounded arithmetic of the program. Of \<^verbatim>\<open>math.Log2\<close> it is assumed
  that it is finite, at least one and not decreasing on the integers from two.
\<close>

theorem retrieval_metrics_unit:
  assumes "log2_laws m" and "length results < 2 ^ 53" and "length relevantDocIDs < 2 ^ 53"
    and "(name, x) \<in> set (retrievalMetrics m relevantDocIDs results k)"
  shows "\<exists>y. x = Fin y \<and> 0 \<le> y \<and> y \<le> 1"
proof -
  let ?rel = "stringSet relevantDocIDs"
  let ?limit = "retrievalLimit (int (length results)) k"
  let ?ds = "map (c_DocumentID \<circ> res_Chunk) (take (nat ?limit) results)"
  let ?st = "retrieval_loop m ?rel 0 ?ds \<lparr>rs_seen = [], rs_dcg = Fin 0, rs_precisionSum = Fin 0, rs_mrr = Fin 0\<rparr>"
  let ?h = "length (rs_seen ?st)"
  have rel: "length ?rel < 2 ^ 53" unfolding stringSet_def by (rule le_less_trans [OF length_remdups_leq assms(3)])
  have ds: "length ?ds < 2 ^ 53" "int (length ?ds) \<le> ?limit" using assms(2) by (auto simp: retrievalLimit_def)
  have st: "distinct (rs_seen ?st)" "set (rs_seen ?st) \<subseteq> set ?rel" "?h \<le> length ?ds" "sum_value ?h (rs_dcg ?st)"
    "rs_dcg ?st \<le> ideal_loop m ?h" "sum_value ?h (rs_precisionSum ?st)" "unit_value (rs_mrr ?st)"
    using retrieval_loop_start [OF assms(1) ds(1), of ?rel] by (simp_all only: hits_ok_def Let_def)
  have hn: "?h \<le> length ?rel"
    using st(1,2) by (metis card_mono distinct_card distinct_remdups finite_set stringSet_def)
  have "unit_value x"
  proof (cases "?rel = [] \<or> rs_seen ?st = []")
    case True
    with assms(4) show ?thesis by (auto simp: retrievalMetrics_def Let_def retrieval_result_def split: if_splits)
  next
    case False
    then have "0 < ?h" and pos1: "0 < length ?rel" by simp_all
    with ds(2) st(3) have pos: "0 < length ?rel" "?limit > 0" by linarith+
    have "unit_value (fdiv (rs_dcg ?st) (idealRetrievalDCG m (int (length ?rel)) ?limit))"
      by (rule ndcg_unit [OF assms(1) st(4,5)]) (use hn st(3) ds(2) rel pos(2) in auto)
    moreover have "unit_value (fdiv (of_int64 (int ?h)) (of_int64 (int (length ?rel))))"
      using fdiv_unit [of "int ?h" "int (length ?rel)"] hn rel pos(1) by (auto simp: unit_value_def)
    moreover have "unit_value (fdiv (rs_precisionSum ?st) (of_int64 (int (length ?rel))))"
      by (rule sum_value_quotient [OF st(6) hn pos(1)]) (use rel in simp)
    ultimately show ?thesis
      using assms(4) st(7) False by (auto simp: retrievalMetrics_def Let_def retrieval_result_def)
  qed
  then show ?thesis by (simp add: unit_value_def)
qed

text \<open>A base-two logarithm that rounds down.\<close>

definition floor_math :: math_funs where
  "floor_math =
     \<lparr>mf_Log2 = (\<lambda>x. case x of Fin r \<Rightarrow> Fin (of_int (ilog2 r)) | _ \<Rightarrow> x),
      mf_Pow = (\<lambda>x y. case (x, y) of (Fin a, Fin b) \<Rightarrow> fround (a ^ nat (trunc b)) | _ \<Rightarrow> NaN)\<rparr>"

lemma floor_math_laws: "log2_laws floor_math"
proof -
  have log: "mf_Log2 floor_math (of_int64 n) = Fin (of_int (ilog2 (of_int n)))" if "2 \<le> n" "n \<le> 2 ^ 53" for n
    using of_int64_exact [of n] that by (simp add: floor_math_def)
  have mono: "ilog2 (of_int a) \<le> ilog2 (of_int b)" if "2 \<le> a" "a \<le> b" for a b :: int
    using that by (intro ilog2_mono) auto
  have "ilog2 2 = 1"
  proof -
    have b: "(2 :: rat) powi ilog2 2 \<le> 2" "2 < (2 :: rat) powi (ilog2 2 + 1)" using ilog2_bounds [of 2] by simp_all
    have "(2 :: rat) powi 2 \<le> 2 powi ilog2 2" if "2 \<le> ilog2 2" using that by (intro power_int_increasing) auto
    moreover have "(2 :: rat) powi (ilog2 2 + 1) \<le> 2 powi 1" if "ilog2 2 \<le> 0" using that by (intro power_int_increasing) auto
    ultimately show ?thesis using b by (cases "2 \<le> ilog2 2"; cases "ilog2 2 \<le> 0") auto
  qed
  then have "1 \<le> ilog2 (of_int n)" if "2 \<le> n" for n :: int using mono [of 2 n] that by simp
  then show ?thesis unfolding log2_laws_def using log mono by force
qed

lemma retrievalMetrics_keys: "\<exists>a b c d e f. retrievalMetrics m rel results k = retrieval_result a b c d e f"
  unfolding retrievalMetrics_def Let_def by (simp split: if_split) blast

definition one_result :: SearchResult where
  "one_result =
     \<lparr>res_Chunk = \<lparr>c_ID = ''c'', c_TenantID = [], c_KnowledgeBaseID = [], c_DocumentID = ''d'', c_Content = [], c_ContextualText = [],
        c_SourceURI = [], c_Page = 0, c_Section = [], c_Offset = 0, c_Vector = [], c_IngestionJobID = [], c_Metadata = []\<rparr>,
      res_Score = Fin 1, res_Rank = 1, res_From = []\<rparr>"

theorem retrieval_metrics_unit_witness:
  "\<exists>x. (''ndcg_at_k'', x) \<in> set (retrievalMetrics floor_math [''d'', ''e''] [one_result] 5) \<and>
     (\<exists>y. x = Fin y \<and> 0 \<le> y \<and> y \<le> 1)"
proof -
  obtain x where x: "(''ndcg_at_k'', x) \<in> set (retrievalMetrics floor_math [''d'', ''e''] [one_result] 5)"
    using retrievalMetrics_keys [of floor_math "[''d'', ''e'']" "[one_result]" 5] by (auto simp: retrieval_result_def)
  with retrieval_metrics_unit [OF floor_math_laws _ _ x] show ?thesis by auto
qed

section \<open>Diversity\<close>

definition aspect_of :: "string \<Rightarrow> string \<Rightarrow> string \<Rightarrow> DiversityAnnotation" where
  "aspect_of a chunk doc =
     \<lparr>da_Aspect = a, da_Subquestion = [], da_ChunkID = chunk, da_ChunkIDs = [], da_DocumentID = doc, da_DocumentIDs = [],
      da_SourceURI = [], da_SourceURIs = []\<rparr>"

text \<open>
  The ideal ranking is made of the annotated references, while one result collects the aspects of its chunk,
  its document and its source: with one aspect annotated on the chunk and another on the document, the
  single result scores twice the ideal.
\<close>

lemma alpha_ndcg_exceeds_one:
  assumes "\<And>x. mf_Pow m x (Fin 0) = Fin 1" and "mf_Log2 m (Fin 2) = Fin 1"
  shows "ScoreDiversity m [one_result] [aspect_of ''price'' ''c'' [], aspect_of ''size'' [] ''d''] \<lparr>do_Alpha = Fin 0, do_K = 0\<rparr> =
    Some [(''alpha_ndcg'', Fin 2), (''aspect_coverage'', Fin 1)]"
proof -
  have int: "of_int64 0 = Fin 0" "of_int64 1 = Fin 1" "of_int64 2 = Fin 2" "fround 2 = Fin 2"
    using of_int64_exact [of 2] by (simp_all add: of_int64_def)
  show ?thesis
    by (simp add: ScoreDiversity_def one_result_def aspect_of_def diversityRefs_def add_label_def gget0_def labelsForSearchResult_def
        alphaDCG_def alphaGain_def greedyIdealAlphaDCG_def see_labels_def rank_log_def assms int Let_def fle_def)
qed

end
