(* ===== verification/EvalStats.thy ===== *)
theory EvalStats
  imports EvalScore
begin

text \<open>
  Summaries of an evaluation run and their comparison: weighted means with confidence intervals
  (\<^verbatim>\<open>eval/statistics.go\<close>), paired comparison of two runs (\<^verbatim>\<open>eval/paired_comparison.go\<close>), whether two runs are
  comparable at all (\<^verbatim>\<open>eval/comparability.go\<close>), the frozen dataset (\<^verbatim>\<open>eval/reproducibility.go\<close>), and the
  gate on a hold-out split (\<^verbatim>\<open>eval/holdout_gate.go\<close>).

  \<open>intn seed n i\<close> is the value of call number \<open>i\<close> of \<^verbatim>\<open>Intn(n)\<close> on the source with that seed. The JSON text of
  a dataset is an argument.
\<close>

type_synonym intn_source = "int \<Rightarrow> nat \<Rightarrow> nat \<Rightarrow> nat"

section \<open>Data\<close>

record StatisticalConfidenceInterval =
  ci_Low :: float64
  ci_High :: float64
  ci_ConfidenceLevel :: float64
  ci_Method :: string

record MetricSummary =
  ms_Value :: float64
  ms_EligibleSampleCount :: int
  ms_TotalSampleCount :: int
  ms_AnnotationCoverage :: float64
  ms_WeightedSampleCount :: float64
  ms_EffectiveSampleCount :: float64
  ms_ConfidenceInterval :: "StatisticalConfidenceInterval option"

record metricObservation =
  ob_value :: float64
  ob_weight :: float64

record DatasetSnapshot =
  dn_DatasetID :: string
  dn_Version :: string
  dn_Split :: DatasetSplit
  dn_Items :: "DatasetItem list"
  dn_ContentHash :: string
  dn_ItemCount :: int

record EvaluationManifest =
  em_SchemaVersion :: string
  em_CodeVersion :: string
  em_CodeCommit :: string
  em_Dataset :: DatasetSnapshot
  em_KnowledgeBaseID :: string
  em_ProjectID :: string
  em_Profile :: Profile
  em_TopK :: int
  em_ScopedShadowItemID :: string
  em_JudgeConfigHash :: string
  em_QAGConfigHash :: string
  em_PairwiseConfigHash :: string

text \<open>Of a run, the fields that comparison and gate read.\<close>

record RunResult =
  rr_ID :: string
  rr_Total :: int
  rr_WeightedSampleCount :: float64
  rr_UnweightedSampleCount :: int
  rr_Split :: DatasetSplit
  rr_MissingSplit :: bool
  rr_Metrics :: metric_map
  rr_DatasetSnapshot :: DatasetSnapshot
  rr_Manifest :: EvaluationManifest
  rr_EvaluationFingerprint :: string

record EvaluationItemDetail =
  ed_RunID :: string
  ed_DatasetItemID :: string
  ed_Answer :: string
  ed_Metrics :: metric_map

section \<open>Intervals\<close>

definition defaultBootstrapSamples :: nat where
  "defaultBootstrapSamples = 2000"

definition positive_weight :: "float64 \<Rightarrow> float64" where
  "positive_weight w = (if fle w (Fin 0) then Fin 1 else w)"

definition isBinary :: "float64 list \<Rightarrow> bool" where
  "isBinary values \<longleftrightarrow> list_all (\<lambda>v. feq v (Fin 0) \<or> feq v (Fin 1)) values"

definition sum_floats :: "float64 list \<Rightarrow> float64" where
  "sum_floats values = foldl fadd (Fin 0) values"

text \<open>\<^verbatim>\<open>sort.Float64s\<close>: not-a-number comes first.\<close>

definition float_before :: "float64 \<Rightarrow> float64 \<Rightarrow> bool" where
  "float_before x y \<longleftrightarrow> flt x y \<or> x = NaN \<and> y \<noteq> NaN"

definition sort_floats :: "float64 list \<Rightarrow> float64 list" where
  "sort_floats xs = sort_by float_before xs"

definition fmax :: "float64 \<Rightarrow> float64 \<Rightarrow> float64" where
  "fmax x y = (if x = PosInf \<or> y = PosInf then PosInf else if x = NaN \<or> y = NaN then NaN else if flt x y then y else x)"

definition fmin :: "float64 \<Rightarrow> float64 \<Rightarrow> float64" where
  "fmin x y = (if x = NegInf \<or> y = NegInf then NegInf else if x = NaN \<or> y = NaN then NaN else if flt y x then y else x)"

text \<open>The constant \<^verbatim>\<open>z\<close>, and \<^verbatim>\<open>z*z\<close>, which the compiler multiplies exactly and rounds once.\<close>

definition wilson_z :: float64 where
  "wilson_z = fround (1959963984540054 / 10 ^ 15)"

definition wilson_zz :: float64 where
  "wilson_zz = fround ((1959963984540054 / 10 ^ 15) ^ 2)"

definition wilsonInterval :: "float64 \<Rightarrow> float64 \<Rightarrow> StatisticalConfidenceInterval option" where
  "wilsonInterval successes n =
     (if fle n (Fin 0) then None
      else let z = wilson_z; zz = wilson_zz; p = fdiv successes n;
               denominator = fadd (Fin 1) (fdiv zz n);
               center = fdiv (fadd p (fdiv zz (fmul (Fin 2) n))) denominator;
               margin = fdiv (fmul z (fsqrt (fdiv (fadd (fmul p (fsub (Fin 1) p)) (fdiv zz (fmul (Fin 4) n))) n))) denominator
           in Some \<lparr>ci_Low = fmax (Fin 0) (fsub center margin), ci_High = fmin (Fin 1) (fadd center margin),
                    ci_ConfidenceLevel = fround (95 / 100), ci_Method = ''wilson''\<rparr>)"

text \<open>The two positions of the sorted resamples, \<^verbatim>\<open>int(math.Floor(...))\<close> and \<^verbatim>\<open>int(math.Ceil(...))\<close>.\<close>

definition low_index :: "nat \<Rightarrow> nat" where
  "low_index n = (case fmul (of_int64 (int n - 1)) (fround (25 / 1000)) of Fin x \<Rightarrow> nat \<lfloor>x\<rfloor> | _ \<Rightarrow> 0)"

definition high_index :: "nat \<Rightarrow> nat" where
  "high_index n = (case fmul (of_int64 (int n - 1)) (fround (975 / 1000)) of Fin x \<Rightarrow> nat \<lceil>x\<rceil> | _ \<Rightarrow> 0)"

definition bootstrap_interval :: "float64 list \<Rightarrow> StatisticalConfidenceInterval" where
  "bootstrap_interval samples =
     (let s = sort_floats samples
      in \<lparr>ci_Low = s ! low_index (length s), ci_High = s ! high_index (length s), ci_ConfidenceLevel = fround (95 / 100),
          ci_Method = ''bootstrap''\<rparr>)"

text \<open>The observations drawn in one iteration.\<close>

definition resample :: "intn_source \<Rightarrow> int \<Rightarrow> 'a list \<Rightarrow> nat \<Rightarrow> 'a list" where
  "resample intn seed xs iteration = map (\<lambda>j. xs ! intn seed (length xs) (iteration * length xs + j)) [0..<length xs]"

definition weighted_mean :: "metricObservation list \<Rightarrow> float64" where
  "weighted_mean os =
     (let (s, w) = foldl (\<lambda>(s, w) b. let wt = positive_weight (ob_weight b) in (fadd s (fmul (ob_value b) wt), fadd w wt)) (Fin 0, Fin 0) os
      in weightedAverage s w)"

definition bootstrapWeightedMean :: "intn_source \<Rightarrow> metricObservation list \<Rightarrow> int \<Rightarrow> StatisticalConfidenceInterval option" where
  "bootstrapWeightedMean intn observations seed =
     (if length observations < 2 then None
      else Some (bootstrap_interval (map (\<lambda>i. weighted_mean (resample intn seed observations i)) [0..<defaultBootstrapSamples])))"

definition summarizeMetric :: "intn_source \<Rightarrow> metricObservation list \<Rightarrow> int \<Rightarrow> int \<Rightarrow> MetricSummary" where
  "summarizeMetric intn observations n seed =
     (let summary = \<lparr>ms_Value = Fin 0, ms_EligibleSampleCount = int (length observations), ms_TotalSampleCount = n,
            ms_AnnotationCoverage = (if n > 0 then fdiv (of_int64 (int (length observations))) (of_int64 n) else Fin 0),
            ms_WeightedSampleCount = Fin 0, ms_EffectiveSampleCount = Fin 0, ms_ConfidenceInterval = None\<rparr>
      in if observations = [] then summary
         else let values = map ob_value observations; weights = map (positive_weight \<circ> ob_weight) observations;
                  w = sum_floats weights; squared = sum_floats (map (\<lambda>x. fmul x x) weights);
                  summary = summary\<lparr>ms_Value := weighted_mean observations, ms_WeightedSampleCount := w,
                    ms_EffectiveSampleCount := (if flt (Fin 0) squared then fdiv (fmul w w) squared else Fin 0)\<rparr>
              in if length values < 2 then summary
                 else if isBinary values
                 then summary\<lparr>ms_ConfidenceInterval := wilsonInterval (sum_floats values) (of_int64 (int (length values)))\<rparr>
                 else summary\<lparr>ms_ConfidenceInterval := bootstrapWeightedMean intn observations seed\<rparr>)"

definition summarizeMetrics ::
  "intn_source \<Rightarrow> (string, metricObservation list) gomap \<Rightarrow> int \<Rightarrow> string \<Rightarrow> (string, MetricSummary) gomap" where
  "summarizeMetrics intn observations n runID =
     map (\<lambda>(name, values). (name, summarizeMetric intn values n (sint (stableMetricSeed runID name)))) observations"

definition copyMetricSummary :: "string \<Rightarrow> string list \<Rightarrow> (string, MetricSummary) gomap \<Rightarrow> (string, MetricSummary) gomap" where
  "copyMetricSummary source targets summaries =
     (case map_of summaries source of None \<Rightarrow> summaries | Some summary \<Rightarrow> fold (\<lambda>target. gput target summary) targets summaries)"

section \<open>Paired comparison\<close>

record PairedMetricComparison =
  pc_Metric :: string
  pc_Baseline :: float64
  pc_Candidate :: float64
  pc_AbsoluteDelta :: float64
  pc_RelativeDelta :: "float64 option"
  pc_PairedSampleCount :: int
  pc_ConfidenceInterval :: "StatisticalConfidenceInterval option"
  pc_Decision :: string

record pairedObservation =
  po_baseline :: float64
  po_candidate :: float64
  po_weight :: float64

definition pair_sums :: "pairedObservation list \<Rightarrow> float64 \<times> float64 \<times> float64" where
  "pair_sums pairs =
     foldl (\<lambda>(b, c, w) p. let wt = positive_weight (po_weight p)
                           in (fadd b (fmul (po_baseline p) wt), fadd c (fmul (po_candidate p) wt), fadd w wt))
       (Fin 0, Fin 0, Fin 0) pairs"

definition pair_delta :: "pairedObservation list \<Rightarrow> float64" where
  "pair_delta pairs = (case pair_sums pairs of (b, c, w) \<Rightarrow> fsub (weightedAverage c w) (weightedAverage b w))"

definition paired_deltas :: "intn_source \<Rightarrow> pairedObservation list \<Rightarrow> int \<Rightarrow> float64 list" where
  "paired_deltas intn pairs seed = map (\<lambda>i. pair_delta (resample intn seed pairs i)) [0..<defaultBootstrapSamples]"

definition bootstrapPairedDelta :: "intn_source \<Rightarrow> pairedObservation list \<Rightarrow> int \<Rightarrow> StatisticalConfidenceInterval" where
  "bootstrapPairedDelta intn pairs seed = bootstrap_interval (paired_deltas intn pairs seed)"

definition summarizePairedMetric :: "intn_source \<Rightarrow> string \<Rightarrow> pairedObservation list \<Rightarrow> int \<Rightarrow> PairedMetricComparison" where
  "summarizePairedMetric intn mname pairs seed =
     (case pair_sums pairs of
        (bs, cs, w) \<Rightarrow>
          let baseline = weightedAverage bs w; candidate = weightedAverage cs w; delta = fsub candidate baseline;
              comparison = \<lparr>pc_Metric = mname, pc_Baseline = baseline, pc_Candidate = candidate, pc_AbsoluteDelta = delta,
                pc_RelativeDelta = (if feq baseline (Fin 0) then None else Some (fdiv delta (fabs baseline))),
                pc_PairedSampleCount = int (length pairs), pc_ConfidenceInterval = None, pc_Decision = ''insufficient_sample''\<rparr>
          in if length pairs < 2 then comparison
             else let ci = bootstrapPairedDelta intn pairs seed
                  in comparison\<lparr>pc_ConfidenceInterval := Some ci,
                       pc_Decision := (if fle (Fin 0) (ci_Low ci) then ''improved''
                                       else if flt (ci_High ci) (Fin 0) then ''regressed'' else ''inconclusive'')\<rparr>)"

definition add_pairs ::
  "(string, EvaluationItemDetail) gomap \<Rightarrow> (string, DatasetItem) gomap \<Rightarrow> EvaluationItemDetail \<Rightarrow>
   (string, pairedObservation list) gomap \<Rightarrow> (string, pairedObservation list) gomap" where
  "add_pairs baselineByID itemsByID candidateItem observations =
     (case (map_of baselineByID (ed_DatasetItemID candidateItem), map_of itemsByID (ed_DatasetItemID candidateItem)) of
        (Some baselineItem, Some frozen) \<Rightarrow>
          fold (\<lambda>(mname, candidateValue) obs.
              case map_of (ed_Metrics baselineItem) mname of
                None \<Rightarrow> obs
              | Some baselineValue \<Rightarrow>
                  if \<not> ShouldAggregate DefaultMetricRegistry mname \<or> \<not> metricEligible mname frozen then obs
                  else gput mname (gget0 [] obs mname @
                         [\<lparr>po_baseline = baselineValue, po_candidate = candidateValue, po_weight = itemWeight frozen\<rparr>]) obs)
            (ed_Metrics candidateItem) observations
      | _ \<Rightarrow> observations)"

definition ComparePairedMetrics ::
  "intn_source \<Rightarrow> RunResult \<Rightarrow> RunResult \<Rightarrow> EvaluationItemDetail list \<Rightarrow> EvaluationItemDetail list \<Rightarrow> PairedMetricComparison list" where
  "ComparePairedMetrics intn baseline candidate baselineItems candidateItems =
     (let baselineByID = fold (\<lambda>item. gput (ed_DatasetItemID item) item) baselineItems [];
          snapshotItems = (if dn_Items (rr_DatasetSnapshot baseline) = [] then dn_Items (em_Dataset (rr_Manifest baseline))
                           else dn_Items (rr_DatasetSnapshot baseline));
          itemsByID = fold (\<lambda>item. gput (it_ID item) item) snapshotItems [];
          observations = fold (add_pairs baselineByID itemsByID) candidateItems []
      in sort_by (\<lambda>a b. pc_Metric a < pc_Metric b)
           (map (\<lambda>(mname, pairs). summarizePairedMetric intn mname pairs (sint (stableMetricSeed (rr_ID candidate) (''paired:'' @ mname))))
             (filter (\<lambda>(mname, pairs). pairs \<noteq> []) observations)))"

section \<open>Comparability and snapshots\<close>

record Comparability =
  co_Comparable :: bool
  co_HardMismatches :: "string list"
  co_SoftMismatches :: "string list"

definition hard :: "bool \<Rightarrow> string \<Rightarrow> Comparability \<Rightarrow> Comparability" where
  "hard mismatch name c = (if mismatch then c\<lparr>co_Comparable := False, co_HardMismatches := co_HardMismatches c @ [name]\<rparr> else c)"

definition soft :: "bool \<Rightarrow> string \<Rightarrow> Comparability \<Rightarrow> Comparability" where
  "soft mismatch name c = (if mismatch then c\<lparr>co_SoftMismatches := co_SoftMismatches c @ [name]\<rparr> else c)"

definition CompareRuns :: "RunResult \<Rightarrow> RunResult \<Rightarrow> Comparability" where
  "CompareRuns baseline candidate =
     (let c = \<lparr>co_Comparable = True, co_HardMismatches = [], co_SoftMismatches = []\<rparr>; l = rr_Manifest baseline; r = rr_Manifest candidate
      in if rr_EvaluationFingerprint baseline = [] \<or> rr_EvaluationFingerprint candidate = [] then hard True ''evaluation_fingerprint'' c
         else let c = hard (dn_ContentHash (em_Dataset l) \<noteq> dn_ContentHash (em_Dataset r)) ''dataset.content_hash'' c;
                  c = hard (dn_Split (em_Dataset l) \<noteq> dn_Split (em_Dataset r)) ''dataset.split'' c;
                  c = hard (em_KnowledgeBaseID l \<noteq> em_KnowledgeBaseID r) ''knowledge_base_id'' c;
                  c = soft (em_CodeCommit l \<noteq> em_CodeCommit r) ''code_commit'' c;
                  c = soft (em_Profile l \<noteq> em_Profile r) ''profile'' c;
                  c = soft (em_TopK l \<noteq> em_TopK r) ''top_k'' c
              in hard (em_JudgeConfigHash l \<noteq> em_JudgeConfigHash r \<or> em_QAGConfigHash l \<noteq> em_QAGConfigHash r \<or>
                       em_PairwiseConfigHash l \<noteq> em_PairwiseConfigHash r) ''judge_config_hash'' c)"

text \<open>\<open>body\<close> is the JSON text of the items, \<open>None\<close> where encoding fails (a weight that is not finite).\<close>

definition stableJSONHash :: "string option \<Rightarrow> string" where
  "stableJSONHash body = (case body of None \<Rightarrow> [] | Some b \<Rightarrow> sha256_text b)"

definition snapshotDataset :: "(DatasetItem list \<Rightarrow> string option) \<Rightarrow> Dataset \<Rightarrow> DatasetSplit \<Rightarrow> DatasetItem list \<Rightarrow> DatasetSnapshot" where
  "snapshotDataset body ds split items =
     (let copyItems = map NormalizeItemMetadata (sort_by (\<lambda>a b. it_ID a < it_ID b) items)
      in \<lparr>dn_DatasetID = ds_ID ds, dn_Version = ds_Version ds, dn_Split = split, dn_Items = copyItems,
          dn_ContentHash = stableJSONHash (body copyItems), dn_ItemCount = int (length copyItems)\<rparr>)"

section \<open>The hold-out gate\<close>

record HoldoutGateConfig =
  hg_Enabled :: bool
  hg_MinSampleCount :: int
  hg_MinWeightedSampleCount :: float64
  hg_QualityMetric :: string
  hg_MinQuality :: float64

record HoldoutGateResult =
  hr_Enabled :: bool
  hr_Passed :: bool
  hr_Reasons :: "string list"
  hr_Split :: DatasetSplit
  hr_QualityMetric :: string
  hr_Quality :: float64
  hr_MinQuality :: float64
  hr_SampleCount :: int
  hr_MinSampleCount :: int
  hr_WeightedSampleCount :: float64
  hr_MinWeightedSampleCount :: float64
  hr_MissingSplit :: bool

definition gate_fail :: "bool \<Rightarrow> string \<Rightarrow> HoldoutGateResult \<Rightarrow> HoldoutGateResult" where
  "gate_fail failed reason r =
     (if \<not> failed then r
      else r\<lparr>hr_Passed := False, hr_Reasons := (if List.member (hr_Reasons r) reason then hr_Reasons r else hr_Reasons r @ [reason])\<rparr>)"

definition fallbackQualityMetric :: "RunResult \<Rightarrow> string \<Rightarrow> float64 option" where
  "fallbackQualityMetric result metricName =
     (let m = map_of (rr_Metrics result)
      in if metricName = PrimaryMetricDeterministicAnswerMatch
         then (case m ''answer_accuracy'' of Some v \<Rightarrow> Some v | None \<Rightarrow> m ''accuracy'')
         else if metricName = ''answer_accuracy'' \<or> metricName = ''accuracy'' then m PrimaryMetricDeterministicAnswerMatch
         else None)"

definition gate_metric :: "HoldoutGateConfig \<Rightarrow> string" where
  "gate_metric cfg =
     (if TrimSpace (hg_QualityMetric cfg) = [] then PrimaryMetricDeterministicAnswerMatch else TrimSpace (hg_QualityMetric cfg))"

definition gate_quality :: "RunResult \<Rightarrow> HoldoutGateConfig \<Rightarrow> float64 option" where
  "gate_quality result cfg =
     (case map_of (rr_Metrics result) (gate_metric cfg) of Some v \<Rightarrow> Some v | None \<Rightarrow> fallbackQualityMetric result (gate_metric cfg))"

definition zero_gate :: HoldoutGateResult where
  "zero_gate =
     \<lparr>hr_Enabled = False, hr_Passed = False, hr_Reasons = [], hr_Split = [], hr_QualityMetric = [], hr_Quality = Fin 0, hr_MinQuality = Fin 0,
      hr_SampleCount = 0, hr_MinSampleCount = 0, hr_WeightedSampleCount = Fin 0, hr_MinWeightedSampleCount = Fin 0, hr_MissingSplit = False\<rparr>"

definition EvaluateHoldoutGate :: "RunResult \<Rightarrow> HoldoutGateConfig \<Rightarrow> HoldoutGateResult" where
  "EvaluateHoldoutGate result cfg =
     (if \<not> hg_Enabled cfg then zero_gate
      else let gate = \<lparr>hr_Enabled = True, hr_Passed = True, hr_Reasons = [], hr_Split = rr_Split result, hr_QualityMetric = gate_metric cfg,
                 hr_Quality = Fin 0, hr_MinQuality = hg_MinQuality cfg, hr_SampleCount = rr_UnweightedSampleCount result,
                 hr_MinSampleCount = hg_MinSampleCount cfg, hr_WeightedSampleCount = rr_WeightedSampleCount result,
                 hr_MinWeightedSampleCount = hg_MinWeightedSampleCount cfg, hr_MissingSplit = rr_MissingSplit result\<rparr>;
               gate = gate_fail (rr_MissingSplit result \<or> rr_Total result = 0) ''missing_split'' gate;
               gate = gate_fail (hg_MinSampleCount cfg > 0 \<and> rr_UnweightedSampleCount result < hg_MinSampleCount cfg) ''insufficient_sample'' gate;
               gate = gate_fail (flt (Fin 0) (hg_MinWeightedSampleCount cfg) \<and>
                        flt (rr_WeightedSampleCount result) (hg_MinWeightedSampleCount cfg)) ''insufficient_sample'' gate
           in case gate_quality result cfg of
                None \<Rightarrow> gate_fail True ''metric_missing'' gate
              | Some quality \<Rightarrow> gate_fail (flt quality (hg_MinQuality cfg)) ''quality_below_threshold'' (gate\<lparr>hr_Quality := quality\<rparr>))"

end
