(* ===== verification/EvalStatsProps.thy ===== *)
theory EvalStatsProps
  imports EvalStats
begin

text \<open>
  What a paired comparison decides, without reference to sorting: the decision counts the resampled
  differences. The frozen dataset does not depend on the order of its items, and the hold-out gate passes
  exactly the runs that meet every threshold.
\<close>

section \<open>Order statistics\<close>

text \<open>In a sorted list, position \<open>i\<close> has a property that larger values keep exactly if enough elements have it.\<close>

lemma sorted_nth_upward:
  assumes "sorted (map key s)" and "i < length s" and up: "\<And>x y. key x \<le> key y \<Longrightarrow> P x \<Longrightarrow> P y"
  shows "P (s ! i) \<longleftrightarrow> length s - i \<le> length (filter P s)"
proof
  assume "P (s ! i)"
  have "P y" if "y \<in> set (drop i s)" for y
  proof -
    from that obtain j where j: "j < length s - i" "y = s ! (i + j)" by (auto simp: in_set_conv_nth)
    then have "map key s ! i \<le> map key s ! (i + j)" by (intro sorted_nth_mono [OF assms(1)]) auto
    with j assms(2) have "key (s ! i) \<le> key y" by simp
    then show ?thesis using \<open>P (s ! i)\<close> up by blast
  qed
  then have "filter P (drop i s) = drop i s" by (simp add: filter_id_conv)
  then have "filter P s = filter P (take i s) @ drop i s" by (metis append_take_drop_id filter_append)
  then show "length s - i \<le> length (filter P s)" by simp
next
  assume count: "length s - i \<le> length (filter P s)"
  show "P (s ! i)"
  proof (rule ccontr)
    assume no: "\<not> P (s ! i)"
    have "\<not> P y" if "y \<in> set (take (Suc i) s)" for y
    proof -
      from that obtain j where j: "j \<le> i" "y = s ! j" using assms(2) by (auto simp: in_set_conv_nth less_Suc_eq_le)
      then have "map key s ! j \<le> map key s ! i" by (intro sorted_nth_mono [OF assms(1)]) (use assms(2) in auto)
      with j assms(2) have "key y \<le> key (s ! i)" by simp
      then show ?thesis using no up by blast
    qed
    then have "filter P (take (Suc i) s) = []" by (simp add: filter_empty_conv)
    then have "filter P s = filter P (drop (Suc i) s)" by (metis append_take_drop_id filter_append append_Nil)
    then have "length (filter P s) \<le> length s - Suc i" by (metis length_drop length_filter_le)
    with count assms(2) show False by simp
  qed
qed

text \<open>\<^verbatim>\<open>sort.Float64s\<close> sorts by this key.\<close>

definition float_key :: "float64 \<Rightarrow> bool \<times> float64" where
  "float_key x = (x \<noteq> NaN, x)"

interpretation floats: keyed_less float_before float_key
  by unfold_locales (auto simp: float_before_def float_key_def flt_iff)

lemma sort_floats_nth_upward:
  assumes "i < length xs" and "\<And>x y. float_key x \<le> float_key y \<Longrightarrow> P x \<Longrightarrow> P y"
  shows "P (sort_floats xs ! i) \<longleftrightarrow> length xs - i \<le> length (filter P xs)"
proof -
  have "mset (filter P (sort_floats xs)) = mset (filter P xs)" by (simp add: sort_floats_def)
  then have "length (filter P (sort_floats xs)) = length (filter P xs)" by (metis size_mset)
  then show ?thesis
    using sorted_nth_upward [of float_key "sort_floats xs" i P] assms floats.sorted_sort_by [of xs] by (simp add: sort_floats_def)
qed

lemma upward_nonneg: "float_key x \<le> float_key y \<Longrightarrow> fle (Fin 0) x \<Longrightarrow> fle (Fin 0) y"
  by (auto simp: float_key_def fle_iff)


section \<open>The two positions\<close>

lemma fround_dyadic: "\<bar>m\<bar> \<le> 2 ^ 40 \<Longrightarrow> fround (of_int m / 2 ^ 20) = Fin (of_int m / 2 ^ 20)"
proof -
  assume m: "\<bar>m\<bar> \<le> 2 ^ 40"
  have "of_int m / 2 ^ 20 = (of_int m * 2 powi (- 20) :: rat)" by (simp add: power_int_def power_inverse field_simps)
  moreover have "\<bar>m\<bar> \<le> 2 ^ 53" by (rule order_trans [OF m]) simp
  ultimately have near: "nearest (of_int m / 2 ^ 20) = of_int m / 2 ^ 20" by (rule nearest_exact) simp
  have "of_int \<bar>m\<bar> \<le> (of_int (2 ^ 40) :: rat)" using m by (simp only: of_int_le_iff)
  then have "\<bar>of_int m / 2 ^ 20\<bar> \<le> (2 ^ 40 :: rat)" by simp
  also have "\<dots> < 2 ^ 1024" by (rule power_strict_increasing) auto
  finally show ?thesis by (rule fround_exact [OF near])
qed

lemma fround_between:
  assumes "of_int a / 2 ^ 20 \<le> x" and "x \<le> of_int b / 2 ^ 20" and "\<bar>a\<bar> \<le> 2 ^ 40" and "\<bar>b\<bar> \<le> 2 ^ 40"
  shows "\<exists>y. fround x = Fin y \<and> of_int a / 2 ^ 20 \<le> y \<and> y \<le> of_int b / 2 ^ 20"
  using fround_mono [OF assms(1)] fround_mono [OF assms(2)] unfolding fround_dyadic [OF assms(3)] fround_dyadic [OF assms(4)]
  by (cases "fround x") auto

lemma low_index_2000: "low_index 2000 = 49"
proof -
  obtain y where y: "fround (25 / 1000) = Fin y" "26214 / 2 ^ 20 \<le> y" "y \<le> 26215 / 2 ^ 20"
    using fround_between [of 26214 "25 / 1000" 26215] by auto
  obtain z where z: "fround (1999 * y) = Fin z" "52400000 / 2 ^ 20 \<le> z" "z \<le> 52405000 / 2 ^ 20"
    using fround_between [of 52400000 "1999 * y" 52405000] y(2,3) by auto
  then have "\<lfloor>z\<rfloor> = 49" by (intro floor_unique) simp_all
  then show ?thesis using y(1) z(1) of_int64_exact [of 1999] by (simp add: low_index_def)
qed


section \<open>Paired decisions\<close>

lemma length_paired_deltas [simp]: "length (paired_deltas intn pairs seed) = 2000"
  by (simp add: paired_deltas_def defaultBootstrapSamples_def)

lemma bootstrap_low_nonneg:
  assumes "length xs = 2000"
  shows "fle (Fin 0) (ci_Low (bootstrap_interval xs)) \<longleftrightarrow> 1951 \<le> length (filter (fle (Fin 0)) xs)"
  using sort_floats_nth_upward [of 49 xs "fle (Fin 0)", OF _ upward_nonneg] assms
  by (simp add: bootstrap_interval_def Let_def low_index_2000 sort_floats_def)



text \<open>
  Two runs without any difference are \<^verbatim>\<open>improved\<close>: here both score zero on every item. The design wants a
  minimal effect and has a decision \<^verbatim>\<open>non_inferior\<close> for this case.
\<close>

definition zero_pair :: "pairedObservation \<Rightarrow> bool" where
  "zero_pair p \<longleftrightarrow> po_baseline p = Fin 0 \<and> po_candidate p = Fin 0 \<and> po_weight p = Fin 1"

lemma zero_pair_sums:
  assumes "\<forall>p \<in> set pairs. zero_pair p" and "w \<noteq> NaN"
  shows "\<exists>w'. w' \<noteq> NaN \<and>
    foldl (\<lambda>(b, c, w) p. let wt = positive_weight (po_weight p)
             in (fadd b (fmul (po_baseline p) wt), fadd c (fmul (po_candidate p) wt), fadd w wt)) (Fin 0, Fin 0, w) pairs =
      (Fin 0, Fin 0, w')"
  using assms
proof (induction pairs arbitrary: w)
  case (Cons p pairs)
  have "fadd w (Fin 1) \<noteq> NaN" using Cons.prems(2) by (cases w) auto
  from Cons.IH [OF _ this] Cons.prems(1) show ?case by (simp add: zero_pair_def positive_weight_def fle_iff)
qed simp

lemma zero_pair_delta: "\<forall>p \<in> set pairs. zero_pair p \<Longrightarrow> pair_delta pairs = Fin 0"
proof -
  assume "\<forall>p \<in> set pairs. zero_pair p"
  from zero_pair_sums [OF this, of "Fin 0"] obtain w where w: "w \<noteq> NaN" "pair_sums pairs = (Fin 0, Fin 0, w)"
    by (auto simp: pair_sums_def)
  from w(1) have "weightedAverage (Fin 0) w = Fin 0" by (cases w) (auto simp: weightedAverage_def fle_iff)
  then show ?thesis by (simp add: pair_delta_def w(2) fsub_def)
qed

lemma equal_runs_improved:
  assumes "2 \<le> length pairs" and zero: "\<forall>p \<in> set pairs. zero_pair p" and "\<And>seed i. intn seed (length pairs) i < length pairs"
  shows "pc_Decision (summarizePairedMetric intn mname pairs seed) = ''improved''"
proof -
  have "\<forall>p \<in> set (resample intn seed pairs i). zero_pair p" for i using zero assms(3) by (auto simp: resample_def)
  then have "pair_delta (resample intn seed pairs i) = Fin 0" for i by (rule zero_pair_delta)
  then have "paired_deltas intn pairs seed = map (\<lambda>i. Fin 0) [0..<2000]" by (simp add: paired_deltas_def defaultBootstrapSamples_def)
  then have "filter (fle (Fin 0)) (paired_deltas intn pairs seed) = paired_deltas intn pairs seed"
    by (simp add: filter_id_conv fle_iff)
  then show ?thesis using assms(1)
    by (simp add: summarizePairedMetric_def bootstrapPairedDelta_def bootstrap_low_nonneg Let_def case_prod_unfold)
qed

section \<open>Snapshots\<close>

interpretation item_ids: keyed_less "\<lambda>a b. it_ID a < it_ID b" it_ID
  by unfold_locales simp

text \<open>
  The frozen dataset of an evaluation run, its content hash included, does not depend on the order in
  which the repository lists the items, as long as their identifiers are distinct. Freezing the frozen items again changes nothing.
\<close>

lemma snapshot_order_free:
  assumes "distinct (map it_ID items)" and "mset items' = mset items"
  shows "snapshotDataset body ds split items' = snapshotDataset body ds split items \<and>
    snapshotDataset body ds split (dn_Items (snapshotDataset body ds split items)) = snapshotDataset body ds split items"
proof -
  let ?sort = "sort_by (\<lambda>a b :: DatasetItem. it_ID a < it_ID b)"
  have "inj_on it_ID (set items)" using assms(1) by (simp add: distinct_map)
  moreover have "set items' = set items" using assms(2) by (metis set_mset_mset)
  ultimately have same: "?sort items' = ?sort items" using item_ids.sort_by_perm [OF assms(2)] by simp
  have "sorted (map it_ID (map NormalizeItemMetadata (?sort items)))"
    using item_ids.sorted_sort_by [of items] by (simp add: comp_def)
  then have again: "?sort (map NormalizeItemMetadata (?sort items)) = map NormalizeItemMetadata (?sort items)"
    by (simp add: item_ids.sort_by_sort_key sort_key_id_if_sorted)
  then show ?thesis by (simp add: snapshotDataset_def same Let_def comp_def)
qed

section \<open>The hold-out gate\<close>

lemma gate_fail_simps [simp]:
  "hr_Passed (gate_fail b reason r) \<longleftrightarrow> \<not> b \<and> hr_Passed r"
  "hr_Reasons (gate_fail b reason r) = [] \<longleftrightarrow> \<not> b \<and> hr_Reasons r = []"
  "set (hr_Reasons (gate_fail b reason r)) = (if b then insert reason (set (hr_Reasons r)) else set (hr_Reasons r))"
  "distinct (hr_Reasons (gate_fail b reason r)) = distinct (hr_Reasons r)"
  by (auto simp: gate_fail_def)

lemma holdout_gate_decides:
  "hr_Passed (EvaluateHoldoutGate result cfg) \<longleftrightarrow>
     hg_Enabled cfg \<and> \<not> rr_MissingSplit result \<and> rr_Total result \<noteq> 0 \<and>
     \<not> (0 < hg_MinSampleCount cfg \<and> rr_UnweightedSampleCount result < hg_MinSampleCount cfg) \<and>
     \<not> (flt (Fin 0) (hg_MinWeightedSampleCount cfg) \<and> flt (rr_WeightedSampleCount result) (hg_MinWeightedSampleCount cfg)) \<and>
     (case gate_quality result cfg of None \<Rightarrow> False | Some q \<Rightarrow> \<not> flt q (hg_MinQuality cfg))"
  by (auto simp: EvaluateHoldoutGate_def Let_def zero_gate_def split: option.split)

lemma holdout_gate_reasons:
  "hg_Enabled cfg \<Longrightarrow> hr_Passed (EvaluateHoldoutGate result cfg) \<longleftrightarrow> hr_Reasons (EvaluateHoldoutGate result cfg) = []"
  by (auto simp: EvaluateHoldoutGate_def Let_def split: option.split)

end
