(* ===== verification/GoTime.thy ===== *)
theory GoTime
  imports GoJson
begin

text \<open>
  The calendar of the package \<^verbatim>\<open>time\<close> in UTC: an instant counts nanoseconds from the first of January of the
  year one of the proleptic Gregorian calendar, the zero value of \<^verbatim>\<open>time.Time\<close>. Dates, weekdays and the
  text of the layout \<^verbatim>\<open>RFC3339Nano\<close>.
\<close>

definition Minute :: duration where
  "Minute = 60 * Second"

definition Day_length :: duration where
  "Day_length = 24 * Hour"

lemma duration_values:
  "Millisecond = 1000000" "Second = 1000000000" "Minute = 60000000000" "Hour = 3600000000000" "Day_length = 86400000000000"
  by (simp_all add: duration_defs Minute_def Day_length_def)

text \<open>\<^verbatim>\<open>Truncate\<close> rounds down to a multiple of the duration since the zero time.\<close>

definition Truncate :: "gotime \<Rightarrow> duration \<Rightarrow> gotime" where
  "Truncate t d = (if d \<le> 0 then t else t - t mod d)"

section \<open>Years and months\<close>

definition leap_year :: "int \<Rightarrow> bool" where
  "leap_year y \<longleftrightarrow> y mod 4 = 0 \<and> (y mod 100 \<noteq> 0 \<or> y mod 400 = 0)"

definition month_lengths :: "bool \<Rightarrow> int list" where
  "month_lengths leap = [31, if leap then 29 else 28, 31, 30, 31, 30, 31, 31, 30, 31, 30, 31]"

text \<open>The days before the first of January of a year.\<close>

definition days_before_year :: "int \<Rightarrow> int" where
  "days_before_year y = 365 * (y - 1) + (y - 1) div 4 - (y - 1) div 100 + (y - 1) div 400"

text \<open>The year of a day and the day within that year, by the cycles of 400, 100, 4 and 1 years.\<close>

definition year_day :: "int \<Rightarrow> int \<times> int" where
  "year_day n =
     (let n400 = n div 146097; r = n mod 146097;
          n100 = min 3 (r div 36524); r = r - n100 * 36524;
          n4 = r div 1461; r = r mod 1461;
          n1 = min 3 (r div 365)
      in (400 * n400 + 100 * n100 + 4 * n4 + n1 + 1, r - 365 * n1))"

fun month_day :: "int list \<Rightarrow> int \<Rightarrow> int \<Rightarrow> int \<times> int" where
  "month_day [] m d = (m, d + 1)"
| "month_day (l # ls) m d = (if d < l then (m, d + 1) else month_day ls (m + 1) (d - l))"

record civil =
  cv_year :: int
  cv_month :: int
  cv_day :: int

definition civil_of_day :: "int \<Rightarrow> civil" where
  "civil_of_day n =
     (case year_day n of (y, yd) \<Rightarrow>
        case month_day (month_lengths (leap_year y)) 1 yd of (m, d) \<Rightarrow> \<lparr>cv_year = y, cv_month = m, cv_day = d\<rparr>)"

definition day_of_civil :: "civil \<Rightarrow> int" where
  "day_of_civil c =
     days_before_year (cv_year c) + sum_list (take (nat (cv_month c - 1)) (month_lengths (leap_year (cv_year c)))) + cv_day c - 1"

section \<open>The fields of an instant\<close>

definition day_number :: "gotime \<Rightarrow> int" where
  "day_number t = t div Day_length"

definition Date :: "gotime \<Rightarrow> civil" where
  "Date t = civil_of_day (day_number t)"

text \<open>The first day was a Monday; Sunday is zero.\<close>

definition Weekday :: "gotime \<Rightarrow> int" where
  "Weekday t = (day_number t + 1) mod 7"

definition hour_of :: "gotime \<Rightarrow> int" where
  "hour_of t = t mod Day_length div Hour"

definition minute_of :: "gotime \<Rightarrow> int" where
  "minute_of t = t mod Hour div Minute"

definition second_of :: "gotime \<Rightarrow> int" where
  "second_of t = t mod Minute div Second"

definition nanosecond_of :: "gotime \<Rightarrow> int" where
  "nanosecond_of t = t mod Second"

section \<open>Text\<close>

text \<open>A number with at least \<open>w\<close> digits.\<close>

definition pad_int :: "nat \<Rightarrow> int \<Rightarrow> string" where
  "pad_int w n =
     (let ds = dec_digits (nat \<bar>n\<bar>) in (if n < 0 then ''-'' else []) @ replicate (w - length ds) (CHR ''0'') @ ds)"

definition strip_zeros :: "string \<Rightarrow> string" where
  "strip_zeros s = rev (dropWhile (\<lambda>c. c = CHR ''0'') (rev s))"

definition RFC3339Nano :: "gotime \<Rightarrow> string" where
  "RFC3339Nano t =
     (let c = Date t; frac = strip_zeros (pad_int 9 (nanosecond_of t))
      in pad_int 4 (cv_year c) @ ''-'' @ pad_int 2 (cv_month c) @ ''-'' @ pad_int 2 (cv_day c) @ ''T'' @
         pad_int 2 (hour_of t) @ '':'' @ pad_int 2 (minute_of t) @ '':'' @ pad_int 2 (second_of t) @
         (if frac = [] then [] else ''.'' @ frac) @ ''Z'')"

section \<open>The calendar is sound\<close>

lemma capped_div:
  fixes r b :: int
  assumes "0 \<le> r" and "0 < b"
  defines "q \<equiv> min 3 (r div b)"
  shows "0 \<le> q" and "q \<le> 3" and "0 \<le> r - q * b" and "r - q * b < b \<or> q = 3"
proof -
  define d m where "d = r div b" and "m = r mod b"
  have r: "r = d * b + m" "0 \<le> m" "m < b" "0 \<le> d" using assms(1,2) by (simp_all add: d_def m_def pos_imp_zdiv_nonneg_iff)
  have "3 * b \<le> d * b" if "3 \<le> d" using that assms(2) by simp
  with r have "0 \<le> r - 3 * b" if "3 \<le> d" using that by linarith
  with r show "0 \<le> q" "q \<le> 3" "0 \<le> r - q * b" "r - q * b < b \<or> q = 3"
    unfolding q_def d_def [symmetric] min_def by auto
qed

lemma year_day_cycles:
  assumes "year_day n = (y, d)"
  obtains n400 n100 n4 n1 where "y = 400 * n400 + 100 * n100 + 4 * n4 + n1 + 1" "0 \<le> n100" "n100 \<le> 3" "0 \<le> n4" "n4 \<le> 24"
    "0 \<le> n1" "n1 \<le> 3" "0 \<le> d" "d \<le> 364 \<or> d = 365 \<and> n1 = 3 \<and> (n4 \<noteq> 24 \<or> n100 = 3)"
    "n = 146097 * n400 + 36524 * n100 + 1461 * n4 + 365 * n1 + d"
proof -
  define n400 r1 where "n400 = n div 146097" and "r1 = n mod 146097"
  define n100 where "n100 = min 3 (r1 div 36524)"
  define r2 where "r2 = r1 - n100 * 36524"
  define n4 r3 where "n4 = r2 div 1461" and "r3 = r2 mod 1461"
  define n1 where "n1 = min 3 (r3 div 365)"
  have y: "y = 400 * n400 + 100 * n100 + 4 * n4 + n1 + 1" and d: "d = r3 - 365 * n1"
    using assms unfolding year_day_def Let_def n400_def r1_def [symmetric] n100_def [symmetric] r2_def [symmetric] n4_def [symmetric]
      r3_def [symmetric] n1_def [symmetric] by simp_all
  have r1: "0 \<le> r1" "r1 < 146097" "n = 146097 * n400 + r1" by (simp_all add: r1_def n400_def)
  have n100: "0 \<le> n100" "n100 \<le> 3" and r2: "0 \<le> r2" "r2 \<le> 36523 \<or> r2 = 36524 \<and> n100 = 3"
    using capped_div [of r1 36524] r1(1,2) unfolding n100_def [symmetric] r2_def by auto
  have n4: "0 \<le> n4" "n4 \<le> 24 \<and> (n4 = 24 \<longrightarrow> r3 < 1460 \<or> n100 = 3)" "0 \<le> r3" "r3 < 1461" "r2 = 1461 * n4 + r3"
  proof -
    show *: "0 \<le> n4" "0 \<le> r3" "r3 < 1461" "r2 = 1461 * n4 + r3" using r2(1) by (auto simp: n4_def r3_def pos_imp_zdiv_nonneg_iff)
    show "n4 \<le> 24 \<and> (n4 = 24 \<longrightarrow> r3 < 1460 \<or> n100 = 3)" using * r2 by auto
  qed
  have n1: "0 \<le> n1" "n1 \<le> 3" "0 \<le> r3 - 365 * n1" "r3 - 365 * n1 \<le> 364 \<or> r3 = 1460 \<and> n1 = 3"
    using capped_div [of r3 365] n4(3,4) unfolding n1_def [symmetric] by auto
  show thesis
    by (rule that [of n400 n100 n4 n1]) (use y d r1 n100 r2 n4 n1 in \<open>auto simp: r2_def\<close>)
qed

lemma days_before_year_cycles:
  assumes "0 \<le> n100" "n100 \<le> 3" "0 \<le> n4" "n4 \<le> 24" "0 \<le> n1" "n1 \<le> (3 :: int)"
  shows "days_before_year (400 * n400 + 100 * n100 + 4 * n4 + n1 + 1) = 146097 * n400 + 36524 * n100 + 1461 * n4 + 365 * n1"
proof -
  define x where "x = 400 * n400 + 100 * n100 + 4 * n4 + n1"
  have "x div 4 = 100 * n400 + 25 * n100 + n4" by (rule int_div_pos_eq [where r = n1]) (use assms in \<open>simp_all add: x_def\<close>)
  moreover have "x div 100 = 4 * n400 + n100" by (rule int_div_pos_eq [where r = "4 * n4 + n1"]) (use assms in \<open>simp_all add: x_def\<close>)
  moreover have "x div 400 = n400"
    by (rule int_div_pos_eq [where r = "100 * n100 + 4 * n4 + n1"]) (use assms in \<open>simp_all add: x_def\<close>)
  ultimately show ?thesis by (simp add: days_before_year_def x_def [symmetric]) (simp add: x_def)
qed

lemma leap_year_cycles:
  assumes "0 \<le> n100" "n100 \<le> 3" "0 \<le> n4" "n4 \<le> 24" "0 \<le> n1" "n1 \<le> (3 :: int)"
  shows "leap_year (400 * n400 + 100 * n100 + 4 * n4 + n1 + 1) \<longleftrightarrow> n1 = 3 \<and> (n4 \<noteq> 24 \<or> n100 = 3)"
proof -
  let ?y = "400 * n400 + 100 * n100 + 4 * n4 + n1 + 1"
  have "?y mod 4 = (if n1 = 3 then 0 else n1 + 1)"
    by (rule int_mod_pos_eq [where q = "100 * n400 + 25 * n100 + n4 + (if n1 = 3 then 1 else 0)"]) (use assms in auto)
  moreover have "?y mod 100 = (if n1 = 3 \<and> n4 = 24 then 0 else 4 * n4 + n1 + 1)"
    by (rule int_mod_pos_eq [where q = "4 * n400 + n100 + (if n1 = 3 \<and> n4 = 24 then 1 else 0)"]) (use assms in auto)
  moreover have "?y mod 400 = (if n1 = 3 \<and> n4 = 24 \<and> n100 = 3 then 0 else 100 * n100 + 4 * n4 + n1 + 1)"
    by (rule int_mod_pos_eq [where q = "n400 + (if n1 = 3 \<and> n4 = 24 \<and> n100 = 3 then 1 else 0)"]) (use assms in auto)
  ultimately show ?thesis using assms by (auto simp: leap_year_def)
qed

lemma year_day_sound:
  assumes "year_day n = (y, d)"
  shows "days_before_year y + d = n" and "0 \<le> d" and "d < (if leap_year y then 366 else 365)"
proof -
  obtain n400 n100 n4 n1 where c: "y = 400 * n400 + 100 * n100 + 4 * n4 + n1 + 1" "0 \<le> n100" "n100 \<le> 3" "0 \<le> n4" "n4 \<le> 24"
    "0 \<le> n1" "n1 \<le> 3" "0 \<le> d" "d \<le> 364 \<or> d = 365 \<and> n1 = 3 \<and> (n4 \<noteq> 24 \<or> n100 = 3)"
    "n = 146097 * n400 + 36524 * n100 + 1461 * n4 + 365 * n1 + d"
    by (rule year_day_cycles [OF assms])
  show "days_before_year y + d = n" "0 \<le> d" using c days_before_year_cycles [OF c(2-7)] by simp_all
  show "d < (if leap_year y then 366 else 365)" using c leap_year_cycles [OF c(2-7)] by auto
qed

lemma month_day_sound:
  assumes "month_day ls m0 d0 = (m, d)" and "0 \<le> d0" and "d0 < sum_list ls" and "\<forall>l \<in> set ls. 0 < l"
  shows "m0 \<le> m \<and> m < m0 + int (length ls) \<and> 1 \<le> d \<and> d \<le> ls ! nat (m - m0) \<and> sum_list (take (nat (m - m0)) ls) + d - 1 = d0"
  using assms
proof (induction ls m0 d0 rule: month_day.induct)
  case (2 l ls m0 d0)
  show ?case
  proof (cases "d0 < l")
    case False
    then have "month_day ls (m0 + 1) (d0 - l) = (m, d)" using 2(2) by simp
    with 2 False have IH: "m0 + 1 \<le> m \<and> m < m0 + 1 + int (length ls) \<and> 1 \<le> d \<and> d \<le> ls ! nat (m - (m0 + 1)) \<and>
      sum_list (take (nat (m - (m0 + 1))) ls) + d - 1 = d0 - l" by simp
    then have "nat (m - m0) = Suc (nat (m - (m0 + 1)))" by linarith
    with IH show ?thesis by simp
  qed (use 2 in auto)
qed simp

lemma civil_of_day_sound:
  fixes n :: int
  defines "c \<equiv> civil_of_day n"
  shows "1 \<le> cv_month c \<and> cv_month c \<le> 12 \<and> 1 \<le> cv_day c \<and>
    cv_day c \<le> month_lengths (leap_year (cv_year c)) ! nat (cv_month c - 1) \<and> day_of_civil c = n"
proof -
  obtain y yd where y: "year_day n = (y, yd)" by fastforce
  obtain m d where m: "month_day (month_lengths (leap_year y)) 1 yd = (m, d)" by fastforce
  have c: "c = \<lparr>cv_year = y, cv_month = m, cv_day = d\<rparr>" by (simp add: c_def civil_of_day_def y m)
  have "yd < sum_list (month_lengths (leap_year y))" using year_day_sound(3) [OF y] by (simp add: month_lengths_def split: if_splits)
  from month_day_sound [OF m year_day_sound(2) [OF y] this] year_day_sound(1) [OF y]
  show ?thesis by (auto simp: c day_of_civil_def month_lengths_def)
qed

end
