(* ===== verification/OfflineCron.thy ===== *)
theory OfflineCron
  imports GoTime
begin

text \<open>
  The cron expressions of the offline-knowledge scheduler (\<^verbatim>\<open>offlineknowledge/scheduler.go\<close>): five fields of
  numbers, ranges and steps, and the search for the next minute that matches them.
\<close>

section \<open>Numbers\<close>

text \<open>\<^verbatim>\<open>strconv.Atoi\<close>: an optional sign and decimal digits, within 64 bits.\<close>

definition atoi_digits :: "string \<Rightarrow> int" where
  "atoi_digits ds = foldl (\<lambda>n c. 10 * n + (of_char c - 48)) 0 ds"

definition all_digits :: "string \<Rightarrow> bool" where
  "all_digits ds \<longleftrightarrow> ds \<noteq> [] \<and> list_all (\<lambda>c. CHR ''0'' \<le> c \<and> c \<le> CHR ''9'') ds"

definition Atoi :: "string \<Rightarrow> int option" where
  "Atoi s =
     (let (neg, ds) = (case s of [] \<Rightarrow> (False, []) | c # cs \<Rightarrow> if c = CHR ''-'' then (True, cs) else if c = CHR ''+'' then (False, cs) else (False, s));
          n = (if neg then - atoi_digits ds else atoi_digits ds)
      in if all_digits ds \<and> - (2 ^ 63) \<le> n \<and> n < 2 ^ 63 then Some n else None)"

section \<open>Fields\<close>

datatype cron_error =
  Cron_not_five | Cron_empty_part | Cron_invalid_step | Cron_invalid_range | Cron_invalid_number | Cron_starts_after_end | Cron_outside int

type_synonym cronField = "int list"

record cronSchedule =
  cr_minute :: cronField
  cr_hour :: cronField
  cr_dayOfMonth :: cronField
  cr_month :: cronField
  cr_dayOfWeek :: cronField

definition cron_field_matches :: "cronField \<Rightarrow> int \<Rightarrow> bool" where
  "cron_field_matches f v \<longleftrightarrow> List.member f v"

definition cronRange :: "string \<Rightarrow> int \<Rightarrow> int \<Rightarrow> cron_error + (int \<times> int)" where
  "cronRange expr lo hi =
     (if expr = ''*'' then Inr (lo, hi)
      else if Contains expr ''-'' then
        (case Split expr ''-'' of
           [a, b] \<Rightarrow>
             (case (Atoi a, Atoi b) of
                (Some x, Some y) \<Rightarrow> if x > y then Inl Cron_starts_after_end else Inr (x, y)
              | _ \<Rightarrow> Inl Cron_invalid_number)
         | _ \<Rightarrow> Inl Cron_invalid_range)
      else case Atoi expr of None \<Rightarrow> Inl Cron_invalid_number | Some v \<Rightarrow> Inr (v, v))"

text \<open>
  The values from \<open>v\<close> to \<open>e\<close> in steps. Where adding the step overflows 64 bits, the next value is negative,
  below every lower bound of a cron field, and the range check fails.
\<close>

function step_values :: "int \<Rightarrow> int \<Rightarrow> int \<Rightarrow> int \<Rightarrow> int \<Rightarrow> cronField \<Rightarrow> cron_error + cronField" where
  "step_values lo hi step e v acc =
     (if v > e \<or> step \<le> 0 then Inr acc
      else if v < lo \<or> v > hi then Inl (Cron_outside v)
      else if v + step \<ge> 2 ^ 63 then Inl (Cron_outside (v + step - 2 ^ 64))
      else step_values lo hi step e (v + step) (if List.member acc v then acc else acc @ [v]))"
  by pat_completeness auto
termination by (relation "measure (\<lambda>(lo, hi, step, e, v, acc). nat (e + 1 - v))") auto

declare step_values.simps [simp del]

definition cron_step :: "string \<Rightarrow> cron_error + (string \<times> int)" where
  "cron_step part =
     (if Contains part ''/'' then
        (case Split part ''/'' of
           [base, s] \<Rightarrow>
             (case Atoi s of None \<Rightarrow> Inl Cron_invalid_step | Some n \<Rightarrow> if n \<le> 0 then Inl Cron_invalid_step else Inr (base, n))
         | _ \<Rightarrow> Inl Cron_invalid_step)
      else Inr (part, 1))"

definition cron_part :: "int \<Rightarrow> int \<Rightarrow> string \<Rightarrow> cronField \<Rightarrow> cron_error + cronField" where
  "cron_part lo hi part0 acc =
     (let part = TrimSpace part0
      in if part = [] then Inl Cron_empty_part
         else case cron_step part of
           Inl err \<Rightarrow> Inl err
         | Inr (base, step) \<Rightarrow>
             (case cronRange base lo hi of Inl err \<Rightarrow> Inl err | Inr (s, e) \<Rightarrow> step_values lo hi step e s acc))"

fun cron_parts :: "int \<Rightarrow> int \<Rightarrow> string list \<Rightarrow> cronField \<Rightarrow> cron_error + cronField" where
  "cron_parts lo hi [] acc = Inr acc"
| "cron_parts lo hi (p # ps) acc = (case cron_part lo hi p acc of Inl err \<Rightarrow> Inl err | Inr acc' \<Rightarrow> cron_parts lo hi ps acc')"

definition parseCronField :: "string \<Rightarrow> int \<Rightarrow> int \<Rightarrow> cron_error + cronField" where
  "parseCronField expr lo hi = cron_parts lo hi (Split expr '','') []"

definition parseCronSchedule :: "string \<Rightarrow> cron_error + cronSchedule" where
  "parseCronSchedule expr =
     (case Fields expr of
        [p0, p1, p2, p3, p4] \<Rightarrow>
          (case parseCronField p0 0 59 of Inl err \<Rightarrow> Inl err | Inr minute \<Rightarrow>
           case parseCronField p1 0 23 of Inl err \<Rightarrow> Inl err | Inr hour \<Rightarrow>
           case parseCronField p2 1 31 of Inl err \<Rightarrow> Inl err | Inr dayOfMonth \<Rightarrow>
           case parseCronField p3 1 12 of Inl err \<Rightarrow> Inl err | Inr month \<Rightarrow>
           case parseCronField p4 0 7 of Inl err \<Rightarrow> Inl err | Inr dayOfWeek \<Rightarrow>
             Inr \<lparr>cr_minute = minute, cr_hour = hour, cr_dayOfMonth = dayOfMonth, cr_month = month, cr_dayOfWeek = dayOfWeek\<rparr>)
      | _ \<Rightarrow> Inl Cron_not_five)"

section \<open>The next minute\<close>

definition cron_matches :: "cronSchedule \<Rightarrow> gotime \<Rightarrow> bool" where
  "cron_matches s t \<longleftrightarrow>
     (let weekday = Weekday t
      in cron_field_matches (cr_minute s) (minute_of t) \<and> cron_field_matches (cr_hour s) (hour_of t) \<and>
         cron_field_matches (cr_dayOfMonth s) (cv_day (Date t)) \<and> cron_field_matches (cr_month s) (cv_month (Date t)) \<and>
         (cron_field_matches (cr_dayOfWeek s) weekday \<or> weekday = 0 \<and> cron_field_matches (cr_dayOfWeek s) 7))"

fun next_loop :: "nat \<Rightarrow> cronSchedule \<Rightarrow> gotime \<Rightarrow> gotime option" where
  "next_loop 0 s t = None"
| "next_loop (Suc n) s t = (if cron_matches s t then Some t else next_loop n s (t + Minute))"

definition cron_Next :: "cronSchedule \<Rightarrow> gotime \<Rightarrow> gotime" where
  "cron_Next s after =
     (case next_loop (366 * 24 * 60 * 5) s (Truncate after Minute + Minute) of
        Some t \<Rightarrow> t
      | None \<Rightarrow> after + 24 * Hour)"

section \<open>Properties\<close>

lemma next_loop_spec:
  "(case next_loop n s t of
      None \<Rightarrow> \<forall>i < n. \<not> cron_matches s (t + int i * Minute)
    | Some u \<Rightarrow> \<exists>i < n. u = t + int i * Minute \<and> cron_matches s u \<and> (\<forall>j < i. \<not> cron_matches s (t + int j * Minute)))"
proof (induction n arbitrary: t)
  case (Suc n)
  show ?case
  proof (cases "cron_matches s t")
    case False
    have shift: "t + Minute + int i * Minute = t + int (Suc i) * Minute" for i by (simp add: algebra_simps)
    have first: "\<not> cron_matches s (t + int 0 * Minute)" using False by simp
    show ?thesis
    proof (cases "next_loop n s (t + Minute)")
      case None
      with Suc.IH [of "t + Minute"] have "\<forall>i < n. \<not> cron_matches s (t + int (Suc i) * Minute)" by (simp only: option.case shift)
      with first have "\<forall>i < Suc n. \<not> cron_matches s (t + int i * Minute)" by (metis less_Suc_eq_0_disj)
      with None False show ?thesis by simp
    next
      case (Some u)
      with Suc.IH [of "t + Minute"] obtain i where i: "i < n" "u = t + int (Suc i) * Minute" "cron_matches s u"
        "\<forall>j < i. \<not> cron_matches s (t + int (Suc j) * Minute)" by (auto simp only: option.case shift)
      from i(4) first have "\<forall>j < Suc i. \<not> cron_matches s (t + int j * Minute)" by (metis less_Suc_eq_0_disj)
      with i have "\<exists>i < Suc n. u = t + int i * Minute \<and> cron_matches s u \<and> (\<forall>j < i. \<not> cron_matches s (t + int j * Minute))"
        by (metis Suc_less_eq)
      with Some False show ?thesis by simp
    qed
  qed (auto intro: exI [of _ 0])
qed simp

lemma minute_grid:
  "after < t \<and> t \<le> Truncate after Minute + int n * Minute \<and> t mod Minute = 0 \<longleftrightarrow>
     (\<exists>i < n. t = Truncate after Minute + Minute + int i * Minute)"
proof
  define k where "k = after div Minute"
  have tr: "Truncate after Minute = k * Minute" "k * Minute \<le> after"
    by (simp_all add: Truncate_def k_def duration_values minus_mod_eq_div_mult)
  assume t: "after < t \<and> t \<le> Truncate after Minute + int n * Minute \<and> t mod Minute = 0"
  then obtain q where q: "t = q * Minute" by (metis mod_eq_0_iff_dvd dvd_def mult.commute)
  have "k < q" "q \<le> k + int n" using t tr unfolding q by (auto simp: duration_values)
  then have "nat (q - k - 1) < n \<and> t = Truncate after Minute + Minute + int (nat (q - k - 1)) * Minute"
    by (simp add: tr q algebra_simps)
  then show "\<exists>i < n. t = Truncate after Minute + Minute + int i * Minute" by blast
next
  assume "\<exists>i < n. t = Truncate after Minute + Minute + int i * Minute"
  then show "after < t \<and> t \<le> Truncate after Minute + int n * Minute \<and> t mod Minute = 0"
    by (auto simp: Truncate_def duration_values)
qed

lemma next_loop_Min:
  fixes n :: nat and after :: gotime and s :: cronSchedule
  defines "M \<equiv> {t. after < t \<and> t \<le> Truncate after Minute + int n * Minute \<and> t mod Minute = 0 \<and> cron_matches s t}"
  shows "next_loop n s (Truncate after Minute + Minute) = (if M = {} then None else Some (Min M))"
proof -
  let ?t0 = "Truncate after Minute + Minute"
  have M: "t \<in> M \<longleftrightarrow> (\<exists>i < n. t = ?t0 + int i * Minute) \<and> cron_matches s t" for t
    using minute_grid [of after t n] by (auto simp: M_def)
  then have "M \<subseteq> (\<lambda>i. ?t0 + int i * Minute) ` {..< n}" by blast
  then have fin: "finite M" by (rule finite_subset) simp
  show ?thesis
  proof (cases "next_loop n s ?t0")
    case None
    with next_loop_spec [of n s ?t0] M have "M = {}" by auto
    then show ?thesis using None by simp
  next
    case (Some u)
    with next_loop_spec [of n s ?t0] obtain i where i: "i < n" "u = ?t0 + int i * Minute" "cron_matches s u"
      "\<forall>j < i. \<not> cron_matches s (?t0 + int j * Minute)" by auto
    have "Min M = u"
    proof (rule Min_eqI [OF fin])
      fix t assume "t \<in> M"
      with M obtain j where j: "t = ?t0 + int j * Minute" "cron_matches s t" by blast
      with i(4) have "i \<le> j" by (meson not_le)
      then show "u \<le> t" by (simp add: i(2) j(1) duration_values)
    qed (use M i in blast)
    moreover have "u \<in> M" using M i by blast
    ultimately show ?thesis using Some by auto
  qed
qed

text \<open>
  C37 (functional). The scheduler's next time is the first matching one: it is a whole minute after the given time that
  matches the schedule, and no whole minute in between matches; if no minute of the next 366 days times five
  matches, it is the time one day later.
\<close>

theorem cron_next_is_first:
  "cron_Next s after =
     (let minutes = {t. after < t \<and> t \<le> Truncate after Minute + int (366 * 24 * 60 * 5) * Minute \<and> t mod Minute = 0 \<and> cron_matches s t}
      in if minutes = {} then after + 24 * Hour else Min minutes)"
  by (simp only: cron_Next_def next_loop_Min Let_def option.case if_distrib [of "case_option _ _"] split: if_split)

text \<open>A date that does not exist fires every day: the schedule below asks for the thirtieth of February.\<close>

lemma impossible_date_fires_daily:
  assumes "cr_dayOfMonth s = [30]" and "cr_month s = [2]"
  shows "cron_Next s after = after + 24 * Hour"
proof -
  have no: "\<not> cron_matches s t" for t
  proof
    assume "cron_matches s t"
    then have "cv_day (Date t) = 30" "cv_month (Date t) = 2"
      using assms by (auto simp: cron_matches_def cron_field_matches_def Let_def)
    then show False using civil_of_day_sound [of "day_number t"] by (auto simp: Date_def month_lengths_def split: if_splits)
  qed
  show ?thesis
    by (simp only: cron_Next_def next_loop_Min no simp_thms Collect_const empty_iff if_True option.case) simp
qed

text \<open>Every value of a parsed field lies in the field's range.\<close>

definition field_in :: "int \<Rightarrow> int \<Rightarrow> cronField \<Rightarrow> bool" where
  "field_in lo hi f \<longleftrightarrow> list_all (\<lambda>x. lo \<le> x \<and> x \<le> hi) f"

lemma step_values_range:
  "step_values lo hi step e v acc = Inr f \<Longrightarrow> field_in lo hi acc \<Longrightarrow> field_in lo hi f"
proof (induction lo hi step e v acc rule: step_values.induct)
  case (1 lo hi step e v acc)
  consider "v > e \<or> step \<le> 0" | "\<not> (v > e \<or> step \<le> 0)" "\<not> (v < lo \<or> v > hi)" "\<not> v + step \<ge> 2 ^ 63"
    using 1(2) unfolding step_values.simps [of lo hi step e v acc] by (metis Inl_Inr_False)
  then show ?case
  proof cases
    case 1
    with "1.prems" show ?thesis by (simp add: step_values.simps)
  next
    case 2
    have "step_values lo hi step e (v + step) (if List.member acc v then acc else acc @ [v]) = Inr f"
      using "1.prems"(1) unfolding step_values.simps [of lo hi step e v acc] if_not_P [OF 2(1)] if_not_P [OF 2(2)] if_not_P [OF 2(3)] .
    moreover have "field_in lo hi (if List.member acc v then acc else acc @ [v])" using "1.prems"(2) 2(2) by (simp add: field_in_def)
    ultimately show ?thesis by (rule "1.IH" [OF 2])
  qed
qed

lemma cron_part_range:
  "cron_part lo hi p acc = Inr f \<Longrightarrow> field_in lo hi acc \<Longrightarrow> field_in lo hi f"
  by (auto simp: cron_part_def Let_def split: if_splits sum.splits prod.splits dest: step_values_range)

lemma cron_parts_range:
  "cron_parts lo hi ps acc = Inr f \<Longrightarrow> field_in lo hi acc \<Longrightarrow> field_in lo hi f"
proof (induction ps arbitrary: acc)
  case (Cons p ps)
  then show ?case using cron_part_range [of lo hi p acc] by (auto split: sum.splits)
qed simp

lemma parseCronField_range: "parseCronField expr lo hi = Inr f \<Longrightarrow> x \<in> set f \<Longrightarrow> lo \<le> x \<and> x \<le> hi"
  using cron_parts_range [of lo hi "Split expr '',''" "[]" f] by (simp add: parseCronField_def field_in_def list_all_iff)

end
