(* ===== verification/OfflineRepo.thy ===== *)
theory OfflineRepo
  imports GoTime Float64 Crypto
begin

text \<open>
  Offline knowledge: the data of \<^verbatim>\<open>offlineknowledge/types.go\<close>, the life cycle of an optimisation item, and the
  in-memory repository (\<^verbatim>\<open>memory_repository.go\<close>). Every method holds the mutex throughout, so it is one step;
  the copies it makes keep callers from sharing its slices and maps.
\<close>

section \<open>Data\<close>

datatype OfflineRunStatus = RunPending | RunRunning | RunCompleted | RunFailed

datatype ItemStatus =
  Candidate | EvidenceValidating | NeedsReview | Verified | ShadowEnabled | RegressionPassed | RegressionFailed | Published |
  KnowledgeGap | Rejected | Stale | Deprecated

fun offline_run_status_text :: "OfflineRunStatus \<Rightarrow> string" where
  "offline_run_status_text RunPending = ''pending''"
| "offline_run_status_text RunRunning = ''running''"
| "offline_run_status_text RunCompleted = ''completed''"
| "offline_run_status_text RunFailed = ''failed''"

fun item_status_text :: "ItemStatus \<Rightarrow> string" where
  "item_status_text Candidate = ''candidate''"
| "item_status_text EvidenceValidating = ''evidence_validating''"
| "item_status_text NeedsReview = ''needs_review''"
| "item_status_text Verified = ''verified''"
| "item_status_text ShadowEnabled = ''shadow_enabled''"
| "item_status_text RegressionPassed = ''regression_passed''"
| "item_status_text RegressionFailed = ''regression_failed''"
| "item_status_text Published = ''published''"
| "item_status_text KnowledgeGap = ''knowledge_gap''"
| "item_status_text Rejected = ''rejected''"
| "item_status_text Stale = ''stale''"
| "item_status_text Deprecated = ''deprecated''"

type_synonym ItemType = string

definition ItemTypeAnswer :: ItemType where
  "ItemTypeAnswer = ''answer_item''"

definition ItemTypeQueryRewrite :: ItemType where
  "ItemTypeQueryRewrite = ''query_rewrite_item''"

definition ItemTypeKnowledgeGap :: ItemType where
  "ItemTypeKnowledgeGap = ''knowledge_gap_item''"

record SourceFingerprint =
  sfp_DocID :: string
  sfp_DocVersion :: string
  sfp_ChunkID :: string
  sfp_ChunkContentHash :: string

record OfflineEvidence =
  oe_ChunkID :: string
  oe_DocID :: string
  oe_Quote :: string
  oe_Supports :: string

record DeepSearchStep =
  dst_Step :: int
  dst_Tool :: string
  dst_Query :: string
  dst_Observation :: string
  dst_Decision :: string

type_synonym json_map = "(string, json) gomap"

record OfflineKnowledgeRun =
  okr_ID :: string
  okr_TenantID :: string
  okr_KBID :: string
  okr_Status :: OfflineRunStatus
  okr_WindowStart :: gotime
  okr_WindowEnd :: gotime
  okr_ConfigHash :: string
  okr_ConfigJSON :: json_map
  okr_StartedAt :: gotime
  okr_FinishedAt :: gotime
  okr_Error :: string

record QuestionCluster =
  qc_ID :: string
  qc_TenantID :: string
  qc_RunID :: string
  qc_KBID :: string
  qc_CanonicalQuestion :: string
  qc_NormalizedQuestion :: string
  qc_QuestionHash :: string
  qc_EmbeddingRef :: string
  qc_EmbeddingJSON :: "float64 list"
  qc_OccurrenceCount :: int
  qc_SampleQuestions :: "string list"
  qc_TraceIDs :: "string list"
  qc_LongTail :: bool
  qc_CreatedAt :: gotime

record OptimizationItem =
  oi_ID :: string
  oi_TenantID :: string
  oi_RunID :: string
  oi_KBID :: string
  oi_QuestionClusterID :: string
  oi_ItemType :: ItemType
  oi_Status :: ItemStatus
  oi_CanonicalQuestion :: string
  oi_FinalAnswer :: string
  oi_RecallQuality :: string
  oi_FailureType :: string
  oi_Confidence :: float64
  oi_SourceFingerprints :: "SourceFingerprint list"
  oi_Evidence :: "OfflineEvidence list"
  oi_DeepSearchSteps :: "DeepSearchStep list"
  oi_EvalReportJSON :: string
  oi_CreatedAt :: gotime
  oi_UpdatedAt :: gotime
  oi_PublishedAt :: gotime

record OptimizationItemEvent =
  oie_ID :: string
  oie_TenantID :: string
  oie_ItemID :: string
  oie_EventType :: string
  oie_Operator :: string
  oie_Payload :: json_map
  oie_CreatedAt :: gotime

record ShadowRetrievalEvent =
  sre_ID :: string
  sre_TenantID :: string
  sre_KBID :: string
  sre_ItemID :: string
  sre_TraceID :: string
  sre_Query :: string
  sre_Matched :: bool
  sre_Injected :: bool
  sre_Rank :: int
  sre_Score :: float64
  sre_RecallLift :: float64
  sre_AnswerLift :: float64
  sre_HallucinationRisk :: float64
  sre_CreatedAt :: gotime

record NegativeFeedback =
  nf_ID :: string
  nf_TenantID :: string
  nf_KBID :: string
  nf_TraceID :: string
  nf_Query :: string
  nf_Reason :: string
  nf_CreatedAt :: gotime

record CodexToolAuditEvent =
  ctae_ID :: string
  ctae_SessionID :: string
  ctae_TenantID :: string
  ctae_KBID :: string
  ctae_Tool :: string
  ctae_Rows :: int
  ctae_Steps :: int
  ctae_Allowed :: bool
  ctae_Error :: string
  ctae_StartedAt :: gotime
  ctae_FinishedAt :: gotime

section \<open>The life cycle of an item\<close>

fun itemStatusTransitions :: "ItemStatus \<Rightarrow> ItemStatus list" where
  "itemStatusTransitions Candidate = [EvidenceValidating]"
| "itemStatusTransitions EvidenceValidating = [Rejected, KnowledgeGap, NeedsReview, Verified]"
| "itemStatusTransitions NeedsReview = [Verified, Rejected]"
| "itemStatusTransitions Verified = [ShadowEnabled, Rejected]"
| "itemStatusTransitions ShadowEnabled = [RegressionPassed, RegressionFailed]"
| "itemStatusTransitions RegressionFailed = [NeedsReview, Rejected, Verified]"
| "itemStatusTransitions RegressionPassed = [Published, Rejected, Deprecated]"
| "itemStatusTransitions Published = [Stale, Deprecated]"
| "itemStatusTransitions Stale = [EvidenceValidating, Deprecated]"
| "itemStatusTransitions Rejected = [Candidate]"
| "itemStatusTransitions KnowledgeGap = [Candidate]"
| "itemStatusTransitions Deprecated = []"

definition CanTransition :: "ItemStatus \<Rightarrow> ItemStatus \<Rightarrow> bool" where
  "CanTransition a b \<longleftrightarrow> List.member (itemStatusTransitions a) b"

section \<open>Filters\<close>

text \<open>An empty string in a filter, or a zero time, leaves that field open; an open status is \<open>None\<close>.\<close>

record OfflineRunFilter =
  rf_TenantID :: string
  rf_KBID :: string
  rf_Status :: "OfflineRunStatus option"
  rf_Limit :: int

record QuestionClusterFilter =
  qf_TenantID :: string
  qf_KBID :: string
  qf_RunID :: string
  qf_QuestionHash :: string
  qf_Limit :: int

record OptimizationItemFilter =
  oif_TenantID :: string
  oif_KBID :: string
  oif_RunID :: string
  oif_QuestionClusterID :: string
  oif_Status :: "ItemStatus option"
  oif_ItemType :: ItemType
  oif_Limit :: int

record OptimizationItemEventFilter =
  ief_TenantID :: string
  ief_ItemID :: string
  ief_EventType :: string
  ief_Since :: gotime
  ief_Until :: gotime
  ief_Limit :: int

record ShadowRetrievalEventFilter =
  sef_TenantID :: string
  sef_KBID :: string
  sef_ItemID :: string
  sef_TraceID :: string
  sef_Since :: gotime
  sef_Until :: gotime
  sef_Limit :: int

record CodexToolAuditFilter =
  caf_TenantID :: string
  caf_KBID :: string
  caf_SessionID :: string
  caf_Tool :: string
  caf_Since :: gotime
  caf_Until :: gotime
  caf_Limit :: int

record NegativeFeedbackFilter =
  nff_TenantID :: string
  nff_KBID :: string
  nff_Since :: gotime
  nff_Until :: gotime
  nff_TraceIDs :: "string list"
  nff_Limit :: int

definition open_or :: "string \<Rightarrow> string \<Rightarrow> bool" where
  "open_or wanted s \<longleftrightarrow> wanted = [] \<or> s = wanted"

definition in_window :: "gotime \<Rightarrow> gotime \<Rightarrow> gotime \<Rightarrow> bool" where
  "in_window since until t \<longleftrightarrow> (IsZero since \<or> since \<le> t) \<and> (IsZero until \<or> t < until)"

text \<open>Newest first, then by identifier.\<close>

definition newest_first :: "('a \<Rightarrow> gotime) \<Rightarrow> ('a \<Rightarrow> string) \<Rightarrow> 'a list \<Rightarrow> 'a list" where
  "newest_first time name xs = sort_by (\<lambda>a b. if time a = time b then name a < name b else After (time a) (time b)) xs"

definition limit_list :: "'a list \<Rightarrow> int \<Rightarrow> 'a list" where
  "limit_list xs n = (if n > 0 \<and> int (length xs) > n then take (nat n) xs else xs)"

section \<open>The repository\<close>

record OfflineRepository =
  ofr_runs :: "(string, OfflineKnowledgeRun) gomap"
  ofr_clusters :: "(string, QuestionCluster) gomap"
  ofr_items :: "(string, OptimizationItem) gomap"
  ofr_events :: "OptimizationItemEvent list"
  ofr_shadow :: "ShadowRetrievalEvent list"
  ofr_audit :: "CodexToolAuditEvent list"
  ofr_feedback :: "NegativeFeedback list"

definition NewOfflineRepository :: OfflineRepository where
  "NewOfflineRepository =
     \<lparr>ofr_runs = [], ofr_clusters = [], ofr_items = [], ofr_events = [], ofr_shadow = [], ofr_audit = [], ofr_feedback = []\<rparr>"

definition shortHash :: "string \<Rightarrow> string" where
  "shortHash v = take 16 (hex_encode (sha256_Sum v))"

definition stableID :: "string \<Rightarrow> string list \<Rightarrow> string" where
  "stableID prefix parts = prefix @ ''_'' @ shortHash (Join parts [CHR 0x00])"

definition AddNegativeFeedback :: "gotime \<Rightarrow> NegativeFeedback \<Rightarrow> OfflineRepository \<Rightarrow> OfflineRepository" where
  "AddNegativeFeedback now item r =
     (let item = (if nf_ID item = []
                  then item\<lparr>nf_ID := stableID ''negfb'' [nf_TenantID item, nf_KBID item, nf_TraceID item, nf_Query item, nf_Reason item,
                              RFC3339Nano (nf_CreatedAt item)]\<rparr>
                  else item);
          item = (if IsZero (nf_CreatedAt item) then item\<lparr>nf_CreatedAt := now\<rparr> else item)
      in r\<lparr>ofr_feedback := ofr_feedback r @ [item]\<rparr>)"

definition feedback_matches :: "NegativeFeedbackFilter \<Rightarrow> NegativeFeedback \<Rightarrow> bool" where
  "feedback_matches f item \<longleftrightarrow>
     (let traceIDs = filter (\<lambda>t. t \<noteq> []) (nff_TraceIDs f)
      in open_or (nff_TenantID f) (nf_TenantID item) \<and> open_or (nff_KBID f) (nf_KBID item) \<and>
         in_window (nff_Since f) (nff_Until f) (nf_CreatedAt item) \<and>
         (traceIDs = [] \<or> nf_TraceID item = [] \<or> List.member traceIDs (nf_TraceID item)))"

definition ListNegativeFeedback :: "NegativeFeedbackFilter \<Rightarrow> OfflineRepository \<Rightarrow> NegativeFeedback list" where
  "ListNegativeFeedback f r =
     limit_list (newest_first nf_CreatedAt nf_ID (filter (feedback_matches f) (ofr_feedback r))) (nff_Limit f)"

definition CreateRun :: "OfflineKnowledgeRun \<Rightarrow> OfflineRepository \<Rightarrow> OfflineRepository" where
  "CreateRun run r = r\<lparr>ofr_runs := gput (okr_ID run) run (ofr_runs r)\<rparr>"

definition GetRun :: "string \<Rightarrow> string \<Rightarrow> OfflineRepository \<Rightarrow> OfflineKnowledgeRun option" where
  "GetRun tenantID runID r =
     (case map_of (ofr_runs r) runID of None \<Rightarrow> None | Some run \<Rightarrow> if okr_TenantID run \<noteq> tenantID then None else Some run)"

definition ListRuns :: "OfflineRunFilter \<Rightarrow> OfflineRepository \<Rightarrow> OfflineKnowledgeRun list" where
  "ListRuns f r =
     limit_list (newest_first okr_StartedAt okr_ID
       (filter (\<lambda>run. open_or (rf_TenantID f) (okr_TenantID run) \<and> open_or (rf_KBID f) (okr_KBID run) \<and>
                 (rf_Status f = None \<or> rf_Status f = Some (okr_Status run))) (map snd (ofr_runs r)))) (rf_Limit f)"

definition UpdateRun :: "OfflineKnowledgeRun \<Rightarrow> OfflineRepository \<Rightarrow> OfflineRepository \<times> bool" where
  "UpdateRun run r =
     (case GetRun (okr_TenantID run) (okr_ID run) r of
        None \<Rightarrow> (r, False)
      | Some _ \<Rightarrow> (r\<lparr>ofr_runs := gput (okr_ID run) run (ofr_runs r)\<rparr>, True))"

definition UpsertQuestionCluster :: "QuestionCluster \<Rightarrow> OfflineRepository \<Rightarrow> OfflineRepository" where
  "UpsertQuestionCluster c r = r\<lparr>ofr_clusters := gput (qc_ID c) c (ofr_clusters r)\<rparr>"

definition GetQuestionCluster :: "string \<Rightarrow> string \<Rightarrow> OfflineRepository \<Rightarrow> QuestionCluster option" where
  "GetQuestionCluster tenantID clusterID r =
     (case map_of (ofr_clusters r) clusterID of None \<Rightarrow> None | Some c \<Rightarrow> if qc_TenantID c \<noteq> tenantID then None else Some c)"

definition ListQuestionClusters :: "QuestionClusterFilter \<Rightarrow> OfflineRepository \<Rightarrow> QuestionCluster list" where
  "ListQuestionClusters f r =
     limit_list (newest_first qc_CreatedAt qc_ID
       (filter (\<lambda>c. open_or (qf_TenantID f) (qc_TenantID c) \<and> open_or (qf_KBID f) (qc_KBID c) \<and>
                 open_or (qf_RunID f) (qc_RunID c) \<and> open_or (qf_QuestionHash f) (qc_QuestionHash c)) (map snd (ofr_clusters r)))) (qf_Limit f)"

definition CreateOptimizationItem :: "OptimizationItem \<Rightarrow> OfflineRepository \<Rightarrow> OfflineRepository" where
  "CreateOptimizationItem item r = r\<lparr>ofr_items := gput (oi_ID item) item (ofr_items r)\<rparr>"

definition GetOptimizationItem :: "string \<Rightarrow> string \<Rightarrow> OfflineRepository \<Rightarrow> OptimizationItem option" where
  "GetOptimizationItem tenantID itemID r =
     (case map_of (ofr_items r) itemID of None \<Rightarrow> None | Some item \<Rightarrow> if oi_TenantID item \<noteq> tenantID then None else Some item)"

definition item_matches :: "OptimizationItemFilter \<Rightarrow> OptimizationItem \<Rightarrow> bool" where
  "item_matches f item \<longleftrightarrow>
     open_or (oif_TenantID f) (oi_TenantID item) \<and> open_or (oif_KBID f) (oi_KBID item) \<and> open_or (oif_RunID f) (oi_RunID item) \<and>
     open_or (oif_QuestionClusterID f) (oi_QuestionClusterID item) \<and>
     (oif_Status f = None \<or> oif_Status f = Some (oi_Status item)) \<and> open_or (oif_ItemType f) (oi_ItemType item)"

definition ListOptimizationItems :: "OptimizationItemFilter \<Rightarrow> OfflineRepository \<Rightarrow> OptimizationItem list" where
  "ListOptimizationItems f r =
     limit_list (newest_first oi_UpdatedAt oi_ID (filter (item_matches f) (map snd (ofr_items r)))) (oif_Limit f)"

definition UpdateOptimizationItem :: "OptimizationItem \<Rightarrow> OfflineRepository \<Rightarrow> OfflineRepository \<times> bool" where
  "UpdateOptimizationItem item r =
     (case GetOptimizationItem (oi_TenantID item) (oi_ID item) r of
        None \<Rightarrow> (r, False)
      | Some _ \<Rightarrow> (r\<lparr>ofr_items := gput (oi_ID item) item (ofr_items r)\<rparr>, True))"

definition UpdateOptimizationItemStatus ::
  "string \<Rightarrow> string \<Rightarrow> ItemStatus \<Rightarrow> gotime \<Rightarrow> OfflineRepository \<Rightarrow> OfflineRepository \<times> bool" where
  "UpdateOptimizationItemStatus tenantID itemID status updatedAt r =
     (case GetOptimizationItem tenantID itemID r of
        None \<Rightarrow> (r, False)
      | Some item \<Rightarrow> (r\<lparr>ofr_items := gput itemID (item\<lparr>oi_Status := status, oi_UpdatedAt := updatedAt\<rparr>) (ofr_items r)\<rparr>, True))"

definition AppendItemEvent :: "OptimizationItemEvent \<Rightarrow> OfflineRepository \<Rightarrow> OfflineRepository" where
  "AppendItemEvent e r = r\<lparr>ofr_events := ofr_events r @ [e]\<rparr>"

definition ListItemEvents :: "OptimizationItemEventFilter \<Rightarrow> OfflineRepository \<Rightarrow> OptimizationItemEvent list" where
  "ListItemEvents f r =
     limit_list (newest_first oie_CreatedAt oie_ID
       (filter (\<lambda>e. open_or (ief_TenantID f) (oie_TenantID e) \<and> open_or (ief_ItemID f) (oie_ItemID e) \<and>
                 open_or (ief_EventType f) (oie_EventType e) \<and> in_window (ief_Since f) (ief_Until f) (oie_CreatedAt e)) (ofr_events r))) (ief_Limit f)"

definition RecordShadowEvent :: "ShadowRetrievalEvent \<Rightarrow> OfflineRepository \<Rightarrow> OfflineRepository" where
  "RecordShadowEvent e r = r\<lparr>ofr_shadow := ofr_shadow r @ [e]\<rparr>"

definition ListShadowEvents :: "ShadowRetrievalEventFilter \<Rightarrow> OfflineRepository \<Rightarrow> ShadowRetrievalEvent list" where
  "ListShadowEvents f r =
     limit_list (newest_first sre_CreatedAt sre_ID
       (filter (\<lambda>e. open_or (sef_TenantID f) (sre_TenantID e) \<and> open_or (sef_KBID f) (sre_KBID e) \<and>
                 open_or (sef_ItemID f) (sre_ItemID e) \<and> open_or (sef_TraceID f) (sre_TraceID e) \<and>
                 in_window (sef_Since f) (sef_Until f) (sre_CreatedAt e)) (ofr_shadow r))) (sef_Limit f)"

definition RecordCodexToolAudit :: "CodexToolAuditEvent \<Rightarrow> OfflineRepository \<Rightarrow> OfflineRepository" where
  "RecordCodexToolAudit e r = r\<lparr>ofr_audit := ofr_audit r @ [e]\<rparr>"

definition ListCodexToolAuditEvents :: "CodexToolAuditFilter \<Rightarrow> OfflineRepository \<Rightarrow> CodexToolAuditEvent list" where
  "ListCodexToolAuditEvents f r =
     limit_list (newest_first ctae_StartedAt ctae_ID
       (filter (\<lambda>e. open_or (caf_TenantID f) (ctae_TenantID e) \<and> open_or (caf_KBID f) (ctae_KBID e) \<and>
                 open_or (caf_SessionID f) (ctae_SessionID e) \<and> open_or (caf_Tool f) (ctae_Tool e) \<and>
                 in_window (caf_Since f) (caf_Until f) (ctae_StartedAt e)) (ofr_audit r))) (caf_Limit f)"

section \<open>How lookups see updates\<close>

lemma set_limit_list: "x \<in> set (limit_list xs n) \<Longrightarrow> x \<in> set xs"
  by (auto simp: limit_list_def split: if_splits dest: in_set_takeD)

lemma set_newest_first [simp]: "set (newest_first time name xs) = set xs"
  by (simp add: newest_first_def)

lemma length_limit_list: "0 < n \<Longrightarrow> int (length (limit_list xs n)) \<le> n"
  by (simp add: limit_list_def)

lemma GetOptimizationItem_iff:
  "GetOptimizationItem tenantID itemID r = Some item \<longleftrightarrow> map_of (ofr_items r) itemID = Some item \<and> oi_TenantID item = tenantID"
  by (auto simp: GetOptimizationItem_def split: option.splits if_splits)

lemma ListOptimizationItems_mem:
  "x \<in> set (ListOptimizationItems f r) \<Longrightarrow> item_matches f x \<and> x \<in> snd ` set (ofr_items r)"
  by (auto simp: ListOptimizationItems_def dest!: set_limit_list)

end
