(* ===== verification/OfflineCodex.thy ===== *)
theory OfflineCodex
  imports OfflineRepo KBRetrieval
begin

text \<open>
  What offline knowledge accepts as evidence: the check of an analyzer's response (\<^verbatim>\<open>codex.go\<close>), the replay of
  a question over the retriever (\<^verbatim>\<open>recall_replayer.go\<close>), the reader of source chunks and the validator of items
  (\<^verbatim>\<open>source_reader.go\<close>, \<^verbatim>\<open>validator.go\<close>). The analyzer, the retriever and the judge of conclusions are arguments.
\<close>

section \<open>Errors\<close>

text \<open>The sentinel errors of the package; the details that a message adds are left out. \<open>Dep\<close> is an error of a dependency.\<close>

datatype offline_error =
    Err_ServiceRepositoryRequired | Err_HistorySourceRequired | Err_QuestionClustererRequired | Err_RecallReplayerRequired
  | Err_CodexAnalyzerRequired | Err_ValidatorRequired | Err_RegressionRunnerRequired | Err_ValidatorDisabled
  | Err_RegressionDisabled | Err_RegressionUnavailable | Err_RunNotFound | Err_RunExecutionConflict
  | Err_OptimizationItemNotFound | Err_InvalidItemTransition
  | Err_TenantMismatch | Err_KBMismatch | Err_LowConfidence | Err_MissingEvidence | Err_MissingQuote | Err_MissingFingerprint
  | Err_SourceNotFound | Err_StaleFingerprint | Err_QuoteNotContained | Err_ConclusionRejected | Err_ConclusionDisabled
  | Err_ConclusionUnavailable | Err_SourceReaderUnavailable | Err_SourceMetadataReaderRequired
  | Err_CodexInvalidEnum | Err_CodexMissingEvidence | Err_CodexActionItemMismatch | Err_CodexStepBudgetExceeded
  | Err_CodexUnknownTool | Err_CodexQuotaExceeded
  | Err_ShadowRepositoryRequired | Err_ScopedShadowItemMissing | Err_ScopedShadowItemDisabled | Err_ScopedShadowItemStale
  | Err_Marshal | Dep string

section \<open>The analyzer's response\<close>

record ToolQuota =
  tq_MaxTokens :: int
  tq_MaxRowsPerCall :: int
  tq_MaxQPSPerTenant :: int
  tq_MaxTimeout :: duration
  tq_MaxDeepSearchSteps :: int

record ToolUsage =
  us_Tool :: string
  us_Tokens :: int
  us_Rows :: int
  us_QPS :: int
  us_Timeout :: duration
  us_Steps :: int

record CodexAnalyzeResponse =
  car_ItemType :: ItemType
  car_RecommendedAction :: string
  car_RecallQuality :: string
  car_FailureType :: string
  car_Confidence :: float64
  car_FinalAnswer :: string
  car_Evidence :: "OfflineEvidence list"
  car_MissingEvidence :: "string list"
  car_DeepSearchSteps :: "DeepSearchStep list"
  car_ToolUsage :: "ToolUsage list"
  car_Metadata :: json_map

definition isValidItemType :: "ItemType \<Rightarrow> bool" where
  "isValidItemType t \<longleftrightarrow> t = ItemTypeAnswer \<or> t = ItemTypeQueryRewrite \<or> t = ItemTypeKnowledgeGap"

definition isValidRecommendedAction :: "string \<Rightarrow> bool" where
  "isValidRecommendedAction a \<longleftrightarrow>
     List.member [''create_answer_item'', ''create_query_rewrite_item'', ''create_knowledge_gap_item'', ''needs_review'', ''reject''] a"

definition recommendedActionItemType :: "string \<Rightarrow> ItemType option" where
  "recommendedActionItemType a =
     (if a = ''create_answer_item'' then Some ItemTypeAnswer
      else if a = ''create_query_rewrite_item'' then Some ItemTypeQueryRewrite
      else if a = ''create_knowledge_gap_item'' then Some ItemTypeKnowledgeGap
      else None)"

definition validateRecommendedActionItemType :: "string \<Rightarrow> ItemType \<Rightarrow> bool" where
  "validateRecommendedActionItemType a t \<longleftrightarrow>
     (case recommendedActionItemType a of None \<Rightarrow> True | Some expected \<Rightarrow> t = expected)"

definition isValidRecallQuality :: "string \<Rightarrow> bool" where
  "isValidRecallQuality q \<longleftrightarrow>
     List.member [''hit'', ''partial_hit'', ''miss'', ''bad_answer'', ''no_answer_in_kb'', ''ambiguous'', ''duplicate''] q"

definition isValidFailureType :: "string \<Rightarrow> bool" where
  "isValidFailureType f \<longleftrightarrow>
     List.member [''keyword_mismatch'', ''semantic_gap'', ''chunk_boundary'', ''rerank_error'', ''graph_missing'', ''generation_error'',
       ''knowledge_gap'', ''unclear_question''] f"

definition allowedReadOnlyTools :: "string list" where
  "allowedReadOnlyTools =
     [''search_chunks_by_text'', ''search_chunks_by_vector'', ''get_chunk_neighbors'', ''get_document_chunks'', ''get_related_graph_chunks'',
      ''get_eval_results_by_question'', ''get_existing_optimization_items'', ''replay_recall_with_query'']"

definition isReadOnlyTool :: "string \<Rightarrow> bool" where
  "isReadOnlyTool tool \<longleftrightarrow> List.member allowedReadOnlyTools tool"

definition over :: "int \<Rightarrow> int \<Rightarrow> bool" where
  "over maximum used \<longleftrightarrow> maximum > 0 \<and> used > maximum"

definition guard_Validate :: "ToolQuota \<Rightarrow> ToolUsage \<Rightarrow> offline_error option" where
  "guard_Validate q u =
     (if \<not> isReadOnlyTool (us_Tool u) then Some Err_CodexUnknownTool
      else if us_Tokens u < 0 \<or> us_Rows u < 0 \<or> us_QPS u < 0 \<or> us_Timeout u < 0 \<or> us_Steps u < 0 then Some Err_CodexQuotaExceeded
      else if over (tq_MaxTokens q) (us_Tokens u) \<or> over (tq_MaxRowsPerCall q) (us_Rows u) \<or> over (tq_MaxQPSPerTenant q) (us_QPS u) \<or>
              over (tq_MaxTimeout q) (us_Timeout u) \<or> over (tq_MaxDeepSearchSteps q) (us_Steps u) then Some Err_CodexQuotaExceeded
      else None)"

fun check_steps :: "DeepSearchStep list \<Rightarrow> offline_error option" where
  "check_steps [] = None"
| "check_steps (s # ss) =
     (if dst_Step s \<le> 0 then Some Err_CodexInvalidEnum
      else if \<not> isReadOnlyTool (dst_Tool s) then Some Err_CodexUnknownTool
      else check_steps ss)"

fun check_usage :: "ToolQuota \<Rightarrow> ToolUsage list \<Rightarrow> offline_error option" where
  "check_usage q [] = None"
| "check_usage q (u # us) = (case guard_Validate q u of Some err \<Rightarrow> Some err | None \<Rightarrow> check_usage q us)"

definition ValidateCodexResponse :: "CodexAnalyzeResponse \<Rightarrow> ToolQuota \<Rightarrow> offline_error option" where
  "ValidateCodexResponse r q =
     (if \<not> isValidItemType (car_ItemType r) then Some Err_CodexInvalidEnum
      else if \<not> isValidRecommendedAction (car_RecommendedAction r) then Some Err_CodexInvalidEnum
      else if \<not> validateRecommendedActionItemType (car_RecommendedAction r) (car_ItemType r) then Some Err_CodexActionItemMismatch
      else if \<not> isValidRecallQuality (car_RecallQuality r) then Some Err_CodexInvalidEnum
      else if car_FailureType r \<noteq> [] \<and> \<not> isValidFailureType (car_FailureType r) then Some Err_CodexInvalidEnum
      else if flt (car_Confidence r) (Fin 0) \<or> flt (Fin 1) (car_Confidence r) then Some Err_CodexInvalidEnum
      else if car_ItemType r = ItemTypeAnswer \<and> car_Evidence r = [] then Some Err_CodexMissingEvidence
      else if over (tq_MaxDeepSearchSteps q) (int (length (car_DeepSearchSteps r))) then Some Err_CodexStepBudgetExceeded
      else case check_steps (car_DeepSearchSteps r) of
        Some err \<Rightarrow> Some err
      | None \<Rightarrow> check_usage q (car_ToolUsage r))"

section \<open>Source chunks\<close>

record SourceChunk =
  src_TenantID :: string
  src_KBID :: string
  src_DocID :: string
  src_DocVersion :: string
  src_ChunkID :: string
  src_ChunkContentHash :: string
  src_Text :: string

definition stableHash :: "string \<Rightarrow> string" where
  "stableHash v = hex_encode (sha256_Sum v)"

fun first_trimmed :: "metadata \<Rightarrow> string list \<Rightarrow> string option" where
  "first_trimmed md [] = None"
| "first_trimmed md (k # ks) = (let v = TrimSpace (gget0 [] md k) in if v \<noteq> [] then Some v else first_trimmed md ks)"

definition sourceDocVersion :: "Chunk \<Rightarrow> string" where
  "sourceDocVersion c =
     (case first_trimmed (c_Metadata c) [''doc_version'', ''document_version'', ''document_content_hash'', ''doc_content_hash'', ''content_hash''] of
        Some v \<Rightarrow> v
      | None \<Rightarrow> if c_SourceURI c \<noteq> [] then ''source:'' @ stableHash (c_SourceURI c) else ''doc:'' @ stableHash (c_DocumentID c))"

definition sourceChunkContentHash :: "Chunk \<Rightarrow> string" where
  "sourceChunkContentHash c =
     (case first_trimmed (c_Metadata c) [''chunk_content_hash'', ''content_hash''] of
        Some v \<Rightarrow> v
      | None \<Rightarrow> ''sha256:'' @ stableHash (c_Content c))"

definition ReadSourceMetadata :: "string \<Rightarrow> string \<Rightarrow> Chunk \<Rightarrow> SourceChunk option" where
  "ReadSourceMetadata tenantID kbID c =
     (if c_ID c = [] \<or> c_TenantID c \<noteq> tenantID \<or> c_KnowledgeBaseID c \<noteq> kbID then None
      else Some \<lparr>src_TenantID = c_TenantID c, src_KBID = c_KnowledgeBaseID c, src_DocID = c_DocumentID c,
             src_DocVersion = sourceDocVersion c, src_ChunkID = c_ID c, src_ChunkContentHash = sourceChunkContentHash c,
             src_Text = c_Content c\<rparr>)"

text \<open>\<open>chunks\<close> is the chunk source, \<open>None\<close> where there is none. The first chunk with the identifier decides.\<close>

type_synonym chunk_source = "string \<Rightarrow> string \<Rightarrow> Chunk list"

definition ReadSourceChunk :: "chunk_source option \<Rightarrow> string \<Rightarrow> string \<Rightarrow> string \<Rightarrow> offline_error + SourceChunk option" where
  "ReadSourceChunk chunks tenantID kbID chunkID =
     (case chunks of
        None \<Rightarrow> Inl Err_SourceReaderUnavailable
      | Some source \<Rightarrow>
          Inr (case find (\<lambda>c. c_ID c = chunkID) (source tenantID kbID) of
                 None \<Rightarrow> None
               | Some c \<Rightarrow> ReadSourceMetadata tenantID kbID c))"

section \<open>The validator\<close>

type_synonym source_reader = "string \<Rightarrow> string \<Rightarrow> string \<Rightarrow> offline_error + SourceChunk option"

record offline_Validator =
  ov_sourceReader :: "source_reader option"
  ov_judge :: "(OptimizationItem \<Rightarrow> OfflineEvidence list \<Rightarrow> offline_error + bool) option"
  ov_minConfidence :: float64

definition NewValidator ::
  "source_reader option \<Rightarrow> (OptimizationItem \<Rightarrow> OfflineEvidence list \<Rightarrow> offline_error + bool) option \<Rightarrow> float64 \<Rightarrow> offline_Validator" where
  "NewValidator reader judge m =
     \<lparr>ov_sourceReader = reader, ov_judge = judge, ov_minConfidence = (if feq m (Fin 0) then fround (8 / 10) else m)\<rparr>"

definition validateSourceFingerprint ::
  "string \<Rightarrow> string \<Rightarrow> OfflineEvidence \<Rightarrow> SourceFingerprint \<Rightarrow> SourceChunk \<Rightarrow> offline_error option" where
  "validateSourceFingerprint tenantID kbID e f c =
     (if src_TenantID c \<noteq> tenantID then Some Err_TenantMismatch
      else if src_KBID c \<noteq> kbID then Some Err_KBMismatch
      else if oe_DocID e \<noteq> [] \<and> src_DocID c \<noteq> oe_DocID e then Some Err_StaleFingerprint
      else if sfp_DocID f \<noteq> [] \<and> src_DocID c \<noteq> sfp_DocID f then Some Err_StaleFingerprint
      else if sfp_DocVersion f \<noteq> src_DocVersion c then Some Err_StaleFingerprint
      else if sfp_ChunkContentHash f \<noteq> src_ChunkContentHash c then Some Err_StaleFingerprint
      else None)"

definition validate_evidence ::
  "source_reader option \<Rightarrow> string \<Rightarrow> string \<Rightarrow> (string, SourceFingerprint) gomap \<Rightarrow> OfflineEvidence \<Rightarrow> offline_error option" where
  "validate_evidence reader tenantID kbID fps e =
     (if TrimSpace (oe_Quote e) = [] then Some Err_MissingQuote
      else case map_of fps (oe_ChunkID e) of
        None \<Rightarrow> Some Err_MissingFingerprint
      | Some f \<Rightarrow>
          (case reader of
             None \<Rightarrow> Some Err_SourceReaderUnavailable
           | Some read \<Rightarrow>
               (case read tenantID kbID (oe_ChunkID e) of
                  Inl err \<Rightarrow> Some err
                | Inr None \<Rightarrow> Some Err_SourceNotFound
                | Inr (Some c) \<Rightarrow>
                    (case validateSourceFingerprint tenantID kbID e f c of
                       Some err \<Rightarrow> Some err
                     | None \<Rightarrow> if Contains (src_Text c) (oe_Quote e) then None else Some Err_QuoteNotContained))))"

fun first_error :: "('a \<Rightarrow> offline_error option) \<Rightarrow> 'a list \<Rightarrow> offline_error option" where
  "first_error check [] = None"
| "first_error check (x # xs) = (case check x of Some err \<Rightarrow> Some err | None \<Rightarrow> first_error check xs)"

definition fingerprint_map :: "SourceFingerprint list \<Rightarrow> (string, SourceFingerprint) gomap" where
  "fingerprint_map fps = fold (\<lambda>f m. if sfp_ChunkID f \<noteq> [] then gput (sfp_ChunkID f) f m else m) fps []"

definition ValidateItem :: "offline_Validator \<Rightarrow> string \<Rightarrow> string \<Rightarrow> OptimizationItem \<Rightarrow> offline_error option" where
  "ValidateItem v tenantID kbID item =
     (if oi_TenantID item \<noteq> tenantID then Some Err_TenantMismatch
      else if oi_KBID item \<noteq> kbID then Some Err_KBMismatch
      else if flt (oi_Confidence item) (ov_minConfidence v) then Some Err_LowConfidence
      else if oi_Evidence item = [] then Some Err_MissingEvidence
      else if oi_SourceFingerprints item = [] then Some Err_MissingFingerprint
      else case first_error (validate_evidence (ov_sourceReader v) tenantID kbID (fingerprint_map (oi_SourceFingerprints item))) (oi_Evidence item) of
        Some err \<Rightarrow> Some err
      | None \<Rightarrow>
          if oi_ItemType item \<noteq> ItemTypeAnswer then None
          else (case ov_judge v of
                  None \<Rightarrow> Some Err_ConclusionUnavailable
                | Some judge \<Rightarrow>
                    (case judge item (oi_Evidence item) of
                       Inl err \<Rightarrow> Some err
                     | Inr accepted \<Rightarrow> if accepted then None else Some Err_ConclusionRejected)))"

section \<open>Replaying a question\<close>

record BaselineRecallItem =
  br_TraceID :: string
  br_ChunkID :: string
  br_DocID :: string
  br_DocVersion :: string
  br_ChunkContentHash :: string
  br_Rank :: int
  br_Score :: float64
  br_Matched :: bool

record TraceSummary =
  tsm_TraceID :: string
  tsm_Query :: string

record RecallReplayResult =
  rrp_BaselineRecallResults :: "BaselineRecallItem list"
  rrp_TraceSummaries :: "TraceSummary list"
  rrp_SourceFingerprints :: "SourceFingerprint list"
  rrp_Metadata :: json_map

record RetrieverRecallReplayer =
  rrr_Retriever :: "(SearchRequest \<Rightarrow> offline_error + SearchResult list) option"
  rrr_SourceReader :: "(string \<Rightarrow> string \<Rightarrow> Chunk \<Rightarrow> offline_error + SourceChunk option) option"
  rrr_TopK :: int
  rrr_DenseTopK :: int
  rrr_SparseTopK :: int
  rrr_IncludeTraceID :: bool

definition traceSummariesForCluster :: "QuestionCluster \<Rightarrow> TraceSummary list" where
  "traceSummariesForCluster c =
     map (\<lambda>t. \<lparr>tsm_TraceID = t, tsm_Query = qc_CanonicalQuestion c\<rparr>) (filter (\<lambda>t. t \<noteq> []) (qc_TraceIDs c))"

definition fingerprint_of :: "SourceChunk \<Rightarrow> SourceFingerprint" where
  "fingerprint_of s =
     \<lparr>sfp_DocID = src_DocID s, sfp_DocVersion = src_DocVersion s, sfp_ChunkID = src_ChunkID s,
      sfp_ChunkContentHash = src_ChunkContentHash s\<rparr>"

definition fingerprint_key :: "SourceFingerprint \<Rightarrow> string" where
  "fingerprint_key f = Join [sfp_DocID f, sfp_DocVersion f, sfp_ChunkID f, sfp_ChunkContentHash f] [CHR 0x00]"

definition add_recall :: "RetrieverRecallReplayer \<Rightarrow> QuestionCluster \<Rightarrow> SearchResult \<Rightarrow> SourceChunk \<Rightarrow> RecallReplayResult \<Rightarrow> RecallReplayResult" where
  "add_recall p c result s acc =
     (let acc = acc\<lparr>rrp_BaselineRecallResults := rrp_BaselineRecallResults acc @
            [\<lparr>br_TraceID = (if rrr_IncludeTraceID p then (case qc_TraceIDs c of [] \<Rightarrow> [] | t # _ \<Rightarrow> t) else []),
              br_ChunkID = src_ChunkID s, br_DocID = src_DocID s, br_DocVersion = src_DocVersion s,
              br_ChunkContentHash = src_ChunkContentHash s,
              br_Rank = (if res_Rank result \<le> 0 then int (length (rrp_BaselineRecallResults acc)) + 1 else res_Rank result),
              br_Score = res_Score result, br_Matched = True\<rparr>]\<rparr>;
          f = fingerprint_of s
      in if List.member (map fingerprint_key (rrp_SourceFingerprints acc)) (fingerprint_key f) then acc
         else acc\<lparr>rrp_SourceFingerprints := rrp_SourceFingerprints acc @ [f]\<rparr>)"

fun replay_loop ::
  "RetrieverRecallReplayer \<Rightarrow> (string \<Rightarrow> string \<Rightarrow> Chunk \<Rightarrow> offline_error + SourceChunk option) \<Rightarrow> QuestionCluster \<Rightarrow>
   SearchResult list \<Rightarrow> RecallReplayResult \<Rightarrow> offline_error + RecallReplayResult" where
  "replay_loop p read c [] acc = Inr acc"
| "replay_loop p read c (result # results) acc =
     (let chunk = res_Chunk result
      in if c_TenantID chunk \<noteq> qc_TenantID c \<or> c_KnowledgeBaseID chunk \<noteq> qc_KBID c then replay_loop p read c results acc
         else case read (qc_TenantID c) (qc_KBID c) chunk of
           Inl err \<Rightarrow> Inl err
         | Inr None \<Rightarrow> replay_loop p read c results acc
         | Inr (Some s) \<Rightarrow>
             if src_TenantID s \<noteq> qc_TenantID c \<or> src_KBID s \<noteq> qc_KBID c then replay_loop p read c results acc
             else replay_loop p read c results (add_recall p c result s acc))"

definition ReplayRecall :: "RetrieverRecallReplayer option \<Rightarrow> QuestionCluster \<Rightarrow> offline_error + RecallReplayResult" where
  "ReplayRecall replayer c =
     (case replayer of
        None \<Rightarrow> Inl Err_RecallReplayerRequired
      | Some p \<Rightarrow>
          (case rrr_Retriever p of
             None \<Rightarrow> Inl Err_RecallReplayerRequired
           | Some retrieve \<Rightarrow>
               (case rrr_SourceReader p of
                  None \<Rightarrow> Inl Err_SourceMetadataReaderRequired
                | Some read \<Rightarrow>
                    let topK = (if rrr_TopK p \<le> 0 then 10 else rrr_TopK p)
                    in (case retrieve \<lparr>sr_TenantID = qc_TenantID c, sr_KnowledgeBaseID = qc_KBID c, sr_Query = qc_CanonicalQuestion c,
                               sr_Vector = [], sr_TopK = topK, sr_DenseTopK = rrr_DenseTopK p, sr_SparseTopK = rrr_SparseTopK p\<rparr> of
                          Inl err \<Rightarrow> Inl err
                        | Inr results \<Rightarrow>
                            replay_loop p read c results
                              \<lparr>rrp_BaselineRecallResults = [], rrp_TraceSummaries = traceSummariesForCluster c, rrp_SourceFingerprints = [],
                               rrp_Metadata = [(''replay_mode'', JString ''baseline''), (''query'', JString (qc_CanonicalQuestion c)),
                                 (''top_k'', JInt topK)]\<rparr>))))"

section \<open>What validation establishes\<close>

lemma first_error_None: "first_error check xs = None \<longleftrightarrow> (\<forall>x \<in> set xs. check x = None)"
  by (induction xs) (auto split: option.splits)

lemma fingerprint_map_lookup:
  assumes "map_of (fingerprint_map fps) k = Some f"
  shows "f \<in> set fps \<and> sfp_ChunkID f = k"
proof -
  have "map_of (fold (\<lambda>f m. if sfp_ChunkID f \<noteq> [] then gput (sfp_ChunkID f) f m else m) fps m) k = Some f \<Longrightarrow>
    f \<in> set fps \<and> sfp_ChunkID f = k \<or> map_of m k = Some f" for m
    by (induction fps arbitrary: m) (fastforce simp: map_simps split: if_splits)+
  from this [of "[]"] assms show ?thesis by (auto simp: fingerprint_map_def)
qed

text \<open>
  C36 (safety). A validated item rests on its sources as they are now: its confidence reaches the threshold, it has evidence,
  and every piece of evidence quotes, word for word, a chunk that the store holds for the item's tenant and
  knowledge base, whose document version and content hash are the ones that the item recorded; an answer has
  been accepted by the judge.
\<close>

theorem validated_evidence_is_current:
  assumes "ValidateItem v tenantID kbID item = None" and "ov_sourceReader v = Some (ReadSourceChunk (Some chunks))"
  shows "oi_TenantID item = tenantID \<and> oi_KBID item = kbID \<and> \<not> flt (oi_Confidence item) (ov_minConfidence v) \<and> oi_Evidence item \<noteq> [] \<and>
    (\<forall>e \<in> set (oi_Evidence item). \<exists>c \<in> set (chunks tenantID kbID). \<exists>f \<in> set (oi_SourceFingerprints item).
       c_ID c = oe_ChunkID e \<and> c_TenantID c = tenantID \<and> c_KnowledgeBaseID c = kbID \<and> Contains (c_Content c) (oe_Quote e) \<and>
       sfp_ChunkID f = c_ID c \<and> sfp_DocVersion f = sourceDocVersion c \<and> sfp_ChunkContentHash f = sourceChunkContentHash c) \<and>
    (oi_ItemType item = ItemTypeAnswer \<longrightarrow> (\<exists>judge. ov_judge v = Some judge \<and> judge item (oi_Evidence item) = Inr True))"
proof -
  let ?fps = "fingerprint_map (oi_SourceFingerprints item)"
  have ev: "validate_evidence (Some (ReadSourceChunk (Some chunks))) tenantID kbID ?fps e = None" if "e \<in> set (oi_Evidence item)" for e
    using assms that by (auto simp: ValidateItem_def first_error_None split: if_splits option.splits)
  have "\<exists>c \<in> set (chunks tenantID kbID). \<exists>f \<in> set (oi_SourceFingerprints item).
       c_ID c = oe_ChunkID e \<and> c_TenantID c = tenantID \<and> c_KnowledgeBaseID c = kbID \<and> Contains (c_Content c) (oe_Quote e) \<and>
       sfp_ChunkID f = c_ID c \<and> sfp_DocVersion f = sourceDocVersion c \<and> sfp_ChunkContentHash f = sourceChunkContentHash c"
    if e: "e \<in> set (oi_Evidence item)" for e
  proof -
    from ev [OF e] obtain f s where f: "map_of ?fps (oe_ChunkID e) = Some f"
      and s: "ReadSourceChunk (Some chunks) tenantID kbID (oe_ChunkID e) = Inr (Some s)"
      and ok: "validateSourceFingerprint tenantID kbID e f s = None" "Contains (src_Text s) (oe_Quote e)"
      by (auto simp: validate_evidence_def split: if_splits option.splits sum.splits)
    from s obtain c where c: "find (\<lambda>c. c_ID c = oe_ChunkID e) (chunks tenantID kbID) = Some c"
      and md: "ReadSourceMetadata tenantID kbID c = Some s" by (auto simp: ReadSourceChunk_def split: option.splits)
    from c have "c \<in> set (chunks tenantID kbID)" "c_ID c = oe_ChunkID e" by (auto simp: find_Some_iff)
    moreover from fingerprint_map_lookup [OF f] have "f \<in> set (oi_SourceFingerprints item)" "sfp_ChunkID f = oe_ChunkID e" by auto
    ultimately show ?thesis using md ok
      by (intro bexI [of _ c] bexI [of _ f]) (auto simp: ReadSourceMetadata_def validateSourceFingerprint_def split: if_splits)
  qed
  moreover have "oi_TenantID item = tenantID \<and> oi_KBID item = kbID \<and> \<not> flt (oi_Confidence item) (ov_minConfidence v) \<and> oi_Evidence item \<noteq> [] \<and>
    (oi_ItemType item = ItemTypeAnswer \<longrightarrow> (\<exists>judge. ov_judge v = Some judge \<and> judge item (oi_Evidence item) = Inr True))"
    using assms(1) by (auto simp: ValidateItem_def split: if_splits option.splits sum.splits)
  ultimately show ?thesis by blast
qed

text \<open>The hypotheses hold for an answer that quotes the one chunk of a store.\<close>

definition sample_chunk :: Chunk where
  "sample_chunk =
     \<lparr>c_ID = ''c1'', c_TenantID = ''t'', c_KnowledgeBaseID = ''kb'', c_DocumentID = ''d1'', c_Content = ''ab'', c_ContextualText = [],
      c_SourceURI = [], c_Page = 0, c_Section = [], c_Offset = 0, c_Vector = [], c_IngestionJobID = [],
      c_Metadata = [(''doc_version'', ''v''), (''content_hash'', ''h'')]\<rparr>"

definition sample_item :: OptimizationItem where
  "sample_item =
     \<lparr>oi_ID = ''i'', oi_TenantID = ''t'', oi_RunID = ''r'', oi_KBID = ''kb'', oi_QuestionClusterID = ''c'', oi_ItemType = ItemTypeAnswer,
      oi_Status = EvidenceValidating, oi_CanonicalQuestion = ''q'', oi_FinalAnswer = ''a'', oi_RecallQuality = ''miss'', oi_FailureType = [],
      oi_Confidence = Fin 1,
      oi_SourceFingerprints = [\<lparr>sfp_DocID = ''d1'', sfp_DocVersion = ''v'', sfp_ChunkID = ''c1'', sfp_ChunkContentHash = ''h''\<rparr>],
      oi_Evidence = [\<lparr>oe_ChunkID = ''c1'', oe_DocID = ''d1'', oe_Quote = ''b'', oe_Supports = []\<rparr>], oi_DeepSearchSteps = [],
      oi_EvalReportJSON = [], oi_CreatedAt = 0, oi_UpdatedAt = 0, oi_PublishedAt = 0\<rparr>"

definition sample_validator :: offline_Validator where
  "sample_validator =
     NewValidator (Some (ReadSourceChunk (Some (\<lambda>tenantID kbID. [sample_chunk])))) (Some (\<lambda>item evidence. Inr True)) (Fin 1)"

lemmas trim_eval = TrimSpace_def TrimLeftSpace_def TrimRightSpace_def strip_id white_space_def

lemma sample_item_valid: "ValidateItem sample_validator ''t'' ''kb'' sample_item = None"
proof -
  have trim: "TrimSpace ''b'' = ''b''" "TrimSpace ''v'' = ''v''" "TrimSpace ''h'' = ''h''" "TrimSpace [] = []" by (simp_all add: trim_eval)
  have version: "sourceDocVersion sample_chunk = ''v''" "sourceChunkContentHash sample_chunk = ''h''"
    using trim by (simp_all add: sourceDocVersion_def sourceChunkContentHash_def sample_chunk_def gget0_def)
  let ?src = "\<lparr>src_TenantID = ''t'', src_KBID = ''kb'', src_DocID = ''d1'', src_DocVersion = ''v'', src_ChunkID = ''c1'',
    src_ChunkContentHash = ''h'', src_Text = ''ab''\<rparr>"
  have "ReadSourceMetadata ''t'' ''kb'' sample_chunk = Some ?src"
    using version by (simp add: ReadSourceMetadata_def) (simp add: sample_chunk_def)
  moreover have "c_ID sample_chunk = ''c1''" by (simp add: sample_chunk_def)
  ultimately have read: "ReadSourceChunk (Some (\<lambda>tenantID kbID. [sample_chunk])) ''t'' ''kb'' ''c1'' = Inr (Some ?src)"
    by (simp add: ReadSourceChunk_def)
  have evidence: "validate_evidence (Some (ReadSourceChunk (Some (\<lambda>tenantID kbID. [sample_chunk])))) ''t'' ''kb''
      (fingerprint_map (oi_SourceFingerprints sample_item)) e = None" if "e \<in> set (oi_Evidence sample_item)" for e
    using that trim read by (simp add: validate_evidence_def fingerprint_map_def sample_item_def validateSourceFingerprint_def)
  then have "first_error (validate_evidence (Some (ReadSourceChunk (Some (\<lambda>tenantID kbID. [sample_chunk])))) ''t'' ''kb''
      (fingerprint_map (oi_SourceFingerprints sample_item))) (oi_Evidence sample_item) = None" by (simp add: first_error_None)
  then show ?thesis unfolding ValidateItem_def sample_validator_def NewValidator_def
    by simp (simp add: sample_item_def)
qed

theorem validated_evidence_is_current_witness:
  "ValidateItem sample_validator ''t'' ''kb'' sample_item = None \<and>
   (\<exists>c \<in> set [sample_chunk]. c_ID c = ''c1'' \<and> c_TenantID c = ''t'' \<and> Contains (c_Content c) ''b'')"
proof -
  have reader: "ov_sourceReader sample_validator = Some (ReadSourceChunk (Some (\<lambda>tenantID kbID. [sample_chunk])))"
    by (simp add: sample_validator_def NewValidator_def)
  obtain e where e: "e \<in> set (oi_Evidence sample_item)" "oe_ChunkID e = ''c1''" "oe_Quote e = ''b''" by (simp add: sample_item_def)
  from validated_evidence_is_current [OF sample_item_valid reader] e(1)
  have "\<exists>c \<in> set [sample_chunk]. c_ID c = oe_ChunkID e \<and> c_TenantID c = ''t'' \<and> Contains (c_Content c) (oe_Quote e)" by blast
  with sample_item_valid show ?thesis unfolding e by blast
qed

end
