(* ===== verification/OfflineService.thy ===== *)
theory OfflineService
  imports "OfflineCodex" "EvalStats"
begin

text \<open>
  The offline-knowledge service (\<^verbatim>\<open>offlineknowledge/service.go\<close>) over the in-memory repository: runs that mine the
  history of queries for optimisation items, the review of items, revalidation and regression. The history source,
  the clusterer, the replayer, the analyzer, the validator and the regression runner are functions of the service.
  \<open>now i\<close> is reading number \<open>i\<close> of the clock within a call, \<open>env\<close> what other callers do to the repository while the call is
  between its own accesses; \<open>text\<close> is the message of an error. The repository of the model never fails and is never nil.
\<close>

definition AllKnowledgeBases :: string where
  "AllKnowledgeBases = ''__all__''"

section \<open>Data\<close>

record HistoryRequest =
  hq_TenantID :: string
  hq_KBID :: string
  hq_Start :: gotime
  hq_End :: gotime
  hq_Limit :: int

record HistorySignal =
  hsg_TenantID :: string
  hsg_KBID :: string
  hsg_Query :: string
  hsg_TraceID :: string
  hsg_Answer :: string
  hsg_RetrievedChunks :: "string list"
  hsg_Latency :: duration
  hsg_HasError :: bool
  hsg_Error :: string
  hsg_ExplicitNegativeFeedback :: bool
  hsg_NegativeFeedbackReason :: string
  hsg_LongTail :: bool
  hsg_LongTailPriority :: int
  hsg_Metadata :: "(string, gotime) gomap"

record ClusterRequest =
  clr_Run :: OfflineKnowledgeRun
  clr_Signals :: "HistorySignal list"

record CodexConstraints =
  ccn_ReadOnlyTools :: "string list"
  ccn_Quota :: ToolQuota
  ccn_RequireEvidence :: bool
  ccn_MaxDeepSearchSteps :: int
  ccn_AllowedItemTypes :: "ItemType list"
  ccn_AllowedActions :: "string list"

record CodexAnalyzeRequest =
  cxr_TenantID :: string
  cxr_KBID :: string
  cxr_CanonicalQuestion :: string
  cxr_SampleQuestions :: "string list"
  cxr_BaselineRecallResults :: "BaselineRecallItem list"
  cxr_TraceSummaries :: "TraceSummary list"
  cxr_Metadata :: json_map
  cxr_Constraints :: CodexConstraints

record ProfileNeutralityMetadata =
  pn_BaselineProfile :: string
  pn_CandidateProfile :: string
  pn_SameProfile :: bool
  pn_OptimizationLiftOnly :: bool

record ProfileExperimentMetadata =
  pem_Enabled :: bool
  pem_BaselineProfile :: string
  pem_CandidateProfile :: string

record RegressionResult =
  rgr_RecallLift :: float64
  rgr_AnswerQualityLift :: float64
  rgr_CitationCoverageLift :: float64
  rgr_LatencyDelta :: duration
  rgr_LatencyDeltaMS :: int
  rgr_TokenCostDelta :: float64
  rgr_HallucinationRisk :: float64
  rgr_FullDatasetUsed :: bool
  rgr_Passed :: bool
  rgr_ScopedItemID :: string
  rgr_ProfileNeutrality :: ProfileNeutralityMetadata
  rgr_ProfileExperiment :: "ProfileExperimentMetadata option"
  rgr_HoldoutGate :: HoldoutGateResult

record RegressionThresholds =
  rth_MinRecallLift :: float64
  rth_MinAnswerQualityLift :: float64
  rth_MinCitationCoverageLift :: float64
  rth_MaxLatencyDelta :: duration
  rth_MaxTokenCostDelta :: float64
  rth_MaxHallucinationRisk :: float64

record RegressionRequest =
  rgq_TenantID :: string
  rgq_ItemID :: string
  rgq_Item :: OptimizationItem
  rgq_Thresholds :: RegressionThresholds
  rgq_HoldoutGate :: HoldoutGateConfig
  rgq_FullDatasetRequired :: bool
  rgq_RequestedAt :: gotime

record EvalReport =
  rep_Result :: RegressionResult
  rep_ScopedItemID :: string
  rep_ProfileNeutrality :: ProfileNeutralityMetadata
  rep_ProfileExperiment :: "ProfileExperimentMetadata option"
  rep_HoldoutGate :: HoldoutGateResult
  rep_Thresholds :: RegressionThresholds
  rep_Passed :: bool
  rep_Reasons :: "string list"
  rep_FullDatasetRequired :: bool
  rep_FullDatasetUsed :: bool
  rep_EvaluatedAt :: gotime

record OfflineService =
  svc_history :: "(HistoryRequest \<Rightarrow> offline_error + HistorySignal list) option"
  svc_clusterer :: "(ClusterRequest \<Rightarrow> offline_error + QuestionCluster list) option"
  svc_replayer :: "(QuestionCluster \<Rightarrow> offline_error + RecallReplayResult) option"
  svc_codex :: "(CodexAnalyzeRequest \<Rightarrow> offline_error + CodexAnalyzeResponse) option"
  svc_validator :: "(string \<Rightarrow> string \<Rightarrow> OptimizationItem \<Rightarrow> offline_error option) option"
  svc_regression :: "(RegressionRequest \<Rightarrow> offline_error + RegressionResult) option"
  svc_thresholds :: RegressionThresholds
  svc_holdoutGate :: HoldoutGateConfig
  svc_quota :: ToolQuota
  svc_maxHistory :: int
  svc_maxCluster :: int

record OfflineRunRequest =
  orq_TenantID :: string
  orq_KBID :: string
  orq_WindowStart :: gotime
  orq_WindowEnd :: gotime
  orq_ConfigHash :: string
  orq_ConfigJSON :: json_map
  orq_MaxQuestions :: int
  orq_MaxClusters :: int

record OfflineRunResult =
  ort_Run :: OfflineKnowledgeRun
  ort_Deduplicated :: bool
  ort_ProcessedCluster :: int
  ort_CreatedItems :: "OptimizationItem list"

record RevalidateResult =
  rvr_Item :: OptimizationItem
  rvr_Updated :: bool
  rvr_Skipped :: bool
  rvr_OldStatus :: ItemStatus
  rvr_NewStatus :: ItemStatus
  rvr_Error :: "offline_error option"

record BulkRevalidateRequest =
  bkr_TenantID :: string
  bkr_KBID :: string
  bkr_Status :: "ItemStatus option"
  bkr_SourceFingerprint :: SourceFingerprint
  bkr_SourceDocID :: string
  bkr_SourceChunkID :: string
  bkr_SourceContentHash :: string
  bkr_Limit :: int

record BulkRevalidateResult =
  bks_Matched :: int
  bks_Updated :: int
  bks_Skipped :: int
  bks_Results :: "RevalidateResult list"

section \<open>Helpers\<close>

definition normalizeKBID :: "string \<Rightarrow> string" where
  "normalizeKBID kbID = (if TrimSpace kbID = [] then AllKnowledgeBases else kbID)"

definition normalizeOptionalKBID :: "string \<Rightarrow> string" where
  "normalizeOptionalKBID kbID = (if TrimSpace kbID = [] then [] else normalizeKBID kbID)"

text \<open>\<^verbatim>\<open>json.Marshal\<close> of a map writes its keys in order.\<close>

definition resolveConfigHash :: "string \<Rightarrow> json_map \<Rightarrow> string" where
  "resolveConfigHash configHash configJSON =
     (if configHash \<noteq> [] then configHash
      else ''sha256:'' @ shortHash (json_text (JObject (sort_by (\<lambda>a b. fst a < fst b) configJSON))))"

fun firstPositive :: "int list \<Rightarrow> int" where
  "firstPositive [] = 0"
| "firstPositive (v # vs) = (if v > 0 then v else firstPositive vs)"

definition findMatchingRun :: "OfflineKnowledgeRun list \<Rightarrow> gotime \<Rightarrow> gotime \<Rightarrow> string \<Rightarrow> OfflineKnowledgeRun option" where
  "findMatchingRun runs ws we hash = find (\<lambda>run. okr_WindowStart run = ws \<and> okr_WindowEnd run = we \<and> okr_ConfigHash run = hash) runs"

definition select_step :: "(string, SourceFingerprint) gomap \<Rightarrow> OfflineEvidence \<Rightarrow> SourceFingerprint list \<Rightarrow> SourceFingerprint list" where
  "select_step byChunk e out =
     (case map_of byChunk (oe_ChunkID e) of
        None \<Rightarrow> out
      | Some f \<Rightarrow> if List.member (map sfp_ChunkID out) (sfp_ChunkID f) then out else out @ [f])"

definition selectFingerprints :: "SourceFingerprint list \<Rightarrow> OfflineEvidence list \<Rightarrow> SourceFingerprint list" where
  "selectFingerprints fps evidence =
     (if evidence = [] then fps
      else fold (select_step (fold (\<lambda>f. gput (sfp_ChunkID f) f) fps [])) evidence [])"

definition fingerprint_matches :: "SourceFingerprint \<Rightarrow> SourceFingerprint \<Rightarrow> bool" where
  "fingerprint_matches wanted f \<longleftrightarrow>
     open_or (sfp_DocID wanted) (sfp_DocID f) \<and> open_or (sfp_ChunkID wanted) (sfp_ChunkID f) \<and>
     open_or (sfp_DocVersion wanted) (sfp_DocVersion f) \<and> open_or (sfp_ChunkContentHash wanted) (sfp_ChunkContentHash f)"

definition matchesSourceFilter :: "OptimizationItem \<Rightarrow> BulkRevalidateRequest \<Rightarrow> bool" where
  "matchesSourceFilter item q \<longleftrightarrow>
     (let f = bkr_SourceFingerprint q;
          f = (if sfp_DocID f = [] then f\<lparr>sfp_DocID := bkr_SourceDocID q\<rparr> else f);
          f = (if sfp_ChunkID f = [] then f\<lparr>sfp_ChunkID := bkr_SourceChunkID q\<rparr> else f);
          f = (if sfp_ChunkContentHash f = [] then f\<lparr>sfp_ChunkContentHash := bkr_SourceContentHash q\<rparr> else f)
      in sfp_DocID f = [] \<and> sfp_ChunkID f = [] \<and> sfp_DocVersion f = [] \<and> sfp_ChunkContentHash f = [] \<or>
         list_ex (fingerprint_matches f) (oi_SourceFingerprints item))"

definition normalizeCluster :: "unicode_tables \<Rightarrow> OfflineKnowledgeRun \<Rightarrow> QuestionCluster \<Rightarrow> gotime \<Rightarrow> QuestionCluster" where
  "normalizeCluster u run c now =
     (let c = c\<lparr>qc_TenantID := okr_TenantID run, qc_RunID := okr_ID run, qc_KBID := okr_KBID run\<rparr>;
          c = (case qc_SampleQuestions c of
                 s # _ \<Rightarrow> if qc_CanonicalQuestion c = [] then c\<lparr>qc_CanonicalQuestion := s\<rparr> else c
               | [] \<Rightarrow> c);
          c = (if qc_NormalizedQuestion c = [] then c\<lparr>qc_NormalizedQuestion := ToLower u (TrimSpace (qc_CanonicalQuestion c))\<rparr> else c);
          c = (if qc_QuestionHash c = [] then c\<lparr>qc_QuestionHash := shortHash (qc_NormalizedQuestion c)\<rparr> else c);
          c = (if qc_ID c = [] then c\<lparr>qc_ID := stableID ''cluster'' [okr_TenantID run, okr_KBID run, qc_QuestionHash c]\<rparr> else c);
          c = (if qc_OccurrenceCount c = 0 then c\<lparr>qc_OccurrenceCount := int (length (qc_SampleQuestions c))\<rparr> else c)
      in if IsZero (qc_CreatedAt c) then c\<lparr>qc_CreatedAt := now\<rparr> else c)"

definition buildItem ::
  "gotime \<Rightarrow> OfflineKnowledgeRun \<Rightarrow> QuestionCluster \<Rightarrow> CodexAnalyzeResponse \<Rightarrow> SourceFingerprint list \<Rightarrow> OptimizationItem" where
  "buildItem now run c resp fps =
     \<lparr>oi_ID = stableID ''item'' [okr_TenantID run, okr_KBID run, qc_ID c, car_ItemType resp, car_FinalAnswer resp],
      oi_TenantID = okr_TenantID run, oi_RunID = okr_ID run, oi_KBID = okr_KBID run, oi_QuestionClusterID = qc_ID c,
      oi_ItemType = car_ItemType resp, oi_Status = Candidate, oi_CanonicalQuestion = qc_CanonicalQuestion c,
      oi_FinalAnswer = car_FinalAnswer resp, oi_RecallQuality = car_RecallQuality resp, oi_FailureType = car_FailureType resp,
      oi_Confidence = car_Confidence resp, oi_SourceFingerprints = selectFingerprints fps (car_Evidence resp),
      oi_Evidence = car_Evidence resp, oi_DeepSearchSteps = car_DeepSearchSteps resp, oi_EvalReportJSON = [],
      oi_CreatedAt = now, oi_UpdatedAt = now, oi_PublishedAt = 0\<rparr>"

definition status_event :: "gotime \<Rightarrow> OptimizationItem \<Rightarrow> string \<Rightarrow> json_map \<Rightarrow> OptimizationItemEvent" where
  "status_event now item eventType payload =
     \<lparr>oie_ID = stableID ''event'' [oi_ID item, eventType, item_status_text (oi_Status item), RFC3339Nano (oi_UpdatedAt item)],
      oie_TenantID = oi_TenantID item, oie_ItemID = oi_ID item, oie_EventType = eventType, oie_Operator = [],
      oie_Payload = payload, oie_CreatedAt = now\<rparr>"

definition appendStatusEvent :: "gotime \<Rightarrow> OptimizationItem \<Rightarrow> string \<Rightarrow> OfflineRepository \<Rightarrow> OfflineRepository" where
  "appendStatusEvent now item eventType r =
     AppendItemEvent (status_event now item eventType [(''status'', JString (item_status_text (oi_Status item)))]) r"

definition neutrality_json :: "ProfileNeutralityMetadata \<Rightarrow> json" where
  "neutrality_json p =
     JObject (str_field ''baseline_profile'' (pn_BaselineProfile p) @ str_field ''candidate_profile'' (pn_CandidateProfile p) @
       [(''same_profile'', JBool (pn_SameProfile p)), (''optimization_lift_only'', JBool (pn_OptimizationLiftOnly p))])"

definition experiment_json :: "ProfileExperimentMetadata \<Rightarrow> json" where
  "experiment_json p =
     JObject ([(''enabled'', JBool (pem_Enabled p))] @ str_field ''baseline_profile'' (pem_BaselineProfile p) @
       str_field ''candidate_profile'' (pem_CandidateProfile p))"

definition appendRegressionEvent :: "gotime \<Rightarrow> OptimizationItem \<Rightarrow> EvalReport \<Rightarrow> OfflineRepository \<Rightarrow> OfflineRepository" where
  "appendRegressionEvent now item report r =
     AppendItemEvent (status_event now item ''regression_evaluated''
       ([(''status'', JString (item_status_text (oi_Status item))), (''passed'', JBool (rep_Passed report)),
         (''reasons'', JArray (map JString (rep_Reasons report))), (''full_dataset_required'', JBool (rep_FullDatasetRequired report)),
         (''full_dataset_used'', JBool (rep_FullDatasetUsed report)), (''scoped_item_id'', JString (rep_ScopedItemID report)),
         (''profile_neutrality'', neutrality_json (rep_ProfileNeutrality report))] @
        (case rep_ProfileExperiment report of None \<Rightarrow> [] | Some p \<Rightarrow> [(''profile_experiment'', experiment_json p)]))) r"

section \<open>Runs\<close>

definition all_runs_of :: "string \<Rightarrow> string \<Rightarrow> OfflineRunFilter" where
  "all_runs_of tenantID kbID = \<lparr>rf_TenantID = tenantID, rf_KBID = kbID, rf_Status = None, rf_Limit = 0\<rparr>"

definition service_CreateRun ::
  "gotime \<Rightarrow> (OfflineRepository \<Rightarrow> OfflineRepository) \<Rightarrow> OfflineRunRequest \<Rightarrow> OfflineRepository \<Rightarrow>
   OfflineRepository \<times> OfflineKnowledgeRun \<times> bool" where
  "service_CreateRun now env q r =
     (let kbID = normalizeKBID (orq_KBID q); hash = resolveConfigHash (orq_ConfigHash q) (orq_ConfigJSON q)
      in case findMatchingRun (ListRuns (all_runs_of (orq_TenantID q) kbID) r) (orq_WindowStart q) (orq_WindowEnd q) hash of
           Some run \<Rightarrow> (r, run, True)
         | None \<Rightarrow>
             let run = \<lparr>okr_ID = stableID ''run'' [orq_TenantID q, kbID, RFC3339Nano (orq_WindowStart q), RFC3339Nano (orq_WindowEnd q), hash],
                   okr_TenantID = orq_TenantID q, okr_KBID = kbID, okr_Status = RunPending, okr_WindowStart = orq_WindowStart q,
                   okr_WindowEnd = orq_WindowEnd q, okr_ConfigHash = hash, okr_ConfigJSON = orq_ConfigJSON q, okr_StartedAt = now,
                   okr_FinishedAt = 0, okr_Error = []\<rparr>
             in (CreateRun run (env r), run, False))"

definition requireClusterDependencies :: "OfflineService \<Rightarrow> offline_error option" where
  "requireClusterDependencies s =
     (if svc_replayer s = None then Some Err_RecallReplayerRequired
      else if svc_codex s = None then Some Err_CodexAnalyzerRequired
      else None)"

definition requireRunDependencies :: "OfflineService \<Rightarrow> offline_error option" where
  "requireRunDependencies s =
     (if svc_history s = None then Some Err_HistorySourceRequired
      else if svc_clusterer s = None then Some Err_QuestionClustererRequired
      else requireClusterDependencies s)"

definition analyze_request :: "OfflineService \<Rightarrow> OfflineKnowledgeRun \<Rightarrow> QuestionCluster \<Rightarrow> RecallReplayResult \<Rightarrow> CodexAnalyzeRequest" where
  "analyze_request s run c replay =
     \<lparr>cxr_TenantID = okr_TenantID run, cxr_KBID = okr_KBID run, cxr_CanonicalQuestion = qc_CanonicalQuestion c,
      cxr_SampleQuestions = qc_SampleQuestions c, cxr_BaselineRecallResults = rrp_BaselineRecallResults replay,
      cxr_TraceSummaries = rrp_TraceSummaries replay, cxr_Metadata = rrp_Metadata replay,
      cxr_Constraints = \<lparr>ccn_ReadOnlyTools = allowedReadOnlyTools, ccn_Quota = svc_quota s, ccn_RequireEvidence = True,
        ccn_MaxDeepSearchSteps = tq_MaxDeepSearchSteps (svc_quota s),
        ccn_AllowedItemTypes = [ItemTypeAnswer, ItemTypeQueryRewrite, ItemTypeKnowledgeGap],
        ccn_AllowedActions = [''create_answer_item'', ''create_query_rewrite_item'', ''create_knowledge_gap_item'', ''needs_review'', ''reject'']\<rparr>\<rparr>"

text \<open>The status a new item is given.\<close>

definition initial_status :: "OfflineService \<Rightarrow> OfflineKnowledgeRun \<Rightarrow> CodexAnalyzeResponse \<Rightarrow> OptimizationItem \<Rightarrow> offline_error + ItemStatus" where
  "initial_status s run resp item =
     (if car_RecommendedAction resp = ''reject'' then Inr Rejected
      else if car_RecommendedAction resp = ''create_knowledge_gap_item'' then Inr KnowledgeGap
      else if car_RecommendedAction resp = ''needs_review'' then Inr NeedsReview
      else case svc_validator s of
        None \<Rightarrow> Inl Err_ValidatorRequired
      | Some validate \<Rightarrow>
          (case validate (okr_TenantID run) (okr_KBID run) (item\<lparr>oi_Status := EvidenceValidating\<rparr>) of
             Some _ \<Rightarrow> Inr Rejected
           | None \<Rightarrow> Inr Verified))"

definition ProcessCluster ::
  "OfflineService \<Rightarrow> unicode_tables \<Rightarrow> (nat \<Rightarrow> gotime) \<Rightarrow> string \<Rightarrow> QuestionCluster \<Rightarrow> OfflineRepository \<Rightarrow>
   OfflineRepository \<times> (offline_error + OptimizationItem)" where
  "ProcessCluster s u now runID c0 r =
     (case requireClusterDependencies s of
        Some err \<Rightarrow> (r, Inl err)
      | None \<Rightarrow>
          (case GetRun (qc_TenantID c0) runID r of
             None \<Rightarrow> (r, Inl Err_RunNotFound)
           | Some run \<Rightarrow>
               let c = normalizeCluster u run c0 (now 0); r = UpsertQuestionCluster c r
               in (case the (svc_replayer s) c of
                     Inl err \<Rightarrow> (r, Inl err)
                   | Inr replay \<Rightarrow>
                       (case the (svc_codex s) (analyze_request s run c replay) of
                          Inl err \<Rightarrow> (r, Inl err)
                        | Inr resp \<Rightarrow>
                            (case ValidateCodexResponse resp (svc_quota s) of
                               Some err \<Rightarrow> (r, Inl err)
                             | None \<Rightarrow>
                                 let item = buildItem (now 1) run c resp (rrp_SourceFingerprints replay)
                                 in (case initial_status s run resp item of
                                       Inl err \<Rightarrow> (r, Inl err)
                                     | Inr status \<Rightarrow>
                                         let item = item\<lparr>oi_Status := status, oi_UpdatedAt := now 2\<rparr>
                                         in (appendStatusEvent (now 3) item ''created'' (CreateOptimizationItem item r), Inr item)))))))"

definition failRun ::
  "gotime \<Rightarrow> (offline_error \<Rightarrow> string) \<Rightarrow> OfflineKnowledgeRun \<Rightarrow> offline_error \<Rightarrow> OfflineRepository \<Rightarrow>
   OfflineRepository \<times> (OfflineRunResult \<times> offline_error)" where
  "failRun now err_text run cause r =
     (let run = run\<lparr>okr_Status := RunFailed, okr_Error := err_text cause, okr_FinishedAt := now\<rparr>
      in (fst (UpdateRun run r),
          \<lparr>ort_Run = run, ort_Deduplicated = False, ort_ProcessedCluster = 0, ort_CreatedItems = []\<rparr>, cause))"

text \<open>The clusters of a run, one after the other; \<open>clock k\<close> is the clock during the call for cluster number \<open>k\<close>.\<close>

fun cluster_loop ::
  "OfflineService \<Rightarrow> unicode_tables \<Rightarrow> (nat \<Rightarrow> nat \<Rightarrow> gotime) \<Rightarrow> string \<Rightarrow> nat \<Rightarrow> QuestionCluster list \<Rightarrow> OptimizationItem list \<Rightarrow>
   OfflineRepository \<Rightarrow> OfflineRepository \<times> (offline_error + OptimizationItem list)" where
  "cluster_loop s u clock runID k [] items r = (r, Inr items)"
| "cluster_loop s u clock runID k (c # cs) items r =
     (case ProcessCluster s u (clock k) runID c r of
        (r', Inl err) \<Rightarrow> (r', Inl err)
      | (r', Inr item) \<Rightarrow> cluster_loop s u clock runID (Suc k) cs (items @ [item]) r')"

definition executeRun ::
  "OfflineService \<Rightarrow> unicode_tables \<Rightarrow> (nat \<Rightarrow> nat \<Rightarrow> gotime) \<Rightarrow> gotime \<Rightarrow> (offline_error \<Rightarrow> string) \<Rightarrow> OfflineKnowledgeRun \<Rightarrow> OfflineRunRequest \<Rightarrow>
   OfflineRepository \<Rightarrow> OfflineRepository \<times> ((OfflineRunResult \<times> offline_error) + OfflineRunResult)" where
  "executeRun s u clock end_time err_text run0 q r0 =
     (let run = run0\<lparr>okr_Status := RunRunning, okr_Error := []\<rparr>; r = fst (UpdateRun run r0)
      in case the (svc_history s) \<lparr>hq_TenantID = orq_TenantID q, hq_KBID = okr_KBID run, hq_Start = orq_WindowStart q, hq_End = orq_WindowEnd q,
                hq_Limit = firstPositive [orq_MaxQuestions q, svc_maxHistory s]\<rparr> of
           Inl err \<Rightarrow> (let (r', f) = failRun end_time err_text run err r in (r', Inl f))
         | Inr signals \<Rightarrow>
             (case the (svc_clusterer s) \<lparr>clr_Run = run, clr_Signals = signals\<rparr> of
                Inl err \<Rightarrow> (let (r', f) = failRun end_time err_text run err r in (r', Inl f))
              | Inr clusters \<Rightarrow>
                  (case cluster_loop s u clock (okr_ID run) 0
                          (limit_list clusters (firstPositive [orq_MaxClusters q, svc_maxCluster s])) [] r of
                     (r', Inl err) \<Rightarrow> (let (r'', f) = failRun end_time err_text run err r' in (r'', Inl f))
                   | (r', Inr items) \<Rightarrow>
                       let run = run\<lparr>okr_Status := RunCompleted, okr_FinishedAt := end_time\<rparr>
                       in (fst (UpdateRun run r'),
                           Inr \<lparr>ort_Run = run, ort_Deduplicated = False, ort_ProcessedCluster = int (length items), ort_CreatedItems = items\<rparr>))))"

definition no_run :: OfflineKnowledgeRun where
  "no_run =
     \<lparr>okr_ID = [], okr_TenantID = [], okr_KBID = [], okr_Status = RunPending, okr_WindowStart = 0, okr_WindowEnd = 0, okr_ConfigHash = [],
      okr_ConfigJSON = [], okr_StartedAt = 0, okr_FinishedAt = 0, okr_Error = []\<rparr>"

definition no_result :: OfflineRunResult where
  "no_result = \<lparr>ort_Run = no_run, ort_Deduplicated = False, ort_ProcessedCluster = 0, ort_CreatedItems = []\<rparr>"

definition RunOnce ::
  "OfflineService \<Rightarrow> unicode_tables \<Rightarrow> (nat \<Rightarrow> nat \<Rightarrow> gotime) \<Rightarrow> gotime \<Rightarrow> gotime \<Rightarrow> (offline_error \<Rightarrow> string) \<Rightarrow> OfflineRunRequest \<Rightarrow>
   OfflineRepository \<Rightarrow> OfflineRepository \<times> ((OfflineRunResult \<times> offline_error) + OfflineRunResult)" where
  "RunOnce s u clock start_time end_time err_text q r =
     (case requireRunDependencies s of
        Some err \<Rightarrow> (r, Inl (no_result, err))
      | None \<Rightarrow>
          (case service_CreateRun start_time id q r of
             (r', run, True) \<Rightarrow> (r', Inr (no_result\<lparr>ort_Run := run, ort_Deduplicated := True\<rparr>))
           | (r', run, False) \<Rightarrow> executeRun s u clock end_time err_text run q r'))"

definition ExecuteRun ::
  "OfflineService \<Rightarrow> unicode_tables \<Rightarrow> (nat \<Rightarrow> nat \<Rightarrow> gotime) \<Rightarrow> gotime \<Rightarrow> (offline_error \<Rightarrow> string) \<Rightarrow> string \<Rightarrow> string \<Rightarrow>
   OfflineRepository \<Rightarrow> OfflineRepository \<times> ((OfflineRunResult \<times> offline_error) + OfflineRunResult)" where
  "ExecuteRun s u clock end_time err_text tenantID runID r =
     (case requireRunDependencies s of
        Some err \<Rightarrow> (r, Inl (no_result, err))
      | None \<Rightarrow>
          (case GetRun tenantID runID r of
             None \<Rightarrow> (r, Inl (no_result, Err_RunNotFound))
           | Some run \<Rightarrow>
               if okr_Status run \<noteq> RunPending \<and> okr_Status run \<noteq> RunFailed then (r, Inl (no_result, Err_RunExecutionConflict))
               else executeRun s u clock end_time err_text run
                      \<lparr>orq_TenantID = okr_TenantID run, orq_KBID = okr_KBID run, orq_WindowStart = okr_WindowStart run,
                       orq_WindowEnd = okr_WindowEnd run, orq_ConfigHash = okr_ConfigHash run, orq_ConfigJSON = okr_ConfigJSON run,
                       orq_MaxQuestions = svc_maxHistory s, orq_MaxClusters = svc_maxCluster s\<rparr> r))"

section \<open>Review of items\<close>

definition TransitionOptimizationItem ::
  "(nat \<Rightarrow> gotime) \<Rightarrow> (OfflineRepository \<Rightarrow> OfflineRepository) \<Rightarrow> string \<Rightarrow> string \<Rightarrow> ItemStatus \<Rightarrow> OfflineRepository \<Rightarrow>
   OfflineRepository \<times> (offline_error + OptimizationItem)" where
  "TransitionOptimizationItem now env tenantID itemID next_status r =
     (case GetOptimizationItem tenantID itemID r of
        None \<Rightarrow> (r, Inl Err_OptimizationItemNotFound)
      | Some item \<Rightarrow>
          if oi_Status item = next_status then (r, Inr item)
          else if \<not> CanTransition (oi_Status item) next_status then (r, Inl Err_InvalidItemTransition)
          else let item = item\<lparr>oi_Status := next_status, oi_UpdatedAt := now 0\<rparr>;
                   item = (if next_status = Published then item\<lparr>oi_PublishedAt := oi_UpdatedAt item\<rparr> else item)
               in (case UpdateOptimizationItem item (env r) of
                     (r', False) \<Rightarrow> (r', Inl Err_OptimizationItemNotFound)
                   | (r', True) \<Rightarrow> (appendStatusEvent (now 1) item ''status_changed'' r', Inr item)))"

definition RevalidateItem ::
  "OfflineService \<Rightarrow> (nat \<Rightarrow> gotime) \<Rightarrow> (OfflineRepository \<Rightarrow> OfflineRepository) \<Rightarrow> string \<Rightarrow> string \<Rightarrow> OfflineRepository \<Rightarrow>
   OfflineRepository \<times> (offline_error + RevalidateResult)" where
  "RevalidateItem s now env tenantID itemID r =
     (case svc_validator s of
        None \<Rightarrow> (r, Inl Err_ValidatorRequired)
      | Some validate \<Rightarrow>
          (case GetOptimizationItem tenantID itemID r of
             None \<Rightarrow> (r, Inl Err_OptimizationItemNotFound)
           | Some item \<Rightarrow>
               let result = \<lparr>rvr_Item = item, rvr_Updated = False, rvr_Skipped = False, rvr_OldStatus = oi_Status item,
                     rvr_NewStatus = oi_Status item, rvr_Error = None\<rparr>
               in if oi_Status item \<noteq> Stale then (r, Inr (result\<lparr>rvr_Skipped := True\<rparr>))
                  else (case UpdateOptimizationItemStatus tenantID itemID EvidenceValidating (now 0) r of
                          (r1, False) \<Rightarrow> (r1, Inl Err_OptimizationItemNotFound)
                        | (r1, True) \<Rightarrow>
                            let verr = validate (oi_TenantID item) (oi_KBID item) item;
                                next_status = (case verr of None \<Rightarrow> Verified
                                        | Some err \<Rightarrow> if err = Err_StaleFingerprint \<or> err = Err_SourceNotFound then Deprecated else Rejected);
                                item = item\<lparr>oi_Status := next_status, oi_UpdatedAt := now 1\<rparr>
                            in (case UpdateOptimizationItem item (env r1) of
                                  (r2, False) \<Rightarrow> (r2, Inl Err_OptimizationItemNotFound)
                                | (r2, True) \<Rightarrow>
                                    (appendStatusEvent (now 2) item ''revalidated'' r2,
                                     Inr (result\<lparr>rvr_Item := item, rvr_Updated := True, rvr_NewStatus := next_status, rvr_Error := verr\<rparr>))))))"

fun revalidate_loop ::
  "OfflineService \<Rightarrow> (nat \<Rightarrow> nat \<Rightarrow> gotime) \<Rightarrow> BulkRevalidateRequest \<Rightarrow> nat \<Rightarrow> OptimizationItem list \<Rightarrow> BulkRevalidateResult \<Rightarrow> OfflineRepository \<Rightarrow>
   OfflineRepository \<times> BulkRevalidateResult \<times> offline_error option" where
  "revalidate_loop s clock q k [] out r = (r, out, None)"
| "revalidate_loop s clock q k (item # items) out r =
     (if \<not> matchesSourceFilter item q then revalidate_loop s clock q (Suc k) items out r
      else let out = out\<lparr>bks_Matched := bks_Matched out + 1\<rparr>
           in (case RevalidateItem s (clock k) id (oi_TenantID item) (oi_ID item) r of
                 (r', Inl err) \<Rightarrow> (r', out, Some err)
               | (r', Inr result) \<Rightarrow>
                   revalidate_loop s clock q (Suc k) items
                     (out\<lparr>bks_Results := bks_Results out @ [result],
                          bks_Updated := bks_Updated out + (if rvr_Updated result then 1 else 0),
                          bks_Skipped := bks_Skipped out + (if rvr_Skipped result then 1 else 0)\<rparr>) r'))"

definition BulkRevalidate ::
  "OfflineService \<Rightarrow> (nat \<Rightarrow> nat \<Rightarrow> gotime) \<Rightarrow> BulkRevalidateRequest \<Rightarrow> OfflineRepository \<Rightarrow>
   OfflineRepository \<times> BulkRevalidateResult \<times> offline_error option" where
  "BulkRevalidate s clock q r =
     revalidate_loop s clock q 0
       (ListOptimizationItems \<lparr>oif_TenantID = bkr_TenantID q, oif_KBID = normalizeOptionalKBID (bkr_KBID q), oif_RunID = [],
          oif_QuestionClusterID = [], oif_Status = (case bkr_Status q of None \<Rightarrow> Some Stale | st \<Rightarrow> st), oif_ItemType = [],
          oif_Limit = bkr_Limit q\<rparr> r)
       \<lparr>bks_Matched = 0, bks_Updated = 0, bks_Skipped = 0, bks_Results = []\<rparr> r"

section \<open>Regression\<close>

text \<open>\<^verbatim>\<open>time.Duration(ms) * time.Millisecond\<close> wraps around at 64 bits.\<close>

definition wrap_duration :: "int \<Rightarrow> duration" where
  "wrap_duration n = (n + 2 ^ 63) mod 2 ^ 64 - 2 ^ 63"

text \<open>\<^verbatim>\<open>Milliseconds\<close> rounds towards zero.\<close>

definition Milliseconds :: "duration \<Rightarrow> int" where
  "Milliseconds d = sgn d * (\<bar>d\<bar> div Millisecond)"

definition normalizeRegressionResult :: "RegressionResult \<Rightarrow> RegressionResult" where
  "normalizeRegressionResult g =
     (let g = (if rgr_LatencyDelta g = 0 \<and> rgr_LatencyDeltaMS g \<noteq> 0
               then g\<lparr>rgr_LatencyDelta := wrap_duration (rgr_LatencyDeltaMS g * Millisecond)\<rparr> else g)
      in if rgr_LatencyDeltaMS g = 0 \<and> rgr_LatencyDelta g \<noteq> 0
         then g\<lparr>rgr_LatencyDeltaMS := Milliseconds (rgr_LatencyDelta g)\<rparr> else g)"

definition holdoutGateReportReasons :: "HoldoutGateResult \<Rightarrow> string list" where
  "holdoutGateReportReasons g =
     (if hr_Reasons g = [] then [''holdout_gate_failed''] else map (\<lambda>reason. ''holdout_gate_'' @ reason) (hr_Reasons g))"

definition no_neutrality :: ProfileNeutralityMetadata where
  "no_neutrality = \<lparr>pn_BaselineProfile = [], pn_CandidateProfile = [], pn_SameProfile = False, pn_OptimizationLiftOnly = False\<rparr>"

definition below :: "float64 \<Rightarrow> float64 \<Rightarrow> bool" where
  "below minimum v \<longleftrightarrow> flt (Fin 0) minimum \<and> flt v minimum"

definition above :: "float64 \<Rightarrow> float64 \<Rightarrow> bool" where
  "above maximum v \<longleftrightarrow> flt (Fin 0) maximum \<and> flt maximum v"

definition threshold_reasons :: "RegressionResult \<Rightarrow> RegressionThresholds \<Rightarrow> string list" where
  "threshold_reasons g t =
     (if rgr_Passed g then [] else [''runner_reported_failed'']) @
     (if below (rth_MinRecallLift t) (rgr_RecallLift g) then [''recall_lift_below_threshold''] else []) @
     (if below (rth_MinAnswerQualityLift t) (rgr_AnswerQualityLift g) then [''answer_quality_lift_below_threshold''] else []) @
     (if below (rth_MinCitationCoverageLift t) (rgr_CitationCoverageLift g) then [''citation_coverage_lift_below_threshold''] else []) @
     (if rth_MaxLatencyDelta t > 0 \<and> rgr_LatencyDelta g > rth_MaxLatencyDelta t then [''latency_delta_above_threshold''] else []) @
     (if above (rth_MaxTokenCostDelta t) (rgr_TokenCostDelta g) then [''token_cost_delta_above_threshold''] else []) @
     (if above (rth_MaxHallucinationRisk t) (rgr_HallucinationRisk g) then [''hallucination_risk_above_threshold''] else [])"

text \<open>The run that stands for a missing hold-out: its split is missing, everything else is zero.\<close>

definition no_snapshot :: DatasetSnapshot where
  "no_snapshot = \<lparr>dn_DatasetID = [], dn_Version = [], dn_Split = [], dn_Items = [], dn_ContentHash = [], dn_ItemCount = 0\<rparr>"

definition missing_split_run :: RunResult where
  "missing_split_run =
     \<lparr>rr_ID = [], rr_Total = 0, rr_WeightedSampleCount = Fin 0, rr_UnweightedSampleCount = 0, rr_Split = [], rr_MissingSplit = True,
      rr_Metrics = [], rr_DatasetSnapshot = no_snapshot,
      rr_Manifest = \<lparr>em_SchemaVersion = [], em_CodeVersion = [], em_CodeCommit = [], em_Dataset = no_snapshot, em_KnowledgeBaseID = [],
        em_ProjectID = [], em_Profile = [], em_TopK = 0, em_ScopedShadowItemID = [], em_JudgeConfigHash = [], em_QAGConfigHash = [],
        em_PairwiseConfigHash = []\<rparr>, rr_EvaluationFingerprint = []\<rparr>"

definition evaluateRegression :: "gotime \<Rightarrow> RegressionResult \<Rightarrow> RegressionRequest \<Rightarrow> EvalReport" where
  "evaluateRegression now g0 q =
     (let g = normalizeRegressionResult g0;
          g = (if rgr_ScopedItemID g = [] then g\<lparr>rgr_ScopedItemID := rgq_ItemID q\<rparr> else g);
          g = (if rgr_ProfileNeutrality g = no_neutrality
               then g\<lparr>rgr_ProfileNeutrality := no_neutrality\<lparr>pn_SameProfile := True, pn_OptimizationLiftOnly := True\<rparr>\<rparr> else g);
          reasons = threshold_reasons g (rgq_Thresholds q) @
            (if rgq_FullDatasetRequired q \<and> \<not> rgr_FullDatasetUsed g then [''full_dataset_required''] else []);
          g' = (if hg_Enabled (rgq_HoldoutGate q) \<and> \<not> hr_Enabled (rgr_HoldoutGate g)
                then g\<lparr>rgr_HoldoutGate := EvaluateHoldoutGate missing_split_run (rgq_HoldoutGate q)\<rparr> else g);
          reasons = reasons @
            (if hg_Enabled (rgq_HoldoutGate q) \<and> \<not> hr_Passed (rgr_HoldoutGate g') then holdoutGateReportReasons (rgr_HoldoutGate g') else [])
      in \<lparr>rep_Result = g', rep_ScopedItemID = rgr_ScopedItemID g, rep_ProfileNeutrality = rgr_ProfileNeutrality g,
          rep_ProfileExperiment = rgr_ProfileExperiment g, rep_HoldoutGate = rgr_HoldoutGate g', rep_Thresholds = rgq_Thresholds q,
          rep_Passed = (reasons = []), rep_Reasons = reasons, rep_FullDatasetRequired = rgq_FullDatasetRequired q,
          rep_FullDatasetUsed = rgr_FullDatasetUsed g, rep_EvaluatedAt = now\<rparr>)"

definition canRunRegressionForStatus :: "ItemStatus \<Rightarrow> bool" where
  "canRunRegressionForStatus st \<longleftrightarrow> st = ShadowEnabled \<or> st = RegressionFailed"

text \<open>\<open>marshal\<close> is the JSON text of a report, \<open>None\<close> where a number in it is not finite.\<close>

definition regression_request :: "OfflineService \<Rightarrow> gotime \<Rightarrow> string \<Rightarrow> string \<Rightarrow> OptimizationItem \<Rightarrow> RegressionRequest" where
  "regression_request s requestedAt tenantID itemID item =
     \<lparr>rgq_TenantID = tenantID, rgq_ItemID = itemID, rgq_Item = item, rgq_Thresholds = svc_thresholds s,
      rgq_HoldoutGate = svc_holdoutGate s, rgq_FullDatasetRequired = (oi_ItemType item = ItemTypeQueryRewrite),
      rgq_RequestedAt = requestedAt\<rparr>"

definition regression_outcome ::
  "OfflineService \<Rightarrow> (EvalReport \<Rightarrow> string option) \<Rightarrow> (nat \<Rightarrow> gotime) \<Rightarrow> string \<Rightarrow> string \<Rightarrow> OfflineRepository \<Rightarrow>
   offline_error + OptimizationItem \<times> EvalReport" where
  "regression_outcome s marshal now tenantID itemID r =
     (case svc_regression s of
        None \<Rightarrow> Inl Err_RegressionRunnerRequired
      | Some run_regression \<Rightarrow>
          (case GetOptimizationItem tenantID itemID r of
             None \<Rightarrow> Inl Err_OptimizationItemNotFound
           | Some item \<Rightarrow>
               if \<not> canRunRegressionForStatus (oi_Status item) then Inl Err_InvalidItemTransition
               else let q = regression_request s (now 0) tenantID itemID item
                    in (case run_regression q of
                          Inl err \<Rightarrow> Inl err
                        | Inr g \<Rightarrow>
                            let report = evaluateRegression (now 1) g q;
                                next_status = (if rep_Passed report then RegressionPassed else RegressionFailed)
                            in if oi_Status item \<noteq> next_status \<and> \<not> CanTransition (oi_Status item) next_status
                               then Inl Err_InvalidItemTransition
                               else (case marshal report of
                                       None \<Rightarrow> Inl Err_Marshal
                                     | Some reportJSON \<Rightarrow>
                                         Inr (item\<lparr>oi_Status := next_status, oi_UpdatedAt := now 2, oi_EvalReportJSON := reportJSON\<rparr>, report)))))"

definition RunRegressionForItem ::
  "OfflineService \<Rightarrow> (EvalReport \<Rightarrow> string option) \<Rightarrow> (nat \<Rightarrow> gotime) \<Rightarrow> (OfflineRepository \<Rightarrow> OfflineRepository) \<Rightarrow> string \<Rightarrow> string \<Rightarrow>
   OfflineRepository \<Rightarrow> OfflineRepository \<times> (offline_error + OptimizationItem)" where
  "RunRegressionForItem s marshal now env tenantID itemID r =
     (case regression_outcome s marshal now tenantID itemID r of
        Inl err \<Rightarrow> (r, Inl err)
      | Inr (item, report) \<Rightarrow>
          (case UpdateOptimizationItem item (env r) of
             (r', False) \<Rightarrow> (r', Inl Err_OptimizationItemNotFound)
           | (r', True) \<Rightarrow> (appendRegressionEvent (now 3) item report r', Inr item)))"

section \<open>The actions of the HTTP API on an item\<close>

text \<open>
  \<^verbatim>\<open>internal/http/router.go\<close> turns the name of an action into a call of the service. The empty status of
  its \<^verbatim>\<open>default\<close> case is \<open>None\<close>.
\<close>

definition offlineKnowledgeActionStatus :: "string \<Rightarrow> ItemStatus option" where
  "offlineKnowledgeActionStatus action =
     (if action = ''verify'' then Some Verified
      else if action = ''reject'' then Some Rejected
      else if action = ''enable-shadow'' then Some ShadowEnabled
      else if action = ''publish'' then Some Published
      else if action = ''disable'' then Some Deprecated
      else None)"

datatype action_response =
    ItemResponse "offline_error + OptimizationItem"
  | RevalidateResponse "offline_error + RevalidateResult"
  | ActionNotFound

definition optimizationItemAction ::
  "OfflineService \<Rightarrow> (EvalReport \<Rightarrow> string option) \<Rightarrow> (nat \<Rightarrow> gotime) \<Rightarrow> (OfflineRepository \<Rightarrow> OfflineRepository) \<Rightarrow>
   string \<Rightarrow> string \<Rightarrow> string \<Rightarrow> OfflineRepository \<Rightarrow> OfflineRepository \<times> action_response" where
  "optimizationItemAction s marshal now env tenantID itemID action r =
     (let action = TrimSpace action
      in case offlineKnowledgeActionStatus action of
           Some status \<Rightarrow> map_prod id ItemResponse (TransitionOptimizationItem now env tenantID itemID status r)
         | None \<Rightarrow>
             if action = ''revalidate'' then map_prod id RevalidateResponse (RevalidateItem s now env tenantID itemID r)
             else if action = ''run-regression''
             then map_prod id ItemResponse (RunRegressionForItem s marshal now env tenantID itemID r)
             else (r, ActionNotFound))"

end
