(* ===== verification/OfflineHistory.thy ===== *)
theory OfflineHistory
  imports OfflineService
begin

text \<open>
  Where questions come from (\<^verbatim>\<open>offlineknowledge/history.go\<close>): traces of queries joined with negative feedback, and the
  grouping of questions that are the same up to case, punctuation and white space. The repository of traces is an argument;
  \<open>is_number\<close> is the table of \<^verbatim>\<open>unicode.IsNumber\<close> beyond ASCII.
\<close>

section \<open>Signals\<close>

record HistoryTraceFilter =
  htf_TenantID :: string
  htf_KBID :: string
  htf_Since :: gotime
  htf_Until :: gotime
  htf_Limit :: int

record HistoryTrace =
  ht_TenantID :: string
  ht_KBID :: string
  ht_TraceID :: string
  ht_Query :: string
  ht_Answer :: string
  ht_RetrievedChunks :: "string list"
  ht_Latency :: duration
  ht_HasError :: bool
  ht_Error :: string
  ht_CreatedAt :: gotime

definition IsNumber :: "(rune \<Rightarrow> bool) \<Rightarrow> rune \<Rightarrow> bool" where
  "IsNumber is_number r = (if r < 0x80 then 0x30 \<le> r \<and> r \<le> 0x39 else is_number r)"

fun question_loop :: "unicode_tables \<Rightarrow> (rune \<Rightarrow> bool) \<Rightarrow> (rune \<times> string) list \<Rightarrow> bool \<Rightarrow> string" where
  "question_loop u n [] lastSpace = []"
| "question_loop u n ((r, bs) # rs) lastSpace =
     (if IsLetter u r \<or> IsNumber n r then EncodeRune r @ question_loop u n rs False
      else if IsSpace r \<or> IsPunct u r \<or> IsSymbol u r
      then (if lastSpace then question_loop u n rs lastSpace else '' '' @ question_loop u n rs True)
      else question_loop u n rs lastSpace)"

definition normalizeQuestionText :: "unicode_tables \<Rightarrow> (rune \<Rightarrow> bool) \<Rightarrow> string \<Rightarrow> string" where
  "normalizeQuestionText u n v0 =
     (let v = TrimSpace (ToLower u v0) in if v = [] then [] else TrimSpace (question_loop u n (runes v) False))"

definition feedbackKey :: "unicode_tables \<Rightarrow> (rune \<Rightarrow> bool) \<Rightarrow> NegativeFeedback \<Rightarrow> string" where
  "feedbackKey u n f = nf_TraceID f @ [CHR 0x00] @ normalizeQuestionText u n (nf_Query f)"

definition applyNegativeFeedback :: "NegativeFeedback \<Rightarrow> HistorySignal \<Rightarrow> HistorySignal" where
  "applyNegativeFeedback f sg =
     (let sg = sg\<lparr>hsg_ExplicitNegativeFeedback := True, hsg_NegativeFeedbackReason := nf_Reason f\<rparr>;
          sg = (if hsg_Query sg = [] then sg\<lparr>hsg_Query := nf_Query f\<rparr> else sg);
          sg = (if hsg_TraceID sg = [] then sg\<lparr>hsg_TraceID := nf_TraceID f\<rparr> else sg)
      in sg\<lparr>hsg_Metadata := gput ''feedback_created_at'' (nf_CreatedAt f) (hsg_Metadata sg)\<rparr>)"

definition trace_signal :: "HistoryTrace \<Rightarrow> HistorySignal" where
  "trace_signal t =
     \<lparr>hsg_TenantID = ht_TenantID t, hsg_KBID = ht_KBID t, hsg_Query = ht_Query t, hsg_TraceID = ht_TraceID t, hsg_Answer = ht_Answer t,
      hsg_RetrievedChunks = ht_RetrievedChunks t, hsg_Latency = ht_Latency t, hsg_HasError = ht_HasError t, hsg_Error = ht_Error t,
      hsg_ExplicitNegativeFeedback = False, hsg_NegativeFeedbackReason = [], hsg_LongTail = False, hsg_LongTailPriority = 0,
      hsg_Metadata = [(''created_at'', ht_CreatedAt t)]\<rparr>"

definition feedback_signal :: "NegativeFeedback \<Rightarrow> HistorySignal" where
  "feedback_signal f =
     \<lparr>hsg_TenantID = nf_TenantID f, hsg_KBID = nf_KBID f, hsg_Query = nf_Query f, hsg_TraceID = nf_TraceID f, hsg_Answer = [],
      hsg_RetrievedChunks = [], hsg_Latency = 0, hsg_HasError = False, hsg_Error = [], hsg_ExplicitNegativeFeedback = True,
      hsg_NegativeFeedbackReason = nf_Reason f, hsg_LongTail = False, hsg_LongTailPriority = 0,
      hsg_Metadata = [(''feedback_created_at'', nf_CreatedAt f)]\<rparr>"

definition listFeedback :: "OfflineRepository option \<Rightarrow> HistoryRequest \<Rightarrow> HistoryTrace list \<Rightarrow> NegativeFeedback list" where
  "listFeedback source q traces =
     (case source of
        None \<Rightarrow> []
      | Some r \<Rightarrow>
          ListNegativeFeedback \<lparr>nff_TenantID = hq_TenantID q, nff_KBID = normalizeOptionalKBID (hq_KBID q), nff_Since = hq_Start q,
            nff_Until = hq_End q, nff_TraceIDs = filter (\<lambda>t. t \<noteq> []) (map ht_TraceID traces), nff_Limit = hq_Limit q\<rparr> r)"

text \<open>The feedback for a trace: by its identifier, or else by its question.\<close>

definition feedback_of ::
  "unicode_tables \<Rightarrow> (rune \<Rightarrow> bool) \<Rightarrow> (string, NegativeFeedback) gomap \<Rightarrow> (string, NegativeFeedback) gomap \<Rightarrow> HistoryTrace \<Rightarrow> NegativeFeedback option" where
  "feedback_of u n byTrace byQuestion t =
     (case map_of byTrace (ht_TraceID t) of
        Some f \<Rightarrow> Some f
      | None \<Rightarrow> map_of byQuestion (normalizeQuestionText u n (ht_Query t)))"

definition join_feedback :: "unicode_tables \<Rightarrow> (rune \<Rightarrow> bool) \<Rightarrow> HistoryTrace list \<Rightarrow> NegativeFeedback list \<Rightarrow> HistorySignal list" where
  "join_feedback u n traces feedback =
     (let byTrace = fold (\<lambda>f m. if nf_TraceID f \<noteq> [] then gput (nf_TraceID f) f m else m) feedback [];
          byQuestion = fold (\<lambda>f m. if nf_Query f \<noteq> [] then gput (normalizeQuestionText u n (nf_Query f)) f m else m) feedback [];
          found = map (feedback_of u n byTrace byQuestion) traces;
          seen = map (feedbackKey u n) (map the (filter (\<lambda>x. x \<noteq> None) found))
      in map (\<lambda>(t, f). case f of None \<Rightarrow> trace_signal t | Some f \<Rightarrow> applyNegativeFeedback f (trace_signal t)) (zip traces found) @
         map feedback_signal (filter (\<lambda>f. \<not> List.member seen (feedbackKey u n f)) feedback))"

definition ExtractHistory ::
  "unicode_tables \<Rightarrow> (rune \<Rightarrow> bool) \<Rightarrow> (HistoryTraceFilter \<Rightarrow> offline_error + HistoryTrace list) option \<Rightarrow> OfflineRepository option \<Rightarrow> HistoryRequest \<Rightarrow>
   offline_error + HistorySignal list" where
  "ExtractHistory u n traces source q =
     (case traces of
        None \<Rightarrow> Inl Err_HistorySourceRequired
      | Some list_traces \<Rightarrow>
          (case list_traces \<lparr>htf_TenantID = hq_TenantID q, htf_KBID = normalizeOptionalKBID (hq_KBID q), htf_Since = hq_Start q,
                  htf_Until = hq_End q, htf_Limit = hq_Limit q\<rparr> of
             Inl err \<Rightarrow> Inl err
           | Inr ts \<Rightarrow> Inr (join_feedback u n ts (listFeedback source q ts))))"

section \<open>Clusters\<close>

definition appendUnique :: "string list \<Rightarrow> string \<Rightarrow> string list" where
  "appendUnique values v = (if v = [] \<or> List.member values v then values else values @ [v])"

definition new_cluster :: "gotime \<Rightarrow> OfflineKnowledgeRun \<Rightarrow> string \<Rightarrow> string \<Rightarrow> string \<Rightarrow> QuestionCluster" where
  "new_cluster now run query normalized hash =
     \<lparr>qc_ID = stableID ''cluster'' [okr_TenantID run, okr_KBID run, hash], qc_TenantID = okr_TenantID run, qc_RunID = okr_ID run,
      qc_KBID = okr_KBID run, qc_CanonicalQuestion = TrimSpace query, qc_NormalizedQuestion = normalized, qc_QuestionHash = hash,
      qc_EmbeddingRef = [], qc_EmbeddingJSON = [], qc_OccurrenceCount = 0, qc_SampleQuestions = [], qc_TraceIDs = [],
      qc_LongTail = False, qc_CreatedAt = now\<rparr>"

definition count_signal :: "HistorySignal \<Rightarrow> QuestionCluster \<Rightarrow> QuestionCluster" where
  "count_signal sg c =
     c\<lparr>qc_OccurrenceCount := qc_OccurrenceCount c + 1, qc_SampleQuestions := appendUnique (qc_SampleQuestions c) (TrimSpace (hsg_Query sg)),
       qc_TraceIDs := appendUnique (qc_TraceIDs c) (hsg_TraceID sg), qc_LongTail := qc_LongTail c \<or> hsg_LongTail sg\<rparr>"

text \<open>\<open>now\<close> gives the clock reading for a new group by the position of its first signal.\<close>

fun group_signals ::
  "unicode_tables \<Rightarrow> (rune \<Rightarrow> bool) \<Rightarrow> (nat \<Rightarrow> gotime) \<Rightarrow> OfflineKnowledgeRun \<Rightarrow> nat \<Rightarrow> HistorySignal list \<Rightarrow> (string, QuestionCluster) gomap \<Rightarrow>
   (string, QuestionCluster) gomap" where
  "group_signals u n now run i [] grouped = grouped"
| "group_signals u n now run i (sg # sgs) grouped =
     (let normalized = normalizeQuestionText u n (hsg_Query sg)
      in if normalized = [] then group_signals u n now run (Suc i) sgs grouped
         else let hash = shortHash normalized;
                  c = (case map_of grouped hash of Some c \<Rightarrow> c | None \<Rightarrow> new_cluster (now i) run (hsg_Query sg) normalized hash)
              in group_signals u n now run (Suc i) sgs (gput hash (count_signal sg c) grouped))"

definition cluster_before :: "QuestionCluster \<Rightarrow> QuestionCluster \<Rightarrow> bool" where
  "cluster_before a b \<longleftrightarrow>
     (if qc_LongTail a \<noteq> qc_LongTail b then \<not> qc_LongTail a
      else if qc_OccurrenceCount a \<noteq> qc_OccurrenceCount b then qc_OccurrenceCount a > qc_OccurrenceCount b
      else qc_QuestionHash a < qc_QuestionHash b)"

definition mark_long_tail :: "QuestionCluster \<Rightarrow> QuestionCluster" where
  "mark_long_tail c = c\<lparr>qc_LongTail := qc_LongTail c \<or> qc_OccurrenceCount c = 1\<rparr>"

definition ClusterQuestions :: "unicode_tables \<Rightarrow> (rune \<Rightarrow> bool) \<Rightarrow> (nat \<Rightarrow> gotime) \<Rightarrow> ClusterRequest \<Rightarrow> QuestionCluster list" where
  "ClusterQuestions u n now q =
     sort_by cluster_before (map (mark_long_tail \<circ> snd) (group_signals u n now (clr_Run q) 0 (clr_Signals q) []))"

section \<open>Every question is counted once\<close>

interpretation cluster_order: keyed_less cluster_before "\<lambda>c. (qc_LongTail c, - qc_OccurrenceCount c, qc_QuestionHash c)"
  by unfold_locales (auto simp: cluster_before_def)

text \<open>What a grouping counts under a hash: the signals of that hash, on top of what was there.\<close>

definition signal_hash :: "unicode_tables \<Rightarrow> (rune \<Rightarrow> bool) \<Rightarrow> HistorySignal \<Rightarrow> string option" where
  "signal_hash u n sg =
     (let q = normalizeQuestionText u n (hsg_Query sg) in if q = [] then None else Some (shortHash q))"

definition count0 :: "QuestionCluster option \<Rightarrow> int" where
  "count0 c = (case c of None \<Rightarrow> 0 | Some c \<Rightarrow> qc_OccurrenceCount c)"

lemma count_signal_simps [simp]:
  "qc_OccurrenceCount (count_signal sg c) = qc_OccurrenceCount c + 1" "qc_QuestionHash (count_signal sg c) = qc_QuestionHash c"
  by (simp_all add: count_signal_def)

lemma group_signals_counts:
  assumes "\<forall>h c. map_of g h = Some c \<longrightarrow> qc_QuestionHash c = h"
  shows "count0 (map_of (group_signals u n now run i sgs g) h) = count0 (map_of g h) + int (length (filter (\<lambda>sg. signal_hash u n sg = Some h) sgs)) \<and>
    (\<forall>h c. map_of (group_signals u n now run i sgs g) h = Some c \<longrightarrow> qc_QuestionHash c = h) \<and>
    dom (map_of (group_signals u n now run i sgs g)) = dom (map_of g) \<union> {h. Some h \<in> set (map (signal_hash u n) sgs)}"
  using assms
proof (induction sgs arbitrary: i g)
  case (Cons sg sgs)
  let ?q = "normalizeQuestionText u n (hsg_Query sg)"
  show ?case
  proof (cases "?q = []")
    case True
    then have "signal_hash u n sg = None" by (simp add: signal_hash_def)
    then show ?thesis using Cons.IH [OF Cons.prems, of "Suc i"] True by simp
  next
    case False
    let ?h = "shortHash ?q"
    let ?c = "case map_of g ?h of Some c \<Rightarrow> c | None \<Rightarrow> new_cluster (now i) run (hsg_Query sg) ?q ?h"
    let ?g = "gput ?h (count_signal sg ?c) g"
    have c: "qc_QuestionHash ?c = ?h" "qc_OccurrenceCount ?c = count0 (map_of g ?h)"
      using Cons.prems by (auto simp: new_cluster_def count0_def split: option.split)
    have "\<forall>h c. map_of ?g h = Some c \<longrightarrow> qc_QuestionHash c = h" using Cons.prems c(1) by (auto simp: map_simps)
    note IH = Cons.IH [OF this, of "Suc i"]
    have "count0 (map_of ?g h) = count0 (map_of g h) + (if h = ?h then 1 else 0)" using c(2) by (simp add: map_simps count0_def)
    moreover have "dom (map_of ?g) = insert ?h (dom (map_of g))" by (simp add: map_simps)
    moreover have "signal_hash u n sg = Some ?h" using False by (simp add: signal_hash_def)
    ultimately show ?thesis using IH False by (auto simp: Let_def)
  qed
qed simp

text \<open>
  Grouping neither loses nor repeats a question: there is exactly one cluster for each hash of a non-empty
  normalised question among the signals, its count is the number of the signals with that hash, and the clusters are sorted: those with
  a repeated question first, then by falling count, then by hash.
\<close>

lemma clusters_count_questions:
  fixes u :: unicode_tables and n :: "rune \<Rightarrow> bool" and now :: "nat \<Rightarrow> gotime" and q :: ClusterRequest
  defines "cs \<equiv> ClusterQuestions u n now q"
  shows "set (map qc_QuestionHash cs) = {h. Some h \<in> set (map (signal_hash u n) (clr_Signals q))} \<and> distinct (map qc_QuestionHash cs) \<and>
    list_all (\<lambda>c. qc_OccurrenceCount c = int (length (filter (\<lambda>sg. signal_hash u n sg = Some (qc_QuestionHash c)) (clr_Signals q)))) cs \<and>
    sorted (map (\<lambda>c. (qc_LongTail c, - qc_OccurrenceCount c, qc_QuestionHash c)) cs)"
proof -
  let ?g = "group_signals u n now (clr_Run q) 0 (clr_Signals q) []"
  have spec: "count0 (map_of ?g h) = int (length (filter (\<lambda>sg. signal_hash u n sg = Some h) (clr_Signals q)))"
    "\<forall>h c. map_of ?g h = Some c \<longrightarrow> qc_QuestionHash c = h" "dom (map_of ?g) = {h. Some h \<in> set (map (signal_hash u n) (clr_Signals q))}" for h
    using group_signals_counts [of "[]" u n now "clr_Run q" 0 "clr_Signals q" h] by (simp_all add: count0_def)
  have wf: "gmap_wf ?g"
  proof -
    have "gmap_wf g \<Longrightarrow> gmap_wf (group_signals u n now run i sgs g)" for run i sgs g
      by (induction sgs arbitrary: i g) (simp_all add: Let_def)
    then show ?thesis by simp
  qed
  have keys: "map (qc_QuestionHash \<circ> mark_long_tail \<circ> snd) ?g = map fst ?g"
    using spec(2) wf by (auto simp: mark_long_tail_def gmap_wf_mem_iff)
  have hashes: "mset (map qc_QuestionHash cs) = mset (map fst ?g)"
    unfolding cs_def ClusterQuestions_def mset_map mset_sort_by by (simp add: keys [symmetric] multiset.map_comp comp_assoc flip: mset_map)
  then have "set (map qc_QuestionHash cs) = dom (map_of ?g)" by (metis dom_map_of_conv_image_fst set_map set_mset_mset)
  moreover have "distinct (map qc_QuestionHash cs)" using hashes wf by (metis gmap_wf_def mset_eq_imp_distinct_iff)
  moreover have "qc_OccurrenceCount c = int (length (filter (\<lambda>sg. signal_hash u n sg = Some (qc_QuestionHash c)) (clr_Signals q)))"
    if c: "c \<in> set cs" for c
  proof -
    from c obtain h c0 where c0: "(h, c0) \<in> set ?g" "c = mark_long_tail c0" by (auto simp: cs_def ClusterQuestions_def)
    then have "map_of ?g h = Some c0" using wf by (simp add: gmap_wf_mem_iff)
    with spec(1) [of h] spec(2) c0(2) show ?thesis by (simp add: count0_def mark_long_tail_def)
  qed
  moreover have "sorted (map (\<lambda>c. (qc_LongTail c, - qc_OccurrenceCount c, qc_QuestionHash c)) cs)"
    unfolding cs_def ClusterQuestions_def by (rule cluster_order.sorted_sort_by)
  ultimately show ?thesis using spec(3) by (simp add: list_all_iff)
qed

section \<open>All knowledge bases\<close>

text \<open>
  A run without a knowledge base is meant to cover all of them, but its marker is passed on as an identifier: the feedback
  of every real knowledge base is left out.
\<close>

lemma all_knowledge_bases_run_sees_none:
  assumes "TrimSpace (orq_KBID rq) = []" and "hq_KBID q = normalizeKBID (orq_KBID rq)"
    and "\<forall>f \<in> set (ofr_feedback r). nf_KBID f \<noteq> AllKnowledgeBases"
  shows "listFeedback (Some r) q traces = []"
proof -
  have "TrimSpace AllKnowledgeBases \<noteq> []"
    by (simp add: AllKnowledgeBases_def TrimSpace_def TrimLeftSpace_def TrimRightSpace_def strip_id white_space_def)
  then have kb: "normalizeOptionalKBID (hq_KBID q) = AllKnowledgeBases"
    using assms(1,2) by (simp add: normalizeOptionalKBID_def normalizeKBID_def)
  have "AllKnowledgeBases \<noteq> []" by (simp add: AllKnowledgeBases_def)
  then have "filter (feedback_matches f) (ofr_feedback r) = []" if "nff_KBID f = AllKnowledgeBases" for f
    using assms(3) that by (auto simp: filter_empty_conv feedback_matches_def open_or_def)
  then show ?thesis by (simp add: listFeedback_def ListNegativeFeedback_def kb newest_first_def limit_list_def)
qed

end
