(* ===== verification/OfflineScheduler.thy ===== *)
theory OfflineScheduler
  imports OfflineService OfflineCron
begin

text \<open>
  The scheduler of offline-knowledge runs (\<^verbatim>\<open>offlineknowledge/scheduler.go\<close>) beyond its cron expressions: the normalisation of its
  configuration, the keys of runs in flight, and what one trigger does over the service. Starting and stopping the goroutine is
  left out.
\<close>

record SchedulerTarget =
  tg_TenantID :: string
  tg_KBID :: string

record SchedulerConfig =
  scf_Enabled :: bool
  scf_Schedule :: string
  scf_LookbackDays :: int
  scf_Targets :: "SchedulerTarget list"
  scf_ConfigJSON :: json_map
  scf_MaxQuestionsPerRun :: int
  scf_MaxClustersPerRun :: int

definition normalizeSchedulerConfigJSON :: "SchedulerConfig \<Rightarrow> json_map" where
  "normalizeSchedulerConfigJSON cfg =
     gput ''max_clusters_per_run'' (JInt (scf_MaxClustersPerRun cfg))
      (gput ''max_questions_per_run'' (JInt (scf_MaxQuestionsPerRun cfg))
        (gput ''lookback_days'' (JInt (scf_LookbackDays cfg))
          (gput ''schedule'' (JString (scf_Schedule cfg)) (scf_ConfigJSON cfg))))"

definition target_key :: "SchedulerTarget \<Rightarrow> string" where
  "target_key t = tg_TenantID t @ [CHR 0x00] @ tg_KBID t"

fun normalize_targets :: "SchedulerTarget list \<Rightarrow> string list \<Rightarrow> SchedulerTarget list" where
  "normalize_targets [] seen = []"
| "normalize_targets (t0 # ts) seen =
     (let t = t0\<lparr>tg_TenantID := TrimSpace (tg_TenantID t0), tg_KBID := normalizeKBID (tg_KBID t0)\<rparr>
      in if tg_TenantID t = [] \<or> List.member seen (target_key t) then normalize_targets ts seen
         else t # normalize_targets ts (target_key t # seen))"

definition normalizeSchedulerConfig :: "SchedulerConfig \<Rightarrow> SchedulerConfig" where
  "normalizeSchedulerConfig cfg =
     (let cfg = cfg\<lparr>scf_Schedule := TrimSpace (scf_Schedule cfg),
            scf_LookbackDays := (if scf_LookbackDays cfg \<le> 0 then 1 else scf_LookbackDays cfg),
            scf_Targets := normalize_targets (scf_Targets cfg) []\<rparr>
      in cfg\<lparr>scf_ConfigJSON := normalizeSchedulerConfigJSON cfg\<rparr>)"

definition schedulerRunKey :: "OfflineRunRequest \<Rightarrow> string" where
  "schedulerRunKey q =
     Join [orq_TenantID q, normalizeKBID (orq_KBID q), RFC3339Nano (orq_WindowStart q), RFC3339Nano (orq_WindowEnd q), orq_ConfigHash q] [CHR 0x00]"

definition acquireRun :: "string \<Rightarrow> string list \<Rightarrow> (string list) option" where
  "acquireRun key inFlight = (if List.member inFlight key then None else Some (key # inFlight))"

definition releaseRun :: "string \<Rightarrow> string list \<Rightarrow> string list" where
  "releaseRun key inFlight = removeAll key inFlight"

record SchedulerRunResult =
  srl_Target :: SchedulerTarget
  srl_Request :: OfflineRunRequest
  srl_Result :: OfflineRunResult
  srl_Deduplicated :: bool
  srl_Err :: "offline_error option"

text \<open>\<^verbatim>\<open>time.Duration(days) * 24 * time.Hour\<close> wraps around at 64 bits at each product.\<close>

definition window_start :: "SchedulerConfig \<Rightarrow> gotime \<Rightarrow> gotime" where
  "window_start cfg windowEnd = windowEnd + wrap_duration (wrap_duration (- wrap_duration (scf_LookbackDays cfg) * 24) * Hour)"

definition trigger_request :: "SchedulerConfig \<Rightarrow> gotime \<Rightarrow> SchedulerTarget \<Rightarrow> OfflineRunRequest" where
  "trigger_request cfg windowEnd t =
     \<lparr>orq_TenantID = tg_TenantID t, orq_KBID = tg_KBID t, orq_WindowStart = window_start cfg windowEnd, orq_WindowEnd = windowEnd,
      orq_ConfigHash = resolveConfigHash [] (scf_ConfigJSON cfg), orq_ConfigJSON = scf_ConfigJSON cfg,
      orq_MaxQuestions = scf_MaxQuestionsPerRun cfg, orq_MaxClusters = scf_MaxClustersPerRun cfg\<rparr>"

text \<open>\<open>run q i r\<close> is \<^verbatim>\<open>RunOnce\<close> for the target number \<open>i\<close>.\<close>

type_synonym run_once =
  "OfflineRunRequest \<Rightarrow> nat \<Rightarrow> OfflineRepository \<Rightarrow> OfflineRepository \<times> ((OfflineRunResult \<times> offline_error) + OfflineRunResult)"

fun trigger_loop ::
  "run_once \<Rightarrow> SchedulerConfig \<Rightarrow> gotime \<Rightarrow> nat \<Rightarrow> SchedulerTarget list \<Rightarrow> string list \<times> OfflineRepository \<Rightarrow>
   (string list \<times> OfflineRepository) \<times> SchedulerRunResult list" where
  "trigger_loop run cfg windowEnd i [] st = (st, [])"
| "trigger_loop run cfg windowEnd i (t # ts) (inFlight, r) =
     (let q = trigger_request cfg windowEnd t; key = schedulerRunKey q
      in case acquireRun key inFlight of
           None \<Rightarrow>
             (let (st, rest) = trigger_loop run cfg windowEnd (Suc i) ts (inFlight, r)
              in (st, \<lparr>srl_Target = t, srl_Request = q, srl_Result = no_result, srl_Deduplicated = True, srl_Err = None\<rparr> # rest))
         | Some held \<Rightarrow>
             let (r', res) = run q i r;
                 (result, err) = (case res of Inl (x, e) \<Rightarrow> (x, Some e) | Inr x \<Rightarrow> (x, None));
                 (st, rest) = trigger_loop run cfg windowEnd (Suc i) ts (releaseRun key held, r')
             in (st, \<lparr>srl_Target = t, srl_Request = q, srl_Result = result, srl_Deduplicated = ort_Deduplicated result, srl_Err = err\<rparr> # rest))"

definition Trigger ::
  "run_once \<Rightarrow> SchedulerConfig \<Rightarrow> gotime \<Rightarrow> string list \<times> OfflineRepository \<Rightarrow> (string list \<times> OfflineRepository) \<times> SchedulerRunResult list" where
  "Trigger run cfg scheduledAt st =
     (if \<not> scf_Enabled cfg then (st, []) else trigger_loop run cfg (Truncate scheduledAt Minute) 0 (scf_Targets cfg) st)"

section \<open>Properties\<close>

lemma normalize_targets_distinct:
  "distinct (map target_key (normalize_targets ts seen)) \<and> (\<forall>t \<in> set (normalize_targets ts seen). \<not> List.member seen (target_key t) \<and> tg_TenantID t \<noteq> [])"
proof (induction ts arbitrary: seen)
  case (Cons t0 ts)
  define t where "t = t0\<lparr>tg_TenantID := TrimSpace (tg_TenantID t0), tg_KBID := normalizeKBID (tg_KBID t0)\<rparr>"
  have "normalize_targets (t0 # ts) seen =
    (if tg_TenantID t = [] \<or> List.member seen (target_key t) then normalize_targets ts seen else t # normalize_targets ts (target_key t # seen))"
    by (simp add: t_def Let_def)
  then show ?case using Cons.IH [of seen] Cons.IH [of "target_key t # seen"] by auto
qed simp

lemma release_acquired: "acquireRun key inFlight = Some held \<Longrightarrow> releaseRun key held = inFlight"
  by (auto simp: acquireRun_def releaseRun_def removeAll_id split: if_splits)

lemma trigger_loop_spec:
  assumes "trigger_loop run cfg windowEnd i ts (inFlight, r) = (st, results)"
  shows "fst st = inFlight \<and> map srl_Target results = ts \<and> map srl_Request results = map (trigger_request cfg windowEnd) ts"
  using assms
proof (induction ts arbitrary: i r st results)
  case (Cons t ts)
  show ?case
  proof (cases "acquireRun (schedulerRunKey (trigger_request cfg windowEnd t)) inFlight")
    case None
    with Cons show ?thesis by (fastforce simp: Let_def split: prod.splits)
  next
    case (Some held)
    with Cons.prems obtain r' rest where "trigger_loop run cfg windowEnd (Suc i) ts (inFlight, r') = (st, rest)"
      "map srl_Target results = t # map srl_Target rest" "map srl_Request results = trigger_request cfg windowEnd t # map srl_Request rest"
      by (auto simp: Let_def release_acquired [OF Some] split: prod.splits)
    with Cons.IH show ?thesis by simp
  qed
qed simp

text \<open>
  One trigger serves every target of an enabled scheduler once, in order, each for the same window that ends at the
  full minute, and leaves no run in flight behind it, whether the runs succeed or fail.
\<close>

lemma trigger_serves_targets:
  "case Trigger run cfg scheduledAt (inFlight, r) of
     (st, results) \<Rightarrow> fst st = inFlight \<and> map srl_Target results = (if scf_Enabled cfg then scf_Targets cfg else []) \<and>
       map srl_Request results = map (trigger_request cfg (Truncate scheduledAt Minute)) (if scf_Enabled cfg then scf_Targets cfg else [])"
  using trigger_loop_spec [of run cfg "Truncate scheduledAt Minute" 0 "scf_Targets cfg" inFlight r]
  by (simp add: Trigger_def split: prod.split)

end
