(* ===== verification/OfflineShadow.thy ===== *)
theory OfflineShadow
  imports OfflineService
begin

text \<open>
  Retrieval of optimisation items beside the knowledge base (\<^verbatim>\<open>offlineknowledge/shadow.go\<close>): the items whose question fits a
  query, ranked, with an event for each match that is sampled. \<open>now i\<close> is reading number \<open>i\<close> of the clock; \<open>rand i\<close> is the random
  number drawn for match number \<open>i\<close>. Metrics and the callback for dropped events are left out.
\<close>

section \<open>Data\<close>

record OfflineShadowRequest =
  shq_TenantID :: string
  shq_KBID :: string
  shq_Query :: string
  shq_TraceID :: string
  shq_Limit :: int
  shq_Inject :: bool
  shq_ScopedItemID :: string
  shq_AllowLowConfidenceFallback :: bool

record OfflineAnswerItem =
  sai_SourceFingerprints :: "SourceFingerprint list"
  sai_Evidence :: "OfflineEvidence list"

text \<open>The guidance metadata of a match; the confidence keeps its number.\<close>

record guidance =
  gd_canonical_question :: string
  gd_confidence :: float64
  gd_failure_type :: string
  gd_item_type :: string
  gd_recall_quality :: string

record OfflineMatch =
  smt_ItemID :: string
  smt_ItemType :: ItemType
  smt_Source :: string
  smt_Score :: float64
  smt_Rank :: int
  smt_AnswerItem :: "(OfflineAnswerItem \<times> guidance) option"
  smt_Metadata :: guidance

record ShadowRetriever =
  sht_limit :: int
  sht_eventSamplingRate :: float64
  sht_randFloat64 :: "(nat \<Rightarrow> float64) option"

definition NewShadowRetriever :: "int \<Rightarrow> float64 option \<Rightarrow> (nat \<Rightarrow> float64) option \<Rightarrow> ShadowRetriever" where
  "NewShadowRetriever limit rate rand =
     (let r = (case rate of None \<Rightarrow> Fin 1 | Some x \<Rightarrow> x)
      in \<lparr>sht_limit = limit, sht_eventSamplingRate = (if flt (Fin 1) r then Fin 1 else r), sht_randFloat64 = rand\<rparr>)"

section \<open>Scores\<close>

definition drop_marks :: "string \<Rightarrow> string" where
  "drop_marks s = filter (\<lambda>c. \<not> List.member ''?!.,:;'' c) s"

definition normalizeShadowText :: "unicode_tables \<Rightarrow> string \<Rightarrow> string" where
  "normalizeShadowText u v = Join (Fields (drop_marks (ToLower u (TrimSpace v)))) '' ''"

definition shadowScore :: "unicode_tables \<Rightarrow> string \<Rightarrow> string \<Rightarrow> bool \<Rightarrow> float64" where
  "shadowScore u query question fallback =
     (let nq = normalizeShadowText u query; nn = normalizeShadowText u question
      in if nq \<noteq> [] \<and> nn = nq then Fin 1
         else if nq \<noteq> [] \<and> nn \<noteq> [] \<and> (Contains nn nq \<or> Contains nq nn) then fround (7 / 10)
         else if fallback then fround (1 / 10)
         else Fin 0)"

section \<open>Eligible items\<close>

definition shadowStatusEligible :: "ItemStatus \<Rightarrow> bool" where
  "shadowStatusEligible st \<longleftrightarrow> st = Verified \<or> st = ShadowEnabled \<or> st = RegressionPassed \<or> st = Published"

definition status_filter :: "OfflineShadowRequest \<Rightarrow> ItemStatus \<Rightarrow> OptimizationItemFilter" where
  "status_filter q st =
     \<lparr>oif_TenantID = shq_TenantID q, oif_KBID = normalizeOptionalKBID (shq_KBID q), oif_RunID = [], oif_QuestionClusterID = [],
      oif_Status = Some st, oif_ItemType = [], oif_Limit = 0\<rparr>"

definition listEligibleItems :: "OfflineShadowRequest \<Rightarrow> OfflineRepository \<Rightarrow> offline_error + OptimizationItem list" where
  "listEligibleItems q r =
     (if TrimSpace (shq_ScopedItemID q) \<noteq> [] then
        (case GetOptimizationItem (shq_TenantID q) (shq_ScopedItemID q) r of
           None \<Rightarrow> Inl Err_ScopedShadowItemMissing
         | Some item \<Rightarrow>
             if normalizeOptionalKBID (oi_KBID item) \<noteq> normalizeOptionalKBID (shq_KBID q) then Inl Err_ScopedShadowItemMissing
             else if oi_Status item = Stale \<or> oi_Status item = Deprecated then Inl Err_ScopedShadowItemStale
             else if \<not> shadowStatusEligible (oi_Status item) then Inl Err_ScopedShadowItemDisabled
             else Inr [item])
      else Inr (concat (map (\<lambda>st. ListOptimizationItems (status_filter q st) r) [Verified, ShadowEnabled, RegressionPassed, Published])))"

section \<open>Retrieval\<close>

definition shadowGuidanceMetadata :: "OptimizationItem \<Rightarrow> guidance" where
  "shadowGuidanceMetadata item =
     \<lparr>gd_canonical_question = oi_CanonicalQuestion item, gd_confidence = oi_Confidence item, gd_failure_type = oi_FailureType item,
      gd_item_type = oi_ItemType item, gd_recall_quality = oi_RecallQuality item\<rparr>"

definition shadowMatchFromItem :: "OptimizationItem \<Rightarrow> float64 \<Rightarrow> OfflineMatch" where
  "shadowMatchFromItem item score =
     \<lparr>smt_ItemID = oi_ID item, smt_ItemType = oi_ItemType item, smt_Source = ''optimization_library'', smt_Score = score, smt_Rank = 0,
      smt_AnswerItem = (if oi_ItemType item = ItemTypeAnswer
        then Some (\<lparr>sai_SourceFingerprints = oi_SourceFingerprints item, sai_Evidence = oi_Evidence item\<rparr>, shadowGuidanceMetadata item)
        else None),
      smt_Metadata = shadowGuidanceMetadata item\<rparr>"

definition match_before :: "OfflineMatch \<Rightarrow> OfflineMatch \<Rightarrow> bool" where
  "match_before a b \<longleftrightarrow> (if feq (smt_Score a) (smt_Score b) then smt_ItemID a < smt_ItemID b else flt (smt_Score b) (smt_Score a))"

definition shouldSampleEvent :: "ShadowRetriever \<Rightarrow> nat \<Rightarrow> bool" where
  "shouldSampleEvent p i \<longleftrightarrow>
     (if fle (Fin 1) (sht_eventSamplingRate p) then True
      else if fle (sht_eventSamplingRate p) (Fin 0) then False
      else case sht_randFloat64 p of None \<Rightarrow> True | Some rand \<Rightarrow> flt (rand i) (sht_eventSamplingRate p))"

definition retriever_RecordShadowEvent :: "ShadowRetriever \<Rightarrow> gotime \<Rightarrow> nat \<Rightarrow> ShadowRetrievalEvent \<Rightarrow> OfflineRepository \<Rightarrow> OfflineRepository" where
  "retriever_RecordShadowEvent p now i e r =
     (let e = (if IsZero (sre_CreatedAt e) then e\<lparr>sre_CreatedAt := now\<rparr> else e);
          e = (if sre_ID e = []
               then e\<lparr>sre_ID := stableID ''shadow'' [sre_TenantID e, sre_KBID e, sre_TraceID e, sre_ItemID e, RFC3339Nano (sre_CreatedAt e)]\<rparr>
               else e)
      in if shouldSampleEvent p i then RecordShadowEvent e r else r)"

definition match_event :: "OfflineShadowRequest \<Rightarrow> gotime \<Rightarrow> gotime \<Rightarrow> OfflineMatch \<Rightarrow> ShadowRetrievalEvent" where
  "match_event q t1 t2 m =
     \<lparr>sre_ID = stableID ''shadow'' [shq_TenantID q, normalizeOptionalKBID (shq_KBID q), shq_TraceID q, smt_ItemID m, RFC3339Nano t1],
      sre_TenantID = shq_TenantID q, sre_KBID = normalizeOptionalKBID (shq_KBID q), sre_ItemID = smt_ItemID m, sre_TraceID = shq_TraceID q,
      sre_Query = shq_Query q, sre_Matched = True, sre_Injected = shq_Inject q, sre_Rank = smt_Rank m, sre_Score = smt_Score m,
      sre_RecallLift = Fin 0, sre_AnswerLift = Fin 0, sre_HallucinationRisk = Fin 0, sre_CreatedAt = t2\<rparr>"

fun record_matches ::
  "ShadowRetriever \<Rightarrow> OfflineShadowRequest \<Rightarrow> (nat \<Rightarrow> gotime) \<Rightarrow> nat \<Rightarrow> OfflineMatch list \<Rightarrow> OfflineRepository \<Rightarrow> OfflineRepository" where
  "record_matches p q now i [] r = r"
| "record_matches p q now i (m # ms) r =
     record_matches p q now (Suc i) ms
       (retriever_RecordShadowEvent p (now (3 * i + 2)) i (match_event q (now (3 * i)) (now (3 * i + 1)) m) r)"

definition ranked_matches :: "unicode_tables \<Rightarrow> ShadowRetriever \<Rightarrow> OfflineShadowRequest \<Rightarrow> OptimizationItem list \<Rightarrow> OfflineMatch list" where
  "ranked_matches u p q items =
     (let matches = concat (map (\<lambda>item. let score = shadowScore u (shq_Query q) (oi_CanonicalQuestion item) (shq_AllowLowConfidenceFallback q)
                                         in if fle score (Fin 0) then [] else [shadowMatchFromItem item score]) items);
          matches = limit_list (sort_by match_before matches) (firstPositive [shq_Limit q, sht_limit p])
      in map (\<lambda>(i, m). m\<lparr>smt_Rank := int i + 1\<rparr>) (enumerate 0 matches))"

definition shadow_Retrieve ::
  "unicode_tables \<Rightarrow> ShadowRetriever \<Rightarrow> (nat \<Rightarrow> gotime) \<Rightarrow> OfflineShadowRequest \<Rightarrow> OfflineRepository \<Rightarrow>
   OfflineRepository \<times> (offline_error + OfflineMatch list)" where
  "shadow_Retrieve u p now q r =
     (case listEligibleItems q r of
        Inl err \<Rightarrow> (r, Inl err)
      | Inr items \<Rightarrow> let ms = ranked_matches u p q items in (record_matches p q now 0 ms r, Inr ms))"

section \<open>What a request can see\<close>

lemma shadowScore_range: "shadowScore u a b f = Fin 0 \<or> shadowScore u a b f = Fin 1 \<or> shadowScore u a b f = fround (7 / 10) \<or> shadowScore u a b f = fround (1 / 10)"
  by (simp add: shadowScore_def Let_def)

lemma shadowScore_not_NaN: "shadowScore u a b f \<noteq> NaN"
  using shadowScore_range [of u a b f] by auto

lemma record_matches_items [simp]: "ofr_items (record_matches p q now i ms r) = ofr_items r" "ofr_events (record_matches p q now i ms r) = ofr_events r"
  by (induction ms arbitrary: i r) (simp_all add: retriever_RecordShadowEvent_def RecordShadowEvent_def Let_def)

lemma eligible_items:
  assumes "listEligibleItems q r = Inr items" and "x \<in> set items"
  shows "x \<in> snd ` set (ofr_items r) \<and> shadowStatusEligible (oi_Status x) \<and>
    (TrimSpace (shq_ScopedItemID q) \<noteq> [] \<longrightarrow> map_of (ofr_items r) (shq_ScopedItemID q) = Some x) \<and>
    (shq_TenantID q = [] \<or> oi_TenantID x = shq_TenantID q) \<and>
    (TrimSpace (shq_KBID q) \<noteq> [] \<longrightarrow> oi_KBID x = shq_KBID q)"
proof (cases "TrimSpace (shq_ScopedItemID q) = []")
  case True
  with assms have "\<exists>st \<in> {Verified, ShadowEnabled, RegressionPassed, Published}. x \<in> set (ListOptimizationItems (status_filter q st) r)"
    by (auto simp: listEligibleItems_def)
  then obtain st where st: "st \<in> {Verified, ShadowEnabled, RegressionPassed, Published}"
    "x \<in> set (ListOptimizationItems (status_filter q st) r)" by blast
  from ListOptimizationItems_mem [OF st(2)] st(1) True show ?thesis
    by (auto simp: item_matches_def status_filter_def open_or_def shadowStatusEligible_def normalizeOptionalKBID_def normalizeKBID_def)
next
  case False
  with assms have item: "map_of (ofr_items r) (shq_ScopedItemID q) = Some x" "oi_TenantID x = shq_TenantID q" "shadowStatusEligible (oi_Status x)"
    "normalizeOptionalKBID (oi_KBID x) = normalizeOptionalKBID (shq_KBID q)"
    by (auto simp: listEligibleItems_def GetOptimizationItem_iff split: option.splits if_splits)
  from map_of_SomeD [OF item(1)] have "x \<in> snd ` set (ofr_items r)" by force
  with item show ?thesis by (auto simp: normalizeOptionalKBID_def normalizeKBID_def split: if_splits)
qed

definition match_key :: "OfflineMatch \<Rightarrow> float64 \<times> string" where
  "match_key m = (fneg (smt_Score m), smt_ItemID m)"

lemma set_rank_all: "m \<in> set (map (\<lambda>(i, m). m\<lparr>smt_Rank := int i + 1\<rparr>) (enumerate 0 xs)) \<Longrightarrow> \<exists>m0 \<in> set xs. \<exists>i. m = m0\<lparr>smt_Rank := i\<rparr>"
  by (auto simp: in_set_enumerate_eq intro!: nth_mem)

lemma ranked_matches_scores:
  assumes "m \<in> set (ranked_matches u p q items)"
  shows "\<exists>item \<in> set items. smt_ItemID m = oi_ID item \<and> smt_Metadata m = shadowGuidanceMetadata item \<and>
    smt_Score m = shadowScore u (shq_Query q) (oi_CanonicalQuestion item) (shq_AllowLowConfidenceFallback q) \<and> flt (Fin 0) (smt_Score m)"
proof -
  from assms obtain i m0 where m: "m = m0\<lparr>smt_Rank := i\<rparr>" and m0: "m0 \<in> set (sort_by match_before (concat (map (\<lambda>item.
      if fle (shadowScore u (shq_Query q) (oi_CanonicalQuestion item) (shq_AllowLowConfidenceFallback q)) (Fin 0) then []
      else [shadowMatchFromItem item (shadowScore u (shq_Query q) (oi_CanonicalQuestion item) (shq_AllowLowConfidenceFallback q))]) items)))"
    unfolding ranked_matches_def Let_def by (blast dest!: set_rank_all set_limit_list)
  from m0 obtain item where "item \<in> set items"
    "m0 = shadowMatchFromItem item (shadowScore u (shq_Query q) (oi_CanonicalQuestion item) (shq_AllowLowConfidenceFallback q))"
    "\<not> fle (shadowScore u (shq_Query q) (oi_CanonicalQuestion item) (shq_AllowLowConfidenceFallback q)) (Fin 0)"
    by (auto simp: Let_def split: if_splits)
  with m shadowScore_not_NaN show ?thesis
    by (intro bexI [of _ item]) (auto simp: shadowMatchFromItem_def fle_iff flt_iff)
qed

lemma ranked_matches_limit:
  assumes "0 < firstPositive [shq_Limit q, sht_limit p]"
  shows "int (length (ranked_matches u p q items)) \<le> firstPositive [shq_Limit q, sht_limit p]"
  using length_limit_list [OF assms] by (simp add: ranked_matches_def Let_def del: firstPositive.simps)

lemma ranked_matches_ranks: "map smt_Rank (ranked_matches u p q items) = map int [1..<Suc (length (ranked_matches u p q items))]"
  by (rule nth_equalityI) (simp_all add: ranked_matches_def Let_def nth_enumerate_eq del: upt_Suc)

text \<open>
  Shadow retrieval stays within the request: every match comes from an item of the repository in a status that allows it,
  of the request's tenant and, if the request names one, of its knowledge base, with the item's own score, which is positive; a
  request scoped to an item matches no other. The matches are ranked from one, and no item or event is changed.
\<close>

lemma shadow_retrieval_confined:
  assumes "shadow_Retrieve u p now q r = (r', Inr ms)" and "shq_TenantID q \<noteq> []"
  shows "(\<forall>m \<in> set ms. \<exists>item \<in> snd ` set (ofr_items r). smt_ItemID m = oi_ID item \<and> shadowStatusEligible (oi_Status item) \<and>
      oi_TenantID item = shq_TenantID q \<and> (TrimSpace (shq_KBID q) = [] \<or> oi_KBID item = shq_KBID q) \<and>
      (TrimSpace (shq_ScopedItemID q) = [] \<or> map_of (ofr_items r) (shq_ScopedItemID q) = Some item) \<and>
      smt_Score m = shadowScore u (shq_Query q) (oi_CanonicalQuestion item) (shq_AllowLowConfidenceFallback q) \<and> flt (Fin 0) (smt_Score m)) \<and>
    map smt_Rank ms = map int [1..<Suc (length ms)] \<and> ofr_items r' = ofr_items r \<and> ofr_events r' = ofr_events r"
proof -
  from assms(1) obtain items where items: "listEligibleItems q r = Inr items" "ms = ranked_matches u p q items" "r' = record_matches p q now 0 ms r"
    by (auto simp: shadow_Retrieve_def Let_def split: sum.splits)
  show ?thesis
  proof (intro conjI ballI)
    fix m assume "m \<in> set ms"
    from ranked_matches_scores [OF this [unfolded items(2)]] obtain item where item: "item \<in> set items" "smt_ItemID m = oi_ID item"
      "smt_Score m = shadowScore u (shq_Query q) (oi_CanonicalQuestion item) (shq_AllowLowConfidenceFallback q)" "flt (Fin 0) (smt_Score m)" by blast
    with eligible_items [OF items(1) item(1)] assms(2)
    show "\<exists>item \<in> snd ` set (ofr_items r). smt_ItemID m = oi_ID item \<and> shadowStatusEligible (oi_Status item) \<and>
      oi_TenantID item = shq_TenantID q \<and> (TrimSpace (shq_KBID q) = [] \<or> oi_KBID item = shq_KBID q) \<and>
      (TrimSpace (shq_ScopedItemID q) = [] \<or> map_of (ofr_items r) (shq_ScopedItemID q) = Some item) \<and>
      smt_Score m = shadowScore u (shq_Query q) (oi_CanonicalQuestion item) (shq_AllowLowConfidenceFallback q) \<and> flt (Fin 0) (smt_Score m)"
      by (intro bexI [of _ item]) auto
  qed (simp_all add: items ranked_matches_ranks)
qed

text \<open>A request without a query, with the fall-back, for a repository of one published item.\<close>

definition sample_request :: OfflineShadowRequest where
  "sample_request =
     \<lparr>shq_TenantID = ''t'', shq_KBID = ''kb'', shq_Query = [], shq_TraceID = [], shq_Limit = 0, shq_Inject = False, shq_ScopedItemID = [],
      shq_AllowLowConfidenceFallback = True\<rparr>"

definition sample_repository :: OfflineRepository where
  "sample_repository = NewOfflineRepository\<lparr>ofr_items := [(''i'', sample_item\<lparr>oi_Status := Published\<rparr>)]\<rparr>"

lemma tenth_positive: "\<not> fle (fround (1 / 10)) (Fin 0)"
proof -
  have "(2 :: rat) powi (- 1074) \<le> 2 powi (- 4)" by (intro power_int_increasing) auto
  also have "\<dots> \<le> 1 / 10" by (simp add: power_int_def power_one_over)
  finally have "Fin 0 < fround (1 / 10)" by (rule fround_pos)
  then show ?thesis by (auto simp: fle_iff)
qed

lemma sample_retrieval:
  "shadow_Retrieve u (NewShadowRetriever 0 None None) now sample_request sample_repository =
     (record_matches (NewShadowRetriever 0 None None) sample_request now 0
        [(shadowMatchFromItem (sample_item\<lparr>oi_Status := Published\<rparr>) (fround (1 / 10)))\<lparr>smt_Rank := 1\<rparr>] sample_repository,
      Inr [(shadowMatchFromItem (sample_item\<lparr>oi_Status := Published\<rparr>) (fround (1 / 10)))\<lparr>smt_Rank := 1\<rparr>])"
proof -
  have kb: "normalizeOptionalKBID ''kb'' = ''kb''" by (simp add: normalizeOptionalKBID_def normalizeKBID_def trim_eval)
  have empty: "TrimSpace [] = []" by (simp add: trim_eval)
  have score: "shadowScore u [] question True = fround (1 / 10)" for question
    by (simp add: shadowScore_def normalizeShadowText_def empty ToLower_def drop_marks_def Fields_def FieldsFunc_def)
  have "listEligibleItems sample_request sample_repository = Inr [sample_item\<lparr>oi_Status := Published\<rparr>]"
    by (simp add: listEligibleItems_def sample_request_def empty status_filter_def kb ListOptimizationItems_def item_matches_def open_or_def
        sample_repository_def NewOfflineRepository_def sample_item_def newest_first_def limit_list_def)
  moreover have "ranked_matches u (NewShadowRetriever 0 None None) sample_request [sample_item\<lparr>oi_Status := Published\<rparr>] =
    [(shadowMatchFromItem (sample_item\<lparr>oi_Status := Published\<rparr>) (fround (1 / 10)))\<lparr>smt_Rank := 1\<rparr>]"
    using tenth_positive
    by (simp add: ranked_matches_def sample_request_def score limit_list_def NewShadowRetriever_def enumerate_simps Let_def)
  ultimately show ?thesis by (simp add: shadow_Retrieve_def)
qed

lemma shadow_retrieval_confined_witness:
  "\<exists>m. snd (shadow_Retrieve ascii_tables (NewShadowRetriever 0 None None) (\<lambda>i. 0) sample_request sample_repository) = Inr [m] \<and>
     (\<exists>item \<in> snd ` set (ofr_items sample_repository). smt_ItemID m = oi_ID item \<and> oi_TenantID item = ''t'')"
proof -
  have tenant: "shq_TenantID sample_request = ''t''" by (simp add: sample_request_def)
  then have "shq_TenantID sample_request \<noteq> []" by simp
  from shadow_retrieval_confined [OF sample_retrieval [of ascii_tables "\<lambda>i. 0"] this]
  have "\<exists>item \<in> snd ` set (ofr_items sample_repository).
      smt_ItemID ((shadowMatchFromItem (sample_item\<lparr>oi_Status := Published\<rparr>) (fround (1 / 10)))\<lparr>smt_Rank := 1\<rparr>) = oi_ID item \<and>
      oi_TenantID item = ''t''"
    unfolding tenant by (meson list.set_intros(1))
  then show ?thesis unfolding sample_retrieval snd_conv by blast
qed

end
