(* ===== verification/OfflineProps.thy ===== *)
theory OfflineProps
  imports OfflineService
begin

text \<open>
  What the review of optimisation items guarantees: the event log of an item is a walk through its life cycle that ends
  in its status, so nothing is published that has not passed its regression; a refused operation changes nothing. And
  what it does not: a repeated mining run overwrites a reviewed item, and a slow regression overwrites a review.
\<close>

section \<open>The log of an item\<close>

definition item_log :: "string \<Rightarrow> OfflineRepository \<Rightarrow> OptimizationItemEvent list" where
  "item_log itemID r = filter (\<lambda>e. oie_ItemID e = itemID) (ofr_events r)"

definition event_is :: "string \<Rightarrow> ItemStatus \<Rightarrow> OptimizationItemEvent \<Rightarrow> bool" where
  "event_is eventType status e \<longleftrightarrow>
     oie_EventType e = eventType \<and> map_of (oie_Payload e) ''status'' = Some (JString (item_status_text status))"

definition event_passed :: "OptimizationItemEvent \<Rightarrow> bool" where
  "event_passed e \<longleftrightarrow> map_of (oie_Payload e) ''passed'' = Some (JBool True)"

text \<open>The statuses that an operator can ask for: those of \<open>offlineKnowledgeActionStatus\<close>.\<close>

definition action_statuses :: "ItemStatus list" where
  "action_statuses = [Verified, Rejected, ShadowEnabled, Published, Deprecated]"

lemma action_status_listed: "offlineKnowledgeActionStatus action = Some b \<Longrightarrow> b \<in> set action_statuses"
  by (auto simp: offlineKnowledgeActionStatus_def action_statuses_def split: if_splits)

inductive item_history :: "OptimizationItemEvent list \<Rightarrow> ItemStatus \<Rightarrow> bool" where
  created: "es = [] \<or> item_history es a \<Longrightarrow> event_is ''created'' b e \<Longrightarrow> b \<in> {Rejected, KnowledgeGap, NeedsReview, Verified} \<Longrightarrow>
    item_history (es @ [e]) b"
| changed: "item_history es a \<Longrightarrow> CanTransition a b \<Longrightarrow> b \<in> set action_statuses \<Longrightarrow> event_is ''status_changed'' b e \<Longrightarrow>
    item_history (es @ [e]) b"
| revalidated: "item_history es Stale \<Longrightarrow> event_is ''revalidated'' b e \<Longrightarrow> b \<in> {Verified, Rejected, Deprecated} \<Longrightarrow>
    item_history (es @ [e]) b"
| evaluated: "item_history es a \<Longrightarrow> a = b \<or> CanTransition a b \<Longrightarrow> event_is ''regression_evaluated'' b e \<Longrightarrow>
    a = ShadowEnabled \<or> a = RegressionFailed \<Longrightarrow> b = RegressionPassed \<and> event_passed e \<or> b = RegressionFailed \<Longrightarrow>
    item_history (es @ [e]) b"



section \<open>The invariant\<close>

definition offline_inv :: "OfflineRepository \<Rightarrow> bool" where
  "offline_inv r \<longleftrightarrow>
     (\<forall>itemID. map_of (ofr_items r) itemID = None \<longrightarrow> item_log itemID r = []) \<and>
     (\<forall>itemID item. map_of (ofr_items r) itemID = Some item \<longrightarrow> oi_ID item = itemID \<and> item_history (item_log itemID r) (oi_Status item))"

lemma offline_inv_cong: "ofr_items r' = ofr_items r \<Longrightarrow> ofr_events r' = ofr_events r \<Longrightarrow> offline_inv r' = offline_inv r"
  by (simp add: offline_inv_def item_log_def)

lemma untouched [simp]:
  "ofr_items (CreateRun run r) = ofr_items r" "ofr_events (CreateRun run r) = ofr_events r"
  "ofr_items (fst (UpdateRun run r)) = ofr_items r" "ofr_events (fst (UpdateRun run r)) = ofr_events r"
  "ofr_items (UpsertQuestionCluster c r) = ofr_items r" "ofr_events (UpsertQuestionCluster c r) = ofr_events r"
  "ofr_items (fst (failRun now err_text run err r)) = ofr_items r" "ofr_events (fst (failRun now err_text run err r)) = ofr_events r"
  by (simp_all add: CreateRun_def UpdateRun_def UpsertQuestionCluster_def failRun_def Let_def split: option.split)

lemma offline_inv_untouched [simp]:
  "offline_inv (CreateRun run r) = offline_inv r" "offline_inv (fst (UpdateRun run r)) = offline_inv r"
  "offline_inv (UpsertQuestionCluster c r) = offline_inv r" "offline_inv (fst (failRun now err_text run err r)) = offline_inv r"
  by (rule offline_inv_cong; simp)+

text \<open>Writing an item and logging its new status keeps the invariant if the event continues the item's history.\<close>

lemma offline_inv_write:
  assumes inv: "offline_inv r" and items: "ofr_items r' = gput (oi_ID item) item (ofr_items r)"
    and events: "ofr_events r' = ofr_events r @ [e]" and e: "oie_ItemID e = oi_ID item"
    and step: "item_history (item_log (oi_ID item) r @ [e]) (oi_Status item)"
  shows "offline_inv r'"
proof -
  have log: "item_log k r' = (if k = oi_ID item then item_log k r @ [e] else item_log k r)" for k
    by (simp add: item_log_def events e)
  show ?thesis using inv step by (auto simp: offline_inv_def items map_simps log)
qed

lemma offline_inv_item:
  "offline_inv r \<Longrightarrow> map_of (ofr_items r) k = Some item \<Longrightarrow> oi_ID item = k \<and> item_history (item_log k r) (oi_Status item)"
  by (simp add: offline_inv_def)

lemma offline_inv_log:
  "offline_inv r \<Longrightarrow> item_log k r = [] \<or> (\<exists>a. item_history (item_log k r) a)"
  by (cases "map_of (ofr_items r) k") (auto simp: offline_inv_def)

lemma status_event_simps [simp]:
  "oie_ItemID (status_event now item t p) = oi_ID item"
  "event_is t' b (status_event now item t p) \<longleftrightarrow> t' = t \<and> map_of p ''status'' = Some (JString (item_status_text b))"
  "event_passed (status_event now item t p) \<longleftrightarrow> map_of p ''passed'' = Some (JBool True)"
  by (auto simp: status_event_def event_is_def event_passed_def)

lemma UpdateOptimizationItem_known:
  assumes "map_of (ofr_items r) (oi_ID item) = Some old" and "oi_TenantID old = oi_TenantID item"
  shows "UpdateOptimizationItem item r = (r\<lparr>ofr_items := gput (oi_ID item) item (ofr_items r)\<rparr>, True)"
  using assms by (simp add: UpdateOptimizationItem_def GetOptimizationItem_def)

section \<open>Every operation keeps it\<close>

text \<open>An operation that rewrites an item it has just read, and logs the new status.\<close>

lemma rewrite_keeps_inv:
  assumes inv: "offline_inv r" and item: "map_of (ofr_items r) k = Some item"
    and new: "oi_ID item' = oi_ID item" "oie_ItemID e = oi_ID item"
    and items: "ofr_items r' = gput (oi_ID item) item' (ofr_items r)" and events: "ofr_events r' = ofr_events r @ [e]"
    and step: "\<And>es. item_history es (oi_Status item) \<Longrightarrow> item_history (es @ [e]) (oi_Status item')"
  shows "offline_inv r'"
proof (rule offline_inv_write [OF inv, of r' item' e])
  show "item_history (item_log (oi_ID item') r @ [e]) (oi_Status item')"
    using offline_inv_item [OF inv item] step new(1) by simp
qed (use assms in simp_all)

lemma Transition_result:
  assumes inv: "offline_inv r" and Some: "GetOptimizationItem tenantID itemID r = Some item"
    and ok: "oi_Status item \<noteq> b" "CanTransition (oi_Status item) b"
  obtains item2 e where
    "TransitionOptimizationItem now id tenantID itemID b r =
       (AppendItemEvent e (r\<lparr>ofr_items := gput (oi_ID item) item2 (ofr_items r)\<rparr>), Inr item2)"
    "oi_ID item2 = oi_ID item" "oi_Status item2 = b" "oie_ItemID e = oi_ID item" "event_is ''status_changed'' b e" "oi_TenantID item2 = tenantID"
proof -
  have item: "map_of (ofr_items r) itemID = Some item" "oi_TenantID item = tenantID" using Some by (simp_all add: GetOptimizationItem_iff)
  have id: "oi_ID item = itemID" using offline_inv_item [OF inv item(1)] by simp
  define item1 where "item1 = item\<lparr>oi_Status := b, oi_UpdatedAt := now 0\<rparr>"
  define item2 where "item2 = (if b = Published then item1\<lparr>oi_PublishedAt := oi_UpdatedAt item1\<rparr> else item1)"
  let ?e = "status_event (now 1) item2 ''status_changed'' [(''status'', JString (item_status_text b))]"
  have item2: "oi_ID item2 = oi_ID item" "oi_TenantID item2 = tenantID" "oi_Status item2 = b"
    by (simp_all add: item2_def item1_def item(2))
  have "UpdateOptimizationItem item2 r = (r\<lparr>ofr_items := gput (oi_ID item2) item2 (ofr_items r)\<rparr>, True)"
    by (rule UpdateOptimizationItem_known) (use item id item2 in simp_all)
  then have "TransitionOptimizationItem now id tenantID itemID b r =
    (AppendItemEvent ?e (r\<lparr>ofr_items := gput (oi_ID item2) item2 (ofr_items r)\<rparr>), Inr item2)"
    using ok Some item2(3)
    by (simp add: TransitionOptimizationItem_def item1_def [symmetric] item2_def [symmetric] appendStatusEvent_def)
  with item2 that [of ?e item2] show thesis by simp
qed

lemma Transition_refused:
  assumes "GetOptimizationItem tenantID itemID r = None \<or>
    (\<exists>item. GetOptimizationItem tenantID itemID r = Some item \<and> (oi_Status item = b \<or> \<not> CanTransition (oi_Status item) b))"
  shows "fst (TransitionOptimizationItem now env tenantID itemID b r) = r"
  using assms by (auto simp: TransitionOptimizationItem_def)

lemma Transition_keeps_inv:
  assumes inv: "offline_inv r" and act: "b \<in> set action_statuses"
  shows "offline_inv (fst (TransitionOptimizationItem now id tenantID itemID b r))"
proof (cases "GetOptimizationItem tenantID itemID r = None \<or>
    (\<exists>item. GetOptimizationItem tenantID itemID r = Some item \<and> (oi_Status item = b \<or> \<not> CanTransition (oi_Status item) b))")
  case True
  then show ?thesis using inv by (simp add: Transition_refused)
next
  case False
  then obtain item where Some: "GetOptimizationItem tenantID itemID r = Some item" and ok: "oi_Status item \<noteq> b" "CanTransition (oi_Status item) b"
    by auto
  have item: "map_of (ofr_items r) itemID = Some item" using Some by (simp add: GetOptimizationItem_iff)
  obtain item2 e where t: "TransitionOptimizationItem now id tenantID itemID b r =
       (AppendItemEvent e (r\<lparr>ofr_items := gput (oi_ID item) item2 (ofr_items r)\<rparr>), Inr item2)"
    "oi_ID item2 = oi_ID item" "oi_Status item2 = b" "oie_ItemID e = oi_ID item" "event_is ''status_changed'' b e"
    by (rule Transition_result [OF inv Some ok])
  show ?thesis unfolding t(1) fst_conv
  proof (rule rewrite_keeps_inv [OF inv item, of item2 e])
    show "item_history (es @ [e]) (oi_Status item2)" if "item_history es (oi_Status item)" for es
      unfolding t(3) by (rule item_history.changed [OF that ok(2) act t(5)])
  qed (simp_all add: AppendItemEvent_def t)
qed

lemma Revalidate_result:
  assumes inv: "offline_inv r" and v: "svc_validator s = Some validate" and Some: "GetOptimizationItem tenantID itemID r = Some item"
    and stale: "oi_Status item = Stale"
  obtains item2 e r1 res where
    "RevalidateItem s now id tenantID itemID r = (AppendItemEvent e r1, Inr res)"
    "ofr_items r1 = gput (oi_ID item) item2 (ofr_items r)" "ofr_events r1 = ofr_events r" "oi_ID item2 = oi_ID item"
    "oi_Status item2 \<in> {Verified, Rejected, Deprecated}" "oie_ItemID e = oi_ID item" "event_is ''revalidated'' (oi_Status item2) e"
proof -
  have item: "map_of (ofr_items r) itemID = Some item" "oi_TenantID item = tenantID" using Some by (simp_all add: GetOptimizationItem_iff)
  have id: "oi_ID item = itemID" using offline_inv_item [OF inv item(1)] by simp
  define b where "b = (case validate (oi_TenantID item) (oi_KBID item) item of None \<Rightarrow> Verified
    | Some err \<Rightarrow> if err = Err_StaleFingerprint \<or> err = Err_SourceNotFound then Deprecated else Rejected)"
  define item2 where "item2 = item\<lparr>oi_Status := b, oi_UpdatedAt := now (Suc 0)\<rparr>"
  define r1 where "r1 = r\<lparr>ofr_items := gput itemID (item\<lparr>oi_Status := EvidenceValidating, oi_UpdatedAt := now 0\<rparr>) (ofr_items r)\<rparr>"
  let ?e = "status_event (now 2) item2 ''revalidated'' [(''status'', JString (item_status_text b))]"
  have b: "b \<in> {Verified, Rejected, Deprecated}" by (auto simp: b_def split: option.split)
  have item2: "oi_ID item2 = itemID" "oi_TenantID item2 = tenantID" "oi_Status item2 = b" by (simp_all add: item2_def item(2) id)
  have "UpdateOptimizationItem item2 r1 = (r1\<lparr>ofr_items := gput itemID item2 (ofr_items r1)\<rparr>, True)"
    using UpdateOptimizationItem_known [of r1 item2] item2 item(2) by (simp add: r1_def map_simps)
  then have "\<exists>res. RevalidateItem s now id tenantID itemID r =
    (AppendItemEvent ?e (r1\<lparr>ofr_items := gput itemID item2 (ofr_items r1)\<rparr>), Inr res)"
    using v Some stale item2(3)
    by (simp add: RevalidateItem_def UpdateOptimizationItemStatus_def r1_def [symmetric] b_def [symmetric] item2_def [symmetric]
        appendStatusEvent_def Let_def)
  then show thesis using that [of ?e "r1\<lparr>ofr_items := gput itemID item2 (ofr_items r1)\<rparr>" _ item2] b item2 id by (auto simp: r1_def)
qed

lemma Revalidate_refused:
  assumes "svc_validator s = None \<or> GetOptimizationItem tenantID itemID r = None \<or>
    oi_Status (the (GetOptimizationItem tenantID itemID r)) \<noteq> Stale"
  shows "fst (RevalidateItem s now env tenantID itemID r) = r"
  using assms by (auto simp: RevalidateItem_def Let_def split: option.splits)

lemma Revalidate_keeps_inv:
  assumes inv: "offline_inv r"
  shows "offline_inv (fst (RevalidateItem s now id tenantID itemID r))"
proof (cases "svc_validator s = None \<or> GetOptimizationItem tenantID itemID r = None \<or>
    oi_Status (the (GetOptimizationItem tenantID itemID r)) \<noteq> Stale")
  case True
  then show ?thesis using inv by (simp add: Revalidate_refused)
next
  case False
  then obtain validate item where v: "svc_validator s = Some validate" and Some: "GetOptimizationItem tenantID itemID r = Some item"
    and stale: "oi_Status item = Stale" by auto
  have item: "map_of (ofr_items r) itemID = Some item" using Some by (simp add: GetOptimizationItem_iff)
  obtain item2 e r1 res where t: "RevalidateItem s now id tenantID itemID r = (AppendItemEvent e r1, Inr res)"
    "ofr_items r1 = gput (oi_ID item) item2 (ofr_items r)" "ofr_events r1 = ofr_events r" "oi_ID item2 = oi_ID item"
    "oi_Status item2 \<in> {Verified, Rejected, Deprecated}" "oie_ItemID e = oi_ID item" "event_is ''revalidated'' (oi_Status item2) e"
    by (rule Revalidate_result [OF inv v Some stale])
  show ?thesis unfolding t(1) fst_conv
  proof (rule rewrite_keeps_inv [OF inv item, of item2 e])
    show "item_history (es @ [e]) (oi_Status item2)" if "item_history es (oi_Status item)" for es
      by (rule item_history.revalidated [OF _ t(7,5)]) (use that stale in simp)
  qed (simp_all add: AppendItemEvent_def t)
qed

lemma regression_outcome_item:
  assumes "regression_outcome s marshal now tenantID itemID r = Inr (item', report)"
  obtains item where "map_of (ofr_items r) itemID = Some item" "oi_TenantID item = tenantID" "oi_ID item' = oi_ID item"
    "oi_TenantID item' = tenantID" "oi_Status item = ShadowEnabled \<or> oi_Status item = RegressionFailed"
    "oi_Status item' = (if rep_Passed report then RegressionPassed else RegressionFailed)"
    "oi_Status item = oi_Status item' \<or> CanTransition (oi_Status item) (oi_Status item')"
  using assms
  by (auto simp: regression_outcome_def Let_def canRunRegressionForStatus_def GetOptimizationItem_iff split: option.splits sum.splits if_splits)

lemma Regression_keeps_inv:
  assumes inv: "offline_inv r"
  shows "offline_inv (fst (RunRegressionForItem s marshal now id tenantID itemID r))"
proof (cases "regression_outcome s marshal now tenantID itemID r")
  case (Inl err)
  then show ?thesis using inv by (simp add: RunRegressionForItem_def)
next
  case (Inr x)
  obtain item' report where x: "x = (item', report)" by fastforce
  with Inr obtain item where item: "map_of (ofr_items r) itemID = Some item" "oi_TenantID item = tenantID" "oi_ID item' = oi_ID item"
    "oi_TenantID item' = tenantID" "oi_Status item = ShadowEnabled \<or> oi_Status item = RegressionFailed"
    "oi_Status item' = (if rep_Passed report then RegressionPassed else RegressionFailed)"
    "oi_Status item = oi_Status item' \<or> CanTransition (oi_Status item) (oi_Status item')" by (auto elim: regression_outcome_item)
  have id: "oi_ID item = itemID" using offline_inv_item [OF inv item(1)] by simp
  obtain e where e: "\<And>r. appendRegressionEvent (now 3) item' report r = AppendItemEvent e r" "oie_ItemID e = oi_ID item'"
    "event_is ''regression_evaluated'' (oi_Status item') e" "event_passed e \<longleftrightarrow> rep_Passed report"
    by (rule that [OF appendRegressionEvent_def]) simp_all
  have "UpdateOptimizationItem item' r = (r\<lparr>ofr_items := gput (oi_ID item') item' (ofr_items r)\<rparr>, True)"
    by (rule UpdateOptimizationItem_known) (use item id in simp_all)
  then have res: "fst (RunRegressionForItem s marshal now id tenantID itemID r) =
    AppendItemEvent e (r\<lparr>ofr_items := gput (oi_ID item') item' (ofr_items r)\<rparr>)"
    using Inr x e(1) by (simp add: RunRegressionForItem_def)
  show ?thesis unfolding res
  proof (rule rewrite_keeps_inv [OF inv item(1), of item' e])
    show "item_history (es @ [e]) (oi_Status item')" if "item_history es (oi_Status item)" for es
      by (rule item_history.evaluated [OF that item(7) e(3) item(5)]) (use item(6) e(4) in auto)
  qed (use item e in \<open>simp_all add: AppendItemEvent_def\<close>)
qed

lemma Process_keeps_inv:
  assumes inv: "offline_inv r"
  shows "offline_inv (fst (ProcessCluster s u now runID c r))"
proof (cases "snd (ProcessCluster s u now runID c r)")
  case (Inl err)
  have "offline_inv (UpsertQuestionCluster c' r)" for c' using inv by simp
  then show ?thesis using Inl inv
    by (auto simp: ProcessCluster_def Let_def split: option.splits sum.splits)
next
  case (Inr item)
  then obtain c' where proc: "fst (ProcessCluster s u now runID c r) =
      appendStatusEvent (now 3) item ''created'' (CreateOptimizationItem item (UpsertQuestionCluster c' r))"
    and st: "oi_Status item \<in> {Rejected, KnowledgeGap, NeedsReview, Verified}"
    by (auto simp: ProcessCluster_def initial_status_def Let_def split: option.splits sum.splits if_splits)
  let ?e = "status_event (now 3) item ''created'' [(''status'', JString (item_status_text (oi_Status item)))]"
  show ?thesis unfolding proc
  proof (rule offline_inv_write [OF inv, of _ item ?e])
    from offline_inv_log [OF inv, of "oi_ID item"] obtain a where "item_log (oi_ID item) r = [] \<or> item_history (item_log (oi_ID item) r) a"
      by blast
    then show "item_history (item_log (oi_ID item) r @ [?e]) (oi_Status item)" by (rule item_history.created [OF _ _ st]) simp
  qed (simp_all add: appendStatusEvent_def AppendItemEvent_def CreateOptimizationItem_def)
qed

lemma cluster_loop_keeps_inv:
  "offline_inv r \<Longrightarrow> offline_inv (fst (cluster_loop s u clock runID k cs items r))"
proof (induction cs arbitrary: k items r)
  case (Cons c cs)
  obtain r' res where p: "ProcessCluster s u (clock k) runID c r = (r', res)" by fastforce
  then have "offline_inv r'" using Process_keeps_inv [OF Cons.prems, of s u "clock k" runID c] by simp
  then show ?case using Cons.IH p by (cases res) simp_all
qed simp

lemma executeRun_keeps_inv:
  assumes "offline_inv r"
  shows "offline_inv (fst (executeRun s u clock end_time err_text run q r))"
proof -
  define run1 where "run1 = run\<lparr>okr_Status := RunRunning, okr_Error := []\<rparr>"
  define r1 where "r1 = fst (UpdateRun run1 r)"
  define hq where "hq = \<lparr>hq_TenantID = orq_TenantID q, hq_KBID = okr_KBID run1, hq_Start = orq_WindowStart q, hq_End = orq_WindowEnd q,
    hq_Limit = firstPositive [orq_MaxQuestions q, svc_maxHistory s]\<rparr>"
  have r1: "offline_inv r1" using assms by (simp add: r1_def)
  note unf = executeRun_def [of s u clock end_time err_text run q r, unfolded Let_def, folded run1_def, folded r1_def, folded hq_def]
  show ?thesis
  proof (cases "the (svc_history s) hq")
    case (Inl err)
    then show ?thesis using r1 by (simp add: unf case_prod_unfold)
  next
    case signals: (Inr signals)
    show ?thesis
    proof (cases "the (svc_clusterer s) \<lparr>clr_Run = run1, clr_Signals = signals\<rparr>")
      case (Inl err)
      then show ?thesis using r1 signals by (simp add: unf case_prod_unfold)
    next
      case (Inr clusters)
      obtain r' res where loop: "cluster_loop s u clock (okr_ID run1) 0
          (limit_list clusters (firstPositive [orq_MaxClusters q, svc_maxCluster s])) [] r1 = (r', res)" by fastforce
      then have "offline_inv r'" using cluster_loop_keeps_inv [OF r1] by (metis fst_conv)
      then show ?thesis using signals Inr loop by (cases res) (simp_all add: unf case_prod_unfold)
    qed
  qed
qed

lemma revalidate_loop_keeps_inv:
  "offline_inv r \<Longrightarrow> offline_inv (fst (revalidate_loop s clock q k items out r))"
proof (induction items arbitrary: k out r)
  case (Cons item items)
  obtain r' res where p: "RevalidateItem s (clock k) id (oi_TenantID item) (oi_ID item) r = (r', res)" by fastforce
  then have "offline_inv r'" using Revalidate_keeps_inv [OF Cons.prems, of s "clock k" "oi_TenantID item" "oi_ID item"] by simp
  then show ?case using Cons.IH Cons.prems p by (cases res) (simp_all add: Let_def)
qed simp

section \<open>Reachable repositories\<close>

text \<open>
  What the running program does to the repository, one call after the other: the runs that the scheduler
  and the HTTP API start, the actions of the HTTP API on items, one by one or in bulk, and what the
  retriever and the analyzer record.
\<close>

inductive offline_step :: "OfflineService \<Rightarrow> OfflineRepository \<Rightarrow> OfflineRepository \<Rightarrow> bool" for s where
  run_once: "offline_step s r (fst (RunOnce s u clock start_time end_time err_text q r))"
| execute_run: "offline_step s r (fst (ExecuteRun s u clock end_time err_text tenantID runID r))"
| create_run: "offline_step s r (fst (service_CreateRun now id q r))"
| action: "offline_step s r (fst (optimizationItemAction s marshal now id tenantID itemID action r))"
| bulk_revalidate: "offline_step s r (fst (BulkRevalidate s clock bq r))"
| feedback: "offline_step s r (AddNegativeFeedback t f r)"
| shadow: "offline_step s r (RecordShadowEvent se r)"
| audit: "offline_step s r (RecordCodexToolAudit ae r)"

inductive offline_reachable :: "OfflineService \<Rightarrow> OfflineRepository \<Rightarrow> bool" for s where
  start: "offline_reachable s NewOfflineRepository"
| step: "offline_reachable s r \<Longrightarrow> offline_step s r r' \<Longrightarrow> offline_reachable s r'"

lemma CreateRun_keeps_inv: "offline_inv r \<Longrightarrow> offline_inv (fst (service_CreateRun now id q r))"
  by (simp add: service_CreateRun_def Let_def split: option.split)

lemma RunOnce_keeps_inv:
  assumes "offline_inv r"
  shows "offline_inv (fst (RunOnce s u clock start_time end_time err_text q r))"
proof -
  obtain r' run dup where c: "service_CreateRun start_time id q r = (r', run, dup)" by (metis prod_cases3)
  with CreateRun_keeps_inv [OF assms, of start_time q] have "offline_inv r'" by simp
  then show ?thesis using assms c executeRun_keeps_inv [of r'] by (cases dup) (simp_all add: RunOnce_def split: option.split)
qed

lemma ExecuteRun_keeps_inv: "offline_inv r \<Longrightarrow> offline_inv (fst (ExecuteRun s u clock end_time err_text tenantID runID r))"
  using executeRun_keeps_inv by (simp add: ExecuteRun_def split: option.split)

lemma Action_keeps_inv:
  "offline_inv r \<Longrightarrow> offline_inv (fst (optimizationItemAction s marshal now id tenantID itemID action r))"
  by (auto simp: optimizationItemAction_def Let_def Transition_keeps_inv Revalidate_keeps_inv Regression_keeps_inv
      action_status_listed split: option.split)

lemmas keeps_inv = RunOnce_keeps_inv ExecuteRun_keeps_inv CreateRun_keeps_inv Action_keeps_inv

lemma offline_step_keeps_inv: "offline_step s r r' \<Longrightarrow> offline_inv r \<Longrightarrow> offline_inv r'"
  by (induction rule: offline_step.induct)
    (simp_all add: keeps_inv BulkRevalidate_def revalidate_loop_keeps_inv,
     simp_all add: offline_inv_def item_log_def AddNegativeFeedback_def RecordShadowEvent_def RecordCodexToolAudit_def Let_def)

lemma offline_inv_start: "offline_inv NewOfflineRepository"
  by (simp add: offline_inv_def item_log_def NewOfflineRepository_def)

lemma offline_reachable_inv: "offline_reachable s r \<Longrightarrow> offline_inv r"
  by (induction rule: offline_reachable.induct) (auto intro: offline_inv_start offline_step_keeps_inv)


section \<open>Refused operations\<close>

lemma UpdateOptimizationItem_found:
  "map_of (ofr_items r) itemID = Some item \<Longrightarrow> oi_ID item = itemID \<Longrightarrow> oi_ID item' = oi_ID item \<Longrightarrow> oi_TenantID item' = oi_TenantID item \<Longrightarrow>
     snd (UpdateOptimizationItem item' r)"
  by (simp add: UpdateOptimizationItem_def GetOptimizationItem_def)

text \<open>
  C35 (error). A review that is refused changes nothing: in every reachable state, when a transition, a revalidation or a
  regression returns an error, with no other call in between, the repository is as before. A transition is refused exactly
  when the tenant has no such item, or when the item is in another status than the one wanted and the life cycle has no edge
  to it, and each of the two has its own error.
\<close>

theorem refused_review_changes_nothing:
  assumes "offline_reachable s r"
  shows "(\<forall>now tenantID itemID b err. snd (TransitionOptimizationItem now id tenantID itemID b r) = Inl err \<longrightarrow>
      fst (TransitionOptimizationItem now id tenantID itemID b r) = r) \<and>
    (\<forall>now tenantID itemID b err. snd (TransitionOptimizationItem now id tenantID itemID b r) = Inl err \<longleftrightarrow>
      GetOptimizationItem tenantID itemID r = None \<and> err = Err_OptimizationItemNotFound \<or>
      (\<exists>item. GetOptimizationItem tenantID itemID r = Some item \<and> oi_Status item \<noteq> b \<and> \<not> CanTransition (oi_Status item) b \<and>
         err = Err_InvalidItemTransition)) \<and>
    (\<forall>now tenantID itemID err. snd (RevalidateItem s now id tenantID itemID r) = Inl err \<longrightarrow>
      fst (RevalidateItem s now id tenantID itemID r) = r) \<and>
    (\<forall>marshal now tenantID itemID err. snd (RunRegressionForItem s marshal now id tenantID itemID r) = Inl err \<longrightarrow>
      fst (RunRegressionForItem s marshal now id tenantID itemID r) = r)"
proof (intro conjI allI impI)
  have inv: "offline_inv r" by (rule offline_reachable_inv [OF assms])
  have exact: "snd (TransitionOptimizationItem now id tenantID itemID b r) = Inl err \<longleftrightarrow>
      GetOptimizationItem tenantID itemID r = None \<and> err = Err_OptimizationItemNotFound \<or>
      (\<exists>item. GetOptimizationItem tenantID itemID r = Some item \<and> oi_Status item \<noteq> b \<and> \<not> CanTransition (oi_Status item) b \<and>
         err = Err_InvalidItemTransition)" for now tenantID itemID b err
  proof (cases "GetOptimizationItem tenantID itemID r")
    case None
    then show ?thesis by (auto simp: TransitionOptimizationItem_def)
  next
    case (Some item)
    have "\<exists>item2. snd (TransitionOptimizationItem now id tenantID itemID b r) = Inr item2"
      if "oi_Status item \<noteq> b" "CanTransition (oi_Status item) b"
      by (rule Transition_result [OF inv Some that, of now]) simp
    moreover have "snd (TransitionOptimizationItem now id tenantID itemID b r) = Inr item" if "oi_Status item = b"
      using Some that by (simp add: TransitionOptimizationItem_def)
    moreover have "snd (TransitionOptimizationItem now id tenantID itemID b r) = Inl Err_InvalidItemTransition"
      if "oi_Status item \<noteq> b" "\<not> CanTransition (oi_Status item) b"
      using Some that by (simp add: TransitionOptimizationItem_def)
    ultimately show ?thesis using Some
      by (cases "oi_Status item = b"; cases "CanTransition (oi_Status item) b") auto
  qed
  {
    fix now tenantID itemID b err
    assume "snd (TransitionOptimizationItem now id tenantID itemID b r) = Inl err"
    with exact show "fst (TransitionOptimizationItem now id tenantID itemID b r) = r" by (intro Transition_refused) blast
  next
    fix now tenantID itemID b err
    show "snd (TransitionOptimizationItem now id tenantID itemID b r) = Inl err \<longleftrightarrow>
      GetOptimizationItem tenantID itemID r = None \<and> err = Err_OptimizationItemNotFound \<or>
      (\<exists>item. GetOptimizationItem tenantID itemID r = Some item \<and> oi_Status item \<noteq> b \<and> \<not> CanTransition (oi_Status item) b \<and>
         err = Err_InvalidItemTransition)" by (rule exact)
  next
    fix now tenantID itemID err
    assume "snd (RevalidateItem s now id tenantID itemID r) = Inl err"
    then have "svc_validator s = None \<or> GetOptimizationItem tenantID itemID r = None \<or>
      oi_Status (the (GetOptimizationItem tenantID itemID r)) \<noteq> Stale"
      using Revalidate_result [OF inv, of s _ tenantID itemID _ now] by fastforce
    then show "fst (RevalidateItem s now id tenantID itemID r) = r" by (rule Revalidate_refused)
  next
    fix marshal now tenantID itemID err
    assume "snd (RunRegressionForItem s marshal now id tenantID itemID r) = Inl err"
    then show "fst (RunRegressionForItem s marshal now id tenantID itemID r) = r"
      using offline_inv_item [OF inv, of itemID]
      by (auto simp: RunRegressionForItem_def UpdateOptimizationItem_known split: sum.splits elim!: regression_outcome_item)
  }
qed

section \<open>What the service does not guarantee\<close>

text \<open>
  Called outside the HTTP actions, the service itself lets an item in the shadow be declared to have passed its regression,
  and then publishes it, without any regression.
\<close>

lemma service_accepts_unearned_pass:
  assumes "GetOptimizationItem tenantID itemID r = Some item" and "oi_ID item = itemID" and "oi_Status item = ShadowEnabled"
  shows "\<exists>item'. snd (TransitionOptimizationItem now id tenantID itemID Published
      (fst (TransitionOptimizationItem now id tenantID itemID RegressionPassed r))) = Inr item' \<and> oi_Status item' = Published"
proof -
  have item: "map_of (ofr_items r) itemID = Some item" "oi_TenantID item = tenantID" using assms(1) by (simp_all add: GetOptimizationItem_iff)
  with assms show ?thesis
    by (simp add: TransitionOptimizationItem_def CanTransition_def UpdateOptimizationItem_def GetOptimizationItem_def
        appendStatusEvent_def AppendItemEvent_def map_simps Let_def)
qed

text \<open>A regression that failed can be run again, but when it passes this time, the call is refused.\<close>

lemma regression_retry_refused:
  assumes "svc_regression s = Some run_regression" and "GetOptimizationItem tenantID itemID r = Some item" and "oi_Status item = RegressionFailed"
    and "run_regression (regression_request s (now 0) tenantID itemID item) = Inr g"
    and "rep_Passed (evaluateRegression (now 1) g (regression_request s (now 0) tenantID itemID item))"
  shows "RunRegressionForItem s marshal now env tenantID itemID r = (r, Inl Err_InvalidItemTransition)"
  using assms by (simp add: RunRegressionForItem_def regression_outcome_def canRunRegressionForStatus_def CanTransition_def)

text \<open>
  The identifier of an item is a hash of its tenant, knowledge base, cluster, type and answer, not of the run: a later run that
  finds the same answer replaces the item, published or not, by a new one in an initial status.
\<close>

lemma mining_replaces_reviewed_item:
  assumes "ProcessCluster s u now runID c r = (r', Inr item)"
  shows "map_of (ofr_items r') (oi_ID item) = Some item \<and> oi_Status item \<in> {Rejected, KnowledgeGap, NeedsReview, Verified}"
  using assms
  by (auto simp: ProcessCluster_def initial_status_def Let_def appendStatusEvent_def AppendItemEvent_def CreateOptimizationItem_def map_simps
      split: option.splits sum.splits if_splits)

text \<open>While a regression runs, the item may be rejected; the result is then written over the rejection.\<close>

lemma regression_overwrites_review:
  assumes "regression_outcome s marshal now tenantID itemID r = Inr (item', report)" and "oi_ID item' = itemID"
    and "GetOptimizationItem tenantID itemID (env r) = Some rejected"
  shows "map_of (ofr_items (fst (RunRegressionForItem s marshal now env tenantID itemID r))) itemID = Some item'"
proof -
  from assms(1) have "oi_TenantID item' = tenantID" by (rule regression_outcome_item)
  with assms have "UpdateOptimizationItem item' (env r) = ((env r)\<lparr>ofr_items := gput itemID item' (ofr_items (env r))\<rparr>, True)"
    by (simp add: UpdateOptimizationItem_def)
  with assms(1) show ?thesis by (simp add: RunRegressionForItem_def appendRegressionEvent_def AppendItemEvent_def map_simps)
qed

section \<open>A run to publication\<close>

text \<open>A service whose analyzer answers every question and whose regression passes.\<close>

definition sample_thresholds :: RegressionThresholds where
  "sample_thresholds =
     \<lparr>rth_MinRecallLift = Fin 0, rth_MinAnswerQualityLift = Fin 0, rth_MinCitationCoverageLift = Fin 0, rth_MaxLatencyDelta = 0,
      rth_MaxTokenCostDelta = Fin 0, rth_MaxHallucinationRisk = Fin 0\<rparr>"

definition sample_result :: RegressionResult where
  "sample_result =
     \<lparr>rgr_RecallLift = Fin 0, rgr_AnswerQualityLift = Fin 0, rgr_CitationCoverageLift = Fin 0, rgr_LatencyDelta = 0, rgr_LatencyDeltaMS = 0,
      rgr_TokenCostDelta = Fin 0, rgr_HallucinationRisk = Fin 0, rgr_FullDatasetUsed = True, rgr_Passed = True, rgr_ScopedItemID = [],
      rgr_ProfileNeutrality = no_neutrality, rgr_ProfileExperiment = None, rgr_HoldoutGate = zero_gate\<rparr>"

definition sample_cluster :: QuestionCluster where
  "sample_cluster =
     \<lparr>qc_ID = ''c'', qc_TenantID = ''t'', qc_RunID = [], qc_KBID = [], qc_CanonicalQuestion = ''q'', qc_NormalizedQuestion = ''q'',
      qc_QuestionHash = ''h'', qc_EmbeddingRef = [], qc_EmbeddingJSON = [], qc_OccurrenceCount = 1, qc_SampleQuestions = [],
      qc_TraceIDs = [], qc_LongTail = False, qc_CreatedAt = 1\<rparr>"

definition sample_response :: CodexAnalyzeResponse where
  "sample_response =
     \<lparr>car_ItemType = ItemTypeQueryRewrite, car_RecommendedAction = ''create_query_rewrite_item'', car_RecallQuality = ''miss'', car_FailureType = [],
      car_Confidence = Fin 1, car_FinalAnswer = ''a'', car_Evidence = [], car_MissingEvidence = [], car_DeepSearchSteps = [],
      car_ToolUsage = [], car_Metadata = []\<rparr>"

definition sample_quota :: ToolQuota where
  "sample_quota = \<lparr>tq_MaxTokens = 0, tq_MaxRowsPerCall = 0, tq_MaxQPSPerTenant = 0, tq_MaxTimeout = 0, tq_MaxDeepSearchSteps = 0\<rparr>"

definition sample_offline_service :: OfflineService where
  "sample_offline_service =
     \<lparr>svc_history = Some (\<lambda>q. Inr []), svc_clusterer = Some (\<lambda>q. Inr [sample_cluster]),
      svc_replayer = Some (\<lambda>c. Inr \<lparr>rrp_BaselineRecallResults = [], rrp_TraceSummaries = [], rrp_SourceFingerprints = [], rrp_Metadata = []\<rparr>),
      svc_codex = Some (\<lambda>q. Inr sample_response), svc_validator = Some (\<lambda>tenantID kbID item. None), svc_regression = Some (\<lambda>q. Inr sample_result),
      svc_thresholds = sample_thresholds,
      svc_holdoutGate = \<lparr>hg_Enabled = False, hg_MinSampleCount = 0, hg_MinWeightedSampleCount = Fin 0, hg_QualityMetric = [], hg_MinQuality = Fin 0\<rparr>,
      svc_quota = sample_quota, svc_maxHistory = 0, svc_maxCluster = 0\<rparr>"








theorem refused_review_changes_nothing_witness:
  "snd (TransitionOptimizationItem (\<lambda>i. 0) id ''t'' ''i'' Published NewOfflineRepository) = Inl Err_OptimizationItemNotFound \<and>
   fst (TransitionOptimizationItem (\<lambda>i. 0) id ''t'' ''i'' Published NewOfflineRepository) = NewOfflineRepository"
proof -
  have err: "snd (TransitionOptimizationItem (\<lambda>i. 0) id ''t'' ''i'' Published NewOfflineRepository) = Inl Err_OptimizationItemNotFound"
    by (simp add: TransitionOptimizationItem_def GetOptimizationItem_def NewOfflineRepository_def)
  with refused_review_changes_nothing [OF offline_reachable.start [of sample_offline_service]] show ?thesis by blast
qed

end
