(* ===== verification/EvalPolicy.thy ===== *)
theory EvalPolicy
  imports "EvalStats" "MetricRegistry"
begin

text \<open>
  Evaluation policies of \<^verbatim>\<open>internal/evaluationpolicy\<close>: gates on metrics that a run has to pass before a pipeline
  version is released (\<^verbatim>\<open>types.go\<close>), the in-memory repository (\<^verbatim>\<open>memory.go\<close>) and the service
  (\<^verbatim>\<open>service.go\<close>). The call that creates a policy reads the versions of its name, then writes; other calls
  may run in between, so the model has the two halves. The dataset resolver and the registry of metrics are arguments,
  \<open>None\<close> where the service was built without one.
\<close>

section \<open>Data\<close>

datatype policy_error = ErrInvalidPolicy | ErrPolicyDatasetNotFound | ErrPolicyNotFound | ErrEvaluationMismatch

record PolicyGate =
  pg_Metric :: string
  pg_Comparator :: string
  pg_Threshold :: float64

record EvalPolicyRecord =
  pol_ID :: string
  pol_TenantID :: string
  pol_ProjectID :: string
  pol_DatasetID :: string
  pol_Name :: string
  pol_Version :: int
  pol_Gates :: "PolicyGate list"
  pol_CreatedAt :: gotime

record PolicyInput =
  pin_DatasetID :: string
  pin_Name :: string
  pin_Gates :: "PolicyGate list"

record GateResult =
  gr_Metric :: string
  gr_Comparator :: string
  gr_Threshold :: float64
  gr_Actual :: float64
  gr_Present :: bool
  gr_Passed :: bool

record FrozenInput =
  fi_PolicyID :: string
  fi_PolicyVersion :: int
  fi_ProjectID :: string
  fi_DatasetID :: string
  fi_EvaluationRunID :: string
  fi_PipelineVersion :: string
  fi_ContentHash :: string
  fi_Environment :: string
  fi_Gates :: "PolicyGate list"
  fi_Metrics :: metric_map

record PolicyEvidence =
  pev_ID :: string
  pev_TenantID :: string
  pev_ProjectID :: string
  pev_PolicyID :: string
  pev_PolicyVersion :: int
  pev_EvaluationRunID :: string
  pev_PipelineVersionID :: string
  pev_ContentHash :: string
  pev_Environment :: string
  pev_FrozenInput :: FrozenInput
  pev_GateResults :: "GateResult list"
  pev_Passed :: bool
  pev_CreatedAt :: gotime

text \<open>The further fields of a run that the policies read.\<close>

record ScoredRun = RunResult +
  sr_ProjectID :: string
  sr_DatasetID :: string
  sr_HitRate :: float64
  sr_Accuracy :: float64

section \<open>The in-memory repository\<close>

record PolicyRepository =
  plr_policies :: "(string, EvalPolicyRecord) gomap"
  plr_evidences :: "(string, PolicyEvidence) gomap"


definition same_revision :: "EvalPolicyRecord \<Rightarrow> EvalPolicyRecord \<Rightarrow> bool" where
  "same_revision p q \<longleftrightarrow> pol_ProjectID q = pol_ProjectID p \<and> pol_Name q = pol_Name p \<and> pol_Version q = pol_Version p"

definition repo_Create_policy :: "EvalPolicyRecord \<Rightarrow> PolicyRepository \<Rightarrow> PolicyRepository \<times> (policy_error + unit)" where
  "repo_Create_policy p r =
     (if list_ex (same_revision p) (map snd (plr_policies r)) then (r, Inl ErrInvalidPolicy)
      else (r\<lparr>plr_policies := gput (pol_ID p) p (plr_policies r)\<rparr>, Inr ()))"

definition repo_Get_policy :: "string \<Rightarrow> string \<Rightarrow> string \<Rightarrow> PolicyRepository \<Rightarrow> policy_error + EvalPolicyRecord" where
  "repo_Get_policy tenantID projectID policyID r =
     (case map_of (plr_policies r) policyID of
        None \<Rightarrow> Inl ErrPolicyNotFound
      | Some p \<Rightarrow> if pol_TenantID p \<noteq> tenantID \<or> pol_ProjectID p \<noteq> projectID then Inl ErrPolicyNotFound else Inr p)"

definition policy_before :: "EvalPolicyRecord \<Rightarrow> EvalPolicyRecord \<Rightarrow> bool" where
  "policy_before p q = (if pol_CreatedAt p = pol_CreatedAt q then pol_ID q < pol_ID p else After (pol_CreatedAt p) (pol_CreatedAt q))"

definition repo_List_policies :: "string \<Rightarrow> string \<Rightarrow> PolicyRepository \<Rightarrow> EvalPolicyRecord list" where
  "repo_List_policies tenantID projectID r =
     sort_by policy_before (filter (\<lambda>p. pol_TenantID p = tenantID \<and> pol_ProjectID p = projectID) (map snd (plr_policies r)))"

definition repo_RecordEvidence :: "PolicyEvidence \<Rightarrow> PolicyRepository \<Rightarrow> PolicyRepository \<times> (policy_error + unit)" where
  "repo_RecordEvidence e r =
     (case map_of (plr_evidences r) (pev_ID e) of
        Some _ \<Rightarrow> (r, Inl ErrInvalidPolicy)
      | None \<Rightarrow> (r\<lparr>plr_evidences := gput (pev_ID e) e (plr_evidences r)\<rparr>, Inr ()))"

section \<open>The service\<close>

definition ComparatorGreaterThanOrEqual :: string where
  "ComparatorGreaterThanOrEqual = ''gte''"

definition ComparatorLessThanOrEqual :: string where
  "ComparatorLessThanOrEqual = ''lte''"

record PolicyService =
  pls_datasets :: "(string \<Rightarrow> string \<Rightarrow> string \<Rightarrow> policy_error + bool) option"
  pls_metrics :: MetricRegistry

fun is_finite64 :: "float64 \<Rightarrow> bool" where
  "is_finite64 (Fin x) = True"
| "is_finite64 _ = False"

fun gate_loop :: "MetricRegistry \<Rightarrow> string list \<Rightarrow> PolicyGate list \<Rightarrow> policy_error + unit" where
  "gate_loop reg seen [] = Inr ()"
| "gate_loop reg seen (g # gs) =
     (let name = TrimSpace (pg_Metric g)
      in if name = [] \<or> \<not> IsRegistered reg name then Inl ErrInvalidPolicy
         else if pg_Comparator g \<noteq> ComparatorGreaterThanOrEqual \<and> pg_Comparator g \<noteq> ComparatorLessThanOrEqual then Inl ErrInvalidPolicy
         else if \<not> is_finite64 (pg_Threshold g) then Inl ErrInvalidPolicy
         else if List.member seen name then Inl ErrInvalidPolicy
         else gate_loop reg (name # seen) gs)"

definition validateGates :: "MetricRegistry \<Rightarrow> PolicyGate list \<Rightarrow> policy_error + unit" where
  "validateGates reg gates = (if gates = [] then Inl ErrInvalidPolicy else gate_loop reg [] gates)"

fun version_loop :: "string \<Rightarrow> EvalPolicyRecord list \<Rightarrow> int \<Rightarrow> int" where
  "version_loop name [] v = v"
| "version_loop name (p # ps) v = version_loop name ps (if pol_Name p = name \<and> pol_Version p \<ge> v then pol_Version p + 1 else v)"

definition nextVersion :: "string \<Rightarrow> string \<Rightarrow> string \<Rightarrow> PolicyRepository \<Rightarrow> int" where
  "nextVersion tenantID projectID name r = version_loop name (repo_List_policies tenantID projectID r) 1"

text \<open>\<^verbatim>\<open>Create\<close> up to the write: the checks, the version that is free at the moment, the new policy.\<close>

definition policy_prepare ::
  "PolicyService \<Rightarrow> entropy \<Rightarrow> gotime \<Rightarrow> string \<Rightarrow> string \<Rightarrow> PolicyInput \<Rightarrow> PolicyRepository option \<Rightarrow> policy_error + EvalPolicyRecord" where
  "policy_prepare s b now tenantID0 projectID0 input repo =
     (let tenantID = TrimSpace tenantID0; projectID = TrimSpace projectID0;
          datasetID = TrimSpace (pin_DatasetID input); name = TrimSpace (pin_Name input)
      in if tenantID = [] \<or> projectID = [] \<or> datasetID = [] \<or> name = [] then Inl ErrInvalidPolicy
         else case validateGates (pls_metrics s) (pin_Gates input) of
           Inl err \<Rightarrow> Inl err
         | Inr _ \<Rightarrow>
             (case pls_datasets s of
                None \<Rightarrow> Inl ErrInvalidPolicy
              | Some resolve \<Rightarrow>
                  (case resolve tenantID projectID datasetID of
                     Inl err \<Rightarrow> Inl err
                   | Inr found \<Rightarrow>
                       if \<not> found then Inl ErrPolicyDatasetNotFound
                       else case repo of
                         None \<Rightarrow> Inl ErrInvalidPolicy
                       | Some r \<Rightarrow>
                           Inr \<lparr>pol_ID = id_New ''epol'' b, pol_TenantID = tenantID, pol_ProjectID = projectID, pol_DatasetID = datasetID,
                                pol_Name = name, pol_Version = nextVersion tenantID projectID name r, pol_Gates = pin_Gates input,
                                pol_CreatedAt = now\<rparr>)))"

text \<open>The whole call; \<open>env\<close> is what other callers do between its read and its write.\<close>

definition policy_Create ::
  "PolicyService \<Rightarrow> entropy \<Rightarrow> gotime \<Rightarrow> (PolicyRepository \<Rightarrow> PolicyRepository) \<Rightarrow> string \<Rightarrow> string \<Rightarrow> PolicyInput \<Rightarrow>
   PolicyRepository \<Rightarrow> PolicyRepository \<times> (policy_error + EvalPolicyRecord)" where
  "policy_Create s b now env tenantID projectID input r =
     (case policy_prepare s b now tenantID projectID input (Some r) of
        Inl err \<Rightarrow> (r, Inl err)
      | Inr p \<Rightarrow>
          (case repo_Create_policy p (env r) of
             (r', Inl err) \<Rightarrow> (r', Inl err)
           | (r', Inr _) \<Rightarrow> (r', Inr p)))"

definition policy_Get :: "string \<Rightarrow> string \<Rightarrow> string \<Rightarrow> PolicyRepository option \<Rightarrow> policy_error + EvalPolicyRecord" where
  "policy_Get tenantID projectID policyID repo =
     (case repo of None \<Rightarrow> Inl ErrInvalidPolicy | Some r \<Rightarrow> repo_Get_policy (TrimSpace tenantID) (TrimSpace projectID) (TrimSpace policyID) r)"

definition policy_List :: "string \<Rightarrow> string \<Rightarrow> PolicyRepository option \<Rightarrow> policy_error + EvalPolicyRecord list" where
  "policy_List tenantID projectID repo =
     (case repo of None \<Rightarrow> Inl ErrInvalidPolicy | Some r \<Rightarrow> Inr (repo_List_policies (TrimSpace tenantID) (TrimSpace projectID) r))"

definition policy_RecordEvidence :: "PolicyEvidence \<Rightarrow> PolicyRepository option \<Rightarrow> PolicyRepository option \<times> (policy_error + unit)" where
  "policy_RecordEvidence e repo =
     (case repo of None \<Rightarrow> (None, Inl ErrInvalidPolicy) | Some r \<Rightarrow> apfst Some (repo_RecordEvidence e r))"

section \<open>Freezing a run\<close>

definition metricValue :: "ScoredRun \<Rightarrow> string \<Rightarrow> float64 option" where
  "metricValue run name =
     (case map_of (rr_Metrics run) name of
        Some v \<Rightarrow> Some v
      | None \<Rightarrow>
          if name = ''accuracy'' \<or> name = ''answer_accuracy'' then Some (sr_Accuracy run)
          else if name = ''hit_rate'' then Some (sr_HitRate run)
          else if name = ''weighted_sample_count'' then Some (rr_WeightedSampleCount run)
          else if name = ''unweighted_sample_count'' then Some (of_int64 (rr_UnweightedSampleCount run))
          else None)"

definition gate_compare :: "float64 \<Rightarrow> string \<Rightarrow> float64 \<Rightarrow> bool" where
  "gate_compare actual comparator threshold =
     (if comparator = ComparatorGreaterThanOrEqual then fle threshold actual
      else if comparator = ComparatorLessThanOrEqual then fle actual threshold
      else False)"

definition gate_result :: "ScoredRun \<Rightarrow> PolicyGate \<Rightarrow> GateResult" where
  "gate_result run g =
     (let found = metricValue run (pg_Metric g); actual = (case found of Some v \<Rightarrow> v | None \<Rightarrow> Fin 0)
      in \<lparr>gr_Metric = pg_Metric g, gr_Comparator = pg_Comparator g, gr_Threshold = pg_Threshold g, gr_Actual = actual,
          gr_Present = (found \<noteq> None), gr_Passed = (found \<noteq> None \<and> gate_compare actual (pg_Comparator g) (pg_Threshold g))\<rparr>)"

text \<open>\<open>clock\<close> is read when the caller passes no time.\<close>

definition Freeze ::
  "entropy \<Rightarrow> gotime \<Rightarrow> EvalPolicyRecord \<Rightarrow> ScoredRun \<Rightarrow> string \<Rightarrow> string \<Rightarrow> gotime \<Rightarrow> policy_error + PolicyEvidence" where
  "Freeze b clock p run pipelineVersionID0 contentHash0 now =
     (let pipelineVersionID = TrimSpace pipelineVersionID0; contentHash = TrimSpace contentHash0
      in if pol_ID p = [] \<or> pol_ProjectID p = [] \<or> pol_DatasetID p = [] \<or> pol_Version p < 1 then Inl ErrInvalidPolicy
         else if rr_ID run = [] \<or> sr_ProjectID run \<noteq> pol_ProjectID p \<or> sr_DatasetID run \<noteq> pol_DatasetID p then Inl ErrEvaluationMismatch
         else if pipelineVersionID = [] \<or> contentHash = [] then Inl ErrEvaluationMismatch
         else let results = map (gate_result run) (pol_Gates p);
                  frozen = \<lparr>fi_PolicyID = pol_ID p, fi_PolicyVersion = pol_Version p, fi_ProjectID = pol_ProjectID p,
                    fi_DatasetID = pol_DatasetID p, fi_EvaluationRunID = rr_ID run, fi_PipelineVersion = pipelineVersionID,
                    fi_ContentHash = contentHash, fi_Environment = [], fi_Gates = pol_Gates p, fi_Metrics = rr_Metrics run\<rparr>
              in Inr \<lparr>pev_ID = id_New ''epev'' b, pev_TenantID = pol_TenantID p, pev_ProjectID = pol_ProjectID p, pev_PolicyID = pol_ID p,
                   pev_PolicyVersion = pol_Version p, pev_EvaluationRunID = rr_ID run, pev_PipelineVersionID = pipelineVersionID,
                   pev_ContentHash = contentHash, pev_Environment = [], pev_FrozenInput = frozen, pev_GateResults = results,
                   pev_Passed = list_all gr_Passed results, pev_CreatedAt = (if IsZero now then clock else now)\<rparr>)"

section \<open>What a passing gate means\<close>

text \<open>A gate written as a bound on the exact value: \<open>NaN\<close> satisfies none.\<close>

definition gate_holds :: "ScoredRun \<Rightarrow> PolicyGate \<Rightarrow> bool" where
  "gate_holds run g \<longleftrightarrow>
     (\<exists>v. metricValue run (pg_Metric g) = Some v \<and>
       (pg_Comparator g = ''gte'' \<and> fle (pg_Threshold g) v \<or> pg_Comparator g = ''lte'' \<and> fle v (pg_Threshold g)))"

lemma gate_result_passed: "gr_Passed (gate_result run g) \<longleftrightarrow> gate_holds run g"
  by (auto simp: gate_result_def gate_holds_def gate_compare_def ComparatorGreaterThanOrEqual_def ComparatorLessThanOrEqual_def Let_def
      split: option.splits)

lemma gate_loop_ok:
  assumes "gate_loop reg seen gs = Inr ()"
  shows "list_all (\<lambda>g. IsRegistered reg (TrimSpace (pg_Metric g)) \<and> pg_Comparator g \<in> {''gte'', ''lte''} \<and> is_finite64 (pg_Threshold g)) gs \<and>
    distinct (map (TrimSpace \<circ> pg_Metric) gs) \<and> set seen \<inter> set (map (TrimSpace \<circ> pg_Metric) gs) = {}"
  using assms
  by (induction reg seen gs rule: gate_loop.induct)
    (auto simp: Let_def ComparatorGreaterThanOrEqual_def ComparatorLessThanOrEqual_def split: if_splits)


section \<open>Revisions under concurrent callers\<close>














lemma evidence_keeps_policies [simp]: "plr_policies (fst (repo_RecordEvidence e r)) = plr_policies r"
  by (simp add: repo_RecordEvidence_def split: option.splits)







section \<open>Properties\<close>



definition sample_policy :: EvalPolicyRecord where
  "sample_policy =
     \<lparr>pol_ID = id_New ''epol'' None, pol_TenantID = ''t'', pol_ProjectID = ''p'', pol_DatasetID = ''ds'', pol_Name = ''n'', pol_Version = 1,
      pol_Gates = [\<lparr>pg_Metric = ''accuracy'', pg_Comparator = ''gte'', pg_Threshold = Fin 0\<rparr>], pol_CreatedAt = 5\<rparr>"

lemma trim_samples:
  "TrimSpace ''t'' = ''t''" "TrimSpace ''p'' = ''p''" "TrimSpace ''ds'' = ''ds''" "TrimSpace ''n'' = ''n''" "TrimSpace ''accuracy'' = ''accuracy''"
  "TrimSpace ''pv'' = ''pv''" "TrimSpace ''h'' = ''h''"
  by code_simp+





text \<open>
  The evidence of \<^verbatim>\<open>Freeze\<close> passes exactly when every gate of the policy holds for the metrics of the run, a
  missing metric or a \<^verbatim>\<open>NaN\<close> failing its gate; it is only written for a run of the policy's project and dataset,
  and it carries the gates and the metrics it was derived from.
\<close>

lemma frozen_evidence:
  assumes "Freeze b clock p run pipelineVersionID contentHash now = Inr e"
  shows "(pev_Passed e \<longleftrightarrow> list_all (gate_holds run) (pol_Gates p)) \<and>
    sr_ProjectID run = pol_ProjectID p \<and> sr_DatasetID run = pol_DatasetID p \<and>
    pev_EvaluationRunID e = rr_ID run \<and> pev_PolicyID e = pol_ID p \<and> pev_PolicyVersion e = pol_Version p \<and>
    pev_PipelineVersionID e = TrimSpace pipelineVersionID \<and> pev_PipelineVersionID e \<noteq> [] \<and>
    fi_Gates (pev_FrozenInput e) = pol_Gates p \<and> fi_Metrics (pev_FrozenInput e) = rr_Metrics run \<and>
    map gr_Passed (pev_GateResults e) = map (gate_holds run) (pol_Gates p)"
  using assms
  by (auto simp: Freeze_def Let_def list_all_iff gate_result_passed split: if_splits)

definition sample_snapshot :: DatasetSnapshot where
  "sample_snapshot = \<lparr>dn_DatasetID = ''ds'', dn_Version = [], dn_Split = [], dn_Items = [], dn_ContentHash = [], dn_ItemCount = 0\<rparr>"

definition sample_manifest :: EvaluationManifest where
  "sample_manifest =
     \<lparr>em_SchemaVersion = [], em_CodeVersion = [], em_CodeCommit = [], em_Dataset = sample_snapshot, em_KnowledgeBaseID = [],
      em_ProjectID = ''p'', em_Profile = [], em_TopK = 0, em_ScopedShadowItemID = [], em_JudgeConfigHash = [], em_QAGConfigHash = [],
      em_PairwiseConfigHash = []\<rparr>"

definition sample_scored_run :: ScoredRun where
  "sample_scored_run =
     \<lparr>rr_ID = ''run'', rr_Total = 1, rr_WeightedSampleCount = Fin 1, rr_UnweightedSampleCount = 1, rr_Split = [], rr_MissingSplit = False,
      rr_Metrics = [], rr_DatasetSnapshot = sample_snapshot, rr_Manifest = sample_manifest, rr_EvaluationFingerprint = [],
      sr_ProjectID = ''p'', sr_DatasetID = ''ds'', sr_HitRate = Fin 1, sr_Accuracy = Fin 1\<rparr>"

lemma frozen_evidence_witness:
  "\<exists>e. Freeze None 0 sample_policy sample_scored_run ''pv'' ''h'' 7 = Inr e \<and> pev_Passed e \<and> pev_EvaluationRunID e = ''run''"
proof -
  have "pol_ID sample_policy \<noteq> []" "pol_ProjectID sample_policy = ''p''" "pol_DatasetID sample_policy = ''ds''" "pol_Version sample_policy = 1"
    by (simp_all add: sample_policy_def)
  moreover have "rr_ID sample_scored_run = ''run''" "sr_ProjectID sample_scored_run = ''p''" "sr_DatasetID sample_scored_run = ''ds''"
    by (simp_all add: sample_scored_run_def)
  ultimately obtain e where e: "Freeze None 0 sample_policy sample_scored_run ''pv'' ''h'' 7 = Inr e"
    by (simp add: Freeze_def trim_samples Let_def)
  have "list_all (gate_holds sample_scored_run) (pol_Gates sample_policy)"
    by (simp add: sample_policy_def gate_holds_def metricValue_def sample_scored_run_def fle_iff)
  with frozen_evidence [OF e] e show ?thesis by (simp add: sample_scored_run_def)
qed

text \<open>
  The registry is asked about the trimmed name of a metric, and the run about the name as it was written: a gate with
  white space around its metric is accepted, and no run passes it.
\<close>

lemma padded_gate_never_passes:
  fixes run :: ScoredRun
  defines "g \<equiv> \<lparr>pg_Metric = ''accuracy '', pg_Comparator = ''gte'', pg_Threshold = Fin 0\<rparr>"
  shows "validateGates DefaultMetricRegistry [g] = Inr ()"
    and "rr_Metrics run = [(''accuracy'', Fin 1)] \<Longrightarrow> \<not> gate_holds run g"
proof -
  have "TrimSpace ''accuracy '' = ''accuracy''" by code_simp
  then show "validateGates DefaultMetricRegistry [g] = Inr ()"
    by (simp add: g_def validateGates_def default_registered ComparatorGreaterThanOrEqual_def)
  show "rr_Metrics run = [(''accuracy'', Fin 1)] \<Longrightarrow> \<not> gate_holds run g"
    by (simp add: g_def gate_holds_def metricValue_def)
qed

end
