(* ===== verification/AuditList.thy ===== *)
theory AuditList
  imports AuditLog GoTime Utf8
begin

text \<open>
  Listing the audit log (\<^verbatim>\<open>MemoryAuditRepository.List\<close> of \<^verbatim>\<open>audit/repository_memory.go\<close>): filters, newest first, in
  pages. The cursor is the text of the last event's time and identifier, which the next call reads back with
  \<^verbatim>\<open>fmt.Sscanf\<close>.
\<close>

section \<open>What the cursor uses of the standard library\<close>

text \<open>The first of January 1970; \<^verbatim>\<open>UnixNano\<close> wraps around outside the years 1678 to 2262.\<close>

definition unix_epoch :: gotime where
  "unix_epoch = 62135596800 * Second"

definition unix_nano :: "gotime \<Rightarrow> int" where
  "unix_nano t = (t - unix_epoch + 2 ^ 63) mod 2 ^ 64 - 2 ^ 63"

definition time_Unix :: "int \<Rightarrow> gotime" where
  "time_Unix n = unix_epoch + n"

text \<open>\<^verbatim>\<open>SkipSpace\<close> of package \<^verbatim>\<open>fmt\<close> in a format without newlines: a newline in the input is an error.\<close>

fun skip_space :: "rune list \<Rightarrow> rune list option" where
  "skip_space [] = Some []"
| "skip_space (r # rs) = (if r = 10 then None else if IsSpace r then skip_space rs else Some (r # rs))"

definition digit_rune :: "rune \<Rightarrow> bool" where
  "digit_rune r \<longleftrightarrow> 48 \<le> r \<and> r \<le> 57"

definition cursor_digits :: "rune list \<Rightarrow> int" where
  "cursor_digits ds = foldl (\<lambda>n d. 10 * n + (int d - 48)) 0 ds"

text \<open>The verbs \<^verbatim>\<open>%d\<close>, for 64 bits, and \<^verbatim>\<open>%s\<close>.\<close>

definition scan_d :: "rune list \<Rightarrow> (int \<times> rune list) option" where
  "scan_d rs0 =
     (case skip_space rs0 of
        None \<Rightarrow> None
      | Some rs \<Rightarrow>
          let neg = (case rs of r # _ \<Rightarrow> r = 45 | [] \<Rightarrow> False);
              rs = (case rs of r # rs' \<Rightarrow> if r = 45 \<or> r = 43 then rs' else rs | [] \<Rightarrow> []);
              ds = takeWhile digit_rune rs; n = (if neg then - cursor_digits ds else cursor_digits ds)
          in if ds = [] \<or> n < - (2 ^ 63) \<or> 2 ^ 63 \<le> n then None else Some (n, dropWhile digit_rune rs))"

definition scan_s :: "rune list \<Rightarrow> string option" where
  "scan_s rs =
     (case skip_space rs of
        None \<Rightarrow> None
      | Some ws \<Rightarrow> if ws = [] then None else Some (concat (map EncodeRune (takeWhile (\<lambda>r. \<not> IsSpace r) ws))))"

definition Sscanf_cursor :: "string \<Rightarrow> (int \<times> string) option" where
  "Sscanf_cursor s =
     (case scan_d (map fst (runes s)) of
        Some (n, r # rs) \<Rightarrow> if r = 95 then map_option (Pair n) (scan_s rs) else None
      | _ \<Rightarrow> None)"

section \<open>Listing\<close>

record AuditFilter =
  af_TenantID :: string
  af_ProjectID :: string
  af_ResourceType :: string
  af_ResourceID :: string
  af_Action :: string
  af_ActorID :: string
  af_Outcome :: string
  af_Limit :: int
  af_Cursor :: string

datatype audit_error = InvalidCursor

definition audit_limit :: "AuditFilter \<Rightarrow> int" where
  "audit_limit f = (if af_Limit f \<le> 0 then 50 else af_Limit f)"

definition parseCursor :: "string \<Rightarrow> audit_error + (gotime \<times> string)" where
  "parseCursor cursor =
     (if cursor = [] then Inr (0, [])
      else case Sscanf_cursor cursor of None \<Rightarrow> Inl InvalidCursor | Some (n, i) \<Rightarrow> Inr (time_Unix n, i))"

definition encodeCursor :: "AuditEvent \<Rightarrow> string" where
  "encodeCursor e = Itoa (unix_nano (ae_CreatedAt e)) @ ''_'' @ ae_ID e"

definition event_before :: "AuditEvent \<Rightarrow> AuditEvent \<Rightarrow> bool" where
  "event_before a b = (if ae_CreatedAt a \<noteq> ae_CreatedAt b then After (ae_CreatedAt a) (ae_CreatedAt b) else ae_ID b < ae_ID a)"

definition filter_open :: "string \<Rightarrow> string \<Rightarrow> bool" where
  "filter_open wanted s \<longleftrightarrow> wanted = [] \<or> s = wanted"

definition event_matches :: "AuditFilter \<Rightarrow> AuditEvent \<Rightarrow> bool" where
  "event_matches f e \<longleftrightarrow>
     filter_open (af_TenantID f) (ae_TenantID e) \<and> filter_open (af_ProjectID f) (ae_ProjectID e) \<and>
     filter_open (af_ResourceType f) (ae_ResourceType e) \<and> filter_open (af_ResourceID f) (ae_ResourceID e) \<and>
     filter_open (af_Action f) (ae_Action e) \<and> filter_open (af_ActorID f) (ae_ActorID e) \<and> filter_open (af_Outcome f) (ae_Outcome e)"

fun audit_list_loop :: "AuditFilter \<Rightarrow> gotime \<times> string \<Rightarrow> bool \<Rightarrow> AuditEvent list \<Rightarrow> AuditEvent list \<Rightarrow> AuditEvent list" where
  "audit_list_loop f c started [] acc = acc"
| "audit_list_loop f c started (e # es) acc =
     (if \<not> started then audit_list_loop f c ((ae_CreatedAt e, ae_ID e) = c) es acc
      else if \<not> event_matches f e then audit_list_loop f c started es acc
      else if int (length acc) + 1 \<ge> audit_limit f then acc @ [e]
      else audit_list_loop f c started es (acc @ [e]))"

definition AuditRepo_List :: "AuditFilter \<Rightarrow> MemoryAuditRepository \<Rightarrow> audit_error + AuditEvent list \<times> string" where
  "AuditRepo_List f r =
     (case parseCursor (af_Cursor f) of
        Inl err \<Rightarrow> Inl err
      | Inr c \<Rightarrow>
          let page = audit_list_loop f c (af_Cursor f = []) (sort_by event_before (ar_events r)) []
          in Inr (page, if int (length page) = audit_limit f then encodeCursor (last page) else []))"

definition AuditService_List :: "AuditFilter \<Rightarrow> AuditService \<Rightarrow> audit_error + AuditEvent list \<times> string" where
  "AuditService_List f s = AuditRepo_List f (as_repo s)"

text \<open>A caller that follows the cursors, for at most \<open>fuel\<close> pages.\<close>

fun audit_pages :: "nat \<Rightarrow> AuditFilter \<Rightarrow> MemoryAuditRepository \<Rightarrow> audit_error + AuditEvent list" where
  "audit_pages 0 f r = Inr []"
| "audit_pages (Suc fuel) f r =
     (case AuditRepo_List f r of
        Inl err \<Rightarrow> Inl err
      | Inr (page, cursor) \<Rightarrow>
          if cursor = [] then Inr page
          else (case audit_pages fuel (f\<lparr>af_Cursor := cursor\<rparr>) r of Inl err \<Rightarrow> Inl err | Inr later \<Rightarrow> Inr (page @ later)))"

section \<open>The cursor is read back\<close>

lemma cursor_digits_snoc [simp]: "cursor_digits (ds @ [d]) = 10 * cursor_digits ds + (int d - 48)"
  by (simp add: cursor_digits_def)

lemma dec_digits_runes:
  "cursor_digits (map of_char (dec_digits n)) = int n \<and> list_all digit_rune (map of_char (dec_digits n)) \<and> dec_digits n \<noteq> []"
proof (induction n rule: dec_digits.induct)
  case (1 n)
  show ?case
  proof (cases "n < 10")
    case True
    then show ?thesis by (simp add: dec_digits.simps [of n] cursor_digits_def digit_rune_def)
  next
    case False
    moreover have "int n = 10 * int (n div 10) + int (n mod 10)" by presburger
    ultimately show ?thesis
      using 1 by (simp add: dec_digits.simps [of n] digit_rune_def del: int_ops)
  qed
qed

lemma runes_ascii_append:
  "list_all (\<lambda>c. (of_char c :: nat) < 0x80) cs \<Longrightarrow> map fst (runes (cs @ s)) = map of_char cs @ map fst (runes s)"
  by (induction cs) auto

text \<open>An identifier that a cursor can carry: text in UTF-8 without white space.\<close>

definition cursor_id :: "string \<Rightarrow> bool" where
  "cursor_id i \<longleftrightarrow> i \<noteq> [] \<and> concat (map (EncodeRune \<circ> fst) (runes i)) = i \<and> list_all (\<lambda>(r, bs). \<not> IsSpace r) (runes i)"

definition cursor_time :: "gotime \<Rightarrow> bool" where
  "cursor_time t \<longleftrightarrow> - (2 ^ 63) \<le> t - unix_epoch \<and> t - unix_epoch < 2 ^ 63"

lemma IsSpace_newline [simp]: "IsSpace 10"
  by (simp add: IsSpace_def)

lemma scan_s_id:
  assumes "cursor_id i"
  shows "scan_s (map fst (runes i)) = Some i"
proof -
  let ?rs = "map fst (runes i)"
  have all: "list_all (\<lambda>r. \<not> IsSpace r) ?rs" using assms by (auto simp: cursor_id_def list_all_iff)
  have ne: "?rs \<noteq> []" using assms by (auto simp: cursor_id_def)
  have skip: "skip_space ?rs = Some ?rs" using all ne by (cases ?rs) auto
  have word: "takeWhile (\<lambda>r. \<not> IsSpace r) ?rs = ?rs" using all by (simp add: list_all_iff takeWhile_eq_all_conv)
  have "concat (map EncodeRune ?rs) = i" using assms by (simp add: cursor_id_def)
  then show ?thesis using ne unfolding scan_s_def skip option.case word by simp
qed

lemma scan_d_digits:
  assumes "list_all digit_rune ds" and "ds \<noteq> []" and "\<not> digit_rune r"
  shows "- (2 ^ 63) \<le> cursor_digits ds \<Longrightarrow> cursor_digits ds < 2 ^ 63 \<Longrightarrow> scan_d (ds @ r # rs) = Some (cursor_digits ds, r # rs)"
    and "- (2 ^ 63) \<le> - cursor_digits ds \<Longrightarrow> - cursor_digits ds < 2 ^ 63 \<Longrightarrow> scan_d (45 # ds @ r # rs) = Some (- cursor_digits ds, r # rs)"
proof -
  obtain d ds' where ds: "ds = d # ds'" "digit_rune d" using assms(1,2) by (cases ds) auto
  have split: "takeWhile digit_rune (ds @ r # rs) = ds" "dropWhile digit_rune (ds @ r # rs) = r # rs"
    using assms by (auto simp: list_all_iff takeWhile_append2 dropWhile_append2)
  have d: "\<not> IsSpace d" "d \<noteq> 10" "d \<noteq> 45" "d \<noteq> 43" using ds(2) by (auto simp: IsSpace_def digit_rune_def)
  have skip: "skip_space (ds @ r # rs) = Some (ds @ r # rs)" "skip_space (45 # ds @ r # rs) = Some (45 # ds @ r # rs)"
    using d by (simp_all add: ds(1)) (simp add: IsSpace_def)
  have no_sign: "(case ds @ r # rs of r # _ \<Rightarrow> r = 45 | [] \<Rightarrow> False) = False"
    "(case ds @ r # rs of x # rs' \<Rightarrow> if x = 45 \<or> x = 43 then rs' else ds @ r # rs | [] \<Rightarrow> []) = ds @ r # rs"
    using d by (simp_all add: ds(1))
  show "- (2 ^ 63) \<le> cursor_digits ds \<Longrightarrow> cursor_digits ds < 2 ^ 63 \<Longrightarrow> scan_d (ds @ r # rs) = Some (cursor_digits ds, r # rs)"
    using assms(2) unfolding scan_d_def skip(1) option.case Let_def no_sign split by simp
  show "- (2 ^ 63) \<le> - cursor_digits ds \<Longrightarrow> - cursor_digits ds < 2 ^ 63 \<Longrightarrow> scan_d (45 # ds @ r # rs) = Some (- cursor_digits ds, r # rs)"
    using assms(2) split unfolding scan_d_def skip(2) option.case Let_def by simp
qed

lemma encodeCursor_nonempty [simp]: "encodeCursor e \<noteq> []"
  by (simp add: encodeCursor_def)

lemma cursor_scan:
  assumes "cursor_time (ae_CreatedAt e)"
  shows "Sscanf_cursor (encodeCursor e) = map_option (Pair (ae_CreatedAt e - unix_epoch)) (scan_s (map fst (runes (ae_ID e))))"
proof -
  let ?n = "ae_CreatedAt e - unix_epoch"
  have n: "unix_nano (ae_CreatedAt e) = ?n" using assms(1) by (simp add: unix_nano_def cursor_time_def)
  let ?ds = "dec_digits (nat \<bar>?n\<bar>)"
  note ds = dec_digits_runes [of "nat \<bar>?n\<bar>"]
  have ascii: "list_all (\<lambda>c. (of_char c :: nat) < 0x80) (?ds @ ''_'')" "list_all (\<lambda>c. (of_char c :: nat) < 0x80) (''-'' @ ?ds @ ''_'')"
    using ds by (auto simp: list_all_iff digit_rune_def)
  have us: "\<not> digit_rune 95" by (simp add: digit_rune_def)
  have "scan_d (map fst (runes (encodeCursor e))) = Some (?n, 95 # map fst (runes (ae_ID e)))"
  proof (cases "?n < 0")
    case True
    then have "encodeCursor e = (''-'' @ ?ds @ ''_'') @ ae_ID e" by (simp add: encodeCursor_def n Itoa_def)
    then have "map fst (runes (encodeCursor e)) = 45 # map of_char ?ds @ 95 # map fst (runes (ae_ID e))"
      using runes_ascii_append [OF ascii(2), of "ae_ID e"] by simp
    then show ?thesis
      using scan_d_digits(2) [of "map of_char ?ds" 95 "map fst (runes (ae_ID e))"] ds us True assms(1) by (simp add: cursor_time_def)
  next
    case False
    then have "encodeCursor e = (?ds @ ''_'') @ ae_ID e" by (simp add: encodeCursor_def n Itoa_def)
    then have "map fst (runes (encodeCursor e)) = map of_char ?ds @ 95 # map fst (runes (ae_ID e))"
      using runes_ascii_append [OF ascii(1), of "ae_ID e"] by simp
    then show ?thesis
      using scan_d_digits(1) [of "map of_char ?ds" 95 "map fst (runes (ae_ID e))"] ds us False assms(1) by (simp add: cursor_time_def)
  qed
  then show ?thesis by (simp add: Sscanf_cursor_def)
qed

lemma cursor_roundtrip:
  assumes "cursor_time (ae_CreatedAt e)" and "cursor_id (ae_ID e)"
  shows "parseCursor (encodeCursor e) = Inr (ae_CreatedAt e, ae_ID e)"
  using cursor_scan [OF assms(1)] scan_s_id [OF assms(2)] by (simp add: parseCursor_def time_Unix_def)

section \<open>Pages\<close>

definition event_key :: "AuditEvent \<Rightarrow> gotime \<times> string" where
  "event_key e = (ae_CreatedAt e, ae_ID e)"

lemma audit_limit_pos: "0 < audit_limit f"
  by (simp add: audit_limit_def)

lemma audit_list_loop_started:
  "int (length acc) < audit_limit f \<Longrightarrow>
     audit_list_loop f c True es acc = acc @ take (nat (audit_limit f) - length acc) (filter (event_matches f) es)"
proof (induction es arbitrary: acc)
  case (Cons e es)
  show ?case
  proof (cases "event_matches f e \<and> int (length acc) + 1 < audit_limit f")
    case True
    then have "nat (audit_limit f) - length acc = Suc (nat (audit_limit f) - Suc (length acc))" by linarith
    with True Cons.IH [of "acc @ [e]"] show ?thesis by simp
  next
    case False
    then have "event_matches f e \<Longrightarrow> nat (audit_limit f) - length acc = 1" using Cons.prems by linarith
    with False Cons show ?thesis by auto
  qed
qed simp

lemma audit_list_loop_resumes:
  "event_key e \<notin> event_key ` set pre \<Longrightarrow>
     audit_list_loop f (event_key e) False (pre @ e # es) acc = audit_list_loop f (event_key e) True es acc"
  by (induction pre) (auto simp: event_key_def)

text \<open>A repository the cursors can walk through.\<close>

definition audit_pageable :: "MemoryAuditRepository \<Rightarrow> bool" where
  "audit_pageable r \<longleftrightarrow>
     distinct (map event_key (ar_events r)) \<and> list_all (\<lambda>e. cursor_time (ae_CreatedAt e) \<and> cursor_id (ae_ID e)) (ar_events r)"

lemma filter_append_split: "filter P xs = ys @ zs \<Longrightarrow> \<exists>us vs. xs = us @ vs \<and> filter P us = ys \<and> filter P vs = zs"
proof (induction xs arbitrary: ys)
  case (Cons x xs)
  show ?case
  proof (cases "P x \<and> ys \<noteq> []")
    case True
    with Cons.prems obtain ys' where "ys = x # ys'" "filter P xs = ys' @ zs" by (cases ys) auto
    with Cons.IH True show ?thesis by (metis (full_types) append_Cons filter.simps(2))
  next
    case False
    then consider "ys = []" | "\<not> P x" by blast
    then show ?thesis
    proof cases
      case 1
      with Cons.prems show ?thesis by (intro exI [of _ "[]"] exI [of _ "x # xs"]) simp
    next
      case 2
      with Cons show ?thesis by (metis (full_types) append_Cons filter.simps(2))
    qed
  qed
qed simp

lemma take_filter_last:
  assumes "take n (filter P xs) = ys @ [y]"
  shows "\<exists>pre post. xs = pre @ y # post \<and> filter P pre = ys \<and> P y"
proof -
  have "filter P xs = ys @ y # drop n (filter P xs)" using append_take_drop_id [of n "filter P xs"] assms by simp
  then obtain us vs where u: "xs = us @ vs" "filter P us = ys" "filter P vs = y # drop n (filter P xs)"
    by (metis filter_append_split)
  then show ?thesis
  proof (induction vs arbitrary: us)
    case (Cons v vs)
    then show ?case by (cases "P v") (auto intro: Cons.IH [of "us @ [v]"])
  qed simp
qed

lemma audit_page:
  assumes "af_Cursor f = [] \<and> rest = sort_by event_before (ar_events r) \<or>
      (\<exists>pre e. sort_by event_before (ar_events r) = pre @ e # rest \<and> af_Cursor f = encodeCursor e)" and "audit_pageable r"
  shows "AuditRepo_List f r =
    (let page = take (nat (audit_limit f)) (filter (event_matches f) rest)
     in Inr (page, if int (length page) = audit_limit f then encodeCursor (last page) else []))"
proof -
  let ?es = "sort_by event_before (ar_events r)"
  have wf: "distinct (map event_key ?es)" "list_all (\<lambda>e. cursor_time (ae_CreatedAt e) \<and> cursor_id (ae_ID e)) ?es"
    using assms(2) by (simp_all add: audit_pageable_def list_all_iff)
  note all = audit_list_loop_started [of "[]" f, simplified, OF audit_limit_pos]
  from assms(1) show ?thesis
  proof
    assume "af_Cursor f = [] \<and> rest = ?es"
    then show ?thesis by (simp add: AuditRepo_List_def parseCursor_def all)
  next
    assume "\<exists>pre e. ?es = pre @ e # rest \<and> af_Cursor f = encodeCursor e"
    then obtain pre e where e: "?es = pre @ e # rest" "af_Cursor f = encodeCursor e" by blast
    have "cursor_time (ae_CreatedAt e)" "cursor_id (ae_ID e)" using wf(2) e(1) by auto
    note c = cursor_roundtrip [OF this, folded event_key_def]
    have "event_key e \<notin> event_key ` set pre" using wf(1) e(1) by auto
    then have "audit_list_loop f (event_key e) False ?es [] = take (nat (audit_limit f)) (filter (event_matches f) rest)"
      unfolding e(1) by (simp add: audit_list_loop_resumes all)
    with c e(2) show ?thesis by (simp add: AuditRepo_List_def)
  qed
qed

lemma audit_pages_from:
  assumes "audit_pageable r"
  shows "af_Cursor f = [] \<and> rest = sort_by event_before (ar_events r) \<or>
      (\<exists>pre e. sort_by event_before (ar_events r) = pre @ e # rest \<and> af_Cursor f = encodeCursor e) \<Longrightarrow>
    length rest < fuel \<Longrightarrow> audit_pages fuel f r = Inr (filter (event_matches f) rest)"
proof (induction fuel arbitrary: f rest)
  case (Suc fuel)
  let ?n = "nat (audit_limit f)"
  let ?page = "take ?n (filter (event_matches f) rest)"
  note page = audit_page [OF Suc.prems(1) assms]
  show ?case
  proof (cases "int (length ?page) = audit_limit f")
    case False
    then have "?page = filter (event_matches f) rest" using audit_limit_pos [of f] by auto
    with False page show ?thesis by (simp add: Let_def)
  next
    case True
    then have "?page \<noteq> []" using audit_limit_pos [of f] by auto
    then obtain ys y where y: "?page = ys @ [y]" by (metis append_butlast_last_id)
    obtain pre post where s: "rest = pre @ y # post" "filter (event_matches f) pre = ys" "event_matches f y"
      using take_filter_last [OF y] by blast
    have "\<exists>p. sort_by event_before (ar_events r) = p @ y # post" using Suc.prems(1) s(1) by (metis append.assoc append_Cons)
    then have "audit_pages fuel (f\<lparr>af_Cursor := encodeCursor y\<rparr>) r = Inr (filter (event_matches (f\<lparr>af_Cursor := encodeCursor y\<rparr>)) post)"
      using Suc.prems(2) s(1) by (intro Suc.IH) auto
    moreover have "event_matches (f\<lparr>af_Cursor := encodeCursor y\<rparr>) = event_matches f" by (simp add: event_matches_def fun_eq_iff)
    moreover have "AuditRepo_List f r = Inr (ys @ [y], encodeCursor y)" using page True unfolding Let_def y by simp
    ultimately show ?thesis using s by simp
  qed
qed simp

section \<open>Properties\<close>

text \<open>
  C39 (functional). Listing is complete: a caller that follows the cursors from the first page on receives every event
  that matches the filter exactly once, newest first, for every page size, provided that no two events share time and
  identifier, the identifiers are text without white space and the times lie in the range of \<^verbatim>\<open>UnixNano\<close>.
  As many pages as there are events, and one more, are enough.
\<close>

theorem audit_pages_complete:
  assumes "audit_pageable r" and "af_Cursor f = []" and "length (ar_events r) < fuel"
  shows "audit_pages fuel f r = Inr (filter (event_matches f) (sort_by event_before (ar_events r)))"
  using audit_pages_from [OF assms(1), of f "sort_by event_before (ar_events r)" fuel] assms(2,3) by simp

definition listed_event :: "string \<Rightarrow> gotime \<Rightarrow> AuditEvent" where
  "listed_event i t =
     \<lparr>ae_ID = i, ae_TenantID = ''t'', ae_ProjectID = [], ae_ActorType = [], ae_ActorID = [], ae_Action = [], ae_ResourceType = [],
      ae_ResourceID = [], ae_Outcome = [], ae_TraceID = [], ae_TaskID = [], ae_IdempotencyKey = [], ae_Metadata = None, ae_ErrorCode = [],
      ae_ErrorMessage = [], ae_CreatedAt = t\<rparr>"

definition sample_audit :: MemoryAuditRepository where
  "sample_audit = \<lparr>ar_events = [listed_event ''a'' (unix_epoch + 1), listed_event ''b'' (unix_epoch + 2)], ar_byID = [(''a'', 0), (''b'', 1)]\<rparr>"

definition one_by_one :: AuditFilter where
  "one_by_one =
     \<lparr>af_TenantID = ''t'', af_ProjectID = [], af_ResourceType = [], af_ResourceID = [], af_Action = [], af_ActorID = [], af_Outcome = [],
      af_Limit = 1, af_Cursor = []\<rparr>"

lemma sample_chars: "char_of (97 :: nat) = CHR ''a''" "char_of (98 :: nat) = CHR ''b''"
  by (simp_all add: char_of_def bit_iff_odd)

theorem audit_pages_complete_witness:
  "audit_pages 3 one_by_one sample_audit = Inr (filter (event_matches one_by_one) (sort_by event_before (ar_events sample_audit))) \<and>
   map ae_ID (filter (event_matches one_by_one) (sort_by event_before (ar_events sample_audit))) = [''b'', ''a'']"
proof -
  have "audit_pageable sample_audit"
    by (simp add: audit_pageable_def sample_audit_def listed_event_def event_key_def cursor_time_def cursor_id_def EncodeRune_def IsSpace_def sample_chars)
  moreover have "af_Cursor one_by_one = []" "length (ar_events sample_audit) < 3" by (simp_all add: one_by_one_def sample_audit_def)
  moreover have "map ae_ID (filter (event_matches one_by_one) (sort_by event_before (ar_events sample_audit))) = [''b'', ''a'']"
    by (simp add: sample_audit_def listed_event_def event_before_def time_defs event_matches_def filter_open_def one_by_one_def)
  ultimately show ?thesis using audit_pages_complete [of sample_audit one_by_one 3] by blast
qed

text \<open>
  Without the condition on identifiers a listing ends early: after an event whose identifier holds a blank the cursor
  names no event, and the next page is empty without an error.
\<close>

lemma blank_in_identifier_ends_listing:
  "AuditRepo_List (one_by_one\<lparr>af_Cursor := encodeCursor (listed_event ''b c'' (unix_epoch + 2))\<rparr>)
     \<lparr>ar_events = [listed_event ''a'' (unix_epoch + 1), listed_event ''b c'' (unix_epoch + 2)], ar_byID = []\<rparr> = Inr ([], [])"
proof -
  let ?e = "listed_event ''b c'' (unix_epoch + 2)"
  have "scan_s (map fst (runes (ae_ID ?e))) = Some ''b''"
    by (simp add: listed_event_def scan_s_def EncodeRune_def IsSpace_def sample_chars)
  then have "parseCursor (encodeCursor ?e) = Inr (unix_epoch + 2, ''b'')"
    using cursor_scan [of ?e] by (simp add: parseCursor_def time_Unix_def cursor_time_def listed_event_def)
  then show ?thesis
    by (simp add: AuditRepo_List_def event_before_def listed_event_def time_defs audit_limit_def one_by_one_def)
qed

end
