(* ===== verification/Controllers.thy ===== *)
theory Controllers
  imports GoText
begin

text \<open>
  Two controllers in front of expensive work. \<^verbatim>\<open>internal/execution/controller.go\<close> admits operations up to a budget
  and rejects the rest at once; its slots are buffered channels. \<^verbatim>\<open>internal/operations/controller.go\<close> leads an alert
  through self check, diagnosis, runbook and a dry-run plan; the executors behind its interfaces are arguments.
\<close>

section \<open>Execution budgets\<close>

type_synonym Operation = string

record Budget =
  bg_Timeout :: duration
  bg_Concurrency :: int

text \<open>A channel of empty structs is its capacity and the number of elements it holds.\<close>

record slot =
  sl_cap :: nat
  sl_len :: nat

record ExecController =
  ec_budgets :: "(Operation, Budget) gomap"
  ec_slots :: "(Operation, slot) gomap"

definition exec_New :: "(Operation, Budget) gomap \<Rightarrow> ExecController" where
  "exec_New budgets =
     \<lparr>ec_budgets = budgets,
      ec_slots = map (\<lambda>(op, b). (op, \<lparr>sl_cap = nat (bg_Concurrency b), sl_len = 0\<rparr>)) (filter (\<lambda>(op, b). 0 < bg_Concurrency b) budgets)\<rparr>"

text \<open>
  What \<^verbatim>\<open>Start\<close> returns: a rejection, or an admission with the deadline of the context, which is the earlier of the
  caller's and the operation's own, and whether the release function gives a slot back.
\<close>

datatype admission = Rejected | Admitted "gotime option" bool

definition limited :: "Operation \<Rightarrow> ExecController \<Rightarrow> Budget option" where
  "limited op c =
     (case map_of (ec_budgets c) op of
        None \<Rightarrow> None
      | Some b \<Rightarrow> if bg_Concurrency b \<le> 0 \<or> bg_Timeout b \<le> 0 then None else Some b)"

definition exec_Start :: "gotime \<Rightarrow> gotime option \<Rightarrow> Operation \<Rightarrow> ExecController \<Rightarrow> ExecController \<times> admission" where
  "exec_Start now deadline op c =
     (case limited op c of
        None \<Rightarrow> (c, Admitted deadline False)
      | Some b \<Rightarrow>
          (case map_of (ec_slots c) op of
             None \<Rightarrow> (c, Rejected)
           | Some s \<Rightarrow>
               if sl_len s < sl_cap s
               then (c\<lparr>ec_slots := gput op (s\<lparr>sl_len := sl_len s + 1\<rparr>) (ec_slots c)\<rparr>,
                     Admitted (Some (case deadline of None \<Rightarrow> now + bg_Timeout b | Some d \<Rightarrow> min d (now + bg_Timeout b))) True)
               else (c, Rejected)))"

text \<open>The release function of a limited operation receives from the channel; \<open>None\<close> where it would block.\<close>

definition exec_release :: "Operation \<Rightarrow> ExecController \<Rightarrow> ExecController option" where
  "exec_release op c =
     (case map_of (ec_slots c) op of
        None \<Rightarrow> None
      | Some s \<Rightarrow> if sl_len s = 0 then None else Some (c\<lparr>ec_slots := gput op (s\<lparr>sl_len := sl_len s - 1\<rparr>) (ec_slots c)\<rparr>))"

definition exec_Budget :: "Operation \<Rightarrow> ExecController \<Rightarrow> Budget option" where
  "exec_Budget op c = map_of (ec_budgets c) op"

subsection \<open>Callers\<close>

text \<open>
  The operations that hold a slot. A caller starts an operation, and one that was admitted with a slot releases it once.
\<close>

record exec_system =
  es_controller :: ExecController
  es_held :: "Operation list"

inductive exec_step :: "exec_system \<Rightarrow> exec_system \<Rightarrow> bool" where
  admitted: "exec_Start now deadline op (es_controller y) = (c, Admitted d slot) \<Longrightarrow>
     exec_step y \<lparr>es_controller = c, es_held = (if slot then op # es_held y else es_held y)\<rparr>"
| rejected: "exec_Start now deadline op (es_controller y) = (c, Rejected) \<Longrightarrow> exec_step y (y\<lparr>es_controller := c\<rparr>)"
| released: "op \<in> set (es_held y) \<Longrightarrow> exec_release op (es_controller y) = Some c \<Longrightarrow>
     exec_step y \<lparr>es_controller = c, es_held = remove1 op (es_held y)\<rparr>"

inductive exec_reachable :: "(Operation, Budget) gomap \<Rightarrow> exec_system \<Rightarrow> bool" for budgets where
  start: "exec_reachable budgets \<lparr>es_controller = exec_New budgets, es_held = []\<rparr>"
| step: "exec_reachable budgets y \<Longrightarrow> exec_step y z \<Longrightarrow> exec_reachable budgets z"

inductive_cases exec_stepE: "exec_step y z"

definition slots_ok :: "(Operation, Budget) gomap \<Rightarrow> exec_system \<Rightarrow> bool" where
  "slots_ok budgets y \<longleftrightarrow>
     ec_budgets (es_controller y) = budgets \<and>
     (\<forall>op. map_of (ec_slots (es_controller y)) op =
        (case map_of budgets op of
           None \<Rightarrow> None
         | Some b \<Rightarrow> if 0 < bg_Concurrency b then Some \<lparr>sl_cap = nat (bg_Concurrency b), sl_len = count_list (es_held y) op\<rparr> else None)) \<and>
     (\<forall>op\<in>set (es_held y). \<exists>b. map_of budgets op = Some b \<and> 0 < bg_Concurrency b \<and> count_list (es_held y) op \<le> nat (bg_Concurrency b))"

lemma map_of_new_slots:
  "gmap_wf m \<Longrightarrow> map_of (map (\<lambda>(op, b). (op, f b)) (filter (\<lambda>(op, b). P b) m)) op =
     (case map_of m op of None \<Rightarrow> None | Some b \<Rightarrow> if P b then Some (f b) else None)"
  by (induction m) (force simp: gmap_wf_def map_of_eq_None_iff split: option.splits)+

lemma slots_ok_New: "gmap_wf budgets \<Longrightarrow> slots_ok budgets \<lparr>es_controller = exec_New budgets, es_held = []\<rparr>"
  by (simp add: slots_ok_def exec_New_def map_of_new_slots split: option.splits)

lemma count_list_remove1: "count_list (remove1 x xs) y = (if x = y then count_list xs y - 1 else count_list xs y)"
  by (induction xs) (auto simp: count_list_0_iff)

lemma slots_ok_admit:
  assumes "slots_ok budgets y" and "exec_Start now deadline op (es_controller y) = (c, Admitted d True)"
  shows "slots_ok budgets \<lparr>es_controller = c, es_held = op # es_held y\<rparr>"
proof -
  obtain b s where b: "map_of budgets op = Some b" "0 < bg_Concurrency b" "map_of (ec_slots (es_controller y)) op = Some s"
    "sl_len s < sl_cap s" "c = es_controller y\<lparr>ec_slots := gput op (s\<lparr>sl_len := sl_len s + 1\<rparr>) (ec_slots (es_controller y))\<rparr>"
    using assms by (auto simp: exec_Start_def limited_def slots_ok_def split: option.splits if_splits)
  have s: "s = \<lparr>sl_cap = nat (bg_Concurrency b), sl_len = count_list (es_held y) op\<rparr>"
    using assms(1) b by (simp add: slots_ok_def)
  show ?thesis
    using assms(1) b s unfolding slots_ok_def by (auto simp: map_simps count_list_0_iff split: option.splits)
qed

lemma slots_ok_release:
  assumes "slots_ok budgets y" and "op \<in> set (es_held y)"
  shows "\<exists>c. exec_release op (es_controller y) = Some c \<and> slots_ok budgets \<lparr>es_controller = c, es_held = remove1 op (es_held y)\<rparr>"
proof -
  obtain b where b: "map_of budgets op = Some b" "0 < bg_Concurrency b" "count_list (es_held y) op \<le> nat (bg_Concurrency b)"
    using assms by (auto simp: slots_ok_def)
  have s: "map_of (ec_slots (es_controller y)) op = Some \<lparr>sl_cap = nat (bg_Concurrency b), sl_len = count_list (es_held y) op\<rparr>"
    using assms(1) b by (simp add: slots_ok_def)
  have pos: "count_list (es_held y) op \<noteq> 0" using assms(2) by (simp add: count_list_0_iff)
  show ?thesis
    using assms(1) b pos unfolding slots_ok_def exec_release_def s
    by (auto simp: map_simps count_list_remove1 split: option.splits dest: notin_set_remove1 intro: le_trans [OF diff_le_self])
qed

lemma unlimited_start: "exec_Start now deadline op c = (c', Admitted d False) \<Longrightarrow> c' = c"
  and rejected_start: "exec_Start now deadline op c = (c', Rejected) \<Longrightarrow> c' = c"
  by (auto simp: exec_Start_def split: option.splits if_splits)

lemma exec_reachable_ok: "exec_reachable budgets y \<Longrightarrow> gmap_wf budgets \<Longrightarrow> slots_ok budgets y"
proof (induction rule: exec_reachable.induct)
  case (step y z)
  then have ok: "slots_ok budgets y" by simp
  from step(2) show ?case
  proof (rule exec_stepE)
    fix now deadline op c d slot
    assume s: "exec_Start now deadline op (es_controller y) = (c, Admitted d slot)"
      and z: "z = \<lparr>es_controller = c, es_held = (if slot then op # es_held y else es_held y)\<rparr>"
    show ?thesis
    proof (cases slot)
      case True
      with s z slots_ok_admit [OF ok] show ?thesis by simp
    next
      case False
      with s have "c = es_controller y" by (intro unlimited_start) simp
      with z False have "z = y" by simp
      with ok show ?thesis by simp
    qed
  next
    fix now deadline op c
    assume "exec_Start now deadline op (es_controller y) = (c, Rejected)" "z = y\<lparr>es_controller := c\<rparr>"
    moreover from this(1) have "c = es_controller y" by (rule rejected_start)
    ultimately show ?thesis using ok by simp
  next
    fix op c
    assume "op \<in> set (es_held y)" "exec_release op (es_controller y) = Some c" "z = \<lparr>es_controller = c, es_held = remove1 op (es_held y)\<rparr>"
    with slots_ok_release [OF ok] show ?thesis by force
  qed
qed (simp add: slots_ok_New)

text \<open>
  C40 (bounds). However callers start and release operations, at most the budgeted number of a limited operation run at
  the same time; a call is rejected exactly when that many run, so no slot is lost; and a release never blocks.
\<close>

theorem execution_budget_exact:
  assumes "exec_reachable budgets y" and "gmap_wf budgets" and "limited op (es_controller y) = Some b"
  shows "int (count_list (es_held y) op) \<le> bg_Concurrency b \<and>
    (snd (exec_Start now deadline op (es_controller y)) = Rejected \<longleftrightarrow> int (count_list (es_held y) op) = bg_Concurrency b) \<and>
    (op \<in> set (es_held y) \<longrightarrow> exec_release op (es_controller y) \<noteq> None)"
proof -
  note ok = exec_reachable_ok [OF assms(1,2)]
  have b: "map_of budgets op = Some b" "0 < bg_Concurrency b"
    using assms(3) ok by (auto simp: limited_def slots_ok_def split: option.splits if_splits)
  have s: "map_of (ec_slots (es_controller y)) op = Some \<lparr>sl_cap = nat (bg_Concurrency b), sl_len = count_list (es_held y) op\<rparr>"
    using ok b by (simp add: slots_ok_def)
  have le: "count_list (es_held y) op \<le> nat (bg_Concurrency b)"
    using ok b by (cases "op \<in> set (es_held y)") (fastforce simp: slots_ok_def, simp add: count_list_0_iff)
  with b s assms(3) slots_ok_release [OF ok, of op] show ?thesis by (auto simp: exec_Start_def)
qed

theorem execution_budget_exact_witness:
  "\<exists>y. exec_reachable [(''query'', \<lparr>bg_Timeout = 5, bg_Concurrency = 1\<rparr>)] y \<and> es_held y = [''query''] \<and>
     snd (exec_Start 7 None ''query'' (es_controller y)) = Rejected"
proof -
  let ?b = "\<lparr>bg_Timeout = 5, bg_Concurrency = 1\<rparr>"
  let ?y = "\<lparr>es_controller = exec_New [(''query'', ?b)], es_held = []\<rparr>"
  let ?c = "\<lparr>ec_budgets = [(''query'', ?b)], ec_slots = [(''query'', \<lparr>sl_cap = 1, sl_len = 1\<rparr>)]\<rparr>"
  let ?z = "\<lparr>es_controller = ?c, es_held = (if True then ''query'' # es_held ?y else es_held ?y)\<rparr>"
  have start: "exec_Start 0 None ''query'' (es_controller ?y) = (?c, Admitted (Some 5) True)"
    by (simp add: exec_Start_def exec_New_def limited_def)
  have r: "exec_reachable [(''query'', ?b)] ?z"
    by (rule exec_reachable.step [OF exec_reachable.start exec_step.admitted [OF start]])
  have "limited ''query'' (es_controller ?z) = Some ?b" "gmap_wf [(''query'', ?b)]"
    by (simp_all add: limited_def gmap_wf_def)
  from execution_budget_exact [OF r this(2,1), of 7 None] r show ?thesis by (intro exI [of _ ?z]) simp
qed

section \<open>Alerts\<close>

record OpsAlert =
  al_Name :: string
  al_Severity :: string
  al_Labels :: "(string, string) gomap"
  al_TraceID :: string
  al_Symptom :: string

datatype OpsState = StateReceived | StateChecked | StateDiagnosed | StateRunbookSelected | StatePlanGenerated | StateBlocked

record check_request =
  ckr_Scope :: string
  ckr_Mode :: string
  ckr_TraceID :: string

record diagnose_request =
  dgr_Scope :: string
  dgr_Symptom :: string
  dgr_TraceID :: string

record runbook_request =
  rbr_Scope :: string
  rbr_Verdict :: string

record plan_request =
  plq_Scope :: string
  plq_DryRun :: bool
  plq_TraceID :: string

text \<open>The executors; an error is its text. \<open>oc_verdict\<close> reads the verdict of a diagnosis.\<close>

record ('check, 'diagnosis, 'runbook, 'plan) OpsController =
  oc_Checks :: "(check_request \<Rightarrow> string + 'check) option"
  oc_Diagnose :: "(diagnose_request \<Rightarrow> 'diagnosis) option"
  oc_RunbookSuggest :: "runbook_request \<Rightarrow> 'runbook"
  oc_verdict :: "'diagnosis \<Rightarrow> string"
  oc_Ops :: "(plan_request \<Rightarrow> string + 'plan) option"

record ('check, 'diagnosis, 'runbook, 'plan) OpsResult =
  or_State :: OpsState
  or_Scope :: string
  or_Check :: "'check option"
  or_Diagnosis :: "'diagnosis option"
  or_Runbook :: "'runbook option"
  or_Plan :: "'plan option"
  or_BlockedReason :: string
  or_ReadOnly :: bool

fun ops_firstNonEmpty :: "string list \<Rightarrow> string" where
  "ops_firstNonEmpty [] = []"
| "ops_firstNonEmpty (v # vs) = (if TrimSpace v \<noteq> [] then TrimSpace v else ops_firstNonEmpty vs)"

definition alert_text :: "unicode_tables \<Rightarrow> OpsAlert \<Rightarrow> string" where
  "alert_text u a = fold (\<lambda>(k, v) name. name @ '' '' @ ToLower u v) (al_Labels a) (ToLower u (al_Name a))"

definition scopeForAlert :: "unicode_tables \<Rightarrow> OpsAlert \<Rightarrow> string" where
  "scopeForAlert u a =
     (let name = alert_text u a
      in if Contains name ''storage'' \<or> Contains name ''dependency'' \<or> Contains name ''postgres'' \<or> Contains name ''qdrant'' then ''storage''
         else if Contains name ''contract'' \<or> Contains name ''openapi'' then ''contract''
         else if Contains name ''agent'' \<or> Contains name ''mcp'' then ''agent_sync''
         else if Contains name ''release'' then ''release''
         else ''health'')"

definition HandleAlert ::
  "unicode_tables \<Rightarrow> ('check, 'diagnosis, 'runbook, 'plan) OpsController \<Rightarrow> OpsAlert \<Rightarrow> ('check, 'diagnosis, 'runbook, 'plan) OpsResult" where
  "HandleAlert u c a =
     (let scope = scopeForAlert u a;
          result = \<lparr>or_State = StateReceived, or_Scope = scope, or_Check = None, or_Diagnosis = None, or_Runbook = None, or_Plan = None,
            or_BlockedReason = [], or_ReadOnly = True\<rparr>
      in case (oc_Checks c, oc_Diagnose c) of
           (Some checks, Some diagnose) \<Rightarrow>
             (case checks \<lparr>ckr_Scope = scope, ckr_Mode = ''focused'', ckr_TraceID = TrimSpace (al_TraceID a)\<rparr> of
                Inl err \<Rightarrow> result\<lparr>or_State := StateBlocked, or_BlockedReason := err\<rparr>
              | Inr chk \<Rightarrow>
                  let diagnosis = diagnose \<lparr>dgr_Scope = scope, dgr_Symptom = ops_firstNonEmpty [al_Symptom a, al_Name a], dgr_TraceID = al_TraceID a\<rparr>;
                      runbook = oc_RunbookSuggest c \<lparr>rbr_Scope = scope, rbr_Verdict = oc_verdict c diagnosis\<rparr>;
                      result = result\<lparr>or_Check := Some chk, or_Diagnosis := Some diagnosis, or_Runbook := Some runbook,
                        or_State := StateRunbookSelected\<rparr>
                  in case oc_Ops c of
                       None \<Rightarrow> result
                     | Some plan \<Rightarrow>
                         if oc_verdict c diagnosis = ''pass'' then result
                         else case plan \<lparr>plq_Scope = ''agent_artifacts'', plq_DryRun = True, plq_TraceID = TrimSpace (al_TraceID a)\<rparr> of
                           Inl err \<Rightarrow> result\<lparr>or_State := StateBlocked, or_BlockedReason := err\<rparr>
                         | Inr p \<Rightarrow> result\<lparr>or_Plan := Some p, or_State := StatePlanGenerated\<rparr>)
         | _ \<Rightarrow> result\<lparr>or_State := StateBlocked, or_BlockedReason := ''self-check and diagnostics executors are required''\<rparr>)"

subsection \<open>Properties\<close>

lemma Contains_iff: "Contains s t \<longleftrightarrow> (\<exists>a b. s = a @ t @ b)"
proof (induction s)
  case (Cons c s)
  have "(\<exists>a b. c # s = a @ t @ b) \<longleftrightarrow> is_prefix t (c # s) \<or> (\<exists>a b. s = a @ t @ b)"
    by (auto simp: is_prefix_iff Cons_eq_append_conv)
  with Cons show ?case by simp
qed auto

lemma Contains_blank:
  assumes "CHR '' '' \<notin> set t" and "t \<noteq> []"
  shows "Contains (x @ '' '' @ y) t \<longleftrightarrow> Contains x t \<or> Contains y t"
proof
  assume "Contains (x @ '' '' @ y) t"
  then obtain a b where "x @ CHR '' '' # y = (a @ t) @ b" by (auto simp: Contains_iff)
  then consider us where "x @ us = a @ t" "CHR '' '' # y = us @ b" | us where "x = a @ t @ us"
    by (metis append.assoc append_eq_append_conv2)
  then show "Contains x t \<or> Contains y t"
  proof cases
    case 1
    show ?thesis
    proof (cases us)
      case Nil
      with 1 show ?thesis unfolding Contains_iff by (metis append.right_neutral)
    next
      case (Cons c us')
      with 1 have c: "c = CHR '' ''" "y = us' @ b" by auto
      with 1 Cons have "x @ CHR '' '' # us' = a @ t" by simp
      then obtain zs where "a = x @ CHR '' '' # zs \<and> us' = zs @ t"
        using assms by (auto simp: append_eq_append_conv2 Cons_eq_append_conv)
      with c show ?thesis unfolding Contains_iff by auto
    qed
  next
    case 2
    then show ?thesis unfolding Contains_iff by blast
  qed
next
  assume "Contains x t \<or> Contains y t"
  then show "Contains (x @ '' '' @ y) t"
    unfolding Contains_iff by (metis append.assoc append_Cons)
qed

lemma alert_text_contains:
  assumes "CHR '' '' \<notin> set t" and "t \<noteq> []"
  shows "Contains (alert_text u a) t \<longleftrightarrow> Contains (ToLower u (al_Name a)) t \<or> (\<exists>v\<in>snd ` set (al_Labels a). Contains (ToLower u v) t)"
proof -
  have "Contains (fold (\<lambda>(k, v) name. name @ '' '' @ ToLower u v) ls x) t \<longleftrightarrow> Contains x t \<or> (\<exists>v\<in>snd ` set ls. Contains (ToLower u v) t)" for ls x
  proof (induction ls arbitrary: x)
    case (Cons l ls)
    show ?case
      using Cons [of "x @ '' '' @ ToLower u (snd l)"] Contains_blank [OF assms, of x "ToLower u (snd l)"]
      by (simp add: case_prod_unfold)
  qed simp
  then show ?thesis by (simp add: alert_text_def)
qed

text \<open>
  The scope of an alert does not depend on the order in which the loop over the map of labels visits
  them.
\<close>

lemma scope_order_independent:
  "set (al_Labels a) = set labels \<Longrightarrow> scopeForAlert u (a\<lparr>al_Labels := labels\<rparr>) = scopeForAlert u a"
  unfolding scopeForAlert_def Let_def by (simp add: alert_text_contains)

text \<open>What an alert leads to: the states are left in order, and a plan is made only for a verdict that is not a pass.\<close>

lemma HandleAlert_outcome:
  "or_ReadOnly (HandleAlert u c a)"
  "or_State (HandleAlert u c a) = StatePlanGenerated \<longleftrightarrow> or_Plan (HandleAlert u c a) \<noteq> None"
  "or_Plan (HandleAlert u c a) \<noteq> None \<Longrightarrow> \<exists>d. or_Diagnosis (HandleAlert u c a) = Some d \<and> oc_verdict c d \<noteq> ''pass''"
  "or_State (HandleAlert u c a) \<in> {StateBlocked, StateRunbookSelected, StatePlanGenerated}"
  "or_State (HandleAlert u c a) = StateRunbookSelected \<Longrightarrow> or_Check (HandleAlert u c a) \<noteq> None \<and> or_Diagnosis (HandleAlert u c a) \<noteq> None \<and> or_Runbook (HandleAlert u c a) \<noteq> None"
  by (auto simp: HandleAlert_def Let_def simp del: ops_firstNonEmpty.simps split: option.splits sum.splits if_splits)

end
