(* ===== verification/OptService.thy ===== *)
theory OptService
  imports OptRepo OptObjective EvalStats
begin

text \<open>
  The service that executes optimisation runs (\<^verbatim>\<open>internal/optimizer/service.go\<close>, \<^verbatim>\<open>run_config.go\<close>, \<^verbatim>\<open>task.go\<close>) over the
  in-memory repository of \<open>OptRepo\<close>.

  An execution is a program over the state \<open>opt_exec\<close>: the repository, the number of steps taken so far, and the run
  that the methods share by pointer. Every call of the repository is atomic, and before step \<open>i\<close> the other callers of
  the repository do \<open>ox_env i\<close>; clock, runner, limiter and cleaner may answer differently at every step. A program ends in
  an error or a value. A nil slice or map and an empty one are the same list; \<^verbatim>\<open>run_HoldoutSplit\<close> is \<^verbatim>\<open>Config.HoldoutSplit\<close>.
\<close>

section \<open>Data\<close>

datatype CleanupStatus = CleanupUnset | CleanupNotRequired | CleanupPending | CleanupDone | CleanupFailed

record TempNamespace =
  tn_Name :: string
  tn_OwnerID :: string
  tn_Kind :: string
  tn_ExpiresAt :: gotime
  tn_Status :: CleanupStatus
  tn_Error :: string
  tn_CreatedAt :: gotime
  tn_CleanedAt :: gotime
  tn_CleanupRuns :: int

record OptBudget =
  ob_MaxJudgeCalls :: int
  ob_MaxCostUSD :: float64
  ob_MaxWallTimeSeconds :: int
  ob_MaxWallTime :: duration

definition wallTime :: "OptBudget \<Rightarrow> duration" where
  "wallTime b =
     (if ob_MaxWallTime b > 0 then ob_MaxWallTime b
      else if ob_MaxWallTimeSeconds b > 0 then sint (word_of_int (ob_MaxWallTimeSeconds b * Second) :: 64 word)
      else 0)"

record RunConfig =
  cfg_DatasetID :: string
  cfg_KnowledgeBaseID :: string
  cfg_Objective :: ObjectiveSpec
  cfg_SearchSpace :: SearchSpace
  cfg_Search :: SearchSpec
  cfg_Budget :: OptBudget
  cfg_Profile :: Profile
  cfg_TopK :: int
  cfg_NamespaceTTL :: duration
  cfg_SelectionSplit :: string
  cfg_HoldoutSplit :: string
  cfg_HoldoutGate :: HoldoutGateConfig

text \<open>A value of the map \<^verbatim>\<open>Runner\<close>, by the Go types the code tells apart.\<close>

datatype runner_value = RVString string | RVInt int | RVFloat float64 | RVNumber "int option" | RVOther string

type_synonym runner_map = "(string, runner_value) gomap"

text \<open>A request has the fields of a configuration and three more.\<close>

record SubmitRequest = RunConfig +
  sq_TenantID :: string
  sq_ProjectID :: string
  sq_Runner :: runner_map

record opt_run_data =
  rd_DatasetID :: string
  rd_KnowledgeBaseID :: string
  rd_Objective :: ObjectiveSpec
  rd_SearchSpace :: SearchSpace
  rd_Config :: RunConfig
  rd_Runner :: runner_map
  rd_HoldoutGate :: HoldoutGateResult
  rd_SamplingStrategy :: SearchStrategy
  rd_SearchSpaceSize :: int
  rd_SampledCandidateCount :: int
  rd_CompletedCandidateCount :: int
  rd_TempNamespaces :: "TempNamespace list"
  rd_CostUSD :: float64
  rd_CostBudgetUSD :: "float64 option"
  rd_CreatedAt :: gotime

record opt_candidate_data =
  cd_EvaluationRunID :: string
  cd_ObjectiveScore :: float64
  cd_HoldoutScore :: "float64 option"
  cd_HoldoutGate :: HoldoutGateResult
  cd_Confidence :: metric_map
  cd_Metrics :: metric_map
  cd_CostUSD :: float64
  cd_TempNamespaces :: "TempNamespace list"
  cd_CleanupStatus :: CleanupStatus
  cd_ExpiresAt :: "gotime option"
  cd_Error :: string
  cd_CreatedAt :: gotime

type_synonym opt_run = "opt_run_data OptimizationRun"
type_synonym opt_candidate = "opt_candidate_data OptimizationCandidate"
type_synonym 'h opt_repo = "(opt_run_data, opt_candidate_data, 'h) OptMemoryRepository"

record CandidateRunRequest =
  crq_TenantID :: string
  crq_DatasetID :: string
  crq_KnowledgeBaseID :: string
  crq_Candidate :: CandidateConfig
  crq_Profile :: Profile
  crq_TopK :: int
  crq_NamespaceTTL :: duration
  crq_Phase :: string
  crq_Split :: string
  crq_HoldoutGate :: "HoldoutGateConfig option"

record CandidateRunResult =
  crs_EvaluationRunID :: string
  crs_Metrics :: metric_map
  crs_HoldoutGate :: HoldoutGateResult
  crs_TempNamespaces :: "TempNamespace list"
  crs_CleanupStatus :: CleanupStatus

datatype opt_service_error =
    OptNotFound | OptStateConflict string | OptRepoError opt_error | OptRunnerError string | OptLimiterError string
  | OptCleanupError string | OptObjectiveError objective_error | OptSearchError | OptMissingSplit | OptGateFailed string
  | OptResumeChanges string

definition PhaseSelection :: string where
  "PhaseSelection = ''selection''"

definition PhaseHoldout :: string where
  "PhaseHoldout = ''holdout''"

section \<open>Stored configurations\<close>

definition runConfigRunnerKey :: string where
  "runConfigRunnerKey = ''run_config''"

definition RunConfigFromSubmitRequest :: "SubmitRequest \<Rightarrow> RunConfig" where
  "RunConfigFromSubmitRequest q = RunConfig.truncate q"

definition cloneRunner :: "runner_map \<Rightarrow> runner_map" where
  "cloneRunner m = filter (\<lambda>(k, v). k \<noteq> runConfigRunnerKey) m"

definition config_SubmitRequest :: "RunConfig \<Rightarrow> string \<Rightarrow> runner_map \<Rightarrow> SubmitRequest" where
  "config_SubmitRequest cfg tenantID runner = RunConfig.extend cfg (SubmitRequest.fields tenantID [] (cloneRunner runner))"

definition stringFromRunner :: "runner_map \<Rightarrow> string \<Rightarrow> string option" where
  "stringFromRunner m k = (case map_of m k of Some (RVString s) \<Rightarrow> Some s | _ \<Rightarrow> None)"

text \<open>\<^verbatim>\<open>int(v)\<close> of a floating-point number that does not fit is the smallest integer, as on amd64.\<close>

fun int_of_float64 :: "float64 \<Rightarrow> int" where
  "int_of_float64 (Fin x) = (if - (2 ^ 63) \<le> trunc x \<and> trunc x < 2 ^ 63 then trunc x else - (2 ^ 63))"
| "int_of_float64 _ = - (2 ^ 63)"

definition intFromRunner :: "runner_map \<Rightarrow> string \<Rightarrow> int option" where
  "intFromRunner m k =
     (case map_of m k of
        Some (RVInt n) \<Rightarrow> Some n
      | Some (RVFloat x) \<Rightarrow> Some (int_of_float64 x)
      | Some (RVNumber n) \<Rightarrow> n
      | _ \<Rightarrow> None)"

definition zero_config :: RunConfig where
  "zero_config =
     \<lparr>cfg_DatasetID = [], cfg_KnowledgeBaseID = [],
      cfg_Objective = \<lparr>os_Maximize = [], os_Constraints = [], os_TieBreakers = [], os_Budget = \<lparr>bs_LatencyP95LimitMS = Fin 0, bs_CostLimitUSD = Fin 0\<rparr>,
        os_BaselineID = [], os_SignificanceAlpha = Fin 0\<rparr>,
      cfg_SearchSpace = \<lparr>ss_Prompts = [], ss_Chunking = \<lparr>cs_Enabled = False, cs_SizeTokens = [], cs_OverlapTokens = [], cs_ParserMethods = []\<rparr>,
        ss_Embedding = \<lparr>es_Enabled = False, es_Models = [], es_Dimensions = []\<rparr>,
        ss_Reranker = \<lparr>rs_Providers = [], rs_Models = [], rs_TopN = [], rs_ProviderModels = []\<rparr>,
        ss_Retrieval = \<lparr>rts_DenseTopK = [], rts_SparseTopK = [], rts_RRFK = [], rts_SemanticCacheThresholds = []\<rparr>,
        ss_Graph = \<lparr>gs_QueryRewriteEnabled = [], gs_HyDEEnabled = [], gs_MultiQueryCount = [], gs_Modules = []\<rparr>, ss_Harness = []\<rparr>,
      cfg_Search = \<lparr>sp_Strategy = StrategyUnset, sp_MaxCandidates = 0, sp_Seed = 0, sp_RunID = [], sp_LargeSpaceWarningThreshold = 0,
        sp_Halving = \<lparr>hs_InitialDatasetFraction = Fin 0, hs_ReductionFactor = 0, hs_MinSurvivors = 0\<rparr>\<rparr>,
      cfg_Budget = \<lparr>ob_MaxJudgeCalls = 0, ob_MaxCostUSD = Fin 0, ob_MaxWallTimeSeconds = 0, ob_MaxWallTime = 0\<rparr>,
      cfg_Profile = [], cfg_TopK = 0, cfg_NamespaceTTL = 0, cfg_SelectionSplit = [], cfg_HoldoutSplit = [],
      cfg_HoldoutGate = \<lparr>hg_Enabled = False, hg_MinSampleCount = 0, hg_MinWeightedSampleCount = Fin 0, hg_QualityMetric = [], hg_MinQuality = Fin 0\<rparr>\<rparr>"

definition config_IsZero :: "RunConfig \<Rightarrow> bool" where
  "config_IsZero cfg \<longleftrightarrow> cfg = zero_config"

definition isEmptySubmitRequest :: "SubmitRequest \<Rightarrow> bool" where
  "isEmptySubmitRequest q \<longleftrightarrow> sq_Runner q = [] \<and> config_IsZero (RunConfigFromSubmitRequest q)"

definition storedConfig :: "opt_run \<Rightarrow> RunConfig" where
  "storedConfig run =
     (let d = run_Data run; cfg = rd_Config d
      in if config_IsZero cfg then
           let cfg = zero_config\<lparr>cfg_DatasetID := rd_DatasetID d, cfg_KnowledgeBaseID := rd_KnowledgeBaseID d, cfg_Objective := rd_Objective d,
                 cfg_SearchSpace := rd_SearchSpace d\<rparr>;
               cfg = (case stringFromRunner (rd_Runner d) ''profile'' of Some p \<Rightarrow> cfg\<lparr>cfg_Profile := p\<rparr> | None \<Rightarrow> cfg)
           in case intFromRunner (rd_Runner d) ''top_k'' of Some n \<Rightarrow> cfg\<lparr>cfg_TopK := n\<rparr> | None \<Rightarrow> cfg
         else let cfg = (if cfg_DatasetID cfg = [] then cfg\<lparr>cfg_DatasetID := rd_DatasetID d\<rparr> else cfg)
              in if cfg_KnowledgeBaseID cfg = [] then cfg\<lparr>cfg_KnowledgeBaseID := rd_KnowledgeBaseID d\<rparr> else cfg)"

definition StoredSubmitRequest :: "opt_run \<Rightarrow> SubmitRequest" where
  "StoredSubmitRequest run = (config_SubmitRequest (storedConfig run) (run_TenantID run) (rd_Runner (run_Data run)))\<lparr>sq_ProjectID := run_ProjectID run\<rparr>"

definition changedResumeConfigField :: "RunConfig \<Rightarrow> RunConfig \<Rightarrow> string" where
  "changedResumeConfigField stored requested =
     (if cfg_DatasetID stored \<noteq> cfg_DatasetID requested then ''dataset_id''
      else if cfg_KnowledgeBaseID stored \<noteq> cfg_KnowledgeBaseID requested then ''knowledge_base_id''
      else if cfg_Objective stored \<noteq> cfg_Objective requested then ''objective''
      else if cfg_SearchSpace stored \<noteq> cfg_SearchSpace requested then ''search_space''
      else if cfg_Search stored \<noteq> cfg_Search requested then ''search''
      else if cfg_Profile stored \<noteq> cfg_Profile requested then ''profile''
      else if cfg_TopK stored \<noteq> cfg_TopK requested then ''top_k''
      else if cfg_NamespaceTTL stored \<noteq> cfg_NamespaceTTL requested then ''namespace_ttl''
      else if cfg_SelectionSplit stored \<noteq> cfg_SelectionSplit requested then ''selection_split''
      else if cfg_HoldoutSplit stored \<noteq> cfg_HoldoutSplit requested then ''holdout_split''
      else if cfg_HoldoutGate stored \<noteq> cfg_HoldoutGate requested then ''holdout_gate''
      else [])"

definition validateResumeConfigInvariant :: "opt_run \<Rightarrow> SubmitRequest \<Rightarrow> opt_service_error option" where
  "validateResumeConfigInvariant run q =
     (if run_ProjectID run \<noteq> [] \<and> sq_ProjectID q \<noteq> [] \<and> run_ProjectID run \<noteq> sq_ProjectID q then Some (OptResumeChanges ''project_id'')
      else let field = changedResumeConfigField (storedConfig run) (RunConfigFromSubmitRequest q)
           in if field \<noteq> [] then Some (OptResumeChanges field) else None)"

definition costBudget :: "SubmitRequest \<Rightarrow> float64 option" where
  "costBudget q =
     (if flt (Fin 0) (ob_MaxCostUSD (cfg_Budget q)) then Some (ob_MaxCostUSD (cfg_Budget q))
      else if flt (Fin 0) (bs_CostLimitUSD (os_Budget (cfg_Objective q))) then Some (bs_CostLimitUSD (os_Budget (cfg_Objective q)))
      else None)"

definition selectionSplit :: "SubmitRequest \<Rightarrow> string" where
  "selectionSplit q = (if cfg_SelectionSplit q \<noteq> [] then cfg_SelectionSplit q else ''eval'')"

definition isCandidateComplete :: "CandidateStatus \<Rightarrow> bool" where
  "isCandidateComplete st \<longleftrightarrow>
     st = CandidateStatusScored \<or> st = CandidateStatusPromoted \<or> st = CandidateStatusHoldoutEvaluated \<or> st = CandidateStatusCleanupDone"

definition isResumableRunStatus :: "RunStatus \<Rightarrow> bool" where
  "isResumableRunStatus st \<longleftrightarrow> st = RunStatusFailed \<or> st = RunStatusCanceled \<or> st = RunStatusBudgetStopped"

section \<open>The hold-out gate\<close>

definition holdoutGateForPhase :: "SubmitRequest \<Rightarrow> string \<Rightarrow> HoldoutGateConfig option" where
  "holdoutGateForPhase q phase = (if phase \<noteq> PhaseHoldout \<or> \<not> hg_Enabled (cfg_HoldoutGate q) then None else Some (cfg_HoldoutGate q))"

text \<open>The run result the gate is evaluated on: what the metrics of the candidate say, everything else zero.\<close>

definition gate_run :: "metric_map \<Rightarrow> string \<Rightarrow> RunResult" where
  "gate_run metrics split =
     (let m = gget0 (Fin 0) metrics;
          snapshot = \<lparr>dn_DatasetID = [], dn_Version = [], dn_Split = [], dn_Items = [], dn_ContentHash = [], dn_ItemCount = 0\<rparr>
      in \<lparr>rr_ID = [], rr_Total = int_of_float64 (m ''unweighted_sample_count''), rr_WeightedSampleCount = m ''weighted_sample_count'',
          rr_UnweightedSampleCount = int_of_float64 (m ''unweighted_sample_count''), rr_Split = split,
          rr_MissingSplit = flt (Fin 0) (m ''missing_split''), rr_Metrics = metrics, rr_DatasetSnapshot = snapshot,
          rr_Manifest = \<lparr>em_SchemaVersion = [], em_CodeVersion = [], em_CodeCommit = [], em_Dataset = snapshot, em_KnowledgeBaseID = [],
            em_ProjectID = [], em_Profile = [], em_TopK = 0, em_ScopedShadowItemID = [], em_JudgeConfigHash = [], em_QAGConfigHash = [],
            em_PairwiseConfigHash = []\<rparr>,
          rr_EvaluationFingerprint = []\<rparr>)"

definition holdoutGateFromCandidate :: "opt_candidate \<Rightarrow> SubmitRequest \<Rightarrow> HoldoutGateResult" where
  "holdoutGateFromCandidate c q =
     (if hr_Enabled (cd_HoldoutGate (oc_Data c)) then cd_HoldoutGate (oc_Data c)
      else if \<not> hg_Enabled (cfg_HoldoutGate q) then zero_gate\<lparr>hr_Passed := True\<rparr>
      else EvaluateHoldoutGate (gate_run (cd_Metrics (oc_Data c)) (cfg_HoldoutSplit q)) (cfg_HoldoutGate q))"

definition holdoutGateFailureMessage :: "HoldoutGateResult \<Rightarrow> string" where
  "holdoutGateFailureMessage g =
     (if hr_Reasons g = [] then ''holdout gate failed'' else ''holdout gate failed: '' @ Join (hr_Reasons g) '','')"

section \<open>Programs\<close>

record 'h opt_exec =
  ex_repo :: "'h opt_repo"
  ex_step :: nat
  ex_run :: opt_run

type_synonym ('h, 'a) opt_prog = "'h opt_exec \<Rightarrow> 'h opt_exec \<times> (opt_service_error + 'a)"

text \<open>\<open>ox_lease\<close> is the lease in the context; \<open>ox_error\<close> is the text of an error.\<close>

record 'h opt_env =
  ox_env :: "nat \<Rightarrow> 'h opt_repo \<Rightarrow> 'h opt_repo"
  ox_queue :: "nat \<Rightarrow> queue_env"
  ox_qnow :: "nat \<Rightarrow> gotime"
  ox_clock :: "nat \<Rightarrow> gotime"
  ox_lease :: "ExecutionLease option"
  ox_limiter :: "nat \<Rightarrow> string option"
  ox_runner :: "nat \<Rightarrow> CandidateRunRequest \<Rightarrow> string + CandidateRunResult"
  ox_cleaner :: "(nat \<Rightarrow> string \<Rightarrow> TempNamespace list \<times> string option) option"
  ox_error :: "opt_service_error \<Rightarrow> string"

definition ret :: "'a \<Rightarrow> ('h, 'a) opt_prog" where
  "ret v s = (s, Inr v)"

definition raise :: "opt_service_error \<Rightarrow> ('h, 'a) opt_prog" where
  "raise err s = (s, Inl err)"

definition andThen :: "('h, 'a) opt_prog \<Rightarrow> ('a \<Rightarrow> ('h, 'b) opt_prog) \<Rightarrow> ('h, 'b) opt_prog" where
  "andThen f g s = (case f s of (s', Inl err) \<Rightarrow> (s', Inl err) | (s', Inr v) \<Rightarrow> g v s')"

text \<open>\<open>_ = f()\<close>, and \<open>if err := f(); err != nil\<close> followed by a handler.\<close>

definition ignore_error :: "('h, 'a) opt_prog \<Rightarrow> ('h, unit) opt_prog" where
  "ignore_error f s = (fst (f s), Inr ())"

definition on_error :: "('h, 'a) opt_prog \<Rightarrow> (opt_service_error \<Rightarrow> ('h, 'a) opt_prog) \<Rightarrow> ('h, 'a) opt_prog" where
  "on_error f handler s = (case f s of (s', Inl err) \<Rightarrow> handler err s' | (s', Inr v) \<Rightarrow> (s', Inr v))"

definition the_run :: "('h, opt_run) opt_prog" where
  "the_run s = (s, Inr (ex_run s))"

definition modify_run :: "(opt_run \<Rightarrow> opt_run) \<Rightarrow> ('h, unit) opt_prog" where
  "modify_run f s = (s\<lparr>ex_run := f (ex_run s)\<rparr>, Inr ())"

definition tick :: "(nat \<Rightarrow> 'a) \<Rightarrow> ('h, 'a) opt_prog" where
  "tick f s = (s\<lparr>ex_step := Suc (ex_step s)\<rparr>, Inr (f (ex_step s)))"

definition repo_call :: "'h opt_env \<Rightarrow> (nat \<Rightarrow> 'h opt_repo \<Rightarrow> 'h opt_repo \<times> (opt_error + 'a)) \<Rightarrow> ('h, 'a) opt_prog" where
  "repo_call x f s =
     (let i = ex_step s; (r, res) = f i (ox_env x i (ex_repo s))
      in (s\<lparr>ex_repo := r, ex_step := Suc i\<rparr>, map_sum OptRepoError id res))"

section \<open>Transitions\<close>

definition load_run :: "'h opt_env \<Rightarrow> string \<Rightarrow> string \<Rightarrow> ('h, opt_run option) opt_prog" where
  "load_run x tenantID runID = repo_call x (\<lambda>i r. (r, Inr (GetOptimizationRun tenantID runID r)))"

definition load_candidates :: "'h opt_env \<Rightarrow> string \<Rightarrow> string \<Rightarrow> ('h, opt_candidate list) opt_prog" where
  "load_candidates x tenantID runID = repo_call x (\<lambda>i r. (r, Inr (ListOptimizationCandidates tenantID runID r)))"

definition save_run :: "'h opt_env \<Rightarrow> ('h, unit) opt_prog" where
  "save_run x = andThen the_run (\<lambda>run. repo_call x (\<lambda>i. UpdateOptimizationRun (ox_qnow x i) (ox_queue x i) (ox_lease x) run))"

definition set_status :: "RunStatus \<Rightarrow> string \<Rightarrow> string \<Rightarrow> gotime \<Rightarrow> opt_run \<Rightarrow> opt_run" where
  "set_status st stage reason now run =
     run\<lparr>run_Status := st, run_StatusReason := reason,
         run_Checkpoint := (run_Checkpoint run)\<lparr>cp_Stage := stage, cp_StatusReason := reason\<rparr>, run_UpdatedAt := now\<rparr>"

definition transitionRun :: "'h opt_env \<Rightarrow> RunStatus \<Rightarrow> string \<Rightarrow> string \<Rightarrow> ('h, unit) opt_prog" where
  "transitionRun x st stage reason =
     andThen (tick (ox_clock x)) (\<lambda>now. andThen (modify_run (set_status st stage reason now)) (\<lambda>_. save_run x))"

definition claimRun :: "'h opt_env \<Rightarrow> RunStatus \<Rightarrow> RunStatus \<Rightarrow> string \<Rightarrow> string \<Rightarrow> ('h, unit) opt_prog" where
  "claimRun x expected st stage reason =
     andThen (tick (ox_clock x)) (\<lambda>now.
     andThen (modify_run (set_status st stage reason now)) (\<lambda>_.
     andThen the_run (\<lambda>run.
     andThen (repo_call x (\<lambda>i. CompareAndSwapOptimizationRun (ox_qnow x i) (ox_queue x i) (ox_lease x) run expected)) (\<lambda>swapped.
     if swapped then ret () else raise (OptStateConflict (run_ID run))))))"

definition save_candidate :: "'h opt_env \<Rightarrow> opt_candidate \<Rightarrow> ('h, unit) opt_prog" where
  "save_candidate x c = repo_call x (\<lambda>i. UpdateOptimizationCandidate (ox_qnow x i) (ox_queue x i) (ox_lease x) c)"

definition transitionCandidate :: "'h opt_env \<Rightarrow> opt_candidate \<Rightarrow> CandidateStatus \<Rightarrow> metric_map option \<Rightarrow> ('h, opt_candidate) opt_prog" where
  "transitionCandidate x c st metrics =
     andThen (tick (ox_clock x)) (\<lambda>now.
       let c' = c\<lparr>oc_Status := st, oc_UpdatedAt := now,
                  oc_Data := (case metrics of None \<Rightarrow> oc_Data c | Some m \<Rightarrow> (oc_Data c)\<lparr>cd_Metrics := m\<rparr>)\<rparr>
       in andThen (save_candidate x c') (\<lambda>_. ret c'))"

definition candidate_startable :: "string \<Rightarrow> CandidateStatus \<Rightarrow> bool" where
  "candidate_startable phase st \<longleftrightarrow>
     phase = PhaseSelection \<and> (st = CandidateStatusQueued \<or> st = CandidateStatusFailed) \<or> phase = PhaseHoldout \<and> st = CandidateStatusScored"

definition claimCandidate :: "'h opt_env \<Rightarrow> opt_candidate \<Rightarrow> string \<Rightarrow> ('h, opt_candidate) opt_prog" where
  "claimCandidate x c phase =
     (if \<not> candidate_startable phase (oc_Status c) then raise (OptStateConflict (oc_ID c))
      else andThen (tick (ox_clock x)) (\<lambda>now.
        let c' = c\<lparr>oc_Status := CandidateStatusRunning, oc_UpdatedAt := now, oc_Data := (oc_Data c)\<lparr>cd_Error := []\<rparr>\<rparr>
        in andThen (repo_call x (\<lambda>i. CompareAndSwapOptimizationCandidate (ox_qnow x i) (ox_queue x i) (ox_lease x) c' (oc_Status c))) (\<lambda>swapped.
           if swapped then ret c' else raise (OptStateConflict (oc_ID c)))))"

definition opt_failRun :: "'h opt_env \<Rightarrow> opt_service_error \<Rightarrow> ('h, 'a) opt_prog" where
  "opt_failRun x err = andThen (ignore_error (transitionRun x RunStatusFailed ''failed'' (ox_error x err))) (\<lambda>_. raise err)"

text \<open>\<open>True\<close> where the execution stops; the shared run becomes the stored one.\<close>

definition stop_reason :: "SubmitRequest \<Rightarrow> opt_run \<Rightarrow> (RunStatus \<times> string \<times> string) option" where
  "stop_reason q run =
     (if run_CancelRequestedAt run \<noteq> None \<or> run_Status run = RunStatusCanceling then Some (RunStatusCanceled, ''canceled'', run_StatusReason run)
      else if ob_MaxJudgeCalls (cfg_Budget q) > 0 \<and> cp_JudgeCalls (run_Checkpoint run) \<ge> ob_MaxJudgeCalls (cfg_Budget q)
      then Some (RunStatusBudgetStopped, ''budget_stopped'', ''max judge calls reached'')
      else if flt (Fin 0) (ob_MaxCostUSD (cfg_Budget q)) \<and> fle (ob_MaxCostUSD (cfg_Budget q)) (rd_CostUSD (run_Data run))
      then Some (RunStatusBudgetStopped, ''budget_stopped'', ''max cost reached'')
      else None)"

definition shouldStop :: "'h opt_env \<Rightarrow> SubmitRequest \<Rightarrow> gotime \<Rightarrow> bool \<Rightarrow> ('h, bool) opt_prog" where
  "shouldStop x q started checkWallTime =
     andThen the_run (\<lambda>run.
     andThen (load_run x (run_TenantID run) (run_ID run)) (\<lambda>current.
     case current of
       None \<Rightarrow> ret False
     | Some run \<Rightarrow>
         andThen (modify_run (\<lambda>_. run)) (\<lambda>_.
         case stop_reason q run of
           Some (st, stage, reason) \<Rightarrow> andThen (transitionRun x st stage reason) (\<lambda>_. ret True)
         | None \<Rightarrow>
             if checkWallTime \<and> wallTime (cfg_Budget q) > 0
             then andThen (tick (ox_clock x)) (\<lambda>now.
                    if now - started \<ge> wallTime (cfg_Budget q)
                    then andThen (transitionRun x RunStatusBudgetStopped ''budget_stopped'' ''max wall time reached'') (\<lambda>_. ret True)
                    else ret False)
             else ret False)))"

definition merge_control :: "opt_run \<Rightarrow> opt_run \<Rightarrow> opt_run" where
  "merge_control current run =
     (if run_CancelRequestedAt current \<noteq> None \<or> run_Status current = RunStatusCanceling \<or> run_Status current = RunStatusCanceled
      then run\<lparr>run_Status := run_Status current, run_StatusReason := run_StatusReason current, run_CancelRequestedAt := run_CancelRequestedAt current,
               run_Checkpoint := (run_Checkpoint run)\<lparr>cp_CancelRequestedAt := cp_CancelRequestedAt (run_Checkpoint current),
                 cp_StatusReason := cp_StatusReason (run_Checkpoint current)\<rparr>\<rparr>
      else run)"

definition mergeCurrentRunControlState :: "'h opt_env \<Rightarrow> ('h, unit) opt_prog" where
  "mergeCurrentRunControlState x =
     andThen the_run (\<lambda>run.
     andThen (load_run x (run_TenantID run) (run_ID run)) (\<lambda>current.
     case current of None \<Rightarrow> ret () | Some cur \<Rightarrow> modify_run (merge_control cur)))"

section \<open>One candidate\<close>

definition run_request :: "opt_run \<Rightarrow> opt_candidate \<Rightarrow> SubmitRequest \<Rightarrow> string \<Rightarrow> string \<Rightarrow> CandidateRunRequest" where
  "run_request run c q phase split =
     \<lparr>crq_TenantID = run_TenantID run, crq_DatasetID = rd_DatasetID (run_Data run), crq_KnowledgeBaseID = rd_KnowledgeBaseID (run_Data run),
      crq_Candidate = oc_Config c, crq_Profile = cfg_Profile q, crq_TopK = cfg_TopK q, crq_NamespaceTTL = cfg_NamespaceTTL q,
      crq_Phase = phase, crq_Split = split, crq_HoldoutGate = holdoutGateForPhase q phase\<rparr>"

definition with_result :: "CandidateRunResult \<Rightarrow> opt_candidate \<Rightarrow> opt_candidate" where
  "with_result res c =
     c\<lparr>oc_Data := (oc_Data c)\<lparr>cd_EvaluationRunID := crs_EvaluationRunID res, cd_Metrics := crs_Metrics res, cd_HoldoutGate := crs_HoldoutGate res,
       cd_CostUSD := gget0 (Fin 0) (crs_Metrics res) ''cost_usd'', cd_TempNamespaces := crs_TempNamespaces res,
       cd_CleanupStatus := crs_CleanupStatus res,
       cd_ExpiresAt := (case crs_TempNamespaces res of n # _ \<Rightarrow> Some (tn_ExpiresAt n) | [] \<Rightarrow> cd_ExpiresAt (oc_Data c))\<rparr>\<rparr>"

definition account :: "opt_candidate \<Rightarrow> string \<Rightarrow> gotime \<Rightarrow> opt_run \<Rightarrow> opt_run" where
  "account c phase now run =
     (let cost = fadd (rd_CostUSD (run_Data run)) (cd_CostUSD (oc_Data c));
          cp = (run_Checkpoint run)\<lparr>cp_CostUSD := cost, cp_JudgeCalls := cp_JudgeCalls (run_Checkpoint run) + 1\<rparr>;
          cp = (if phase = PhaseSelection then markCompleted (oc_ID c) cp else cp);
          d = (run_Data run)\<lparr>rd_CostUSD := cost, rd_TempNamespaces := rd_TempNamespaces (run_Data run) @ cd_TempNamespaces (oc_Data c)\<rparr>;
          d = (if phase = PhaseSelection then d\<lparr>rd_CompletedCandidateCount := rd_CompletedCandidateCount d + 1\<rparr> else d)
      in run\<lparr>run_Data := d, run_Checkpoint := cp, run_UpdatedAt := now\<rparr>)"

definition runCandidate :: "'h opt_env \<Rightarrow> SubmitRequest \<Rightarrow> string \<Rightarrow> string \<Rightarrow> opt_candidate \<Rightarrow> ('h, opt_candidate) opt_prog" where
  "runCandidate x q phase split c0 =
     andThen (claimCandidate x c0 phase) (\<lambda>c.
     andThen (tick (ox_limiter x)) (\<lambda>waited.
     case waited of
       Some err \<Rightarrow> raise (OptLimiterError err)
     | None \<Rightarrow>
         andThen the_run (\<lambda>run.
         andThen (tick (\<lambda>i. ox_runner x i (run_request run c q phase split))) (\<lambda>result.
         case result of
           Inl err \<Rightarrow>
             andThen (ignore_error (transitionCandidate x (c\<lparr>oc_Data := (oc_Data c)\<lparr>cd_Error := err\<rparr>\<rparr>) CandidateStatusFailed None)) (\<lambda>_.
             raise (OptRunnerError err))
         | Inr res \<Rightarrow>
             andThen (transitionCandidate x (with_result res c) CandidateStatusEvaluated None) (\<lambda>c.
             andThen (transitionCandidate x c CandidateStatusJudged None) (\<lambda>c.
             andThen (tick (ox_clock x)) (\<lambda>now.
             andThen (modify_run (account c phase now)) (\<lambda>_.
             andThen (mergeCurrentRunControlState x) (\<lambda>_.
             andThen (save_run x) (\<lambda>_. ret c))))))))))"

section \<open>Selection, hold-out, clean-up\<close>

definition scorable :: "opt_candidate \<Rightarrow> bool" where
  "scorable c \<longleftrightarrow> \<not> (oc_Status c = CandidateStatusFailed \<or> oc_Status c = CandidateStatusQueued \<or> oc_Status c = CandidateStatusRunning)"

definition candidate_input :: "opt_candidate \<Rightarrow> CandidateInput" where
  "candidate_input c =
     \<lparr>cin_ID = oc_ID c, cin_Metrics = cd_Metrics (oc_Data c), cin_Pairwise = [], cin_CreatedAt = cd_CreatedAt (oc_Data c)\<rparr>"

definition set_best :: "string \<Rightarrow> opt_run \<Rightarrow> opt_run" where
  "set_best i run = run\<lparr>run_BestCandidateID := i, run_Checkpoint := (run_Checkpoint run)\<lparr>cp_BestCandidateID := i\<rparr>\<rparr>"

text \<open>An identifier that is in no candidate reads the zero value of the map, which cannot happen for a score.\<close>

fun score_loop :: "'h opt_env \<Rightarrow> SubmitRequest \<Rightarrow> string option \<Rightarrow> (string, opt_candidate) gomap \<Rightarrow> CandidateScore list \<Rightarrow> ('h, unit) opt_prog" where
  "score_loop x q best byID [] = ret ()"
| "score_loop x q best byID (sc # scs) =
     (case map_of byID (sc_ID sc) of
        None \<Rightarrow> score_loop x q best byID scs
      | Some c \<Rightarrow>
          let c = c\<lparr>oc_Data := (oc_Data c)\<lparr>cd_ObjectiveScore := sc_Score sc,
                cd_Confidence := (if sc_HasPairwiseOutcomes sc then [(''pairwise_win_rate'', sc_PairwiseWinRate sc)] else [])\<rparr>\<rparr>;
              is_best = (Some (sc_ID sc) = best);
              st = (if is_best \<and> cfg_HoldoutSplit q = [] then CandidateStatusPromoted else CandidateStatusScored)
          in andThen (modify_run (if is_best then set_best (sc_ID sc) else id)) (\<lambda>_.
             andThen (transitionCandidate x c st (Some (sc_Metrics sc))) (\<lambda>_.
             score_loop x q best byID scs)))"

definition touch_and_save :: "'h opt_env \<Rightarrow> ('h, unit) opt_prog" where
  "touch_and_save x = andThen (tick (ox_clock x)) (\<lambda>now. andThen (modify_run (\<lambda>run. run\<lparr>run_UpdatedAt := now\<rparr>)) (\<lambda>_. save_run x))"

definition scoreAndPromote :: "'h opt_env \<Rightarrow> SubmitRequest \<Rightarrow> ('h, unit) opt_prog" where
  "scoreAndPromote x q =
     (if hg_Enabled (cfg_HoldoutGate q) \<and> TrimSpace (cfg_HoldoutSplit q) = [] then raise OptMissingSplit
      else andThen the_run (\<lambda>run.
           andThen (load_candidates x (run_TenantID run) (run_ID run)) (\<lambda>cs.
           let done_cs = filter scorable cs; byID = fold (\<lambda>c. gput (oc_ID c) c) done_cs []
           in case EvaluateObjective (cfg_Objective q) (map candidate_input done_cs) of
                Inl err \<Rightarrow> raise (OptObjectiveError err)
              | Inr result \<Rightarrow>
                  andThen (score_loop x q (map_option sc_ID (or_Best result)) byID (or_Candidates result)) (\<lambda>_. touch_and_save x))))"

definition cleanupCandidate :: "'h opt_env \<Rightarrow> opt_candidate \<Rightarrow> ('h, unit) opt_prog" where
  "cleanupCandidate x c =
     (if cd_CleanupStatus (oc_Data c) \<noteq> CleanupPending then ret ()
      else andThen (case ox_cleaner x of None \<Rightarrow> ret c | Some clean \<Rightarrow>
             andThen (tick (\<lambda>i. clean i (oc_ID c))) (\<lambda>(namespaces, err).
             case err of
               None \<Rightarrow> ret (c\<lparr>oc_Data := (oc_Data c)\<lparr>cd_TempNamespaces := namespaces\<rparr>\<rparr>)
             | Some e \<Rightarrow>
                 andThen (ignore_error (save_candidate x (c\<lparr>oc_Data := (oc_Data c)\<lparr>cd_CleanupStatus := CleanupFailed,
                   cd_TempNamespaces := namespaces\<rparr>\<rparr>))) (\<lambda>_. raise (OptCleanupError e))))
           (\<lambda>c. andThen (transitionCandidate x (c\<lparr>oc_Data := (oc_Data c)\<lparr>cd_CleanupStatus := CleanupDone\<rparr>\<rparr>) CandidateStatusCleanupDone None)
                (\<lambda>_. ret ())))"

fun cleanup_loop :: "'h opt_env \<Rightarrow> opt_candidate list \<Rightarrow> ('h, unit) opt_prog" where
  "cleanup_loop x [] = ret ()"
| "cleanup_loop x (c # cs) =
     (if cd_CleanupStatus (oc_Data c) \<noteq> CleanupPending then cleanup_loop x cs
      else andThen (cleanupCandidate x c) (\<lambda>_. cleanup_loop x cs))"

definition cleanupPendingCandidates :: "'h opt_env \<Rightarrow> ('h, unit) opt_prog" where
  "cleanupPendingCandidates x =
     andThen the_run (\<lambda>run. andThen (load_candidates x (run_TenantID run) (run_ID run)) (cleanup_loop x))"

definition holdout_score :: "SubmitRequest \<Rightarrow> opt_candidate \<Rightarrow> float64" where
  "holdout_score q c =
     (let m = TrimSpace (os_Maximize (cfg_Objective q));
          m = (if m = [] then defaultObjectiveMetric [candidate_input c] else m)
      in gget0 (Fin 0) (cd_Metrics (oc_Data c)) m)"

definition set_holdout :: "string \<Rightarrow> HoldoutGateResult \<Rightarrow> opt_run \<Rightarrow> opt_run" where
  "set_holdout i gate run =
     run\<lparr>run_HoldoutCandidateID := i, run_Checkpoint := (run_Checkpoint run)\<lparr>cp_HoldoutCandidateID := i\<rparr>,
         run_Data := (run_Data run)\<lparr>rd_HoldoutGate := gate\<rparr>\<rparr>"

definition set_gate_failed :: "HoldoutGateResult \<Rightarrow> opt_run \<Rightarrow> opt_run" where
  "set_gate_failed gate run =
     run\<lparr>run_Data := (run_Data run)\<lparr>rd_HoldoutGate := gate\<rparr>,
         run_Checkpoint := (run_Checkpoint run)\<lparr>cp_StatusReason := holdoutGateFailureMessage gate\<rparr>\<rparr>"

definition runHoldout :: "'h opt_env \<Rightarrow> SubmitRequest \<Rightarrow> ('h, unit) opt_prog" where
  "runHoldout x q =
     andThen the_run (\<lambda>run.
     andThen (load_candidates x (run_TenantID run) (run_ID run)) (\<lambda>cs.
     case find (\<lambda>c. oc_ID c = run_BestCandidateID run) cs of
       None \<Rightarrow> ret ()
     | Some c \<Rightarrow>
         andThen (runCandidate x q PhaseHoldout (cfg_HoldoutSplit q) c) (\<lambda>c.
         let gate = holdoutGateFromCandidate c q;
             c = c\<lparr>oc_Data := (oc_Data c)\<lparr>cd_HoldoutScore := Some (holdout_score q c), cd_HoldoutGate := gate\<rparr>\<rparr>
         in if \<not> hr_Passed gate
            then andThen (modify_run (set_gate_failed gate)) (\<lambda>_.
                 andThen (ignore_error (save_run x)) (\<lambda>_. raise (OptGateFailed (holdoutGateFailureMessage gate))))
            else andThen (modify_run (set_holdout (oc_ID c) gate)) (\<lambda>_.
                 andThen (transitionCandidate x c CandidateStatusHoldoutEvaluated None) (\<lambda>c.
                 andThen (transitionCandidate x c CandidateStatusPromoted None) (\<lambda>c.
                 andThen (cleanupCandidate x c) (\<lambda>_. touch_and_save x)))))))"

section \<open>The execution of a run\<close>

text \<open>\<open>True\<close> where the execution was stopped.\<close>

fun select_loop :: "'h opt_env \<Rightarrow> SubmitRequest \<Rightarrow> gotime \<Rightarrow> string list \<Rightarrow> opt_candidate list \<Rightarrow> ('h, bool) opt_prog" where
  "select_loop x q started completed [] = ret False"
| "select_loop x q started completed (c # cs) =
     (if List.member completed (oc_ID c) \<or> isCandidateComplete (oc_Status c) then select_loop x q started completed cs
      else andThen (shouldStop x q started True) (\<lambda>stop. if stop then ret True else
           andThen (on_error (andThen (runCandidate x q PhaseSelection (selectionSplit q) c) (\<lambda>_. ret ())) (\<lambda>err.
             andThen (modify_run (\<lambda>run. run\<lparr>run_Checkpoint := markFailed (oc_ID c) (run_Checkpoint run)\<rparr>)) (\<lambda>_. opt_failRun x err))) (\<lambda>_.
           andThen (shouldStop x q started False) (\<lambda>stop. if stop then ret True else select_loop x q started completed cs))))"

definition finish_run :: "'h opt_env \<Rightarrow> SubmitRequest \<Rightarrow> ('h, unit) opt_prog" where
  "finish_run x q =
     andThen the_run (\<lambda>run.
     if run_Status run = RunStatusCanceled \<or> run_Status run = RunStatusBudgetStopped then ret ()
     else
     andThen (if run_BestCandidateID run = [] then on_error (scoreAndPromote x q) (opt_failRun x) else ret ()) (\<lambda>_.
     andThen the_run (\<lambda>run.
     andThen (if cfg_HoldoutSplit q \<noteq> [] \<and> run_BestCandidateID run \<noteq> [] \<and> run_HoldoutCandidateID run = []
              then on_error (runHoldout x q) (opt_failRun x) else ret ()) (\<lambda>_.
     andThen (on_error (cleanupPendingCandidates x) (opt_failRun x)) (\<lambda>_.
     andThen the_run (\<lambda>run.
     if run_Status run \<noteq> RunStatusBudgetStopped \<and> run_Status run \<noteq> RunStatusCanceled
     then transitionRun x RunStatusCompleted ''completed'' [] else ret ()))))))"

definition opt_run_exec :: "'h opt_env \<Rightarrow> string \<Rightarrow> SubmitRequest \<Rightarrow> ('h, unit) opt_prog" where
  "opt_run_exec x runID q =
     andThen (load_run x (sq_TenantID q) runID) (\<lambda>found.
     case found of
       None \<Rightarrow> ret ()
     | Some run \<Rightarrow>
         andThen (modify_run (\<lambda>_. run)) (\<lambda>_.
         if run_Status run = RunStatusCanceling \<or> run_CancelRequestedAt run \<noteq> None
         then claimRun x (run_Status run) RunStatusCanceled ''canceled'' (run_StatusReason run)
         else if run_Status run \<noteq> RunStatusQueued then raise (OptStateConflict (run_ID run))
         else andThen (tick (ox_clock x)) (\<lambda>started.
              andThen (claimRun x RunStatusQueued RunStatusRunning ''running'' []) (\<lambda>_.
              andThen the_run (\<lambda>run.
              andThen (load_candidates x (sq_TenantID q) (run_ID run)) (\<lambda>cs.
              andThen (select_loop x q started (completedSet (run_Checkpoint run)) cs) (\<lambda>stopped.
              if stopped then ret () else finish_run x q)))))))"

definition RunPending :: "'h opt_env \<Rightarrow> string \<Rightarrow> string \<Rightarrow> SubmitRequest \<Rightarrow> ('h, unit) opt_prog" where
  "RunPending x tenantID runID q0 =
     andThen (if isEmptySubmitRequest q0
              then andThen (load_run x tenantID runID) (\<lambda>found.
                   case found of None \<Rightarrow> raise OptNotFound | Some run \<Rightarrow> ret (StoredSubmitRequest run))
              else ret q0) (\<lambda>q.
     opt_run_exec x runID (if sq_TenantID q = [] then q\<lparr>sq_TenantID := tenantID\<rparr> else q))"

end
