(* ===== verification/OptTask.thy ===== *)
theory OptTask
  imports OptService
begin

text \<open>
  The calls around an execution: submitting, reading, cancelling and resuming a run (\<^verbatim>\<open>optimizer/service.go\<close>), the task
  that carries it through the queue (\<^verbatim>\<open>optimizer/task.go\<close>), the temporary namespaces of candidates
  (\<^verbatim>\<open>optimizer/namespace.go\<close>) and the limiter of their rate (\<^verbatim>\<open>optimizer/ratelimit.go\<close>). \<open>env\<close> is what other callers do
  between two calls of the repository. Decoding the JSON payload of a task is an argument.
\<close>

section \<open>Tasks\<close>

definition OptimizationTaskType :: string where
  "OptimizationTaskType = ''optimization.run''"

definition OptimizationPool :: string where
  "OptimizationPool = ''optimizer''"

definition OptimizationResourceType :: string where
  "OptimizationResourceType = ''optimization_run''"

definition execution_payload :: "string \<Rightarrow> string" where
  "execution_payload runID = json_text (JObject [(''version'', JInt 1), (''run_id'', JString runID)])"

definition NewExecutionTask :: "entropy \<Rightarrow> opt_run \<Rightarrow> gotime \<Rightarrow> Task" where
  "NewExecutionTask b run now =
     (let taskID = id_New ''task'' b
      in \<lparr>t_ID = taskID, t_TenantID = run_TenantID run, t_ProjectID = run_ProjectID run, t_Type = OptimizationTaskType, t_Pool = OptimizationPool,
          t_Status = TaskStatusQueued, t_Payload = execution_payload (run_ID run), t_IdempotencyKey = ''optimization-execution:'' @ taskID,
          t_Attempt = 0, t_MaxAttempts = 3, t_LockedResourceType = OptimizationResourceType, t_LockedResourceID = run_ID run, t_TraceID = [],
          t_CreatedBy = [], t_Priority = 0, t_RunAfter = now, t_CreatedAt = now, t_UpdatedAt = now, t_StartedAt = 0, t_CompletedAt = 0,
          t_ErrorCode = [], t_ErrorMessage = [], t_LastHeartbeatAt = 0, t_LeaseExpiresAt = 0, t_LeaseHolder = [], t_LeaseGeneration = 0\<rparr>)"

text \<open>\<open>decode\<close> reads the version and the run of a payload; \<open>None\<close> for malformed text, unknown fields and trailing data.\<close>

type_synonym payload_decoder = "string \<Rightarrow> (int \<times> string) option"

datatype task_error =
    InvalidTaskType | InvalidTaskResource | InvalidTaskPayload | UnsupportedPayload | ResourceMismatch | TaskNotLeased

definition decodeExecutionTask :: "payload_decoder \<Rightarrow> Task \<Rightarrow> task_error + string" where
  "decodeExecutionTask decode task =
     (if t_Type task \<noteq> OptimizationTaskType \<or> t_Pool task \<noteq> OptimizationPool then Inl InvalidTaskType
      else if t_LockedResourceType task \<noteq> OptimizationResourceType then Inl InvalidTaskResource
      else case decode (t_Payload task) of
        None \<Rightarrow> Inl InvalidTaskPayload
      | Some (version, runID) \<Rightarrow>
          if version \<noteq> 1 \<or> TrimSpace runID = [] then Inl UnsupportedPayload
          else if runID \<noteq> t_LockedResourceID task then Inl ResourceMismatch
          else Inr runID)"

section \<open>Submitting\<close>

definition zero_checkpoint :: Checkpoint where
  "zero_checkpoint =
     \<lparr>cp_Stage = [], cp_CompletedCandidateIDs = [], cp_FailedCandidateIDs = [], cp_BestCandidateID = [], cp_HoldoutCandidateID = [],
      cp_JudgeCalls = 0, cp_CostUSD = Fin 0, cp_LastCandidateID = [], cp_CancelRequestedAt = None, cp_StatusReason = []\<rparr>"

definition new_run :: "string \<Rightarrow> SubmitRequest \<Rightarrow> GridSearchResult \<Rightarrow> gotime \<Rightarrow> opt_run" where
  "new_run runID q search now =
     \<lparr>run_ID = runID, run_TenantID = sq_TenantID q, run_ProjectID = sq_ProjectID q, run_HoldoutSplit = cfg_HoldoutSplit q,
      run_Status = RunStatusQueued, run_StatusReason = [], run_BestCandidateID = [], run_HoldoutCandidateID = [],
      run_Checkpoint = zero_checkpoint\<lparr>cp_Stage := ''submitted''\<rparr>, run_CancelRequestedAt = None, run_CurrentTaskID = [],
      run_ExecutionGeneration = 0, run_UpdatedAt = now,
      run_Data = \<lparr>rd_DatasetID = cfg_DatasetID q, rd_KnowledgeBaseID = cfg_KnowledgeBaseID q, rd_Objective = cfg_Objective q,
        rd_SearchSpace = cfg_SearchSpace q, rd_Config = RunConfigFromSubmitRequest q, rd_Runner = sq_Runner q, rd_HoldoutGate = zero_gate,
        rd_SamplingStrategy = gr_Strategy search, rd_SearchSpaceSize = gr_SearchSpaceSize search,
        rd_SampledCandidateCount = int (length (gr_Candidates search)), rd_CompletedCandidateCount = 0, rd_TempNamespaces = [],
        rd_CostUSD = Fin 0, rd_CostBudgetUSD = costBudget q, rd_CreatedAt = now\<rparr>\<rparr>"

definition new_candidate :: "string \<Rightarrow> gotime \<Rightarrow> CandidateConfig \<Rightarrow> opt_candidate" where
  "new_candidate runID now config =
     \<lparr>oc_ID = cc_ID config, oc_OptimizationRunID = runID, oc_Config = config, oc_Status = CandidateStatusQueued, oc_UpdatedAt = now,
      oc_Data = \<lparr>cd_EvaluationRunID = [], cd_ObjectiveScore = Fin 0, cd_HoldoutScore = None, cd_HoldoutGate = zero_gate, cd_Confidence = [],
        cd_Metrics = [], cd_CostUSD = Fin 0, cd_TempNamespaces = [], cd_CleanupStatus = CleanupNotRequired, cd_ExpiresAt = None, cd_Error = [],
        cd_CreatedAt = now\<rparr>\<rparr>"

definition parked :: "bool \<Rightarrow> gotime \<Rightarrow> Task \<Rightarrow> Task" where
  "parked disableAutoStart now task = (if disableAutoStart then task\<lparr>t_RunAfter := now + 100 * 365 * 24 * Hour\<rparr> else task)"

definition Submit ::
  "(float64 \<Rightarrow> string) \<Rightarrow> rand_source \<Rightarrow> bool \<Rightarrow> entropy \<Rightarrow> entropy \<Rightarrow> (nat \<Rightarrow> entropy) \<Rightarrow> gotime \<Rightarrow> gotime \<Rightarrow> SubmitRequest \<Rightarrow>
   'h opt_repo \<Rightarrow> 'h opt_repo \<times> (opt_service_error + opt_run)" where
  "Submit fmt intn disableAutoStart b1 b2 bs qnow now q r =
     (let runID = id_New ''opt'' b1
      in case GenerateCandidates fmt intn (cfg_SearchSpace q) ((cfg_Search q)\<lparr>sp_RunID := runID\<rparr>) of
           None \<Rightarrow> (r, Inl OptSearchError)
         | Some search \<Rightarrow>
             let run = new_run runID q search now;
                 task = parked disableAutoStart now (NewExecutionTask b2 run now);
                 run = run\<lparr>run_CurrentTaskID := t_ID task\<rparr>
             in case CreateOptimizationRunWithTask bs qnow run (map (new_candidate runID now) (gr_Candidates search)) task r of
                  (r', Inl err) \<Rightarrow> (r', Inl (OptRepoError err))
                | (r', Inr _) \<Rightarrow> (r', Inr run))"

section \<open>Reading, cancelling, resuming\<close>

definition opt_Get ::
  "('h opt_repo \<Rightarrow> 'h opt_repo) \<Rightarrow> string \<Rightarrow> string \<Rightarrow> 'h opt_repo \<Rightarrow> (opt_run \<times> opt_candidate list) option" where
  "opt_Get env tenantID runID r =
     (case GetOptimizationRun tenantID runID r of
        None \<Rightarrow> None
      | Some run \<Rightarrow> Some (run, ListOptimizationCandidates tenantID runID (env r)))"

definition opt_GetInProject ::
  "('h opt_repo \<Rightarrow> 'h opt_repo) \<Rightarrow> string \<Rightarrow> string \<Rightarrow> string \<Rightarrow> 'h opt_repo \<Rightarrow> (opt_run \<times> opt_candidate list) option" where
  "opt_GetInProject env tenantID projectID runID r =
     (case GetOptimizationRunInProject tenantID projectID runID r of
        None \<Rightarrow> None
      | Some run \<Rightarrow> Some (run, ListOptimizationCandidates tenantID runID (env r)))"

definition opt_Cancel ::
  "(nat \<Rightarrow> entropy) \<Rightarrow> gotime \<Rightarrow> queue_env \<Rightarrow> gotime \<Rightarrow> ('h opt_repo \<Rightarrow> 'h opt_repo) \<Rightarrow> string \<Rightarrow> string \<Rightarrow> string \<Rightarrow>
   'h opt_repo \<Rightarrow> 'h opt_repo \<times> (opt_service_error + opt_run)" where
  "opt_Cancel bs qnow queue now env tenantID runID reason r0 =
     (case GetOptimizationRun tenantID runID r0 of
        None \<Rightarrow> (r0, Inl OptNotFound)
      | Some run \<Rightarrow>
          if run_CurrentTaskID run \<noteq> [] then
            (case CancelOptimizationRunWithTask bs qnow queue tenantID runID reason now (env r0) of
               (r, Inl err) \<Rightarrow> (r, Inl (OptRepoError err))
             | (r, Inr None) \<Rightarrow> (r, Inl OptNotFound)
             | (r, Inr (Some canceled)) \<Rightarrow> (r, Inr canceled))
          else let run = run\<lparr>run_Status := RunStatusCanceling, run_StatusReason := reason, run_CancelRequestedAt := Some now,
                     run_Checkpoint := (run_Checkpoint run)\<lparr>cp_CancelRequestedAt := Some now, cp_StatusReason := reason\<rparr>,
                     run_UpdatedAt := now\<rparr>
               in case UpdateOptimizationRun qnow queue None run (env r0) of
                    (r, Inl err) \<Rightarrow> (r, Inl (OptRepoError err))
                  | (r, Inr _) \<Rightarrow> (r, Inr run))"

definition resume_request :: "opt_run \<Rightarrow> string \<Rightarrow> SubmitRequest \<Rightarrow> SubmitRequest" where
  "resume_request run tenantID q =
     (let q = (if isEmptySubmitRequest q then StoredSubmitRequest run else q);
          q = (if sq_TenantID q = [] then q\<lparr>sq_TenantID := tenantID\<rparr> else q)
      in if sq_ProjectID q = [] then q\<lparr>sq_ProjectID := run_ProjectID run\<rparr> else q)"

definition resumed_run :: "SubmitRequest \<Rightarrow> gotime \<Rightarrow> opt_run \<Rightarrow> opt_run" where
  "resumed_run q now run =
     run\<lparr>run_ProjectID := sq_ProjectID q, run_HoldoutSplit := cfg_HoldoutSplit q, run_Status := RunStatusQueued, run_StatusReason := [],
         run_CancelRequestedAt := None, run_Checkpoint := (run_Checkpoint run)\<lparr>cp_CancelRequestedAt := None, cp_StatusReason := []\<rparr>,
         run_UpdatedAt := now,
         run_Data := (run_Data run)\<lparr>rd_DatasetID := cfg_DatasetID q, rd_KnowledgeBaseID := cfg_KnowledgeBaseID q, rd_Objective := cfg_Objective q,
           rd_SearchSpace := cfg_SearchSpace q, rd_Config := RunConfigFromSubmitRequest q, rd_Runner := sq_Runner q\<rparr>\<rparr>"

definition Resume ::
  "bool \<Rightarrow> entropy \<Rightarrow> (nat \<Rightarrow> entropy) \<Rightarrow> gotime \<Rightarrow> gotime \<Rightarrow> ('h opt_repo \<Rightarrow> 'h opt_repo) \<Rightarrow> string \<Rightarrow> string \<Rightarrow> SubmitRequest \<Rightarrow>
   'h opt_repo \<Rightarrow> 'h opt_repo \<times> (opt_service_error + opt_run)" where
  "Resume disableAutoStart b bs qnow now env tenantID runID q0 r0 =
     (case GetOptimizationRun tenantID runID r0 of
        None \<Rightarrow> (r0, Inl OptNotFound)
      | Some run0 \<Rightarrow>
          let q = resume_request run0 tenantID q0
          in case validateResumeConfigInvariant run0 q of
               Some err \<Rightarrow> (r0, Inl err)
             | None \<Rightarrow>
                 if \<not> isResumableRunStatus (run_Status run0) then (r0, Inl (OptStateConflict runID))
                 else let run = resumed_run q now run0;
                          task = parked disableAutoStart now (NewExecutionTask b run now);
                          run = run\<lparr>run_CurrentTaskID := t_ID task, run_ExecutionGeneration := 0\<rparr>
                      in case ResumeOptimizationRunWithTask bs qnow run (run_Status run0) task (env r0) of
                           (r, Inl err) \<Rightarrow> (r, Inl (OptRepoError err))
                         | (r, Inr swapped) \<Rightarrow> (r, if swapped then Inr run else Inl (OptStateConflict runID)))"

section \<open>Executing a task\<close>

text \<open>What the worker pool is told: done, failed for good, cancelled, or failed and to be tried again.\<close>

datatype execution_outcome = ExecutionDone | ExecutionTerminal | ExecutionCancelled | ExecutionRetry

definition finalizeTaskCancellation :: "'h opt_env \<Rightarrow> string \<Rightarrow> string \<Rightarrow> ('h, unit) opt_prog" where
  "finalizeTaskCancellation x tenantID runID =
     andThen (load_run x tenantID runID) (\<lambda>found.
     case found of
       None \<Rightarrow> ret ()
     | Some run \<Rightarrow>
         if run_Status run \<noteq> RunStatusCanceling \<and> run_CancelRequestedAt run = None then ret ()
         else andThen (modify_run (\<lambda>_. run)) (\<lambda>_.
              andThen (ignore_error (cleanupPendingCandidates x)) (\<lambda>_.
              transitionRun x RunStatusCanceled ''canceled'' (run_StatusReason run))))"

definition claim_outcome :: "opt_error \<Rightarrow> execution_outcome" where
  "claim_outcome err =
     (case err of
        ErrOptimizationAlreadyCompleted \<Rightarrow> ExecutionDone
      | ErrOptimizationAlreadyCanceled \<Rightarrow> ExecutionCancelled
      | ErrOptimizationAlreadyFailed \<Rightarrow> ExecutionTerminal
      | _ \<Rightarrow> ExecutionRetry)"

text \<open>\<open>interrupted\<close>: the context of the worker was cancelled while the run was executed.\<close>

definition run_claimed :: "'h opt_env \<Rightarrow> bool \<Rightarrow> string \<Rightarrow> string \<Rightarrow> 'h opt_exec \<Rightarrow> 'h opt_exec \<times> execution_outcome" where
  "run_claimed x interrupted tenantID runID s0 =
     (let (s1, res) = RunPending x tenantID runID (config_SubmitRequest zero_config [] []) s0;
          s2 = (if interrupted then fst (finalizeTaskCancellation x tenantID runID s1) else s1);
          (s3, found) = load_run x tenantID runID s2;
          status = (case found of Inr (Some run) \<Rightarrow> Some (run_Status run) | _ \<Rightarrow> None)
      in (s3, case res of
                Inl err \<Rightarrow> if status = Some RunStatusFailed then ExecutionTerminal else ExecutionRetry
              | Inr _ \<Rightarrow> if status = Some RunStatusCanceled then ExecutionCancelled else ExecutionDone))"

definition opt_HandleTask ::
  "payload_decoder \<Rightarrow> 'h opt_env \<Rightarrow> bool \<Rightarrow> Task \<Rightarrow> 'h opt_exec \<Rightarrow> 'h opt_exec \<times> execution_outcome" where
  "opt_HandleTask decode x interrupted task s =
     (case decodeExecutionTask decode task of
        Inl err \<Rightarrow> (s, ExecutionTerminal)
      | Inr runID \<Rightarrow>
          if TrimSpace (t_TenantID task) = [] \<or> TrimSpace (t_LeaseHolder task) = [] \<or> sint (t_LeaseGeneration task) \<le> 0 then (s, ExecutionRetry)
          else let lease = \<lparr>el_TaskID = t_ID task, el_Holder = t_LeaseHolder task, el_Generation = t_LeaseGeneration task\<rparr>;
                   i = ex_step s;
                   (r, claimed) = ClaimOptimizationExecution (ox_qnow x i) (ox_queue x i) (ox_clock x i) (t_TenantID task) (t_ProjectID task) runID lease
                     (ox_env x i (ex_repo s));
                   s' = s\<lparr>ex_repo := r, ex_step := Suc i\<rparr>
               in case claimed of
                    Inl err \<Rightarrow> (s', claim_outcome err)
                  | Inr _ \<Rightarrow> run_claimed (x\<lparr>ox_lease := Some lease\<rparr>) interrupted (t_TenantID task) runID s')"

section \<open>Temporary namespaces\<close>

type_synonym namespace_map = "(string, TempNamespace) gomap"

definition ns_Register :: "gotime \<Rightarrow> string \<Rightarrow> string \<Rightarrow> string \<Rightarrow> duration \<Rightarrow> namespace_map \<Rightarrow> namespace_map \<times> TempNamespace" where
  "ns_Register now ownerID kind name ttl m =
     (let n = \<lparr>tn_Name = name, tn_OwnerID = ownerID, tn_Kind = kind, tn_ExpiresAt = now + (if ttl \<le> 0 then Hour else ttl),
            tn_Status = CleanupPending, tn_Error = [], tn_CreatedAt = now, tn_CleanedAt = 0, tn_CleanupRuns = 0\<rparr>
      in (gput name n m, n))"

definition ns_ListByOwner :: "string \<Rightarrow> namespace_map \<Rightarrow> TempNamespace list" where
  "ns_ListByOwner ownerID m = filter (\<lambda>n. tn_OwnerID n = ownerID) (map snd m)"

text \<open>
  \<^verbatim>\<open>cleanup\<close>, whose manager is unlocked while the cleaner works: \<open>env\<close> is what happens to the map before each write.
  \<open>clean\<close> is the cleaner, \<open>None\<close> where there is none; it returns the text of its error.
\<close>

definition clean_one :: "(TempNamespace \<Rightarrow> string option) option \<Rightarrow> gotime \<Rightarrow> TempNamespace \<Rightarrow> TempNamespace" where
  "clean_one clean now n0 =
     (let n = n0\<lparr>tn_CleanupRuns := tn_CleanupRuns n0 + 1\<rparr>
      in case (case clean of None \<Rightarrow> None | Some f \<Rightarrow> f n) of
           Some err \<Rightarrow> n\<lparr>tn_Status := CleanupFailed, tn_Error := err\<rparr>
         | None \<Rightarrow> n\<lparr>tn_Status := CleanupDone, tn_Error := [], tn_CleanedAt := now\<rparr>)"

fun ns_cleanup ::
  "(TempNamespace \<Rightarrow> string option) option \<Rightarrow> (nat \<Rightarrow> gotime) \<Rightarrow> (nat \<Rightarrow> namespace_map \<Rightarrow> namespace_map) \<Rightarrow> nat \<Rightarrow> TempNamespace list \<Rightarrow>
   namespace_map \<Rightarrow> namespace_map \<times> TempNamespace list" where
  "ns_cleanup clean clock env i [] m = (m, [])"
| "ns_cleanup clean clock env i (n # ns) m =
     (let n' = clean_one clean (clock i) n; (m', out) = ns_cleanup clean clock env (Suc i) ns (gput (tn_Name n') n' (env i m))
      in (m', n' # out))"

definition first_failure :: "TempNamespace list \<Rightarrow> string option" where
  "first_failure out = map_option tn_Error (find (\<lambda>n. tn_Status n = CleanupFailed) out)"

definition ns_CleanupOwner where
  "ns_CleanupOwner clean clock env ownerID m =
     (let (m', out) = ns_cleanup clean clock env 0 (filter (\<lambda>n. tn_OwnerID n = ownerID \<and> tn_Status n \<noteq> CleanupDone) (map snd m)) m
      in (m', out, first_failure out))"

definition ns_GC where
  "ns_GC clean clock env now m =
     (let (m', out) = ns_cleanup clean clock env 0 (filter (\<lambda>n. tn_Status n \<noteq> CleanupDone \<and> \<not> After (tn_ExpiresAt n) now) (map snd m)) m
      in (m', out, first_failure out))"

section \<open>The limiter\<close>

text \<open>
  \<^verbatim>\<open>Wait\<close> takes the time of the previous call from a channel of one element, which serialises the callers; it waits until
  that time and the interval have passed, or returns early when the context ends at \<open>deadline\<close>. \<open>arrive\<close> is the clock
  when the caller has taken the element, \<open>leave\<close> the clock when it puts the new time back.
\<close>

definition limiter_wake :: "duration \<Rightarrow> gotime option \<Rightarrow> gotime \<Rightarrow> gotime \<Rightarrow> gotime \<times> bool" where
  "limiter_wake interval deadline previous arrive =
     (if IsZero previous \<or> previous + interval \<le> arrive then (arrive, True)
      else case deadline of
        Some d \<Rightarrow> if d < previous + interval then (max arrive d, False) else (previous + interval, True)
      | None \<Rightarrow> (previous + interval, True))"

lemma limiter_spaces:
  assumes "limiter_wake interval deadline previous arrive = (wake, True)" and "\<not> IsZero previous"
  shows "previous + interval \<le> wake"
  using assms by (auto simp: limiter_wake_def split: if_splits option.splits)

end
