(* ===== verification/OptServiceProps.thy ===== *)
theory OptServiceProps
  imports OptTask OptRepoProps
begin

text \<open>
  What the execution of an optimisation run guarantees while other callers use the repository. The programs of
  \<open>OptService\<close> are verified with triples: a precondition, what holds when the program returns, and what holds
  when it ends in an error. The locale \<open>run_execution\<close> states what the others may do to the run, and the cancellation of
  the repository is proved to keep to it.
\<close>

section \<open>Triples\<close>

definition triple ::
  "('h opt_exec \<Rightarrow> bool) \<Rightarrow> ('h, 'a) opt_prog \<Rightarrow> ('a \<Rightarrow> 'h opt_exec \<Rightarrow> bool) \<Rightarrow> ('h opt_exec \<Rightarrow> bool) \<Rightarrow> bool" where
  "triple P f Q E \<longleftrightarrow> (\<forall>s. P s \<longrightarrow> (case f s of (s', Inl err) \<Rightarrow> E s' | (s', Inr v) \<Rightarrow> Q v s'))"

named_theorems triples \<open>rules for the programs of the optimizer\<close>


lemma triple_pre: "triple P f Q E \<Longrightarrow> (\<And>s. P' s \<Longrightarrow> P s) \<Longrightarrow> triple P' f Q E"
  by (auto simp: triple_def)

lemma triple_post: "triple P f Q E \<Longrightarrow> (\<And>v s. Q v s \<Longrightarrow> Q' v s) \<Longrightarrow> triple P f Q' E"
  by (fastforce simp: triple_def split: prod.splits sum.splits)

lemma triple_ret: "triple (Q v) (ret v) Q E"
  by (simp add: triple_def ret_def)

lemma triple_raise: "triple E (raise err) Q E"
  by (simp add: triple_def raise_def)

lemma triple_andThen:
  assumes "triple P f R E" and "\<And>v. triple (R v) (g v) Q E"
  shows "triple P (andThen f g) Q E"
  using assms unfolding triple_def andThen_def by (fastforce split: prod.splits sum.splits)

lemma triple_ignore: "triple P f (\<lambda>_. Q) Q \<Longrightarrow> triple P (ignore_error f) (\<lambda>_. Q) E"
  unfolding triple_def ignore_error_def by (fastforce split: prod.splits sum.splits)

lemma triple_on_error:
  assumes "triple P f Q R" and "\<And>err. triple R (h err) Q E"
  shows "triple P (on_error f h) Q E"
  using assms unfolding triple_def on_error_def by (fastforce split: prod.splits sum.splits)

lemma triple_the_run: "triple P the_run (\<lambda>run s. P s \<and> ex_run s = run) E"
  by (simp add: triple_def the_run_def)

lemma triple_modify_run: "(\<And>s. P s \<Longrightarrow> Q () (s\<lparr>ex_run := f (ex_run s)\<rparr>)) \<Longrightarrow> triple P (modify_run f) Q E"
  by (simp add: triple_def modify_run_def)

lemma triple_tick: "(\<And>s. P s \<Longrightarrow> P (s\<lparr>ex_step := Suc (ex_step s)\<rparr>)) \<Longrightarrow> triple P (tick f) (\<lambda>_. P) E"
  by (simp add: triple_def tick_def)

lemma triple_retI: "(\<And>s. P s \<Longrightarrow> Q v s) \<Longrightarrow> triple P (ret v) Q E"
  by (simp add: triple_def ret_def)

lemma triple_raiseI: "(\<And>s. P s \<Longrightarrow> E s) \<Longrightarrow> triple P (raise err) Q E"
  by (simp add: triple_def raise_def)

lemma triple_err: "triple P f Q E \<Longrightarrow> (\<And>s. E s \<Longrightarrow> E' s) \<Longrightarrow> triple P f Q E'"
  by (fastforce simp: triple_def split: prod.splits sum.splits)

lemma triple_if: "(b \<Longrightarrow> triple P f Q E) \<Longrightarrow> (\<not> b \<Longrightarrow> triple P g Q E) \<Longrightarrow> triple P (if b then f else g) Q E"
  by simp

lemma triple_case_option:
  assumes "opt = None \<Longrightarrow> triple P f Q E" and "\<And>v. opt = Some v \<Longrightarrow> triple P (g v) Q E"
  shows "triple P (case opt of None \<Rightarrow> f | Some v \<Rightarrow> g v) Q E"
  using assms by (cases opt) auto

section \<open>The run and what the others do to it\<close>

definition present :: "string \<Rightarrow> string \<Rightarrow> 'h opt_repo \<Rightarrow> bool" where
  "present runID k r \<longleftrightarrow> (\<exists>c. map_of (om_candidates r) k = Some c \<and> oc_OptimizationRunID c = runID)"

text \<open>The best candidate is one of the run's candidates.\<close>

definition best_ok :: "opt_run \<Rightarrow> 'h opt_repo \<Rightarrow> bool" where
  "best_ok run r \<longleftrightarrow> run_BestCandidateID run = [] \<or> present (run_ID run) (run_BestCandidateID run) r"

text \<open>A run names a hold-out candidate only if it is the best one and its gate has passed.\<close>

definition gate_ok :: "opt_run \<Rightarrow> bool" where
  "gate_ok run \<longleftrightarrow> (run_HoldoutCandidateID run \<noteq> [] \<longrightarrow> run_HoldoutCandidateID run = run_BestCandidateID run \<and> hr_Passed (rd_HoldoutGate (run_Data run)))"

definition held_out :: "opt_run \<Rightarrow> bool" where
  "held_out run \<longleftrightarrow> run_HoldoutSplit run = [] \<or> run_BestCandidateID run = [] \<or> run_HoldoutCandidateID run \<noteq> []"

text \<open>
  The other callers keep the run, up to a cancellation, and its candidates: nobody else executes it, which is what
  its lease is for.
\<close>

definition others_behave :: "string \<Rightarrow> 'h opt_repo \<Rightarrow> 'h opt_repo \<Rightarrow> bool" where
  "others_behave runID r r' \<longleftrightarrow> (opt_wf r \<longrightarrow> opt_wf r') \<and>
     (\<forall>run. map_of (om_runs r) runID = Some run \<longrightarrow>
        (\<exists>run'. map_of (om_runs r') runID = Some run' \<and> run_TenantID run' = run_TenantID run \<and> run_HoldoutSplit run' = run_HoldoutSplit run \<and>
           run_BestCandidateID run' = run_BestCandidateID run \<and> run_HoldoutCandidateID run' = run_HoldoutCandidateID run \<and>
           run_Data run' = run_Data run \<and> (run_Status run' = run_Status run \<or> run_Status run' \<in> {RunStatusCanceling, RunStatusCanceled}))) \<and>
     (\<forall>k c. map_of (om_candidates r) k = Some c \<and> oc_OptimizationRunID c = runID \<longrightarrow> map_of (om_candidates r') k = Some c)"

definition stored_ok :: "string \<Rightarrow> string \<Rightarrow> string \<Rightarrow> (opt_run \<Rightarrow> bool) \<Rightarrow> 'h opt_repo \<Rightarrow> bool" where
  "stored_ok runID tenantID split P r \<longleftrightarrow> opt_wf r \<and>
     (\<exists>run. map_of (om_runs r) runID = Some run \<and> run_TenantID run = tenantID \<and> run_HoldoutSplit run = split \<and> best_ok run r \<and> gate_ok run \<and> P run)"

definition not_completed :: "opt_run \<Rightarrow> bool" where
  "not_completed run \<longleftrightarrow> run_Status run \<noteq> RunStatusCompleted"

definition completed_held_out :: "opt_run \<Rightarrow> bool" where
  "completed_held_out run \<longleftrightarrow> (run_Status run = RunStatusCompleted \<longrightarrow> held_out run)"

locale run_execution =
  fixes x :: "'h opt_env" and runID tenantID split :: string
  assumes rely: "others_behave runID r (ox_env x i r)"
begin

text \<open>
  The shared run while it is executed is the stored one with the writes to come; \<open>K\<close> are candidates known to be stored,
  and \<open>C\<close> is what else is known of the shared run.
\<close>

definition good_for :: "(opt_run \<Rightarrow> bool) \<Rightarrow> string set \<Rightarrow> opt_run \<Rightarrow> 'h opt_repo \<Rightarrow> bool" where
  "good_for P K run r \<longleftrightarrow> stored_ok runID tenantID split P r \<and> run_ID run = runID \<and> run_TenantID run = tenantID \<and>
     run_HoldoutSplit run = split \<and> gate_ok run \<and> best_ok run r \<and> P run \<and> (\<forall>k\<in>K. present runID k r)"

abbreviation good :: "string set \<Rightarrow> opt_run \<Rightarrow> 'h opt_repo \<Rightarrow> bool" where
  "good \<equiv> good_for not_completed"

abbreviation closing :: "opt_run \<Rightarrow> 'h opt_repo \<Rightarrow> bool" where
  "closing \<equiv> good_for completed_held_out {}"

definition inv :: "string set \<Rightarrow> (opt_run \<Rightarrow> bool) \<Rightarrow> 'h opt_exec \<Rightarrow> bool" where
  "inv K C s \<longleftrightarrow> good K (ex_run s) (ex_repo s) \<and> C (ex_run s)"

definition final :: "'h opt_exec \<Rightarrow> bool" where
  "final s \<longleftrightarrow> stored_ok runID tenantID split completed_held_out (ex_repo s)"

definition own :: "opt_candidate \<Rightarrow> bool" where
  "own c \<longleftrightarrow> oc_OptimizationRunID c = runID"

lemma own_update [simp]: "own (oc_Status_update f c) = own c" "own (oc_UpdatedAt_update g c) = own c" "own (oc_Data_update h c) = own c"
  by (simp_all add: own_def)

lemma inv_final: "inv K C s \<Longrightarrow> final s"
  by (auto simp: inv_def good_for_def final_def stored_ok_def not_completed_def completed_held_out_def)

lemma present_env: "present runID k r \<Longrightarrow> present runID k (ox_env x i r)"
  using rely [of r i] unfolding present_def others_behave_def by blast

lemma best_ok_env: "best_ok run r \<Longrightarrow> run_ID run = runID \<Longrightarrow> best_ok run (ox_env x i r)"
  using present_env unfolding best_ok_def by blast

lemma stored_env:
  assumes "stored_ok runID tenantID split P r"
    and "\<And>run run'. P run \<Longrightarrow> run_HoldoutSplit run' = run_HoldoutSplit run \<Longrightarrow> run_BestCandidateID run' = run_BestCandidateID run \<Longrightarrow>
      run_HoldoutCandidateID run' = run_HoldoutCandidateID run \<Longrightarrow>
      run_Status run' = run_Status run \<or> run_Status run' \<in> {RunStatusCanceling, RunStatusCanceled} \<Longrightarrow> P run'"
  shows "stored_ok runID tenantID split P (ox_env x i r)"
proof -
  obtain run where run: "opt_wf r" "map_of (om_runs r) runID = Some run" "run_TenantID run = tenantID" "run_HoldoutSplit run = split"
    "best_ok run r" "gate_ok run" "P run"
    using assms(1) unfolding stored_ok_def by blast
  obtain run' where run': "opt_wf (ox_env x i r)" "map_of (om_runs (ox_env x i r)) runID = Some run'" "run_TenantID run' = tenantID"
    "run_HoldoutSplit run' = split" "run_BestCandidateID run' = run_BestCandidateID run" "run_HoldoutCandidateID run' = run_HoldoutCandidateID run"
    "run_Data run' = run_Data run" "run_Status run' = run_Status run \<or> run_Status run' \<in> {RunStatusCanceling, RunStatusCanceled}"
    using rely [of r i] run unfolding others_behave_def by blast
  have "run_ID run = runID" "run_ID run' = runID" using opt_wf_run run(1,2) run'(1,2) by blast+
  then have "best_ok run' (ox_env x i r)"
    using best_ok_env [OF run(5), of i] run'(5) by (simp add: best_ok_def)
  moreover have "gate_ok run'" using run(6) run'(5,6,7) by (simp add: gate_ok_def)
  moreover have "P run'" by (rule assms(2) [OF run(7)]) (use run run' in auto)
  ultimately show ?thesis using run' unfolding stored_ok_def by blast
qed

lemma stored_env_inv: "stored_ok runID tenantID split not_completed r \<Longrightarrow> stored_ok runID tenantID split not_completed (ox_env x i r)"
  and stored_env_final: "stored_ok runID tenantID split completed_held_out r \<Longrightarrow> stored_ok runID tenantID split completed_held_out (ox_env x i r)"
  by (rule stored_env, assumption, auto simp: not_completed_def completed_held_out_def held_out_def)+

lemma good_env: "good K run r \<Longrightarrow> good K run (ox_env x i r)"
  and closing_env: "closing run r \<Longrightarrow> closing run (ox_env x i r)"
  using stored_env_inv [of r] stored_env_final [of r] best_ok_env [of run r] present_env unfolding good_for_def by simp_all

subsection \<open>Calls of the repository\<close>

lemma good_queue: "good_for P K run (r\<lparr>om_taskQueue := q\<rparr>) = good_for P K run r"
  by (simp add: good_for_def stored_ok_def best_ok_def present_def)

lemma present_put_run [simp]: "present i k (put_run run r) = present i k r"
  by (simp add: present_def put_run_def)

lemma good_put_run: "good_for P K run r \<Longrightarrow> good_for P K run (put_run run r)"
  by (auto simp: good_for_def stored_ok_def put_run_wf best_ok_def) (auto simp: put_run_def map_simps)

lemma present_put_candidate: "present runID k r \<Longrightarrow> own c \<Longrightarrow> present runID k (put_candidate c r)"
  by (auto simp: present_def put_candidate_def own_def map_simps)

lemma good_put_candidate:
  assumes "good K run r" and "own c"
  shows "good K run (put_candidate c r)"
proof -
  obtain stored where st: "opt_wf r" "map_of (om_runs r) runID = Some stored" "run_TenantID stored = tenantID" "run_HoldoutSplit stored = split"
    "best_ok stored r" "gate_ok stored" "not_completed stored"
    using assms(1) unfolding good_for_def stored_ok_def by blast
  have "run_ID stored = runID" by (rule opt_wf_run [OF st(1,2)])
  then have "best_ok stored (put_candidate c r)"
    using st(5) assms(2) present_put_candidate unfolding best_ok_def by blast
  moreover have "best_ok run (put_candidate c r)" "\<forall>k\<in>K. present runID k (put_candidate c r)"
    using assms present_put_candidate unfolding good_for_def best_ok_def by blast+
  moreover have "map_of (om_runs (put_candidate c r)) runID = Some stored" using st(2) by (simp add: put_candidate_def)
  ultimately show ?thesis using assms(1) st put_candidate_wf [OF st(1)] unfolding good_for_def stored_ok_def by blast
qed

lemma good_fenced:
  assumes "good_for P K run r" and "\<And>r. good_for P K run r \<Longrightarrow> good_for P K run (fst (w r))"
  shows "good_for P K run (fst (fenced qnow env ctx i w r))"
proof -
  have "good_for P K run (fst (ownsExecutionLocked qnow env ctx i r))"
    using assms(1) by (simp add: ownsExecutionLocked_def good_queue split: option.splits)
  with assms(2) show ?thesis by (auto simp: fenced_def split: prod.splits bool.splits)
qed

lemma good_UpdateRun: "good_for P K run r \<Longrightarrow> good_for P K run (fst (UpdateOptimizationRun qnow env ctx run r))"
  unfolding UpdateOptimizationRun_def by (rule good_fenced) (auto intro: good_put_run)

lemma good_CASRun: "good_for P K run r \<Longrightarrow> good_for P K run (fst (CompareAndSwapOptimizationRun qnow env ctx run st r))"
  unfolding CompareAndSwapOptimizationRun_def by (rule good_fenced) (auto intro: good_put_run split: option.splits)

lemma good_UpdateCandidate: "good K run r \<Longrightarrow> own c \<Longrightarrow> good K run (fst (UpdateOptimizationCandidate qnow env ctx c r))"
  unfolding UpdateOptimizationCandidate_def by (rule good_fenced) (simp_all add: good_put_candidate)

lemma good_CASCandidate: "good K run r \<Longrightarrow> own c \<Longrightarrow> good K run (fst (CompareAndSwapOptimizationCandidate qnow env ctx c st r))"
  unfolding CompareAndSwapOptimizationCandidate_def by (rule good_fenced) (simp_all add: good_put_candidate split: option.splits)

lemma call_inv:
  assumes "\<And>i r. good K run r \<Longrightarrow> good K run (fst (f i r))"
  shows "triple (\<lambda>s. inv K C s \<and> ex_run s = run) (repo_call x f) (\<lambda>_ s. inv K C s \<and> ex_run s = run) (inv K C)"
  unfolding triple_def
proof (intro allI impI)
  fix s assume s: "inv K C s \<and> ex_run s = run"
  let ?r = "ox_env x (ex_step s) (ex_repo s)"
  have "good K run (fst (f (ex_step s) ?r))"
    using assms s good_env unfolding inv_def by blast
  with s show "case repo_call x f s of (s', Inl err) \<Rightarrow> inv K C s' | (s', Inr v) \<Rightarrow> inv K C s' \<and> ex_run s' = run"
    by (auto simp: repo_call_def Let_def inv_def split: prod.splits sum.splits)
qed

lemma call_any_run:
  assumes "\<And>i run r. good K run r \<Longrightarrow> good K run (fst (f i r))"
  shows "triple (inv K C) (repo_call x f) (\<lambda>_. inv K C) (inv K C)"
proof -
  have "triple (\<lambda>s. inv K C s \<and> ex_run s = run) (repo_call x f) (\<lambda>_ s. inv K C s \<and> ex_run s = run) (inv K C)" for run
    by (rule call_inv) (rule assms)
  then show ?thesis unfolding triple_def by (fastforce split: prod.splits sum.splits)
qed

lemma tick_inv: "triple (inv K C) (tick f) (\<lambda>_. inv K C) E"
  by (rule triple_tick) (simp add: inv_def)

lemma get_run_inv: "triple (inv K C) the_run (\<lambda>_. inv K C) E"
  by (simp add: triple_def the_run_def)

lemma save_run_inv: "triple (inv K C) (save_run x) (\<lambda>_. inv K C) (inv K C)"
  unfolding save_run_def
  by (rule triple_andThen [OF triple_the_run], rule triple_post, rule call_inv) (auto intro: good_UpdateRun)

text \<open>The fields of the run that the invariant reads.\<close>

lemma good_change:
  assumes "good K run r" and "run_ID run' = run_ID run" "run_TenantID run' = run_TenantID run" "run_HoldoutSplit run' = run_HoldoutSplit run"
    "run_BestCandidateID run' = run_BestCandidateID run" "run_HoldoutCandidateID run' = run_HoldoutCandidateID run"
    "rd_HoldoutGate (run_Data run') = rd_HoldoutGate (run_Data run)" "run_Status run' \<noteq> RunStatusCompleted"
  shows "good K run' r"
  using assms unfolding good_for_def gate_ok_def best_ok_def not_completed_def by auto

lemma good_status: "good K run r \<Longrightarrow> run_Status run \<noteq> RunStatusCompleted"
  by (simp add: good_for_def not_completed_def)

lemma good_set_status: "st \<noteq> RunStatusCompleted \<Longrightarrow> good K run r \<Longrightarrow> good K (set_status st stage reason now run) r"
  by (erule good_change) (simp_all add: set_status_def)

lemma modify_inv:
  assumes "\<And>run r. good K run r \<Longrightarrow> C run \<Longrightarrow> good K (f run) r \<and> D (f run)"
  shows "triple (inv K C) (modify_run f) (\<lambda>_. inv K D) E"
  by (rule triple_modify_run) (use assms in \<open>auto simp: inv_def\<close>)

abbreviation top_inv :: "string set \<Rightarrow> 'h opt_exec \<Rightarrow> bool" where
  "top_inv K \<equiv> inv K (\<lambda>_. True)"

lemma inv_top: "inv K C s \<Longrightarrow> top_inv K s"
  by (simp add: inv_def)

lemma transitionRun_inv: "st \<noteq> RunStatusCompleted \<Longrightarrow> triple (top_inv K) (transitionRun x st stage reason) (\<lambda>_. top_inv K) (top_inv K)"
  unfolding transitionRun_def
  by (rule triple_andThen [OF tick_inv], rule triple_andThen [OF modify_inv save_run_inv]) (simp add: good_set_status)

lemma claimRun_inv: "st \<noteq> RunStatusCompleted \<Longrightarrow> triple (top_inv K) (claimRun x expected st stage reason) (\<lambda>_. top_inv K) (top_inv K)"
  unfolding claimRun_def
  apply (rule triple_andThen [OF tick_inv], rule triple_andThen [OF modify_inv [where D = "\<lambda>_. True"]])
   apply (simp add: good_set_status)
  apply (rule triple_andThen [OF triple_the_run], rule triple_andThen [OF call_inv])
   apply (erule good_CASRun)
  apply (auto intro: triple_pre [OF triple_ret] triple_pre [OF triple_raise])
  done

subsection \<open>Candidates\<close>

lemma save_candidate_inv: "own c \<Longrightarrow> triple (inv K C) (save_candidate x c) (\<lambda>_. inv K C) (inv K C)"
  unfolding save_candidate_def by (rule call_any_run) (rule good_UpdateCandidate)

text \<open>A candidate that a step returns is the one it was given, with other contents.\<close>

definition kept :: "string set \<Rightarrow> (opt_run \<Rightarrow> bool) \<Rightarrow> opt_candidate \<Rightarrow> opt_candidate \<Rightarrow> 'h opt_exec \<Rightarrow> bool" where
  "kept K C c c' s \<longleftrightarrow> inv K C s \<and> own c' \<and> oc_ID c' = oc_ID c"

lemma kept_elim:
  assumes "own c' \<Longrightarrow> oc_ID c' = oc_ID c \<Longrightarrow> triple (inv K C) f Q E"
  shows "triple (kept K C c c') f Q E"
proof (cases "own c' \<and> oc_ID c' = oc_ID c")
  case True
  then show ?thesis using assms unfolding triple_def kept_def by simp
qed (auto simp: triple_def kept_def)

lemma kept_trans: "oc_ID c' = oc_ID c \<Longrightarrow> triple P f (kept K C c') E \<Longrightarrow> triple P f (kept K C c) E"
  by (erule triple_post) (simp add: kept_def)

lemma transitionCandidate_inv:
  assumes "own c"
  shows "triple (inv K C) (transitionCandidate x c st metrics) (kept K C c) (inv K C)"
  unfolding transitionCandidate_def Let_def
  by (rule triple_andThen [OF tick_inv], rule triple_andThen [OF save_candidate_inv], simp add: assms,
      rule triple_retI, simp add: kept_def assms)

lemma claimCandidate_inv:
  assumes "own c"
  shows "triple (inv K C) (claimCandidate x c phase) (kept K C c) (inv K C)"
proof (cases "candidate_startable phase (oc_Status c)")
  case True
  show ?thesis
    unfolding claimCandidate_def Let_def if_not_P [OF not_not [THEN iffD2, OF True]]
    by (rule triple_andThen [OF tick_inv], rule triple_andThen [OF call_any_run], erule good_CASCandidate, simp add: assms)
      (simp add: triple_retI triple_raiseI kept_def assms)
qed (simp add: claimCandidate_def triple_raise)

lemma load_run_inv:
  "triple (\<lambda>s. inv K C s \<and> ex_run s = run) (load_run x (run_TenantID run) (run_ID run))
     (\<lambda>found s. inv K C s \<and> (\<forall>cur. found = Some cur \<longrightarrow> good K cur (ex_repo s))) (inv K C)"
  unfolding triple_def load_run_def
proof (intro allI impI)
  fix s assume s: "inv K C s \<and> ex_run s = run"
  let ?r = "ox_env x (ex_step s) (ex_repo s)"
  have g: "good K run ?r" using s good_env unfolding inv_def by blast
  have "good K cur ?r" if "GetOptimizationRun (run_TenantID run) (run_ID run) ?r = Some cur" for cur
  proof -
    have "map_of (om_runs ?r) runID = Some cur" using that g by (auto simp: GetOptimizationRun_def good_for_def split: option.splits if_splits)
    with g opt_wf_run show ?thesis unfolding good_for_def stored_ok_def by fastforce
  qed
  moreover have "C run" using s unfolding inv_def by blast
  ultimately show "case repo_call x (\<lambda>i r. (r, Inr (GetOptimizationRun (run_TenantID run) (run_ID run) r))) s of
      (s', Inl err) \<Rightarrow> inv K C s' | (s', Inr v) \<Rightarrow> inv K C s' \<and> (\<forall>cur. v = Some cur \<longrightarrow> good K cur (ex_repo s'))"
    using s g by (simp add: repo_call_def inv_def Let_def)
qed

lemma set_run_inv: "triple (\<lambda>s. top_inv K s \<and> good K run (ex_repo s)) (modify_run (\<lambda>_. run)) (\<lambda>_. top_inv K) E"
  by (rule triple_modify_run) (simp add: inv_def)

lemma stop_inv:
  "st \<noteq> RunStatusCompleted \<Longrightarrow> triple (top_inv K) (andThen (transitionRun x st stage reason) (\<lambda>_. ret v)) (\<lambda>_. top_inv K) (top_inv K)"
  by (rule triple_andThen, erule transitionRun_inv, rule triple_retI)

lemma stop_reason_status: "stop_reason q run = Some (st, stage, reason) \<Longrightarrow> st \<noteq> RunStatusCompleted"
  by (auto simp: stop_reason_def split: if_splits)

lemma shouldStop_inv: "triple (top_inv K) (shouldStop x q started check) (\<lambda>_. top_inv K) (top_inv K)"
  unfolding shouldStop_def
  apply (rule triple_andThen [OF triple_the_run], rule triple_andThen [OF load_run_inv], rule triple_case_option)
   apply (rule triple_retI, simp)
  apply (rule triple_andThen, rule triple_pre [OF set_run_inv], simp)
  apply (auto simp: stop_inv stop_reason_status intro: triple_retI intro!: triple_andThen [OF tick_inv] split: option.splits)
  done

subsection \<open>Evaluating a candidate\<close>

text \<open>What is known of the shared run survives the changes of its status and its accounts.\<close>

definition stable :: "(opt_run \<Rightarrow> bool) \<Rightarrow> bool" where
  "stable C \<longleftrightarrow> (\<forall>run run'. C run \<longrightarrow> run_BestCandidateID run' = run_BestCandidateID run \<longrightarrow>
     run_HoldoutCandidateID run' = run_HoldoutCandidateID run \<longrightarrow> C run')"

lemma stableD: "stable C \<Longrightarrow> C run \<Longrightarrow> run_BestCandidateID run' = run_BestCandidateID run \<Longrightarrow>
    run_HoldoutCandidateID run' = run_HoldoutCandidateID run \<Longrightarrow> C run'"
  unfolding stable_def by blast

lemma good_merge: "good K run r \<Longrightarrow> good K cur r \<Longrightarrow> good K (merge_control cur run) r"
  by (frule good_status, frule good_status [of K cur], erule good_change) (auto simp: merge_control_def)

lemma merge_inv:
  assumes "stable C"
  shows "triple (inv K C) (mergeCurrentRunControlState x) (\<lambda>_. inv K C) (inv K C)"
  unfolding mergeCurrentRunControlState_def
proof (rule triple_andThen [OF triple_the_run], rule triple_andThen [OF load_run_inv], rule triple_case_option)
  fix found :: "opt_run option" and cur assume "found = Some cur"
  then show "triple (\<lambda>s. inv K C s \<and> (\<forall>cur. found = Some cur \<longrightarrow> good K cur (ex_repo s))) (modify_run (merge_control cur)) (\<lambda>_. inv K C) (inv K C)"
    by (intro triple_modify_run) (simp add: inv_def good_merge, rule stableD [OF assms], blast, simp_all add: merge_control_def)
qed (rule triple_retI, simp)

lemma good_account: "good K run r \<Longrightarrow> good K (account c phase now run) r"
  by (frule good_status, erule good_change) (auto simp: account_def Let_def)

lemma account_inv:
  assumes "stable C"
  shows "triple (inv K C) (modify_run (account c phase now)) (\<lambda>_. inv K C) E"
  by (rule modify_inv, rule conjI, erule good_account, erule stableD [OF assms]) (simp_all add: account_def Let_def)

lemma finish_candidate_inv:
  assumes "stable C" and "own c" and "oc_ID c = oc_ID c0"
  shows "triple (inv K C) (andThen (tick (ox_clock x)) (\<lambda>now. andThen (modify_run (account c phase now)) (\<lambda>_.
    andThen (mergeCurrentRunControlState x) (\<lambda>_. andThen (save_run x) (\<lambda>_. ret c))))) (kept K C c0) (inv K C)"
  by (rule triple_andThen [OF tick_inv], rule triple_andThen [OF account_inv [OF assms(1)]], rule triple_andThen [OF merge_inv [OF assms(1)]],
      rule triple_andThen [OF save_run_inv], rule triple_retI, simp add: kept_def assms(2,3))

lemma own_result [simp]: "own (with_result res c) = own c" "oc_ID (with_result res c) = oc_ID c"
  by (simp_all add: with_result_def)

lemma runner_failed_inv:
  "own c \<Longrightarrow> triple (inv K C) (andThen (ignore_error (transitionCandidate x c st m)) (\<lambda>_. raise err)) Q (inv K C)"
  by (rule triple_andThen, rule triple_ignore, rule triple_post, erule transitionCandidate_inv, simp add: kept_def, rule triple_raise)

lemma runCandidate_inv:
  assumes "stable C" and "own c"
  shows "triple (inv K C) (runCandidate x q phase split' c) (kept K C c) (inv K C)"
  unfolding runCandidate_def
proof (rule triple_andThen [OF claimCandidate_inv [OF assms(2)]], rule kept_elim, rule triple_andThen [OF tick_inv], rule triple_case_option)
  fix c1 assume c1: "own c1" "oc_ID c1 = oc_ID c"
  let ?evaluated = "\<lambda>res. andThen (transitionCandidate x (with_result res c1) CandidateStatusEvaluated None) (\<lambda>c.
             andThen (transitionCandidate x c CandidateStatusJudged None) (\<lambda>c.
             andThen (tick (ox_clock x)) (\<lambda>now.
             andThen (modify_run (account c phase now)) (\<lambda>_.
             andThen (mergeCurrentRunControlState x) (\<lambda>_.
             andThen (save_run x) (\<lambda>_. ret c))))))"
  let ?failed = "\<lambda>err. andThen (ignore_error (transitionCandidate x (c1\<lparr>oc_Data := (oc_Data c1)\<lparr>cd_Error := err\<rparr>\<rparr>) CandidateStatusFailed None)) (\<lambda>_.
             raise (OptRunnerError err))"
  have "triple (inv K C) (?evaluated res) (kept K C c1) (inv K C)" for res
    apply (rule triple_andThen [OF transitionCandidate_inv], simp add: c1, rule kept_elim)
    apply (rule triple_andThen [OF transitionCandidate_inv], simp, rule kept_elim)
    apply (rule finish_candidate_inv, simp_all add: assms)
    done
  then have evaluated: "triple (inv K C) (?evaluated res) (kept K C c) (inv K C)" for res
    by (rule kept_trans [OF c1(2)])
  have failed: "triple (inv K C) (?failed err) (kept K C c) (inv K C)" for err
    by (rule runner_failed_inv) (simp add: c1)
  show "triple (inv K C) (andThen the_run (\<lambda>run. andThen (tick (\<lambda>i. ox_runner x i (run_request run c1 q phase split'))) (\<lambda>result.
      case result of Inl err \<Rightarrow> ?failed err | Inr res \<Rightarrow> ?evaluated res))) (kept K C c) (inv K C)"
    by (rule triple_andThen [OF get_run_inv], rule triple_andThen [OF tick_inv]) (simp split: sum.splits add: evaluated failed)
qed (rule triple_raise)

subsection \<open>Selection\<close>

lemma inv_mono: "inv K C s \<Longrightarrow> K' \<subseteq> K \<Longrightarrow> inv K' C s"
  by (auto simp: inv_def good_for_def)

lemma triple_pure:
  assumes "A \<Longrightarrow> triple P f Q E"
  shows "triple (\<lambda>s. P s \<and> A) f Q E"
  using assms by (cases A) (simp_all add: triple_def)

definition complete_list :: "opt_run \<Rightarrow> opt_candidate list \<Rightarrow> bool" where
  "complete_list run cs \<longleftrightarrow> (\<forall>c\<in>set cs. own c) \<and> (run_BestCandidateID run \<noteq> [] \<longrightarrow> run_BestCandidateID run \<in> oc_ID ` set cs)"

lemma listed_own:
  assumes "c \<in> set (ListOptimizationCandidates t runID r)"
  shows "own c" "opt_wf r \<Longrightarrow> present runID (oc_ID c) r"
proof -
  have c: "c \<in> snd ` set (om_candidates r)" "oc_OptimizationRunID c = runID"
    using assms by (auto simp: ListOptimizationCandidates_def split: option.splits if_splits)
  then show "own c" by (simp add: own_def)
  assume wf: "opt_wf r"
  obtain k where k: "(k, c) \<in> set (om_candidates r)" using c(1) by auto
  with wf have "oc_ID c = k" "map_of (om_candidates r) k = Some c"
    by (auto simp: opt_wf_def list_all_iff gmap_wf_mem_iff)
  with c(2) show "present runID (oc_ID c) r" by (auto simp: present_def)
qed

lemma present_listed:
  assumes "good_for P K run r" and "present runID k r"
  shows "k \<in> oc_ID ` set (ListOptimizationCandidates tenantID runID r)"
proof -
  obtain stored where st: "opt_wf r" "map_of (om_runs r) runID = Some stored" "run_TenantID stored = tenantID"
    using assms(1) unfolding good_for_def stored_ok_def by blast
  obtain c where c: "map_of (om_candidates r) k = Some c" "oc_OptimizationRunID c = runID"
    using assms(2) unfolding present_def by blast
  then have "oc_ID c = k" "c \<in> snd ` set (om_candidates r)"
    using st(1) by (auto simp: opt_wf_def list_all_iff dest!: map_of_SomeD intro: rev_image_eqI)
  with st c(2) show ?thesis by (auto simp: ListOptimizationCandidates_def intro!: rev_image_eqI [of c])
qed

lemma load_candidates_inv:
  "triple (\<lambda>s. inv K C s \<and> ex_run s = run) (load_candidates x (run_TenantID run) (run_ID run))
     (\<lambda>cs s. (inv (K \<union> oc_ID ` set cs) C s \<and> ex_run s = run) \<and> complete_list run cs) (inv K C)"
  unfolding triple_def load_candidates_def
proof (intro allI impI)
  fix s assume s: "inv K C s \<and> ex_run s = run"
  let ?r = "ox_env x (ex_step s) (ex_repo s)" and ?cs = "ListOptimizationCandidates tenantID runID (ox_env x (ex_step s) (ex_repo s))"
  have g: "good K run ?r" and c: "C run" using s good_env unfolding inv_def by blast+
  then have wf: "opt_wf ?r" and ids: "run_TenantID run = tenantID" "run_ID run = runID" unfolding good_for_def stored_ok_def by blast+
  have "\<forall>k\<in>oc_ID ` set ?cs. present runID k ?r" using listed_own(2) [OF _ wf] by blast
  with g have g': "good (K \<union> oc_ID ` set ?cs) run ?r" unfolding good_for_def by blast
  have "complete_list run ?cs"
    unfolding complete_list_def using listed_own(1) present_listed [OF g] g by (auto simp: good_for_def best_ok_def)
  with s g' c ids show "case repo_call x (\<lambda>i r. (r, Inr (ListOptimizationCandidates (run_TenantID run) (run_ID run) r))) s of
      (s', Inl err) \<Rightarrow> inv K C s' | (s', Inr cs) \<Rightarrow> (inv (K \<union> oc_ID ` set cs) C s' \<and> ex_run s' = run) \<and> complete_list run cs"
    by (simp add: repo_call_def inv_def Let_def)
qed

definition fresh :: "opt_run \<Rightarrow> bool" where
  "fresh run \<longleftrightarrow> run_HoldoutCandidateID run = []"

lemma fresh_set_best [simp]: "fresh (set_best i run) = fresh run"
  by (simp add: fresh_def set_best_def)

lemma good_set_best: "good K run r \<Longrightarrow> fresh run \<Longrightarrow> i \<in> K \<Longrightarrow> good K (set_best i run) r"
  by (auto simp: good_for_def set_best_def fresh_def gate_ok_def best_ok_def not_completed_def)

lemma score_loop_inv:
  assumes "\<And>k c. map_of byID k = Some c \<Longrightarrow> own c \<and> k \<in> K"
  shows "triple (inv K fresh) (score_loop x q best byID scs) (\<lambda>_. inv K fresh) (inv K fresh)"
proof (induction scs)
  case Nil
  show ?case by (simp add: triple_retI)
next
  case (Cons sc scs)
  have best: "triple (inv K fresh) (modify_run (if b then set_best (sc_ID sc) else id)) (\<lambda>_. inv K fresh) (inv K fresh)"
    if "map_of byID (sc_ID sc) = Some c" for b c
    by (rule modify_inv) (use assms [OF that] in \<open>simp add: good_set_best\<close>)
  show ?case
    unfolding score_loop.simps Let_def
    by (rule triple_case_option [OF Cons.IH], rule triple_andThen [OF best], assumption, rule triple_andThen [OF transitionCandidate_inv])
      (simp add: assms, rule kept_elim, rule Cons.IH)
qed

lemma byID_entries:
  "map_of (fold (\<lambda>c. gput (oc_ID c) c) cs m) k = Some c \<Longrightarrow> c \<in> set cs \<and> oc_ID c = k \<or> map_of m k = Some c"
proof (induction cs arbitrary: m)
  case (Cons a cs)
  then show ?case using Cons.IH [of "gput (oc_ID a) a m"] by (auto simp: map_simps split: if_splits)
qed simp

lemma touch_and_save_inv:
  assumes "stable C"
  shows "triple (inv K C) (touch_and_save x) (\<lambda>_. inv K C) (inv K C)"
proof -
  have "good K (run\<lparr>run_UpdatedAt := now\<rparr>) r" if "good K run r" for run r now
    by (rule good_change [OF that]) (use good_status [OF that] in simp_all)
  then show ?thesis
    unfolding touch_and_save_def
    by (intro triple_andThen [OF tick_inv] triple_andThen [OF modify_inv save_run_inv] conjI) (auto elim: stableD [OF assms])
qed

lemma stable_top: "stable (\<lambda>_. True)"
  by (simp add: stable_def)

lemma stable_fresh: "stable fresh"
  by (simp add: stable_def fresh_def)

lemma scoreAndPromote_inv: "triple (inv {} fresh) (scoreAndPromote x q) (\<lambda>_. top_inv {}) (top_inv {})"
proof -
  have scored: "triple (inv K fresh) (andThen (score_loop x q best (fold (\<lambda>c. gput (oc_ID c) c) (filter scorable cs) []) scs) (\<lambda>_. touch_and_save x))
      (\<lambda>_. top_inv {}) (top_inv {})"
    if "complete_list run cs" "K = oc_ID ` set cs" for K run cs best scs
  proof -
    have "own c \<and> k \<in> K" if "map_of (fold (\<lambda>c. gput (oc_ID c) c) (filter scorable cs) []) k = Some c" for k c
      using byID_entries [OF that] \<open>complete_list run cs\<close> \<open>K = oc_ID ` set cs\<close> by (auto simp: complete_list_def)
    then have "triple (inv K fresh) (andThen (score_loop x q best (fold (\<lambda>c. gput (oc_ID c) c) (filter scorable cs) []) scs) (\<lambda>_. touch_and_save x))
        (\<lambda>_. inv K fresh) (inv K fresh)"
      by (rule triple_andThen [OF score_loop_inv touch_and_save_inv [OF stable_fresh]])
    then show ?thesis by (rule triple_err [OF triple_post]) (drule inv_top, erule inv_mono, simp)+
  qed
  show ?thesis
    unfolding scoreAndPromote_def Let_def
    apply (rule triple_if, rule triple_raiseI, erule inv_top)
    apply (rule triple_andThen [OF triple_the_run], rule triple_andThen, rule triple_err, rule load_candidates_inv, erule inv_top, rule triple_pure)
    apply (auto intro!: triple_raiseI triple_pre [OF scored] split: sum.splits elim!: inv_mono [OF inv_top])
    done
qed

subsection \<open>Clean-up\<close>

lemma cleanupCandidate_inv:
  assumes "own c"
  shows "triple (inv K C) (cleanupCandidate x c) (\<lambda>_. inv K C) (inv K C)"
proof -
  have saved: "triple (inv K C) (andThen (ignore_error (save_candidate x c')) (\<lambda>_. raise err)) Q (inv K C)" if "own c'" for c' err and Q :: "opt_candidate \<Rightarrow> 'h opt_exec \<Rightarrow> bool"
    by (rule triple_andThen, rule triple_ignore, rule save_candidate_inv [OF that], rule triple_raise)
  have clean: "triple (inv K C) (case ox_cleaner x of None \<Rightarrow> ret c | Some clean \<Rightarrow>
             andThen (tick (\<lambda>i. clean i (oc_ID c))) (\<lambda>(namespaces, err).
             case err of
               None \<Rightarrow> ret (c\<lparr>oc_Data := (oc_Data c)\<lparr>cd_TempNamespaces := namespaces\<rparr>\<rparr>)
             | Some e \<Rightarrow>
                 andThen (ignore_error (save_candidate x (c\<lparr>oc_Data := (oc_Data c)\<lparr>cd_CleanupStatus := CleanupFailed,
                   cd_TempNamespaces := namespaces\<rparr>\<rparr>))) (\<lambda>_. raise (OptCleanupError e)))) (kept K C c) (inv K C)"
    by (rule triple_case_option, rule triple_retI, simp add: kept_def assms, rule triple_andThen [OF tick_inv])
      (auto split: option.splits intro!: triple_retI saved simp: kept_def assms)
  show ?thesis
    unfolding cleanupCandidate_def
    by (rule triple_if, rule triple_retI, assumption, rule triple_andThen [OF clean], rule kept_elim, rule triple_andThen [OF transitionCandidate_inv])
      (simp, rule kept_elim, rule triple_retI)
qed

lemma cleanup_loop_inv: "\<forall>c\<in>set cs. own c \<Longrightarrow> triple (inv K C) (cleanup_loop x cs) (\<lambda>_. inv K C) (inv K C)"
  by (induction cs) (auto intro!: triple_retI triple_andThen [OF cleanupCandidate_inv])

lemma cleanupPending_inv: "triple (inv {} C) (cleanupPendingCandidates x) (\<lambda>_. inv {} C) (inv {} C)"
  unfolding cleanupPendingCandidates_def
  apply (rule triple_andThen [OF triple_the_run], rule triple_andThen [OF load_candidates_inv], rule triple_pure)
  apply (rule triple_pre [OF cleanup_loop_inv], simp add: complete_list_def, erule conjE, erule inv_mono, simp)
  done

subsection \<open>The hold-out\<close>

lemma good_set_holdout: "hr_Passed gate \<Longrightarrow> run_BestCandidateID run = i \<Longrightarrow> good K run r \<Longrightarrow> good K (set_holdout i gate run) r"
  by (auto simp: good_for_def set_holdout_def gate_ok_def best_ok_def not_completed_def)

lemma good_set_gate_failed: "run_HoldoutCandidateID run = [] \<Longrightarrow> good K run r \<Longrightarrow> good K (set_gate_failed gate run) r"
  by (auto simp: good_for_def set_gate_failed_def gate_ok_def best_ok_def not_completed_def)

definition unheld :: "string \<Rightarrow> opt_run \<Rightarrow> bool" where
  "unheld i run \<longleftrightarrow> run_BestCandidateID run = i \<and> run_HoldoutCandidateID run = []"

definition held :: "opt_run \<Rightarrow> bool" where
  "held run \<longleftrightarrow> run_HoldoutCandidateID run \<noteq> []"

lemma stable_held: "stable (unheld i)" "stable held"
  by (simp_all add: stable_def unheld_def held_def)

lemma held_set_holdout: "i \<noteq> [] \<Longrightarrow> held (set_holdout i gate run)"
  by (simp add: held_def set_holdout_def)

lemma gate_failed_inv:
  "triple (inv K (unheld i)) (andThen (modify_run (set_gate_failed gate)) (\<lambda>_. andThen (ignore_error (save_run x)) (\<lambda>_. raise err))) Q (top_inv K)"
  by (rule triple_andThen [OF modify_inv [where D = "\<lambda>_. True"]], simp add: good_set_gate_failed unheld_def,
      rule triple_andThen, rule triple_ignore, rule save_run_inv, rule triple_raise)

lemma gate_passed_inv:
  assumes "hr_Passed gate" and "own c" and "oc_ID c = i" and "i \<noteq> []"
  shows "triple (inv K (unheld i)) (andThen (modify_run (set_holdout (oc_ID c) gate)) (\<lambda>_.
                 andThen (transitionCandidate x c CandidateStatusHoldoutEvaluated None) (\<lambda>c.
                 andThen (transitionCandidate x c CandidateStatusPromoted None) (\<lambda>c.
                 andThen (cleanupCandidate x c) (\<lambda>_. touch_and_save x))))) (\<lambda>_. inv K held) (top_inv K)"
  apply (rule triple_andThen [OF modify_inv [where D = held]], use assms in \<open>simp add: unheld_def good_set_holdout held_set_holdout\<close>)
  apply (rule triple_err, rule triple_andThen [OF transitionCandidate_inv [OF assms(2)]], rule kept_elim)
   apply (rule triple_andThen [OF transitionCandidate_inv], assumption, rule kept_elim)
   apply (rule triple_andThen [OF cleanupCandidate_inv], assumption, rule touch_and_save_inv [OF stable_held(2)])
  apply (erule inv_top)
  done

lemma runHoldout_inv:
  assumes "i \<noteq> []"
  shows "triple (inv {} (unheld i)) (runHoldout x q) (\<lambda>_. inv {} held) (top_inv {})"
  unfolding runHoldout_def
proof (rule triple_andThen [OF triple_the_run], rule triple_andThen, rule triple_err, rule load_candidates_inv, erule inv_top, rule triple_pure,
    rule triple_case_option)
  fix run cs assume "complete_list run cs" "find (\<lambda>c. oc_ID c = run_BestCandidateID run) cs = None"
  then have "run_BestCandidateID run = []" by (auto simp: complete_list_def find_None_iff)
  with assms show "triple (\<lambda>s. inv ({} \<union> oc_ID ` set cs) (unheld i) s \<and> ex_run s = run) (ret ()) (\<lambda>_. inv {} held) (top_inv {})"
    by (intro triple_retI) (auto simp: inv_def unheld_def)
next
  fix run cs c assume cs: "complete_list run cs" and "find (\<lambda>c. oc_ID c = run_BestCandidateID run) cs = Some c"
  then have own: "own c" and best: "oc_ID c = run_BestCandidateID run" by (auto simp: complete_list_def find_Some_iff)
  let ?K = "oc_ID ` set cs"
  let ?rest = "\<lambda>c. let gate = holdoutGateFromCandidate c q;
             c = c\<lparr>oc_Data := (oc_Data c)\<lparr>cd_HoldoutScore := Some (holdout_score q c), cd_HoldoutGate := gate\<rparr>\<rparr>
         in if \<not> hr_Passed gate
            then andThen (modify_run (set_gate_failed gate)) (\<lambda>_.
                 andThen (ignore_error (save_run x)) (\<lambda>_. raise (OptGateFailed (holdoutGateFailureMessage gate))))
            else andThen (modify_run (set_holdout (oc_ID c) gate)) (\<lambda>_.
                 andThen (transitionCandidate x c CandidateStatusHoldoutEvaluated None) (\<lambda>c.
                 andThen (transitionCandidate x c CandidateStatusPromoted None) (\<lambda>c.
                 andThen (cleanupCandidate x c) (\<lambda>_. touch_and_save x))))"
  show "triple (\<lambda>s. inv ({} \<union> ?K) (unheld i) s \<and> ex_run s = run) (andThen (runCandidate x q PhaseHoldout (cfg_HoldoutSplit q) c) ?rest)
      (\<lambda>_. inv {} held) (top_inv {})"
  proof (cases "run_BestCandidateID run = i")
    case True
    have "triple (inv ?K (unheld i)) (?rest c') (\<lambda>_. inv ?K held) (top_inv ?K)" if "own c'" "oc_ID c' = oc_ID c" for c'
      unfolding Let_def by (rule triple_if [OF gate_failed_inv]) (rule gate_passed_inv, use that best True assms in simp_all)
    then have "triple (inv ?K (unheld i)) (andThen (runCandidate x q PhaseHoldout (cfg_HoldoutSplit q) c) ?rest) (\<lambda>_. inv ?K held) (top_inv ?K)"
      by (intro triple_andThen [OF triple_err [OF runCandidate_inv [OF stable_held(1) own]]] kept_elim) (rule inv_top)
    then show ?thesis
      by (rule triple_pre [OF triple_err [OF triple_post]], blast intro: inv_mono, blast intro: inv_mono) simp
  next
    case False
    then show ?thesis by (auto simp: triple_def inv_def unheld_def)
  qed
qed

subsection \<open>The execution\<close>

lemma failRun_inv: "triple (top_inv K) (opt_failRun x err) Q (top_inv K)"
  unfolding opt_failRun_def
  by (rule triple_andThen, rule triple_ignore, rule transitionRun_inv, simp, rule triple_raise)

lemma mark_failed_inv:
  "triple (top_inv K) (modify_run (\<lambda>run. run\<lparr>run_Checkpoint := markFailed i (run_Checkpoint run)\<rparr>)) (\<lambda>_. top_inv K) E"
  by (rule modify_inv, rule conjI, frule good_status, erule good_change) simp_all

lemma select_loop_inv:
  "\<forall>c\<in>set cs. own c \<Longrightarrow> triple (top_inv K) (select_loop x q started completed cs) (\<lambda>_. top_inv K) (top_inv K)"
proof (induction cs)
  case Nil
  show ?case by (simp add: triple_retI)
next
  case (Cons c cs)
  then have own: "own c" and IH: "triple (top_inv K) (select_loop x q started completed cs) (\<lambda>_. top_inv K) (top_inv K)" by simp_all
  have ran: "triple (top_inv K) (on_error (andThen (runCandidate x q PhaseSelection (selectionSplit q) c) (\<lambda>_. ret ())) (\<lambda>err.
      andThen (modify_run (\<lambda>run. run\<lparr>run_Checkpoint := markFailed (oc_ID c) (run_Checkpoint run)\<rparr>)) (\<lambda>_. opt_failRun x err)))
      (\<lambda>_. top_inv K) (top_inv K)"
    by (rule triple_on_error, rule triple_andThen [OF runCandidate_inv [OF stable_top own]], rule kept_elim, rule triple_retI, assumption,
        rule triple_andThen [OF mark_failed_inv failRun_inv])
  show ?case
    unfolding select_loop.simps
    apply (rule triple_if [OF IH], rule triple_andThen [OF shouldStop_inv], rule triple_if, rule triple_retI, assumption)
    apply (rule triple_andThen [OF ran], rule triple_andThen [OF shouldStop_inv], rule triple_if [OF _ IH], rule triple_retI, assumption)
    done
qed

lemma good_closing: "good K run r \<Longrightarrow> closing run r"
  by (auto simp: good_for_def stored_ok_def not_completed_def completed_held_out_def)

abbreviation closing_state :: "'h opt_exec \<Rightarrow> bool" where
  "closing_state s \<equiv> closing (ex_run s) (ex_repo s)"

lemma closing_final: "closing_state s \<Longrightarrow> final s"
  by (simp add: good_for_def final_def)

lemma closing_call:
  assumes "\<And>i r. closing run r \<Longrightarrow> closing run (fst (f i r))"
  shows "triple (\<lambda>s. closing_state s \<and> ex_run s = run) (repo_call x f) (\<lambda>_. closing_state) closing_state"
  unfolding triple_def
proof (intro allI impI)
  fix s assume s: "closing_state s \<and> ex_run s = run"
  have "closing run (fst (f (ex_step s) (ox_env x (ex_step s) (ex_repo s))))"
    using assms s closing_env by blast
  with s show "case repo_call x f s of (s', Inl err) \<Rightarrow> closing_state s' | (s', Inr v) \<Rightarrow> closing_state s'"
    by (auto simp: repo_call_def Let_def split: prod.splits sum.splits)
qed

lemma closing_tick: "triple closing_state (tick f) (\<lambda>_. closing_state) E"
  by (rule triple_tick) simp

lemma completing: "good K run r \<Longrightarrow> held_out run \<Longrightarrow> closing (set_status st stage reason now run) r"
  by (auto simp: good_for_def stored_ok_def set_status_def gate_ok_def best_ok_def not_completed_def completed_held_out_def held_out_def)

lemma complete_final:
  "triple (inv {} held_out) (transitionRun x RunStatusCompleted stage reason) (\<lambda>_. final) final"
  unfolding transitionRun_def save_run_def
  apply (rule triple_andThen [OF tick_inv], rule triple_andThen, rule triple_modify_run [where Q = "\<lambda>_. closing_state"])
   apply (simp add: inv_def, blast intro: completing)
  apply (rule triple_andThen [OF triple_the_run], rule triple_err, rule triple_post, rule closing_call)
    apply (erule good_UpdateRun)
   apply (erule closing_final)+
  done

lemma canceling: "closing run r \<Longrightarrow> closing (set_status RunStatusCanceled stage reason now run) r"
  by (auto simp: good_for_def set_status_def gate_ok_def best_ok_def completed_held_out_def)

lemma cancel_final:
  "triple closing_state (claimRun x expected RunStatusCanceled stage reason) (\<lambda>_. final) final"
  unfolding claimRun_def
  apply (rule triple_andThen [OF closing_tick], rule triple_andThen, rule triple_modify_run [where Q = "\<lambda>_. closing_state"])
   apply (simp add: canceling)
  apply (rule triple_andThen [OF triple_the_run], rule triple_err [OF triple_andThen [OF closing_call]])
    apply (erule good_CASRun)
   apply (rule triple_if)
    apply (rule triple_retI, erule closing_final)
   apply (rule triple_raiseI, assumption)
  apply (erule closing_final)
  done

lemma finish_run_final:
  assumes "cfg_HoldoutSplit q = split"
  shows "triple (top_inv {}) (finish_run x q) (\<lambda>_. final) final"
proof -
  have score: "triple (\<lambda>s. top_inv {} s \<and> ex_run s = run)
      (if run_BestCandidateID run = [] then on_error (scoreAndPromote x q) (opt_failRun x) else ret ()) (\<lambda>_. top_inv {}) final" for run
  proof (rule triple_if)
    assume "run_BestCandidateID run = []"
    then have pre: "inv {} fresh s" if "top_inv {} s \<and> ex_run s = run" for s using that by (auto simp: inv_def fresh_def good_for_def gate_ok_def)
    show "triple (\<lambda>s. top_inv {} s \<and> ex_run s = run) (on_error (scoreAndPromote x q) (opt_failRun x)) (\<lambda>_. top_inv {}) final"
      by (rule triple_on_error, rule triple_pre, rule scoreAndPromote_inv, erule pre, rule triple_err, rule failRun_inv, erule inv_final)
  qed (rule triple_retI, simp)
  have holdout: "triple (\<lambda>s. top_inv {} s \<and> ex_run s = run)
      (if cfg_HoldoutSplit q \<noteq> [] \<and> run_BestCandidateID run \<noteq> [] \<and> run_HoldoutCandidateID run = []
       then on_error (runHoldout x q) (opt_failRun x) else ret ()) (\<lambda>_. inv {} held_out) final" for run
  proof (rule triple_if)
    assume "cfg_HoldoutSplit q \<noteq> [] \<and> run_BestCandidateID run \<noteq> [] \<and> run_HoldoutCandidateID run = []"
    then have best: "run_BestCandidateID run \<noteq> []" and pre: "\<And>s. top_inv {} s \<and> ex_run s = run \<Longrightarrow> inv {} (unheld (run_BestCandidateID run)) s" by (auto simp: inv_def unheld_def)
    have post: "inv {} held_out s" if "inv {} held s" for s using that by (auto simp: inv_def held_def held_out_def)
    show "triple (\<lambda>s. top_inv {} s \<and> ex_run s = run) (on_error (runHoldout x q) (opt_failRun x)) (\<lambda>_. inv {} held_out) final"
      by (rule triple_on_error, rule triple_pre, rule triple_post, rule runHoldout_inv [OF best], erule post, erule pre, rule triple_err, rule failRun_inv, erule inv_final)
  next
    assume "\<not> (cfg_HoldoutSplit q \<noteq> [] \<and> run_BestCandidateID run \<noteq> [] \<and> run_HoldoutCandidateID run = [])"
    then show "triple (\<lambda>s. top_inv {} s \<and> ex_run s = run) (ret ()) (\<lambda>_. inv {} held_out) final"
      using assms by (intro triple_retI) (auto simp: inv_def held_out_def good_for_def)
  qed
  have clean: "triple (inv {} held_out) (on_error (cleanupPendingCandidates x) (opt_failRun x)) (\<lambda>_. inv {} held_out) final"
    by (rule triple_on_error [OF cleanupPending_inv], rule triple_err, rule triple_pre, rule failRun_inv, erule inv_top, erule inv_final)
  show ?thesis
    unfolding finish_run_def
    apply (rule triple_andThen [OF triple_the_run], rule triple_if, rule triple_retI, erule conjE, erule inv_final)
    apply (rule triple_andThen [OF score], rule triple_andThen [OF triple_the_run], rule triple_andThen [OF holdout], rule triple_andThen [OF clean])
    apply (rule triple_andThen [OF get_run_inv], rule triple_if [OF complete_final], rule triple_retI, erule inv_final)
    done
qed

lemma load_run_final:
  "triple final (load_run x tenantID runID)
     (\<lambda>found s. final s \<and> (\<forall>run. found = Some run \<longrightarrow> closing run (ex_repo s) \<and> (not_completed run \<longrightarrow> good {} run (ex_repo s)))) final"
  unfolding triple_def load_run_def
proof (intro allI impI)
  fix s :: "'h opt_exec" assume "final s"
  then have st: "stored_ok runID tenantID split completed_held_out (ox_env x (ex_step s) (ex_repo s))" (is "stored_ok _ _ _ _ ?r")
    unfolding final_def by (rule stored_env_final)
  have "closing run ?r \<and> (not_completed run \<longrightarrow> good {} run ?r)" if "GetOptimizationRun tenantID runID ?r = Some run" for run
  proof -
    have m: "map_of (om_runs ?r) runID = Some run" using that by (auto simp: GetOptimizationRun_def split: option.splits if_splits)
    with st opt_wf_run show ?thesis unfolding good_for_def stored_ok_def by fastforce
  qed
  with st show "case repo_call x (\<lambda>i r. (r, Inr (GetOptimizationRun tenantID runID r))) s of (s', Inl err) \<Rightarrow> final s'
      | (s', Inr found) \<Rightarrow> final s' \<and> (\<forall>run. found = Some run \<longrightarrow> closing run (ex_repo s') \<and> (not_completed run \<longrightarrow> good {} run (ex_repo s')))"
    by (simp add: repo_call_def Let_def final_def)
qed

lemma load_candidates_tenant:
  "triple (\<lambda>s. inv K C s \<and> ex_run s = run) (load_candidates x tenantID (run_ID run))
     (\<lambda>cs s. (inv (K \<union> oc_ID ` set cs) C s \<and> ex_run s = run) \<and> complete_list run cs) (inv K C)"
proof (cases "run_TenantID run = tenantID")
  case True
  then show ?thesis using load_candidates_inv [of K C run] by simp
qed (auto simp: triple_def inv_def good_for_def)

lemma opt_run_exec_final:
  assumes "sq_TenantID q = tenantID" and "cfg_HoldoutSplit q = split"
  shows "triple final (opt_run_exec x runID q) (\<lambda>_. final) final"
proof -
  have listed: "triple (\<lambda>s. inv ({} \<union> oc_ID ` set cs) (\<lambda>_. True) s \<and> ex_run s = run)
      (andThen (select_loop x q started completed cs) (\<lambda>stopped. if stopped then ret () else finish_run x q)) (\<lambda>_. final) final"
    if "complete_list run cs" for run cs started completed
  proof -
    have "triple (top_inv {}) (select_loop x q started completed cs) (\<lambda>_. top_inv {}) final"
      by (rule triple_err, rule select_loop_inv) (use that in \<open>auto simp: complete_list_def intro: inv_final\<close>)
    then have "triple (top_inv {}) (andThen (select_loop x q started completed cs) (\<lambda>stopped. if stopped then ret () else finish_run x q)) (\<lambda>_. final) final"
      by (rule triple_andThen) (rule triple_if, rule triple_retI, erule inv_final, rule finish_run_final [OF assms(2)])
    then show ?thesis by (rule triple_pre) (erule conjE, erule inv_mono, simp)
  qed
  have claimed: "triple (top_inv {}) (andThen (tick (ox_clock x)) (\<lambda>started. andThen (claimRun x RunStatusQueued RunStatusRunning ''running'' []) (\<lambda>_.
      andThen the_run (\<lambda>run. andThen (load_candidates x tenantID (run_ID run)) (\<lambda>cs.
      andThen (select_loop x q started (completedSet (run_Checkpoint run)) cs) (\<lambda>stopped. if stopped then ret () else finish_run x q)))))) (\<lambda>_. final) final"
    by (rule triple_andThen [OF tick_inv], rule triple_andThen, rule triple_err, rule claimRun_inv, simp, erule inv_final,
        rule triple_andThen [OF triple_the_run], rule triple_andThen, rule triple_err, rule load_candidates_tenant, erule inv_final,
        rule triple_pure, erule listed)
  show ?thesis
    unfolding opt_run_exec_def assms(1)
  proof (rule triple_andThen [OF load_run_final], rule triple_case_option)
    fix found :: "opt_run option" and run assume found: "found = Some run"
    let ?P = "\<lambda>s. final s \<and> (\<forall>run. found = Some run \<longrightarrow> closing run (ex_repo s) \<and> (not_completed run \<longrightarrow> good {} run (ex_repo s)))"
    let ?Q = "\<lambda>_ s. closing_state s \<and> (not_completed run \<longrightarrow> top_inv {} s)"
    have set: "triple ?P (modify_run (\<lambda>_. run)) ?Q final"
      by (rule triple_modify_run) (simp add: found inv_def)
    show "triple ?P (andThen (modify_run (\<lambda>_. run)) (\<lambda>_.
         if run_Status run = RunStatusCanceling \<or> run_CancelRequestedAt run \<noteq> None
         then claimRun x (run_Status run) RunStatusCanceled ''canceled'' (run_StatusReason run)
         else if run_Status run \<noteq> RunStatusQueued then raise (OptStateConflict (run_ID run))
         else andThen (tick (ox_clock x)) (\<lambda>started.
              andThen (claimRun x RunStatusQueued RunStatusRunning ''running'' []) (\<lambda>_.
              andThen the_run (\<lambda>run.
              andThen (load_candidates x tenantID (run_ID run)) (\<lambda>cs.
              andThen (select_loop x q started (completedSet (run_Checkpoint run)) cs) (\<lambda>stopped.
              if stopped then ret () else finish_run x q))))))) (\<lambda>_. final) final"
      by (rule triple_andThen [OF set], rule triple_if, rule triple_pre [OF cancel_final], erule conjunct1, rule triple_if,
          rule triple_raiseI, rule closing_final, erule conjunct1, rule triple_pre [OF claimed]) (simp add: not_completed_def)
  qed (rule triple_retI, erule conjunct1)
qed

end

section \<open>Cancellations\<close>

text \<open>The cancellation of any run, this one included, is what the others may do.\<close>

lemma others_behave_refl: "others_behave runID r r"
  unfolding others_behave_def by blast

lemma cancel_behaves: "others_behave runID r (fst (CancelOptimizationRunWithTask bs qnow env tenantID i reason now r))"
proof -
  have "opt_wf r \<Longrightarrow> opt_wf (fst (CancelOptimizationRunWithTask bs qnow env tenantID i reason now r))"
    by (rule Cancel_run_wf)
  then show ?thesis
    unfolding others_behave_def
    by (auto simp: CancelOptimizationRunWithTask_def Let_def map_simps split: option.splits prod.splits sum.splits)
qed

definition cancel_before ::
  "nat \<Rightarrow> (nat \<Rightarrow> entropy) \<Rightarrow> gotime \<Rightarrow> queue_env \<Rightarrow> string \<Rightarrow> string \<Rightarrow> string \<Rightarrow> gotime \<Rightarrow> 'h opt_env \<Rightarrow> 'h opt_env" where
  "cancel_before n bs qnow env tenantID i reason now x =
     x\<lparr>ox_env := (\<lambda>k r. if k = n then fst (CancelOptimizationRunWithTask bs qnow env tenantID i reason now r) else r)\<rparr>"

interpretation canceled: run_execution "cancel_before n bs qnow env t i reason now x" runID tenantID split
  for n bs qnow env t i reason now x runID tenantID split
  by unfold_locales (simp add: cancel_before_def others_behave_refl cancel_behaves)

section \<open>A completed run has passed its hold-out\<close>


text \<open>A run whose selection is done, one candidate, and an environment in which nobody else is at work.\<close>

definition held_request :: SubmitRequest where
  "held_request = config_SubmitRequest (zero_config\<lparr>cfg_HoldoutSplit := ''test''\<rparr>) ''acme'' []"

definition held_run :: opt_run where
  "held_run =
     (new_run ''r'' held_request \<lparr>gr_Strategy = StrategyUnset, gr_SearchSpaceSize = 1, gr_LargeSearchSpace = False, gr_Candidates = [], gr_Stages = []\<rparr> 0)
     \<lparr>run_BestCandidateID := ''c'', run_Checkpoint := zero_checkpoint\<lparr>cp_CompletedCandidateIDs := [''c''], cp_BestCandidateID := ''c''\<rparr>\<rparr>"

definition held_config :: CandidateConfig where
  "held_config =
     \<lparr>cc_ID = ''c'', cc_Hash = [], cc_Prompt = \<lparr>pc_Name = [], pc_System = []\<rparr>,
      cc_Chunking = \<lparr>chc_Enabled = False, chc_SizeTokens = 0, chc_OverlapTokens = 0, chc_ParserMethod = []\<rparr>,
      cc_Embedding = \<lparr>ec_Enabled = False, ec_Model = [], ec_Dimensions = 0\<rparr>, cc_Reranker = \<lparr>rc_Provider = [], rc_Model = [], rc_TopN = 0\<rparr>,
      cc_Retrieval = \<lparr>rtc_DenseTopK = 0, rtc_SparseTopK = 0, rtc_RRFK = 0, rtc_SemanticCacheThreshold = Fin 0\<rparr>,
      cc_Indexing = \<lparr>ic_Namespace = []\<rparr>, cc_Graph = \<lparr>gc_QueryRewriteEnabled = None, gc_HyDEEnabled = None, gc_MultiQueryCount = 0, gc_Modules = []\<rparr>,
      cc_Harness = \<lparr>hc_Kind = [], hc_Command = [], hc_Argv = []\<rparr>\<rparr>"

definition held_state :: "unit opt_exec" where
  "held_state =
     \<lparr>ex_repo = \<lparr>om_runs = [(''r'', held_run)], om_candidates = [(''c'', (new_candidate ''r'' 0 held_config)\<lparr>oc_Status := CandidateStatusScored\<rparr>)],
        om_harness = [], om_taskQueue = Some NewMemoryQueueRepository\<rparr>, ex_step = 0, ex_run = held_run\<rparr>"

definition held_env :: "(nat \<Rightarrow> string + CandidateRunResult) \<Rightarrow> unit opt_env" where
  "held_env runner =
     \<lparr>ox_env = \<lambda>_ r. r, ox_queue = \<lambda>_ _ q. q, ox_qnow = \<lambda>_. 0, ox_clock = \<lambda>_. 0, ox_lease = None, ox_limiter = \<lambda>_. None,
      ox_runner = \<lambda>i _. runner i, ox_cleaner = None, ox_error = \<lambda>_. ''error''\<rparr>"

definition held_result :: CandidateRunResult where
  "held_result =
     \<lparr>crs_EvaluationRunID = ''e'', crs_Metrics = [(''accuracy'', Fin 1)], crs_HoldoutGate = zero_gate, crs_TempNamespaces = [],
      crs_CleanupStatus = CleanupNotRequired\<rparr>"

definition statuses :: "unit opt_exec \<Rightarrow> (RunStatus \<times> string) list \<times> CandidateStatus list" where
  "statuses s = (map (\<lambda>(k, run). (run_Status run, run_HoldoutCandidateID run)) (om_runs (ex_repo s)), map (oc_Status \<circ> snd) (om_candidates (ex_repo s)))"


lemmas exec_defs = andThen_def ret_def raise_def ignore_error_def on_error_def the_run_def modify_run_def tick_def repo_call_def
  load_run_def load_candidates_def save_run_def set_status_def transitionRun_def claimRun_def save_candidate_def transitionCandidate_def
  candidate_startable_def claimCandidate_def opt_failRun_def merge_control_def mergeCurrentRunControlState_def with_result_def account_def
  runCandidate_def touch_and_save_def cleanupCandidate_def cleanupPendingCandidates_def set_holdout_def runHoldout_def finish_run_def
  opt_run_exec_def Let_def

lemmas repo_defs = GetOptimizationRun_def ListOptimizationCandidates_def UpdateOptimizationRun_def CompareAndSwapOptimizationRun_def
  UpdateOptimizationCandidate_def CompareAndSwapOptimizationCandidate_def fenced_def ownsExecutionLocked_def put_run_def put_candidate_def

lemmas held_defs = held_request_def held_run_def held_state_def held_env_def held_result_def new_run_def new_candidate_def zero_checkpoint_def
  config_SubmitRequest_def cloneRunner_def zero_config_def RunConfig.defs SubmitRequest.defs held_config_def

lemmas sample_defs = exec_defs repo_defs statuses_def isCandidateComplete_def PhaseHoldout_def PhaseSelection_def holdoutGateFromCandidate_def
  zero_gate_def completedSet_def




section \<open>Two gaps\<close>

text \<open>
  When the runner fails in the hold-out, the best candidate is stored as failed. Resuming the run does not reset it, and the
  hold-out starts from scored candidates only: the resumed run fails with a conflict, whatever the runner does now.
\<close>

lemmas resume_defs = Resume_def resume_request_def isEmptySubmitRequest_def config_IsZero_def RunConfigFromSubmitRequest_def
  validateResumeConfigInvariant_def storedConfig_def changedResumeConfigField_def zero_config_def RunConfig.defs isResumableRunStatus_def
  resumed_run_def ResumeOptimizationRunWithTask_def recover_candidates_def recoveredCandidateStatus_def

lemma failed_holdout_not_resumable:
  defines "failed \<equiv> fst (opt_run_exec (held_env (\<lambda>_. Inl ''timeout'')) ''r'' held_request held_state)"
  defines "resumed \<equiv> failed\<lparr>ex_repo := fst (Resume False None (\<lambda>_. None) 0 0 id ''acme'' ''r'' held_request (ex_repo failed))\<rparr>"
  shows "statuses failed = ([(RunStatusFailed, [])], [CandidateStatusFailed])"
    and "statuses resumed = ([(RunStatusQueued, [])], [CandidateStatusFailed])"
    and "snd (opt_run_exec (held_env (\<lambda>_. Inr held_result)) ''r'' held_request resumed) = Inl (OptStateConflict ''c'')"
  unfolding resumed_def failed_def held_defs by (simp add: sample_defs, (simp add: sample_defs resume_defs)+)

text \<open>
  \<^verbatim>\<open>mergeCurrentRunControlState\<close> and the write that follows are two calls: the write stores the shared run, whatever the
  others, a cancellation for instance, have stored in between.
\<close>

lemma save_overwrites_cancellation:
  assumes "save_run x s = (s', Inr ())"
  shows "map_of (om_runs (ex_repo s')) (run_ID (ex_run s)) = Some (ex_run s)"
  using assms
  by (auto simp: save_run_def andThen_def the_run_def repo_call_def Let_def UpdateOptimizationRun_def fenced_def put_run_def map_simps
      split: prod.splits sum.splits bool.splits)

section \<open>Resuming\<close>

text \<open>A run is resumed with the configuration it was submitted with; only the budget may change.\<close>

lemma resume_keeps_configuration:
  assumes "Resume d b bs qnow now env tenantID runID q r = (r', Inr run')" and "GetOptimizationRun tenantID runID r = Some run"
  shows "RunConfigFromSubmitRequest (resume_request run tenantID q) = (storedConfig run)\<lparr>cfg_Budget := cfg_Budget (resume_request run tenantID q)\<rparr> \<and>
    isResumableRunStatus (run_Status run) \<and> rd_Config (run_Data run') = RunConfigFromSubmitRequest (resume_request run tenantID q)"
proof -
  let ?q = "resume_request run tenantID q"
  have v: "validateResumeConfigInvariant run ?q = None" "isResumableRunStatus (run_Status run)" "rd_Config (run_Data run') = RunConfigFromSubmitRequest ?q"
    using assms by (auto simp: Resume_def Let_def resumed_run_def split: option.splits if_splits prod.splits sum.splits)
  then have "changedResumeConfigField (storedConfig run) (RunConfigFromSubmitRequest ?q) = []"
    by (auto simp: validateResumeConfigInvariant_def Let_def split: if_splits)
  then have "RunConfigFromSubmitRequest ?q = (storedConfig run)\<lparr>cfg_Budget := cfg_Budget (RunConfigFromSubmitRequest ?q)\<rparr>"
    by (auto simp: changedResumeConfigField_def split: if_splits intro!: RunConfig.equality)
  then show ?thesis using v(2,3) by (simp add: RunConfigFromSubmitRequest_def RunConfig.defs)
qed

end
