(* ===== verification/Spec2Isabelle.thy ===== *)
theory Spec2Isabelle
  imports TaskQueueProps TaskService TaskWorker ReleaseProps PipelineProps AuthProps KBComposite Chunker OptExprProps OptSearchProps OptObjectiveProps OptRepoProps Datasets RagProps EvalScoreProps EvalStatsProps OfflineCron OfflineHistory OfflineScheduler OfflineShadow OfflineProps EvalPolicy AuditList Controllers OptServiceProps
begin

text \<open>
  A verification library for ORAG, a retrieval-augmented generation service written in Go.

  \<^bold>\<open>The program.\<close> ORAG ingests documents into knowledge bases, answers questions over them with a
  language model, evaluates and optimises its pipelines, and releases pipeline versions through
  environments. Long work runs as tasks: services enqueue tasks (\<^verbatim>\<open>internal/taskqueue\<close>), worker
  pools lease and execute them. Pipelines are drafted and validated (\<^verbatim>\<open>internal/pipeline\<close>), then
  released, promoted and rolled back (\<^verbatim>\<open>internal/release\<close>). Every request carries a principal,
  authenticated by an API key and authorised by a policy (\<^verbatim>\<open>internal/auth\<close>), and mutations are
  recorded in an audit log (\<^verbatim>\<open>internal/audit\<close>). Ingestion splits text into chunks
  (\<^verbatim>\<open>internal/ingest/chunker\<close>), indexers store them, retrievers rank them (\<^verbatim>\<open>internal/kb\<close>). The
  optimizer searches a space of configurations and ranks them by an objective
  (\<^verbatim>\<open>internal/optimizer\<close>) over evaluation metrics (\<^verbatim>\<open>internal/eval\<close>). A scheduler mines the history of
  questions for reviewed answers, rewrites and gaps (\<^verbatim>\<open>internal/offlineknowledge\<close>).

  \<^bold>\<open>Conventions.\<close> Each component's state is a record with the fields of the Go struct, each method a
  definition that takes the state and returns the new one with the method's results; errors are
  values of a sum type. What the code draws from outside, the clock, random bytes, callbacks, is an
  argument. A method that holds a mutex is one atomic step; where the code releases the mutex in the
  middle, the model has the steps in between. Go maps are association lists whose order is the order
  a \<^verbatim>\<open>range\<close> loop happens to take. Strings are byte strings. \<^verbatim>\<open>int64\<close> counters whose overflow
  matters are 64-bit words; other integers are \<open>int\<close>. Tables of Unicode properties beyond the
  stated range are an argument, as is the decimal text of a \<^verbatim>\<open>float64\<close>.

  \<^bold>\<open>Foundations.\<close> \<open>Prelude\<close>: time, Go maps (locale \<open>keyed_store\<close>), comparator sorting (locale
  \<open>keyed_less\<close>), \<^verbatim>\<open>strings.TrimSpace\<close>, identifiers (\<^verbatim>\<open>platform/id\<close>), optimistic revisions (locale
  \<open>revision_store\<close>). \<open>Float64\<close>: IEEE 754 binary64, each operation rounded once (no fused
  multiply-add, as on amd64), with monotonicity and exactness of rounding; the two zeros are one
  value. \<open>GoText\<close>, \<open>Utf8\<close>: UTF-8 decoding and encoding with their round trip, character classes,
  \<^verbatim>\<open>strings\<close>. \<open>GoJson\<close>: the text \<^verbatim>\<open>encoding/json\<close> writes. \<open>Crypto\<close>: base64url and SHA-256. \<open>GoTime\<close>: the
  proleptic Gregorian calendar of package \<^verbatim>\<open>time\<close> in UTC and its RFC 3339 text.

  \<^bold>\<open>Task queue.\<close> \<open>TaskQueue\<close> models \<^verbatim>\<open>taskqueue/repository_memory.go\<close> and the types it uses: enqueue,
  lease, heartbeat, progress, completion, failure with back-off, cancellation, retry, listing.
  \<open>TaskQueueLemmas\<close> and \<open>TaskQueueProps\<close> show a well-formedness invariant of every reachable queue,
  the life cycle of a task, fencing by lease generation, exclusive resources, work conservation of a
  lease round, idempotent enqueueing and complete pagination (with as much fuel as tasks).
  \<open>TaskService\<close> is the tenant facade (\<^verbatim>\<open>service.go\<close>): isolation of tenants and projects.
  \<open>TaskWorker\<close> is the pool (\<^verbatim>\<open>worker.go\<close>): dispatch loses no task, the outcome of
  an execution, and the race in which a stale cancellation reaches a new owner.

  \<^bold>\<open>Audit log.\<close> \<open>AuditLog\<close>: the buffered writer of \<^verbatim>\<open>audit/service.go\<close> as a step relation; nothing
  accepted is lost, and the race at shutdown. \<open>AuditList\<close>: the listing of \<^verbatim>\<open>repository_memory.go\<close> with the text of its
  cursor, as \<^verbatim>\<open>fmt.Sscanf\<close> reads it; following the cursors yields every matching event once.

  \<^bold>\<open>Releases.\<close> \<open>ReleaseFlow\<close>, \<open>ReleaseProps\<close>: environments, validation, promotion and rollback of
  \<^verbatim>\<open>internal/release\<close>; the event log replays to the state, promotions follow the order of the
  environments, commits are optimistic.

  \<^bold>\<open>Pipelines.\<close> \<open>PipelineDef\<close>, \<open>PipelineProps\<close>: the node registry, the validator and the drafts of
  \<^verbatim>\<open>internal/pipeline\<close>; the reachability search is correct, a valid pipeline is well formed and
  acyclic, and drafts lose no update. The depth-first search is bounded by the number of nodes.

  \<^bold>\<open>Authentication and authorisation.\<close> \<open>Auth\<close>, \<open>AuthProps\<close>: the policy and the API keys of
  \<^verbatim>\<open>internal/auth\<close>; access is confined to the principal's tenant, project and role, an issued key
  authenticates, and only issued keys do.

  \<^bold>\<open>Knowledge bases.\<close> \<open>KBStore\<close>, \<open>KBRetrieval\<close>, \<open>KBRanking\<close>, \<open>KBStoreProps\<close>, \<open>KBComposite\<close>: the
  in-memory store with staged activation, the retrievers, rank fusion (specified in exact rational
  arithmetic and shown monotone in \<^verbatim>\<open>float64\<close>), and the composite indexer, whose activation is all or
  nothing for participants that keep the contract of the locale \<open>activation_participant\<close>; the memory
  store is proved to keep it.

  \<^bold>\<open>Chunker.\<close> \<open>Chunker\<close>: \<^verbatim>\<open>ingest/chunker\<close> on bytes; chunks preserve the text, and their size is
  bounded. The window loop advances by at least one unit, so it needs no fuel.

  \<^bold>\<open>Optimizer.\<close> \<open>OptExpr\<close>, \<open>OptExprProps\<close>: the expression language of objectives; its parser, which
  carries fuel of one unit per token, always returns, implements its grammar exactly, and compiled
  expressions evaluate safely. \<open>OptSearch\<close>, \<open>OptSearchProps\<close>: candidates, the grid, its sampling, and
  successive halving, whose loop is a partial function: it returns for every fraction that is a
  number, and never for NaN. \<open>MetricRegistry\<close>: the catalogue of metrics (\<^verbatim>\<open>eval/metric_registry.go\<close>).
  \<open>OptObjective\<close>, \<open>OptObjectiveProps\<close>: constraints, Pareto front and ranking (\<^verbatim>\<open>objective.go\<close>), which does
  not depend on the order of the candidates. \<open>OptRepo\<close>, \<open>OptRepoProps\<close>: the in-memory repository of runs,
  candidates, executions and checkpoints; writes of an execution that lost its lease are fenced (locale
  \<open>fenced_write\<close>), over the generations that the task queue hands out. \<open>OptService\<close>, \<open>OptTask\<close>: the service
  (\<^verbatim>\<open>service.go\<close>, \<^verbatim>\<open>run_config.go\<close>, \<^verbatim>\<open>task.go\<close>, \<^verbatim>\<open>namespace.go\<close>, \<^verbatim>\<open>ratelimit.go\<close>) as programs over the repository, with other
  callers before each of its calls. \<open>OptServiceProps\<close>: triples for these programs and a rely condition (locale
  \<open>run_execution\<close>, which cancellations are proved to keep); a run that ends completed has held out its best candidate
  and passed the gate, whatever the runner answers and wherever an execution stops. Two gaps are shown: a hold-out that failed cannot be
  resumed, and a cancellation can be overwritten.

  \<^bold>\<open>Queries.\<close> \<open>RagContext\<close>: the query router, the context packer within its budget, the check of citations.
  \<open>RagCache\<close>: the semantic cache, whose hits stay in the tenant and knowledge base up to letter case.
  \<open>RagService\<close>, \<open>RagProps\<close>: \<^verbatim>\<open>rag.Service.Execute\<close> with rewriting, expansion, retrieval, reranking, offline
  shadow items, packing, generation and caching; its answers are confined to the knowledge base of the
  request, for every retriever that keeps the contract of the locale \<open>scoped_service\<close>, which the service
  over the memory store is proved to keep. The language model is an argument.

  \<^bold>\<open>Datasets and evaluation.\<close> \<open>Datasets\<close>: the dataset service and its in-memory repository, with other
  callers between its calls. \<open>EvalScore\<close>, \<open>EvalScoreProps\<close>: the deterministic metrics of an answer; the
  retrieval metrics lie in the unit interval under rounding, for every \<^verbatim>\<open>math.Log2\<close> that is monotone and
  exact at two. \<open>EvalStats\<close>, \<open>EvalStatsProps\<close>: summaries with confidence intervals, paired comparison,
  comparability, frozen datasets and the hold-out gate; the decision of a comparison is a count over the
  resampled differences. \<^verbatim>\<open>math.Log2\<close>, \<^verbatim>\<open>math.Pow\<close>, the random source and the JSON text of a dataset are
  arguments. \<open>EvalPolicy\<close>: the policies of \<^verbatim>\<open>internal/evaluationpolicy\<close>, whose revisions are numbered without gaps under
  overlapping calls, and the evidence that freezes a run against the gates of a policy.

  \<^bold>\<open>Offline knowledge.\<close> The theories \<open>Offline*\<close> model \<^verbatim>\<open>internal/offlineknowledge\<close>. \<open>OfflineRepo\<close>: the runs,
  clusters, items and events with the in-memory repository, and the table of status transitions.
  \<open>OfflineCodex\<close>: the checks of an analysis (\<^verbatim>\<open>codex.go\<close>), the source reader, the replay of a question, and the
  validator: evidence it accepts quotes a current chunk of the tenant's knowledge base. \<open>OfflineService\<close>: runs,
  cluster processing, review, revalidation and regression of \<^verbatim>\<open>service.go\<close>, with other callers between its
  repository calls. \<open>OfflineHistory\<close>: the join of traces and feedback, and clustering, which counts every
  question once. \<open>OfflineShadow\<close>: shadow retrieval, confined to eligible items of the tenant and knowledge
  base. \<open>OfflineCron\<close>, \<open>OfflineScheduler\<close>: cron expressions, whose next time is the first matching minute
  within the searched 366 * 5 days, and one trigger of the scheduler, which serves each target once.
  \<open>OfflineProps\<close>: over every sequence of service calls, an item is published only after a regression of it
  passed, and a refused review changes nothing; three races and gaps of the life cycle are shown on examples.

  \<^bold>\<open>Controllers.\<close> \<open>Controllers\<close>: the admission of operations within a budget (\<^verbatim>\<open>internal/execution\<close>), with
  every order of starts and releases, and the handling of an alert (\<^verbatim>\<open>internal/operations\<close>), whose scope does not
  depend on the order of a map.

  \<^bold>\<open>Not modelled, and why.\<close> The PostgreSQL and Qdrant adapters are SQL and requests to services outside
  the repository. The HTTP router, the MCP server, the command-line programs and the console translate
  requests for the services above. The language-model clients, the evaluation judge and the Codex
  runner depend on remote models. Configuration, observability, diagnostics, packaging and the SDK are
  glue. Session tokens (\<^verbatim>\<open>auth/token.go\<close>) need a JSON decoder. Tutorials work on the file system. Projects put
  a check of names in front of SQL. The rest of the optimizer is its harness and the runner of candidates, which call the
  evaluation service, and with it the language model.
\<close>

end
